(* ===== verification/Prelude.thy ===== *)
theory Prelude
  imports Main "HOL-Library.Word" "HOL-Library.Finite_Map" "HOL-Library.Sublist"
begin

section \<open>Shared vocabulary of the development\<close>

text \<open>
  What every component theory uses: Go strings as byte lists with the functions of package
  strings the source calls, Go times and durations as nanosecond counts, Go maps as finite maps,
  and the generic lemmas and fact collections the component proofs share.
\<close>

named_theorems trim_simps \<open>facts about white-space trimming\<close>
named_theorems map_len \<open>sizes of Go maps after updates and deletions\<close>

subsection \<open>Strings of package strings\<close>

text \<open>
  A Go string is a sequence of bytes, and so is an Isabelle \<open>string\<close>. \<open>TrimSpace\<close> removes the
  UTF-8 encodings of the code points with the Unicode property White_Space. \<open>ToLower\<close> is given on
  ASCII letters; bytes from 128 on are left alone, so the model agrees with Go on every string
  whose non-ASCII letters have no case.
\<close>

definition space_runes :: "string list" where
  "space_runes =
     [[CHR 0x09], [CHR 0x0A], [CHR 0x0B], [CHR 0x0C], [CHR 0x0D], [CHR 0x20],
      [CHR 0xC2, CHR 0x85], [CHR 0xC2, CHR 0xA0], [CHR 0xE1, CHR 0x9A, CHR 0x80],
      [CHR 0xE2, CHR 0x80, CHR 0x80], [CHR 0xE2, CHR 0x80, CHR 0x81], [CHR 0xE2, CHR 0x80, CHR 0x82],
      [CHR 0xE2, CHR 0x80, CHR 0x83], [CHR 0xE2, CHR 0x80, CHR 0x84], [CHR 0xE2, CHR 0x80, CHR 0x85],
      [CHR 0xE2, CHR 0x80, CHR 0x86], [CHR 0xE2, CHR 0x80, CHR 0x87], [CHR 0xE2, CHR 0x80, CHR 0x88],
      [CHR 0xE2, CHR 0x80, CHR 0x89], [CHR 0xE2, CHR 0x80, CHR 0x8A], [CHR 0xE2, CHR 0x80, CHR 0xA8],
      [CHR 0xE2, CHR 0x80, CHR 0xA9], [CHR 0xE2, CHR 0x80, CHR 0xAF], [CHR 0xE2, CHR 0x81, CHR 0x9F],
      [CHR 0xE3, CHR 0x80, CHR 0x80]]"

function strip_runes :: "string list \<Rightarrow> string \<Rightarrow> string" where
  "strip_runes ws s =
     (case find (\<lambda>w. w \<noteq> [] \<and> prefix w s) ws of
        None \<Rightarrow> s
      | Some w \<Rightarrow> strip_runes ws (drop (length w) s))"
  by pat_completeness auto
termination
  by (relation "measure (\<lambda>(ws, s). length s)") (auto simp: find_Some_iff prefix_def)

declare strip_runes.simps [simp del]

definition trim_left :: "string \<Rightarrow> string" where
  "trim_left s = strip_runes space_runes s"

definition trim_right :: "string \<Rightarrow> string" where
  "trim_right s = rev (strip_runes (map rev space_runes) (rev s))"

definition trim_space :: "string \<Rightarrow> string" where
  "trim_space s = trim_right (trim_left s)"

definition lower_byte :: "char \<Rightarrow> char" where
  "lower_byte c =
     (let n = (of_char c :: nat) in if 65 \<le> n \<and> n \<le> 90 then char_of (n + 32) else c)"

definition to_lower :: "string \<Rightarrow> string" where
  "to_lower s = map lower_byte s"

definition has_prefix :: "string \<Rightarrow> string \<Rightarrow> bool" where
  "has_prefix s p = prefix p s"

definition has_suffix :: "string \<Rightarrow> string \<Rightarrow> bool" where
  "has_suffix s p = suffix p s"

definition trim_prefix :: "string \<Rightarrow> string \<Rightarrow> string" where
  "trim_prefix s p = (if prefix p s then drop (length p) s else s)"

definition trim_suffix :: "string \<Rightarrow> string \<Rightarrow> string" where
  "trim_suffix s p = (if suffix p s then take (length s - length p) s else s)"

text \<open>\<open>strings.Index\<close>: the least offset of an occurrence, \<open>None\<close> for the source's -1.\<close>

fun str_index :: "string \<Rightarrow> string \<Rightarrow> nat option" where
  "str_index [] p = (if p = [] then Some 0 else None)"
| "str_index (c # s) p =
     (if prefix p (c # s) then Some 0 else map_option Suc (str_index s p))"

text \<open>\<open>strings.Split\<close> at a one-byte separator: always at least one part.\<close>

fun split_byte :: "char \<Rightarrow> string \<Rightarrow> string list" where
  "split_byte d [] = [[]]"
| "split_byte d (c # s) =
     (if c = d then [] # split_byte d s
      else (case split_byte d s of [] \<Rightarrow> [[c]] | p # ps \<Rightarrow> (c # p) # ps))"

lemma strip_runes_suffix: "suffix (strip_runes ws s) s"
proof (induction ws s rule: strip_runes.induct)
  case (1 ws s)
  show ?case
  proof (cases "find (\<lambda>w. w \<noteq> [] \<and> prefix w s) ws")
    case None
    then show ?thesis by (simp add: strip_runes.simps [of ws s])
  next
    case (Some w)
    with "1.IH" have "suffix (strip_runes ws (drop (length w) s)) (drop (length w) s)" by simp
    then have "suffix (strip_runes ws (drop (length w) s)) s"
      using suffix_drop suffix_order.trans by blast
    with Some show ?thesis by (simp add: strip_runes.simps [of ws s])
  qed
qed

lemma strip_runes_done: "\<not> (\<exists>w \<in> set ws. w \<noteq> [] \<and> prefix w (strip_runes ws s))"
proof (induction ws s rule: strip_runes.induct)
  case (1 ws s)
  show ?case
  proof (cases "find (\<lambda>w. w \<noteq> [] \<and> prefix w s) ws")
    case None
    then have "strip_runes ws s = s" by (simp add: strip_runes.simps [of ws s])
    with None show ?thesis by (auto simp: find_None_iff)
  next
    case (Some w)
    with "1.IH" show ?thesis by (simp add: strip_runes.simps [of ws s])
  qed
qed

lemma strip_runes_id: "\<not> (\<exists>w \<in> set ws. w \<noteq> [] \<and> prefix w s) \<Longrightarrow> strip_runes ws s = s"
  by (subst strip_runes.simps) (auto simp: find_None_iff split: option.split dest!: find_Some_iff [THEN iffD1])

lemma trim_right_prefix: "prefix (trim_right s) s"
  using strip_runes_suffix [of "map rev space_runes" "rev s"]
  by (simp add: trim_right_def suffix_to_prefix)

lemma trim_left_idem [trim_simps]: "trim_left (trim_left s) = trim_left s"
  by (simp add: trim_left_def strip_runes_id strip_runes_done)

lemma trim_right_idem [trim_simps]: "trim_right (trim_right s) = trim_right s"
  by (simp add: trim_right_def strip_runes_id strip_runes_done del: set_map)

lemma trim_left_right [trim_simps]: "trim_left (trim_right (trim_left s)) = trim_right (trim_left s)"
proof -
  have "\<not> (\<exists>w \<in> set space_runes. w \<noteq> [] \<and> prefix w (trim_right (trim_left s)))"
    using strip_runes_done [of space_runes s] trim_right_prefix [of "trim_left s"]
    by (auto simp: trim_left_def dest: prefix_order.trans)
  then show ?thesis by (simp add: trim_left_def strip_runes_id)
qed

lemma trim_space_idem [simp, trim_simps]: "trim_space (trim_space s) = trim_space s"
  by (simp add: trim_space_def trim_simps)

lemma trim_space_Nil [simp, trim_simps]: "trim_space [] = []"
  by (simp add: trim_space_def trim_left_def trim_right_def strip_runes_id)

lemma lower_byte_idem [simp]: "lower_byte (lower_byte c) = lower_byte c"
  by (auto simp: lower_byte_def Let_def)

lemma to_lower_idem [simp]: "to_lower (to_lower s) = to_lower s"
  by (simp add: to_lower_def)

lemma to_lower_Nil [simp]: "to_lower [] = []" "to_lower s = [] \<longleftrightarrow> s = []"
  by (simp_all add: to_lower_def)

lemma length_to_lower [simp]: "length (to_lower s) = length s"
  by (simp add: to_lower_def)

lemma to_lower_append [simp]: "to_lower (s @ t) = to_lower s @ to_lower t"
  by (simp add: to_lower_def)

lemma split_byte_ne [simp]: "split_byte d s \<noteq> []"
  by (induction s) (auto split: list.split)

lemma str_index_Some:
  "str_index s p = Some i \<Longrightarrow> i \<le> length s \<and> prefix p (drop i s) \<and> (\<forall>j<i. \<not> prefix p (drop j s))"
proof (induction s p arbitrary: i rule: str_index.induct)
  case (1 p)
  then show ?case by (auto split: if_splits)
next
  case (2 c s p)
  show ?case
  proof (cases "prefix p (c # s)")
    case True
    with "2.prems" show ?thesis by simp
  next
    case False
    with "2.prems" obtain k where k: "str_index s p = Some k" "i = Suc k" by auto
    with "2.IH" [OF False k(1)] False show ?thesis
      by (auto simp: less_Suc_eq_0_disj)
  qed
qed

lemma str_index_None: "str_index s p = None \<Longrightarrow> \<not> prefix p (drop j s)"
proof (induction s p arbitrary: j rule: str_index.induct)
  case (1 p)
  then show ?case by (auto split: if_splits)
next
  case (2 c s p)
  then show ?case by (cases j) (auto split: if_splits)
qed

lemma split_at: "c \<notin> set p \<Longrightarrow> c \<notin> set q \<Longrightarrow> p @ c # x = q @ c # y \<longleftrightarrow> p = q \<and> x = y"
  by (induction p arbitrary: q; case_tac q) auto

subsection \<open>Times and durations\<close>

text \<open>
  A \<open>time.Time\<close> is the number of nanoseconds since Go's zero time (1 January of year 1), so
  \<open>IsZero\<close> is comparison with 0; a \<open>time.Duration\<close> is a signed 64-bit nanosecond count. \<open>Sub\<close>
  saturates at the duration bounds, and multiplying an int by \<open>time.Second\<close> wraps.
\<close>

type_synonym gotime = int
type_synonym duration = int

definition wrap64 :: "int \<Rightarrow> int" where
  "wrap64 n = (n + 2 ^ 63) mod 2 ^ 64 - 2 ^ 63"

definition time_sub :: "gotime \<Rightarrow> gotime \<Rightarrow> duration" where
  "time_sub t u = max (- (2 ^ 63)) (min (2 ^ 63 - 1) (t - u))"

definition time_after :: "gotime \<Rightarrow> gotime \<Rightarrow> bool" where
  "time_after t u = (u < t)"

definition time_before :: "gotime \<Rightarrow> gotime \<Rightarrow> bool" where
  "time_before t u = (t < u)"

definition is_zero_time :: "gotime \<Rightarrow> bool" where
  "is_zero_time t = (t = 0)"

definition millisecond :: duration where "millisecond = 1000000"
definition second :: duration where "second = 1000000000"
definition minute :: duration where "minute = 60 * second"
definition hour :: duration where "hour = 60 * minute"

text \<open>\<open>UnixNano\<close> counts from 1 January 1970.\<close>

definition unix_nano :: "gotime \<Rightarrow> int" where
  "unix_nano t = t - 62135596800 * 1000000000"

lemmas time_defs = time_after_def time_before_def is_zero_time_def

lemma wrap64_id: "- (2 ^ 63) \<le> n \<Longrightarrow> n < 2 ^ 63 \<Longrightarrow> wrap64 n = n"
  by (simp add: wrap64_def)

lemma time_sub_exact: "\<bar>t - u\<bar> < 2 ^ 63 \<Longrightarrow> time_sub t u = t - u"
  by (auto simp: time_sub_def)

lemma time_sub_less: "d \<le> 2 ^ 63 - 1 \<Longrightarrow> - (2 ^ 63) < d \<Longrightarrow> time_sub t u < d \<longleftrightarrow> t - u < d"
  by (auto simp: time_sub_def min_def max_def)

lemma time_sub_ge0: "0 \<le> time_sub t u \<longleftrightarrow> u \<le> t"
  by (auto simp: time_sub_def min_def max_def)

subsection \<open>Go maps\<close>

text \<open>
  A Go map is a finite map. Go iterates over a map in an unspecified order; an operation whose
  result depends on that order takes the order as an argument, a list of keys.
\<close>

definition map_length :: "('k, 'v) fmap \<Rightarrow> nat" where
  "map_length m = fcard (fmdom m)"

lemma map_length_empty [simp]: "map_length fmempty = 0"
  by (simp add: map_length_def)

lemma map_length_upd [map_len]:
  "map_length (fmupd k v m) = (if k |\<in>| fmdom m then map_length m else Suc (map_length m))"
  by (simp add: map_length_def fcard_finsert_if)

lemma map_length_drop [map_len]:
  "map_length (fmdrop k m) = (if k |\<in>| fmdom m then map_length m - 1 else map_length m)"
  by (auto simp: map_length_def fcard_fminus_fsingleton)

lemma map_length_pos: "k |\<in>| fmdom m \<Longrightarrow> 0 < map_length m"
  by (auto simp: map_length_def intro: gr0I)

lemma map_length_filter: "map_length (fmfilter p m) \<le> map_length m"
  by (auto simp: map_length_def intro!: fcard_mono)

lemma map_length_drop_le: "map_length (fmdrop k m) \<le> map_length m"
  by (auto simp: map_len)

lemma fmlookup_drop_ne [simp]: "k \<noteq> k' \<Longrightarrow> fmlookup (fmdrop k m) k' = fmlookup m k'"
  by simp

subsection \<open>Stable sorting\<close>

text \<open>
  \<open>sort.SliceStable\<close> with a comparison function: the stable permutation in which no element is
  preceded by a greater one. An element goes in front of those that are not less than it, so equal
  elements keep their order.
\<close>

fun insert_by :: "('a \<Rightarrow> 'a \<Rightarrow> bool) \<Rightarrow> 'a \<Rightarrow> 'a list \<Rightarrow> 'a list" where
  "insert_by lt x [] = [x]"
| "insert_by lt x (y # ys) = (if lt y x then y # insert_by lt x ys else x # y # ys)"

fun slice_stable :: "('a \<Rightarrow> 'a \<Rightarrow> bool) \<Rightarrow> 'a list \<Rightarrow> 'a list" where
  "slice_stable lt [] = []"
| "slice_stable lt (x # xs) = insert_by lt x (slice_stable lt xs)"

lemma set_insert_by [simp]: "set (insert_by lt x ys) = insert x (set ys)"
  by (induction lt x ys rule: insert_by.induct) auto

lemma set_slice_stable [simp]: "set (slice_stable lt xs) = set xs"
  by (induction lt xs rule: slice_stable.induct) auto

lemma distinct_insert_by [simp]: "distinct (insert_by lt x ys) \<longleftrightarrow> x \<notin> set ys \<and> distinct ys"
  by (induction lt x ys rule: insert_by.induct) auto

lemma distinct_slice_stable [simp]: "distinct (slice_stable lt xs) \<longleftrightarrow> distinct xs"
  by (induction lt xs rule: slice_stable.induct) auto

lemma insert_by_ne [simp]: "insert_by lt x ys \<noteq> []"
  by (cases ys) auto

lemma slice_stable_Nil [simp]: "slice_stable lt xs = [] \<longleftrightarrow> xs = []"
  by (cases xs) auto

lemma insert_by_key_sorted:
  assumes "\<And>a b. lt a b \<longleftrightarrow> key a < (key b :: 'k :: linorder)" and "sorted (map key ys)"
  shows "sorted (map key (insert_by lt x ys))"
  using assms(2) by (induction ys) (auto simp: assms(1))

lemma slice_stable_key_sorted:
  assumes "\<And>a b. lt a b \<longleftrightarrow> key a < (key b :: 'k :: linorder)"
  shows "sorted (map key (slice_stable lt xs))"
  by (induction xs) (simp_all add: insert_by_key_sorted [OF assms])

lemma slice_stable_hd_least:
  assumes "\<And>a b. lt a b \<longleftrightarrow> key a < (key b :: 'k :: linorder)" and "y \<in> set xs"
  shows "key (hd (slice_stable lt xs)) \<le> key y"
proof -
  let ?s = "slice_stable lt xs"
  have "y \<in> set ?s" using assms(2) by simp
  moreover have "sorted (map key ?s)" by (rule slice_stable_key_sorted [OF assms(1)])
  ultimately show ?thesis by (cases ?s) auto
qed

lemma slice_stable_hd_in: "xs \<noteq> [] \<Longrightarrow> hd (slice_stable lt xs) \<in> set xs"
  using hd_in_set [of "slice_stable lt xs"] by simp

end
