(* ===== verification/Platforms.thy ===== *)
theory Platforms
  imports Prelude
begin

section \<open>The platform registry\<close>

text \<open>
  \<open>domain/platforms.go\<close> and the platform constants of \<open>domain/constants.go\<close>: the single list of
  concrete platforms, the index built from it when the package is loaded, and the lookups and
  derived lists the rest of the gateway uses.
\<close>

definition PlatformAnthropic :: string where "PlatformAnthropic = ''anthropic''"
definition PlatformOpenAI :: string where "PlatformOpenAI = ''openai''"
definition PlatformGemini :: string where "PlatformGemini = ''gemini''"
definition PlatformAntigravity :: string where "PlatformAntigravity = ''antigravity''"
definition PlatformGrok :: string where "PlatformGrok = ''grok''"
definition PlatformKimi :: string where "PlatformKimi = ''kimi''"
definition PlatformZhipu :: string where "PlatformZhipu = ''zhipu''"
definition PlatformDeepseek :: string where "PlatformDeepseek = ''deepseek''"
definition PlatformMiniMax :: string where "PlatformMiniMax = ''minimax''"
definition PlatformTypeSafe :: string where "PlatformTypeSafe = ''typesafe''"
definition PlatformOpenCodeGo :: string where "PlatformOpenCodeGo = ''opencode_go''"
definition PlatformCommandCode :: string where "PlatformCommandCode = ''command_code''"
definition PlatformCline :: string where "PlatformCline = ''cline''"
definition PlatformComposite :: string where "PlatformComposite = ''composite''"

lemmas platform_ids =
  PlatformAnthropic_def PlatformOpenAI_def PlatformGemini_def PlatformAntigravity_def
  PlatformGrok_def PlatformKimi_def PlatformZhipu_def PlatformDeepseek_def PlatformMiniMax_def
  PlatformTypeSafe_def PlatformOpenCodeGo_def PlatformCommandCode_def PlatformCline_def
  PlatformComposite_def

datatype PlatformGateway = GatewayAnthropic | GatewayOpenAI | GatewayGemini | GatewayAntigravity

record PlatformSpec =
  spec_ID :: string
  spec_DisplayName :: string
  spec_Gateway :: PlatformGateway
  spec_CNProvider :: bool
  spec_LiteLLMProvider :: string

definition mk_spec ::
  "string \<Rightarrow> string \<Rightarrow> PlatformGateway \<Rightarrow> bool \<Rightarrow> string \<Rightarrow> PlatformSpec" where
  "mk_spec i d g cn ll =
     \<lparr>spec_ID = i, spec_DisplayName = d, spec_Gateway = g, spec_CNProvider = cn,
      spec_LiteLLMProvider = ll\<rparr>"

definition platformList :: "PlatformSpec list" where
  "platformList =
     [mk_spec PlatformAnthropic ''Anthropic'' GatewayAnthropic False ''anthropic'',
      mk_spec PlatformOpenAI ''OpenAI'' GatewayOpenAI False ''openai'',
      mk_spec PlatformGemini ''Gemini'' GatewayGemini False ''gemini'',
      mk_spec PlatformAntigravity ''Antigravity'' GatewayAntigravity False ''anthropic'',
      mk_spec PlatformGrok ''Grok'' GatewayOpenAI False ''xai'',
      mk_spec PlatformKimi ''Kimi'' GatewayOpenAI True ''moonshot'',
      mk_spec PlatformZhipu ''Zhipu GLM'' GatewayOpenAI True ''zhipu'',
      mk_spec PlatformDeepseek ''DeepSeek'' GatewayOpenAI True ''deepseek'',
      mk_spec PlatformMiniMax ''MiniMax'' GatewayOpenAI True ''minimax'',
      mk_spec PlatformOpenCodeGo ''OpenCode'' GatewayOpenAI False ''opencode-go'',
      mk_spec PlatformTypeSafe ''TypeSafe / Jev'' GatewayAnthropic False ''typesafe'',
      mk_spec PlatformCommandCode ''Command Code'' GatewayOpenAI False [],
      mk_spec PlatformCline ''Cline'' GatewayOpenAI False []]"

text \<open>The loop that fills \<open>platformIndex\<close>: a later entry with the same ID would win.\<close>

fun index_platforms :: "nat \<Rightarrow> PlatformSpec list \<Rightarrow> (string, nat) fmap \<Rightarrow> (string, nat) fmap" where
  "index_platforms i [] m = m"
| "index_platforms i (s # ss) m = index_platforms (Suc i) ss (fmupd (spec_ID s) i m)"

definition platformIndex :: "(string, nat) fmap" where
  "platformIndex = index_platforms 0 platformList fmempty"

definition Platforms_all :: "PlatformSpec list" where
  "Platforms_all = platformList"

definition LookupPlatform :: "string \<Rightarrow> PlatformSpec option" where
  "LookupPlatform i =
     (case fmlookup platformIndex i of None \<Rightarrow> None | Some k \<Rightarrow> Some (platformList ! k))"

definition IsConcretePlatform :: "string \<Rightarrow> bool" where
  "IsConcretePlatform i = (fmlookup platformIndex i \<noteq> None)"

definition IsGroupPlatform :: "string \<Rightarrow> bool" where
  "IsGroupPlatform i = (i = PlatformComposite \<or> IsConcretePlatform i)"

fun platform_ids_where :: "(PlatformSpec \<Rightarrow> bool) \<Rightarrow> PlatformSpec list \<Rightarrow> string list" where
  "platform_ids_where p [] = []"
| "platform_ids_where p (s # ss) =
     (if p s then spec_ID s # platform_ids_where p ss else platform_ids_where p ss)"

definition PlatformIDsWhere :: "(PlatformSpec \<Rightarrow> bool) \<Rightarrow> string list" where
  "PlatformIDsWhere p = platform_ids_where p platformList"

definition ConcretePlatformIDs :: "string list" where
  "ConcretePlatformIDs = PlatformIDsWhere (\<lambda>_. True)"

definition compositePrecedenceHead :: "string list" where
  "compositePrecedenceHead = [PlatformAnthropic, PlatformGemini, PlatformOpenAI]"

text \<open>\<open>CompositePrecedencePlatformIDs\<close>: the two loops share the \<open>seen\<close> set.\<close>

fun precedence_head :: "string list \<Rightarrow> string list \<Rightarrow> string fset \<Rightarrow> string list \<times> string fset" where
  "precedence_head [] out seen = (out, seen)"
| "precedence_head (i # is) out seen =
     (if IsConcretePlatform i then precedence_head is (out @ [i]) (finsert i seen)
      else precedence_head is out seen)"

fun precedence_rest :: "PlatformSpec list \<Rightarrow> string fset \<Rightarrow> string list" where
  "precedence_rest [] seen = []"
| "precedence_rest (s # ss) seen =
     (if spec_ID s |\<in>| seen then precedence_rest ss seen else spec_ID s # precedence_rest ss seen)"

definition CompositePrecedencePlatformIDs :: "string list" where
  "CompositePrecedencePlatformIDs =
     (case precedence_head compositePrecedenceHead [] {||} of
        (out, seen) \<Rightarrow> out @ precedence_rest platformList seen)"

definition UsesOpenAIGateway :: "string \<Rightarrow> bool" where
  "UsesOpenAIGateway i =
     (case LookupPlatform i of None \<Rightarrow> False | Some s \<Rightarrow> spec_Gateway s = GatewayOpenAI)"

definition IsCNProviderPlatform :: "string \<Rightarrow> bool" where
  "IsCNProviderPlatform i =
     (case LookupPlatform i of None \<Rightarrow> False | Some s \<Rightarrow> spec_CNProvider s)"

subsection \<open>Lemmas\<close>

lemma index_platforms_other:
  "x \<notin> set (map spec_ID ss) \<Longrightarrow> fmlookup (index_platforms i ss m) x = fmlookup m x"
  by (induction i ss m rule: index_platforms.induct) auto

lemma index_platforms_nth:
  "distinct (map spec_ID ss) \<Longrightarrow> k < length ss \<Longrightarrow>
   fmlookup (index_platforms i ss m) (spec_ID (ss ! k)) = Some (i + k)"
proof (induction i ss m arbitrary: k rule: index_platforms.induct)
  case (1 i m)
  then show ?case by simp
next
  case (2 i s ss m)
  then show ?case by (cases k) (auto simp: index_platforms_other)
qed

lemma platform_ids_where_filter: "platform_ids_where p ss = map spec_ID (filter p ss)"
  by (induction p ss rule: platform_ids_where.induct) auto

lemma precedence_rest_filter: "precedence_rest ss seen = filter (\<lambda>i. i |\<notin>| seen) (map spec_ID ss)"
  by (induction ss seen rule: precedence_rest.induct) auto

lemma ConcretePlatformIDs_eq: "ConcretePlatformIDs = map spec_ID platformList"
  by (simp add: ConcretePlatformIDs_def PlatformIDsWhere_def platform_ids_where_filter)

lemma platform_ids_distinct: "distinct (map spec_ID platformList)"
  by (simp add: platformList_def mk_spec_def platform_ids)

lemma LookupPlatform_nth:
  "k < length platformList \<Longrightarrow> LookupPlatform (spec_ID (platformList ! k)) = Some (platformList ! k)"
  using index_platforms_nth [OF platform_ids_distinct, of k 0 fmempty]
  by (simp add: LookupPlatform_def platformIndex_def)

lemma LookupPlatform_None: "LookupPlatform i = None \<longleftrightarrow> i \<notin> set ConcretePlatformIDs"
proof
  assume "i \<notin> set ConcretePlatformIDs"
  then show "LookupPlatform i = None"
    using index_platforms_other [of i platformList 0 fmempty]
    by (simp add: LookupPlatform_def platformIndex_def ConcretePlatformIDs_eq)
next
  assume "LookupPlatform i = None"
  then show "i \<notin> set ConcretePlatformIDs"
    using LookupPlatform_nth by (auto simp: ConcretePlatformIDs_eq in_set_conv_nth)
qed

lemma LookupPlatform_Some_iff:
  "LookupPlatform i = Some s \<longleftrightarrow> s \<in> set platformList \<and> spec_ID s = i"
proof
  assume l: "LookupPlatform i = Some s"
  then have "i \<in> set ConcretePlatformIDs"
    using LookupPlatform_None [of i] by auto
  then obtain k where "k < length platformList" "i = spec_ID (platformList ! k)"
    by (auto simp: ConcretePlatformIDs_eq in_set_conv_nth)
  with LookupPlatform_nth [of k] l show "s \<in> set platformList \<and> spec_ID s = i" by auto
next
  assume "s \<in> set platformList \<and> spec_ID s = i"
  then show "LookupPlatform i = Some s"
    using LookupPlatform_nth by (auto simp: in_set_conv_nth)
qed

lemma IsConcretePlatform_iff: "IsConcretePlatform i \<longleftrightarrow> i \<in> set ConcretePlatformIDs"
  using LookupPlatform_None [of i]
  by (auto simp: IsConcretePlatform_def LookupPlatform_def split: option.splits)

lemma composite_not_concrete: "\<not> IsConcretePlatform PlatformComposite"
  by (simp add: IsConcretePlatform_iff ConcretePlatformIDs_eq platformList_def mk_spec_def platform_ids)

end
