(* ===== verification/Composite_Route.thy ===== *)
theory Composite_Route
  imports Platforms "HOL-Library.Product_Lexorder"
begin

section \<open>Composite model routing\<close>

text \<open>
  \<open>service/composite_model_route.go\<close>, \<open>service/composite_route_resolver.go\<close>, the detector of
  \<open>service/composite_platform.go\<close> and the route query of
  \<open>repository/composite_model_route_repo.go\<close>: how a request to a composite group is sent to a
  concrete platform.
\<close>

subsection \<open>Data\<close>

definition MatchExact :: string where "MatchExact = ''exact''"
definition MatchPrefix :: string where "MatchPrefix = ''prefix''"

definition EndpointAny :: string where "EndpointAny = ''any''"
definition EndpointMessages :: string where "EndpointMessages = ''messages''"
definition EndpointCountTokens :: string where "EndpointCountTokens = ''count_tokens''"
definition EndpointResponses :: string where "EndpointResponses = ''responses''"
definition EndpointChatCompletions :: string where "EndpointChatCompletions = ''chat_completions''"
definition EndpointEmbeddings :: string where "EndpointEmbeddings = ''embeddings''"
definition EndpointImages :: string where "EndpointImages = ''images''"
definition EndpointGemini :: string where "EndpointGemini = ''gemini''"

definition SourceExplicit :: string where "SourceExplicit = ''route''"
definition SourceDetector :: string where "SourceDetector = ''detector''"
definition SourceAccount :: string where "SourceAccount = ''account_model''"

lemmas route_consts =
  MatchExact_def MatchPrefix_def EndpointAny_def EndpointMessages_def EndpointCountTokens_def
  EndpointResponses_def EndpointChatCompletions_def EndpointEmbeddings_def EndpointImages_def
  EndpointGemini_def

lemmas source_consts = SourceExplicit_def SourceDetector_def SourceAccount_def

definition ReasonAmbiguous :: string where
  "ReasonAmbiguous = ''model is exposed by multiple provider platforms''"

definition ReasonOAuthAmbiguous :: string where
  "ReasonOAuthAmbiguous =
     ''model is exposed by multiple provider platforms including OAuth accounts''"

record CompositeModelOwnership =
  own_TargetPlatform :: string
  own_Matched :: bool
  own_Ambiguous :: bool
  own_OpenAIGatewayOAuthClaimed :: bool

record CompositeModelRoute =
  rt_ID :: int
  rt_GroupID :: int
  rt_PublicModel :: string
  rt_MatchType :: string
  rt_TargetPlatform :: string
  rt_UpstreamModel :: string
  rt_Endpoint :: string
  rt_Priority :: int
  rt_Enabled :: bool
  rt_Notes :: string
  rt_CreatedAt :: gotime
  rt_UpdatedAt :: gotime

record CompositeRouteDecision =
  dec_Matched :: bool
  dec_Source :: string
  dec_GroupID :: int
  dec_PublicModel :: string
  dec_TargetPlatform :: string
  dec_UpstreamModel :: string
  dec_Endpoint :: string
  dec_Route :: "CompositeModelRoute option"
  dec_Reason :: string

record CompositeRouteInput =
  inp_PublicModel :: string
  inp_MatchType :: string
  inp_TargetPlatform :: string
  inp_UpstreamModel :: string
  inp_Endpoint :: string
  inp_Priority :: int
  inp_Enabled :: bool
  inp_Notes :: string

subsection \<open>Normalisation\<close>

definition normalizeCompositeRouteEndpoint :: "string \<Rightarrow> string" where
  "normalizeCompositeRouteEndpoint e =
     (let endpoint = to_lower (trim_space e) in
      if endpoint = [] then EndpointAny
      else if endpoint \<in> {EndpointMessages, EndpointCountTokens, EndpointResponses,
                          EndpointChatCompletions, EndpointEmbeddings, EndpointImages, EndpointGemini}
      then endpoint
      else EndpointAny)"

definition normalizeCompositeRouteMatchType :: "string \<Rightarrow> string" where
  "normalizeCompositeRouteMatchType m =
     (if to_lower (trim_space m) = MatchPrefix then MatchPrefix else MatchExact)"

definition normalizeCompositeRouteInput :: "CompositeRouteInput \<Rightarrow> CompositeRouteInput" where
  "normalizeCompositeRouteInput input =
     (let i1 = input\<lparr>inp_PublicModel := trim_space (inp_PublicModel input)\<rparr>;
          i2 = i1\<lparr>inp_MatchType := normalizeCompositeRouteMatchType (inp_MatchType i1)\<rparr>;
          i3 = i2\<lparr>inp_TargetPlatform := trim_space (inp_TargetPlatform i2)\<rparr>;
          i4 = i3\<lparr>inp_UpstreamModel := trim_space (inp_UpstreamModel i3)\<rparr>;
          i5 = i4\<lparr>inp_Endpoint := normalizeCompositeRouteEndpoint (inp_Endpoint i4)\<rparr>;
          i6 = (if inp_UpstreamModel i5 = [] \<and> inp_MatchType i5 = MatchExact
                then i5\<lparr>inp_UpstreamModel := inp_PublicModel i5\<rparr> else i5)
      in i6\<lparr>inp_Notes := trim_space (inp_Notes i6)\<rparr>)"

subsection \<open>The built-in detector\<close>

definition hasOpenAISeriesPrefix :: "string \<Rightarrow> bool" where
  "hasOpenAISeriesPrefix model =
     list_ex (\<lambda>p. model = p \<or> has_prefix model (p @ ''-'')) [''o1'', ''o3'', ''o4'', ''o5'']"

text \<open>The switch on the provider written before a slash.\<close>

definition provider_alias :: "string \<Rightarrow> string option" where
  "provider_alias p =
     (if p \<in> {''anthropic'', ''claude''} then Some PlatformAnthropic
      else if p \<in> {''openai'', ''chatgpt''} then Some PlatformOpenAI
      else if p \<in> {''google'', ''google-ai-studio'', ''gemini''} then Some PlatformGemini
      else if p \<in> {''xai'', ''x-ai'', ''grok''} then Some PlatformGrok
      else if p \<in> {''kimi'', ''moonshot''} then Some PlatformKimi
      else if p \<in> {''zhipu'', ''glm'', ''bigmodel''} then Some PlatformZhipu
      else if p = ''deepseek'' then Some PlatformDeepseek
      else if p = ''minimax'' then Some PlatformMiniMax
      else if p \<in> {''typesafe'', ''jev''} then Some PlatformTypeSafe
      else None)"

text \<open>The switch on the prefix of the model name.\<close>

definition model_family :: "string \<Rightarrow> string option" where
  "model_family n =
     (if has_prefix n ''anthropic.claude-'' \<or> has_prefix n ''claude-'' then Some PlatformAnthropic
      else if has_prefix n ''gpt-'' \<or> has_prefix n ''chatgpt-'' \<or> has_prefix n ''codex-'' \<or>
        has_prefix n ''text-embedding-'' \<or> has_prefix n ''text-moderation-'' \<or>
        has_prefix n ''omni-moderation-'' \<or> has_prefix n ''dall-e-'' \<or>
        has_prefix n ''gpt-image-'' \<or> has_prefix n ''tts-'' \<or> has_prefix n ''whisper-'' \<or>
        hasOpenAISeriesPrefix n
      then Some PlatformOpenAI
      else if has_prefix n ''gemini-'' \<or> has_prefix n ''learnlm-'' then Some PlatformGemini
      else if n = ''grok'' \<or> has_prefix n ''grok-'' then Some PlatformGrok
      else if n = ''k3'' \<or> n = ''k3-256k'' \<or> has_prefix n ''kimi-'' \<or> has_prefix n ''moonshot-''
      then Some PlatformKimi
      else if has_prefix n ''glm-'' then Some PlatformZhipu
      else if has_prefix n ''deepseek-'' then Some PlatformDeepseek
      else if has_prefix n ''minimax-'' \<or> has_prefix n ''abab5'' \<or> has_prefix n ''abab6'' \<or>
        has_prefix n ''abab7''
      then Some PlatformMiniMax
      else if n = ''jev-latest'' \<or> has_prefix n ''jev-'' then Some PlatformTypeSafe
      else None)"

definition DetectModelPlatform :: "string \<Rightarrow> string option" where
  "DetectModelPlatform model =
     (let normalized = to_lower (trim_space model) in
      if normalized = [] then None
      else
        let normalized = trim_prefix normalized ''models/'' in
        case str_index normalized ''/'' of
          None \<Rightarrow> model_family normalized
        | Some slash \<Rightarrow>
            if slash = 0 then model_family normalized
            else
              let provider = trim_space (take slash normalized);
                  rest = trim_space (drop (slash + 1) normalized)
              in case provider_alias provider of
                   Some p \<Rightarrow> Some p
                 | None \<Rightarrow>
                     model_family (if rest \<noteq> [] then trim_prefix rest ''models/'' else normalized))"

subsection \<open>Choosing among stored routes\<close>

text \<open>
  \<open>matchCompositeRoute\<close>: the loop keeps a candidate for each route that applies, with its endpoint
  and match type normalised, and the stable sort puts the preferred one first.
\<close>

record candidate =
  cand_route :: CompositeModelRoute
  cand_matchStrength :: int
  cand_endpointWeight :: int
  cand_prefixLen :: int

definition route_candidate ::
  "string \<Rightarrow> string \<Rightarrow> CompositeModelRoute \<Rightarrow> candidate option" where
  "route_candidate model endpoint route =
     (let route = route\<lparr>rt_Endpoint := normalizeCompositeRouteEndpoint (rt_Endpoint route)\<rparr> in
      if rt_Endpoint route \<noteq> endpoint \<and> rt_Endpoint route \<noteq> EndpointAny then None
      else
        let route = route\<lparr>rt_MatchType := normalizeCompositeRouteMatchType (rt_MatchType route)\<rparr>;
            publicModel = trim_space (rt_PublicModel route)
        in if publicModel = [] then None
           else
             let strength =
                   (if rt_MatchType route = MatchExact
                    then (if publicModel \<noteq> model then None else Some 2)
                    else if rt_MatchType route = MatchPrefix
                    then (if \<not> has_prefix model publicModel then None else Some 1)
                    else None)
             in case strength of
                  None \<Rightarrow> None
                | Some ms \<Rightarrow>
                    Some \<lparr>cand_route = route, cand_matchStrength = ms,
                          cand_endpointWeight = (if rt_Endpoint route = endpoint then 1 else 0),
                          cand_prefixLen = int (length publicModel)\<rparr>)"

fun route_candidates ::
  "string \<Rightarrow> string \<Rightarrow> CompositeModelRoute list \<Rightarrow> candidate list" where
  "route_candidates model endpoint [] = []"
| "route_candidates model endpoint (r # rs) =
     (case route_candidate model endpoint r of
        None \<Rightarrow> route_candidates model endpoint rs
      | Some c \<Rightarrow> c # route_candidates model endpoint rs)"

definition candidate_less :: "candidate \<Rightarrow> candidate \<Rightarrow> bool" where
  "candidate_less a b =
     (if cand_matchStrength a \<noteq> cand_matchStrength b
      then cand_matchStrength a > cand_matchStrength b
      else if cand_endpointWeight a \<noteq> cand_endpointWeight b
      then cand_endpointWeight a > cand_endpointWeight b
      else if cand_prefixLen a \<noteq> cand_prefixLen b
      then cand_prefixLen a > cand_prefixLen b
      else if rt_Priority (cand_route a) \<noteq> rt_Priority (cand_route b)
      then rt_Priority (cand_route a) < rt_Priority (cand_route b)
      else rt_ID (cand_route a) < rt_ID (cand_route b))"

definition matchCompositeRoute ::
  "CompositeModelRoute list \<Rightarrow> string \<Rightarrow> string \<Rightarrow> CompositeModelRoute option" where
  "matchCompositeRoute routes model endpoint =
     (if routes = [] then None
      else let candidates = route_candidates model endpoint routes in
           if candidates = [] then None
           else Some (cand_route (hd (slice_stable candidate_less candidates))))"

subsection \<open>The resolver\<close>

text \<open>
  The repository and the ownership resolver are the fields of the resolver, either may be nil;
  their failures are values of a type \<open>'e\<close>. \<open>Resolve\<close> returns a decision and, like the Go
  method, possibly an error beside it.
\<close>

record 'e CompositeRouteResolver =
  res_repo :: "(int \<Rightarrow> bool \<Rightarrow> 'e + CompositeModelRoute list) option"
  res_ownership :: "(int \<Rightarrow> string \<Rightarrow> 'e + CompositeModelOwnership) option"

datatype 'e resolve_error = ListRoutesFailed 'e | OwnershipFailed 'e

definition undecided :: "int \<Rightarrow> string \<Rightarrow> string \<Rightarrow> string \<Rightarrow> CompositeRouteDecision" where
  "undecided groupID model endpoint reason =
     \<lparr>dec_Matched = False, dec_Source = [], dec_GroupID = groupID, dec_PublicModel = model,
      dec_TargetPlatform = [], dec_UpstreamModel = [], dec_Endpoint = endpoint, dec_Route = None,
      dec_Reason = reason\<rparr>"

definition decided ::
  "string \<Rightarrow> int \<Rightarrow> string \<Rightarrow> string \<Rightarrow> string \<Rightarrow> string \<Rightarrow> CompositeModelRoute option
   \<Rightarrow> CompositeRouteDecision" where
  "decided source groupID model platform upstream endpoint route =
     \<lparr>dec_Matched = True, dec_Source = source, dec_GroupID = groupID, dec_PublicModel = model,
      dec_TargetPlatform = platform, dec_UpstreamModel = upstream, dec_Endpoint = endpoint,
      dec_Route = route, dec_Reason = []\<rparr>"

text \<open>The last part of \<open>Resolve\<close>, reached when neither stored routes nor accounts decide.\<close>

definition resolve_by_detector :: "int \<Rightarrow> string \<Rightarrow> string \<Rightarrow> CompositeRouteDecision" where
  "resolve_by_detector groupID model endpoint =
     (case DetectModelPlatform model of
        Some platform \<Rightarrow> decided SourceDetector groupID model platform model endpoint None
      | None \<Rightarrow> undecided groupID model endpoint ''no explicit route or built-in detector match'')"

text \<open>The middle part: the accounts of the group that expose the model.\<close>

definition resolve_by_accounts ::
  "'e CompositeRouteResolver option \<Rightarrow> int \<Rightarrow> string \<Rightarrow> string
   \<Rightarrow> CompositeRouteDecision \<times> 'e resolve_error option" where
  "resolve_by_accounts r groupID model endpoint =
     (case (if groupID > 0 then Option.bind r res_ownership else None) of
        None \<Rightarrow> (resolve_by_detector groupID model endpoint, None)
      | Some owner \<Rightarrow>
          (case owner groupID model of
             Inl e \<Rightarrow>
               if DetectModelPlatform model = None
               then (undecided groupID model endpoint [], Some (OwnershipFailed e))
               else (resolve_by_detector groupID model endpoint, None)
           | Inr ownership \<Rightarrow>
               if own_Ambiguous ownership then
                 (undecided groupID model endpoint
                    (case DetectModelPlatform model of
                       Some guessed \<Rightarrow>
                         if own_OpenAIGatewayOAuthClaimed ownership \<and> UsesOpenAIGateway guessed
                         then ReasonOAuthAmbiguous else ReasonAmbiguous
                     | None \<Rightarrow> ReasonAmbiguous), None)
               else if own_Matched ownership then
                 let platform = trim_space (own_TargetPlatform ownership) in
                 if \<not> IsConcretePlatform platform
                 then (undecided groupID model endpoint
                         ''account model ownership has no concrete target platform'', None)
                 else (decided SourceAccount groupID model platform model endpoint None, None)
               else (resolve_by_detector groupID model endpoint, None)))"

definition Resolve ::
  "'e CompositeRouteResolver option \<Rightarrow> int \<Rightarrow> string \<Rightarrow> string
   \<Rightarrow> CompositeRouteDecision \<times> 'e resolve_error option" where
  "Resolve r groupID model0 endpoint0 =
     (let model = trim_space model0;
          endpoint = normalizeCompositeRouteEndpoint endpoint0
      in if model = [] then (undecided groupID model endpoint ''model is required'', None)
         else
           case (if groupID > 0 then Option.bind r res_repo else None) of
             None \<Rightarrow> resolve_by_accounts r groupID model endpoint
           | Some list_by_group \<Rightarrow>
               (case list_by_group groupID False of
                  Inl e \<Rightarrow> (undecided groupID model endpoint [], Some (ListRoutesFailed e))
                | Inr routes \<Rightarrow>
                    (case matchCompositeRoute routes model endpoint of
                       None \<Rightarrow> resolve_by_accounts r groupID model endpoint
                     | Some route \<Rightarrow>
                         let upstream0 = trim_space (rt_UpstreamModel route);
                             upstream = (if upstream0 = [] then model else upstream0)
                         in (decided SourceExplicit groupID model (rt_TargetPlatform route) upstream
                               endpoint (Some route), None))))"

definition OAuthAmbiguous :: "CompositeRouteDecision \<Rightarrow> bool" where
  "OAuthAmbiguous d = (\<not> dec_Matched d \<and> dec_Reason d = ReasonOAuthAmbiguous)"

subsection \<open>Model catalogues over the stored routes\<close>

fun filterSystemOneRouteModels ::
  "CompositeModelRoute list \<Rightarrow> string list \<Rightarrow> string \<Rightarrow> string list" where
  "filterSystemOneRouteModels routes [] endpoint = []"
| "filterSystemOneRouteModels routes (m # ms) endpoint =
     (case matchCompositeRoute routes m (normalizeCompositeRouteEndpoint endpoint) of
        None \<Rightarrow> m # filterSystemOneRouteModels routes ms endpoint
      | Some route \<Rightarrow>
          if rt_TargetPlatform route \<noteq> PlatformTypeSafe
          then m # filterSystemOneRouteModels routes ms endpoint
          else filterSystemOneRouteModels routes ms endpoint)"

fun exact_public_models :: "CompositeModelRoute list \<Rightarrow> string \<Rightarrow> string list" where
  "exact_public_models [] endpoint = []"
| "exact_public_models (r # rs) endpoint =
     (let model = trim_space (rt_PublicModel r) in
      if rt_Enabled r \<and> rt_MatchType r = MatchExact \<and>
         (endpoint = [] \<or> normalizeCompositeRouteEndpoint (rt_Endpoint r) = EndpointAny \<or>
          normalizeCompositeRouteEndpoint (rt_Endpoint r) = endpoint) \<and> model \<noteq> []
      then model # exact_public_models rs endpoint
      else exact_public_models rs endpoint)"

definition ListExactPublicModels ::
  "'e CompositeRouteResolver option \<Rightarrow> int \<Rightarrow> string \<Rightarrow> bool \<Rightarrow> 'e + string list" where
  "ListExactPublicModels r groupID endpoint includeSystemOne =
     (case (if groupID > 0 then Option.bind r res_repo else None) of
        None \<Rightarrow> Inr []
      | Some list_by_group \<Rightarrow>
          (case list_by_group groupID False of
             Inl e \<Rightarrow> Inl e
           | Inr routes \<Rightarrow>
               let models = exact_public_models routes endpoint in
               Inr (if \<not> includeSystemOne then filterSystemOneRouteModels routes models endpoint
                    else models)))"

definition FilterCodexModels ::
  "'e CompositeRouteResolver option \<Rightarrow> int \<Rightarrow> string list \<Rightarrow> 'e + string list" where
  "FilterCodexModels r groupID models =
     (case (if groupID > 0 then Option.bind r res_repo else None) of
        None \<Rightarrow> Inr models
      | Some list_by_group \<Rightarrow>
          (case list_by_group groupID False of
             Inl e \<Rightarrow> Inl e
           | Inr routes \<Rightarrow> Inr (filterSystemOneRouteModels routes models EndpointResponses)))"

subsection \<open>The repository query\<close>

text \<open>
  \<open>ListByGroup\<close> of the database repository: the rows of the table with the group's ID, without
  the disabled ones unless they are asked for, ordered by priority and then by ID.
\<close>

definition route_row_less :: "CompositeModelRoute \<Rightarrow> CompositeModelRoute \<Rightarrow> bool" where
  "route_row_less a b =
     (rt_Priority a < rt_Priority b \<or> rt_Priority a = rt_Priority b \<and> rt_ID a < rt_ID b)"

definition ListByGroup ::
  "CompositeModelRoute list \<Rightarrow> int \<Rightarrow> bool \<Rightarrow> CompositeModelRoute list" where
  "ListByGroup rows groupID includeDisabled =
     slice_stable route_row_less
       (filter (\<lambda>r. rt_GroupID r = groupID \<and> (includeDisabled \<or> rt_Enabled r)) rows)"

subsection \<open>What choosing a route promises\<close>

text \<open>
  The contract, without candidates or sorting: which routes apply to a request, and the key that
  says which of two applying routes is preferred (exact match first, then a route for this very
  endpoint, then the longer public name, then the smaller priority, then the smaller ID).
\<close>

definition route_applies :: "string \<Rightarrow> string \<Rightarrow> CompositeModelRoute \<Rightarrow> bool" where
  "route_applies model endpoint r \<longleftrightarrow>
     normalizeCompositeRouteEndpoint (rt_Endpoint r) \<in> {endpoint, EndpointAny} \<and>
     trim_space (rt_PublicModel r) \<noteq> [] \<and>
     (if normalizeCompositeRouteMatchType (rt_MatchType r) = MatchPrefix
      then prefix (trim_space (rt_PublicModel r)) model
      else trim_space (rt_PublicModel r) = model)"

definition route_key :: "string \<Rightarrow> CompositeModelRoute \<Rightarrow> int \<times> int \<times> int \<times> int \<times> int" where
  "route_key endpoint r =
     (if normalizeCompositeRouteMatchType (rt_MatchType r) = MatchPrefix then 1 else 0,
      if normalizeCompositeRouteEndpoint (rt_Endpoint r) = endpoint then 0 else 1,
      - int (length (trim_space (rt_PublicModel r))),
      rt_Priority r, rt_ID r)"

definition route_norm :: "CompositeModelRoute \<Rightarrow> CompositeModelRoute" where
  "route_norm r =
     r\<lparr>rt_Endpoint := normalizeCompositeRouteEndpoint (rt_Endpoint r),
       rt_MatchType := normalizeCompositeRouteMatchType (rt_MatchType r)\<rparr>"

definition candidate_key :: "candidate \<Rightarrow> int \<times> int \<times> int \<times> int \<times> int" where
  "candidate_key c =
     (- cand_matchStrength c, - cand_endpointWeight c, - cand_prefixLen c,
      rt_Priority (cand_route c), rt_ID (cand_route c))"

lemma match_type_cases: "normalizeCompositeRouteMatchType m = MatchPrefix \<or>
    normalizeCompositeRouteMatchType m = MatchExact"
  by (simp add: normalizeCompositeRouteMatchType_def)

lemma match_consts_ne [simp]: "MatchExact \<noteq> MatchPrefix" "MatchPrefix \<noteq> MatchExact"
  by (simp_all add: MatchExact_def MatchPrefix_def)

lemma candidate_less_key: "candidate_less a b \<longleftrightarrow> candidate_key a < candidate_key b"
  by (auto simp: candidate_less_def candidate_key_def less_prod_def split: if_splits)

lemma route_candidate_iff:
  "(route_candidate model endpoint r \<noteq> None) = route_applies model endpoint r"
  using match_type_cases [of "rt_MatchType r"]
  by (auto simp: route_candidate_def route_applies_def Let_def has_prefix_def)

lemma route_candidate_Some:
  assumes "route_candidate model endpoint r = Some c"
  shows "cand_route c = route_norm r"
    and "candidate_key c \<le> candidate_key c' \<Longrightarrow> route_candidate model endpoint r' = Some c' \<Longrightarrow>
           route_key endpoint r \<le> route_key endpoint r'"
  using assms match_type_cases [of "rt_MatchType r"] match_type_cases [of "rt_MatchType r'"]
  by (auto simp: route_candidate_def route_norm_def route_key_def candidate_key_def Let_def
      less_eq_prod_def less_prod_def split: if_splits)

lemma route_candidates_iff:
  "c \<in> set (route_candidates model endpoint rs) \<longleftrightarrow>
     (\<exists>r \<in> set rs. route_candidate model endpoint r = Some c)"
  by (induction model endpoint rs rule: route_candidates.induct) (auto split: option.splits)

lemma route_candidates_Nil:
  "route_candidates model endpoint rs = [] \<longleftrightarrow> (\<forall>r \<in> set rs. \<not> route_applies model endpoint r)"
  by (induction model endpoint rs rule: route_candidates.induct)
    (auto simp flip: route_candidate_iff split: option.splits)

lemma matchCompositeRoute_None:
  "matchCompositeRoute rs model endpoint = None \<longleftrightarrow> (\<forall>r \<in> set rs. \<not> route_applies model endpoint r)"
  by (auto simp: matchCompositeRoute_def Let_def route_candidates_Nil)

lemma matchCompositeRoute_Some:
  assumes "matchCompositeRoute rs model endpoint = Some r'"
  shows "\<exists>r \<in> set rs. route_applies model endpoint r \<and> r' = route_norm r \<and>
      (\<forall>q \<in> set rs. route_applies model endpoint q \<longrightarrow> route_key endpoint r \<le> route_key endpoint q)"
proof -
  let ?cs = "route_candidates model endpoint rs"
  let ?c = "hd (slice_stable candidate_less ?cs)"
  from assms have ne: "?cs \<noteq> []" and r': "r' = cand_route ?c"
    by (auto simp: matchCompositeRoute_def Let_def split: if_splits)
  from slice_stable_hd_in [OF ne] obtain r
    where r: "r \<in> set rs" "route_candidate model endpoint r = Some ?c"
    by (auto simp: route_candidates_iff)
  have best: "route_key endpoint r \<le> route_key endpoint q"
    if q: "q \<in> set rs" "route_applies model endpoint q" for q
  proof -
    from q(2) obtain c' where c': "route_candidate model endpoint q = Some c'"
      by (auto simp flip: route_candidate_iff)
    with q(1) have "c' \<in> set ?cs" by (auto simp: route_candidates_iff)
    then have "candidate_key ?c \<le> candidate_key c'"
      by (rule slice_stable_hd_least [OF candidate_less_key])
    then show ?thesis using route_candidate_Some(2) [OF r(2) _ c'] by blast
  qed
  have "route_applies model endpoint r" using r(2) by (simp flip: route_candidate_iff)
  moreover have "r' = route_norm r" using r' route_candidate_Some(1) [OF r(2)] by simp
  ultimately show ?thesis using r(1) best by blast
qed

subsection \<open>Lemmas on the detector and the resolver\<close>

lemma concrete_ids [simp]:
  "IsConcretePlatform PlatformAnthropic" "IsConcretePlatform PlatformOpenAI"
  "IsConcretePlatform PlatformGemini" "IsConcretePlatform PlatformGrok"
  "IsConcretePlatform PlatformKimi" "IsConcretePlatform PlatformZhipu"
  "IsConcretePlatform PlatformDeepseek" "IsConcretePlatform PlatformMiniMax"
  "IsConcretePlatform PlatformTypeSafe"
  by (simp_all add: IsConcretePlatform_iff ConcretePlatformIDs_eq platformList_def mk_spec_def)

lemma provider_alias_concrete: "provider_alias p = Some q \<Longrightarrow> IsConcretePlatform q"
  by (simp add: provider_alias_def split: if_splits)

lemma model_family_concrete: "model_family n = Some q \<Longrightarrow> IsConcretePlatform q"
  unfolding model_family_def by (simp only: split: if_splits) auto

lemma DetectModelPlatform_family:
  assumes "DetectModelPlatform m = Some p"
  shows "(\<exists>a. provider_alias a = Some p) \<or> (\<exists>n. model_family n = Some p)"
proof -
  have "\<And>x :: string option. (case x of None \<Rightarrow> y | Some q \<Rightarrow> Some q) = Some p \<Longrightarrow> x = Some p \<or> y = Some p"
    for y by (case_tac x) auto
  with assms show ?thesis
    by (auto simp: DetectModelPlatform_def Let_def split: if_splits option.splits)
qed

lemma DetectModelPlatform_concrete: "DetectModelPlatform m = Some p \<Longrightarrow> IsConcretePlatform p"
  using DetectModelPlatform_family provider_alias_concrete model_family_concrete by blast

lemma detector_decision:
  "dec_Matched (resolve_by_detector g m e) \<Longrightarrow>
     dec_Source (resolve_by_detector g m e) = SourceDetector \<and>
     IsConcretePlatform (dec_TargetPlatform (resolve_by_detector g m e)) \<and>
     dec_UpstreamModel (resolve_by_detector g m e) = m"
  "\<not> dec_Matched (resolve_by_detector g m e) \<Longrightarrow> dec_Reason (resolve_by_detector g m e) \<noteq> []"
  "\<not> OAuthAmbiguous (resolve_by_detector g m e)"
  by (auto simp: resolve_by_detector_def decided_def undecided_def OAuthAmbiguous_def
      ReasonOAuthAmbiguous_def dest: DetectModelPlatform_concrete split: option.splits)

lemma accounts_decision:
  assumes "resolve_by_accounts r g m e = (d, err)"
  shows "dec_Matched d \<Longrightarrow>
           err = None \<and> dec_Source d \<in> {SourceAccount, SourceDetector} \<and>
           IsConcretePlatform (dec_TargetPlatform d) \<and> dec_UpstreamModel d = m"
    and "\<not> dec_Matched d \<Longrightarrow> err \<noteq> None \<or> dec_Reason d \<noteq> []"
  using assms detector_decision [of g m e]
  by (auto simp: resolve_by_accounts_def decided_def undecided_def ReasonAmbiguous_def
      ReasonOAuthAmbiguous_def Let_def split: option.splits sum.splits if_splits)

lemma sources_ne [simp]:
  "SourceAccount \<noteq> SourceExplicit" "SourceDetector \<noteq> SourceExplicit" "SourceExplicit \<noteq> []"
  "[] \<noteq> SourceExplicit"
  by (simp_all add: source_consts)

lemma accounts_not_explicit:
  assumes "resolve_by_accounts r g m e = (d, err)" shows "dec_Source d \<noteq> SourceExplicit"
proof (cases "dec_Matched d")
  case True
  with accounts_decision(1) [OF assms] show ?thesis by auto
next
  case False
  with assms show ?thesis
    by (auto simp: resolve_by_accounts_def resolve_by_detector_def decided_def undecided_def Let_def
        source_consts split: option.splits sum.splits if_splits)
qed

lemma Resolve_explicit:
  assumes "Resolve r g m0 e0 = (d, err)" and "dec_Source d = SourceExplicit"
  obtains list_by_group rs route where
    "g > 0" "Option.bind r res_repo = Some list_by_group" "list_by_group g False = Inr rs"
    "trim_space m0 \<noteq> []"
    "matchCompositeRoute rs (trim_space m0) (normalizeCompositeRouteEndpoint e0) = Some route"
    "d = decided SourceExplicit g (trim_space m0) (rt_TargetPlatform route)
           (if trim_space (rt_UpstreamModel route) = [] then trim_space m0
            else trim_space (rt_UpstreamModel route))
           (normalizeCompositeRouteEndpoint e0) (Some route)"
    "err = None"
  using assms
  by (auto simp: Resolve_def Let_def undecided_def dest: accounts_not_explicit
      split: if_splits option.splits sum.splits)

subsection \<open>The repository interface\<close>

text \<open>
  What the resolver relies on from the repository: a listing without disabled routes holds enabled
  routes of the asked group, and all of them.
\<close>

locale route_repository =
  fixes list_by_group :: "int \<Rightarrow> bool \<Rightarrow> 'e + CompositeModelRoute list"
    and stored :: "CompositeModelRoute set"
  assumes listed: "list_by_group g False = Inr rs \<Longrightarrow>
      set rs = {r \<in> stored. rt_GroupID r = g \<and> rt_Enabled r}"
begin

lemma explicit_route_is_best:
  assumes "Resolve (Some \<lparr>res_repo = Some list_by_group, res_ownership = own\<rparr>) g m0 e0 = (d, err)"
    and "dec_Source d = SourceExplicit"
  shows "\<exists>r \<in> stored. rt_GroupID r = g \<and> rt_Enabled r \<and>
      route_applies (trim_space m0) (normalizeCompositeRouteEndpoint e0) r \<and>
      dec_Route d = Some (route_norm r) \<and> dec_TargetPlatform d = rt_TargetPlatform r \<and>
      (\<forall>q \<in> stored. rt_GroupID q = g \<longrightarrow> rt_Enabled q \<longrightarrow>
         route_applies (trim_space m0) (normalizeCompositeRouteEndpoint e0) q \<longrightarrow>
         route_key (normalizeCompositeRouteEndpoint e0) r
           \<le> route_key (normalizeCompositeRouteEndpoint e0) q)"
proof -
  obtain rs route where rs: "list_by_group g False = Inr rs"
    and m: "matchCompositeRoute rs (trim_space m0) (normalizeCompositeRouteEndpoint e0) = Some route"
    and d: "dec_Route d = Some route" "dec_TargetPlatform d = rt_TargetPlatform route"
    by (rule Resolve_explicit [OF assms]) (auto simp: decided_def)
  from matchCompositeRoute_Some [OF m] listed [OF rs] d show ?thesis
    by (auto simp: route_norm_def)
qed

end

interpretation route_table: route_repository
  "\<lambda>g disabled. Inr (ListByGroup rows g disabled)" "set rows" for rows
  by unfold_locales (auto simp: ListByGroup_def)

subsection \<open>Properties\<close>

text \<open>
  Property C26. Choosing among stored routes is exact: no route is chosen only if none applies to
  the model and endpoint; otherwise the chosen route is one that applies, with its endpoint and
  match type normalised, and no applying route is preferred to it (exact before prefix, this
  endpoint before any, longer name, smaller priority, smaller ID).
\<close>

theorem match_composite_route_best:
  "case matchCompositeRoute rs model endpoint of
     None \<Rightarrow> \<forall>r \<in> set rs. \<not> route_applies model endpoint r
   | Some r' \<Rightarrow>
       \<exists>r \<in> set rs. route_applies model endpoint r \<and> r' = route_norm r \<and>
         (\<forall>q \<in> set rs. route_applies model endpoint q \<longrightarrow> route_key endpoint r \<le> route_key endpoint q)"
proof (cases "matchCompositeRoute rs model endpoint")
  case None
  then have "\<forall>r \<in> set rs. \<not> route_applies model endpoint r"
    by (simp only: matchCompositeRoute_None)
  with None show ?thesis by simp
next
  case (Some r')
  from matchCompositeRoute_Some [OF Some] show ?thesis by (simp add: Some)
qed

definition sample_route :: "int \<Rightarrow> string \<Rightarrow> string \<Rightarrow> string \<Rightarrow> int \<Rightarrow> CompositeModelRoute" where
  "sample_route i pm mt platform prio =
     \<lparr>rt_ID = i, rt_GroupID = 7, rt_PublicModel = pm, rt_MatchType = mt,
      rt_TargetPlatform = platform, rt_UpstreamModel = [], rt_Endpoint = ''any'',
      rt_Priority = prio, rt_Enabled = True, rt_Notes = [], rt_CreatedAt = 0, rt_UpdatedAt = 0\<rparr>"


definition sample_routes :: "CompositeModelRoute list" where
  "sample_routes =
     [sample_route 1 ''gpt-'' ''prefix'' PlatformOpenAI 0,
      sample_route 2 ''gpt-x'' ''exact'' PlatformGrok 5]"

lemma sample_match:
  "matchCompositeRoute sample_routes ''gpt-x'' ''any''
     = Some (sample_route 2 ''gpt-x'' ''exact'' PlatformGrok 5)"
  by code_simp

theorem match_composite_route_best_witness:
  "\<exists>r \<in> set sample_routes. route_applies ''gpt-x'' ''any'' r \<and>
     sample_route 2 ''gpt-x'' ''exact'' PlatformGrok 5 = route_norm r \<and>
     route_key ''any'' r \<le> route_key ''any'' (sample_route 1 ''gpt-'' ''prefix'' PlatformOpenAI 0)"
proof -
  have "route_applies ''gpt-x'' ''any'' (sample_route 1 ''gpt-'' ''prefix'' PlatformOpenAI 0)"
    by code_simp
  with match_composite_route_best [of sample_routes "''gpt-x''" "''any''"] show ?thesis
    unfolding sample_match by (simp add: sample_routes_def) blast
qed

text \<open>
  An explicit decision is right with respect to the route table: the chosen row
  belongs to the group, is enabled, applies to the request, and no enabled row of the group that
  applies is preferred to it; the decision carries that row's platform.
\<close>

theorem resolve_explicit_route:
  assumes "Resolve (Some \<lparr>res_repo = Some (\<lambda>g disabled. Inr (ListByGroup rows g disabled)),
             res_ownership = own\<rparr>) g m0 e0 = (d, err)"
    and "dec_Source d = SourceExplicit"
  shows "\<exists>r \<in> set rows. rt_GroupID r = g \<and> rt_Enabled r \<and>
      route_applies (trim_space m0) (normalizeCompositeRouteEndpoint e0) r \<and>
      dec_Route d = Some (route_norm r) \<and> dec_TargetPlatform d = rt_TargetPlatform r \<and>
      (\<forall>q \<in> set rows. rt_GroupID q = g \<longrightarrow> rt_Enabled q \<longrightarrow>
         route_applies (trim_space m0) (normalizeCompositeRouteEndpoint e0) q \<longrightarrow>
         route_key (normalizeCompositeRouteEndpoint e0) r
           \<le> route_key (normalizeCompositeRouteEndpoint e0) q)"
  by (rule route_table.explicit_route_is_best [OF assms])

definition sample_resolver :: "string CompositeRouteResolver" where
  "sample_resolver =
     \<lparr>res_repo = Some (\<lambda>g disabled. Inr (ListByGroup sample_routes g disabled)),
      res_ownership = None\<rparr>"

lemma sample_resolve:
  "Resolve (Some sample_resolver) 7 '' gpt-x'' ''responses''
     = (decided SourceExplicit 7 ''gpt-x'' PlatformGrok ''gpt-x'' ''responses''
          (Some (sample_route 2 ''gpt-x'' ''exact'' PlatformGrok 5)), None)"
  by code_simp

theorem resolve_explicit_route_witness:
  "\<exists>r \<in> set sample_routes. rt_Enabled r \<and> PlatformGrok = rt_TargetPlatform r"
proof -
  have "dec_Source (decided SourceExplicit 7 ''gpt-x'' PlatformGrok ''gpt-x'' ''responses''
          (Some (sample_route 2 ''gpt-x'' ''exact'' PlatformGrok 5))) = SourceExplicit"
    by (simp add: decided_def)
  from resolve_explicit_route [OF sample_resolve [unfolded sample_resolver_def] this]
  show ?thesis by (auto simp: decided_def)
qed

text \<open>
  Resolving fails closed: a decision that is matched without an explicit route names
  a registered concrete platform, comes from an account or from the detector, and forwards the
  requested model unchanged; a decision that is not matched has an error or a reason; and with an
  error nothing is matched.
\<close>

theorem resolve_fails_closed:
  assumes "Resolve r g m0 e0 = (d, err)"
  shows "(dec_Matched d \<and> dec_Source d \<noteq> SourceExplicit \<longrightarrow>
            dec_Source d \<in> {SourceAccount, SourceDetector} \<and>
            IsConcretePlatform (dec_TargetPlatform d) \<and> dec_UpstreamModel d = trim_space m0) \<and>
         (\<not> dec_Matched d \<longrightarrow> err \<noteq> None \<or> dec_Reason d \<noteq> []) \<and>
         (err \<noteq> None \<longrightarrow> \<not> dec_Matched d)"
proof (cases "\<exists>a. resolve_by_accounts r g (trim_space m0) (normalizeCompositeRouteEndpoint e0) = a \<and> a = (d, err)")
  case True
  then have "resolve_by_accounts r g (trim_space m0) (normalizeCompositeRouteEndpoint e0) = (d, err)"
    by simp
  from accounts_decision [OF this] show ?thesis by auto
next
  case False
  with assms show ?thesis
    by (auto simp: Resolve_def Let_def undecided_def decided_def
        split: if_splits option.splits sum.splits)
qed

theorem resolve_fails_closed_witness:
  "IsConcretePlatform (dec_TargetPlatform (fst (Resolve (None :: string CompositeRouteResolver option)
      7 ''claude-x'' []))) \<and>
   dec_Matched (fst (Resolve (None :: string CompositeRouteResolver option) 7 ''claude-x'' []))"
proof -
  let ?d = "decided SourceDetector 7 ''claude-x'' PlatformAnthropic ''claude-x'' EndpointAny None"
  have r: "Resolve (None :: string CompositeRouteResolver option) 7 ''claude-x'' [] = (?d, None)"
    by code_simp
  have "dec_Matched ?d \<and> dec_Source ?d \<noteq> SourceExplicit" by (simp add: decided_def)
  with resolve_fails_closed [OF r] show ?thesis by (simp add: r)
qed

end
