(* ===== verification/Keyword_Words.thy ===== *)
theory Keyword_Words
  imports Prelude
begin

section \<open>Words, first matches and longest suffixes\<close>

text \<open>
  The mathematics behind keyword matching, free of arrays: the index of the first list element
  with a property, and the longest suffix of a string among a prefix-closed list of words.
\<close>

subsection \<open>The index of the first match\<close>

fun first_idx :: "('a \<Rightarrow> bool) \<Rightarrow> 'a list \<Rightarrow> nat option" where
  "first_idx p [] = None"
| "first_idx p (x # xs) = (if p x then Some 0 else map_option Suc (first_idx p xs))"

lemma first_idx_Some:
  "first_idx p xs = Some i \<longleftrightarrow> i < length xs \<and> p (xs ! i) \<and> (\<forall>j<i. \<not> p (xs ! j))"
proof (induction xs arbitrary: i)
  case Nil
  then show ?case by simp
next
  case (Cons x xs)
  show ?case
  proof (cases "p x")
    case True
    then show ?thesis by (cases i) auto
  next
    case False
    with Cons show ?thesis by (cases i) (auto simp: less_Suc_eq_0_disj)
  qed
qed

lemma first_idx_None: "first_idx p xs = None \<longleftrightarrow> (\<forall>x \<in> set xs. \<not> p x)"
  by (induction xs) auto

lemma first_idx_cong: "(\<And>x. x \<in> set xs \<Longrightarrow> p x = q x) \<Longrightarrow> first_idx p xs = first_idx q xs"
  by (induction xs) auto

lemma first_idx_append:
  "first_idx p (xs @ ys) =
     (case first_idx p xs of Some i \<Rightarrow> Some i | None \<Rightarrow> map_option ((+) (length xs)) (first_idx p ys))"
proof (induction xs)
  case Nil
  then show ?case by (cases "first_idx p ys") auto
next
  case (Cons x xs)
  then show ?case
    by (cases "first_idx p ys"; cases "first_idx p xs") auto
qed

lemma first_idx_find: "map_option ((!) xs) (first_idx p xs) = find p xs"
  by (induction xs) (auto simp: option.map_comp comp_def)

lemma first_idx_map: "first_idx p (map f xs) = first_idx (\<lambda>x. p (f x)) xs"
  by (induction xs) auto

text \<open>The node that spells a word: its position in the list of words.\<close>

definition node_of :: "string list \<Rightarrow> string \<Rightarrow> nat option" where
  "node_of ws w = first_idx (\<lambda>x. x = w) ws"

lemma node_of_Some:
  "distinct ws \<Longrightarrow> node_of ws w = Some t \<longleftrightarrow> t < length ws \<and> ws ! t = w"
  by (auto simp: node_of_def first_idx_Some distinct_conv_nth)

lemma node_of_None: "node_of ws w = None \<longleftrightarrow> w \<notin> set ws"
  by (auto simp: node_of_def first_idx_None)

subsection \<open>Smaller of two indices\<close>

text \<open>\<open>minKeywordIndex\<close>: the source's -1 is \<open>None\<close>.\<close>

definition minKeywordIndex :: "nat option \<Rightarrow> nat option \<Rightarrow> nat option" where
  "minKeywordIndex left right =
     (case left of
        None \<Rightarrow> right
      | Some l \<Rightarrow> (case right of None \<Rightarrow> left | Some r \<Rightarrow> if l < r then left else right))"

lemma minKeywordIndex_None [simp]:
  "minKeywordIndex None r = r" "minKeywordIndex l None = l"
  by (auto simp: minKeywordIndex_def split: option.splits)

lemma min_first_idx:
  "minKeywordIndex (first_idx p xs) (first_idx q xs) = first_idx (\<lambda>x. p x \<or> q x) xs"
proof (induction xs)
  case Nil
  then show ?case by simp
next
  case (Cons x xs)
  then show ?case
    by (simp add: Cons.IH [symmetric])
      (cases "first_idx p xs"; cases "first_idx q xs"; simp add: minKeywordIndex_def)
qed

subsection \<open>Longest suffix in a prefix-closed list of words\<close>

definition lsuf :: "string list \<Rightarrow> string \<Rightarrow> nat \<Rightarrow> bool" where
  "lsuf ws x t \<longleftrightarrow>
     t < length ws \<and> suffix (ws ! t) x \<and> (\<forall>w \<in> set ws. suffix w x \<longrightarrow> suffix w (ws ! t))"

definition prefix_closed :: "string list \<Rightarrow> bool" where
  "prefix_closed ws \<longleftrightarrow> (\<forall>w c. w @ [c] \<in> set ws \<longrightarrow> w \<in> set ws)"

lemma lsuf_unique: "distinct ws \<Longrightarrow> lsuf ws x s \<Longrightarrow> lsuf ws x t \<Longrightarrow> s = t"
  unfolding lsuf_def by (metis nth_eq_iff_index_eq nth_mem suffix_order.antisym)

lemma lsuf_self: "t < length ws \<Longrightarrow> lsuf ws (ws ! t) t"
  by (simp add: lsuf_def)

lemma suffix_snocE:
  assumes "suffix w (x @ [c])" and "w \<noteq> []"
  obtains v where "w = v @ [c]" "suffix v x"
proof (cases w rule: rev_cases)
  case Nil
  with assms show thesis by simp
next
  case (snoc v d)
  with assms show thesis by (intro that [of v]) auto
qed

text \<open>
  The automaton step: what can be read after \<open>x\<close> depends only on the longest suffix of \<open>x\<close> that
  is a word.
\<close>

lemma lsuf_step:
  assumes pc: "prefix_closed ws" and f: "lsuf ws x f" and t: "lsuf ws (ws ! f @ [c]) t"
  shows "lsuf ws (x @ [c]) t"
  unfolding lsuf_def
proof (intro conjI ballI impI)
  show "t < length ws" using t by (simp add: lsuf_def)
  have "suffix (ws ! f @ [c]) (x @ [c])" using f by (simp add: lsuf_def)
  then show "suffix (ws ! t) (x @ [c])"
    using t by (auto simp: lsuf_def intro: suffix_order.trans)
  fix w assume w: "w \<in> set ws" "suffix w (x @ [c])"
  show "suffix w (ws ! t)"
  proof (cases "w = []")
    case False
    with w(2) obtain v where v: "w = v @ [c]" "suffix v x" by (auto elim: suffix_snocE)
    with w(1) pc have "v \<in> set ws" by (auto simp: prefix_closed_def)
    with f v(2) have "suffix v (ws ! f)" by (auto simp: lsuf_def)
    with v(1) w(1) t show ?thesis by (auto simp: lsuf_def)
  qed simp
qed

text \<open>Following a failure link loses nothing when the current word cannot be extended.\<close>

lemma lsuf_fail:
  assumes pc: "prefix_closed ws" and ne: "ws ! s \<noteq> []" and out: "ws ! s @ [c] \<notin> set ws"
    and f: "lsuf ws (tl (ws ! s)) f" and t: "lsuf ws (ws ! f @ [c]) t"
  shows "lsuf ws (ws ! s @ [c]) t"
proof -
  have st: "lsuf ws (tl (ws ! s) @ [c]) t" by (rule lsuf_step [OF pc f t])
  obtain a u where u: "ws ! s = a # u" using ne by (cases "ws ! s") auto
  have "suffix w (u @ [c])" if "w \<in> set ws" "suffix w (a # u @ [c])" for w
    using that out u by (auto simp: suffix_Cons)
  with st u show ?thesis
    unfolding lsuf_def by (auto simp: suffix_Cons)
qed

lemma lsuf_extend:
  assumes "t < length ws" and "ws ! t = ws ! s @ [c]"
  shows "lsuf ws (ws ! s @ [c]) t"
  using lsuf_self [OF assms(1)] assms(2) by simp

lemma lsuf_root:
  assumes "0 < length ws" and "ws ! 0 = []" and "[c] \<notin> set ws"
  shows "lsuf ws (ws ! 0 @ [c]) 0"
  using assms by (auto simp: lsuf_def suffix_Cons)

text \<open>A keyword ends at the current position iff it is a suffix of the current word.\<close>

lemma lsuf_keyword:
  "lsuf ws x t \<Longrightarrow> p \<in> set ws \<Longrightarrow> suffix p (ws ! t) \<longleftrightarrow> suffix p x"
  by (auto simp: lsuf_def intro: suffix_order.trans)

lemma sublist_snoc: "sublist p (x @ [c]) \<longleftrightarrow> sublist p x \<or> suffix p (x @ [c])"
proof
  assume "sublist p (x @ [c])"
  then obtain u v where e: "x @ [c] = u @ p @ v" by (auto simp: sublist_def)
  show "sublist p x \<or> suffix p (x @ [c])"
  proof (cases v rule: rev_cases)
    case Nil
    with e show ?thesis by (auto simp: suffix_def)
  next
    case (snoc v' d)
    with e have "x = u @ p @ v'" by (metis append.assoc butlast_snoc)
    then show ?thesis by (auto simp: sublist_def)
  qed
next
  assume "sublist p x \<or> suffix p (x @ [c])"
  then show "sublist p (x @ [c])"
    by (auto intro: suffix_imp_sublist sublist_order.order_trans)
qed

lemma prefix_closed_prefix: "prefix_closed ws \<Longrightarrow> w \<in> set ws \<Longrightarrow> prefix v w \<Longrightarrow> v \<in> set ws"
proof (induction w rule: rev_induct)
  case Nil
  then show ?case by simp
next
  case (snoc c w)
  then show ?case by (auto simp: prefix_closed_def)
qed

lemma word_length_bound:
  assumes "prefix_closed ws" and "w \<in> set ws"
  shows "length w < length ws"
proof -
  have "set (prefixes w) \<subseteq> set ws"
    using prefix_closed_prefix [OF assms] by auto
  then have "card (set (prefixes w)) \<le> card (set ws)" by (intro card_mono) auto
  also have "\<dots> \<le> length ws" by (rule card_length)
  finally show ?thesis by (simp add: distinct_card)
qed

end
