(* ===== verification/Keyword_Matcher.thy ===== *)
theory Keyword_Matcher
  imports Keyword_Words "HOL-Library.Char_ord"
begin

section \<open>The keyword matcher of content moderation\<close>

text \<open>
  Models \<open>service/content_moderation_keyword_matcher.go\<close>: a byte-level Aho-Corasick automaton kept
  in flat arrays.  Node and edge indices are naturals; the source's sentinel -1 is \<open>None\<close>.  Every
  loop whose end depends on the links in the arrays carries fuel, and \<open>None\<close> of the outer option is
  a run that panics (an index out of range) or does not end; the correctness theory shows that it
  never happens.  \<open>strings.ToLower\<close> is the argument \<open>lower\<close>.
\<close>

subsection \<open>Data\<close>

record kw_node =
  nd_failure :: nat
  nd_bestKeyword :: "nat option"
  nd_edgeStart :: nat
  nd_edgeCount :: nat

record kw_edge =
  ed_target :: nat
  ed_label :: char

record kw_build_edge =
  be_target :: nat
  be_nextSibling :: "nat option"
  be_label :: char

record kw_matcher =
  m_nodes :: "kw_node list"
  m_edges :: "kw_edge list"
  m_rootTransitions :: "char \<Rightarrow> nat"
  m_keywords :: "string list"

subsection \<open>Building the trie\<close>

definition newContentModerationKeywordNode :: kw_node where
  "newContentModerationKeywordNode =
     \<lparr>nd_failure = 0, nd_bestKeyword = None, nd_edgeStart = 0, nd_edgeCount = 0\<rparr>"

definition BuildFirstEdge :: "kw_node \<Rightarrow> nat option" where
  "BuildFirstEdge node = (if nd_edgeStart node = 0 then None else Some (nd_edgeStart node - 1))"

text \<open>The edges met when following \<open>nextSibling\<close> from an edge index.\<close>

fun sibling_loop :: "nat \<Rightarrow> kw_build_edge list \<Rightarrow> nat option \<Rightarrow> kw_build_edge list option" where
  "sibling_loop fuel es None = Some []"
| "sibling_loop 0 es (Some i) = None"
| "sibling_loop (Suc fuel) es (Some i) =
     (if i < length es
      then map_option ((#) (es ! i)) (sibling_loop fuel es (be_nextSibling (es ! i)))
      else None)"

definition build_siblings :: "kw_node list \<Rightarrow> kw_build_edge list \<Rightarrow> nat \<Rightarrow> kw_build_edge list option" where
  "build_siblings ns es s = sibling_loop (length es) es (BuildFirstEdge (ns ! s))"

fun transition_loop :: "nat \<Rightarrow> kw_build_edge list \<Rightarrow> nat option \<Rightarrow> char \<Rightarrow> nat option option" where
  "transition_loop fuel es None label = Some None"
| "transition_loop 0 es (Some i) label = None"
| "transition_loop (Suc fuel) es (Some i) label =
     (if i < length es
      then if be_label (es ! i) = label then Some (Some (be_target (es ! i)))
           else transition_loop fuel es (be_nextSibling (es ! i)) label
      else None)"

definition BuildTransition ::
    "kw_node list \<Rightarrow> kw_build_edge list \<Rightarrow> nat \<Rightarrow> char \<Rightarrow> nat option option" where
  "BuildTransition ns es s label =
     (if length ns \<le> s then Some None
      else transition_loop (length es) es (BuildFirstEdge (ns ! s)) label)"

text \<open>The inner loop over the bytes of one keyword: it returns the arrays and the last state.\<close>

fun insert_bytes ::
    "kw_node list \<Rightarrow> kw_build_edge list \<Rightarrow> nat \<Rightarrow> string \<Rightarrow> (kw_node list \<times> kw_build_edge list \<times> nat) option"
where
  "insert_bytes ns es s [] = Some (ns, es, s)"
| "insert_bytes ns es s (label # rest) =
     (case BuildTransition ns es s label of
        None \<Rightarrow> None
      | Some (Some t) \<Rightarrow> insert_bytes ns es t rest
      | Some None \<Rightarrow>
          (let t = length ns;
               es' = es @ [\<lparr>be_target = t, be_nextSibling = BuildFirstEdge (ns ! s), be_label = label\<rparr>];
               ns' = ns @ [newContentModerationKeywordNode]
           in insert_bytes (ns'[s := (ns' ! s)\<lparr>nd_edgeStart := length es'\<rparr>]) es' t rest))"

definition mark_keyword :: "kw_node list \<Rightarrow> nat \<Rightarrow> nat \<Rightarrow> kw_node list" where
  "mark_keyword ns s i =
     (case nd_bestKeyword (ns ! s) of
        None \<Rightarrow> ns[s := (ns ! s)\<lparr>nd_bestKeyword := Some i\<rparr>]
      | Some cur \<Rightarrow> if i < cur then ns[s := (ns ! s)\<lparr>nd_bestKeyword := Some i\<rparr>] else ns)"

text \<open>The outer loop over the keywords, from index \<open>i\<close> on.\<close>

fun insert_keywords ::
    "(string \<Rightarrow> string) \<Rightarrow> nat \<Rightarrow> string list \<Rightarrow> kw_node list \<times> kw_build_edge list \<Rightarrow>
     (kw_node list \<times> kw_build_edge list) option"
where
  "insert_keywords lower i [] (ns, es) = Some (ns, es)"
| "insert_keywords lower i (k # ks) (ns, es) =
     (if k = [] then insert_keywords lower (Suc i) ks (ns, es)
      else case insert_bytes ns es 0 (lower k) of
             None \<Rightarrow> None
           | Some (ns', es', s) \<Rightarrow> insert_keywords lower (Suc i) ks (mark_keyword ns' s i, es'))"

subsection \<open>Failure links, breadth first\<close>

definition root_table :: "kw_build_edge list \<Rightarrow> char \<Rightarrow> nat" where
  "root_table es = foldl (\<lambda>f e. f(be_label e := be_target e)) (\<lambda>_. 0) es"

fun follow_failure ::
    "nat \<Rightarrow> kw_node list \<Rightarrow> kw_build_edge list \<Rightarrow> nat \<Rightarrow> char \<Rightarrow> nat option option" where
  "follow_failure fuel ns es failure label =
     (case BuildTransition ns es failure label of
        None \<Rightarrow> None
      | Some (Some t) \<Rightarrow> Some (Some t)
      | Some None \<Rightarrow>
          (if failure = 0 then Some None
           else case fuel of
                  0 \<Rightarrow> None
                | Suc fuel' \<Rightarrow> follow_failure fuel' ns es (nd_failure (ns ! failure)) label))"

declare follow_failure.simps [simp del]

definition link_child ::
    "kw_node list \<Rightarrow> kw_build_edge list \<Rightarrow> nat \<Rightarrow> kw_build_edge \<Rightarrow> kw_node list option" where
  "link_child ns es s e =
     (case follow_failure (length ns) ns es (nd_failure (ns ! s)) (be_label e) of
        None \<Rightarrow> None
      | Some fallback \<Rightarrow>
          (let t = be_target e;
               ns1 = (case fallback of
                        None \<Rightarrow> ns
                      | Some f \<Rightarrow> ns[t := (ns ! t)\<lparr>nd_failure := f\<rparr>])
           in Some (ns1[t := (ns1 ! t)\<lparr>nd_bestKeyword :=
                      minKeywordIndex (nd_bestKeyword (ns1 ! t))
                        (nd_bestKeyword (ns1 ! nd_failure (ns1 ! t)))\<rparr>])))"

fun link_children ::
    "kw_node list \<Rightarrow> kw_build_edge list \<Rightarrow> nat \<Rightarrow> kw_build_edge list \<Rightarrow> kw_node list option" where
  "link_children ns es s [] = Some ns"
| "link_children ns es s (e # rest) =
     (case link_child ns es s e of None \<Rightarrow> None | Some ns' \<Rightarrow> link_children ns' es s rest)"

text \<open>The queue holds what is still to be taken; children are appended behind it.\<close>

fun bfs :: "nat \<Rightarrow> kw_node list \<Rightarrow> kw_build_edge list \<Rightarrow> nat list \<Rightarrow> kw_node list option" where
  "bfs fuel ns es [] = Some ns"
| "bfs 0 ns es (s # queue) = None"
| "bfs (Suc fuel) ns es (s # queue) =
     (case build_siblings ns es s of
        None \<Rightarrow> None
      | Some sib \<Rightarrow>
          (case link_children ns es s sib of
             None \<Rightarrow> None
           | Some ns' \<Rightarrow> bfs fuel ns' es (queue @ map be_target sib)))"

subsection \<open>Packing the edges\<close>

text \<open>
  The insertion sort of \<open>outgoing\<close>: the sorted prefix is kept last element first, and the current
  edge moves left past every edge with a greater label.
\<close>

fun place_left :: "kw_edge \<Rightarrow> kw_edge list \<Rightarrow> kw_edge list" where
  "place_left x [] = [x]"
| "place_left x (y # ys) = (if ed_label x < ed_label y then y # place_left x ys else x # y # ys)"

definition sort_outgoing :: "kw_edge list \<Rightarrow> kw_edge list" where
  "sort_outgoing l = rev (foldl (\<lambda>acc x. place_left x acc) [] l)"

definition pack_edge :: "kw_build_edge \<Rightarrow> kw_edge" where
  "pack_edge e = \<lparr>ed_target = be_target e, ed_label = be_label e\<rparr>"

fun pack_nodes ::
    "kw_build_edge list \<Rightarrow> nat list \<Rightarrow> kw_node list \<Rightarrow> kw_edge list \<Rightarrow> (kw_node list \<times> kw_edge list) option"
where
  "pack_nodes bes [] ns out = Some (ns, out)"
| "pack_nodes bes (i # rest) ns out =
     (case build_siblings ns bes i of
        None \<Rightarrow> None
      | Some sib \<Rightarrow>
          (if 256 < length sib then None
           else pack_nodes bes rest
                  (ns[i := (ns ! i)\<lparr>nd_edgeStart := length out, nd_edgeCount := length sib\<rparr>])
                  (out @ sort_outgoing (map pack_edge sib))))"

definition newContentModerationKeywordMatcher ::
    "(string \<Rightarrow> string) \<Rightarrow> string list \<Rightarrow> kw_matcher option option" where
  "newContentModerationKeywordMatcher lower keywords =
     (if keywords = [] then Some None
      else case insert_keywords lower 0 keywords ([newContentModerationKeywordNode], []) of
             None \<Rightarrow> None
           | Some (ns, es) \<Rightarrow>
               (if length ns = 1 then Some None
                else case build_siblings ns es 0 of
                       None \<Rightarrow> None
                     | Some sib \<Rightarrow>
                         (case bfs (length ns) ns es (map be_target sib) of
                            None \<Rightarrow> None
                          | Some ns' \<Rightarrow>
                              (case pack_nodes es [0..<length ns'] ns' [] of
                                 None \<Rightarrow> None
                               | Some (nodes, edges) \<Rightarrow>
                                   Some (Some \<lparr>m_nodes = nodes, m_edges = edges,
                                               m_rootTransitions = root_table sib,
                                               m_keywords = keywords\<rparr>)))))"

subsection \<open>Matching\<close>

function lower_bound :: "kw_edge list \<Rightarrow> char \<Rightarrow> nat \<Rightarrow> nat \<Rightarrow> nat" where
  "lower_bound es label left right =
     (if left < right
      then (let middle = left + (right - left) div 2
            in if ed_label (es ! middle) < label then lower_bound es label (middle + 1) right
               else lower_bound es label left middle)
      else left)"
  by auto
termination by (relation "measure (\<lambda>(es, label, left, right). right - left)") auto

declare lower_bound.simps [simp del]

definition matcher_next :: "kw_matcher \<Rightarrow> nat \<Rightarrow> char \<Rightarrow> nat" where
  "matcher_next m s label =
     (if s = 0 then m_rootTransitions m label
      else if length (m_nodes m) \<le> s then 0
      else (let node = m_nodes m ! s;
                stop = nd_edgeStart node + nd_edgeCount node;
                left = lower_bound (m_edges m) label (nd_edgeStart node) stop
            in if left < stop \<and> ed_label (m_edges m ! left) = label
               then ed_target (m_edges m ! left) else 0))"

text \<open>The loop that follows failure links until a byte can be read.\<close>

fun step_loop :: "nat \<Rightarrow> (nat \<Rightarrow> char \<Rightarrow> nat) \<Rightarrow> (nat \<Rightarrow> nat) \<Rightarrow> nat \<Rightarrow> char \<Rightarrow> nat option" where
  "step_loop fuel nxt fail s label =
     (if nxt s label \<noteq> 0 then Some (nxt s label)
      else if s = 0 then Some 0
      else case fuel of 0 \<Rightarrow> None | Suc fuel' \<Rightarrow> step_loop fuel' nxt fail (fail s) label)"

declare step_loop.simps [simp del]

text \<open>
  The scan of the text with the best keyword so far; the inner option is the best index at the end,
  and index 0 ends the scan at once.
\<close>

fun scan_loop ::
    "nat \<Rightarrow> (nat \<Rightarrow> char \<Rightarrow> nat) \<Rightarrow> (nat \<Rightarrow> nat) \<Rightarrow> (nat \<Rightarrow> nat option) \<Rightarrow> nat \<Rightarrow> nat option \<Rightarrow> string \<Rightarrow>
     nat option option"
where
  "scan_loop fuel nxt fail best s b [] = Some b"
| "scan_loop fuel nxt fail best s b (c # rest) =
     (case step_loop fuel nxt fail s c of
        None \<Rightarrow> None
      | Some s' \<Rightarrow>
          (let b' = minKeywordIndex b (best s')
           in if b' = Some 0 then Some (Some 0) else scan_loop fuel nxt fail best s' b' rest))"

definition Match :: "(string \<Rightarrow> string) \<Rightarrow> kw_matcher option \<Rightarrow> string \<Rightarrow> string option option" where
  "Match lower mo text =
     (case mo of
        None \<Rightarrow> Some None
      | Some m \<Rightarrow>
          (if text = [] \<or> m_nodes m = [] \<or> m_keywords m = [] then Some None
           else case scan_loop (length (m_nodes m)) (matcher_next m)
                       (\<lambda>s. nd_failure (m_nodes m ! s)) (\<lambda>s. nd_bestKeyword (m_nodes m ! s))
                       0 None (lower text) of
                  None \<Rightarrow> None
                | Some None \<Rightarrow> Some None
                | Some (Some b) \<Rightarrow>
                    (if length (m_keywords m) \<le> b then Some None else Some (Some (m_keywords m ! b)))))"

end
