(* ===== verification/Keyword_Trie.thy ===== *)
theory Keyword_Trie
  imports Keyword_Matcher
begin

section \<open>The trie behind the build arrays\<close>

text \<open>
  A list of words names the nodes: node \<open>s\<close> spells \<open>ws ! s\<close>.  \<open>trie_ok\<close> says that the sibling
  lists in the arrays are exactly the one-byte extensions among the words; inserting a keyword
  keeps it, and marking records the first keyword of every word.
\<close>

subsection \<open>Sibling lists\<close>

definition edges_ok :: "kw_build_edge list \<Rightarrow> bool" where
  "edges_ok es \<longleftrightarrow> (\<forall>i<length es. \<forall>j. be_nextSibling (es ! i) = Some j \<longrightarrow> j < i)"

lemma sibling_fuel:
  "edges_ok es \<Longrightarrow> i < length es \<Longrightarrow> i < n \<Longrightarrow>
   sibling_loop n es (Some i) = sibling_loop (Suc i) es (Some i)"
proof (induction i arbitrary: n rule: less_induct)
  case (less i)
  then obtain n' where n: "n = Suc n'" by (cases n) auto
  show ?case
  proof (cases "be_nextSibling (es ! i)")
    case None
    with less.prems n show ?thesis by simp
  next
    case (Some j)
    with less.prems have j: "j < i" by (auto simp: edges_ok_def)
    with less.prems less.IH [of j n'] less.IH [of j i] n Some show ?thesis by simp
  qed
qed

lemma sibling_total: "edges_ok es \<Longrightarrow> i < length es \<Longrightarrow> \<exists>l. sibling_loop (Suc i) es (Some i) = Some l"
proof (induction i rule: less_induct)
  case (less i)
  show ?case
  proof (cases "be_nextSibling (es ! i)")
    case (Some j)
    with less.prems have j: "j < i" by (auto simp: edges_ok_def)
    with less show ?thesis using sibling_fuel [of es j i] Some by auto
  qed (use less in simp)
qed

lemma sibling_append:
  "edges_ok es \<Longrightarrow> i < length es \<Longrightarrow> sibling_loop n (es @ xs) (Some i) = sibling_loop n es (Some i)"
proof (induction n arbitrary: i)
  case (Suc n)
  then show ?case
    by (cases "be_nextSibling (es ! i)") (auto simp: nth_append edges_ok_def dest: less_trans)
qed simp

lemma transition_find:
  "sibling_loop n es e = Some l \<Longrightarrow>
   transition_loop n es e c = Some (map_option be_target (find (\<lambda>x. be_label x = c) l))"
  by (induction n es e arbitrary: l rule: sibling_loop.induct) (auto split: if_splits)

subsection \<open>The invariant\<close>

definition sib_ok :: "string list \<Rightarrow> nat \<Rightarrow> kw_build_edge list \<Rightarrow> bool" where
  "sib_ok ws s l \<longleftrightarrow> distinct (map be_label l) \<and>
     (\<forall>c t. node_of ws (ws ! s @ [c]) = Some t \<longleftrightarrow> (\<exists>e \<in> set l. be_label e = c \<and> be_target e = t))"

lemma sib_edge: "sib_ok ws s l \<Longrightarrow> e \<in> set l \<Longrightarrow> node_of ws (ws ! s @ [be_label e]) = Some (be_target e)"
  by (auto simp: sib_ok_def)

lemma sib_target:
  "sib_ok ws s l \<Longrightarrow> node_of ws (ws ! s @ [c]) = Some t \<longleftrightarrow> (\<exists>e \<in> set l. be_label e = c \<and> be_target e = t)"
  by (simp add: sib_ok_def)

definition words_ok :: "string list \<Rightarrow> bool" where
  "words_ok ws \<longleftrightarrow> 0 < length ws \<and> ws ! 0 = [] \<and> distinct ws \<and> prefix_closed ws"

definition trie_ok :: "kw_node list \<Rightarrow> kw_build_edge list \<Rightarrow> string list \<Rightarrow> bool" where
  "trie_ok ns es ws \<longleftrightarrow> length ns = length ws \<and> words_ok ws \<and> edges_ok es \<and>
     (\<forall>s<length ns. \<forall>i. BuildFirstEdge (ns ! s) = Some i \<longrightarrow> i < length es) \<and>
     (\<forall>s<length ns. \<exists>l. build_siblings ns es s = Some l \<and> sib_ok ws s l)"

lemma trie_words: "trie_ok ns es ws \<Longrightarrow> words_ok ws"
  by (simp add: trie_ok_def)

lemma trie_siblings:
  assumes "trie_ok ns es ws" and "s < length ns"
  obtains l where "build_siblings ns es s = Some l" "sib_ok ws s l"
  using assms by (auto simp: trie_ok_def)

lemma trie_cong:
  assumes t: "trie_ok ns es ws" and e: "map nd_edgeStart ns' = map nd_edgeStart ns"
  shows "trie_ok ns' es ws"
proof -
  have l: "length ns' = length ns" using e by (rule map_eq_imp_length_eq)
  have "nd_edgeStart (ns' ! s) = nd_edgeStart (ns ! s)" if "s < length ns" for s
    using e that l by (metis nth_map)
  then have "BuildFirstEdge (ns' ! s) = BuildFirstEdge (ns ! s)" if "s < length ns" for s
    using that by (simp add: BuildFirstEdge_def)
  with t l show ?thesis by (simp add: trie_ok_def build_siblings_def)
qed

lemma BuildTransition_word:
  assumes t: "trie_ok ns es ws" and s: "s < length ns"
  shows "BuildTransition ns es s c = Some (node_of ws (ws ! s @ [c]))"
proof -
  obtain l where l: "build_siblings ns es s = Some l" "sib_ok ws s l"
    using t s by (rule trie_siblings)
  have "map_option be_target (find (\<lambda>x. be_label x = c) l) = node_of ws (ws ! s @ [c])"
  proof (cases "find (\<lambda>x. be_label x = c) l")
    case None
    with l(2) show ?thesis by (cases "node_of ws (ws ! s @ [c])") (auto simp: sib_ok_def find_None_iff)
  next
    case (Some e)
    then have "e \<in> set l" "be_label e = c" by (auto simp: find_Some_iff)
    with sib_edge [OF l(2)] Some show ?thesis by auto
  qed
  with l(1) s show ?thesis
    by (simp add: BuildTransition_def build_siblings_def transition_find)
qed

subsection \<open>A new node\<close>

lemma node_of_snoc:
  "node_of (ws @ [w]) x = (case node_of ws x of Some t \<Rightarrow> Some t
                                              | None \<Rightarrow> if x = w then Some (length ws) else None)"
  by (cases "first_idx (\<lambda>y. y = x) ws") (auto simp: node_of_def first_idx_append)

lemma words_snoc:
  assumes "words_ok ws" and "s < length ws" and "ws ! s @ [c] \<notin> set ws"
  shows "words_ok (ws @ [ws ! s @ [c]])"
  using assms by (auto simp: words_ok_def prefix_closed_def nth_append)

lemma new_node:
  assumes t: "trie_ok ns es ws" and s: "s < length ns" and new: "node_of ws (ws ! s @ [c]) = None"
    and es': "es' = es @ [\<lparr>be_target = length ns, be_nextSibling = BuildFirstEdge (ns ! s), be_label = c\<rparr>]"
    and ns': "ns' = (ns @ [newContentModerationKeywordNode])[s := (ns ! s)\<lparr>nd_edgeStart := length es'\<rparr>]"
  shows "trie_ok ns' es' (ws @ [ws ! s @ [c]])"
proof -
  let ?w = "ws ! s @ [c]"
  let ?ws = "ws @ [?w]"
  have len: "length ns = length ws" and eo: "edges_ok es" and wo: "words_ok ws"
    and fe: "\<And>u i. u < length ns \<Longrightarrow> BuildFirstEdge (ns ! u) = Some i \<Longrightarrow> i < length es"
    using t by (auto simp: trie_ok_def)
  have new': "?w \<notin> set ws" using new by (simp add: node_of_None)
  have eo': "edges_ok es'"
    using eo fe [OF s] unfolding edges_ok_def es' by (auto simp: nth_append less_Suc_eq)
  have lift: "sibling_loop n es' (BuildFirstEdge (ns ! u)) = sibling_loop (length es) es (BuildFirstEdge (ns ! u))"
    if "u < length ns" "length es \<le> n" for u n
  proof (cases "BuildFirstEdge (ns ! u)")
    case (Some i)
    then have "i < length es" using fe that by simp
    then show ?thesis
      using Some eo that sibling_append [of es i n] sibling_fuel [of es i n] sibling_fuel [of es i "length es"]
      by (simp add: es')
  qed simp
  have fe': "BuildFirstEdge (ns' ! u) =
      (if u = s then Some (length es) else if u < length ns then BuildFirstEdge (ns ! u) else None)"
    if "u < Suc (length ns)" for u
    using that s by (auto simp: ns' es' nth_append nth_list_update BuildFirstEdge_def
        newContentModerationKeywordNode_def)
  have sib: "\<exists>l. build_siblings ns' es' u = Some l \<and> sib_ok ?ws u l" if u: "u < Suc (length ns)" for u
  proof -
    consider "u = s" | "u \<noteq> s" "u < length ns" | "u = length ns" using u s by linarith
    then show ?thesis
    proof cases
      case 1
      obtain l where l: "build_siblings ns es s = Some l" "sib_ok ws s l" using t s by (rule trie_siblings)
      let ?e = "\<lparr>be_target = length ns, be_nextSibling = BuildFirstEdge (ns ! s), be_label = c\<rparr>"
      have sib': "build_siblings ns' es' s = Some (?e # l)"
        using fe' [of s] s lift [OF s, of "length es"] l(1)
        by (simp add: build_siblings_def es')
      have fresh: "c \<notin> be_label ` set l" using l(2) new by (force simp: sib_ok_def)
      have "node_of ?ws (?ws ! s @ [d]) = Some t \<longleftrightarrow> (\<exists>e \<in> set (?e # l). be_label e = d \<and> be_target e = t)"
        for d t
      proof (cases "d = c")
        case True
        with fresh new s len show ?thesis by (auto simp: nth_append node_of_snoc)
      next
        case False
        then have "node_of ?ws (?ws ! s @ [d]) = node_of ws (ws ! s @ [d])"
          using s len by (simp add: nth_append node_of_snoc split: option.split)
        with False show ?thesis by (simp add: sib_target [OF l(2)])
      qed
      with fresh l(2) have "sib_ok ?ws s (?e # l)" by (simp add: sib_ok_def)
      with sib' show ?thesis using 1 by auto
    next
      case 2
      obtain l where l: "build_siblings ns es u = Some l" "sib_ok ws u l" using t 2(2) by (rule trie_siblings)
      have "build_siblings ns' es' u = Some l"
        using 2 fe' [of u] lift [of u "length es'"] l(1) by (simp add: build_siblings_def es')
      moreover have "ws ! u \<noteq> ws ! s" using 2 s len wo by (simp add: words_ok_def nth_eq_iff_index_eq)
      then have "node_of ?ws (?ws ! u @ [d]) = node_of ws (ws ! u @ [d])" for d
        using 2 len by (simp add: nth_append node_of_snoc split: option.split)
      with l(2) have "sib_ok ?ws u l" by (simp add: sib_ok_def)
      ultimately show ?thesis by auto
    next
      case 3
      have "build_siblings ns' es' u = Some []" using 3 fe' [of u] s by (simp add: build_siblings_def)
      moreover have "?w @ [d] \<notin> set ws" for d
        using new' wo unfolding words_ok_def prefix_closed_def by blast
      then have "sib_ok ?ws u []"
        using 3 len by (auto simp: sib_ok_def nth_append node_of_snoc node_of_None split: option.splits)
      ultimately show ?thesis by auto
    qed
  qed
  have "words_ok ?ws" using words_snoc [OF wo] s len new' by simp
  moreover have "length ns' = length ?ws" using len by (simp add: ns')
  ultimately show ?thesis
    using eo' sib fe' fe unfolding trie_ok_def by (auto simp: ns' es' less_Suc_eq split: if_splits)
qed

subsection \<open>Inserting one keyword\<close>

text \<open>What the insertion of bytes leaves of the arrays it was given.\<close>

definition grows :: "kw_node list \<Rightarrow> string list \<Rightarrow> kw_node list \<Rightarrow> string list \<Rightarrow> bool" where
  "grows ns ws ns' ws' \<longleftrightarrow> prefix ws ws' \<and> length ns \<le> length ns' \<and>
     (\<forall>u<length ns. nd_bestKeyword (ns' ! u) = nd_bestKeyword (ns ! u) \<and> nd_failure (ns' ! u) = nd_failure (ns ! u)) \<and>
     (\<forall>u<length ns'. length ns \<le> u \<longrightarrow> nd_bestKeyword (ns' ! u) = None \<and> nd_failure (ns' ! u) = 0)"

lemma grows_refl: "grows ns ws ns ws"
  by (simp add: grows_def)

lemma grows_trans: "grows ns ws ns' ws' \<Longrightarrow> grows ns' ws' ns'' ws'' \<Longrightarrow> grows ns ws ns'' ws''"
  unfolding grows_def
  by (smt (verit) le_less_trans not_le order_trans prefix_order.trans)

lemma prefix_nth: "prefix ws ws' \<Longrightarrow> s < length ws \<Longrightarrow> ws' ! s = ws ! s"
  by (auto simp: prefix_def nth_append)

lemma node_of_bound: "node_of ws w = Some t \<Longrightarrow> t < length ws \<and> ws ! t = w"
  by (auto simp: node_of_def first_idx_Some)

lemma insert_bytes_ok:
  "trie_ok ns es ws \<Longrightarrow> s < length ns \<Longrightarrow>
   \<exists>ns' es' s' ws'. insert_bytes ns es s cs = Some (ns', es', s') \<and> trie_ok ns' es' ws' \<and>
     grows ns ws ns' ws' \<and> s' < length ns' \<and> ws' ! s' = ws ! s @ cs"
proof (induction cs arbitrary: ns es ws s)
  case Nil
  then show ?case using grows_refl by fastforce
next
  case (Cons c cs)
  have len: "length ns = length ws" using Cons.prems by (simp add: trie_ok_def)
  show ?case
  proof (cases "node_of ws (ws ! s @ [c])")
    case (Some t)
    then have t: "t < length ns" "ws ! t = ws ! s @ [c]" using len by (auto dest: node_of_bound)
    with Cons.IH [OF Cons.prems(1) t(1)] Cons.prems Some show ?thesis
      by (simp add: BuildTransition_word)
  next
    case None
    define es' where "es' = es @ [\<lparr>be_target = length ns, be_nextSibling = BuildFirstEdge (ns ! s), be_label = c\<rparr>]"
    define ns' where "ns' = (ns @ [newContentModerationKeywordNode])[s := (ns ! s)\<lparr>nd_edgeStart := length es'\<rparr>]"
    let ?ws = "ws @ [ws ! s @ [c]]"
    have ok: "trie_ok ns' es' ?ws"
      using Cons.prems None es'_def ns'_def by (rule new_node)
    have step: "insert_bytes ns es s (c # cs) = insert_bytes ns' es' (length ns) cs"
      using Cons.prems None
      by (simp add: BuildTransition_word Let_def nth_append ns'_def es'_def)
    have g: "grows ns ws ns' ?ws"
      using Cons.prems(2) by (auto simp: grows_def ns'_def nth_append nth_list_update
          newContentModerationKeywordNode_def)
    have "length ns < length ns'" by (simp add: ns'_def)
    from Cons.IH [OF ok this] obtain ns2 es2 s2 ws2 where
      r: "insert_bytes ns' es' (length ns) cs = Some (ns2, es2, s2)" "trie_ok ns2 es2 ws2"
        "grows ns' ?ws ns2 ws2" "s2 < length ns2" "ws2 ! s2 = ?ws ! length ns @ cs" by blast
    have "ws2 ! s2 = ws ! s @ c # cs" using r(5) len by simp
    with r step grows_trans [OF g r(3)] show ?thesis by auto
  qed
qed

subsection \<open>All keywords\<close>

text \<open>
  The keyword index at a node before linking: the first keyword that is its whole word.  \<open>pats\<close>
  are the lowered keywords, the empty keywords included.
\<close>

definition raw_best :: "string list \<Rightarrow> string \<Rightarrow> nat option" where
  "raw_best pats w = first_idx (\<lambda>p. p \<noteq> [] \<and> p = w) pats"

definition marked :: "kw_node list \<Rightarrow> string list \<Rightarrow> string list \<Rightarrow> bool" where
  "marked ns ws pats \<longleftrightarrow> set pats \<subseteq> set ws \<and>
     (\<forall>u<length ns. nd_failure (ns ! u) = 0 \<and> nd_bestKeyword (ns ! u) = raw_best pats (ws ! u))"

lemma raw_best_snoc:
  "raw_best (pats @ [p]) w = (case raw_best pats w of
      Some i \<Rightarrow> Some i | None \<Rightarrow> if p \<noteq> [] \<and> p = w then Some (length pats) else None)"
  by (cases "first_idx (\<lambda>p. p \<noteq> [] \<and> p = w) pats") (auto simp: raw_best_def first_idx_append)

lemma raw_best_bound: "raw_best pats w = Some i \<Longrightarrow> i < length pats"
  by (simp add: raw_best_def first_idx_Some)

lemma raw_best_None: "w \<notin> set pats \<Longrightarrow> raw_best pats w = None"
  by (auto simp: raw_best_def first_idx_None)

lemma marked_grows:
  assumes m: "marked ns ws pats" and g: "grows ns ws ns' ws'"
    and t: "trie_ok ns es ws" and t': "trie_ok ns' es' ws'"
  shows "marked ns' ws' pats"
proof -
  have len: "length ns = length ws" "length ns' = length ws'" using t t' by (auto simp: trie_ok_def)
  have "nd_bestKeyword (ns' ! u) = raw_best pats (ws' ! u)" if "u < length ns'" for u
  proof (cases "u < length ns")
    case True
    with g len have "ws' ! u = ws ! u" by (simp add: grows_def prefix_nth)
    with True m g that show ?thesis by (simp add: marked_def grows_def)
  next
    case False
    have "ws' ! u \<notin> set ws"
    proof
      assume "ws' ! u \<in> set ws"
      then obtain v where v: "v < length ws" "ws ! v = ws' ! u" by (auto simp: in_set_conv_nth)
      moreover have "ws' ! v = ws ! v" using g v(1) by (simp add: grows_def prefix_nth)
      ultimately have "ws' ! v = ws' ! u" by simp
      moreover have "distinct ws'" using t' by (simp add: trie_ok_def words_ok_def)
      ultimately have "v = u" using v(1) that False len by (simp add: nth_eq_iff_index_eq)
      with v(1) False len show False by simp
    qed
    with m have "raw_best pats (ws' ! u) = None" by (auto simp: marked_def intro: raw_best_None)
    with g False that show ?thesis by (simp add: grows_def)
  qed
  moreover have "nd_failure (ns' ! u) = 0" if "u < length ns'" for u
    using m g that by (cases "u < length ns") (auto simp: marked_def grows_def)
  moreover have "set pats \<subseteq> set ws'"
    using m g by (auto simp: marked_def grows_def dest!: set_mono_prefix)
  ultimately show ?thesis by (simp add: marked_def)
qed

lemma mark_keyword_edges: "map nd_edgeStart (mark_keyword ns s i) = map nd_edgeStart ns"
  by (cases "s < length ns")
    (auto simp: mark_keyword_def map_update list_update_same_conv list_update_beyond split: option.split)

lemma mark_keyword_ok:
  assumes m: "marked ns ws pats" and t: "trie_ok ns es ws" and s: "s < length ns" and ne: "ws ! s \<noteq> []"
  shows "trie_ok (mark_keyword ns s (length pats)) es ws"
    and "marked (mark_keyword ns s (length pats)) ws (pats @ [ws ! s])"
proof -
  show "trie_ok (mark_keyword ns s (length pats)) es ws"
    by (rule trie_cong [OF t mark_keyword_edges])
  have len: "length ns = length ws" and d: "distinct ws" using t by (auto simp: trie_ok_def words_ok_def)
  show "marked (mark_keyword ns s (length pats)) ws (pats @ [ws ! s])"
  proof (cases "raw_best pats (ws ! s)")
    case None
    with m s ne len d show ?thesis
      by (auto simp: marked_def mark_keyword_def raw_best_snoc nth_list_update nth_eq_iff_index_eq
          split: option.split)
  next
    case (Some i)
    then have i: "i < length pats" by (rule raw_best_bound)
    have "raw_best (pats @ [ws ! s]) (ws ! u) = raw_best pats (ws ! u)" if "u < length ns" for u
      using Some s that len d
      by (cases "u = s") (auto simp: raw_best_snoc nth_eq_iff_index_eq split: option.split)
    with m s Some i len show ?thesis
      by (simp add: marked_def mark_keyword_def)
  qed
qed

lemma marked_skip: "marked ns ws pats \<Longrightarrow> words_ok ws \<Longrightarrow> marked ns ws (pats @ [[]])"
  using nth_mem [of 0 ws] by (auto simp: marked_def words_ok_def raw_best_snoc split: option.split)

lemma insert_keywords_ok:
  assumes lower: "\<And>s. lower s = [] \<longleftrightarrow> s = []"
  shows "trie_ok ns es ws \<Longrightarrow> marked ns ws pats \<Longrightarrow>
    \<exists>ns' es' ws'. insert_keywords lower (length pats) ks (ns, es) = Some (ns', es') \<and>
      trie_ok ns' es' ws' \<and> marked ns' ws' (pats @ map lower ks)"
proof (induction ks arbitrary: ns es ws pats)
  case Nil
  then show ?case by auto
next
  case (Cons k ks)
  show ?case
  proof (cases "k = []")
    case True
    with lower have "lower k = []" by simp
    with Cons.IH [OF Cons.prems(1) marked_skip [OF Cons.prems(2) trie_words [OF Cons.prems(1)]]] True
    show ?thesis by simp
  next
    case False
    have "0 < length ns" using Cons.prems(1) by (simp add: trie_ok_def words_ok_def)
    from insert_bytes_ok [OF Cons.prems(1) this, of "lower k"] Cons.prems(1)
    obtain ns1 es1 s1 ws1 where r: "insert_bytes ns es 0 (lower k) = Some (ns1, es1, s1)"
        "trie_ok ns1 es1 ws1" "grows ns ws ns1 ws1" "s1 < length ns1" "ws1 ! s1 = lower k"
      by (auto simp: trie_ok_def words_ok_def)
    have ne: "ws1 ! s1 \<noteq> []" using r(5) False lower by simp
    note m = marked_grows [OF Cons.prems(2) r(3) Cons.prems(1) r(2)]
    note mk = mark_keyword_ok [OF m r(2,4) ne]
    show ?thesis using Cons.IH [OF mk] r False by simp
  qed
qed

text \<open>The single root node the build starts from.\<close>

lemma trie_root: "trie_ok [newContentModerationKeywordNode] [] [[]]"
  by (auto simp: trie_ok_def words_ok_def prefix_closed_def edges_ok_def sib_ok_def node_of_def
      build_siblings_def BuildFirstEdge_def newContentModerationKeywordNode_def)

lemma marked_root: "marked [newContentModerationKeywordNode] [[]] []"
  by (simp add: marked_def raw_best_def newContentModerationKeywordNode_def)

end
