(* ===== verification/Keyword_Links.thy ===== *)
theory Keyword_Links
  imports Keyword_Trie
begin

section \<open>Failure links\<close>

text \<open>
  The breadth-first pass gives every node the longest proper suffix of its word that is a word,
  and the first keyword that ends there.  \<open>L\<close> is the set of nodes already linked.
\<close>

subsection \<open>Linked and unlinked nodes\<close>

definition end_best :: "string list \<Rightarrow> string \<Rightarrow> nat option" where
  "end_best pats w = first_idx (\<lambda>p. p \<noteq> [] \<and> suffix p w) pats"

definition linked :: "string list \<Rightarrow> string list \<Rightarrow> nat \<Rightarrow> kw_node \<Rightarrow> bool" where
  "linked ws pats u nd \<longleftrightarrow>
     nd_bestKeyword nd = end_best pats (ws ! u) \<and> (if u = 0 then nd_failure nd = 0 else lsuf ws (tl (ws ! u)) (nd_failure nd))"

definition unlinked :: "string list \<Rightarrow> string list \<Rightarrow> nat \<Rightarrow> kw_node \<Rightarrow> bool" where
  "unlinked ws pats u nd \<longleftrightarrow> nd_failure nd = 0 \<and> nd_bestKeyword nd = raw_best pats (ws ! u)"

definition link_inv ::
    "kw_build_edge list \<Rightarrow> string list \<Rightarrow> string list \<Rightarrow> nat set \<Rightarrow> kw_node list \<Rightarrow> bool" where
  "link_inv es ws pats L ns \<longleftrightarrow> trie_ok ns es ws \<and> set pats \<subseteq> set ws \<and>
     (\<forall>u<length ns. if u \<in> L then linked ws pats u (ns ! u) else unlinked ws pats u (ns ! u))"

lemma link_invD:
  assumes "link_inv es ws pats L ns"
  shows "trie_ok ns es ws" "length ns = length ws" "words_ok ws" "set pats \<subseteq> set ws"
    "\<And>u. u < length ws \<Longrightarrow> u \<in> L \<Longrightarrow> linked ws pats u (ns ! u)"
    "\<And>u. u < length ws \<Longrightarrow> u \<notin> L \<Longrightarrow> unlinked ws pats u (ns ! u)"
  using assms by (auto simp: link_inv_def trie_ok_def)

lemma words_nonempty: "words_ok ws \<Longrightarrow> u < length ws \<Longrightarrow> ws ! u = [] \<longleftrightarrow> u = 0"
  using nth_eq_iff_index_eq [of ws u 0] by (auto simp: words_ok_def)

lemma lsuf_length: "lsuf ws x t \<Longrightarrow> length (ws ! t) \<le> length x"
  by (simp add: lsuf_def suffix_length_le)

lemma lsuf_tl_length: "lsuf ws (tl w) t \<Longrightarrow> w \<noteq> [] \<Longrightarrow> length (ws ! t) < length w"
  using lsuf_length [of ws "tl w" t] by (cases w) auto

lemma follow_failure_ok:
  assumes inv: "link_inv es ws pats L ns"
    and lk: "\<And>u. u < length ws \<Longrightarrow> length (ws ! u) < d \<Longrightarrow> u \<in> L"
  shows "f < length ws \<Longrightarrow> length (ws ! f) < d \<Longrightarrow> length (ws ! f) \<le> n \<Longrightarrow>
    \<exists>r. follow_failure n ns es f c = Some r \<and> lsuf ws (ws ! f @ [c]) (case r of Some t \<Rightarrow> t | None \<Rightarrow> 0)"
proof (induction n arbitrary: f)
  case (0 f)
  note I = link_invD [OF inv]
  have f: "f = 0" using 0 words_nonempty [OF I(3)] by simp
  show ?case
  proof (cases "node_of ws (ws ! f @ [c])")
    case None
    then have "lsuf ws (ws ! 0 @ [c]) 0"
      using I(3) f by (intro lsuf_root) (auto simp: words_ok_def node_of_None)
    with None f 0 I show ?thesis by (simp add: follow_failure.simps BuildTransition_word)
  next
    case (Some t)
    then show ?thesis using 0 I lsuf_extend [of t ws f c]
      by (auto simp: follow_failure.simps BuildTransition_word dest: node_of_bound)
  qed
next
  case (Suc n f)
  note I = link_invD [OF inv]
  note bt = BuildTransition_word [OF I(1), of f c]
  show ?case
  proof (cases "node_of ws (ws ! f @ [c])")
    case (Some t)
    then show ?thesis using Suc.prems I bt lsuf_extend [of t ws f c]
      by (auto simp: follow_failure.simps dest: node_of_bound)
  next
    case None
    show ?thesis
    proof (cases "f = 0")
      case True
      have "lsuf ws (ws ! 0 @ [c]) 0"
        using I(3) True None by (intro lsuf_root) (auto simp: words_ok_def node_of_None)
      with None True Suc.prems I bt show ?thesis by (simp add: follow_failure.simps)
    next
      case False
      let ?g = "nd_failure (ns ! f)"
      have ne: "ws ! f \<noteq> []" using False Suc.prems words_nonempty [OF I(3)] by simp
      have g: "lsuf ws (tl (ws ! f)) ?g"
        using I(5) [OF Suc.prems(1) lk [OF Suc.prems(1,2)]] False by (simp add: linked_def)
      have gl: "?g < length ws" "length (ws ! ?g) < length (ws ! f)"
        using g lsuf_tl_length [OF g ne] by (auto simp: lsuf_def)
      from Suc.IH [of ?g] gl Suc.prems obtain r where
        r: "follow_failure n ns es ?g c = Some r" "lsuf ws (ws ! ?g @ [c]) (case r of Some t \<Rightarrow> t | None \<Rightarrow> 0)"
        by auto
      have "lsuf ws (ws ! f @ [c]) (case r of Some t \<Rightarrow> t | None \<Rightarrow> 0)"
      proof (rule lsuf_fail [OF _ ne _ g r(2)])
        show "prefix_closed ws" using I(3) by (simp add: words_ok_def)
        show "ws ! f @ [c] \<notin> set ws" using None by (simp add: node_of_None)
      qed
      moreover have "follow_failure (Suc n) ns es f c = follow_failure n ns es ?g c"
        using None False Suc.prems(1) I(2) by (subst follow_failure.simps) (simp add: bt)
      ultimately show ?thesis using r(1) by simp
    qed
  qed
qed

subsection \<open>Linking one child\<close>

lemma end_best_split:
  assumes t: "lsuf ws (tl w) t" and sub: "set pats \<subseteq> set ws" and ne: "w \<noteq> []"
  shows "minKeywordIndex (raw_best pats w) (end_best pats (ws ! t)) = end_best pats w"
proof -
  obtain a u where w: "w = a # u" using ne by (cases w) auto
  have "suffix p (ws ! t) \<longleftrightarrow> suffix p u" if "p \<in> set pats" for p
    using lsuf_keyword [OF t] that sub w by auto
  then have "(p \<noteq> [] \<and> p = w) \<or> (p \<noteq> [] \<and> suffix p (ws ! t)) \<longleftrightarrow> p \<noteq> [] \<and> suffix p w" if "p \<in> set pats" for p
    using that w by (auto simp: suffix_Cons)
  then show ?thesis
    unfolding raw_best_def end_best_def min_first_idx by (intro first_idx_cong) auto
qed

lemma link_child_ok:
  assumes inv: "link_inv es ws pats L ns"
    and s: "s \<in> L" "s < length ws" "s \<noteq> 0"
    and lk: "\<And>u. u < length ws \<Longrightarrow> length (ws ! u) \<le> length (ws ! s) \<Longrightarrow> u \<in> L"
    and e: "be_target e < length ws" "ws ! be_target e = ws ! s @ [be_label e]"
  shows "\<exists>ns'. link_child ns es s e = Some ns' \<and> link_inv es ws pats (insert (be_target e) L) ns'"
proof -
  note I = link_invD [OF inv]
  let ?t = "be_target e" and ?c = "be_label e" and ?f = "nd_failure (ns ! s)"
  have sne: "ws ! s \<noteq> []" using s words_nonempty [OF I(3)] by simp
  have f: "lsuf ws (tl (ws ! s)) ?f" using I(5) [OF s(2,1)] s(3) by (simp add: linked_def)
  have fl: "?f < length ws" "length (ws ! ?f) < length (ws ! s)"
    using f lsuf_tl_length [OF f sne] by (auto simp: lsuf_def)
  have "length (ws ! s) < length ws"
    using I(3) s(2) by (intro word_length_bound) (auto simp: words_ok_def)
  with fl I(2) follow_failure_ok [OF inv, of "length (ws ! s)" ?f "length ns" ?c] lk
  obtain r where r: "follow_failure (length ns) ns es ?f ?c = Some r"
      "lsuf ws (ws ! ?f @ [?c]) (case r of Some t \<Rightarrow> t | None \<Rightarrow> 0)" by force
  define g where "g = (case r of Some t \<Rightarrow> t | None \<Rightarrow> 0)"
  have "lsuf ws (tl (ws ! s) @ [?c]) g"
    using I(3) r(2) unfolding g_def by (intro lsuf_step [OF _ f]) (auto simp: words_ok_def)
  then have g: "lsuf ws (tl (ws ! ?t)) g" using e(2) sne by simp
  have gl: "g < length ws" "length (ws ! g) \<le> length (ws ! s)"
    using g lsuf_length [OF g] e(2) by (auto simp: lsuf_def)
  have gt: "g \<noteq> ?t" using gl(2) e(2) by auto
  have gL: "g \<in> L" using lk gl by simp
  have tne: "ws ! ?t \<noteq> []" "?t \<noteq> 0" using e(2) words_nonempty [OF I(3) e(1)] by auto
  define raw where "raw = nd_bestKeyword (ns ! ?t)"
  have raw: "minKeywordIndex raw (end_best pats (ws ! g)) = end_best pats (ws ! ?t)"
  proof (cases "?t \<in> L")
    case False
    with I(6) [OF e(1)] show ?thesis
      using end_best_split [OF g I(4) tne(1)] by (simp add: unlinked_def raw_def)
  next
    case True
    have "end_best pats (ws ! ?t) = minKeywordIndex (raw_best pats (ws ! ?t)) (end_best pats (ws ! g))"
      using end_best_split [OF g I(4) tne(1)] by simp
    with I(5) [OF e(1) True] show ?thesis
      by (auto simp: linked_def raw_def minKeywordIndex_def split: option.splits)
  qed
  have f0: "r = None \<Longrightarrow> ?t \<notin> L \<Longrightarrow> nd_failure (ns ! ?t) = g"
    using I(6) [OF e(1)] by (simp add: unlinked_def g_def)
  have f1: "r = None \<Longrightarrow> ?t \<in> L \<Longrightarrow> nd_failure (ns ! ?t) = g"
    using I(5) [OF e(1)] tne(2) g I(3) lsuf_unique [of ws "tl (ws ! ?t)"]
    by (auto simp: linked_def words_ok_def)
  define nd where "nd = (ns ! ?t)\<lparr>nd_failure := g, nd_bestKeyword := end_best pats (ws ! ?t)\<rparr>"
  have gb: "nd_bestKeyword (ns ! g) = end_best pats (ws ! g)" using I(5) [OF gl(1) gL] by (simp add: linked_def)
  have lc: "link_child ns es s e = Some (ns[?t := nd])"
  proof (cases r)
    case None
    with f0 f1 have fg: "nd_failure (ns ! ?t) = g" by auto
    then have "nd = (ns ! ?t)\<lparr>nd_bestKeyword := end_best pats (ws ! ?t)\<rparr>" by (simp add: nd_def)
    with None r(1) raw gb fg I(2) show ?thesis by (simp add: link_child_def raw_def Let_def)
  next
    case (Some t)
    then have "t = g" by (simp add: g_def)
    with Some r(1) raw gb gt I(2) e(1) show ?thesis
      by (simp add: link_child_def raw_def nd_def Let_def)
  qed
  have "map nd_edgeStart (ns[?t := nd]) = map nd_edgeStart ns"
    by (simp add: map_update nd_def list_update_same_conv e(1) I(2))
  then have "trie_ok (ns[?t := nd]) es ws" by (rule trie_cong [OF I(1)])
  moreover have "linked ws pats ?t nd" using g tne(2) by (simp add: linked_def nd_def)
  ultimately have "link_inv es ws pats (insert ?t L) (ns[?t := nd])"
    using I e(1) by (auto simp: link_inv_def nth_list_update)
  with lc show ?thesis by blast
qed

lemma link_children_ok:
  assumes s: "s < length ws" "s \<noteq> 0"
  shows "link_inv es ws pats L ns \<Longrightarrow> s \<in> L \<Longrightarrow>
    (\<And>u. u < length ws \<Longrightarrow> length (ws ! u) \<le> length (ws ! s) \<Longrightarrow> u \<in> L) \<Longrightarrow>
    (\<And>e. e \<in> set l \<Longrightarrow> be_target e < length ws \<and> ws ! be_target e = ws ! s @ [be_label e]) \<Longrightarrow>
    \<exists>ns'. link_children ns es s l = Some ns' \<and> link_inv es ws pats (L \<union> be_target ` set l) ns'"
proof (induction l arbitrary: ns L)
  case (Cons e l)
  from link_child_ok [OF Cons.prems(1,2) s Cons.prems(3), of e] Cons.prems(4) obtain ns1 where
    n: "link_child ns es s e = Some ns1" "link_inv es ws pats (insert (be_target e) L) ns1" by force
  with Cons.IH [OF n(2)] Cons.prems obtain ns' where
    "link_children ns1 es s l = Some ns'" "link_inv es ws pats (insert (be_target e) L \<union> be_target ` set l) ns'"
    by force
  with n(1) show ?case by simp
qed simp

subsection \<open>The breadth-first pass\<close>

definition queue_inv :: "string list \<Rightarrow> nat set \<Rightarrow> nat list \<Rightarrow> bool" where
  "queue_inv ws L q \<longleftrightarrow> distinct q \<and> set q \<subseteq> L \<and> L \<subseteq> {..<length ws} \<and>
     sorted (map (\<lambda>v. length (ws ! v)) q) \<and> (\<forall>v \<in> set q. length (ws ! v) \<le> Suc (length (ws ! hd q))) \<and>
     (\<forall>u<length ws. u \<notin> L \<longrightarrow> (\<exists>v \<in> set q. strict_prefix (ws ! v) (ws ! u))) \<and>
     (\<forall>u \<in> L. \<forall>v<length ws. \<forall>c. ws ! u = ws ! v @ [c] \<longrightarrow> v \<in> L \<and> v \<notin> set q)"

lemma sorted_const: "(\<And>x. x \<in> set xs \<Longrightarrow> x = k) \<Longrightarrow> sorted xs" for k :: nat
  by (induction xs) auto

lemma queue_shallow:
  assumes "queue_inv ws L (s # q)" and "u < length ws" and "length (ws ! u) \<le> length (ws ! s)"
  shows "u \<in> L"
proof (rule ccontr)
  assume "u \<notin> L"
  with assms obtain v where "v \<in> set (s # q)" "strict_prefix (ws ! v) (ws ! u)"
    unfolding queue_inv_def by blast
  moreover from this(1) assms(1) have "length (ws ! s) \<le> length (ws ! v)"
    by (auto simp: queue_inv_def)
  ultimately show False using assms(3) prefix_length_less [of "ws ! v" "ws ! u"] by simp
qed

lemma sib_targets:
  assumes w: "words_ok ws" and sib: "sib_ok ws s l"
  shows "\<And>e. e \<in> set l \<Longrightarrow> be_target e < length ws \<and> ws ! be_target e = ws ! s @ [be_label e]"
    and "distinct (map be_target l)"
proof -
  show *: "\<And>e. e \<in> set l \<Longrightarrow> be_target e < length ws \<and> ws ! be_target e = ws ! s @ [be_label e]"
    using sib_edge [OF sib] node_of_bound by blast
  have "inj_on be_target (set l)"
  proof (rule inj_onI)
    fix x y assume xy: "x \<in> set l" "y \<in> set l" "be_target x = be_target y"
    then have "be_label x = be_label y" using * [of x] * [of y] by simp
    with xy(1,2) sib show "x = y" by (auto simp: sib_ok_def distinct_map dest: inj_onD)
  qed
  moreover have "distinct l" using sib by (simp add: sib_ok_def distinct_map)
  ultimately show "distinct (map be_target l)" by (simp add: distinct_map)
qed

lemma queue_step:
  assumes q: "queue_inv ws L (s # q)" and w: "words_ok ws" and s: "s < length ws" and sib: "sib_ok ws s l"
  shows "queue_inv ws (L \<union> be_target ` set l) (q @ map be_target l)"
    and "be_target ` set l \<inter> L = {}" and "0 \<notin> be_target ` set l"
proof -
  note t = sib_targets [OF w sib]
  show "0 \<notin> be_target ` set l" using t(1) words_nonempty [OF w] by fastforce
  show new: "be_target ` set l \<inter> L = {}"
  proof -
    have "be_target e \<notin> L" if e: "e \<in> set l" for e
    proof
      assume "be_target e \<in> L"
      with q s t(1) [OF e] have "s \<notin> set (s # q)" unfolding queue_inv_def by blast
      then show False by simp
    qed
    then show ?thesis by auto
  qed
  have len: "length (ws ! v) = Suc (length (ws ! s))" if "v \<in> be_target ` set l" for v
    using that t(1) by auto
  have depth: "length (ws ! s) \<le> length (ws ! v) \<and> length (ws ! v) \<le> Suc (length (ws ! s))" if "v \<in> set q" for v
    using q that by (auto simp: queue_inv_def)
  let ?q = "q @ map be_target l" and ?L = "L \<union> be_target ` set l"
  have "sorted (map (\<lambda>v. length (ws ! v)) ?q)"
  proof -
    have "sorted (map (\<lambda>v. length (ws ! v)) q)" using q by (simp add: queue_inv_def)
    moreover have "sorted (map (\<lambda>v. length (ws ! v)) (map be_target l))"
      using len by (intro sorted_const [of _ "Suc (length (ws ! s))"]) auto
    ultimately show ?thesis using depth len by (auto simp: sorted_append)
  qed
  moreover have "length (ws ! v) \<le> Suc (length (ws ! hd ?q))" if "v \<in> set ?q" for v
  proof -
    have "hd ?q \<in> set ?q" using that by (intro hd_in_set) auto
    then have "length (ws ! s) \<le> length (ws ! hd ?q)" using depth len by fastforce
    moreover have "length (ws ! v) \<le> Suc (length (ws ! s))" using that depth len by fastforce
    ultimately show ?thesis by simp
  qed
  moreover have "\<exists>v \<in> set ?q. strict_prefix (ws ! v) (ws ! u)" if u: "u < length ws" "u \<notin> ?L" for u
  proof -
    from u have "u \<notin> L" by blast
    with q u(1) obtain v where v: "v \<in> set (s # q)" "strict_prefix (ws ! v) (ws ! u)"
      unfolding queue_inv_def by blast
    show ?thesis
    proof (cases "v = s")
      case False
      with v show ?thesis by auto
    next
      case True
      with v(2) obtain c r where r: "ws ! u = (ws ! s @ [c]) @ r"
        by (auto simp: strict_prefix_def prefix_def neq_Nil_conv)
      then have "ws ! s @ [c] \<in> set ws"
        using w u(1) prefix_closed_prefix [of ws "ws ! u" "ws ! s @ [c]"] nth_mem [OF u(1)]
        by (simp add: words_ok_def prefix_def)
      then obtain t where "node_of ws (ws ! s @ [c]) = Some t" using node_of_None by fastforce
      then obtain e where "e \<in> set l" "be_label e = c"
        using sib_target [OF sib, of c t] by auto
      with t(1) have e: "e \<in> set l" "ws ! be_target e = ws ! s @ [c]" by auto
      have "u \<noteq> be_target e" using u(2) e(1) by auto
      then have "ws ! be_target e \<noteq> ws ! u" using w u(1) t(1) [OF e(1)] nth_eq_iff_index_eq [of ws "be_target e" u]
        by (simp add: words_ok_def)
      with e(2) r have "strict_prefix (ws ! be_target e) (ws ! u)" by (simp add: strict_prefix_def prefix_def)
      with e(1) show ?thesis by auto
    qed
  qed
  moreover have "v \<in> ?L \<and> v \<notin> set ?q" if "u \<in> ?L" "v < length ws" "ws ! u = ws ! v @ [c]" for u v c
  proof (cases "u \<in> L")
    case True
    with q that have "v \<in> L" "v \<notin> set (s # q)" by (auto simp: queue_inv_def)
    with new show ?thesis by auto
  next
    case False
    with that t(1) have "ws ! v = ws ! s" by auto
    with w that(2) s have "v = s" by (simp add: words_ok_def nth_eq_iff_index_eq)
    with q new show ?thesis by (auto simp: queue_inv_def)
  qed
  moreover have "distinct ?q" using q new t(2) by (auto simp: queue_inv_def)
  moreover have "set ?q \<subseteq> ?L" "?L \<subseteq> {..<length ws}" using q t(1) by (auto simp: queue_inv_def)
  ultimately show "queue_inv ws ?L ?q" unfolding queue_inv_def by blast
qed

lemma bfs_ok:
  "link_inv es ws pats L ns \<Longrightarrow> queue_inv ws L q \<Longrightarrow> 0 \<notin> set q \<Longrightarrow>
   length q + card ({..<length ws} - L) \<le> fuel \<Longrightarrow>
   \<exists>ns'. bfs fuel ns es q = Some ns' \<and> link_inv es ws pats {..<length ws} ns'"
proof (induction fuel arbitrary: ns L q)
  case (0 ns L q)
  then have "q = []" "{..<length ws} \<subseteq> L" by auto
  with 0 show ?case by (auto simp: queue_inv_def dest: equalityI)
next
  case (Suc fuel ns L q)
  show ?case
  proof (cases q)
    case Nil
    with Suc.prems have "L = {..<length ws}" by (auto simp: queue_inv_def)
    with Nil Suc.prems show ?thesis by simp
  next
    case (Cons s q')
    note I = link_invD [OF Suc.prems(1)]
    have s: "s \<in> L" "s < length ws" "s \<noteq> 0" using Suc.prems(2,3) Cons by (auto simp: queue_inv_def intro: gr0I)
    from I(1) s(2) I(2) obtain l where l: "build_siblings ns es s = Some l" "sib_ok ws s l"
      by (metis trie_siblings)
    note st = queue_step [OF Suc.prems(2) [unfolded Cons] I(3) s(2) l(2)]
    note t = sib_targets [OF I(3) l(2)]
    from link_children_ok [OF s(2,3) Suc.prems(1) s(1) queue_shallow [OF Suc.prems(2) [unfolded Cons]] t(1)]
    obtain ns1 where n: "link_children ns es s l = Some ns1" "link_inv es ws pats (L \<union> be_target ` set l) ns1"
      by blast
    have sub: "be_target ` set l \<subseteq> {..<length ws} - L" using t(1) st(2) by auto
    have "{..<length ws} - (L \<union> be_target ` set l) = ({..<length ws} - L) - be_target ` set l" by auto
    then have "card ({..<length ws} - L) = card ({..<length ws} - (L \<union> be_target ` set l)) + card (be_target ` set l)"
      using sub card_mono [OF _ sub] by (simp add: card_Diff_subset)
    moreover have "card (be_target ` set l) = length l" using t(2) distinct_card [of "map be_target l"] by simp
    ultimately have "length (q' @ map be_target l) + card ({..<length ws} - (L \<union> be_target ` set l)) \<le> fuel"
      using Suc.prems(4) Cons by simp
    moreover have "0 \<notin> set (q' @ map be_target l)" using Suc.prems(3) Cons st(3) by simp
    ultimately have "\<exists>ns'. bfs fuel ns1 es (q' @ map be_target l) = Some ns' \<and> link_inv es ws pats {..<length ws} ns'"
      using Suc.IH [OF n(2) st(1)] by blast
    with Cons l(1) n(1) show ?thesis by auto
  qed
qed

end
