(* ===== verification/Keyword_Automaton.thy ===== *)
theory Keyword_Automaton
  imports Keyword_Links
begin

section \<open>The matcher finds the first keyword in the text\<close>

text \<open>
  The interface between the built arrays and the scan is the locale \<open>keyword_automaton\<close>: a reader
  of transitions, failure links and best keywords over a set of words.  The scan is proved correct
  inside it, and the built arrays interpret it: binary search over the packed edges reads exactly
  the trie's transitions.
\<close>

subsection \<open>The interface\<close>

locale keyword_automaton =
  fixes automaton_ok :: "'m \<Rightarrow> string list \<Rightarrow> string list \<Rightarrow> bool"
    and nxt :: "'m \<Rightarrow> nat \<Rightarrow> char \<Rightarrow> nat"
    and failure :: "'m \<Rightarrow> nat \<Rightarrow> nat"
    and best :: "'m \<Rightarrow> nat \<Rightarrow> nat option"
  assumes automaton_words: "automaton_ok m ws pats \<Longrightarrow> words_ok ws \<and> set pats \<subseteq> set ws"
    and nxt_word: "automaton_ok m ws pats \<Longrightarrow> s < length ws \<Longrightarrow>
      nxt m s c = (case node_of ws (ws ! s @ [c]) of Some t \<Rightarrow> t | None \<Rightarrow> 0)"
    and failure_lsuf: "automaton_ok m ws pats \<Longrightarrow> s < length ws \<Longrightarrow> s \<noteq> 0 \<Longrightarrow>
      lsuf ws (tl (ws ! s)) (failure m s)"
    and best_end: "automaton_ok m ws pats \<Longrightarrow> s < length ws \<Longrightarrow> best m s = end_best pats (ws ! s)"
begin

lemma nxt_Some: "automaton_ok m ws pats \<Longrightarrow> s < length ws \<Longrightarrow> node_of ws (ws ! s @ [c]) = Some t \<Longrightarrow>
    nxt m s c = t \<and> t \<noteq> 0 \<and> lsuf ws (ws ! s @ [c]) t"
  using nxt_word [of m ws pats s c] automaton_words [of m ws pats] node_of_bound [of ws "ws ! s @ [c]" t]
    lsuf_extend [of t ws s c] words_nonempty [of ws t]
  by simp

lemma step_ok:
  assumes a: "automaton_ok m ws pats"
  shows "s < length ws \<Longrightarrow> length (ws ! s) \<le> n \<Longrightarrow>
    \<exists>t. step_loop n (nxt m) (failure m) s c = Some t \<and> lsuf ws (ws ! s @ [c]) t"
proof (induction n arbitrary: s)
  case (0 s)
  have s: "s = 0" using 0 words_nonempty [of ws s] automaton_words [OF a] by simp
  show ?case
  proof (cases "node_of ws (ws ! s @ [c])")
    case None
    moreover have "lsuf ws (ws ! 0 @ [c]) 0"
      using None s automaton_words [OF a] by (intro lsuf_root) (auto simp: words_ok_def node_of_None)
    ultimately show ?thesis using s 0 nxt_word [OF a, of s c] by (simp add: step_loop.simps)
  qed (use nxt_Some [OF a 0(1)] in \<open>auto simp: step_loop.simps\<close>)
next
  case (Suc n s)
  show ?case
  proof (cases "node_of ws (ws ! s @ [c])")
    case (Some t)
    then show ?thesis using nxt_Some [OF a Suc.prems(1)] by (auto simp: step_loop.simps)
  next
    case None
    then have n0: "nxt m s c = 0" using nxt_word [OF a Suc.prems(1)] by simp
    have out: "ws ! s @ [c] \<notin> set ws" using None by (simp add: node_of_None)
    show ?thesis
    proof (cases "s = 0")
      case True
      then have "lsuf ws (ws ! s @ [c]) 0"
        using out automaton_words [OF a] lsuf_root [of ws c] by (simp add: words_ok_def)
      with n0 True show ?thesis by (simp add: step_loop.simps)
    next
      case False
      have ne: "ws ! s \<noteq> []" using False Suc.prems(1) words_nonempty [of ws s] automaton_words [OF a] by simp
      note f = failure_lsuf [OF a Suc.prems(1) False]
      have fl: "failure m s < length ws" "length (ws ! failure m s) < length (ws ! s)"
        using f lsuf_tl_length [OF f ne] by (auto simp: lsuf_def)
      with Suc.IH [of "failure m s"] Suc.prems obtain t where
        t: "step_loop n (nxt m) (failure m) (failure m s) c = Some t" "lsuf ws (ws ! failure m s @ [c]) t"
        by auto
      have "prefix_closed ws" using automaton_words [OF a] by (simp add: words_ok_def)
      from lsuf_fail [OF this ne out f t(2)] t(1) n0 False show ?thesis
        by (simp add: step_loop.simps [of "Suc n"])
    qed
  qed
qed

lemma scan_ok:
  assumes a: "automaton_ok m ws pats" and n: "length ws \<le> n"
  shows "lsuf ws x s \<Longrightarrow>
    scan_loop n (nxt m) (failure m) (best m) s (first_idx (\<lambda>p. p \<noteq> [] \<and> sublist p x) pats) rest =
    Some (first_idx (\<lambda>p. p \<noteq> [] \<and> sublist p (x @ rest)) pats)"
proof (induction rest arbitrary: x s)
  case (Cons c rest)
  have W: "words_ok ws" "set pats \<subseteq> set ws" using automaton_words [OF a] by auto
  have s: "s < length ws" using Cons.prems by (simp add: lsuf_def)
  have "length (ws ! s) < length ws"
    using W(1) s by (intro word_length_bound) (auto simp: words_ok_def)
  with step_ok [OF a s, of n c] n obtain t where
    t: "step_loop n (nxt m) (failure m) s c = Some t" "lsuf ws (ws ! s @ [c]) t" by auto
  have "lsuf ws (x @ [c]) t" using W(1) by (intro lsuf_step [OF _ Cons.prems t(2)]) (simp add: words_ok_def)
  note x' = this
  have tl: "t < length ws" using x' by (simp add: lsuf_def)
  have "minKeywordIndex (first_idx (\<lambda>p. p \<noteq> [] \<and> sublist p x) pats) (best m t) =
      first_idx (\<lambda>p. (p \<noteq> [] \<and> sublist p x) \<or> (p \<noteq> [] \<and> suffix p (ws ! t))) pats"
    by (simp add: best_end [OF a tl] end_best_def min_first_idx)
  also have "\<dots> = first_idx (\<lambda>p. p \<noteq> [] \<and> sublist p (x @ [c])) pats"
    using lsuf_keyword [OF x'] W(2) by (intro first_idx_cong) (auto simp: sublist_snoc)
  finally have b: "minKeywordIndex (first_idx (\<lambda>p. p \<noteq> [] \<and> sublist p x) pats) (best m t) =
      first_idx (\<lambda>p. p \<noteq> [] \<and> sublist p (x @ [c])) pats" .
  show ?case
  proof (cases "first_idx (\<lambda>p. p \<noteq> [] \<and> sublist p (x @ [c])) pats = Some 0")
    case True
    then have "first_idx (\<lambda>p. p \<noteq> [] \<and> sublist p (x @ c # rest)) pats = Some 0"
      by (auto simp: first_idx_Some intro: sublist_order.order_trans [of _ "x @ [c]"])
    with True t(1) b show ?thesis by (simp add: Let_def)
  next
    case False
    with t(1) b Cons.IH [OF x'] show ?thesis by (simp add: Let_def)
  qed
qed simp

lemma scan_from_start:
  assumes a: "automaton_ok m ws pats" and n: "length ws \<le> n"
  shows "scan_loop n (nxt m) (failure m) (best m) 0 None body =
    Some (first_idx (\<lambda>p. p \<noteq> [] \<and> sublist p body) pats)"
proof -
  have "lsuf ws [] 0" using automaton_words [OF a] by (auto simp: lsuf_def words_ok_def)
  moreover have "first_idx (\<lambda>p. p \<noteq> [] \<and> sublist p []) pats = None" by (auto simp: first_idx_None)
  ultimately show ?thesis using scan_ok [OF a n, of "[]" 0 body] by simp
qed

end

subsection \<open>Binary search over a packed slice\<close>

lemma lower_bound_ok:
  "(\<And>i j. a \<le> i \<Longrightarrow> i \<le> j \<Longrightarrow> j < b \<Longrightarrow> ed_label (es ! i) \<le> ed_label (es ! j)) \<Longrightarrow>
   a \<le> l \<Longrightarrow> l \<le> r \<Longrightarrow> r \<le> b \<Longrightarrow>
   (\<And>i. a \<le> i \<Longrightarrow> i < l \<Longrightarrow> ed_label (es ! i) < c) \<Longrightarrow>
   (\<And>i. r \<le> i \<Longrightarrow> i < b \<Longrightarrow> \<not> ed_label (es ! i) < c) \<Longrightarrow>
   a \<le> lower_bound es c l r \<and> lower_bound es c l r \<le> b \<and>
   (\<forall>i. a \<le> i \<and> i < lower_bound es c l r \<longrightarrow> ed_label (es ! i) < c) \<and>
   (\<forall>i. lower_bound es c l r \<le> i \<and> i < b \<longrightarrow> \<not> ed_label (es ! i) < c)"
proof (induction es c l r rule: lower_bound.induct)
  case (1 es c l r)
  show ?case
  proof (cases "l < r")
    case False
    have e: "lower_bound es c l r = l" using False by (subst lower_bound.simps) simp
    have "l = r" using False 1(5) by simp
    with 1(4,6,7,8) show ?thesis unfolding e by blast
  next
    case True
    define m where "m = l + (r - l) div 2"
    have m: "l \<le> m" "m < r" using True by (auto simp: m_def)
    show ?thesis
    proof (cases "ed_label (es ! m) < c")
      case less: True
      have "ed_label (es ! i) < c" if "a \<le> i" "i < m + 1" for i
        using 1(3) [of i m] that m 1(6) less by (auto intro: le_less_trans)
      with 1(1) [OF True m_def less 1(3)] 1(4-8) m less True show ?thesis
        by (simp add: lower_bound.simps [of es c l r] m_def [symmetric])
    next
      case False
      have "\<not> ed_label (es ! i) < c" if "m \<le> i" "i < b" for i
        using 1(3) [of m i] that m 1(4) False by (auto dest: le_less_trans)
      with 1(2) [OF True m_def False 1(3)] 1(4-8) m False True show ?thesis
        by (simp add: lower_bound.simps [of es c l r] m_def [symmetric])
    qed
  qed
qed

lemma place_left_set: "set (place_left x ys) = insert x (set ys)"
  by (induction ys) auto

lemma place_left_length: "length (place_left x ys) = Suc (length ys)"
  by (induction ys) auto

lemma place_left_sorted:
  "sorted_wrt (\<lambda>x y. ed_label y \<le> ed_label x) ys \<Longrightarrow> sorted_wrt (\<lambda>x y. ed_label y \<le> ed_label x) (place_left x ys)"
  by (induction ys) (auto simp: place_left_set)

lemma sort_fold:
  "sorted_wrt (\<lambda>x y. ed_label y \<le> ed_label x) acc \<Longrightarrow>
   sorted_wrt (\<lambda>x y. ed_label y \<le> ed_label x) (foldl (\<lambda>acc x. place_left x acc) acc l) \<and>
   set (foldl (\<lambda>acc x. place_left x acc) acc l) = set acc \<union> set l \<and>
   length (foldl (\<lambda>acc x. place_left x acc) acc l) = length acc + length l"
  by (induction l arbitrary: acc) (auto simp: place_left_sorted place_left_set place_left_length)

lemma sort_outgoing_ok:
  "sorted_wrt (\<lambda>x y. ed_label x \<le> ed_label y) (sort_outgoing l)" "set (sort_outgoing l) = set l"
  "length (sort_outgoing l) = length l"
  using sort_fold [of "[]" l] by (auto simp: sort_outgoing_def sorted_wrt_rev)

subsection \<open>Packing\<close>

definition slice_of :: "kw_edge list \<Rightarrow> kw_node \<Rightarrow> kw_edge list \<Rightarrow> bool" where
  "slice_of es nd l \<longleftrightarrow> nd_edgeStart nd + nd_edgeCount nd \<le> length es \<and> nd_edgeCount nd = length l \<and>
     (\<forall>i<length l. es ! (nd_edgeStart nd + i) = l ! i)"

lemma slice_of_append: "slice_of es nd l \<Longrightarrow> slice_of (es @ xs) nd l"
  by (auto simp: slice_of_def nth_append)

lemma pack_nodes_ok:
  assumes "\<And>i. i \<in> set is \<Longrightarrow> build_siblings ns bes i = Some (S i) \<and> length (S i) \<le> 256"
    and "distinct is" and "\<And>i. i \<in> set is \<Longrightarrow> i < length ns"
  shows "\<exists>ns' ext. pack_nodes bes is ns out = Some (ns', out @ ext) \<and> length ns' = length ns \<and>
    (\<forall>i<length ns. nd_failure (ns' ! i) = nd_failure (ns ! i) \<and> nd_bestKeyword (ns' ! i) = nd_bestKeyword (ns ! i)) \<and>
    (\<forall>i. i \<notin> set is \<longrightarrow> ns' ! i = ns ! i) \<and>
    (\<forall>i \<in> set is. slice_of (out @ ext) (ns' ! i) (sort_outgoing (map pack_edge (S i))))"
  using assms
proof (induction "is" arbitrary: ns out)
  case Nil
  then show ?case by simp
next
  case (Cons i rest)
  define ns1 where "ns1 = ns[i := (ns ! i)\<lparr>nd_edgeStart := length out, nd_edgeCount := length (S i)\<rparr>]"
  define o1 where "o1 = sort_outgoing (map pack_edge (S i))"
  have "build_siblings ns1 bes j = Some (S j) \<and> length (S j) \<le> 256" if "j \<in> set rest" for j
    using Cons.prems(1) [of j] Cons.prems(2) that by (cases "j = i") (auto simp: ns1_def build_siblings_def)
  with Cons.IH [of ns1 "out @ o1"] Cons.prems(2,3) obtain ns' ext where
    r: "pack_nodes bes rest ns1 (out @ o1) = Some (ns', (out @ o1) @ ext)" "length ns' = length ns1"
      "\<forall>j<length ns1. nd_failure (ns' ! j) = nd_failure (ns1 ! j) \<and> nd_bestKeyword (ns' ! j) = nd_bestKeyword (ns1 ! j)"
      "\<forall>j. j \<notin> set rest \<longrightarrow> ns' ! j = ns1 ! j"
      "\<forall>j \<in> set rest. slice_of ((out @ o1) @ ext) (ns' ! j) (sort_outgoing (map pack_edge (S j)))"
    by (auto simp: ns1_def)
  have i: "i < length ns" "i \<notin> set rest" using Cons.prems(2,3) by auto
  have "slice_of (out @ o1) (ns1 ! i) o1"
    using i by (auto simp: slice_of_def ns1_def o1_def sort_outgoing_ok nth_append)
  then have "slice_of ((out @ o1) @ ext) (ns' ! i) o1" using r(4) i(2) by (metis slice_of_append)
  moreover have "pack_nodes bes (i # rest) ns out = Some (ns', out @ o1 @ ext)"
    using r(1) Cons.prems(1) [of i] by (simp add: ns1_def o1_def)
  moreover have "nd_failure (ns' ! j) = nd_failure (ns ! j) \<and> nd_bestKeyword (ns' ! j) = nd_bestKeyword (ns ! j)"
    if "j < length ns" for j
    using r(3) that by (cases "j = i") (auto simp: ns1_def)
  ultimately show ?case using r(2,4,5) i by (auto simp: ns1_def o1_def)
qed

subsection \<open>The built matcher\<close>

definition matcher_ok :: "kw_matcher \<Rightarrow> string list \<Rightarrow> string list \<Rightarrow> bool" where
  "matcher_ok m ws pats \<longleftrightarrow> words_ok ws \<and> set pats \<subseteq> set ws \<and> length (m_nodes m) = length ws \<and>
     (\<forall>c. m_rootTransitions m c = (case node_of ws [c] of Some t \<Rightarrow> t | None \<Rightarrow> 0)) \<and>
     (\<forall>s<length ws. linked ws pats s (m_nodes m ! s)) \<and>
     (\<forall>s<length ws. \<exists>l. slice_of (m_edges m) (m_nodes m ! s) l \<and>
        sorted_wrt (\<lambda>x y. ed_label x \<le> ed_label y) l \<and>
        (\<forall>c t. node_of ws (ws ! s @ [c]) = Some t \<longleftrightarrow> (\<exists>e \<in> set l. ed_label e = c \<and> ed_target e = t)))"

lemma slice_search:
  assumes sl: "slice_of es nd l" and so: "sorted_wrt (\<lambda>x y. ed_label x \<le> ed_label y) l"
    and r: "r = lower_bound es c (nd_edgeStart nd) (nd_edgeStart nd + nd_edgeCount nd)"
  shows "if r < nd_edgeStart nd + nd_edgeCount nd \<and> ed_label (es ! r) = c
         then es ! r \<in> set l else (\<forall>e \<in> set l. ed_label e \<noteq> c)"
proof -
  let ?a = "nd_edgeStart nd" and ?b = "nd_edgeStart nd + nd_edgeCount nd"
  have nth: "es ! i = l ! (i - ?a)" if "?a \<le> i" "i < ?b" for i
    using sl that unfolding slice_of_def by (metis le_add_diff_inverse nat_add_left_cancel_less)
  have cnt: "nd_edgeCount nd = length l" using sl by (simp add: slice_of_def)
  have mono: "ed_label (es ! i) \<le> ed_label (es ! j)" if "?a \<le> i" "i \<le> j" "j < ?b" for i j
  proof (cases "i = j")
    case False
    then have "i - ?a < j - ?a" "j - ?a < length l" using that cnt by auto
    with so have "ed_label (l ! (i - ?a)) \<le> ed_label (l ! (j - ?a))" by (simp add: sorted_wrt_iff_nth_less)
    with that nth show ?thesis by simp
  qed simp
  have lb: "?a \<le> r \<and> r \<le> ?b \<and> (\<forall>i. ?a \<le> i \<and> i < r \<longrightarrow> ed_label (es ! i) < c) \<and>
      (\<forall>i. r \<le> i \<and> i < ?b \<longrightarrow> \<not> ed_label (es ! i) < c)"
    unfolding r by (rule lower_bound_ok [OF mono]) auto
  show ?thesis
  proof (cases "r < ?b \<and> ed_label (es ! r) = c")
    case True
    then have "r - ?a < length l" using lb cnt by auto
    then have "es ! r \<in> set l" using nth [of r] lb True by simp
    with True show ?thesis by simp
  next
    case False
    have "ed_label e \<noteq> c" if e: "e \<in> set l" for e
    proof
      assume ec: "ed_label e = c"
      from e obtain k where k: "k < length l" "l ! k = e" by (auto simp: in_set_conv_nth)
      have i: "?a \<le> ?a + k" "?a + k < ?b" "es ! (?a + k) = e" using k cnt nth [of "?a + k"] by auto
      have "r \<le> ?a + k" using lb i ec by (meson leI less_irrefl)
      moreover have "r < ?b" using calculation i(2) by simp
      ultimately have "ed_label (es ! r) \<le> c" "\<not> ed_label (es ! r) < c"
        using mono [of r "?a + k"] lb i ec by auto
      with False \<open>r < ?b\<close> show False by simp
    qed
    with False show ?thesis by auto
  qed
qed

lemma matcher_next_word:
  assumes m: "matcher_ok m ws pats" and s: "s < length ws"
  shows "matcher_next m s c = (case node_of ws (ws ! s @ [c]) of Some t \<Rightarrow> t | None \<Rightarrow> 0)"
proof (cases "s = 0")
  case True
  with m show ?thesis by (simp add: matcher_next_def matcher_ok_def words_ok_def)
next
  case False
  from m s obtain l where l: "slice_of (m_edges m) (m_nodes m ! s) l"
      "sorted_wrt (\<lambda>x y. ed_label x \<le> ed_label y) l"
      "\<And>c t. node_of ws (ws ! s @ [c]) = Some t \<longleftrightarrow> (\<exists>e \<in> set l. ed_label e = c \<and> ed_target e = t)"
    unfolding matcher_ok_def by blast
  let ?nd = "m_nodes m ! s"
  define r where "r = lower_bound (m_edges m) c (nd_edgeStart ?nd) (nd_edgeStart ?nd + nd_edgeCount ?nd)"
  note se = slice_search [OF l(1,2) r_def]
  have len: "length (m_nodes m) = length ws" using m by (simp add: matcher_ok_def)
  show ?thesis
  proof (cases "r < nd_edgeStart ?nd + nd_edgeCount ?nd \<and> ed_label (m_edges m ! r) = c")
    case True
    with se have "node_of ws (ws ! s @ [c]) = Some (ed_target (m_edges m ! r))" using l(3) by auto
    with True False s len show ?thesis by (simp add: matcher_next_def Let_def r_def [symmetric])
  next
    case no: False
    with se have "\<forall>e \<in> set l. ed_label e \<noteq> c" by presburger
    then have "node_of ws (ws ! s @ [c]) = None" using l(3) by (cases "node_of ws (ws ! s @ [c])") auto
    with no False s len show ?thesis by (auto simp: matcher_next_def Let_def r_def [symmetric])
  qed
qed

interpretation built: keyword_automaton matcher_ok matcher_next
    "\<lambda>m s. nd_failure (m_nodes m ! s)" "\<lambda>m s. nd_bestKeyword (m_nodes m ! s)"
proof
  fix m ws pats s c
  assume m: "matcher_ok m ws pats"
  then show "words_ok ws \<and> set pats \<subseteq> set ws" by (simp add: matcher_ok_def)
  assume s: "s < length ws"
  show "matcher_next m s c = (case node_of ws (ws ! s @ [c]) of Some t \<Rightarrow> t | None \<Rightarrow> 0)"
    by (rule matcher_next_word [OF m s])
  show "nd_bestKeyword (m_nodes m ! s) = end_best pats (ws ! s)"
    using m s by (simp add: matcher_ok_def linked_def)
  assume "s \<noteq> 0"
  with m s show "lsuf ws (tl (ws ! s)) (nd_failure (m_nodes m ! s))"
    by (simp add: matcher_ok_def linked_def)
qed

subsection \<open>The build succeeds\<close>

lemma root_table_fold:
  "distinct (map be_label l) \<Longrightarrow> foldl (\<lambda>f e. f(be_label e := be_target e)) f l c =
     (case find (\<lambda>e. be_label e = c) l of Some e \<Rightarrow> be_target e | None \<Rightarrow> f c)"
proof (induction l arbitrary: f)
  case (Cons e l)
  show ?case
  proof (cases "be_label e = c")
    case True
    with Cons.prems have "find (\<lambda>e. be_label e = c) l = None"
      unfolding find_None_iff by (metis distinct.simps(2) image_eqI list.simps(9) set_map)
    with True Cons show ?thesis by simp
  qed (use Cons in \<open>simp cong: option.case_cong\<close>)
qed simp

lemma root_table_ok:
  assumes "sib_ok ws 0 l" and "words_ok ws"
  shows "root_table l c = (case node_of ws [c] of Some t \<Rightarrow> t | None \<Rightarrow> 0)"
proof -
  have d: "distinct (map be_label l)" and r: "ws ! 0 = []" using assms by (simp_all add: sib_ok_def words_ok_def)
  have "map_option be_target (find (\<lambda>e. be_label e = c) l) = node_of ws (ws ! 0 @ [c])"
  proof (cases "find (\<lambda>e. be_label e = c) l")
    case None
    then have "node_of ws (ws ! 0 @ [c]) = None"
      using sib_target [OF assms(1), of c] by (cases "node_of ws (ws ! 0 @ [c])") (auto simp: find_None_iff)
    with None show ?thesis by simp
  next
    case (Some e)
    then have "e \<in> set l" "be_label e = c" by (auto simp: find_Some_iff)
    with sib_edge [OF assms(1)] Some show ?thesis by auto
  qed
  then have "node_of ws [c] = map_option be_target (find (\<lambda>e. be_label e = c) l)" by (simp add: r)
  then show ?thesis
    by (cases "find (\<lambda>e. be_label e = c) l") (simp_all add: root_table_def root_table_fold [OF d])
qed

lemma sib_length: "sib_ok ws s l \<Longrightarrow> length l \<le> 256"
  using card_mono [of "UNIV :: char set" "set (map be_label l)"]
  by (simp add: sib_ok_def distinct_card [of "map be_label l", simplified] card_UNIV_char)

lemma initial_queue:
  assumes t: "trie_ok ns es ws" and m: "marked ns ws pats" and sib: "sib_ok ws 0 l"
  shows "queue_inv ws (insert 0 (be_target ` set l)) (map be_target l)"
    and "0 \<notin> set (map be_target l)"
    and "link_inv es ws pats (insert 0 (be_target ` set l)) ns"
proof -
  note W = trie_words [OF t]
  have len: "length ns = length ws" using t by (simp add: trie_ok_def)
  have r: "ws ! 0 = []" "0 < length ws" using W by (auto simp: words_ok_def)
  note tg = sib_targets [OF W sib]
  have q0: "queue_inv ws {0} [0]"
    using r(2) words_nonempty [OF W, symmetric] unfolding queue_inv_def strict_prefix_def by (auto simp: r(1))
  from queue_step(3) [OF q0 W r(2) sib] show "0 \<notin> set (map be_target l)" by simp
  from queue_step(1) [OF q0 W r(2) sib] show "queue_inv ws (insert 0 (be_target ` set l)) (map be_target l)"
    by simp
  have "linked ws pats u (ns ! u)" if u: "u \<in> insert 0 (be_target ` set l)" "u < length ws" for u
  proof (cases "u = 0")
    case True
    have "raw_best pats [] = None" "end_best pats [] = None"
      by (auto simp: raw_best_def end_best_def first_idx_None)
    with True m r len show ?thesis by (simp add: linked_def marked_def)
  next
    case False
    then obtain e where e: "e \<in> set l" "u = be_target e" using u by auto
    then have w: "ws ! u = [be_label e]" using tg(1) r by simp
    have "raw_best pats [be_label e] = end_best pats [be_label e]"
      unfolding raw_best_def end_best_def by (intro first_idx_cong) (auto simp: suffix_Cons)
    moreover have "lsuf ws [] 0" using r by (simp add: lsuf_def)
    ultimately show ?thesis using w False m u(2) len by (simp add: linked_def marked_def)
  qed
  moreover have "unlinked ws pats u (ns ! u)" if "u < length ws" for u
    using m that len by (simp add: marked_def unlinked_def)
  ultimately show "link_inv es ws pats (insert 0 (be_target ` set l)) ns"
    using t m len by (simp add: link_inv_def marked_def)
qed

lemma pack_ok:
  assumes inv: "link_inv es ws pats {..<length ws} ns" and sib: "build_siblings ns0 es 0 = Some l" "sib_ok ws 0 l"
  shows "\<exists>nodes edges. pack_nodes es [0..<length ns] ns [] = Some (nodes, edges) \<and>
    matcher_ok \<lparr>m_nodes = nodes, m_edges = edges, m_rootTransitions = root_table l, m_keywords = ks\<rparr> ws pats"
proof -
  note I = link_invD [OF inv]
  define S where "S = (\<lambda>i. the (build_siblings ns es i))"
  have S: "build_siblings ns es i = Some (S i)" "sib_ok ws i (S i)" if "i < length ns" for i
    using I(1) that unfolding trie_ok_def S_def by force+
  obtain nodes edges where p: "pack_nodes es [0..<length ns] ns [] = Some (nodes, edges)"
      "length nodes = length ns"
      "\<forall>i<length ns. nd_failure (nodes ! i) = nd_failure (ns ! i) \<and> nd_bestKeyword (nodes ! i) = nd_bestKeyword (ns ! i)"
      "\<forall>i<length ns. slice_of edges (nodes ! i) (sort_outgoing (map pack_edge (S i)))"
    using pack_nodes_ok [of "[0..<length ns]" ns es S "[]"] S sib_length by fastforce
  have "node_of ws (ws ! s @ [c]) = Some t \<longleftrightarrow>
      (\<exists>e \<in> set (sort_outgoing (map pack_edge (S s))). ed_label e = c \<and> ed_target e = t)"
    if "s < length ns" for s c t
    using sib_target [OF S(2) [OF that], of c t] by (simp add: sort_outgoing_ok pack_edge_def)
  then have "\<exists>l. slice_of edges (nodes ! s) l \<and> sorted_wrt (\<lambda>x y. ed_label x \<le> ed_label y) l \<and>
      (\<forall>c t. node_of ws (ws ! s @ [c]) = Some t \<longleftrightarrow> (\<exists>e \<in> set l. ed_label e = c \<and> ed_target e = t))"
    if "s < length ns" for s
    using p(4) that sort_outgoing_ok(1) by blast
  moreover have "linked ws pats s (nodes ! s)" if "s < length ws" for s
    using I(5) [of s] p(3) that I(2) by (cases "s = 0") (auto simp: linked_def)
  ultimately show ?thesis
    using p(1,2) I root_table_ok [OF sib(2) I(3)] by (simp add: matcher_ok_def)
qed

lemma build_ok:
  assumes lower: "\<And>s. lower s = [] \<longleftrightarrow> s = []"
  shows "\<exists>mo. newContentModerationKeywordMatcher lower ks = Some mo \<and>
    (case mo of None \<Rightarrow> \<forall>k \<in> set ks. k = []
              | Some m \<Rightarrow> m_keywords m = ks \<and> (\<exists>ws. matcher_ok m ws (map lower ks)))"
proof (cases "ks = []")
  case True
  then show ?thesis by (simp add: newContentModerationKeywordMatcher_def)
next
  case ne: False
  obtain ns es ws where b: "insert_keywords lower 0 ks ([newContentModerationKeywordNode], []) = Some (ns, es)"
      "trie_ok ns es ws" "marked ns ws (map lower ks)"
    using insert_keywords_ok [OF lower trie_root marked_root, of ks] by auto
  have len: "length ns = length ws" and W: "words_ok ws" using b(2) by (auto simp: trie_ok_def)
  show ?thesis
  proof (cases "length ns = 1")
    case True
    then have "ws = [[]]" using len W by (cases ws) (auto simp: words_ok_def)
    then have "\<forall>k \<in> set ks. k = []" using b(3) lower by (auto simp: marked_def)
    with True ne b(1) show ?thesis by (simp add: newContentModerationKeywordMatcher_def)
  next
    case False
    have "0 < length ns" using len W by (simp add: words_ok_def)
    with b(2) obtain l where l: "build_siblings ns es 0 = Some l" "sib_ok ws 0 l" by (rule trie_siblings)
    note q = initial_queue [OF b(2,3) l(2)]
    have "length (map be_target l) = card (be_target ` set l)"
      using sib_targets(2) [OF W l(2)] distinct_card [of "map be_target l"] by simp
    moreover have "be_target ` set l \<subseteq> {..<length ws}" using q(1) by (auto simp: queue_inv_def)
    moreover have "{..<length ws} - insert 0 (be_target ` set l) \<subseteq> {..<length ws} - be_target ` set l" by auto
    ultimately have "length (map be_target l) + card ({..<length ws} - insert 0 (be_target ` set l)) \<le> length ns"
      using card_mono [of "{..<length ws} - be_target ` set l" "{..<length ws} - insert 0 (be_target ` set l)"]
        card_mono [of "{..<length ws}" "be_target ` set l"] len
      by (simp add: card_Diff_subset)
    from bfs_ok [OF q(3,1,2) this] obtain ns' where
      n: "bfs (length ns) ns es (map be_target l) = Some ns'" "link_inv es ws (map lower ks) {..<length ws} ns'"
      by blast
    from pack_ok [OF n(2) l, of ks] b(1) ne False l(1) n(1) show ?thesis
      by (auto simp: newContentModerationKeywordMatcher_def)
  qed
qed

subsection \<open>Matching\<close>

text \<open>
  Property C11. For any keyword list, building the automaton ends without a panic, and matching a
  text returns the first keyword of the list that is non-empty and whose lower-case form occurs in
  the lower-case text, or nothing when no keyword does. Shared prefixes, keywords nested in one
  another, duplicates and the early exit on keyword 0 included; \<open>lower\<close> (strings.ToLower) only
  has to keep the empty string apart from the others.
\<close>

theorem match_first_keyword:
  assumes "\<And>s. lower s = [] \<longleftrightarrow> s = []"
  shows "\<exists>mo. newContentModerationKeywordMatcher lower ks = Some mo \<and>
    Match lower mo body = Some (find (\<lambda>k. k \<noteq> [] \<and> sublist (lower k) (lower body)) ks)"
proof -
  obtain mo where mo: "newContentModerationKeywordMatcher lower ks = Some mo"
      "case mo of None \<Rightarrow> \<forall>k \<in> set ks. k = []
       | Some m \<Rightarrow> m_keywords m = ks \<and> (\<exists>ws. matcher_ok m ws (map lower ks))"
    using build_ok [OF assms] by blast
  have "Match lower mo body = Some (find (\<lambda>k. k \<noteq> [] \<and> sublist (lower k) (lower body)) ks)"
  proof (cases mo)
    case None
    with mo(2) have "find (\<lambda>k. k \<noteq> [] \<and> sublist (lower k) (lower body)) ks = None"
      by (auto simp: find_None_iff)
    with None show ?thesis by (simp add: Match_def)
  next
    case (Some m)
    with mo(2) obtain ws where m: "m_keywords m = ks" "matcher_ok m ws (map lower ks)" by auto
    have nn: "length ws \<le> length (m_nodes m)" "m_nodes m \<noteq> []"
      using m(2) by (auto simp: matcher_ok_def words_ok_def)
    define f where "f = first_idx (\<lambda>k. k \<noteq> [] \<and> sublist (lower k) (lower body)) ks"
    have "first_idx (\<lambda>p. p \<noteq> [] \<and> sublist p (lower body)) (map lower ks) = f"
      using assms by (simp add: first_idx_map f_def)
    then have sc: "scan_loop (length (m_nodes m)) (matcher_next m) (\<lambda>s. nd_failure (m_nodes m ! s))
        (\<lambda>s. nd_bestKeyword (m_nodes m ! s)) 0 None (lower body) = Some f"
      using built.scan_from_start [OF m(2) nn(1), of "lower body"] by simp
    have fi: "find (\<lambda>k. k \<noteq> [] \<and> sublist (lower k) (lower body)) ks = map_option ((!) ks) f"
      by (simp add: f_def first_idx_find)
    show ?thesis
    proof (cases "body = [] \<or> ks = []")
      case True
      have "lower [] = []" using assms by simp
      then have "k \<noteq> [] \<longrightarrow> \<not> sublist (lower k) (lower body)" if "k \<in> set ks" for k
        using True that assms [of k] by auto
      then have "f = None" unfolding f_def first_idx_None by blast
      then have "find (\<lambda>k. k \<noteq> [] \<and> sublist (lower k) (lower body)) ks = None" using fi by simp
      moreover have "Match lower mo body = Some None" unfolding Match_def Some option.case using True m(1) by auto
      ultimately show ?thesis by simp
    next
      case False
      have b: "\<not> length ks \<le> b" if "f = Some b" for b using that by (simp add: f_def first_idx_Some)
      have "Match lower mo body = Some (map_option ((!) ks) f)"
        unfolding Match_def Some option.case sc using False m(1) nn(2) b by (cases f) simp_all
      with fi show ?thesis by simp
    qed
  qed
  with mo(1) show ?thesis by blast
qed

theorem match_first_keyword_witness:
  "\<exists>mo. newContentModerationKeywordMatcher to_lower [''she'', ''He'', ''hers''] = Some mo \<and>
    Match to_lower mo ''usHErs'' = Some (Some ''she'')"
proof -
  have "to_lower s = [] \<longleftrightarrow> s = []" for s by (simp add: to_lower_def)
  note m = match_first_keyword [of to_lower "[''she'', ''He'', ''hers'']" "''usHErs''", OF this]
  have "find (\<lambda>k. k \<noteq> [] \<and> sublist (to_lower k) (to_lower ''usHErs'')) [''she'', ''He'', ''hers''] = Some ''she''"
    by code_simp
  with m show ?thesis by simp
qed

end
