(* ===== verification/Compat_Types.thy ===== *)
theory Compat_Types
  imports Prelude
begin

section \<open>Wire types of the protocol bridge\<close>

text \<open>
  The records of \<open>pkg/apicompat/types.go\<close> that the two stream converters read and write, with the
  accumulating strings of \<open>stream_string_buffer.go\<close>.  Pointers to values that may be absent are
  options, raw JSON is its text, and a nil slice is the empty list. The \<open>zero\<close> values are the Go
  composite literals without fields.
\<close>

subsection \<open>Anthropic Messages\<close>

record AnthropicCacheControl =
  cc_Type :: string
  cc_TTL :: string

record AnthropicImageSource =
  is_Type :: string
  is_MediaType :: string
  is_Data :: string

record AnthropicContentBlock =
  cb_Type :: string
  cb_CacheControl :: "AnthropicCacheControl option"
  cb_Text :: string
  cb_Thinking :: string
  cb_Signature :: string
  cb_Data :: string
  cb_Source :: "AnthropicImageSource option"
  cb_ID :: string
  cb_Name :: string
  cb_Input :: string
  cb_ToolUseID :: string
  cb_Content :: string
  cb_IsError :: bool

definition zero_block :: AnthropicContentBlock where
  "zero_block =
     \<lparr>cb_Type = [], cb_CacheControl = None, cb_Text = [], cb_Thinking = [], cb_Signature = [],
      cb_Data = [], cb_Source = None, cb_ID = [], cb_Name = [], cb_Input = [], cb_ToolUseID = [],
      cb_Content = [], cb_IsError = False\<rparr>"

record AnthropicUsage =
  au_InputTokens :: int
  au_OutputTokens :: int
  au_CacheCreationInputTokens :: int
  au_CacheReadInputTokens :: int
  au_PromptTokens :: int
  au_CachedTokens :: int
  au_PromptTokensDetails :: "int option"
  au_PromptCacheHitTokens :: "int option"
  au_PromptCacheMissTokens :: "int option"

definition zero_ausage :: AnthropicUsage where
  "zero_ausage =
     \<lparr>au_InputTokens = 0, au_OutputTokens = 0, au_CacheCreationInputTokens = 0,
      au_CacheReadInputTokens = 0, au_PromptTokens = 0, au_CachedTokens = 0,
      au_PromptTokensDetails = None, au_PromptCacheHitTokens = None, au_PromptCacheMissTokens = None\<rparr>"

record AnthropicResponse =
  am_ID :: string
  am_Type :: string
  am_Role :: string
  am_Content :: "AnthropicContentBlock list"
  am_Model :: string
  am_StopReason :: "string option"
  am_StopSequence :: "string option"
  am_Usage :: AnthropicUsage

definition AnthropicStopReasonString :: "string option \<Rightarrow> string" where
  "AnthropicStopReasonString p = (case p of None \<Rightarrow> [] | Some s \<Rightarrow> s)"

record AnthropicDelta =
  ad_Type :: string
  ad_Text :: string
  ad_PartialJSON :: string
  ad_Thinking :: string
  ad_Signature :: string
  ad_StopReason :: string
  ad_StopSequence :: "string option"

definition zero_delta :: AnthropicDelta where
  "zero_delta =
     \<lparr>ad_Type = [], ad_Text = [], ad_PartialJSON = [], ad_Thinking = [], ad_Signature = [],
      ad_StopReason = [], ad_StopSequence = None\<rparr>"

record AnthropicStreamEvent =
  ae_Type :: string
  ae_Message :: "AnthropicResponse option"
  ae_Index :: "int option"
  ae_ContentBlock :: "AnthropicContentBlock option"
  ae_Delta :: "AnthropicDelta option"
  ae_Usage :: "AnthropicUsage option"

definition zero_aevent :: AnthropicStreamEvent where
  "zero_aevent =
     \<lparr>ae_Type = [], ae_Message = None, ae_Index = None, ae_ContentBlock = None, ae_Delta = None,
      ae_Usage = None\<rparr>"

subsection \<open>OpenAI Responses\<close>

record ResponsesContentPart =
  cp_PromptCacheBreakpoint :: string
  cp_Type :: string
  cp_Text :: string
  cp_Refusal :: string
  cp_ImageURL :: string
  cp_Filename :: string
  cp_FileData :: string
  cp_FileID :: string

definition text_part :: "string \<Rightarrow> ResponsesContentPart" where
  "text_part s =
     \<lparr>cp_PromptCacheBreakpoint = [], cp_Type = ''output_text'', cp_Text = s, cp_Refusal = [],
      cp_ImageURL = [], cp_Filename = [], cp_FileData = [], cp_FileID = []\<rparr>"

record ResponsesSummary =
  rs_Type :: string
  rs_Text :: string

definition summary_text :: "string \<Rightarrow> ResponsesSummary" where
  "summary_text s = \<lparr>rs_Type = ''summary_text'', rs_Text = s\<rparr>"

record WebSearchAction =
  wa_Type :: string
  wa_Query :: string

record ResponsesOutput =
  ro_Type :: string
  ro_ID :: string
  ro_Role :: string
  ro_Content :: "ResponsesContentPart list"
  ro_Status :: string
  ro_EncryptedContent :: string
  ro_Summary :: "ResponsesSummary list"
  ro_CallID :: string
  ro_Name :: string
  ro_Arguments :: string
  ro_Namespace :: string
  ro_Input :: string
  ro_Action :: "WebSearchAction option"

definition zero_output :: ResponsesOutput where
  "zero_output =
     \<lparr>ro_Type = [], ro_ID = [], ro_Role = [], ro_Content = [], ro_Status = [], ro_EncryptedContent = [],
      ro_Summary = [], ro_CallID = [], ro_Name = [], ro_Arguments = [], ro_Namespace = [],
      ro_Input = [], ro_Action = None\<rparr>"

record ResponsesInputTokensDetails =
  it_CachedTokens :: int
  it_AudioTokens :: int
  it_CacheCreationTokens :: int
  it_CacheWriteTokens :: int

record ResponsesOutputTokensDetails =
  ot_ReasoningTokens :: int
  ot_AudioTokens :: int
  ot_AcceptedPredictionTokens :: int
  ot_RejectedPredictionTokens :: int

record ResponsesUsage =
  ru_InputTokens :: int
  ru_OutputTokens :: int
  ru_TotalTokens :: int
  ru_CacheCreationInputTokens :: int
  ru_InputTokensDetails :: "ResponsesInputTokensDetails option"
  ru_OutputTokensDetails :: "ResponsesOutputTokensDetails option"

record ResponsesError =
  re_Code :: string
  re_Message :: string

record ResponsesResponse =
  rr_ID :: string
  rr_Object :: string
  rr_CreatedAt :: int
  rr_Model :: string
  rr_Status :: string
  rr_Output :: "ResponsesOutput list"
  rr_Usage :: "ResponsesUsage option"
  rr_ServiceTier :: string
  rr_IncompleteDetails :: "string option"
  rr_Error :: "ResponsesError option"

record ResponsesStreamEvent =
  rv_Type :: string
  rv_Response :: "ResponsesResponse option"
  rv_Usage :: "ResponsesUsage option"
  rv_Item :: "ResponsesOutput option"
  rv_OutputIndex :: int
  rv_ContentIndex :: int
  rv_Delta :: string
  rv_Text :: string
  rv_ItemID :: string
  rv_CallID :: string
  rv_Name :: string
  rv_Arguments :: string
  rv_Input :: string
  rv_SummaryIndex :: int
  rv_Part :: "ResponsesContentPart option"
  rv_Code :: string
  rv_Param :: string
  rv_SequenceNumber :: int

definition zero_revent :: ResponsesStreamEvent where
  "zero_revent =
     \<lparr>rv_Type = [], rv_Response = None, rv_Usage = None, rv_Item = None, rv_OutputIndex = 0,
      rv_ContentIndex = 0, rv_Delta = [], rv_Text = [], rv_ItemID = [], rv_CallID = [], rv_Name = [],
      rv_Arguments = [], rv_Input = [], rv_SummaryIndex = 0, rv_Part = None, rv_Code = [],
      rv_Param = [], rv_SequenceNumber = 0\<rparr>"

subsection \<open>Accumulating strings\<close>

text \<open>
  A builder is the text written to it so far, \<open>None\<close> the nil pointer. Each state owns its builders,
  so passing them with the state is the same as sharing the pointer.
\<close>

definition appendStreamString :: "string option \<Rightarrow> string \<Rightarrow> string \<Rightarrow> string option \<times> string" where
  "appendStreamString buffer current delta =
     (if delta = [] then (buffer, current)
      else (let b = (case buffer of
                       None \<Rightarrow> current
                     | Some written \<Rightarrow> if written \<noteq> current then current else written)
            in (Some (b @ delta), b @ delta)))"

record streamStringBytes =
  sb_data :: string
  sb_snapshot :: string

definition appendStreamStringBytes ::
    "streamStringBytes option \<Rightarrow> string \<Rightarrow> string \<Rightarrow> string \<Rightarrow> streamStringBytes option \<times> string" where
  "appendStreamStringBytes buffer previous current delta =
     (let b = (case buffer of
                 None \<Rightarrow> \<lparr>sb_data = previous, sb_snapshot = []\<rparr>
               | Some w \<Rightarrow> if sb_snapshot w \<noteq> previous then \<lparr>sb_data = previous, sb_snapshot = []\<rparr> else w);
          d = sb_data b @ delta
      in (Some \<lparr>sb_data = d, sb_snapshot = current\<rparr>, d))"

lemma appendStreamString_value [simp]: "snd (appendStreamString buffer current delta) = current @ delta"
  by (auto simp: appendStreamString_def Let_def split: option.split)

text \<open>The bytes are the snapshot whenever every call has appended its delta to the previous string.\<close>

definition bytes_ok :: "streamStringBytes option \<Rightarrow> bool" where
  "bytes_ok buffer = (case buffer of None \<Rightarrow> True | Some w \<Rightarrow> sb_data w = sb_snapshot w)"

lemma appendStreamStringBytes_ok:
  "bytes_ok buffer \<Longrightarrow>
   snd (appendStreamStringBytes buffer previous (previous @ delta) delta) = previous @ delta \<and>
   bytes_ok (fst (appendStreamStringBytes buffer previous (previous @ delta) delta))"
  by (auto simp: appendStreamStringBytes_def bytes_ok_def Let_def split: option.splits)

subsection \<open>Tool call identifiers\<close>

definition toResponsesCallID :: "string \<Rightarrow> string" where
  "toResponsesCallID i = i"

definition fromResponsesCallID :: "string \<Rightarrow> string" where
  "fromResponsesCallID i =
     (if has_prefix i ''fc_''
      then (let after = drop 3 i
            in if has_prefix after ''toolu_'' \<or> has_prefix after ''call_'' then after else i)
      else i)"

definition responsesReasoningText :: "ResponsesOutput \<Rightarrow> string" where
  "responsesReasoningText item =
     (let text = concat (map rs_Text (filter (\<lambda>p. rs_Type p = ''summary_text'') (ro_Summary item)))
      in if text = []
         then concat (map cp_Text (filter (\<lambda>p. cp_Type p = ''reasoning_text'') (ro_Content item)))
         else text)"

end
