(* ===== verification/Claude_Models.thy ===== *)
theory Claude_Models
  imports Prelude
begin

section \<open>Claude model identifiers\<close>

text \<open>
  \<open>pkg/claude/effort_catalog.go\<close> and the identifier mappings of \<open>pkg/claude/constants.go\<close>: the
  normal form of a model identifier, the effort levels of a model family, and the tests for the
  models whose thinking is signed. \<open>unicode.IsDigit\<close> is given on ASCII digits.
\<close>

definition ModelIDOverrides :: "(string \<times> string) list" where
  "ModelIDOverrides =
     [(''claude-sonnet-4-5'', ''claude-sonnet-4-5-20250929''),
      (''claude-opus-4-5'', ''claude-opus-4-5-20251101''),
      (''claude-haiku-4-5'', ''claude-haiku-4-5-20251001'')]"

definition ModelIDReverseOverrides :: "(string \<times> string) list" where
  "ModelIDReverseOverrides =
     [(''claude-sonnet-4-5-20250929'', ''claude-sonnet-4-5''),
      (''claude-opus-4-5-20251101'', ''claude-opus-4-5''),
      (''claude-haiku-4-5-20251001'', ''claude-haiku-4-5'')]"

definition NormalizeModelID :: "string \<Rightarrow> string" where
  "NormalizeModelID i =
     (if i = [] then i else case map_of ModelIDOverrides i of Some mapped \<Rightarrow> mapped | None \<Rightarrow> i)"

definition DenormalizeModelID :: "string \<Rightarrow> string" where
  "DenormalizeModelID i =
     (if i = [] then i else case map_of ModelIDReverseOverrides i of Some mapped \<Rightarrow> mapped | None \<Rightarrow> i)"

definition is_digit :: "char \<Rightarrow> bool" where
  "is_digit c = (let n = (of_char c :: nat) in 48 \<le> n \<and> n \<le> 57)"

text \<open>A trailing \<open>-YYYYMMDD\<close> is cut off.\<close>

definition strip_date :: "string \<Rightarrow> string" where
  "strip_date i =
     (if 9 \<le> length i
      then (let s = drop (length i - 9) i
            in if hd s = CHR ''-'' \<and> list_all is_digit (tl s) then take (length i - 9) i else i)
      else i)"

definition dotted_minor :: "string \<Rightarrow> string" where
  "dotted_minor i0 =
     (let i1 = (if i0 = ''claude-opus-5.5'' then ''claude-opus-5-5'' else i0);
          i2 = (if i1 = ''claude-sonnet-5.5'' then ''claude-sonnet-5-5'' else i1)
      in if i2 = ''claude-haiku-5.5'' then ''claude-haiku-5-5'' else i2)"

definition normalizeEffortModelID :: "string \<Rightarrow> string" where
  "normalizeEffortModelID model =
     (let i0 = trim_prefix (to_lower (trim_space model)) ''models/'';
          i1 = (case str_index i0 ''/'' of
                  None \<Rightarrow> i0
                | Some slash \<Rightarrow> trim_prefix (trim_space (drop (slash + 1) i0)) ''models/'');
          i2 = foldl trim_prefix i1 [''us.'', ''eu.'', ''apac.'', ''jp.'', ''au.'', ''us-gov.'', ''global.''];
          i3 = trim_suffix (trim_prefix i2 ''anthropic.'') ''-thinking'';
          i4 = dotted_minor i3;
          i5 = (case map_of ModelIDReverseOverrides i4 of Some mapped \<Rightarrow> mapped | None \<Rightarrow> i4)
      in strip_date i5)"

definition effortLowMediumHigh :: "string list" where
  "effortLowMediumHigh = [''low'', ''medium'', ''high'']"
definition effortLowMediumHighMax :: "string list" where
  "effortLowMediumHighMax = [''low'', ''medium'', ''high'', ''max'']"
definition effortLowMediumHighXHighMax :: "string list" where
  "effortLowMediumHighXHighMax = [''low'', ''medium'', ''high'', ''xhigh'', ''max'']"

definition effortFamilies :: "(string \<times> string list) list" where
  "effortFamilies =
     [(''claude-mythos-preview'', effortLowMediumHighMax),
      (''claude-mythos-5'', effortLowMediumHighXHighMax),
      (''claude-fable-5'', effortLowMediumHighXHighMax),
      (''claude-sonnet-4-6'', effortLowMediumHighMax),
      (''claude-sonnet-5-5'', effortLowMediumHighXHighMax),
      (''claude-sonnet-5'', effortLowMediumHighXHighMax),
      (''claude-opus-4-8'', effortLowMediumHighXHighMax),
      (''claude-opus-4-7'', effortLowMediumHighXHighMax),
      (''claude-opus-4-6'', effortLowMediumHighMax),
      (''claude-opus-4-5'', effortLowMediumHigh),
      (''claude-opus-5-5'', effortLowMediumHighXHighMax),
      (''claude-opus-5'', effortLowMediumHighXHighMax),
      (''claude-haiku-5-5'', effortLowMediumHighXHighMax)]"

text \<open>\<open>None\<close> is the nil slice of an unknown model.\<close>

definition EffortLevelsForModel :: "string \<Rightarrow> string list option" where
  "EffortLevelsForModel model =
     (let i = normalizeEffortModelID model
      in map_option snd (find (\<lambda>e. i = fst e \<or> has_prefix i (fst e @ ''-'')) effortFamilies))"

definition IsOpus55 :: "string \<Rightarrow> bool" where
  "IsOpus55 model = (normalizeEffortModelID model = ''claude-opus-5-5'')"
definition IsSonnet55 :: "string \<Rightarrow> bool" where
  "IsSonnet55 model = (normalizeEffortModelID model = ''claude-sonnet-5-5'')"
definition IsHaiku55 :: "string \<Rightarrow> bool" where
  "IsHaiku55 model = (normalizeEffortModelID model = ''claude-haiku-5-5'')"

text \<open>Short names and dated names are mapped back and forth without loss.\<close>

lemma denormalize_normalize:
  "i \<notin> snd ` set ModelIDOverrides \<Longrightarrow> DenormalizeModelID (NormalizeModelID i) = i"
  by (auto simp: DenormalizeModelID_def NormalizeModelID_def ModelIDOverrides_def ModelIDReverseOverrides_def)

end
