(* ===== verification/Anthropic_Responses.thy ===== *)
theory Anthropic_Responses
  imports Compat_Types Claude_Models
begin

section \<open>Anthropic events to Responses events\<close>

text \<open>
  Models \<open>pkg/apicompat/anthropic_to_responses_response.go\<close>: the conversion of a whole Anthropic
  response and the stateful conversion of its event stream. Each handler takes the state and returns
  the emitted events with the new state. What the code takes from outside is the record
  \<open>bridge_env\<close>: the random identifiers (\<open>crypto/rand\<close>), the clock, and the JSON and base64 encoding
  of a signed thinking block; the state counts the identifiers drawn.
\<close>

record bridge_env =
  env_itemID :: "nat \<Rightarrow> string"
  env_responseID :: string
  env_now :: int
  env_encodeThinking :: "AnthropicContentBlock \<Rightarrow> string"

subsection \<open>Whole responses\<close>

definition signed_model :: "string \<Rightarrow> bool" where
  "signed_model m = (IsOpus55 m \<or> IsSonnet55 m \<or> IsHaiku55 m)"

definition anthropicStopReasonToResponsesStatus :: "string \<Rightarrow> AnthropicContentBlock list \<Rightarrow> string" where
  "anthropicStopReasonToResponsesStatus stopReason blocks =
     (if stopReason = ''max_tokens'' then ''incomplete''
      else if stopReason \<in> {''end_turn'', ''tool_use'', ''stop_sequence''} then ''completed''
      else ''completed'')"

text \<open>One block of the loop: the output items and the message parts so far, and the next fresh id.\<close>

definition convert_block ::
    "bridge_env \<Rightarrow> string \<Rightarrow> ResponsesOutput list \<times> ResponsesContentPart list \<times> nat \<Rightarrow> AnthropicContentBlock \<Rightarrow>
     ResponsesOutput list \<times> ResponsesContentPart list \<times> nat"
where
  "convert_block E model acc block =
     (case acc of (outputs, msgParts, n) \<Rightarrow>
        if cb_Type block \<in> {''thinking'', ''redacted_thinking''} then
          (if signed_model model \<and> (cb_Signature block \<noteq> [] \<or> cb_Data block \<noteq> []) then
             (outputs @ [zero_output\<lparr>ro_Type := ''reasoning'', ro_ID := env_itemID E n,
                           ro_EncryptedContent := env_encodeThinking E block,
                           ro_Summary := (if cb_Thinking block \<noteq> [] then [summary_text (cb_Thinking block)] else [])\<rparr>],
              msgParts, Suc n)
           else if cb_Thinking block \<noteq> [] then
             (outputs @ [zero_output\<lparr>ro_Type := ''reasoning'', ro_ID := env_itemID E n,
                           ro_Summary := [summary_text (cb_Thinking block)]\<rparr>], msgParts, Suc n)
           else (outputs, msgParts, n))
        else if cb_Type block = ''text'' then
          (if signed_model model \<and> cb_Text block \<noteq> [] then
             (outputs @ [zero_output\<lparr>ro_Type := ''message'', ro_ID := env_itemID E n, ro_Role := ''assistant'',
                           ro_Status := ''completed'', ro_Content := [text_part (cb_Text block)]\<rparr>], msgParts, Suc n)
           else if cb_Text block \<noteq> [] then (outputs, msgParts @ [text_part (cb_Text block)], n)
           else (outputs, msgParts, n))
        else if cb_Type block = ''tool_use'' then
          (outputs @ [zero_output\<lparr>ro_Type := ''function_call'', ro_ID := env_itemID E n,
                        ro_CallID := toResponsesCallID (cb_ID block), ro_Name := cb_Name block,
                        ro_Arguments := (if cb_Input block \<noteq> [] then cb_Input block else ''{}''),
                        ro_Status := ''completed''\<rparr>], msgParts, Suc n)
        else (outputs, msgParts, n))"

definition responses_usage :: "int \<Rightarrow> int \<Rightarrow> int \<Rightarrow> int \<Rightarrow> ResponsesUsage" where
  "responses_usage inp out cacheRead cacheCreation =
     (let total = inp + cacheRead + cacheCreation
      in \<lparr>ru_InputTokens = total, ru_OutputTokens = out, ru_TotalTokens = total + out,
          ru_CacheCreationInputTokens = cacheCreation,
          ru_InputTokensDetails =
            (if 0 < cacheRead
             then Some \<lparr>it_CachedTokens = cacheRead, it_AudioTokens = 0, it_CacheCreationTokens = 0,
                        it_CacheWriteTokens = 0\<rparr>
             else None),
          ru_OutputTokensDetails = None\<rparr>)"

definition AnthropicToResponsesResponse :: "bridge_env \<Rightarrow> AnthropicResponse \<Rightarrow> ResponsesResponse" where
  "AnthropicToResponsesResponse E resp =
     (case foldl (convert_block E (am_Model resp)) ([], [], 0) (am_Content resp) of
        (outputs0, msgParts, n) \<Rightarrow>
          (let outputs1 = (if msgParts \<noteq> []
                           then outputs0 @ [zero_output\<lparr>ro_Type := ''message'', ro_ID := env_itemID E n,
                                   ro_Role := ''assistant'', ro_Content := msgParts, ro_Status := ''completed''\<rparr>]
                           else outputs0);
               outputs2 = (if outputs1 = []
                           then [zero_output\<lparr>ro_Type := ''message'', ro_ID := env_itemID E n,
                                   ro_Role := ''assistant'', ro_Content := [text_part []], ro_Status := ''completed''\<rparr>]
                           else outputs1);
               status = anthropicStopReasonToResponsesStatus
                          (AnthropicStopReasonString (am_StopReason resp)) (am_Content resp);
               u = am_Usage resp
           in \<lparr>rr_ID = (if am_ID resp = [] then env_responseID E else am_ID resp),
               rr_Object = ''response'', rr_CreatedAt = env_now E, rr_Model = am_Model resp,
               rr_Status = status, rr_Output = outputs2,
               rr_Usage = Some (responses_usage (au_InputTokens u) (au_OutputTokens u)
                                  (au_CacheReadInputTokens u) (au_CacheCreationInputTokens u)),
               rr_ServiceTier = [],
               rr_IncompleteDetails = (if status = ''incomplete'' then Some ''max_output_tokens'' else None),
               rr_Error = None\<rparr>))"

subsection \<open>The stream state\<close>

record a2r_state =
  ar_ResponseID :: string
  ar_Model :: string
  ar_Created :: int
  ar_SequenceNumber :: int
  ar_CreatedSent :: bool
  ar_CompletedSent :: bool
  ar_OutputIndex :: int
  ar_CurrentItemID :: string
  ar_CurrentItemType :: string
  ar_ContentIndex :: int
  ar_TextAccum :: string
  ar_CurrentCallID :: string
  ar_CurrentName :: string
  ar_CurrentContent :: "ResponsesContentPart list"
  ar_CurrentArgs :: string
  ar_CurrentSummary :: string
  ar_CurrentThinking :: AnthropicContentBlock
  ar_PreserveThinkingSignatures :: bool
  ar_textAccumBuffer :: "string option"
  ar_currentArgsBuffer :: "string option"
  ar_currentSummaryBuffer :: "string option"
  ar_currentSignatureBuffer :: "string option"
  ar_PendingToolInput :: string
  ar_Outputs :: "ResponsesOutput list"
  ar_InputTokens :: int
  ar_OutputTokens :: int
  ar_CacheReadInputTokens :: int
  ar_CacheCreationInputTokens :: int
  ar_StopReason :: string
  ar_drawn :: nat

definition NewAnthropicEventToResponsesState :: "bridge_env \<Rightarrow> a2r_state" where
  "NewAnthropicEventToResponsesState E =
     \<lparr>ar_ResponseID = [], ar_Model = [], ar_Created = env_now E, ar_SequenceNumber = 0,
      ar_CreatedSent = False, ar_CompletedSent = False, ar_OutputIndex = 0, ar_CurrentItemID = [],
      ar_CurrentItemType = [], ar_ContentIndex = 0, ar_TextAccum = [], ar_CurrentCallID = [],
      ar_CurrentName = [], ar_CurrentContent = [], ar_CurrentArgs = [], ar_CurrentSummary = [],
      ar_CurrentThinking = zero_block, ar_PreserveThinkingSignatures = False,
      ar_textAccumBuffer = None, ar_currentArgsBuffer = None, ar_currentSummaryBuffer = None,
      ar_currentSignatureBuffer = None, ar_PendingToolInput = [], ar_Outputs = [],
      ar_InputTokens = 0, ar_OutputTokens = 0, ar_CacheReadInputTokens = 0,
      ar_CacheCreationInputTokens = 0, ar_StopReason = [], ar_drawn = 0\<rparr>"

type_synonym a2r_result = "ResponsesStreamEvent list \<times> a2r_state"

subsection \<open>Emitting events\<close>

definition makeResponsesEvent ::
    "a2r_state \<Rightarrow> string \<Rightarrow> ResponsesStreamEvent \<Rightarrow> ResponsesStreamEvent \<times> a2r_state" where
  "makeResponsesEvent s eventType template =
     (template\<lparr>rv_Type := eventType, rv_SequenceNumber := ar_SequenceNumber s\<rparr>,
      s\<lparr>ar_SequenceNumber := ar_SequenceNumber s + 1\<rparr>)"

definition emit :: "a2r_state \<Rightarrow> string \<Rightarrow> ResponsesStreamEvent \<Rightarrow> a2r_result" where
  "emit s eventType template =
     (case makeResponsesEvent s eventType template of (ev, s') \<Rightarrow> ([ev], s'))"

definition and_then :: "a2r_result \<Rightarrow> (a2r_state \<Rightarrow> a2r_result) \<Rightarrow> a2r_result" where
  "and_then r f = (case r of (evs, s) \<Rightarrow> (case f s of (evs', s') \<Rightarrow> (evs @ evs', s')))"

definition makeResponsesCreatedEvent :: "a2r_state \<Rightarrow> ResponsesStreamEvent \<times> a2r_state" where
  "makeResponsesCreatedEvent s =
     (zero_revent\<lparr>rv_Type := ''response.created'', rv_SequenceNumber := ar_SequenceNumber s,
        rv_Response := Some \<lparr>rr_ID = ar_ResponseID s, rr_Object = ''response'', rr_CreatedAt = ar_Created s,
          rr_Model = ar_Model s, rr_Status = ''in_progress'', rr_Output = [], rr_Usage = None,
          rr_ServiceTier = [], rr_IncompleteDetails = None, rr_Error = None\<rparr>\<rparr>,
      s\<lparr>ar_SequenceNumber := ar_SequenceNumber s + 1\<rparr>)"

definition makeResponsesCompletedEvent ::
    "a2r_state \<Rightarrow> string \<Rightarrow> string option \<Rightarrow> ResponsesStreamEvent \<times> a2r_state" where
  "makeResponsesCompletedEvent s status incompleteDetails =
     (zero_revent\<lparr>rv_Type := (if status = ''incomplete'' then ''response.incomplete'' else ''response.completed''),
        rv_SequenceNumber := ar_SequenceNumber s,
        rv_Response := Some \<lparr>rr_ID = ar_ResponseID s, rr_Object = ''response'', rr_CreatedAt = ar_Created s,
          rr_Model = ar_Model s, rr_Status = status, rr_Output = ar_Outputs s,
          rr_Usage = Some (responses_usage (ar_InputTokens s) (ar_OutputTokens s)
                             (ar_CacheReadInputTokens s) (ar_CacheCreationInputTokens s)),
          rr_ServiceTier = [], rr_IncompleteDetails = incompleteDetails, rr_Error = None\<rparr>\<rparr>,
      s\<lparr>ar_SequenceNumber := ar_SequenceNumber s + 1\<rparr>)"

definition anthropicResponsesStreamTerminalState :: "string \<Rightarrow> string \<times> string option" where
  "anthropicResponsesStreamTerminalState stopReason =
     (if stopReason = ''max_tokens'' then (''incomplete'', Some ''max_output_tokens'')
      else (''completed'', None))"

definition seedToolArguments :: "string \<Rightarrow> string" where
  "seedToolArguments input =
     (let trimmed = trim_space input
      in if trimmed \<in> {[], ''{}'', ''null''} then [] else trimmed)"

subsection \<open>Closing the open item\<close>

definition keep_signature :: "a2r_state \<Rightarrow> bool" where
  "keep_signature s =
     (ar_PreserveThinkingSignatures s \<and>
      (cb_Signature (ar_CurrentThinking s) \<noteq> [] \<or> cb_Data (ar_CurrentThinking s) \<noteq> []))"

definition closing_item :: "bridge_env \<Rightarrow> a2r_state \<Rightarrow> ResponsesOutput" where
  "closing_item E s =
     (let item = zero_output\<lparr>ro_Type := ar_CurrentItemType s, ro_ID := ar_CurrentItemID s,
                   ro_Status := ''completed''\<rparr>
      in if ar_CurrentItemType s = ''message'' then
           item\<lparr>ro_Role := ''assistant'', ro_Content := ar_CurrentContent s\<rparr>
         else if ar_CurrentItemType s = ''function_call'' then
           item\<lparr>ro_CallID := ar_CurrentCallID s, ro_Name := ar_CurrentName s,
                ro_Arguments := (if ar_CurrentArgs s = [] then ''{}'' else ar_CurrentArgs s)\<rparr>
         else if ar_CurrentItemType s = ''reasoning'' then
           item\<lparr>ro_EncryptedContent :=
                  (if keep_signature s
                   then env_encodeThinking E ((ar_CurrentThinking s)\<lparr>cb_Thinking := ar_CurrentSummary s\<rparr>)
                   else []),
                ro_Summary := (if ar_CurrentSummary s \<noteq> [] then [summary_text (ar_CurrentSummary s)] else [])\<rparr>
         else item)"

definition reset_item :: "ResponsesOutput \<Rightarrow> a2r_state \<Rightarrow> a2r_state" where
  "reset_item item s =
     s\<lparr>ar_Outputs := ar_Outputs s @ [item], ar_CurrentItemType := [], ar_CurrentItemID := [],
       ar_CurrentCallID := [], ar_CurrentName := [], ar_CurrentContent := [], ar_CurrentArgs := [],
       ar_currentArgsBuffer := None, ar_PendingToolInput := [], ar_CurrentSummary := [],
       ar_currentSummaryBuffer := None, ar_CurrentThinking := zero_block,
       ar_currentSignatureBuffer := None, ar_TextAccum := [], ar_textAccumBuffer := None,
       ar_OutputIndex := ar_OutputIndex s + 1, ar_ContentIndex := 0\<rparr>"

definition closeCurrentResponsesItem :: "bridge_env \<Rightarrow> a2r_state \<Rightarrow> a2r_result" where
  "closeCurrentResponsesItem E s =
     (if ar_CurrentItemType s = [] then ([], s)
      else (let item = closing_item E s;
                s' = reset_item item s
            in emit s' ''response.output_item.done''
                 (zero_revent\<lparr>rv_OutputIndex := ar_OutputIndex s' - 1, rv_Item := Some item\<rparr>)))"

subsection \<open>The handlers\<close>

definition anthToResHandleMessageStart :: "AnthropicStreamEvent \<Rightarrow> a2r_state \<Rightarrow> a2r_result" where
  "anthToResHandleMessageStart evt s0 =
     (let s = (case ae_Message evt of
                 None \<Rightarrow> s0
               | Some m \<Rightarrow>
                   (let u = am_Usage m
                    in s0\<lparr>ar_ResponseID := am_ID m,
                          ar_PreserveThinkingSignatures :=
                            ar_PreserveThinkingSignatures s0 \<or> signed_model (am_Model m),
                          ar_Model := (if ar_Model s0 = [] then am_Model m else ar_Model s0),
                          ar_InputTokens := (if 0 < au_InputTokens u then au_InputTokens u else ar_InputTokens s0),
                          ar_CacheReadInputTokens :=
                            (if 0 < au_CacheReadInputTokens u then au_CacheReadInputTokens u
                             else ar_CacheReadInputTokens s0),
                          ar_CacheCreationInputTokens :=
                            (if 0 < au_CacheCreationInputTokens u then au_CacheCreationInputTokens u
                             else ar_CacheCreationInputTokens s0)\<rparr>))
      in if ar_CreatedSent s then ([], s)
         else (case makeResponsesCreatedEvent (s\<lparr>ar_CreatedSent := True\<rparr>) of (ev, s') \<Rightarrow> ([ev], s')))"

text \<open>Opening a reasoning item, a message item and a function call, after closing the open one.\<close>

definition open_reasoning :: "bridge_env \<Rightarrow> AnthropicContentBlock \<Rightarrow> a2r_state \<Rightarrow> a2r_result" where
  "open_reasoning E block s =
     (let s' = s\<lparr>ar_CurrentItemID := env_itemID E (ar_drawn s), ar_drawn := Suc (ar_drawn s),
                 ar_CurrentItemType := ''reasoning'', ar_CurrentThinking := block,
                 ar_CurrentSummary := cb_Thinking block, ar_currentSummaryBuffer := None,
                 ar_currentSignatureBuffer := None, ar_ContentIndex := 0\<rparr>
      in emit s' ''response.output_item.added''
           (zero_revent\<lparr>rv_OutputIndex := ar_OutputIndex s',
              rv_Item := Some (zero_output\<lparr>ro_Type := ''reasoning'', ro_ID := ar_CurrentItemID s'\<rparr>)\<rparr>))"

definition open_message :: "bridge_env \<Rightarrow> a2r_state \<Rightarrow> a2r_result" where
  "open_message E s =
     (let s' = s\<lparr>ar_CurrentItemID := env_itemID E (ar_drawn s), ar_drawn := Suc (ar_drawn s),
                 ar_CurrentItemType := ''message'', ar_ContentIndex := 0\<rparr>
      in emit s' ''response.output_item.added''
           (zero_revent\<lparr>rv_OutputIndex := ar_OutputIndex s',
              rv_Item := Some (zero_output\<lparr>ro_Type := ''message'', ro_ID := ar_CurrentItemID s',
                                 ro_Role := ''assistant'', ro_Status := ''in_progress''\<rparr>)\<rparr>))"

definition open_function_call :: "bridge_env \<Rightarrow> AnthropicContentBlock \<Rightarrow> a2r_state \<Rightarrow> a2r_result" where
  "open_function_call E block s =
     (let s' = s\<lparr>ar_CurrentItemID := env_itemID E (ar_drawn s), ar_drawn := Suc (ar_drawn s),
                 ar_CurrentItemType := ''function_call'',
                 ar_CurrentCallID := toResponsesCallID (cb_ID block), ar_CurrentName := cb_Name block,
                 ar_PendingToolInput := seedToolArguments (cb_Input block)\<rparr>
      in emit s' ''response.output_item.added''
           (zero_revent\<lparr>rv_OutputIndex := ar_OutputIndex s',
              rv_Item := Some (zero_output\<lparr>ro_Type := ''function_call'', ro_ID := ar_CurrentItemID s',
                                 ro_CallID := ar_CurrentCallID s', ro_Name := ar_CurrentName s',
                                 ro_Status := ''in_progress''\<rparr>)\<rparr>))"

definition add_part :: "a2r_state \<Rightarrow> a2r_result" where
  "add_part s =
     and_then
       (emit s ''response.content_part.added''
          (zero_revent\<lparr>rv_OutputIndex := ar_OutputIndex s, rv_ContentIndex := ar_ContentIndex s,
             rv_ItemID := ar_CurrentItemID s, rv_Part := Some (text_part [])\<rparr>))
       (\<lambda>s. ([], s\<lparr>ar_TextAccum := [], ar_textAccumBuffer := None\<rparr>))"

definition anthToResHandleContentBlockStart ::
    "bridge_env \<Rightarrow> AnthropicStreamEvent \<Rightarrow> a2r_state \<Rightarrow> a2r_result" where
  "anthToResHandleContentBlockStart E evt s =
     (case ae_ContentBlock evt of
        None \<Rightarrow> ([], s)
      | Some block \<Rightarrow>
          (if cb_Type block \<in> {''thinking'', ''redacted_thinking''} then
             and_then (closeCurrentResponsesItem E s) (open_reasoning E block)
           else if cb_Type block = ''text'' then
             and_then
               (if ar_CurrentItemType s \<noteq> ''message''
                then and_then (closeCurrentResponsesItem E s) (open_message E)
                else ([], s))
               add_part
           else if cb_Type block = ''tool_use'' then
             and_then (closeCurrentResponsesItem E s) (open_function_call E block)
           else ([], s)))"

definition anthToResHandleContentBlockDelta :: "AnthropicStreamEvent \<Rightarrow> a2r_state \<Rightarrow> a2r_result" where
  "anthToResHandleContentBlockDelta evt s =
     (case ae_Delta evt of
        None \<Rightarrow> ([], s)
      | Some d \<Rightarrow>
          (if ad_Type d = ''text_delta'' then
             (if ad_Text d = [] then ([], s)
              else (case appendStreamString (ar_textAccumBuffer s) (ar_TextAccum s) (ad_Text d) of
                      (b, v) \<Rightarrow>
                        emit (s\<lparr>ar_textAccumBuffer := b, ar_TextAccum := v\<rparr>) ''response.output_text.delta''
                          (zero_revent\<lparr>rv_OutputIndex := ar_OutputIndex s, rv_ContentIndex := ar_ContentIndex s,
                             rv_Delta := ad_Text d, rv_ItemID := ar_CurrentItemID s\<rparr>)))
           else if ad_Type d = ''thinking_delta'' then
             (if ad_Thinking d = [] then ([], s)
              else (case appendStreamString (ar_currentSummaryBuffer s) (ar_CurrentSummary s) (ad_Thinking d) of
                      (b, v) \<Rightarrow>
                        emit (s\<lparr>ar_currentSummaryBuffer := b, ar_CurrentSummary := v\<rparr>)
                          ''response.reasoning_summary_text.delta''
                          (zero_revent\<lparr>rv_OutputIndex := ar_OutputIndex s, rv_SummaryIndex := 0,
                             rv_Delta := ad_Thinking d, rv_ItemID := ar_CurrentItemID s\<rparr>)))
           else if ad_Type d = ''input_json_delta'' then
             (if ad_PartialJSON d = [] then ([], s)
              else (case appendStreamString (ar_currentArgsBuffer s) (ar_CurrentArgs s) (ad_PartialJSON d) of
                      (b, v) \<Rightarrow>
                        emit (s\<lparr>ar_PendingToolInput := [], ar_currentArgsBuffer := b, ar_CurrentArgs := v\<rparr>)
                          ''response.function_call_arguments.delta''
                          (zero_revent\<lparr>rv_OutputIndex := ar_OutputIndex s, rv_Delta := ad_PartialJSON d,
                             rv_ItemID := ar_CurrentItemID s, rv_CallID := ar_CurrentCallID s,
                             rv_Name := ar_CurrentName s\<rparr>)))
           else if ad_Type d = ''signature_delta'' then
             (if ar_PreserveThinkingSignatures s
              then (case appendStreamString (ar_currentSignatureBuffer s)
                           (cb_Signature (ar_CurrentThinking s)) (ad_Signature d) of
                      (b, v) \<Rightarrow>
                        ([], s\<lparr>ar_currentSignatureBuffer := b,
                               ar_CurrentThinking := (ar_CurrentThinking s)\<lparr>cb_Signature := v\<rparr>\<rparr>))
              else ([], s))
           else ([], s)))"

text \<open>Arguments that came complete with the block and were followed by no delta.\<close>

definition flush_pending :: "a2r_state \<Rightarrow> a2r_result" where
  "flush_pending s =
     and_then
       (if ar_CurrentArgs s = [] \<and> ar_PendingToolInput s \<noteq> []
        then emit (s\<lparr>ar_CurrentArgs := ar_PendingToolInput s, ar_currentArgsBuffer := None\<rparr>)
               ''response.function_call_arguments.delta''
               (zero_revent\<lparr>rv_OutputIndex := ar_OutputIndex s, rv_Delta := ar_PendingToolInput s,
                  rv_ItemID := ar_CurrentItemID s, rv_CallID := ar_CurrentCallID s,
                  rv_Name := ar_CurrentName s\<rparr>)
        else ([], s))
       (\<lambda>s. ([], s\<lparr>ar_PendingToolInput := []\<rparr>))"

definition arguments_done :: "a2r_state \<Rightarrow> a2r_result" where
  "arguments_done s =
     emit s ''response.function_call_arguments.done''
       (zero_revent\<lparr>rv_OutputIndex := ar_OutputIndex s, rv_ItemID := ar_CurrentItemID s,
          rv_CallID := ar_CurrentCallID s, rv_Name := ar_CurrentName s, rv_Arguments := ar_CurrentArgs s\<rparr>)"

definition text_done :: "a2r_state \<Rightarrow> a2r_result" where
  "text_done s0 =
     (let text = ar_TextAccum s0;
          contentIndex = ar_ContentIndex s0;
          s = s0\<lparr>ar_TextAccum := [], ar_textAccumBuffer := None,
                 ar_CurrentContent := ar_CurrentContent s0 @ [text_part text],
                 ar_ContentIndex := ar_ContentIndex s0 + 1\<rparr>
      in and_then
           (emit s ''response.output_text.done''
              (zero_revent\<lparr>rv_OutputIndex := ar_OutputIndex s, rv_ContentIndex := contentIndex,
                 rv_ItemID := ar_CurrentItemID s, rv_Text := text\<rparr>))
           (\<lambda>s. emit s ''response.content_part.done''
              (zero_revent\<lparr>rv_OutputIndex := ar_OutputIndex s, rv_ContentIndex := contentIndex,
                 rv_ItemID := ar_CurrentItemID s, rv_Part := Some (text_part text)\<rparr>)))"

definition anthToResHandleContentBlockStop :: "bridge_env \<Rightarrow> AnthropicStreamEvent \<Rightarrow> a2r_state \<Rightarrow> a2r_result" where
  "anthToResHandleContentBlockStop E evt s =
     (if ar_CurrentItemType s = ''reasoning'' then
        and_then
          (emit s ''response.reasoning_summary_text.done''
             (zero_revent\<lparr>rv_OutputIndex := ar_OutputIndex s, rv_SummaryIndex := 0,
                rv_ItemID := ar_CurrentItemID s\<rparr>))
          (closeCurrentResponsesItem E)
      else if ar_CurrentItemType s = ''function_call'' then
        and_then (and_then (flush_pending s) arguments_done) (closeCurrentResponsesItem E)
      else if ar_CurrentItemType s = ''message'' then text_done s
      else ([], s))"

definition anthToResHandleMessageDelta :: "AnthropicStreamEvent \<Rightarrow> a2r_state \<Rightarrow> a2r_result" where
  "anthToResHandleMessageDelta evt s0 =
     (let s = (case ae_Usage evt of
                 None \<Rightarrow> s0
               | Some u \<Rightarrow>
                   s0\<lparr>ar_OutputTokens := au_OutputTokens u,
                      ar_InputTokens := (if 0 < au_InputTokens u then au_InputTokens u else ar_InputTokens s0),
                      ar_CacheReadInputTokens :=
                        (if 0 < au_CacheReadInputTokens u then au_CacheReadInputTokens u
                         else ar_CacheReadInputTokens s0),
                      ar_CacheCreationInputTokens :=
                        (if 0 < au_CacheCreationInputTokens u then au_CacheCreationInputTokens u
                         else ar_CacheCreationInputTokens s0)\<rparr>)
      in ([], case ae_Delta evt of
                None \<Rightarrow> s
              | Some d \<Rightarrow> if ad_StopReason d \<noteq> [] then s\<lparr>ar_StopReason := ad_StopReason d\<rparr> else s))"

definition terminate :: "bridge_env \<Rightarrow> a2r_state \<Rightarrow> a2r_result" where
  "terminate E s =
     and_then (closeCurrentResponsesItem E s)
       (\<lambda>s. case anthropicResponsesStreamTerminalState (ar_StopReason s) of
              (status, incompleteDetails) \<Rightarrow>
                (case makeResponsesCompletedEvent s status incompleteDetails of
                   (ev, s') \<Rightarrow> ([ev], s'\<lparr>ar_CompletedSent := True\<rparr>)))"

definition anthToResHandleMessageStop :: "bridge_env \<Rightarrow> a2r_state \<Rightarrow> a2r_result" where
  "anthToResHandleMessageStop E s = (if ar_CompletedSent s then ([], s) else terminate E s)"

definition FinalizeAnthropicResponsesStream :: "bridge_env \<Rightarrow> a2r_state \<Rightarrow> a2r_result" where
  "FinalizeAnthropicResponsesStream E s =
     (if \<not> ar_CreatedSent s \<or> ar_CompletedSent s then ([], s) else terminate E s)"

definition AnthropicEventToResponsesEvents ::
    "bridge_env \<Rightarrow> AnthropicStreamEvent \<Rightarrow> a2r_state \<Rightarrow> a2r_result" where
  "AnthropicEventToResponsesEvents E evt s =
     (if ae_Type evt = ''message_start'' then anthToResHandleMessageStart evt s
      else if ae_Type evt = ''content_block_start'' then anthToResHandleContentBlockStart E evt s
      else if ae_Type evt = ''content_block_delta'' then anthToResHandleContentBlockDelta evt s
      else if ae_Type evt = ''content_block_stop'' then anthToResHandleContentBlockStop E evt s
      else if ae_Type evt = ''message_delta'' then anthToResHandleMessageDelta evt s
      else if ae_Type evt = ''message_stop'' then anthToResHandleMessageStop E s
      else ([], s))"

end
