(* ===== verification/Stream_Converter.thy ===== *)
theory Stream_Converter
  imports Prelude
begin

section \<open>Stateful stream converters\<close>

text \<open>
  The contract both protocol converters share.  A converter turns each upstream event into a list of
  events for the client and updates its state.  \<open>admit\<close> is the upstream protocol as an automaton,
  \<open>client\<close> a receiver that rejects what its protocol forbids; \<open>rel\<close> ties the three states.  One step
  kept by the relation gives the whole stream.
\<close>

fun feed :: "('c \<Rightarrow> 'o \<Rightarrow> 'c option) \<Rightarrow> 'c \<Rightarrow> 'o list \<Rightarrow> 'c option" where
  "feed f c [] = Some c"
| "feed f c (x # xs) = (case f c x of None \<Rightarrow> None | Some c' \<Rightarrow> feed f c' xs)"

fun convert_stream :: "('e \<Rightarrow> 's \<Rightarrow> 'o list \<times> 's) \<Rightarrow> 'e list \<Rightarrow> 's \<Rightarrow> 'o list \<times> 's" where
  "convert_stream step [] s = ([], s)"
| "convert_stream step (e # es) s =
     (case step e s of (out, s1) \<Rightarrow> (case convert_stream step es s1 of (out', s2) \<Rightarrow> (out @ out', s2)))"

lemma feed_append: "feed f c (xs @ ys) = (case feed f c xs of None \<Rightarrow> None | Some c' \<Rightarrow> feed f c' ys)"
  by (induction xs arbitrary: c) (auto split: option.split)

lemma feed_append_Some: "feed f c xs = Some c' \<Longrightarrow> feed f c (xs @ ys) = feed f c' ys"
  by (simp add: feed_append)

lemma feed_snoc: "feed f c (xs @ [y]) = Option.bind (feed f c xs) (\<lambda>c'. f c' y)"
  by (cases "feed f c xs") (auto simp: feed_append split: option.split)

locale stream_converter =
  fixes step :: "'e \<Rightarrow> 's \<Rightarrow> 'o list \<times> 's"
    and admit :: "'p \<Rightarrow> 'e \<Rightarrow> 'p option"
    and client :: "'c \<Rightarrow> 'o \<Rightarrow> 'c option"
    and rel :: "'p \<Rightarrow> 's \<Rightarrow> 'c \<Rightarrow> bool"
  assumes step_rel: "rel p s c \<Longrightarrow> admit p e = Some p' \<Longrightarrow>
    \<exists>c'. feed client c (fst (step e s)) = Some c' \<and> rel p' (snd (step e s)) c'"
begin

lemma stream_rel:
  "rel p s c \<Longrightarrow> feed admit p es = Some p' \<Longrightarrow>
   \<exists>c'. feed client c (fst (convert_stream step es s)) = Some c' \<and> rel p' (snd (convert_stream step es s)) c'"
proof (induction es arbitrary: p s c)
  case (Cons e es)
  from Cons.prems(2) obtain p1 where p1: "admit p e = Some p1" "feed admit p1 es = Some p'"
    by (auto split: option.splits)
  from step_rel [OF Cons.prems(1) p1(1)] obtain c1 where
    c1: "feed client c (fst (step e s)) = Some c1" "rel p1 (snd (step e s)) c1" by blast
  from Cons.IH [OF c1(2) p1(2)] c1(1) show ?case
    by (auto simp: feed_append split: prod.splits)
qed simp

end

text \<open>A converter that is right on every event whatsoever: the upstream automaton admits all.\<close>

definition admit_all :: "unit \<Rightarrow> 'e \<Rightarrow> unit option" where
  "admit_all p e = Some ()"

lemma feed_admit_all: "feed admit_all p es = Some ()"
  by (induction es arbitrary: p) (auto simp: admit_all_def)

end
