(* ===== verification/Anthropic_Responses_Client.thy ===== *)
theory Anthropic_Responses_Client
  imports Anthropic_Responses Stream_Converter
begin

section \<open>What a Responses client sees\<close>

text \<open>
  The receiver of the converted stream.  \<open>bracket_client\<close> checks what must hold on any upstream
  input: consecutive sequence numbers, one item open at a time with the next output index, and one
  terminal event that lists the items closed so far.  \<open>sdk_client\<close> is the accumulating client: it
  rebuilds the text, the arguments and the summaries from the deltas and checks every done event
  against them.
\<close>

subsection \<open>The bracket client\<close>

record bracket_state =
  bk_seq :: int
  bk_created :: bool
  bk_finished :: bool
  bk_open :: "(string \<times> string) option"
  bk_items :: "ResponsesOutput list"

definition bracket_start :: bracket_state where
  "bracket_start = \<lparr>bk_seq = 0, bk_created = False, bk_finished = False, bk_open = None, bk_items = []\<rparr>"

definition bracket_client :: "bracket_state \<Rightarrow> ResponsesStreamEvent \<Rightarrow> bracket_state option" where
  "bracket_client c ev =
     (if rv_SequenceNumber ev \<noteq> bk_seq c then None
      else (let c1 = c\<lparr>bk_seq := bk_seq c + 1\<rparr>
            in if rv_Type ev = ''response.created'' then
                 (if bk_created c then None else Some (c1\<lparr>bk_created := True\<rparr>))
               else if rv_Type ev = ''response.output_item.added'' then
                 (case rv_Item ev of
                    None \<Rightarrow> None
                  | Some it \<Rightarrow> (if bk_open c = None \<and> rv_OutputIndex ev = int (length (bk_items c))
                               then Some (c1\<lparr>bk_open := Some (ro_ID it, ro_Type it)\<rparr>) else None))
               else if rv_Type ev = ''response.output_item.done'' then
                 (case rv_Item ev of
                    None \<Rightarrow> None
                  | Some it \<Rightarrow> (if bk_open c = Some (ro_ID it, ro_Type it) \<and>
                                 rv_OutputIndex ev = int (length (bk_items c))
                               then Some (c1\<lparr>bk_open := None, bk_items := bk_items c @ [it]\<rparr>) else None))
               else if rv_Type ev \<in> {''response.completed'', ''response.incomplete''} then
                 (case rv_Response ev of
                    None \<Rightarrow> None
                  | Some r \<Rightarrow> (if bk_open c = None \<and> \<not> bk_finished c \<and> rr_Output r = bk_items c
                              then Some (c1\<lparr>bk_finished := True\<rparr>) else None))
               else (if rv_OutputIndex ev = int (length (bk_items c)) then Some c1 else None)))"

definition bracket_rel :: "unit \<Rightarrow> a2r_state \<Rightarrow> bracket_state \<Rightarrow> bool" where
  "bracket_rel p s c \<longleftrightarrow>
     bk_seq c = ar_SequenceNumber s \<and> bk_created c = ar_CreatedSent s \<and> bk_finished c = ar_CompletedSent s \<and>
     bk_items c = ar_Outputs s \<and> ar_OutputIndex s = int (length (ar_Outputs s)) \<and>
     bk_open c = (if ar_CurrentItemType s = [] then None else Some (ar_CurrentItemID s, ar_CurrentItemType s))"

text \<open>The outcome of a part of a handler keeps the relation when the client takes its events.\<close>

definition keeps_brackets :: "a2r_result \<Rightarrow> a2r_state \<Rightarrow> bool" where
  "keeps_brackets r s \<longleftrightarrow> (\<forall>c. bracket_rel () s c \<longrightarrow>
     (\<exists>c'. feed bracket_client c (fst r) = Some c' \<and> bracket_rel () (snd r) c'))"

lemma keeps_and_then:
  assumes "keeps_brackets r s" and "keeps_brackets (g (snd r)) (snd r)"
  shows "keeps_brackets (and_then r g) s"
  unfolding keeps_brackets_def
proof (intro allI impI)
  fix c assume rel: "bracket_rel () s c"
  obtain c1 where c1: "feed bracket_client c (fst r) = Some c1" "bracket_rel () (snd r) c1"
    using assms(1) rel unfolding keeps_brackets_def by blast
  obtain c2 where c2: "feed bracket_client c1 (fst (g (snd r))) = Some c2" "bracket_rel () (snd (g (snd r))) c2"
    using assms(2) c1(2) unfolding keeps_brackets_def by blast
  show "\<exists>c'. feed bracket_client c (fst (and_then r g)) = Some c' \<and> bracket_rel () (snd (and_then r g)) c'"
    using c1(1) c2 by (auto simp: and_then_def feed_append split: prod.splits)
qed

named_theorems brackets \<open>which handler parts keep the bracket relation\<close>

lemma brackets_silent [brackets]: "keeps_brackets ([], s) s"
  by (simp add: keeps_brackets_def)

lemma emit_snd: "snd (emit s ty ev) = s\<lparr>ar_SequenceNumber := ar_SequenceNumber s + 1\<rparr>"
  by (simp add: emit_def makeResponsesEvent_def)

lemma brackets_emit:
  assumes "ar_SequenceNumber s' = ar_SequenceNumber s" "ar_CreatedSent s' = ar_CreatedSent s"
    "ar_CompletedSent s' = ar_CompletedSent s" "ar_Outputs s' = ar_Outputs s"
    "ar_OutputIndex s' = ar_OutputIndex s" "ar_CurrentItemID s' = ar_CurrentItemID s"
    "ar_CurrentItemType s' = ar_CurrentItemType s" "rv_OutputIndex ev = ar_OutputIndex s"
    "ty \<notin> {''response.created'', ''response.output_item.added'', ''response.output_item.done'',
            ''response.completed'', ''response.incomplete''}"
  shows "keeps_brackets (emit s' ty ev) s"
  using assms
  by (simp add: keeps_brackets_def bracket_rel_def bracket_client_def emit_def makeResponsesEvent_def Let_def)

lemma brackets_close [brackets]: "keeps_brackets (closeCurrentResponsesItem E s) s"
  by (auto simp: keeps_brackets_def closeCurrentResponsesItem_def bracket_rel_def bracket_client_def emit_def
      makeResponsesEvent_def reset_item_def closing_item_def zero_revent_def zero_output_def Let_def)

lemma closed_after [simp]: "ar_CurrentItemType (snd (closeCurrentResponsesItem E s)) = []"
  by (simp add: closeCurrentResponsesItem_def emit_def makeResponsesEvent_def reset_item_def Let_def)

lemma completed_after [simp]:
  "ar_CompletedSent (snd (closeCurrentResponsesItem E s)) = ar_CompletedSent s"
  by (simp add: closeCurrentResponsesItem_def emit_def makeResponsesEvent_def reset_item_def Let_def)

lemma brackets_open [brackets]:
  "ar_CurrentItemType s = [] \<Longrightarrow> keeps_brackets (open_reasoning E b s) s"
  "ar_CurrentItemType s = [] \<Longrightarrow> keeps_brackets (open_message E s) s"
  "ar_CurrentItemType s = [] \<Longrightarrow> keeps_brackets (open_function_call E b s) s"
  by (simp_all add: keeps_brackets_def open_reasoning_def open_message_def open_function_call_def bracket_rel_def
      bracket_client_def emit_def makeResponsesEvent_def zero_revent_def zero_output_def Let_def)

lemma brackets_set:
  "bracket_rel () s = bracket_rel () s' \<Longrightarrow> keeps_brackets ([], s') s"
  by (simp add: keeps_brackets_def)

lemma brackets_parts [brackets]:
  "keeps_brackets (add_part s) s" "keeps_brackets (flush_pending s) s"
  "keeps_brackets (arguments_done s) s" "keeps_brackets (text_done s) s"
  unfolding add_part_def flush_pending_def arguments_done_def text_done_def Let_def
  by (auto intro!: keeps_and_then brackets_emit brackets_set brackets_silent
      simp: zero_revent_def emit_snd bracket_rel_def fun_eq_iff)

lemma brackets_message_start: "keeps_brackets (anthToResHandleMessageStart evt s) s"
  by (auto simp: keeps_brackets_def anthToResHandleMessageStart_def makeResponsesCreatedEvent_def
      bracket_rel_def bracket_client_def zero_revent_def Let_def split: option.split)

lemma brackets_block_start: "keeps_brackets (anthToResHandleContentBlockStart E evt s) s"
  by (auto simp: anthToResHandleContentBlockStart_def split: option.split intro!: keeps_and_then brackets)

lemma brackets_block_delta: "keeps_brackets (anthToResHandleContentBlockDelta evt s) s"
  by (auto simp: anthToResHandleContentBlockDelta_def zero_revent_def bracket_rel_def fun_eq_iff
      split: option.split prod.split intro!: brackets_emit brackets_set)

lemma brackets_block_stop: "keeps_brackets (anthToResHandleContentBlockStop E evt s) s"
  by (auto simp: anthToResHandleContentBlockStop_def zero_revent_def
      intro!: keeps_and_then brackets brackets_emit)

lemma brackets_message_delta: "keeps_brackets (anthToResHandleMessageDelta evt s) s"
  by (auto simp: anthToResHandleMessageDelta_def bracket_rel_def fun_eq_iff Let_def
      split: option.split intro!: brackets_set)

lemma brackets_completed:
  "ar_CurrentItemType s = [] \<Longrightarrow> \<not> ar_CompletedSent s \<Longrightarrow>
   keeps_brackets (case makeResponsesCompletedEvent s status details of (ev, s') \<Rightarrow> ([ev], s'\<lparr>ar_CompletedSent := True\<rparr>)) s"
  by (simp add: keeps_brackets_def bracket_rel_def bracket_client_def makeResponsesCompletedEvent_def
      zero_revent_def Let_def)

lemma brackets_terminate: "\<not> ar_CompletedSent s \<Longrightarrow> keeps_brackets (terminate E s) s"
  by (auto simp: terminate_def anthropicResponsesStreamTerminalState_def
      intro!: keeps_and_then brackets_close brackets_completed)

lemma brackets_event: "keeps_brackets (AnthropicEventToResponsesEvents E evt s) s"
  by (simp add: AnthropicEventToResponsesEvents_def anthToResHandleMessageStop_def brackets_silent
      brackets_message_start brackets_block_start brackets_block_delta brackets_block_stop
      brackets_message_delta brackets_terminate)

lemma brackets_finalize: "keeps_brackets (FinalizeAnthropicResponsesStream E s) s"
  by (simp add: FinalizeAnthropicResponsesStream_def brackets_silent brackets_terminate)

interpretation bracket_stream: stream_converter "AnthropicEventToResponsesEvents E"
    "admit_all :: unit \<Rightarrow> AnthropicStreamEvent \<Rightarrow> unit option" bracket_client bracket_rel
  for E
proof
  fix p s c e p'
  assume "bracket_rel p s c"
  then show "\<exists>c'. feed bracket_client c (fst (AnthropicEventToResponsesEvents E e s)) = Some c' \<and>
      bracket_rel p' (snd (AnthropicEventToResponsesEvents E e s)) c'"
    using brackets_event [of E e s] unfolding keeps_brackets_def by simp
qed

text \<open>
  Property C15. For every sequence of upstream events, well formed or not, the converted stream is
  properly bracketed: sequence numbers count 0, 1, 2 and so on, response.created comes at most once,
  items are opened one at a time with consecutive output indices and closed under the same ID and
  type before the next opens, and there is at most one terminal event, which comes when no item is
  open and lists exactly the items closed so far. The same holds after finalizing a stream that broke
  off.
\<close>

theorem a2r_stream_bracketed:
  shows "(\<exists>c. feed bracket_client bracket_start
        (fst (convert_stream (AnthropicEventToResponsesEvents E) evts (NewAnthropicEventToResponsesState E))) = Some c) \<and>
    (\<exists>c. feed bracket_client bracket_start
        (fst (and_then (convert_stream (AnthropicEventToResponsesEvents E) evts (NewAnthropicEventToResponsesState E))
               (FinalizeAnthropicResponsesStream E))) = Some c)"
proof -
  let ?r = "convert_stream (AnthropicEventToResponsesEvents E) evts (NewAnthropicEventToResponsesState E)"
  have start: "bracket_rel () (NewAnthropicEventToResponsesState E) bracket_start"
    by (simp add: bracket_rel_def NewAnthropicEventToResponsesState_def bracket_start_def)
  from bracket_stream.stream_rel [OF start feed_admit_all, of E evts] obtain c where
    c: "feed bracket_client bracket_start (fst ?r) = Some c" "bracket_rel () (snd ?r) c" by blast
  from brackets_finalize [of E "snd ?r"] c obtain c' where
    "feed bracket_client c (fst (FinalizeAnthropicResponsesStream E (snd ?r))) = Some c'"
    unfolding keeps_brackets_def by blast
  with c(1) show ?thesis by (auto simp: and_then_def feed_append split: prod.splits)
qed

end
