(* ===== verification/Anthropic_Responses_SDK.thy ===== *)
theory Anthropic_Responses_SDK
  imports Anthropic_Responses_Client
begin

section \<open>The accumulating Responses client\<close>

text \<open>
  A client in the manner of the OpenAI SDK helper: it rebuilds every item from the deltas, refuses a
  delta for a part that was never added, and compares every done event with what it accumulated.
  On upstream streams of text, thinking and tool-use blocks that follow the Anthropic protocol it
  accepts the whole conversion; a block of another type after a text block makes it reject.
\<close>

subsection \<open>The client\<close>

record open_item =
  oi_ID :: string
  oi_Type :: string
  oi_Parts :: "string list"
  oi_Args :: string
  oi_Summary :: string

record sdk_state =
  sk_seq :: int
  sk_created :: bool
  sk_finished :: bool
  sk_open :: "open_item option"
  sk_items :: "ResponsesOutput list"

definition sdk_start :: sdk_state where
  "sdk_start = \<lparr>sk_seq = 0, sk_created = False, sk_finished = False, sk_open = None, sk_items = []\<rparr>"

text \<open>The finished item must be what the deltas added up to.\<close>

definition item_agrees :: "open_item \<Rightarrow> ResponsesOutput \<Rightarrow> bool" where
  "item_agrees oi it \<longleftrightarrow>
     ro_ID it = oi_ID oi \<and> ro_Type it = oi_Type oi \<and>
     ro_Content it = map text_part (oi_Parts oi) \<and>
     (oi_Type oi = ''function_call'' \<longrightarrow> ro_Arguments it = (if oi_Args oi = [] then ''{}'' else oi_Args oi)) \<and>
     ro_Summary it = (if oi_Summary oi = [] then [] else [summary_text (oi_Summary oi)])"

text \<open>Events about the open item.\<close>

definition sdk_item_event :: "open_item \<Rightarrow> ResponsesStreamEvent \<Rightarrow> open_item option" where
  "sdk_item_event oi ev =
     (let here = rv_ContentIndex ev + 1 = int (length (oi_Parts oi))
      in if rv_ItemID ev \<noteq> oi_ID oi then None
         else if rv_Type ev = ''response.content_part.added'' then
           (if oi_Type oi = ''message'' \<and> rv_ContentIndex ev = int (length (oi_Parts oi))
            then Some (oi\<lparr>oi_Parts := oi_Parts oi @ [[]]\<rparr>) else None)
         else if rv_Type ev = ''response.output_text.delta'' then
           (if oi_Type oi = ''message'' \<and> here
            then Some (oi\<lparr>oi_Parts := butlast (oi_Parts oi) @ [last (oi_Parts oi) @ rv_Delta ev]\<rparr>) else None)
         else if rv_Type ev = ''response.output_text.done'' then
           (if oi_Type oi = ''message'' \<and> here \<and> rv_Text ev = last (oi_Parts oi) then Some oi else None)
         else if rv_Type ev = ''response.content_part.done'' then
           (if oi_Type oi = ''message'' \<and> here \<and> rv_Part ev = Some (text_part (last (oi_Parts oi)))
            then Some oi else None)
         else if rv_Type ev = ''response.reasoning_summary_text.delta'' then
           (if oi_Type oi = ''reasoning'' then Some (oi\<lparr>oi_Summary := oi_Summary oi @ rv_Delta ev\<rparr>) else None)
         else if rv_Type ev = ''response.reasoning_summary_text.done'' then
           (if oi_Type oi = ''reasoning'' then Some oi else None)
         else if rv_Type ev = ''response.function_call_arguments.delta'' then
           (if oi_Type oi = ''function_call'' then Some (oi\<lparr>oi_Args := oi_Args oi @ rv_Delta ev\<rparr>) else None)
         else if rv_Type ev = ''response.function_call_arguments.done'' then
           (if oi_Type oi = ''function_call'' \<and> rv_Arguments ev = oi_Args oi then Some oi else None)
         else None)"

definition sdk_client :: "sdk_state \<Rightarrow> ResponsesStreamEvent \<Rightarrow> sdk_state option" where
  "sdk_client c ev =
     (if sk_finished c \<or> rv_SequenceNumber ev \<noteq> sk_seq c then None
      else (let c1 = c\<lparr>sk_seq := sk_seq c + 1\<rparr>;
                now = int (length (sk_items c))
            in if rv_Type ev = ''response.created'' then
                 (if sk_created c then None else Some (c1\<lparr>sk_created := True\<rparr>))
               else if \<not> sk_created c then None
               else if rv_Type ev = ''response.output_item.added'' then
                 (case (sk_open c, rv_Item ev) of
                    (None, Some it) \<Rightarrow>
                      (if rv_OutputIndex ev = now
                       then Some (c1\<lparr>sk_open := Some \<lparr>oi_ID = ro_ID it, oi_Type = ro_Type it, oi_Parts = [],
                                                        oi_Args = [], oi_Summary = []\<rparr>\<rparr>) else None)
                  | _ \<Rightarrow> None)
               else if rv_Type ev = ''response.output_item.done'' then
                 (case (sk_open c, rv_Item ev) of
                    (Some oi, Some it) \<Rightarrow>
                      (if rv_OutputIndex ev = now \<and> item_agrees oi it
                       then Some (c1\<lparr>sk_open := None, sk_items := sk_items c @ [it]\<rparr>) else None)
                  | _ \<Rightarrow> None)
               else if rv_Type ev \<in> {''response.completed'', ''response.incomplete''} then
                 (case (sk_open c, rv_Response ev) of
                    (None, Some r) \<Rightarrow>
                      (if rr_Output r = sk_items c then Some (c1\<lparr>sk_finished := True\<rparr>) else None)
                  | _ \<Rightarrow> None)
               else
                 (case sk_open c of
                    None \<Rightarrow> None
                  | Some oi \<Rightarrow>
                      (if rv_OutputIndex ev = now
                       then map_option (\<lambda>oi'. c1\<lparr>sk_open := Some oi'\<rparr>) (sdk_item_event oi ev) else None))))"

subsection \<open>The Anthropic protocol\<close>

text \<open>
  Message start, then content blocks one after another, each with deltas of its own kind, then
  message stop; message deltas between blocks, pings and unknown events anywhere.  This is the part
  of the Anthropic protocol the converter handles: blocks of other types (server_tool_use and
  web_search_tool_result among them) are left out, and so is a thinking block that starts with text
  already in it.
\<close>

datatype phase = Before | Idle | InText | InThinking | InTool | Ended

fun delta_fits :: "phase \<Rightarrow> string \<Rightarrow> bool" where
  "delta_fits InText ty = (ty \<notin> {''thinking_delta'', ''input_json_delta'', ''signature_delta''})"
| "delta_fits InThinking ty = (ty \<notin> {''text_delta'', ''input_json_delta''})"
| "delta_fits InTool ty = (ty \<notin> {''text_delta'', ''thinking_delta'', ''signature_delta''})"
| "delta_fits _ ty = False"

definition protocol :: "phase \<Rightarrow> AnthropicStreamEvent \<Rightarrow> phase option" where
  "protocol p ev =
     (if ae_Type ev = ''message_start'' then (if p = Before then Some Idle else None)
      else if ae_Type ev = ''content_block_start'' then
        (case ae_ContentBlock ev of
           None \<Rightarrow> None
         | Some b \<Rightarrow>
             (if p \<noteq> Idle then None
              else if cb_Type b = ''text'' then Some InText
              else if cb_Type b \<in> {''thinking'', ''redacted_thinking''} \<and> cb_Thinking b = [] then Some InThinking
              else if cb_Type b = ''tool_use'' then Some InTool
              else None))
      else if ae_Type ev = ''content_block_delta'' then
        (case ae_Delta ev of None \<Rightarrow> None | Some d \<Rightarrow> if delta_fits p (ad_Type d) then Some p else None)
      else if ae_Type ev = ''content_block_stop'' then
        (if p \<in> {InText, InThinking, InTool} then Some Idle else None)
      else if ae_Type ev = ''message_delta'' then (if p = Idle then Some Idle else None)
      else if ae_Type ev = ''message_stop'' then (if p = Idle then Some Ended else None)
      else Some p)"

subsection \<open>The relation\<close>

definition item_of :: "a2r_state \<Rightarrow> string list \<Rightarrow> string \<Rightarrow> string \<Rightarrow> open_item" where
  "item_of s parts args summary =
     \<lparr>oi_ID = ar_CurrentItemID s, oi_Type = ar_CurrentItemType s, oi_Parts = parts, oi_Args = args,
      oi_Summary = summary\<rparr>"

definition no_item :: "a2r_state \<Rightarrow> open_item option \<Rightarrow> bool" where
  "no_item s oi \<longleftrightarrow> oi = None \<and> ar_CurrentItemType s = [] \<and> ar_CurrentContent s = [] \<and>
     ar_CurrentArgs s = [] \<and> ar_ContentIndex s = 0"

definition message_item :: "a2r_state \<Rightarrow> open_item option \<Rightarrow> bool" where
  "message_item s oi \<longleftrightarrow> ar_CurrentItemType s = ''message'' \<and> ar_CurrentArgs s = [] \<and>
     ar_ContentIndex s = int (length (ar_CurrentContent s)) \<and>
     ar_CurrentContent s = map text_part (map cp_Text (ar_CurrentContent s)) \<and>
     oi = Some (item_of s (map cp_Text (ar_CurrentContent s)) [] [])"

definition text_item :: "a2r_state \<Rightarrow> open_item option \<Rightarrow> bool" where
  "text_item s oi \<longleftrightarrow> ar_CurrentItemType s = ''message'' \<and> ar_CurrentArgs s = [] \<and>
     ar_ContentIndex s = int (length (ar_CurrentContent s)) \<and>
     ar_CurrentContent s = map text_part (map cp_Text (ar_CurrentContent s)) \<and>
     oi = Some (item_of s (map cp_Text (ar_CurrentContent s) @ [ar_TextAccum s]) [] [])"

definition thinking_item :: "a2r_state \<Rightarrow> open_item option \<Rightarrow> bool" where
  "thinking_item s oi \<longleftrightarrow> ar_CurrentItemType s = ''reasoning'' \<and> ar_CurrentArgs s = [] \<and>
     ar_CurrentContent s = [] \<and> oi = Some (item_of s [] [] (ar_CurrentSummary s))"

definition tool_item :: "a2r_state \<Rightarrow> open_item option \<Rightarrow> bool" where
  "tool_item s oi \<longleftrightarrow> ar_CurrentItemType s = ''function_call'' \<and> ar_CurrentContent s = [] \<and>
     oi = Some (item_of s [] (ar_CurrentArgs s) [])"

fun phase_item :: "phase \<Rightarrow> a2r_state \<Rightarrow> open_item option \<Rightarrow> bool" where
  "phase_item Before s oi = no_item s oi"
| "phase_item Idle s oi = (no_item s oi \<or> message_item s oi)"
| "phase_item InText s oi = text_item s oi"
| "phase_item InThinking s oi = thinking_item s oi"
| "phase_item InTool s oi = tool_item s oi"
| "phase_item Ended s oi = no_item s oi"

lemma phase_item_eta:
  "phase_item InText = text_item" "phase_item InThinking = thinking_item" "phase_item InTool = tool_item"
  by (simp_all add: fun_eq_iff)

definition synced :: "bool \<Rightarrow> bool \<Rightarrow> a2r_state \<Rightarrow> sdk_state \<Rightarrow> bool" where
  "synced created finished s c \<longleftrightarrow>
     sk_seq c = ar_SequenceNumber s \<and> sk_created c = created \<and> ar_CreatedSent s = created \<and>
     sk_finished c = finished \<and> ar_CompletedSent s = finished \<and>
     sk_items c = ar_Outputs s \<and> ar_OutputIndex s = int (length (ar_Outputs s))"

definition sdk_rel :: "phase \<Rightarrow> a2r_state \<Rightarrow> sdk_state \<Rightarrow> bool" where
  "sdk_rel p s c \<longleftrightarrow> synced (p \<noteq> Before) (p = Ended) s c \<and> phase_item p s (sk_open c)"

text \<open>
  Hoare-style statements for the parts of a handler: from states where the item satisfies \<open>P\<close> the
  client takes the events and the item then satisfies \<open>Q\<close>.
\<close>

definition yields ::
    "(a2r_state \<Rightarrow> open_item option \<Rightarrow> bool) \<Rightarrow> (a2r_state \<Rightarrow> a2r_result) \<Rightarrow>
     (a2r_state \<Rightarrow> open_item option \<Rightarrow> bool) \<Rightarrow> bool"
where
  "yields P f Q \<longleftrightarrow> (\<forall>s c. synced True False s c \<longrightarrow> P s (sk_open c) \<longrightarrow>
     (\<exists>c'. feed sdk_client c (fst (f s)) = Some c' \<and> synced True False (snd (f s)) c' \<and> Q (snd (f s)) (sk_open c')))"

lemma yieldsD:
  assumes "yields P f Q" and "synced True False s c" and "P s (sk_open c)"
  obtains c' where "feed sdk_client c (fst (f s)) = Some c'" "synced True False (snd (f s)) c'"
    "Q (snd (f s)) (sk_open c')"
  using assms unfolding yields_def by blast

lemma yields_then:
  assumes "yields P f Q" and "yields Q g R"
  shows "yields P (\<lambda>s. and_then (f s) g) R"
  unfolding yields_def
proof (intro allI impI)
  fix s c assume 1: "synced True False s c" "P s (sk_open c)"
  obtain c1 where c1: "feed sdk_client c (fst (f s)) = Some c1" "synced True False (snd (f s)) c1"
    "Q (snd (f s)) (sk_open c1)" using assms(1) 1 by (rule yieldsD)
  obtain c2 where c2: "feed sdk_client c1 (fst (g (snd (f s)))) = Some c2"
    "synced True False (snd (g (snd (f s)))) c2" "R (snd (g (snd (f s)))) (sk_open c2)"
    using assms(2) c1(2,3) by (rule yieldsD)
  show "\<exists>c'. feed sdk_client c (fst (and_then (f s) g)) = Some c' \<and>
      synced True False (snd (and_then (f s) g)) c' \<and> R (snd (and_then (f s) g)) (sk_open c')"
    using c1(1) c2 by (auto simp: and_then_def feed_append split: prod.splits)
qed

lemma yields_weaken:
  "yields P f Q \<Longrightarrow> (\<And>s oi. P' s oi \<Longrightarrow> P s oi) \<Longrightarrow> (\<And>s oi. Q s oi \<Longrightarrow> Q' s oi) \<Longrightarrow> yields P' f Q'"
  unfolding yields_def by blast

lemma yields_if:
  "yields (\<lambda>s oi. P s oi \<and> b s) f Q \<Longrightarrow> yields (\<lambda>s oi. P s oi \<and> \<not> b s) g Q \<Longrightarrow>
   yields P (\<lambda>s. if b s then f s else g s) Q"
  unfolding yields_def by simp

lemma yields_cong: "yields P f Q \<Longrightarrow> (\<And>s oi. P s oi \<Longrightarrow> g s = f s) \<Longrightarrow> yields P g Q"
  unfolding yields_def by metis

lemma yields_silent:
  "(\<And>s oi. P s oi \<Longrightarrow> Q (f s) oi) \<Longrightarrow> (\<And>s c. synced True False s c \<Longrightarrow> synced True False (f s) c) \<Longrightarrow>
   yields P (\<lambda>s. ([], f s)) Q"
  unfolding yields_def by auto

text \<open>Emitting one event about the open item.\<close>

lemma yields_emit:
  assumes "\<And>s oi. P s (Some oi) \<Longrightarrow>
      \<exists>oi'. sdk_item_event oi ((tmpl s)\<lparr>rv_Type := ty, rv_SequenceNumber := ar_SequenceNumber s\<rparr>) = Some oi' \<and>
        Q ((upd s)\<lparr>ar_SequenceNumber := ar_SequenceNumber s + 1\<rparr>) (Some oi')"
    and "\<And>s. P s None \<Longrightarrow> False"
    and "\<And>s. rv_OutputIndex (tmpl s) = ar_OutputIndex s"
    and "ty \<notin> {''response.created'', ''response.output_item.added'', ''response.output_item.done'',
               ''response.completed'', ''response.incomplete''}"
    and "\<And>s. ar_SequenceNumber (upd s) = ar_SequenceNumber s \<and> ar_CreatedSent (upd s) = ar_CreatedSent s \<and>
      ar_CompletedSent (upd s) = ar_CompletedSent s \<and> ar_Outputs (upd s) = ar_Outputs s \<and>
      ar_OutputIndex (upd s) = ar_OutputIndex s"
  shows "yields P (\<lambda>s. emit (upd s) ty (tmpl s)) Q"
  unfolding yields_def
proof (intro allI impI)
  fix s c assume 1: "synced True False s c" "P s (sk_open c)"
  obtain oi where oi: "sk_open c = Some oi" using 1(2) assms(2) by (cases "sk_open c") auto
  with assms(1) [of s oi] 1(2) obtain oi' where
    oi': "sdk_item_event oi ((tmpl s)\<lparr>rv_Type := ty, rv_SequenceNumber := ar_SequenceNumber s\<rparr>) = Some oi'"
      "Q ((upd s)\<lparr>ar_SequenceNumber := ar_SequenceNumber s + 1\<rparr>) (Some oi')" by auto
  show "\<exists>c'. feed sdk_client c (fst (emit (upd s) ty (tmpl s))) = Some c' \<and>
      synced True False (snd (emit (upd s) ty (tmpl s))) c' \<and> Q (snd (emit (upd s) ty (tmpl s))) (sk_open c')"
    using 1(1) oi oi' assms(3,5) [of s] assms(4)
    by (simp add: emit_def makeResponsesEvent_def sdk_client_def synced_def Let_def)
qed

subsection \<open>The parts of the handlers\<close>

lemmas item_defs = no_item_def message_item_def text_item_def thinking_item_def tool_item_def item_of_def

definition closable :: "a2r_state \<Rightarrow> open_item option \<Rightarrow> bool" where
  "closable s oi \<longleftrightarrow> no_item s oi \<or> message_item s oi \<or> thinking_item s oi \<or> tool_item s oi"

lemma closing_agrees:
  "message_item s (Some oi) \<or> thinking_item s (Some oi) \<or> tool_item s (Some oi) \<Longrightarrow> item_agrees oi (closing_item E s)"
  by (auto simp: item_defs item_agrees_def closing_item_def zero_output_def Let_def)

lemma yields_close: "yields closable (closeCurrentResponsesItem E) no_item"
  unfolding yields_def
proof (intro allI impI)
  fix s c assume 1: "synced True False s c" "closable s (sk_open c)"
  show "\<exists>c'. feed sdk_client c (fst (closeCurrentResponsesItem E s)) = Some c' \<and>
      synced True False (snd (closeCurrentResponsesItem E s)) c' \<and>
      no_item (snd (closeCurrentResponsesItem E s)) (sk_open c')"
  proof (cases "ar_CurrentItemType s = []")
    case True
    with 1(2) have "no_item s (sk_open c)" by (auto simp: closable_def item_defs)
    with True 1(1) show ?thesis by (simp add: closeCurrentResponsesItem_def)
  next
    case False
    with 1(2) obtain oi where oi: "sk_open c = Some oi"
      "message_item s (Some oi) \<or> thinking_item s (Some oi) \<or> tool_item s (Some oi)"
      by (auto simp: closable_def item_defs)
    with closing_agrees have "item_agrees oi (closing_item E s)" by blast
    with False oi(1) 1(1) show ?thesis
      by (simp add: closeCurrentResponsesItem_def emit_def makeResponsesEvent_def reset_item_def Let_def
          sdk_client_def synced_def no_item_def zero_revent_def)
  qed
qed

lemma yields_open:
  "cb_Thinking b = [] \<Longrightarrow> yields no_item (open_reasoning E b) thinking_item"
  "yields no_item (open_message E) message_item"
  "yields no_item (open_function_call E b) tool_item"
  by (auto simp: yields_def item_defs open_reasoning_def open_message_def open_function_call_def emit_def
      makeResponsesEvent_def Let_def sdk_client_def synced_def zero_revent_def zero_output_def)

lemma yields_add_part: "yields message_item add_part text_item"
  unfolding add_part_def
proof (rule yields_then)
  show "yields message_item (\<lambda>s. emit s ''response.content_part.added''
      (zero_revent\<lparr>rv_OutputIndex := ar_OutputIndex s, rv_ContentIndex := ar_ContentIndex s,
         rv_ItemID := ar_CurrentItemID s, rv_Part := Some (text_part [])\<rparr>))
      (\<lambda>s oi. text_item (s\<lparr>ar_TextAccum := []\<rparr>) oi)"
    by (rule yields_emit) (auto simp: item_defs sdk_item_event_def zero_revent_def)
  show "yields (\<lambda>s oi. text_item (s\<lparr>ar_TextAccum := []\<rparr>) oi)
      (\<lambda>s. ([], s\<lparr>ar_TextAccum := [], ar_textAccumBuffer := None\<rparr>)) text_item"
    by (rule yields_silent) (auto simp: item_defs synced_def)
qed

lemma yields_text_done: "yields text_item text_done message_item"
proof -
  define upd :: "a2r_state \<Rightarrow> a2r_state" where "upd = (\<lambda>s. s\<lparr>ar_TextAccum := [], ar_textAccumBuffer := None,
      ar_CurrentContent := ar_CurrentContent s @ [text_part (ar_TextAccum s)],
      ar_ContentIndex := ar_ContentIndex s + 1\<rparr>)"
  have "yields text_item (\<lambda>s. and_then
      (emit (upd s) ''response.output_text.done''
         (zero_revent\<lparr>rv_OutputIndex := ar_OutputIndex s, rv_ContentIndex := ar_ContentIndex s,
            rv_ItemID := ar_CurrentItemID s, rv_Text := ar_TextAccum s\<rparr>))
      (\<lambda>s. emit s ''response.content_part.done''
         (zero_revent\<lparr>rv_OutputIndex := ar_OutputIndex s, rv_ContentIndex := ar_ContentIndex s - 1,
            rv_ItemID := ar_CurrentItemID s, rv_Part := Some (last (ar_CurrentContent s))\<rparr>))) message_item"
  proof (rule yields_then)
    let ?Q = "\<lambda>s oi. message_item s oi \<and> ar_CurrentContent s \<noteq> []"
    show "yields text_item (\<lambda>s. emit (upd s) ''response.output_text.done''
        (zero_revent\<lparr>rv_OutputIndex := ar_OutputIndex s, rv_ContentIndex := ar_ContentIndex s,
           rv_ItemID := ar_CurrentItemID s, rv_Text := ar_TextAccum s\<rparr>)) ?Q"
      by (rule yields_emit) (auto simp: item_defs sdk_item_event_def zero_revent_def text_part_def upd_def)
    show "yields ?Q (\<lambda>s. emit s ''response.content_part.done''
        (zero_revent\<lparr>rv_OutputIndex := ar_OutputIndex s, rv_ContentIndex := ar_ContentIndex s - 1,
           rv_ItemID := ar_CurrentItemID s, rv_Part := Some (last (ar_CurrentContent s))\<rparr>)) message_item"
    proof (rule yields_emit)
      fix s oi assume q: "?Q s (Some oi)"
      then have "ar_CurrentContent s = map (text_part \<circ> cp_Text) (ar_CurrentContent s)"
        by (simp add: message_item_def)
      from arg_cong [OF this, of last] q
      have "last (ar_CurrentContent s) = text_part (cp_Text (last (ar_CurrentContent s)))"
        by (simp add: last_map)
      with q show "\<exists>oi'. sdk_item_event oi ((zero_revent\<lparr>rv_OutputIndex := ar_OutputIndex s,
            rv_ContentIndex := ar_ContentIndex s - 1, rv_ItemID := ar_CurrentItemID s,
            rv_Part := Some (last (ar_CurrentContent s))\<rparr>)
            \<lparr>rv_Type := ''response.content_part.done'', rv_SequenceNumber := ar_SequenceNumber s\<rparr>) = Some oi' \<and>
          message_item (s\<lparr>ar_SequenceNumber := ar_SequenceNumber s + 1\<rparr>) (Some oi')"
        by (auto simp: item_defs sdk_item_event_def zero_revent_def last_map)
    qed (auto simp: item_defs zero_revent_def)
  qed
  then show ?thesis
    by (simp add: text_done_def [abs_def] upd_def Let_def and_then_def emit_def makeResponsesEvent_def)
qed

lemma yields_tool_stop: "yields tool_item (\<lambda>s. and_then (and_then (flush_pending s) arguments_done) (closeCurrentResponsesItem E)) no_item"
proof (intro yields_then)

  have "yields (\<lambda>s oi. tool_item s oi \<and> (ar_CurrentArgs s = [] \<and> ar_PendingToolInput s \<noteq> []))
      (\<lambda>s. emit (s\<lparr>ar_CurrentArgs := ar_PendingToolInput s, ar_currentArgsBuffer := None\<rparr>)
         ''response.function_call_arguments.delta''
         (zero_revent\<lparr>rv_OutputIndex := ar_OutputIndex s, rv_Delta := ar_PendingToolInput s,
            rv_ItemID := ar_CurrentItemID s, rv_CallID := ar_CurrentCallID s, rv_Name := ar_CurrentName s\<rparr>))
      tool_item"
    by (rule yields_emit) (auto simp: item_defs sdk_item_event_def zero_revent_def)
  moreover have "yields (\<lambda>s oi. tool_item s oi \<and> \<not> (ar_CurrentArgs s = [] \<and> ar_PendingToolInput s \<noteq> []))
      (\<lambda>s. ([], s)) tool_item"
    by (rule yields_silent) auto
  ultimately have "yields tool_item (\<lambda>s. if ar_CurrentArgs s = [] \<and> ar_PendingToolInput s \<noteq> []
      then emit (s\<lparr>ar_CurrentArgs := ar_PendingToolInput s, ar_currentArgsBuffer := None\<rparr>)
         ''response.function_call_arguments.delta''
         (zero_revent\<lparr>rv_OutputIndex := ar_OutputIndex s, rv_Delta := ar_PendingToolInput s,
            rv_ItemID := ar_CurrentItemID s, rv_CallID := ar_CurrentCallID s, rv_Name := ar_CurrentName s\<rparr>)
      else ([], s)) tool_item"
    by (rule yields_if)
  moreover have "yields tool_item (\<lambda>s. ([], s\<lparr>ar_PendingToolInput := []\<rparr>)) tool_item"
    by (rule yields_silent) (auto simp: item_defs synced_def)
  ultimately show "yields tool_item flush_pending tool_item"
    unfolding flush_pending_def [abs_def] by (rule yields_then)
  show "yields tool_item arguments_done tool_item"
    unfolding arguments_done_def [abs_def]
    by (rule yields_emit) (auto simp: item_defs sdk_item_event_def zero_revent_def)
  show "yields tool_item (closeCurrentResponsesItem E) no_item"
    by (rule yields_weaken [OF yields_close]) (auto simp: closable_def)
qed

lemma yields_thinking_stop: "yields thinking_item (\<lambda>s. and_then
    (emit s ''response.reasoning_summary_text.done''
       (zero_revent\<lparr>rv_OutputIndex := ar_OutputIndex s, rv_SummaryIndex := 0, rv_ItemID := ar_CurrentItemID s\<rparr>))
    (closeCurrentResponsesItem E)) no_item"
proof (rule yields_then)
  show "yields thinking_item (\<lambda>s. emit s ''response.reasoning_summary_text.done''
      (zero_revent\<lparr>rv_OutputIndex := ar_OutputIndex s, rv_SummaryIndex := 0, rv_ItemID := ar_CurrentItemID s\<rparr>))
      thinking_item"
    by (rule yields_emit) (auto simp: item_defs sdk_item_event_def zero_revent_def)
  show "yields thinking_item (closeCurrentResponsesItem E) no_item"
    by (rule yields_weaken [OF yields_close]) (auto simp: closable_def)
qed

subsection \<open>The handlers\<close>

lemma protocol_start:
  assumes r: "sdk_rel p s c" and p: "protocol p e = Some p'" and t: "ae_Type e = ''message_start''"
  shows "\<exists>c'. feed sdk_client c (fst (anthToResHandleMessageStart e s)) = Some c' \<and>
    sdk_rel p' (snd (anthToResHandleMessageStart e s)) c'"
proof -
  have "p = Before" "p' = Idle" using p t by (auto simp: protocol_def split: if_splits)
  with r show ?thesis
    by (auto simp: sdk_rel_def synced_def anthToResHandleMessageStart_def makeResponsesCreatedEvent_def
        sdk_client_def zero_revent_def no_item_def Let_def split: option.split)
qed

lemma yields_rel:
  assumes y: "yields P f Q" and r: "sdk_rel p s c" and p: "p \<notin> {Before, Ended}" "p' \<notin> {Before, Ended}"
    and P: "\<And>oi. phase_item p s oi \<Longrightarrow> P s oi" and Q: "\<And>s oi. Q s oi \<Longrightarrow> phase_item p' s oi"
  shows "\<exists>c'. feed sdk_client c (fst (f s)) = Some c' \<and> sdk_rel p' (snd (f s)) c'"
proof -
  have 1: "synced True False s c" "P s (sk_open c)" using r p(1) P by (auto simp: sdk_rel_def)
  obtain c' where "feed sdk_client c (fst (f s)) = Some c'" "synced True False (snd (f s)) c'"
    "Q (snd (f s)) (sk_open c')" using y 1 by (rule yieldsD)
  with p(2) Q show ?thesis by (auto simp: sdk_rel_def)
qed

lemma yields_block_start:
  assumes "protocol Idle e = Some p'" and "ae_Type e = ''content_block_start''"
  shows "p' \<in> {InText, InThinking, InTool} \<and>
    yields (phase_item Idle) (anthToResHandleContentBlockStart E e) (phase_item p')"
proof -
  obtain b where b: "ae_ContentBlock e = Some b" using assms by (auto simp: protocol_def split: option.splits)
  have idle: "yields (phase_item Idle) (closeCurrentResponsesItem E) no_item"
    by (rule yields_weaken [OF yields_close]) (auto simp: closable_def)
  consider (plain) "cb_Type b = ''text''" "p' = InText"
    | (think) "cb_Type b \<in> {''thinking'', ''redacted_thinking''}" "cb_Thinking b = []" "p' = InThinking"
    | (tool) "cb_Type b = ''tool_use''" "p' = InTool"
    using assms b by (auto simp: protocol_def split: if_splits)
  then show ?thesis
  proof cases
    case plain
    have "yields (\<lambda>s oi. phase_item Idle s oi \<and> ar_CurrentItemType s \<noteq> ''message'')
        (\<lambda>s. and_then (closeCurrentResponsesItem E s) (open_message E)) message_item"
      by (rule yields_then [OF yields_weaken [OF idle] yields_open(2)]) auto
    moreover have "yields (\<lambda>s oi. phase_item Idle s oi \<and> \<not> ar_CurrentItemType s \<noteq> ''message'') (\<lambda>s. ([], s)) message_item"
      by (rule yields_silent) (auto simp: item_defs)
    ultimately have "yields (phase_item Idle) (\<lambda>s. if ar_CurrentItemType s \<noteq> ''message''
        then and_then (closeCurrentResponsesItem E s) (open_message E) else ([], s)) message_item"
      by (rule yields_if)
    from yields_then [OF this yields_add_part] plain b show ?thesis
      by (simp add: phase_item_eta anthToResHandleContentBlockStart_def [abs_def])
  next
    case think
    from yields_then [OF idle yields_open(1) [OF think(2)]] think b show ?thesis
      by (auto simp: phase_item_eta anthToResHandleContentBlockStart_def [abs_def])
  next
    case tool
    from yields_then [OF idle yields_open(3)] tool b show ?thesis
      by (simp add: phase_item_eta anthToResHandleContentBlockStart_def [abs_def])
  qed
qed

lemma append_pair: "appendStreamString b cur d = (fst (appendStreamString b cur d), cur @ d)"
  by (metis appendStreamString_value prod.collapse)

lemma yields_delta:
  assumes "delta_fits p (ad_Type d)" and "ae_Delta e = Some d"
  shows "yields (phase_item p) (anthToResHandleContentBlockDelta e) (phase_item p)"
proof -
  have silent: "yields (phase_item p) (\<lambda>s. ([], s)) (phase_item p)" by (rule yields_silent) auto
  consider (plain) "p = InText" "ad_Type d = ''text_delta''" "ad_Text d \<noteq> []"
    | (think) "p = InThinking" "ad_Type d = ''thinking_delta''" "ad_Thinking d \<noteq> []"
    | (tool) "p = InTool" "ad_Type d = ''input_json_delta''" "ad_PartialJSON d \<noteq> []"
    | (sig) "p = InThinking" "ad_Type d = ''signature_delta''"
    | (none) "ad_Type d \<notin> {''text_delta'', ''thinking_delta'', ''input_json_delta'', ''signature_delta''} \<or>
        ad_Type d = ''text_delta'' \<and> ad_Text d = [] \<or> ad_Type d = ''thinking_delta'' \<and> ad_Thinking d = [] \<or>
        ad_Type d = ''input_json_delta'' \<and> ad_PartialJSON d = []"
    using assms(1) by (cases p) auto
  then show ?thesis
  proof cases
    case plain
    have "yields text_item (\<lambda>s. emit
        (s\<lparr>ar_textAccumBuffer := fst (appendStreamString (ar_textAccumBuffer s) (ar_TextAccum s) (ad_Text d)),
           ar_TextAccum := ar_TextAccum s @ ad_Text d\<rparr>) ''response.output_text.delta''
        (zero_revent\<lparr>rv_OutputIndex := ar_OutputIndex s, rv_ContentIndex := ar_ContentIndex s,
           rv_Delta := ad_Text d, rv_ItemID := ar_CurrentItemID s\<rparr>)) text_item"
      by (rule yields_emit) (auto simp: item_defs sdk_item_event_def zero_revent_def)
    with plain assms(2) show ?thesis
      by (simp add: phase_item_eta anthToResHandleContentBlockDelta_def [abs_def] case_prod_unfold)
  next
    case think
    have "yields thinking_item (\<lambda>s. emit
        (s\<lparr>ar_currentSummaryBuffer := fst (appendStreamString (ar_currentSummaryBuffer s) (ar_CurrentSummary s) (ad_Thinking d)),
           ar_CurrentSummary := ar_CurrentSummary s @ ad_Thinking d\<rparr>) ''response.reasoning_summary_text.delta''
        (zero_revent\<lparr>rv_OutputIndex := ar_OutputIndex s, rv_SummaryIndex := 0,
           rv_Delta := ad_Thinking d, rv_ItemID := ar_CurrentItemID s\<rparr>)) thinking_item"
      by (rule yields_emit) (auto simp: item_defs sdk_item_event_def zero_revent_def)
    with think assms(2) show ?thesis
      by (simp add: phase_item_eta anthToResHandleContentBlockDelta_def [abs_def] case_prod_unfold)
  next
    case tool
    have "yields tool_item (\<lambda>s. emit
        (s\<lparr>ar_PendingToolInput := [],
           ar_currentArgsBuffer := fst (appendStreamString (ar_currentArgsBuffer s) (ar_CurrentArgs s) (ad_PartialJSON d)),
           ar_CurrentArgs := ar_CurrentArgs s @ ad_PartialJSON d\<rparr>) ''response.function_call_arguments.delta''
        (zero_revent\<lparr>rv_OutputIndex := ar_OutputIndex s, rv_Delta := ad_PartialJSON d,
           rv_ItemID := ar_CurrentItemID s, rv_CallID := ar_CurrentCallID s, rv_Name := ar_CurrentName s\<rparr>)) tool_item"
      by (rule yields_emit) (auto simp: item_defs sdk_item_event_def zero_revent_def)
    with tool assms(2) show ?thesis
      by (simp add: phase_item_eta anthToResHandleContentBlockDelta_def [abs_def] case_prod_unfold)
  next
    case sig
    have "yields thinking_item (\<lambda>s. ([], if ar_PreserveThinkingSignatures s
        then s\<lparr>ar_currentSignatureBuffer := fst (appendStreamString (ar_currentSignatureBuffer s)
                 (cb_Signature (ar_CurrentThinking s)) (ad_Signature d)),
               ar_CurrentThinking := (ar_CurrentThinking s)\<lparr>cb_Signature := cb_Signature (ar_CurrentThinking s) @ ad_Signature d\<rparr>\<rparr>
        else s)) thinking_item"
      by (rule yields_silent) (auto simp: item_defs synced_def)
    then have "yields thinking_item (anthToResHandleContentBlockDelta e) thinking_item"
      by (rule yields_cong) (use sig assms(2) in \<open>simp add: anthToResHandleContentBlockDelta_def case_prod_unfold\<close>)
    with sig show ?thesis by (simp add: phase_item_eta)
  next
    case none
    then have "anthToResHandleContentBlockDelta e = (\<lambda>s. ([], s))"
      using assms(2) by (auto simp: anthToResHandleContentBlockDelta_def fun_eq_iff)
    with silent show ?thesis by simp
  qed
qed

lemma stop_handler:
  "text_item s oi \<Longrightarrow> anthToResHandleContentBlockStop E e s = text_done s"
  "thinking_item s oi \<Longrightarrow> anthToResHandleContentBlockStop E e s = and_then
    (emit s ''response.reasoning_summary_text.done''
       (zero_revent\<lparr>rv_OutputIndex := ar_OutputIndex s, rv_SummaryIndex := 0, rv_ItemID := ar_CurrentItemID s\<rparr>))
    (closeCurrentResponsesItem E)"
  "tool_item s oi \<Longrightarrow> anthToResHandleContentBlockStop E e s =
    and_then (and_then (flush_pending s) arguments_done) (closeCurrentResponsesItem E)"
  by (auto simp: anthToResHandleContentBlockStop_def item_defs)

lemma yields_block_stop:
  assumes "p \<in> {InText, InThinking, InTool}"
  shows "yields (phase_item p) (anthToResHandleContentBlockStop E e) (phase_item Idle)"
proof -
  have "yields text_item (anthToResHandleContentBlockStop E e) message_item"
    using yields_text_done by (rule yields_cong) (rule stop_handler)
  moreover have "yields thinking_item (anthToResHandleContentBlockStop E e) no_item"
    using yields_thinking_stop by (rule yields_cong) (rule stop_handler)
  moreover have "yields tool_item (anthToResHandleContentBlockStop E e) no_item"
    using yields_tool_stop by (rule yields_cong) (rule stop_handler)
  ultimately have *: "yields (phase_item p) (anthToResHandleContentBlockStop E e) message_item \<or>
      yields (phase_item p) (anthToResHandleContentBlockStop E e) no_item"
    using assms by (auto simp: phase_item_eta)
  then show ?thesis by (auto elim: yields_weaken)
qed

lemma yields_message_delta: "yields (phase_item Idle) (anthToResHandleMessageDelta e) (phase_item Idle)"
proof -
  have "yields (phase_item Idle) (\<lambda>s. ([], snd (anthToResHandleMessageDelta e s))) (phase_item Idle)"
    by (rule yields_silent)
      (auto simp: item_defs synced_def anthToResHandleMessageDelta_def Let_def split: option.split)
  then show ?thesis
    by (rule yields_cong) (simp add: anthToResHandleMessageDelta_def Let_def)
qed

lemma terminate_ok:
  assumes "synced True False s c" and "closable s (sk_open c)"
  shows "\<exists>c'. feed sdk_client c (fst (terminate E s)) = Some c' \<and> sdk_rel Ended (snd (terminate E s)) c'"
proof -
  obtain c1 where c1: "feed sdk_client c (fst (closeCurrentResponsesItem E s)) = Some c1"
    "synced True False (snd (closeCurrentResponsesItem E s)) c1"
    "no_item (snd (closeCurrentResponsesItem E s)) (sk_open c1)"
    using yields_close assms by (rule yieldsD)
  obtain evs s1 where cl: "closeCurrentResponsesItem E s = (evs, s1)" by force
  obtain st de where td: "anthropicResponsesStreamTerminalState (ar_StopReason s1) = (st, de)" by force
  show ?thesis using c1 cl td
    by (auto simp: terminate_def and_then_def feed_append makeResponsesCompletedEvent_def sdk_client_def
        synced_def no_item_def sdk_rel_def zero_revent_def Let_def)
qed

interpretation sdk_stream: stream_converter "AnthropicEventToResponsesEvents E" protocol sdk_client sdk_rel
  for E
proof
  fix p s c e p'
  assume r: "sdk_rel p s c" and p: "protocol p e = Some p'"
  let ?P = "\<exists>c'. feed sdk_client c (fst (AnthropicEventToResponsesEvents E e s)) = Some c' \<and>
      sdk_rel p' (snd (AnthropicEventToResponsesEvents E e s)) c'"
  consider "ae_Type e = ''message_start''" | "ae_Type e = ''content_block_start''"
    | "ae_Type e = ''content_block_delta''" | "ae_Type e = ''content_block_stop''"
    | "ae_Type e = ''message_delta''" | "ae_Type e = ''message_stop''"
    | "ae_Type e \<notin> {''message_start'', ''content_block_start'', ''content_block_delta'', ''content_block_stop'',
        ''message_delta'', ''message_stop''}" by blast
  then show ?P
  proof cases
    case 1
    with protocol_start [OF r p] show ?thesis by (simp add: AnthropicEventToResponsesEvents_def)
  next
    case 2
    then have "p = Idle" using p by (auto simp: protocol_def split: option.splits if_splits)
    with yields_block_start [of e p' E] p 2 have y: "p' \<in> {InText, InThinking, InTool}"
      "yields (phase_item Idle) (anthToResHandleContentBlockStart E e) (phase_item p')" by auto
    from yields_rel [OF y(2), of p s c p'] r y(1) \<open>p = Idle\<close> 2 show ?thesis
      by (auto simp: AnthropicEventToResponsesEvents_def)
  next
    case 3
    then obtain d where d: "ae_Delta e = Some d" "delta_fits p (ad_Type d)" "p' = p"
      using p by (auto simp: protocol_def split: option.splits if_splits)
    then have "p \<notin> {Before, Ended}" by (cases p) auto
    with yields_rel [OF yields_delta [OF d(2,1)], of p s c p] r d(3) 3 show ?thesis
      by (auto simp: AnthropicEventToResponsesEvents_def)
  next
    case 4
    then have "p \<in> {InText, InThinking, InTool}" "p' = Idle"
      using p by (auto simp: protocol_def split: if_splits)
    with yields_rel [OF yields_block_stop [of p E e], of p s c Idle] r 4 show ?thesis
      by (auto simp: AnthropicEventToResponsesEvents_def)
  next
    case 5
    then have "p = Idle" "p' = Idle" using p by (auto simp: protocol_def split: if_splits)
    with yields_rel [OF yields_message_delta [of e], of Idle s c Idle] r 5 show ?thesis
      by (auto simp: AnthropicEventToResponsesEvents_def)
  next
    case 6
    then have i: "p = Idle" "p' = Ended" using p by (auto simp: protocol_def split: if_splits)
    then have "synced True False s c" "closable s (sk_open c)" using r by (auto simp: sdk_rel_def closable_def)
    from terminate_ok [OF this, of E] i 6 r show ?thesis
      by (simp add: AnthropicEventToResponsesEvents_def anthToResHandleMessageStop_def sdk_rel_def synced_def)
  next
    case 7
    then have "p' = p" using p by (simp add: protocol_def)
    with 7 r show ?thesis by (simp add: AnthropicEventToResponsesEvents_def)
  qed
qed

subsection \<open>The whole stream\<close>

lemma sdk_rel_start: "sdk_rel Before (NewAnthropicEventToResponsesState E) sdk_start"
  by (simp add: sdk_rel_def synced_def no_item_def NewAnthropicEventToResponsesState_def sdk_start_def)

lemma protocol_run:
  assumes "feed protocol Before evts = Some p"
  obtains c where
    "feed sdk_client sdk_start
       (fst (convert_stream (AnthropicEventToResponsesEvents E) evts (NewAnthropicEventToResponsesState E))) = Some c"
    "sdk_rel p (snd (convert_stream (AnthropicEventToResponsesEvents E) evts (NewAnthropicEventToResponsesState E))) c"
  using sdk_stream.stream_rel [OF sdk_rel_start assms] by blast

lemma feed_and_then:
  "feed f c (fst (and_then r g)) = (case feed f c (fst r) of None \<Rightarrow> None | Some c' \<Rightarrow> feed f c' (fst (g (snd r))))"
  by (cases r; cases "g (snd r)") (simp add: and_then_def feed_append split: option.split)

text \<open>A stream with a thinking block, two text blocks and a tool call.\<close>

definition sample_block :: "string \<Rightarrow> AnthropicStreamEvent" where
  "sample_block ty = zero_aevent\<lparr>ae_Type := ''content_block_start'',
     ae_ContentBlock := Some (zero_block\<lparr>cb_Type := ty\<rparr>)\<rparr>"

definition sample_delta :: "AnthropicDelta \<Rightarrow> AnthropicStreamEvent" where
  "sample_delta d = zero_aevent\<lparr>ae_Type := ''content_block_delta'', ae_Delta := Some d\<rparr>"

definition sample_stop :: AnthropicStreamEvent where
  "sample_stop = zero_aevent\<lparr>ae_Type := ''content_block_stop''\<rparr>"

definition sample_stream :: "AnthropicStreamEvent list" where
  "sample_stream =
     [zero_aevent\<lparr>ae_Type := ''message_start''\<rparr>,
      sample_block ''thinking'', sample_delta (zero_delta\<lparr>ad_Type := ''thinking_delta'', ad_Thinking := ''hm''\<rparr>), sample_stop,
      sample_block ''text'', sample_delta (zero_delta\<lparr>ad_Type := ''text_delta'', ad_Text := ''Hel''\<rparr>),
      sample_delta (zero_delta\<lparr>ad_Type := ''text_delta'', ad_Text := ''lo''\<rparr>), sample_stop,
      sample_block ''text'', sample_delta (zero_delta\<lparr>ad_Type := ''text_delta'', ad_Text := ''!''\<rparr>), sample_stop,
      sample_block ''tool_use'', sample_delta (zero_delta\<lparr>ad_Type := ''input_json_delta'', ad_PartialJSON := ''{}''\<rparr>), sample_stop]"

definition sample_env :: bridge_env where
  "sample_env = \<lparr>env_itemID = (\<lambda>n. replicate (Suc n) CHR ''i''), env_responseID = ''resp_0'', env_now = 0,
                 env_encodeThinking = cb_Signature\<rparr>"

lemmas sample_defs = sample_block_def sample_delta_def sample_stop_def sample_stream_def zero_aevent_def
  zero_block_def zero_delta_def

text \<open>
  A stream that breaks off is finished properly wherever no text block is open: after
  finalizing between blocks, inside a thinking block or inside a tool call, the accumulating client
  has accepted every event, has seen the terminal event and has no item left open.
\<close>

theorem a2r_finalize_completes:
  assumes "feed protocol Before evts = Some p" and "p \<in> {Idle, InThinking, InTool}"
  shows "\<exists>c. feed sdk_client sdk_start
      (fst (and_then (convert_stream (AnthropicEventToResponsesEvents E) evts (NewAnthropicEventToResponsesState E))
             (FinalizeAnthropicResponsesStream E))) = Some c \<and>
    sk_finished c \<and> sk_open c = None"
proof -
  let ?r = "convert_stream (AnthropicEventToResponsesEvents E) evts (NewAnthropicEventToResponsesState E)"
  obtain c where c: "feed sdk_client sdk_start (fst ?r) = Some c" "sdk_rel p (snd ?r) c"
    by (rule protocol_run [OF assms(1)])
  then have s: "synced True False (snd ?r) c" "closable (snd ?r) (sk_open c)"
    using assms(2) by (auto simp: sdk_rel_def closable_def)
  from terminate_ok [OF this, of E] c(1) s(1) show ?thesis
    by (auto simp: feed_and_then FinalizeAnthropicResponsesStream_def synced_def sdk_rel_def no_item_def)
qed

theorem a2r_finalize_completes_witness:
  "\<exists>c. feed sdk_client sdk_start
      (fst (and_then (convert_stream (AnthropicEventToResponsesEvents sample_env) sample_stream (NewAnthropicEventToResponsesState sample_env))
             (FinalizeAnthropicResponsesStream sample_env))) = Some c \<and>
    sk_finished c \<and> sk_open c = None"
  by (rule a2r_finalize_completes [of _ Idle]) (simp_all add: sample_defs protocol_def)

text \<open>
  A stream that breaks off inside a text block is not finished properly: the item that
  finalizing closes lacks the part that was being streamed, so the accumulating client, which wants a
  finished item to carry every part it was sent, rejects the finalized stream.
\<close>

theorem a2r_finalize_drops_open_text:
  assumes "feed protocol Before evts = Some InText"
  shows "feed sdk_client sdk_start
      (fst (and_then (convert_stream (AnthropicEventToResponsesEvents E) evts (NewAnthropicEventToResponsesState E))
             (FinalizeAnthropicResponsesStream E))) = None"
proof -
  let ?r = "convert_stream (AnthropicEventToResponsesEvents E) evts (NewAnthropicEventToResponsesState E)"
  obtain c where c: "feed sdk_client sdk_start (fst ?r) = Some c" "sdk_rel InText (snd ?r) c"
    by (rule protocol_run [OF assms])
  obtain s where s: "snd ?r = s" by simp
  have t: "text_item s (sk_open c)" "synced True False s c" using c(2) s by (auto simp: sdk_rel_def)
  then obtain oi where oi: "sk_open c = Some oi" "length (oi_Parts oi) = Suc (length (ar_CurrentContent s))"
    by (auto simp: text_item_def item_of_def)
  have "ro_Content (closing_item E s) = ar_CurrentContent s"
    using t(1) by (simp add: closing_item_def text_item_def Let_def)
  with oi(2) have "length (ro_Content (closing_item E s)) \<noteq> length (map text_part (oi_Parts oi))" by simp
  then have "\<not> item_agrees oi (closing_item E s)" by (auto simp: item_agrees_def)
  with oi(1) t have "feed sdk_client c (fst (closeCurrentResponsesItem E s)) = None"
    by (simp add: closeCurrentResponsesItem_def emit_def makeResponsesEvent_def Let_def sdk_client_def
        zero_revent_def text_item_def)
  with c(1) s t(2) show ?thesis
    by (simp add: feed_and_then FinalizeAnthropicResponsesStream_def synced_def terminate_def)
qed

theorem a2r_finalize_drops_open_text_witness:
  "feed sdk_client sdk_start
      (fst (and_then (convert_stream (AnthropicEventToResponsesEvents sample_env)
                       (sample_stream @ [sample_block ''text'', sample_delta (zero_delta\<lparr>ad_Type := ''text_delta'', ad_Text := ''lost''\<rparr>)])
                       (NewAnthropicEventToResponsesState sample_env))
             (FinalizeAnthropicResponsesStream sample_env))) = None"
  by (rule a2r_finalize_drops_open_text) (simp add: sample_defs protocol_def)

text \<open>
  A content block of a type the converter does not know, such as server_tool_use, that
  follows a text block breaks the stream: its start is ignored, but its stop is taken for the stop of
  a text part, which was never added, so the accumulating client rejects the events.
\<close>

theorem a2r_unknown_block_breaks_message:
  assumes "feed protocol Before evts = Some Idle"
    and "ar_CurrentItemType (snd (convert_stream (AnthropicEventToResponsesEvents E) evts (NewAnthropicEventToResponsesState E))) = ''message''"
    and "cb_Type b \<notin> {''text'', ''thinking'', ''redacted_thinking'', ''tool_use''}"
  shows "feed sdk_client sdk_start (fst (convert_stream (AnthropicEventToResponsesEvents E)
      (evts @ [zero_aevent\<lparr>ae_Type := ''content_block_start'', ae_ContentBlock := Some b\<rparr>,
               zero_aevent\<lparr>ae_Type := ''content_block_stop''\<rparr>]) (NewAnthropicEventToResponsesState E))) = None"
proof -
  have split: "convert_stream f (xs @ ys) s = (case convert_stream f xs s of (o1, s1) \<Rightarrow>
      (case convert_stream f ys s1 of (o2, s2) \<Rightarrow> (o1 @ o2, s2)))"
    for f :: "AnthropicStreamEvent \<Rightarrow> a2r_state \<Rightarrow> a2r_result" and xs ys s
    by (induction xs arbitrary: s) (auto split: prod.splits)
  obtain out s where r: "convert_stream (AnthropicEventToResponsesEvents E) evts (NewAnthropicEventToResponsesState E) = (out, s)"
    by force
  obtain c where c: "feed sdk_client sdk_start out = Some c" "sdk_rel Idle s c"
    using protocol_run [OF assms(1), of E thesis] r by auto
  have m: "message_item s (sk_open c)" "synced True False s c" "ar_CurrentItemType s = ''message''"
    using c(2) assms(2) r by (auto simp: sdk_rel_def no_item_def)
  then have "feed sdk_client c (fst (text_done s)) = None"
    by (auto simp: text_done_def and_then_def emit_def makeResponsesEvent_def Let_def sdk_client_def
        sdk_item_event_def zero_revent_def message_item_def item_of_def)
  with c(1) r m(3) assms(3) show ?thesis
    by (auto simp: split AnthropicEventToResponsesEvents_def anthToResHandleContentBlockStart_def
        anthToResHandleContentBlockStop_def zero_aevent_def feed_append split: prod.splits)
qed

theorem a2r_unknown_block_breaks_message_witness:
  "feed sdk_client sdk_start (fst (convert_stream (AnthropicEventToResponsesEvents sample_env)
      ([zero_aevent\<lparr>ae_Type := ''message_start''\<rparr>, sample_block ''text'', sample_stop] @
       [zero_aevent\<lparr>ae_Type := ''content_block_start'', ae_ContentBlock := Some (zero_block\<lparr>cb_Type := ''server_tool_use''\<rparr>)\<rparr>,
        zero_aevent\<lparr>ae_Type := ''content_block_stop''\<rparr>]) (NewAnthropicEventToResponsesState sample_env))) = None"
proof (rule a2r_unknown_block_breaks_message)
  show "feed protocol Before [zero_aevent\<lparr>ae_Type := ''message_start''\<rparr>, sample_block ''text'', sample_stop] = Some Idle"
    by (simp add: sample_defs protocol_def)
  show "ar_CurrentItemType (snd (convert_stream (AnthropicEventToResponsesEvents sample_env)
      [zero_aevent\<lparr>ae_Type := ''message_start''\<rparr>, sample_block ''text'', sample_stop]
      (NewAnthropicEventToResponsesState sample_env))) = ''message''"
    by code_simp
qed (simp add: zero_block_def)

text \<open>
  Property C18. Take an upstream stream that follows the Anthropic protocol and has only blocks of the
  types text, tool_use, redacted_thinking, and thinking that starts without text. When it runs to its
  end, the accumulating client accepts every converted event: each delta falls on a part or item that
  was announced, every done event repeats exactly what the deltas added up to, the terminal event
  comes once and last, and its output list is the list of items the client rebuilt. The other block
  types of the protocol, such as server_tool_use and web_search_tool_result, are not converted: when
  such a block follows a text block, the client rejects the stream at its end.
\<close>

theorem a2r_protocol_stream:
  "(feed protocol Before evts = Some Ended \<longrightarrow>
     (\<exists>c. feed sdk_client sdk_start
         (fst (convert_stream (AnthropicEventToResponsesEvents E) evts (NewAnthropicEventToResponsesState E))) = Some c \<and>
       sk_finished c \<and> sk_open c = None \<and>
       sk_items c = ar_Outputs (snd (convert_stream (AnthropicEventToResponsesEvents E) evts (NewAnthropicEventToResponsesState E))))) \<and>
   (feed protocol Before evts = Some Idle \<and>
    ar_CurrentItemType (snd (convert_stream (AnthropicEventToResponsesEvents E) evts (NewAnthropicEventToResponsesState E))) = ''message'' \<and>
    cb_Type b \<notin> {''text'', ''thinking'', ''redacted_thinking'', ''tool_use''} \<longrightarrow>
     feed sdk_client sdk_start (fst (convert_stream (AnthropicEventToResponsesEvents E)
       (evts @ [zero_aevent\<lparr>ae_Type := ''content_block_start'', ae_ContentBlock := Some b\<rparr>,
                zero_aevent\<lparr>ae_Type := ''content_block_stop''\<rparr>]) (NewAnthropicEventToResponsesState E))) = None)"
proof (intro conjI impI)
  assume "feed protocol Before evts = Some Ended"
  from protocol_run [OF this, of E] show "\<exists>c. feed sdk_client sdk_start
       (fst (convert_stream (AnthropicEventToResponsesEvents E) evts (NewAnthropicEventToResponsesState E))) = Some c \<and>
     sk_finished c \<and> sk_open c = None \<and>
     sk_items c = ar_Outputs (snd (convert_stream (AnthropicEventToResponsesEvents E) evts (NewAnthropicEventToResponsesState E)))"
    by (auto simp: sdk_rel_def synced_def no_item_def)
qed (elim conjE, rule a2r_unknown_block_breaks_message)

theorem a2r_protocol_stream_witness:
  "\<exists>c. feed sdk_client sdk_start
      (fst (convert_stream (AnthropicEventToResponsesEvents sample_env)
        (sample_stream @ [zero_aevent\<lparr>ae_Type := ''message_stop''\<rparr>]) (NewAnthropicEventToResponsesState sample_env))) = Some c \<and>
    sk_finished c \<and> sk_open c = None \<and>
    sk_items c = ar_Outputs (snd (convert_stream (AnthropicEventToResponsesEvents sample_env)
        (sample_stream @ [zero_aevent\<lparr>ae_Type := ''message_stop''\<rparr>]) (NewAnthropicEventToResponsesState sample_env)))"
  by (rule a2r_protocol_stream [THEN conjunct1, THEN mp]) (simp add: sample_defs protocol_def)

end
