(* ===== verification/Responses_Anthropic.thy ===== *)
theory Responses_Anthropic
  imports Compat_Types
begin

section \<open>Responses events to Anthropic events\<close>

text \<open>
  Models \<open>pkg/apicompat/responses_to_anthropic.go\<close>: the conversion of a whole Responses response and
  the stateful conversion of its event stream.  The record \<open>json_env\<close> is what the code takes from
  \<open>encoding/json\<close>: validity of a text, reading an object into its members, and writing one back.
\<close>

record json_env =
  js_valid :: "string \<Rightarrow> bool"
  js_unmarshal :: "string \<Rightarrow> (string, string) fmap option"
  js_marshal :: "(string, string) fmap \<Rightarrow> string option"
  js_query :: "string \<Rightarrow> string"

subsection \<open>Whole responses\<close>

definition anthropic_usage :: "int \<Rightarrow> int \<Rightarrow> int \<Rightarrow> int \<Rightarrow> AnthropicUsage" where
  "anthropic_usage inp out cacheRead cacheCreation =
     zero_ausage\<lparr>au_InputTokens := inp, au_OutputTokens := out, au_CacheReadInputTokens := cacheRead,
                 au_CacheCreationInputTokens := cacheCreation\<rparr>"

definition anthropicUsageFromResponsesUsage :: "ResponsesUsage option \<Rightarrow> AnthropicUsage" where
  "anthropicUsageFromResponsesUsage usage =
     (case usage of
        None \<Rightarrow> zero_ausage
      | Some u \<Rightarrow>
          (let cachedTokens = (case ru_InputTokensDetails u of None \<Rightarrow> 0 | Some d \<Rightarrow> it_CachedTokens d);
               inputTokens = ru_InputTokens u - cachedTokens - ru_CacheCreationInputTokens u;
               inputTokens = (if inputTokens < 0 then 0 else inputTokens)
           in anthropic_usage inputTokens (ru_OutputTokens u) cachedTokens (ru_CacheCreationInputTokens u)))"

fun containsAnthropicToolUseBlock :: "AnthropicContentBlock list \<Rightarrow> bool" where
  "containsAnthropicToolUseBlock [] = False"
| "containsAnthropicToolUseBlock (b # bs) = (if cb_Type b = ''tool_use'' then True else containsAnthropicToolUseBlock bs)"

definition responsesStatusToAnthropicStopReason ::
    "string \<Rightarrow> string option \<Rightarrow> AnthropicContentBlock list \<Rightarrow> string" where
  "responsesStatusToAnthropicStopReason status details blocks =
     (if status = ''incomplete'' then
        (if details = Some ''max_output_tokens'' then ''max_tokens'' else ''end_turn'')
      else if status = ''completed'' then
        (if containsAnthropicToolUseBlock blocks then ''tool_use'' else ''end_turn'')
      else ''end_turn'')"

text \<open>The Read tool of Claude Code refuses an empty \<open>pages\<close> argument; it is taken out.\<close>

definition sanitizeAnthropicToolUseInput :: "json_env \<Rightarrow> string \<Rightarrow> string \<Rightarrow> string" where
  "sanitizeAnthropicToolUseInput J name raw =
     (if name \<noteq> ''Read'' \<or> raw = [] then raw
      else case js_unmarshal J raw of
             None \<Rightarrow> raw
           | Some input \<Rightarrow>
               (if fmlookup input ''pages'' \<noteq> Some [CHR 0x22, CHR 0x22] then raw
                else case js_marshal J (fmdrop ''pages'' input) of None \<Rightarrow> raw | Some sanitized \<Rightarrow> sanitized))"

definition item_blocks :: "json_env \<Rightarrow> ResponsesOutput \<Rightarrow> AnthropicContentBlock list" where
  "item_blocks J item =
     (if ro_Type item = ''reasoning'' then
        (let reasoningText = responsesReasoningText item
         in if reasoningText \<noteq> [] \<or> trim_space (ro_EncryptedContent item) \<noteq> []
            then [zero_block\<lparr>cb_Type := ''thinking'', cb_Thinking := reasoningText,
                             cb_Signature := ro_EncryptedContent item\<rparr>]
            else [])
      else if ro_Type item = ''message'' then
        map (\<lambda>part. zero_block\<lparr>cb_Type := ''text'', cb_Text := cp_Text part\<rparr>)
          (filter (\<lambda>part. cp_Type part = ''output_text'' \<and> cp_Text part \<noteq> []) (ro_Content item))
      else if ro_Type item = ''function_call'' then
        [zero_block\<lparr>cb_Type := ''tool_use'', cb_ID := fromResponsesCallID (ro_CallID item),
                    cb_Name := ro_Name item,
                    cb_Input := sanitizeAnthropicToolUseInput J (ro_Name item) (ro_Arguments item)\<rparr>]
      else if ro_Type item = ''web_search_call'' then
        (let toolUseID = ''srvtoolu_'' @ ro_ID item;
             query = (case ro_Action item of None \<Rightarrow> [] | Some a \<Rightarrow> wa_Query a)
         in [zero_block\<lparr>cb_Type := ''server_tool_use'', cb_ID := toolUseID, cb_Name := ''web_search'',
                        cb_Input := js_query J query\<rparr>,
             zero_block\<lparr>cb_Type := ''web_search_tool_result'', cb_ToolUseID := toolUseID,
                        cb_Content := ''[]''\<rparr>])
      else [])"

definition ResponsesToAnthropic :: "json_env \<Rightarrow> ResponsesResponse \<Rightarrow> string \<Rightarrow> AnthropicResponse" where
  "ResponsesToAnthropic J resp model =
     (let blocks0 = concat (map (item_blocks J) (rr_Output resp));
          blocks = (if blocks0 = [] then [zero_block\<lparr>cb_Type := ''text'', cb_Text := []\<rparr>] else blocks0)
      in \<lparr>am_ID = rr_ID resp, am_Type = ''message'', am_Role = ''assistant'', am_Content = blocks,
          am_Model = model,
          am_StopReason = Some (responsesStatusToAnthropicStopReason (rr_Status resp)
                                  (rr_IncompleteDetails resp) blocks),
          am_StopSequence = None,
          am_Usage = (case rr_Usage resp of None \<Rightarrow> zero_ausage
                                          | Some u \<Rightarrow> anthropicUsageFromResponsesUsage (Some u))\<rparr>)"

subsection \<open>The stream state\<close>

type_synonym responsesTextPart = "int \<times> int"

record r2a_state =
  ra_MessageStartSent :: bool
  ra_MessageStopSent :: bool
  ra_ContentBlockIndex :: int
  ra_ContentBlockOpen :: bool
  ra_CurrentBlockType :: string
  ra_CurrentToolName :: string
  ra_CurrentToolArgs :: string
  ra_CurrentToolHadDelta :: bool
  ra_currentToolArgsBuffer :: "string option"
  ra_currentToolArgsValidation :: "streamStringBytes option"
  ra_PendingThinkingSignature :: string
  ra_HasToolCall :: bool
  ra_OutputIndexToBlockIdx :: "(int, int) fmap"
  ra_textByPart :: "(responsesTextPart, string) fmap"
  ra_textDelivered :: bool
  ra_InputTokens :: int
  ra_OutputTokens :: int
  ra_CacheReadInputTokens :: int
  ra_CacheCreationInputTokens :: int
  ra_ResponseID :: string
  ra_Model :: string
  ra_Created :: int

definition NewResponsesEventToAnthropicState :: "int \<Rightarrow> r2a_state" where
  "NewResponsesEventToAnthropicState now =
     \<lparr>ra_MessageStartSent = False, ra_MessageStopSent = False, ra_ContentBlockIndex = 0,
      ra_ContentBlockOpen = False, ra_CurrentBlockType = [], ra_CurrentToolName = [],
      ra_CurrentToolArgs = [], ra_CurrentToolHadDelta = False, ra_currentToolArgsBuffer = None,
      ra_currentToolArgsValidation = None, ra_PendingThinkingSignature = [], ra_HasToolCall = False,
      ra_OutputIndexToBlockIdx = fmempty, ra_textByPart = fmempty, ra_textDelivered = False,
      ra_InputTokens = 0, ra_OutputTokens = 0, ra_CacheReadInputTokens = 0,
      ra_CacheCreationInputTokens = 0, ra_ResponseID = [], ra_Model = [], ra_Created = now\<rparr>"

type_synonym r2a_result = "AnthropicStreamEvent list \<times> r2a_state"

definition r2a_then :: "r2a_result \<Rightarrow> (r2a_state \<Rightarrow> r2a_result) \<Rightarrow> r2a_result" where
  "r2a_then r f = (case r of (evs, s) \<Rightarrow> (case f s of (evs', s') \<Rightarrow> (evs @ evs', s')))"

subsection \<open>Events\<close>

definition block_start :: "int \<Rightarrow> AnthropicContentBlock \<Rightarrow> AnthropicStreamEvent" where
  "block_start idx b = zero_aevent\<lparr>ae_Type := ''content_block_start'', ae_Index := Some idx, ae_ContentBlock := Some b\<rparr>"

definition block_delta :: "int \<Rightarrow> AnthropicDelta \<Rightarrow> AnthropicStreamEvent" where
  "block_delta idx d = zero_aevent\<lparr>ae_Type := ''content_block_delta'', ae_Index := Some idx, ae_Delta := Some d\<rparr>"

definition block_stop :: "int \<Rightarrow> AnthropicStreamEvent" where
  "block_stop idx = zero_aevent\<lparr>ae_Type := ''content_block_stop'', ae_Index := Some idx\<rparr>"

definition final_events :: "string \<Rightarrow> r2a_state \<Rightarrow> AnthropicStreamEvent list" where
  "final_events stopReason s =
     [zero_aevent\<lparr>ae_Type := ''message_delta'', ae_Delta := Some (zero_delta\<lparr>ad_StopReason := stopReason\<rparr>),
        ae_Usage := Some (anthropic_usage (ra_InputTokens s) (ra_OutputTokens s)
                            (ra_CacheReadInputTokens s) (ra_CacheCreationInputTokens s))\<rparr>,
      zero_aevent\<lparr>ae_Type := ''message_stop''\<rparr>]"

subsection \<open>Blocks\<close>

definition closeCurrentBlock :: "r2a_state \<Rightarrow> r2a_result" where
  "closeCurrentBlock s =
     (if \<not> ra_ContentBlockOpen s then ([], s)
      else (let idx = ra_ContentBlockIndex s;
                thinking = ra_CurrentBlockType s = ''thinking'';
                sig = trim_space (ra_PendingThinkingSignature s);
                evs = (if thinking \<and> sig \<noteq> []
                       then [block_delta idx (zero_delta\<lparr>ad_Type := ''signature_delta'', ad_Signature := sig\<rparr>)]
                       else [])
            in (evs @ [block_stop idx],
                s\<lparr>ra_PendingThinkingSignature := (if thinking then [] else ra_PendingThinkingSignature s),
                  ra_ContentBlockOpen := False, ra_ContentBlockIndex := ra_ContentBlockIndex s + 1,
                  ra_CurrentToolName := [], ra_CurrentToolArgs := [], ra_currentToolArgsBuffer := None,
                  ra_currentToolArgsValidation := None, ra_CurrentToolHadDelta := False\<rparr>)))"

definition resToAnthHandleBlockDone :: "r2a_state \<Rightarrow> r2a_result" where
  "resToAnthHandleBlockDone s = (if \<not> ra_ContentBlockOpen s then ([], s) else closeCurrentBlock s)"

definition resToAnthHandleCreated :: "ResponsesStreamEvent \<Rightarrow> r2a_state \<Rightarrow> r2a_result" where
  "resToAnthHandleCreated evt s0 =
     (let s = (case rv_Response evt of
                 None \<Rightarrow> s0
               | Some r \<Rightarrow> s0\<lparr>ra_ResponseID := rr_ID r,
                             ra_Model := (if ra_Model s0 = [] then rr_Model r else ra_Model s0)\<rparr>)
      in if ra_MessageStartSent s then ([], s)
         else ([zero_aevent\<lparr>ae_Type := ''message_start'',
                  ae_Message := Some \<lparr>am_ID = ra_ResponseID s, am_Type = ''message'', am_Role = ''assistant'',
                    am_Content = [], am_Model = ra_Model s, am_StopReason = None, am_StopSequence = None,
                    am_Usage = zero_ausage\<rparr>\<rparr>],
               s\<lparr>ra_MessageStartSent := True\<rparr>))"

definition open_tool :: "int \<Rightarrow> ResponsesOutput \<Rightarrow> r2a_state \<Rightarrow> r2a_result" where
  "open_tool outputIndex item s =
     (let idx = ra_ContentBlockIndex s
      in ([block_start idx (zero_block\<lparr>cb_Type := ''tool_use'', cb_ID := fromResponsesCallID (ro_CallID item),
                                       cb_Name := ro_Name item, cb_Input := ''{}''\<rparr>)],
          s\<lparr>ra_OutputIndexToBlockIdx := fmupd outputIndex idx (ra_OutputIndexToBlockIdx s),
            ra_ContentBlockOpen := True, ra_CurrentBlockType := ''tool_use'',
            ra_CurrentToolName := ro_Name item, ra_CurrentToolArgs := [],
            ra_currentToolArgsBuffer := None, ra_currentToolArgsValidation := None,
            ra_CurrentToolHadDelta := False, ra_HasToolCall := True\<rparr>))"

definition open_thinking :: "int \<Rightarrow> ResponsesOutput \<Rightarrow> r2a_state \<Rightarrow> r2a_result" where
  "open_thinking outputIndex item s =
     (let idx = ra_ContentBlockIndex s
      in ([block_start idx (zero_block\<lparr>cb_Type := ''thinking'', cb_Thinking := []\<rparr>)],
          s\<lparr>ra_OutputIndexToBlockIdx := fmupd outputIndex idx (ra_OutputIndexToBlockIdx s),
            ra_ContentBlockOpen := True, ra_CurrentBlockType := ''thinking'',
            ra_PendingThinkingSignature := trim_space (ro_EncryptedContent item)\<rparr>))"

definition resToAnthHandleOutputItemAdded :: "ResponsesStreamEvent \<Rightarrow> r2a_state \<Rightarrow> r2a_result" where
  "resToAnthHandleOutputItemAdded evt s =
     (case rv_Item evt of
        None \<Rightarrow> ([], s)
      | Some item \<Rightarrow>
          (if ro_Type item \<in> {''function_call'', ''custom_tool_call''}
           then r2a_then (closeCurrentBlock s) (open_tool (rv_OutputIndex evt) item)
           else if ro_Type item = ''reasoning''
           then r2a_then (closeCurrentBlock s) (open_thinking (rv_OutputIndex evt) item)
           else ([], s)))"

subsection \<open>Text\<close>

definition resToAnthTextPartOf :: "ResponsesStreamEvent \<Rightarrow> responsesTextPart" where
  "resToAnthTextPartOf evt = (rv_OutputIndex evt, rv_ContentIndex evt)"

definition open_text :: "r2a_state \<Rightarrow> r2a_result" where
  "open_text s =
     ([block_start (ra_ContentBlockIndex s) (zero_block\<lparr>cb_Type := ''text'', cb_Text := []\<rparr>)],
      s\<lparr>ra_ContentBlockOpen := True, ra_CurrentBlockType := ''text''\<rparr>)"

definition send_text :: "string \<Rightarrow> responsesTextPart \<Rightarrow> r2a_state \<Rightarrow> r2a_result" where
  "send_text text part s =
     (let delivered = (case fmlookup (ra_textByPart s) part of None \<Rightarrow> [] | Some d \<Rightarrow> d)
      in ([block_delta (ra_ContentBlockIndex s) (zero_delta\<lparr>ad_Type := ''text_delta'', ad_Text := text\<rparr>)],
          s\<lparr>ra_textByPart := fmupd part (delivered @ text) (ra_textByPart s), ra_textDelivered := True\<rparr>))"

definition resToAnthEmitText :: "string \<Rightarrow> responsesTextPart \<Rightarrow> r2a_state \<Rightarrow> r2a_result" where
  "resToAnthEmitText text part s =
     (if text = [] then ([], s)
      else r2a_then
             (if \<not> ra_ContentBlockOpen s \<or> ra_CurrentBlockType s \<noteq> ''text''
              then r2a_then (closeCurrentBlock s) open_text
              else ([], s))
             (send_text text part))"

definition resToAnthHandleTextDelta :: "ResponsesStreamEvent \<Rightarrow> r2a_state \<Rightarrow> r2a_result" where
  "resToAnthHandleTextDelta evt s = resToAnthEmitText (rv_Delta evt) (resToAnthTextPartOf evt) s"

definition resToAnthRecoverText :: "string \<Rightarrow> responsesTextPart \<Rightarrow> r2a_state \<Rightarrow> r2a_result" where
  "resToAnthRecoverText text part s =
     (let known = fmlookup (ra_textByPart s) part
      in if known = None \<and> ra_textDelivered s then ([], s)
         else (let delivered = (case known of None \<Rightarrow> [] | Some d \<Rightarrow> d)
               in if text = delivered \<or> \<not> has_prefix text delivered then ([], s)
                  else resToAnthEmitText (drop (length delivered) text) part s))"

definition resToAnthHandleTextDone :: "ResponsesStreamEvent \<Rightarrow> r2a_state \<Rightarrow> r2a_result" where
  "resToAnthHandleTextDone evt s =
     (if ra_MessageStopSent s then resToAnthHandleBlockDone s
      else r2a_then (resToAnthRecoverText (rv_Text evt) (resToAnthTextPartOf evt) s) resToAnthHandleBlockDone)"

subsection \<open>Tool arguments and reasoning\<close>

definition resToAnthHandleFuncArgsDelta :: "json_env \<Rightarrow> ResponsesStreamEvent \<Rightarrow> r2a_state \<Rightarrow> r2a_result" where
  "resToAnthHandleFuncArgsDelta J evt s =
     (if rv_Delta evt = [] then ([], s)
      else if ra_CurrentBlockType s = ''tool_use'' \<and> ra_CurrentToolName s = ''Read'' then
        (case appendStreamString (ra_currentToolArgsBuffer s) (ra_CurrentToolArgs s) (rv_Delta evt) of
           (buf, args) \<Rightarrow>
             (let s1 = s\<lparr>ra_currentToolArgsBuffer := buf, ra_CurrentToolArgs := args\<rparr>
              in if ra_CurrentToolHadDelta s1 then ([], s1)
                 else (case appendStreamStringBytes (ra_currentToolArgsValidation s1) (ra_CurrentToolArgs s)
                              args (rv_Delta evt) of
                         (v, bytes) \<Rightarrow>
                           (let s2 = s1\<lparr>ra_currentToolArgsValidation := v\<rparr>
                            in if \<not> js_valid J bytes then ([], s2)
                               else (case fmlookup (ra_OutputIndexToBlockIdx s2) (rv_OutputIndex evt) of
                                       None \<Rightarrow> ([], s2)
                                     | Some blockIdx \<Rightarrow>
                                         ([block_delta blockIdx (zero_delta\<lparr>ad_Type := ''input_json_delta'',
                                             ad_PartialJSON := sanitizeAnthropicToolUseInput J (ra_CurrentToolName s2)
                                                                 (ra_CurrentToolArgs s2)\<rparr>)],
                                          s2\<lparr>ra_CurrentToolHadDelta := True\<rparr>))))))
      else
        (let s1 = (if ra_CurrentBlockType s = ''tool_use'' then s\<lparr>ra_CurrentToolHadDelta := True\<rparr> else s)
         in case fmlookup (ra_OutputIndexToBlockIdx s1) (rv_OutputIndex evt) of
              None \<Rightarrow> ([], s1)
            | Some blockIdx \<Rightarrow>
                ([block_delta blockIdx (zero_delta\<lparr>ad_Type := ''input_json_delta'', ad_PartialJSON := rv_Delta evt\<rparr>)],
                 s1)))"

definition resToAnthHandleFuncArgsDone :: "json_env \<Rightarrow> ResponsesStreamEvent \<Rightarrow> r2a_state \<Rightarrow> r2a_result" where
  "resToAnthHandleFuncArgsDone J evt s =
     (if \<not> ra_ContentBlockOpen s then ([], s)
      else if ra_CurrentBlockType s \<noteq> ''tool_use'' then resToAnthHandleBlockDone s
      else (let raw = (if rv_Arguments evt = [] then ra_CurrentToolArgs s else rv_Arguments evt)
            in if raw = [] \<or> ra_CurrentToolHadDelta s then closeCurrentBlock s
               else (let sanitized = (if ra_CurrentToolName s = ''Read''
                                      then sanitizeAnthropicToolUseInput J (ra_CurrentToolName s) raw else raw)
                     in if ra_CurrentToolName s = ''Read'' \<and> sanitized = [] then closeCurrentBlock s
                        else (let blockIdx = (case fmlookup (ra_OutputIndexToBlockIdx s) (rv_OutputIndex evt) of
                                                None \<Rightarrow> ra_ContentBlockIndex s | Some i \<Rightarrow> i)
                              in if \<not> ra_ContentBlockOpen s \<or> blockIdx \<noteq> ra_ContentBlockIndex s then ([], s)
                                 else r2a_then
                                        ([block_delta blockIdx (zero_delta\<lparr>ad_Type := ''input_json_delta'',
                                            ad_PartialJSON := sanitized\<rparr>)], s)
                                        closeCurrentBlock))))"

definition resToAnthHandleReasoningDelta :: "ResponsesStreamEvent \<Rightarrow> r2a_state \<Rightarrow> r2a_result" where
  "resToAnthHandleReasoningDelta evt s =
     (if rv_Delta evt = [] then ([], s)
      else case fmlookup (ra_OutputIndexToBlockIdx s) (rv_OutputIndex evt) of
             None \<Rightarrow> ([], s)
           | Some blockIdx \<Rightarrow>
               ([block_delta blockIdx (zero_delta\<lparr>ad_Type := ''thinking_delta'', ad_Thinking := rv_Delta evt\<rparr>)], s))"

subsection \<open>Finished items\<close>

definition web_search_blocks :: "json_env \<Rightarrow> ResponsesOutput \<Rightarrow> r2a_state \<Rightarrow> r2a_result" where
  "web_search_blocks J item s =
     (let toolUseID = ''srvtoolu_'' @ ro_ID item;
          query = (case ro_Action item of None \<Rightarrow> [] | Some a \<Rightarrow> wa_Query a);
          idx1 = ra_ContentBlockIndex s;
          idx2 = idx1 + 1
      in ([block_start idx1 (zero_block\<lparr>cb_Type := ''server_tool_use'', cb_ID := toolUseID,
                                        cb_Name := ''web_search'', cb_Input := js_query J query\<rparr>),
           block_stop idx1,
           block_start idx2 (zero_block\<lparr>cb_Type := ''web_search_tool_result'', cb_ToolUseID := toolUseID,
                                        cb_Content := ''[]''\<rparr>),
           block_stop idx2],
          s\<lparr>ra_ContentBlockIndex := ra_ContentBlockIndex s + 1 + 1\<rparr>))"

definition resToAnthHandleWebSearchDone :: "json_env \<Rightarrow> ResponsesOutput \<Rightarrow> r2a_state \<Rightarrow> r2a_result" where
  "resToAnthHandleWebSearchDone J item s = r2a_then (closeCurrentBlock s) (web_search_blocks J item)"

definition resToAnthHandleOutputItemDone :: "json_env \<Rightarrow> ResponsesStreamEvent \<Rightarrow> r2a_state \<Rightarrow> r2a_result" where
  "resToAnthHandleOutputItemDone J evt s =
     (case rv_Item evt of
        None \<Rightarrow> ([], s)
      | Some item \<Rightarrow>
          (if ro_Type item = ''web_search_call'' \<and> ro_Status item = ''completed''
           then resToAnthHandleWebSearchDone J item s
           else (let sig = trim_space (ro_EncryptedContent item);
                     s1 = (if ro_Type item = ''reasoning'' \<and> sig \<noteq> []
                           then s\<lparr>ra_PendingThinkingSignature := sig\<rparr> else s)
                 in if ra_ContentBlockOpen s1 then closeCurrentBlock s1 else ([], s1))))"

subsection \<open>Termination\<close>

fun recover_parts :: "int \<Rightarrow> int \<Rightarrow> ResponsesContentPart list \<Rightarrow> r2a_state \<Rightarrow> r2a_result" where
  "recover_parts outputIndex contentIndex [] s = ([], s)"
| "recover_parts outputIndex contentIndex (c # cs) s =
     r2a_then
       (if cp_Type c \<noteq> ''output_text'' then ([], s)
        else resToAnthEmitText (cp_Text c) (outputIndex, contentIndex) s)
       (recover_parts outputIndex (contentIndex + 1) cs)"

fun recover_items :: "int \<Rightarrow> ResponsesOutput list \<Rightarrow> r2a_state \<Rightarrow> r2a_result" where
  "recover_items outputIndex [] s = ([], s)"
| "recover_items outputIndex (item # items) s =
     r2a_then
       (if ro_Type item \<noteq> ''message'' then ([], s) else recover_parts outputIndex 0 (ro_Content item) s)
       (recover_items (outputIndex + 1) items)"

definition resToAnthRecoverTerminalText :: "ResponsesStreamEvent \<Rightarrow> r2a_state \<Rightarrow> r2a_result" where
  "resToAnthRecoverTerminalText evt s =
     (case rv_Response evt of
        None \<Rightarrow> ([], s)
      | Some r \<Rightarrow>
          (if ra_textDelivered s then ([], s)
           else (case recover_items 0 (rr_Output r) s of
                   (evs, s1) \<Rightarrow> if evs \<noteq> [] then r2a_then (evs, s1) closeCurrentBlock else (evs, s1))))"

definition set_usage :: "AnthropicUsage \<Rightarrow> r2a_state \<Rightarrow> r2a_state" where
  "set_usage u s =
     s\<lparr>ra_InputTokens := au_InputTokens u, ra_OutputTokens := au_OutputTokens u,
       ra_CacheReadInputTokens := au_CacheReadInputTokens u,
       ra_CacheCreationInputTokens := au_CacheCreationInputTokens u\<rparr>"

definition terminal_usage :: "ResponsesStreamEvent \<Rightarrow> r2a_state \<Rightarrow> r2a_state" where
  "terminal_usage evt s =
     (let s1 = (case rv_Usage evt of None \<Rightarrow> s | Some u \<Rightarrow> set_usage (anthropicUsageFromResponsesUsage (Some u)) s)
      in case rv_Response evt of
           None \<Rightarrow> s1
         | Some r \<Rightarrow> (case rr_Usage r of
                        None \<Rightarrow> s1
                      | Some u \<Rightarrow> set_usage (anthropicUsageFromResponsesUsage (Some u)) s1))"

definition terminal_stop_reason :: "ResponsesStreamEvent \<Rightarrow> r2a_state \<Rightarrow> string" where
  "terminal_stop_reason evt s =
     (case rv_Response evt of
        None \<Rightarrow> ''end_turn''
      | Some r \<Rightarrow>
          (if rr_Status r = ''incomplete'' then
             (if rr_IncompleteDetails r = Some ''max_output_tokens'' then ''max_tokens'' else ''end_turn'')
           else if rr_Status r = ''completed'' then
             (if ra_HasToolCall s then ''tool_use'' else ''end_turn'')
           else ''end_turn''))"

definition resToAnthHandleCompleted :: "ResponsesStreamEvent \<Rightarrow> r2a_state \<Rightarrow> r2a_result" where
  "resToAnthHandleCompleted evt s =
     (if ra_MessageStopSent s then ([], s)
      else r2a_then (r2a_then (closeCurrentBlock s) (resToAnthRecoverTerminalText evt))
             (\<lambda>s. let s1 = terminal_usage evt s
                  in (final_events (terminal_stop_reason evt s1) s1, s1\<lparr>ra_MessageStopSent := True\<rparr>)))"

definition FinalizeResponsesAnthropicStream :: "r2a_state \<Rightarrow> r2a_result" where
  "FinalizeResponsesAnthropicStream s =
     (if \<not> ra_MessageStartSent s \<or> ra_MessageStopSent s then ([], s)
      else r2a_then (closeCurrentBlock s)
             (\<lambda>s. (final_events (if ra_HasToolCall s then ''tool_use'' else ''end_turn'') s,
                   s\<lparr>ra_MessageStopSent := True\<rparr>)))"

definition ResponsesEventToAnthropicEvents :: "json_env \<Rightarrow> ResponsesStreamEvent \<Rightarrow> r2a_state \<Rightarrow> r2a_result" where
  "ResponsesEventToAnthropicEvents J evt s =
     (let ty = rv_Type evt
      in if ty = ''response.created'' then resToAnthHandleCreated evt s
         else if ty = ''response.output_item.added'' then resToAnthHandleOutputItemAdded evt s
         else if ty = ''response.output_text.delta'' then resToAnthHandleTextDelta evt s
         else if ty = ''response.output_text.done'' then resToAnthHandleTextDone evt s
         else if ty \<in> {''response.function_call_arguments.delta'', ''response.custom_tool_call_input.delta''}
         then resToAnthHandleFuncArgsDelta J evt s
         else if ty = ''response.function_call_arguments.done'' then resToAnthHandleFuncArgsDone J evt s
         else if ty = ''response.output_item.done'' then resToAnthHandleOutputItemDone J evt s
         else if ty \<in> {''response.reasoning_summary_text.delta'', ''response.reasoning_text.delta''}
         then resToAnthHandleReasoningDelta evt s
         else if ty = ''response.reasoning_summary_text.done'' then ([], s)
         else if ty \<in> {''response.completed'', ''response.done'', ''response.incomplete'', ''response.failed''}
         then resToAnthHandleCompleted evt s
         else ([], s))"

end
