(* ===== verification/Responses_Anthropic_Client.thy ===== *)
theory Responses_Anthropic_Client
  imports Responses_Anthropic Stream_Converter
begin

section \<open>What an Anthropic client sees\<close>

text \<open>
  The receiver of the stream converted to Anthropic events.  It numbers content blocks 0, 1, 2 and
  so on, holds at most one open, accepts text and signatures only for the open block and other
  deltas only for blocks already announced, and wants the closing pair of message delta and message
  stop when nothing is open.  The conversion of every upstream event sequence is accepted.
\<close>

record anth_state =
  an_started :: bool
  an_stopped :: bool
  an_next :: int
  an_open :: "string option"
  an_closing :: bool

definition anth_start :: anth_state where
  "anth_start = \<lparr>an_started = False, an_stopped = False, an_next = 0, an_open = None, an_closing = False\<rparr>"

definition delta_target :: "anth_state \<Rightarrow> int \<Rightarrow> string \<Rightarrow> bool" where
  "delta_target c i ty \<longleftrightarrow>
     (if ty = ''text_delta'' then i = an_next c \<and> an_open c = Some ''text''
      else if ty = ''signature_delta'' then i = an_next c \<and> an_open c = Some ''thinking''
      else 0 \<le> i \<and> (i < an_next c \<or> i = an_next c \<and> an_open c \<noteq> None))"

definition anth_client :: "anth_state \<Rightarrow> AnthropicStreamEvent \<Rightarrow> anth_state option" where
  "anth_client c ev =
     (if ae_Type ev = ''message_start'' then
        (if an_started c \<or> an_closing c then None else Some (c\<lparr>an_started := True\<rparr>))
      else if ae_Type ev = ''content_block_start'' then
        (case ae_ContentBlock ev of
           None \<Rightarrow> None
         | Some b \<Rightarrow> if ae_Index ev = Some (an_next c) \<and> an_open c = None \<and> \<not> an_closing c
                     then Some (c\<lparr>an_open := Some (cb_Type b)\<rparr>) else None)
      else if ae_Type ev = ''content_block_delta'' then
        (case (ae_Index ev, ae_Delta ev) of
           (Some i, Some d) \<Rightarrow> if delta_target c i (ad_Type d) \<and> \<not> an_closing c then Some c else None
         | _ \<Rightarrow> None)
      else if ae_Type ev = ''content_block_stop'' then
        (if ae_Index ev = Some (an_next c) \<and> an_open c \<noteq> None \<and> \<not> an_closing c
         then Some (c\<lparr>an_open := None, an_next := an_next c + 1\<rparr>) else None)
      else if ae_Type ev = ''message_delta'' then
        (if an_open c = None \<and> \<not> an_stopped c \<and> \<not> an_closing c then Some (c\<lparr>an_closing := True\<rparr>) else None)
      else if ae_Type ev = ''message_stop'' then
        (if an_closing c then Some (c\<lparr>an_closing := False, an_stopped := True\<rparr>) else None)
      else None)"

text \<open>The table of block indices mentions only blocks announced so far.\<close>

definition indexed :: "(int, int) fmap \<Rightarrow> int \<Rightarrow> bool \<Rightarrow> bool" where
  "indexed tbl n opened \<longleftrightarrow>
     (\<forall>o1 i. fmlookup tbl o1 = Some i \<longrightarrow> 0 \<le> i \<and> i \<le> n \<and> (\<not> opened \<longrightarrow> i < n))"

lemma indexed_mono: "indexed tbl n b \<Longrightarrow> n < m \<Longrightarrow> indexed tbl m b'"
  unfolding indexed_def by fastforce

lemma indexed_open: "indexed tbl n b \<Longrightarrow> indexed tbl n True"
  unfolding indexed_def by fastforce

lemma indexed_upd: "indexed tbl n b \<Longrightarrow> 0 \<le> n \<Longrightarrow> indexed (fmupd o1 n tbl) n True"
  unfolding indexed_def by auto

lemma indexed_lookup: "indexed tbl n b \<Longrightarrow> fmlookup tbl o1 = Some i \<Longrightarrow> 0 \<le> i \<and> i \<le> n \<and> (\<not> b \<longrightarrow> i < n)"
  unfolding indexed_def by blast

definition anth_rel :: "unit \<Rightarrow> r2a_state \<Rightarrow> anth_state \<Rightarrow> bool" where
  "anth_rel p s c \<longleftrightarrow>
     c = \<lparr>an_started = ra_MessageStartSent s, an_stopped = ra_MessageStopSent s, an_next = ra_ContentBlockIndex s,
          an_open = (if ra_ContentBlockOpen s then Some (ra_CurrentBlockType s) else None), an_closing = False\<rparr> \<and>
     0 \<le> ra_ContentBlockIndex s \<and>
     indexed (ra_OutputIndexToBlockIdx s) (ra_ContentBlockIndex s) (ra_ContentBlockOpen s)"

text \<open>The outcome of a part of a handler keeps the relation when the client takes its events.\<close>

definition keeps_blocks :: "r2a_result \<Rightarrow> r2a_state \<Rightarrow> bool" where
  "keeps_blocks r s \<longleftrightarrow> (\<forall>c. anth_rel () s c \<longrightarrow>
     (\<exists>c'. feed anth_client c (fst r) = Some c' \<and> anth_rel () (snd r) c'))"

lemma blocks_then:
  assumes "keeps_blocks r s" and "keeps_blocks (g (snd r)) (snd r)"
  shows "keeps_blocks (r2a_then r g) s"
  unfolding keeps_blocks_def
proof (intro allI impI)
  fix c assume rel: "anth_rel () s c"
  obtain c1 where c1: "feed anth_client c (fst r) = Some c1" "anth_rel () (snd r) c1"
    using assms(1) rel unfolding keeps_blocks_def by blast
  obtain c2 where c2: "feed anth_client c1 (fst (g (snd r))) = Some c2" "anth_rel () (snd (g (snd r))) c2"
    using assms(2) c1(2) unfolding keeps_blocks_def by blast
  show "\<exists>c'. feed anth_client c (fst (r2a_then r g)) = Some c' \<and> anth_rel () (snd (r2a_then r g)) c'"
    using c1(1) c2 by (auto simp: r2a_then_def feed_append split: prod.splits)
qed

named_theorems blocks \<open>which handler parts keep the block relation\<close>

lemmas event_defs = block_start_def block_delta_def block_stop_def zero_aevent_def zero_block_def zero_delta_def

lemma blocks_silent [blocks]: "keeps_blocks ([], s) s"
  by (simp add: keeps_blocks_def)

lemma blocks_set:
  "ra_MessageStartSent s' = ra_MessageStartSent s \<Longrightarrow> ra_MessageStopSent s' = ra_MessageStopSent s \<Longrightarrow>
   ra_ContentBlockIndex s' = ra_ContentBlockIndex s \<Longrightarrow> ra_ContentBlockOpen s' = ra_ContentBlockOpen s \<Longrightarrow>
   ra_CurrentBlockType s' = ra_CurrentBlockType s \<Longrightarrow>
   ra_OutputIndexToBlockIdx s' = ra_OutputIndexToBlockIdx s \<Longrightarrow> keeps_blocks ([], s') s"
  by (simp add: keeps_blocks_def anth_rel_def)

text \<open>A delta that is not text, for a block found in the table.\<close>

lemma blocks_delta:
  assumes "fmlookup (ra_OutputIndexToBlockIdx s) o1 = Some i" and "ad_Type d \<notin> {''text_delta'', ''signature_delta''}"
    and "ra_MessageStartSent s' = ra_MessageStartSent s" "ra_MessageStopSent s' = ra_MessageStopSent s"
    "ra_ContentBlockIndex s' = ra_ContentBlockIndex s" "ra_ContentBlockOpen s' = ra_ContentBlockOpen s"
    "ra_CurrentBlockType s' = ra_CurrentBlockType s" "ra_OutputIndexToBlockIdx s' = ra_OutputIndexToBlockIdx s"
  shows "keeps_blocks ([block_delta i d], s') s"
  unfolding keeps_blocks_def
proof (intro allI impI)
  fix c assume rel: "anth_rel () s c"
  then have "0 \<le> i \<and> i \<le> ra_ContentBlockIndex s \<and> (\<not> ra_ContentBlockOpen s \<longrightarrow> i < ra_ContentBlockIndex s)"
    using indexed_lookup assms(1) unfolding anth_rel_def by blast
  then have "anth_client c (block_delta i d) = Some c"
    using rel assms(2) by (auto simp: anth_rel_def anth_client_def delta_target_def block_delta_def zero_aevent_def)
  moreover have "anth_rel () s' c" using rel assms(3-8) by (simp add: anth_rel_def)
  ultimately show "\<exists>c'. feed anth_client c (fst ([block_delta i d], s')) = Some c' \<and> anth_rel () (snd ([block_delta i d], s')) c'"
    by simp
qed

lemma blocks_close [blocks]: "keeps_blocks (closeCurrentBlock s) s"
  by (auto simp: keeps_blocks_def closeCurrentBlock_def anth_rel_def anth_client_def delta_target_def event_defs Let_def
      elim: indexed_mono)

lemma close_closes [simp]: "ra_ContentBlockOpen (snd (closeCurrentBlock s)) = False"
  by (simp add: closeCurrentBlock_def Let_def)

lemma close_stopped [simp]: "ra_MessageStopSent (snd (closeCurrentBlock s)) = ra_MessageStopSent s"
  by (simp add: closeCurrentBlock_def Let_def)

lemma blocks_block_done [blocks]: "keeps_blocks (resToAnthHandleBlockDone s) s"
  by (simp add: resToAnthHandleBlockDone_def blocks)

lemma blocks_created [blocks]: "keeps_blocks (resToAnthHandleCreated evt s) s"
  by (auto simp: keeps_blocks_def resToAnthHandleCreated_def anth_rel_def anth_client_def zero_aevent_def Let_def
      split: option.split)

lemma blocks_open [blocks]:
  "\<not> ra_ContentBlockOpen s \<Longrightarrow> keeps_blocks (open_tool oi item s) s"
  "\<not> ra_ContentBlockOpen s \<Longrightarrow> keeps_blocks (open_thinking oi item s) s"
  "\<not> ra_ContentBlockOpen s \<Longrightarrow> keeps_blocks (open_text s) s"
  by (auto simp: keeps_blocks_def open_tool_def open_thinking_def open_text_def anth_rel_def anth_client_def
      event_defs Let_def elim: indexed_open indexed_upd)

lemma blocks_item_added [blocks]: "keeps_blocks (resToAnthHandleOutputItemAdded evt s) s"
  by (auto simp: resToAnthHandleOutputItemAdded_def split: option.split intro!: blocks_then blocks)

lemma blocks_send: "ra_ContentBlockOpen s \<Longrightarrow> ra_CurrentBlockType s = ''text'' \<Longrightarrow> keeps_blocks (send_text t part s) s"
  by (auto simp: keeps_blocks_def send_text_def anth_rel_def anth_client_def delta_target_def event_defs Let_def)

lemma open_text_opens:
  "ra_ContentBlockOpen (snd (r2a_then r open_text))" "ra_CurrentBlockType (snd (r2a_then r open_text)) = ''text''"
  by (auto simp: r2a_then_def open_text_def split: prod.split)

lemma blocks_emit [blocks]: "keeps_blocks (resToAnthEmitText t part s) s"
  by (auto simp: resToAnthEmitText_def open_text_opens intro!: blocks_then blocks_send blocks)

lemma blocks_recover [blocks]: "keeps_blocks (resToAnthRecoverText t part s) s"
  by (simp add: resToAnthRecoverText_def blocks Let_def)

lemma blocks_text [blocks]:
  "keeps_blocks (resToAnthHandleTextDelta evt s) s" "keeps_blocks (resToAnthHandleTextDone evt s) s"
  by (auto simp: resToAnthHandleTextDelta_def resToAnthHandleTextDone_def intro!: blocks_then blocks)

lemma blocks_args_delta [blocks]: "keeps_blocks (resToAnthHandleFuncArgsDelta J evt s) s"
  by (auto simp: resToAnthHandleFuncArgsDelta_def Let_def zero_delta_def
      split: prod.split option.split intro!: blocks_set blocks_delta blocks)

lemma blocks_args_done [blocks]: "keeps_blocks (resToAnthHandleFuncArgsDone J evt s) s"
proof -
  have "keeps_blocks ([block_delta (ra_ContentBlockIndex s) (zero_delta\<lparr>ad_Type := ''input_json_delta'', ad_PartialJSON := x\<rparr>)], s) s"
    if "ra_ContentBlockOpen s" for x
    using that by (auto simp: keeps_blocks_def anth_rel_def anth_client_def delta_target_def event_defs)
  then show ?thesis
    by (auto simp: resToAnthHandleFuncArgsDone_def Let_def intro!: blocks_then blocks)
qed

lemma blocks_reasoning [blocks]: "keeps_blocks (resToAnthHandleReasoningDelta evt s) s"
  by (auto simp: resToAnthHandleReasoningDelta_def zero_delta_def split: option.split intro!: blocks_delta blocks)

lemma blocks_web_search: "\<not> ra_ContentBlockOpen s \<Longrightarrow> keeps_blocks (web_search_blocks J item s) s"
  by (auto simp: keeps_blocks_def web_search_blocks_def anth_rel_def anth_client_def event_defs Let_def
      elim: indexed_mono)

lemma blocks_item_done [blocks]: "keeps_blocks (resToAnthHandleOutputItemDone J evt s) s"
proof -
  have "anth_rel () (s\<lparr>ra_PendingThinkingSignature := x\<rparr>) = anth_rel () s" for x
    by (simp add: anth_rel_def fun_eq_iff)
  then have sig: "keeps_blocks (closeCurrentBlock (s\<lparr>ra_PendingThinkingSignature := x\<rparr>)) s" for x
    using blocks_close [of "s\<lparr>ra_PendingThinkingSignature := x\<rparr>"] unfolding keeps_blocks_def by metis
  show ?thesis
    by (auto simp: resToAnthHandleOutputItemDone_def resToAnthHandleWebSearchDone_def Let_def sig
        split: option.split intro!: blocks_then blocks_web_search blocks_set blocks)
qed

lemma blocks_recover_parts: "keeps_blocks (recover_parts o1 i cs s) s"
  by (induction cs arbitrary: i s) (auto intro!: blocks_then blocks)

lemma blocks_recover_items: "keeps_blocks (recover_items o1 items s) s"
  by (induction items arbitrary: o1 s) (auto intro!: blocks_then blocks blocks_recover_parts)

lemma terminal_text_cases:
  obtains "resToAnthRecoverTerminalText evt s = ([], s)"
  | items where "fst (recover_items 0 items s) = []"
      "resToAnthRecoverTerminalText evt s = recover_items 0 items s"
  | items where "resToAnthRecoverTerminalText evt s = r2a_then (recover_items 0 items s) closeCurrentBlock"
proof (cases "rv_Response evt")
  case None
  then show thesis using that(1) by (simp add: resToAnthRecoverTerminalText_def)
next
  case (Some r)
  obtain evs s1 where e: "recover_items 0 (rr_Output r) s = (evs, s1)" by force
  show thesis
  proof (cases "ra_textDelivered s")
    case True
    with Some show thesis using that(1) by (simp add: resToAnthRecoverTerminalText_def)
  next
    case False
    with Some e show thesis
      using that(2) [of "rr_Output r"] that(3) [of "rr_Output r"] by (cases "evs = []") (auto simp: resToAnthRecoverTerminalText_def)
  qed
qed

lemma blocks_terminal_text: "keeps_blocks (resToAnthRecoverTerminalText evt s) s"
  by (rule terminal_text_cases [of evt s]) (auto intro!: blocks_then blocks blocks_recover_items)

text \<open>The closing pair wants no block open; recovering text closes the blocks it opens.\<close>

lemma emit_events: "t \<noteq> [] \<Longrightarrow> fst (resToAnthEmitText t part s) \<noteq> []"
  by (auto simp: resToAnthEmitText_def r2a_then_def send_text_def Let_def split: prod.split)

lemma emit_empty [simp]: "resToAnthEmitText [] part s = ([], s)"
  by (simp add: resToAnthEmitText_def)

lemma then_fst: "fst (r2a_then r g) = fst r @ fst (g (snd r))"
  by (simp add: r2a_then_def split: prod.split)

lemma then_snd: "snd (r2a_then r g) = snd (g (snd r))"
  by (simp add: r2a_then_def split: prod.split)

lemma recover_parts_quiet: "fst (recover_parts o1 i cs s) = [] \<Longrightarrow> snd (recover_parts o1 i cs s) = s"
proof (induction cs arbitrary: i s)
  case (Cons c cs)
  then show ?case using emit_events [of "cp_Text c" "(o1, i)" s]
    by (cases "cp_Text c = []") (auto simp: then_fst then_snd split: if_splits)
qed simp

lemma recover_items_quiet: "fst (recover_items o1 items s) = [] \<Longrightarrow> snd (recover_items o1 items s) = s"
proof (induction items arbitrary: o1 s)
  case (Cons item items)
  then show ?case using recover_parts_quiet [of o1 0 "ro_Content item" s]
    by (auto simp: then_fst then_snd split: if_splits)
qed simp

lemma terminal_text_closed:
  "\<not> ra_ContentBlockOpen s \<Longrightarrow> \<not> ra_ContentBlockOpen (snd (resToAnthRecoverTerminalText evt s))"
  by (rule terminal_text_cases [of evt s]) (auto simp: then_snd recover_items_quiet)

lemma emit_stopped [simp]: "ra_MessageStopSent (snd (resToAnthEmitText t part s)) = ra_MessageStopSent s"
  by (simp add: resToAnthEmitText_def then_snd send_text_def open_text_def Let_def)

lemma recover_parts_stopped [simp]: "ra_MessageStopSent (snd (recover_parts o1 i cs s)) = ra_MessageStopSent s"
  by (induction cs arbitrary: i s) (auto simp: then_snd)

lemma recover_items_stopped [simp]: "ra_MessageStopSent (snd (recover_items o1 items s)) = ra_MessageStopSent s"
  by (induction items arbitrary: o1 s) (auto simp: then_snd)

lemma terminal_text_stopped [simp]:
  "ra_MessageStopSent (snd (resToAnthRecoverTerminalText evt s)) = ra_MessageStopSent s"
  by (rule terminal_text_cases [of evt s]) (auto simp: then_snd)

lemma blocks_final:
  assumes "\<not> ra_ContentBlockOpen s" and "\<not> ra_MessageStopSent s"
    and "ra_MessageStartSent s' = ra_MessageStartSent s" "ra_ContentBlockIndex s' = ra_ContentBlockIndex s"
    "\<not> ra_ContentBlockOpen s'" "ra_OutputIndexToBlockIdx s' = ra_OutputIndexToBlockIdx s" "ra_MessageStopSent s'"
  shows "keeps_blocks (final_events reason s2, s') s"
  using assms
  by (auto simp: keeps_blocks_def final_events_def anth_rel_def anth_client_def zero_aevent_def)

lemma blocks_completed: "keeps_blocks (resToAnthHandleCompleted evt s) s"
proof (cases "ra_MessageStopSent s")
  case True
  then show ?thesis by (simp add: resToAnthHandleCompleted_def blocks)
next
  case False
  define f where "f = (\<lambda>s. let s1 = terminal_usage evt s
      in (final_events (terminal_stop_reason evt s1) s1, s1\<lparr>ra_MessageStopSent := True\<rparr>))"
  let ?r = "r2a_then (closeCurrentBlock s) (resToAnthRecoverTerminalText evt)"
  have "keeps_blocks ?r s" by (intro blocks_then blocks blocks_terminal_text)
  moreover have "keeps_blocks (f (snd ?r)) (snd ?r)"
    unfolding f_def Let_def
    by (rule blocks_final)
      (use False terminal_text_closed in \<open>auto simp: then_snd terminal_usage_def set_usage_def Let_def split: option.split\<close>)
  ultimately show ?thesis
    using False by (auto simp: resToAnthHandleCompleted_def f_def intro!: blocks_then)
qed

lemma blocks_finalize: "keeps_blocks (FinalizeResponsesAnthropicStream s) s"
  by (auto simp: FinalizeResponsesAnthropicStream_def intro!: blocks_then blocks_final blocks)

lemma blocks_event: "keeps_blocks (ResponsesEventToAnthropicEvents J evt s) s"
  by (simp add: ResponsesEventToAnthropicEvents_def Let_def blocks blocks_completed)

interpretation block_stream: stream_converter "ResponsesEventToAnthropicEvents J"
    "admit_all :: unit \<Rightarrow> ResponsesStreamEvent \<Rightarrow> unit option" anth_client anth_rel
  for J
proof
  fix p s c e p'
  assume "anth_rel p s c"
  then show "\<exists>c'. feed anth_client c (fst (ResponsesEventToAnthropicEvents J e s)) = Some c' \<and>
      anth_rel p' (snd (ResponsesEventToAnthropicEvents J e s)) c'"
    using blocks_event [of J e s] unfolding keeps_blocks_def by simp
qed

text \<open>
  Property C20. For every sequence of upstream events, well formed or not, the Anthropic stream is
  properly bracketed: message start at most once, content blocks with consecutive indices, one open
  at a time and each stopped under its own index, text and signatures only into an open block of
  that kind, other deltas only for blocks already announced, and at most one pair of message delta
  and message stop, sent when no block is open. The same holds after finalizing a stream that broke
  off, and then no block is left open once the message has started.
\<close>

theorem r2a_stream_bracketed:
  shows "(\<exists>c. feed anth_client anth_start
        (fst (convert_stream (ResponsesEventToAnthropicEvents J) evts (NewResponsesEventToAnthropicState now))) = Some c) \<and>
    (\<exists>c. feed anth_client anth_start
        (fst (r2a_then (convert_stream (ResponsesEventToAnthropicEvents J) evts (NewResponsesEventToAnthropicState now))
               FinalizeResponsesAnthropicStream)) = Some c \<and> \<not> an_closing c)"
proof -
  let ?r = "convert_stream (ResponsesEventToAnthropicEvents J) evts (NewResponsesEventToAnthropicState now)"
  have start: "anth_rel () (NewResponsesEventToAnthropicState now) anth_start"
    by (simp add: anth_rel_def NewResponsesEventToAnthropicState_def anth_start_def indexed_def)
  from block_stream.stream_rel [OF start feed_admit_all, of J evts] obtain c where
    c: "feed anth_client anth_start (fst ?r) = Some c" "anth_rel () (snd ?r) c" by blast
  from blocks_finalize [of "snd ?r"] c obtain c' where
    "feed anth_client c (fst (FinalizeResponsesAnthropicStream (snd ?r))) = Some c'"
    "anth_rel () (snd (FinalizeResponsesAnthropicStream (snd ?r))) c'"
    unfolding keeps_blocks_def by blast
  with c(1) show ?thesis by (auto simp: then_fst feed_append anth_rel_def)
qed

end
