(* ===== verification/Responses_Anthropic_Strict.thy ===== *)
theory Responses_Anthropic_Strict
  imports Responses_Anthropic_Client
begin

section \<open>Well-formed Responses streams\<close>

text \<open>
  On an upstream that sends its items one after another the converted stream is not only bracketed:
  every delta reaches the block that is open, in the kind of that block, nothing precedes message
  start and nothing follows message stop.  The second half of the theory is about text: what the done
  and terminal events recover.
\<close>

subsection \<open>The strict client and the upstream protocol\<close>

definition kind_of :: "string \<Rightarrow> string option" where
  "kind_of delta_type =
     (if delta_type = ''text_delta'' then Some ''text''
      else if delta_type \<in> {''thinking_delta'', ''signature_delta''} then Some ''thinking''
      else if delta_type = ''input_json_delta'' then Some ''tool_use'' else None)"

definition strict_client :: "anth_state \<Rightarrow> AnthropicStreamEvent \<Rightarrow> anth_state option" where
  "strict_client c ev =
     (if an_stopped c \<or> (ae_Type ev \<noteq> ''message_start'' \<and> \<not> an_started c) then None
      else if ae_Type ev = ''content_block_delta'' then
        (case (ae_Index ev, ae_Delta ev) of
           (Some i, Some d) \<Rightarrow> if i = an_next c \<and> an_open c \<noteq> None \<and> kind_of (ad_Type d) = an_open c
                               then Some c else None
         | _ \<Rightarrow> None)
      else anth_client c ev)"

datatype rphase = RBefore | RIdle | RMessage | RFunc int | RFuncDone | RReason int | ROther | REnded

definition item_phase :: "int \<Rightarrow> ResponsesOutput \<Rightarrow> rphase" where
  "item_phase i item =
     (if ro_Type item \<in> {''function_call'', ''custom_tool_call''} then RFunc i
      else if ro_Type item = ''reasoning'' then RReason i
      else if ro_Type item = ''message'' then RMessage else ROther)"

definition rprotocol :: "rphase \<Rightarrow> ResponsesStreamEvent \<Rightarrow> rphase option" where
  "rprotocol p ev =
     (let ty = rv_Type ev
      in if ty = ''response.created'' then (if p = RBefore then Some RIdle else None)
         else if ty = ''response.output_item.added'' then
           (case rv_Item ev of None \<Rightarrow> None
            | Some item \<Rightarrow> if p = RIdle then Some (item_phase (rv_OutputIndex ev) item) else None)
         else if ty \<in> {''response.output_text.delta'', ''response.output_text.done''} then
           (if p = RMessage then Some RMessage else None)
         else if ty \<in> {''response.function_call_arguments.delta'', ''response.custom_tool_call_input.delta''} then
           (if p = RFunc (rv_OutputIndex ev) then Some p else None)
         else if ty = ''response.function_call_arguments.done'' then
           (if p = RFunc (rv_OutputIndex ev) then Some RFuncDone else None)
         else if ty \<in> {''response.reasoning_summary_text.delta'', ''response.reasoning_text.delta''} then
           (if p = RReason (rv_OutputIndex ev) then Some p else None)
         else if ty = ''response.output_item.done'' then
           (case rv_Item ev of None \<Rightarrow> None
            | Some item \<Rightarrow> if p \<in> {RBefore, RIdle, REnded} then None else Some RIdle)
         else if ty \<in> {''response.completed'', ''response.done'', ''response.incomplete'', ''response.failed''} then
           (if p = RIdle then Some REnded else None)
         else Some p)"

fun phase_block :: "rphase \<Rightarrow> r2a_state \<Rightarrow> bool" where
  "phase_block RMessage s = (ra_ContentBlockOpen s \<longrightarrow> ra_CurrentBlockType s = ''text'')"
| "phase_block (RFunc i) s = (ra_ContentBlockOpen s \<and> ra_CurrentBlockType s = ''tool_use'' \<and>
     fmlookup (ra_OutputIndexToBlockIdx s) i = Some (ra_ContentBlockIndex s))"
| "phase_block (RReason i) s = (ra_ContentBlockOpen s \<and> ra_CurrentBlockType s = ''thinking'' \<and>
     fmlookup (ra_OutputIndexToBlockIdx s) i = Some (ra_ContentBlockIndex s))"
| "phase_block _ s = (\<not> ra_ContentBlockOpen s)"

definition view :: "r2a_state \<Rightarrow> anth_state" where
  "view s = \<lparr>an_started = ra_MessageStartSent s, an_stopped = ra_MessageStopSent s,
     an_next = ra_ContentBlockIndex s,
     an_open = (if ra_ContentBlockOpen s then Some (ra_CurrentBlockType s) else None), an_closing = False\<rparr>"

definition strict_rel :: "rphase \<Rightarrow> r2a_state \<Rightarrow> anth_state \<Rightarrow> bool" where
  "strict_rel p s c \<longleftrightarrow> c = view s \<and> ra_MessageStartSent s = (p \<noteq> RBefore) \<and>
     ra_MessageStopSent s = (p = REnded) \<and> phase_block p s"

text \<open>The events of a running message, from one state to the next.\<close>

definition sends :: "r2a_state \<Rightarrow> r2a_result \<Rightarrow> bool" where
  "sends s r \<longleftrightarrow> (ra_MessageStartSent s \<and> \<not> ra_MessageStopSent s \<longrightarrow>
     feed strict_client (view s) (fst r) = Some (view (snd r)) \<and>
     ra_MessageStartSent (snd r) \<and> \<not> ra_MessageStopSent (snd r))"

lemma sends_then: "sends s r \<Longrightarrow> sends (snd r) (g (snd r)) \<Longrightarrow> sends s (r2a_then r g)"
  by (auto simp: sends_def then_fst then_snd feed_append)

named_theorems sending \<open>which handler parts a strict client accepts\<close>

lemma sends_silent [sending]: "view s' = view s \<Longrightarrow> sends s ([], s')"
  by (auto simp: sends_def view_def)

lemma sends_close [sending]: "sends s (closeCurrentBlock s)"
  by (auto simp: sends_def closeCurrentBlock_def view_def strict_client_def anth_client_def kind_of_def event_defs Let_def)

lemma sends_open [sending]:
  "\<not> ra_ContentBlockOpen s \<Longrightarrow> sends s (open_tool oi item s)"
  "\<not> ra_ContentBlockOpen s \<Longrightarrow> sends s (open_thinking oi item s)"
  "\<not> ra_ContentBlockOpen s \<Longrightarrow> sends s (open_text s)"
  by (auto simp: sends_def open_tool_def open_thinking_def open_text_def view_def strict_client_def anth_client_def
      event_defs Let_def)

lemma sends_text: "ra_ContentBlockOpen s \<Longrightarrow> ra_CurrentBlockType s = ''text'' \<Longrightarrow> sends s (send_text t part s)"
  by (auto simp: sends_def send_text_def view_def strict_client_def kind_of_def event_defs Let_def)

lemma sends_emit [sending]: "sends s (resToAnthEmitText t part s)"
  by (auto simp: resToAnthEmitText_def open_text_opens intro!: sends_then sends_text sending)

lemma emit_block:
  "phase_block RMessage s \<Longrightarrow> phase_block RMessage (snd (resToAnthEmitText t part s))"
  by (auto simp: resToAnthEmitText_def then_snd send_text_def open_text_def Let_def)

lemma sends_delta:
  "ra_ContentBlockOpen s \<Longrightarrow> kind_of (ad_Type d) = Some (ra_CurrentBlockType s) \<Longrightarrow> view s' = view s \<Longrightarrow>
   i = ra_ContentBlockIndex s \<Longrightarrow> sends s ([block_delta i d], s')"
  by (auto simp: sends_def view_def strict_client_def block_delta_def zero_aevent_def)

lemma sends_recover_text [sending]: "sends s (resToAnthRecoverText t part s)"
  by (auto simp: resToAnthRecoverText_def Let_def intro: sending)

lemma sends_block_done [sending]: "sends s (resToAnthHandleBlockDone s)"
  by (auto simp: resToAnthHandleBlockDone_def intro: sending)

lemma block_done_closed [simp]: "\<not> ra_ContentBlockOpen (snd (resToAnthHandleBlockDone s))"
  by (simp add: resToAnthHandleBlockDone_def)

lemma sends_recover_parts [sending]: "sends s (recover_parts o1 i cs s)"
  by (induction cs arbitrary: i s) (auto intro!: sends_then sending)

lemma sends_recover_items [sending]: "sends s (recover_items o1 items s)"
  by (induction items arbitrary: o1 s) (auto intro!: sends_then sending)

lemma sends_terminal_text [sending]: "sends s (resToAnthRecoverTerminalText evt s)"
  by (rule terminal_text_cases [of evt s]) (auto intro!: sends_then sending)

lemma sends_web_search [sending]: "\<not> ra_ContentBlockOpen s \<Longrightarrow> sends s (web_search_blocks J item s)"
  by (auto simp: sends_def web_search_blocks_def view_def strict_client_def anth_client_def event_defs Let_def)

subsection \<open>The steps\<close>

lemma step_item_added:
  assumes "\<not> ra_ContentBlockOpen s" and "rv_Item e = Some item"
  shows "sends s (resToAnthHandleOutputItemAdded e s) \<and>
    phase_block (item_phase (rv_OutputIndex e) item) (snd (resToAnthHandleOutputItemAdded e s))"
  using assms
  by (auto simp: resToAnthHandleOutputItemAdded_def item_phase_def then_snd open_tool_def [of "rv_OutputIndex e"]
      open_thinking_def [of "rv_OutputIndex e"] closeCurrentBlock_def Let_def
      intro!: sends_then sending)

lemma step_args_delta:
  assumes "phase_block (RFunc (rv_OutputIndex e)) s"
  shows "sends s (resToAnthHandleFuncArgsDelta J e s) \<and>
    phase_block (RFunc (rv_OutputIndex e)) (snd (resToAnthHandleFuncArgsDelta J e s))"
  using assms
  by (auto simp: resToAnthHandleFuncArgsDelta_def Let_def view_def kind_of_def zero_delta_def case_prod_unfold
      intro!: sends_silent sends_delta)

lemma step_args_done:
  assumes "phase_block (RFunc (rv_OutputIndex e)) s"
  shows "sends s (resToAnthHandleFuncArgsDone J e s) \<and>
    \<not> ra_ContentBlockOpen (snd (resToAnthHandleFuncArgsDone J e s))"
proof -
  have "sends s ([block_delta (ra_ContentBlockIndex s) (zero_delta\<lparr>ad_Type := ''input_json_delta'', ad_PartialJSON := x\<rparr>)], s)" for x
    using assms by (intro sends_delta) (auto simp: kind_of_def zero_delta_def)
  then show ?thesis
    using assms by (auto simp: resToAnthHandleFuncArgsDone_def Let_def then_snd intro!: sends_then sending)
qed

lemma step_reasoning:
  assumes "phase_block (RReason (rv_OutputIndex e)) s"
  shows "sends s (resToAnthHandleReasoningDelta e s) \<and>
    phase_block (RReason (rv_OutputIndex e)) (snd (resToAnthHandleReasoningDelta e s))"
  using assms
  by (auto simp: resToAnthHandleReasoningDelta_def kind_of_def zero_delta_def intro!: sends_silent sends_delta)

lemma step_item_done:
  assumes "rv_Item e = Some item"
  shows "sends s (resToAnthHandleOutputItemDone J e s) \<and>
    \<not> ra_ContentBlockOpen (snd (resToAnthHandleOutputItemDone J e s))"
proof -
  have "sends s (closeCurrentBlock (s\<lparr>ra_PendingThinkingSignature := x\<rparr>))" for x
  proof -
    have v: "view (s\<lparr>ra_PendingThinkingSignature := x\<rparr>) = view s" by (simp add: view_def)
    show ?thesis using sends_close [of "s\<lparr>ra_PendingThinkingSignature := x\<rparr>"] by (simp add: sends_def v)
  qed
  with assms show ?thesis
    by (auto simp: resToAnthHandleOutputItemDone_def resToAnthHandleWebSearchDone_def Let_def view_def then_snd
        web_search_blocks_def [of J item "snd (closeCurrentBlock s)"] intro!: sends_then sending)
qed

lemma step_text:
  assumes "phase_block RMessage s" and "\<not> ra_MessageStopSent s"
  shows "sends s (resToAnthHandleTextDelta e s) \<and> phase_block RMessage (snd (resToAnthHandleTextDelta e s))"
    and "sends s (resToAnthHandleTextDone e s) \<and> phase_block RMessage (snd (resToAnthHandleTextDone e s))"
  using assms emit_block [OF assms(1)]
  by (auto simp: resToAnthHandleTextDelta_def resToAnthHandleTextDone_def then_snd intro!: sends_then sending)

lemma step_completed:
  assumes "ra_MessageStartSent s" and "\<not> ra_MessageStopSent s"
  shows "feed strict_client (view s) (fst (resToAnthHandleCompleted e s)) = Some (view (snd (resToAnthHandleCompleted e s))) \<and>
    strict_rel REnded (snd (resToAnthHandleCompleted e s)) (view (snd (resToAnthHandleCompleted e s)))"
proof -
  define r where "r = r2a_then (closeCurrentBlock s) (resToAnthRecoverTerminalText e)"
  have "sends s r" unfolding r_def by (intro sends_then sending)
  then have s1: "feed strict_client (view s) (fst r) = Some (view (snd r))"
    "ra_MessageStartSent (snd r)" "\<not> ra_MessageStopSent (snd r)"
    using assms by (simp_all add: sends_def)
  have cl: "\<not> ra_ContentBlockOpen (snd r)" by (simp add: r_def then_snd terminal_text_closed)
  define u where "u = (terminal_usage e (snd r))\<lparr>ra_MessageStopSent := True\<rparr>"
  have u: "ra_MessageStartSent u = ra_MessageStartSent (snd r)" "ra_ContentBlockIndex u = ra_ContentBlockIndex (snd r)"
    "ra_ContentBlockOpen u = ra_ContentBlockOpen (snd r)" "ra_MessageStopSent u"
    by (simp_all add: u_def terminal_usage_def set_usage_def Let_def split: option.split)
  have "feed strict_client (view (snd r)) (final_events reason s2) = Some (view u)" for reason s2
    using s1 cl u by (simp add: final_events_def strict_client_def anth_client_def view_def zero_aevent_def)
  then show ?thesis
    using s1 cl u assms(2)
    by (simp add: resToAnthHandleCompleted_def r_def [symmetric] then_fst [of r] then_snd [of r] feed_append
        strict_rel_def Let_def u_def [symmetric])
qed

lemma strict_step:
  assumes "sends s r" and "strict_rel p s c" and "p \<notin> {RBefore, REnded}" and "p' \<notin> {RBefore, REnded}"
    and "phase_block p' (snd r)"
  shows "\<exists>c'. feed strict_client c (fst r) = Some c' \<and> strict_rel p' (snd r) c'"
  using assms by (auto simp: strict_rel_def sends_def)

lemma item_phase_live: "item_phase i item \<notin> {RBefore, REnded}"
  by (simp add: item_phase_def)

lemma strict_created:
  "strict_rel RBefore s c \<Longrightarrow>
   \<exists>c'. feed strict_client c (fst (resToAnthHandleCreated e s)) = Some c' \<and> strict_rel RIdle (snd (resToAnthHandleCreated e s)) c'"
  by (auto simp: strict_rel_def view_def resToAnthHandleCreated_def strict_client_def anth_client_def zero_aevent_def Let_def
      split: option.split)

interpretation strict_stream: stream_converter "ResponsesEventToAnthropicEvents J" rprotocol strict_client strict_rel
  for J
proof
  fix p s c e p'
  assume r: "strict_rel p s c" and p: "rprotocol p e = Some p'"
  let ?T = "rv_Type e"
  have blk: "phase_block p s" and c: "c = view s" using r by (auto simp: strict_rel_def)
  consider "?T = ''response.created''" | "?T = ''response.output_item.added''"
    | "?T = ''response.output_text.delta''" | "?T = ''response.output_text.done''"
    | "?T \<in> {''response.function_call_arguments.delta'', ''response.custom_tool_call_input.delta''}"
    | "?T = ''response.function_call_arguments.done''"
    | "?T \<in> {''response.reasoning_summary_text.delta'', ''response.reasoning_text.delta''}"
    | "?T = ''response.output_item.done''"
    | "?T \<in> {''response.completed'', ''response.done'', ''response.incomplete'', ''response.failed''}"
    | "?T \<notin> {''response.created'', ''response.output_item.added'', ''response.output_text.delta'',
        ''response.output_text.done'', ''response.function_call_arguments.delta'',
        ''response.custom_tool_call_input.delta'', ''response.function_call_arguments.done'',
        ''response.reasoning_summary_text.delta'', ''response.reasoning_text.delta'',
        ''response.output_item.done'', ''response.completed'', ''response.done'', ''response.incomplete'',
        ''response.failed''}"
    by blast
  then show "\<exists>c'. feed strict_client c (fst (ResponsesEventToAnthropicEvents J e s)) = Some c' \<and>
      strict_rel p' (snd (ResponsesEventToAnthropicEvents J e s)) c'"
  proof cases
    case 1
    then have "p = RBefore" "p' = RIdle" using p by (auto simp: rprotocol_def split: if_splits)
    with strict_created r 1 show ?thesis by (simp add: ResponsesEventToAnthropicEvents_def)
  next
    case 2
    then obtain item where i: "rv_Item e = Some item" "p = RIdle" "p' = item_phase (rv_OutputIndex e) item"
      using p by (auto simp: rprotocol_def split: option.splits if_splits)
    with step_item_added [of s e item] blk have "sends s (resToAnthHandleOutputItemAdded e s)"
      "phase_block p' (snd (resToAnthHandleOutputItemAdded e s))" by auto
    with strict_step [OF _ r, of _ p'] i item_phase_live 2 show ?thesis
      by (simp add: ResponsesEventToAnthropicEvents_def)
  next
    case 3
    then have i: "p = RMessage" "p' = RMessage" using p by (auto simp: rprotocol_def split: if_splits)
    with step_text(1) [of s e] strict_step [OF _ r, of _ p'] blk r 3 show ?thesis
      by (simp add: ResponsesEventToAnthropicEvents_def strict_rel_def)
  next
    case 4
    then have i: "p = RMessage" "p' = RMessage" using p by (auto simp: rprotocol_def split: if_splits)
    with step_text(2) [of s e] strict_step [OF _ r, of _ p'] blk r 4 show ?thesis
      by (simp add: ResponsesEventToAnthropicEvents_def strict_rel_def)
  next
    case 5
    then have "p = RFunc (rv_OutputIndex e)" "p' = p" using p by (auto simp: rprotocol_def split: if_splits)
    with step_args_delta [of e s J] strict_step [OF _ r, of _ p'] blk 5 show ?thesis
      by (auto simp: ResponsesEventToAnthropicEvents_def)
  next
    case 6
    then have "p = RFunc (rv_OutputIndex e)" "p' = RFuncDone" using p by (auto simp: rprotocol_def split: if_splits)
    with step_args_done [of e s J] strict_step [OF _ r, of _ p'] blk 6 show ?thesis
      by (simp add: ResponsesEventToAnthropicEvents_def)
  next
    case 7
    then have "p = RReason (rv_OutputIndex e)" "p' = p" using p by (auto simp: rprotocol_def split: if_splits)
    with step_reasoning [of e s] strict_step [OF _ r, of _ p'] blk 7 show ?thesis
      by (auto simp: ResponsesEventToAnthropicEvents_def)
  next
    case 8
    then obtain item where i: "rv_Item e = Some item" "p \<notin> {RBefore, RIdle, REnded}" "p' = RIdle"
      using p by (auto simp: rprotocol_def split: option.splits if_splits)
    with step_item_done [of e item s J] strict_step [OF _ r, of _ p'] 8 show ?thesis
      by (simp add: ResponsesEventToAnthropicEvents_def)
  next
    case 9
    then have "p = RIdle" "p' = REnded" using p by (auto simp: rprotocol_def split: if_splits)
    with step_completed [of s e] r c 9 show ?thesis
      by (auto simp: ResponsesEventToAnthropicEvents_def strict_rel_def)
  next
    case 10
    then have "p' = p" using p by (simp add: rprotocol_def Let_def)
    moreover have "ResponsesEventToAnthropicEvents J e s = ([], s)"
      using 10 by (simp add: ResponsesEventToAnthropicEvents_def Let_def)
    ultimately show ?thesis using r by simp
  qed
qed

subsection \<open>The whole stream\<close>

text \<open>
  Property C25. On an upstream that sends its items one after another and then a terminal event, the
  converted stream satisfies the strict client: message start first, each delta into the open block
  and of its kind, blocks numbered and closed in turn, one message delta with message stop, nothing
  after it, and no block left open.
\<close>

theorem r2a_protocol_stream:
  assumes "feed rprotocol RBefore evts = Some REnded"
  shows "\<exists>c. feed strict_client anth_start
      (fst (convert_stream (ResponsesEventToAnthropicEvents J) evts (NewResponsesEventToAnthropicState now))) = Some c \<and>
    an_started c \<and> an_stopped c \<and> an_open c = None"
proof -
  have "strict_rel RBefore (NewResponsesEventToAnthropicState now) anth_start"
    by (simp add: strict_rel_def view_def NewResponsesEventToAnthropicState_def anth_start_def)
  from strict_stream.stream_rel [OF this assms, of J] show ?thesis
    by (auto simp: strict_rel_def view_def)
qed

definition sample_json :: json_env where
  "sample_json = \<lparr>js_valid = (\<lambda>s. suffix [CHR 0x7D] s), js_unmarshal = (\<lambda>s. None), js_marshal = (\<lambda>m. None),
                  js_query = (\<lambda>q. q)\<rparr>"

definition sample_item :: "string \<Rightarrow> ResponsesOutput" where
  "sample_item ty = zero_output\<lparr>ro_Type := ty, ro_ID := ty, ro_EncryptedContent := ''sig''\<rparr>"

definition sample_responses :: "ResponsesStreamEvent list" where
  "sample_responses =
     [zero_revent\<lparr>rv_Type := ''response.created''\<rparr>,
      zero_revent\<lparr>rv_Type := ''response.output_item.added'', rv_Item := Some (sample_item ''reasoning'')\<rparr>,
      zero_revent\<lparr>rv_Type := ''response.reasoning_summary_text.delta'', rv_Delta := ''hm''\<rparr>,
      zero_revent\<lparr>rv_Type := ''response.output_item.done'', rv_Item := Some (sample_item ''reasoning'')\<rparr>,
      zero_revent\<lparr>rv_Type := ''response.output_item.added'', rv_OutputIndex := 1, rv_Item := Some (sample_item ''message'')\<rparr>,
      zero_revent\<lparr>rv_Type := ''response.output_text.delta'', rv_OutputIndex := 1, rv_Delta := ''Hel''\<rparr>,
      zero_revent\<lparr>rv_Type := ''response.output_text.done'', rv_OutputIndex := 1, rv_Text := ''Hello''\<rparr>,
      zero_revent\<lparr>rv_Type := ''response.output_item.done'', rv_OutputIndex := 1, rv_Item := Some (sample_item ''message'')\<rparr>,
      zero_revent\<lparr>rv_Type := ''response.output_item.added'', rv_OutputIndex := 2, rv_Item := Some (sample_item ''function_call'')\<rparr>,
      zero_revent\<lparr>rv_Type := ''response.function_call_arguments.delta'', rv_OutputIndex := 2, rv_Delta := ''{}''\<rparr>,
      zero_revent\<lparr>rv_Type := ''response.function_call_arguments.done'', rv_OutputIndex := 2, rv_Arguments := ''{}''\<rparr>,
      zero_revent\<lparr>rv_Type := ''response.output_item.done'', rv_OutputIndex := 2, rv_Item := Some (sample_item ''function_call'')\<rparr>,
      zero_revent\<lparr>rv_Type := ''response.completed''\<rparr>]"

theorem r2a_protocol_stream_witness:
  "\<exists>c. feed strict_client anth_start
      (fst (convert_stream (ResponsesEventToAnthropicEvents sample_json) sample_responses
              (NewResponsesEventToAnthropicState 0))) = Some c \<and>
    an_started c \<and> an_stopped c \<and> an_open c = None"
  by (rule r2a_protocol_stream)
    (simp add: sample_responses_def sample_item_def rprotocol_def item_phase_def zero_revent_def zero_output_def)

subsection \<open>Recovered text\<close>

definition delivered_text :: "AnthropicStreamEvent list \<Rightarrow> string" where
  "delivered_text evs = concat (map (\<lambda>e. case ae_Delta e of
      Some d \<Rightarrow> if ae_Type e = ''content_block_delta'' \<and> ad_Type d = ''text_delta'' then ad_Text d else []
    | None \<Rightarrow> []) evs)"

lemma delivered_append [simp]: "delivered_text (xs @ ys) = delivered_text xs @ delivered_text ys"
  by (simp add: delivered_text_def)

lemma delivered_Nil [simp]: "delivered_text [] = []"
  by (simp add: delivered_text_def)

lemma delivered_close [simp]: "delivered_text (fst (closeCurrentBlock s)) = []"
  by (simp add: closeCurrentBlock_def delivered_text_def event_defs Let_def)

lemma delivered_block_done [simp]: "delivered_text (fst (resToAnthHandleBlockDone s)) = []"
  by (simp add: resToAnthHandleBlockDone_def)

lemma delivered_emit [simp]: "delivered_text (fst (resToAnthEmitText t part s)) = t"
  by (simp add: resToAnthEmitText_def then_fst open_text_def send_text_def Let_def)
    (simp add: delivered_text_def event_defs)

lemma text_close [simp]:
  "ra_textByPart (snd (closeCurrentBlock s)) = ra_textByPart s"
  "ra_textDelivered (snd (closeCurrentBlock s)) = ra_textDelivered s"
  by (simp_all add: closeCurrentBlock_def Let_def)

lemma text_emit:
  "t \<noteq> [] \<Longrightarrow> fmlookup (ra_textByPart (snd (resToAnthEmitText t part s))) part =
     Some ((case fmlookup (ra_textByPart s) part of None \<Rightarrow> [] | Some d \<Rightarrow> d) @ t)"
  by (simp add: resToAnthEmitText_def then_snd open_text_def send_text_def Let_def)

text \<open>
  The payload of output_text.done completes what was streamed: when some text of the
  part was delivered and the payload extends it, or when no text was delivered at all, exactly the
  missing tail is sent, after which the part's record is the payload and the block is closed; in every
  other case no text is sent.
\<close>

theorem text_done_recovers:
  assumes "\<not> ra_MessageStopSent s"
  shows "let part = resToAnthTextPartOf evt; r = resToAnthHandleTextDone evt s in
    (\<forall>d. (fmlookup (ra_textByPart s) part = Some d \<or>
            fmlookup (ra_textByPart s) part = None \<and> \<not> ra_textDelivered s \<and> d = []) \<longrightarrow>
          (if prefix d (rv_Text evt)
           then d @ delivered_text (fst r) = rv_Text evt \<and>
                (rv_Text evt \<noteq> [] \<longrightarrow> fmlookup (ra_textByPart (snd r)) part = Some (rv_Text evt))
           else delivered_text (fst r) = [] \<and> fmlookup (ra_textByPart (snd r)) part = Some d)) \<and>
    (fmlookup (ra_textByPart s) part = None \<and> ra_textDelivered s \<longrightarrow> delivered_text (fst r) = []) \<and>
    \<not> ra_ContentBlockOpen (snd r)"
proof -
  define part where "part = resToAnthTextPartOf evt"
  define r where "r = resToAnthHandleTextDone evt s"
  have rec: "resToAnthHandleTextDone evt s = r2a_then (resToAnthRecoverText (rv_Text evt) part s) resToAnthHandleBlockDone"
    using assms(1) by (simp add: resToAnthHandleTextDone_def part_def)
  have keep: "ra_textByPart (snd (resToAnthHandleBlockDone s')) = ra_textByPart s'" for s'
    by (simp add: resToAnthHandleBlockDone_def)
  have "if prefix d (rv_Text evt)
        then d @ delivered_text (fst r) = rv_Text evt \<and>
             (rv_Text evt \<noteq> [] \<longrightarrow> fmlookup (ra_textByPart (snd r)) part = Some (rv_Text evt))
        else delivered_text (fst r) = [] \<and> fmlookup (ra_textByPart (snd r)) part = Some d"
    if d: "fmlookup (ra_textByPart s) part = Some d \<or>
      fmlookup (ra_textByPart s) part = None \<and> \<not> ra_textDelivered s \<and> d = []" for d
  proof (cases "prefix d (rv_Text evt)")
    case True
    then obtain t where t: "rv_Text evt = d @ t" by (auto simp: prefix_def)
    show ?thesis
    proof (cases "t = []")
      case True
      then have "resToAnthRecoverText (rv_Text evt) part s = ([], s)"
        using t d unfolding resToAnthRecoverText_def by (elim disjE) (simp_all add: Let_def)
      with True t d show ?thesis by (elim disjE) (simp_all add: r_def rec then_fst then_snd keep)
    next
      case False
      then have "resToAnthRecoverText (rv_Text evt) part s = resToAnthEmitText t part s"
        using t d unfolding resToAnthRecoverText_def by (elim disjE) (simp_all add: has_prefix_def Let_def)
      with False t d text_emit [OF False, of part s] show ?thesis
        by (elim disjE) (simp_all add: r_def rec then_fst then_snd keep)
    qed
  next
    case False
    then have "d \<noteq> []" by auto
    with False have "resToAnthRecoverText (rv_Text evt) part s = ([], s)"
      using d unfolding resToAnthRecoverText_def by (simp add: has_prefix_def Let_def)
    with False d \<open>d \<noteq> []\<close> show ?thesis by (simp add: r_def rec then_fst then_snd keep)
  qed
  moreover have "fmlookup (ra_textByPart s) part = None \<and> ra_textDelivered s \<longrightarrow> delivered_text (fst r) = []"
    by (simp add: r_def rec then_fst resToAnthRecoverText_def)
  moreover have "\<not> ra_ContentBlockOpen (snd r)" by (simp add: r_def rec then_snd)
  ultimately show ?thesis unfolding Let_def part_def [symmetric] r_def [symmetric] by blast
qed

definition sample_running :: r2a_state where
  "sample_running = (NewResponsesEventToAnthropicState 0)\<lparr>ra_MessageStartSent := True,
     ra_textByPart := fmupd (0, 0) ''Hel'' fmempty, ra_textDelivered := True\<rparr>"

theorem text_done_recovers_witness:
  "delivered_text (fst (resToAnthHandleTextDone (zero_revent\<lparr>rv_Text := ''Hello''\<rparr>) sample_running)) = ''lo''"
proof -
  have "\<not> ra_MessageStopSent sample_running"
    by (simp add: sample_running_def NewResponsesEventToAnthropicState_def)
  from text_done_recovers [OF this, of "zero_revent\<lparr>rv_Text := ''Hello''\<rparr>"]
  have "(if prefix ''Hel'' ''Hello'' then ''Hel'' @ delivered_text (fst (resToAnthHandleTextDone (zero_revent\<lparr>rv_Text := ''Hello''\<rparr>) sample_running)) = ''Hello''
      else True)"
    by (auto simp: sample_running_def resToAnthTextPartOf_def zero_revent_def Let_def)
  then show ?thesis by simp
qed

definition output_text :: "ResponsesOutput list \<Rightarrow> string" where
  "output_text items = concat (map (\<lambda>item. if ro_Type item = ''message''
      then concat (map cp_Text (filter (\<lambda>c. cp_Type c = ''output_text'') (ro_Content item))) else []) items)"

text \<open>
  The terminal event delivers the answer at most once: when no text reached the client
  during the stream, it sends exactly the text of the message items of the final response, in order;
  when some text did, or the message was already stopped, it sends none.
\<close>

theorem terminal_text_once:
  "delivered_text (fst (resToAnthHandleCompleted evt s)) =
     (if ra_MessageStopSent s \<or> ra_textDelivered s then []
      else case rv_Response evt of None \<Rightarrow> [] | Some r \<Rightarrow> output_text (rr_Output r))"
proof -
  have parts: "delivered_text (fst (recover_parts o1 i cs s')) =
      concat (map cp_Text (filter (\<lambda>c. cp_Type c = ''output_text'') cs))" for o1 i cs s'
    by (induction cs arbitrary: i s') (auto simp: then_fst)
  have items: "delivered_text (fst (recover_items o1 items s')) = output_text items" for o1 items s'
    by (induction items arbitrary: o1 s') (auto simp: then_fst output_text_def parts)
  have terminal: "delivered_text (fst (resToAnthRecoverTerminalText evt s')) =
      (if ra_textDelivered s' then [] else case rv_Response evt of None \<Rightarrow> [] | Some r \<Rightarrow> output_text (rr_Output r))" for s'
  proof (cases "rv_Response evt")
    case None
    then show ?thesis by (simp add: resToAnthRecoverTerminalText_def delivered_text_def)
  next
    case (Some r)
    obtain evs s1 where e: "recover_items 0 (rr_Output r) s' = (evs, s1)" by force
    with items [of 0 "rr_Output r" s'] have "delivered_text evs = output_text (rr_Output r)" by simp
    with Some e show ?thesis
      by (auto simp: resToAnthRecoverTerminalText_def then_fst)
  qed
  have fin: "delivered_text (final_events reason s') = []" for reason s'
    by (simp add: delivered_text_def final_events_def zero_aevent_def)
  show ?thesis
    by (simp add: resToAnthHandleCompleted_def then_fst terminal fin Let_def)
qed

text \<open>A text delta after message stop still opens a block: the guard of the done handler is missing here.\<close>

lemma late_text_delta:
  assumes "ra_MessageStopSent s" and "\<not> ra_ContentBlockOpen s" and "rv_Delta evt \<noteq> []"
  shows "map ae_Type (fst (resToAnthHandleTextDelta evt s)) = [''content_block_start'', ''content_block_delta'']"
  using assms
  by (simp add: resToAnthHandleTextDelta_def resToAnthEmitText_def then_fst closeCurrentBlock_def open_text_def
      send_text_def event_defs Let_def)

end
