(* ===== verification/App_Errors.thy ===== *)
theory App_Errors
  imports Prelude
begin

section \<open>Application errors and decimal integers\<close>

text \<open>
  The error values of package errors (\<open>pkg/errors\<close>) and the two functions of package strconv the
  services use to carry a number in an error's metadata. A Go error is either an application error or
  any other error, of which only the message matters here; the cause of an application error is only
  logged and is left out.
\<close>

record ApplicationError =
  er_Code :: int
  er_Reason :: string
  er_Message :: string
  er_Metadata :: "(string, string) fmap option"

datatype go_error = App ApplicationError | Other string

definition NewError :: "int \<Rightarrow> string \<Rightarrow> string \<Rightarrow> ApplicationError" where
  "NewError code reason message =
     \<lparr>er_Code = code, er_Reason = reason, er_Message = message, er_Metadata = None\<rparr>"

definition WithMetadata :: "(string, string) fmap \<Rightarrow> ApplicationError \<Rightarrow> ApplicationError" where
  "WithMetadata md e = e\<lparr>er_Metadata := Some md\<rparr>"

definition BadRequest :: "string \<Rightarrow> string \<Rightarrow> ApplicationError" where
  "BadRequest = NewError 400"

definition Conflict :: "string \<Rightarrow> string \<Rightarrow> ApplicationError" where
  "Conflict = NewError 409"

definition InternalServer :: "string \<Rightarrow> string \<Rightarrow> ApplicationError" where
  "InternalServer = NewError 500"

definition ServiceUnavailable :: "string \<Rightarrow> string \<Rightarrow> ApplicationError" where
  "ServiceUnavailable = NewError 503"

fun FromError :: "go_error \<Rightarrow> ApplicationError" where
  "FromError (App e) = e"
| "FromError (Other m) = NewError 500 [] ''internal error''"

definition Reason :: "go_error \<Rightarrow> string" where
  "Reason e = er_Reason (FromError e)"

subsection \<open>Decimal integers\<close>

definition digit :: "nat \<Rightarrow> char" where
  "digit d = char_of (48 + d)"

fun itoa_nat :: "nat \<Rightarrow> string" where
  "itoa_nat n = (if n < 10 then [digit n] else itoa_nat (n div 10) @ [digit (n mod 10)])"

declare itoa_nat.simps [simp del]

definition Itoa :: "int \<Rightarrow> string" where
  "Itoa i = (if i < 0 then CHR ''-'' # itoa_nat (nat (- i)) else itoa_nat (nat i))"

definition digit_value :: "char \<Rightarrow> nat option" where
  "digit_value c = (let n = (of_char c :: nat) in if 48 \<le> n \<and> n \<le> 57 then Some (n - 48) else None)"

fun atoi_nat :: "nat \<Rightarrow> string \<Rightarrow> nat option" where
  "atoi_nat acc [] = Some acc"
| "atoi_nat acc (c # s) = (case digit_value c of None \<Rightarrow> None | Some d \<Rightarrow> atoi_nat (10 * acc + d) s)"

text \<open>\<open>strconv.Atoi\<close>: an optional sign, at least one digit, and a value that fits 64 bits.\<close>

definition Atoi :: "string \<Rightarrow> int option" where
  "Atoi s =
     (let (neg, ds) = (case s of c # r \<Rightarrow> if c = CHR ''-'' then (True, r) else if c = CHR ''+'' then (False, r) else (False, s)
                       | [] \<Rightarrow> (False, []))
      in if ds = [] then None
         else (case atoi_nat 0 ds of
                 None \<Rightarrow> None
               | Some n \<Rightarrow> (let i = (if neg then - int n else int n)
                            in if - (2 ^ 63) \<le> i \<and> i < 2 ^ 63 then Some i else None)))"

lemma digit_value_digit [simp]: "d < 10 \<Longrightarrow> digit_value (digit d) = Some d"
  by (simp add: digit_value_def digit_def)

lemma itoa_nat_ne [simp]: "itoa_nat n \<noteq> []"
  by (subst itoa_nat.simps) simp

lemma atoi_nat_append:
  "atoi_nat acc (s @ t) = (case atoi_nat acc s of None \<Rightarrow> None | Some a \<Rightarrow> atoi_nat a t)"
  by (induction acc s rule: atoi_nat.induct) (auto split: option.splits)

lemma atoi_itoa_nat: "atoi_nat 0 (itoa_nat n) = Some n"
proof (induction n rule: itoa_nat.induct)
  case (1 n)
  then show ?case
    by (cases "n < 10") (simp_all add: itoa_nat.simps [of n] atoi_nat_append)
qed

lemma itoa_nat_digits: "c \<in> set (itoa_nat n) \<Longrightarrow> 48 \<le> (of_char c :: nat) \<and> (of_char c :: nat) \<le> 57"
proof (induction n rule: itoa_nat.induct)
  case (1 n)
  then show ?case
    by (cases "n < 10") (auto simp: itoa_nat.simps [of n] digit_def)
qed

lemma itoa_nat_head: "itoa_nat n = c # s \<Longrightarrow> c \<noteq> CHR ''-'' \<and> c \<noteq> CHR ''+''"
  using itoa_nat_digits [of c n] by auto

lemma Atoi_Itoa: "- (2 ^ 63) \<le> i \<Longrightarrow> i < 2 ^ 63 \<Longrightarrow> Atoi (Itoa i) = Some i"
proof -
  assume b: "- (2 ^ 63) \<le> i" "i < 2 ^ 63"
  show ?thesis
  proof (cases "i < 0")
    case True
    with b show ?thesis by (simp add: Atoi_def Itoa_def atoi_itoa_nat Let_def)
  next
    case False
    obtain c r where cr: "itoa_nat (nat i) = c # r" by (cases "itoa_nat (nat i)") auto
    from atoi_itoa_nat [of "nat i"] have "atoi_nat 0 (c # r) = Some (nat i)" by (simp only: cr)
    with itoa_nat_head [OF cr] b False show ?thesis
      by (simp add: Atoi_def Itoa_def cr Let_def del: atoi_nat.simps)
  qed
qed

lemma Itoa_graphic: "c \<in> set (Itoa i) \<Longrightarrow> 33 \<le> (of_char c :: nat) \<and> (of_char c :: nat) \<le> 126"
  by (auto simp: Itoa_def split: if_splits dest!: itoa_nat_digits)

lemma Itoa_ne [simp]: "Itoa i \<noteq> []"
  by (simp add: Itoa_def)

lemma itoa_nat_inj: "itoa_nat m = itoa_nat n \<Longrightarrow> m = n"
  by (metis atoi_itoa_nat option.inject)

lemma Itoa_inj:
  assumes "Itoa i = Itoa j"
  shows "i = j"
proof -
  have "itoa_nat n \<noteq> CHR ''-'' # s" for n s using itoa_nat_head by blast
  then have "(i < 0) = (j < 0)" using assms by (auto simp: Itoa_def split: if_splits) metis+
  with assms show ?thesis by (auto simp: Itoa_def split: if_splits dest!: itoa_nat_inj)
qed

lemma Itoa_no_colon: "CHR '':'' \<notin> set (Itoa i)"
  by (auto simp: Itoa_def dest!: itoa_nat_digits)

subsection \<open>Strings without white space\<close>

text \<open>Trimming leaves a string of graphic ASCII characters alone.\<close>

definition graphic :: "char \<Rightarrow> bool" where
  "graphic c \<longleftrightarrow> 33 \<le> (of_char c :: nat) \<and> (of_char c :: nat) \<le> 126"

lemma space_not_graphic: "\<forall>w \<in> set space_runes. w \<noteq> [] \<and> (\<forall>c \<in> set w. \<not> graphic c)"
  by (simp add: space_runes_def graphic_def)

lemma trim_graphic: "\<forall>c \<in> set s. graphic c \<Longrightarrow> trim_space s = s"
proof -
  assume s: "\<forall>c \<in> set s. graphic c"
  have no: "\<not> prefix w s'" if "w \<in> set space_runes \<or> w \<in> set (map rev space_runes)" "w \<noteq> []" "set s' = set s" for w s'
  proof
    assume p: "prefix w s'"
    from that(1) obtain v where v: "v \<in> set space_runes" "set w = set v" by auto
    from that(2) obtain c where c: "c \<in> set w" by (cases w) auto
    with v space_not_graphic have "\<not> graphic c" by blast
    moreover from c p that(3) have "c \<in> set s" by (auto dest!: set_mono_prefix)
    ultimately show False using s by blast
  qed
  have "strip_runes space_runes s = s" by (rule strip_runes_id) (use no in auto)
  moreover have "strip_runes (map rev space_runes) (rev s) = rev s"
    by (rule strip_runes_id) (use no [of _ "rev s"] in \<open>auto simp del: set_map\<close>)
  ultimately show ?thesis by (simp add: trim_space_def trim_left_def trim_right_def)
qed

lemma strip_runes_last:
  assumes "\<forall>w \<in> set ws. w \<noteq> [] \<longrightarrow> \<not> graphic (last w)"
  shows "s \<noteq> [] \<Longrightarrow> graphic (last s) \<Longrightarrow> strip_runes ws s \<noteq> [] \<and> last (strip_runes ws s) = last s"
  using assms
proof (induction ws s rule: strip_runes.induct)
  case (1 ws s)
  show ?case
  proof (cases "find (\<lambda>w. w \<noteq> [] \<and> prefix w s) ws")
    case None
    with "1.prems" show ?thesis by (simp add: strip_runes.simps [of ws s])
  next
    case (Some w)
    then have w: "w \<in> set ws" "w \<noteq> []" "prefix w s" by (auto simp: find_Some_iff)
    then obtain t where t: "s = w @ t" by (auto elim: prefixE)
    with w "1.prems" have "t \<noteq> []" by auto
    moreover have "strip_runes ws s = strip_runes ws t"
      using Some t by (subst strip_runes.simps) simp
    ultimately show ?thesis using "1.IH" [OF Some] t "1.prems" by simp
  qed
qed

lemma trim_space_ne:
  assumes "graphic (last s)" and "s \<noteq> []"
  shows "trim_space s \<noteq> []"
proof -
  let ?u = "strip_runes space_runes s"
  have "\<forall>w \<in> set space_runes. w \<noteq> [] \<longrightarrow> \<not> graphic (last w)" using space_not_graphic by fastforce
  from strip_runes_last [OF this assms(2,1)] have u: "?u \<noteq> []" "graphic (last ?u)" using assms(1) by simp_all
  have "strip_runes (map rev space_runes) (rev ?u) = rev ?u"
  proof (rule strip_runes_id, clarify)
    fix w assume w: "w \<in> set (map rev space_runes)" "w \<noteq> []" "prefix w (rev ?u)"
    then obtain v where v: "v \<in> set space_runes" "w = rev v" by auto
    from w(2,3) have "hd w = hd (rev ?u)" by (auto elim!: prefixE)
    then have "last v = last ?u" using v u(1) w(2) by (simp add: hd_rev)
    moreover have "\<not> graphic (last v)" using space_not_graphic v w(2) by fastforce
    ultimately show False using u(2) by simp
  qed
  with u(1) show ?thesis by (simp add: trim_space_def trim_left_def trim_right_def)
qed

end
