(* ===== verification/Idempotency_Keys.thy ===== *)
theory Idempotency_Keys
  imports App_Errors
begin

section \<open>Idempotency keys, fingerprints and stored bodies\<close>

text \<open>
  The data types and pure helpers of \<open>service/idempotency.go\<close>: statuses, errors, records,
  configuration and options, key normalisation, the request fingerprint, the retry-after hint and the
  bounded form of a stored response. SHA-256, JSON coding and log redaction are parameters.
\<close>

definition IdempotencyStatusProcessing :: string where
  "IdempotencyStatusProcessing = ''processing''"

definition IdempotencyStatusSucceeded :: string where
  "IdempotencyStatusSucceeded = ''succeeded''"

definition IdempotencyStatusFailedRetryable :: string where
  "IdempotencyStatusFailedRetryable = ''failed_retryable''"

lemmas idem_status = IdempotencyStatusProcessing_def IdempotencyStatusSucceeded_def
  IdempotencyStatusFailedRetryable_def

definition ErrIdempotencyKeyRequired :: ApplicationError where
  "ErrIdempotencyKeyRequired = BadRequest ''IDEMPOTENCY_KEY_REQUIRED'' ''idempotency key is required''"

definition ErrIdempotencyKeyInvalid :: ApplicationError where
  "ErrIdempotencyKeyInvalid = BadRequest ''IDEMPOTENCY_KEY_INVALID'' ''idempotency key is invalid''"

definition ErrIdempotencyKeyConflict :: ApplicationError where
  "ErrIdempotencyKeyConflict =
     Conflict ''IDEMPOTENCY_KEY_CONFLICT'' ''idempotency key reused with different payload''"

definition ErrIdempotencyInProgress :: ApplicationError where
  "ErrIdempotencyInProgress =
     Conflict ''IDEMPOTENCY_IN_PROGRESS'' ''idempotent request is still processing''"

definition ErrIdempotencyRetryBackoff :: ApplicationError where
  "ErrIdempotencyRetryBackoff =
     Conflict ''IDEMPOTENCY_RETRY_BACKOFF'' ''idempotent request is in retry backoff window''"

definition ErrIdempotencyStoreUnavail :: ApplicationError where
  "ErrIdempotencyStoreUnavail =
     ServiceUnavailable ''IDEMPOTENCY_STORE_UNAVAILABLE'' ''idempotency store unavailable''"

definition ErrIdempotencyInvalidPayload :: ApplicationError where
  "ErrIdempotencyInvalidPayload =
     BadRequest ''IDEMPOTENCY_PAYLOAD_INVALID'' ''failed to normalize request payload''"

lemmas idem_errors = ErrIdempotencyKeyRequired_def ErrIdempotencyKeyInvalid_def
  ErrIdempotencyKeyConflict_def ErrIdempotencyInProgress_def ErrIdempotencyRetryBackoff_def
  ErrIdempotencyStoreUnavail_def ErrIdempotencyInvalidPayload_def
  BadRequest_def Conflict_def ServiceUnavailable_def NewError_def

record IdempotencyRecord =
  ir_ID :: int
  ir_Scope :: string
  ir_KeyHash :: string
  ir_Fingerprint :: string
  ir_Status :: string
  ir_ResponseStatus :: "int option"
  ir_ResponseBody :: "string option"
  ir_ErrorReason :: "string option"
  ir_LockedUntil :: "gotime option"
  ir_ExpiresAt :: gotime
  ir_CreatedAt :: gotime
  ir_UpdatedAt :: gotime

record IdempotencyConfig =
  ic_DefaultTTL :: duration
  ic_SystemOperationTTL :: duration
  ic_ProcessingTimeout :: duration
  ic_FailedRetryBackoff :: duration
  ic_MaxStoredResponseLen :: int
  ic_ObserveOnly :: bool

definition DefaultIdempotencyConfig :: IdempotencyConfig where
  "DefaultIdempotencyConfig =
     \<lparr>ic_DefaultTTL = 24 * hour, ic_SystemOperationTTL = 1 * hour, ic_ProcessingTimeout = 30 * second,
      ic_FailedRetryBackoff = 5 * second, ic_MaxStoredResponseLen = 64 * 1024, ic_ObserveOnly = True\<rparr>"

definition DefaultWriteIdempotencyTTL :: "IdempotencyConfig option \<Rightarrow> duration" where
  "DefaultWriteIdempotencyTTL coordinator =
     (case coordinator of
        Some cfg \<Rightarrow> if 0 < ic_DefaultTTL cfg then ic_DefaultTTL cfg else ic_DefaultTTL DefaultIdempotencyConfig
      | None \<Rightarrow> ic_DefaultTTL DefaultIdempotencyConfig)"

definition DefaultSystemOperationIdempotencyTTL :: "IdempotencyConfig option \<Rightarrow> duration" where
  "DefaultSystemOperationIdempotencyTTL coordinator =
     (case coordinator of
        Some cfg \<Rightarrow> if 0 < ic_SystemOperationTTL cfg then ic_SystemOperationTTL cfg
                    else ic_SystemOperationTTL DefaultIdempotencyConfig
      | None \<Rightarrow> ic_SystemOperationTTL DefaultIdempotencyConfig)"

text \<open>The code not modelled: JSON coding, SHA-256 in hexadecimal, and log redaction.\<close>

record 'd idem_env =
  ie_sha256 :: "string \<Rightarrow> string"
  ie_marshal :: "'d \<Rightarrow> string option"
  ie_unmarshal :: "string \<Rightarrow> 'd option"
  ie_redact :: "string \<Rightarrow> string"
  ie_empty :: 'd

record 'd IdempotencyExecuteOptions =
  io_Scope :: string
  io_ActorScope :: string
  io_Method :: string
  io_Route :: string
  io_IdempotencyKey :: string
  io_Payload :: 'd
  io_TTL :: duration
  io_RequireKey :: bool
  io_ExecutionTimeout :: duration

record 'd IdempotencyExecuteResult =
  rs_Data :: 'd
  rs_Replayed :: bool

subsection \<open>Keys\<close>

text \<open>
  The loop of the source ranges over code points; a byte outside 33 to 126 either is such a code point
  or belongs to one beyond 126 (or to an encoding error, which reads as 65533).
\<close>

definition NormalizeIdempotencyKey :: "string \<Rightarrow> ApplicationError + string" where
  "NormalizeIdempotencyKey raw =
     (let key = trim_space raw
      in if key = [] then Inr []
         else if 128 < length key then Inl ErrIdempotencyKeyInvalid
         else if list_all graphic key then Inr key
         else Inl ErrIdempotencyKeyInvalid)"

text \<open>
  A key is accepted exactly when what is left after trimming has at most 128 bytes, all
  graphic ASCII; it is stored trimmed, and normalising an accepted key again gives the same key.
\<close>

theorem normalize_key_sound:
  "case NormalizeIdempotencyKey raw of
     Inr key \<Rightarrow> key = trim_space raw \<and> length key \<le> 128 \<and> list_all graphic key \<and>
       NormalizeIdempotencyKey key = Inr key
   | Inl e \<Rightarrow> e = ErrIdempotencyKeyInvalid \<and>
       (128 < length (trim_space raw) \<or> (\<exists>c. c \<in> set (trim_space raw) \<and> \<not> graphic c))"
proof (cases "NormalizeIdempotencyKey raw")
  case (Inr key)
  then have "key = trim_space raw \<and> length key \<le> 128 \<and> list_all graphic key"
    by (auto simp: NormalizeIdempotencyKey_def Let_def split: if_splits)
  then show ?thesis using Inr by (auto simp: NormalizeIdempotencyKey_def Let_def split: if_splits)
next
  case (Inl e)
  then show ?thesis
    by (auto simp: NormalizeIdempotencyKey_def Let_def list_all_iff split: if_splits)
qed

definition HashIdempotencyKey :: "'d idem_env \<Rightarrow> string \<Rightarrow> string" where
  "HashIdempotencyKey E key = ie_sha256 E key"

definition upper_byte :: "char \<Rightarrow> char" where
  "upper_byte c = (let n = (of_char c :: nat) in if 97 \<le> n \<and> n \<le> 122 then char_of (n - 32) else c)"

definition BuildIdempotencyFingerprint ::
    "'d idem_env \<Rightarrow> string \<Rightarrow> string \<Rightarrow> string \<Rightarrow> 'd \<Rightarrow> ApplicationError + string" where
  "BuildIdempotencyFingerprint E method0 route0 actor0 payload =
     (let m = (if method0 = [] then ''POST'' else method0);
          route = (if route0 = [] then ''/'' else route0);
          actorScope = (if actor0 = [] then ''anonymous'' else actor0)
      in case ie_marshal E payload of
           None \<Rightarrow> Inl ErrIdempotencyInvalidPayload
         | Some raw \<Rightarrow>
             Inr (ie_sha256 E (map upper_byte m @ [CHR 0x0A] @ route @ [CHR 0x0A] @ actorScope @ [CHR 0x0A] @ raw)))"

subsection \<open>The retry-after hint\<close>

text \<open>
  Truncating the seconds of a duration is exact in the source's floating point for durations below
  48 days; the hint is at least one second.
\<close>

definition retry_seconds :: "gotime \<Rightarrow> gotime \<Rightarrow> int" where
  "retry_seconds lockedUntil now =
     (let d = time_sub lockedUntil now; sec = (if 0 \<le> d then d div second else - ((- d) div second))
      in if sec \<le> 0 then 1 else sec)"

definition conflictWithRetryAfter :: "ApplicationError \<Rightarrow> gotime option \<Rightarrow> gotime \<Rightarrow> ApplicationError" where
  "conflictWithRetryAfter base lockedUntil now =
     (case lockedUntil of
        None \<Rightarrow> base
      | Some until \<Rightarrow> WithMetadata (fmupd ''retry_after'' (Itoa (retry_seconds until now)) fmempty) base)"

definition RetryAfterSecondsFromError :: "go_error \<Rightarrow> int" where
  "RetryAfterSecondsFromError err =
     (case err of
        Other m \<Rightarrow> 0
      | App e \<Rightarrow>
          (case er_Metadata e of
             None \<Rightarrow> 0
           | Some md \<Rightarrow>
               (let v = trim_space (case fmlookup md ''retry_after'' of None \<Rightarrow> [] | Some x \<Rightarrow> x)
                in if v = [] then 0
                   else (case Atoi v of
                           None \<Rightarrow> 0
                         | Some seconds \<Rightarrow> if seconds \<le> 0 then 0 else seconds))))"

lemma retry_seconds_bounds: "1 \<le> retry_seconds u t \<and> retry_seconds u t < 2 ^ 63"
proof -
  have "time_sub u t div second \<le> time_sub u t" if "0 \<le> time_sub u t"
    using zdiv_mono2 [of "time_sub u t" 1 second] that by (simp add: second_def)
  moreover have "time_sub u t \<le> 2 ^ 63 - 1" by (simp add: time_sub_def)
  moreover have "(- time_sub u t) div second \<ge> 0" if "\<not> 0 \<le> time_sub u t"
    using that by (simp add: second_def)
  ultimately show ?thesis by (auto simp: retry_seconds_def Let_def)
qed

text \<open>
  The hint the client reads from a conflict error is the number of whole seconds the
  lock is still held, but at least one second, and 0 exactly when the row has no lock time.
\<close>

theorem retry_after_round_trip:
  "RetryAfterSecondsFromError (App (conflictWithRetryAfter (NewError code reason message) lockedUntil now)) =
     (case lockedUntil of None \<Rightarrow> 0 | Some until \<Rightarrow> max 1 (time_sub until now div second))"
proof (cases lockedUntil)
  case None
  then show ?thesis
    by (simp add: RetryAfterSecondsFromError_def conflictWithRetryAfter_def NewError_def)
next
  case (Some until)
  have trim: "trim_space (Itoa (retry_seconds until now)) = Itoa (retry_seconds until now)"
    by (rule trim_graphic) (auto simp: graphic_def dest: Itoa_graphic)
  have "Atoi (Itoa (retry_seconds until now)) = Some (retry_seconds until now)"
    using retry_seconds_bounds [of until now] by (intro Atoi_Itoa) auto
  then have "RetryAfterSecondsFromError (App (conflictWithRetryAfter (NewError code reason message) lockedUntil now)) =
      retry_seconds until now"
    using Some retry_seconds_bounds [of until now]
    by (simp add: RetryAfterSecondsFromError_def conflictWithRetryAfter_def WithMetadata_def trim Let_def)
  moreover have "retry_seconds until now = max 1 (time_sub until now div second)"
    by (auto simp: retry_seconds_def Let_def max_def second_def)
  ultimately show ?thesis using Some by simp
qed

end
