(* ===== verification/Idempotency_Store.thy ===== *)
theory Idempotency_Store
  imports Idempotency_Keys
begin

section \<open>The idempotency store\<close>

text \<open>
  The repository interface of \<open>service/idempotency.go\<close> as a record of operations on a store, the
  statements of \<open>repository/idempotency_repo.go\<close> on a table of rows, and the contract between them.
  Each statement is atomic and takes the database clock, which the table writes as created_at and
  updated_at.
\<close>

subsection \<open>The interface\<close>

record 't IdempotencyRepository =
  rp_CreateProcessing :: "gotime \<Rightarrow> IdempotencyRecord \<Rightarrow> 't \<Rightarrow> int option \<times> 't"
  rp_GetByScopeAndKeyHash :: "string \<Rightarrow> string \<Rightarrow> 't \<Rightarrow> IdempotencyRecord option"
  rp_TryReclaim :: "gotime \<Rightarrow> int \<Rightarrow> string \<Rightarrow> gotime \<Rightarrow> gotime \<Rightarrow> gotime \<Rightarrow> 't \<Rightarrow> bool \<times> 't"
  rp_ExtendProcessingLock :: "gotime \<Rightarrow> int \<Rightarrow> string \<Rightarrow> gotime \<Rightarrow> gotime \<Rightarrow> 't \<Rightarrow> bool \<times> 't"
  rp_MarkSucceeded :: "gotime \<Rightarrow> int \<Rightarrow> int \<Rightarrow> string \<Rightarrow> gotime \<Rightarrow> 't \<Rightarrow> 't"
  rp_MarkFailedRetryable :: "gotime \<Rightarrow> int \<Rightarrow> string \<Rightarrow> gotime \<Rightarrow> gotime \<Rightarrow> 't \<Rightarrow> 't"
  rp_DeleteExpired :: "gotime \<Rightarrow> int \<Rightarrow> 't \<Rightarrow> int \<times> 't"

text \<open>What the coordinator relies on, with the timestamps the database writes left open.\<close>

definition same_row :: "IdempotencyRecord \<Rightarrow> IdempotencyRecord \<Rightarrow> bool" where
  "same_row r q \<longleftrightarrow> r\<lparr>ir_CreatedAt := 0, ir_UpdatedAt := 0\<rparr> = q\<lparr>ir_CreatedAt := 0, ir_UpdatedAt := 0\<rparr>"

definition may_reclaim :: "string \<Rightarrow> gotime \<Rightarrow> IdempotencyRecord \<Rightarrow> bool" where
  "may_reclaim fromStatus now r \<longleftrightarrow>
     ir_Status r = fromStatus \<and> (case ir_LockedUntil r of None \<Rightarrow> True | Some u \<Rightarrow> u \<le> now)"

locale idempotency_repository =
  fixes R :: "'t IdempotencyRepository" and ok :: "'t \<Rightarrow> bool"
  assumes create_new: "ok t \<Longrightarrow> rp_GetByScopeAndKeyHash R (ir_Scope r) (ir_KeyHash r) t = None \<Longrightarrow>
      \<exists>i q t'. rp_CreateProcessing R now r t = (Some i, t') \<and> i \<noteq> 0 \<and> ok t' \<and>
        rp_GetByScopeAndKeyHash R (ir_Scope r) (ir_KeyHash r) t' = Some q \<and>
        same_row q (r\<lparr>ir_ID := i, ir_ResponseStatus := None, ir_ResponseBody := None, ir_ErrorReason := None\<rparr>)"
    and create_old: "ok t \<Longrightarrow> rp_GetByScopeAndKeyHash R (ir_Scope r) (ir_KeyHash r) t = Some q \<Longrightarrow>
      \<exists>t'. rp_CreateProcessing R now r t = (None, t') \<and> ok t' \<and>
        rp_GetByScopeAndKeyHash R (ir_Scope r) (ir_KeyHash r) t' = Some q"
    and get_id: "ok t \<Longrightarrow> rp_GetByScopeAndKeyHash R s k t = Some q \<Longrightarrow> ir_ID q \<noteq> 0"
    and reclaim: "ok t \<Longrightarrow> rp_GetByScopeAndKeyHash R s k t = Some q \<Longrightarrow>
      \<exists>q' t'. rp_TryReclaim R dbnow (ir_ID q) from now lu ex t = (may_reclaim from now q, t') \<and> ok t' \<and>
        rp_GetByScopeAndKeyHash R s k t' = Some q' \<and>
        same_row q' (if may_reclaim from now q
          then q\<lparr>ir_Status := IdempotencyStatusProcessing, ir_LockedUntil := Some lu, ir_ErrorReason := None, ir_ExpiresAt := ex\<rparr>
          else q)"
    and succeed: "ok t \<Longrightarrow> rp_GetByScopeAndKeyHash R s k t = Some q \<Longrightarrow>
      ok (rp_MarkSucceeded R dbnow (ir_ID q) code body ex t) \<and>
      (\<exists>q'. rp_GetByScopeAndKeyHash R s k (rp_MarkSucceeded R dbnow (ir_ID q) code body ex t) = Some q' \<and>
        same_row q' (q\<lparr>ir_Status := IdempotencyStatusSucceeded, ir_ResponseStatus := Some code, ir_ResponseBody := Some body,
          ir_ErrorReason := None, ir_LockedUntil := None, ir_ExpiresAt := ex\<rparr>))"
    and fail: "ok t \<Longrightarrow> rp_GetByScopeAndKeyHash R s k t = Some q \<Longrightarrow>
      ok (rp_MarkFailedRetryable R dbnow (ir_ID q) reason lu ex t) \<and>
      (\<exists>q'. rp_GetByScopeAndKeyHash R s k (rp_MarkFailedRetryable R dbnow (ir_ID q) reason lu ex t) = Some q' \<and>
        same_row q' (q\<lparr>ir_Status := IdempotencyStatusFailedRetryable, ir_ErrorReason := Some reason,
          ir_LockedUntil := Some lu, ir_ExpiresAt := ex\<rparr>))"

subsection \<open>The table\<close>

record idem_table =
  it_rows :: "IdempotencyRecord list"
  it_next :: int

definition row_of :: "string \<Rightarrow> string \<Rightarrow> IdempotencyRecord \<Rightarrow> bool" where
  "row_of scope keyHash r \<longleftrightarrow> ir_Scope r = scope \<and> ir_KeyHash r = keyHash"

text \<open>
  INSERT with ON CONFLICT DO NOTHING: the unique index on scope and key hash decides; the sequence
  behind the identifier advances either way.
\<close>

definition CreateProcessing :: "gotime \<Rightarrow> IdempotencyRecord \<Rightarrow> idem_table \<Rightarrow> int option \<times> idem_table" where
  "CreateProcessing dbnow rec t =
     (if list_ex (row_of (ir_Scope rec) (ir_KeyHash rec)) (it_rows t) then (None, t\<lparr>it_next := it_next t + 1\<rparr>)
      else (Some (it_next t),
            t\<lparr>it_rows := it_rows t @ [rec\<lparr>ir_ID := it_next t, ir_ResponseStatus := None, ir_ResponseBody := None,
                 ir_ErrorReason := None, ir_CreatedAt := dbnow, ir_UpdatedAt := dbnow\<rparr>],
              it_next := it_next t + 1\<rparr>))"

definition GetByScopeAndKeyHash :: "string \<Rightarrow> string \<Rightarrow> idem_table \<Rightarrow> IdempotencyRecord option" where
  "GetByScopeAndKeyHash scope keyHash t = find (row_of scope keyHash) (it_rows t)"

text \<open>UPDATE with a condition; the number of rows affected.\<close>

definition update_rows ::
    "(IdempotencyRecord \<Rightarrow> bool) \<Rightarrow> (IdempotencyRecord \<Rightarrow> IdempotencyRecord) \<Rightarrow> idem_table \<Rightarrow> nat \<times> idem_table"
where
  "update_rows p f t =
     (length (filter p (it_rows t)), t\<lparr>it_rows := map (\<lambda>r. if p r then f r else r) (it_rows t)\<rparr>)"

definition TryReclaim ::
    "gotime \<Rightarrow> int \<Rightarrow> string \<Rightarrow> gotime \<Rightarrow> gotime \<Rightarrow> gotime \<Rightarrow> idem_table \<Rightarrow> bool \<times> idem_table" where
  "TryReclaim dbnow i fromStatus now newLockedUntil newExpiresAt t =
     (case update_rows (\<lambda>r. ir_ID r = i \<and> may_reclaim fromStatus now r)
             (\<lambda>r. r\<lparr>ir_Status := IdempotencyStatusProcessing, ir_LockedUntil := Some newLockedUntil,
                    ir_ErrorReason := None, ir_UpdatedAt := dbnow, ir_ExpiresAt := newExpiresAt\<rparr>) t of
        (affected, t') \<Rightarrow> (0 < affected, t'))"

definition ExtendProcessingLock ::
    "gotime \<Rightarrow> int \<Rightarrow> string \<Rightarrow> gotime \<Rightarrow> gotime \<Rightarrow> idem_table \<Rightarrow> bool \<times> idem_table" where
  "ExtendProcessingLock dbnow i requestFingerprint newLockedUntil newExpiresAt t =
     (case update_rows (\<lambda>r. ir_ID r = i \<and> ir_Status r = IdempotencyStatusProcessing \<and> ir_Fingerprint r = requestFingerprint)
             (\<lambda>r. r\<lparr>ir_LockedUntil := Some newLockedUntil, ir_ExpiresAt := newExpiresAt, ir_UpdatedAt := dbnow\<rparr>) t of
        (affected, t') \<Rightarrow> (0 < affected, t'))"

definition MarkSucceeded :: "gotime \<Rightarrow> int \<Rightarrow> int \<Rightarrow> string \<Rightarrow> gotime \<Rightarrow> idem_table \<Rightarrow> idem_table" where
  "MarkSucceeded dbnow i responseStatus responseBody expiresAt t =
     snd (update_rows (\<lambda>r. ir_ID r = i)
            (\<lambda>r. r\<lparr>ir_Status := IdempotencyStatusSucceeded, ir_ResponseStatus := Some responseStatus,
                   ir_ResponseBody := Some responseBody, ir_ErrorReason := None, ir_LockedUntil := None,
                   ir_ExpiresAt := expiresAt, ir_UpdatedAt := dbnow\<rparr>) t)"

definition MarkFailedRetryable :: "gotime \<Rightarrow> int \<Rightarrow> string \<Rightarrow> gotime \<Rightarrow> gotime \<Rightarrow> idem_table \<Rightarrow> idem_table" where
  "MarkFailedRetryable dbnow i errorReason lockedUntil expiresAt t =
     snd (update_rows (\<lambda>r. ir_ID r = i)
            (\<lambda>r. r\<lparr>ir_Status := IdempotencyStatusFailedRetryable, ir_ErrorReason := Some errorReason,
                   ir_LockedUntil := Some lockedUntil, ir_ExpiresAt := expiresAt, ir_UpdatedAt := dbnow\<rparr>) t)"

text \<open>The oldest expired rows first, at most \<open>limit\<close> of them, 500 when no limit is given.\<close>

definition DeleteExpired :: "gotime \<Rightarrow> int \<Rightarrow> idem_table \<Rightarrow> int \<times> idem_table" where
  "DeleteExpired now limit0 t =
     (let limit = (if limit0 \<le> 0 then 500 else limit0);
          victims = take (nat limit) (slice_stable (\<lambda>a b. ir_ExpiresAt a < ir_ExpiresAt b)
                      (filter (\<lambda>r. ir_ExpiresAt r \<le> now) (it_rows t)));
          ids = map ir_ID victims
      in (int (length (filter (\<lambda>r. ir_ID r \<in> set ids) (it_rows t))),
          t\<lparr>it_rows := filter (\<lambda>r. ir_ID r \<notin> set ids) (it_rows t)\<rparr>))"

definition idempotencyRepository :: "idem_table IdempotencyRepository" where
  "idempotencyRepository =
     \<lparr>rp_CreateProcessing = CreateProcessing, rp_GetByScopeAndKeyHash = GetByScopeAndKeyHash,
      rp_TryReclaim = TryReclaim, rp_ExtendProcessingLock = ExtendProcessingLock,
      rp_MarkSucceeded = MarkSucceeded, rp_MarkFailedRetryable = MarkFailedRetryable,
      rp_DeleteExpired = DeleteExpired\<rparr>"

subsection \<open>The table keeps its constraints\<close>

text \<open>
  Identifiers are unique, positive and below the sequence; scope and key hash together are unique.
\<close>

definition table_ok :: "idem_table \<Rightarrow> bool" where
  "table_ok t \<longleftrightarrow> 0 < it_next t \<and> distinct (map ir_ID (it_rows t)) \<and>
     distinct (map (\<lambda>r. (ir_Scope r, ir_KeyHash r)) (it_rows t)) \<and>
     (\<forall>r \<in> set (it_rows t). 0 < ir_ID r \<and> ir_ID r < it_next t)"

definition keeps_key :: "(IdempotencyRecord \<Rightarrow> IdempotencyRecord) \<Rightarrow> bool" where
  "keeps_key f \<longleftrightarrow> (\<forall>r. ir_ID (f r) = ir_ID r \<and> ir_Scope (f r) = ir_Scope r \<and> ir_KeyHash (f r) = ir_KeyHash r)"

lemma update_rows_ok:
  assumes "table_ok t" and "keeps_key f"
  shows "table_ok (snd (update_rows p f t))"
proof -
  have "map ir_ID (map (\<lambda>r. if p r then f r else r) rs) = map ir_ID rs"
    "map (\<lambda>r. (ir_Scope r, ir_KeyHash r)) (map (\<lambda>r. if p r then f r else r) rs) = map (\<lambda>r. (ir_Scope r, ir_KeyHash r)) rs"
    for rs using assms(2) by (induction rs) (auto simp: keeps_key_def)
  with assms show ?thesis by (auto simp: table_ok_def update_rows_def keeps_key_def simp del: map_map)
qed

lemma find_update:
  assumes "keeps_key f"
  shows "GetByScopeAndKeyHash s k (snd (update_rows p f t)) =
    map_option (\<lambda>r. if p r then f r else r) (GetByScopeAndKeyHash s k t)"
proof -
  have "find (row_of s k) (map (\<lambda>r. if p r then f r else r) rs) =
      map_option (\<lambda>r. if p r then f r else r) (find (row_of s k) rs)" for rs
    using assms by (induction rs) (auto simp: row_of_def keeps_key_def)
  then show ?thesis by (simp add: GetByScopeAndKeyHash_def update_rows_def)
qed

lemma get_in: "GetByScopeAndKeyHash s k t = Some r \<Longrightarrow> r \<in> set (it_rows t) \<and> ir_Scope r = s \<and> ir_KeyHash r = k"
  by (auto simp: GetByScopeAndKeyHash_def find_Some_iff row_of_def)

lemma same_id: "table_ok t \<Longrightarrow> r \<in> set (it_rows t) \<Longrightarrow> q \<in> set (it_rows t) \<Longrightarrow> ir_ID r = ir_ID q \<Longrightarrow> r = q"
  by (auto simp: table_ok_def distinct_map dest: inj_onD)

lemma affected_one:
  assumes "table_ok t" and "q \<in> set (it_rows t)"
  shows "0 < fst (update_rows (\<lambda>r. ir_ID r = ir_ID q \<and> P r) f t) \<longleftrightarrow> P q"
  using assms same_id [OF assms(1) _ assms(2)] by (auto simp: update_rows_def filter_empty_conv)

lemma keeps [simp]:
  "keeps_key (\<lambda>r. r\<lparr>ir_Status := a, ir_LockedUntil := b, ir_ErrorReason := c, ir_UpdatedAt := d, ir_ExpiresAt := e\<rparr>)"
  "keeps_key (\<lambda>r. r\<lparr>ir_LockedUntil := b, ir_ExpiresAt := e, ir_UpdatedAt := d\<rparr>)"
  "keeps_key (\<lambda>r. r\<lparr>ir_Status := a, ir_ResponseStatus := g, ir_ResponseBody := h, ir_ErrorReason := c,
                   ir_LockedUntil := b, ir_ExpiresAt := e, ir_UpdatedAt := d\<rparr>)"
  "keeps_key (\<lambda>r. r\<lparr>ir_Status := a, ir_ErrorReason := c, ir_LockedUntil := b, ir_ExpiresAt := e, ir_UpdatedAt := d\<rparr>)"
  by (simp_all add: keeps_key_def)

lemma create_ok: "table_ok t \<Longrightarrow> table_ok (snd (CreateProcessing dbnow r t))"
  by (auto simp: CreateProcessing_def table_ok_def list_ex_iff row_of_def)

lemma reclaim_ok: "table_ok t \<Longrightarrow> table_ok (snd (TryReclaim dbnow i from now lu ex t))"
  by (simp add: TryReclaim_def case_prod_unfold update_rows_ok)

lemma extend_ok: "table_ok t \<Longrightarrow> table_ok (snd (ExtendProcessingLock dbnow i fp lu ex t))"
  by (simp add: ExtendProcessingLock_def case_prod_unfold update_rows_ok)

lemma succeed_ok: "table_ok t \<Longrightarrow> table_ok (MarkSucceeded dbnow i code body ex t)"
  by (simp add: MarkSucceeded_def update_rows_ok)

lemma fail_ok: "table_ok t \<Longrightarrow> table_ok (MarkFailedRetryable dbnow i reason lu ex t)"
  by (simp add: MarkFailedRetryable_def update_rows_ok)

lemma delete_ok: "table_ok t \<Longrightarrow> table_ok (snd (DeleteExpired now limit t))"
  by (auto simp: DeleteExpired_def table_ok_def Let_def intro: distinct_map_filter)

definition empty_table :: idem_table where
  "empty_table = \<lparr>it_rows = [], it_next = 1\<rparr>"

lemma empty_table_ok: "table_ok empty_table"
  by (simp add: empty_table_def table_ok_def)

subsection \<open>The table satisfies the contract\<close>

lemma reclaim_view:
  assumes "table_ok t" and "GetByScopeAndKeyHash s k t = Some q"
  shows "fst (TryReclaim dbnow (ir_ID q) from now lu ex t) = may_reclaim from now q"
    and "GetByScopeAndKeyHash s k (snd (TryReclaim dbnow (ir_ID q) from now lu ex t)) =
      Some (if may_reclaim from now q
            then q\<lparr>ir_Status := IdempotencyStatusProcessing, ir_LockedUntil := Some lu, ir_ErrorReason := None,
                   ir_UpdatedAt := dbnow, ir_ExpiresAt := ex\<rparr> else q)"
  using affected_one [OF assms(1), of q] get_in [OF assms(2)] find_update [OF keeps(1), of s k] assms(2)
  by (simp_all add: TryReclaim_def case_prod_unfold)

lemma succeed_view:
  "GetByScopeAndKeyHash s k t = Some q \<Longrightarrow>
   GetByScopeAndKeyHash s k (MarkSucceeded dbnow (ir_ID q) code body ex t) =
     Some (q\<lparr>ir_Status := IdempotencyStatusSucceeded, ir_ResponseStatus := Some code, ir_ResponseBody := Some body,
             ir_ErrorReason := None, ir_LockedUntil := None, ir_ExpiresAt := ex, ir_UpdatedAt := dbnow\<rparr>)"
  by (simp add: MarkSucceeded_def find_update)

lemma fail_view:
  "GetByScopeAndKeyHash s k t = Some q \<Longrightarrow>
   GetByScopeAndKeyHash s k (MarkFailedRetryable dbnow (ir_ID q) reason lu ex t) =
     Some (q\<lparr>ir_Status := IdempotencyStatusFailedRetryable, ir_ErrorReason := Some reason,
             ir_LockedUntil := Some lu, ir_ExpiresAt := ex, ir_UpdatedAt := dbnow\<rparr>)"
  by (simp add: MarkFailedRetryable_def find_update)

lemma create_view:
  assumes "table_ok t"
  shows "GetByScopeAndKeyHash (ir_Scope r) (ir_KeyHash r) t = None \<Longrightarrow>
      fst (CreateProcessing now r t) = Some (it_next t) \<and>
      GetByScopeAndKeyHash (ir_Scope r) (ir_KeyHash r) (snd (CreateProcessing now r t)) =
        Some (r\<lparr>ir_ID := it_next t, ir_ResponseStatus := None, ir_ResponseBody := None,
                ir_ErrorReason := None, ir_CreatedAt := now, ir_UpdatedAt := now\<rparr>)"
    and "GetByScopeAndKeyHash (ir_Scope r) (ir_KeyHash r) t = Some q \<Longrightarrow>
      fst (CreateProcessing now r t) = None \<and>
      GetByScopeAndKeyHash (ir_Scope r) (ir_KeyHash r) (snd (CreateProcessing now r t)) = Some q"
proof -
  have append: "find p rs = None \<Longrightarrow> find p (rs @ [x]) = (if p x then Some x else None)"
    for p :: "IdempotencyRecord \<Rightarrow> bool" and rs x by (induction rs) (auto split: if_splits)
  assume none: "GetByScopeAndKeyHash (ir_Scope r) (ir_KeyHash r) t = None"
  then have "\<not> list_ex (row_of (ir_Scope r) (ir_KeyHash r)) (it_rows t)"
    by (auto simp: GetByScopeAndKeyHash_def find_None_iff list_ex_iff)
  with none show "fst (CreateProcessing now r t) = Some (it_next t) \<and>
      GetByScopeAndKeyHash (ir_Scope r) (ir_KeyHash r) (snd (CreateProcessing now r t)) =
        Some (r\<lparr>ir_ID := it_next t, ir_ResponseStatus := None, ir_ResponseBody := None,
                ir_ErrorReason := None, ir_CreatedAt := now, ir_UpdatedAt := now\<rparr>)"
    by (simp add: CreateProcessing_def GetByScopeAndKeyHash_def append row_of_def)
next
  assume some: "GetByScopeAndKeyHash (ir_Scope r) (ir_KeyHash r) t = Some q"
  then have "list_ex (row_of (ir_Scope r) (ir_KeyHash r)) (it_rows t)"
    by (auto simp: GetByScopeAndKeyHash_def find_Some_iff list_ex_iff)
  with some show "fst (CreateProcessing now r t) = None \<and>
      GetByScopeAndKeyHash (ir_Scope r) (ir_KeyHash r) (snd (CreateProcessing now r t)) = Some q"
    by (simp add: CreateProcessing_def GetByScopeAndKeyHash_def)
qed

lemma get_positive: "table_ok t \<Longrightarrow> GetByScopeAndKeyHash s k t = Some q \<Longrightarrow> ir_ID q \<noteq> 0"
  by (auto simp: table_ok_def dest!: get_in)

interpretation sql: idempotency_repository idempotencyRepository table_ok
proof (unfold_locales, goal_cases)
  case (1 t r now)
  with create_view(1) [of t r now] create_ok [of t now r] show ?case
    by (cases "CreateProcessing now r t") (auto simp: idempotencyRepository_def same_row_def table_ok_def)
next
  case (2 t r q now)
  with create_view(2) [of t r q now] create_ok [of t now r] show ?case
    by (cases "CreateProcessing now r t") (auto simp: idempotencyRepository_def)
next
  case (3 t s k q)
  then show ?case using get_positive by (simp add: idempotencyRepository_def)
next
  case (4 t s k q dbnow "from" now lu ex)
  with reclaim_view [of t s k q dbnow "from" now lu ex] reclaim_ok [of t dbnow "ir_ID q" "from" now lu ex] show ?case
    by (cases "TryReclaim dbnow (ir_ID q) from now lu ex t") (auto simp: idempotencyRepository_def same_row_def)
next
  case (5 t s k q dbnow code body ex)
  then show ?case by (auto simp: idempotencyRepository_def succeed_ok succeed_view same_row_def)
next
  case (6 t s k q dbnow reason lu ex)
  then show ?case by (auto simp: idempotencyRepository_def fail_ok fail_view same_row_def)
qed

end
