(* ===== verification/Utf8_Truncation.thy ===== *)
theory Utf8_Truncation
  imports Idempotency_Keys
begin

section \<open>UTF-8 and bounded stored responses\<close>

text \<open>
  \<open>utf8.ValidString\<close> as the standard library defines it, \<open>truncateUTF8\<close>, and the encoding and
  decoding of a stored response in \<open>service/idempotency.go\<close>.
\<close>

definition byte_in :: "nat \<Rightarrow> nat \<Rightarrow> char \<Rightarrow> bool" where
  "byte_in lo hi c \<longleftrightarrow> lo \<le> (of_char c :: nat) \<and> (of_char c :: nat) \<le> hi"

text \<open>The length of the first encoded code point, 0 when there is none.\<close>

definition rune_len :: "string \<Rightarrow> nat" where
  "rune_len s =
     (case s of
        c # r1 \<Rightarrow>
          (if byte_in 0 127 c then 1
           else (case r1 of
              c1 # r2 \<Rightarrow>
                (if byte_in 194 223 c \<and> byte_in 128 191 c1 then 2
                 else (case r2 of
                    c2 # r3 \<Rightarrow>
                      (if byte_in 128 191 c2 \<and>
                          (byte_in 224 224 c \<and> byte_in 160 191 c1 \<or> byte_in 237 237 c \<and> byte_in 128 159 c1 \<or>
                           (byte_in 225 236 c \<or> byte_in 238 239 c) \<and> byte_in 128 191 c1) then 3
                       else (case r3 of
                          c3 # _ \<Rightarrow>
                            (if byte_in 128 191 c2 \<and> byte_in 128 191 c3 \<and>
                                (byte_in 240 240 c \<and> byte_in 144 191 c1 \<or> byte_in 244 244 c \<and> byte_in 128 143 c1 \<or>
                                 byte_in 241 243 c \<and> byte_in 128 191 c1) then 4 else 0)
                        | [] \<Rightarrow> 0))
                  | [] \<Rightarrow> 0))
            | [] \<Rightarrow> 0))
      | [] \<Rightarrow> 0)"

lemma rune_len_le: "rune_len s \<le> 4" "rune_len s \<le> length s"
  by (auto simp: rune_len_def split: list.splits)

function ValidString :: "string \<Rightarrow> bool" where
  "ValidString s =
     (if s = [] then True else if rune_len s = 0 then False else ValidString (drop (rune_len s) s))"
  by pat_completeness auto
termination
  by (relation "measure length") auto

declare ValidString.simps [simp del]

lemma ValidString_Nil [simp]: "ValidString []"
  by (simp add: ValidString.simps [of "[]"])

lemma rune_len_local: "0 < rune_len s \<Longrightarrow> rune_len (take (rune_len s) s @ t) = rune_len s"
proof (cases s)
  case (Cons c r1)
  show "0 < rune_len s \<Longrightarrow> ?thesis"
  proof (cases r1)
    case Nil
    then show "0 < rune_len s \<Longrightarrow> ?thesis" by (auto simp: rune_len_def Cons split: if_splits)
  next
    case c1: (Cons c1 r2)
    show "0 < rune_len s \<Longrightarrow> ?thesis"
    proof (cases r2)
      case Nil
      then show "0 < rune_len s \<Longrightarrow> ?thesis" by (auto simp: rune_len_def Cons c1 split: if_splits)
    next
      case c2: (Cons c2 r3)
      show "0 < rune_len s \<Longrightarrow> ?thesis"
        by (cases r3) (auto simp: rune_len_def Cons c1 c2 split: if_splits)
    qed
  qed
qed (simp add: rune_len_def)

lemma rune_len_take: "0 < rune_len s \<Longrightarrow> rune_len s \<le> n \<Longrightarrow> rune_len (take n s) = rune_len s"
  using rune_len_local [of s "take (n - rune_len s) (drop (rune_len s) s)"]
  by (metis take_add le_add_diff_inverse)

text \<open>A valid string has a code point boundary within every four bytes.\<close>

lemma valid_boundary:
  "ValidString s \<Longrightarrow> n \<le> length s \<Longrightarrow> \<exists>k. k \<le> n \<and> n \<le> k + 3 \<and> ValidString (take k s)"
proof (induction s arbitrary: n rule: ValidString.induct)
  case (1 s)
  show ?case
  proof (cases "s = [] \<or> n \<le> 3")
    case True
    with "1.prems" show ?thesis by (intro exI [of _ 0]) auto
  next
    case False
    let ?l = "rune_len s"
    from False "1.prems"(1) have l: "0 < ?l" "ValidString (drop ?l s)"
      by (simp_all add: ValidString.simps [of s] split: if_splits)
    show ?thesis
    proof (cases "?l \<le> n")
      case True
      have "\<exists>k. k \<le> n - ?l \<and> n - ?l \<le> k + 3 \<and> ValidString (take k (drop ?l s))"
        by (rule "1.IH") (use False l "1.prems"(2) in auto)
      then obtain k where k: "k \<le> n - ?l" "n - ?l \<le> k + 3" "ValidString (take k (drop ?l s))" by blast
      have "ValidString (take (?l + k) s)"
        using l(1) k(3) False
        by (subst ValidString.simps) (simp add: rune_len_take drop_take)
      with k True show ?thesis by (intro exI [of _ "?l + k"]) auto
    next
      case ge: False
      with rune_len_le(1) [of s] show ?thesis by (intro exI [of _ 0]) auto
    qed
  qed
qed

subsection \<open>Truncation\<close>

fun truncate_loop :: "string \<Rightarrow> nat \<Rightarrow> nat" where
  "truncate_loop s 0 = 0"
| "truncate_loop s (Suc n) = (if \<not> ValidString (take (Suc n) s) then truncate_loop s n else Suc n)"

definition truncateUTF8 :: "string \<Rightarrow> int \<Rightarrow> string" where
  "truncateUTF8 s maxBytes =
     (if maxBytes \<le> 0 \<or> int (length s) \<le> maxBytes then s else take (truncate_loop s (nat maxBytes)) s)"

lemma truncate_loop_spec:
  "truncate_loop s n \<le> n \<and> ValidString (take (truncate_loop s n) s) \<and>
   (\<forall>k. k \<le> n \<and> ValidString (take k s) \<longrightarrow> k \<le> truncate_loop s n)"
  by (induction n) (auto simp: le_Suc_eq)

text \<open>
  Truncating a valid string that is too long yields a valid prefix of it within the
  bound, and cuts off at most three bytes that would have fitted.
\<close>

theorem truncate_valid:
  assumes "ValidString s" and "0 < maxBytes" and "maxBytes < int (length s)"
  shows "prefix (truncateUTF8 s maxBytes) s \<and> ValidString (truncateUTF8 s maxBytes) \<and>
    int (length (truncateUTF8 s maxBytes)) \<le> maxBytes \<and> maxBytes - 3 \<le> int (length (truncateUTF8 s maxBytes))"
proof -
  define n where "n = nat maxBytes"
  with assms have n: "n \<le> length s" "int n = maxBytes" by auto
  obtain k where k: "k \<le> n" "n \<le> k + 3" "ValidString (take k s)"
    using valid_boundary [OF assms(1) n(1)] by blast
  with truncate_loop_spec [of s n] have "k \<le> truncate_loop s n" "truncate_loop s n \<le> n" by auto
  with truncate_loop_spec [of s n] k n assms show ?thesis
    by (auto simp: truncateUTF8_def n_def [symmetric] take_is_prefix)
qed

theorem truncate_valid_witness:
  "truncateUTF8 [CHR ''a'', CHR 0xC3, CHR 0xA9, CHR ''b''] 2 = [CHR ''a''] \<and>
   2 - 3 \<le> int (length (truncateUTF8 [CHR ''a'', CHR 0xC3, CHR 0xA9, CHR ''b''] 2))"
proof -
  have "ValidString [CHR ''a'', CHR 0xC3, CHR 0xA9, CHR ''b'']" by code_simp
  from truncate_valid [OF this, of 2]
  have "2 - 3 \<le> int (length (truncateUTF8 [CHR ''a'', CHR 0xC3, CHR 0xA9, CHR ''b''] 2))" by simp
  moreover have "truncateUTF8 [CHR ''a'', CHR 0xC3, CHR 0xA9, CHR ''b''] 2 = [CHR ''a'']" by code_simp
  ultimately show ?thesis by blast
qed

subsection \<open>Stored responses\<close>

definition marshalStoredResponse :: "'d idem_env \<Rightarrow> IdempotencyConfig \<Rightarrow> 'd \<Rightarrow> string option" where
  "marshalStoredResponse E cfg data =
     (case ie_marshal E data of
        None \<Rightarrow> None
      | Some raw \<Rightarrow>
          (let redacted = ie_redact E raw
           in Some (if 0 < ic_MaxStoredResponseLen cfg \<and> ic_MaxStoredResponseLen cfg < int (length redacted)
                    then truncateUTF8 redacted (ic_MaxStoredResponseLen cfg) @ ''...(truncated)''
                    else redacted)))"

definition decodeStoredResponse :: "'d idem_env \<Rightarrow> string option \<Rightarrow> 'd option" where
  "decodeStoredResponse E stored =
     (case stored of
        None \<Rightarrow> Some (ie_empty E)
      | Some body \<Rightarrow> if trim_space body = [] then Some (ie_empty E) else ie_unmarshal E body)"

end
