(* ===== verification/Idempotency_Coordinator.thy ===== *)
theory Idempotency_Coordinator
  imports Idempotency_Store Utf8_Truncation
begin

section \<open>The idempotency coordinator\<close>

text \<open>
  \<open>IdempotencyCoordinator.Execute\<close> as a program over the calls it makes: reading the clock, the
  repository calls and the executor. Between two calls other requests may act, so the program is a
  tree of calls and continuations; one interpreter below runs it alone against a repository, and a
  later theory interleaves many of them. Metrics and audit logging are left out.
\<close>

subsection \<open>Programs\<close>

datatype idem_call =
    CallClock
  | CallCreate IdempotencyRecord
  | CallGet string string
  | CallReclaim int string gotime gotime gotime
  | CallExecute
  | CallSucceed int int string gotime
  | CallFail int string gotime gotime

datatype 'd idem_reply =
    RepTime gotime
  | RepCreated "int option"
  | RepRecord "IdempotencyRecord option"
  | RepTaken bool
  | RepExecuted "go_error + 'd"
  | RepDone
  | RepStoreError

datatype 'd idem_prog =
    Return "go_error + 'd IdempotencyExecuteResult"
  | Call idem_call "'d idem_reply \<Rightarrow> 'd idem_prog"

definition fail_with :: "ApplicationError \<Rightarrow> 'd idem_prog" where
  "fail_with e = Return (Inl (App e))"

abbreviation unavailable :: "'d idem_prog" where
  "unavailable \<equiv> fail_with ErrIdempotencyStoreUnavail"

text \<open>One form per call: the store calls answer or fail, and every failure ends in unavailable.\<close>

definition clock :: "(gotime \<Rightarrow> 'd idem_prog) \<Rightarrow> 'd idem_prog" where
  "clock k = Call CallClock (\<lambda>rep. case rep of RepTime t \<Rightarrow> k t | _ \<Rightarrow> unavailable)"

definition create_processing :: "IdempotencyRecord \<Rightarrow> (int option \<Rightarrow> 'd idem_prog) \<Rightarrow> 'd idem_prog" where
  "create_processing rec k = Call (CallCreate rec) (\<lambda>rep. case rep of RepCreated i \<Rightarrow> k i | _ \<Rightarrow> unavailable)"

definition get_record :: "string \<Rightarrow> string \<Rightarrow> (IdempotencyRecord option \<Rightarrow> 'd idem_prog) \<Rightarrow> 'd idem_prog" where
  "get_record scope keyHash k =
     Call (CallGet scope keyHash) (\<lambda>rep. case rep of RepRecord r \<Rightarrow> k r | _ \<Rightarrow> unavailable)"

definition try_reclaim ::
    "int \<Rightarrow> string \<Rightarrow> gotime \<Rightarrow> gotime \<Rightarrow> gotime \<Rightarrow> (bool \<Rightarrow> 'd idem_prog) \<Rightarrow> 'd idem_prog" where
  "try_reclaim i fromStatus now lockedUntil expiresAt k =
     Call (CallReclaim i fromStatus now lockedUntil expiresAt)
       (\<lambda>rep. case rep of RepTaken b \<Rightarrow> k b | _ \<Rightarrow> unavailable)"

definition run_executor :: "(go_error + 'd \<Rightarrow> 'd idem_prog) \<Rightarrow> 'd idem_prog" where
  "run_executor k = Call CallExecute (\<lambda>rep. case rep of RepExecuted x \<Rightarrow> k x | _ \<Rightarrow> unavailable)"

text \<open>Marking success reports a store error; marking failure does not change the outcome.\<close>

definition mark_succeeded :: "int \<Rightarrow> int \<Rightarrow> string \<Rightarrow> gotime \<Rightarrow> 'd idem_prog \<Rightarrow> 'd idem_prog" where
  "mark_succeeded i code body expiresAt p =
     Call (CallSucceed i code body expiresAt) (\<lambda>rep. case rep of RepDone \<Rightarrow> p | _ \<Rightarrow> unavailable)"

definition mark_failed :: "int \<Rightarrow> string \<Rightarrow> gotime \<Rightarrow> gotime \<Rightarrow> 'd idem_prog \<Rightarrow> 'd idem_prog" where
  "mark_failed i reason until expiresAt p = Call (CallFail i reason until expiresAt) (\<lambda>rep. p)"

lemmas idem_calls = clock_def create_processing_def get_record_def try_reclaim_def run_executor_def
  mark_succeeded_def mark_failed_def

subsection \<open>Execute\<close>

text \<open>The owner of a record runs the executor and stores the outcome.\<close>

definition execute_owned ::
    "'d idem_env \<Rightarrow> IdempotencyConfig \<Rightarrow> 'd IdempotencyExecuteOptions \<Rightarrow> duration \<Rightarrow> gotime \<Rightarrow> int \<Rightarrow> 'd idem_prog"
where
  "execute_owned E cfg opts ttl expiresAt0 i =
     (if i = 0 then unavailable
      else run_executor (\<lambda>outcome.
        (let persist = (\<lambda>expiresAt.
           case outcome of
             Inl execErr \<Rightarrow>
               clock (\<lambda>t.
                 mark_failed i (if Reason execErr = [] then ''EXECUTION_FAILED'' else Reason execErr)
                   (t + ic_FailedRetryBackoff cfg) expiresAt (Return (Inl execErr)))
           | Inr data \<Rightarrow>
               (case marshalStoredResponse E cfg data of
                  None \<Rightarrow> unavailable
                | Some storedBody \<Rightarrow>
                    mark_succeeded i 200 storedBody expiresAt (Return (Inr \<lparr>rs_Data = data, rs_Replayed = False\<rparr>))))
         in if 0 < io_ExecutionTimeout opts then clock (\<lambda>t. persist (t + ttl)) else persist expiresAt0)))"

text \<open>The verdict on a record somebody else created, when it was not taken over as expired.\<close>

definition settle ::
    "'d idem_env \<Rightarrow> gotime \<Rightarrow> gotime \<Rightarrow> gotime \<Rightarrow> (int \<Rightarrow> 'd idem_prog) \<Rightarrow> IdempotencyRecord \<Rightarrow> 'd idem_prog" where
  "settle E now lockedUntil expiresAt own existing =
     (if ir_Status existing = IdempotencyStatusSucceeded then
        (case decodeStoredResponse E (ir_ResponseBody existing) of
           None \<Rightarrow> unavailable
         | Some data \<Rightarrow> Return (Inr \<lparr>rs_Data = data, rs_Replayed = True\<rparr>))
      else if ir_Status existing = IdempotencyStatusProcessing then
        fail_with (conflictWithRetryAfter ErrIdempotencyInProgress (ir_LockedUntil existing) now)
      else if ir_Status existing = IdempotencyStatusFailedRetryable then
        (if case ir_LockedUntil existing of None \<Rightarrow> False | Some u \<Rightarrow> time_after u now then
           fail_with (conflictWithRetryAfter ErrIdempotencyRetryBackoff (ir_LockedUntil existing) now)
         else try_reclaim (ir_ID existing) IdempotencyStatusFailedRetryable now lockedUntil expiresAt (\<lambda>taken.
           if \<not> taken then fail_with (conflictWithRetryAfter ErrIdempotencyInProgress (ir_LockedUntil existing) now)
           else own (ir_ID existing)))
      else fail_with ErrIdempotencyKeyConflict)"

text \<open>The record the claim inserts.\<close>

definition claim_record :: "string \<Rightarrow> string \<Rightarrow> string \<Rightarrow> gotime \<Rightarrow> gotime \<Rightarrow> IdempotencyRecord" where
  "claim_record scope keyHash fingerprint lockedUntil expiresAt =
     \<lparr>ir_ID = 0, ir_Scope = scope, ir_KeyHash = keyHash, ir_Fingerprint = fingerprint,
      ir_Status = IdempotencyStatusProcessing, ir_ResponseStatus = None, ir_ResponseBody = None, ir_ErrorReason = None,
      ir_LockedUntil = Some lockedUntil, ir_ExpiresAt = expiresAt, ir_CreatedAt = 0, ir_UpdatedAt = 0\<rparr>"

text \<open>Claiming: create, or look at what is there, take it over when it has expired, else settle.\<close>

definition claim ::
    "'d idem_env \<Rightarrow> IdempotencyConfig \<Rightarrow> 'd IdempotencyExecuteOptions \<Rightarrow> string \<Rightarrow> string \<Rightarrow> gotime \<Rightarrow> 'd idem_prog" where
  "claim E cfg opts keyHash fingerprint now =
     (let ttl = (if io_TTL opts \<le> 0 then ic_DefaultTTL cfg else io_TTL opts);
          expiresAt = now + ttl;
          lockedUntil = now + ic_ProcessingTimeout cfg;
          own = execute_owned E cfg opts ttl expiresAt
      in create_processing (claim_record (io_Scope opts) keyHash fingerprint lockedUntil expiresAt) (\<lambda>owner.
           case owner of
             Some i \<Rightarrow> own i
           | None \<Rightarrow>
               get_record (io_Scope opts) keyHash (\<lambda>found.
                 case found of
                   None \<Rightarrow> unavailable
                 | Some existing \<Rightarrow>
                     if ir_Fingerprint existing \<noteq> fingerprint then fail_with ErrIdempotencyKeyConflict
                     else if time_after (ir_ExpiresAt existing) now then
                       settle E now lockedUntil expiresAt own existing
                     else try_reclaim (ir_ID existing) (ir_Status existing) now lockedUntil expiresAt (\<lambda>taken.
                       if taken then own (ir_ID existing)
                       else get_record (io_Scope opts) keyHash (\<lambda>again.
                         case again of
                           None \<Rightarrow> unavailable
                         | Some latest \<Rightarrow>
                             if ir_Fingerprint latest \<noteq> fingerprint then fail_with ErrIdempotencyKeyConflict
                             else settle E now lockedUntil expiresAt own latest)))))"

definition Execute ::
    "'d idem_env \<Rightarrow> IdempotencyConfig \<Rightarrow> bool \<Rightarrow> bool \<Rightarrow> 'd IdempotencyExecuteOptions \<Rightarrow> 'd idem_prog" where
  "Execute E cfg repoNil executeNil opts =
     (if executeNil then fail_with (InternalServer ''IDEMPOTENCY_EXECUTOR_NIL'' ''idempotency executor is nil'')
      else (case NormalizeIdempotencyKey (io_IdempotencyKey opts) of
         Inl e \<Rightarrow> fail_with e
       | Inr key \<Rightarrow>
           if key = [] then
             (if io_RequireKey opts \<and> \<not> ic_ObserveOnly cfg then fail_with ErrIdempotencyKeyRequired
              else run_executor (\<lambda>outcome. case outcome of
                     Inl execErr \<Rightarrow> Return (Inl execErr)
                   | Inr data \<Rightarrow> Return (Inr \<lparr>rs_Data = data, rs_Replayed = False\<rparr>)))
           else if repoNil then unavailable
           else if io_Scope opts = [] then
             fail_with (BadRequest ''IDEMPOTENCY_SCOPE_REQUIRED'' ''idempotency scope is required'')
           else (case BuildIdempotencyFingerprint E (io_Method opts) (io_Route opts) (io_ActorScope opts) (io_Payload opts) of
              Inl e \<Rightarrow> fail_with e
            | Inr fingerprint \<Rightarrow> clock (claim E cfg opts (HashIdempotencyKey E key) fingerprint))))"

subsection \<open>Running alone against a repository\<close>

text \<open>
  Nobody else acts and no call fails: the clock stands at one time for the whole run, which is the
  time the database stamps rows with too, and the executor has a given outcome.
\<close>

record ('d, 't) idem_world =
  iw_store :: 't
  iw_now :: gotime
  iw_outcome :: "go_error + 'd"
  iw_runs :: nat

definition serve ::
    "'t IdempotencyRepository \<Rightarrow> idem_call \<Rightarrow> ('d, 't) idem_world \<Rightarrow> 'd idem_reply \<times> ('d, 't) idem_world" where
  "serve R c w =
     (case c of
        CallClock \<Rightarrow> (RepTime (iw_now w), w)
      | CallCreate rec \<Rightarrow>
          (case rp_CreateProcessing R (iw_now w) rec (iw_store w) of (i, t) \<Rightarrow> (RepCreated i, w\<lparr>iw_store := t\<rparr>))
      | CallGet s k \<Rightarrow> (RepRecord (rp_GetByScopeAndKeyHash R s k (iw_store w)), w)
      | CallReclaim i from now lu ex \<Rightarrow>
          (case rp_TryReclaim R (iw_now w) i from now lu ex (iw_store w) of (b, t) \<Rightarrow> (RepTaken b, w\<lparr>iw_store := t\<rparr>))
      | CallExecute \<Rightarrow> (RepExecuted (iw_outcome w), w\<lparr>iw_runs := Suc (iw_runs w)\<rparr>)
      | CallSucceed i code body ex \<Rightarrow>
          (RepDone, w\<lparr>iw_store := rp_MarkSucceeded R (iw_now w) i code body ex (iw_store w)\<rparr>)
      | CallFail i reason lu ex \<Rightarrow>
          (RepDone, w\<lparr>iw_store := rp_MarkFailedRetryable R (iw_now w) i reason lu ex (iw_store w)\<rparr>))"

primrec run ::
    "'t IdempotencyRepository \<Rightarrow> 'd idem_prog \<Rightarrow> ('d, 't) idem_world \<Rightarrow>
     (go_error + 'd IdempotencyExecuteResult) \<times> ('d, 't) idem_world" where
  "run R (Return r) = (\<lambda>w. (r, w))"
| "run R (Call c k) = (\<lambda>w. case serve R c w of (rep, w') \<Rightarrow> run R (k rep) w')"

lemma run_calls:
  "run R (clock k) w = run R (k (iw_now w)) w"
  "run R (create_processing rec ki) w =
     (case rp_CreateProcessing R (iw_now w) rec (iw_store w) of (i, t) \<Rightarrow> run R (ki i) (w\<lparr>iw_store := t\<rparr>))"
  "run R (get_record s kh kr) w = run R (kr (rp_GetByScopeAndKeyHash R s kh (iw_store w))) w"
  "run R (try_reclaim i from now lu ex kb) w =
     (case rp_TryReclaim R (iw_now w) i from now lu ex (iw_store w) of (b, t) \<Rightarrow> run R (kb b) (w\<lparr>iw_store := t\<rparr>))"
  "run R (run_executor kx) w = run R (kx (iw_outcome w)) (w\<lparr>iw_runs := Suc (iw_runs w)\<rparr>)"
  "run R (mark_succeeded i code body ex p) w =
     run R p (w\<lparr>iw_store := rp_MarkSucceeded R (iw_now w) i code body ex (iw_store w)\<rparr>)"
  "run R (mark_failed i reason lu ex p) w =
     run R p (w\<lparr>iw_store := rp_MarkFailedRetryable R (iw_now w) i reason lu ex (iw_store w)\<rparr>)"
  "run R (fail_with e) w = (Inl (App e), w)"
  by (simp_all add: idem_calls serve_def fail_with_def split: prod.split)

end
