(* ===== verification/Idempotency_Replay.thy ===== *)
theory Idempotency_Replay
  imports Idempotency_Coordinator
begin

section \<open>What Execute does when nobody interferes\<close>

text \<open>
  An abstract verdict on the stored row decides whether a request runs its executor, replays a stored
  response or is refused; running the whole coordinator implements it, over every repository that
  meets the contract.
\<close>

subsection \<open>The specification\<close>

text \<open>A request with a usable key, a scope and a payload that can be encoded.\<close>

definition keyed :: "'d idem_env \<Rightarrow> 'd IdempotencyExecuteOptions \<Rightarrow> string \<Rightarrow> string \<Rightarrow> bool" where
  "keyed E opts keyHash fp \<longleftrightarrow>
     (\<exists>key. NormalizeIdempotencyKey (io_IdempotencyKey opts) = Inr key \<and> key \<noteq> [] \<and>
        keyHash = HashIdempotencyKey E key) \<and>
     io_Scope opts \<noteq> [] \<and>
     BuildIdempotencyFingerprint E (io_Method opts) (io_Route opts) (io_ActorScope opts) (io_Payload opts) = Inr fp"

definition ttl_of :: "IdempotencyConfig \<Rightarrow> 'd IdempotencyExecuteOptions \<Rightarrow> duration" where
  "ttl_of cfg opts = (if io_TTL opts \<le> 0 then ic_DefaultTTL cfg else io_TTL opts)"

datatype 'd verdict = Run_it | Replay 'd | Refuse ApplicationError

definition decide :: "'d idem_env \<Rightarrow> string \<Rightarrow> gotime \<Rightarrow> IdempotencyRecord option \<Rightarrow> 'd verdict" where
  "decide E fp now row =
     (case row of
        None \<Rightarrow> Run_it
      | Some r \<Rightarrow>
          if ir_Fingerprint r \<noteq> fp then Refuse ErrIdempotencyKeyConflict
          else if ir_ExpiresAt r \<le> now \<and> may_reclaim (ir_Status r) now r then Run_it
          else if ir_Status r = IdempotencyStatusSucceeded then
            (case decodeStoredResponse E (ir_ResponseBody r) of
               None \<Rightarrow> Refuse ErrIdempotencyStoreUnavail | Some d \<Rightarrow> Replay d)
          else if ir_Status r = IdempotencyStatusProcessing then
            Refuse (conflictWithRetryAfter ErrIdempotencyInProgress (ir_LockedUntil r) now)
          else if ir_Status r = IdempotencyStatusFailedRetryable then
            (if may_reclaim IdempotencyStatusFailedRetryable now r then Run_it
             else Refuse (conflictWithRetryAfter ErrIdempotencyRetryBackoff (ir_LockedUntil r) now))
          else Refuse ErrIdempotencyKeyConflict)"

text \<open>The row an execution leaves, and what it answers.\<close>

definition outcome_stored ::
    "'d idem_env \<Rightarrow> IdempotencyConfig \<Rightarrow> 'd IdempotencyExecuteOptions \<Rightarrow> gotime \<Rightarrow> string \<Rightarrow> go_error + 'd \<Rightarrow>
     IdempotencyRecord \<Rightarrow> go_error + 'd IdempotencyExecuteResult \<Rightarrow> bool" where
  "outcome_stored E cfg opts now fp outcome r result \<longleftrightarrow>
     ir_Fingerprint r = fp \<and> ir_ExpiresAt r = now + ttl_of cfg opts \<and>
     (case outcome of
        Inl err \<Rightarrow> result = Inl err \<and> ir_Status r = IdempotencyStatusFailedRetryable \<and>
          ir_LockedUntil r = Some (now + ic_FailedRetryBackoff cfg)
      | Inr d \<Rightarrow>
          (case marshalStoredResponse E cfg d of
             None \<Rightarrow> result = Inl (App ErrIdempotencyStoreUnavail) \<and> ir_Status r = IdempotencyStatusProcessing \<and>
               ir_LockedUntil r = Some (now + ic_ProcessingTimeout cfg)
           | Some body \<Rightarrow> result = Inr \<lparr>rs_Data = d, rs_Replayed = False\<rparr> \<and>
               ir_Status r = IdempotencyStatusSucceeded \<and> ir_ResponseBody r = Some body \<and> ir_LockedUntil r = None))"

definition implements ::
    "'t IdempotencyRepository \<Rightarrow> 'd idem_env \<Rightarrow> IdempotencyConfig \<Rightarrow> 'd IdempotencyExecuteOptions \<Rightarrow> string \<Rightarrow> string \<Rightarrow>
     ('d, 't) idem_world \<Rightarrow> (go_error + 'd IdempotencyExecuteResult) \<times> ('d, 't) idem_world \<Rightarrow> bool" where
  "implements R E cfg opts keyHash fp w res =
     (let row = rp_GetByScopeAndKeyHash R (io_Scope opts) keyHash (iw_store w);
          row' = rp_GetByScopeAndKeyHash R (io_Scope opts) keyHash (iw_store (snd res))
      in case decide E fp (iw_now w) row of
           Run_it \<Rightarrow> iw_runs (snd res) = Suc (iw_runs w) \<and>
             (\<exists>r. row' = Some r \<and> outcome_stored E cfg opts (iw_now w) fp (iw_outcome w) r (fst res))
         | Replay d \<Rightarrow> iw_runs (snd res) = iw_runs w \<and> fst res = Inr \<lparr>rs_Data = d, rs_Replayed = True\<rparr> \<and>
             (\<exists>r q. row = Some r \<and> row' = Some q \<and> same_row q r)
         | Refuse e \<Rightarrow> iw_runs (snd res) = iw_runs w \<and> fst res = Inl (App e) \<and>
             (\<exists>r q. row = Some r \<and> row' = Some q \<and> same_row q r))"

subsection \<open>The coordinator implements it\<close>

lemma same_row_fields:
  assumes "same_row q r"
  shows "ir_ID q = ir_ID r" "ir_Fingerprint q = ir_Fingerprint r" "ir_Status q = ir_Status r"
    "ir_LockedUntil q = ir_LockedUntil r" "ir_ExpiresAt q = ir_ExpiresAt r" "ir_ResponseBody q = ir_ResponseBody r"
  using assms by (cases q; cases r; simp add: same_row_def)+

lemma same_rowD:
  "same_row q r \<Longrightarrow> ir_ID q = ir_ID r \<and> ir_Fingerprint q = ir_Fingerprint r \<and> ir_Status q = ir_Status r \<and>
     ir_LockedUntil q = ir_LockedUntil r \<and> ir_ExpiresAt q = ir_ExpiresAt r \<and> ir_ResponseBody q = ir_ResponseBody r"
  by (simp add: same_row_fields)

lemma same_row_refl [simp]: "same_row r r"
  by (simp add: same_row_def)

lemma same_row_trans: "same_row p q \<Longrightarrow> same_row q r \<Longrightarrow> same_row p r"
  by (simp add: same_row_def)

context idempotency_repository
begin

abbreviation row :: "string \<Rightarrow> string \<Rightarrow> 't \<Rightarrow> IdempotencyRecord option" where
  "row s kh t \<equiv> rp_GetByScopeAndKeyHash R s kh t"

lemma failed_row:
  "ok t \<Longrightarrow> row s kh t = Some r \<Longrightarrow>
   \<exists>q. row s kh (rp_MarkFailedRetryable R dbnow (ir_ID r) reason lu ex t) = Some q \<and>
     ir_Fingerprint q = ir_Fingerprint r \<and> ir_Status q = IdempotencyStatusFailedRetryable \<and>
     ir_LockedUntil q = Some lu \<and> ir_ExpiresAt q = ex"
  using fail [of t s kh r dbnow reason lu ex] by (auto dest!: same_rowD)

lemma succeeded_row:
  "ok t \<Longrightarrow> row s kh t = Some r \<Longrightarrow>
   \<exists>q. row s kh (rp_MarkSucceeded R dbnow (ir_ID r) code body ex t) = Some q \<and>
     ir_Fingerprint q = ir_Fingerprint r \<and> ir_Status q = IdempotencyStatusSucceeded \<and>
     ir_ResponseBody q = Some body \<and> ir_LockedUntil q = None \<and> ir_ExpiresAt q = ex"
  using succeed [of t s kh r dbnow code body ex] by (auto dest!: same_rowD)

text \<open>The owner of a row: the executor runs once and the row is the outcome.\<close>

abbreviation own :: "'d idem_env \<Rightarrow> IdempotencyConfig \<Rightarrow> 'd IdempotencyExecuteOptions \<Rightarrow> gotime \<Rightarrow> int \<Rightarrow> 'd idem_prog" where
  "own E cfg opts now \<equiv> execute_owned E cfg opts (ttl_of cfg opts) (now + ttl_of cfg opts)"

lemma run_owned:
  assumes ok: "ok (iw_store w)" and r: "row s kh (iw_store w) = Some r"
    and f: "ir_Fingerprint r = fp" "ir_Status r = IdempotencyStatusProcessing"
      "ir_LockedUntil r = Some (iw_now w + ic_ProcessingTimeout cfg)" "ir_ExpiresAt r = iw_now w + ttl_of cfg opts"
  shows "iw_runs (snd (run R (own E cfg opts (iw_now w) (ir_ID r)) w)) = Suc (iw_runs w) \<and>
    (\<exists>q. row s kh (iw_store (snd (run R (own E cfg opts (iw_now w) (ir_ID r)) w))) = Some q \<and>
       outcome_stored E cfg opts (iw_now w) fp (iw_outcome w) q (fst (run R (own E cfg opts (iw_now w) (ir_ID r)) w)))"
proof (cases "iw_outcome w")
  case (Inl err)
  obtain q where "row s kh (rp_MarkFailedRetryable R (iw_now w) (ir_ID r)
        (if Reason err = [] then ''EXECUTION_FAILED'' else Reason err) (iw_now w + ic_FailedRetryBackoff cfg)
        (iw_now w + ttl_of cfg opts) (iw_store w)) = Some q \<and>
      ir_Fingerprint q = ir_Fingerprint r \<and> ir_Status q = IdempotencyStatusFailedRetryable \<and>
      ir_LockedUntil q = Some (iw_now w + ic_FailedRetryBackoff cfg) \<and> ir_ExpiresAt q = iw_now w + ttl_of cfg opts"
    using failed_row [OF ok r] by blast
  then show ?thesis
    using get_id [OF ok r] f by (simp add: execute_owned_def run_calls Inl outcome_stored_def Let_def)
next
  case (Inr d)
  show ?thesis
  proof (cases "marshalStoredResponse E cfg d")
    case None
    then show ?thesis using get_id [OF ok r] f r
      by (simp add: execute_owned_def run_calls Inr outcome_stored_def Let_def)
  next
    case (Some body)
    obtain q where "row s kh (rp_MarkSucceeded R (iw_now w) (ir_ID r) 200 body (iw_now w + ttl_of cfg opts) (iw_store w)) = Some q \<and>
        ir_Fingerprint q = ir_Fingerprint r \<and> ir_Status q = IdempotencyStatusSucceeded \<and>
        ir_ResponseBody q = Some body \<and> ir_LockedUntil q = None \<and> ir_ExpiresAt q = iw_now w + ttl_of cfg opts"
      using succeeded_row [OF ok r] by blast
    then show ?thesis
      using get_id [OF ok r] f Some by (simp add: execute_owned_def run_calls Inr outcome_stored_def Let_def)
  qed
qed

text \<open>Taking over a row and creating one both lead there.\<close>

lemma run_reclaimed:
  assumes ok: "ok (iw_store w)" and r: "row (io_Scope opts) kh (iw_store w) = Some r" and fp: "ir_Fingerprint r = fp"
    and may: "may_reclaim from (iw_now w) r" and dec: "decide E fp (iw_now w) (Some r) = Run_it"
  shows "implements R E cfg opts kh fp w
    (run R (try_reclaim (ir_ID r) from (iw_now w) (iw_now w + ic_ProcessingTimeout cfg) (iw_now w + ttl_of cfg opts)
       (\<lambda>taken. if taken then own E cfg opts (iw_now w) (ir_ID r) else other)) w)"
proof -
  obtain q t where t: "rp_TryReclaim R (iw_now w) (ir_ID r) from (iw_now w) (iw_now w + ic_ProcessingTimeout cfg)
        (iw_now w + ttl_of cfg opts) (iw_store w) = (True, t)" "ok t" "row (io_Scope opts) kh t = Some q"
      "same_row q (r\<lparr>ir_Status := IdempotencyStatusProcessing, ir_LockedUntil := Some (iw_now w + ic_ProcessingTimeout cfg),
         ir_ErrorReason := None, ir_ExpiresAt := iw_now w + ttl_of cfg opts\<rparr>)"
    using reclaim [OF ok r, of "iw_now w" "from" "iw_now w" "iw_now w + ic_ProcessingTimeout cfg"
        "iw_now w + ttl_of cfg opts"] by (simp only: may if_True) (elim exE conjE)
  from same_row_fields [OF t(4)] fp have q: "ir_ID q = ir_ID r" "ir_Fingerprint q = fp" "ir_Status q = IdempotencyStatusProcessing"
    "ir_LockedUntil q = Some (iw_now w + ic_ProcessingTimeout cfg)" "ir_ExpiresAt q = iw_now w + ttl_of cfg opts"
    by simp_all
  have "ok (iw_store (w\<lparr>iw_store := t\<rparr>))" "row (io_Scope opts) kh (iw_store (w\<lparr>iw_store := t\<rparr>)) = Some q"
    using t by simp_all
  from run_owned [OF this q(2), of cfg opts E] q show ?thesis
    by (simp add: implements_def run_calls t(1) r dec Let_def)
qed

lemma run_settle:
  assumes ok: "ok (iw_store w)" and r: "row (io_Scope opts) kh (iw_store w) = Some r" and fp: "ir_Fingerprint r = fp"
    and old: "\<not> (ir_ExpiresAt r \<le> iw_now w \<and> may_reclaim (ir_Status r) (iw_now w) r)"
  shows "implements R E cfg opts kh fp w
    (run R (settle E (iw_now w) (iw_now w + ic_ProcessingTimeout cfg) (iw_now w + ttl_of cfg opts) (own E cfg opts (iw_now w)) r) w)"
proof (cases "ir_Status r = IdempotencyStatusFailedRetryable \<and> may_reclaim IdempotencyStatusFailedRetryable (iw_now w) r")
  case True
  with old fp have "decide E fp (iw_now w) (Some r) = Run_it"
    by (simp add: decide_def idem_status)
  from run_reclaimed [OF ok r fp _ this, of IdempotencyStatusFailedRetryable cfg
      "fail_with (conflictWithRetryAfter ErrIdempotencyInProgress (ir_LockedUntil r) (iw_now w))"] True
  moreover have "(if \<not> taken then x else y) = (if taken then y else x)" for taken and x y :: "'a idem_prog" by simp
  moreover have "\<not> (case ir_LockedUntil r of None \<Rightarrow> False | Some u \<Rightarrow> time_after u (iw_now w))"
    using True by (auto simp: may_reclaim_def time_defs split: option.splits)
  ultimately show ?thesis using True by (simp add: settle_def idem_status)
next
  case False
  with old fp r show ?thesis
    by (auto simp: settle_def implements_def decide_def run_calls may_reclaim_def time_defs idem_status Let_def
        split: option.splits)
qed

lemma decide_same: "same_row q r \<Longrightarrow> decide E fp now (Some q) = decide E fp now (Some r)"
  by (drule same_rowD) (simp add: decide_def may_reclaim_def)

lemma implements_store:
  assumes "row (io_Scope opts) kh (iw_store w) = Some r" and "row (io_Scope opts) kh t = Some q" and "same_row q r"
    and "implements R E cfg opts kh fp (w\<lparr>iw_store := t\<rparr>) res"
  shows "implements R E cfg opts kh fp w res"
  using assms(4) decide_same [OF assms(3), of E fp "iw_now w"] assms(1,2,3)
  by (auto simp: implements_def Let_def split: verdict.splits intro: same_row_trans)

lemma run_claim:
  assumes ok: "ok (iw_store w)"
  shows "implements R E cfg opts kh fp w (run R (claim E cfg opts kh fp (iw_now w)) w)"
proof -
  define rec where "rec = claim_record (io_Scope opts) kh fp (iw_now w + ic_ProcessingTimeout cfg) (iw_now w + ttl_of cfg opts)"
  have key: "ir_Scope rec = io_Scope opts" "ir_KeyHash rec = kh" by (simp_all add: rec_def claim_record_def)
  show ?thesis
  proof (cases "row (io_Scope opts) kh (iw_store w)")
    case None
    with create_new [OF ok, of rec "iw_now w"] key obtain i q t where t:
      "rp_CreateProcessing R (iw_now w) rec (iw_store w) = (Some i, t)" "ok t" "row (io_Scope opts) kh t = Some q"
      "same_row q (rec\<lparr>ir_ID := i, ir_ResponseStatus := None, ir_ResponseBody := None, ir_ErrorReason := None\<rparr>)"
      by auto
    from same_row_fields [OF t(4)] have q: "ir_ID q = i" "ir_Fingerprint q = fp" "ir_Status q = IdempotencyStatusProcessing"
      "ir_LockedUntil q = Some (iw_now w + ic_ProcessingTimeout cfg)" "ir_ExpiresAt q = iw_now w + ttl_of cfg opts"
      by (simp_all add: rec_def claim_record_def)
    have "ok (iw_store (w\<lparr>iw_store := t\<rparr>))" "row (io_Scope opts) kh (iw_store (w\<lparr>iw_store := t\<rparr>)) = Some q"
      using t by simp_all
    from run_owned [OF this q(2), of cfg opts E] q show ?thesis
      by (simp add: implements_def claim_def ttl_of_def [symmetric] rec_def [symmetric] run_calls t(1) None decide_def Let_def)
  next
    case (Some r)
    with create_old [OF ok, of rec r "iw_now w"] key obtain t where t:
      "rp_CreateProcessing R (iw_now w) rec (iw_store w) = (None, t)" "ok t" "row (io_Scope opts) kh t = Some r" by auto
    let ?w = "w\<lparr>iw_store := t\<rparr>"
    have w: "ok (iw_store ?w)" "row (io_Scope opts) kh (iw_store ?w) = Some r" "iw_now ?w = iw_now w" using t by simp_all
    show ?thesis
    proof (rule implements_store [OF Some t(3) same_row_refl])
      show "implements R E cfg opts kh fp ?w (run R (claim E cfg opts kh fp (iw_now w)) w)"
      proof (cases "ir_Fingerprint r = fp")
        case False
        then show ?thesis
          by (simp add: implements_def claim_def ttl_of_def [symmetric] rec_def [symmetric] run_calls t decide_def Let_def)
      next
        case fp: True
        show ?thesis
        proof (cases "ir_ExpiresAt r \<le> iw_now w")
          case False
          with run_settle [OF w(1,2) fp, of E cfg] fp show ?thesis
            by (simp add: claim_def ttl_of_def [symmetric] rec_def [symmetric] run_calls t time_defs Let_def)
        next
          case expired: True
          show ?thesis
          proof (cases "may_reclaim (ir_Status r) (iw_now w) r")
            case True
            with expired fp have "decide E fp (iw_now ?w) (Some r) = Run_it" by (simp add: decide_def)
            from run_reclaimed [OF w(1,2) fp _ this, unfolded w(3)] True expired fp show ?thesis
              by (simp add: claim_def ttl_of_def [symmetric] rec_def [symmetric] run_calls(2,3) t time_defs Let_def)
          next
            case False
            with reclaim [OF w(1,2), of "iw_now w" "ir_Status r" "iw_now w" "iw_now w + ic_ProcessingTimeout cfg"
                "iw_now w + ttl_of cfg opts"]
            obtain q t2 where t2: "rp_TryReclaim R (iw_now w) (ir_ID r) (ir_Status r) (iw_now w)
                (iw_now w + ic_ProcessingTimeout cfg) (iw_now w + ttl_of cfg opts) t = (False, t2)"
              "ok t2" "row (io_Scope opts) kh t2 = Some q" "same_row q r" by auto
            let ?w2 = "w\<lparr>iw_store := t2\<rparr>"
            have q: "ir_Fingerprint q = fp" "\<not> (ir_ExpiresAt q \<le> iw_now ?w2 \<and> may_reclaim (ir_Status q) (iw_now ?w2) q)"
              using same_row_fields [OF t2(4)] fp False by (simp_all add: may_reclaim_def)
            have "ok (iw_store ?w2)" "row (io_Scope opts) kh (iw_store ?w2) = Some q" using t2 by simp_all
            from run_settle [OF this q, of E cfg]
            have "implements R E cfg opts kh fp (?w\<lparr>iw_store := t2\<rparr>) (run R (claim E cfg opts kh fp (iw_now w)) w)"
              using expired fp q
              by (simp add: claim_def ttl_of_def [symmetric] rec_def [symmetric] run_calls t t2 time_defs Let_def)
            from implements_store [OF w(2) t2(3,4) this] show ?thesis .
          qed
        qed
      qed
    qed
  qed
qed

lemma run_execute:
  assumes "keyed E opts kh fp" and "ok (iw_store w)"
  shows "implements R E cfg opts kh fp w (run R (Execute E cfg False False opts) w)"
proof -
  from assms(1) have "run R (Execute E cfg False False opts) w = run R (claim E cfg opts kh fp (iw_now w)) w"
    by (auto simp: keyed_def Execute_def run_calls)
  with run_claim [OF assms(2)] show ?thesis by simp
qed

end

subsection \<open>On the table\<close>

lemma serve_ok: "table_ok (iw_store w) \<Longrightarrow> table_ok (iw_store (snd (serve idempotencyRepository c w)))"
  using create_ok [of "iw_store w"] reclaim_ok [of "iw_store w"]
  by (cases c) (simp_all add: serve_def idempotencyRepository_def case_prod_unfold succeed_ok fail_ok)

lemma run_ok: "table_ok (iw_store w) \<Longrightarrow> table_ok (iw_store (snd (run idempotencyRepository p w)))"
proof (induction p arbitrary: w)
  case (Call c k)
  from serve_ok [OF Call.prems, of c] Call.IH show ?case by (simp add: case_prod_unfold)
qed simp

text \<open>
  Property C30. Run alone, a request with a key does what the stored row says: it runs its executor
  exactly once when there is no row, the row has expired and is not locked, or a failed attempt's
  back-off is over, and then stores and returns the outcome; otherwise it does not run the executor
  and replays the stored response, or refuses with the conflict the row calls for, and leaves the row
  as it was.
\<close>

theorem execute_decides:
  assumes "keyed E opts keyHash fp" and "table_ok (iw_store w)"
  shows "implements idempotencyRepository E cfg opts keyHash fp w (run idempotencyRepository (Execute E cfg False False opts) w)"
  by (rule sql.run_execute [OF assms])

definition text_env :: "string idem_env" where
  "text_env = \<lparr>ie_sha256 = (\<lambda>s. s), ie_marshal = Some,
     ie_unmarshal = (\<lambda>s. if suffix ''...(truncated)'' s then None else Some s), ie_redact = (\<lambda>s. s), ie_empty = []\<rparr>"

definition sample_opts :: "string IdempotencyExecuteOptions" where
  "sample_opts = \<lparr>io_Scope = ''user'', io_ActorScope = ''7'', io_Method = ''POST'', io_Route = ''/pay'',
     io_IdempotencyKey = ''k1'', io_Payload = ''{}'', io_TTL = 0, io_RequireKey = True, io_ExecutionTimeout = 0\<rparr>"

definition sample_fp :: string where
  "sample_fp = ''POST'' @ [CHR 0x0A] @ ''/pay'' @ [CHR 0x0A] @ ''7'' @ [CHR 0x0A] @ ''{}''"

definition sample_world :: "(string, idem_table) idem_world" where
  "sample_world = \<lparr>iw_store = empty_table, iw_now = 1000, iw_outcome = Inr ''paid'', iw_runs = 0\<rparr>"

lemma sample_keyed: "keyed text_env sample_opts ''k1'' sample_fp"
proof -
  have "trim_space ''k1'' = ''k1''" by (rule trim_graphic) (simp add: graphic_def)
  then show ?thesis
    by (simp add: keyed_def sample_opts_def text_env_def NormalizeIdempotencyKey_def HashIdempotencyKey_def graphic_def
        BuildIdempotencyFingerprint_def upper_byte_def sample_fp_def)
qed

theorem execute_decides_witness:
  "iw_runs (snd (run idempotencyRepository (Execute text_env DefaultIdempotencyConfig False False sample_opts) sample_world)) = 1"
  using execute_decides [OF sample_keyed, of sample_world DefaultIdempotencyConfig] empty_table_ok
  by (simp add: implements_def decide_def sample_world_def idempotencyRepository_def GetByScopeAndKeyHash_def empty_table_def Let_def)

text \<open>
  Exactly once: when a request has run its executor and stored a response, every later
  request with the same key and payload, made before the row expires, replays the stored response
  and does not run the executor.
\<close>

theorem execute_then_replay:
  assumes "keyed E opts keyHash fp" and "table_ok (iw_store w)" and "iw_outcome w = Inr d"
    and "decide E fp (iw_now w) (GetByScopeAndKeyHash (io_Scope opts) keyHash (iw_store w)) = Run_it"
    and "marshalStoredResponse E cfg d = Some body" and "decodeStoredResponse E (Some body) = Some d'"
    and "res = run idempotencyRepository (Execute E cfg False False opts) w"
    and "iw_store w2 = iw_store (snd res)" and "iw_now w2 < iw_now w + ttl_of cfg opts"
  shows "iw_runs (snd res) = Suc (iw_runs w) \<and> fst res = Inr \<lparr>rs_Data = d, rs_Replayed = False\<rparr> \<and>
    (let again = run idempotencyRepository (Execute E cfg2 False False opts) w2
     in iw_runs (snd again) = iw_runs w2 \<and> fst again = Inr \<lparr>rs_Data = d', rs_Replayed = True\<rparr>)"
proof -
  have first: "implements idempotencyRepository E cfg opts keyHash fp w res"
    unfolding assms(7) by (rule sql.run_execute [OF assms(1,2)])
  with assms(3,4,5) obtain r where r: "iw_runs (snd res) = Suc (iw_runs w)"
    "GetByScopeAndKeyHash (io_Scope opts) keyHash (iw_store w2) = Some r" "fst res = Inr \<lparr>rs_Data = d, rs_Replayed = False\<rparr>"
    "ir_Fingerprint r = fp" "ir_Status r = IdempotencyStatusSucceeded" "ir_ResponseBody r = Some body"
    "ir_ExpiresAt r = iw_now w + ttl_of cfg opts"
    by (auto simp: implements_def outcome_stored_def idempotencyRepository_def assms(8) Let_def)
  then have "decide E fp (iw_now w2) (Some r) = Replay d'" using assms(6,9) by (simp add: decide_def)
  moreover have "table_ok (iw_store w2)" unfolding assms(7,8) by (rule run_ok [OF assms(2)])
  ultimately show ?thesis
    using sql.run_execute [OF assms(1), of w2 cfg2] r
    by (simp add: implements_def idempotencyRepository_def Let_def)
qed

theorem execute_then_replay_witness:
  "let res = run idempotencyRepository (Execute text_env DefaultIdempotencyConfig False False sample_opts) sample_world;
       again = run idempotencyRepository (Execute text_env DefaultIdempotencyConfig False False sample_opts)
                 ((snd res)\<lparr>iw_now := 2000, iw_outcome := Inr ''twice''\<rparr>)
   in fst again = Inr \<lparr>rs_Data = ''paid'', rs_Replayed = True\<rparr>"
proof -
  let ?res = "run idempotencyRepository (Execute text_env DefaultIdempotencyConfig False False sample_opts) sample_world"
  have n: "\<not> suffix ''...(truncated)'' ''paid''" by code_simp
  have t: "trim_space ''paid'' = ''paid''" by (rule trim_graphic) (simp add: graphic_def)
  have f1: "table_ok (iw_store sample_world)" "iw_outcome sample_world = Inr ''paid''"
    by (simp_all add: sample_world_def empty_table_ok)
  have f2: "decide text_env sample_fp (iw_now sample_world)
      (GetByScopeAndKeyHash (io_Scope sample_opts) ''k1'' (iw_store sample_world)) = Run_it"
    by (simp add: sample_world_def empty_table_def GetByScopeAndKeyHash_def decide_def)
  have f3: "marshalStoredResponse text_env DefaultIdempotencyConfig ''paid'' = Some ''paid''"
    by (simp add: marshalStoredResponse_def text_env_def DefaultIdempotencyConfig_def)
  have f4: "decodeStoredResponse text_env (Some ''paid'') = Some ''paid''"
    by (simp add: decodeStoredResponse_def text_env_def t n)
  have f5: "iw_store ((snd ?res)\<lparr>iw_now := 2000, iw_outcome := Inr ''twice''\<rparr>) = iw_store (snd ?res)" by simp
  have f6: "iw_now ((snd ?res)\<lparr>iw_now := 2000, iw_outcome := Inr ''twice''\<rparr>) <
      iw_now sample_world + ttl_of DefaultIdempotencyConfig sample_opts"
    by (simp add: sample_world_def ttl_of_def sample_opts_def DefaultIdempotencyConfig_def hour_def minute_def second_def)
  from execute_then_replay [OF sample_keyed f1(1) f1(2) f2 f3 f4 refl f5 f6, where ?cfg2.0 = DefaultIdempotencyConfig]
  show ?thesis unfolding Let_def by blast
qed

text \<open>
  A response longer than the configured bound is stored with a marker after the cut, so
  it is no longer JSON, and no later request can replay it: each one is refused as if the store were
  down, until the row expires.
\<close>

theorem truncated_response_never_replayed:
  assumes "keyed E opts keyHash fp" and "table_ok (iw_store w)" and "iw_outcome w = Inr d"
    and "decide E fp (iw_now w) (GetByScopeAndKeyHash (io_Scope opts) keyHash (iw_store w)) = Run_it"
    and "ie_marshal E d = Some raw" and "0 < ic_MaxStoredResponseLen cfg"
    and "ic_MaxStoredResponseLen cfg < int (length (ie_redact E raw))"
    and not_json: "\<And>s. ie_unmarshal E (s @ ''...(truncated)'') = None"
    and "res = run idempotencyRepository (Execute E cfg False False opts) w"
    and "iw_store w2 = iw_store (snd res)" and "iw_now w2 < iw_now w + ttl_of cfg opts"
  shows "fst res = Inr \<lparr>rs_Data = d, rs_Replayed = False\<rparr> \<and>
    (let again = run idempotencyRepository (Execute E cfg2 False False opts) w2
     in iw_runs (snd again) = iw_runs w2 \<and> fst again = Inl (App ErrIdempotencyStoreUnavail))"
proof -
  define body where "body = truncateUTF8 (ie_redact E raw) (ic_MaxStoredResponseLen cfg) @ ''...(truncated)''"
  have body: "marshalStoredResponse E cfg d = Some body"
    using assms(5,6,7) by (simp add: marshalStoredResponse_def body_def Let_def)
  have "graphic (last body)" "body \<noteq> []" by (simp_all add: body_def graphic_def)
  then have "trim_space body \<noteq> []" by (rule trim_space_ne)
  then have dec: "decodeStoredResponse E (Some body) = None"
    using not_json by (simp add: decodeStoredResponse_def body_def)
  have first: "implements idempotencyRepository E cfg opts keyHash fp w res"
    unfolding assms(9) by (rule sql.run_execute [OF assms(1,2)])
  with assms(3,4) body obtain r where r: "GetByScopeAndKeyHash (io_Scope opts) keyHash (iw_store w2) = Some r"
    "fst res = Inr \<lparr>rs_Data = d, rs_Replayed = False\<rparr>"
    "ir_Fingerprint r = fp" "ir_Status r = IdempotencyStatusSucceeded" "ir_ResponseBody r = Some body"
    "ir_ExpiresAt r = iw_now w + ttl_of cfg opts"
    by (auto simp: implements_def outcome_stored_def idempotencyRepository_def assms(10) Let_def)
  then have "decide E fp (iw_now w2) (Some r) = Refuse ErrIdempotencyStoreUnavail" using dec assms(11) by (simp add: decide_def)
  moreover have "table_ok (iw_store w2)" unfolding assms(9,10) by (rule run_ok [OF assms(2)])
  ultimately show ?thesis
    using sql.run_execute [OF assms(1), of w2 cfg2] r
    by (simp add: implements_def idempotencyRepository_def Let_def)
qed

definition small_cfg :: IdempotencyConfig where
  "small_cfg = DefaultIdempotencyConfig\<lparr>ic_MaxStoredResponseLen := 2\<rparr>"

theorem truncated_response_never_replayed_witness:
  "let res = run idempotencyRepository (Execute text_env small_cfg False False sample_opts) sample_world;
       again = run idempotencyRepository (Execute text_env small_cfg False False sample_opts) ((snd res)\<lparr>iw_now := 2000\<rparr>)
   in fst res = Inr \<lparr>rs_Data = ''paid'', rs_Replayed = False\<rparr> \<and> fst again = Inl (App ErrIdempotencyStoreUnavail)"
proof -
  let ?res = "run idempotencyRepository (Execute text_env small_cfg False False sample_opts) sample_world"
  have f1: "table_ok (iw_store sample_world)" "iw_outcome sample_world = Inr ''paid''"
    by (simp_all add: sample_world_def empty_table_ok)
  have f2: "decide text_env sample_fp (iw_now sample_world)
      (GetByScopeAndKeyHash (io_Scope sample_opts) ''k1'' (iw_store sample_world)) = Run_it"
    by (simp add: sample_world_def empty_table_def GetByScopeAndKeyHash_def decide_def)
  have f3: "ie_marshal text_env ''paid'' = Some ''paid''" "0 < ic_MaxStoredResponseLen small_cfg"
    "ic_MaxStoredResponseLen small_cfg < int (length (ie_redact text_env ''paid''))"
    by (simp_all add: text_env_def small_cfg_def)
  have f4: "ie_unmarshal text_env (s @ ''...(truncated)'') = None" for s
    by (simp add: text_env_def suffix_def)
  have f5: "iw_store ((snd ?res)\<lparr>iw_now := 2000\<rparr>) = iw_store (snd ?res)" by simp
  have f6: "iw_now ((snd ?res)\<lparr>iw_now := 2000\<rparr>) < iw_now sample_world + ttl_of small_cfg sample_opts"
    by (simp add: sample_world_def ttl_of_def sample_opts_def small_cfg_def DefaultIdempotencyConfig_def hour_def minute_def second_def)
  from truncated_response_never_replayed [OF sample_keyed f1(1) f1(2) f2 f3(1) f3(2) f3(3) f4 refl f5 f6, where ?cfg2.0 = small_cfg]
  show ?thesis unfolding Let_def by blast
qed

end
