(* ===== verification/Idempotency_Exclusive.thy ===== *)
theory Idempotency_Exclusive
  imports Idempotency_Replay
begin

section \<open>Many requests at once\<close>

text \<open>
  Requests run side by side on one table: every call of every request is one atomic step, in any
  order, while time passes, calls fail before or after taking effect, leases are renewed and expired
  rows are cleaned up. The lease a request was granted, and until when, is recorded beside it.
\<close>

subsection \<open>The system\<close>

record 'd idem_process =
  pr_prog :: "'d idem_prog"
  pr_claim :: "(int \<times> gotime) option"
  pr_renew :: "(duration \<times> duration \<times> string) option"

record 'd idem_system =
  sy_now :: gotime
  sy_table :: idem_table
  sy_procs :: "'d idem_process list"

text \<open>
  A request starts as the program of Execute; with an execution timeout it renews its lease by
  the processing timeout (30 seconds when that is not positive).
\<close>

definition renewal :: "IdempotencyConfig \<Rightarrow> 'd IdempotencyExecuteOptions \<Rightarrow> string \<Rightarrow> (duration \<times> duration \<times> string) option" where
  "renewal cfg opts fp =
     (if 0 < io_ExecutionTimeout opts
      then Some (if ic_ProcessingTimeout cfg \<le> 0 then ic_ProcessingTimeout DefaultIdempotencyConfig else ic_ProcessingTimeout cfg,
                 if io_TTL opts \<le> 0 then ic_DefaultTTL cfg else io_TTL opts, fp)
      else None)"

definition new_request :: "'d idem_env \<Rightarrow> IdempotencyConfig \<Rightarrow> 'd IdempotencyExecuteOptions \<Rightarrow> 'd idem_process" where
  "new_request E cfg opts =
     \<lparr>pr_prog = Execute E cfg False False opts, pr_claim = None,
      pr_renew = (case BuildIdempotencyFingerprint E (io_Method opts) (io_Route opts) (io_ActorScope opts) (io_Payload opts) of
                    Inl e \<Rightarrow> None | Inr fp \<Rightarrow> renewal cfg opts fp)\<rparr>"

text \<open>The lease a statement grants when it takes effect.\<close>

fun granted :: "idem_call \<Rightarrow> 'd idem_reply \<Rightarrow> (int \<times> gotime) option \<Rightarrow> (int \<times> gotime) option" where
  "granted (CallCreate rec) (RepCreated (Some i)) old = map_option (\<lambda>u. (i, u)) (ir_LockedUntil rec)"
| "granted (CallReclaim i fs now lu ex) (RepTaken True) old = Some (i, lu)"
| "granted c rep old = old"

fun is_mark :: "idem_call \<Rightarrow> bool" where
  "is_mark (CallSucceed i code body ex) = True"
| "is_mark (CallFail i reason lu ex) = True"
| "is_mark c = False"

fun is_store_call :: "idem_call \<Rightarrow> bool" where
  "is_store_call CallClock = False"
| "is_store_call CallExecute = False"
| "is_store_call c = True"

text \<open>The lease of a request that has not returned and whose lock time has not come.\<close>

definition live :: "gotime \<Rightarrow> 'd idem_process \<Rightarrow> bool" where
  "live now p \<longleftrightarrow> (case (pr_claim p, pr_prog p) of (Some (i, u), Call c k) \<Rightarrow> now < u | _ \<Rightarrow> False)"

definition running :: "'d idem_process \<Rightarrow> bool" where
  "running p \<longleftrightarrow> (case pr_prog p of Call CallExecute k \<Rightarrow> True | _ \<Rightarrow> False)"

datatype 'd idem_event =
    Tick duration
  | Arrive "'d idem_env" IdempotencyConfig "'d IdempotencyExecuteOptions"
  | Act nat "go_error + 'd"
  | LoseCall nat
  | LoseReply nat "go_error + 'd"
  | Renew nat gotime
  | LoseRenewCall nat
  | LoseRenewReply nat gotime
  | Clean int

text \<open>
  One step. With \<open>timely\<close>, a request whose lease is over neither marks its record nor renews. A renewal
  extends the lease from the time its tick was read; when it fails, having taken effect or not, the
  renewing goes on, and it ends when the row is no longer the request's.
\<close>

definition set_process :: "nat \<Rightarrow> 'd idem_process \<Rightarrow> 'd idem_system \<Rightarrow> 'd idem_system" where
  "set_process n p s = s\<lparr>sy_procs := (sy_procs s)[n := p]\<rparr>"

definition with_call ::
    "'d idem_system \<Rightarrow> nat \<Rightarrow> ('d idem_process \<Rightarrow> idem_call \<Rightarrow> ('d idem_reply \<Rightarrow> 'd idem_prog) \<Rightarrow> 'd idem_system option) \<Rightarrow>
     'd idem_system option" where
  "with_call s n f =
     (if n < length (sy_procs s)
      then (case pr_prog (sy_procs s ! n) of Return r \<Rightarrow> None | Call c k \<Rightarrow> f (sy_procs s ! n) c k)
      else None)"

definition effect :: "'d idem_system \<Rightarrow> idem_call \<Rightarrow> go_error + 'd \<Rightarrow> 'd idem_reply \<times> idem_table" where
  "effect s c x =
     (case serve idempotencyRepository c \<lparr>iw_store = sy_table s, iw_now = sy_now s, iw_outcome = x, iw_runs = 0\<rparr> of
        (rep, w) \<Rightarrow> (rep, iw_store w))"

definition with_renewal ::
    "bool \<Rightarrow> 'd idem_system \<Rightarrow> nat \<Rightarrow> gotime \<Rightarrow>
     ('d idem_process \<Rightarrow> int \<Rightarrow> duration \<Rightarrow> bool \<times> idem_table \<Rightarrow> 'd idem_system option) \<Rightarrow> 'd idem_system option" where
  "with_renewal timely s n at f = with_call s n (\<lambda>p c k.
     case (pr_claim p, pr_renew p) of
       (Some (i, u), Some (lease, ttl, fp)) \<Rightarrow>
         if timely \<and> \<not> live (sy_now s) p \<or> sy_now s < at then None
         else f p i lease (ExtendProcessingLock (sy_now s) i fp (at + lease) (at + ttl) (sy_table s))
     | _ \<Rightarrow> None)"

fun idem_step :: "bool \<Rightarrow> 'd idem_event \<Rightarrow> 'd idem_system \<Rightarrow> 'd idem_system option" where
  "idem_step timely (Tick d) s = (if 0 \<le> d then Some (s\<lparr>sy_now := sy_now s + d\<rparr>) else None)"
| "idem_step timely (Arrive E cfg opts) s = Some (s\<lparr>sy_procs := sy_procs s @ [new_request E cfg opts]\<rparr>)"
| "idem_step timely (Act n x) s = with_call s n (\<lambda>p c k.
     if timely \<and> is_mark c \<and> \<not> live (sy_now s) p then None
     else (case effect s c x of (rep, t) \<Rightarrow>
       Some (set_process n (p\<lparr>pr_prog := k rep, pr_claim := granted c rep (pr_claim p)\<rparr>) (s\<lparr>sy_table := t\<rparr>))))"
| "idem_step timely (LoseCall n) s = with_call s n (\<lambda>p c k.
     if is_store_call c then Some (set_process n (p\<lparr>pr_prog := k RepStoreError\<rparr>) s) else None)"
| "idem_step timely (LoseReply n x) s = with_call s n (\<lambda>p c k.
     if \<not> is_store_call c \<or> timely \<and> is_mark c \<and> \<not> live (sy_now s) p then None
     else (case effect s c x of (rep, t) \<Rightarrow>
       Some (set_process n (p\<lparr>pr_prog := k RepStoreError, pr_claim := granted c rep (pr_claim p)\<rparr>) (s\<lparr>sy_table := t\<rparr>))))"
| "idem_step timely (Renew n at) s = with_renewal timely s n at (\<lambda>p i lease R.
     case R of
       (True, t) \<Rightarrow> Some (set_process n (p\<lparr>pr_claim := Some (i, at + lease)\<rparr>) (s\<lparr>sy_table := t\<rparr>))
     | (False, t) \<Rightarrow> Some (set_process n (p\<lparr>pr_renew := None\<rparr>) (s\<lparr>sy_table := t\<rparr>)))"
| "idem_step timely (LoseRenewCall n) s = with_renewal timely s n (sy_now s) (\<lambda>p i lease R. Some s)"
| "idem_step timely (LoseRenewReply n at) s = with_renewal timely s n at (\<lambda>p i lease R.
     case R of
       (True, t) \<Rightarrow> Some (set_process n (p\<lparr>pr_claim := Some (i, at + lease)\<rparr>) (s\<lparr>sy_table := t\<rparr>))
     | (False, t) \<Rightarrow> Some (s\<lparr>sy_table := t\<rparr>))"
| "idem_step timely (Clean limit) s = Some (s\<lparr>sy_table := snd (DeleteExpired (sy_now s) limit (sy_table s))\<rparr>)"

definition idem_start :: "'d idem_system" where
  "idem_start = \<lparr>sy_now = 0, sy_table = empty_table, sy_procs = []\<rparr>"

fun idem_steps :: "bool \<Rightarrow> 'd idem_event list \<Rightarrow> 'd idem_system \<Rightarrow> 'd idem_system option" where
  "idem_steps timely [] s = Some s"
| "idem_steps timely (ev # evs) s = (case idem_step timely ev s of None \<Rightarrow> None | Some s' \<Rightarrow> idem_steps timely evs s')"

text \<open>The lock of a new row ends no later than the row.\<close>

definition lock_fits :: "IdempotencyConfig \<Rightarrow> 'd IdempotencyExecuteOptions \<Rightarrow> bool" where
  "lock_fits cfg opts =
     (0 < ic_ProcessingTimeout cfg \<and> ic_ProcessingTimeout cfg \<le> (if io_TTL opts \<le> 0 then ic_DefaultTTL cfg else io_TTL opts))"

subsection \<open>What the program of a request may do\<close>

text \<open>
  \<open>prog_ok p T c\<close>: from time \<open>T\<close> on, holding record \<open>c\<close>, the program inserts and reclaims only with a
  lock time not after the expiry and a clock reading from the past, marks only the record it holds,
  and ends after marking.
\<close>

definition is_return :: "'d idem_prog \<Rightarrow> bool" where
  "is_return p \<longleftrightarrow> (case p of Return r \<Rightarrow> True | Call c k \<Rightarrow> False)"

primrec prog_ok :: "'d idem_prog \<Rightarrow> gotime \<Rightarrow> int option \<Rightarrow> bool" where
  "prog_ok (Return r) = (\<lambda>T c. True)"
| "prog_ok (Call call k) = (\<lambda>T c. case call of
     CallClock \<Rightarrow> (\<forall>t \<ge> T. prog_ok (k (RepTime t)) t c)
   | CallCreate rec \<Rightarrow> c = None \<and> ir_Status rec = IdempotencyStatusProcessing \<and>
       (\<exists>u. ir_LockedUntil rec = Some u \<and> u \<le> ir_ExpiresAt rec) \<and>
       prog_ok (k (RepCreated None)) T None \<and> (\<forall>i. prog_ok (k (RepCreated (Some i))) T (Some i)) \<and>
       is_return (k RepStoreError)
   | CallGet s kh \<Rightarrow> (\<forall>r. prog_ok (k (RepRecord r)) T c) \<and> is_return (k RepStoreError)
   | CallReclaim i from now lu ex \<Rightarrow> c = None \<and> now \<le> T \<and> lu \<le> ex \<and>
       prog_ok (k (RepTaken False)) T None \<and> prog_ok (k (RepTaken True)) T (Some i) \<and> is_return (k RepStoreError)
   | CallExecute \<Rightarrow> (\<forall>x. prog_ok (k (RepExecuted x)) T c)
   | CallSucceed i code body ex \<Rightarrow> c = Some i \<and> (\<forall>rep. is_return (k rep))
   | CallFail i reason lu ex \<Rightarrow> c = Some i \<and> (\<forall>rep. is_return (k rep)))"

lemma prog_ok_return: "is_return p \<Longrightarrow> prog_ok p T c"
  by (cases p) (auto simp: is_return_def)

lemma prog_ok_later: "prog_ok p T c \<Longrightarrow> T \<le> T' \<Longrightarrow> prog_ok p T' c"
proof (induction p arbitrary: T T' c)
  case (Call call k)
  show ?case
    using Call.prems Call.IH [OF rangeI] by (cases call) (force+)
qed simp

lemma prog_ok_owned: "prog_ok (execute_owned E cfg opts ttl ex i) T (Some i)"
  by (auto simp: execute_owned_def idem_calls fail_with_def is_return_def Let_def
      split: sum.splits option.splits idem_reply.splits)

lemma prog_ok_settle:
  assumes "now \<le> T" and "lu \<le> ex"
  shows "prog_ok (settle E now lu ex (execute_owned E cfg opts ttl ex2) r) T None"
  using assms by (auto simp: settle_def idem_calls fail_with_def is_return_def prog_ok_owned split: option.splits)

lemma prog_ok_claim:
  assumes "lock_fits cfg opts"
  shows "prog_ok (claim E cfg opts kh fp now) now None"
  using assms
  by (auto simp: claim_def idem_calls fail_with_def is_return_def prog_ok_owned prog_ok_settle claim_record_def Let_def lock_fits_def
      split: option.splits)

lemma prog_ok_execute:
  assumes "lock_fits cfg opts"
  shows "prog_ok (Execute E cfg b1 b2 opts) T None"
  using prog_ok_claim [OF assms]
  by (auto simp: Execute_def clock_def run_executor_def fail_with_def split: sum.splits)

subsection \<open>Locks in the table\<close>

definition holds :: "idem_table \<Rightarrow> int \<times> gotime \<Rightarrow> bool" where
  "holds t x \<longleftrightarrow> (\<exists>r \<in> set (it_rows t). ir_ID r = fst x \<and> ir_Status r = IdempotencyStatusProcessing \<and>
     ir_LockedUntil r = Some (snd x))"

definition locks_end :: "idem_table \<Rightarrow> bool" where
  "locks_end t \<longleftrightarrow> (\<forall>r \<in> set (it_rows t). ir_Status r = IdempotencyStatusProcessing \<longrightarrow>
     (case ir_LockedUntil r of None \<Rightarrow> True | Some u \<Rightarrow> u \<le> ir_ExpiresAt r))"

lemma holds_update:
  assumes "holds t x" and "\<And>r. ir_ID r = fst x \<Longrightarrow> \<not> P r"
  shows "holds (snd (update_rows P f t)) x"
  using assms by (fastforce simp: holds_def update_rows_def)

lemma holds_updated:
  assumes "r \<in> set (it_rows t)" and "P r" and "ir_ID (f r) = i" and "ir_Status (f r) = IdempotencyStatusProcessing"
    and "ir_LockedUntil (f r) = Some u"
  shows "holds (snd (update_rows P f t)) (i, u)"
proof -
  from assms(1,2) have "f r \<in> set (it_rows (snd (update_rows P f t)))" by (force simp: update_rows_def)
  with assms(3-5) show ?thesis by (auto simp: holds_def)
qed

lemma locks_update:
  assumes "locks_end t" and "\<And>r. ir_Status (f r) = IdempotencyStatusProcessing \<Longrightarrow>
    (case ir_LockedUntil (f r) of None \<Rightarrow> True | Some u \<Rightarrow> u \<le> ir_ExpiresAt (f r))"
  shows "locks_end (snd (update_rows P f t))"
  using assms by (auto simp: locks_end_def update_rows_def)

lemma update_none: "fst (update_rows P f t) = 0 \<Longrightarrow> snd (update_rows P f t) = t"
  by (auto simp: update_rows_def filter_empty_conv intro!: map_idI idem_table.equality)

lemma create_locks:
  assumes "table_ok t" and "locks_end t" and "ir_Status rec = IdempotencyStatusProcessing"
    and "ir_LockedUntil rec = Some u" and "u \<le> ir_ExpiresAt rec"
  shows "locks_end (snd (CreateProcessing now rec t))"
    and "holds t x \<Longrightarrow> holds (snd (CreateProcessing now rec t)) x"
    and "fst (CreateProcessing now rec t) = Some i \<Longrightarrow> holds (snd (CreateProcessing now rec t)) (i, u)"
    and "fst (CreateProcessing now rec t) = Some i \<Longrightarrow> holds t x \<Longrightarrow> fst x \<noteq> i"
  using assms by (auto simp: CreateProcessing_def locks_end_def holds_def table_ok_def split: if_splits)

lemma reclaim_locks:
  fixes t now i fs now0 lu ex
  defines "R \<equiv> TryReclaim now i fs now0 lu ex t"
  assumes "table_ok t" and "locks_end t" and "lu \<le> ex"
  shows "locks_end (snd R)"
    and "holds t x \<Longrightarrow> fst x \<noteq> i \<Longrightarrow> holds (snd R) x"
    and "\<not> fst R \<Longrightarrow> snd R = t"
    and "fst R \<Longrightarrow> holds (snd R) (i, lu)"
    and "fst R \<Longrightarrow> holds t (i, u) \<Longrightarrow> u \<le> now0"
proof -
  show "locks_end (snd R)" unfolding R_def TryReclaim_def
    by (simp add: case_prod_unfold) (rule locks_update, use assms(3,4) in auto)
  show "holds t x \<Longrightarrow> fst x \<noteq> i \<Longrightarrow> holds (snd R) x" unfolding R_def TryReclaim_def
    by (simp add: case_prod_unfold) (rule holds_update, auto)
  show "\<not> fst R \<Longrightarrow> snd R = t" unfolding R_def TryReclaim_def
    by (simp add: case_prod_unfold update_none)
  assume "fst R"
  then obtain r where r: "r \<in> set (it_rows t)" "ir_ID r = i" "may_reclaim fs now0 r"
    by (auto simp: R_def TryReclaim_def case_prod_unfold update_rows_def filter_empty_conv)
  then show "holds (snd R) (i, lu)"
    by (simp add: R_def TryReclaim_def case_prod_unfold holds_updated [of r])
  assume "holds t (i, u)"
  then obtain q where q: "q \<in> set (it_rows t)" "ir_ID q = i" "ir_LockedUntil q = Some u" by (auto simp: holds_def)
  have "q = r" by (rule same_id [OF assms(2) q(1) r(1)]) (simp add: q r)
  with q(3) r(3) show "u \<le> now0" by (simp add: may_reclaim_def)
qed

lemma extend_locks:
  fixes t now i fp lu ex
  defines "R \<equiv> ExtendProcessingLock now i fp lu ex t"
  assumes "table_ok t" and "locks_end t" and "lu \<le> ex"
  shows "locks_end (snd R)"
    and "holds t x \<Longrightarrow> fst x \<noteq> i \<Longrightarrow> holds (snd R) x"
    and "\<not> fst R \<Longrightarrow> snd R = t"
    and "fst R \<Longrightarrow> holds (snd R) (i, lu)"
proof -
  show "locks_end (snd R)" unfolding R_def ExtendProcessingLock_def
    by (simp add: case_prod_unfold) (rule locks_update, use assms(3,4) in auto)
  show "holds t x \<Longrightarrow> fst x \<noteq> i \<Longrightarrow> holds (snd R) x" unfolding R_def ExtendProcessingLock_def
    by (simp add: case_prod_unfold) (rule holds_update, auto)
  show "\<not> fst R \<Longrightarrow> snd R = t" unfolding R_def ExtendProcessingLock_def
    by (simp add: case_prod_unfold update_none)
  assume "fst R"
  then obtain r where "r \<in> set (it_rows t)" "ir_ID r = i" "ir_Status r = IdempotencyStatusProcessing" "ir_Fingerprint r = fp"
    by (auto simp: R_def ExtendProcessingLock_def case_prod_unfold update_rows_def filter_empty_conv)
  then show "holds (snd R) (i, lu)"
    by (simp add: R_def ExtendProcessingLock_def case_prod_unfold holds_updated [of r])
qed

lemma mark_locks:
  assumes "locks_end t"
  shows "locks_end (MarkSucceeded now i code body ex t)" "locks_end (MarkFailedRetryable now i reason lu ex t)"
    and "holds t x \<Longrightarrow> fst x \<noteq> i \<Longrightarrow> holds (MarkSucceeded now i code body ex t) x"
    and "holds t x \<Longrightarrow> fst x \<noteq> i \<Longrightarrow> holds (MarkFailedRetryable now i reason lu ex t) x"
  using assms
  by (auto simp: MarkSucceeded_def MarkFailedRetryable_def idem_status intro!: locks_update holds_update)

lemma clean_locks:
  assumes "table_ok t" and "locks_end t"
  shows "locks_end (snd (DeleteExpired now limit t))"
    and "holds t x \<Longrightarrow> now < snd x \<Longrightarrow> holds (snd (DeleteExpired now limit t)) x"
proof -
  show "locks_end (snd (DeleteExpired now limit t))"
    using assms(2) by (auto simp: DeleteExpired_def locks_end_def Let_def)
  assume h: "holds t x" "now < snd x"
  then obtain r where r: "r \<in> set (it_rows t)" "ir_ID r = fst x" "ir_Status r = IdempotencyStatusProcessing"
    "ir_LockedUntil r = Some (snd x)" by (auto simp: holds_def)
  with assms(2) h(2) have "now < ir_ExpiresAt r" by (fastforce simp: locks_end_def)
  define victims where "victims = take (nat (if limit \<le> 0 then 500 else limit))
    (slice_stable (\<lambda>a b. ir_ExpiresAt a < ir_ExpiresAt b) (filter (\<lambda>r. ir_ExpiresAt r \<le> now) (it_rows t)))"
  have "set victims \<subseteq> {q \<in> set (it_rows t). ir_ExpiresAt q \<le> now}"
    unfolding victims_def by (rule order_trans [OF set_take_subset]) auto
  with same_id [OF assms(1) r(1)] \<open>now < ir_ExpiresAt r\<close> have "ir_ID r \<notin> ir_ID ` set victims" by fastforce
  with r show "holds (snd (DeleteExpired now limit t)) x"
    unfolding DeleteExpired_def holds_def Let_def by (intro bexI [of _ r]) (simp_all add: victims_def [symmetric])
qed

subsection \<open>The invariant\<close>

definition renew_ok :: "'d idem_process \<Rightarrow> bool" where
  "renew_ok p \<longleftrightarrow> (case pr_renew p of None \<Rightarrow> True | Some (lease, ttl, fp) \<Rightarrow> lease \<le> ttl)"

definition process_ok :: "gotime \<Rightarrow> idem_table \<Rightarrow> 'd idem_process \<Rightarrow> bool" where
  "process_ok now t p \<longleftrightarrow> prog_ok (pr_prog p) now (map_option fst (pr_claim p)) \<and> renew_ok p \<and>
     (live now p \<longrightarrow> holds t (the (pr_claim p)))"

definition apart :: "gotime \<Rightarrow> 'd idem_process \<Rightarrow> 'd idem_process \<Rightarrow> bool" where
  "apart now p q \<longleftrightarrow> (live now p \<and> live now q \<longrightarrow> fst (the (pr_claim p)) \<noteq> fst (the (pr_claim q)))"

definition idem_inv :: "'d idem_system \<Rightarrow> bool" where
  "idem_inv s \<longleftrightarrow> table_ok (sy_table s) \<and> locks_end (sy_table s) \<and>
     (\<forall>p \<in> set (sy_procs s). process_ok (sy_now s) (sy_table s) p) \<and>
     (\<forall>m n. m < length (sy_procs s) \<and> n < length (sy_procs s) \<and> m \<noteq> n \<longrightarrow>
        apart (sy_now s) (sy_procs s ! m) (sy_procs s ! n))"

lemma apart_sym: "apart now p q \<longleftrightarrow> apart now q p"
  by (auto simp: apart_def)

lemma live_call: "live now p \<longleftrightarrow> (\<exists>i u. pr_claim p = Some (i, u) \<and> now < u) \<and> \<not> is_return (pr_prog p)"
  by (auto simp: live_def is_return_def split: option.splits idem_prog.splits)

text \<open>One process and the table change; the leases of the others must survive.\<close>

lemma inv_set:
  assumes inv: "idem_inv s" and n: "n < length (sy_procs s)"
    and t: "table_ok t" "locks_end t" and p: "process_ok (sy_now s) t p"
    and others: "\<And>q. q \<in> set (sy_procs s) \<Longrightarrow> live (sy_now s) q \<Longrightarrow> apart (sy_now s) (sy_procs s ! n) q \<Longrightarrow>
      holds (sy_table s) (the (pr_claim q)) \<Longrightarrow> holds t (the (pr_claim q)) \<and> apart (sy_now s) p q"
  shows "idem_inv (set_process n p (s\<lparr>sy_table := t\<rparr>))"
proof -
  let ?ps = "(sy_procs s)[n := p]"
  have keep: "process_ok (sy_now s) t (sy_procs s ! m) \<and> apart (sy_now s) p (sy_procs s ! m)"
    if m: "m < length (sy_procs s)" "m \<noteq> n" for m
  proof -
    from inv m have ok: "process_ok (sy_now s) (sy_table s) (sy_procs s ! m)" and
      ap: "apart (sy_now s) (sy_procs s ! n) (sy_procs s ! m)" using n by (auto simp: idem_inv_def)
    show ?thesis
    proof (cases "live (sy_now s) (sy_procs s ! m)")
      case True
      with others [of "sy_procs s ! m"] ok ap m show ?thesis by (auto simp: process_ok_def)
    next
      case False
      with ok show ?thesis by (auto simp: process_ok_def apart_def)
    qed
  qed
  have "process_ok (sy_now s) t (?ps ! m)" if "m < length ?ps" for m
    using keep [of m] p that by (cases "m = n") simp_all
  then have "\<forall>q \<in> set ?ps. process_ok (sy_now s) t q" by (metis in_set_conv_nth)
  moreover have "apart (sy_now s) (?ps ! a) (?ps ! b)" if ab: "a < length ?ps" "b < length ?ps" "a \<noteq> b" for a b
  proof -
    consider "a = n" | "b = n" | "a \<noteq> n" "b \<noteq> n" by blast
    then show ?thesis
    proof cases
      case 1
      with keep [of b] ab show ?thesis by simp
    next
      case 2
      with keep [of a] ab show ?thesis by (simp add: apart_sym)
    next
      case 3
      with inv ab show ?thesis by (simp add: idem_inv_def)
    qed
  qed
  ultimately show ?thesis using t by (simp add: idem_inv_def set_process_def)
qed

lemma effect_calls:
  "effect s CallClock x = (RepTime (sy_now s), sy_table s)"
  "effect s CallExecute x = (RepExecuted x, sy_table s)"
  "effect s (CallGet sc kh) x = (RepRecord (GetByScopeAndKeyHash sc kh (sy_table s)), sy_table s)"
  "effect s (CallCreate rec) x = (RepCreated (fst (CreateProcessing (sy_now s) rec (sy_table s))),
     snd (CreateProcessing (sy_now s) rec (sy_table s)))"
  "effect s (CallReclaim i fs now lu ex) x = (RepTaken (fst (TryReclaim (sy_now s) i fs now lu ex (sy_table s))),
     snd (TryReclaim (sy_now s) i fs now lu ex (sy_table s)))"
  "effect s (CallSucceed i code body ex) x = (RepDone, MarkSucceeded (sy_now s) i code body ex (sy_table s))"
  "effect s (CallFail i reason lu ex) x = (RepDone, MarkFailedRetryable (sy_now s) i reason lu ex (sy_table s))"
  by (simp_all add: effect_def serve_def idempotencyRepository_def case_prod_unfold)

text \<open>A call that takes effect, answered or not.\<close>

lemma inv_effect:
  assumes inv: "idem_inv s" and n: "n < length (sy_procs s)" and pr: "pr_prog (sy_procs s ! n) = Call c k"
    and e: "effect s c x = (rep, t)" and mark: "is_mark c \<Longrightarrow> live (sy_now s) (sy_procs s ! n)"
    and q: "q = k rep \<or> q = k RepStoreError \<and> is_store_call c"
  shows "idem_inv (set_process n ((sy_procs s ! n)\<lparr>pr_prog := q, pr_claim := granted c rep (pr_claim (sy_procs s ! n))\<rparr>)
    (s\<lparr>sy_table := t\<rparr>))"
proof -
  let ?p = "sy_procs s ! n"
  have s: "table_ok (sy_table s)" "locks_end (sy_table s)" using inv by (simp_all add: idem_inv_def)
  have ok: "process_ok (sy_now s) (sy_table s) ?p" using inv n by (simp add: idem_inv_def)
  then have ok': "prog_ok (Call c k) (sy_now s) (map_option fst (pr_claim ?p))" "renew_ok ?p"
    by (simp_all add: process_ok_def pr)
  have quiet: ?thesis if same: "t = sy_table s" "granted c rep (pr_claim ?p) = pr_claim ?p"
      "prog_ok q (sy_now s) (map_option fst (pr_claim ?p))"
  proof (rule inv_set [OF inv n])
    show "table_ok t" "locks_end t" using s same by simp_all
    show "process_ok (sy_now s) t (?p\<lparr>pr_prog := q, pr_claim := granted c rep (pr_claim ?p)\<rparr>)"
      using ok ok' same pr by (auto simp: process_ok_def live_call renew_ok_def is_return_def)
    show "holds t (the (pr_claim r)) \<and> apart (sy_now s) (?p\<lparr>pr_prog := q, pr_claim := granted c rep (pr_claim ?p)\<rparr>) r"
      if "r \<in> set (sy_procs s)" "live (sy_now s) r" "apart (sy_now s) ?p r" "holds (sy_table s) (the (pr_claim r))" for r
      using that same pr by (auto simp: apart_def live_call is_return_def)
  qed
  show ?thesis
  proof (cases c)
    case CallClock
    with ok' e q show ?thesis by (intro quiet) (auto simp: effect_calls)
  next
    case CallExecute
    with ok' e q show ?thesis by (intro quiet) (auto simp: effect_calls)
  next
    case (CallGet sc kh)
    with ok' e q show ?thesis by (intro quiet) (auto simp: effect_calls intro: prog_ok_return)
  next
    case (CallCreate rec)
    with ok' obtain u where u: "ir_Status rec = IdempotencyStatusProcessing" "ir_LockedUntil rec = Some u" "u \<le> ir_ExpiresAt rec"
      "pr_claim ?p = None" by auto
    note cl = create_locks [OF s u(1-3)]
    from e CallCreate have r: "rep = RepCreated (fst (CreateProcessing (sy_now s) rec (sy_table s)))"
      "t = snd (CreateProcessing (sy_now s) rec (sy_table s))" by (simp_all add: effect_calls)
    show ?thesis
    proof (rule inv_set [OF inv n])
      show "table_ok t" "locks_end t" using create_ok [OF s(1)] cl(1) r by simp_all
      show "process_ok (sy_now s) t (?p\<lparr>pr_prog := q, pr_claim := granted c rep (pr_claim ?p)\<rparr>)"
        using ok' q CallCreate u cl(3) r
        by (cases "fst (CreateProcessing (sy_now s) rec (sy_table s))")
          (auto simp: process_ok_def live_call renew_ok_def prog_ok_return)
      show "holds t (the (pr_claim a)) \<and> apart (sy_now s) (?p\<lparr>pr_prog := q, pr_claim := granted c rep (pr_claim ?p)\<rparr>) a"
        if "a \<in> set (sy_procs s)" "live (sy_now s) a" "apart (sy_now s) ?p a" "holds (sy_table s) (the (pr_claim a))" for a
        using cl(2) [OF that(4)] cl(4) [OF _ that(4)] r CallCreate u
        by (cases "fst (CreateProcessing (sy_now s) rec (sy_table s))") (auto simp: apart_def live_call)
    qed
  next
    case (CallReclaim i fs now lu ex)
    with ok' have u: "now \<le> sy_now s" "lu \<le> ex" "pr_claim ?p = None" by auto
    note cl = reclaim_locks [OF s u(2), where i = i and fs = fs and ?now0.0 = now and now = "sy_now s"]
    from e CallReclaim have r: "rep = RepTaken (fst (TryReclaim (sy_now s) i fs now lu ex (sy_table s)))"
      "t = snd (TryReclaim (sy_now s) i fs now lu ex (sy_table s))" by (simp_all add: effect_calls)
    show ?thesis
    proof (cases "fst (TryReclaim (sy_now s) i fs now lu ex (sy_table s))")
      case False
      with ok' q CallReclaim r u cl(3) show ?thesis by (intro quiet) (auto intro: prog_ok_return)
    next
      case True
      show ?thesis
      proof (rule inv_set [OF inv n])
        show "table_ok t" "locks_end t" using reclaim_ok [OF s(1)] cl(1) r by simp_all
        show "process_ok (sy_now s) t (?p\<lparr>pr_prog := q, pr_claim := granted c rep (pr_claim ?p)\<rparr>)"
          using ok' q CallReclaim u cl(4) r True by (auto simp: process_ok_def live_call renew_ok_def prog_ok_return)
        show "holds t (the (pr_claim a)) \<and> apart (sy_now s) (?p\<lparr>pr_prog := q, pr_claim := granted c rep (pr_claim ?p)\<rparr>) a"
          if a: "a \<in> set (sy_procs s)" "live (sy_now s) a" "apart (sy_now s) ?p a" "holds (sy_table s) (the (pr_claim a))" for a
        proof -
          from a(2) obtain j v where jv: "pr_claim a = Some (j, v)" "sy_now s < v" by (auto simp: live_call)
          with cl(5) [OF True, of v] a(4) u(1) have "j \<noteq> i" by fastforce
          with cl(2) [OF a(4)] jv r CallReclaim True show ?thesis by (auto simp: apart_def)
        qed
      qed
    qed
  next
    case (CallSucceed i code body ex)
    with mark obtain v where v: "pr_claim ?p = Some (i, v)" "live (sy_now s) ?p" using ok' by (auto simp: live_call)
    from e CallSucceed have r: "rep = RepDone" "t = MarkSucceeded (sy_now s) i code body ex (sy_table s)"
      by (simp_all add: effect_calls)
    show ?thesis
    proof (rule inv_set [OF inv n])
      show "table_ok t" "locks_end t" using succeed_ok [OF s(1)] mark_locks(1) [OF s(2)] r by simp_all
      show "process_ok (sy_now s) t (?p\<lparr>pr_prog := q, pr_claim := granted c rep (pr_claim ?p)\<rparr>)"
        using ok' q CallSucceed by (auto simp: process_ok_def live_call renew_ok_def prog_ok_return)
      show "holds t (the (pr_claim a)) \<and> apart (sy_now s) (?p\<lparr>pr_prog := q, pr_claim := granted c rep (pr_claim ?p)\<rparr>) a"
        if "a \<in> set (sy_procs s)" "live (sy_now s) a" "apart (sy_now s) ?p a" "holds (sy_table s) (the (pr_claim a))" for a
        using mark_locks(3) [OF s(2) that(4)] that v r CallSucceed q ok' by (auto simp: apart_def live_call)
    qed
  next
    case (CallFail i reason lu ex)
    with mark obtain v where v: "pr_claim ?p = Some (i, v)" "live (sy_now s) ?p" using ok' by (auto simp: live_call)
    from e CallFail have r: "rep = RepDone" "t = MarkFailedRetryable (sy_now s) i reason lu ex (sy_table s)"
      by (simp_all add: effect_calls)
    show ?thesis
    proof (rule inv_set [OF inv n])
      show "table_ok t" "locks_end t" using fail_ok [OF s(1)] mark_locks(2) [OF s(2)] r by simp_all
      show "process_ok (sy_now s) t (?p\<lparr>pr_prog := q, pr_claim := granted c rep (pr_claim ?p)\<rparr>)"
        using ok' q CallFail by (auto simp: process_ok_def live_call renew_ok_def prog_ok_return)
      show "holds t (the (pr_claim a)) \<and> apart (sy_now s) (?p\<lparr>pr_prog := q, pr_claim := granted c rep (pr_claim ?p)\<rparr>) a"
        if "a \<in> set (sy_procs s)" "live (sy_now s) a" "apart (sy_now s) ?p a" "holds (sy_table s) (the (pr_claim a))" for a
        using mark_locks(4) [OF s(2) that(4)] that v r CallFail q ok' by (auto simp: apart_def live_call)
    qed
  qed
qed

lemma with_call_Some:
  "with_call s n f = Some s' \<longleftrightarrow>
     n < length (sy_procs s) \<and> (\<exists>c k. pr_prog (sy_procs s ! n) = Call c k \<and> f (sy_procs s ! n) c k = Some s')"
  by (auto simp: with_call_def split: idem_prog.splits)

lemma live_later: "live now' p \<Longrightarrow> now \<le> now' \<Longrightarrow> live now p"
  by (auto simp: live_call)

lemma inv_tick:
  assumes "idem_inv s" and "0 \<le> d"
  shows "idem_inv (s\<lparr>sy_now := sy_now s + d\<rparr>)"
proof -
  have "live (sy_now s + d) p \<Longrightarrow> live (sy_now s) p" for p :: "'a idem_process"
    using assms(2) by (auto intro: live_later)
  with assms show ?thesis by (auto simp: idem_inv_def process_ok_def apart_def intro: prog_ok_later)
qed

lemma inv_arrive:
  assumes "idem_inv s" and t: "lock_fits cfg opts"
  shows "idem_inv (s\<lparr>sy_procs := sy_procs s @ [new_request E cfg opts]\<rparr>)"
proof -
  have "process_ok (sy_now s) (sy_table s) (new_request E cfg opts)" "\<not> live (sy_now s) (new_request E cfg opts)"
    using prog_ok_execute [OF t] t
    by (auto simp: process_ok_def new_request_def live_call renew_ok_def renewal_def lock_fits_def split: sum.splits)
  with assms(1) show ?thesis by (auto simp: idem_inv_def nth_append apart_def)
qed

lemma inv_clean: "idem_inv s \<Longrightarrow> idem_inv (s\<lparr>sy_table := snd (DeleteExpired (sy_now s) limit (sy_table s))\<rparr>)"
  using delete_ok [of "sy_table s" "sy_now s" limit] clean_locks(1) [of "sy_table s" "sy_now s" limit]
    clean_locks(2) [of "sy_table s" _ "sy_now s" limit]
  by (auto simp: idem_inv_def process_ok_def live_call)

lemma with_renewal_Some:
  "with_renewal timely s n at f = Some s' \<longleftrightarrow>
     n < length (sy_procs s) \<and> \<not> is_return (pr_prog (sy_procs s ! n)) \<and> (timely \<longrightarrow> live (sy_now s) (sy_procs s ! n)) \<and> at \<le> sy_now s \<and>
     (\<exists>i u lease ttl fp. pr_claim (sy_procs s ! n) = Some (i, u) \<and> pr_renew (sy_procs s ! n) = Some (lease, ttl, fp) \<and>
        f (sy_procs s ! n) i lease (ExtendProcessingLock (sy_now s) i fp (at + lease) (at + ttl) (sy_table s)) = Some s')"
  by (auto simp: with_renewal_def with_call_Some is_return_def split: option.splits prod.splits idem_prog.splits if_splits)

text \<open>A renewal that takes effect, and one that finds the row taken.\<close>

lemma inv_extended:
  fixes s :: "'d idem_system" and n at i fp lease ttl
  defines "R \<equiv> ExtendProcessingLock (sy_now s) i fp (at + lease) (at + ttl) (sy_table s)"
  assumes inv: "idem_inv s" and n: "n < length (sy_procs s)" and lv: "live (sy_now s) (sy_procs s ! n)"
    and cl: "pr_claim (sy_procs s ! n) = Some (i, u)" "pr_renew (sy_procs s ! n) = Some (lease, ttl, fp)"
  shows "fst R \<Longrightarrow> idem_inv (set_process n ((sy_procs s ! n)\<lparr>pr_claim := Some (i, at + lease)\<rparr>) (s\<lparr>sy_table := snd R\<rparr>))"
    and "\<not> fst R \<Longrightarrow> idem_inv (set_process n ((sy_procs s ! n)\<lparr>pr_renew := None\<rparr>) (s\<lparr>sy_table := snd R\<rparr>))"
    and "\<not> fst R \<Longrightarrow> snd R = sy_table s"
proof -
  let ?p = "sy_procs s ! n"
  have s: "table_ok (sy_table s)" "locks_end (sy_table s)" using inv by (simp_all add: idem_inv_def)
  have ok: "process_ok (sy_now s) (sy_table s) ?p" using inv n by (simp add: idem_inv_def)
  then have "at + lease \<le> at + ttl" using cl by (simp add: process_ok_def renew_ok_def)
  note ex = extend_locks [OF s this, where i = i and fp = fp and now = "sy_now s", folded R_def]
  show "\<not> fst R \<Longrightarrow> snd R = sy_table s" by (rule ex(3))
  show "idem_inv (set_process n (?p\<lparr>pr_claim := Some (i, at + lease)\<rparr>) (s\<lparr>sy_table := snd R\<rparr>))" if True: "fst R"
  proof (rule inv_set [OF inv n])
    show "table_ok (snd R)" "locks_end (snd R)" using extend_ok [OF s(1)] ex(1) by (simp_all add: R_def)
    show "process_ok (sy_now s) (snd R) (?p\<lparr>pr_claim := Some (i, at + lease)\<rparr>)"
      using ok ex(4) [OF True] cl by (auto simp: process_ok_def renew_ok_def)
    show "holds (snd R) (the (pr_claim a)) \<and> apart (sy_now s) (?p\<lparr>pr_claim := Some (i, at + lease)\<rparr>) a"
      if "a \<in> set (sy_procs s)" "live (sy_now s) a" "apart (sy_now s) ?p a" "holds (sy_table s) (the (pr_claim a))" for a
      using ex(2) [OF that(4)] that cl lv by (auto simp: apart_def)
  qed
  show "idem_inv (set_process n (?p\<lparr>pr_renew := None\<rparr>) (s\<lparr>sy_table := snd R\<rparr>))" if False: "\<not> fst R"
  proof (rule inv_set [OF inv n])
    show "table_ok (snd R)" "locks_end (snd R)" using ex(3) [OF False] s by simp_all
    show "process_ok (sy_now s) (snd R) (?p\<lparr>pr_renew := None\<rparr>)"
      using ok ex(3) [OF False] by (auto simp: process_ok_def renew_ok_def live_call)
    show "holds (snd R) (the (pr_claim a)) \<and> apart (sy_now s) (?p\<lparr>pr_renew := None\<rparr>) a"
      if "a \<in> set (sy_procs s)" "live (sy_now s) a" "apart (sy_now s) ?p a" "holds (sy_table s) (the (pr_claim a))" for a
      using ex(3) [OF False] that by (auto simp: apart_def live_call)
  qed
qed

lemma inv_step:
  assumes inv: "idem_inv s" and st: "idem_step True ev s = Some s'"
    and fits: "\<And>E cfg opts. ev = Arrive E cfg opts \<Longrightarrow> lock_fits cfg opts"
  shows "idem_inv s'"
proof (cases ev)
  case (Tick d)
  with assms inv_tick show ?thesis by (auto split: if_splits)
next
  case (Arrive E cfg opts)
  with st inv_arrive [OF inv fits, of E cfg opts E] show ?thesis by simp
next
  case (Act n x)
  with st obtain c k rep t where a: "n < length (sy_procs s)" "pr_prog (sy_procs s ! n) = Call c k" "effect s c x = (rep, t)"
    "is_mark c \<Longrightarrow> live (sy_now s) (sy_procs s ! n)"
    "s' = set_process n ((sy_procs s ! n)\<lparr>pr_prog := k rep, pr_claim := granted c rep (pr_claim (sy_procs s ! n))\<rparr>) (s\<lparr>sy_table := t\<rparr>)"
    by (auto simp: with_call_Some split: if_splits prod.splits)
  from inv_effect [OF inv a(1-4)] a(5) show ?thesis by simp
next
  case (LoseReply n x)
  with st obtain c k rep t where a: "n < length (sy_procs s)" "pr_prog (sy_procs s ! n) = Call c k" "effect s c x = (rep, t)"
    "is_mark c \<Longrightarrow> live (sy_now s) (sy_procs s ! n)" "is_store_call c"
    "s' = set_process n ((sy_procs s ! n)\<lparr>pr_prog := k RepStoreError, pr_claim := granted c rep (pr_claim (sy_procs s ! n))\<rparr>) (s\<lparr>sy_table := t\<rparr>)"
    by (auto simp: with_call_Some split: if_splits prod.splits)
  from inv_effect [OF inv a(1-4)] a(5,6) show ?thesis by simp
next
  case (LoseCall n)
  with st obtain c k where a: "n < length (sy_procs s)" "pr_prog (sy_procs s ! n) = Call c k" "is_store_call c"
    "s' = set_process n ((sy_procs s ! n)\<lparr>pr_prog := k RepStoreError\<rparr>) s"
    by (auto simp: with_call_Some split: if_splits)
  let ?p = "sy_procs s ! n"
  have ok: "process_ok (sy_now s) (sy_table s) ?p" using inv a(1) by (simp add: idem_inv_def)
  with a(2,3) have ret: "is_return (k RepStoreError)" by (cases c) (auto simp: process_ok_def)
  have "idem_inv (set_process n (?p\<lparr>pr_prog := k RepStoreError\<rparr>) (s\<lparr>sy_table := sy_table s\<rparr>))"
  proof (rule inv_set [OF inv a(1)])
    show "table_ok (sy_table s)" "locks_end (sy_table s)" using inv by (simp_all add: idem_inv_def)
    show "process_ok (sy_now s) (sy_table s) (?p\<lparr>pr_prog := k RepStoreError\<rparr>)"
      using ok ret by (auto simp: process_ok_def live_call renew_ok_def prog_ok_return)
  qed (use ret in \<open>auto simp: apart_def live_call\<close>)
  with a(4) show ?thesis by simp
next
  case (Renew n at)
  with st obtain i u lease ttl fp where r: "n < length (sy_procs s)" "live (sy_now s) (sy_procs s ! n)"
    "pr_claim (sy_procs s ! n) = Some (i, u)" "pr_renew (sy_procs s ! n) = Some (lease, ttl, fp)"
    "(case ExtendProcessingLock (sy_now s) i fp (at + lease) (at + ttl) (sy_table s) of
       (True, t) \<Rightarrow> Some (set_process n ((sy_procs s ! n)\<lparr>pr_claim := Some (i, at + lease)\<rparr>) (s\<lparr>sy_table := t\<rparr>))
     | (False, t) \<Rightarrow> Some (set_process n ((sy_procs s ! n)\<lparr>pr_renew := None\<rparr>) (s\<lparr>sy_table := t\<rparr>))) = Some s'"
    by (auto simp: with_renewal_Some)
  from inv_extended(1,2) [OF inv r(1-4), of at] r(5) show ?thesis by (auto split: prod.splits bool.splits)
next
  case (LoseRenewCall n)
  with inv st show ?thesis by (auto simp: with_renewal_Some)
next
  case (LoseRenewReply n at)
  with st obtain i u lease ttl fp where r: "n < length (sy_procs s)" "live (sy_now s) (sy_procs s ! n)"
    "pr_claim (sy_procs s ! n) = Some (i, u)" "pr_renew (sy_procs s ! n) = Some (lease, ttl, fp)"
    "(case ExtendProcessingLock (sy_now s) i fp (at + lease) (at + ttl) (sy_table s) of
       (True, t) \<Rightarrow> Some (set_process n ((sy_procs s ! n)\<lparr>pr_claim := Some (i, at + lease)\<rparr>) (s\<lparr>sy_table := t\<rparr>))
     | (False, t) \<Rightarrow> Some (s\<lparr>sy_table := t\<rparr>)) = Some s'"
    by (auto simp: with_renewal_Some)
  from inv_extended(1,3) [OF inv r(1-4), of at] r(5) inv show ?thesis by (auto split: prod.splits bool.splits)
next
  case (Clean limit)
  with assms inv_clean show ?thesis by auto
qed

lemma idem_invariant:
  "idem_steps True evs s = Some s' \<Longrightarrow> idem_inv s \<Longrightarrow>
   (\<And>E cfg opts. Arrive E cfg opts \<in> set evs \<Longrightarrow> lock_fits cfg opts) \<Longrightarrow> idem_inv s'"
proof (induction evs arbitrary: s)
  case (Cons ev evs)
  then obtain s1 where s1: "idem_step True ev s = Some s1" "idem_steps True evs s1 = Some s'" by (auto split: option.splits)
  have "idem_inv s1" using Cons.prems by (intro inv_step [OF _ s1(1)]) auto
  then show ?case by (rule Cons.IH [OF s1(2)]) (blast intro: Cons.prems(3) list.set_intros(2))
qed simp

lemma idem_inv_start: "idem_inv idem_start"
  by (simp add: idem_inv_def idem_start_def empty_table_ok) (simp add: locks_end_def empty_table_def)

subsection \<open>At most one live owner\<close>

text \<open>
  Property C29. Take any run in which every request's processing timeout is positive and not longer
  than the time to live of its record, and in which requests mark and renew only while their own
  lease lasts. Then at every moment, whatever calls and renewals fail, are lost or lose their reply,
  interleave or expire, two different requests with live leases own different rows, each locked in
  the table until the end of its owner's lease, with different scope or key hash.
\<close>

theorem one_live_owner:
  assumes "idem_steps True evs idem_start = Some s"
    and "\<And>E cfg opts. Arrive E cfg opts \<in> set evs \<Longrightarrow> 0 < ic_ProcessingTimeout cfg \<and>
      ic_ProcessingTimeout cfg \<le> (if io_TTL opts \<le> 0 then ic_DefaultTTL cfg else io_TTL opts)"
    and "m < length (sy_procs s)" and "n < length (sy_procs s)" and "m \<noteq> n"
    and "live (sy_now s) (sy_procs s ! m)" and "live (sy_now s) (sy_procs s ! n)"
  shows "\<exists>p q. p \<in> set (it_rows (sy_table s)) \<and> q \<in> set (it_rows (sy_table s)) \<and>
    pr_claim (sy_procs s ! m) = Some (ir_ID p, the (ir_LockedUntil p)) \<and> ir_Status p = IdempotencyStatusProcessing \<and>
    pr_claim (sy_procs s ! n) = Some (ir_ID q, the (ir_LockedUntil q)) \<and> ir_Status q = IdempotencyStatusProcessing \<and>
    (ir_Scope p, ir_KeyHash p) \<noteq> (ir_Scope q, ir_KeyHash q)"
proof -
  have inv: "idem_inv s" by (rule idem_invariant [OF assms(1) idem_inv_start]) (simp add: lock_fits_def assms(2))
  have row: "\<exists>p. p \<in> set (it_rows (sy_table s)) \<and> pr_claim a = Some (ir_ID p, the (ir_LockedUntil p)) \<and>
      ir_Status p = IdempotencyStatusProcessing" if "a \<in> set (sy_procs s)" "live (sy_now s) a" for a
  proof -
    from that inv have "holds (sy_table s) (the (pr_claim a))" by (simp add: idem_inv_def process_ok_def)
    moreover from that(2) obtain i u where "pr_claim a = Some (i, u)" by (auto simp: live_call)
    ultimately show ?thesis by (auto simp: holds_def)
  qed
  obtain p where p: "p \<in> set (it_rows (sy_table s))" "pr_claim (sy_procs s ! m) = Some (ir_ID p, the (ir_LockedUntil p))"
    "ir_Status p = IdempotencyStatusProcessing" using row [of "sy_procs s ! m"] assms by auto
  obtain q where q: "q \<in> set (it_rows (sy_table s))" "pr_claim (sy_procs s ! n) = Some (ir_ID q, the (ir_LockedUntil q))"
    "ir_Status q = IdempotencyStatusProcessing" using row [of "sy_procs s ! n"] assms by auto
  from inv assms have "apart (sy_now s) (sy_procs s ! m) (sy_procs s ! n)" by (simp add: idem_inv_def)
  with assms(6,7) p(2) q(2) have "ir_ID p \<noteq> ir_ID q" by (simp add: apart_def)
  moreover have "table_ok (sy_table s)" using inv by (simp add: idem_inv_def)
  ultimately have "(ir_Scope p, ir_KeyHash p) \<noteq> (ir_Scope q, ir_KeyHash q)"
    using p(1) q(1) by (auto simp: table_ok_def distinct_map dest: inj_onD)
  with p q show ?thesis by blast
qed

definition other_opts :: "string IdempotencyExecuteOptions" where
  "other_opts = sample_opts\<lparr>io_IdempotencyKey := ''k2''\<rparr>"

definition two_claims :: "string idem_event list" where
  "two_claims = [Arrive text_env DefaultIdempotencyConfig sample_opts, Arrive text_env DefaultIdempotencyConfig other_opts,
     Act 0 (Inr ''x''), Act 1 (Inr ''x''), Act 0 (Inr ''x''), Act 1 (Inr ''x'')]"

definition check_live :: "bool \<Rightarrow> string idem_event list \<Rightarrow> (int option \<times> bool \<times> bool) list option" where
  "check_live timely evs = map_option
     (\<lambda>s. map (\<lambda>p. (map_option fst (pr_claim p), live (sy_now s) p, running p)) (sy_procs s)) (idem_steps timely evs idem_start)"

lemma check_live_Some:
  assumes "check_live timely evs = Some xs"
  shows "\<exists>s. idem_steps timely evs idem_start = Some s \<and>
    xs = map (\<lambda>p. (map_option fst (pr_claim p), live (sy_now s) p, running p)) (sy_procs s)"
  using assms by (auto simp: check_live_def)

lemma map_two: "[x, y] = map f zs \<Longrightarrow> \<exists>a b. zs = [a, b] \<and> x = f a \<and> y = f b"
  by (cases zs; cases "tl zs") auto

lemma sample_timeouts:
  "0 < ic_ProcessingTimeout DefaultIdempotencyConfig"
  "ic_ProcessingTimeout DefaultIdempotencyConfig \<le> (if io_TTL sample_opts \<le> 0 then ic_DefaultTTL DefaultIdempotencyConfig else io_TTL sample_opts)"
  "ic_ProcessingTimeout DefaultIdempotencyConfig \<le> (if io_TTL other_opts \<le> 0 then ic_DefaultTTL DefaultIdempotencyConfig else io_TTL other_opts)"
  by code_simp+

theorem one_live_owner_witness:
  "\<exists>s :: string idem_system. idem_steps True two_claims idem_start = Some s \<and>
     (\<exists>p q. p \<in> set (it_rows (sy_table s)) \<and> q \<in> set (it_rows (sy_table s)) \<and>
        (ir_Scope p, ir_KeyHash p) \<noteq> (ir_Scope q, ir_KeyHash q))"
proof -
  have "check_live True two_claims = Some [(Some 1, True, True), (Some 2, True, True)]" by code_simp
  from check_live_Some [OF this] obtain s :: "string idem_system" where s: "idem_steps True two_claims idem_start = Some s"
    "[(Some 1, True, True), (Some 2, True, True)] =
       map (\<lambda>p. (map_option fst (pr_claim p), live (sy_now s) p, running p)) (sy_procs s)" by (elim exE conjE)
  from map_two [OF s(2)] obtain a b where e: "sy_procs s = [a, b]"
    "(Some 1, True, True) = (map_option fst (pr_claim a), live (sy_now s) a, running a)"
    "(Some 2, True, True) = (map_option fst (pr_claim b), live (sy_now s) b, running b)" by (elim exE conjE)
  then have ab: "sy_procs s = [a, b]" "live (sy_now s) a" "live (sy_now s) b" by simp_all
  have "\<exists>p q. p \<in> set (it_rows (sy_table s)) \<and> q \<in> set (it_rows (sy_table s)) \<and>
      pr_claim (sy_procs s ! 0) = Some (ir_ID p, the (ir_LockedUntil p)) \<and> ir_Status p = IdempotencyStatusProcessing \<and>
      pr_claim (sy_procs s ! 1) = Some (ir_ID q, the (ir_LockedUntil q)) \<and> ir_Status q = IdempotencyStatusProcessing \<and>
      (ir_Scope p, ir_KeyHash p) \<noteq> (ir_Scope q, ir_KeyHash q)"
  proof (rule one_live_owner [OF s(1)])
    fix E :: "string idem_env" and cfg opts assume "Arrive E cfg opts \<in> set two_claims"
    then have "cfg = DefaultIdempotencyConfig \<and> (opts = sample_opts \<or> opts = other_opts)" by (auto simp: two_claims_def)
    then show "0 < ic_ProcessingTimeout cfg \<and> ic_ProcessingTimeout cfg \<le> (if io_TTL opts \<le> 0 then ic_DefaultTTL cfg else io_TTL opts)"
      by (elim conjE disjE) (simp_all only: sample_timeouts simp_thms)
  qed (simp_all add: ab)
  with s(1) show ?thesis by blast
qed

definition short_opts :: "string IdempotencyExecuteOptions" where
  "short_opts = sample_opts\<lparr>io_TTL := 60 * second\<rparr>"

text \<open>
  The first request outlives its lease and the record's expiry, the second takes the record over, the
  first then fails and marks the record, and after the back-off the third takes it over as well.
\<close>

definition stale_owner :: "string idem_event list" where
  "stale_owner =
     [Arrive text_env DefaultIdempotencyConfig short_opts, Arrive text_env DefaultIdempotencyConfig short_opts,
      Arrive text_env DefaultIdempotencyConfig short_opts, Act 0 (Inr []), Act 0 (Inr []), Tick (61 * second),
      Act 1 (Inr []), Act 1 (Inr []), Act 1 (Inr []), Act 1 (Inr []),
      Act 0 (Inl (Other ''boom'')), Act 0 (Inr []), Act 0 (Inr []), Tick (6 * second),
      Act 2 (Inr []), Act 2 (Inr []), Act 2 (Inr []), Act 2 (Inr [])]"

text \<open>
  Nothing in the store stops a request whose lease is over from marking the record of its successor:
  after that run two requests with the same key are inside their executors at the same time, both
  with a live lease on the same row.
\<close>

lemma stale_owner_breaks_exclusion:
  "check_live False stale_owner = Some [(Some 1, False, False), (Some 1, True, True), (Some 1, True, True)]"
  by code_simp

text \<open>
  A time to live shorter than the processing timeout, which nothing forbids: the clean-up deletes the
  row of a request that is still within its lease, and the next request with the key is let in.
\<close>

definition tiny_opts :: "string IdempotencyExecuteOptions" where
  "tiny_opts = sample_opts\<lparr>io_TTL := 10 * second\<rparr>"

definition early_clean :: "string idem_event list" where
  "early_clean =
     [Arrive text_env DefaultIdempotencyConfig tiny_opts, Arrive text_env DefaultIdempotencyConfig tiny_opts,
      Act 0 (Inr []), Act 0 (Inr []), Tick (11 * second), Clean 0, Act 1 (Inr []), Act 1 (Inr [])]"

lemma short_ttl_breaks_exclusion:
  "check_live True early_clean = Some [(Some 1, True, True), (Some 2, True, True)]"
  by code_simp

end
