(* ===== verification/Auth_Limiter.thy ===== *)
theory Auth_Limiter
  imports Prelude
begin

section \<open>The limiter of invalid authentication\<close>

text \<open>
  \<open>service/invalid_auth_abuse_limiter.go\<close>: clients that fail to authenticate too often within a
  window are blocked for a while. Entries live in sixteen shards chosen by a 32-bit FNV-1a hash; when
  the table is full, failures of unknown clients are counted together and, over the threshold, block
  all unknown clients. Methods are atomic here, which the per-shard mutexes and the compare-and-swap
  of the counters provide.
\<close>

unbundle bit_operations_syntax

subsection \<open>State\<close>

record invalidAuthAbuseEntry =
  en_failures :: int
  en_windowStart :: gotime
  en_blockedUntil :: gotime

definition invalidAuthAbuseShardCount :: nat where
  "invalidAuthAbuseShardCount = 16"

type_synonym invalidAuthAbuseShard = "(string, invalidAuthAbuseEntry) fmap"

text \<open>The overflow window has the fields of an entry; its counters wrap at 64 bits, the cursor at 32.\<close>

record invalidAuthAbuseLimiter =
  li_threshold :: int
  li_window :: duration
  li_block :: duration
  li_capacity :: int
  li_shards :: "invalidAuthAbuseShard list"
  li_overflow :: invalidAuthAbuseEntry
  li_tracked :: int
  li_recorded :: "64 word"
  li_blocked :: "64 word"
  li_rejected :: "64 word"
  li_expired :: "64 word"
  li_overflowed :: "64 word"
  li_globalBlocked :: "64 word"
  li_cleanupNext :: int
  li_cleanupCursor :: "32 word"

record InvalidAbuseConfig =
  ca_Enabled :: bool
  ca_Threshold :: int
  ca_WindowSeconds :: int
  ca_BlockSeconds :: int
  ca_Capacity :: int

definition zero_entry :: invalidAuthAbuseEntry where
  "zero_entry = \<lparr>en_failures = 0, en_windowStart = 0, en_blockedUntil = 0\<rparr>"

definition newInvalidAuthAbuseLimiter :: "InvalidAbuseConfig option \<Rightarrow> invalidAuthAbuseLimiter option" where
  "newInvalidAuthAbuseLimiter cfg =
     (case cfg of
        None \<Rightarrow> None
      | Some c \<Rightarrow>
          if \<not> ca_Enabled c then None
          else if ca_Threshold c \<le> 0 \<or> ca_WindowSeconds c \<le> 0 \<or> ca_BlockSeconds c \<le> 0 \<or> ca_Capacity c \<le> 0 then None
          else Some \<lparr>li_threshold = ca_Threshold c, li_window = wrap64 (ca_WindowSeconds c * second),
                 li_block = wrap64 (ca_BlockSeconds c * second), li_capacity = ca_Capacity c,
                 li_shards = replicate invalidAuthAbuseShardCount fmempty, li_overflow = zero_entry, li_tracked = 0,
                 li_recorded = 0, li_blocked = 0, li_rejected = 0, li_expired = 0, li_overflowed = 0,
                 li_globalBlocked = 0, li_cleanupNext = 0, li_cleanupCursor = 0\<rparr>)"

subsection \<open>Shards\<close>

definition fnv_step :: "32 word \<Rightarrow> char \<Rightarrow> 32 word" where
  "fnv_step hash c = (hash XOR of_nat (of_char c)) * 16777619"

definition shard_index :: "string \<Rightarrow> nat" where
  "shard_index clientKey = unat (foldl fnv_step 2166136261 clientKey mod 16)"

definition get_entry :: "invalidAuthAbuseLimiter \<Rightarrow> string \<Rightarrow> invalidAuthAbuseEntry option" where
  "get_entry l k = fmlookup (li_shards l ! shard_index k) k"

definition put_entry :: "string \<Rightarrow> invalidAuthAbuseEntry \<Rightarrow> invalidAuthAbuseLimiter \<Rightarrow> invalidAuthAbuseLimiter" where
  "put_entry k e l = l\<lparr>li_shards := (li_shards l)[shard_index k := fmupd k e (li_shards l ! shard_index k)]\<rparr>"

definition entryExpired :: "invalidAuthAbuseLimiter \<Rightarrow> invalidAuthAbuseEntry \<Rightarrow> gotime \<Rightarrow> bool" where
  "entryExpired l entry now \<longleftrightarrow> \<not> time_after (en_blockedUntil entry) now \<and> \<not> time_after (en_windowStart entry) now \<and>
     \<not> time_before now (en_windowStart entry + li_window l)"

subsection \<open>Cleaning up when full\<close>

text \<open>At most every 100 milliseconds, one shard after another loses its expired entries.\<close>

definition sweep_shard :: "nat \<Rightarrow> gotime \<Rightarrow> invalidAuthAbuseLimiter \<Rightarrow> invalidAuthAbuseLimiter" where
  "sweep_shard i now l =
     (let m = li_shards l ! i;
          m' = fmfilter (\<lambda>k. \<not> (case fmlookup m k of None \<Rightarrow> False | Some e \<Rightarrow> entryExpired l e now)) m;
          gone = map_length m - map_length m'
      in l\<lparr>li_shards := (li_shards l)[i := m'], li_tracked := li_tracked l - int gone,
           li_expired := li_expired l + of_nat gone\<rparr>)"

definition maybeCleanupAtCapacity :: "gotime \<Rightarrow> invalidAuthAbuseLimiter \<Rightarrow> invalidAuthAbuseLimiter" where
  "maybeCleanupAtCapacity now l =
     (if li_tracked l < li_capacity l then l
      else if unix_nano now < li_cleanupNext l then l
      else (let index = li_cleanupCursor l
            in sweep_shard (unat (index mod 16)) now
                 (l\<lparr>li_cleanupNext := unix_nano (now + 100 * millisecond), li_cleanupCursor := index + 1\<rparr>)))"

text \<open>Looking a client up drops its entry when that has expired.\<close>

definition lookup_live ::
    "string \<Rightarrow> gotime \<Rightarrow> invalidAuthAbuseLimiter \<Rightarrow> invalidAuthAbuseEntry option \<times> invalidAuthAbuseLimiter" where
  "lookup_live k now l =
     (case get_entry l k of
        Some e \<Rightarrow>
          (if entryExpired l e now
           then (None, l\<lparr>li_shards := (li_shards l)[shard_index k := fmdrop k (li_shards l ! shard_index k)],
                         li_tracked := li_tracked l - 1, li_expired := li_expired l + 1\<rparr>)
           else (Some e, l))
      | None \<Rightarrow> (None, l))"

subsection \<open>Check and record\<close>

definition checkOverflow :: "gotime \<Rightarrow> invalidAuthAbuseLimiter \<Rightarrow> duration \<times> bool" where
  "checkOverflow now l =
     (if time_after (en_blockedUntil (li_overflow l)) now
      then (time_sub (en_blockedUntil (li_overflow l)) now, True) else (0, False))"

definition check :: "string \<Rightarrow> gotime \<Rightarrow> invalidAuthAbuseLimiter \<Rightarrow> (duration \<times> bool) \<times> invalidAuthAbuseLimiter" where
  "check clientKey now l0 =
     (if clientKey = [] then ((0, False), l0)
      else (case lookup_live clientKey now (maybeCleanupAtCapacity now l0) of
         (entry, l) \<Rightarrow>
           if (case entry of None \<Rightarrow> False | Some e \<Rightarrow> time_after (en_blockedUntil e) now) then
             ((time_sub (en_blockedUntil (the entry)) now, True), l\<lparr>li_rejected := li_rejected l + 1\<rparr>)
           else if entry = None \<and> li_capacity l \<le> li_tracked l \<and> snd (checkOverflow now l) then
             ((fst (checkOverflow now l), True),
              l\<lparr>li_rejected := li_rejected l + 1, li_globalBlocked := li_globalBlocked l + 1\<rparr>)
           else ((0, False), l)))"

text \<open>Counting one failure in a window; the flag tells that the threshold was reached.\<close>

definition count_failure :: "invalidAuthAbuseLimiter \<Rightarrow> gotime \<Rightarrow> invalidAuthAbuseEntry \<Rightarrow> invalidAuthAbuseEntry \<times> bool" where
  "count_failure l now e =
     (if li_threshold l \<le> en_failures e + 1
      then (e\<lparr>en_failures := 0, en_blockedUntil := now + li_block l, en_windowStart := now + li_block l\<rparr>, True)
      else (e\<lparr>en_failures := en_failures e + 1\<rparr>, False))"

definition recordOverflow :: "gotime \<Rightarrow> invalidAuthAbuseLimiter \<Rightarrow> invalidAuthAbuseLimiter" where
  "recordOverflow now l0 =
     (let l = l0\<lparr>li_overflowed := li_overflowed l0 + 1\<rparr>; o0 = li_overflow l
      in if time_after (en_blockedUntil o0) now then l
         else (let o1 = (if is_zero_time (en_windowStart o0) \<or> \<not> time_before now (en_windowStart o0 + li_window l)
                         then o0\<lparr>en_windowStart := now, en_failures := 0\<rparr> else o0)
               in case count_failure l now o1 of
                    (o2, hit) \<Rightarrow> l\<lparr>li_overflow := o2, li_blocked := li_blocked l + (if hit then 1 else 0)\<rparr>))"

text \<open>A reservation takes a slot unless the table is full.\<close>

definition reserveEntry :: "invalidAuthAbuseLimiter \<Rightarrow> bool \<times> invalidAuthAbuseLimiter" where
  "reserveEntry l = (if li_capacity l \<le> li_tracked l then (False, l) else (True, l\<lparr>li_tracked := li_tracked l + 1\<rparr>))"

definition record_entry :: "string \<Rightarrow> gotime \<Rightarrow> invalidAuthAbuseEntry \<Rightarrow> invalidAuthAbuseLimiter \<Rightarrow> invalidAuthAbuseLimiter" where
  "record_entry k now e0 l =
     (if time_after (en_blockedUntil e0) now then put_entry k e0 l
      else (let e1 = (if time_after (en_windowStart e0) now \<or> \<not> time_before now (en_windowStart e0 + li_window l)
                      then e0\<lparr>en_windowStart := now, en_failures := 0\<rparr> else e0)
            in case count_failure l now e1 of
                 (e2, hit) \<Rightarrow> put_entry k e2 (l\<lparr>li_blocked := li_blocked l + (if hit then 1 else 0)\<rparr>)))"

definition record_failure :: "string \<Rightarrow> gotime \<Rightarrow> invalidAuthAbuseLimiter \<Rightarrow> invalidAuthAbuseLimiter" where
  "record_failure clientKey now l0 =
     (if clientKey = [] then l0
      else (case lookup_live clientKey now (maybeCleanupAtCapacity now (l0\<lparr>li_recorded := li_recorded l0 + 1\<rparr>)) of
         (Some e, l) \<Rightarrow> record_entry clientKey now e l
       | (None, l) \<Rightarrow>
           (case reserveEntry l of
              (False, l') \<Rightarrow> recordOverflow now l'
            | (True, l') \<Rightarrow> record_entry clientKey now (zero_entry\<lparr>en_windowStart := now\<rparr>) l')))"

record InvalidAuthAbuseHealth =
  he_Enabled :: bool
  he_Tracked :: int
  he_Capacity :: int
  he_Recorded :: "64 word"
  he_Blocks :: "64 word"
  he_Rejected :: "64 word"
  he_Expired :: "64 word"
  he_Overflowed :: "64 word"
  he_GlobalBlocked :: "64 word"

definition health :: "invalidAuthAbuseLimiter \<Rightarrow> InvalidAuthAbuseHealth" where
  "health l =
     \<lparr>he_Enabled = True, he_Tracked = li_tracked l, he_Capacity = li_capacity l, he_Recorded = li_recorded l,
      he_Blocks = li_blocked l, he_Rejected = li_rejected l, he_Expired = li_expired l,
      he_Overflowed = li_overflowed l, he_GlobalBlocked = li_globalBlocked l\<rparr>"

text \<open>The entry points of the service: nothing happens when there is no limiter.\<close>

definition CheckInvalidAuthAbuse ::
    "string \<Rightarrow> gotime \<Rightarrow> invalidAuthAbuseLimiter option \<Rightarrow> (duration \<times> bool) \<times> invalidAuthAbuseLimiter option" where
  "CheckInvalidAuthAbuse k now lo =
     (case lo of None \<Rightarrow> ((0, False), None) | Some l \<Rightarrow> (case check k now l of (r, l') \<Rightarrow> (r, Some l')))"

definition RecordInvalidAuthFailure :: "string \<Rightarrow> gotime \<Rightarrow> invalidAuthAbuseLimiter option \<Rightarrow> invalidAuthAbuseLimiter option" where
  "RecordInvalidAuthFailure k now lo = map_option (record_failure k now) lo"

end
