(* ===== verification/Auth_Limiter_Props.thy ===== *)
theory Auth_Limiter_Props
  imports Auth_Limiter
begin

section \<open>The limiter counts its entries and isolates its clients\<close>

subsection \<open>Accounting\<close>

lemma shard_index_less [simp]: "shard_index k < 16"
proof -
  have "unat (x mod 16 :: 32 word) < 16" for x :: "32 word"
    by (simp add: unat_mod)
  then show ?thesis by (simp add: shard_index_def)
qed

definition entries :: "invalidAuthAbuseShard list \<Rightarrow> nat" where
  "entries ms = sum_list (map map_length ms)"

definition entry_ok :: "int \<Rightarrow> invalidAuthAbuseEntry \<Rightarrow> bool" where
  "entry_ok th e \<longleftrightarrow> 0 \<le> en_failures e \<and> en_failures e < th"

text \<open>
  Sixteen shards, every entry in the shard of its key with fewer failures than the threshold, and a
  counter that is the number of entries and within the capacity.
\<close>

definition limiter_ok :: "invalidAuthAbuseLimiter \<Rightarrow> bool" where
  "limiter_ok l \<longleftrightarrow> length (li_shards l) = 16 \<and> 0 < li_threshold l \<and> li_tracked l = int (entries (li_shards l)) \<and>
     li_tracked l \<le> li_capacity l \<and> entry_ok (li_threshold l) (li_overflow l) \<and>
     (\<forall>i k e. i < 16 \<longrightarrow> fmlookup (li_shards l ! i) k = Some e \<longrightarrow> shard_index k = i \<and> entry_ok (li_threshold l) e)"

lemma sum_list_set:
  "i < length xs \<Longrightarrow> int (sum_list (map f (xs[i := y]))) = int (sum_list (map f xs)) - int (f (xs ! i)) + int (f y)"
proof (induction xs arbitrary: i)
  case (Cons x xs)
  then show ?case by (cases i) auto
qed simp

text \<open>One shard and the counters change.\<close>

lemma limiter_ok_shard:
  assumes ok: "limiter_ok l" and i: "i < 16"
    and m: "\<And>k e. fmlookup m k = Some e \<Longrightarrow> shard_index k = i \<and> entry_ok (li_threshold l) e"
    and l': "li_shards l' = (li_shards l)[i := m]" "li_threshold l' = li_threshold l" "li_capacity l' = li_capacity l"
      "entry_ok (li_threshold l) (li_overflow l')"
    and t: "li_tracked l' = li_tracked l - int (map_length (li_shards l ! i)) + int (map_length m)" "li_tracked l' \<le> li_capacity l"
  shows "limiter_ok l'"
proof -
  have "int (entries (li_shards l')) = int (entries (li_shards l)) - int (map_length (li_shards l ! i)) + int (map_length m)"
    using ok i by (simp add: entries_def l'(1) sum_list_set limiter_ok_def)
  moreover have "shard_index k = j \<and> entry_ok (li_threshold l) e"
    if "j < 16" "fmlookup ((li_shards l)[i := m] ! j) k = Some e" for j k e
    using that m [of k e] ok i by (cases "j = i") (auto simp: limiter_ok_def)
  ultimately show ?thesis using ok l' t by (auto simp: limiter_ok_def)
qed

lemma limiter_okD:
  "limiter_ok l \<Longrightarrow> i < 16 \<Longrightarrow> fmlookup (li_shards l ! i) k = Some e \<Longrightarrow> shard_index k = i \<and> entry_ok (li_threshold l) e"
  by (simp add: limiter_ok_def)

lemma limiter_ok_same:
  assumes "limiter_ok l" and "li_shards l' = li_shards l" and "li_threshold l' = li_threshold l"
    and "li_capacity l' = li_capacity l" and "entry_ok (li_threshold l) (li_overflow l')" and "li_tracked l' = li_tracked l"
  shows "limiter_ok l'"
  using assms by (auto simp: limiter_ok_def entries_def)

lemma sweep_ok: "limiter_ok l \<Longrightarrow> i < 16 \<Longrightarrow> limiter_ok (sweep_shard i now l)"
proof -
  assume ok: "limiter_ok l" and i: "i < 16"
  define m' where "m' = fmfilter (\<lambda>k. \<not> (case fmlookup (li_shards l ! i) k of None \<Rightarrow> False | Some e \<Rightarrow> entryExpired l e now)) (li_shards l ! i)"
  have len: "map_length m' \<le> map_length (li_shards l ! i)" unfolding m'_def by (rule map_length_filter)
  show "limiter_ok (sweep_shard i now l)"
  proof (rule limiter_ok_shard [OF ok i, where m = m'])
    show "shard_index k = i \<and> entry_ok (li_threshold l) e" if "fmlookup m' k = Some e" for k e
      using that ok i by (auto simp: m'_def limiter_ok_def split: if_splits)
  qed (use ok len in \<open>auto simp: sweep_shard_def m'_def Let_def limiter_ok_def\<close>)
qed

lemma cleanup_ok: "limiter_ok l \<Longrightarrow> limiter_ok (maybeCleanupAtCapacity now l)"
proof -
  assume ok: "limiter_ok l"
  have "unat (x mod 16 :: 32 word) < 16" for x :: "32 word"
    by (simp add: unat_mod)
  moreover have "limiter_ok (l\<lparr>li_cleanupNext := a, li_cleanupCursor := b\<rparr>)" for a b
    by (rule limiter_ok_same [OF ok]) (use ok in \<open>simp_all add: limiter_ok_def\<close>)
  ultimately show ?thesis using ok by (simp add: maybeCleanupAtCapacity_def Let_def sweep_ok)
qed

lemma lookup_ok: "limiter_ok l \<Longrightarrow> limiter_ok (snd (lookup_live k now l))"
proof (cases "get_entry l k")
  case (Some e)
  assume ok: "limiter_ok l"
  show ?thesis
  proof (cases "entryExpired l e now")
    case True
    have "limiter_ok (l\<lparr>li_shards := (li_shards l)[shard_index k := fmdrop k (li_shards l ! shard_index k)],
        li_tracked := li_tracked l - 1, li_expired := li_expired l + 1\<rparr>)"
    proof (rule limiter_ok_shard [OF ok shard_index_less, where m = "fmdrop k (li_shards l ! shard_index k)"])
      show "shard_index k' = shard_index k \<and> entry_ok (li_threshold l) e'" if "fmlookup (fmdrop k (li_shards l ! shard_index k)) k' = Some e'" for k' e'
        using that limiter_okD [OF ok shard_index_less, of k] by (auto split: if_splits)
      have "k |\<in>| fmdom (li_shards l ! shard_index k)" using Some by (auto simp: get_entry_def intro: fmdomI)
      then show "li_tracked (l\<lparr>li_shards := (li_shards l)[shard_index k := fmdrop k (li_shards l ! shard_index k)],
          li_tracked := li_tracked l - 1, li_expired := li_expired l + 1\<rparr>) =
          li_tracked l - int (map_length (li_shards l ! shard_index k)) + int (map_length (fmdrop k (li_shards l ! shard_index k)))"
        using map_length_pos by (fastforce simp: map_len)
    qed (use ok in \<open>auto simp: limiter_ok_def\<close>)
    with Some True show ?thesis by (simp add: lookup_live_def)
  qed (use ok Some in \<open>simp add: lookup_live_def\<close>)
qed (simp add: lookup_live_def)

text \<open>Writing an entry, into a reserved slot when it is new.\<close>

lemma put_ok:
  assumes ok: "limiter_ok l" and e: "entry_ok (li_threshold l) e"
    and new: "get_entry l k = None \<Longrightarrow> li_tracked l < li_capacity l"
    and l': "li_shards l' = li_shards l" "li_threshold l' = li_threshold l" "li_capacity l' = li_capacity l"
      "li_overflow l' = li_overflow l" "li_tracked l' = li_tracked l + (if get_entry l k = None then 1 else 0)"
  shows "limiter_ok (put_entry k e l')"
proof (rule limiter_ok_shard [OF ok shard_index_less, where m = "fmupd k e (li_shards l ! shard_index k)"])
  show "shard_index k' = shard_index k \<and> entry_ok (li_threshold l) e'"
    if "fmlookup (fmupd k e (li_shards l ! shard_index k)) k' = Some e'" for k' e'
    using that e limiter_okD [OF ok shard_index_less, of k] by (auto split: if_splits)
  show "li_tracked (put_entry k e l') = li_tracked l - int (map_length (li_shards l ! shard_index k)) +
      int (map_length (fmupd k e (li_shards l ! shard_index k)))"
    by (cases "get_entry l k") (auto simp: put_entry_def l' map_len get_entry_def dest: fmdomI fmdom_notD)
  show "li_tracked (put_entry k e l') \<le> li_capacity l"
    using ok new by (cases "get_entry l k = None") (auto simp: put_entry_def l' limiter_ok_def)
qed (use ok in \<open>simp_all add: put_entry_def l' limiter_ok_def\<close>)

lemma count_failure_ok:
  "0 < li_threshold l \<Longrightarrow> entry_ok (li_threshold l) e \<Longrightarrow> entry_ok (li_threshold l) (fst (count_failure l now e))"
  by (auto simp: count_failure_def entry_ok_def)

text \<open>The entry a failure leaves behind, and the bookkeeping around it.\<close>

definition failed_entry :: "invalidAuthAbuseLimiter \<Rightarrow> gotime \<Rightarrow> invalidAuthAbuseEntry \<Rightarrow> invalidAuthAbuseEntry" where
  "failed_entry l now e0 =
     (if time_after (en_blockedUntil e0) now then e0
      else fst (count_failure l now
        (if time_after (en_windowStart e0) now \<or> \<not> time_before now (en_windowStart e0 + li_window l)
         then e0\<lparr>en_windowStart := now, en_failures := 0\<rparr> else e0)))"

lemma record_entry_put: "\<exists>b. record_entry k now e l = put_entry k (failed_entry l now e) (l\<lparr>li_blocked := b\<rparr>)"
proof (cases "time_after (en_blockedUntil e) now")
  case True
  then show ?thesis by (intro exI [of _ "li_blocked l"]) (simp add: record_entry_def failed_entry_def)
next
  case False
  define e1 where "e1 = (if time_after (en_windowStart e) now \<or> \<not> time_before now (en_windowStart e + li_window l)
    then e\<lparr>en_windowStart := now, en_failures := 0\<rparr> else e)"
  from False have "record_entry k now e l = put_entry k (failed_entry l now e)
      (l\<lparr>li_blocked := li_blocked l + (if snd (count_failure l now e1) then 1 else 0)\<rparr>)"
    by (simp only: record_entry_def failed_entry_def if_False e1_def [symmetric] Let_def case_prod_unfold)
  then show ?thesis by blast
qed

lemma failed_entry_ok:
  "0 < li_threshold l \<Longrightarrow> entry_ok (li_threshold l) e \<Longrightarrow> entry_ok (li_threshold l) (failed_entry l now e)"
  unfolding failed_entry_def
  by (cases "time_after (en_blockedUntil e) now") (simp, simp only: if_False, rule count_failure_ok, auto simp: entry_ok_def)

lemma lookup_cases:
  assumes "limiter_ok l"
  shows "fst (lookup_live k now l) = get_entry (snd (lookup_live k now l)) k"
  using assms
  by (cases "get_entry l k") (auto simp: lookup_live_def get_entry_def limiter_ok_def)

lemma overflow_ok: "limiter_ok l \<Longrightarrow> limiter_ok (recordOverflow now l)"
proof -
  assume ok: "limiter_ok l"
  then have "0 < li_threshold l" "entry_ok (li_threshold l) (li_overflow l)" by (simp_all add: limiter_ok_def)
  then have "entry_ok (li_threshold l) (li_overflow (recordOverflow now l))"
    by (auto simp: recordOverflow_def Let_def count_failure_def entry_ok_def)
  then show ?thesis
    by (rule limiter_ok_same [OF ok, rotated 3]) (auto simp: recordOverflow_def Let_def count_failure_def)
qed

lemma record_ok: "limiter_ok l \<Longrightarrow> limiter_ok (record_failure k now l)"
proof (cases "k = []")
  case False
  assume ok: "limiter_ok l"
  define l1 where "l1 = maybeCleanupAtCapacity now (l\<lparr>li_recorded := li_recorded l + 1\<rparr>)"
  have "limiter_ok (l\<lparr>li_recorded := li_recorded l + 1\<rparr>)"
    by (rule limiter_ok_same [OF ok]) (use ok in \<open>simp_all add: limiter_ok_def\<close>)
  then have ok1: "limiter_ok l1" unfolding l1_def by (rule cleanup_ok)
  obtain eo l2 where l2: "lookup_live k now l1 = (eo, l2)" by force
  with lookup_ok [OF ok1, of k now] lookup_cases [OF ok1, of k now] have ok2: "limiter_ok l2" and eo: "get_entry l2 k = eo" by simp_all
  have th: "0 < li_threshold l2" using ok2 by (simp add: limiter_ok_def)
  show ?thesis
  proof (cases eo)
    case (Some e)
    obtain b where b: "record_entry k now e l2 = put_entry k (failed_entry l2 now e) (l2\<lparr>li_blocked := b\<rparr>)"
      using record_entry_put by blast
    have "entry_ok (li_threshold l2) e"
      using limiter_okD [OF ok2 shard_index_less] eo Some by (simp add: get_entry_def)
    then have "limiter_ok (put_entry k (failed_entry l2 now e) (l2\<lparr>li_blocked := b\<rparr>))"
      by (intro put_ok [OF ok2] failed_entry_ok [OF th]) (use eo Some in simp_all)
    with False l2 Some b show ?thesis by (simp add: record_failure_def l1_def [symmetric])
  next
    case None
    show ?thesis
    proof (cases "li_capacity l2 \<le> li_tracked l2")
      case True
      with False l2 None overflow_ok [OF ok2] show ?thesis
        by (simp add: record_failure_def l1_def [symmetric] reserveEntry_def)
    next
      case room: False
      let ?l3 = "l2\<lparr>li_tracked := li_tracked l2 + 1\<rparr>"
      obtain b where b: "record_entry k now (zero_entry\<lparr>en_windowStart := now\<rparr>) ?l3 =
          put_entry k (failed_entry ?l3 now (zero_entry\<lparr>en_windowStart := now\<rparr>)) (?l3\<lparr>li_blocked := b\<rparr>)"
        using record_entry_put by blast
      have "entry_ok (li_threshold ?l3) (failed_entry ?l3 now (zero_entry\<lparr>en_windowStart := now\<rparr>))"
        by (rule failed_entry_ok) (use th in \<open>simp_all add: entry_ok_def zero_entry_def\<close>)
      then have "limiter_ok (put_entry k (failed_entry ?l3 now (zero_entry\<lparr>en_windowStart := now\<rparr>)) (?l3\<lparr>li_blocked := b\<rparr>))"
        by (intro put_ok [OF ok2]) (use eo None room in simp_all)
      with False l2 None b room show ?thesis
        by (simp add: record_failure_def l1_def [symmetric] reserveEntry_def)
    qed
  qed
qed (simp add: record_failure_def)

lemma check_ok: "limiter_ok l \<Longrightarrow> limiter_ok (snd (check k now l))"
proof -
  assume ok: "limiter_ok l"
  obtain eo l2 where l2: "lookup_live k now (maybeCleanupAtCapacity now l) = (eo, l2)" by force
  with lookup_ok [OF cleanup_ok [OF ok], of k now now] have ok2: "limiter_ok l2" by simp
  have "limiter_ok (l2\<lparr>li_rejected := a\<rparr>)" "limiter_ok (l2\<lparr>li_rejected := a, li_globalBlocked := b\<rparr>)" for a b
    by (rule limiter_ok_same [OF ok2]; use ok2 in \<open>simp add: limiter_ok_def\<close>)+
  with ok ok2 show ?thesis by (simp add: check_def l2)
qed

lemma new_ok: "newInvalidAuthAbuseLimiter cfg = Some l \<Longrightarrow> limiter_ok l"
  by (auto simp: newInvalidAuthAbuseLimiter_def limiter_ok_def entries_def invalidAuthAbuseShardCount_def
      entry_ok_def zero_entry_def sum_list_replicate split: option.splits if_splits)

datatype limiter_call = Check string gotime | Fail string gotime

fun limiter_step :: "limiter_call \<Rightarrow> invalidAuthAbuseLimiter \<Rightarrow> invalidAuthAbuseLimiter" where
  "limiter_step (Check k t) l = snd (check k t l)"
| "limiter_step (Fail k t) l = record_failure k t l"

lemma steps_ok: "limiter_ok l \<Longrightarrow> limiter_ok (fold limiter_step cs l)"
proof (induction cs arbitrary: l)
  case (Cons c cs)
  then show ?case by (cases c) (simp_all add: check_ok record_ok)
qed simp

text \<open>
  After any sequence of checks and failures, at any times, the limiter's counter is the
  number of entries in its shards and never exceeds the capacity, every client has at most one entry,
  in its own shard, and no entry has reached the threshold without being blocked.
\<close>

theorem limiter_bounded:
  assumes "newInvalidAuthAbuseLimiter cfg = Some l0"
  shows "limiter_ok (fold limiter_step cs l0)"
  using steps_ok [OF new_ok [OF assms]] .

definition sample_limits :: InvalidAbuseConfig where
  "sample_limits = \<lparr>ca_Enabled = True, ca_Threshold = 2, ca_WindowSeconds = 60, ca_BlockSeconds = 300, ca_Capacity = 1\<rparr>"

theorem limiter_bounded_witness:
  "limiter_ok (fold limiter_step [Fail ''a'' 1, Fail ''b'' 2, Fail ''a'' 3] (the (newInvalidAuthAbuseLimiter (Some sample_limits))))"
  by (rule limiter_bounded [of "Some sample_limits"]) (simp add: newInvalidAuthAbuseLimiter_def sample_limits_def)

subsection \<open>One client at a time\<close>

text \<open>
  The reference: a limiter for a single client, without shards, sweeping, capacity or counters. Its
  state is the client's entry, if any.
\<close>

definition live_entry :: "invalidAuthAbuseLimiter \<Rightarrow> gotime \<Rightarrow> invalidAuthAbuseEntry option \<Rightarrow> invalidAuthAbuseEntry option" where
  "live_entry l now eo = (case eo of None \<Rightarrow> None | Some e \<Rightarrow> if entryExpired l e now then None else Some e)"

definition client_fail :: "invalidAuthAbuseLimiter \<Rightarrow> gotime \<Rightarrow> invalidAuthAbuseEntry option \<Rightarrow> invalidAuthAbuseEntry option" where
  "client_fail l now eo =
     Some (failed_entry l now (case live_entry l now eo of None \<Rightarrow> zero_entry\<lparr>en_windowStart := now\<rparr> | Some e \<Rightarrow> e))"

definition client_answer :: "invalidAuthAbuseLimiter \<Rightarrow> gotime \<Rightarrow> invalidAuthAbuseEntry option \<Rightarrow> duration \<times> bool" where
  "client_answer l now eo =
     (case live_entry l now eo of
        None \<Rightarrow> (0, False)
      | Some e \<Rightarrow> if time_after (en_blockedUntil e) now then (time_sub (en_blockedUntil e) now, True) else (0, False))"

text \<open>The settings never change, and only they matter to the reference.\<close>

definition settings :: "invalidAuthAbuseLimiter \<Rightarrow> int \<times> duration \<times> duration \<times> int" where
  "settings l = (li_threshold l, li_window l, li_block l, li_capacity l)"

lemma reference_settings:
  assumes "settings l' = settings l"
  shows "entryExpired l' = entryExpired l" "live_entry l' = live_entry l" "failed_entry l' = failed_entry l"
    "client_fail l' = client_fail l" "client_answer l' = client_answer l"
  using assms
  by (auto simp: settings_def entryExpired_def live_entry_def failed_entry_def client_fail_def client_answer_def
      count_failure_def fun_eq_iff split: option.split)

lemma expired_later: "entryExpired l e now \<Longrightarrow> now \<le> now' \<Longrightarrow> entryExpired l e now'"
  by (auto simp: entryExpired_def time_defs)

lemma entry_live_later: "live_entry l now eo = live_entry l now fo \<Longrightarrow> now \<le> now' \<Longrightarrow> live_entry l now' eo = live_entry l now' fo"
  by (auto simp: live_entry_def split: option.splits if_splits dest: expired_later)

text \<open>Two tables agree on the live entries from a time on.\<close>

definition agree :: "gotime \<Rightarrow> invalidAuthAbuseLimiter \<Rightarrow> invalidAuthAbuseLimiter \<Rightarrow> bool" where
  "agree now l l' \<longleftrightarrow> settings l' = settings l \<and> li_overflow l' = li_overflow l \<and> li_tracked l' \<le> li_tracked l \<and>
     (\<forall>k. live_entry l now (get_entry l' k) = live_entry l now (get_entry l k))"

lemma agree_refl: "agree now l l"
  by (simp add: agree_def)

lemma agree_trans: "agree now l l' \<Longrightarrow> agree now l' l'' \<Longrightarrow> agree now l l''"
proof -
  assume a: "agree now l l'" and b: "agree now l' l''"
  from a have "settings l' = settings l" by (simp add: agree_def)
  from reference_settings(2) [OF this] a b show ?thesis by (simp add: agree_def)
qed

lemma agree_cleanup:
  assumes "limiter_ok l"
  shows "agree now l (maybeCleanupAtCapacity now l)"
proof -
  have sweep: "agree now l' (sweep_shard i now l')" if i: "i < 16" and ok: "length (li_shards l') = 16" for i l'
  proof -
    let ?m = "li_shards l' ! i"
    let ?m' = "fmfilter (\<lambda>k. \<not> (case fmlookup ?m k of None \<Rightarrow> False | Some e \<Rightarrow> entryExpired l' e now)) ?m"
    have "map_length ?m' \<le> map_length ?m" by (rule map_length_filter)
    moreover have "live_entry l' now (get_entry (sweep_shard i now l') k) = live_entry l' now (get_entry l' k)" for k
    proof (cases "shard_index k = i")
      case True
      then show ?thesis
        using i ok by (auto simp: sweep_shard_def get_entry_def Let_def live_entry_def split: option.split)
    next
      case False
      then show ?thesis by (simp add: sweep_shard_def get_entry_def Let_def)
    qed
    ultimately show ?thesis by (simp add: agree_def settings_def sweep_shard_def Let_def)
  qed
  let ?l' = "l\<lparr>li_cleanupNext := unix_nano (now + 100 * millisecond), li_cleanupCursor := li_cleanupCursor l + 1\<rparr>"
  have "unat (li_cleanupCursor l mod 16) < 16" by (simp add: unat_mod)
  then have "agree now ?l' (sweep_shard (unat (li_cleanupCursor l mod 16)) now ?l')"
    using assms by (intro sweep) (simp_all add: limiter_ok_def)
  moreover have "agree now l ?l'" by (simp add: agree_def settings_def get_entry_def)
  ultimately show ?thesis
    by (auto simp: maybeCleanupAtCapacity_def Let_def agree_refl intro: agree_trans)
qed

lemma agree_lookup:
  assumes "limiter_ok l"
  shows "agree now l (snd (lookup_live k now l))" and "fst (lookup_live k now l) = live_entry l now (get_entry l k)"
proof -
  show "fst (lookup_live k now l) = live_entry l now (get_entry l k)"
    by (auto simp: lookup_live_def live_entry_def split: option.split)
  show "agree now l (snd (lookup_live k now l))"
  proof (cases "get_entry l k")
    case (Some e)
    have "live_entry l now (fmlookup ((li_shards l)[shard_index k := fmdrop k (li_shards l ! shard_index k)] ! shard_index k') k') =
        live_entry l now (get_entry l k')" if "entryExpired l e now" for k'
      using assms that Some
      by (cases "shard_index k' = shard_index k"; cases "k' = k") (auto simp: get_entry_def live_entry_def limiter_ok_def)
    then show ?thesis using Some by (auto simp: lookup_live_def agree_def settings_def get_entry_def)
  qed (simp add: lookup_live_def agree_refl)
qed

lemma agree_prefix:
  assumes "limiter_ok l"
  shows "agree now l (snd (lookup_live k now (maybeCleanupAtCapacity now l)))"
    and "fst (lookup_live k now (maybeCleanupAtCapacity now l)) = live_entry l now (get_entry l k)"
proof -
  note c = agree_cleanup [OF assms, of now] and lk = agree_lookup [OF cleanup_ok [OF assms, of now], where k = k and now = now]
  show "agree now l (snd (lookup_live k now (maybeCleanupAtCapacity now l)))" by (rule agree_trans [OF c lk(1)])
  have "settings (maybeCleanupAtCapacity now l) = settings l" using c by (simp add: agree_def)
  from reference_settings(2) [OF this] c lk(2)
  show "fst (lookup_live k now (maybeCleanupAtCapacity now l)) = live_entry l now (get_entry l k)"
    by (simp add: agree_def)
qed

text \<open>The tables follow the references of all clients.\<close>

definition follows :: "gotime \<Rightarrow> (string \<Rightarrow> invalidAuthAbuseEntry option) \<Rightarrow> invalidAuthAbuseLimiter \<Rightarrow> bool" where
  "follows now c l \<longleftrightarrow> limiter_ok l \<and> li_overflow l = zero_entry \<and>
     (\<forall>k. live_entry l now (get_entry l k) = live_entry l now (c k))"

lemma follows_later: "follows now c l \<Longrightarrow> now \<le> now' \<Longrightarrow> follows now' c l"
  by (auto simp: follows_def intro: entry_live_later)

lemma get_put: "length (li_shards l) = 16 \<Longrightarrow> get_entry (put_entry k e l) k' = (if k' = k then Some e else get_entry l k')"
  by (cases "shard_index k' = shard_index k") (auto simp: get_entry_def put_entry_def)

lemma fail_follows:
  assumes f: "follows now c l" and k: "k \<noteq> []" and room: "li_tracked l < li_capacity l"
  shows "follows now (c(k := client_fail l now (c k))) (record_failure k now l)"
    and "settings (record_failure k now l) = settings l"
    and "li_tracked (record_failure k now l) \<le> li_tracked l + 1"
proof -
  let ?l0 = "l\<lparr>li_recorded := li_recorded l + 1\<rparr>"
  have ok: "limiter_ok l" using f by (simp add: follows_def)
  then have ok0: "limiter_ok ?l0" by (intro limiter_ok_same [OF ok]) (simp_all add: limiter_ok_def)
  have agree0: "agree now l ?l0" by (simp add: agree_def settings_def get_entry_def)
  obtain eo l2 where l2: "lookup_live k now (maybeCleanupAtCapacity now ?l0) = (eo, l2)" by force
  from agree_prefix [OF ok0, where k = k and now = now] l2 have p: "agree now ?l0 l2" "eo = live_entry ?l0 now (get_entry ?l0 k)"
    by simp_all
  have ag: "agree now l l2" by (rule agree_trans [OF agree0 p(1)])
  have "settings ?l0 = settings l" by (simp add: settings_def)
  from reference_settings(2) [OF this] have eo: "eo = live_entry l now (c k)"
    using p(2) f by (simp add: follows_def get_entry_def)
  from lookup_ok [OF cleanup_ok [OF ok0], of k now now] l2 have ok2: "limiter_ok l2" by simp
  have s2: "settings l2 = settings l" "li_tracked l2 \<le> li_tracked l" "li_overflow l2 = zero_entry"
    using ag f by (simp_all add: agree_def follows_def)
  have room2: "\<not> li_capacity l2 \<le> li_tracked l2" using s2 room by (simp add: settings_def)
  define e where "e = failed_entry l now (case eo of None \<Rightarrow> zero_entry\<lparr>en_windowStart := now\<rparr> | Some e \<Rightarrow> e)"
  have r: "\<exists>l3. record_failure k now l = put_entry k e l3 \<and> li_shards l3 = li_shards l2 \<and> settings l3 = settings l2 \<and>
      li_overflow l3 = li_overflow l2 \<and> li_tracked l3 \<le> li_tracked l2 + 1"
  proof (cases eo)
    case (Some e0)
    obtain b where "record_entry k now e0 l2 = put_entry k (failed_entry l2 now e0) (l2\<lparr>li_blocked := b\<rparr>)"
      using record_entry_put by blast
    then show ?thesis
      using k l2 Some reference_settings(3) [OF s2(1)]
      by (intro exI [of _ "l2\<lparr>li_blocked := b\<rparr>"]) (simp add: record_failure_def e_def settings_def)
  next
    case None
    let ?l3 = "l2\<lparr>li_tracked := li_tracked l2 + 1\<rparr>" and ?n = "zero_entry\<lparr>en_windowStart := now\<rparr>"
    obtain b where b: "record_entry k now ?n ?l3 = put_entry k (failed_entry ?l3 now ?n) (?l3\<lparr>li_blocked := b\<rparr>)"
      using record_entry_put by blast
    have "settings ?l3 = settings l" using s2(1) by (simp add: settings_def)
    from reference_settings(3) [OF this] b show ?thesis
      using k l2 None room2
      by (intro exI [of _ "?l3\<lparr>li_blocked := b\<rparr>"]) (simp add: record_failure_def e_def settings_def reserveEntry_def)
  qed
  then obtain l3 where l3: "record_failure k now l = put_entry k e l3" "li_shards l3 = li_shards l2" "settings l3 = settings l2"
    "li_overflow l3 = li_overflow l2" "li_tracked l3 \<le> li_tracked l2 + 1" by blast
  show set: "settings (record_failure k now l) = settings l"
    using l3(1,3) s2(1) by (simp add: settings_def put_entry_def)
  show "li_tracked (record_failure k now l) \<le> li_tracked l + 1"
    using l3(1,5) s2(2) by (simp add: put_entry_def)
  have len: "length (li_shards l3) = 16" using ok2 l3(2) by (simp add: limiter_ok_def)
  have "live_entry l now (get_entry (put_entry k e l3) k') = live_entry l now ((c(k := client_fail l now (c k))) k')" for k'
  proof (cases "k' = k")
    case True
    then show ?thesis by (simp add: get_put [OF len] e_def client_fail_def eo)
  next
    case False
    then have "get_entry (put_entry k e l3) k' = get_entry l3 k'" by (simp add: get_put [OF len])
    also have "\<dots> = get_entry l2 k'" by (simp add: get_entry_def l3(2))
    finally have "get_entry (put_entry k e l3) k' = get_entry l2 k'" .
    with False ag f show ?thesis by (simp add: agree_def follows_def)
  qed
  then show "follows now (c(k := client_fail l now (c k))) (record_failure k now l)"
    using record_ok [OF ok, of k now] l3 s2(3) reference_settings(2) [OF set]
    by (simp add: follows_def put_entry_def)
qed

lemma check_follows:
  assumes f: "follows now c l" and k: "k \<noteq> []" and now: "0 \<le> now"
  shows "follows now c (snd (check k now l))" and "settings (snd (check k now l)) = settings l"
    and "li_tracked (snd (check k now l)) \<le> li_tracked l" and "fst (check k now l) = client_answer l now (c k)"
proof -
  have ok: "limiter_ok l" using f by (simp add: follows_def)
  obtain eo l2 where l2: "lookup_live k now (maybeCleanupAtCapacity now l) = (eo, l2)" by force
  from agree_prefix [OF ok, where k = k and now = now] l2 have p: "agree now l l2" "eo = live_entry l now (get_entry l k)"
    by simp_all
  then have eo: "eo = live_entry l now (c k)" using f by (simp add: follows_def)
  have s2: "settings l2 = settings l" "li_tracked l2 \<le> li_tracked l" "li_overflow l2 = zero_entry"
    using p(1) f by (simp_all add: agree_def follows_def)
  from now s2(3) have no: "\<not> snd (checkOverflow now l2)" by (simp add: checkOverflow_def zero_entry_def time_defs)
  have shape: "li_shards (snd (check k now l)) = li_shards l2 \<and> settings (snd (check k now l)) = settings l2 \<and>
      li_tracked (snd (check k now l)) = li_tracked l2 \<and> li_overflow (snd (check k now l)) = li_overflow l2"
    using k no by (auto simp: check_def l2 settings_def)
  show st: "settings (snd (check k now l)) = settings l" using shape s2 by simp
  show "li_tracked (snd (check k now l)) \<le> li_tracked l" using shape s2 by simp
  show "follows now c (snd (check k now l))"
    using check_ok [OF ok] shape s2(3) p(1) f reference_settings(2) [OF st]
    by (auto simp: follows_def agree_def get_entry_def)
  show "fst (check k now l) = client_answer l now (c k)"
    using k no by (cases eo) (auto simp: check_def l2 client_answer_def eo [symmetric])
qed

text \<open>Sequences of calls whose times do not decrease.\<close>

fun call_time :: "limiter_call \<Rightarrow> gotime" where
  "call_time (Check k t) = t"
| "call_time (Fail k t) = t"

fun failures_of :: "string \<Rightarrow> limiter_call list \<Rightarrow> gotime list" where
  "failures_of k [] = []"
| "failures_of k (Check k' t # cs) = failures_of k cs"
| "failures_of k (Fail k' t # cs) = (if k' = k then t # failures_of k cs else failures_of k cs)"

fun failure_count :: "limiter_call list \<Rightarrow> nat" where
  "failure_count [] = 0"
| "failure_count (Check k t # cs) = failure_count cs"
| "failure_count (Fail k t # cs) = Suc (failure_count cs)"

definition orderly :: "limiter_call list \<Rightarrow> gotime \<Rightarrow> bool" where
  "orderly cs t \<longleftrightarrow> sorted (map call_time cs @ [t]) \<and> (\<forall>x \<in> set (map call_time cs @ [t]). 0 \<le> x)"

lemma empty_key: "check [] t l = ((0, False), l)" "record_failure [] t l = l"
  by (simp_all add: check_def record_failure_def)

lemma run_follows:
  assumes "follows now c l" and "orderly cs t" and "\<forall>x \<in> set (map call_time cs @ [t]). now \<le> x"
    and "li_tracked l + int (failure_count cs) \<le> li_capacity l"
  shows "\<exists>c'. follows t c' (fold limiter_step cs l) \<and> settings (fold limiter_step cs l) = settings l \<and>
    (\<forall>k. k \<noteq> [] \<longrightarrow> c' k = fold (client_fail l) (failures_of k cs) (c k))"
  using assms
proof (induction cs arbitrary: now c l)
  case Nil
  then have "now \<le> t" by simp
  with Nil.prems(1) have "follows t c l" by (rule follows_later)
  then show ?case by (intro exI [of _ c]) simp
next
  case (Cons call cs)
  from Cons.prems(2) have o: "orderly cs t" "0 \<le> call_time call" "\<forall>x \<in> set (map call_time cs @ [t]). call_time call \<le> x"
    by (auto simp: orderly_def)
  have f: "follows (call_time call) c l" by (rule follows_later [OF Cons.prems(1)]) (use Cons.prems(3) in simp)
  show ?case
  proof (cases call)
    case (Check k t1)
    show ?thesis
    proof (cases "k = []")
      case True
      with Cons.IH [OF f o(1,3)] Cons.prems(4) Check show ?thesis by (simp add: empty_key)
    next
      case False
      note ch = check_follows [OF f False o(2)]
      have "li_tracked (snd (check k t1 l)) + int (failure_count cs) \<le> li_capacity (snd (check k t1 l))"
        using ch(2,3) Cons.prems(4) Check by (simp add: settings_def)
      from Cons.IH [OF _ o(1,3) this, of c] ch(1) Check
      obtain c' where c': "follows t c' (fold limiter_step cs (snd (check k t1 l)))"
        "settings (fold limiter_step cs (snd (check k t1 l))) = settings (snd (check k t1 l))"
        "\<forall>k'. k' \<noteq> [] \<longrightarrow> c' k' = fold (client_fail (snd (check k t1 l))) (failures_of k' cs) (c k')"
        by auto
      have "client_fail (snd (check k t1 l)) = client_fail l" "settings (snd (check k t1 l)) = settings l"
        using reference_settings(4) [of "snd (check k t1 l)" l] ch(2) Check by simp_all
      with c' Check show ?thesis by (intro exI [of _ c']) simp
    qed
  next
    case (Fail k t1)
    show ?thesis
    proof (cases "k = []")
      case True
      with Cons.IH [OF f o(1,3)] Cons.prems(4) Fail show ?thesis by (simp add: empty_key)
    next
      case False
      have "li_tracked l < li_capacity l" using Cons.prems(4) Fail by simp
      note fa = fail_follows [OF f False this]
      have "li_tracked (record_failure k t1 l) + int (failure_count cs) \<le> li_capacity (record_failure k t1 l)"
        using fa(2,3) Cons.prems(4) Fail by (simp add: settings_def)
      moreover have "follows (call_time call) (c(k := client_fail l t1 (c k))) (record_failure k t1 l)" using fa(1) Fail by simp
      ultimately obtain c' where c': "follows t c' (fold limiter_step cs (record_failure k t1 l))"
        "settings (fold limiter_step cs (record_failure k t1 l)) = settings (record_failure k t1 l)"
        "\<forall>k'. k' \<noteq> [] \<longrightarrow> c' k' = fold (client_fail (record_failure k t1 l)) (failures_of k' cs) ((c(k := client_fail l t1 (c k))) k')"
        using Cons.IH [OF _ o(1,3)] by blast
      have "client_fail (record_failure k t1 l) = client_fail l"
        using reference_settings(4) [of "record_failure k t1 l" l] fa(2) Fail by simp
      with c' fa(2) Fail show ?thesis by (intro exI [of _ c']) auto
    qed
  qed
qed

lemma new_follows:
  assumes "newInvalidAuthAbuseLimiter cfg = Some l"
  shows "follows now (\<lambda>k. None) l" and "li_tracked l = 0"
proof -
  have "get_entry l k = None" for k
    using assms shard_index_less [of k]
    by (auto simp: newInvalidAuthAbuseLimiter_def get_entry_def invalidAuthAbuseShardCount_def
        split: option.splits if_splits simp del: shard_index_less)
  then show "follows now (\<lambda>k. None) l" "li_tracked l = 0"
    using new_ok [OF assms] assms
    by (auto simp: follows_def newInvalidAuthAbuseLimiter_def split: option.splits if_splits)
qed

text \<open>
  Property C35. While no more failures are recorded than there are slots, the sharded, sweeping
  limiter answers every client exactly as a limiter that has seen only that client's own failures:
  other clients, the hash and the clean-up make no difference.
\<close>

theorem clients_isolated:
  assumes "newInvalidAuthAbuseLimiter cfg = Some l0" and "orderly cs t" and "k \<noteq> []"
    and "int (failure_count cs) \<le> li_capacity l0"
  shows "fst (check k t (fold limiter_step cs l0)) = client_answer l0 t (fold (client_fail l0) (failures_of k cs) None)"
proof -
  have "\<forall>x \<in> set (map call_time cs @ [t]). 0 \<le> x" using assms(2) by (simp add: orderly_def)
  from run_follows [OF new_follows(1) [OF assms(1), of 0] assms(2) this] assms(4) new_follows(2) [OF assms(1)]
  obtain c where c: "follows t c (fold limiter_step cs l0)" "settings (fold limiter_step cs l0) = settings l0"
    "c k = fold (client_fail l0) (failures_of k cs) None" using assms(3) by auto
  have "0 \<le> t" using assms(2) by (simp add: orderly_def)
  from check_follows(4) [OF c(1) assms(3) this] reference_settings(5) [OF c(2)] c(3) show ?thesis by simp
qed

subsection \<open>Who is blocked\<close>

lemma innocent_entry:
  assumes "0 < li_threshold l" and "int (length ts) < li_threshold l" and "\<forall>x \<in> set ts. 0 \<le> x"
  shows "case fold (client_fail l) ts None of None \<Rightarrow> ts = []
    | Some e \<Rightarrow> en_blockedUntil e = 0 \<and> 0 \<le> en_failures e \<and> en_failures e \<le> int (length ts)"
  using assms
proof (induction ts rule: rev_induct)
  case (snoc x ts)
  then have IH: "case fold (client_fail l) ts None of None \<Rightarrow> ts = []
    | Some e \<Rightarrow> en_blockedUntil e = 0 \<and> 0 \<le> en_failures e \<and> en_failures e \<le> int (length ts)" and x: "0 \<le> x" by auto
  have step: "case client_fail l x eo of None \<Rightarrow> False
      | Some e \<Rightarrow> en_blockedUntil e = 0 \<and> 0 \<le> en_failures e \<and> en_failures e \<le> int (length ts) + 1"
    if "case eo of None \<Rightarrow> True | Some e \<Rightarrow> en_blockedUntil e = 0 \<and> 0 \<le> en_failures e \<and> en_failures e \<le> int (length ts)" for eo
  proof -
    define e0 where "e0 = (case live_entry l x eo of None \<Rightarrow> zero_entry\<lparr>en_windowStart := x\<rparr> | Some e \<Rightarrow> e)"
    have "en_blockedUntil e0 = 0 \<and> 0 \<le> en_failures e0 \<and> en_failures e0 \<le> int (length ts)"
      using that by (auto simp: e0_def live_entry_def zero_entry_def split: option.splits if_splits)
    moreover have "int (length ts) + 1 < li_threshold l" using snoc.prems(2) by simp
    ultimately have "en_blockedUntil (failed_entry l x e0) = 0 \<and> 0 \<le> en_failures (failed_entry l x e0) \<and>
        en_failures (failed_entry l x e0) \<le> int (length ts) + 1"
      using x by (auto simp: failed_entry_def count_failure_def time_defs)
    then show ?thesis by (simp add: client_fail_def e0_def)
  qed
  from step [of "fold (client_fail l) ts None"] IH show ?case by (auto split: option.splits)
qed simp

text \<open>
  No false positives: while no more failures are recorded than there are slots, a client
  with fewer failures than the threshold, whenever they happened, is never turned away, whatever the
  others do.
\<close>

theorem innocent_client_passes:
  assumes "newInvalidAuthAbuseLimiter cfg = Some l0" and "orderly cs t" and "k \<noteq> []"
    and "int (failure_count cs) \<le> li_capacity l0" and "int (length (failures_of k cs)) < li_threshold l0"
  shows "fst (check k t (fold limiter_step cs l0)) = (0, False)"
proof -
  have "0 < li_threshold l0" using new_ok [OF assms(1)] by (simp add: limiter_ok_def)
  moreover have "set (failures_of k cs) \<subseteq> set (map call_time cs)" by (induction k cs rule: failures_of.induct) auto
  then have "\<forall>x \<in> set (failures_of k cs). 0 \<le> x" and "0 \<le> t" using assms(2) by (auto simp: orderly_def)
  ultimately have "client_answer l0 t (fold (client_fail l0) (failures_of k cs) None) = (0, False)"
    using innocent_entry [of l0 "failures_of k cs"] assms(5)
    by (auto simp: client_answer_def live_entry_def time_defs split: option.splits)
  with clients_isolated [OF assms(1-4)] show ?thesis by simp
qed

text \<open>Failures within one window, counted from the first.\<close>

lemma window_entry:
  assumes "0 < li_window l" and "ts \<noteq> []" and "int (length ts) < li_threshold l" and "\<forall>x \<in> set ts. 0 \<le> x"
    and "\<forall>x \<in> set ts. hd ts \<le> x \<and> x < hd ts + li_window l"
  shows "fold (client_fail l) ts None = Some \<lparr>en_failures = int (length ts), en_windowStart = hd ts, en_blockedUntil = 0\<rparr>"
  using assms
proof (induction ts rule: rev_induct)
  case (snoc x ts)
  show ?case
  proof (cases "ts = []")
    case True
    with snoc.prems show ?thesis
      by (simp add: client_fail_def live_entry_def failed_entry_def count_failure_def zero_entry_def time_defs)
  next
    case False
    with snoc.prems have hd: "hd (ts @ [x]) = hd ts" by simp
    with snoc.prems False snoc.IH
    have IH: "fold (client_fail l) ts None = Some \<lparr>en_failures = int (length ts), en_windowStart = hd ts, en_blockedUntil = 0\<rparr>"
      by simp
    from snoc.prems hd have "hd ts \<le> x" "x < hd ts + li_window l" "0 \<le> x" "int (length ts) + 1 < li_threshold l" by auto
    with hd have "client_fail l x (Some \<lparr>en_failures = int (length ts), en_windowStart = hd ts, en_blockedUntil = 0\<rparr>) =
        Some \<lparr>en_failures = int (length (ts @ [x])), en_windowStart = hd (ts @ [x]), en_blockedUntil = 0\<rparr>"
      by (simp add: client_fail_def live_entry_def entryExpired_def failed_entry_def count_failure_def time_defs)
    then show ?thesis by (simp add: IH)
  qed
qed simp

lemma failures_of_orderly:
  "sorted (map call_time cs) \<Longrightarrow> sorted (failures_of k cs) \<and> set (failures_of k cs) \<subseteq> set (map call_time cs)"
  by (induction k cs rule: failures_of.induct) auto

text \<open>
  No false negatives: while no more failures are recorded than there are slots, a client
  that has failed exactly as often as the threshold, all within one window from its first failure, is
  turned away from the last failure on for the block time, and is told how long it still has to wait.
\<close>

theorem abusive_client_blocked:
  assumes "newInvalidAuthAbuseLimiter cfg = Some l0" and "orderly cs t" and "k \<noteq> []"
    and "int (failure_count cs) \<le> li_capacity l0" and ts: "failures_of k cs = ts" "int (length ts) = li_threshold l0"
    and win: "0 < li_window l0" "last ts < hd ts + li_window l0" and t: "t < last ts + li_block l0"
  shows "fst (check k t (fold limiter_step cs l0)) = (time_sub (last ts + li_block l0) t, True)"
proof -
  have th: "0 < li_threshold l0" using new_ok [OF assms(1)] by (simp add: limiter_ok_def)
  have "sorted (map call_time cs)" "\<forall>x \<in> set (map call_time cs). 0 \<le> x \<and> x \<le> t"
    using assms(2) by (auto simp: orderly_def sorted_append)
  with failures_of_orderly [of cs k] have sorted: "sorted ts" "\<forall>x \<in> set ts. 0 \<le> x \<and> x \<le> t"
    unfolding ts(1) by blast+
  obtain us x where us: "ts = us @ [x]" using ts(2) th by (cases ts rule: rev_cases) auto
  have e: "client_fail l0 x (fold (client_fail l0) us None) =
      Some \<lparr>en_failures = 0, en_windowStart = x + li_block l0, en_blockedUntil = x + li_block l0\<rparr>"
  proof (cases "us = []")
    case True
    with us ts(2) sorted(2) win show ?thesis
      by (simp add: client_fail_def live_entry_def failed_entry_def count_failure_def zero_entry_def time_defs)
  next
    case False
    have hd: "hd ts = hd us" using us False by simp
    have "\<forall>y \<in> set us. hd us \<le> y \<and> y < hd us + li_window l0"
      using sorted(1) win(2) us False hd by (cases us) (auto simp: sorted_append)
    with us ts(2) sorted(2) False
    have "fold (client_fail l0) us None = Some \<lparr>en_failures = int (length us), en_windowStart = hd us, en_blockedUntil = 0\<rparr>"
      by (intro window_entry [OF win(1)]) auto
    moreover have "hd us \<le> x" "x < hd us + li_window l0" "0 \<le> x" "li_threshold l0 = int (length us) + 1"
      using sorted us False win(2) hd ts(2) by (auto simp: sorted_append)
    ultimately show ?thesis
      by (simp add: client_fail_def live_entry_def entryExpired_def failed_entry_def count_failure_def time_defs)
  qed
  have "fold (client_fail l0) ts None = client_fail l0 x (fold (client_fail l0) us None)" by (simp add: us)
  then have "client_answer l0 t (fold (client_fail l0) (failures_of k cs) None) = (time_sub (last ts + li_block l0) t, True)"
    using e t us ts(1) by (simp add: client_answer_def live_entry_def entryExpired_def time_defs)
  with clients_isolated [OF assms(1-4)] show ?thesis by simp
qed

definition two_limits :: InvalidAbuseConfig where
  "two_limits = sample_limits\<lparr>ca_Capacity := 4\<rparr>"

definition two_limiter :: invalidAuthAbuseLimiter where
  "two_limiter = the (newInvalidAuthAbuseLimiter (Some two_limits))"

lemma two_limiter: "newInvalidAuthAbuseLimiter (Some two_limits) = Some two_limiter"
  "li_threshold two_limiter = 2" "li_window two_limiter = 60 * second" "li_block two_limiter = 300 * second" "li_capacity two_limiter = 4"
  by (simp_all add: two_limiter_def newInvalidAuthAbuseLimiter_def two_limits_def sample_limits_def wrap64_id second_def)

definition sample_calls :: "limiter_call list" where
  "sample_calls = [Fail ''a'' 1, Fail ''b'' 2, Check ''a'' 3, Fail ''a'' 4]"

lemma sample_calls: "orderly sample_calls 5" "failure_count sample_calls = 3" "failures_of ''a'' sample_calls = [1, 4]"
  "failures_of ''b'' sample_calls = [2]"
  by (auto simp: sample_calls_def orderly_def)

theorem clients_isolated_witness:
  "fst (check ''b'' 5 (fold limiter_step sample_calls two_limiter)) = client_answer two_limiter 5 (fold (client_fail two_limiter) [2] None)"
  using clients_isolated [OF two_limiter(1) sample_calls(1), of "''b''"] by (simp add: sample_calls two_limiter)

theorem innocent_client_passes_witness:
  "fst (check ''b'' 5 (fold limiter_step sample_calls two_limiter)) = (0, False)"
  by (rule innocent_client_passes [OF two_limiter(1) sample_calls(1)]) (simp_all add: sample_calls two_limiter)

theorem abusive_client_blocked_witness:
  "fst (check ''a'' 5 (fold limiter_step sample_calls two_limiter)) = (time_sub (4 + 300 * second) 5, True)"
  using abusive_client_blocked [OF two_limiter(1) sample_calls(1), of "''a''" "[1, 4]"]
  by (simp add: sample_calls two_limiter second_def)

end
