(* ===== verification/Session_Cache.thy ===== *)
theory Session_Cache
  imports Prelude
begin

section \<open>The bounded session cache\<close>

text \<open>
  \<open>service/session_memory_cache.go\<close>: a cache with three ways into one set of list elements, a map
  by key, buckets by key hash, and a list in order of use. The elements are cells of a store, named
  by numbers, so that what the three structures share is explicit; a removed element has no cell.
  \<open>hash\<close> is \<open>maphash\<close> with the cache's seed, a function of the bytes written so far. Every operation
  is one critical section with the time it reads; an operation that would follow a nil or removed
  element is \<open>None\<close>.
\<close>

subsection \<open>Data\<close>

record 'v sessionMemoryValue =
  sv_data :: 'v
  sv_expiresAt :: gotime
  sv_cost :: nat

record 'v sessionMemoryEntry =
  se_key :: string
  se_hash :: "64 word"
  se_value :: 'v
  se_expiresAt :: gotime
  se_cost :: nat

text \<open>\<open>sc_entries\<close> is the nil map before the first use and after \<open>Close\<close>.\<close>

record 'v sessionMemoryCache =
  sc_cells :: "(nat, 'v sessionMemoryEntry) fmap"
  sc_next :: nat
  sc_entries :: "(string, nat) fmap option"
  sc_prefixes :: "(64 word, nat list) fmap"
  sc_lru :: "nat list"
  sc_bytes :: int
  sc_maxEntries :: int
  sc_maxBytes :: int
  sc_sweep :: duration
  sc_timer :: bool
  sc_closed :: bool

definition sessionMemoryCacheMaxEntries :: int where
  "sessionMemoryCacheMaxEntries = 16384"

definition sessionMemoryCacheMaxBytes :: int where
  "sessionMemoryCacheMaxBytes = 33554432"

definition sessionMemoryCacheSweep :: duration where
  "sessionMemoryCacheSweep = minute"

definition sessionMemoryCacheEntryCost :: nat where
  "sessionMemoryCacheEntryCost = 512"

definition zero_cache :: "int \<Rightarrow> int \<Rightarrow> duration \<Rightarrow> 'v sessionMemoryCache" where
  "zero_cache maxEntries maxBytes sweep =
     \<lparr>sc_cells = fmempty, sc_next = 0, sc_entries = None, sc_prefixes = fmempty, sc_lru = [], sc_bytes = 0,
      sc_maxEntries = maxEntries, sc_maxBytes = maxBytes, sc_sweep = sweep, sc_timer = False, sc_closed = False\<rparr>"

definition entry_of :: "'v sessionMemoryCache \<Rightarrow> string \<Rightarrow> nat option" where
  "entry_of c key = (case sc_entries c of None \<Rightarrow> None | Some m \<Rightarrow> fmlookup m key)"

definition ItemCount :: "'v sessionMemoryCache \<Rightarrow> nat" where
  "ItemCount c = (case sc_entries c of None \<Rightarrow> 0 | Some m \<Rightarrow> map_length m)"

definition bucket :: "'v sessionMemoryCache \<Rightarrow> 64 word \<Rightarrow> nat list" where
  "bucket c h = (case fmlookup (sc_prefixes c) h of None \<Rightarrow> [] | Some es \<Rightarrow> es)"

definition initLocked :: "'v sessionMemoryCache \<Rightarrow> 'v sessionMemoryCache" where
  "initLocked c =
     (if sc_entries c \<noteq> None then c
      else c\<lparr>sc_entries := Some fmempty, sc_prefixes := fmempty,
        sc_maxEntries := (if sc_maxEntries c \<le> 0 then sessionMemoryCacheMaxEntries else sc_maxEntries c),
        sc_maxBytes := (if sc_maxBytes c \<le> 0 then sessionMemoryCacheMaxBytes else sc_maxBytes c),
        sc_sweep := (if sc_sweep c \<le> 0 then sessionMemoryCacheSweep else sc_sweep c)\<rparr>)"

subsection \<open>Removal\<close>

text \<open>The element is overwritten by the last of its bucket, which is then cut.\<close>

fun index_in :: "nat \<Rightarrow> nat list \<Rightarrow> nat option" where
  "index_in e [] = None"
| "index_in e (x # xs) = (if x = e then Some 0 else map_option Suc (index_in e xs))"

definition swap_out :: "nat \<Rightarrow> nat list \<Rightarrow> nat list" where
  "swap_out e xs = (case index_in e xs of None \<Rightarrow> xs | Some i \<Rightarrow> butlast (xs[i := last xs]))"

definition removeLocked :: "nat \<Rightarrow> 'v sessionMemoryCache \<Rightarrow> 'v sessionMemoryCache option" where
  "removeLocked e c =
     (case fmlookup (sc_cells c) e of
        None \<Rightarrow> None
      | Some entry \<Rightarrow>
          (let indexed = swap_out e (bucket c (se_hash entry))
           in Some (c\<lparr>sc_entries := map_option (fmdrop (se_key entry)) (sc_entries c),
                sc_prefixes := (if indexed = [] then fmdrop (se_hash entry) (sc_prefixes c)
                                else fmupd (se_hash entry) indexed (sc_prefixes c)),
                sc_bytes := sc_bytes c - int (se_cost entry),
                sc_lru := remove1 e (sc_lru c),
                sc_cells := fmdrop e (sc_cells c)\<rparr>)))"

text \<open>The loop of \<open>Store\<close> that makes room; \<open>Back\<close> of an empty list is nil.\<close>

function (sequential) evict :: "nat \<Rightarrow> 'v sessionMemoryCache \<Rightarrow> 'v sessionMemoryCache option" where
  "evict cost c =
     (if sc_maxEntries c \<le> int (ItemCount c) \<or> sc_maxBytes c < sc_bytes c + int cost then
        (if sc_lru c = [] then None
         else (case removeLocked (last (sc_lru c)) c of None \<Rightarrow> None | Some c' \<Rightarrow> evict cost c'))
      else Some c)"
  by pat_completeness auto
termination
  by (relation "measure (\<lambda>(cost, c). length (sc_lru c))")
    (auto simp: removeLocked_def Let_def length_remove1 split: option.splits)

declare evict.simps [simp del]

subsection \<open>Operations\<close>

definition move_to_front :: "nat \<Rightarrow> 'v sessionMemoryCache \<Rightarrow> 'v sessionMemoryCache" where
  "move_to_front e c = c\<lparr>sc_lru := e # remove1 e (sc_lru c)\<rparr>"

definition push_entry :: "(string \<Rightarrow> 64 word) \<Rightarrow> string \<Rightarrow> 'v sessionMemoryValue \<Rightarrow> nat \<Rightarrow> 'v sessionMemoryCache \<Rightarrow> 'v sessionMemoryCache" where
  "push_entry hash key value cost c =
     (let e = sc_next c;
          entry = \<lparr>se_key = key, se_hash = hash key, se_value = sv_data value,
                   se_expiresAt = sv_expiresAt value, se_cost = cost\<rparr>
      in c\<lparr>sc_cells := fmupd e entry (sc_cells c), sc_next := e + 1, sc_lru := e # sc_lru c,
           sc_entries := map_option (fmupd key e) (sc_entries c),
           sc_prefixes := fmupd (hash key) (bucket c (hash key) @ [e]) (sc_prefixes c),
           sc_bytes := sc_bytes c + int cost, sc_timer := True\<rparr>)"

definition Store :: "(string \<Rightarrow> 64 word) \<Rightarrow> gotime \<Rightarrow> string \<Rightarrow> 'v sessionMemoryValue \<Rightarrow>
    'v sessionMemoryCache \<Rightarrow> 'v sessionMemoryCache option" where
  "Store hash now key value c0 =
     (if sc_closed c0 then Some c0
      else (let c = initLocked c0
            in (case (case entry_of c key of None \<Rightarrow> Some c | Some e \<Rightarrow> removeLocked e c) of
                  None \<Rightarrow> None
                | Some c1 \<Rightarrow>
                    (let cost = sessionMemoryCacheEntryCost + length key + sv_cost value
                     in if sc_maxBytes c1 < int cost \<or> \<not> time_after (sv_expiresAt value) now then Some c1
                        else map_option (push_entry hash key value cost) (evict cost c1)))))"

definition Load :: "gotime \<Rightarrow> string \<Rightarrow> 'v sessionMemoryCache \<Rightarrow> ('v option \<times> 'v sessionMemoryCache) option" where
  "Load now key c =
     (case entry_of c key of
        None \<Rightarrow> Some (None, c)
      | Some e \<Rightarrow>
          (case fmlookup (sc_cells c) e of
             None \<Rightarrow> None
           | Some entry \<Rightarrow>
               if \<not> time_after (se_expiresAt entry) now then map_option (Pair None) (removeLocked e c)
               else Some (Some (se_value entry), move_to_front e c)))"

definition Delete :: "string \<Rightarrow> 'v sessionMemoryCache \<Rightarrow> 'v sessionMemoryCache option" where
  "Delete key c = (case entry_of c key of None \<Rightarrow> Some c | Some e \<Rightarrow> removeLocked e c)"

text \<open>The walk from the back of the list; the previous element is read before the removal.\<close>

fun sweep_elements :: "gotime \<Rightarrow> nat list \<Rightarrow> 'v sessionMemoryCache \<Rightarrow> 'v sessionMemoryCache option" where
  "sweep_elements now [] c = Some c"
| "sweep_elements now (e # es) c =
     (case fmlookup (sc_cells c) e of
        None \<Rightarrow> None
      | Some entry \<Rightarrow>
          if \<not> time_after (se_expiresAt entry) now then
            (case removeLocked e c of None \<Rightarrow> None | Some c' \<Rightarrow> sweep_elements now es c')
          else sweep_elements now es c)"

definition sweepExpired :: "gotime \<Rightarrow> 'v sessionMemoryCache \<Rightarrow> 'v sessionMemoryCache option" where
  "sweepExpired now c0 =
     (let c = c0\<lparr>sc_timer := False\<rparr>
      in if sc_closed c then Some c
         else map_option (\<lambda>c'. if 0 < ItemCount c' then c'\<lparr>sc_timer := True\<rparr> else c')
                (sweep_elements now (rev (sc_lru c)) c))"

definition Close :: "'v sessionMemoryCache \<Rightarrow> 'v sessionMemoryCache" where
  "Close c = c\<lparr>sc_closed := True, sc_timer := False, sc_entries := None, sc_prefixes := fmempty,
      sc_lru := [], sc_cells := fmempty, sc_bytes := 0\<rparr>"

subsection \<open>Longest prefix on a message boundary\<close>

text \<open>\<open>scan_chain\<close> is the hashing loop: the bytes written, the pending part of the chain, the position.\<close>

fun scan_chain :: "(string \<Rightarrow> 64 word) \<Rightarrow> string \<Rightarrow> string \<Rightarrow> nat \<Rightarrow> string \<Rightarrow> (64 word \<times> nat) list" where
  "scan_chain hash written pending i [] = [(hash (written @ pending), i)]"
| "scan_chain hash written pending i (b # bs) =
     (if b \<noteq> CHR ''-'' then scan_chain hash written (pending @ [b]) (i + 1) bs
      else (hash (written @ pending), i) # scan_chain hash (written @ pending @ ''-'') [] (i + 1) bs)"

definition prefix_hit :: "gotime \<Rightarrow> string \<Rightarrow> string \<Rightarrow> nat \<Rightarrow> 'v sessionMemoryEntry \<Rightarrow> bool" where
  "prefix_hit now ns chain n entry \<longleftrightarrow> time_after (se_expiresAt entry) now \<and>
     length (se_key entry) = length ns + n \<and> has_prefix (se_key entry) ns \<and> drop (length ns) (se_key entry) = take n chain"

fun find_prefix :: "gotime \<Rightarrow> string \<Rightarrow> string \<Rightarrow> 'v sessionMemoryCache \<Rightarrow> (64 word \<times> nat) list \<Rightarrow> (nat \<times> nat) option" where
  "find_prefix now ns chain c [] = None"
| "find_prefix now ns chain c ((h, n) # ps) =
     (case find (\<lambda>e. case fmlookup (sc_cells c) e of None \<Rightarrow> False | Some entry \<Rightarrow> prefix_hit now ns chain n entry) (bucket c h) of
        Some e \<Rightarrow> Some (e, n)
      | None \<Rightarrow> find_prefix now ns chain c ps)"

definition longestDigestPrefix :: "(string \<Rightarrow> 64 word) \<Rightarrow> gotime \<Rightarrow> string \<Rightarrow> string \<Rightarrow> 'v sessionMemoryCache \<Rightarrow>
    (('v \<times> string) option \<times> 'v sessionMemoryCache)" where
  "longestDigestPrefix hash now ns chain c =
     (if ItemCount c = 0 then (None, c)
      else (case find_prefix now ns chain c (rev (scan_chain hash ns [] 0 chain)) of
              None \<Rightarrow> (None, c)
            | Some (e, n) \<Rightarrow>
                (map_option (\<lambda>entry. (se_value entry, take n chain)) (fmlookup (sc_cells c) e), move_to_front e c)))"

end
