(* ===== verification/Session_Cache_Props.thy ===== *)
theory Session_Cache_Props
  imports Session_Cache
begin

section \<open>The session cache as a recency list\<close>

text \<open>
  The three structures of the cache agree (\<open>cache_core\<close>), and the cache is then one list of entries,
  most recently used first, on which each operation has a direct description.
\<close>

subsection \<open>Agreement of the structures\<close>

definition cell_cost :: "'v sessionMemoryCache \<Rightarrow> nat \<Rightarrow> int" where
  "cell_cost c e = (case fmlookup (sc_cells c) e of None \<Rightarrow> 0 | Some en \<Rightarrow> int (se_cost en))"

definition cache_core :: "(string \<Rightarrow> 64 word) \<Rightarrow> 'v sessionMemoryCache \<Rightarrow> bool" where
  "cache_core hash c \<longleftrightarrow>
     distinct (sc_lru c) \<and> fset (fmdom (sc_cells c)) = set (sc_lru c) \<and> (\<forall>e \<in> set (sc_lru c). e < sc_next c) \<and>
     (\<forall>k e. entry_of c k = Some e \<longleftrightarrow> (\<exists>en. fmlookup (sc_cells c) e = Some en \<and> se_key en = k)) \<and>
     (\<forall>e en. fmlookup (sc_cells c) e = Some en \<longrightarrow> se_hash en = hash (se_key en)) \<and>
     (\<forall>h. distinct (bucket c h) \<and> set (bucket c h) = {e. \<exists>en. fmlookup (sc_cells c) e = Some en \<and> se_hash en = h}) \<and>
     (\<forall>h. fmlookup (sc_prefixes c) h \<noteq> Some []) \<and>
     sc_bytes c = sum_list (map (cell_cost c) (sc_lru c)) \<and>
     (sc_entries c = None \<longrightarrow> sc_lru c = []) \<and> (sc_closed c \<longrightarrow> sc_entries c = None)"

definition within_limits :: "'v sessionMemoryCache \<Rightarrow> bool" where
  "within_limits c \<longleftrightarrow>
     (sc_entries c \<noteq> None \<longrightarrow> 0 < sc_maxEntries c \<and> 0 < sc_maxBytes c \<and> int (length (sc_lru c)) \<le> sc_maxEntries c \<and>
        sc_bytes c \<le> sc_maxBytes c) \<and>
     (sc_lru c \<noteq> [] \<longrightarrow> sc_timer c)"

definition recency :: "'v sessionMemoryCache \<Rightarrow> 'v sessionMemoryEntry list" where
  "recency c = map (\<lambda>e. the (fmlookup (sc_cells c) e)) (sc_lru c)"

lemma coreD:
  assumes "cache_core hash c"
  shows "distinct (sc_lru c)" and "fset (fmdom (sc_cells c)) = set (sc_lru c)" and "\<And>e. e \<in> set (sc_lru c) \<Longrightarrow> e < sc_next c"
    and "\<And>k e. entry_of c k = Some e \<longleftrightarrow> (\<exists>en. fmlookup (sc_cells c) e = Some en \<and> se_key en = k)"
    and "\<And>e en. fmlookup (sc_cells c) e = Some en \<Longrightarrow> se_hash en = hash (se_key en)"
    and "\<And>h. distinct (bucket c h)" and "\<And>h. set (bucket c h) = {e. \<exists>en. fmlookup (sc_cells c) e = Some en \<and> se_hash en = h}"
    and "\<And>h. fmlookup (sc_prefixes c) h \<noteq> Some []" and "sc_bytes c = sum_list (map (cell_cost c) (sc_lru c))"
    and "sc_entries c = None \<Longrightarrow> sc_lru c = []" and "sc_closed c \<Longrightarrow> sc_entries c = None"
  using assms unfolding cache_core_def by blast+

lemma core_cell_iff: "cache_core hash c \<Longrightarrow> (\<exists>en. fmlookup (sc_cells c) e = Some en) \<longleftrightarrow> e \<in> set (sc_lru c)"
  using coreD(2) by (metis fmlookup_dom_iff)

lemma core_cell: "cache_core hash c \<Longrightarrow> e \<in> set (sc_lru c) \<Longrightarrow> \<exists>en. fmlookup (sc_cells c) e = Some en"
  using core_cell_iff by blast

lemma core_same_key:
  assumes "cache_core hash c" and "fmlookup (sc_cells c) e = Some en" and "fmlookup (sc_cells c) e' = Some en'" and "se_key en = se_key en'"
  shows "e = e'"
proof -
  have "entry_of c (se_key en) = Some e" "entry_of c (se_key en) = Some e'"
    using coreD(4) [OF assms(1)] assms(2-4) by auto
  then show ?thesis by simp
qed

lemma core_count:
  assumes "cache_core hash c"
  shows "ItemCount c = length (sc_lru c)"
proof (cases "sc_entries c")
  case None
  with coreD(10) [OF assms] show ?thesis by (simp add: ItemCount_def)
next
  case (Some m)
  note entry = coreD(4) [OF assms]
  have m: "fmlookup m k = entry_of c k" for k by (simp add: entry_of_def Some)
  have "bij_betw (\<lambda>k. the (fmlookup m k)) (fset (fmdom m)) (set (sc_lru c))"
  proof (rule bij_betwI')
    fix k k' assume "k \<in> fset (fmdom m)" "k' \<in> fset (fmdom m)"
    then obtain e e' where "entry_of c k = Some e" "entry_of c k' = Some e'" by (metis m fmlookup_dom_iff)
    then show "(the (fmlookup m k) = the (fmlookup m k')) = (k = k')" unfolding m using entry by (metis option.sel)
  next
    fix k assume "k \<in> fset (fmdom m)"
    then obtain e where "entry_of c k = Some e" by (metis m fmlookup_dom_iff)
    moreover have "e \<in> set (sc_lru c)" using calculation entry core_cell_iff [OF assms] by blast
    ultimately show "the (fmlookup m k) \<in> set (sc_lru c)" by (simp add: m)
  next
    fix e assume "e \<in> set (sc_lru c)"
    then obtain en where "fmlookup (sc_cells c) e = Some en" using core_cell [OF assms] by blast
    then have "fmlookup m (se_key en) = Some e" using entry m by auto
    then show "\<exists>k \<in> fset (fmdom m). e = the (fmlookup m k)" by (intro bexI [of _ "se_key en"]) (auto intro: fmdomI)
  qed
  then have "card (fset (fmdom m)) = card (set (sc_lru c))" by (rule bij_betw_same_card)
  then show ?thesis
    using distinct_card [OF coreD(1) [OF assms]] by (simp add: ItemCount_def Some map_length_def fcard.rep_eq)
qed

subsection \<open>Removal\<close>

lemma index_in_Some: "index_in e xs = Some i \<Longrightarrow> i < length xs \<and> xs ! i = e"
  by (induction e xs arbitrary: i rule: index_in.induct) (auto split: if_splits)

lemma index_in_None: "index_in e xs = None \<longleftrightarrow> e \<notin> set xs"
  by (induction e xs rule: index_in.induct) auto

lemma swap_out:
  assumes "distinct xs"
  shows "distinct (swap_out e xs)" and "set (swap_out e xs) = set xs - {e}"
proof -
  have "distinct (swap_out e xs) \<and> set (swap_out e xs) = set xs - {e}"
  proof (cases "index_in e xs")
    case None
    then have "swap_out e xs = xs" by (simp add: swap_out_def)
    moreover have "e \<notin> set xs" using None index_in_None by metis
    ultimately show ?thesis using assms by simp
  next
    case (Some i)
    then have i: "i < length xs" "xs ! i = e" using index_in_Some by auto
    then obtain ys y where xs: "xs = ys @ [y]" by (cases xs rule: rev_cases) auto
    show ?thesis
    proof (cases "i = length ys")
      case True
      with i xs assms Some show ?thesis by (auto simp: swap_out_def)
    next
      case False
      with i xs have l: "i < length ys" "ys ! i = e" by (auto simp: nth_append)
      have "swap_out e xs = ys[i := y]" using Some xs l by (simp add: swap_out_def list_update_append butlast_append)
      moreover have "distinct (ys[i := y])" using assms xs by (auto intro: distinct_list_update)
      moreover have "set (ys[i := y]) = set ys - {e} \<union> {y}"
        using assms xs l set_update_distinct [of ys i y] by auto
      moreover have "y \<noteq> e" using assms xs l by auto
      ultimately show ?thesis using xs assms by auto
    qed
  qed
  then show "distinct (swap_out e xs)" "set (swap_out e xs) = set xs - {e}" by auto
qed

lemma sum_remove1: "e \<in> set xs \<Longrightarrow> sum_list (map f (remove1 e xs)) = sum_list (map f xs) - (f e :: int)"
  by (induction xs) auto

text \<open>What an operation leaves alone besides the entries.\<close>

definition same_frame :: "'v sessionMemoryCache \<Rightarrow> 'v sessionMemoryCache \<Rightarrow> bool" where
  "same_frame c c' \<longleftrightarrow> sc_maxEntries c' = sc_maxEntries c \<and> sc_maxBytes c' = sc_maxBytes c \<and> sc_sweep c' = sc_sweep c \<and>
     sc_closed c' = sc_closed c \<and> sc_timer c' = sc_timer c \<and> sc_next c' = sc_next c \<and>
     (sc_entries c' = None \<longleftrightarrow> sc_entries c = None)"

lemma same_frame_refl [simp]: "same_frame c c"
  by (simp add: same_frame_def)

lemma same_frame_trans: "same_frame a b \<Longrightarrow> same_frame b c \<Longrightarrow> same_frame a c"
  by (auto simp: same_frame_def)

definition without :: "string \<Rightarrow> 'v sessionMemoryEntry list \<Rightarrow> 'v sessionMemoryEntry list" where
  "without key xs = filter (\<lambda>en. se_key en \<noteq> key) xs"

definition total_cost :: "'v sessionMemoryEntry list \<Rightarrow> nat" where
  "total_cost xs = sum_list (map se_cost xs)"

lemma sum_list_int: "int (sum_list (map f xs)) = sum_list (map (\<lambda>x. int (f x)) xs)"
  by (induction xs) auto

lemma recency_bytes: "cache_core hash c \<Longrightarrow> sc_bytes c = int (total_cost (recency c))"
proof -
  assume c: "cache_core hash c"
  have "map (cell_cost c) (sc_lru c) = map (int \<circ> se_cost) (recency c)"
    by (auto simp: recency_def cell_cost_def dest!: core_cell [OF c])
  then show ?thesis using coreD(9) [OF c] by (simp add: total_cost_def sum_list_int o_def)
qed

lemma recency_length [simp]: "length (recency c) = length (sc_lru c)"
  by (simp add: recency_def)

lemma total_cost_filter: "total_cost (filter p xs) \<le> total_cost xs"
  unfolding total_cost_def by (induction xs) auto

lemma remove_ok:
  assumes c: "cache_core hash c" and e: "fmlookup (sc_cells c) e = Some en"
  obtains c' where "removeLocked e c = Some c'" and "cache_core hash c'" and "recency c' = without (se_key en) (recency c)"
    and "same_frame c c'" and "sc_lru c' = remove1 e (sc_lru c)"
proof -
  define ix where "ix = swap_out e (bucket c (se_hash en))"
  define c' where "c' = c\<lparr>sc_entries := map_option (fmdrop (se_key en)) (sc_entries c),
      sc_prefixes := (if ix = [] then fmdrop (se_hash en) (sc_prefixes c) else fmupd (se_hash en) ix (sc_prefixes c)),
      sc_bytes := sc_bytes c - int (se_cost en), sc_lru := remove1 e (sc_lru c), sc_cells := fmdrop e (sc_cells c)\<rparr>"
  have r: "removeLocked e c = Some c'" by (simp add: removeLocked_def e c'_def ix_def)
  have c': "sc_cells c' = fmdrop e (sc_cells c)" "sc_lru c' = remove1 e (sc_lru c)" "sc_bytes c' = sc_bytes c - int (se_cost en)"
    by (auto simp: c'_def)
  note D = coreD [OF c]
  have el: "e \<in> set (sc_lru c)" using core_cell_iff [OF c] e by auto
  have lru: "set (remove1 e (sc_lru c)) = set (sc_lru c) - {e}" using D(1) by (simp add: set_remove1_eq)
  have b: "bucket c' h = (if h = se_hash en then ix else bucket c h)" for h
    by (simp add: bucket_def c'_def)
  have en: "entry_of c' k = (if k = se_key en then None else entry_of c k)" for k
    by (auto simp: entry_of_def c'_def split: option.splits)
  have cost: "cell_cost c' x = cell_cost c x" if "x \<noteq> e" for x using that by (simp add: cell_cost_def c'_def)
  have mc: "map (cell_cost c') (remove1 e (sc_lru c)) = map (cell_cost c) (remove1 e (sc_lru c))"
    using lru by (intro map_cong) (auto intro: cost)
  have bytes: "sc_bytes c' = sum_list (map (cell_cost c') (sc_lru c'))"
    unfolding c'(2,3) mc using sum_remove1 [OF el, of "cell_cost c"] D(9) e by (simp add: cell_cost_def)
  have keys: "\<And>x ex. fmlookup (sc_cells c) x = Some ex \<Longrightarrow> se_key ex = se_key en \<Longrightarrow> x = e"
    using core_same_key [OF c _ e] by blast
  have entries: "entry_of c' k = Some x \<longleftrightarrow> (\<exists>ex. fmlookup (sc_cells c') x = Some ex \<and> se_key ex = k)" for k x
  proof (cases "x = e")
    case True
    with e D(4) [of k e] show ?thesis by (auto simp: en c'(1))
  next
    case False
    with keys [of x] D(4) [of k x] show ?thesis by (auto simp: en c'(1))
  qed
  have buckets: "distinct (bucket c' h) \<and> set (bucket c' h) = {x. \<exists>ex. fmlookup (sc_cells c') x = Some ex \<and> se_hash ex = h}" for h
  proof (cases "h = se_hash en")
    case True
    then show ?thesis using swap_out [OF D(6) [of h], of e] e D(7) [of h] unfolding b ix_def c'(1) by auto
  next
    case False
    then show ?thesis using D(6,7) [of h] e unfolding b c'(1) by auto
  qed
  have core: "cache_core hash c'"
    unfolding cache_core_def
  proof (intro conjI)
    show "\<forall>k x. entry_of c' k = Some x \<longleftrightarrow> (\<exists>ex. fmlookup (sc_cells c') x = Some ex \<and> se_key ex = k)" using entries by blast
    show "\<forall>h. distinct (bucket c' h) \<and> set (bucket c' h) = {x. \<exists>ex. fmlookup (sc_cells c') x = Some ex \<and> se_hash ex = h}"
      using buckets by blast
  qed (use D lru bytes in \<open>auto simp: c'_def distinct_remove1\<close>)
  have the: "the (fmlookup (sc_cells c') x) = the (fmlookup (sc_cells c) x)" if "x \<noteq> e" for x using that by (simp add: c'_def)
  let ?f = "\<lambda>x. the (fmlookup (sc_cells c) x)"
  have "remove1 e (sc_lru c) = filter (\<lambda>x. x \<noteq> e) (sc_lru c)"
    using D(1) by (auto simp: distinct_remove1_removeAll removeAll_filter_not_eq intro: filter_cong)
  then have "recency c' = map (\<lambda>x. the (fmlookup (sc_cells c') x)) (filter (\<lambda>x. x \<noteq> e) (sc_lru c))"
    by (simp add: recency_def c'(2))
  also have "\<dots> = map ?f (filter (\<lambda>x. x \<noteq> e) (sc_lru c))" by (rule map_cong) (simp_all add: the)
  also have "filter (\<lambda>x. x \<noteq> e) (sc_lru c) = filter (\<lambda>x. se_key (?f x) \<noteq> se_key en) (sc_lru c)"
  proof (rule filter_cong [OF refl])
    fix x assume "x \<in> set (sc_lru c)"
    from core_cell [OF c this] obtain ex where ex: "fmlookup (sc_cells c) x = Some ex" by blast
    with keys [OF ex] e show "(x \<noteq> e) = (se_key (?f x) \<noteq> se_key en)" by auto
  qed
  also have "map ?f (filter (\<lambda>x. se_key (?f x) \<noteq> se_key en) (sc_lru c)) = without (se_key en) (recency c)"
    by (simp add: recency_def without_def filter_map o_def)
  finally have "recency c' = without (se_key en) (recency c)" .
  moreover have "same_frame c c'" "sc_lru c' = remove1 e (sc_lru c)" by (auto simp: same_frame_def c'_def)
  ultimately show ?thesis using that [OF r core] by blast
qed

end
