(* ===== verification/Session_Cache_LRU.thy ===== *)
theory Session_Cache_LRU
  imports Session_Cache_Props
begin

section \<open>Refinement of a recency list\<close>

text \<open>
  Every operation of the session cache acts on its list of entries, most recently used first, as the
  corresponding function on lists; it never meets a nil element and keeps the limits.
\<close>

subsection \<open>The specification\<close>

definition roomy :: "int \<Rightarrow> int \<Rightarrow> nat \<Rightarrow> 'v sessionMemoryEntry list \<Rightarrow> bool" where
  "roomy maxE maxB cost xs \<longleftrightarrow> int (length xs) < maxE \<and> int (total_cost xs) + int cost \<le> maxB"

text \<open>Room is made by keeping as many of the most recently used entries as possible.\<close>

definition make_room :: "int \<Rightarrow> int \<Rightarrow> nat \<Rightarrow> 'v sessionMemoryEntry list \<Rightarrow> 'v sessionMemoryEntry list" where
  "make_room maxE maxB cost xs = last (filter (roomy maxE maxB cost) (prefixes xs))"

definition new_entry :: "(string \<Rightarrow> 64 word) \<Rightarrow> string \<Rightarrow> 'v sessionMemoryValue \<Rightarrow> 'v sessionMemoryEntry" where
  "new_entry hash key value =
     \<lparr>se_key = key, se_hash = hash key, se_value = sv_data value, se_expiresAt = sv_expiresAt value,
      se_cost = sessionMemoryCacheEntryCost + length key + sv_cost value\<rparr>"

definition lru_store :: "(string \<Rightarrow> 64 word) \<Rightarrow> int \<Rightarrow> int \<Rightarrow> gotime \<Rightarrow> string \<Rightarrow> 'v sessionMemoryValue \<Rightarrow>
    'v sessionMemoryEntry list \<Rightarrow> 'v sessionMemoryEntry list" where
  "lru_store hash maxE maxB now key value xs =
     (let en = new_entry hash key value
      in if maxB < int (se_cost en) \<or> se_expiresAt en \<le> now then without key xs
         else en # make_room maxE maxB (se_cost en) (without key xs))"

definition lookup :: "string \<Rightarrow> 'v sessionMemoryEntry list \<Rightarrow> 'v sessionMemoryEntry option" where
  "lookup key xs = find (\<lambda>en. se_key en = key) xs"

definition lru_load :: "gotime \<Rightarrow> string \<Rightarrow> 'v sessionMemoryEntry list \<Rightarrow> 'v option \<times> 'v sessionMemoryEntry list" where
  "lru_load now key xs =
     (case lookup key xs of
        None \<Rightarrow> (None, xs)
      | Some en \<Rightarrow> if se_expiresAt en \<le> now then (None, without key xs) else (Some (se_value en), en # without key xs))"

definition boundaries :: "string \<Rightarrow> nat list" where
  "boundaries chain = filter (\<lambda>n. chain ! n = CHR ''-'') [0..<length chain] @ [length chain]"

definition live_at :: "gotime \<Rightarrow> string \<Rightarrow> 'v sessionMemoryEntry list \<Rightarrow> 'v sessionMemoryEntry option" where
  "live_at now key xs = find (\<lambda>en. se_key en = key \<and> now < se_expiresAt en) xs"

definition lru_longest :: "gotime \<Rightarrow> string \<Rightarrow> string \<Rightarrow> 'v sessionMemoryEntry list \<Rightarrow>
    ('v \<times> string) option \<times> 'v sessionMemoryEntry list" where
  "lru_longest now ns chain xs =
     (case find (\<lambda>n. live_at now (ns @ take n chain) xs \<noteq> None) (rev (boundaries chain)) of
        None \<Rightarrow> (None, xs)
      | Some n \<Rightarrow> (let en = the (live_at now (ns @ take n chain) xs)
                   in (Some (se_value en, take n chain), en # without (se_key en) xs)))"

subsection \<open>Making room\<close>

lemma recency_nth: "cache_core hash c \<Longrightarrow> en \<in> set (recency c) \<Longrightarrow> \<exists>e. fmlookup (sc_cells c) e = Some en \<and> e \<in> set (sc_lru c)"
  by (auto simp: recency_def dest!: core_cell)

lemma recency_in: "cache_core hash c \<Longrightarrow> fmlookup (sc_cells c) e = Some en \<Longrightarrow> en \<in> set (recency c)"
  using core_cell_iff [of hash c e] by (force simp: recency_def image_iff)

lemma distinct_keys:
  assumes "cache_core hash c"
  shows "distinct (map se_key (recency c))"
proof -
  have "inj_on (\<lambda>e. se_key (the (fmlookup (sc_cells c) e))) (set (sc_lru c))"
    by (rule inj_onI) (auto dest!: core_cell [OF assms] intro: core_same_key [OF assms])
  with coreD(1) [OF assms] show ?thesis by (simp add: recency_def distinct_map o_def)
qed

lemma without_last: "distinct (map se_key (xs @ [en])) \<Longrightarrow> without (se_key en) (xs @ [en]) = xs"
  by (auto simp: without_def image_iff intro!: filter_True)

lemma make_room_roomy: "roomy maxE maxB cost xs \<Longrightarrow> make_room maxE maxB cost xs = xs"
  by (cases xs rule: rev_cases) (simp_all add: make_room_def)

lemma make_room_less: "\<not> roomy maxE maxB cost (xs @ [x]) \<Longrightarrow> make_room maxE maxB cost (xs @ [x]) = make_room maxE maxB cost xs"
  by (simp add: make_room_def)

lemma make_room_prefix:
  assumes "0 < maxE" and "int cost \<le> maxB"
  shows "prefix (make_room maxE maxB cost xs) xs \<and> roomy maxE maxB cost (make_room maxE maxB cost xs)"
proof -
  let ?l = "filter (roomy maxE maxB cost) (prefixes xs)"
  have "roomy maxE maxB cost []" using assms by (simp add: roomy_def total_cost_def)
  moreover have "[] \<in> set (prefixes xs)" by simp
  ultimately have "?l \<noteq> []" by (metis filter_empty_conv)
  then have "make_room maxE maxB cost xs \<in> set ?l" unfolding make_room_def by (rule last_in_set)
  then show ?thesis by auto
qed

lemma evict_ok:
  assumes "cache_core hash c" and "0 < sc_maxEntries c" and "int cost \<le> sc_maxBytes c"
  shows "\<exists>c'. evict cost c = Some c' \<and> cache_core hash c' \<and> same_frame c c' \<and>
    recency c' = make_room (sc_maxEntries c) (sc_maxBytes c) cost (recency c)"
  using assms
proof (induction cost c rule: evict.induct)
  case (1 cost c)
  let ?full = "sc_maxEntries c \<le> int (ItemCount c) \<or> sc_maxBytes c < sc_bytes c + int cost"
  have full: "?full \<longleftrightarrow> \<not> roomy (sc_maxEntries c) (sc_maxBytes c) cost (recency c)"
    using core_count [OF "1.prems"(1)] recency_bytes [OF "1.prems"(1)] by (auto simp: roomy_def)
  show ?case
  proof (cases ?full)
    case False
    with full "1.prems"(1) show ?thesis by (subst evict.simps) (simp add: make_room_roomy)
  next
    case True
    have ne: "sc_lru c \<noteq> []"
      using True full "1.prems"(2,3) by (auto simp: roomy_def total_cost_def recency_def)
    obtain en where en: "fmlookup (sc_cells c) (last (sc_lru c)) = Some en"
      using core_cell [OF "1.prems"(1)] last_in_set [OF ne] by blast
    obtain c' where c': "removeLocked (last (sc_lru c)) c = Some c'" "cache_core hash c'"
      "recency c' = without (se_key en) (recency c)" "same_frame c c'"
      using remove_ok [OF "1.prems"(1) en] by metis
    have "recency c = recency' @ [en]" if "recency' = butlast (recency c)" for recency'
      using ne en that by (metis append_butlast_last_id last_map list.map_disc_iff option.sel recency_def)
    then obtain xs where xs: "recency c = xs @ [en]" by blast
    have "recency c' = xs" using c'(3) xs distinct_keys [OF "1.prems"(1)] without_last [of xs en] by simp
    moreover have "make_room (sc_maxEntries c) (sc_maxBytes c) cost (recency c) = make_room (sc_maxEntries c) (sc_maxBytes c) cost xs"
      using True full unfolding xs by (simp add: make_room_less)
    moreover have "evict cost c = evict cost c'" using True ne c'(1) by (subst evict.simps) simp
    moreover have "sc_maxEntries c' = sc_maxEntries c" "sc_maxBytes c' = sc_maxBytes c" using c'(4) by (auto simp: same_frame_def)
    ultimately show ?thesis
      using "1.IH" [OF True ne c'(1,2)] "1.prems"(2,3) same_frame_trans [OF c'(4)] by auto
  qed
qed

subsection \<open>Insertion\<close>

lemma push_ok:
  fixes c :: "'v sessionMemoryCache"
  assumes c: "cache_core hash c" and opened: "sc_entries c \<noteq> None" and new: "entry_of c key = None"
    and cost: "cost = sessionMemoryCacheEntryCost + length key + sv_cost value"
  shows "cache_core hash (push_entry hash key value cost c)"
    and "recency (push_entry hash key value cost c) = new_entry hash key value # recency c"
proof -
  define c' where "c' = push_entry hash key value cost c"
  define e where "e = sc_next c"
  note D = coreD [OF c]
  obtain m where m: "sc_entries c = Some m" using opened by blast
  have c': "sc_cells c' = fmupd e (new_entry hash key value) (sc_cells c)" "sc_next c' = e + 1" "sc_lru c' = e # sc_lru c"
    "sc_entries c' = Some (fmupd key e m)" "sc_prefixes c' = fmupd (hash key) (bucket c (hash key) @ [e]) (sc_prefixes c)"
    "sc_bytes c' = sc_bytes c + int cost" "sc_closed c' = sc_closed c"
    by (auto simp: c'_def push_entry_def e_def Let_def new_entry_def cost m)
  have fresh: "e \<notin> set (sc_lru c)" using D(3) [of e] by (auto simp: e_def)
  then have cell: "fmlookup (sc_cells c) e = None" using core_cell_iff [OF c, of e] by auto
  have en: "entry_of c' k = (if k = key then Some e else entry_of c k)" for k by (simp add: entry_of_def c' m)
  have b: "bucket c' h = (if h = hash key then bucket c h @ [e] else bucket c h)" for h by (simp add: bucket_def c')
  have nk: "se_key ex \<noteq> key" if "fmlookup (sc_cells c) x = Some ex" for x ex using that D(4) [of key x] new by auto
  have entries: "entry_of c' k = Some x \<longleftrightarrow> (\<exists>ex. fmlookup (sc_cells c') x = Some ex \<and> se_key ex = k)" for k x
  proof (cases "x = e")
    case True
    have "entry_of c k \<noteq> Some e" using cell D(4) [of k e] by auto
    with True show ?thesis by (auto simp: en c'(1) new_entry_def)
  next
    case False
    with D(4) [of k x] nk [of x] new show ?thesis by (auto simp: en c'(1))
  qed
  have buckets: "distinct (bucket c' h) \<and> set (bucket c' h) = {x. \<exists>ex. fmlookup (sc_cells c') x = Some ex \<and> se_hash ex = h}" for h
    using D(6,7) [of h] cell unfolding b c'(1) by (auto simp: new_entry_def)
  have cc: "map (cell_cost c') (sc_lru c) = map (cell_cost c) (sc_lru c)" "cell_cost c' e = int cost"
    using fresh by (auto simp: cell_cost_def c'(1) new_entry_def cost)
  have "cache_core hash c'"
    unfolding cache_core_def
  proof (intro conjI)
    show "\<forall>k x. entry_of c' k = Some x \<longleftrightarrow> (\<exists>ex. fmlookup (sc_cells c') x = Some ex \<and> se_key ex = k)" using entries by blast
    show "\<forall>h. distinct (bucket c' h) \<and> set (bucket c' h) = {x. \<exists>ex. fmlookup (sc_cells c') x = Some ex \<and> se_hash ex = h}"
      using buckets by blast
    show "sc_bytes c' = sum_list (map (cell_cost c') (sc_lru c'))" unfolding c'(3,6) list.map sum_list.Cons cc using D(9) by simp
    show "\<forall>x ex. fmlookup (sc_cells c') x = Some ex \<longrightarrow> se_hash ex = hash (se_key ex)"
      using D(5) by (auto simp: c'(1) new_entry_def)
    show "\<forall>h. fmlookup (sc_prefixes c') h \<noteq> Some []" using D(8) by (simp add: c'(5))
    show "sc_closed c' \<longrightarrow> sc_entries c' = None" using D(11) opened by (auto simp: c')
  qed (use D(1,2,3) fresh in \<open>auto simp: c' e_def less_Suc_eq\<close>)
  moreover have "recency c' = new_entry hash key value # recency c"
    using fresh by (auto simp: recency_def c'(1,3))
  ultimately show "cache_core hash (push_entry hash key value cost c)"
    "recency (push_entry hash key value cost c) = new_entry hash key value # recency c" by (simp_all add: c'_def)
qed

subsection \<open>The operations on the list\<close>

definition limits :: "'v sessionMemoryCache \<Rightarrow> int \<times> int" where
  "limits c = (sc_maxEntries (initLocked c), sc_maxBytes (initLocked c))"

text \<open>A cache whose structures agree and which keeps its limits.\<close>

definition cache_ok :: "(string \<Rightarrow> 64 word) \<Rightarrow> 'v sessionMemoryCache \<Rightarrow> bool" where
  "cache_ok hash c \<longleftrightarrow> cache_core hash c \<and> within_limits c"

lemma init_limits:
  assumes "cache_ok hash c"
  shows "0 < sc_maxEntries (initLocked c)" and "0 < sc_maxBytes (initLocked c)"
  using assms by (auto simp: initLocked_def cache_ok_def within_limits_def sessionMemoryCacheMaxEntries_def sessionMemoryCacheMaxBytes_def)

lemma init_ok:
  assumes "cache_ok hash c" and "\<not> sc_closed c"
  shows "cache_ok hash (initLocked c)" and "recency (initLocked c) = recency c" and "sc_entries (initLocked c) \<noteq> None"
    and "sc_closed (initLocked c) = sc_closed c" and "limits (initLocked c) = limits c"
proof -
  have "cache_ok hash (initLocked c) \<and> recency (initLocked c) = recency c"
  proof (cases "sc_entries c")
    case None
    have core: "cache_core hash c" using assms by (simp add: cache_ok_def)
    have lru: "sc_lru c = []" and bytes: "sc_bytes c = 0" using coreD(9,10) [OF core] None by auto
    have "fmlookup (sc_cells c) e = None" for e using core_cell_iff [OF core, of e] lru by auto
    then show ?thesis
      using init_limits [OF assms(1)] coreD(2) [OF core] assms(2) None lru bytes
      by (auto simp: initLocked_def cache_ok_def cache_core_def within_limits_def recency_def entry_of_def bucket_def)
  next
    case (Some m)
    with assms show ?thesis by (simp add: initLocked_def)
  qed
  then show "cache_ok hash (initLocked c)" "recency (initLocked c) = recency c" by auto
qed (auto simp: initLocked_def limits_def)

lemma frame_limits: "same_frame c c' \<Longrightarrow> limits c' = limits c"
  by (auto simp: same_frame_def limits_def initLocked_def)

lemma frame_ok:
  assumes "cache_ok hash c" and "same_frame c c'" and "cache_core hash c'" and "length (recency c') \<le> length (recency c)"
    and "total_cost (recency c') \<le> total_cost (recency c)"
  shows "cache_ok hash c'"
proof -
  have "cache_core hash c" using assms(1) by (simp add: cache_ok_def)
  from recency_bytes [OF this] recency_bytes [OF assms(3)] assms(5) have "sc_bytes c' \<le> sc_bytes c" by simp
  then show ?thesis using assms by (auto simp: cache_ok_def within_limits_def same_frame_def)
qed

lemma without_le: "length (without k xs) \<le> length xs" "total_cost (without k xs) \<le> total_cost xs"
  by (simp_all add: without_def total_cost_filter)

lemma lookup_entry:
  assumes "cache_core hash c"
  shows "entry_of c key = None \<Longrightarrow> lookup key (recency c) = None"
    and "entry_of c key = Some e \<Longrightarrow> \<exists>en. fmlookup (sc_cells c) e = Some en \<and> se_key en = key \<and> lookup key (recency c) = Some en"
proof -
  assume "entry_of c key = None"
  then show "lookup key (recency c) = None"
    using coreD(4) [OF assms, of key] by (auto simp: lookup_def find_None_iff dest!: recency_nth [OF assms])
next
  assume "entry_of c key = Some e"
  then obtain en where en: "fmlookup (sc_cells c) e = Some en" "se_key en = key" using coreD(4) [OF assms] by blast
  have "lookup key (recency c) \<noteq> None" using recency_in [OF assms en(1)] en(2) by (auto simp: lookup_def find_None_iff)
  then obtain en' where en': "lookup key (recency c) = Some en'" by blast
  then have "en' \<in> set (recency c)" "se_key en' = key" by (auto simp: lookup_def find_Some_iff)
  with recency_nth [OF assms] en have "en' = en" using core_same_key [OF assms] by fastforce
  with en en' show "\<exists>en. fmlookup (sc_cells c) e = Some en \<and> se_key en = key \<and> lookup key (recency c) = Some en" by blast
qed

lemma without_absent: "lookup key xs = None \<Longrightarrow> without key xs = xs"
  by (auto simp: lookup_def without_def find_None_iff intro!: filter_True)

lemma removal_ok:
  assumes "cache_ok hash c"
  shows "\<exists>c'. Delete key c = Some c' \<and> cache_ok hash c' \<and> recency c' = without key (recency c) \<and> same_frame c c'"
proof (cases "entry_of c key")
  case None
  with lookup_entry(1) [of hash c] assms show ?thesis by (simp add: Delete_def cache_ok_def without_absent)
next
  case (Some e)
  have core: "cache_core hash c" using assms by (simp add: cache_ok_def)
  from lookup_entry(2) [OF core Some] obtain en where en: "fmlookup (sc_cells c) e = Some en" "se_key en = key" by blast
  obtain c' where "removeLocked e c = Some c'" "cache_core hash c'" "recency c' = without (se_key en) (recency c)" "same_frame c c'"
    using remove_ok [OF core en(1)] by metis
  moreover from this have "cache_ok hash c'"
    using frame_ok [OF assms, of c'] without_le(1) [of "se_key en" "recency c"] without_le(2) [of "se_key en" "recency c"] by simp
  ultimately show ?thesis using en Some by (simp add: Delete_def)
qed

lemma prefix_cost: "prefix xs ys \<Longrightarrow> total_cost xs \<le> total_cost ys"
  by (auto simp: prefix_def total_cost_def)

lemma store_ok:
  assumes ok: "cache_ok hash c" and live: "\<not> sc_closed c"
  shows "\<exists>c'. Store hash now key value c = Some c' \<and> cache_ok hash c' \<and> limits c' = limits c \<and> \<not> sc_closed c' \<and>
    recency c' = lru_store hash (fst (limits c)) (snd (limits c)) now key value (recency c)"
proof -
  let ?c0 = "initLocked c" and ?cost = "sessionMemoryCacheEntryCost + length key + sv_cost value"
  note init = init_ok [OF ok live]
  obtain c1 where c1: "Delete key ?c0 = Some c1" "cache_ok hash c1" "recency c1 = without key (recency ?c0)" "same_frame ?c0 c1"
    using removal_ok [OF init(1)] by blast
  have frame: "sc_maxEntries c1 = fst (limits c)" "sc_maxBytes c1 = snd (limits c)" "sc_entries c1 \<noteq> None" "\<not> sc_closed c1"
    using c1(4) init(3,4) live by (auto simp: same_frame_def limits_def)
  have lim: "limits c1 = limits c" using frame_limits [OF c1(4)] init(5) by simp
  have del: "(case entry_of ?c0 key of None \<Rightarrow> Some ?c0 | Some e \<Rightarrow> removeLocked e ?c0) = Some c1"
    using c1(1) by (simp add: Delete_def)
  have st: "Store hash now key value c =
      (if sc_maxBytes c1 < int ?cost \<or> \<not> time_after (sv_expiresAt value) now then Some c1
       else map_option (push_entry hash key value ?cost) (evict ?cost c1))"
    using live by (simp add: Store_def Let_def del)
  show ?thesis
  proof (cases "sc_maxBytes c1 < int ?cost \<or> \<not> time_after (sv_expiresAt value) now")
    case True
    with st c1 frame lim init(2) show ?thesis
      by (auto simp: lru_store_def new_entry_def Let_def time_defs)
  next
    case False
    then have fits: "int ?cost \<le> sc_maxBytes c1" and core: "cache_core hash c1" and pos: "0 < sc_maxEntries c1"
      using c1(2) frame(3) by (auto simp: cache_ok_def within_limits_def)
    obtain c2 where c2: "evict ?cost c1 = Some c2" "cache_core hash c2" "same_frame c1 c2"
      "recency c2 = make_room (sc_maxEntries c1) (sc_maxBytes c1) ?cost (recency c1)"
      using evict_ok [OF core pos fits] by blast
    note room = make_room_prefix [OF pos fits, of "recency c1", folded c2(4)]
    have "lookup key (recency c1) = None" unfolding c1(3) by (auto simp: lookup_def find_None_iff without_def)
    then have "lookup key (recency c2) = None"
      using room set_mono_prefix by (fastforce simp: lookup_def find_None_iff)
    with lookup_entry(2) [OF c2(2), of key] have new: "entry_of c2 key = None" by (cases "entry_of c2 key") auto
    have opened: "sc_entries c2 \<noteq> None" using c2(3) frame(3) by (auto simp: same_frame_def)
    let ?c3 = "push_entry hash key value ?cost c2"
    note push = push_ok [OF c2(2) opened new refl]
    have f3: "sc_maxEntries ?c3 = sc_maxEntries c2" "sc_maxBytes ?c3 = sc_maxBytes c2" "sc_closed ?c3 = sc_closed c2" "sc_timer ?c3"
      "sc_entries ?c3 \<noteq> None" "sc_sweep ?c3 = sc_sweep c2"
      using opened by (auto simp: push_entry_def Let_def)
    have f2: "sc_maxEntries c2 = sc_maxEntries c1" "sc_maxBytes c2 = sc_maxBytes c1" "sc_closed c2 = sc_closed c1"
      using c2(3) by (auto simp: same_frame_def)
    have "sc_bytes ?c3 = int (total_cost (recency ?c3))" by (rule recency_bytes [OF push(1)])
    then have "sc_bytes ?c3 \<le> sc_maxBytes c1" "int (length (sc_lru ?c3)) \<le> sc_maxEntries c1"
      using room recency_length [of ?c3] unfolding push(2) by (auto simp: roomy_def total_cost_def new_entry_def)
    then have "cache_ok hash ?c3"
      using push(1) f3 f2 pos fits unfolding cache_ok_def within_limits_def by (auto simp: sessionMemoryCacheEntryCost_def)
    moreover have "limits ?c3 = limits c" using f3 f2 frame by (auto simp: limits_def initLocked_def)
    moreover have "recency ?c3 = lru_store hash (fst (limits c)) (snd (limits c)) now key value (recency c)"
      using False c2(4) c1(3) init(2) frame unfolding push(2)
      by (auto simp: lru_store_def new_entry_def Let_def time_defs)
    ultimately show ?thesis using st False c2(1) f3 f2 frame by auto
  qed
qed

end
