(* ===== verification/Session_Cache_Runs.thy ===== *)
theory Session_Cache_Runs
  imports Session_Cache_LRU
begin

section \<open>Sequences of operations on the session cache\<close>

text \<open>
  Reading, sweeping, closing and the search for the longest prefix, and with them any sequence of
  operations from the zero value of the cache.
\<close>

subsection \<open>Reading and closing\<close>

lemma move_ok:
  assumes "cache_ok hash c" and e: "fmlookup (sc_cells c) e = Some en"
  shows "cache_ok hash (move_to_front e c)" and "recency (move_to_front e c) = en # without (se_key en) (recency c)"
    and "same_frame c (move_to_front e c)"
proof -
  let ?c' = "move_to_front e c" and ?f = "\<lambda>x. the (fmlookup (sc_cells c) x)"
  have core: "cache_core hash c" using assms(1) by (simp add: cache_ok_def)
  note D = coreD [OF core]
  have el: "e \<in> set (sc_lru c)" using core_cell_iff [OF core] e by auto
  have same: "sc_cells ?c' = sc_cells c" "sc_next ?c' = sc_next c" "sc_entries ?c' = sc_entries c" "sc_prefixes ?c' = sc_prefixes c"
    "sc_bytes ?c' = sc_bytes c" "sc_closed ?c' = sc_closed c" "sc_lru ?c' = e # remove1 e (sc_lru c)"
    "sc_maxEntries ?c' = sc_maxEntries c" "sc_maxBytes ?c' = sc_maxBytes c" "sc_timer ?c' = sc_timer c"
    by (simp_all add: move_to_front_def)
  have lru: "set (sc_lru ?c') = set (sc_lru c)" "distinct (sc_lru ?c')" using D(1) el by (auto simp: same set_remove1_eq)
  have cost: "cell_cost ?c' = cell_cost c" by (simp add: fun_eq_iff cell_cost_def same)
  have sum: "sum_list (map (cell_cost ?c') (sc_lru ?c')) = sum_list (map (cell_cost c) (sc_lru c))"
    unfolding cost same by (simp add: sum_remove1 [OF el])
  have "cache_core hash ?c'"
    using core lru sum unfolding cache_core_def by (simp add: entry_of_def bucket_def same) (use el in auto)
  moreover have "length (sc_lru ?c') = length (sc_lru c)"
    using el by (simp add: same length_remove1) (metis Suc_pred length_pos_if_in_set)
  ultimately show "cache_ok hash ?c'" using assms(1) el by (auto simp: cache_ok_def within_limits_def same)
  show "same_frame c ?c'" by (simp add: same_frame_def move_to_front_def)
  obtain c1 where c1: "removeLocked e c = Some c1" "recency c1 = without (se_key en) (recency c)" "sc_lru c1 = remove1 e (sc_lru c)"
    using remove_ok [OF core e] by metis
  have "sc_cells c1 = fmdrop e (sc_cells c)" using c1(1) e by (auto simp: removeLocked_def Let_def)
  then have "recency c1 = map ?f (remove1 e (sc_lru c))"
    using D(1) by (auto simp: recency_def c1(3) intro!: map_cong)
  then show "recency ?c' = en # without (se_key en) (recency c)" using c1(2) e by (simp add: recency_def same)
qed

lemma load_ok:
  assumes "cache_ok hash c"
  shows "\<exists>c'. Load now key c = Some (fst (lru_load now key (recency c)), c') \<and> cache_ok hash c' \<and> same_frame c c' \<and>
    recency c' = snd (lru_load now key (recency c))"
proof (cases "entry_of c key")
  case None
  with lookup_entry(1) [of hash c key] assms show ?thesis by (simp add: Load_def cache_ok_def lru_load_def)
next
  case (Some e)
  have core: "cache_core hash c" using assms by (simp add: cache_ok_def)
  from lookup_entry(2) [OF core Some] obtain en where
    en: "fmlookup (sc_cells c) e = Some en" "se_key en = key" "lookup key (recency c) = Some en" by blast
  show ?thesis
  proof (cases "se_expiresAt en \<le> now")
    case True
    obtain c' where c': "Delete key c = Some c'" "cache_ok hash c'" "recency c' = without key (recency c)" "same_frame c c'"
      using removal_ok [OF assms] by blast
    then have "removeLocked e c = Some c'" by (simp add: Delete_def Some)
    with True c' Some en show ?thesis by (simp add: Load_def lru_load_def time_defs)
  next
    case False
    with move_ok [OF assms en(1)] Some en show ?thesis by (simp add: Load_def lru_load_def time_defs)
  qed
qed

lemma close_ok:
  assumes "cache_ok hash c"
  shows "cache_ok hash (Close c)" and "recency (Close c) = []" and "limits (Close c) = limits c" and "sc_closed (Close c)"
proof -
  show "cache_ok hash (Close c)"
    by (auto simp: cache_ok_def cache_core_def within_limits_def Close_def entry_of_def bucket_def)
  show "limits (Close c) = limits c"
    using assms by (auto simp: cache_ok_def within_limits_def limits_def initLocked_def Close_def)
qed (simp_all add: Close_def recency_def)

subsection \<open>Sweeping\<close>

lemma removed_cells: "removeLocked e c = Some c' \<Longrightarrow> sc_cells c' = fmdrop e (sc_cells c)"
  by (auto simp: removeLocked_def Let_def split: option.splits)

definition keys_at :: "'v sessionMemoryCache \<Rightarrow> nat list \<Rightarrow> string set" where
  "keys_at c es = (\<lambda>e. se_key (the (fmlookup (sc_cells c) e))) ` set es"

lemma sweep_core:
  assumes "cache_core hash c" and "distinct es" and "set es \<subseteq> set (sc_lru c)"
  shows "\<exists>c'. sweep_elements now es c = Some c' \<and> cache_core hash c' \<and> same_frame c c' \<and>
    recency c' = filter (\<lambda>en. now < se_expiresAt en \<or> se_key en \<notin> keys_at c es) (recency c)"
  using assms
proof (induction es arbitrary: c)
  case Nil
  then show ?case by (simp add: keys_at_def)
next
  case (Cons e es)
  from Cons.prems core_cell obtain en where en: "fmlookup (sc_cells c) e = Some en" by (metis list.set_intros(1) subsetD)
  have key: "ex = en" if "ex \<in> set (recency c)" "se_key ex = se_key en" for ex
    using recency_nth [OF Cons.prems(1) that(1)] that(2) core_same_key [OF Cons.prems(1) _ en] en by fastforce
  show ?case
  proof (cases "se_expiresAt en \<le> now")
    case True
    obtain c1 where c1: "removeLocked e c = Some c1" "cache_core hash c1" "recency c1 = without (se_key en) (recency c)"
      "same_frame c c1" "sc_lru c1 = remove1 e (sc_lru c)" using remove_ok [OF Cons.prems(1) en] by metis
    have "set es \<subseteq> set (sc_lru c1)" using Cons.prems coreD(1) [OF Cons.prems(1)] c1(5) by (auto simp: set_remove1_eq)
    with Cons.IH [OF c1(2)] Cons.prems(2) obtain c2 where c2: "sweep_elements now es c1 = Some c2" "cache_core hash c2" "same_frame c1 c2"
      "recency c2 = filter (\<lambda>ex. now < se_expiresAt ex \<or> se_key ex \<notin> keys_at c1 es) (recency c1)" by auto
    have "keys_at c1 es = keys_at c es" using Cons.prems(2) unfolding keys_at_def removed_cells [OF c1(1)] by (intro image_cong) auto
    then have "recency c2 = filter (\<lambda>ex. now < se_expiresAt ex \<or> se_key ex \<notin> keys_at c (e # es)) (recency c)"
      using c2(4) c1(3) True en by (auto simp: without_def keys_at_def dest!: key intro!: filter_cong)
    with c1 c2 True en same_frame_trans [OF c1(4) c2(3)] show ?thesis by (simp add: time_defs)
  next
    case False
    with Cons.IH [OF Cons.prems(1)] Cons.prems obtain c2 where c2: "sweep_elements now es c = Some c2" "cache_core hash c2" "same_frame c c2"
      "recency c2 = filter (\<lambda>ex. now < se_expiresAt ex \<or> se_key ex \<notin> keys_at c es) (recency c)" by auto
    moreover have "\<dots> = filter (\<lambda>ex. now < se_expiresAt ex \<or> se_key ex \<notin> keys_at c (e # es)) (recency c)"
      using False en by (auto simp: keys_at_def dest!: key intro!: filter_cong)
    ultimately show ?thesis using False en by (simp add: time_defs)
  qed
qed

lemma timer_core: "cache_core hash (c\<lparr>sc_timer := b\<rparr>) = cache_core hash c" "recency (c\<lparr>sc_timer := b\<rparr>) = recency c"
  "limits (c\<lparr>sc_timer := b\<rparr>) = limits c"
proof -
  have "cell_cost (c\<lparr>sc_timer := b\<rparr>) = cell_cost c" by (simp add: fun_eq_iff cell_cost_def)
  then show "cache_core hash (c\<lparr>sc_timer := b\<rparr>) = cache_core hash c" by (simp add: cache_core_def entry_of_def bucket_def)
qed (simp_all add: recency_def limits_def initLocked_def)

lemma closed_empty: "cache_core hash c \<Longrightarrow> sc_closed c \<Longrightarrow> recency c = []"
  using coreD(10,11) by (fastforce simp: recency_def)

lemma cache_sweep_ok:
  assumes "cache_ok hash c"
  shows "\<exists>c'. sweepExpired now c = Some c' \<and> cache_ok hash c' \<and> limits c' = limits c \<and> sc_closed c' = sc_closed c \<and>
    recency c' = filter (\<lambda>en. now < se_expiresAt en) (recency c)"
proof -
  let ?c0 = "c\<lparr>sc_timer := False\<rparr>"
  have core: "cache_core hash c" "cache_core hash ?c0" using assms by (simp_all add: cache_ok_def timer_core)
  show ?thesis
  proof (cases "sc_closed c")
    case True
    with closed_empty [OF core(1)] assms coreD(10,11) [OF core(1)] show ?thesis
      by (auto simp: sweepExpired_def Let_def timer_core cache_ok_def within_limits_def)
  next
    case False
    obtain c1 where c1: "sweep_elements now (rev (sc_lru c)) ?c0 = Some c1" "cache_core hash c1" "same_frame ?c0 c1"
      "recency c1 = filter (\<lambda>en. now < se_expiresAt en \<or> se_key en \<notin> keys_at ?c0 (rev (sc_lru c))) (recency ?c0)"
      using sweep_core [OF core(2), of "rev (sc_lru c)" now] coreD(1) [OF core(1)] by auto
    have rec: "recency c1 = filter (\<lambda>en. now < se_expiresAt en) (recency c)"
      unfolding c1(4) timer_core by (rule filter_cong) (auto simp: keys_at_def recency_def)
    let ?c2 = "if 0 < ItemCount c1 then c1\<lparr>sc_timer := True\<rparr> else c1"
    have r2: "recency ?c2 = recency c1" "cache_core hash ?c2" "limits ?c2 = limits c1" using c1(2) by (simp_all add: timer_core)
    have count: "ItemCount c1 = length (sc_lru c1)" by (rule core_count [OF c1(2)])
    have "length (recency c1) \<le> length (recency c)" unfolding rec by (rule length_filter_le)
    then have len: "length (sc_lru c1) \<le> length (sc_lru c)" by simp
    have bytes: "sc_bytes c1 \<le> sc_bytes c"
      using recency_bytes [OF c1(2)] recency_bytes [OF core(1)] total_cost_filter [of "\<lambda>en. now < se_expiresAt en" "recency c"]
      unfolding rec by simp
    have "cache_ok hash ?c2"
      using r2(2) assms c1(3) len bytes count
      by (auto simp: cache_ok_def within_limits_def same_frame_def)
    moreover have "limits ?c2 = limits c" using r2(3) frame_limits [OF c1(3)] by (simp add: timer_core)
    moreover have "sc_closed ?c2 = sc_closed c" using c1(3) by (simp add: same_frame_def)
    moreover have "sweepExpired now c = Some ?c2" using False c1(1) by (simp add: sweepExpired_def Let_def)
    ultimately show ?thesis using r2(1) rec by auto
  qed
qed

subsection \<open>The longest prefix\<close>

lemma boundaries_Nil: "boundaries [] = [0]"
  by (simp add: boundaries_def)

lemma boundaries_Cons: "boundaries (b # bs) = (if b = CHR ''-'' then [0] else []) @ map Suc (boundaries bs)"
  by (simp add: boundaries_def upt_conv_Cons map_Suc_upt [symmetric] filter_map o_def del: upt_Suc)

lemma scan_chain_eq: "scan_chain hash w p i cs = map (\<lambda>n. (hash (w @ p @ take n cs), i + n)) (boundaries cs)"
  by (induction hash w p i cs rule: scan_chain.induct) (auto simp: boundaries_Nil boundaries_Cons)

lemma boundaries_le: "n \<in> set (boundaries chain) \<Longrightarrow> n \<le> length chain"
  by (auto simp: boundaries_def)

lemma prefix_hit_iff: "n \<le> length chain \<Longrightarrow> prefix_hit now ns chain n en \<longleftrightarrow> now < se_expiresAt en \<and> se_key en = ns @ take n chain"
  by (auto simp: prefix_hit_def time_defs has_prefix_def prefix_def)

lemma live_entry:
  assumes "cache_core hash c" and "fmlookup (sc_cells c) e = Some en" and "se_key en = key" and "now < se_expiresAt en"
  shows "live_at now key (recency c) = Some en"
proof -
  have "live_at now key (recency c) \<noteq> None"
    using recency_in [OF assms(1,2)] assms(3,4) by (auto simp: live_at_def find_None_iff)
  then obtain en' where en': "live_at now key (recency c) = Some en'" by blast
  then have "en' \<in> set (recency c)" "se_key en' = key" by (auto simp: live_at_def find_Some_iff)
  with recency_nth [OF assms(1)] assms(2,3) have "en' = en" using core_same_key [OF assms(1)] by fastforce
  with en' show ?thesis by simp
qed

lemma live_cell:
  assumes "cache_core hash c" and "live_at now key (recency c) = Some en"
  shows "\<exists>e. fmlookup (sc_cells c) e = Some en \<and> se_key en = key \<and> now < se_expiresAt en"
  using assms recency_nth [OF assms(1), of en] by (fastforce simp: live_at_def find_Some_iff)

definition hits :: "'v sessionMemoryCache \<Rightarrow> gotime \<Rightarrow> string \<Rightarrow> string \<Rightarrow> nat \<Rightarrow> nat \<Rightarrow> bool" where
  "hits c now ns chain n e = (case fmlookup (sc_cells c) e of None \<Rightarrow> False | Some entry \<Rightarrow> prefix_hit now ns chain n entry)"

lemma find_prefix_Cons: "find_prefix now ns chain c ((h, n) # ps) =
    (case find (hits c now ns chain n) (bucket c h) of Some e \<Rightarrow> Some (e, n) | None \<Rightarrow> find_prefix now ns chain c ps)"
  by (simp add: hits_def [abs_def])

lemma bucket_find:
  assumes c: "cache_core hash c" and n: "n \<le> length chain"
  shows "find (hits c now ns chain n) (bucket c (hash (ns @ take n chain))) = None \<Longrightarrow> live_at now (ns @ take n chain) (recency c) = None"
    and "find (hits c now ns chain n) (bucket c (hash (ns @ take n chain))) = Some e \<Longrightarrow>
      \<exists>en. fmlookup (sc_cells c) e = Some en \<and> live_at now (ns @ take n chain) (recency c) = Some en"
proof -
  let ?key = "ns @ take n chain"
  assume none: "find (hits c now ns chain n) (bucket c (hash ?key)) = None"
  show "live_at now ?key (recency c) = None"
  proof (rule ccontr)
    assume "live_at now ?key (recency c) \<noteq> None"
    then obtain en e where e: "fmlookup (sc_cells c) e = Some en" "se_key en = ?key" "now < se_expiresAt en"
      using live_cell [OF c] by blast
    then have "e \<in> set (bucket c (hash ?key))" using coreD(5,7) [OF c] by auto
    moreover have "hits c now ns chain n e" using e by (simp add: hits_def prefix_hit_iff [OF n])
    ultimately show False using none by (auto simp: find_None_iff)
  qed
next
  let ?key = "ns @ take n chain"
  assume "find (hits c now ns chain n) (bucket c (hash ?key)) = Some e"
  then have "hits c now ns chain n e" by (auto simp: find_Some_iff)
  then obtain en where "fmlookup (sc_cells c) e = Some en" "now < se_expiresAt en" "se_key en = ?key"
    by (auto simp: hits_def prefix_hit_iff [OF n] split: option.splits)
  then show "\<exists>en. fmlookup (sc_cells c) e = Some en \<and> live_at now ?key (recency c) = Some en"
    using live_entry [OF c] by blast
qed

lemma find_prefix_ok:
  assumes c: "cache_core hash c" and "\<forall>n \<in> set ns'. n \<le> length chain"
  shows "case find_prefix now ns chain c (map (\<lambda>n. (hash (ns @ take n chain), n)) ns') of
      None \<Rightarrow> find (\<lambda>n. live_at now (ns @ take n chain) (recency c) \<noteq> None) ns' = None
    | Some (e, n) \<Rightarrow> find (\<lambda>n. live_at now (ns @ take n chain) (recency c) \<noteq> None) ns' = Some n \<and>
        (\<exists>en. fmlookup (sc_cells c) e = Some en \<and> live_at now (ns @ take n chain) (recency c) = Some en)"
  using assms(2)
proof (induction ns')
  case (Cons n ns')
  then have n: "n \<le> length chain" by simp
  show ?case
  proof (cases "find (hits c now ns chain n) (bucket c (hash (ns @ take n chain)))")
    case None
    with bucket_find(1) [OF c n None] Cons show ?thesis
      by (simp add: find_prefix_Cons del: find_prefix.simps not_None_eq split: option.splits prod.splits)
  next
    case (Some e)
    with bucket_find(2) [OF c n Some] show ?thesis by (auto simp: find_prefix_Cons simp del: find_prefix.simps)
  qed
qed simp

lemma longest_ok:
  assumes "cache_ok hash c"
  shows "fst (longestDigestPrefix hash now ns chain c) = fst (lru_longest now ns chain (recency c))"
    and "recency (snd (longestDigestPrefix hash now ns chain c)) = snd (lru_longest now ns chain (recency c))"
    and "cache_ok hash (snd (longestDigestPrefix hash now ns chain c))"
    and "same_frame c (snd (longestDigestPrefix hash now ns chain c))"
proof -
  have c: "cache_core hash c" using assms by (simp add: cache_ok_def)
  let ?r = "longestDigestPrefix hash now ns chain c"
  have "fst ?r = fst (lru_longest now ns chain (recency c)) \<and> recency (snd ?r) = snd (lru_longest now ns chain (recency c)) \<and>
      cache_ok hash (snd ?r) \<and> same_frame c (snd ?r)"
  proof (cases "ItemCount c = 0")
    case True
    then have "recency c = []" using core_count [OF c] by (simp add: recency_def)
    moreover have "find (\<lambda>n. False) xs = None" for xs :: "nat list" by (simp add: find_None_iff)
    ultimately show ?thesis using True assms by (simp add: longestDigestPrefix_def lru_longest_def live_at_def)
  next
    case False
    have scan: "rev (scan_chain hash ns [] 0 chain) = map (\<lambda>n. (hash (ns @ take n chain), n)) (rev (boundaries chain))"
      by (simp add: scan_chain_eq rev_map)
    have "\<forall>n \<in> set (rev (boundaries chain)). n \<le> length chain" using boundaries_le by auto
    note found = find_prefix_ok [OF c this, of now ns, folded scan]
    show ?thesis
    proof (cases "find_prefix now ns chain c (rev (scan_chain hash ns [] 0 chain))")
      case None
      with found False assms show ?thesis by (simp add: longestDigestPrefix_def lru_longest_def)
    next
      case (Some p)
      obtain e n where p: "p = (e, n)" by (cases p)
      with found Some obtain en where en: "fmlookup (sc_cells c) e = Some en"
        "live_at now (ns @ take n chain) (recency c) = Some en"
        "find (\<lambda>n. live_at now (ns @ take n chain) (recency c) \<noteq> None) (rev (boundaries chain)) = Some n" by auto
      from move_ok [OF assms en(1)] en False Some p show ?thesis
        by (simp add: longestDigestPrefix_def lru_longest_def)
    qed
  qed
  then show "fst ?r = fst (lru_longest now ns chain (recency c))" "recency (snd ?r) = snd (lru_longest now ns chain (recency c))"
    "cache_ok hash (snd ?r)" "same_frame c (snd ?r)" by auto
qed

subsection \<open>Runs\<close>

datatype 'v cache_call = CStore gotime string "'v sessionMemoryValue" | CLoad gotime string | CDelete string
  | CSweep gotime | CClose | CFind gotime string string

datatype 'v cache_answer = Done | Value "'v option" | Match "('v \<times> string) option"

fun cache_step :: "(string \<Rightarrow> 64 word) \<Rightarrow> 'v cache_call \<Rightarrow> 'v sessionMemoryCache \<Rightarrow>
    ('v cache_answer \<times> 'v sessionMemoryCache) option" where
  "cache_step hash (CStore now key value) c = map_option (Pair Done) (Store hash now key value c)"
| "cache_step hash (CLoad now key) c = map_option (map_prod Value id) (Load now key c)"
| "cache_step hash (CDelete key) c = map_option (Pair Done) (Delete key c)"
| "cache_step hash (CSweep now) c = map_option (Pair Done) (sweepExpired now c)"
| "cache_step hash CClose c = Some (Done, Close c)"
| "cache_step hash (CFind now ns chain) c = Some (map_prod Match id (longestDigestPrefix hash now ns chain c))"

fun lru_step :: "(string \<Rightarrow> 64 word) \<Rightarrow> int \<times> int \<Rightarrow> 'v cache_call \<Rightarrow> bool \<times> 'v sessionMemoryEntry list \<Rightarrow>
    'v cache_answer \<times> bool \<times> 'v sessionMemoryEntry list" where
  "lru_step hash lim (CStore now key value) (closed, xs) =
     (Done, closed, if closed then xs else lru_store hash (fst lim) (snd lim) now key value xs)"
| "lru_step hash lim (CLoad now key) (closed, xs) = (Value (fst (lru_load now key xs)), closed, snd (lru_load now key xs))"
| "lru_step hash lim (CDelete key) (closed, xs) = (Done, closed, without key xs)"
| "lru_step hash lim (CSweep now) (closed, xs) = (Done, closed, filter (\<lambda>en. now < se_expiresAt en) xs)"
| "lru_step hash lim CClose (closed, xs) = (Done, True, [])"
| "lru_step hash lim (CFind now ns chain) (closed, xs) =
     (Match (fst (lru_longest now ns chain xs)), closed, snd (lru_longest now ns chain xs))"

fun cache_run :: "(string \<Rightarrow> 64 word) \<Rightarrow> 'v cache_call list \<Rightarrow> 'v sessionMemoryCache \<Rightarrow>
    ('v cache_answer list \<times> 'v sessionMemoryCache) option" where
  "cache_run hash [] c = Some ([], c)"
| "cache_run hash (x # xs) c =
     (case cache_step hash x c of None \<Rightarrow> None | Some (a, c1) \<Rightarrow> map_option (\<lambda>(ans, c2). (a # ans, c2)) (cache_run hash xs c1))"

fun lru_run :: "(string \<Rightarrow> 64 word) \<Rightarrow> int \<times> int \<Rightarrow> 'v cache_call list \<Rightarrow> bool \<times> 'v sessionMemoryEntry list \<Rightarrow>
    'v cache_answer list \<times> bool \<times> 'v sessionMemoryEntry list" where
  "lru_run hash lim [] s = ([], s)"
| "lru_run hash lim (x # xs) s = (case lru_step hash lim x s of (a, s1) \<Rightarrow> (case lru_run hash lim xs s1 of (ans, s2) \<Rightarrow> (a # ans, s2)))"

definition abs_cache :: "'v sessionMemoryCache \<Rightarrow> bool \<times> 'v sessionMemoryEntry list" where
  "abs_cache c = (sc_closed c, recency c)"

lemma cache_step_ok:
  assumes "cache_ok hash c"
  shows "\<exists>c'. cache_step hash call c = Some (fst (lru_step hash (limits c) call (abs_cache c)), c') \<and> cache_ok hash c' \<and>
    limits c' = limits c \<and> abs_cache c' = snd (lru_step hash (limits c) call (abs_cache c))"
proof (cases call)
  case (CStore now key v)
  show ?thesis
  proof (cases "sc_closed c")
    case True
    with CStore assms show ?thesis by (simp add: abs_cache_def Store_def)
  next
    case False
    with store_ok [OF assms False, of now key v] CStore show ?thesis by (auto simp: abs_cache_def)
  qed
next
  case (CLoad now key)
  obtain c' where c': "Load now key c = Some (fst (lru_load now key (recency c)), c')" "cache_ok hash c'" "same_frame c c'"
    "recency c' = snd (lru_load now key (recency c))" using load_ok [OF assms, of now key] by blast
  show ?thesis using c' CLoad frame_limits [OF c'(3)] by (simp add: abs_cache_def same_frame_def)
next
  case (CDelete key)
  obtain c' where c': "Delete key c = Some c'" "cache_ok hash c'" "recency c' = without key (recency c)" "same_frame c c'"
    using removal_ok [OF assms, of key] by blast
  show ?thesis using c' CDelete frame_limits [OF c'(4)] by (simp add: abs_cache_def same_frame_def)
next
  case (CSweep now)
  with cache_sweep_ok [OF assms, of now] show ?thesis by (auto simp: abs_cache_def)
next
  case CClose
  with close_ok [OF assms] show ?thesis by (simp add: abs_cache_def)
next
  case (CFind now ns chain)
  note ok = longest_ok [OF assms, of now ns chain]
  show ?thesis using CFind ok frame_limits [OF ok(4)]
    by (cases "longestDigestPrefix hash now ns chain c") (simp add: abs_cache_def same_frame_def)
qed

lemma run_refines:
  assumes "cache_ok hash c"
  shows "\<exists>c'. cache_run hash calls c = Some (fst (lru_run hash (limits c) calls (abs_cache c)), c') \<and> cache_ok hash c' \<and>
    limits c' = limits c \<and> abs_cache c' = snd (lru_run hash (limits c) calls (abs_cache c))"
  using assms
proof (induction calls arbitrary: c)
  case (Cons call calls)
  obtain c1 where c1: "cache_step hash call c = Some (fst (lru_step hash (limits c) call (abs_cache c)), c1)" "cache_ok hash c1"
    "limits c1 = limits c" "abs_cache c1 = snd (lru_step hash (limits c) call (abs_cache c))"
    using cache_step_ok [OF Cons.prems] by blast
  with Cons.IH [OF c1(2)] show ?case by (auto simp: case_prod_beta)
qed simp

definition effective :: "int \<Rightarrow> int \<Rightarrow> int" where
  "effective dflt n = (if n \<le> 0 then dflt else n)"

lemma zero_ok: "cache_ok hash (zero_cache maxE maxB sw)"
  "limits (zero_cache maxE maxB sw) = (effective sessionMemoryCacheMaxEntries maxE, effective sessionMemoryCacheMaxBytes maxB)"
  "abs_cache (zero_cache maxE maxB sw) = (False, [])"
  by (simp_all add: zero_cache_def cache_ok_def cache_core_def within_limits_def entry_of_def bucket_def limits_def initLocked_def
      effective_def abs_cache_def recency_def)

text \<open>
  Property C28. The cache with its map, hash buckets and linked list is a recency list: for every
  sequence of stores, loads, deletions, sweeps, searches and closings, whatever the hash function,
  no operation meets a nil or removed element, and all answers and the entries held at the end are
  those of the list, in which a store drops the least recently used entries that leave no room.
\<close>

theorem session_cache_refines:
  "\<exists>c. cache_run hash calls (zero_cache maxE maxB sw) =
       Some (fst (lru_run hash (effective sessionMemoryCacheMaxEntries maxE, effective sessionMemoryCacheMaxBytes maxB) calls (False, [])), c) \<and>
     (sc_closed c, recency c) =
       snd (lru_run hash (effective sessionMemoryCacheMaxEntries maxE, effective sessionMemoryCacheMaxBytes maxB) calls (False, []))"
  using run_refines [OF zero_ok(1), of hash calls maxE maxB sw, unfolded zero_ok(2,3), unfolded abs_cache_def] by blast

text \<open>
  After every sequence of operations the number of entries and the bytes they are
  charged stay within the configured or default limits, the byte counter is the sum of the charges,
  and a cache that is not empty has its clean-up timer running.
\<close>

theorem session_cache_bounded:
  "\<exists>ans c. cache_run hash calls (zero_cache maxE maxB sw) = Some (ans, c) \<and>
     int (ItemCount c) \<le> effective sessionMemoryCacheMaxEntries maxE \<and>
     sc_bytes c = int (total_cost (recency c)) \<and> sc_bytes c \<le> effective sessionMemoryCacheMaxBytes maxB \<and>
     length (recency c) = ItemCount c \<and> (ItemCount c = 0 \<or> sc_timer c)"
proof -
  obtain ans c where c: "cache_run hash calls (zero_cache maxE maxB sw) = Some (ans, c)" "cache_ok hash c"
    "limits c = (effective sessionMemoryCacheMaxEntries maxE, effective sessionMemoryCacheMaxBytes maxB)"
    using run_refines [OF zero_ok(1), of hash calls maxE maxB sw] unfolding zero_ok(2) by blast
  have core: "cache_core hash c" "within_limits c" using c(2) by (auto simp: cache_ok_def)
  have pos: "0 \<le> effective sessionMemoryCacheMaxEntries maxE" "0 \<le> effective sessionMemoryCacheMaxBytes maxB"
    by (simp_all add: effective_def sessionMemoryCacheMaxEntries_def sessionMemoryCacheMaxBytes_def)
  note count = core_count [OF core(1)]
  have "int (ItemCount c) \<le> effective sessionMemoryCacheMaxEntries maxE \<and> sc_bytes c \<le> effective sessionMemoryCacheMaxBytes maxB"
  proof (cases "sc_entries c")
    case None
    with coreD(9,10) [OF core(1)] pos count show ?thesis by simp
  next
    case (Some m)
    with core(2) c(3) count show ?thesis by (auto simp: within_limits_def limits_def initLocked_def)
  qed
  with c(1) core count recency_bytes [OF core(1)] show ?thesis
    by (auto simp: within_limits_def)
qed

end
