(* ===== verification/Session_Store.thy ===== *)
theory Session_Store
  imports Session_Cache_Runs
begin

section \<open>What the users of the session cache rely on\<close>

text \<open>
  The contract between the session cache and the stores built on it: which value is held under a key,
  what each operation may change, and what a search returns. The lemmas of the locale are those the
  digest sessions and the response bindings need.
\<close>

locale session_store =
  fixes good :: "'c \<Rightarrow> bool"
    and held :: "'c \<Rightarrow> string \<Rightarrow> ('v \<times> gotime) option"
    and fits :: "'c \<Rightarrow> string \<Rightarrow> 'v sessionMemoryValue \<Rightarrow> bool"
    and put :: "gotime \<Rightarrow> string \<Rightarrow> 'v sessionMemoryValue \<Rightarrow> 'c \<Rightarrow> 'c option"
    and get :: "gotime \<Rightarrow> string \<Rightarrow> 'c \<Rightarrow> ('v option \<times> 'c) option"
    and remove :: "string \<Rightarrow> 'c \<Rightarrow> 'c option"
    and search :: "gotime \<Rightarrow> string \<Rightarrow> string \<Rightarrow> 'c \<Rightarrow> ('v \<times> string) option \<times> 'c"
  assumes put_law: "good c \<Longrightarrow> \<exists>c'. put now k v c = Some c' \<and> good c' \<and>
      (\<forall>k'. held c' k' = None \<or> held c' k' = (if k' = k then Some (sv_data v, sv_expiresAt v) else held c k')) \<and>
      (fits c k v \<longrightarrow> now < sv_expiresAt v \<longrightarrow> held c' k = Some (sv_data v, sv_expiresAt v)) \<and>
      (\<forall>k' v'. fits c' k' v' = fits c k' v')"
    and get_law: "good c \<Longrightarrow> \<exists>c'. get now k c =
        Some (case held c k of None \<Rightarrow> None | Some (d, x) \<Rightarrow> if now < x then Some d else None, c') \<and> good c' \<and>
      (\<forall>k'. held c' k' = (if k' = k \<and> (\<forall>d x. held c k = Some (d, x) \<longrightarrow> x \<le> now) then None else held c k')) \<and>
      (\<forall>k' v'. fits c' k' v' = fits c k' v')"
    and remove_law: "good c \<Longrightarrow> \<exists>c'. remove k c = Some c' \<and> good c' \<and>
      (\<forall>k'. held c' k' = (if k' = k then None else held c k')) \<and> (\<forall>k' v'. fits c' k' v' = fits c k' v')"
    and search_law: "good c \<Longrightarrow> good (snd (search now ns chain c)) \<and> held (snd (search now ns chain c)) = held c \<and>
      fst (search now ns chain c) =
        map_option (\<lambda>n. (fst (the (held c (ns @ take n chain))), take n chain))
          (find (\<lambda>n. \<exists>d x. held c (ns @ take n chain) = Some (d, x) \<and> now < x) (rev (boundaries chain)))"
begin

text \<open>A search right after a store finds the stored prefix or a longer one.\<close>

lemma search_stored:
  assumes "good c" and "held c (ns @ chain) = Some (d, x)" and "now < x" and "request = chain \<or> prefix (chain @ ''-'') request"
  shows "\<exists>d' m. fst (search now ns request c) = Some (d', m) \<and> prefix chain m \<and> prefix m request \<and> (m = chain \<longrightarrow> d' = d)"
proof -
  let ?p = "\<lambda>n. \<exists>d x. held c (ns @ take n request) = Some (d, x) \<and> now < x"
  let ?n = "length chain"
  have tk: "take ?n request = chain" using assms(4) by (auto simp: prefix_def)
  have "?n \<in> set (boundaries request)"
    using assms(4) by (auto simp: boundaries_def prefix_def nth_append)
  moreover have "?p ?n" using assms(2,3) tk by auto
  ultimately have "find ?p (rev (boundaries request)) \<noteq> None" unfolding find_None_iff set_rev by blast
  then obtain n where n: "find ?p (rev (boundaries request)) = Some n" by blast
  have sorted: "sorted (boundaries request)"
    by (auto simp: boundaries_def sorted_append intro: sorted_filter [of id, simplified])
  obtain i where i: "i < length (boundaries request)" "rev (boundaries request) ! i = n"
      "\<forall>j < i. \<not> ?p (rev (boundaries request) ! j)"
    using n by (auto simp: find_Some_iff)
  obtain j where j: "j < length (boundaries request)" "rev (boundaries request) ! j = ?n"
    using \<open>?n \<in> set (boundaries request)\<close> by (metis in_set_conv_nth length_rev set_rev)
  have "i \<le> j" using i(3) j(2) \<open>?p ?n\<close> by (metis leI)
  then have "?n \<le> n"
    using sorted_nth_mono [OF sorted, of "length (boundaries request) - 1 - j" "length (boundaries request) - 1 - i"] i(1,2) j
    by (simp add: rev_nth)
  moreover have "n \<in> set (boundaries request)" using i(1,2) by (metis length_rev nth_mem set_rev)
  then have "n \<le> length request" by (rule boundaries_le)
  ultimately have "prefix chain (take n request)" using tk by (metis prefix_def take_add le_add_diff_inverse)
  moreover have "take n request = chain \<Longrightarrow> fst (the (held c (ns @ take n request))) = d" using assms(2) by simp
  moreover have "fst (search now ns request c) = Some (fst (the (held c (ns @ take n request))), take n request)"
    using search_law [OF assms(1), of now ns request] n by simp
  ultimately show ?thesis by (auto simp: take_is_prefix)
qed

text \<open>What a search returns is held under the namespace and the returned prefix.\<close>

lemma search_held:
  assumes "good c" and "fst (search now ns request c) = Some (d, m)"
  shows "\<exists>x. held c (ns @ m) = Some (d, x) \<and> now < x"
proof -
  obtain n where n: "find (\<lambda>n. \<exists>d x. held c (ns @ take n request) = Some (d, x) \<and> now < x) (rev (boundaries request)) = Some n"
    "d = fst (the (held c (ns @ take n request)))" "m = take n request"
    using search_law [OF assms(1), of now ns request] unfolding assms(2) by (cases "find (\<lambda>n. \<exists>d x. held c (ns @ take n request) = Some (d, x) \<and> now < x) (rev (boundaries request))") auto
  then show ?thesis by (auto simp: find_Some_iff)
qed

text \<open>A search returns nothing only when no prefix on a boundary is held alive.\<close>

lemma search_none:
  assumes "good c" and "fst (search now ns request c) = None" and "n \<in> set (boundaries request)"
    and "held c (ns @ take n request) = Some (d, x)"
  shows "x \<le> now"
  using search_law [OF assms(1), of now ns request] assms(2-4) by (fastforce simp: find_None_iff)

end

subsection \<open>The session cache meets the contract\<close>

definition cache_held :: "'v sessionMemoryCache \<Rightarrow> string \<Rightarrow> ('v \<times> gotime) option" where
  "cache_held c k = map_option (\<lambda>en. (se_value en, se_expiresAt en)) (lookup k (recency c))"

definition cache_fits :: "'v sessionMemoryCache \<Rightarrow> string \<Rightarrow> 'v sessionMemoryValue \<Rightarrow> bool" where
  "cache_fits c k v \<longleftrightarrow> \<not> sc_closed c \<and> int (sessionMemoryCacheEntryCost + length k + sv_cost v) \<le> snd (limits c)"

lemma lookup_without: "lookup k' (without k xs) = (if k' = k then None else lookup k' xs)"
  by (induction xs) (auto simp: lookup_def without_def)

lemma lookup_Cons: "lookup k (en # xs) = (if se_key en = k then Some en else lookup k xs)"
  by (simp add: lookup_def)

lemma lookup_prefix: "prefix xs ys \<Longrightarrow> lookup k xs = None \<or> lookup k xs = lookup k ys"
proof (induction xs arbitrary: ys)
  case (Cons x xs)
  then obtain zs where "ys = x # zs" "prefix xs zs" by (cases ys) auto
  with Cons.IH [of zs] show ?case by (auto simp: lookup_Cons)
qed (simp add: lookup_def)

lemma lookup_store:
  assumes "0 < maxE"
  shows "lookup k' (lru_store hash maxE maxB now k v xs) = None \<or>
    lookup k' (lru_store hash maxE maxB now k v xs) = (if k' = k then Some (new_entry hash k v) else lookup k' xs)"
proof (cases "maxB < int (se_cost (new_entry hash k v)) \<or> se_expiresAt (new_entry hash k v) \<le> now")
  case True
  then show ?thesis by (simp add: lru_store_def Let_def lookup_without)
next
  case False
  then have "prefix (make_room maxE maxB (se_cost (new_entry hash k v)) (without k xs)) (without k xs)"
    using make_room_prefix [OF assms, of "se_cost (new_entry hash k v)" maxB "without k xs"] by linarith
  from lookup_prefix [OF this, of k'] False show ?thesis
    by (auto simp: lru_store_def Let_def lookup_Cons lookup_without new_entry_def)
qed

lemma live_lookup:
  assumes "distinct (map se_key xs)"
  shows "live_at now key xs = (case lookup key xs of None \<Rightarrow> None | Some en \<Rightarrow> if now < se_expiresAt en then Some en else None)"
  using assms
proof (induction xs)
  case (Cons en xs)
  have "lookup key xs = None" if "se_key en = key"
    using Cons.prems that by (auto simp: lookup_def find_None_iff image_iff)
  with Cons show ?case by (auto simp: live_at_def lookup_Cons)
qed (simp add: live_at_def lookup_def)

lemma cache_put:
  assumes "cache_ok hash c"
  shows "\<exists>c'. Store hash now k v c = Some c' \<and> cache_ok hash c' \<and>
    (\<forall>k'. cache_held c' k' = None \<or> cache_held c' k' = (if k' = k then Some (sv_data v, sv_expiresAt v) else cache_held c k')) \<and>
    (cache_fits c k v \<longrightarrow> now < sv_expiresAt v \<longrightarrow> cache_held c' k = Some (sv_data v, sv_expiresAt v)) \<and>
    (\<forall>k' v'. cache_fits c' k' v' = cache_fits c k' v')"
proof (cases "sc_closed c")
  case True
  with assms closed_empty [of hash c] show ?thesis
    by (auto simp: Store_def cache_ok_def cache_held_def lookup_def cache_fits_def)
next
  case False
  obtain c' where c': "Store hash now k v c = Some c'" "cache_ok hash c'" "limits c' = limits c" "\<not> sc_closed c'"
    "recency c' = lru_store hash (fst (limits c)) (snd (limits c)) now k v (recency c)"
    using store_ok [OF assms False] by blast
  have pos: "0 < fst (limits c)" using init_limits [OF assms] by (simp add: limits_def)
  have "cache_held c' k' = None \<or> cache_held c' k' = (if k' = k then Some (sv_data v, sv_expiresAt v) else cache_held c k')" for k'
    using lookup_store [OF pos, of k' hash "snd (limits c)" now k v "recency c"] unfolding cache_held_def c'(5)
    by (auto simp: new_entry_def)
  moreover have "cache_held c' k = Some (sv_data v, sv_expiresAt v)" if "cache_fits c k v" "now < sv_expiresAt v"
    using that unfolding cache_held_def c'(5) by (auto simp: lru_store_def Let_def lookup_Cons new_entry_def cache_fits_def)
  moreover have "cache_fits c' k' v' = cache_fits c k' v'" for k' v' using False c'(3,4) by (simp add: cache_fits_def)
  ultimately show ?thesis using c'(1,2) by blast
qed

lemma frame_fits: "same_frame c c' \<Longrightarrow> cache_fits c' k v = cache_fits c k v"
  using frame_limits [of c c'] by (auto simp: cache_fits_def same_frame_def)

lemma cache_get:
  assumes "cache_ok hash c"
  shows "\<exists>c'. Load now k c = Some (case cache_held c k of None \<Rightarrow> None | Some (d, x) \<Rightarrow> if now < x then Some d else None, c') \<and>
    cache_ok hash c' \<and>
    (\<forall>k'. cache_held c' k' = (if k' = k \<and> (\<forall>d x. cache_held c k = Some (d, x) \<longrightarrow> x \<le> now) then None else cache_held c k')) \<and>
    (\<forall>k' v'. cache_fits c' k' v' = cache_fits c k' v')"
proof -
  obtain c' where c': "Load now k c = Some (fst (lru_load now k (recency c)), c')" "cache_ok hash c'" "same_frame c c'"
    "recency c' = snd (lru_load now k (recency c))" using load_ok [OF assms] by blast
  show ?thesis
  proof (cases "lookup k (recency c)")
    case None
    with c' show ?thesis by (auto simp: cache_held_def lru_load_def frame_fits)
  next
    case (Some en)
    then have "se_key en = k" by (auto simp: lookup_def find_Some_iff)
    with c' Some show ?thesis by (auto simp: cache_held_def lru_load_def frame_fits lookup_without lookup_Cons)
  qed
qed

lemma cache_remove:
  assumes "cache_ok hash c"
  shows "\<exists>c'. Delete k c = Some c' \<and> cache_ok hash c' \<and>
    (\<forall>k'. cache_held c' k' = (if k' = k then None else cache_held c k')) \<and> (\<forall>k' v'. cache_fits c' k' v' = cache_fits c k' v')"
proof -
  obtain c' where c': "Delete k c = Some c'" "cache_ok hash c'" "recency c' = without k (recency c)" "same_frame c c'"
    using removal_ok [OF assms] by blast
  then show ?thesis by (intro exI [of _ c']) (simp add: cache_held_def lookup_without frame_fits)
qed

lemma cache_search:
  assumes "cache_ok hash c"
  shows "cache_ok hash (snd (longestDigestPrefix hash now ns chain c)) \<and>
    cache_held (snd (longestDigestPrefix hash now ns chain c)) = cache_held c \<and>
    fst (longestDigestPrefix hash now ns chain c) =
      map_option (\<lambda>n. (fst (the (cache_held c (ns @ take n chain))), take n chain))
        (find (\<lambda>n. \<exists>d x. cache_held c (ns @ take n chain) = Some (d, x) \<and> now < x) (rev (boundaries chain)))"
proof -
  note ok = longest_ok [OF assms, of now ns chain]
  have core: "cache_core hash c" using assms by (simp add: cache_ok_def)
  note live = live_lookup [OF distinct_keys [OF core]]
  have p: "live_at now k (recency c) \<noteq> None \<longleftrightarrow> (\<exists>d x. cache_held c k = Some (d, x) \<and> now < x)" for k
    by (auto simp: live cache_held_def split: option.splits)
  show ?thesis
  proof (cases "find (\<lambda>n. \<exists>d x. cache_held c (ns @ take n chain) = Some (d, x) \<and> now < x) (rev (boundaries chain))")
    case None
    then have "lru_longest now ns chain (recency c) = (None, recency c)" by (simp add: lru_longest_def p del: not_None_eq)
    with ok None show ?thesis by (simp add: cache_held_def fun_eq_iff)
  next
    case (Some n)
    then obtain d x where dx: "cache_held c (ns @ take n chain) = Some (d, x)" "now < x" by (auto simp: find_Some_iff)
    then obtain en where en: "live_at now (ns @ take n chain) (recency c) = Some en" "lookup (ns @ take n chain) (recency c) = Some en"
      "d = se_value en" by (auto simp: live cache_held_def)
    then have "se_key en = ns @ take n chain" by (auto simp: lookup_def find_Some_iff)
    moreover have "lru_longest now ns chain (recency c) = (Some (se_value en, take n chain), en # without (se_key en) (recency c))"
      using Some en(1) by (simp add: lru_longest_def p del: not_None_eq)
    ultimately show ?thesis using ok Some dx(1) en by (auto simp: cache_held_def fun_eq_iff lookup_Cons lookup_without)
  qed
qed

interpretation sessions: session_store "cache_ok hash" cache_held cache_fits "Store hash" Load Delete "longestDigestPrefix hash" for hash
  by unfold_locales (rule cache_put cache_get cache_remove cache_search, assumption)+

end
