(* ===== verification/Digest_Sessions.thy ===== *)
theory Digest_Sessions
  imports Session_Store App_Errors
begin

section \<open>Digest sessions\<close>

text \<open>
  \<open>service/digest_session_store.go\<close> finds the account that served an earlier, shorter version of a
  conversation by the longest stored prefix of its digest chain, and
  \<open>service/openai_messages_digest_session.go\<close> does the same for prompt cache keys. The chains are built
  in \<open>service/gemini_session.go\<close> and \<open>service/openai_messages_digest_session.go\<close>; the digest of a
  message (xxhash in base 36) is the parameter \<open>shortHash\<close>.
\<close>

subsection \<open>The store\<close>

record sessionEntry =
  sn_uuid :: string
  sn_accountID :: int

record DigestSessionStore =
  ds_cache :: "sessionEntry sessionMemoryCache"
  ds_ttl :: duration

definition digestSessionTTL :: duration where
  "digestSessionTTL = 5 * minute"

definition NewDigestSessionStore :: DigestSessionStore where
  "NewDigestSessionStore = \<lparr>ds_cache = zero_cache 0 0 0, ds_ttl = digestSessionTTL\<rparr>"

definition sessionCost :: "sessionEntry \<Rightarrow> nat" where
  "sessionCost e = length (sn_uuid e)"

definition session_value :: "sessionEntry \<Rightarrow> gotime \<Rightarrow> sessionEntry sessionMemoryValue" where
  "session_value e t = \<lparr>sv_data = e, sv_expiresAt = t, sv_cost = sessionCost e\<rparr>"

definition buildNS :: "int \<Rightarrow> string \<Rightarrow> string" where
  "buildNS groupID prefixHash = Itoa groupID @ '':'' @ prefixHash @ ''|''"

text \<open>\<open>t1\<close> is the time from which the entry is dated, \<open>t2\<close> the time the cache reads.\<close>

definition Save :: "(string \<Rightarrow> 64 word) \<Rightarrow> gotime \<Rightarrow> gotime \<Rightarrow> int \<Rightarrow> string \<Rightarrow> string \<Rightarrow> string \<Rightarrow> int \<Rightarrow> string \<Rightarrow>
    DigestSessionStore \<Rightarrow> DigestSessionStore option" where
  "Save hash t1 t2 groupID prefixHash digestChain uuid accountID oldDigestChain s =
     (if digestChain = [] then Some s
      else (let ns = buildNS groupID prefixHash;
                ttl = (if ds_ttl s \<le> 0 then digestSessionTTL else ds_ttl s);
                entry = \<lparr>sn_uuid = uuid, sn_accountID = accountID\<rparr>
            in (case Store hash t2 (ns @ digestChain) (session_value entry (t1 + ttl)) (ds_cache s) of
                  None \<Rightarrow> None
                | Some c \<Rightarrow>
                    map_option (\<lambda>c'. s\<lparr>ds_cache := c'\<rparr>)
                      (if oldDigestChain \<noteq> [] \<and> oldDigestChain \<noteq> digestChain then Delete (ns @ oldDigestChain) c else Some c))))"

definition Find :: "(string \<Rightarrow> 64 word) \<Rightarrow> gotime \<Rightarrow> int \<Rightarrow> string \<Rightarrow> string \<Rightarrow> DigestSessionStore \<Rightarrow>
    (string \<times> int \<times> string \<times> bool) \<times> DigestSessionStore" where
  "Find hash now groupID prefixHash digestChain s =
     (if digestChain = [] then (([], 0, [], False), s)
      else (case longestDigestPrefix hash now (buildNS groupID prefixHash) digestChain (ds_cache s) of
              (Some (e, chain), c) \<Rightarrow> ((sn_uuid e, sn_accountID e, chain, True), s\<lparr>ds_cache := c\<rparr>)
            | (None, c) \<Rightarrow> (([], 0, [], False), s\<lparr>ds_cache := c\<rparr>)))"

subsection \<open>Digest chains\<close>

text \<open>
  A request is the JSON of its system instruction, if any, and the role and JSON of each message;
  \<open>strings.Join\<close> puts a dash between the parts.
\<close>

fun join_dash :: "string list \<Rightarrow> string" where
  "join_dash [] = []"
| "join_dash [p] = p"
| "join_dash (p # ps) = p @ ''-'' @ join_dash ps"

definition BuildGeminiDigestChain :: "(string \<Rightarrow> string) \<Rightarrow> string option \<Rightarrow> (string \<times> string) list \<Rightarrow> string" where
  "BuildGeminiDigestChain shortHash systemParts contents =
     join_dash ((case systemParts of None \<Rightarrow> [] | Some j \<Rightarrow> [''s:'' @ shortHash j]) @
       map (\<lambda>(role, j). (if role = ''model'' then ''m'' else ''u'') @ '':'' @ shortHash j) contents)"

definition buildOpenAICompatAnthropicDigestChain :: "(string \<Rightarrow> string) \<Rightarrow> string \<Rightarrow> (string \<times> string) list \<Rightarrow> string" where
  "buildOpenAICompatAnthropicDigestChain shortHash sys messages =
     join_dash ((if sys \<noteq> [] \<and> trim_space sys \<noteq> [] \<and> trim_space sys \<noteq> ''null'' then [''s:'' @ shortHash sys] else []) @
       map (\<lambda>(role, content). (if trim_space role = ''assistant'' then ''a'' else ''u'') @ '':'' @ shortHash content)
         (filter (\<lambda>(role, content). content \<noteq> [] \<and> trim_space content \<noteq> []) messages))"

subsection \<open>Session keys and values\<close>

definition geminiDigestSessionKeyPrefix :: string where
  "geminiDigestSessionKeyPrefix = ''gemini:digest:''"

definition GenerateGeminiDigestSessionKey :: "string \<Rightarrow> string \<Rightarrow> string" where
  "GenerateGeminiDigestSessionKey prefixHash uuid =
     geminiDigestSessionKeyPrefix @ (if 8 \<le> length prefixHash then take 8 prefixHash else prefixHash) @ '':'' @
     (if 8 \<le> length uuid then take 8 uuid else uuid)"

text \<open>\<open>strings.LastIndex\<close> of a byte.\<close>

fun last_index :: "char \<Rightarrow> string \<Rightarrow> nat option" where
  "last_index c [] = None"
| "last_index c (x # xs) = (case last_index c xs of Some i \<Rightarrow> Some (Suc i) | None \<Rightarrow> if x = c then Some 0 else None)"

definition FormatGeminiSessionValue :: "string \<Rightarrow> int \<Rightarrow> string" where
  "FormatGeminiSessionValue uuid accountID = uuid @ '':'' @ Itoa accountID"

definition ParseGeminiSessionValue :: "string \<Rightarrow> (string \<times> int) option" where
  "ParseGeminiSessionValue v =
     (if v = [] then None
      else (case last_index CHR '':'' v of
              None \<Rightarrow> None
            | Some i \<Rightarrow> if i = 0 \<or> length v - 1 \<le> i then None
                else map_option (Pair (take i v)) (Atoi (drop (i + 1) v))))"

end
