(* ===== verification/Digest_Sessions_Props.thy ===== *)
theory Digest_Sessions_Props
  imports Digest_Sessions
begin

section \<open>Properties of digest sessions\<close>

text \<open>
  A grown conversation finds the account of the shorter one, and never the account of another group
  or client; values stored elsewhere read back as written.
\<close>

subsection \<open>Histories\<close>

datatype digest_call = DSave gotime gotime int string string string int string
  | DFind gotime int string string | DSweep gotime | DClose

fun digest_step :: "(string \<Rightarrow> 64 word) \<Rightarrow> digest_call \<Rightarrow> DigestSessionStore \<Rightarrow> DigestSessionStore option" where
  "digest_step hash (DSave t1 t2 g p chain u a old) s = Save hash t1 t2 g p chain u a old s"
| "digest_step hash (DFind t g p chain) s = Some (snd (Find hash t g p chain s))"
| "digest_step hash (DSweep t) s = map_option (\<lambda>c. s\<lparr>ds_cache := c\<rparr>) (sweepExpired t (ds_cache s))"
| "digest_step hash DClose s = Some (s\<lparr>ds_cache := Close (ds_cache s)\<rparr>)"

fun digest_run :: "(string \<Rightarrow> 64 word) \<Rightarrow> digest_call list \<Rightarrow> DigestSessionStore \<Rightarrow> DigestSessionStore option" where
  "digest_run hash [] s = Some s"
| "digest_run hash (x # xs) s = (case digest_step hash x s of None \<Rightarrow> None | Some s' \<Rightarrow> digest_run hash xs s')"

definition store_good :: "(string \<Rightarrow> 64 word) \<Rightarrow> DigestSessionStore \<Rightarrow> bool" where
  "store_good hash s \<longleftrightarrow> cache_ok hash (ds_cache s) \<and> ds_ttl s = digestSessionTTL"

lemma ttl_pos: "0 < digestSessionTTL"
  by (simp add: digestSessionTTL_def minute_def second_def)

lemma new_good: "store_good hash NewDigestSessionStore"
  using zero_ok(1) [of hash 0 0 0] by (simp add: store_good_def NewDigestSessionStore_def)

lemma new_held: "cache_held (ds_cache NewDigestSessionStore) k = None"
  by (simp add: cache_held_def lookup_def NewDigestSessionStore_def recency_def zero_cache_def)

text \<open>What a save does to the values held.\<close>

lemma save_law:
  fixes g a :: int and p u :: string
  assumes "store_good hash s" and "chain \<noteq> []"
  defines "ns \<equiv> buildNS g p" and "e \<equiv> \<lparr>sn_uuid = u, sn_accountID = a\<rparr>"
  shows "\<exists>s'. Save hash t1 t2 g p chain u a old s = Some s' \<and> store_good hash s' \<and>
    (\<forall>k. cache_held (ds_cache s') k = None \<or>
       cache_held (ds_cache s') k = (if k = ns @ chain then Some (e, t1 + digestSessionTTL) else cache_held (ds_cache s) k)) \<and>
    (cache_fits (ds_cache s) (ns @ chain) (session_value e (t1 + digestSessionTTL)) \<longrightarrow> t2 < t1 + digestSessionTTL \<longrightarrow>
       cache_held (ds_cache s') (ns @ chain) = Some (e, t1 + digestSessionTTL)) \<and>
    (old \<noteq> [] \<longrightarrow> old \<noteq> chain \<longrightarrow> cache_held (ds_cache s') (ns @ old) = None)"
proof -
  let ?v = "session_value e (t1 + digestSessionTTL)"
  have ok: "cache_ok hash (ds_cache s)" and ttl: "ds_ttl s = digestSessionTTL" using assms(1) by (auto simp: store_good_def)
  have v: "sv_data ?v = e" "sv_expiresAt ?v = t1 + digestSessionTTL" by (simp_all add: session_value_def)
  obtain c where c: "Store hash t2 (ns @ chain) ?v (ds_cache s) = Some c" "cache_ok hash c"
    "\<forall>k. cache_held c k = None \<or> cache_held c k = (if k = ns @ chain then Some (e, t1 + digestSessionTTL) else cache_held (ds_cache s) k)"
    "cache_fits (ds_cache s) (ns @ chain) ?v \<longrightarrow> t2 < t1 + digestSessionTTL \<longrightarrow> cache_held c (ns @ chain) = Some (e, t1 + digestSessionTTL)"
    using sessions.put_law [OF ok, of t2 "ns @ chain" ?v] unfolding v by blast
  have save: "Save hash t1 t2 g p chain u a old s = map_option (\<lambda>c'. s\<lparr>ds_cache := c'\<rparr>)
      (if old \<noteq> [] \<and> old \<noteq> chain then Delete (ns @ old) c else Some c)"
    using assms(2) c(1) ttl ttl_pos by (simp add: Save_def Let_def ns_def e_def)
  show ?thesis
  proof (cases "old \<noteq> [] \<and> old \<noteq> chain")
    case True
    obtain c' where c': "Delete (ns @ old) c = Some c'" "cache_ok hash c'"
      "\<forall>k. cache_held c' k = (if k = ns @ old then None else cache_held c k)"
      using sessions.remove_law [OF c(2), of "ns @ old"] by blast
    with True save c(3,4) ttl show ?thesis by (intro exI [of _ "s\<lparr>ds_cache := c'\<rparr>"]) (auto simp: store_good_def)
  next
    case False
    with save c(2-4) ttl show ?thesis by (intro exI [of _ "s\<lparr>ds_cache := c\<rparr>"]) (auto simp: store_good_def)
  qed
qed

lemma find_law:
  assumes "store_good hash s" and "chain \<noteq> []"
  shows "store_good hash (snd (Find hash now g p chain s))"
    and "cache_held (ds_cache (snd (Find hash now g p chain s))) = cache_held (ds_cache s)"
    and "fst (Find hash now g p chain s) =
      (case fst (longestDigestPrefix hash now (buildNS g p) chain (ds_cache s)) of
         None \<Rightarrow> ([], 0, [], False) | Some (e, m) \<Rightarrow> (sn_uuid e, sn_accountID e, m, True))"
  using sessions.search_law [of hash "ds_cache s" now "buildNS g p" chain] assms
  by (auto simp: Find_def store_good_def case_prod_beta split: option.splits prod.splits)

subsection \<open>Provenance\<close>

definition from_history :: "digest_call list \<Rightarrow> DigestSessionStore \<Rightarrow> bool" where
  "from_history hist s \<longleftrightarrow> (\<forall>k e x. cache_held (ds_cache s) k = Some (e, x) \<longrightarrow>
     (\<exists>t1 t2 g p chain old. DSave t1 t2 g p chain (sn_uuid e) (sn_accountID e) old \<in> set hist \<and>
        k = buildNS g p @ chain \<and> x = t1 + digestSessionTTL))"

lemma lookup_distinct: "distinct (map se_key xs) \<Longrightarrow> lookup k xs = Some en \<longleftrightarrow> en \<in> set xs \<and> se_key en = k"
proof (induction xs)
  case (Cons x xs)
  then have "se_key x \<noteq> se_key y" if "y \<in> set xs" for y using that by auto
  with Cons show ?case by (auto simp: lookup_Cons)
qed (simp add: lookup_def)

lemma lookup_filter: "lookup k (filter q xs) = Some en \<Longrightarrow> distinct (map se_key xs) \<Longrightarrow> lookup k xs = Some en"
  by (simp add: lookup_distinct distinct_map_filter)

lemma step_history:
  assumes "store_good hash s" and "from_history hist s" and "set hist' = insert x (set hist)" and "digest_step hash x s = Some s'"
  shows "store_good hash s' \<and> from_history hist' s'"
proof -
  have mono: "from_history hist' s'" if "\<And>k. cache_held (ds_cache s') k = None \<or> cache_held (ds_cache s') k = cache_held (ds_cache s) k"
    unfolding from_history_def
  proof (intro allI impI)
    fix k e y assume "cache_held (ds_cache s') k = Some (e, y)"
    with that [of k] have "cache_held (ds_cache s) k = Some (e, y)" by auto
    with assms(2,3) show "\<exists>t1 t2 g p chain old. DSave t1 t2 g p chain (sn_uuid e) (sn_accountID e) old \<in> set hist' \<and>
        k = buildNS g p @ chain \<and> y = t1 + digestSessionTTL" unfolding from_history_def by fastforce
  qed
  have ok: "cache_ok hash (ds_cache s)" using assms(1) by (simp add: store_good_def)
  show ?thesis
  proof (cases x)
    case (DSave t1 t2 g p chain u a old)
    show ?thesis
    proof (cases "chain = []")
      case True
      with DSave assms(1,4) mono show ?thesis by (simp add: Save_def)
    next
      case False
      let ?e = "\<lparr>sn_uuid = u, sn_accountID = a\<rparr>"
      from save_law [OF assms(1) False, of t1 t2 g p u a old] DSave assms(4)
      have good: "store_good hash s'" and held: "\<And>k. cache_held (ds_cache s') k = None \<or>
          cache_held (ds_cache s') k = (if k = buildNS g p @ chain then Some (?e, t1 + digestSessionTTL) else cache_held (ds_cache s) k)"
        by auto
      have "from_history hist' s'"
        unfolding from_history_def
      proof (intro allI impI)
        fix k e y assume h: "cache_held (ds_cache s') k = Some (e, y)"
        show "\<exists>t1 t2 g p chain old. DSave t1 t2 g p chain (sn_uuid e) (sn_accountID e) old \<in> set hist' \<and>
          k = buildNS g p @ chain \<and> y = t1 + digestSessionTTL"
        proof (cases "k = buildNS g p @ chain")
          case True
          with h held [of k] have "e = ?e" "y = t1 + digestSessionTTL" by auto
          with True DSave assms(3) show ?thesis by fastforce
        next
          case False
          with h held [of k] have "cache_held (ds_cache s) k = Some (e, y)" by auto
          with assms(2,3) show ?thesis unfolding from_history_def by fastforce
        qed
      qed
      with good show ?thesis by simp
    qed
  next
    case (DFind t g p chain)
    with assms(4) have s': "s' = snd (Find hash t g p chain s)" by simp
    show ?thesis
    proof (cases "chain = []")
      case True
      with s' mono assms(1) show ?thesis by (simp add: Find_def)
    next
      case False
      from find_law(1,2) [OF assms(1) False] s' mono show ?thesis by simp
    qed
  next
    case (DSweep t)
    obtain c where c: "sweepExpired t (ds_cache s) = Some c" "cache_ok hash c" "recency c = filter (\<lambda>en. t < se_expiresAt en) (recency (ds_cache s))"
      using cache_sweep_ok [OF ok] by blast
    have core: "cache_core hash (ds_cache s)" using ok by (simp add: cache_ok_def)
    have "cache_held c k = None \<or> cache_held c k = cache_held (ds_cache s) k" for k
      using lookup_filter [OF _ distinct_keys [OF core], of k] unfolding cache_held_def c(3)
      by (cases "lookup k (filter (\<lambda>en. t < se_expiresAt en) (recency (ds_cache s)))") auto
    with c mono DSweep assms(1,4) show ?thesis by (auto simp: store_good_def)
  next
    case DClose
    with close_ok [OF ok] mono assms(1,4) show ?thesis by (auto simp: store_good_def cache_held_def lookup_def)
  qed
qed

lemma run_history:
  assumes "digest_run hash hist s = Some s'" and "store_good hash s" and "from_history past s"
  shows "store_good hash s' \<and> from_history (past @ hist) s'"
  using assms
proof (induction hist arbitrary: s past)
  case (Cons x hist)
  then obtain s1 where s1: "digest_step hash x s = Some s1" "digest_run hash hist s1 = Some s'" by (auto split: option.splits)
  from step_history [OF Cons.prems(2,3) _ s1(1), of "past @ [x]"] Cons.IH [OF s1(2), of "past @ [x]"] show ?case by simp
qed simp

lemma reached:
  assumes "digest_run hash hist NewDigestSessionStore = Some s"
  shows "store_good hash s" and "from_history hist s"
  using run_history [OF assms new_good, of "[]"] new_held by (auto simp: from_history_def)

text \<open>A history of operations never fails.\<close>

lemma run_total: "store_good hash s \<Longrightarrow> from_history past s \<Longrightarrow> \<exists>s'. digest_run hash hist s = Some s'"
proof (induction hist arbitrary: s past)
  case (Cons x hist)
  then have ok: "cache_ok hash (ds_cache s)" by (simp add: store_good_def)
  have "\<exists>s1. digest_step hash x s = Some s1"
  proof (cases x)
    case (DSave t1 t2 g p chain u a old)
    with save_law [OF Cons.prems(1), of chain t1 t2 g p u a old] show ?thesis by (cases "chain = []") (auto simp: Save_def)
  next
    case (DSweep t)
    with cache_sweep_ok [OF ok, of t] show ?thesis by auto
  qed auto
  then obtain s1 where s1: "digest_step hash x s = Some s1" by blast
  from step_history [OF Cons.prems _ s1, of "past @ [x]"] Cons.IH s1 show ?case by auto
qed simp

subsection \<open>Keys tell groups and clients apart\<close>

lemma namespace_inj:
  assumes "CHR ''|'' \<notin> set p" and "CHR ''|'' \<notin> set p'" and "buildNS g p @ m = buildNS g' p' @ m'"
  shows "g = g' \<and> p = p' \<and> m = m'"
proof -
  from assms(3) have "Itoa g @ CHR '':'' # (p @ CHR ''|'' # m) = Itoa g' @ CHR '':'' # (p' @ CHR ''|'' # m')" by (simp add: buildNS_def)
  with Itoa_no_colon have "Itoa g = Itoa g'" "p @ CHR ''|'' # m = p' @ CHR ''|'' # m'" by (simp_all add: split_at)
  with assms(1,2) Itoa_inj show ?thesis by (simp add: split_at)
qed

fun bar_free :: "digest_call \<Rightarrow> bool" where
  "bar_free (DSave t1 t2 g p chain u a old) \<longleftrightarrow> CHR ''|'' \<notin> set p"
| "bar_free _ \<longleftrightarrow> True"

text \<open>
  Property C36. Sessions do not leak between groups or clients: after any history of saves, searches,
  sweeps and closings, with prefix hashes free of the bar that ends a namespace, what a search
  returns was saved under the same group, the same prefix hash and exactly the returned chain, less
  than the time to live ago.
\<close>

theorem digest_sessions_isolated:
  assumes "digest_run hash hist NewDigestSessionStore = Some s" and "list_all bar_free hist" and "CHR ''|'' \<notin> set p"
    and "fst (Find hash now g p chain s) = (u, a, m, True)"
  shows "\<exists>t1 t2 old. DSave t1 t2 g p m u a old \<in> set hist \<and> now < t1 + digestSessionTTL \<and> prefix m chain"
proof -
  note r = reached [OF assms(1)]
  have ne: "chain \<noteq> []" using assms(4) by (auto simp: Find_def)
  have ok: "cache_ok hash (ds_cache s)" using r(1) by (simp add: store_good_def)
  from find_law(3) [OF r(1) ne, of now g p] assms(4) obtain e where
    e: "fst (longestDigestPrefix hash now (buildNS g p) chain (ds_cache s)) = Some (e, m)" "sn_uuid e = u" "sn_accountID e = a"
    by (auto split: option.splits)
  obtain x where x: "cache_held (ds_cache s) (buildNS g p @ m) = Some (e, x)" "now < x"
    using sessions.search_held [OF ok e(1)] by blast
  with r(2) obtain t1 t2 g' p' m' old where h: "DSave t1 t2 g' p' m' u a old \<in> set hist" "buildNS g p @ m = buildNS g' p' @ m'"
    "x = t1 + digestSessionTTL" unfolding from_history_def using e(2,3) by blast
  from assms(2) h(1) have "CHR ''|'' \<notin> set p'" by (auto simp: list_all_iff)
  with namespace_inj [OF assms(3) _ h(2)] h x(2) have "DSave t1 t2 g p m u a old \<in> set hist" "now < t1 + digestSessionTTL" by auto
  moreover have "prefix m chain"
    using sessions.search_law [OF ok, of now "buildNS g p" chain] e(1) take_is_prefix by fastforce
  ultimately show ?thesis by blast
qed

subsection \<open>A conversation that goes on\<close>

lemma join_dash_append: "xs \<noteq> [] \<Longrightarrow> ys \<noteq> [] \<Longrightarrow> join_dash (xs @ ys) = join_dash xs @ ''-'' @ join_dash ys"
proof (induction xs rule: join_dash.induct)
  case (2 p)
  then show ?case by (cases ys) auto
qed auto

lemma gemini_chain_grows:
  assumes "sys \<noteq> None \<or> contents \<noteq> []"
  shows "BuildGeminiDigestChain h sys (contents @ rest) = BuildGeminiDigestChain h sys contents \<or>
    prefix (BuildGeminiDigestChain h sys contents @ ''-'') (BuildGeminiDigestChain h sys (contents @ rest))"
proof (cases "rest = []")
  case False
  let ?part = "\<lambda>(role, j). (if role = ''model'' then ''m'' else ''u'') @ '':'' @ h j"
  let ?xs = "(case sys of None \<Rightarrow> [] | Some j \<Rightarrow> [''s:'' @ h j]) @ map ?part contents"
  have "?xs \<noteq> []" using assms by (auto split: option.splits)
  with False join_dash_append [of ?xs "map ?part rest"] show ?thesis by (simp add: BuildGeminiDigestChain_def prefix_def)
qed simp

text \<open>
  A conversation stays with its account: once it is saved, and while it is not older
  than the time to live, a later request that repeats it and adds messages finds a saved session
  whose chain is the saved one, with its identifier and account, or a longer one; the chain it
  replaced is gone. The entry has to fit the byte limit and the store must not be closed.
\<close>

theorem conversation_resumes:
  assumes "digest_run hash hist NewDigestSessionStore = Some s0"
    and "sys \<noteq> None \<or> contents \<noteq> []" and "chain = BuildGeminiDigestChain h sys contents" and "chain \<noteq> []"
    and "Save hash t1 t2 g p chain u a old s0 = Some s" and "t2 < t1 + digestSessionTTL" and "t3 < t1 + digestSessionTTL"
    and "\<not> sc_closed (ds_cache s0)"
    and "int (512 + length (buildNS g p @ chain) + length u) \<le> snd (limits (ds_cache s0))"
  shows "(\<exists>u' a' m. fst (Find hash t3 g p (BuildGeminiDigestChain h sys (contents @ rest)) s) = (u', a', m, True) \<and>
      prefix chain m \<and> (m = chain \<longrightarrow> u' = u \<and> a' = a)) \<and>
    (old \<noteq> [] \<longrightarrow> old \<noteq> chain \<longrightarrow> cache_held (ds_cache s) (buildNS g p @ old) = None)"
proof -
  let ?e = "\<lparr>sn_uuid = u, sn_accountID = a\<rparr>" and ?request = "BuildGeminiDigestChain h sys (contents @ rest)"
  note r = reached [OF assms(1)]
  from save_law [OF r(1) assms(4), of t1 t2 g p u a old] assms(5)
  have good: "store_good hash s" and fit: "cache_fits (ds_cache s0) (buildNS g p @ chain) (session_value ?e (t1 + digestSessionTTL)) \<longrightarrow>
      t2 < t1 + digestSessionTTL \<longrightarrow> cache_held (ds_cache s) (buildNS g p @ chain) = Some (?e, t1 + digestSessionTTL)"
    and gone: "old \<noteq> [] \<longrightarrow> old \<noteq> chain \<longrightarrow> cache_held (ds_cache s) (buildNS g p @ old) = None" by auto
  have "cache_fits (ds_cache s0) (buildNS g p @ chain) (session_value ?e (t1 + digestSessionTTL))"
    using assms(8,9) by (simp add: cache_fits_def session_value_def sessionCost_def sessionMemoryCacheEntryCost_def)
  with fit assms(6) have held: "cache_held (ds_cache s) (buildNS g p @ chain) = Some (?e, t1 + digestSessionTTL)" by blast
  have ok: "cache_ok hash (ds_cache s)" using good by (simp add: store_good_def)
  have "?request = chain \<or> prefix (chain @ ''-'') ?request" using gemini_chain_grows [OF assms(2), of h rest] assms(3) by auto
  from sessions.search_stored [OF ok held assms(7) this] obtain d m where
    m: "fst (longestDigestPrefix hash t3 (buildNS g p) ?request (ds_cache s)) = Some (d, m)" "prefix chain m" "prefix m ?request"
    "m = chain \<longrightarrow> d = ?e" by blast
  have "?request \<noteq> []" using m(2,3) assms(4) by auto
  from find_law(3) [OF good this, of t3 g p] m gone show ?thesis by auto
qed

lemma last_index_append: "c \<notin> set ys \<Longrightarrow> last_index c (xs @ c # ys) = Some (length xs)"
proof -
  assume "c \<notin> set ys"
  then have "last_index c ys = None" by (induction ys) auto
  then show ?thesis by (induction xs) auto
qed

text \<open>
  A session value reads back: any non-empty identifier, colons included, and any 64-bit
  account identifier are recovered from the formatted value.
\<close>

theorem session_value_round_trip:
  assumes "u \<noteq> []" and "- (2 ^ 63) \<le> a" and "a < 2 ^ 63"
  shows "ParseGeminiSessionValue (FormatGeminiSessionValue u a) = Some (u, a)"
proof -
  have "last_index CHR '':'' (FormatGeminiSessionValue u a) = Some (length u)"
    using last_index_append [OF Itoa_no_colon] by (simp add: FormatGeminiSessionValue_def)
  with assms Atoi_Itoa [OF assms(2,3)] show ?thesis
    by (simp add: ParseGeminiSessionValue_def) (simp add: FormatGeminiSessionValue_def)
qed

subsection \<open>A history\<close>

definition sample_hash :: "string \<Rightarrow> 64 word" where
  "sample_hash k = of_nat (length k)"

definition sample_history :: "digest_call list" where
  "sample_history = [DSave 1 2 7 ''ab'' ''u:p'' ''id'' 3 [], DFind 3 7 ''ab'' ''u:p'']"

definition sample_store :: DigestSessionStore where
  "sample_store = the (digest_run sample_hash sample_history NewDigestSessionStore)"

lemma sample_store: "digest_run sample_hash sample_history NewDigestSessionStore = Some sample_store"
  using run_total [OF new_good, of "[]" sample_hash sample_history] new_held by (auto simp: sample_store_def from_history_def)

lemma sample_find: "fst (Find sample_hash 5 7 ''ab'' ''u:p-m:q'' (the (digest_run sample_hash sample_history NewDigestSessionStore))) =
    (''id'', 3, ''u:p'', True)"
  by code_simp

theorem digest_sessions_isolated_witness:
  "\<exists>t1 t2 old. DSave t1 t2 7 ''ab'' ''u:p'' ''id'' 3 old \<in> set sample_history \<and> 5 < t1 + digestSessionTTL \<and> prefix ''u:p'' ''u:p-m:q''"
  using digest_sessions_isolated [OF sample_store, of "''ab''" 5 7 "''u:p-m:q''" "''id''" 3 "''u:p''"] sample_find
  by (simp add: sample_store_def sample_history_def)

definition saved_store :: DigestSessionStore where
  "saved_store = the (Save sample_hash 10 11 7 ''ab'' ''u:p-m:q'' ''id'' 3 ''u:p'' sample_store)"

lemma saved_store: "Save sample_hash 10 11 7 ''ab'' ''u:p-m:q'' ''id'' 3 ''u:p'' sample_store = Some saved_store"
proof -
  have "store_good sample_hash sample_store" by (rule reached(1) [OF sample_store])
  from save_law [OF this, of "''u:p-m:q''" 10 11 7 "''ab''" "''id''" 3 "''u:p''"] show ?thesis by (auto simp: saved_store_def)
qed

lemma sample_limits: "\<not> sc_closed (ds_cache (the (digest_run sample_hash sample_history NewDigestSessionStore))) \<and>
    int (512 + length (buildNS 7 ''ab'' @ ''u:p-m:q'') + length ''id'') \<le>
      snd (limits (ds_cache (the (digest_run sample_hash sample_history NewDigestSessionStore))))"
  by code_simp

theorem conversation_resumes_witness:
  "(\<exists>u' a' m. fst (Find sample_hash 12 7 ''ab'' (BuildGeminiDigestChain (\<lambda>j. j) None ([(''user'', ''p''), (''model'', ''q'')] @ [(''user'', ''r'')])) saved_store)
       = (u', a', m, True) \<and> prefix ''u:p-m:q'' m \<and> (m = ''u:p-m:q'' \<longrightarrow> u' = ''id'' \<and> a' = 3)) \<and>
   cache_held (ds_cache saved_store) (buildNS 7 ''ab'' @ ''u:p'') = None"
proof -
  have "''u:p'' \<noteq> []" "''u:p'' \<noteq> ''u:p-m:q''" by simp_all
  then show ?thesis
    using conversation_resumes [OF sample_store _ _ _ saved_store, of None "[(''user'', ''p''), (''model'', ''q'')]"
        "\<lambda>j. j" 12 "[(''user'', ''r'')]"] sample_limits
    by (simp add: BuildGeminiDigestChain_def sample_store_def digestSessionTTL_def minute_def second_def)
qed

theorem session_value_round_trip_witness:
  "ParseGeminiSessionValue (FormatGeminiSessionValue ''a:b'' (-42)) = Some (''a:b'', -42)"
  by (rule session_value_round_trip) simp_all

end
