(* ===== verification/Session_Continuation.thy ===== *)
theory Session_Continuation
  imports Session_Store App_Errors
begin

section \<open>Continuation of upstream responses\<close>

text \<open>
  \<open>service/openai_messages_continuation.go\<close> keeps, per account, API key and prompt cache key, the
  upstream response a conversation may continue, its turn state, and whether continuation was given
  up. Every operation loads the binding in one critical section of the cache (at time \<open>t\<close>), decides,
  and writes or deletes in another (at time \<open>t'\<close>); the two halves are kept apart here because another
  request can come between them. The cache holds values of this one type only, so the source's type
  assertions succeed.
\<close>

subsection \<open>Bindings\<close>

record openAICompatSessionResponseBinding =
  rb_ResponseID :: string
  rb_TurnState :: string
  rb_ContinuationDisabled :: bool
  rb_ExpiresAt :: gotime

definition bindingCost :: "openAICompatSessionResponseBinding \<Rightarrow> nat" where
  "bindingCost b = length (rb_ResponseID b) + length (rb_TurnState b)"

definition binding_value :: "openAICompatSessionResponseBinding \<Rightarrow> openAICompatSessionResponseBinding sessionMemoryValue" where
  "binding_value b = \<lparr>sv_data = b, sv_expiresAt = rb_ExpiresAt b, sv_cost = bindingCost b\<rparr>"

definition openAICompatSessionResponseKey :: "int option \<Rightarrow> int \<Rightarrow> string \<Rightarrow> string" where
  "openAICompatSessionResponseKey account apiKeyID promptCacheKey =
     (case account of
        None \<Rightarrow> []
      | Some accountID \<Rightarrow>
          if trim_space promptCacheKey = [] then []
          else Itoa accountID @ [CHR 0x00] @ Itoa apiKeyID @ [CHR 0x00] @ trim_space promptCacheKey)"

definition openAIWSResponseStickyTTL :: "int option \<Rightarrow> duration" where
  "openAIWSResponseStickyTTL seconds =
     (case seconds of Some n \<Rightarrow> if 0 < n then wrap64 (n * second) else hour | None \<Rightarrow> hour)"

subsection \<open>Decisions\<close>

datatype followup = Keep | Drop | Write openAICompatSessionResponseBinding

type_synonym loaded = "openAICompatSessionResponseBinding option"

definition past_expiry :: "gotime \<Rightarrow> openAICompatSessionResponseBinding \<Rightarrow> bool" where
  "past_expiry now b \<longleftrightarrow> \<not> is_zero_time (rb_ExpiresAt b) \<and> time_after now (rb_ExpiresAt b)"

definition getOpenAICompatSessionResponseID :: "gotime \<Rightarrow> loaded \<Rightarrow> string \<times> followup" where
  "getOpenAICompatSessionResponseID now raw =
     (case raw of
        None \<Rightarrow> ([], Keep)
      | Some b \<Rightarrow>
          if past_expiry now b then ([], Drop)
          else if rb_ContinuationDisabled b then ([], Keep)
          else if trim_space (rb_ResponseID b) = [] then ([], Drop)
          else (trim_space (rb_ResponseID b), Keep))"

definition bindOpenAICompatSessionResponseID :: "duration \<Rightarrow> gotime \<Rightarrow> gotime \<Rightarrow> string \<Rightarrow> loaded \<Rightarrow> followup" where
  "bindOpenAICompatSessionResponseID ttl t t' responseID raw =
     (let i = trim_space responseID;
          binding = \<lparr>rb_ResponseID = i, rb_TurnState = [], rb_ContinuationDisabled = False, rb_ExpiresAt = t + ttl\<rparr>
      in (case raw of
            None \<Rightarrow> Write binding
          | Some existing \<Rightarrow>
              if rb_ContinuationDisabled existing then Write (existing\<lparr>rb_ResponseID := [], rb_ExpiresAt := t' + ttl\<rparr>)
              else Write (binding\<lparr>rb_TurnState := rb_TurnState existing\<rparr>)))"

definition deleteOpenAICompatSessionResponseID :: "duration \<Rightarrow> gotime \<Rightarrow> loaded \<Rightarrow> followup" where
  "deleteOpenAICompatSessionResponseID ttl t' raw =
     (case raw of
        None \<Rightarrow> Keep
      | Some b \<Rightarrow>
          if trim_space (rb_TurnState b) = [] \<and> \<not> rb_ContinuationDisabled b then Drop
          else Write (b\<lparr>rb_ResponseID := [], rb_ExpiresAt := t' + ttl\<rparr>))"

definition disableOpenAICompatSessionContinuation :: "duration \<Rightarrow> gotime \<Rightarrow> loaded \<Rightarrow> followup" where
  "disableOpenAICompatSessionContinuation ttl t raw =
     Write \<lparr>rb_ResponseID = [], rb_TurnState = (case raw of None \<Rightarrow> [] | Some existing \<Rightarrow> rb_TurnState existing),
            rb_ContinuationDisabled = True, rb_ExpiresAt = t + ttl\<rparr>"

definition isOpenAICompatSessionContinuationDisabled :: "gotime \<Rightarrow> loaded \<Rightarrow> bool \<times> followup" where
  "isOpenAICompatSessionContinuationDisabled now raw =
     (case raw of
        None \<Rightarrow> (False, Keep)
      | Some b \<Rightarrow> if past_expiry now b then (False, Drop) else (rb_ContinuationDisabled b, Keep))"

definition getOpenAICompatSessionTurnState :: "gotime \<Rightarrow> loaded \<Rightarrow> string \<times> followup" where
  "getOpenAICompatSessionTurnState now raw =
     (case raw of
        None \<Rightarrow> ([], Keep)
      | Some b \<Rightarrow>
          if trim_space (rb_TurnState b) = [] then ([], Keep)
          else if past_expiry now b then ([], Drop)
          else (trim_space (rb_TurnState b), Keep))"

definition bindOpenAICompatSessionTurnState :: "duration \<Rightarrow> gotime \<Rightarrow> string \<Rightarrow> loaded \<Rightarrow> followup" where
  "bindOpenAICompatSessionTurnState ttl t turnState raw =
     (let binding = \<lparr>rb_ResponseID = [], rb_TurnState = trim_space turnState, rb_ContinuationDisabled = False, rb_ExpiresAt = t + ttl\<rparr>
      in (case raw of
            None \<Rightarrow> Write binding
          | Some existing \<Rightarrow> Write (binding\<lparr>rb_ResponseID := rb_ResponseID existing,
              rb_ContinuationDisabled := rb_ContinuationDisabled existing\<rparr>)))"

subsection \<open>Operations\<close>

text \<open>The early returns on empty arguments, as the set of calls that reach the cache.\<close>

datatype continuation_op = GetID | BindID string | DeleteID | Disable | IsDisabled | GetTurn | BindTurn string

fun reaches_cache :: "string \<Rightarrow> continuation_op \<Rightarrow> bool" where
  "reaches_cache key (BindID i) \<longleftrightarrow> key \<noteq> [] \<and> trim_space i \<noteq> []"
| "reaches_cache key (BindTurn st) \<longleftrightarrow> key \<noteq> [] \<and> trim_space st \<noteq> []"
| "reaches_cache key _ \<longleftrightarrow> key \<noteq> []"

datatype continuation_answer = Unit | Text string | Flag bool

fun decide :: "duration \<Rightarrow> gotime \<Rightarrow> gotime \<Rightarrow> continuation_op \<Rightarrow> loaded \<Rightarrow> continuation_answer \<times> followup" where
  "decide ttl t t' GetID raw = map_prod Text id (getOpenAICompatSessionResponseID t' raw)"
| "decide ttl t t' (BindID i) raw = (Unit, bindOpenAICompatSessionResponseID ttl t t' i raw)"
| "decide ttl t t' DeleteID raw = (Unit, deleteOpenAICompatSessionResponseID ttl t' raw)"
| "decide ttl t t' Disable raw = (Unit, disableOpenAICompatSessionContinuation ttl t raw)"
| "decide ttl t t' IsDisabled raw = map_prod Flag id (isOpenAICompatSessionContinuationDisabled t' raw)"
| "decide ttl t t' GetTurn raw = map_prod Text id (getOpenAICompatSessionTurnState t' raw)"
| "decide ttl t t' (BindTurn st) raw = (Unit, bindOpenAICompatSessionTurnState ttl t st raw)"

fun idle_answer :: "continuation_op \<Rightarrow> continuation_answer" where
  "idle_answer GetID = Text []"
| "idle_answer GetTurn = Text []"
| "idle_answer IsDisabled = Flag False"
| "idle_answer _ = Unit"

definition follow :: "(string \<Rightarrow> 64 word) \<Rightarrow> gotime \<Rightarrow> string \<Rightarrow> followup \<Rightarrow>
    openAICompatSessionResponseBinding sessionMemoryCache \<Rightarrow> openAICompatSessionResponseBinding sessionMemoryCache option" where
  "follow hash t' key f c =
     (case f of Keep \<Rightarrow> Some c | Drop \<Rightarrow> Delete key c | Write b \<Rightarrow> Store hash t' key (binding_value b) c)"

definition perform :: "(string \<Rightarrow> 64 word) \<Rightarrow> duration \<Rightarrow> gotime \<Rightarrow> gotime \<Rightarrow> string \<Rightarrow> continuation_op \<Rightarrow>
    openAICompatSessionResponseBinding sessionMemoryCache \<Rightarrow>
    (continuation_answer \<times> openAICompatSessionResponseBinding sessionMemoryCache) option" where
  "perform hash ttl t t' key op c =
     (if \<not> reaches_cache key op then Some (idle_answer op, c)
      else (case Load t key c of
              None \<Rightarrow> None
            | Some (raw, c1) \<Rightarrow>
                (case decide ttl t t' op raw of (a, f) \<Rightarrow> map_option (Pair a) (follow hash t' key f c1))))"

end
