(* ===== verification/Session_Continuation_Props.thy ===== *)
theory Session_Continuation_Props
  imports Session_Continuation
begin

section \<open>Giving up continuation\<close>

text \<open>
  Once continuation is disabled for a conversation, requests that follow one another never continue a
  response again while the binding lives. Requests that overlap can: the two halves of an operation
  are not one critical section.
\<close>

definition blank :: "string \<Rightarrow> openAICompatSessionResponseBinding" where
  "blank turn = \<lparr>rb_ResponseID = [], rb_TurnState = turn, rb_ContinuationDisabled = True, rb_ExpiresAt = 0\<rparr>"

lemma fits_cost: "sv_cost v = sv_cost v' \<Longrightarrow> cache_fits c k v = cache_fits c k v'"
  by (simp add: cache_fits_def)

lemma fits_blank: "rb_ResponseID b = [] \<Longrightarrow> cache_fits c k (binding_value b) = cache_fits c k (binding_value (blank (rb_TurnState b)))"
  by (rule fits_cost) (simp add: binding_value_def bindingCost_def blank_def)

text \<open>A cache that holds a disabled binding of which the current turn state fits.\<close>

definition given_up :: "(string \<Rightarrow> 64 word) \<Rightarrow> string \<Rightarrow> gotime \<Rightarrow> openAICompatSessionResponseBinding sessionMemoryCache \<Rightarrow> bool" where
  "given_up hash key until c \<longleftrightarrow> cache_ok hash c \<and>
     (\<exists>b. cache_held c key = Some (b, rb_ExpiresAt b) \<and> rb_ContinuationDisabled b \<and> rb_ResponseID b = [] \<and> until \<le> rb_ExpiresAt b \<and>
        cache_fits c key (binding_value b))"

lemma write_binding:
  assumes "cache_ok hash c" and "cache_fits c key (binding_value b)" and "t' < rb_ExpiresAt b"
  shows "\<exists>c'. Store hash t' key (binding_value b) c = Some c' \<and> cache_ok hash c' \<and> cache_held c' key = Some (b, rb_ExpiresAt b) \<and>
    (\<forall>k v. cache_fits c' k v = cache_fits c k v)"
proof -
  have v: "sv_data (binding_value b) = b" "sv_expiresAt (binding_value b) = rb_ExpiresAt b" by (simp_all add: binding_value_def)
  from sessions.put_law [OF assms(1), of t' key "binding_value b"] show ?thesis unfolding v using assms(2,3) by blast
qed

fun turn_fits :: "openAICompatSessionResponseBinding sessionMemoryCache \<Rightarrow> string \<Rightarrow> continuation_op \<Rightarrow> bool" where
  "turn_fits c key (BindTurn st) \<longleftrightarrow> cache_fits c key (binding_value (blank (trim_space st)))"
| "turn_fits c key _ \<longleftrightarrow> True"

fun as_disabled :: "continuation_op \<Rightarrow> continuation_answer \<Rightarrow> bool" where
  "as_disabled GetID a \<longleftrightarrow> a = Text []"
| "as_disabled IsDisabled a \<longleftrightarrow> a = Flag True"
| "as_disabled _ a \<longleftrightarrow> True"

text \<open>What is decided on a disabled binding.\<close>

lemma decide_disabled:
  assumes "rb_ContinuationDisabled b" and "rb_ResponseID b = []" and "t' < rb_ExpiresAt b" and "start \<le> t" and "t \<le> t'"
    and "start + ttl \<le> rb_ExpiresAt b" and "t' < start + ttl"
  shows "(\<exists>a. decide ttl t t' op (Some b) = (a, Keep) \<and> as_disabled op a) \<or>
    (\<exists>a b'. decide ttl t t' op (Some b) = (a, Write b') \<and> as_disabled op a \<and> rb_ContinuationDisabled b' \<and>
       rb_ResponseID b' = [] \<and> start + ttl \<le> rb_ExpiresAt b' \<and> t' < rb_ExpiresAt b' \<and>
       (rb_TurnState b' = rb_TurnState b \<or> (\<exists>st. op = BindTurn st \<and> rb_TurnState b' = trim_space st)))"
proof -
  have np: "\<not> past_expiry t' b" using assms(3) by (simp add: past_expiry_def time_defs)
  show ?thesis
  proof (cases op)
    case GetTurn
    with np show ?thesis by (simp add: getOpenAICompatSessionTurnState_def)
  qed (use assms np in \<open>simp_all add: getOpenAICompatSessionResponseID_def bindOpenAICompatSessionResponseID_def Let_def
      deleteOpenAICompatSessionResponseID_def disableOpenAICompatSessionContinuation_def isOpenAICompatSessionContinuationDisabled_def
      bindOpenAICompatSessionTurnState_def\<close>)
qed

lemma load_live:
  assumes "cache_ok hash c" and "cache_held c key = Some (b, x)" and "t < x"
  shows "\<exists>c'. Load t key c = Some (Some b, c') \<and> cache_ok hash c' \<and> cache_held c' = cache_held c \<and>
    (\<forall>k v. cache_fits c' k v = cache_fits c k v)"
  using sessions.get_law [OF assms(1), of t key] assms(2,3) by (auto simp: fun_eq_iff)

lemma perform_disabled:
  assumes up: "given_up hash key (start + ttl) c" and key: "key \<noteq> []" and fit: "turn_fits c key op"
    and t: "start \<le> t" "t \<le> t'" "t' < start + ttl"
  shows "\<exists>a c'. perform hash ttl t t' key op c = Some (a, c') \<and> given_up hash key (start + ttl) c' \<and>
    (\<forall>k v. cache_fits c' k v = cache_fits c k v) \<and> (reaches_cache key op \<longrightarrow> as_disabled op a)"
proof (cases "reaches_cache key op")
  case False
  with up show ?thesis by (simp add: perform_def)
next
  case True
  obtain b where ok: "cache_ok hash c" and b: "cache_held c key = Some (b, rb_ExpiresAt b)" "rb_ContinuationDisabled b"
    "rb_ResponseID b = []" "start + ttl \<le> rb_ExpiresAt b" "cache_fits c key (binding_value b)"
    using up by (auto simp: given_up_def)
  have "t < rb_ExpiresAt b" "t' < rb_ExpiresAt b" using t b(4) by auto
  obtain c1 where c1: "Load t key c = Some (Some b, c1)" "cache_ok hash c1" "cache_held c1 = cache_held c"
    "\<forall>k v. cache_fits c1 k v = cache_fits c k v"
    using load_live [OF ok b(1) \<open>t < rb_ExpiresAt b\<close>] by blast
  consider (keep) a where "decide ttl t t' op (Some b) = (a, Keep)" "as_disabled op a"
    | (writes) a b' where "decide ttl t t' op (Some b) = (a, Write b')" "as_disabled op a" "rb_ContinuationDisabled b'"
      "rb_ResponseID b' = []" "start + ttl \<le> rb_ExpiresAt b'" "t' < rb_ExpiresAt b'"
      "rb_TurnState b' = rb_TurnState b \<or> (\<exists>st. op = BindTurn st \<and> rb_TurnState b' = trim_space st)"
    using decide_disabled [OF b(2,3) \<open>t' < rb_ExpiresAt b\<close> t(1,2) b(4) t(3), of op] by blast
  then show ?thesis
  proof cases
    case keep
    with True c1 b show ?thesis by (simp add: perform_def follow_def given_up_def)
  next
    case d: writes
    from d(7) have "cache_fits c key (binding_value (blank (rb_TurnState b')))"
      using fit b(5) fits_blank [OF b(3)] by auto
    then have f1: "cache_fits c1 key (binding_value b')" using c1(4) fits_blank [OF d(4)] by simp
    from write_binding [OF c1(2) this d(6)] obtain c2 where
      c2: "Store hash t' key (binding_value b') c1 = Some c2" "cache_ok hash c2" "cache_held c2 key = Some (b', rb_ExpiresAt b')"
        "\<forall>k v. cache_fits c2 k v = cache_fits c1 k v" by blast
    have "given_up hash key (start + ttl) c2" using c2(2-4) d f1 unfolding given_up_def by blast
    with True c1 c2 d(1,2) show ?thesis by (simp add: perform_def follow_def)
  qed
qed

subsection \<open>One request after another\<close>

fun perform_all :: "(string \<Rightarrow> 64 word) \<Rightarrow> duration \<Rightarrow> string \<Rightarrow> (continuation_op \<times> gotime \<times> gotime) list \<Rightarrow>
    openAICompatSessionResponseBinding sessionMemoryCache \<Rightarrow>
    (continuation_answer list \<times> openAICompatSessionResponseBinding sessionMemoryCache) option" where
  "perform_all hash ttl key [] c = Some ([], c)"
| "perform_all hash ttl key ((op, t, t') # ops) c =
     (case perform hash ttl t t' key op c of None \<Rightarrow> None
      | Some (a, c1) \<Rightarrow> map_option (\<lambda>(ans, c2). (a # ans, c2)) (perform_all hash ttl key ops c1))"

lemma reads_reach: "key \<noteq> [] \<Longrightarrow> (op = GetID \<or> op = IsDisabled) \<Longrightarrow> reaches_cache key op"
  by auto

lemma all_disabled:
  assumes "given_up hash key (start + ttl) c" and "key \<noteq> []"
    and "\<forall>(op, t, t') \<in> set ops. start \<le> t \<and> t \<le> t' \<and> t' < start + ttl \<and> turn_fits c key op"
  shows "\<exists>ans c'. perform_all hash ttl key ops c = Some (ans, c') \<and> list_all2 (\<lambda>x a. as_disabled (fst x) a) ops ans"
  using assms
proof (induction ops arbitrary: c)
  case (Cons x ops)
  obtain op t t' where x: "x = (op, t, t')" by (cases x)
  from Cons.prems(3) x have t: "start \<le> t" "t \<le> t'" "t' < start + ttl" and fit: "turn_fits c key op" by auto
  obtain a c1 where c1: "perform hash ttl t t' key op c = Some (a, c1)" "given_up hash key (start + ttl) c1"
    "\<forall>k v. cache_fits c1 k v = cache_fits c k v" "reaches_cache key op \<longrightarrow> as_disabled op a"
    using perform_disabled [OF Cons.prems(1,2) fit t] by blast
  have a: "as_disabled op a" using c1(4) Cons.prems(2) by (cases op) auto
  have "turn_fits c1 key o' = turn_fits c key o'" for o' using c1(3) by (cases o') auto
  then have "\<forall>(op, t, t') \<in> set ops. start \<le> t \<and> t \<le> t' \<and> t' < start + ttl \<and> turn_fits c1 key op" using Cons.prems(3) by auto
  from Cons.IH [OF c1(2) Cons.prems(2) this] obtain ans c2 where
    "perform_all hash ttl key ops c1 = Some (ans, c2)" "list_all2 (\<lambda>x a. as_disabled (fst x) a) ops ans" by blast
  with a x c1(1) show ?case by simp
qed simp

text \<open>
  Giving up is final for requests that do not overlap: after continuation is disabled
  for a conversation, whatever response identifiers and turn states are bound or deleted, within the
  life of the binding, no lookup returns a response to continue and every inquiry says it is
  disabled. The turn states must fit the byte limit.
\<close>

theorem disabled_stays_disabled:
  assumes "cache_run hash calls (zero_cache maxE maxB sw) = Some (past, c0)" and "key \<noteq> []"
    and "\<forall>b x. cache_held c0 key = Some (b, x) \<longrightarrow> cache_fits c0 key (binding_value (blank (rb_TurnState b)))"
    and "cache_fits c0 key (binding_value (blank []))"
    and "perform hash ttl start t' key Disable c0 = Some (a, c)" and "t' < start + ttl"
    and "\<forall>(op, t, t') \<in> set ops. start \<le> t \<and> t \<le> t' \<and> t' < start + ttl \<and> turn_fits c0 key op"
  shows "\<exists>ans c'. perform_all hash ttl key ops c = Some (ans, c') \<and> list_all2 (\<lambda>x a. as_disabled (fst x) a) ops ans"
proof -
  have ok: "cache_ok hash c0" using run_refines [OF zero_ok(1), of hash calls maxE maxB sw] assms(1) by auto
  obtain raw c1 where c1: "Load start key c0 = Some (raw, c1)" "cache_ok hash c1" "\<forall>k v. cache_fits c1 k v = cache_fits c0 k v"
    and raw: "raw = None \<or> (\<exists>b x. cache_held c0 key = Some (b, x) \<and> raw = Some b)"
    using sessions.get_law [OF ok, of start key] by (auto split: option.splits if_splits)
  define b where "b = \<lparr>rb_ResponseID = [], rb_TurnState = (case raw of None \<Rightarrow> [] | Some existing \<Rightarrow> rb_TurnState existing),
      rb_ContinuationDisabled = True, rb_ExpiresAt = start + ttl\<rparr>"
  have "cache_fits c0 key (binding_value (blank (rb_TurnState b)))" using raw assms(3,4) by (auto simp: b_def)
  then have fit: "cache_fits c1 key (binding_value b)" using c1(3) fits_blank [of b] by (simp add: b_def)
  from write_binding [OF c1(2) fit, of t'] assms(6) obtain c2 where
    c2: "Store hash t' key (binding_value b) c1 = Some c2" "cache_ok hash c2" "cache_held c2 key = Some (b, rb_ExpiresAt b)"
      "\<forall>k v. cache_fits c2 k v = cache_fits c1 k v" by (auto simp: b_def)
  have "c = c2" using assms(2,5) c1(1) c2(1)
    by (simp add: perform_def follow_def disableOpenAICompatSessionContinuation_def b_def)
  then have "given_up hash key (start + ttl) c" using c2 fit by (auto simp: given_up_def b_def)
  moreover
  have "turn_fits c key o' = turn_fits c0 key o'" for o' using c1(3) c2(4) \<open>c = c2\<close> by (cases o') auto
  then have "\<forall>(op, t, t') \<in> set ops. start \<le> t \<and> t \<le> t' \<and> t' < start + ttl \<and> turn_fits c key op" using assms(7) by auto
  ultimately show ?thesis using all_disabled [OF _ assms(2)] by blast
qed

subsection \<open>Overlapping requests\<close>

text \<open>
  A lost update: when continuation is disabled between the two halves of binding a
  response, the bind overwrites it. Afterwards continuation counts as enabled and the bound response
  is handed out, although disabling came last to its caller.
\<close>

theorem bind_overwrites_disable:
  assumes "cache_run hash calls (zero_cache maxE maxB sw) = Some (past, c)" and "key \<noteq> []" and "trim_space i \<noteq> []"
    and "cache_held c key = None"
    and "cache_fits c key (binding_value \<lparr>rb_ResponseID = trim_space i, rb_TurnState = [], rb_ContinuationDisabled = False, rb_ExpiresAt = 0\<rparr>)"
    and "t1 \<le> t2" and "t2 \<le> t3" and "t3 < t1 + ttl"
  shows "\<exists>c1 c2 c3 c4 c5. Load t1 key c = Some (None, c1) \<and> perform hash ttl t2 t2 key Disable c1 = Some (Unit, c2) \<and>
    follow hash t3 key (bindOpenAICompatSessionResponseID ttl t1 t3 i None) c2 = Some c3 \<and>
    perform hash ttl t3 t3 key IsDisabled c3 = Some (Flag False, c4) \<and>
    perform hash ttl t3 t3 key GetID c3 = Some (Text (trim_space i), c5)"
proof -
  let ?b = "\<lparr>rb_ResponseID = trim_space i, rb_TurnState = [], rb_ContinuationDisabled = False, rb_ExpiresAt = t1 + ttl\<rparr>"
  have ok: "cache_ok hash c" using run_refines [OF zero_ok(1), of hash calls maxE maxB sw] assms(1) by auto
  obtain c1 where c1: "Load t1 key c = Some (None, c1)" "cache_ok hash c1" "\<forall>k v. cache_fits c1 k v = cache_fits c k v"
    using sessions.get_law [OF ok, of t1 key] assms(4) by auto
  obtain raw c2' where l2: "Load t2 key c1 = Some (raw, c2')" "cache_ok hash c2'" "\<forall>k v. cache_fits c2' k v = cache_fits c1 k v"
    using sessions.get_law [OF c1(2), of t2 key] by blast
  define d where "d = (case disableOpenAICompatSessionContinuation ttl t2 raw of Write b \<Rightarrow> b)"
  obtain c2 where c2: "Store hash t2 key (binding_value d) c2' = Some c2" "cache_ok hash c2"
    "\<forall>k v. cache_fits c2 k v = cache_fits c2' k v"
    using sessions.put_law [OF l2(2), of t2 key "binding_value d"] by blast
  have p2: "perform hash ttl t2 t2 key Disable c1 = Some (Unit, c2)"
    using assms(2) l2(1) c2(1) by (simp add: perform_def follow_def disableOpenAICompatSessionContinuation_def d_def)
  have "cache_fits c2 key (binding_value ?b) = cache_fits c2 key (binding_value (?b\<lparr>rb_ExpiresAt := 0\<rparr>))"
    by (rule fits_cost) (simp add: binding_value_def bindingCost_def)
  then have "cache_fits c2 key (binding_value ?b)" using assms(5) c1(3) l2(3) c2(3) by simp
  from write_binding [OF c2(2) this, of t3] assms(8) obtain c3 where
    c3: "Store hash t3 key (binding_value ?b) c2 = Some c3" "cache_ok hash c3" "cache_held c3 key = Some (?b, t1 + ttl)" by auto
  have p3: "follow hash t3 key (bindOpenAICompatSessionResponseID ttl t1 t3 i None) c2 = Some c3"
    using c3(1) by (simp add: follow_def bindOpenAICompatSessionResponseID_def)
  obtain c4 where c4: "Load t3 key c3 = Some (Some ?b, c4)"
    using load_live [OF c3(2,3) assms(8)] by blast
  have "perform hash ttl t3 t3 key IsDisabled c3 = Some (Flag False, c4)"
    "perform hash ttl t3 t3 key GetID c3 = Some (Text (trim_space i), c4)"
    using assms(2,3,8) c4 trim_space_idem [of i]
    by (simp_all add: perform_def follow_def isOpenAICompatSessionContinuationDisabled_def getOpenAICompatSessionResponseID_def
        past_expiry_def time_defs)
  with c1(1) p2 p3 show ?thesis by blast
qed

subsection \<open>One conversation\<close>

definition flat_hash :: "string \<Rightarrow> 64 word" where
  "flat_hash k = of_nat (length k)"

definition fresh_cache :: "openAICompatSessionResponseBinding sessionMemoryCache" where
  "fresh_cache = zero_cache 0 0 0"

definition given_up_cache :: "openAICompatSessionResponseBinding sessionMemoryCache" where
  "given_up_cache = snd (the (perform flat_hash 100 10 11 ''k'' Disable fresh_cache))"

definition sample_ops :: "(continuation_op \<times> gotime \<times> gotime) list" where
  "sample_ops = [(BindID ''resp'', 12, 13), (BindTurn ''st'', 14, 14), (GetID, 20, 20)]"

lemma fresh_run: "cache_run flat_hash [] (zero_cache 0 0 0) = Some ([], fresh_cache)"
  by (simp add: fresh_cache_def)

lemma fresh_held: "cache_held fresh_cache k = None"
  by (simp add: fresh_cache_def cache_held_def lookup_def recency_def zero_cache_def)

lemma fresh_fits: "cache_fits fresh_cache k v \<longleftrightarrow> int (length k) + int (sv_cost v) \<le> 33553920"
  by (simp add: cache_fits_def fresh_cache_def zero_cache_def limits_def initLocked_def sessionMemoryCacheMaxBytes_def
      sessionMemoryCacheEntryCost_def)

lemma blank_cost: "sv_cost (binding_value (blank turn)) = length turn"
  by (simp add: binding_value_def bindingCost_def blank_def)

lemma follow_total: "cache_ok hash c \<Longrightarrow> \<exists>c'. follow hash t key f c = Some c'"
proof (cases f)
  case Drop
  assume "cache_ok hash c"
  from sessions.remove_law [OF this, of key] Drop show ?thesis by (auto simp: follow_def)
next
  case w: (Write b)
  assume "cache_ok hash c"
  from sessions.put_law [OF this, of t key "binding_value b"] have "\<exists>c'. Store hash t key (binding_value b) c = Some c'" by blast
  with w show ?thesis by (simp add: follow_def)
qed (simp add: follow_def)

lemma given_up_cache: "perform flat_hash 100 10 11 ''k'' Disable fresh_cache = Some (Unit, given_up_cache)"
proof -
  have ok: "cache_ok flat_hash fresh_cache" by (simp add: fresh_cache_def zero_ok)
  obtain raw c1 where "Load 10 ''k'' fresh_cache = Some (raw, c1)" "cache_ok flat_hash c1"
    using sessions.get_law [OF ok, of 10 "''k''"] by blast
  moreover from follow_total [OF this(2)] obtain c2 where
    "follow flat_hash 11 ''k'' (disableOpenAICompatSessionContinuation 100 10 raw) c1 = Some c2" by blast
  ultimately show ?thesis by (simp add: given_up_cache_def perform_def)
qed

theorem disabled_stays_disabled_witness:
  "\<exists>ans c'. perform_all flat_hash 100 ''k'' sample_ops given_up_cache = Some (ans, c') \<and>
     list_all2 (\<lambda>x a. as_disabled (fst x) a) sample_ops ans"
proof (rule disabled_stays_disabled [OF fresh_run _ _ _ given_up_cache])
  have "length (trim_space ''st'') = 2" by code_simp
  then show "\<forall>(op, t, t') \<in> set sample_ops.
      10 \<le> t \<and> t \<le> t' \<and> t' < 10 + 100 \<and> turn_fits fresh_cache ''k'' op"
    by (simp add: fresh_fits blank_cost sample_ops_def)
qed (simp_all add: fresh_held fresh_fits blank_cost)

theorem bind_overwrites_disable_witness:
  "\<exists>c1 c2 c3 c4 c5. Load 10 ''k'' fresh_cache = Some (None, c1) \<and> perform flat_hash 100 11 11 ''k'' Disable c1 = Some (Unit, c2) \<and>
    follow flat_hash 12 ''k'' (bindOpenAICompatSessionResponseID 100 10 12 ''resp'' None) c2 = Some c3 \<and>
    perform flat_hash 100 12 12 ''k'' IsDisabled c3 = Some (Flag False, c4) \<and>
    perform flat_hash 100 12 12 ''k'' GetID c3 = Some (Text (trim_space ''resp''), c5)"
proof (rule bind_overwrites_disable [OF fresh_run])
  have "length (trim_space ''resp'') = 4" by code_simp
  then show "trim_space ''resp'' \<noteq> []" "cache_fits fresh_cache ''k''
      (binding_value \<lparr>rb_ResponseID = trim_space ''resp'', rb_TurnState = [], rb_ContinuationDisabled = False, rb_ExpiresAt = 0\<rparr>)"
    by (auto simp: fresh_fits binding_value_def bindingCost_def)
qed (simp_all add: fresh_held)

end
