(* ===== verification/Stream_Circuit.thy ===== *)
theory Stream_Circuit
  imports Prelude Platforms
begin

section \<open>The proxy stream circuit\<close>

text \<open>
  \<open>service/openai_proxy_stream_circuit.go\<close>: a bounded table, keyed by proxy, that quarantines a proxy
  after repeated stream disconnects. Every method of the circuit is one critical section and takes
  the time it is given. Go iterates over the table in an unspecified order; where the order matters,
  in the choice between equally old entries, it is the argument \<open>order\<close>, a list of the keys.
\<close>

subsection \<open>Settings and state\<close>

record openAIProxyStreamCircuitSettings =
  cs_disabled :: bool
  cs_failureThreshold :: int
  cs_failureWindow :: duration
  cs_quarantineTTL :: duration
  cs_collapseInterval :: duration
  cs_maxEntries :: int

record openAIProxyStreamCircuitEntry =
  ce_failureCount :: int
  ce_windowStart :: gotime
  ce_lastFailureAt :: gotime
  ce_blockedUntil :: gotime
  ce_lastTouched :: gotime

record openAIProxyStreamCircuit =
  ci_settings :: openAIProxyStreamCircuitSettings
  ci_entries :: "(int, openAIProxyStreamCircuitEntry) fmap"

definition defaultOpenAIProxyStreamFailureThreshold :: int where
  "defaultOpenAIProxyStreamFailureThreshold = 2"

definition defaultOpenAIProxyStreamFailureWindow :: duration where
  "defaultOpenAIProxyStreamFailureWindow = minute"

definition defaultOpenAIProxyStreamQuarantineTTL :: duration where
  "defaultOpenAIProxyStreamQuarantineTTL = 10 * minute"

definition defaultOpenAIProxyStreamCircuitMaxEntries :: int where
  "defaultOpenAIProxyStreamCircuitMaxEntries = 4096"

definition defaultOpenAIProxyStreamFailureCollapse :: duration where
  "defaultOpenAIProxyStreamFailureCollapse = 3 * second"

text \<open>The fields of \<open>Gateway.OpenAIProxyStreamCircuit\<close> in the configuration.\<close>

record StreamCircuitConfig =
  cc_Disabled :: bool
  cc_FailureThreshold :: int
  cc_WindowSeconds :: int
  cc_TTLSeconds :: int

definition resolveOpenAIProxyStreamCircuitSettings :: "StreamCircuitConfig option \<Rightarrow> openAIProxyStreamCircuitSettings" where
  "resolveOpenAIProxyStreamCircuitSettings cfg =
     (let s = \<lparr>cs_disabled = False, cs_failureThreshold = defaultOpenAIProxyStreamFailureThreshold,
                cs_failureWindow = defaultOpenAIProxyStreamFailureWindow, cs_quarantineTTL = defaultOpenAIProxyStreamQuarantineTTL,
                cs_collapseInterval = defaultOpenAIProxyStreamFailureCollapse,
                cs_maxEntries = defaultOpenAIProxyStreamCircuitMaxEntries\<rparr>
      in (case cfg of
            None \<Rightarrow> s
          | Some c \<Rightarrow>
              s\<lparr>cs_disabled := cc_Disabled c,
                cs_failureThreshold := (if 0 < cc_FailureThreshold c then cc_FailureThreshold c else cs_failureThreshold s),
                cs_failureWindow := (if 0 < cc_WindowSeconds c then wrap64 (cc_WindowSeconds c * second) else cs_failureWindow s),
                cs_quarantineTTL := (if 0 < cc_TTLSeconds c then wrap64 (cc_TTLSeconds c * second) else cs_quarantineTTL s)\<rparr>))"

definition newOpenAIProxyStreamCircuit :: "openAIProxyStreamCircuitSettings \<Rightarrow> openAIProxyStreamCircuit" where
  "newOpenAIProxyStreamCircuit s =
     \<lparr>ci_settings =
        s\<lparr>cs_failureThreshold := (if cs_failureThreshold s \<le> 0 then defaultOpenAIProxyStreamFailureThreshold else cs_failureThreshold s),
          cs_failureWindow := (if cs_failureWindow s \<le> 0 then defaultOpenAIProxyStreamFailureWindow else cs_failureWindow s),
          cs_quarantineTTL := (if cs_quarantineTTL s \<le> 0 then defaultOpenAIProxyStreamQuarantineTTL else cs_quarantineTTL s),
          cs_maxEntries := (if cs_maxEntries s \<le> 0 then defaultOpenAIProxyStreamCircuitMaxEntries else cs_maxEntries s),
          cs_collapseInterval := (if cs_collapseInterval s < 0 then 0 else cs_collapseInterval s)\<rparr>,
      ci_entries = fmempty\<rparr>"

subsection \<open>Making room\<close>

definition stale_entry :: "openAIProxyStreamCircuitSettings \<Rightarrow> gotime \<Rightarrow> openAIProxyStreamCircuitEntry \<Rightarrow> bool" where
  "stale_entry s now e \<longleftrightarrow>
     (is_zero_time (ce_blockedUntil e) \<and> cs_failureWindow s < time_sub now (ce_lastTouched e)) \<or>
     (\<not> is_zero_time (ce_blockedUntil e) \<and> \<not> time_before now (ce_blockedUntil e))"

text \<open>The search for the entry touched longest ago; 0 stands for none found yet.\<close>

fun oldest_entry :: "(int, openAIProxyStreamCircuitEntry) fmap \<Rightarrow> int list \<Rightarrow> int \<times> gotime \<Rightarrow> int \<times> gotime" where
  "oldest_entry m [] best = best"
| "oldest_entry m (p # ps) (oldestProxyID, oldest) =
     (case fmlookup m p of
        None \<Rightarrow> oldest_entry m ps (oldestProxyID, oldest)
      | Some e \<Rightarrow>
          if oldestProxyID = 0 \<or> time_before (ce_lastTouched e) oldest then oldest_entry m ps (p, ce_lastTouched e)
          else oldest_entry m ps (oldestProxyID, oldest))"

definition ensureCapacityLocked :: "int list \<Rightarrow> gotime \<Rightarrow> openAIProxyStreamCircuit \<Rightarrow> openAIProxyStreamCircuit" where
  "ensureCapacityLocked order now c =
     (let s = ci_settings c; m = ci_entries c
      in if int (map_length m) < cs_maxEntries s then c
         else (let m1 = fmfilter (\<lambda>p. \<not> (case fmlookup m p of None \<Rightarrow> False | Some e \<Rightarrow> stale_entry s now e)) m
               in if int (map_length m1) < cs_maxEntries s then c\<lparr>ci_entries := m1\<rparr>
                  else (let p = fst (oldest_entry m1 order (0, 0))
                        in c\<lparr>ci_entries := (if 0 < p then fmdrop p m1 else m1)\<rparr>)))"

subsection \<open>The methods\<close>

definition zero_circuit_entry :: openAIProxyStreamCircuitEntry where
  "zero_circuit_entry = \<lparr>ce_failureCount = 0, ce_windowStart = 0, ce_lastFailureAt = 0, ce_blockedUntil = 0, ce_lastTouched = 0\<rparr>"

definition window_reset :: "openAIProxyStreamCircuitSettings \<Rightarrow> gotime \<Rightarrow> openAIProxyStreamCircuitEntry \<Rightarrow> openAIProxyStreamCircuitEntry" where
  "window_reset s now e =
     (if is_zero_time (ce_windowStart e) \<or> time_before now (ce_windowStart e) \<or> cs_failureWindow s < time_sub now (ce_windowStart e)
      then e\<lparr>ce_failureCount := 0, ce_windowStart := now, ce_blockedUntil := 0\<rparr> else e)"

text \<open>The part of \<open>recordFailure\<close> after room has been made: a burst counts once.\<close>

definition count_incident :: "int \<Rightarrow> gotime \<Rightarrow> openAIProxyStreamCircuitEntry \<Rightarrow> openAIProxyStreamCircuit \<Rightarrow>
    (bool \<times> gotime) \<times> openAIProxyStreamCircuit" where
  "count_incident proxyID now e0 c =
     (let s = ci_settings c; e = window_reset s now e0; since = time_sub now (ce_lastFailureAt e)
      in if 0 < cs_collapseInterval s \<and> \<not> is_zero_time (ce_lastFailureAt e) \<and> 0 \<le> since \<and> since < cs_collapseInterval s then
           ((False, 0), c\<lparr>ci_entries := fmupd proxyID (e\<lparr>ce_lastTouched := now\<rparr>) (ci_entries c)\<rparr>)
         else
           (let e1 = e\<lparr>ce_failureCount := ce_failureCount e + 1, ce_lastFailureAt := now, ce_lastTouched := now\<rparr>;
                tripped = (cs_failureThreshold s \<le> ce_failureCount e1);
                e2 = (if tripped then e1\<lparr>ce_blockedUntil := now + cs_quarantineTTL s\<rparr> else e1)
            in ((tripped, ce_blockedUntil e2), c\<lparr>ci_entries := fmupd proxyID e2 (ci_entries c)\<rparr>)))"

definition recordFailure :: "int list \<Rightarrow> int \<Rightarrow> gotime \<Rightarrow> openAIProxyStreamCircuit \<Rightarrow> (bool \<times> gotime) \<times> openAIProxyStreamCircuit" where
  "recordFailure order proxyID now c =
     (if cs_disabled (ci_settings c) \<or> proxyID \<le> 0 then ((False, 0), c)
      else (case fmlookup (ci_entries c) proxyID of
              Some entry \<Rightarrow>
                if time_before now (ce_blockedUntil entry) then
                  ((False, ce_blockedUntil entry), c\<lparr>ci_entries := fmupd proxyID (entry\<lparr>ce_lastTouched := now\<rparr>) (ci_entries c)\<rparr>)
                else count_incident proxyID now entry c
            | None \<Rightarrow> count_incident proxyID now zero_circuit_entry (ensureCapacityLocked order now c)))"

definition recordSuccess :: "int \<Rightarrow> openAIProxyStreamCircuit \<Rightarrow> bool \<times> openAIProxyStreamCircuit" where
  "recordSuccess proxyID c =
     (if proxyID \<le> 0 then (False, c)
      else (case fmlookup (ci_entries c) proxyID of
              None \<Rightarrow> (False, c)
            | Some e \<Rightarrow> (True, c\<lparr>ci_entries := fmdrop proxyID (ci_entries c)\<rparr>)))"

definition isBlocked :: "int \<Rightarrow> gotime \<Rightarrow> openAIProxyStreamCircuit \<Rightarrow> bool \<times> openAIProxyStreamCircuit" where
  "isBlocked proxyID now c =
     (if cs_disabled (ci_settings c) \<or> proxyID \<le> 0 then (False, c)
      else (case fmlookup (ci_entries c) proxyID of
              None \<Rightarrow> (False, c)
            | Some e \<Rightarrow>
                if is_zero_time (ce_blockedUntil e) then (False, c)
                else if \<not> time_before now (ce_blockedUntil e) then (False, c\<lparr>ci_entries := fmdrop proxyID (ci_entries c)\<rparr>)
                else (True, c)))"

definition activeBlockCount :: "gotime \<Rightarrow> openAIProxyStreamCircuit \<Rightarrow> nat" where
  "activeBlockCount now c =
     (if cs_disabled (ci_settings c) then 0
      else map_length (fmfilter (\<lambda>p. case fmlookup (ci_entries c) p of None \<Rightarrow> False
             | Some e \<Rightarrow> \<not> is_zero_time (ce_blockedUntil e) \<and> time_before now (ce_blockedUntil e)) (ci_entries c)))"

subsection \<open>The gateway's use of it\<close>

text \<open>The fields of an account that are read here, and the kinds of stream error told apart.\<close>

record circuit_account =
  ac_Platform :: string
  ac_ProxyID :: "int option"

datatype stream_error = Canceled | DeadlineExceeded | Disconnected

definition openAIProxyStreamCircuitProxyID :: "circuit_account option \<Rightarrow> int option" where
  "openAIProxyStreamCircuitProxyID account =
     (case account of
        None \<Rightarrow> None
      | Some a \<Rightarrow>
          if ac_Platform a \<noteq> PlatformOpenAI then None
          else (case ac_ProxyID a of None \<Rightarrow> None | Some p \<Rightarrow> if p \<le> 0 then None else Some p))"

definition recordOpenAIProxyStreamDisconnect :: "int list \<Rightarrow> circuit_account option \<Rightarrow> stream_error option \<Rightarrow> gotime \<Rightarrow>
    openAIProxyStreamCircuit \<Rightarrow> openAIProxyStreamCircuit" where
  "recordOpenAIProxyStreamDisconnect order account streamErr now c =
     (case openAIProxyStreamCircuitProxyID account of
        None \<Rightarrow> c
      | Some proxyID \<Rightarrow>
          if streamErr = None \<or> streamErr = Some Canceled \<or> streamErr = Some DeadlineExceeded then c
          else snd (recordFailure order proxyID now c))"

definition clearOpenAIProxyStreamDisconnect :: "circuit_account option \<Rightarrow> openAIProxyStreamCircuit \<Rightarrow> openAIProxyStreamCircuit" where
  "clearOpenAIProxyStreamDisconnect account c =
     (case openAIProxyStreamCircuitProxyID account of None \<Rightarrow> c | Some proxyID \<Rightarrow> snd (recordSuccess proxyID c))"

definition isOpenAIProxyStreamQuarantined :: "bool \<Rightarrow> circuit_account option \<Rightarrow> gotime \<Rightarrow> openAIProxyStreamCircuit \<Rightarrow>
    bool \<times> openAIProxyStreamCircuit" where
  "isOpenAIProxyStreamQuarantined bypassed account now c =
     (case openAIProxyStreamCircuitProxyID account of
        None \<Rightarrow> (False, c)
      | Some proxyID \<Rightarrow> if bypassed then (False, c) else isBlocked proxyID now c)"

end
