(* ===== verification/Stream_Circuit_Props.thy ===== *)
theory Stream_Circuit_Props
  imports Stream_Circuit "HOL-Library.Sublist"
begin

section \<open>When a proxy is quarantined\<close>

text \<open>
  A quarantine rests on enough separate incidents of the same proxy within the window, none of them
  forgiven by a later success, and ends with its time to live; enough incidents do lead to one; and
  the table stays within its bound.
\<close>

subsection \<open>Histories\<close>

datatype circuit_call = Disconnect int gotime "int list" | Recovered int | Asked int gotime

fun circuit_step :: "circuit_call \<Rightarrow> openAIProxyStreamCircuit \<Rightarrow> openAIProxyStreamCircuit" where
  "circuit_step (Disconnect p t order) c = snd (recordFailure order p t c)"
| "circuit_step (Recovered p) c = snd (recordSuccess p c)"
| "circuit_step (Asked p t) c = snd (isBlocked p t c)"

fun step_times :: "circuit_call \<Rightarrow> gotime list" where
  "step_times (Disconnect p t order) = [t]"
| "step_times (Recovered p) = []"
| "step_times (Asked p t) = [t]"

definition timely :: "circuit_call list \<Rightarrow> bool" where
  "timely hist \<longleftrightarrow> sorted (concat (map step_times hist)) \<and> (\<forall>t \<in> set (concat (map step_times hist)). 0 < t)"

text \<open>The disconnects of a proxy since its last success.\<close>

fun note_incident :: "int \<Rightarrow> circuit_call \<Rightarrow> gotime list \<Rightarrow> gotime list" where
  "note_incident p (Disconnect q t order) ts = (if q = p then ts @ [t] else ts)"
| "note_incident p (Recovered q) ts = (if q = p then [] else ts)"
| "note_incident p (Asked q t) ts = ts"

definition incidents :: "int \<Rightarrow> circuit_call list \<Rightarrow> gotime list" where
  "incidents p hist = fold (note_incident p) hist []"

definition spaced :: "duration \<Rightarrow> gotime list \<Rightarrow> bool" where
  "spaced d ts \<longleftrightarrow> successively (\<lambda>a b. d \<le> b - a) ts"

subsection \<open>Justified entries\<close>

definition counted :: "openAIProxyStreamCircuitSettings \<Rightarrow> gotime list \<Rightarrow> openAIProxyStreamCircuitEntry \<Rightarrow> gotime list \<Rightarrow> bool" where
  "counted s inc e ts \<longleftrightarrow> subseq ts inc \<and> int (length ts) = ce_failureCount e \<and> spaced (cs_collapseInterval s) ts \<and>
     (\<forall>t \<in> set ts. ce_windowStart e \<le> t \<and> t \<le> ce_windowStart e + cs_failureWindow s) \<and> (ts \<noteq> [] \<longrightarrow> last ts = ce_lastFailureAt e)"

definition grounds :: "openAIProxyStreamCircuitSettings \<Rightarrow> gotime list \<Rightarrow> gotime \<Rightarrow> gotime list \<Rightarrow> bool" where
  "grounds s inc til ts \<longleftrightarrow> subseq ts inc \<and> ts \<noteq> [] \<and> cs_failureThreshold s \<le> int (length ts) \<and> spaced (cs_collapseInterval s) ts \<and>
     last ts - hd ts \<le> cs_failureWindow s \<and> til = last ts + cs_quarantineTTL s"

definition justified :: "openAIProxyStreamCircuitSettings \<Rightarrow> gotime list \<Rightarrow> openAIProxyStreamCircuitEntry \<Rightarrow> bool" where
  "justified s inc e \<longleftrightarrow> (\<exists>ts. counted s inc e ts) \<and> (ce_blockedUntil e = 0 \<or> (\<exists>ts. grounds s inc (ce_blockedUntil e) ts))"

definition sane :: "openAIProxyStreamCircuitSettings \<Rightarrow> bool" where
  "sane s \<longleftrightarrow> 0 < cs_failureThreshold s \<and> 0 < cs_failureWindow s \<and> cs_failureWindow s < 2 ^ 63 - 1 \<and> 0 < cs_quarantineTTL s \<and>
     0 \<le> cs_collapseInterval s \<and> 0 < cs_maxEntries s"

lemma justified_more: "justified s inc e \<Longrightarrow> justified s (inc @ [t]) e"
  unfolding justified_def counted_def grounds_def using list_emb_prefix [where ys = inc and zs = "[t]" and P = "(=)"] by blast

lemma justified_touch: "justified s inc (e\<lparr>ce_lastTouched := t\<rparr>) = justified s inc e"
  by (simp add: justified_def counted_def)

lemma justified_zero: "justified s inc zero_circuit_entry"
  by (auto simp: justified_def counted_def zero_circuit_entry_def spaced_def intro!: exI [of _ "[]"])

lemma justified_reset: "justified s inc e \<Longrightarrow> justified s inc (window_reset s now e)"
  unfolding window_reset_def
  by (auto simp: justified_def counted_def spaced_def intro!: exI [of _ "[]"])

lemma reset_window:
  assumes "sane s" and "0 < now"
  shows "ce_windowStart (window_reset s now e) \<le> now" and "now \<le> ce_windowStart (window_reset s now e) + cs_failureWindow s"
  using assms by (auto simp: window_reset_def sane_def time_defs time_sub_def)

lemma subseq_mem: "subseq xs ys \<Longrightarrow> x \<in> set xs \<Longrightarrow> x \<in> set ys"
  by (induction rule: list_emb.induct) auto

lemma spaced_snoc: "spaced d (ts @ [t]) \<longleftrightarrow> spaced d ts \<and> (ts \<noteq> [] \<longrightarrow> d \<le> t - last ts)"
  by (auto simp: spaced_def successively_append_iff)

text \<open>One more incident.\<close>

lemma counted_incident:
  assumes s: "sane s" and now: "0 < now" "\<forall>t \<in> set inc. 0 < t \<and> t \<le> now" and e: "justified s inc e"
    and win: "ce_windowStart e \<le> now" "now \<le> ce_windowStart e + cs_failureWindow s"
    and count: "\<not> (0 < cs_collapseInterval s \<and> \<not> is_zero_time (ce_lastFailureAt e) \<and> 0 \<le> time_sub now (ce_lastFailureAt e) \<and>
        time_sub now (ce_lastFailureAt e) < cs_collapseInterval s)"
  obtains ts where "counted s inc e ts" and
    "counted s (inc @ [now]) (e\<lparr>ce_failureCount := ce_failureCount e + 1, ce_lastFailureAt := now, ce_lastTouched := now\<rparr>) (ts @ [now])"
proof -
  obtain ts where ts: "counted s inc e ts" using e by (auto simp: justified_def)
  have "cs_collapseInterval s \<le> now - last ts" if "ts \<noteq> []"
  proof -
    have "last ts \<in> set inc" using ts that last_in_set [OF that] unfolding counted_def using subseq_mem by metis
    with now(2) have l: "0 < last ts" "last ts \<le> now" by auto
    with ts that count s show ?thesis
      by (auto simp: counted_def sane_def time_defs time_sub_def min_def max_def split: if_splits)
  qed
  with ts win have "counted s (inc @ [now]) (e\<lparr>ce_failureCount := ce_failureCount e + 1, ce_lastFailureAt := now, ce_lastTouched := now\<rparr>) (ts @ [now])"
    by (auto simp: counted_def spaced_snoc intro: list_emb_append_mono)
  with ts that show ?thesis by blast
qed

lemma counted_span:
  assumes "counted s inc e ts" and "ts \<noteq> []"
  shows "last ts - hd ts \<le> cs_failureWindow s"
proof -
  have "last ts \<in> set ts" "hd ts \<in> set ts" using assms(2) by simp_all
  with assms(1) have "last ts \<le> ce_windowStart e + cs_failureWindow s" "ce_windowStart e \<le> hd ts" unfolding counted_def by blast+
  then show ?thesis by simp
qed

subsection \<open>Steps\<close>

definition all_justified :: "circuit_call list \<Rightarrow> openAIProxyStreamCircuit \<Rightarrow> bool" where
  "all_justified hist c \<longleftrightarrow> sane (ci_settings c) \<and>
     (\<forall>p e. fmlookup (ci_entries c) p = Some e \<longrightarrow> 0 < p \<and> justified (ci_settings c) (incidents p hist) e)"

lemma incidents_snoc: "incidents p (hist @ [call]) = note_incident p call (incidents p hist)"
  by (simp add: incidents_def)

lemma incidents_times: "t \<in> set (incidents p hist) \<Longrightarrow> t \<in> set (concat (map step_times hist))"
proof (induction hist rule: rev_induct)
  case (snoc call hist)
  then show ?case by (cases call) (auto simp: incidents_snoc split: if_splits)
qed (simp add: incidents_def)

lemma timely_snoc:
  assumes "timely (hist @ [Disconnect q now order])"
  shows "timely hist" and "0 < now" and "\<forall>t \<in> set (incidents p hist). 0 < t \<and> t \<le> now"
proof -
  have t: "sorted (concat (map step_times hist))" "\<forall>t \<in> set (concat (map step_times hist)). 0 < t \<and> t \<le> now" "0 < now"
    using assms by (auto simp: timely_def sorted_append)
  then show "timely hist" "0 < now" by (auto simp: timely_def)
  show "\<forall>t \<in> set (incidents p hist). 0 < t \<and> t \<le> now" using t(2) incidents_times by blast
qed

lemma ensure_settings [simp]: "ci_settings (ensureCapacityLocked order now c) = ci_settings c"
  by (simp add: ensureCapacityLocked_def Let_def)

lemma ensure_sub: "fmlookup (ci_entries (ensureCapacityLocked order now c)) p = Some e \<Longrightarrow> fmlookup (ci_entries c) p = Some e"
  by (auto simp: ensureCapacityLocked_def Let_def split: if_splits)

lemma count_settings [simp]: "ci_settings (snd (count_incident p now e c)) = ci_settings c"
  by (simp add: count_incident_def Let_def)

lemma count_justified:
  assumes s: "sane (ci_settings c)" and now: "0 < now" "\<forall>t \<in> set inc. 0 < t \<and> t \<le> now" and e: "justified (ci_settings c) inc e"
  shows "\<exists>e'. ci_entries (snd (count_incident p now e c)) = fmupd p e' (ci_entries c) \<and> justified (ci_settings c) (inc @ [now]) e'"
proof -
  let ?s = "ci_settings c"
  define e0 where "e0 = window_reset ?s now e"
  have j: "justified ?s inc e0" unfolding e0_def by (rule justified_reset [OF e])
  note win = reset_window [OF s now(1), of e, folded e0_def]
  let ?burst = "0 < cs_collapseInterval ?s \<and> \<not> is_zero_time (ce_lastFailureAt e0) \<and> 0 \<le> time_sub now (ce_lastFailureAt e0) \<and>
      time_sub now (ce_lastFailureAt e0) < cs_collapseInterval ?s"
  show ?thesis
  proof (cases ?burst)
    case True
    then have "ci_entries (snd (count_incident p now e c)) = fmupd p (e0\<lparr>ce_lastTouched := now\<rparr>) (ci_entries c)"
      by (simp add: count_incident_def Let_def e0_def)
    with justified_more [OF j] justified_touch show ?thesis by metis
  next
    case False
    define e1 where "e1 = e0\<lparr>ce_failureCount := ce_failureCount e0 + 1, ce_lastFailureAt := now, ce_lastTouched := now\<rparr>"
    obtain ts where ts: "counted ?s inc e0 ts" "counted ?s (inc @ [now]) e1 (ts @ [now])"
      using counted_incident [OF s now j win False] unfolding e1_def by blast
    define e2 where "e2 = (if cs_failureThreshold ?s \<le> ce_failureCount e1 then e1\<lparr>ce_blockedUntil := now + cs_quarantineTTL ?s\<rparr> else e1)"
    have upd: "ci_entries (snd (count_incident p now e c)) = fmupd p e2 (ci_entries c)"
      using False by (auto simp: count_incident_def Let_def e0_def e1_def e2_def)
    have "counted ?s (inc @ [now]) e2 (ts @ [now])" using ts(2) by (auto simp: e2_def counted_def)
    then have "\<exists>ts. counted ?s (inc @ [now]) e2 ts" by blast
    moreover have "ce_blockedUntil e2 = 0 \<or> (\<exists>ts. grounds ?s (inc @ [now]) (ce_blockedUntil e2) ts)"
    proof (cases "cs_failureThreshold ?s \<le> ce_failureCount e1")
      case True
      with ts(2) counted_span [OF ts(2)] have "grounds ?s (inc @ [now]) (ce_blockedUntil e2) (ts @ [now])"
        by (auto simp: grounds_def counted_def e2_def)
      then show ?thesis by blast
    next
      case False
      with justified_more [OF j] show ?thesis by (simp add: e2_def e1_def justified_def)
    qed
    ultimately show ?thesis using upd by (auto simp: justified_def)
  qed
qed

lemma step_justified:
  assumes "all_justified hist c" and "timely (hist @ [call])"
  shows "all_justified (hist @ [call]) (circuit_step call c)"
proof -
  have s: "sane (ci_settings c)" using assms(1) by (simp add: all_justified_def)
  have old: "0 < p \<and> justified (ci_settings c) (incidents p hist) e" if "fmlookup (ci_entries c) p = Some e" for p e
    using that assms(1) by (simp add: all_justified_def)
  have old': "justified (ci_settings c) (incidents p (hist @ [call])) e" if "fmlookup (ci_entries c) p = Some e" "call \<noteq> Recovered p" for p e
    using old [OF that(1)] that(2) justified_more by (cases call) (auto simp: incidents_snoc)
  show ?thesis
  proof (cases call)
    case (Disconnect q now order)
    with timely_snoc assms(2) have now: "0 < now" "\<And>p. \<forall>t \<in> set (incidents p hist). 0 < t \<and> t \<le> now" by blast+
    have upd: "all_justified (hist @ [call]) (snd (count_incident q now e c1))"
      if e: "justified (ci_settings c) (incidents q hist) e" and c1: "ci_settings c1 = ci_settings c" and q: "0 < q"
        and sub: "\<And>p e. fmlookup (ci_entries c1) p = Some e \<Longrightarrow> fmlookup (ci_entries c) p = Some e" for e c1
    proof -
      obtain e' where e': "ci_entries (snd (count_incident q now e c1)) = fmupd q e' (ci_entries c1)"
        "justified (ci_settings c1) (incidents q hist @ [now]) e'"
        using count_justified [of c1 now "incidents q hist" e q] s now e c1 by auto
      show ?thesis
        using e' s q c1 old old' [OF sub] sub Disconnect by (auto simp: all_justified_def incidents_snoc split: if_splits)
    qed
    consider (off) "cs_disabled (ci_settings c) \<or> q \<le> 0" | (blocked) e where "fmlookup (ci_entries c) q = Some e" "now < ce_blockedUntil e"
        "\<not> cs_disabled (ci_settings c)" "0 < q"
      | (known) e where "fmlookup (ci_entries c) q = Some e" "\<not> now < ce_blockedUntil e" "\<not> cs_disabled (ci_settings c)" "0 < q"
      | (new) "fmlookup (ci_entries c) q = None" "\<not> cs_disabled (ci_settings c)" "0 < q" by fastforce
    then show ?thesis
    proof cases
      case off
      with Disconnect s old old' show ?thesis by (auto simp: recordFailure_def all_justified_def)
    next
      case blocked
      with Disconnect s old old' show ?thesis by (auto simp: recordFailure_def all_justified_def time_defs justified_touch)
    next
      case known
      with upd [of e c] old have "all_justified (hist @ [call]) (snd (count_incident q now e c))" by blast
      with known Disconnect show ?thesis by (simp add: recordFailure_def time_defs)
    next
      case new
      have "all_justified (hist @ [call]) (snd (count_incident q now zero_circuit_entry (ensureCapacityLocked order now c)))"
        by (rule upd [OF justified_zero ensure_settings new(3) ensure_sub])
      with new Disconnect show ?thesis by (simp add: recordFailure_def)
    qed
  next
    case (Recovered q)
    have sub: "ci_settings (circuit_step call c) = ci_settings c"
      by (simp add: Recovered recordSuccess_def split: option.split)
    have gone: "fmlookup (ci_entries (circuit_step call c)) p = Some e \<Longrightarrow> fmlookup (ci_entries c) p = Some e \<and> (p \<noteq> q \<or> q \<le> 0)" for p e
      by (cases "fmlookup (ci_entries c) q") (auto simp: Recovered recordSuccess_def split: if_splits)
    show ?thesis unfolding all_justified_def sub
    proof (intro conjI allI impI s)
      fix p e assume "fmlookup (ci_entries (circuit_step call c)) p = Some e"
      with gone have h: "fmlookup (ci_entries c) p = Some e" and "p \<noteq> q \<or> q \<le> 0" by blast+
      with old [OF h(1)] have ne: "call \<noteq> Recovered p" using Recovered by auto
      show "0 < p" using old [OF h(1)] by simp
      show "justified (ci_settings c) (incidents p (hist @ [call])) e" by (rule old' [OF h ne])
    qed
  next
    case (Asked q now)
    have sub: "ci_settings (circuit_step call c) = ci_settings c" "fmlookup (ci_entries (circuit_step call c)) p = Some e \<Longrightarrow>
        fmlookup (ci_entries c) p = Some e" for p e
      by (auto simp: Asked isBlocked_def split: option.splits if_splits)
    show ?thesis unfolding all_justified_def sub(1)
    proof (intro conjI allI impI s)
      fix p e assume "fmlookup (ci_entries (circuit_step call c)) p = Some e"
      with sub(2) have h: "fmlookup (ci_entries c) p = Some e" "call \<noteq> Recovered p" by (auto simp: Asked)
      show "0 < p" using old [OF h(1)] by simp
      show "justified (ci_settings c) (incidents p (hist @ [call])) e" by (rule old' [OF h])
    qed
  qed
qed

subsection \<open>From the configuration\<close>

lemma wrap64_even: "even n \<Longrightarrow> wrap64 n \<noteq> 2 ^ 63 - 1"
proof
  assume "even n" "wrap64 n = 2 ^ 63 - 1"
  then have "(n + 2 ^ 63) mod 2 ^ 64 = 2 ^ 64 - 1" by (simp add: wrap64_def)
  moreover have "even ((n + 2 ^ 63) mod 2 ^ 64)" using \<open>even n\<close> by (simp add: dvd_mod)
  ultimately show False by simp
qed

lemma wrap64_less: "wrap64 n < 2 ^ 63"
  by (simp add: wrap64_def)

definition configured :: "StreamCircuitConfig option \<Rightarrow> openAIProxyStreamCircuit" where
  "configured cfg = newOpenAIProxyStreamCircuit (resolveOpenAIProxyStreamCircuitSettings cfg)"

lemma configured_sane: "sane (ci_settings (configured cfg))"
proof -
  have "wrap64 (n * second) < 2 ^ 63 - 1" for n
    using wrap64_even [of "n * second"] wrap64_less [of "n * second"] by (simp add: second_def)
  then show ?thesis
    by (auto simp: configured_def newOpenAIProxyStreamCircuit_def resolveOpenAIProxyStreamCircuitSettings_def sane_def Let_def
        defaultOpenAIProxyStreamFailureThreshold_def defaultOpenAIProxyStreamFailureWindow_def defaultOpenAIProxyStreamQuarantineTTL_def
        defaultOpenAIProxyStreamCircuitMaxEntries_def defaultOpenAIProxyStreamFailureCollapse_def minute_def second_def
        split: option.split)
qed

lemma run_justified: "timely hist \<Longrightarrow> all_justified hist (fold circuit_step hist (configured cfg))"
proof (induction hist rule: rev_induct)
  case Nil
  show ?case using configured_sane [of cfg] by (simp add: all_justified_def configured_def newOpenAIProxyStreamCircuit_def)
next
  case (snoc call hist)
  then have "timely hist" by (simp add: timely_def sorted_append)
  with snoc step_justified show ?case by simp
qed

lemma step_settings: "ci_settings (circuit_step call c) = ci_settings c"
  by (cases call) (auto simp: recordFailure_def recordSuccess_def isBlocked_def split: option.split)

lemma run_settings: "ci_settings (fold circuit_step hist c) = ci_settings c"
  by (induction hist arbitrary: c) (simp_all add: step_settings)

text \<open>
  Property C38. No proxy is quarantined without cause: if a proxy is blocked after any timely history,
  it had at least as many disconnects as the threshold since its last success, each at least the
  collapse interval after the one before, all within the failure window, and the time to live counted
  from the last of them is not over.
\<close>

theorem quarantine_justified:
  assumes "timely hist" and "c = fold circuit_step hist (configured cfg)" and "fst (isBlocked p now c)"
  shows "\<exists>ts. subseq ts (incidents p hist) \<and> ts \<noteq> [] \<and> cs_failureThreshold (ci_settings (configured cfg)) \<le> int (length ts) \<and>
    spaced (cs_collapseInterval (ci_settings (configured cfg))) ts \<and>
    last ts - hd ts \<le> cs_failureWindow (ci_settings (configured cfg)) \<and>
    now < last ts + cs_quarantineTTL (ci_settings (configured cfg))"
proof -
  have j: "all_justified hist c" using run_justified [OF assms(1)] assms(2) by simp
  have s: "ci_settings c = ci_settings (configured cfg)" using run_settings assms(2) by simp
  obtain e where e: "fmlookup (ci_entries c) p = Some e" "ce_blockedUntil e \<noteq> 0" "now < ce_blockedUntil e"
    using assms(3) by (auto simp: isBlocked_def time_defs split: option.splits if_splits)
  with j obtain ts where "grounds (ci_settings c) (incidents p hist) (ce_blockedUntil e) ts"
    by (auto simp: all_justified_def justified_def)
  with e(3) s show ?thesis by (auto simp: grounds_def)
qed

subsection \<open>Enough incidents\<close>

definition incident_entry :: "gotime list \<Rightarrow> openAIProxyStreamCircuitEntry" where
  "incident_entry ts = \<lparr>ce_failureCount = int (length ts), ce_windowStart = hd ts, ce_lastFailureAt = last ts, ce_blockedUntil = 0,
     ce_lastTouched = last ts\<rparr>"

lemma spaced_le: "spaced d ts \<Longrightarrow> 0 \<le> d \<Longrightarrow> ts \<noteq> [] \<Longrightarrow> hd ts \<le> last ts"
proof (induction ts rule: rev_induct)
  case (snoc t ts)
  then show ?case by (cases "ts = []") (auto simp: spaced_snoc)
qed simp

text \<open>An incident that is apart from the ones before it and in the window of the first.\<close>

lemma next_incident:
  assumes "sane s" and "cs_collapseInterval s < 2 ^ 63" and "ts \<noteq> []" and "spaced (cs_collapseInterval s) (ts @ [t])" and "0 < hd ts"
    and "t - hd ts \<le> cs_failureWindow s" and "ci_settings c = s"
  shows "ci_entries (snd (count_incident p t (incident_entry ts) c)) =
    fmupd p (let e = incident_entry (ts @ [t]) in
      if cs_failureThreshold s \<le> int (length ts) + 1 then e\<lparr>ce_blockedUntil := t + cs_quarantineTTL s\<rparr> else e) (ci_entries c)"
proof -
  have gap: "cs_collapseInterval s \<le> t - last ts" and sp: "spaced (cs_collapseInterval s) ts" using assms(3,4) by (auto simp: spaced_snoc)
  have le: "hd ts \<le> last ts" using spaced_le [OF sp _ assms(3)] assms(1) by (simp add: sane_def)
  have "window_reset s t (incident_entry ts) = incident_entry ts"
    using assms le gap by (auto simp: window_reset_def incident_entry_def time_defs sane_def time_sub_def)
  moreover have "\<not> time_sub t (last ts) < cs_collapseInterval s"
    using gap assms(1,2) by (auto simp: time_sub_def sane_def)
  ultimately show ?thesis using assms(3,7) by (simp add: count_incident_def Let_def incident_entry_def add.commute)
qed

lemma first_incident:
  assumes "sane s" and "ci_settings c = s"
  shows "ci_entries (snd (count_incident p t zero_circuit_entry c)) =
    fmupd p (let e = incident_entry [t] in
      if cs_failureThreshold s \<le> 1 then e\<lparr>ce_blockedUntil := t + cs_quarantineTTL s\<rparr> else e) (ci_entries c)"
  using assms(2)
  by (simp add: count_incident_def Let_def incident_entry_def zero_circuit_entry_def window_reset_def time_defs)

lemma incidents_counted:
  assumes "sane (ci_settings c)" and "cs_collapseInterval (ci_settings c) < 2 ^ 63" and "\<not> cs_disabled (ci_settings c)" and "0 < p"
    and "fmlookup (ci_entries c) p = None" and "ts \<noteq> []" and "spaced (cs_collapseInterval (ci_settings c)) ts" and "0 < hd ts"
    and "last ts - hd ts \<le> cs_failureWindow (ci_settings c)" and "int (length ts) \<le> cs_failureThreshold (ci_settings c)"
  shows "ci_settings (fold circuit_step (map (\<lambda>t. Disconnect p t (order t)) ts) c) = ci_settings c \<and>
    fmlookup (ci_entries (fold circuit_step (map (\<lambda>t. Disconnect p t (order t)) ts) c)) p =
    Some (if int (length ts) = cs_failureThreshold (ci_settings c)
          then (incident_entry ts)\<lparr>ce_blockedUntil := last ts + cs_quarantineTTL (ci_settings c)\<rparr> else incident_entry ts)"
  using assms(6-)
proof (induction ts rule: rev_induct)
  case (snoc t ts)
  let ?s = "ci_settings c" and ?c = "fold circuit_step (map (\<lambda>t. Disconnect p t (order t)) ts) c"
  have set: "ci_settings ?c = ?s" by (rule run_settings)
  show ?case
  proof (cases "ts = []")
    case True
    with assms(3,4,5) first_incident [OF assms(1), of "ensureCapacityLocked (order t) t c" p t] snoc.prems
    show ?thesis by (auto simp: recordFailure_def Let_def)
  next
    case False
    have sp: "spaced (cs_collapseInterval ?s) ts" using snoc.prems(2) by (simp add: spaced_snoc)
    have "hd ts \<le> last ts" "last ts \<le> t" using spaced_le [OF sp _ False] assms(1) snoc.prems(2) False by (auto simp: sane_def spaced_snoc)
    with snoc False sp have "fmlookup (ci_entries ?c) p = Some (incident_entry ts)" by auto
    moreover have "ci_entries (snd (count_incident p t (incident_entry ts) ?c)) =
      fmupd p (let e = incident_entry (ts @ [t]) in
        if cs_failureThreshold ?s \<le> int (length ts) + 1 then e\<lparr>ce_blockedUntil := t + cs_quarantineTTL ?s\<rparr> else e) (ci_entries ?c)"
      using snoc.prems False by (intro next_incident [OF assms(1,2) False snoc.prems(2) _ _ set]) auto
    moreover have "\<not> t < ce_blockedUntil (incident_entry ts)"
      using snoc.prems(3) \<open>hd ts \<le> last ts\<close> \<open>last ts \<le> t\<close> False by (simp add: incident_entry_def)
    ultimately show ?thesis
      using assms(3,4) set snoc.prems(5) by (auto simp: recordFailure_def time_defs Let_def)
  qed
qed simp

lemma configured_collapse: "cs_collapseInterval (ci_settings (configured cfg)) < 2 ^ 63"
  by (simp add: configured_def newOpenAIProxyStreamCircuit_def resolveOpenAIProxyStreamCircuitSettings_def Let_def
      defaultOpenAIProxyStreamFailureCollapse_def second_def split: option.split)

text \<open>
  Enough incidents do quarantine a proxy: from any state in which the proxy is unknown,
  as many disconnects as the threshold, each at least the collapse interval after the one before and
  all within the window, block it from the last one on until the time to live has passed.
\<close>

theorem incidents_quarantine:
  assumes "c = fold circuit_step hist (configured cfg)" and "s = ci_settings (configured cfg)"
    and "\<not> cs_disabled s" and "0 < p" and "fmlookup (ci_entries c) p = None"
    and "int (length ts) = cs_failureThreshold s" and "spaced (cs_collapseInterval s) ts" and "0 < hd ts"
    and "last ts - hd ts \<le> cs_failureWindow s" and "last ts \<le> now" and "now < last ts + cs_quarantineTTL s"
  shows "fst (isBlocked p now (fold circuit_step (map (\<lambda>t. Disconnect p t (order t)) ts) c))"
proof -
  have s: "ci_settings c = s" using run_settings assms(1,2) by simp
  have sane: "sane (ci_settings c)" "cs_collapseInterval (ci_settings c) < 2 ^ 63"
    using configured_sane configured_collapse s assms(2) by auto
  have "ts \<noteq> []" using assms(6) sane(1) s by (auto simp: sane_def)
  moreover from this have "0 < last ts" using spaced_le [OF assms(7)] assms(8) sane(1) s by (fastforce simp: sane_def)
  ultimately show ?thesis
    using incidents_counted [OF sane, of p ts order] assms(3-9,11) s sane(1)
    by (simp add: isBlocked_def time_defs sane_def)
qed

subsection \<open>The bound\<close>

definition bounded :: "openAIProxyStreamCircuit \<Rightarrow> bool" where
  "bounded c \<longleftrightarrow> int (map_length (ci_entries c)) \<le> cs_maxEntries (ci_settings c) \<and> (\<forall>p. p |\<in>| fmdom (ci_entries c) \<longrightarrow> 0 < p)"

text \<open>The orders of iteration list all keys.\<close>

fun enumerates :: "circuit_call \<Rightarrow> openAIProxyStreamCircuit \<Rightarrow> bool" where
  "enumerates (Disconnect p t order) c \<longleftrightarrow> set order = fset (fmdom (ci_entries c))"
| "enumerates _ c \<longleftrightarrow> True"

fun enumerated :: "circuit_call list \<Rightarrow> openAIProxyStreamCircuit \<Rightarrow> bool" where
  "enumerated [] c \<longleftrightarrow> True"
| "enumerated (call # hist) c \<longleftrightarrow> enumerates call c \<and> enumerated hist (circuit_step call c)"

lemma oldest_known:
  assumes "fst best = 0 \<or> fst best |\<in>| fmdom m" and "fst best |\<in>| fmdom m \<or> (\<exists>p \<in> set order. p |\<in>| fmdom m)"
  shows "fst (oldest_entry m order best) |\<in>| fmdom m"
  using assms
proof (induction m order best rule: oldest_entry.induct)
  case (2 m p ps old t)
  then show ?case by (cases "fmlookup m p") (auto simp: fmdom_notI fmdomI)
qed auto

lemma ensure_bounded:
  assumes "bounded c" and "sane (ci_settings c)" and "set order = fset (fmdom (ci_entries c))"
  shows "int (map_length (ci_entries (ensureCapacityLocked order now c))) < cs_maxEntries (ci_settings c)"
    and "p |\<in>| fmdom (ci_entries (ensureCapacityLocked order now c)) \<Longrightarrow> p |\<in>| fmdom (ci_entries c)"
proof -
  let ?s = "ci_settings c" and ?m = "ci_entries c"
  let ?m1 = "fmfilter (\<lambda>p. \<not> (case fmlookup ?m p of None \<Rightarrow> False | Some e \<Rightarrow> stale_entry ?s now e)) ?m"
  show "p |\<in>| fmdom (ci_entries (ensureCapacityLocked order now c)) \<Longrightarrow> p |\<in>| fmdom (ci_entries c)"
    by (auto simp: ensureCapacityLocked_def Let_def split: if_splits)
  show "int (map_length (ci_entries (ensureCapacityLocked order now c))) < cs_maxEntries ?s"
  proof (cases "int (map_length ?m) < cs_maxEntries ?s \<or> int (map_length ?m1) < cs_maxEntries ?s")
    case True
    then show ?thesis by (auto simp: ensureCapacityLocked_def Let_def)
  next
    case False
    let ?p = "fst (oldest_entry ?m1 order (0, 0))"
    have le: "map_length ?m1 \<le> map_length ?m" by (rule map_length_filter)
    have "0 < map_length ?m1" using False assms(2) by (auto simp: sane_def)
    then have "fmdom ?m1 \<noteq> {||}" unfolding map_length_def by (metis fcard_fempty less_irrefl)
    then obtain q where q: "q |\<in>| fmdom ?m1" by blast
    then have "q \<in> set order" unfolding assms(3) by auto
    with q have p: "?p |\<in>| fmdom ?m1" by (intro oldest_known) auto
    then have "0 < ?p" using assms(1) by (auto simp: bounded_def)
    with False have "ci_entries (ensureCapacityLocked order now c) = fmdrop ?p ?m1" by (simp add: ensureCapacityLocked_def Let_def)
    with p le map_length_pos [OF p] assms(1) show ?thesis by (simp add: map_length_drop bounded_def)
  qed
qed

lemma count_entries: "\<exists>e'. ci_entries (snd (count_incident p now e c)) = fmupd p e' (ci_entries c)"
  by (auto simp: count_incident_def Let_def)

lemma step_bounded:
  assumes "bounded c" and "sane (ci_settings c)" and "enumerates call c"
  shows "bounded (circuit_step call c)"
proof (cases call)
  case (Disconnect p t order)
  have upd: "bounded (snd (count_incident p t e c1))"
    if "bounded c1" "0 < p" "p |\<in>| fmdom (ci_entries c1) \<or> int (map_length (ci_entries c1)) < cs_maxEntries (ci_settings c1)" for e c1
  proof -
    obtain e' where "ci_entries (snd (count_incident p t e c1)) = fmupd p e' (ci_entries c1)" using count_entries by blast
    with that show ?thesis by (auto simp: bounded_def map_length_upd)
  qed
  show ?thesis
  proof (cases "cs_disabled (ci_settings c) \<or> p \<le> 0")
    case True
    with Disconnect assms(1) show ?thesis by (auto simp: recordFailure_def)
  next
    case False
    show ?thesis
    proof (cases "fmlookup (ci_entries c) p")
      case None
      let ?c = "ensureCapacityLocked order t c"
      have "int (map_length (ci_entries ?c)) < cs_maxEntries (ci_settings c)" "bounded ?c"
        using ensure_bounded(1) [OF assms(1,2), of order t] ensure_bounded(2) [OF assms(1,2), of order _ t] assms(1,3) Disconnect
        by (auto simp: bounded_def)
      with upd [of ?c zero_circuit_entry] False None Disconnect show ?thesis by (simp add: recordFailure_def)
    next
      case (Some e)
      then have "p |\<in>| fmdom (ci_entries c)" by (rule fmdomI)
      with upd [OF assms(1), of e] Some False Disconnect assms(1) show ?thesis
        by (auto simp: recordFailure_def bounded_def map_length_upd)
    qed
  qed
next
  case (Recovered p)
  with assms(1) map_length_drop_le [of p "ci_entries c"] show ?thesis
    by (auto simp: recordSuccess_def bounded_def split: option.split)
next
  case (Asked p t)
  with assms(1) map_length_drop_le [of p "ci_entries c"] show ?thesis
    by (auto simp: isBlocked_def bounded_def split: option.split)
qed

text \<open>
  The table never outgrows its bound: after any sequence of disconnects, successes and
  inquiries, in whatever orders the table is iterated over, it has at most the configured number of
  entries, so making room always finds an entry to drop.
\<close>

theorem circuit_bounded:
  assumes "enumerated hist (configured cfg)"
  shows "int (map_length (ci_entries (fold circuit_step hist (configured cfg)))) \<le> cs_maxEntries (ci_settings (configured cfg))"
proof -
  have "bounded (fold circuit_step hist c)" if "bounded c" "sane (ci_settings c)" "enumerated hist c" for c
    using that by (induction hist arbitrary: c) (auto simp: step_settings step_bounded)
  moreover have "bounded (configured cfg)"
    using configured_sane [of cfg] by (simp add: bounded_def sane_def configured_def newOpenAIProxyStreamCircuit_def)
  ultimately show ?thesis using configured_sane assms run_settings by (fastforce simp: bounded_def)
qed

subsection \<open>Two disconnects\<close>

definition sample_disconnects :: "circuit_call list" where
  "sample_disconnects = [Disconnect 7 (10 * second) [], Disconnect 7 (20 * second) [7]]"

lemma sample_settings: "ci_settings (configured None) =
   \<lparr>cs_disabled = False, cs_failureThreshold = 2, cs_failureWindow = 60 * second, cs_quarantineTTL = 600 * second,
    cs_collapseInterval = 3 * second, cs_maxEntries = 4096\<rparr>"
  by (simp add: configured_def newOpenAIProxyStreamCircuit_def resolveOpenAIProxyStreamCircuitSettings_def Let_def
      defaultOpenAIProxyStreamFailureThreshold_def defaultOpenAIProxyStreamFailureWindow_def defaultOpenAIProxyStreamQuarantineTTL_def
      defaultOpenAIProxyStreamCircuitMaxEntries_def defaultOpenAIProxyStreamFailureCollapse_def minute_def second_def)

lemma sample_empty: "ci_entries (configured None) = fmempty"
  by (simp add: configured_def newOpenAIProxyStreamCircuit_def)

theorem incidents_quarantine_witness:
  "fst (isBlocked 7 (30 * second) (fold circuit_step (map (\<lambda>t. Disconnect 7 t []) [10 * second, 20 * second]) (configured None)))"
  using incidents_quarantine [of "configured None" "[]" None "ci_settings (configured None)" 7 "[10 * second, 20 * second]" "30 * second" "\<lambda>t. []"]
  by (simp add: sample_settings sample_empty spaced_def second_def)

lemma sample_blocked: "fst (isBlocked 7 (30 * second) (fold circuit_step sample_disconnects (configured None)))"
  by code_simp

theorem quarantine_justified_witness:
  "\<exists>ts. subseq ts (incidents 7 sample_disconnects) \<and> ts \<noteq> [] \<and> 2 \<le> int (length ts) \<and> spaced (3 * second) ts \<and>
    last ts - hd ts \<le> 60 * second \<and> 30 * second < last ts + 600 * second"
  using quarantine_justified [OF _ refl sample_blocked]
  by (simp add: sample_settings timely_def sample_disconnects_def second_def)

lemma sample_enumerated: "enumerated sample_disconnects (configured None)"
  by code_simp

theorem circuit_bounded_witness:
  "int (map_length (ci_entries (fold circuit_step sample_disconnects (configured None)))) \<le> 4096"
  using circuit_bounded [OF sample_enumerated] by (simp add: sample_settings)

end
