(* ===== verification/OpenAI_Models.thy ===== *)
theory OpenAI_Models
  imports Prelude "HOL-Library.While_Combinator"
begin

section \<open>OpenAI model spellings\<close>

text \<open>
  How the many spellings of an OpenAI model are brought to one: \<open>pkg/openai/constants.go\<close> (canonical
  spelling), \<open>service/openai_model_alias.go\<close>, the model tables of
  \<open>service/openai_codex_transform.go\<close>, \<open>service/openai_images.go\<close> (image models) and
  \<open>service/openai_compat_model.go\<close> (reasoning suffixes).
\<close>

subsection \<open>More of package strings\<close>

definition contains :: "string \<Rightarrow> string \<Rightarrow> bool" where
  "contains s p = (str_index s p \<noteq> None)"

text \<open>\<open>strings.ReplaceAll\<close> of a non-empty string, from the left and without overlap.\<close>

function replace_all :: "string \<Rightarrow> string \<Rightarrow> string \<Rightarrow> string" where
  "replace_all s old new =
     (if old = [] \<or> s = [] then s
      else if prefix old s then new @ replace_all (drop (length old) s) old new
      else hd s # replace_all (tl s) old new)"
  by pat_completeness auto
termination
  by (relation "measure (\<lambda>(s, old, new). length s)") (auto simp: prefix_def)

declare replace_all.simps [simp del]

definition is_space_at :: "string \<Rightarrow> bool" where
  "is_space_at s = list_ex (\<lambda>w. prefix w s) space_runes"

text \<open>\<open>strings.Fields\<close>: the maximal runs without white space.\<close>

fun span_field :: "string \<Rightarrow> string \<times> string" where
  "span_field [] = ([], [])"
| "span_field (c # s) = (if is_space_at (c # s) then ([], c # s) else (case span_field s of (w, r) \<Rightarrow> (c # w, r)))"

lemma span_field_length: "length (snd (span_field s)) \<le> length s"
  by (induction s rule: span_field.induct) (auto split: prod.split)

lemma trim_left_length: "length (trim_left s) \<le> length s"
  using strip_runes_suffix [of space_runes s] suffix_length_le by (auto simp: trim_left_def)

lemma span_progress: "s \<noteq> [] \<Longrightarrow> \<not> is_space_at s \<Longrightarrow> length (snd (span_field s)) < length s"
  using span_field_length [of "tl s"] by (cases s) (auto split: prod.split)

lemma trim_left_start: "\<not> is_space_at (trim_left s) \<or> trim_left s = []"
proof -
  have "[] \<notin> set space_runes" by (simp add: space_runes_def)
  then show ?thesis
    using strip_runes_done [of space_runes s] by (auto simp: trim_left_def is_space_at_def list_ex_iff)
qed

function str_fields :: "string \<Rightarrow> string list" where
  "str_fields s =
     (let s' = trim_left s
      in if s' = [] then [] else fst (span_field s') # str_fields (snd (span_field s')))"
  by pat_completeness auto
termination
proof (relation "measure length")
  fix s s' assume "s' = trim_left s" "s' \<noteq> []"
  with trim_left_start [of s] span_progress [of s'] trim_left_length [of s]
  show "(snd (span_field s'), s) \<in> measure length" by auto
qed simp

declare str_fields.simps [simp del]

fun join :: "string \<Rightarrow> string list \<Rightarrow> string" where
  "join sep [] = []"
| "join sep [p] = p"
| "join sep (p # ps) = p @ sep @ join sep ps"

text \<open>\<open>strings.FieldsFunc\<close> for single-byte separators.\<close>

definition fields_func :: "(char \<Rightarrow> bool) \<Rightarrow> string \<Rightarrow> string list" where
  "fields_func sep s = filter (\<lambda>w. w \<noteq> []) (foldr (\<lambda>c ws. if sep c then [] # ws else (c # hd ws) # tl ws) s [[]])"

definition after_last :: "char \<Rightarrow> string \<Rightarrow> string" where
  "after_last c s = rev (takeWhile (\<lambda>x. x \<noteq> c) (rev s))"

definition cut_prefix :: "string \<Rightarrow> string \<Rightarrow> string option" where
  "cut_prefix s p = (if has_prefix s p then Some (drop (length p) s) else None)"

subsection \<open>Canonical spelling\<close>

text \<open>The loop that collapses runs of dashes.\<close>

lemma replace_shrinks: "length (replace_all s ''--'' ''-'') \<le> length s"
proof (induction s "''--''" "''-''" rule: replace_all.induct)
  case (1 s)
  show ?case
  proof (cases "s = [] \<or> prefix ''--'' s")
    case True
    with "1.hyps"(1) show ?thesis by (subst replace_all.simps) (auto simp: prefix_def)
  next
    case False
    with "1.hyps"(2) show ?thesis by (subst replace_all.simps) (cases s, auto)
  qed
qed

lemma replace_progress: "contains s ''--'' \<Longrightarrow> length (replace_all s ''--'' ''-'') < length s"
proof (induction s)
  case (Cons c s)
  show ?case
  proof (cases "prefix ''--'' (c # s)")
    case True
    then show ?thesis using replace_shrinks [of "drop 2 (c # s)"] by (subst replace_all.simps) (auto simp: prefix_def)
  next
    case False
    with Cons have "length (replace_all s ''--'' ''-'') < length s" by (auto simp: contains_def split: if_splits)
    moreover have "replace_all (c # s) ''--'' ''-'' = c # replace_all s ''--'' ''-''"
      using False by (subst replace_all.simps) auto
    ultimately show ?thesis by simp
  qed
qed (simp add: contains_def)

function collapse_dashes :: "string \<Rightarrow> string" where
  "collapse_dashes s = (if contains s ''--'' then collapse_dashes (replace_all s ''--'' ''-'') else s)"
  by pat_completeness auto
termination
  by (relation "measure length") (auto simp: replace_progress)

declare collapse_dashes.simps [simp del]

definition spelling_replacements :: "(string \<times> string) list" where
  "spelling_replacements =
     [(''gpt-5.4mini'', ''gpt-5.4-mini''), (''gpt-5.4nano'', ''gpt-5.4-nano''),
      (''gpt-5.3-codexspark'', ''gpt-5.3-codex-spark''), (''gpt-5.3codexspark'', ''gpt-5.3-codex-spark''),
      (''gpt-5.3codex'', ''gpt-5.3-codex'')]"

definition CanonicalizeOpenAIModelAliasSpelling :: "string \<Rightarrow> string" where
  "CanonicalizeOpenAIModelAliasSpelling model0 =
     (let m0 = trim_space model0;
          m1 = to_lower (if CHR ''/'' \<in> set m0 then trim_space (after_last CHR ''/'' m0) else m0)
      in if m1 = [] then []
         else (let n0 = collapse_dashes (join ''-'' (str_fields (replace_all m1 ''_'' ''-'')));
                   n1 = (if has_prefix n0 ''gpt5'' then ''gpt-5'' @ trim_prefix n0 ''gpt5'' else n0)
               in if \<not> has_prefix n1 ''gpt-'' \<and> \<not> contains n1 ''codex'' then []
                  else foldl (\<lambda>n (old, new). replace_all n old new) n1 spelling_replacements))"

definition effort_spellings :: "string list" where
  "effort_spellings = [''none'', ''minimal'', ''low'', ''medium'', ''high'', ''xhigh'', ''max'', ''openai-compact'']"

definition IsGPT61SolModelSpelling :: "string \<Rightarrow> bool" where
  "IsGPT61SolModelSpelling model =
     (let canonical = CanonicalizeOpenAIModelAliasSpelling model
      in canonical = ''gpt-6.1-sol'' \<or>
         (case cut_prefix canonical ''gpt-6.1-sol-'' of None \<Rightarrow> False | Some sfx \<Rightarrow> sfx \<in> set effort_spellings))"

definition IsGPT61TerraModelSpelling :: "string \<Rightarrow> bool" where
  "IsGPT61TerraModelSpelling model =
     (let canonical = CanonicalizeOpenAIModelAliasSpelling model
      in canonical = ''gpt-6.1-terra'' \<or>
         (case cut_prefix canonical ''gpt-6.1-terra-'' of None \<Rightarrow> False | Some sfx \<Rightarrow> sfx \<in> set effort_spellings))"

definition IsGPT6SolOrLunaModelSpelling :: "string \<Rightarrow> bool" where
  "IsGPT6SolOrLunaModelSpelling model =
     (let canonical = CanonicalizeOpenAIModelAliasSpelling model
      in list_ex (\<lambda>base. canonical = base \<or>
           (case cut_prefix canonical (base @ ''-'') of None \<Rightarrow> False
            | Some sfx \<Rightarrow> sfx \<in> set [''none'', ''low'', ''medium'', ''high'', ''xhigh'', ''max'', ''openai-compact'']))
           [''gpt-6-sol'', ''gpt-6-luna''])"

subsection \<open>Known Codex models\<close>

definition codexModelMap :: "(string \<times> string) list" where
  "codexModelMap =
     [(''gpt-6.1-terra'', ''gpt-6.1-terra''), (''gpt-6.1-sol'', ''gpt-6.1-sol''), (''gpt-6-sol'', ''gpt-6-sol''),
      (''gpt-6-luna'', ''gpt-6-luna''), (''gpt-6-astra'', ''gpt-6-astra''), (''gpt-5.6-sol'', ''gpt-5.6-sol''),
      (''gpt-5.6-terra'', ''gpt-5.6-terra''), (''gpt-5.6-luna'', ''gpt-5.6-luna''), (''gpt-5.5'', ''gpt-5.5''),
      (''gpt-5.5-pro'', ''gpt-5.5-pro''), (''codex-auto-review'', ''codex-auto-review''), (''gpt-5.4'', ''gpt-5.4''),
      (''gpt-5.4-mini'', ''gpt-5.4-mini''), (''gpt-5.4-none'', ''gpt-5.4''), (''gpt-5.4-low'', ''gpt-5.4''),
      (''gpt-5.4-medium'', ''gpt-5.4''), (''gpt-5.4-high'', ''gpt-5.4''), (''gpt-5.4-xhigh'', ''gpt-5.4''),
      (''gpt-5.4-chat-latest'', ''gpt-5.4''), (''gpt-5.3'', ''gpt-5.3-codex''), (''gpt-5.3-none'', ''gpt-5.3-codex''),
      (''gpt-5.3-low'', ''gpt-5.3-codex''), (''gpt-5.3-medium'', ''gpt-5.3-codex''), (''gpt-5.3-high'', ''gpt-5.3-codex''),
      (''gpt-5.3-xhigh'', ''gpt-5.3-codex''), (''gpt-5.3-codex'', ''gpt-5.3-codex''),
      (''gpt-5.3-codex-spark'', ''gpt-5.3-codex-spark''), (''gpt-5.3-codex-low'', ''gpt-5.3-codex''),
      (''gpt-5.3-codex-medium'', ''gpt-5.3-codex''), (''gpt-5.3-codex-high'', ''gpt-5.3-codex''),
      (''gpt-5.3-codex-xhigh'', ''gpt-5.3-codex''), (''gpt-5.2'', ''gpt-5.2''), (''gpt-5.2-none'', ''gpt-5.2''),
      (''gpt-5.2-low'', ''gpt-5.2''), (''gpt-5.2-medium'', ''gpt-5.2''), (''gpt-5.2-high'', ''gpt-5.2''),
      (''gpt-5.2-xhigh'', ''gpt-5.2''), (''gpt-5'', ''gpt-5.4''), (''gpt-5-mini'', ''gpt-5.4''), (''gpt-5-nano'', ''gpt-5.4''),
      (''gpt-5.1'', ''gpt-5.4''), (''gpt-5.1-codex'', ''gpt-5.3-codex''), (''gpt-5.1-codex-max'', ''gpt-5.3-codex''),
      (''gpt-5.1-codex-mini'', ''gpt-5.3-codex''), (''gpt-5.2-codex'', ''gpt-5.2''), (''codex-mini-latest'', ''gpt-5.3-codex''),
      (''gpt-5-codex'', ''gpt-5.3-codex'')]"

definition codexVersionModelPrefixes :: "(string \<times> string) list" where
  "codexVersionModelPrefixes =
     map (\<lambda>p. (p, p)) [''gpt-6.1-terra'', ''gpt-6.1-sol'', ''gpt-6-sol'', ''gpt-6-luna'', ''gpt-5.6-sol'', ''gpt-5.6-terra'',
       ''gpt-5.6-luna'', ''gpt-5.3-codex-spark'', ''gpt-5.3-codex'', ''gpt-5.4-mini'', ''gpt-5.4-nano'', ''gpt-5.5-pro'', ''gpt-5.5'',
       ''gpt-5.4'', ''gpt-5.2'']"

definition codexModelLookupKey :: "string \<Rightarrow> string" where
  "codexModelLookupKey modelID =
     (let m = trim_space modelID
      in if m = [] then []
         else to_lower (join ''-'' (str_fields (if contains m ''/'' then last (split_byte CHR ''/'' m) else m))))"

definition getNormalizedCodexModel :: "string \<Rightarrow> string" where
  "getNormalizedCodexModel modelID =
     (let key = codexModelLookupKey modelID
      in if key = [] then [] else (case map_of codexModelMap key of Some mapped \<Rightarrow> mapped | None \<Rightarrow> []))"

definition is_digit_byte :: "char \<Rightarrow> bool" where
  "is_digit_byte c = (let n = (of_char c :: nat) in 48 \<le> n \<and> n \<le> 57)"

definition isCodexDateSuffix :: "string \<Rightarrow> bool" where
  "isCodexDateSuffix sfx =
     (let parts = split_byte CHR ''-'' sfx
      in map length parts = [4, 2, 2] \<and> list_all (list_all is_digit_byte) parts)"

definition isKnownCodexModelSuffix :: "string \<Rightarrow> bool" where
  "isKnownCodexModelSuffix sfx =
     (sfx \<in> set [''none'', ''minimal'', ''low'', ''medium'', ''high'', ''xhigh''] \<or> isCodexDateSuffix sfx)"

definition lastOpenAIModelSegment :: "string \<Rightarrow> string" where
  "lastOpenAIModelSegment model =
     (let m = trim_space model
      in if m = [] then [] else trim_space (if contains m ''/'' then last (split_byte CHR ''/'' m) else m))"

definition IsGPTImageGenerationModel :: "string \<Rightarrow> bool" where
  "IsGPTImageGenerationModel model = has_prefix (to_lower (trim_space model)) ''gpt-image-''"

definition isGrokImageGenerationModel :: "string \<Rightarrow> bool" where
  "isGrokImageGenerationModel model =
     (let m = to_lower (trim_space model)
      in m = ''grok-imagine'' \<or> m = ''grok-imagine-edit'' \<or> has_prefix m ''grok-imagine-image'')"

definition isOpenAIImageGenerationModel :: "string \<Rightarrow> bool" where
  "isOpenAIImageGenerationModel model = (IsGPTImageGenerationModel model \<or> isGrokImageGenerationModel model)"

text \<open>The last switch of \<open>normalizeKnownOpenAICodexModel\<close>, before and after its one early return.\<close>

definition family_by_name :: "string \<Rightarrow> string" where
  "family_by_name n =
     (if n = ''gpt-6'' \<or> n = ''gpt-6-astra'' then ''gpt-6-astra''
      else if contains n ''gpt-5.6-sol'' then ''gpt-5.6-sol''
      else if contains n ''gpt-5.6-terra'' then ''gpt-5.6-terra''
      else if contains n ''gpt-5.6-luna'' then ''gpt-5.6-luna''
      else if n = ''gpt-5.6'' then ''gpt-5.6-sol''
      else if has_prefix n ''gpt-5.6-'' then
        (let sfx = trim_prefix n ''gpt-5.6-'' in if sfx = ''max'' \<or> isKnownCodexModelSuffix sfx then ''gpt-5.6-sol'' else [])
      else if contains n ''gpt-5.5-pro'' then ''gpt-5.5-pro''
      else if contains n ''gpt-5.5'' then ''gpt-5.5''
      else if contains n ''gpt-5.4-mini'' then ''gpt-5.4-mini''
      else if contains n ''gpt-5.4-nano'' then ''gpt-5.4-nano''
      else if contains n ''gpt-5.4'' then ''gpt-5.4''
      else if contains n ''gpt-5.2'' then ''gpt-5.2''
      else if contains n ''gpt-5.3-codex-spark'' then ''gpt-5.3-codex-spark''
      else if contains n ''gpt-5.3-codex'' then ''gpt-5.3-codex''
      else if contains n ''gpt-5.3'' then ''gpt-5.3-codex''
      else if contains n ''codex'' then ''gpt-5.3-codex''
      else if contains n ''gpt-5'' then ''gpt-5.4''
      else [])"

definition normalizeKnownOpenAICodexModel :: "string \<Rightarrow> string" where
  "normalizeKnownOpenAICodexModel model =
     (let n = CanonicalizeOpenAIModelAliasSpelling model
      in if n = [] then []
         else if getNormalizedCodexModel n \<noteq> [] then getNormalizedCodexModel n
         else if has_suffix n ''-openai-compact'' \<and> getNormalizedCodexModel (trim_suffix n ''-openai-compact'') \<noteq> [] then
           getNormalizedCodexModel (trim_suffix n ''-openai-compact'')
         else if IsGPT61TerraModelSpelling n then ''gpt-6.1-terra''
         else if IsGPT61SolModelSpelling n then ''gpt-6.1-sol''
         else if IsGPT6SolOrLunaModelSpelling n then (if has_prefix n ''gpt-6-sol'' then ''gpt-6-sol'' else ''gpt-6-luna'')
         else family_by_name n)"

fun version_prefix :: "string \<Rightarrow> (string \<times> string) list \<Rightarrow> string option" where
  "version_prefix key [] = None"
| "version_prefix key ((p, target) # items) =
     (if key = p then Some target
      else (case cut_prefix key (p @ ''-'') of
              Some sfx \<Rightarrow> if isKnownCodexModelSuffix sfx then Some target else version_prefix key items
            | None \<Rightarrow> version_prefix key items))"

definition normalizeKnownCodexModel :: "string \<Rightarrow> string option" where
  "normalizeKnownCodexModel model0 =
     (let model = trim_space model0
      in if model = [] then None
         else if isOpenAIImageGenerationModel model then Some model
         else (let seg = lastOpenAIModelSegment model;
                   canonical = CanonicalizeOpenAIModelAliasSpelling seg;
                   modelID = (if canonical \<noteq> [] then canonical else seg)
               in if normalizeKnownOpenAICodexModel modelID \<noteq> [] then Some (normalizeKnownOpenAICodexModel modelID)
                  else (let key = codexModelLookupKey modelID
                        in if key = [] then None
                           else if getNormalizedCodexModel key \<noteq> [] then Some (getNormalizedCodexModel key)
                           else version_prefix key codexVersionModelPrefixes)))"

definition normalizeCodexModel :: "string \<Rightarrow> string" where
  "normalizeCodexModel model =
     (if trim_space model = [] then ''gpt-5.4''
      else (case normalizeKnownCodexModel (trim_space model) of Some mapped \<Rightarrow> mapped | None \<Rightarrow> trim_space model))"

subsection \<open>Reasoning suffixes\<close>

definition strip_separators :: "string \<Rightarrow> string" where
  "strip_separators s = filter (\<lambda>c. c \<noteq> CHR ''-'' \<and> c \<noteq> CHR ''_'' \<and> c \<noteq> CHR '' '') s"

text \<open>The normalised model and the reasoning effort, when there is a reasoning suffix.\<close>

definition splitOpenAICompatReasoningModel :: "string \<Rightarrow> (string \<times> string) option" where
  "splitOpenAICompatReasoningModel model =
     (let trimmed = trim_space model
      in if trimmed = [] then None
         else (let modelID = trim_space (if contains trimmed ''/'' then last (split_byte CHR ''/'' trimmed) else trimmed)
               in if \<not> has_prefix (to_lower modelID) ''gpt-'' then None
                  else (let parts = fields_func (\<lambda>c. c = CHR ''-'' \<or> c = CHR ''_'' \<or> c = CHR '' '') (to_lower modelID)
                        in if parts = [] then None
                           else (let l = strip_separators (last parts)
                                 in if l = ''none'' \<or> l = ''minimal'' then Some (normalizeCodexModel modelID, [])
                                    else if l = ''low'' \<or> l = ''medium'' \<or> l = ''high'' then Some (normalizeCodexModel modelID, l)
                                    else if l = ''xhigh'' \<or> l = ''extrahigh'' then Some (normalizeCodexModel modelID, ''xhigh'')
                                    else None))))"

definition NormalizeOpenAICompatRequestedModel :: "string \<Rightarrow> string" where
  "NormalizeOpenAICompatRequestedModel model =
     (if IsGPT61TerraModelSpelling model then ''gpt-6.1-terra''
      else if IsGPT61SolModelSpelling model then ''gpt-6.1-sol''
      else (let trimmed = trim_space model
            in if trimmed = [] then []
               else (case splitOpenAICompatReasoningModel trimmed of
                       Some (normalized, _) \<Rightarrow> if normalized = [] then trimmed else normalized
                     | None \<Rightarrow> trimmed)))"

end
