(* ===== verification/Model_Allowlist.thy ===== *)
theory Model_Allowlist
  imports OpenAI_Models Claude_Models App_Errors
begin

section \<open>Model allowlists of groups\<close>

text \<open>
  \<open>service/group_model_allowlist.go\<close>: which models a group may request and which of them it is shown,
  and \<open>service/group_models_list.go\<close>: the display selection on top. Entries may hold stars; requested
  names are compared in several equivalent spellings.
\<close>

record GroupModelAllowlist =
  al_Enabled :: bool
  al_Models :: "string list"

record GroupModelsListConfig =
  ml_Enabled :: bool
  ml_Models :: "string list"

subsection \<open>Normalisation\<close>

fun collect_entries :: "string list \<Rightarrow> string list \<Rightarrow> string list" where
  "collect_entries seen [] = []"
| "collect_entries seen (model # models) =
     (let m = trim_space model; key = to_lower m
      in if m = [] \<or> key \<in> set seen then collect_entries seen models
         else m # collect_entries (key # seen) models)"

definition invalid_allowlist :: ApplicationError where
  "invalid_allowlist = NewError 400 ''INVALID_MODEL_ALLOWLIST'' ''model allowlist cannot be enabled with an empty model list''"

definition normalizeGroupModelAllowlist :: "GroupModelAllowlist \<Rightarrow> ApplicationError + GroupModelAllowlist" where
  "normalizeGroupModelAllowlist cfg =
     (if al_Models cfg = [] then
        (if al_Enabled cfg then Inl invalid_allowlist else Inr \<lparr>al_Enabled = al_Enabled cfg, al_Models = []\<rparr>)
      else
        (let models = collect_entries [] (al_Models cfg)
         in if models = [] \<and> al_Enabled cfg then Inl invalid_allowlist
            else Inr \<lparr>al_Enabled = al_Enabled cfg, al_Models = models\<rparr>))"

fun collect_exact :: "string list \<Rightarrow> string list \<Rightarrow> string list" where
  "collect_exact seen [] = []"
| "collect_exact seen (model # models) =
     (let m = trim_space model
      in if m = [] \<or> m \<in> set seen then collect_exact seen models else m # collect_exact (m # seen) models)"

definition normalizeGroupModelsListConfig :: "GroupModelsListConfig \<Rightarrow> GroupModelsListConfig" where
  "normalizeGroupModelsListConfig cfg = \<lparr>ml_Enabled = ml_Enabled cfg, ml_Models = collect_exact [] (ml_Models cfg)\<rparr>"

subsection \<open>Admission\<close>

text \<open>The loop over the parts between the first and the last star, each at its first occurrence.\<close>

fun match_middle :: "string list \<Rightarrow> string \<Rightarrow> string option" where
  "match_middle [] model = Some model"
| "match_middle (part # parts) model =
     (case str_index model part of
        None \<Rightarrow> None
      | Some index \<Rightarrow> match_middle parts (drop (index + length part) model))"

definition groupAllowlistPatternMatches :: "string \<Rightarrow> string \<Rightarrow> bool" where
  "groupAllowlistPatternMatches pattern0 model0 =
     (let pattern = to_lower pattern0; model = to_lower model0; parts = split_byte CHR ''*'' pattern
      in if length parts = 1 then pattern = model
         else if \<not> has_prefix model (hd parts) then False
         else (case match_middle (butlast (tl parts)) (drop (length (hd parts)) model) of
                 None \<Rightarrow> False
               | Some r \<Rightarrow> has_suffix r (last parts)))"

definition add_candidate :: "string \<Rightarrow> string list \<Rightarrow> string list" where
  "add_candidate v candidates =
     (let x = to_lower (trim_space v) in if x = [] \<or> x \<in> set candidates then candidates else candidates @ [x])"

definition groupModelAllowlistCandidates :: "string \<Rightarrow> string list" where
  "groupModelAllowlistCandidates model =
     fold add_candidate
       [model, trim_prefix model ''models/'', NormalizeModelID (trim_suffix model ''-thinking''),
        NormalizeOpenAICompatRequestedModel model] []"

definition Allows :: "GroupModelAllowlist \<Rightarrow> string \<Rightarrow> bool" where
  "Allows a model0 =
     (let model = trim_space model0
      in \<not> al_Enabled a \<or> model = [] \<or>
         list_ex (\<lambda>e. trim_space e \<noteq> [] \<and>
           list_ex (groupAllowlistPatternMatches (trim_space e)) (groupModelAllowlistCandidates model)) (al_Models a))"

subsection \<open>Listing\<close>

definition equal_fold :: "string \<Rightarrow> string \<Rightarrow> bool" where
  "equal_fold s t = (to_lower s = to_lower t)"

definition allowlistSourcePatternAllowsModel :: "string list \<Rightarrow> string \<Rightarrow> bool" where
  "allowlistSourcePatternAllowsModel patterns model =
     (list_ex (\<lambda>pattern. equal_fold pattern model \<or>
         (has_suffix pattern ''*'' \<and> has_prefix (to_lower model) (to_lower (trim_suffix pattern ''*'')))) patterns \<or>
      (let normalized = NormalizeModelID (trim_suffix model ''-thinking'')
       in \<not> equal_fold normalized model \<and> list_ex (\<lambda>pattern. equal_fold pattern normalized) patterns))"

definition list_model :: "string \<Rightarrow> string list \<Rightarrow> string list" where
  "list_model m filtered = (if to_lower m \<in> set (map to_lower filtered) then filtered else filtered @ [m])"

definition list_entry :: "string list \<Rightarrow> string \<Rightarrow> string list \<Rightarrow> string list" where
  "list_entry patterns entry0 filtered =
     (let e = trim_space entry0
      in if e = [] then filtered
         else if contains e ''*'' then
           fold (\<lambda>pattern out.
             if groupAllowlistPatternMatches e pattern then list_model pattern out
             else if has_suffix pattern ''*'' \<and> \<not> contains (trim_suffix pattern ''*'') ''*'' \<and>
                     has_prefix (to_lower e) (to_lower (trim_suffix pattern ''*'')) then list_model e out
             else out) patterns filtered
         else if allowlistSourcePatternAllowsModel patterns e then list_model e filtered
         else filtered)"

definition FilterForListing :: "GroupModelAllowlist \<Rightarrow> string list \<Rightarrow> string list" where
  "FilterForListing a source =
     (if \<not> al_Enabled a then source
      else if al_Models a = [] then []
      else (let patterns = filter (\<lambda>p. p \<noteq> []) (map trim_space source)
            in if patterns = [] then [] else fold (list_entry patterns) (al_Models a) []))"

subsection \<open>The display selection\<close>

record Group =
  gr_ModelAllowlist :: GroupModelAllowlist
  gr_ModelsListConfig :: GroupModelsListConfig

definition ModelAllowlistEnabled :: "Group option \<Rightarrow> bool" where
  "ModelAllowlistEnabled g = (case g of None \<Rightarrow> False | Some x \<Rightarrow> al_Enabled (gr_ModelAllowlist x))"

definition CustomModelsListEnabled :: "Group option \<Rightarrow> bool" where
  "CustomModelsListEnabled g =
     (case g of None \<Rightarrow> False | Some x \<Rightarrow> ml_Enabled (gr_ModelsListConfig x) \<and> ml_Models (gr_ModelsListConfig x) \<noteq> [])"

definition ModelListingAllowlist :: "Group option \<Rightarrow> GroupModelAllowlist" where
  "ModelListingAllowlist g =
     (case g of
        None \<Rightarrow> \<lparr>al_Enabled = False, al_Models = []\<rparr>
      | Some x \<Rightarrow>
          if \<not> CustomModelsListEnabled g then gr_ModelAllowlist x
          else \<lparr>al_Enabled = True, al_Models = filter (Allows (gr_ModelAllowlist x)) (ml_Models (gr_ModelsListConfig x))\<rparr>)"

definition ModelListingEnabled :: "Group option \<Rightarrow> bool" where
  "ModelListingEnabled g = al_Enabled (ModelListingAllowlist g)"

end
