(* ===== verification/Model_Allowlist_Props.thy ===== *)
theory Model_Allowlist_Props
  imports Model_Allowlist
begin

section \<open>What allowlists admit and list\<close>

text \<open>
  The pattern matcher against the language of patterns with stars, the normal form of a submitted
  allowlist, and how listing relates to admission.
\<close>

subsection \<open>The language of a pattern\<close>

text \<open>A star stands for any string, every other character for itself.\<close>

fun glob :: "string \<Rightarrow> string \<Rightarrow> bool" where
  "glob [] m = (m = [])"
| "glob (c # p) m =
     (if c = CHR ''*'' then list_ex (glob p) (suffixes m)
      else (case m of [] \<Rightarrow> False | d # m' \<Rightarrow> c = d \<and> glob p m'))"

text \<open>The same over the parts between the stars.\<close>

fun parts_match :: "string list \<Rightarrow> string \<Rightarrow> bool" where
  "parts_match [] m = False"
| "parts_match [a] m = (m = a)"
| "parts_match (a # b # bs) m = (\<exists>u w. m = a @ u @ w \<and> parts_match (b # bs) w)"

definition parts_float :: "string list \<Rightarrow> string \<Rightarrow> bool" where
  "parts_float bs m = (\<exists>u w. m = u @ w \<and> parts_match bs w)"

lemma parts_match_cons:
  "parts_match ((c # a) # bs) m \<longleftrightarrow> (\<exists>m'. m = c # m' \<and> parts_match (a # bs) m')"
  by (cases bs) auto

lemma glob_star: "glob (CHR ''*'' # p) m \<longleftrightarrow> (\<exists>u w. m = u @ w \<and> glob p w)"
  by (fastforce simp: list_ex_iff suffix_def)

lemma glob_parts: "glob p m \<longleftrightarrow> parts_match (split_byte CHR ''*'' p) m"
proof (induction p arbitrary: m)
  case (Cons c p)
  obtain a bs where s: "split_byte CHR ''*'' p = a # bs" by (cases "split_byte CHR ''*'' p") auto
  show ?case
  proof (cases "c = CHR ''*''")
    case True
    with Cons s show ?thesis by (simp add: glob_star del: glob.simps)
  next
    case False
    with Cons s show ?thesis by (auto simp: parts_match_cons split: list.split)
  qed
qed simp

lemma parts_float_append: "parts_float bs m \<Longrightarrow> parts_float bs (x @ m)"
  by (metis append.assoc parts_float_def)

lemma parts_float_one: "parts_float [b] m \<longleftrightarrow> suffix b m"
  by (auto simp: parts_float_def suffix_def)

lemma parts_float_cons:
  "parts_float (b # b' # bs) m \<longleftrightarrow> (\<exists>u v. m = u @ b @ v \<and> parts_float (b' # bs) v)"
  by (auto simp: parts_float_def)

lemma parts_match_head:
  "parts_match (a # b # bs) m \<longleftrightarrow> (\<exists>r. m = a @ r \<and> parts_float (b # bs) r)"
  by (auto simp: parts_float_def)

lemma butlast_Cons_Cons: "butlast (a # b # bs) = a # butlast (b # bs)"
  by simp

text \<open>Taking every part at its first occurrence loses nothing.\<close>

lemma leftmost_enough:
  "bs \<noteq> [] \<Longrightarrow>
   (case match_middle (butlast bs) m of None \<Rightarrow> False | Some r \<Rightarrow> has_suffix r (last bs)) \<longleftrightarrow> parts_float bs m"
proof (induction bs arbitrary: m)
  case (Cons b bs)
  show ?case
  proof (cases bs)
    case Nil
    then show ?thesis by (simp add: parts_float_one has_suffix_def)
  next
    case (Cons b' bs')
    note bs = this
    show ?thesis
    proof (cases "str_index m b")
      case None
      then have "\<not> (\<exists>u v. m = u @ b @ v)"
        using str_index_None [of m b] by (metis append_eq_conv_conj prefixI)
      with None bs show ?thesis by (auto simp: parts_float_cons)
    next
      case (Some i)
      let ?rest = "drop (i + length b) m"
      from str_index_Some [OF Some] have i: "i \<le> length m" "prefix b (drop i m)"
        and first: "\<And>j. j < i \<Longrightarrow> \<not> prefix b (drop j m)" by auto
      from i(2) have here: "m = take i m @ b @ ?rest"
        by (metis add.commute append_eq_conv_conj append_take_drop_id drop_drop prefix_def)
      have late: "parts_float bs ?rest" if "m = u @ b @ v" "parts_float bs v" for u v
      proof -
        have "prefix b (drop (length u) m)" using that(1) by simp
        then have "i \<le> length u" using first not_le by blast
        then have "?rest = drop (i + length b) (u @ b) @ v" using that(1) by simp
        with that(2) show ?thesis by (simp add: parts_float_append)
      qed
      have "(\<exists>u v. m = u @ b @ v \<and> parts_float bs v) \<longleftrightarrow> parts_float bs ?rest"
        using here late by metis
      moreover have "(case match_middle (butlast (b # bs)) m of None \<Rightarrow> False | Some r \<Rightarrow> has_suffix r (last (b # bs)))
          \<longleftrightarrow> parts_float bs ?rest"
        using Cons.IH [of ?rest] Some bs by (simp del: butlast.simps(2) add: butlast_Cons_Cons cong: option.case_cong)
      ultimately show ?thesis using bs by (simp add: parts_float_cons)
    qed
  qed
qed simp

lemma pattern_matching: "groupAllowlistPatternMatches p m \<longleftrightarrow> glob (to_lower p) (to_lower m)"
proof -
  let ?parts = "split_byte CHR ''*'' (to_lower p)" and ?m = "to_lower m"
  have g: "glob (to_lower p) ?m \<longleftrightarrow> parts_match ?parts ?m" by (rule glob_parts)
  show ?thesis
  proof (cases "length ?parts = 1")
    case True
    have no_star: "split_byte CHR ''*'' q = [a] \<Longrightarrow> a = q" for a q
      by (induction q arbitrary: a) (auto split: list.splits if_splits)
    from True obtain a where "?parts = [a]" by (auto simp: length_Suc_conv)
    with no_star [OF this] g True show ?thesis
      by (auto simp: groupAllowlistPatternMatches_def)
  next
    case False
    then obtain a b bs where s: "?parts = a # b # bs"
      by (cases ?parts rule: remdups_adj.cases) auto
    show ?thesis
    proof (cases "has_prefix ?m a")
      case False
      with s g show ?thesis by (auto simp: groupAllowlistPatternMatches_def has_prefix_def)
    next
      case True
      then have "?m = a @ drop (length a) ?m" by (auto simp: has_prefix_def prefix_def)
      then have "parts_match ?parts ?m \<longleftrightarrow> parts_float (b # bs) (drop (length a) ?m)"
        unfolding s parts_match_head by (metis append_eq_conv_conj)
      moreover have "groupAllowlistPatternMatches p m \<longleftrightarrow>
          (case match_middle (butlast (b # bs)) (drop (length a) ?m) of None \<Rightarrow> False | Some r \<Rightarrow> has_suffix r (last (b # bs)))"
        using s True by (simp add: groupAllowlistPatternMatches_def Let_def cong: option.case_cong)
      ultimately show ?thesis using g leftmost_enough [of "b # bs"] by blast
    qed
  qed
qed


text \<open>Property C33. The matcher decides the language of the pattern, up to case: taking the parts
  between the stars greedily never rejects a model that some other way of placing them would
  accept, and accepts no other.\<close>
theorem pattern_language: "groupAllowlistPatternMatches p m \<longleftrightarrow> glob (to_lower p) (to_lower m)"
  by (rule pattern_matching)

subsection \<open>The normal form of an allowlist\<close>

lemma trim_candidates [simp]: "Allows a (trim_space m) = Allows a m"
  by (simp add: Allows_def)

definition entry_keys :: "string list \<Rightarrow> string set" where
  "entry_keys models = to_lower ` {m \<in> trim_space ` set models. m \<noteq> []}"

lemma entry_keys_simps [simp]:
  "entry_keys [] = {}"
  "entry_keys (m # ms) = (if trim_space m = [] then entry_keys ms else insert (to_lower (trim_space m)) (entry_keys ms))"
  by (auto simp: entry_keys_def)

lemma entry_keys_empty: "entry_keys ms = {} \<longleftrightarrow> list_all (\<lambda>m. trim_space m = []) ms"
  by (induction ms) auto

lemma collect_entries_step:
  "collect_entries seen (m # ms) =
     (if trim_space m = [] \<or> to_lower (trim_space m) \<in> set seen then collect_entries seen ms
      else trim_space m # collect_entries (to_lower (trim_space m) # seen) ms)"
  by (simp add: Let_def)

lemma collect_entries_keys: "to_lower ` set (collect_entries seen models) = entry_keys models - set seen"
  by (induction models arbitrary: seen) (auto simp: collect_entries_step simp del: collect_entries.simps(2))

lemma collect_entries_distinct: "distinct (map to_lower (collect_entries seen models))"
  by (induction models arbitrary: seen)
    (simp_all add: collect_entries_step collect_entries_keys del: collect_entries.simps(2))

lemma collect_entries_clean: "m \<in> set (collect_entries seen models) \<Longrightarrow> m \<noteq> [] \<and> trim_space m = m"
  by (induction models arbitrary: seen)
    (auto simp: collect_entries_step simp del: collect_entries.simps(2) split: if_splits)

lemma entry_keys_collect: "entry_keys (collect_entries [] models) = entry_keys models"
proof -
  have "{m \<in> trim_space ` set (collect_entries [] models). m \<noteq> []} = set (collect_entries [] models)"
    using collect_entries_clean by (auto simp: image_iff)
  then show ?thesis using collect_entries_keys [of "[]" models] by (simp add: entry_keys_def)
qed

lemma collect_entries_id:
  "distinct (map to_lower ms) \<Longrightarrow> list_all (\<lambda>m. m \<noteq> [] \<and> trim_space m = m) ms \<Longrightarrow> to_lower ` set ms \<inter> set seen = {} \<Longrightarrow>
   collect_entries seen ms = ms"
  by (induction ms arbitrary: seen) (auto simp: collect_entries_step simp del: collect_entries.simps(2))

text \<open>Patterns only count through their lower-case form.\<close>

lemma pattern_lower: "groupAllowlistPatternMatches (to_lower p) m = groupAllowlistPatternMatches p m"
  "groupAllowlistPatternMatches p (to_lower m) = groupAllowlistPatternMatches p m"
  by (simp_all add: groupAllowlistPatternMatches_def)

lemma Allows_keys:
  "Allows a model \<longleftrightarrow> \<not> al_Enabled a \<or> trim_space model = [] \<or>
     (\<exists>k \<in> entry_keys (al_Models a). \<exists>c \<in> set (groupModelAllowlistCandidates (trim_space model)).
        groupAllowlistPatternMatches k c)"
  by (auto simp: Allows_def Let_def entry_keys_def list_ex_iff pattern_lower)

text \<open>Normalising a submitted allowlist fails, with status 400, exactly when it is
  enabled and holds no entry that is not blank. Otherwise it keeps the switch, every entry is
  trimmed and not blank, no two entries agree up to case, and it admits the same models.\<close>
theorem normal_allowlist:
  "case normalizeGroupModelAllowlist a of
     Inl e \<Rightarrow> e = invalid_allowlist \<and> al_Enabled a \<and> list_all (\<lambda>m. trim_space m = []) (al_Models a)
   | Inr b \<Rightarrow> \<not> (al_Enabled a \<and> list_all (\<lambda>m. trim_space m = []) (al_Models a)) \<and>
       al_Enabled b = al_Enabled a \<and> distinct (map to_lower (al_Models b)) \<and>
       list_all (\<lambda>m. m \<noteq> [] \<and> trim_space m = m) (al_Models b) \<and>
       Allows b = Allows a \<and> normalizeGroupModelAllowlist b = Inr b"
proof -
  let ?ms = "collect_entries [] (al_Models a)"
  let ?b = "\<lparr>al_Enabled = al_Enabled a, al_Models = ?ms\<rparr>"
  have blank: "?ms = [] \<longleftrightarrow> list_all (\<lambda>m. trim_space m = []) (al_Models a)"
    using collect_entries_keys [of "[]" "al_Models a"] entry_keys_empty [of "al_Models a"] by auto
  have n: "normalizeGroupModelAllowlist a = (if ?ms = [] \<and> al_Enabled a then Inl invalid_allowlist else Inr ?b)"
    by (cases "al_Models a") (auto simp: normalizeGroupModelAllowlist_def Let_def)
  have clean: "list_all (\<lambda>m. m \<noteq> [] \<and> trim_space m = m) ?ms"
    using collect_entries_clean by (auto simp: list_all_iff)
  have again: "collect_entries [] ?ms = ?ms"
    by (rule collect_entries_id [OF collect_entries_distinct clean]) simp
  have "Allows ?b = Allows a"
    by (rule ext) (simp add: Allows_keys entry_keys_collect)
  moreover have "normalizeGroupModelAllowlist ?b = Inr ?b" if "\<not> (?ms = [] \<and> al_Enabled a)"
    using that again by (auto simp: normalizeGroupModelAllowlist_def Let_def)
  ultimately show ?thesis using n blank clean collect_entries_distinct [of "[]" "al_Models a"] by auto
qed

subsection \<open>Listing within admission\<close>

lemma glob_self: "glob p p"
proof (induction p)
  case (Cons c p)
  show ?case
  proof (cases "c = CHR ''*''")
    case True
    have "\<exists>u w. CHR ''*'' # p = u @ w \<and> glob p w" using Cons by (intro exI [of _ "''*''"] exI [of _ p]) simp
    then show ?thesis unfolding True glob_star .
  next
    case False
    with Cons show ?thesis by simp
  qed
qed simp

lemma pattern_self: "groupAllowlistPatternMatches p p"
  by (simp add: pattern_matching glob_self)

lemma own_candidate: "model \<noteq> [] \<Longrightarrow> trim_space model = model \<Longrightarrow> to_lower model \<in> set (groupModelAllowlistCandidates model)"
  by (auto simp: groupModelAllowlistCandidates_def add_candidate_def Let_def)

lemma admitted:
  assumes "e \<in> set (al_Models a)" "trim_space e \<noteq> []" "model \<noteq> []" "trim_space model = model"
    "groupAllowlistPatternMatches (trim_space e) model"
  shows "Allows a model"
proof -
  have "groupAllowlistPatternMatches (trim_space e) (to_lower model)" using assms(5) by (simp add: pattern_lower)
  with own_candidate [OF assms(3,4)] assms show ?thesis
    by (auto simp: Allows_def Let_def list_ex_iff)
qed

lemma list_model_set: "set (list_model m out) \<subseteq> insert m (set out)"
  by (auto simp: list_model_def)

lemma list_entry_set:
  assumes "m \<in> set (list_entry patterns e out)"
  shows "m \<in> set out \<or> trim_space e \<noteq> [] \<and>
     (m = trim_space e \<or> m \<in> set patterns \<and> groupAllowlistPatternMatches (trim_space e) m \<and> contains (trim_space e) ''*'')"
proof -
  let ?e = "trim_space e"
  let ?f = "\<lambda>pattern out. if groupAllowlistPatternMatches ?e pattern then list_model pattern out
      else if has_suffix pattern ''*'' \<and> \<not> contains (trim_suffix pattern ''*'') ''*'' \<and>
              has_prefix (to_lower ?e) (to_lower (trim_suffix pattern ''*'')) then list_model ?e out else out"
  have one: "set (?f q out) \<subseteq> set out \<union> {?e} \<union> {m. m = q \<and> groupAllowlistPatternMatches ?e m}" for q out
    using list_model_set [of q out] list_model_set [of ?e out] by auto
  have all: "set (fold ?f ps out) \<subseteq> set out \<union> {?e} \<union> {m \<in> set ps. groupAllowlistPatternMatches ?e m}" for ps
  proof (induction ps arbitrary: out)
    case (Cons q ps)
    have "set (fold ?f (q # ps) out) \<subseteq> set (?f q out) \<union> {?e} \<union> {m \<in> set ps. groupAllowlistPatternMatches ?e m}"
      using Cons [of "?f q out"] by simp
    also have "\<dots> \<subseteq> set out \<union> {?e} \<union> {m \<in> set (q # ps). groupAllowlistPatternMatches ?e m}"
      using one [of q out] by (auto split del: if_split)
    finally show ?case .
  qed auto
  have "list_entry patterns e out =
      (if ?e = [] then out else if contains ?e ''*'' then fold ?f patterns out
       else if allowlistSourcePatternAllowsModel patterns ?e then list_model ?e out else out)"
    by (simp add: list_entry_def Let_def)
  with assms all [of patterns] list_model_set [of ?e out] show ?thesis
    by (auto split: if_splits split del: if_split)
qed

lemma fold_entries:
  "m \<in> set (fold (list_entry patterns) es out) \<Longrightarrow>
   m \<in> set out \<or> (\<exists>e \<in> set es. trim_space e \<noteq> [] \<and>
     (m = trim_space e \<or> m \<in> set patterns \<and> groupAllowlistPatternMatches (trim_space e) m \<and> contains (trim_space e) ''*''))"
proof (induction es arbitrary: out)
  case (Cons e es)
  from Cons.IH [of "list_entry patterns e out"] Cons.prems list_entry_set [of m patterns e out] show ?case by auto
qed simp

lemma listed:
  assumes "m \<in> set (FilterForListing a source)" "al_Enabled a"
  shows "\<exists>e \<in> set (al_Models a). trim_space e \<noteq> [] \<and> m \<noteq> [] \<and> trim_space m = m \<and>
     (m = trim_space e \<or> groupAllowlistPatternMatches (trim_space e) m \<and> contains (trim_space e) ''*'')"
proof -
  from assms fold_entries [of m _ "al_Models a" "[]"] show ?thesis
    by (fastforce simp: FilterForListing_def Let_def split: if_splits)
qed

lemma listed_admitted: "m \<in> set (FilterForListing a source) \<Longrightarrow> al_Enabled a \<Longrightarrow> Allows a m"
  using listed [of m a source] admitted [of _ a m] pattern_self by blast

text \<open>Property C37. Nothing is listed that may not be requested: every model listed for a group that
  restricts its listing is admitted by the group's allowlist, under the allowlist itself as well as
  under a display selection of names without stars; and the listing itself admits it.\<close>
theorem listing_admitted:
  assumes "ModelListingEnabled (Some g)"
    and "m \<in> set (FilterForListing (ModelListingAllowlist (Some g)) source)"
    and "CustomModelsListEnabled (Some g) \<Longrightarrow> list_all (\<lambda>e. \<not> contains (trim_space e) ''*'') (ml_Models (gr_ModelsListConfig g))"
  shows "Allows (gr_ModelAllowlist g) m \<and> Allows (ModelListingAllowlist (Some g)) m"
proof -
  have own: "Allows (ModelListingAllowlist (Some g)) m"
    using assms(1,2) listed_admitted by (simp add: ModelListingEnabled_def)
  show ?thesis
  proof (cases "CustomModelsListEnabled (Some g)")
    case False
    with own show ?thesis by (simp add: ModelListingAllowlist_def)
  next
    case True
    from listed [OF assms(2)] assms(1) obtain e where
      e: "e \<in> set (al_Models (ModelListingAllowlist (Some g)))" and
      m: "m = trim_space e \<or> contains (trim_space e) ''*''" by (auto simp: ModelListingEnabled_def)
    from e True have "e \<in> set (ml_Models (gr_ModelsListConfig g))" "Allows (gr_ModelAllowlist g) e"
      by (auto simp: ModelListingAllowlist_def)
    with m assms(3) [OF True] own show ?thesis by (auto simp: list_all_iff)
  qed
qed

definition sample_allowlist :: GroupModelAllowlist where
  "sample_allowlist = \<lparr>al_Enabled = True, al_Models = [''gpt-5.5'', ''grok-*'']\<rparr>"

definition sample_group :: Group where
  "sample_group = \<lparr>gr_ModelAllowlist = sample_allowlist,
     gr_ModelsListConfig = \<lparr>ml_Enabled = True, ml_Models = [''GPT-5.5-high'', ''claude-opus'']\<rparr>\<rparr>"

theorem listing_admitted_witness:
  "Allows (gr_ModelAllowlist sample_group) ''GPT-5.5-high'' \<and>
   Allows (ModelListingAllowlist (Some sample_group)) ''GPT-5.5-high''"
  by (rule listing_admitted [of _ _ "[''gpt-5.5-high'']"]) code_simp+

subsection \<open>Where listing and admission differ\<close>

text \<open>A model may be requested and still be missing from the list: an allowlist entry for
  a Gemini model admits the name with its \<open>models/\<close> prefix, and lists nothing when the source has
  only that spelling.\<close>
theorem admitted_but_not_listed:
  "\<exists>a source m. al_Enabled a \<and> m \<in> set source \<and> Allows a m \<and> FilterForListing a source = []"
proof (intro exI conjI)
  let ?a = "\<lparr>al_Enabled = True, al_Models = [''gemini-2.5-pro'']\<rparr>"
  show "al_Enabled ?a" by simp
  show "''models/gemini-2.5-pro'' \<in> set [''models/gemini-2.5-pro'']" by simp
  show "Allows ?a ''models/gemini-2.5-pro''" by code_simp
  show "FilterForListing ?a [''models/gemini-2.5-pro''] = []" by code_simp
qed

text \<open>A display selection that holds stars is not bounded by the allowlist: its entry is
  judged as if it were a model, with its reasoning suffix removed, and then expanded.\<close>
theorem selection_exceeds_allowlist:
  "\<exists>g source m. al_Enabled (gr_ModelAllowlist g) \<and>
     m \<in> set (FilterForListing (ModelListingAllowlist (Some g)) source) \<and> \<not> Allows (gr_ModelAllowlist g) m"
proof (intro exI conjI)
  let ?g = "\<lparr>gr_ModelAllowlist = sample_allowlist,
     gr_ModelsListConfig = \<lparr>ml_Enabled = True, ml_Models = [''gpt-5.5*-high'']\<rparr>\<rparr>"
  show "al_Enabled (gr_ModelAllowlist ?g)" by (simp add: sample_allowlist_def)
  show "''gpt-5.5-pro-high'' \<in> set (FilterForListing (ModelListingAllowlist (Some ?g)) [''gpt-5.5-pro-high''])" by code_simp
  show "\<not> Allows (gr_ModelAllowlist ?g) ''gpt-5.5-pro-high''" by code_simp
qed

end
