(* ===== verification/OpenAI_Models_Props.thy ===== *)
theory OpenAI_Models_Props
  imports OpenAI_Models
begin

section \<open>Model spellings: the loop and the normal forms\<close>

text \<open>
  The loop that collapses dashes ends, with every run of dashes reduced to one, and Codex model
  names are brought to normal forms that are not changed again.
\<close>

subsection \<open>Runs of dashes\<close>

text \<open>One pass that drops a dash after a dash; the flag says whether the last character was one.\<close>

primrec single_dashes :: "bool \<Rightarrow> string \<Rightarrow> string" where
  "single_dashes d [] = []"
| "single_dashes d (c # s) =
     (if c = CHR ''-'' then (if d then single_dashes True s else c # single_dashes True s)
      else c # single_dashes False s)"

lemma replace_dashes: "single_dashes d (replace_all s ''--'' ''-'') = single_dashes d s"
proof (induction s arbitrary: d rule: length_induct)
  case (1 s)
  consider "s = []" | r where "s = ''--'' @ r" | c r where "s = c # r" "\<not> prefix ''--'' s"
    by (cases s) (auto simp: prefix_def)
  then show ?case
  proof cases
    case 1
    then show ?thesis by (simp add: replace_all.simps)
  next
    case (2 r)
    with 1 have "\<And>d. single_dashes d (replace_all r ''--'' ''-'') = single_dashes d r" by simp
    with 2 show ?thesis by (subst replace_all.simps) simp
  next
    case (3 c r)
    with 1 have "\<And>d. single_dashes d (replace_all r ''--'' ''-'') = single_dashes d r" by simp
    with 3 show ?thesis by (subst replace_all.simps) auto
  qed
qed

lemma contains_Cons: "contains (c # s) p \<longleftrightarrow> prefix p (c # s) \<or> contains s p"
  by (simp add: contains_def)

lemma no_double: "\<not> contains s ''--'' \<Longrightarrow> \<not> (d \<and> prefix ''-'' s) \<Longrightarrow> single_dashes d s = s"
proof (induction s arbitrary: d)
  case (Cons c s)
  then have "single_dashes (c = CHR ''-'') s = s"
    by (intro Cons.IH) (auto simp: contains_Cons)
  with Cons.prems show ?case by auto
qed simp

lemma collapse_single: "collapse_dashes s = single_dashes False s"
proof (induction s rule: collapse_dashes.induct)
  case (1 s)
  show ?case
  proof (cases "contains s ''--''")
    case True
    with 1 show ?thesis by (subst collapse_dashes.simps) (simp add: replace_dashes)
  next
    case False
    then show ?thesis by (subst collapse_dashes.simps) (simp add: no_double)
  qed
qed

lemma collapse_loop:
  "while_option (\<lambda>s. contains s ''--'') (\<lambda>s. replace_all s ''--'' ''-'') s = Some (collapse_dashes s)"
proof (induction s rule: collapse_dashes.induct)
  case (1 s)
  then show ?case by (subst while_option_unfold, subst collapse_dashes.simps) auto
qed

text \<open>Property C40. The loop that replaces two dashes by one as long as there are two in a row ends on
  every string, and what it leaves is the string with each run of dashes reduced to one dash.\<close>
theorem dash_loop_ends:
  "while_option (\<lambda>s. contains s ''--'') (\<lambda>s. replace_all s ''--'' ''-'') s = Some (collapse_dashes s) \<and>
   collapse_dashes s = single_dashes False s"
  by (simp add: collapse_loop collapse_single)

subsection \<open>Normal forms of Codex models\<close>

definition known_codex_models :: "string list" where
  "known_codex_models =
     [''gpt-6.1-terra'', ''gpt-6.1-sol'', ''gpt-6-sol'', ''gpt-6-luna'', ''gpt-6-astra'', ''gpt-5.6-sol'', ''gpt-5.6-terra'',
      ''gpt-5.6-luna'', ''gpt-5.5'', ''gpt-5.5-pro'', ''codex-auto-review'', ''gpt-5.4-mini'', ''gpt-5.3-codex-spark'',
      ''gpt-5.4'', ''gpt-5.2'', ''gpt-5.3-codex'', ''gpt-5.4-nano'']"

lemma targets_known: "list_all (\<lambda>m. m \<in> set known_codex_models) (map snd codexModelMap)"
  by code_simp

definition known_or_empty :: "string \<Rightarrow> bool" where
  "known_or_empty m = (m = [] \<or> m \<in> set known_codex_models)"

lemma known_empty: "known_or_empty []"
  by (simp add: known_or_empty_def)

lemma known_in: "m \<in> set known_codex_models \<Longrightarrow> known_or_empty m"
  by (simp add: known_or_empty_def)

lemma known_if: "known_or_empty a \<Longrightarrow> known_or_empty b \<Longrightarrow> known_or_empty (if c then a else b)"
  by simp

lemma known_constants:
  "list_all known_or_empty
     [''gpt-6-astra'', ''gpt-5.6-sol'', ''gpt-5.6-terra'', ''gpt-5.6-luna'', ''gpt-5.5-pro'', ''gpt-5.5'', ''gpt-5.4-mini'',
      ''gpt-5.4-nano'', ''gpt-5.4'', ''gpt-5.2'', ''gpt-5.3-codex-spark'', ''gpt-5.3-codex'', ''gpt-6.1-terra'', ''gpt-6.1-sol'',
      ''gpt-6-sol'', ''gpt-6-luna'']"
  by code_simp

lemmas constant_known = known_constants [unfolded list.pred_inject]

lemma table_known: "known_or_empty (getNormalizedCodexModel n)"
proof (cases "getNormalizedCodexModel n = []")
  case False
  then obtain k where "map_of codexModelMap k = Some (getNormalizedCodexModel n)"
    by (auto simp: getNormalizedCodexModel_def Let_def split: option.splits if_splits)
  from map_of_SomeD [OF this] have "getNormalizedCodexModel n \<in> set (map snd codexModelMap)" by force
  with targets_known show ?thesis unfolding list_all_iff by (blast intro: known_in)
qed (simp add: known_empty)

lemma family_known: "known_or_empty (family_by_name n)"
  unfolding family_by_name_def Let_def
  by (intro known_if known_empty) (simp_all only: constant_known)

lemma openai_known: "known_or_empty (normalizeKnownOpenAICodexModel n)"
  unfolding normalizeKnownOpenAICodexModel_def Let_def
  by (intro known_if known_empty table_known family_known) (simp_all only: constant_known)

lemma versions_known: "version_prefix key codexVersionModelPrefixes = Some r \<Longrightarrow> r \<in> set known_codex_models"
proof -
  have in_items: "version_prefix key items = Some r \<Longrightarrow> r \<in> set (map snd items)" for items
  proof (induction items)
    case (Cons item items)
    obtain p target where "item = (p, target)" by (cases item)
    with Cons show ?case by (auto split: if_splits option.splits)
  qed simp
  have all: "list_all (\<lambda>m. m \<in> set known_codex_models) (map snd codexVersionModelPrefixes)" by code_simp
  assume "version_prefix key codexVersionModelPrefixes = Some r"
  with in_items have "r \<in> set (map snd codexVersionModelPrefixes)" by blast
  with all show ?thesis unfolding list_all_iff by blast
qed

lemma normal_known:
  assumes "normalizeKnownCodexModel m = Some r"
  shows "(isOpenAIImageGenerationModel (trim_space m) \<and> trim_space m \<noteq> [] \<and> r = trim_space m) \<or> r \<in> set known_codex_models"
proof (cases "trim_space m = [] \<or> isOpenAIImageGenerationModel (trim_space m)")
  case True
  with assms show ?thesis by (auto simp: normalizeKnownCodexModel_def Let_def split: if_splits)
next
  case False
  define seg where "seg = lastOpenAIModelSegment (trim_space m)"
  define name where "name = (if CanonicalizeOpenAIModelAliasSpelling seg \<noteq> [] then CanonicalizeOpenAIModelAliasSpelling seg else seg)"
  define key where "key = codexModelLookupKey name"
  have "normalizeKnownCodexModel m =
      (if normalizeKnownOpenAICodexModel name \<noteq> [] then Some (normalizeKnownOpenAICodexModel name)
       else if key = [] then None
       else if getNormalizedCodexModel key \<noteq> [] then Some (getNormalizedCodexModel key)
       else version_prefix key codexVersionModelPrefixes)"
    using False by (simp add: normalizeKnownCodexModel_def Let_def seg_def name_def key_def)
  with assms openai_known [of name] table_known [of key] versions_known [of key r] show ?thesis
    by (auto simp: known_or_empty_def split: if_splits)
qed

lemma known_fixed_first: "list_all (\<lambda>r. normalizeCodexModel r = r \<and> r \<noteq> []) (take 6 known_codex_models)"
  by code_simp

lemma known_fixed_second: "list_all (\<lambda>r. normalizeCodexModel r = r \<and> r \<noteq> []) (take 6 (drop 6 known_codex_models))"
  by code_simp

lemma known_fixed_rest: "list_all (\<lambda>r. normalizeCodexModel r = r \<and> r \<noteq> []) (drop 12 known_codex_models)"
  by code_simp

lemma known_fixed:
  assumes "r \<in> set known_codex_models"
  shows "normalizeCodexModel r = r" "r \<noteq> []"
proof -
  have split: "known_codex_models = take 6 known_codex_models @ take 6 (drop 6 known_codex_models) @ drop 12 known_codex_models"
    using append_take_drop_id [of 6 known_codex_models] append_take_drop_id [of 6 "drop 6 known_codex_models"] by simp
  have "list_all (\<lambda>r. normalizeCodexModel r = r \<and> r \<noteq> []) known_codex_models"
    by (subst split) (simp only: list_all_append known_fixed_first known_fixed_second known_fixed_rest simp_thms)
  with assms show "normalizeCodexModel r = r" "r \<noteq> []" unfolding list_all_iff by blast+
qed

text \<open>Bringing a Codex model name to its normal form never changes a normal form: the
  result is one of the known models, an image model as it was asked for, or the trimmed name when
  nothing is known about it, and normalising it again returns it.\<close>
theorem codex_normal_form:
  "(normalizeCodexModel m \<in> set known_codex_models \<or> normalizeCodexModel m = trim_space m) \<and>
   normalizeCodexModel m \<noteq> [] \<and> normalizeCodexModel (normalizeCodexModel m) = normalizeCodexModel m"
proof -
  note fixed = known_fixed
  have default_known: "''gpt-5.4'' \<in> set known_codex_models" by code_simp
  show ?thesis
  proof (cases "trim_space m = []")
    case True
    then have "normalizeCodexModel m = ''gpt-5.4''" by (simp add: normalizeCodexModel_def)
    with fixed default_known show ?thesis by metis
  next
    case False
    have same: "normalizeCodexModel (trim_space m) = normalizeCodexModel m"
      by (simp add: normalizeCodexModel_def cong: option.case_cong)
    have "normalizeCodexModel m = trim_space m \<or> normalizeCodexModel m \<in> set known_codex_models"
      using False normal_known [of "trim_space m"] by (auto simp: normalizeCodexModel_def split: option.split)
    with False same fixed show ?thesis by metis
  qed
qed

end
