(* ===== verification/Batch_Image_Errors.thy ===== *)
theory Batch_Image_Errors
  imports App_Errors
begin

section \<open>Errors of the batch image services\<close>

text \<open>
  The application errors of \<open>service/batch_image.go\<close>, \<open>batch_image_queue.go\<close> and \<open>batch_image_provider.go\<close>
  that the modelled operations return.
\<close>

definition ErrBatchImageJobNotFound :: ApplicationError where
  "ErrBatchImageJobNotFound = NewError 404 ''BATCH_IMAGE_JOB_NOT_FOUND'' ''batch image job not found''"
definition ErrBatchImageJobExists :: ApplicationError where
  "ErrBatchImageJobExists = NewError 409 ''BATCH_IMAGE_JOB_EXISTS'' ''batch image job already exists''"
definition ErrBatchImageInvalidTransition :: ApplicationError where
  "ErrBatchImageInvalidTransition =
     NewError 400 ''BATCH_IMAGE_INVALID_TRANSITION'' ''invalid batch image job status transition''"
definition ErrBatchImageInvalidProvider :: ApplicationError where
  "ErrBatchImageInvalidProvider = NewError 400 ''BATCH_IMAGE_INVALID_PROVIDER'' ''invalid batch image provider''"
definition ErrBatchImageMissingProviderJobName :: ApplicationError where
  "ErrBatchImageMissingProviderJobName =
     NewError 400 ''BATCH_IMAGE_MISSING_PROVIDER_JOB_NAME'' ''batch image provider job name is missing''"
definition ErrBatchImageMissingAccountID :: ApplicationError where
  "ErrBatchImageMissingAccountID =
     NewError 400 ''BATCH_IMAGE_MISSING_ACCOUNT_ID'' ''batch image account id is missing''"
definition ErrBatchImageUnsupportedProvider :: ApplicationError where
  "ErrBatchImageUnsupportedProvider =
     NewError 400 ''BATCH_IMAGE_UNSUPPORTED_PROVIDER'' ''unsupported batch image provider''"
definition ErrBatchImageIndexOutputMissing :: ApplicationError where
  "ErrBatchImageIndexOutputMissing =
     NewError 502 ''BATCH_IMAGE_INDEX_OUTPUT_MISSING'' ''batch image provider output is missing''"
definition ErrBatchImageIndexParseFailed :: ApplicationError where
  "ErrBatchImageIndexParseFailed =
     NewError 502 ''BATCH_IMAGE_INDEX_PARSE_FAILED'' ''batch image provider output parse failed''"
definition ErrBatchImageIndexNoResultLines :: ApplicationError where
  "ErrBatchImageIndexNoResultLines =
     NewError 502 ''BATCH_IMAGE_INDEX_NO_RESULT_LINES'' ''batch image provider output has no result lines''"
definition ErrBatchImageDuplicateCustomID :: ApplicationError where
  "ErrBatchImageDuplicateCustomID =
     NewError 502 ''DUPLICATE_CUSTOM_ID_IN_OUTPUT'' ''batch image provider output contains duplicate custom id''"
definition ErrBatchImageIndexStateConflict :: ApplicationError where
  "ErrBatchImageIndexStateConflict =
     NewError 409 ''BATCH_IMAGE_INDEX_STATE_CONFLICT'' ''batch image job is no longer in indexing state''"
definition ErrBatchImageSettlementInvalidStatus :: ApplicationError where
  "ErrBatchImageSettlementInvalidStatus =
     NewError 400 ''BATCH_IMAGE_SETTLEMENT_INVALID_STATUS'' ''batch image job is not ready for settlement''"
definition ErrBatchImageSettlementManifestConflict :: ApplicationError where
  "ErrBatchImageSettlementManifestConflict =
     NewError 409 ''BATCH_IMAGE_SETTLEMENT_MANIFEST_CONFLICT'' ''batch image settlement manifest hash conflict''"
definition ErrBatchImageSettlementPricingMissing :: ApplicationError where
  "ErrBatchImageSettlementPricingMissing =
     NewError 400 ''BATCH_IMAGE_SETTLEMENT_PRICING_MISSING'' ''batch image settlement pricing is missing''"
definition ErrBatchImageSettlementBillingFailed :: ApplicationError where
  "ErrBatchImageSettlementBillingFailed =
     NewError 502 ''BATCH_IMAGE_SETTLEMENT_BILLING_FAILED'' ''batch image settlement billing failed''"
definition ErrBatchImageAlreadySettled :: ApplicationError where
  "ErrBatchImageAlreadySettled = NewError 409 ''BATCH_IMAGE_ALREADY_SETTLED'' ''batch image job is already settled''"
definition ErrBatchImageSettlementMissingAPIKeyID :: ApplicationError where
  "ErrBatchImageSettlementMissingAPIKeyID =
     NewError 400 ''BATCH_IMAGE_SETTLEMENT_MISSING_API_KEY_ID'' ''batch image settlement api key id is missing''"
definition ErrBatchImageSettlementMissingAccountID :: ApplicationError where
  "ErrBatchImageSettlementMissingAccountID =
     NewError 400 ''BATCH_IMAGE_SETTLEMENT_MISSING_ACCOUNT_ID'' ''batch image settlement account id is missing''"
definition ErrBatchImageSettlementInvalidCounts :: ApplicationError where
  "ErrBatchImageSettlementInvalidCounts =
     NewError 400 ''BATCH_IMAGE_SETTLEMENT_INVALID_COUNTS'' ''batch image settlement counts are invalid''"
definition ErrBatchImageSettlementCostExceedsHold :: ApplicationError where
  "ErrBatchImageSettlementCostExceedsHold =
     NewError 409 ''BATCH_IMAGE_SETTLEMENT_COST_EXCEEDS_HOLD'' ''batch image settlement cost exceeds held balance''"
definition ErrBatchImageBillingHoldFailed :: ApplicationError where
  "ErrBatchImageBillingHoldFailed =
     NewError 502 ''BATCH_IMAGE_BILLING_HOLD_FAILED'' ''batch image balance hold failed''"
definition ErrBatchImageInsufficientBalance :: ApplicationError where
  "ErrBatchImageInsufficientBalance =
     NewError 402 ''BATCH_IMAGE_INSUFFICIENT_BALANCE'' ''insufficient balance for batch image hold''"
definition ErrBatchImageDisabled :: ApplicationError where
  "ErrBatchImageDisabled = NewError 404 ''BATCH_IMAGE_DISABLED'' ''batch image API is disabled''"
definition ErrBatchImageInvalidModel :: ApplicationError where
  "ErrBatchImageInvalidModel = NewError 400 ''BATCH_IMAGE_INVALID_MODEL'' ''batch image model is required''"
definition ErrBatchImageInvalidItems :: ApplicationError where
  "ErrBatchImageInvalidItems = NewError 400 ''BATCH_IMAGE_INVALID_ITEMS'' ''batch image items are invalid''"
definition ErrBatchImageDuplicateCustomIDInRequest :: ApplicationError where
  "ErrBatchImageDuplicateCustomIDInRequest =
     NewError 400 ''BATCH_IMAGE_DUPLICATE_CUSTOM_ID'' ''batch image custom ids must be unique''"
definition ErrBatchImagePromptTooLong :: ApplicationError where
  "ErrBatchImagePromptTooLong = NewError 400 ''BATCH_IMAGE_PROMPT_TOO_LONG'' ''batch image prompt is too long''"
definition ErrBatchImageInvalidReferenceImage :: ApplicationError where
  "ErrBatchImageInvalidReferenceImage =
     NewError 400 ''BATCH_IMAGE_INVALID_REFERENCE_IMAGE'' ''batch image reference image is invalid''"
definition ErrBatchImageTooManyReferenceImages :: ApplicationError where
  "ErrBatchImageTooManyReferenceImages =
     NewError 400 ''BATCH_IMAGE_TOO_MANY_REFERENCE_IMAGES'' ''too many batch image reference images for this model''"
definition ErrBatchImageReferenceImagesTooLarge :: ApplicationError where
  "ErrBatchImageReferenceImagesTooLarge =
     NewError 400 ''BATCH_IMAGE_REFERENCE_IMAGES_TOO_LARGE'' ''batch image reference images are too large''"
definition ErrBatchImageTooManyOutputImages :: ApplicationError where
  "ErrBatchImageTooManyOutputImages =
     NewError 400 ''BATCH_IMAGE_TOO_MANY_OUTPUT_IMAGES'' ''too many batch image output images''"
definition ErrBatchImageProviderSubmitFailed :: ApplicationError where
  "ErrBatchImageProviderSubmitFailed =
     NewError 502 ''BATCH_IMAGE_PROVIDER_SUBMIT_FAILED'' ''batch image provider submit failed''"
definition ErrBatchImageQueueFailed :: ApplicationError where
  "ErrBatchImageQueueFailed = NewError 502 ''BATCH_IMAGE_QUEUE_FAILED'' ''batch image queue failed''"
definition ErrBatchImageIdempotencyConflict :: ApplicationError where
  "ErrBatchImageIdempotencyConflict =
     NewError 409 ''BATCH_IMAGE_IDEMPOTENCY_CONFLICT'' ''idempotency key reused with different batch image request''"
definition ErrBatchImageCancelFailed :: ApplicationError where
  "ErrBatchImageCancelFailed = NewError 502 ''BATCH_IMAGE_CANCEL_FAILED'' ''batch image cancel failed''"
definition ErrBatchImageVertexGCSBucketMissing :: ApplicationError where
  "ErrBatchImageVertexGCSBucketMissing =
     NewError 502 ''BATCH_IMAGE_VERTEX_GCS_BUCKET_MISSING'' ''Vertex managed GCS bucket is not configured''"
definition ErrBatchImageRecordDeleteNotReady :: ApplicationError where
  "ErrBatchImageRecordDeleteNotReady =
     NewError 409 ''BATCH_IMAGE_RECORD_DELETE_NOT_READY'' ''batch image record can only be deleted after the job finishes''"
definition ErrBatchImageQueueEmpty :: ApplicationError where
  "ErrBatchImageQueueEmpty = NewError 404 ''BATCH_IMAGE_QUEUE_EMPTY'' ''batch image queue is empty''"
definition ErrBatchImageAlreadyQueued :: ApplicationError where
  "ErrBatchImageAlreadyQueued = NewError 409 ''BATCH_IMAGE_ALREADY_QUEUED'' ''batch image job is already queued''"
definition ErrInvalidBatchImageQueuePayload :: ApplicationError where
  "ErrInvalidBatchImageQueuePayload =
     NewError 400 ''BATCH_IMAGE_QUEUE_INVALID_PAYLOAD'' ''invalid batch image queue payload''"
definition ErrBatchImageProviderUnsupportedAccount :: ApplicationError where
  "ErrBatchImageProviderUnsupportedAccount =
     NewError 400 ''BATCH_IMAGE_PROVIDER_UNSUPPORTED_ACCOUNT'' ''batch image provider does not support this account''"
definition ErrBatchImageProviderMissingAPIKey :: ApplicationError where
  "ErrBatchImageProviderMissingAPIKey =
     NewError 400 ''BATCH_IMAGE_PROVIDER_MISSING_API_KEY'' ''batch image provider account is missing api key''"
definition ErrBatchImageProviderMissingServiceAccount :: ApplicationError where
  "ErrBatchImageProviderMissingServiceAccount =
     NewError 400 ''BATCH_IMAGE_PROVIDER_MISSING_SERVICE_ACCOUNT'' ''batch image provider account is missing service account credentials''"

end
