(* ===== verification/Batch_Image_Jobs.thy ===== *)
theory Batch_Image_Jobs
  imports Batch_Image_Errors
begin

section \<open>Batch image jobs and their table\<close>

text \<open>
  The job statuses and transitions of \<open>service/batch_image.go\<close> and the statements of
  \<open>repository/batch_image_repo.go\<close> that change a job. Batch identifiers are unique, so the table is a
  finite map from them. Every statement is atomic and takes the clock it reads; the audit events it
  appends are left out. Amounts of money are whole numbers of 1e-10 dollars, the scale of the table's
  columns; the binary rounding of Go's float64 is not modelled.
\<close>

type_synonym money = int

definition dollar :: money where "dollar = 10000000000"

definition BatchImageProviderGeminiAPI :: string where "BatchImageProviderGeminiAPI = ''gemini_api''"
definition BatchImageProviderVertex :: string where "BatchImageProviderVertex = ''vertex''"

definition StatusCreated :: string where "StatusCreated = ''created''"
definition StatusUploading :: string where "StatusUploading = ''uploading''"
definition StatusSubmitted :: string where "StatusSubmitted = ''submitted''"
definition StatusRunning :: string where "StatusRunning = ''running''"
definition StatusIndexing :: string where "StatusIndexing = ''indexing''"
definition StatusSettling :: string where "StatusSettling = ''settling''"
definition StatusCompleted :: string where "StatusCompleted = ''completed''"
definition StatusFailed :: string where "StatusFailed = ''failed''"
definition StatusCancelled :: string where "StatusCancelled = ''cancelled''"
definition StatusOutputDeleted :: string where "StatusOutputDeleted = ''output_deleted''"

lemmas status_defs = StatusCreated_def StatusUploading_def StatusSubmitted_def StatusRunning_def
  StatusIndexing_def StatusSettling_def StatusCompleted_def StatusFailed_def StatusCancelled_def
  StatusOutputDeleted_def


record BatchImageJob =
  bj_BatchID :: string
  bj_UserID :: int
  bj_APIKeyID :: "int option"
  bj_AccountID :: "int option"
  bj_Provider :: string
  bj_Model :: string
  bj_Status :: string
  bj_ProviderJobName :: "string option"
  bj_ProviderInputRef :: "string option"
  bj_ProviderOutputRef :: "string option"
  bj_GCSInputURI :: "string option"
  bj_GCSOutputURI :: "string option"
  bj_ItemCount :: int
  bj_SuccessCount :: int
  bj_FailCount :: int
  bj_EstimatedCost :: money
  bj_HoldAmount :: "money option"
  bj_ActualCost :: "money option"
  bj_BillableUnitPrice :: money
  bj_PricingSnapshotVersion :: int
  bj_RequestHash :: "string option"
  bj_ManifestHash :: "string option"
  bj_RetryCount :: int
  bj_Version :: int
  bj_OutputExpiresAt :: "gotime option"
  bj_InputDeletedAt :: "gotime option"
  bj_OutputDeletedAt :: "gotime option"
  bj_DownloadedAt :: "gotime option"
  bj_UserDeletedAt :: "gotime option"
  bj_LastErrorCode :: "string option"
  bj_LastErrorMessage :: "string option"
  bj_UpdatedAt :: gotime
  bj_SubmittedAt :: "gotime option"
  bj_StartedAt :: "gotime option"
  bj_FinishedAt :: "gotime option"
  bj_SettledAt :: "gotime option"

type_synonym batch_jobs = "(string, BatchImageJob) fmap"

subsection \<open>Statuses\<close>

definition IsSupportedBatchImageProvider :: "string \<Rightarrow> bool" where
  "IsSupportedBatchImageProvider provider = (provider = BatchImageProviderGeminiAPI \<or> provider = BatchImageProviderVertex)"

definition IsTerminalBatchImageJobStatus :: "string \<Rightarrow> bool" where
  "IsTerminalBatchImageJobStatus s =
     (s = StatusCompleted \<or> s = StatusFailed \<or> s = StatusCancelled \<or> s = StatusOutputDeleted)"

definition allowed_transitions :: "(string \<times> string list) list" where
  "allowed_transitions =
     [(StatusCreated, [StatusUploading, StatusSubmitted, StatusCancelled]),
      (StatusUploading, [StatusSubmitted, StatusCancelled]),
      (StatusSubmitted, [StatusRunning, StatusIndexing, StatusFailed, StatusCancelled]),
      (StatusRunning, [StatusRunning, StatusIndexing, StatusFailed, StatusCancelled]),
      (StatusIndexing, [StatusSettling, StatusFailed]),
      (StatusSettling, [StatusCompleted])]"

definition CanTransitionBatchImageJob :: "string \<Rightarrow> string \<Rightarrow> bool" where
  "CanTransitionBatchImageJob s s' =
     (if s = [] \<or> s' = [] then False
      else if IsTerminalBatchImageJobStatus s then
        s' = StatusOutputDeleted \<and> s \<noteq> StatusOutputDeleted \<and>
        (s = StatusCompleted \<or> s = StatusFailed \<or> s = StatusCancelled)
      else if s' = StatusFailed then True
      else (case map_of allowed_transitions s of None \<Rightarrow> False | Some tos \<Rightarrow> s' \<in> set tos))"

subsection \<open>Statements\<close>

text \<open>A timestamp column that is only written once.\<close>

definition first_time :: "gotime option \<Rightarrow> gotime \<Rightarrow> gotime option" where
  "first_time column t = (case column of None \<Rightarrow> Some t | Some x \<Rightarrow> Some x)"

definition null_if_empty :: "string \<Rightarrow> string option" where
  "null_if_empty s = (if s = [] then None else Some s)"

text \<open>UPDATE WHERE batch_id = b AND a condition: whether a row was affected, and the table.\<close>

definition update_job ::
    "string \<Rightarrow> (BatchImageJob \<Rightarrow> bool) \<Rightarrow> (BatchImageJob \<Rightarrow> BatchImageJob) \<Rightarrow> batch_jobs \<Rightarrow> bool \<times> batch_jobs" where
  "update_job b cond f t =
     (case fmlookup t b of
        None \<Rightarrow> (False, t)
      | Some j \<Rightarrow> if cond j then (True, fmupd b (f j) t) else (False, t))"

text \<open>The columns that are not among the parameters of the insertion get their defaults.\<close>

definition CreateBatchImageJob :: "gotime \<Rightarrow> BatchImageJob \<Rightarrow> batch_jobs \<Rightarrow> (ApplicationError + BatchImageJob) \<times> batch_jobs" where
  "CreateBatchImageJob now p t =
     (if \<not> IsSupportedBatchImageProvider (bj_Provider p) then (Inl ErrBatchImageInvalidProvider, t)
      else if bj_BatchID p |\<in>| fmdom t then (Inl ErrBatchImageJobExists, t)
      else (let j = p\<lparr>bj_Status := (if bj_Status p = [] then StatusCreated else bj_Status p), bj_Version := 0,
                  bj_InputDeletedAt := None, bj_OutputDeletedAt := None, bj_DownloadedAt := None, bj_UserDeletedAt := None,
                  bj_LastErrorCode := None, bj_LastErrorMessage := None, bj_UpdatedAt := now, bj_SubmittedAt := None,
                  bj_StartedAt := None, bj_FinishedAt := None, bj_SettledAt := None\<rparr>
            in (Inr j, fmupd (bj_BatchID p) j t)))"

definition transition_update :: "gotime \<Rightarrow> string \<Rightarrow> string option \<Rightarrow> string option \<Rightarrow> BatchImageJob \<Rightarrow> BatchImageJob" where
  "transition_update now s code msg j =
     j\<lparr>bj_Status := s, bj_Version := bj_Version j + 1, bj_UpdatedAt := now,
       bj_LastErrorCode := (if s = StatusFailed then code else bj_LastErrorCode j),
       bj_LastErrorMessage := (if s = StatusFailed then msg else bj_LastErrorMessage j),
       bj_SubmittedAt := (if s = StatusSubmitted then first_time (bj_SubmittedAt j) now else bj_SubmittedAt j),
       bj_StartedAt := (if s = StatusRunning then first_time (bj_StartedAt j) now else bj_StartedAt j),
       bj_FinishedAt := (if s \<in> {StatusCompleted, StatusFailed, StatusCancelled} then first_time (bj_FinishedAt j) now else bj_FinishedAt j),
       bj_SettledAt := (if s = StatusCompleted then first_time (bj_SettledAt j) now else bj_SettledAt j),
       bj_OutputDeletedAt := (if s = StatusOutputDeleted then first_time (bj_OutputDeletedAt j) now else bj_OutputDeletedAt j)\<rparr>"

definition TransitionBatchImageJobStatus ::
    "gotime \<Rightarrow> string \<Rightarrow> string \<Rightarrow> string option \<Rightarrow> string option \<Rightarrow> batch_jobs \<Rightarrow> ApplicationError option \<times> batch_jobs" where
  "TransitionBatchImageJobStatus now b s code msg t =
     (case fmlookup t b of
        None \<Rightarrow> (Some ErrBatchImageJobNotFound, t)
      | Some j \<Rightarrow>
          if \<not> CanTransitionBatchImageJob (bj_Status j) s then (Some ErrBatchImageInvalidTransition, t)
          else (None, fmupd b (transition_update now s code msg j) t))"

definition unsubmitted :: "BatchImageJob \<Rightarrow> bool" where
  "unsubmitted j = (bj_Status j = StatusCreated \<or> bj_Status j = StatusUploading)"

definition TouchBatchImageJobSubmitting :: "gotime \<Rightarrow> string \<Rightarrow> batch_jobs \<Rightarrow> batch_jobs" where
  "TouchBatchImageJobSubmitting now b t = snd (update_job b unsubmitted (\<lambda>j. j\<lparr>bj_UpdatedAt := now\<rparr>) t)"

definition FailStaleUnsubmittedBatchImageJob ::
    "gotime \<Rightarrow> string \<Rightarrow> gotime \<Rightarrow> string \<Rightarrow> string \<Rightarrow> batch_jobs \<Rightarrow> bool \<times> batch_jobs" where
  "FailStaleUnsubmittedBatchImageJob now b cutoff code msg t =
     update_job b (\<lambda>j. unsubmitted j \<and> bj_ProviderJobName j = None \<and> bj_UpdatedAt j \<le> cutoff)
       (\<lambda>j. j\<lparr>bj_Status := StatusFailed, bj_LastErrorCode := Some code, bj_LastErrorMessage := Some msg,
              bj_FinishedAt := first_time (bj_FinishedAt j) now, bj_UpdatedAt := now, bj_Version := bj_Version j + 1\<rparr>) t"

definition not_found_unless :: "bool \<times> batch_jobs \<Rightarrow> ApplicationError option \<times> batch_jobs" where
  "not_found_unless r = (if fst r then None else Some ErrBatchImageJobNotFound, snd r)"

definition UpdateBatchImageJobProviderOutputRef :: "gotime \<Rightarrow> string \<Rightarrow> string \<Rightarrow> batch_jobs \<Rightarrow> ApplicationError option \<times> batch_jobs" where
  "UpdateBatchImageJobProviderOutputRef now b ref t =
     not_found_unless (update_job b (\<lambda>j. True) (\<lambda>j. j\<lparr>bj_ProviderOutputRef := Some ref, bj_UpdatedAt := now\<rparr>) t)"

definition UpdateBatchImageJobProviderSubmit ::
    "gotime \<Rightarrow> string \<Rightarrow> string \<Rightarrow> string \<Rightarrow> string \<Rightarrow> string \<Rightarrow> string \<Rightarrow> batch_jobs \<Rightarrow> ApplicationError option \<times> batch_jobs" where
  "UpdateBatchImageJobProviderSubmit now b name inputRef outputRef gcsIn gcsOut t =
     (case fmlookup t b of
        None \<Rightarrow> (Some ErrBatchImageJobNotFound, t)
      | Some j \<Rightarrow>
          if \<not> CanTransitionBatchImageJob (bj_Status j) StatusSubmitted then (Some ErrBatchImageInvalidTransition, t)
          else (None, fmupd b
            (j\<lparr>bj_Status := StatusSubmitted, bj_ProviderJobName := Some name, bj_ProviderInputRef := null_if_empty inputRef,
               bj_ProviderOutputRef := null_if_empty outputRef, bj_GCSInputURI := null_if_empty gcsIn,
               bj_GCSOutputURI := null_if_empty gcsOut, bj_SubmittedAt := first_time (bj_SubmittedAt j) now,
               bj_UpdatedAt := now, bj_Version := bj_Version j + 1\<rparr>) t))"

definition RecordBatchImageJobSubmitFailure :: "gotime \<Rightarrow> string \<Rightarrow> string \<Rightarrow> string \<Rightarrow> bool \<Rightarrow> batch_jobs \<Rightarrow> batch_jobs" where
  "RecordBatchImageJobSubmitFailure now b code msg markFailed t =
     snd (update_job b (\<lambda>j. True)
       (\<lambda>j. let s = (if markFailed then StatusFailed else bj_Status j)
            in j\<lparr>bj_Status := s, bj_LastErrorCode := Some code, bj_LastErrorMessage := Some msg,
                 bj_FinishedAt := (if s = StatusFailed then first_time (bj_FinishedAt j) now else bj_FinishedAt j),
                 bj_UpdatedAt := now, bj_Version := bj_Version j + 1\<rparr>) t)"

definition MarkBatchImageJobSettled ::
    "string \<Rightarrow> money \<Rightarrow> string \<Rightarrow> gotime \<Rightarrow> gotime \<Rightarrow> batch_jobs \<Rightarrow> ApplicationError option \<times> batch_jobs" where
  "MarkBatchImageJobSettled b cost manifest now expires t =
     (case update_job b
        (\<lambda>j. bj_Status j = StatusSettling \<and>
             (bj_ManifestHash j = None \<or> bj_ManifestHash j = Some [] \<or> bj_ManifestHash j = Some manifest))
        (\<lambda>j. j\<lparr>bj_Status := StatusCompleted, bj_ActualCost := Some cost, bj_ManifestHash := Some manifest,
               bj_SettledAt := first_time (bj_SettledAt j) now, bj_FinishedAt := first_time (bj_FinishedAt j) now,
               bj_OutputExpiresAt := first_time (bj_OutputExpiresAt j) expires,
               bj_UpdatedAt := now, bj_Version := bj_Version j + 1\<rparr>) t of
        (True, t') \<Rightarrow> (None, t')
      | (False, t') \<Rightarrow>
          (case fmlookup t b of
             None \<Rightarrow> (Some ErrBatchImageJobNotFound, t)
           | Some j \<Rightarrow>
               (Some (if bj_Status j \<noteq> StatusSettling then
                        (if bj_Status j = StatusCompleted then ErrBatchImageAlreadySettled else ErrBatchImageSettlementInvalidStatus)
                      else ErrBatchImageSettlementManifestConflict), t)))"

text \<open>The new retry count, \<open>None\<close> when there is no such job.\<close>

definition SetBatchImageJobSettlementFailed :: "gotime \<Rightarrow> string \<Rightarrow> string \<Rightarrow> string \<Rightarrow> batch_jobs \<Rightarrow> int option \<times> batch_jobs" where
  "SetBatchImageJobSettlementFailed now b code msg t =
     (case fmlookup t b of
        None \<Rightarrow> (None, t)
      | Some j \<Rightarrow> (Some (bj_RetryCount j + 1),
          fmupd b (j\<lparr>bj_LastErrorCode := Some code, bj_LastErrorMessage := Some msg,
                     bj_RetryCount := bj_RetryCount j + 1, bj_UpdatedAt := now\<rparr>) t))"

text \<open>What rebuilding the items of a job does to the job itself.\<close>

definition ReplaceBatchImageItemsForJob :: "gotime \<Rightarrow> string \<Rightarrow> int \<Rightarrow> int \<Rightarrow> batch_jobs \<Rightarrow> ApplicationError option \<times> batch_jobs" where
  "ReplaceBatchImageItemsForJob now b success fail t =
     (case fmlookup t b of
        None \<Rightarrow> (Some ErrBatchImageJobNotFound, t)
      | Some j \<Rightarrow>
          if bj_Status j \<noteq> StatusIndexing then (Some ErrBatchImageIndexStateConflict, t)
          else (None, fmupd b (j\<lparr>bj_SuccessCount := success, bj_FailCount := fail, bj_UpdatedAt := now\<rparr>) t))"

definition MarkBatchImageInputDeleted :: "gotime \<Rightarrow> string \<Rightarrow> batch_jobs \<Rightarrow> ApplicationError option \<times> batch_jobs" where
  "MarkBatchImageInputDeleted at b t =
     not_found_unless (update_job b (\<lambda>j. True)
       (\<lambda>j. j\<lparr>bj_InputDeletedAt := first_time (bj_InputDeletedAt j) at, bj_UpdatedAt := at, bj_Version := bj_Version j + 1\<rparr>) t)"

definition MarkBatchImageOutputDeleted :: "gotime \<Rightarrow> string \<Rightarrow> batch_jobs \<Rightarrow> ApplicationError option \<times> batch_jobs" where
  "MarkBatchImageOutputDeleted at b t =
     not_found_unless (update_job b (\<lambda>j. True)
       (\<lambda>j. j\<lparr>bj_Status := (if bj_Status j = StatusCompleted then StatusOutputDeleted else bj_Status j),
              bj_OutputDeletedAt := first_time (bj_OutputDeletedAt j) at,
              bj_FinishedAt := (if bj_Status j = StatusCompleted then first_time (bj_FinishedAt j) at else bj_FinishedAt j),
              bj_UpdatedAt := at, bj_Version := bj_Version j + 1\<rparr>) t)"

definition MarkBatchImageDownloaded :: "gotime \<Rightarrow> string \<Rightarrow> batch_jobs \<Rightarrow> ApplicationError option \<times> batch_jobs" where
  "MarkBatchImageDownloaded at b t =
     not_found_unless (update_job b (\<lambda>j. True)
       (\<lambda>j. j\<lparr>bj_DownloadedAt := first_time (bj_DownloadedAt j) at, bj_UpdatedAt := at\<rparr>) t)"

definition MarkBatchImageJobUserDeleted :: "gotime \<Rightarrow> int \<Rightarrow> int \<Rightarrow> string \<Rightarrow> batch_jobs \<Rightarrow> ApplicationError option \<times> batch_jobs" where
  "MarkBatchImageJobUserDeleted at user key b t =
     (case update_job b (\<lambda>j. bj_UserID j = user \<and> bj_APIKeyID j = Some key \<and> bj_UserDeletedAt j = None \<and>
             IsTerminalBatchImageJobStatus (bj_Status j))
        (\<lambda>j. j\<lparr>bj_UserDeletedAt := first_time (bj_UserDeletedAt j) at, bj_UpdatedAt := at\<rparr>) t of
        (affected, t') \<Rightarrow> (if affected then None else Some ErrBatchImageRecordDeleteNotReady, t'))"

definition SetBatchImageOutputExpiresAt :: "gotime \<Rightarrow> string \<Rightarrow> gotime \<Rightarrow> batch_jobs \<Rightarrow> ApplicationError option \<times> batch_jobs" where
  "SetBatchImageOutputExpiresAt now b expires t =
     not_found_unless (update_job b (\<lambda>j. True)
       (\<lambda>j. j\<lparr>bj_OutputExpiresAt := first_time (bj_OutputExpiresAt j) expires, bj_UpdatedAt := now\<rparr>) t)"

definition RecordBatchImageCleanupFailure :: "gotime \<Rightarrow> string \<Rightarrow> string \<Rightarrow> string \<Rightarrow> batch_jobs \<Rightarrow> batch_jobs" where
  "RecordBatchImageCleanupFailure now b code msg t =
     snd (update_job b (\<lambda>j. True)
       (\<lambda>j. j\<lparr>bj_LastErrorCode := Some code, bj_LastErrorMessage := Some msg,
              bj_RetryCount := bj_RetryCount j + 1, bj_UpdatedAt := now\<rparr>) t)"

subsection \<open>Queries\<close>

definition GetBatchImageJobByBatchID :: "string \<Rightarrow> batch_jobs \<Rightarrow> ApplicationError + BatchImageJob" where
  "GetBatchImageJobByBatchID b t =
     (case fmlookup t b of None \<Rightarrow> Inl ErrBatchImageJobNotFound | Some j \<Rightarrow> Inr j)"

definition GetBatchImageJobByBatchIDForOwner :: "int \<Rightarrow> int \<Rightarrow> string \<Rightarrow> batch_jobs \<Rightarrow> ApplicationError + BatchImageJob" where
  "GetBatchImageJobByBatchIDForOwner user key b t =
     (case fmlookup t b of
        None \<Rightarrow> Inl ErrBatchImageJobNotFound
      | Some j \<Rightarrow> if bj_UserID j = user \<and> bj_APIKeyID j = Some key \<and> bj_UserDeletedAt j = None then Inr j
                  else Inl ErrBatchImageJobNotFound)"

text \<open>The condition of the scan for jobs that never reached the provider.\<close>

definition stale_unsubmitted :: "gotime \<Rightarrow> BatchImageJob \<Rightarrow> bool" where
  "stale_unsubmitted cutoff j =
     (unsubmitted j \<and> bj_ProviderJobName j = None \<and>
      0 < (case bj_HoldAmount j of Some h \<Rightarrow> h | None \<Rightarrow> bj_EstimatedCost j) \<and> bj_UpdatedAt j \<le> cutoff)"

end
