(* ===== verification/Batch_Image_Billing.thy ===== *)
theory Batch_Image_Billing
  imports Batch_Image_Jobs
begin

section \<open>Balance holds\<close>

text \<open>
  The balance holds of \<open>repository/usage_billing_repo.go\<close>: reserving, capturing and releasing an
  amount, each once per request identifier, and the commands of \<open>service/usage_billing.go\<close> and
  \<open>service/batch_image_billing_hold.go\<close>. One transaction is one step; a transaction that returns an
  error, or finds its request identifier claimed, leaves the database as it was.
\<close>

subsection \<open>The database\<close>

record UserBalance =
  ub_balance :: money
  ub_frozen :: money
  ub_deleted :: bool

record billing_db =
  bd_users :: "(int, UserBalance) fmap"
  bd_dedup :: "(string \<times> int, string) fmap"
  bd_archive :: "(string \<times> int, string) fmap"

text \<open>
  The columns for balances have eight decimals, the amounts ten: what is stored is rounded to the
  nearest multiple of 1e-8, halves away from zero.
\<close>

definition to_scale8 :: "money \<Rightarrow> money" where
  "to_scale8 x = sgn x * ((\<bar>x\<bar> + 50) div 100 * 100)"

subsection \<open>Commands\<close>

definition ErrUsageBillingRequestIDRequired :: go_error where
  "ErrUsageBillingRequestIDRequired = Other ''usage billing request_id is required''"
definition ErrUsageBillingRequestConflict :: go_error where
  "ErrUsageBillingRequestConflict = Other ''usage billing request fingerprint conflict''"
definition ErrFrozenInsufficient :: go_error where
  "ErrFrozenInsufficient = Other ''batch image frozen balance is insufficient''"
definition ErrUserNotFound :: ApplicationError where
  "ErrUserNotFound = NewError 404 ''USER_NOT_FOUND'' ''user not found''"

record BatchImageBalanceHoldCommand =
  hc_RequestID :: string
  hc_APIKeyID :: int
  hc_RequestFingerprint :: string
  hc_RequestPayloadHash :: string
  hc_UserID :: int
  hc_BatchID :: string
  hc_HoldAmount :: money
  hc_ActualAmount :: money

record BatchImageBalanceHoldResult =
  hr_Applied :: bool
  hr_NewBalance :: "money option"
  hr_FrozenBalance :: "money option"

definition no_result :: BatchImageBalanceHoldResult where
  "no_result = \<lparr>hr_Applied = False, hr_NewBalance = None, hr_FrozenBalance = None\<rparr>"

definition BatchImageHoldRequestID :: "string \<Rightarrow> string" where
  "BatchImageHoldRequestID b = ''batch_image_hold:'' @ trim_space b"
definition BatchImageCaptureRequestID :: "string \<Rightarrow> string" where
  "BatchImageCaptureRequestID b = ''batch_image_capture:'' @ trim_space b"
definition BatchImageReleaseRequestID :: "string \<Rightarrow> string" where
  "BatchImageReleaseRequestID b = ''batch_image_release:'' @ trim_space b"

text \<open>An amount under the verb \<open>%0.10f\<close>.\<close>

definition money_text :: "money \<Rightarrow> string" where
  "money_text a =
     (if a < 0 then ''-'' else []) @ Itoa (\<bar>a\<bar> div 10000000000) @ ''.'' @
     map (\<lambda>k. digit (nat (\<bar>a\<bar> div 10 ^ k mod 10))) [9, 8, 7, 6, 5, 4, 3, 2, 1, 0]"

text \<open>The digest is a parameter.\<close>

definition buildBatchImageBalanceHoldFingerprint :: "(string \<Rightarrow> string) \<Rightarrow> BatchImageBalanceHoldCommand \<Rightarrow> string" where
  "buildBatchImageBalanceHoldFingerprint sha c =
     (let raw = Itoa (hc_UserID c) @ ''|'' @ Itoa (hc_APIKeyID c) @ ''|'' @ trim_space (hc_BatchID c) @ ''|'' @
                money_text (hc_HoldAmount c) @ ''|'' @ money_text (hc_ActualAmount c);
          payload = trim_space (hc_RequestPayloadHash c)
      in sha (if payload = [] then raw else raw @ ''|'' @ payload))"

definition Normalize :: "(string \<Rightarrow> string) \<Rightarrow> BatchImageBalanceHoldCommand \<Rightarrow> BatchImageBalanceHoldCommand" where
  "Normalize sha c =
     (let c1 = c\<lparr>hc_RequestID := trim_space (hc_RequestID c), hc_BatchID := trim_space (hc_BatchID c)\<rparr>
      in if trim_space (hc_RequestFingerprint c1) = []
         then c1\<lparr>hc_RequestFingerprint := buildBatchImageBalanceHoldFingerprint sha c1\<rparr> else c1)"

subsection \<open>Claiming a request\<close>

definition claimUsageBillingRequest :: "string \<Rightarrow> int \<Rightarrow> string \<Rightarrow> billing_db \<Rightarrow> go_error + bool \<times> billing_db" where
  "claimUsageBillingRequest rid key fingerprint d =
     (case fmlookup (bd_dedup d) (rid, key) of
        Some existing \<Rightarrow>
          if trim_space existing \<noteq> trim_space fingerprint then Inl ErrUsageBillingRequestConflict else Inr (False, d)
      | None \<Rightarrow>
          (let d' = d\<lparr>bd_dedup := fmupd (rid, key) fingerprint (bd_dedup d)\<rparr>
           in case fmlookup (bd_archive d) (rid, key) of
                Some archived \<Rightarrow>
                  if trim_space archived \<noteq> trim_space fingerprint then Inl ErrUsageBillingRequestConflict else Inr (False, d')
              | None \<Rightarrow> Inr (True, d')))"

definition batchImageHoldClaimExists :: "string \<Rightarrow> int \<Rightarrow> billing_db \<Rightarrow> bool" where
  "batchImageHoldClaimExists rid key d = ((rid, key) |\<in>| fmdom (bd_dedup d) \<or> (rid, key) |\<in>| fmdom (bd_archive d))"

subsection \<open>The three movements\<close>

text \<open>The update of a user under a condition on the row, and the errors when no row is affected.\<close>

definition move_balance ::
    "int \<Rightarrow> (UserBalance \<Rightarrow> bool) \<Rightarrow> (UserBalance \<Rightarrow> money) \<Rightarrow> (UserBalance \<Rightarrow> money) \<Rightarrow> go_error \<Rightarrow> billing_db \<Rightarrow>
     go_error + BatchImageBalanceHoldResult \<times> billing_db" where
  "move_balance user cond balance frozen refused d =
     (case fmlookup (bd_users d) user of
        None \<Rightarrow> Inl (App ErrUserNotFound)
      | Some u \<Rightarrow>
          if ub_deleted u then Inl (App ErrUserNotFound)
          else if \<not> cond u then Inl refused
          else (let b = to_scale8 (balance u); f = to_scale8 (frozen u)
                in Inr (\<lparr>hr_Applied = False, hr_NewBalance = Some b, hr_FrozenBalance = Some f\<rparr>,
                        d\<lparr>bd_users := fmupd user (u\<lparr>ub_balance := b, ub_frozen := f\<rparr>) (bd_users d)\<rparr>)))"

definition reserveUsageBillingBatchImageBalance ::
    "BatchImageBalanceHoldCommand \<Rightarrow> billing_db \<Rightarrow> go_error + BatchImageBalanceHoldResult \<times> billing_db" where
  "reserveUsageBillingBatchImageBalance c d =
     (if hc_HoldAmount c \<le> 0 then Inr (no_result, d)
      else move_balance (hc_UserID c) (\<lambda>u. hc_HoldAmount c \<le> ub_balance u)
        (\<lambda>u. ub_balance u - hc_HoldAmount c) (\<lambda>u. ub_frozen u + hc_HoldAmount c)
        (App ErrBatchImageInsufficientBalance) d)"

definition captureUsageBillingBatchImageBalance ::
    "BatchImageBalanceHoldCommand \<Rightarrow> billing_db \<Rightarrow> go_error + BatchImageBalanceHoldResult \<times> billing_db" where
  "captureUsageBillingBatchImageBalance c d =
     (if hc_HoldAmount c \<le> 0 \<and> hc_ActualAmount c \<le> 0 then Inr (no_result, d)
      else if 100 < hc_ActualAmount c - hc_HoldAmount c then Inl (App ErrBatchImageSettlementCostExceedsHold)
      else move_balance (hc_UserID c) (\<lambda>u. hc_HoldAmount c \<le> ub_frozen u)
        (\<lambda>u. ub_balance u + (if hc_ActualAmount c < hc_HoldAmount c then hc_HoldAmount c - hc_ActualAmount c else 0)
               - (if hc_HoldAmount c < hc_ActualAmount c then hc_ActualAmount c - hc_HoldAmount c else 0))
        (\<lambda>u. ub_frozen u - hc_HoldAmount c) ErrFrozenInsufficient d)"

definition releaseUsageBillingBatchImageBalance ::
    "BatchImageBalanceHoldCommand \<Rightarrow> billing_db \<Rightarrow> go_error + BatchImageBalanceHoldResult \<times> billing_db" where
  "releaseUsageBillingBatchImageBalance c d =
     (if hc_HoldAmount c \<le> 0 then Inr (no_result, d)
      else if \<not> batchImageHoldClaimExists (BatchImageHoldRequestID (hc_BatchID c)) (hc_APIKeyID c) d then Inr (no_result, d)
      else move_balance (hc_UserID c) (\<lambda>u. hc_HoldAmount c \<le> ub_frozen u)
        (\<lambda>u. ub_balance u + hc_HoldAmount c) (\<lambda>u. ub_frozen u - hc_HoldAmount c) ErrFrozenInsufficient d)"

definition applyBatchImageBalanceHold ::
    "(string \<Rightarrow> string) \<Rightarrow> (BatchImageBalanceHoldCommand \<Rightarrow> billing_db \<Rightarrow> go_error + BatchImageBalanceHoldResult \<times> billing_db) \<Rightarrow>
     BatchImageBalanceHoldCommand \<Rightarrow> billing_db \<Rightarrow> (go_error + BatchImageBalanceHoldResult) \<times> billing_db" where
  "applyBatchImageBalanceHold sha effect c0 d =
     (let c = Normalize sha c0
      in if hc_RequestID c = [] then (Inl ErrUsageBillingRequestIDRequired, d)
         else case claimUsageBillingRequest (hc_RequestID c) (hc_APIKeyID c) (hc_RequestFingerprint c) d of
                Inl e \<Rightarrow> (Inl e, d)
              | Inr (applied, d1) \<Rightarrow>
                  if \<not> applied then (Inr no_result, d)
                  else (case effect c d1 of
                          Inl e \<Rightarrow> (Inl e, d)
                        | Inr (r, d2) \<Rightarrow> (Inr (r\<lparr>hr_Applied := True\<rparr>), d2)))"

definition ReserveBatchImageBalance where
  "ReserveBatchImageBalance sha = applyBatchImageBalanceHold sha reserveUsageBillingBatchImageBalance"
definition CaptureBatchImageBalance where
  "CaptureBatchImageBalance sha = applyBatchImageBalanceHold sha captureUsageBillingBatchImageBalance"
definition ReleaseBatchImageBalance where
  "ReleaseBatchImageBalance sha = applyBatchImageBalanceHold sha releaseUsageBillingBatchImageBalance"

subsection \<open>Commands for a job\<close>

definition hold_amount :: "BatchImageJob \<Rightarrow> money" where
  "hold_amount j = (case bj_HoldAmount j of Some h \<Rightarrow> h | None \<Rightarrow> bj_EstimatedCost j)"

definition buildBatchImageHoldCommand ::
    "BatchImageJob \<Rightarrow> string \<Rightarrow> money \<Rightarrow> string \<Rightarrow> ApplicationError + BatchImageBalanceHoldCommand" where
  "buildBatchImageHoldCommand j requestID actual payloadHash =
     (case bj_APIKeyID j of
        None \<Rightarrow> Inl ErrBatchImageSettlementMissingAPIKeyID
      | Some key \<Rightarrow>
          if key \<le> 0 then Inl ErrBatchImageSettlementMissingAPIKeyID
          else Inr \<lparr>hc_RequestID = requestID, hc_APIKeyID = key, hc_RequestFingerprint = [],
                    hc_RequestPayloadHash = trim_space payloadHash, hc_UserID = bj_UserID j, hc_BatchID = bj_BatchID j,
                    hc_HoldAmount = max 0 (hold_amount j), hc_ActualAmount = max 0 actual\<rparr>)"

end
