(* ===== verification/Request_Once.thy ===== *)
theory Request_Once
  imports App_Errors
begin

section \<open>Once per request\<close>

text \<open>
  The contract of a transaction that claims a request identifier: an error changes nothing, a
  repetition changes nothing and finds its key claimed, and what is applied claims its key and no other.
  The movements of balance holds and the booking of usage both meet it, over the same table of claims.
\<close>

locale once_per_request =
  fixes perform :: "'c \<Rightarrow> 'd \<Rightarrow> (go_error + 'r) \<times> 'd"
    and key :: "'c \<Rightarrow> 'k"
    and claims :: "'d \<Rightarrow> 'k \<Rightarrow> bool"
    and applied :: "'r \<Rightarrow> bool"
  assumes refused: "perform c d = (Inl e, d') \<Longrightarrow> d' = d"
    and repeated: "perform c d = (Inr r, d') \<Longrightarrow> \<not> applied r \<Longrightarrow> d' = d \<and> claims d (key c)"
    and first: "perform c d = (Inr r, d') \<Longrightarrow> applied r \<Longrightarrow> \<not> claims d (key c)"
    and claimed: "perform c d = (Inr r, d') \<Longrightarrow> applied r \<Longrightarrow> claims d' k \<longleftrightarrow> claims d k \<or> k = key c"
begin

lemma claims_stay: "claims d k \<Longrightarrow> claims (snd (perform c d)) k"
proof -
  assume k: "claims d k"
  obtain x d' where p: "perform c d = (x, d')" by (cases "perform c d")
  show ?thesis
  proof (cases x)
    case (Inl e)
    with p k refused [of c d e d'] show ?thesis by simp
  next
    case (Inr r)
    with p k repeated [of c d r d'] claimed [of c d r d' k] show ?thesis by (cases "applied r") auto
  qed
qed

lemma run_claims: "claims d k \<Longrightarrow> claims (fold (\<lambda>c d. snd (perform c d)) cs d) k"
  by (induction cs arbitrary: d) (auto intro: claims_stay)

lemma claimed_unchanged:
  assumes "claims d (key c)"
  shows "snd (perform c d) = d" and "fst (perform c d) = Inr r \<Longrightarrow> \<not> applied r"
proof -
  obtain x d' where p: "perform c d = (x, d')" by (cases "perform c d")
  have "\<not> applied r" if "x = Inr r" for r using first [of c d r d'] p that assms by blast
  then show "snd (perform c d) = d" "fst (perform c d) = Inr r \<Longrightarrow> \<not> applied r"
    using p refused repeated by (cases x; fastforce)+
qed

lemma at_most_once:
  assumes "perform c d = (Inr r, d1)" and "applied r" and "key c' = key c"
  shows "snd (perform c' (fold (\<lambda>c d. snd (perform c d)) cs d1)) = fold (\<lambda>c d. snd (perform c d)) cs d1"
    and "fst (perform c' (fold (\<lambda>c d. snd (perform c d)) cs d1)) = Inr r' \<Longrightarrow> \<not> applied r'"
proof -
  have "claims (fold (\<lambda>c d. snd (perform c d)) cs d1) (key c')"
    using run_claims claimed [OF assms(1,2)] assms(3) by simp
  from claimed_unchanged [OF this]
  show "snd (perform c' (fold (\<lambda>c d. snd (perform c d)) cs d1)) = fold (\<lambda>c d. snd (perform c d)) cs d1"
    "fst (perform c' (fold (\<lambda>c d. snd (perform c d)) cs d1)) = Inr r' \<Longrightarrow> \<not> applied r'"
    by blast+
qed

end

end
