(* ===== verification/Batch_Image_Ledger.thy ===== *)
theory Batch_Image_Ledger
  imports Batch_Image_Billing Request_Once
begin

section \<open>What the holds do to the books\<close>

text \<open>
  Every movement keeps the sum of a user's free and frozen money except for what is captured, and
  frozen money is the sum of the holds that were neither captured nor released, as long as a batch
  is not both captured and released and not reserved after its release.
\<close>

datatype hold_op = Reserve | Capture | Release

fun movement :: "hold_op \<Rightarrow> (string \<Rightarrow> string) \<Rightarrow> BatchImageBalanceHoldCommand \<Rightarrow> billing_db \<Rightarrow>
    (go_error + BatchImageBalanceHoldResult) \<times> billing_db" where
  "movement Reserve = ReserveBatchImageBalance"
| "movement Capture = CaptureBatchImageBalance"
| "movement Release = ReleaseBatchImageBalance"

lemmas movement_defs = ReserveBatchImageBalance_def CaptureBatchImageBalance_def ReleaseBatchImageBalance_def

fun hold_effect :: "hold_op \<Rightarrow> BatchImageBalanceHoldCommand \<Rightarrow> billing_db \<Rightarrow> go_error + BatchImageBalanceHoldResult \<times> billing_db" where
  "hold_effect Reserve = reserveUsageBillingBatchImageBalance"
| "hold_effect Capture = captureUsageBillingBatchImageBalance"
| "hold_effect Release = releaseUsageBillingBatchImageBalance"

lemmas hold_effect_defs = reserveUsageBillingBatchImageBalance_def captureUsageBillingBatchImageBalance_def
  releaseUsageBillingBatchImageBalance_def

lemma movement_effect: "movement op sha = applyBatchImageBalanceHold sha (hold_effect op)"
  by (cases op) (simp_all add: movement_defs)

subsection \<open>Rounding\<close>

lemma to_scale8_near: "\<bar>to_scale8 x - x\<bar> \<le> 50"
proof -
  have "(\<bar>x\<bar> + 50) div 100 * 100 = \<bar>x\<bar> + 50 - (\<bar>x\<bar> + 50) mod 100" by (simp add: minus_mod_eq_div_mult)
  moreover have "0 \<le> (\<bar>x\<bar> + 50) mod 100" "(\<bar>x\<bar> + 50) mod 100 < 100" by simp_all
  ultimately have "\<bar>(\<bar>x\<bar> + 50) div 100 * 100 - \<bar>x\<bar>\<bar> \<le> 50" by linarith
  then show ?thesis by (cases x "0 :: int" rule: linorder_cases) (auto simp: to_scale8_def)
qed

lemma to_scale8_exact: "100 dvd x \<Longrightarrow> to_scale8 x = x"
proof -
  assume "100 dvd x"
  then obtain k where "x = 100 * k" by (auto simp: dvd_def)
  moreover have "(\<bar>100 * k\<bar> + 50) div 100 = \<bar>k\<bar>" for k :: int by (simp add: abs_mult)
  ultimately show ?thesis by (simp add: to_scale8_def sgn_if)
qed

lemma to_scale8_scaled: "100 dvd to_scale8 x"
  by (simp add: to_scale8_def)

lemma to_scale8_nonneg: "0 \<le> x \<Longrightarrow> 0 \<le> to_scale8 x"
  by (auto simp: to_scale8_def sgn_if)

subsection \<open>Books of the users\<close>

definition user_ok :: "UserBalance \<Rightarrow> bool" where
  "user_ok u = (0 \<le> ub_frozen u \<and> 100 dvd ub_balance u \<and> 100 dvd ub_frozen u)"

definition books_ok :: "billing_db \<Rightarrow> bool" where
  "books_ok d = (\<forall>i u. fmlookup (bd_users d) i = Some u \<longrightarrow> user_ok u)"

definition funds :: "billing_db \<Rightarrow> int \<Rightarrow> money" where
  "funds d i = (case fmlookup (bd_users d) i of None \<Rightarrow> 0 | Some u \<Rightarrow> ub_balance u + ub_frozen u)"

text \<open>What a movement takes out of a user's funds when it is applied.\<close>

definition spends :: "hold_op \<Rightarrow> BatchImageBalanceHoldCommand \<Rightarrow> money" where
  "spends op c = (if op = Capture \<and> (0 < hc_HoldAmount c \<or> 0 < hc_ActualAmount c) then hc_ActualAmount c else 0)"

lemma move_cases:
  assumes "move_balance i cond b f refused d = Inr (r, d')"
  obtains u where "fmlookup (bd_users d) i = Some u" "\<not> ub_deleted u" "cond u"
    "d' = d\<lparr>bd_users := fmupd i (u\<lparr>ub_balance := to_scale8 (b u), ub_frozen := to_scale8 (f u)\<rparr>) (bd_users d)\<rparr>"
  using assms by (auto simp: move_balance_def Let_def split: option.splits if_splits)

lemma move_other: "move_balance i cond b f refused d = Inr (r, d') \<Longrightarrow> k \<noteq> i \<Longrightarrow> funds d' k = funds d k"
  by (erule move_cases) (simp add: funds_def)

lemma move_dedup: "move_balance i cond b f refused d = Inr (r, d') \<Longrightarrow> bd_dedup d' = bd_dedup d \<and> bd_archive d' = bd_archive d"
  by (erule move_cases) simp

lemma move_books:
  "move_balance i cond b f refused d = Inr (r, d') \<Longrightarrow> books_ok d \<Longrightarrow> (\<And>u. cond u \<Longrightarrow> user_ok u \<Longrightarrow> 0 \<le> f u) \<Longrightarrow> books_ok d'"
  by (erule move_cases) (auto simp: books_ok_def user_ok_def to_scale8_scaled to_scale8_nonneg)

lemma effect_books: "hold_effect op c d = Inr (r, d') \<Longrightarrow> books_ok d \<Longrightarrow> books_ok d'"
  by (cases op) (auto simp: hold_effect_defs user_ok_def split: if_splits elim!: move_books)

lemma effect_dedup: "hold_effect op c d = Inr (r, d') \<Longrightarrow> bd_dedup d' = bd_dedup d \<and> bd_archive d' = bd_archive d"
  by (cases op) (auto simp: hold_effect_defs split: if_splits dest: move_dedup)

lemma effect_other: "hold_effect op c d = Inr (r, d') \<Longrightarrow> k \<noteq> hc_UserID c \<Longrightarrow> funds d' k = funds d k"
  by (cases op) (auto simp: hold_effect_defs split: if_splits dest: move_other)

lemma move_funds:
  assumes "move_balance i cond b f refused d = Inr (r, d')" and "\<And>u. b u + f u = ub_balance u + ub_frozen u - s"
  shows "\<bar>funds d' i - (funds d i - s)\<bar> \<le> 100"
proof -
  from assms(1) obtain u where
    u: "fmlookup (bd_users d) i = Some u"
    "d' = d\<lparr>bd_users := fmupd i (u\<lparr>ub_balance := to_scale8 (b u), ub_frozen := to_scale8 (f u)\<rparr>) (bd_users d)\<rparr>"
    by (rule move_cases)
  then show ?thesis
    using to_scale8_near [of "b u"] to_scale8_near [of "f u"] assms(2) [of u] by (simp add: funds_def)
qed

lemma move_funds_exact:
  assumes "move_balance i cond b f refused d = Inr (r, d')" and "\<And>u. b u + f u = ub_balance u + ub_frozen u - s"
    and "books_ok d" and "\<And>u. user_ok u \<Longrightarrow> 100 dvd b u \<and> 100 dvd f u"
  shows "funds d' i = funds d i - s"
proof -
  from assms(1) obtain u where
    u: "fmlookup (bd_users d) i = Some u"
    "d' = d\<lparr>bd_users := fmupd i (u\<lparr>ub_balance := to_scale8 (b u), ub_frozen := to_scale8 (f u)\<rparr>) (bd_users d)\<rparr>"
    by (rule move_cases)
  moreover have "user_ok u" using assms(3) u(1) by (simp add: books_ok_def)
  ultimately show ?thesis
    using assms(2) [of u] assms(4) [of u] by (simp add: funds_def to_scale8_exact)
qed

lemmas move_keeps = move_funds [where s = 0, simplified]
lemmas move_keeps_exact = move_funds_exact [where s = 0, simplified]

lemma effect_funds: "hold_effect op c d = Inr (r, d') \<Longrightarrow> \<bar>funds d' (hc_UserID c) - (funds d (hc_UserID c) - spends op c)\<bar> \<le> 100"
  by (cases op) (auto simp: hold_effect_defs spends_def split: if_splits elim!: move_funds move_keeps)

lemma effect_funds_exact:
  "hold_effect op c d = Inr (r, d') \<Longrightarrow> books_ok d \<Longrightarrow> 100 dvd hc_HoldAmount c \<Longrightarrow> 100 dvd spends op c \<Longrightarrow>
   funds d' (hc_UserID c) = funds d (hc_UserID c) - spends op c"
  by (cases op) (auto simp: hold_effect_defs spends_def user_ok_def split: if_splits elim!: move_funds_exact move_keeps_exact)


lemma claim_cases:
  assumes "claimUsageBillingRequest rid key fingerprint d = Inr (applied, d1)"
  shows "applied \<longleftrightarrow> (rid, key) |\<notin>| fmdom (bd_dedup d) \<and> (rid, key) |\<notin>| fmdom (bd_archive d)"
    and "applied \<Longrightarrow> d1 = d\<lparr>bd_dedup := fmupd (rid, key) fingerprint (bd_dedup d)\<rparr>"
  using assms by (auto simp: claimUsageBillingRequest_def Let_def fmdom_notD intro: fmdomI split: option.splits if_splits)

lemma Normalize_fields [simp]:
  "hc_UserID (Normalize sha c) = hc_UserID c" "hc_APIKeyID (Normalize sha c) = hc_APIKeyID c"
  "hc_HoldAmount (Normalize sha c) = hc_HoldAmount c" "hc_ActualAmount (Normalize sha c) = hc_ActualAmount c"
  "hc_RequestID (Normalize sha c) = trim_space (hc_RequestID c)" "hc_BatchID (Normalize sha c) = trim_space (hc_BatchID c)"
  by (simp_all add: Normalize_def Let_def)

lemma Normalize_spends [simp]: "spends op (Normalize sha c) = spends op c"
  by (auto simp: spends_def)

definition request_key :: "BatchImageBalanceHoldCommand \<Rightarrow> string \<times> int" where
  "request_key c = (trim_space (hc_RequestID c), hc_APIKeyID c)"

definition claimed :: "billing_db \<Rightarrow> string \<times> int \<Rightarrow> bool" where
  "claimed d k = (k |\<in>| fmdom (bd_dedup d) \<or> k |\<in>| fmdom (bd_archive d))"

text \<open>A movement is refused and changes nothing, repeats an earlier one and changes nothing, or claims
  its request and has its effect.\<close>

lemma movement_cases:
  obtains (refused) e where "movement op sha c d = (Inl e, d)"
  | (repeated) "movement op sha c d = (Inr no_result, d)" "claimed d (request_key c)"
  | (applied) r d' where "movement op sha c d = (Inr (r\<lparr>hr_Applied := True\<rparr>), d')" "\<not> claimed d (request_key c)"
      "hold_effect op (Normalize sha c)
         (d\<lparr>bd_dedup := fmupd (request_key c) (hc_RequestFingerprint (Normalize sha c)) (bd_dedup d)\<rparr>) = Inr (r, d')"
proof (cases "trim_space (hc_RequestID c) = []")
  case True
  then show thesis
    by (intro refused [of ErrUsageBillingRequestIDRequired])
      (simp add: movement_effect applyBatchImageBalanceHold_def Let_def)
next
  case False
  let ?n = "Normalize sha c"
  let ?claim = "claimUsageBillingRequest (trim_space (hc_RequestID c)) (hc_APIKeyID c) (hc_RequestFingerprint ?n) d"
  show thesis
  proof (cases ?claim)
    case (Inl e)
    with False show thesis by (intro refused [of e]) (simp add: movement_effect applyBatchImageBalanceHold_def Let_def)
  next
    case (Inr res)
    obtain applied d1 where res: "res = (applied, d1)" by (cases res)
    note claim = claim_cases [OF Inr [unfolded res]]
    show thesis
    proof (cases applied)
      case False2: False
      with False Inr res claim(1) show thesis
        by (intro repeated) (auto simp: movement_effect applyBatchImageBalanceHold_def Let_def claimed_def request_key_def)
    next
      case True
      note d1 = claim(2) [OF True]
      show thesis
      proof (cases "hold_effect op ?n d1")
        case (Inl e)
        with False Inr res True show thesis
          by (intro refused [of e]) (simp add: movement_effect applyBatchImageBalanceHold_def Let_def)
      next
        case eff: (Inr out)
        obtain r d' where "out = (r, d')" by (cases out)
        with False Inr res True eff d1 claim(1) show thesis
          by (intro applied [of r d'])
            (simp_all add: movement_effect applyBatchImageBalanceHold_def Let_def claimed_def request_key_def)
      qed
    qed
  qed
qed

lemma funds_dedup [simp]: "funds (d\<lparr>bd_dedup := m\<rparr>) = funds d" and books_dedup [simp]: "books_ok (d\<lparr>bd_dedup := m\<rparr>) = books_ok d"
  by (rule ext) (simp_all add: funds_def books_ok_def)

lemma movement_books: "books_ok d \<Longrightarrow> books_ok (snd (movement op sha c d))"
  by (rule movement_cases [of op sha c d]) (auto dest: effect_books)

lemma movement_claims: "claimed d k \<Longrightarrow> claimed (snd (movement op sha c d)) k"
  by (rule movement_cases [of op sha c d]) (auto simp: claimed_def dest: effect_dedup)

lemma movement_claimed:
  "hr_Applied r \<Longrightarrow> movement op sha c d = (Inr r, d') \<Longrightarrow>
   claimed d' k \<longleftrightarrow> claimed d k \<or> k = request_key c"
  by (rule movement_cases [of op sha c d]) (auto simp: claimed_def no_result_def dest!: effect_dedup)


text \<open>Property C5. Every movement is atomic and conserves money: refused or repeated it changes
  nothing; applied it claims its request, leaves other users alone, and takes from the user's free
  and frozen money together what a capture spends and nothing else, to within the rounding of the two
  columns to eight decimals and exactly for amounts of that scale.\<close>
theorem movement_conserves:
  assumes "books_ok d" and "movement op sha c d = (res, d')"
  shows "books_ok d' \<and>
    (case res of
       Inl e \<Rightarrow> d' = d
     | Inr r \<Rightarrow>
         if \<not> hr_Applied r then d' = d \<and> claimed d (request_key c)
         else \<not> claimed d (request_key c) \<and> claimed d' (request_key c) \<and>
           \<bar>funds d' (hc_UserID c) - (funds d (hc_UserID c) - spends op c)\<bar> \<le> 100 \<and>
           (100 dvd hc_HoldAmount c \<and> 100 dvd spends op c \<longrightarrow> funds d' (hc_UserID c) = funds d (hc_UserID c) - spends op c) \<and>
           (\<forall>i. i \<noteq> hc_UserID c \<longrightarrow> funds d' i = funds d i))"
proof -
  have books: "books_ok d'" using movement_books [OF assms(1), of op sha c] assms(2) by simp
  show ?thesis
  proof (rule movement_cases [of op sha c d])
    fix e assume "movement op sha c d = (Inl e, d)"
    with assms(2) books show ?thesis by auto
  next
    assume "movement op sha c d = (Inr no_result, d)" "claimed d (request_key c)"
    with assms(2) books show ?thesis by (auto simp: no_result_def)
  next
    fix r d1
    let ?d0 = "d\<lparr>bd_dedup := fmupd (request_key c) (hc_RequestFingerprint (Normalize sha c)) (bd_dedup d)\<rparr>"
    assume m: "movement op sha c d = (Inr (r\<lparr>hr_Applied := True\<rparr>), d1)" and "\<not> claimed d (request_key c)"
      and e: "hold_effect op (Normalize sha c) ?d0 = Inr (r, d1)"
    moreover have "claimed d1 (request_key c)" using effect_dedup [OF e] by (simp add: claimed_def)
    moreover have "books_ok ?d0" using assms(1) by simp
    ultimately show ?thesis
      using effect_funds [OF e] effect_funds_exact [OF e] effect_other [OF e] assms(2) books by simp
  qed
qed

text \<open>A request identifier takes effect at most once, whatever the movement.\<close>

interpretation hold_once: once_per_request "\<lambda>(op, c). movement op sha c" "\<lambda>(op, c). request_key c" claimed hr_Applied for sha
proof
  fix m d e d' assume "(case m of (op, c) \<Rightarrow> movement op sha c) d = (Inl e, d')"
  then show "d' = d"
    by (cases m; cases rule: movement_cases [of "fst m" sha "snd m" d]) auto
next
  fix m d r d' assume r: "(case m of (op, c) \<Rightarrow> movement op sha c) d = (Inr r, d')" "\<not> hr_Applied r"
  then show "d' = d \<and> claimed d (case m of (op, c) \<Rightarrow> request_key c)"
    by (cases m; cases rule: movement_cases [of "fst m" sha "snd m" d]) auto
next
  fix m d r d' assume r: "(case m of (op, c) \<Rightarrow> movement op sha c) d = (Inr r, d')" "hr_Applied r"
  then show "\<not> claimed d (case m of (op, c) \<Rightarrow> request_key c)"
    by (cases m; cases rule: movement_cases [of "fst m" sha "snd m" d]) (auto simp: no_result_def)
next
  fix m d r d' k assume r: "(case m of (op, c) \<Rightarrow> movement op sha c) d = (Inr r, d')" "hr_Applied r"
  then show "claimed d' k \<longleftrightarrow> claimed d k \<or> k = (case m of (op, c) \<Rightarrow> request_key c)"
    by (cases m) (auto simp: movement_claimed)
qed

subsection \<open>Frozen money is outstanding holds\<close>

definition hold_request :: "hold_op \<Rightarrow> string \<Rightarrow> string" where
  "hold_request op b =
     (case op of Reserve \<Rightarrow> BatchImageHoldRequestID b | Capture \<Rightarrow> BatchImageCaptureRequestID b
      | Release \<Rightarrow> BatchImageReleaseRequestID b)"

text \<open>Batch identifiers as they are made, and the command for a job.\<close>

definition job_keyed :: "BatchImageJob \<Rightarrow> bool" where
  "job_keyed j = (list_all graphic (bj_BatchID j) \<and> (case bj_APIKeyID j of None \<Rightarrow> False | Some key \<Rightarrow> 0 < key))"

definition held_amount :: "BatchImageJob \<Rightarrow> money" where
  "held_amount j = max 0 (hold_amount j)"

definition job_command :: "hold_op \<Rightarrow> BatchImageJob \<Rightarrow> money \<Rightarrow> string \<Rightarrow> BatchImageBalanceHoldCommand" where
  "job_command op j actual payload =
     (case buildBatchImageHoldCommand j (hold_request op (bj_BatchID j)) actual payload of Inr c \<Rightarrow> c)"

definition request_claimed :: "billing_db \<Rightarrow> hold_op \<Rightarrow> BatchImageJob \<Rightarrow> bool" where
  "request_claimed d op j = claimed d (hold_request op (bj_BatchID j), the (bj_APIKeyID j))"

definition outstanding :: "billing_db \<Rightarrow> BatchImageJob \<Rightarrow> bool" where
  "outstanding d j = (request_claimed d Reserve j \<and> \<not> request_claimed d Capture j \<and> \<not> request_claimed d Release j)"

text \<open>The order of movements a batch may see.\<close>

definition hold_orderly :: "billing_db \<Rightarrow> hold_op \<Rightarrow> BatchImageJob \<Rightarrow> bool" where
  "hold_orderly d op j =
     (case op of
        Reserve \<Rightarrow> \<not> request_claimed d Capture j \<and> \<not> request_claimed d Release j
      | Capture \<Rightarrow> request_claimed d Reserve j \<and> \<not> request_claimed d Release j
      | Release \<Rightarrow> \<not> request_claimed d Capture j)"

lemma trim_batch: "list_all graphic b \<Longrightarrow> trim_space b = b"
  by (simp add: trim_graphic list_all_iff)

lemma trim_request: "list_all graphic b \<Longrightarrow> trim_space (hold_request op b) = hold_request op b"
  by (cases op) (auto simp: hold_request_def BatchImageHoldRequestID_def BatchImageCaptureRequestID_def
      BatchImageReleaseRequestID_def trim_batch list_all_iff graphic_def intro!: trim_graphic)

lemma request_inj:
  "list_all graphic b \<Longrightarrow> list_all graphic b' \<Longrightarrow> hold_request op b = hold_request op' b' \<longleftrightarrow> op = op' \<and> b = b'"
  by (cases op; cases op') (simp_all add: hold_request_def BatchImageHoldRequestID_def BatchImageCaptureRequestID_def
      BatchImageReleaseRequestID_def trim_batch)

lemma job_command_fields:
  assumes "job_keyed j"
  shows "hc_UserID (job_command op j actual payload) = bj_UserID j"
    "hc_HoldAmount (job_command op j actual payload) = held_amount j"
    "hc_ActualAmount (job_command op j actual payload) = max 0 actual"
    "hc_APIKeyID (job_command op j actual payload) = the (bj_APIKeyID j)"
    "trim_space (hc_BatchID (job_command op j actual payload)) = bj_BatchID j"
    "request_key (job_command op j actual payload) = (hold_request op (bj_BatchID j), the (bj_APIKeyID j))"
  using assms by (auto simp: job_keyed_def job_command_def buildBatchImageHoldCommand_def held_amount_def request_key_def
      trim_batch trim_request split: option.splits)

lemma held_amount_nonneg [simp]: "0 \<le> held_amount j"
  by (simp add: held_amount_def)

lemma held_amount_whole: "100 dvd hold_amount j \<Longrightarrow> 100 dvd held_amount j"
  by (simp add: held_amount_def max_def)


definition frozen_of :: "billing_db \<Rightarrow> int \<Rightarrow> money" where
  "frozen_of d i = (case fmlookup (bd_users d) i of None \<Rightarrow> 0 | Some u \<Rightarrow> ub_frozen u)"

definition frozen_change :: "hold_op \<Rightarrow> BatchImageBalanceHoldCommand \<Rightarrow> billing_db \<Rightarrow> money" where
  "frozen_change op c d =
     (case op of
        Reserve \<Rightarrow> hc_HoldAmount c
      | Capture \<Rightarrow> - hc_HoldAmount c
      | Release \<Rightarrow> if batchImageHoldClaimExists (BatchImageHoldRequestID (hc_BatchID c)) (hc_APIKeyID c) d
                   then - hc_HoldAmount c else 0)"

text \<open>The column of frozen amounts rounds a movement by at most half a unit of the eighth decimal, and
  not at all when the amount is a multiple of that unit.\<close>

definition rounding :: "money \<Rightarrow> money" where
  "rounding x = (if 100 dvd x then 0 else 50)"

lemma move_freeze:
  assumes "move_balance i cond b (\<lambda>u. ub_frozen u + x) refused d = Inr (r, d')" and "books_ok d"
  shows "\<bar>frozen_of d' k - (frozen_of d k + (if k = i then x else 0))\<bar> \<le> rounding x"
proof -
  from assms(1) obtain u where
    u: "fmlookup (bd_users d) i = Some u"
    "d' = d\<lparr>bd_users := fmupd i (u\<lparr>ub_balance := to_scale8 (b u), ub_frozen := to_scale8 (ub_frozen u + x)\<rparr>) (bd_users d)\<rparr>"
    by (rule move_cases)
  moreover have "\<bar>to_scale8 (ub_frozen u + x) - (ub_frozen u + x)\<bar> \<le> rounding x"
    using assms(2) u(1) to_scale8_near [of "ub_frozen u + x"]
    by (auto simp: books_ok_def user_ok_def rounding_def to_scale8_exact)
  moreover have "0 \<le> rounding x" by (simp add: rounding_def)
  ultimately show ?thesis by (simp add: frozen_of_def add.commute)
qed

lemma move_thaw:
  "move_balance i cond b (\<lambda>u. ub_frozen u - x) refused d = Inr (r, d') \<Longrightarrow> books_ok d \<Longrightarrow>
   \<bar>frozen_of d' k - (frozen_of d k - (if k = i then x else 0))\<bar> \<le> rounding x"
  using move_freeze [of i cond b "- x" refused d r d' k] by (simp add: rounding_def split: if_splits)

lemma effect_frozen:
  assumes "hold_effect op c d = Inr (r, d')" and "books_ok d" and "0 \<le> hc_HoldAmount c"
  shows "\<bar>frozen_of d' k - (frozen_of d k + (if k = hc_UserID c then frozen_change op c d else 0))\<bar> \<le> rounding (hc_HoldAmount c)"
proof -
  have "0 \<le> rounding (hc_HoldAmount c)" by (simp add: rounding_def)
  then show ?thesis
    using assms by (cases op) (auto simp: hold_effect_defs frozen_change_def split: if_splits
        dest!: move_freeze [where k = k] move_thaw [where k = k])
qed

definition user_exists :: "billing_db \<Rightarrow> int \<Rightarrow> bool" where
  "user_exists d i = (case fmlookup (bd_users d) i of None \<Rightarrow> False | Some u \<Rightarrow> \<not> ub_deleted u)"

lemma effect_users: "hold_effect op c d = Inr (r, d') \<Longrightarrow> user_exists d' i = user_exists d i"
  by (cases op) (auto simp: hold_effect_defs user_exists_def split: if_splits option.split elim!: move_cases)

definition frozen_total :: "billing_db \<Rightarrow> BatchImageJob set \<Rightarrow> int \<Rightarrow> money" where
  "frozen_total d B i = (\<Sum>j\<in>B. if bj_UserID j = i \<and> outstanding d j then held_amount j else 0)"

definition jobs_ok :: "BatchImageJob set \<Rightarrow> bool" where
  "jobs_ok B = (finite B \<and> inj_on bj_BatchID B \<and> Ball B job_keyed)"

definition accounted :: "billing_db \<Rightarrow> BatchImageJob set \<Rightarrow> money \<Rightarrow> billing_db \<Rightarrow> bool" where
  "accounted d0 B slack d = (books_ok d \<and> (\<forall>i. \<bar>frozen_of d i - (frozen_of d0 i + frozen_total d B i)\<bar> \<le> slack) \<and>
     (\<forall>i. user_exists d i = user_exists d0 i))"

lemma applied_claims:
  assumes "movement op sha (job_command op j actual payload) d = (Inr r, d')" "hr_Applied r" "job_keyed j" "job_keyed k"
  shows "request_claimed d' op' k \<longleftrightarrow> request_claimed d op' k \<or>
    (op' = op \<and> bj_BatchID k = bj_BatchID j \<and> bj_APIKeyID k = bj_APIKeyID j)"
proof -
  have "bj_APIKeyID k = bj_APIKeyID j \<longleftrightarrow> the (bj_APIKeyID k) = the (bj_APIKeyID j)"
    using assms(3,4) by (auto simp: job_keyed_def split: option.splits)
  then show ?thesis
    using movement_claimed [OF assms(2,1)] assms(3,4) request_inj [of "bj_BatchID k" "bj_BatchID j"]
    by (auto simp: request_claimed_def job_command_fields job_keyed_def)
qed

lemma frozen_total_change:
  assumes "jobs_ok B" "j \<in> B" and "\<And>k. k \<in> B \<Longrightarrow> k \<noteq> j \<Longrightarrow> outstanding d' k = outstanding d k"
  shows "frozen_total d' B i = frozen_total d B i +
    (if i = bj_UserID j then held_amount j * (of_bool (outstanding d' j) - of_bool (outstanding d j)) else 0)"
proof -
  have fin: "finite B" using assms(1) by (simp add: jobs_ok_def)
  have "frozen_total d'' B i = (if bj_UserID j = i \<and> outstanding d'' j then held_amount j else 0) +
      (\<Sum>k\<in>B - {j}. if bj_UserID k = i \<and> outstanding d'' k then held_amount k else 0)" for d''
    unfolding frozen_total_def by (rule sum.remove [OF fin assms(2)])
  moreover have "(\<Sum>k\<in>B - {j}. if bj_UserID k = i \<and> outstanding d' k then held_amount k else 0) =
      (\<Sum>k\<in>B - {j}. if bj_UserID k = i \<and> outstanding d k then held_amount k else 0)"
    using assms(3) by (intro sum.cong) auto
  ultimately show ?thesis by auto
qed

lemma accounted_weaken: "accounted d0 B slack d \<Longrightarrow> rounding x \<le> q \<Longrightarrow> accounted d0 B (slack + q) d"
  by (cases "100 dvd x") (auto simp: accounted_def rounding_def intro: order_trans)

lemma close_sum:
  fixes a :: int
  assumes "t' = t + c" "\<bar>a' - (a + c)\<bar> \<le> q" "\<bar>a - (b + t)\<bar> \<le> s"
  shows "\<bar>a' - (b + t')\<bar> \<le> s + q"
  using assms by linarith

lemma accounted_step:
  assumes "accounted d0 B slack d" "jobs_ok B" "j \<in> B" "hold_orderly d op j" "rounding (held_amount j) \<le> q"
  shows "accounted d0 B (slack + q) (snd (movement op sha (job_command op j actual payload) d))"
proof (rule movement_cases [of op sha "job_command op j actual payload" d])
  let ?c = "job_command op j actual payload"
  have ok: "job_keyed j" using assms(2,3) by (auto simp: jobs_ok_def)
  fix r d'
  let ?d1 = "d\<lparr>bd_dedup := fmupd (request_key ?c) (hc_RequestFingerprint (Normalize sha ?c)) (bd_dedup d)\<rparr>"
  assume m: "movement op sha ?c d = (Inr (r\<lparr>hr_Applied := True\<rparr>), d')" and new: "\<not> claimed d (request_key ?c)"
    and e: "hold_effect op (Normalize sha ?c) ?d1 = Inr (r, d')"
  have books: "books_ok d" using assms(1) by (simp add: accounted_def)
  have claims: "request_claimed d' op' k \<longleftrightarrow> request_claimed d op' k \<or>
      (op' = op \<and> bj_BatchID k = bj_BatchID j \<and> bj_APIKeyID k = bj_APIKeyID j)" if "job_keyed k" for op' k
    by (rule applied_claims [OF m _ ok that]) simp
  have same: "outstanding d' k = outstanding d k" if "k \<in> B" "k \<noteq> j" for k
    using that claims [of k] assms(2,3) by (auto simp: outstanding_def jobs_ok_def dest: inj_onD)
  have fresh: "\<not> request_claimed d op j" using new ok by (simp add: request_claimed_def job_command_fields)
  have held: "batchImageHoldClaimExists (BatchImageHoldRequestID (bj_BatchID j)) (the (bj_APIKeyID j)) ?d1 \<longleftrightarrow>
      request_claimed d Reserve j" if "op \<noteq> Reserve"
    using that ok request_inj [of "bj_BatchID j" "bj_BatchID j" Reserve op]
    by (auto simp: batchImageHoldClaimExists_def request_claimed_def claimed_def job_command_fields hold_request_def job_keyed_def)
  have change: "frozen_change op (Normalize sha ?c) ?d1 =
      held_amount j * (of_bool (outstanding d' j) - of_bool (outstanding d j))"
    using fresh held assms(4) claims [OF ok] ok
    by (cases op) (auto simp: frozen_change_def hold_orderly_def outstanding_def job_command_fields)
  have moved: "\<bar>frozen_of d' i - (frozen_of d i + (if i = bj_UserID j then held_amount j * (of_bool (outstanding d' j) - of_bool (outstanding d j)) else 0))\<bar> \<le> q" for i
    using effect_frozen [OF e, of i] books assms(5) ok unfolding change by (simp add: job_command_fields frozen_of_def)
  have total: "frozen_total d' B i = frozen_total d B i +
      (if i = bj_UserID j then held_amount j * (of_bool (outstanding d' j) - of_bool (outstanding d j)) else 0)" for i
    by (rule frozen_total_change [OF assms(2,3) same])
  have before: "\<bar>frozen_of d i - (frozen_of d0 i + frozen_total d B i)\<bar> \<le> slack" for i
    using assms(1) by (simp add: accounted_def)
  have "\<bar>frozen_of d' i - (frozen_of d0 i + frozen_total d' B i)\<bar> \<le> slack + q" for i
    by (rule close_sum [OF total moved before])
  moreover have "user_exists d' i = user_exists d0 i" for i
    using effect_users [OF e, of i] assms(1) by (simp add: accounted_def user_exists_def)
  moreover have "books_ok d'" using effect_books [OF e] books by simp
  ultimately show ?thesis using m by (simp add: accounted_def)
qed (use assms(1) accounted_weaken [OF assms(1,5)] in auto)


text \<open>A sequence of movements for jobs, \<open>None\<close> as soon as one is out of order.\<close>

type_synonym job_movement = "hold_op \<times> BatchImageJob \<times> money \<times> string"

fun hold_run :: "(string \<Rightarrow> string) \<Rightarrow> job_movement list \<Rightarrow> billing_db \<Rightarrow> billing_db option" where
  "hold_run sha [] d = Some d"
| "hold_run sha ((op, j, actual, payload) # ms) d =
     (if hold_orderly d op j then hold_run sha ms (snd (movement op sha (job_command op j actual payload) d)) else None)"

lemma run_accounted:
  "hold_run sha ms d = Some d' \<Longrightarrow> accounted d0 B slack d \<Longrightarrow> jobs_ok B \<Longrightarrow> \<forall>m \<in> set ms. fst (snd m) \<in> B \<Longrightarrow>
   \<forall>j\<in>B. rounding (held_amount j) \<le> q \<Longrightarrow> accounted d0 B (slack + q * int (length ms)) d'"
proof (induction sha ms d arbitrary: slack rule: hold_run.induct)
  case (2 sha op j actual payload ms d)
  then have "accounted d0 B ((slack + q) + q * int (length ms)) d'"
    by (intro 2(1) accounted_step) (auto split: if_splits)
  then show ?case by (simp add: algebra_simps)
qed simp

lemma accounted_start: "books_ok d \<Longrightarrow> (\<And>j. j \<in> B \<Longrightarrow> \<not> request_claimed d Reserve j) \<Longrightarrow> accounted d B 0 d"
  by (simp add: accounted_def frozen_total_def outstanding_def)

lemma movement_applies:
  assumes "\<not> claimed d (request_key c)" "trim_space (hc_RequestID c) \<noteq> []"
    and "hold_effect op (Normalize sha c)
      (d\<lparr>bd_dedup := fmupd (request_key c) (hc_RequestFingerprint (Normalize sha c)) (bd_dedup d)\<rparr>) = Inr (r, d')"
  shows "movement op sha c d = (Inr (r\<lparr>hr_Applied := True\<rparr>), d')"
  using assms by (simp add: movement_effect applyBatchImageBalanceHold_def Let_def claimUsageBillingRequest_def
      claimed_def request_key_def fmdom_notD)

lemma hold_request_ne: "hold_request op b \<noteq> []"
  by (cases op) (simp_all add: hold_request_def BatchImageHoldRequestID_def BatchImageCaptureRequestID_def BatchImageReleaseRequestID_def)

lemma outstanding_covered:
  assumes "accounted d0 B 0 d" "jobs_ok B" "j \<in> B" "outstanding d j" "books_ok d0"
  shows "held_amount j \<le> frozen_of d (bj_UserID j)"
proof -
  have fin: "finite B" using assms(2) by (simp add: jobs_ok_def)
  have "0 \<le> (\<Sum>k\<in>B - {j}. if bj_UserID k = bj_UserID j \<and> outstanding d k then held_amount k else 0)"
    by (intro sum_nonneg) auto
  then have "held_amount j \<le> frozen_total d B (bj_UserID j)"
    unfolding frozen_total_def sum.remove [OF fin assms(3)] using assms(4) by simp
  moreover have "0 \<le> frozen_of d0 (bj_UserID j)"
    using assms(5) by (auto simp: frozen_of_def books_ok_def user_ok_def split: option.split)
  ultimately show ?thesis using assms(1) by (simp add: accounted_def)
qed

lemma balance_move_ok:
  assumes "user_exists d i" "\<And>u. fmlookup (bd_users d) i = Some u \<Longrightarrow> cond u"
  shows "\<exists>r d'. move_balance i cond b f refused d = Inr (r, d')"
  using assms by (auto simp: user_exists_def move_balance_def Let_def split: option.splits)

lemma settling_applies:
  assumes "accounted d0 B 0 d" "jobs_ok B" "j \<in> B" "outstanding d j" "books_ok d0" "user_exists d (bj_UserID j)"
    and "op = Release \<or> op = Capture \<and> max 0 actual \<le> held_amount j + 100"
  shows "\<exists>r d'. movement op sha (job_command op j actual payload) d = (Inr r, d') \<and> hr_Applied r"
proof -
  let ?c = "job_command op j actual payload"
  let ?d1 = "d\<lparr>bd_dedup := fmupd (request_key ?c) (hc_RequestFingerprint (Normalize sha ?c)) (bd_dedup d)\<rparr>"
  have ok: "job_keyed j" using assms(2,3) by (auto simp: jobs_ok_def)
  have new: "\<not> claimed d (request_key ?c)"
    using assms(4,7) ok by (auto simp: outstanding_def request_claimed_def job_command_fields)
  have "fst (request_key ?c) \<noteq> []" using ok hold_request_ne by (simp add: job_command_fields)
  then have ne: "trim_space (hc_RequestID ?c) \<noteq> []" by (simp add: request_key_def)
  have cover: "\<And>u. fmlookup (bd_users ?d1) (bj_UserID j) = Some u \<Longrightarrow> held_amount j \<le> ub_frozen u"
    using outstanding_covered [OF assms(1-5)] by (simp add: frozen_of_def)
  have "user_exists ?d1 (bj_UserID j)" using assms(6) by (simp add: user_exists_def)
  note moved = balance_move_ok [OF this, of "\<lambda>u. held_amount j \<le> ub_frozen u", OF cover]
  have "\<exists>r d'. hold_effect op (Normalize sha ?c) ?d1 = Inr (r, d')"
    using assms(7) moved ok by (auto simp: hold_effect_defs job_command_fields)
  then obtain r d' where "hold_effect op (Normalize sha ?c) ?d1 = Inr (r, d')" by blast
  from movement_applies [OF new ne this] show ?thesis by simp
qed

text \<open>Property C3. Frozen money is accounted for. Take jobs with distinct batch identifiers of printable
  characters and a positive API key, none of them reserved yet, and any sequence of movements for them
  in which no job is captured without its hold, released after its capture, captured after its release,
  or reserved after either. Then a user's frozen money is what was frozen before plus the holds of the
  user's jobs that are neither captured nor released, to within half a unit of the eighth decimal for
  every movement. When the hold amounts are multiples of that unit (the amount column has ten decimals,
  the balance columns eight), it is exactly that, and each such hold of an existing user can be
  released, and captured at up to its amount and the tolerance.\<close>
theorem holds_accounted:
  assumes "finite B" and "inj_on bj_BatchID B"
    and "\<And>j. j \<in> B \<Longrightarrow> list_all graphic (bj_BatchID j) \<and> (\<exists>key. bj_APIKeyID j = Some key \<and> 0 < key)"
    and "books_ok d0" and "\<And>j. j \<in> B \<Longrightarrow> \<not> request_claimed d0 Reserve j"
    and "\<forall>m \<in> set ms. fst (snd m) \<in> B" and "hold_run sha ms d0 = Some d"
  shows "\<bar>frozen_of d i - (frozen_of d0 i + (\<Sum>j\<in>B. if bj_UserID j = i \<and> outstanding d j then held_amount j else 0))\<bar>
      \<le> 50 * int (length ms) \<and>
    ((\<forall>j\<in>B. 100 dvd hold_amount j) \<longrightarrow>
      frozen_of d i = frozen_of d0 i + (\<Sum>j\<in>B. if bj_UserID j = i \<and> outstanding d j then held_amount j else 0) \<and>
      (j \<in> B \<and> outstanding d j \<and> user_exists d0 (bj_UserID j) \<longrightarrow>
         (\<exists>r d'. movement Release sha (job_command Release j 0 payload) d = (Inr r, d') \<and> hr_Applied r) \<and>
         (max 0 cost \<le> held_amount j + 100 \<longrightarrow>
            (\<exists>r d'. movement Capture sha (job_command Capture j cost payload) d = (Inr r, d') \<and> hr_Applied r))))"
proof -
  have B: "jobs_ok B" using assms(1-3) by (fastforce simp: jobs_ok_def job_keyed_def)
  note run = run_accounted [OF assms(7) accounted_start [OF assms(4,5)] B assms(6)]
  have "accounted d0 B (50 * int (length ms)) d" using run [of 50] by (simp add: rounding_def)
  then have near: "\<bar>frozen_of d i - (frozen_of d0 i + (\<Sum>j\<in>B. if bj_UserID j = i \<and> outstanding d j then held_amount j else 0))\<bar>
      \<le> 50 * int (length ms)" by (simp add: accounted_def frozen_total_def)
  have acc: "accounted d0 B 0 d" if "\<forall>j\<in>B. 100 dvd hold_amount j"
    using run [of 0] that by (simp add: rounding_def held_amount_whole)
  then have "user_exists d (bj_UserID j) = user_exists d0 (bj_UserID j)" if "\<forall>j\<in>B. 100 dvd hold_amount j"
    using that by (simp add: accounted_def)
  with near acc settling_applies [OF acc B _ _ assms(4)] show ?thesis
    by (auto simp: accounted_def frozen_total_def simp del: movement.simps)
qed


subsection \<open>Sample data\<close>

definition sample_job :: "string \<Rightarrow> money \<Rightarrow> BatchImageJob" where
  "sample_job b hold =
     \<lparr>bj_BatchID = b, bj_UserID = 7, bj_APIKeyID = Some 3, bj_AccountID = Some 5, bj_Provider = BatchImageProviderVertex,
      bj_Model = ''gemini-image'', bj_Status = StatusCreated, bj_ProviderJobName = None, bj_ProviderInputRef = None,
      bj_ProviderOutputRef = None, bj_GCSInputURI = None, bj_GCSOutputURI = None, bj_ItemCount = 4, bj_SuccessCount = 0,
      bj_FailCount = 0, bj_EstimatedCost = hold, bj_HoldAmount = Some hold, bj_ActualCost = None,
      bj_BillableUnitPrice = 100000000, bj_PricingSnapshotVersion = 1, bj_RequestHash = Some ''h'', bj_ManifestHash = None,
      bj_RetryCount = 0, bj_Version = 0, bj_OutputExpiresAt = None, bj_InputDeletedAt = None, bj_OutputDeletedAt = None,
      bj_DownloadedAt = None, bj_UserDeletedAt = None, bj_LastErrorCode = None, bj_LastErrorMessage = None, bj_UpdatedAt = 0,
      bj_SubmittedAt = None, bj_StartedAt = None, bj_FinishedAt = None, bj_SettledAt = None\<rparr>"

definition sample_db :: billing_db where
  "sample_db = \<lparr>bd_users = fmap_of_list [(7, \<lparr>ub_balance = 20000000000, ub_frozen = 0, ub_deleted = False\<rparr>)],
     bd_dedup = fmempty, bd_archive = fmempty\<rparr>"

definition job_a :: BatchImageJob where "job_a = sample_job ''a'' 500000000"
definition job_b :: BatchImageJob where "job_b = sample_job ''b'' 500000000"

lemma sample_books: "books_ok sample_db"
  by (auto simp: books_ok_def sample_db_def user_ok_def fmlookup_of_list split: if_splits)

lemma sample_jobs: "jobs_ok {job_a, job_b}"
  by (simp add: jobs_ok_def job_a_def job_b_def sample_job_def job_keyed_def graphic_def)

lemma sample_holds: "\<forall>j\<in>{job_a, job_b}. 100 dvd hold_amount j"
  by (simp add: job_a_def job_b_def sample_job_def hold_amount_def)

lemma sample_unclaimed: "\<not> request_claimed sample_db op j"
  by (simp add: request_claimed_def claimed_def sample_db_def)

definition reserved_db :: billing_db where
  "reserved_db = the (hold_run id [(Reserve, job_a, 0, ''h''), (Reserve, job_b, 0, ''h'')] sample_db)"

lemma reserved_run: "hold_run id [(Reserve, job_a, 0, ''h''), (Reserve, job_b, 0, ''h'')] sample_db = Some reserved_db"
proof -
  have "hold_run id [(Reserve, job_a, 0, ''h''), (Reserve, job_b, 0, ''h'')] sample_db \<noteq> None" by code_simp
  then show ?thesis by (auto simp: reserved_db_def)
qed

lemma reserved_facts: "outstanding reserved_db job_a" "user_exists sample_db (bj_UserID job_a)"
    "frozen_of reserved_db 7 = 1000000000"
  by code_simp+

theorem holds_accounted_witness:
  "frozen_of reserved_db 7 = frozen_of sample_db 7 + (\<Sum>j\<in>{job_a, job_b}. if bj_UserID j = 7 \<and> outstanding reserved_db j then held_amount j else 0) \<and>
   (\<exists>r d'. movement Release id (job_command Release job_a 0 ''h'') reserved_db = (Inr r, d') \<and> hr_Applied r)"
proof -
  have "finite {job_a, job_b}" "inj_on bj_BatchID {job_a, job_b}"
    "\<And>j. j \<in> {job_a, job_b} \<Longrightarrow> list_all graphic (bj_BatchID j) \<and> (\<exists>key. bj_APIKeyID j = Some key \<and> 0 < key)"
    by (auto simp: job_a_def job_b_def sample_job_def graphic_def)
  from holds_accounted [OF this sample_books sample_unclaimed _ reserved_run, of 7 job_a "''h''" 0] reserved_facts(1,2) sample_holds
  show ?thesis by (simp del: movement.simps)
qed

theorem movement_conserves_witness:
  "funds (snd (movement Capture id (job_command Capture job_a 400000000 ''m'') reserved_db)) 7 = funds reserved_db 7 - 400000000"
proof -
  let ?c = "job_command Capture job_a 400000000 ''m''"
  obtain res d' where m: "movement Capture id ?c reserved_db = (res, d')" by fastforce
  have books: "books_ok reserved_db"
    using run_accounted [OF reserved_run accounted_start [OF sample_books sample_unclaimed] sample_jobs, of 50] by (simp add: accounted_def rounding_def)
  have fields: "hc_UserID ?c = 7" "100 dvd hc_HoldAmount ?c" "spends Capture ?c = 400000000"
    by (simp_all add: job_command_fields sample_jobs [unfolded jobs_ok_def, THEN conjunct2, THEN conjunct2, THEN bspec]
        held_amount_def spends_def job_a_def sample_job_def hold_amount_def)
  have "case fst (movement Capture id ?c reserved_db) of Inl e \<Rightarrow> False | Inr r \<Rightarrow> hr_Applied r" by code_simp
  with movement_conserves [OF books m] m fields show ?thesis by (auto split: sum.splits simp del: movement.simps)
qed

end
