(* ===== verification/Redis_Sets.thy ===== *)
theory Redis_Sets
  imports Prelude
begin

section \<open>Sorted sets\<close>

text \<open>
  The sorted sets of Redis that the queue of batch images and the concurrency slots are kept in: a list of
  members with their scores, in the order of Redis, by score and then by the bytes of the member.
\<close>

fun string_less :: "string \<Rightarrow> string \<Rightarrow> bool" where
  "string_less s [] = False"
| "string_less [] (d # t) = True"
| "string_less (c # s) (d # t) = (if c = d then string_less s t else (of_char c :: nat) < of_char d)"

type_synonym zset = "(string \<times> int) list"

definition zless :: "string \<times> int \<Rightarrow> string \<times> int \<Rightarrow> bool" where
  "zless x y = (snd x < snd y \<or> snd x = snd y \<and> string_less (fst x) (fst y))"

definition zrem :: "string \<Rightarrow> zset \<Rightarrow> zset" where
  "zrem b z = filter (\<lambda>x. fst x \<noteq> b) z"

definition zadd :: "string \<Rightarrow> int \<Rightarrow> zset \<Rightarrow> zset" where
  "zadd b s z = insert_by zless (b, s) (zrem b z)"

definition zmembers :: "zset \<Rightarrow> string list" where
  "zmembers z = map fst z"

definition zrange_to :: "int \<Rightarrow> nat \<Rightarrow> zset \<Rightarrow> string list" where
  "zrange_to bound limit z = zmembers (take limit (filter (\<lambda>x. snd x \<le> bound) z))"

lemma set_zrem [simp]: "set (zrem b z) = {x \<in> set z. fst x \<noteq> b}"
  by (auto simp: zrem_def)

lemma set_zadd [simp]: "set (zadd b s z) = insert (b, s) {x \<in> set z. fst x \<noteq> b}"
  by (auto simp: zadd_def)

lemma set_fold_zrem [simp]: "set (fold zrem bs z) = {x \<in> set z. fst x \<notin> set bs}"
  by (induction bs arbitrary: z) auto

end
