(* ===== verification/Batch_Image_Index.thy ===== *)
theory Batch_Image_Index
  imports Batch_Image_Jobs OpenAI_Models Redis_Sets
begin

section \<open>Reading the results of a batch\<close>

text \<open>
  The indexer of \<open>service/batch_image_processor.go\<close>: each line of the provider's output is a JSON object
  that is turned into the outcome of one item; the outcomes are reconciled with the identifiers the
  batch was submitted with. The JSON decoder is a parameter from a line to the decoded object,
  \<open>None\<close> for an error. Of a number only its integer part is read, so that is what a number carries.
\<close>

datatype go_any = AnyNil | AnyBool bool | AnyNumber int | AnyString string | AnyList "go_any list"
  | AnyMap "(string \<times> go_any) list"

type_synonym go_object = "(string \<times> go_any) list"


subsection \<open>Reading decoded values\<close>

definition batchImageFirstNonEmptyString :: "string list \<Rightarrow> string" where
  "batchImageFirstNonEmptyString vs = (case find (\<lambda>v. trim_space v \<noteq> []) vs of None \<Rightarrow> [] | Some v \<Rightarrow> trim_space v)"

definition batchImageMapString :: "go_object \<Rightarrow> string \<Rightarrow> string" where
  "batchImageMapString m key =
     (case map_of m key of
        Some (AnyString v) \<Rightarrow> trim_space v
      | Some (AnyNumber n) \<Rightarrow> Itoa n
      | _ \<Rightarrow> [])"

fun batchImageNestedAny :: "go_any \<Rightarrow> string list \<Rightarrow> go_any" where
  "batchImageNestedAny current [] = current"
| "batchImageNestedAny current (key # keys) =
     (case current of
        AnyMap m \<Rightarrow> batchImageNestedAny (case map_of m key of None \<Rightarrow> AnyNil | Some v \<Rightarrow> v) keys
      | _ \<Rightarrow> AnyNil)"

definition batchImageNestedString :: "go_object \<Rightarrow> string list \<Rightarrow> string" where
  "batchImageNestedString m keys = (case batchImageNestedAny (AnyMap m) keys of AnyString v \<Rightarrow> trim_space v | _ \<Rightarrow> [])"

fun firstMap :: "go_any list \<Rightarrow> go_object option" where
  "firstMap [] = None"
| "firstMap (AnyMap m # vs) = Some m"
| "firstMap (v # vs) = firstMap vs"

definition field :: "go_object \<Rightarrow> string \<Rightarrow> go_any" where
  "field m key = (case map_of m key of None \<Rightarrow> AnyNil | Some v \<Rightarrow> v)"

definition as_list :: "go_any \<Rightarrow> go_any list" where
  "as_list v = (case v of AnyList vs \<Rightarrow> vs | _ \<Rightarrow> [])"

text \<open>One part of a candidate: the media type when it carries an inline image.\<close>

definition image_part :: "go_any \<Rightarrow> string option" where
  "image_part p =
     (case p of
        AnyMap part \<Rightarrow>
          (case firstMap [field part ''inlineData'', field part ''inline_data''] of
             None \<Rightarrow> None
           | Some inline \<Rightarrow>
               (let data = trim_space (batchImageMapString inline ''data'');
                    mime = batchImageFirstNonEmptyString [batchImageMapString inline ''mimeType'', batchImageMapString inline ''mime_type'']
                in if data = [] \<or> \<not> has_prefix (to_lower (trim_space mime)) ''image/'' then None else Some (trim_space mime)))
      | _ \<Rightarrow> None)"

text \<open>The count and the first non-empty media type over all candidates.\<close>

definition batchImageFindImagePartsInCandidates :: "go_any \<Rightarrow> int \<times> string" where
  "batchImageFindImagePartsInCandidates raw =
     (let mimes = concat (map (\<lambda>c. case c of
                      AnyMap candidate \<Rightarrow> List.map_filter image_part (as_list (batchImageNestedAny (AnyMap candidate) [''content'', ''parts'']))
                    | _ \<Rightarrow> []) (as_list raw))
      in (int (length mimes), case find (\<lambda>m. m \<noteq> []) mimes of None \<Rightarrow> [] | Some m \<Rightarrow> m))"

definition batchImageFindImageParts :: "go_object \<Rightarrow> int \<times> string" where
  "batchImageFindImageParts obj =
     (let found = batchImageFindImagePartsInCandidates (batchImageNestedAny (AnyMap obj) [''response'', ''candidates''])
      in if 0 < fst found then found else batchImageFindImagePartsInCandidates (field obj ''candidates''))"

definition batchImageMapFailureCode :: "string \<Rightarrow> string \<Rightarrow> string" where
  "batchImageMapFailureCode code message =
     (let text = to_lower (trim_space (code @ '' '' @ message))
      in if contains text ''safety'' \<or> contains text ''policy'' \<or> contains text ''blocked'' \<or> contains text ''prohibited''
         then ''SAFETY_BLOCKED''
         else if contains text ''invalid_argument'' \<or> contains text ''invalid argument'' \<or> contains text ''bad request''
         then ''INVALID_ARGUMENT''
         else if contains text ''quota'' \<or> contains text ''rate'' \<or> contains text ''resource_exhausted'' \<or> contains text ''too many requests''
         then ''PROVIDER_RATE_LIMITED''
         else ''PROVIDER_ITEM_FAILED'')"

definition provider_failure :: "go_object \<Rightarrow> string \<times> string" where
  "provider_failure m =
     (let message = batchImageFirstNonEmptyString [batchImageMapString m ''message'', batchImageMapString m ''details''];
          code = batchImageFirstNonEmptyString [batchImageMapString m ''code'', batchImageMapString m ''status'']
      in (batchImageMapFailureCode code message, message))"

definition batchImageFailureFromProviderFields :: "go_object \<Rightarrow> (string \<times> string) option" where
  "batchImageFailureFromProviderFields obj =
     (case firstMap [field obj ''status'', field obj ''error''] of
        None \<Rightarrow> None
      | Some m \<Rightarrow> Some (provider_failure m))"

definition batchImageFileExtension :: "string \<Rightarrow> string" where
  "batchImageFileExtension mimeType =
     (let m = to_lower (trim_space mimeType)
      in if m = ''image/png'' then ''png''
         else if m = ''image/jpeg'' \<or> m = ''image/jpg'' then ''jpg''
         else if m = ''image/webp'' then ''webp''
         else [])"

definition batchImageHasCandidates :: "go_object \<Rightarrow> bool" where
  "batchImageHasCandidates obj =
     (map_of obj ''candidates'' \<noteq> None \<or>
      (case batchImageNestedAny (AnyMap obj) [''response'', ''candidates''] of AnyList vs \<Rightarrow> True | _ \<Rightarrow> False))"

subsection \<open>One line\<close>

text \<open>Messages are cut to a number of bytes.\<close>

definition truncateBatchImageMessage :: "string \<Rightarrow> int \<Rightarrow> string" where
  "truncateBatchImageMessage message limit =
     (let m = trim_space message in if limit \<le> 0 \<or> int (length m) \<le> limit then m else take (nat limit) m)"

definition batchImageMaxErrorMessageLength :: int where "batchImageMaxErrorMessageLength = 1000"

record ParsedBatchImageResult =
  pr_CustomID :: string
  pr_Succeeded :: bool
  pr_MimeType :: string
  pr_FileExtension :: string
  pr_ImageCount :: int
  pr_ErrorCode :: string
  pr_ErrorMessage :: string
  pr_SourceLineNumber :: int

definition parsed_failure :: "string \<Rightarrow> int \<Rightarrow> string \<Rightarrow> string \<Rightarrow> ParsedBatchImageResult" where
  "parsed_failure cid n code message =
     \<lparr>pr_CustomID = cid, pr_Succeeded = False, pr_MimeType = [], pr_FileExtension = [], pr_ImageCount = 0,
      pr_ErrorCode = code, pr_ErrorMessage = message, pr_SourceLineNumber = n\<rparr>"

definition ParseBatchImageResultLine :: "(string \<Rightarrow> go_object option) \<Rightarrow> string \<Rightarrow> int \<Rightarrow> ApplicationError + ParsedBatchImageResult" where
  "ParseBatchImageResultLine decode line n =
     (case decode line of
        None \<Rightarrow> Inl ErrBatchImageIndexParseFailed
      | Some obj \<Rightarrow>
          (let cid = batchImageFirstNonEmptyString
                 [batchImageMapString obj ''key'', batchImageMapString obj ''custom_id'', batchImageMapString obj ''customId'',
                  batchImageNestedString obj [''request'', ''key'']]
           in if cid = [] then Inl ErrBatchImageIndexParseFailed
              else (let (count, mime) = batchImageFindImageParts obj
                    in if 0 < count then
                         Inr \<lparr>pr_CustomID = cid, pr_Succeeded = True, pr_MimeType = mime,
                              pr_FileExtension = batchImageFileExtension mime, pr_ImageCount = count, pr_ErrorCode = [],
                              pr_ErrorMessage = [], pr_SourceLineNumber = n\<rparr>
                       else (case batchImageFailureFromProviderFields obj of
                               Some (code, message) \<Rightarrow>
                                 Inr (parsed_failure cid n code (truncateBatchImageMessage message batchImageMaxErrorMessageLength))
                             | None \<Rightarrow>
                                 if map_of obj ''response'' \<noteq> None \<or> batchImageHasCandidates obj
                                 then Inr (parsed_failure cid n ''EMPTY_IMAGE_OUTPUT'' ''provider response contained no image output'')
                                 else Inr (parsed_failure cid n ''PROVIDER_ITEM_FAILED'' ''provider result line contained no image output'')))))"

subsection \<open>All lines\<close>

record index_item =
  ii_CustomID :: string
  ii_Succeeded :: bool
  ii_SourceLineNumber :: "int option"
  ii_ImageCount :: int
  ii_MimeType :: "string option"
  ii_FileExtension :: "string option"
  ii_ErrorCode :: "string option"
  ii_ErrorMessage :: "string option"

definition batchImageOptionalStringPtr :: "string \<Rightarrow> string option" where
  "batchImageOptionalStringPtr v = null_if_empty (trim_space v)"

definition item_of_line :: "ParsedBatchImageResult \<Rightarrow> index_item" where
  "item_of_line p =
     (let opt = (\<lambda>b v. if b then batchImageOptionalStringPtr v else None)
      in \<lparr>ii_CustomID = pr_CustomID p, ii_Succeeded = pr_Succeeded p, ii_SourceLineNumber = Some (pr_SourceLineNumber p),
          ii_ImageCount = pr_ImageCount p, ii_MimeType = opt (pr_Succeeded p) (pr_MimeType p),
          ii_FileExtension = opt (pr_Succeeded p) (pr_FileExtension p), ii_ErrorCode = opt (\<not> pr_Succeeded p) (pr_ErrorCode p),
          ii_ErrorMessage = opt (\<not> pr_Succeeded p) (pr_ErrorMessage p)\<rparr>)"

definition missing_item :: "string \<Rightarrow> index_item" where
  "missing_item cid =
     \<lparr>ii_CustomID = cid, ii_Succeeded = False, ii_SourceLineNumber = None, ii_ImageCount = 0, ii_MimeType = None,
      ii_FileExtension = None, ii_ErrorCode = Some ''PROVIDER_RESULT_MISSING'',
      ii_ErrorMessage = Some ''provider output did not include a result for this item''\<rparr>"

text \<open>The loop over the lines: the items so far, in order, hold the identifiers that were seen.\<close>

fun scan_lines :: "(string \<Rightarrow> go_object option) \<Rightarrow> string list \<Rightarrow> int \<Rightarrow> string list \<Rightarrow> index_item list \<Rightarrow> ApplicationError + index_item list" where
  "scan_lines decode expected n [] items = Inr items"
| "scan_lines decode expected n (raw # raws) items =
     (let line = trim_space raw
      in if line = [] then scan_lines decode expected (n + 1) raws items
         else (case ParseBatchImageResultLine decode line (n + 1) of
                 Inl e \<Rightarrow> Inl e
               | Inr p \<Rightarrow>
                   if expected \<noteq> [] \<and> pr_CustomID p \<notin> set expected then scan_lines decode expected (n + 1) raws items
                   else if pr_CustomID p \<in> ii_CustomID ` set items then Inl ErrBatchImageDuplicateCustomID
                   else scan_lines decode expected (n + 1) raws (items @ [item_of_line p])))"

text \<open>The items of the result and the counts of successes and failures; \<open>scan_error\<close> is what stopped the scanner.\<close>

definition Index_results ::
    "(string \<Rightarrow> go_object option) \<Rightarrow> string list \<Rightarrow> string list \<Rightarrow> go_error option \<Rightarrow> go_error + index_item list \<times> int \<times> int" where
  "Index_results decode expected raws scan_error =
     (case scan_lines decode expected 0 raws [] of
        Inl e \<Rightarrow> Inl (App e)
      | Inr seen \<Rightarrow>
          (case scan_error of
             Some e \<Rightarrow> Inl (if e = Other ''unexpected EOF'' then App ErrBatchImageIndexParseFailed else e)
           | None \<Rightarrow>
               (let missing = slice_stable string_less (filter (\<lambda>v. v \<notin> ii_CustomID ` set seen) (remdups expected));
                    items = seen @ map missing_item missing
                in if items = [] then Inl (App ErrBatchImageIndexNoResultLines)
                   else Inr (items, int (length (filter ii_Succeeded items)),
                             int (length (filter (\<lambda>i. \<not> ii_Succeeded i) items))))))"

text \<open>The identifiers a batch was submitted with, read in pages of 500.\<close>

function list_pages :: "'a list \<Rightarrow> nat \<Rightarrow> 'a list" where
  "list_pages table offset =
     (let page = take 500 (drop offset table)
      in if length page < 500 then page else page @ list_pages table (offset + length page))"
  by pat_completeness auto
termination
  by (relation "measure (\<lambda>(table, offset). length table - offset)") auto

declare list_pages.simps [simp del]

lemma list_pages_all: "list_pages table offset = drop offset table"
proof (induction table offset rule: list_pages.induct)
  case (1 table offset)
  show ?case
  proof (cases "length (take 500 (drop offset table)) < 500")
    case True
    then show ?thesis by (auto simp: list_pages.simps [of table offset] Let_def)
  next
    case False
    then have len: "length (take 500 (drop offset table)) = 500" by simp
    have "take 500 (drop offset table) @ drop (offset + 500) table = drop offset table"
      by (metis add.commute append_take_drop_id drop_drop)
    with 1 [OF refl False] len show ?thesis by (simp add: list_pages.simps [of table offset] Let_def)
  qed
qed

subsection \<open>Every submitted item has one outcome\<close>

definition line_outcome :: "(string \<Rightarrow> go_object option) \<Rightarrow> string list \<Rightarrow> index_item \<Rightarrow> bool" where
  "line_outcome decode raws i =
     (\<exists>raw n p. raw \<in> set raws \<and> ParseBatchImageResultLine decode (trim_space raw) n = Inr p \<and> i = item_of_line p)"

lemma item_of_line_id [simp]: "ii_CustomID (item_of_line p) = pr_CustomID p"
  by (simp add: item_of_line_def Let_def)

lemma missing_item_fields [simp]: "ii_CustomID (missing_item v) = v" "\<not> ii_Succeeded (missing_item v)"
  by (simp_all add: missing_item_def)

lemma parsed_image: "ParseBatchImageResultLine decode line n = Inr p \<Longrightarrow> pr_Succeeded p \<longleftrightarrow> 0 < pr_ImageCount p"
  by (auto simp: ParseBatchImageResultLine_def parsed_failure_def Let_def split: option.splits if_splits prod.splits)

lemma scan_lines_items:
  assumes "scan_lines decode expected n raws items = Inr out" "distinct (map ii_CustomID items)"
    and "expected \<noteq> [] \<Longrightarrow> ii_CustomID ` set items \<subseteq> set expected"
  shows "distinct (map ii_CustomID out) \<and> (expected \<noteq> [] \<longrightarrow> ii_CustomID ` set out \<subseteq> set expected) \<and>
    (\<forall>i \<in> set out. i \<in> set items \<or> line_outcome decode raws i)"
  using assms
proof (induction decode expected n raws items rule: scan_lines.induct)
  case (1 decode expected n items)
  then show ?case by simp
next
  case (2 decode expected n raw raws items)
  have more: "line_outcome decode raws i \<Longrightarrow> line_outcome decode (raw # raws) i" for i
    by (auto simp: line_outcome_def)
  show ?case
  proof (cases "trim_space raw = []")
    case True
    with 2 more show ?thesis by simp blast
  next
    case False
    with 2(4) obtain p where p: "ParseBatchImageResultLine decode (trim_space raw) (n + 1) = Inr p"
      by (cases "ParseBatchImageResultLine decode (trim_space raw) (n + 1)") (auto simp: Let_def)
    show ?thesis
    proof (cases "expected \<noteq> [] \<and> pr_CustomID p \<notin> set expected")
      case True
      with 2(2) [OF refl False p True] 2(4-6) p False more show ?thesis by (simp add: Let_def) blast
    next
      case known: False
      with 2(4) p False have new: "pr_CustomID p \<notin> ii_CustomID ` set items" by (auto simp: Let_def split: if_splits)
      have this_line: "line_outcome decode (raw # raws) (item_of_line p)" using p by (auto simp: line_outcome_def)
      have "distinct (map ii_CustomID out) \<and> (expected \<noteq> [] \<longrightarrow> ii_CustomID ` set out \<subseteq> set expected) \<and>
          (\<forall>i \<in> set out. i \<in> set (items @ [item_of_line p]) \<or> line_outcome decode raws i)"
        using 2(4-6) p False known new by (intro 2(3) [OF refl False p known new]) (auto simp: Let_def)
      moreover have "i \<in> set (items @ [item_of_line p]) \<or> line_outcome decode raws i \<Longrightarrow>
          i \<in> set items \<or> line_outcome decode (raw # raws) i" for i
        using more this_line by auto
      ultimately show ?thesis by blast
    qed
  qed
qed

text \<open>Property C16. A batch that is indexed has an outcome for each item it was submitted with, one and no
  more: the identifiers of the items are distinct, and when the batch has pending items they are
  exactly those, so successes and failures add up to the number of items; unknown lines are
  dropped, items without a line fail, and an item only succeeds when its line carries an image.\<close>
theorem index_reconciles:
  assumes "Index_results decode expected raws scan_error = Inr (items, s, f)"
  shows "distinct (map ii_CustomID items) \<and> s + f = int (length items) \<and> 0 \<le> s \<and> 0 \<le> f \<and> items \<noteq> [] \<and>
    (expected \<noteq> [] \<longrightarrow> ii_CustomID ` set items = set expected \<and> s + f = int (card (set expected))) \<and>
    (\<forall>i \<in> set items. ii_Succeeded i \<longrightarrow> line_outcome decode raws i \<and> 0 < ii_ImageCount i)"
proof -
  from assms obtain seen where seen: "scan_lines decode expected 0 raws [] = Inr seen"
    by (auto simp: Index_results_def split: sum.splits)
  define missing where "missing = slice_stable string_less (filter (\<lambda>v. v \<notin> ii_CustomID ` set seen) (remdups expected))"
  have out: "items = seen @ map missing_item missing" "items \<noteq> []"
    "s = int (length (filter ii_Succeeded items))" "f = int (length (filter (\<lambda>i. \<not> ii_Succeeded i) items))"
    using assms seen by (auto simp: Index_results_def Let_def missing_def split: option.splits if_splits)
  note s = scan_lines_items [OF seen]
  have "distinct missing" by (simp add: missing_def)
  then have dist: "distinct (map ii_CustomID items)"
    using s by (auto simp: out(1) missing_def comp_def)
  have sum: "s + f = int (length items)"
    using sum_length_filter_compl [of ii_Succeeded items] unfolding out(3,4) by (simp flip: of_nat_add)
  have ids: "ii_CustomID ` set items = set expected" if "expected \<noteq> []"
    using s that by (auto simp: out(1) missing_def image_Un image_comp)
  have card: "s + f = int (card (set expected))" if "expected \<noteq> []"
    using sum distinct_card [OF dist] ids [OF that] by simp
  have ok: "line_outcome decode raws i \<and> 0 < ii_ImageCount i" if "i \<in> set items" "ii_Succeeded i" for i
  proof -
    from that s have i: "line_outcome decode raws i" by (auto simp: out(1))
    then obtain line n p where "ParseBatchImageResultLine decode line n = Inr p" "i = item_of_line p"
      by (auto simp: line_outcome_def)
    with that(2) parsed_image [of decode line n p] i show ?thesis by (auto simp: item_of_line_def Let_def)
  qed
  from dist sum ids card ok out(2) out(3,4) show ?thesis by auto
qed

definition sample_decode :: "string \<Rightarrow> go_object option" where
  "sample_decode s =
     (if s = ''1'' then Some [(''key'', AnyString ''p''),
        (''response'', AnyMap [(''candidates'', AnyList [AnyMap [(''content'', AnyMap [(''parts'', AnyList
           [AnyMap [(''inlineData'', AnyMap [(''mimeType'', AnyString ''image/png''), (''data'', AnyString ''AA'')])]])])]])])]
      else if s = ''2'' then Some [(''custom_id'', AnyString ''z''), (''error'', AnyMap [])]
      else None)"

lemma sample_index:
  "Index_results sample_decode [''q'', ''p''] ['' 1'', [], ''2''] None =
     Inr ([item_of_line \<lparr>pr_CustomID = ''p'', pr_Succeeded = True, pr_MimeType = ''image/png'', pr_FileExtension = ''png'',
             pr_ImageCount = 1, pr_ErrorCode = [], pr_ErrorMessage = [], pr_SourceLineNumber = 1\<rparr>, missing_item ''q''], 1, 1)"
  by code_simp

theorem index_reconciles_witness: "1 + 1 = int (card {''q'', ''p''})"
  using index_reconciles [OF sample_index] by simp

end
