(* ===== verification/Batch_Image_Queue.thy ===== *)
theory Batch_Image_Queue
  imports Batch_Image_Errors Batch_Image_Index
begin

section \<open>The queue of batch image jobs and its worker\<close>

text \<open>
  The queue of \<open>repository/batch_image_queue.go\<close>: a list of ready jobs, two sorted sets of delayed and
  active jobs, the keys that mark a job as queued, and the locks; each script and each transaction is
  one step. The worker of \<open>service/batch_image_worker.go\<close> is what it does with a reserved job. A sorted
  set is a list in the order of Redis, by score and then by member.
\<close>

record redis_queue =
  rq_ready :: "string list"
  rq_delayed :: zset
  rq_active :: zset
  rq_inflight :: "(string, int) fmap"
  rq_locks :: "(string, string \<times> int) fmap"

record queue_opts =
  qo_InflightTTL :: duration
  qo_LockTTL :: duration

definition empty_queue :: redis_queue where
  "empty_queue = \<lparr>rq_ready = [], rq_delayed = [], rq_active = [], rq_inflight = fmempty, rq_locks = fmempty\<rparr>"

definition UnixMilli :: "gotime \<Rightarrow> int" where
  "UnixMilli t = unix_nano t div millisecond"

definition IsValidBatchImageID :: "string \<Rightarrow> bool" where
  "IsValidBatchImageID b = (has_prefix b ''imgbatch_'' \<and> length ''imgbatch_'' < length b)"

text \<open>The two scripts that move the due members of a set to the ready list, one by one to its left end.\<close>

definition move_due :: "int \<Rightarrow> nat \<Rightarrow> zset \<Rightarrow> string list \<Rightarrow> zset \<times> string list" where
  "move_due bound limit z ready =
     (let jobs = zrange_to bound limit z in (fold zrem jobs z, rev jobs @ ready))"

subsection \<open>Operations\<close>

definition not_expired :: "int \<Rightarrow> int \<Rightarrow> bool" where
  "not_expired now expires = (now < expires)"

definition queue_Enqueue :: "queue_opts \<Rightarrow> gotime \<Rightarrow> string \<Rightarrow> redis_queue \<Rightarrow> ApplicationError option \<times> redis_queue" where
  "queue_Enqueue opts now b q =
     (if \<not> IsValidBatchImageID b then (Some ErrInvalidBatchImageQueuePayload, q)
      else (case fmlookup (rq_inflight q) b of
              Some expires \<Rightarrow>
                if not_expired (UnixMilli now) expires then (Some ErrBatchImageAlreadyQueued, q)
                else (None, q\<lparr>rq_inflight := fmupd b (UnixMilli now + qo_InflightTTL opts div millisecond) (rq_inflight q),
                              rq_ready := b # rq_ready q\<rparr>)
            | None \<Rightarrow> (None, q\<lparr>rq_inflight := fmupd b (UnixMilli now + qo_InflightTTL opts div millisecond) (rq_inflight q),
                               rq_ready := b # rq_ready q\<rparr>)))"

definition reserveOnce :: "gotime \<Rightarrow> redis_queue \<Rightarrow> (ApplicationError + string) \<times> redis_queue" where
  "reserveOnce now q =
     (if rq_ready q = [] then (Inl ErrBatchImageQueueEmpty, q)
      else (let b = last (rq_ready q);
                q1 = q\<lparr>rq_ready := butlast (rq_ready q), rq_active := zadd b (UnixMilli now) (rq_active q)\<rparr>
            in if IsValidBatchImageID b then (Inr b, q1)
               else (Inl ErrInvalidBatchImageQueuePayload,
                     if b \<noteq> [] then q1\<lparr>rq_active := zrem b (rq_active q1)\<rparr> else q1)))"

definition RequeueAfter :: "gotime \<Rightarrow> string \<Rightarrow> duration \<Rightarrow> redis_queue \<Rightarrow> ApplicationError option \<times> redis_queue" where
  "RequeueAfter now b delay q =
     (if \<not> IsValidBatchImageID b then (Some ErrInvalidBatchImageQueuePayload, q)
      else (let q1 = q\<lparr>rq_active := zrem b (rq_active q), rq_delayed := zrem b (rq_delayed q)\<rparr>
            in (None,
                if delay \<le> 0 then q1\<lparr>rq_ready := b # rq_ready q1\<rparr>
                else q1\<lparr>rq_delayed := zadd b (UnixMilli (now + delay)) (rq_delayed q1)\<rparr>)))"

definition Ack :: "string \<Rightarrow> redis_queue \<Rightarrow> ApplicationError option \<times> redis_queue" where
  "Ack b q =
     (if \<not> IsValidBatchImageID b then (Some ErrInvalidBatchImageQueuePayload, q)
      else (None, q\<lparr>rq_active := zrem b (rq_active q), rq_delayed := zrem b (rq_delayed q),
                    rq_inflight := fmdrop b (rq_inflight q)\<rparr>))"

definition queue_Heartbeat :: "gotime \<Rightarrow> string \<Rightarrow> redis_queue \<Rightarrow> ApplicationError option \<times> redis_queue" where
  "queue_Heartbeat now b q =
     (if \<not> IsValidBatchImageID b then (Some ErrInvalidBatchImageQueuePayload, q)
      else (None, if b \<in> set (zmembers (rq_active q)) then q\<lparr>rq_active := zadd b (UnixMilli now) (rq_active q)\<rparr> else q))"

definition queue_limit :: "int \<Rightarrow> nat" where
  "queue_limit limit = nat (if limit \<le> 0 then 100 else limit)"

definition MoveDueDelayedToReady :: "gotime \<Rightarrow> int \<Rightarrow> redis_queue \<Rightarrow> int \<times> redis_queue" where
  "MoveDueDelayedToReady now limit q =
     (let r = move_due (UnixMilli now) (queue_limit limit) (rq_delayed q) (rq_ready q)
      in (int (length (zrange_to (UnixMilli now) (queue_limit limit) (rq_delayed q))),
          q\<lparr>rq_delayed := fst r, rq_ready := snd r\<rparr>))"

definition RecoverStaleActive :: "gotime \<Rightarrow> duration \<Rightarrow> int \<Rightarrow> redis_queue \<Rightarrow> (ApplicationError + int) \<times> redis_queue" where
  "RecoverStaleActive now staleAfter limit q =
     (if staleAfter \<le> 0 then (Inl ErrInvalidBatchImageQueuePayload, q)
      else (let cutoff = UnixMilli (now - staleAfter);
                r = move_due cutoff (queue_limit limit) (rq_active q) (rq_ready q)
            in (Inr (int (length (zrange_to cutoff (queue_limit limit) (rq_active q)))),
                q\<lparr>rq_active := fst r, rq_ready := snd r\<rparr>)))"

text \<open>The token is drawn at random; a lock is held until it is released or expires.\<close>

definition TryAcquireJobLock ::
    "queue_opts \<Rightarrow> gotime \<Rightarrow> string \<Rightarrow> duration \<Rightarrow> string \<Rightarrow> redis_queue \<Rightarrow> (ApplicationError + bool) \<times> redis_queue" where
  "TryAcquireJobLock opts now b ttl0 token q =
     (if \<not> IsValidBatchImageID b then (Inl ErrInvalidBatchImageQueuePayload, q)
      else (let ttl = (if ttl0 \<le> 0 then qo_LockTTL opts else ttl0);
                take_lock = (Inr True, q\<lparr>rq_locks := fmupd b (token, UnixMilli now + ttl div millisecond) (rq_locks q)\<rparr>)
            in case fmlookup (rq_locks q) b of
                 None \<Rightarrow> take_lock
               | Some (holder, expires) \<Rightarrow> if not_expired (UnixMilli now) expires then (Inr False, q) else take_lock))"

definition holds_lock :: "gotime \<Rightarrow> string \<Rightarrow> string \<Rightarrow> redis_queue \<Rightarrow> bool" where
  "holds_lock now b token q =
     (case fmlookup (rq_locks q) b of None \<Rightarrow> False | Some (holder, expires) \<Rightarrow> holder = token \<and> not_expired (UnixMilli now) expires)"

definition ReleaseJobLock :: "gotime \<Rightarrow> string \<Rightarrow> string \<Rightarrow> redis_queue \<Rightarrow> redis_queue" where
  "ReleaseJobLock now b token q = (if holds_lock now b token q then q\<lparr>rq_locks := fmdrop b (rq_locks q)\<rparr> else q)"

definition defaultBatchImageJobLockTTL :: duration where "defaultBatchImageJobLockTTL = 5 * minute"

definition RefreshJobLock :: "gotime \<Rightarrow> string \<Rightarrow> string \<Rightarrow> duration \<Rightarrow> redis_queue \<Rightarrow> redis_queue" where
  "RefreshJobLock now b token ttl0 q =
     (let ttl = (if ttl0 \<le> 0 then defaultBatchImageJobLockTTL else ttl0)
      in if holds_lock now b token q
         then q\<lparr>rq_locks := fmupd b (token, UnixMilli now + ttl div millisecond) (rq_locks q)\<rparr> else q)"

subsection \<open>The worker\<close>

record worker_opts =
  wo_ReserveBlockTimeout :: duration
  wo_JobLockTTL :: duration
  wo_LockConflictDelay :: duration
  wo_DefaultRequeueDelay :: duration
  wo_ErrorRetryDelay :: duration
  wo_ErrorBackoff :: duration
  wo_DelayedPollInterval :: duration
  wo_RecoveryInterval :: duration
  wo_StaleActiveAfter :: duration
  wo_DelayedMoveLimit :: int
  wo_RecoverLimit :: int

definition default_unless :: "int \<Rightarrow> int \<Rightarrow> int" where
  "default_unless d x = (if x \<le> 0 then d else x)"

definition normalizeBatchImageWorkerOptions :: "worker_opts \<Rightarrow> worker_opts" where
  "normalizeBatchImageWorkerOptions o1 =
     o1\<lparr>wo_ReserveBlockTimeout := default_unless (5 * second) (wo_ReserveBlockTimeout o1),
        wo_JobLockTTL := default_unless (5 * minute) (wo_JobLockTTL o1),
        wo_LockConflictDelay := default_unless (5 * second) (wo_LockConflictDelay o1),
        wo_DefaultRequeueDelay := default_unless (30 * second) (wo_DefaultRequeueDelay o1),
        wo_ErrorRetryDelay := default_unless minute (wo_ErrorRetryDelay o1),
        wo_ErrorBackoff := default_unless second (wo_ErrorBackoff o1),
        wo_DelayedPollInterval := default_unless (5 * second) (wo_DelayedPollInterval o1),
        wo_RecoveryInterval := default_unless (5 * minute) (wo_RecoveryInterval o1),
        wo_StaleActiveAfter := default_unless (10 * minute) (wo_StaleActiveAfter o1),
        wo_DelayedMoveLimit := default_unless 100 (wo_DelayedMoveLimit o1),
        wo_RecoverLimit := default_unless 100 (wo_RecoverLimit o1)\<rparr>"

definition heartbeatInterval :: "worker_opts \<Rightarrow> duration" where
  "heartbeatInterval o1 = max second (min (wo_StaleActiveAfter o1) (wo_JobLockTTL o1) div 3)"

record BatchImageProcessResult =
  rs_RequeueAfter :: duration
  rs_Terminal :: bool

text \<open>What RunOnce does after the attempt to lock a reserved job failed, and after the job was processed.\<close>

definition after_lock_conflict :: "worker_opts \<Rightarrow> gotime \<Rightarrow> string \<Rightarrow> redis_queue \<Rightarrow> redis_queue" where
  "after_lock_conflict o1 now b q = snd (RequeueAfter now b (wo_LockConflictDelay o1) q)"

definition after_process ::
    "worker_opts \<Rightarrow> gotime \<Rightarrow> string \<Rightarrow> go_error + BatchImageProcessResult \<Rightarrow> redis_queue \<Rightarrow> redis_queue" where
  "after_process o1 now b result q =
     (case result of
        Inl e \<Rightarrow> snd (RequeueAfter now b (wo_ErrorRetryDelay o1) q)
      | Inr r \<Rightarrow>
          if rs_Terminal r then snd (Ack b q)
          else snd (RequeueAfter now b (if rs_RequeueAfter r \<le> 0 then wo_DefaultRequeueDelay o1 else rs_RequeueAfter r) q))"

subsection \<open>No job is lost\<close>

text \<open>What happens to a queue: any number of workers, movers and recoverers act on it, and any of them may
  stop after a step.\<close>

datatype queue_event =
    Enqueued gotime string
  | Reserved gotime
  | Conflicted gotime string
  | Processed gotime string "go_error + BatchImageProcessResult"
  | Beat gotime string
  | Moved gotime
  | Recovered gotime
  | Locked gotime string duration string
  | Unlocked gotime string string
  | Refreshed gotime string string duration

fun queue_step :: "queue_opts \<Rightarrow> worker_opts \<Rightarrow> queue_event \<Rightarrow> redis_queue \<Rightarrow> redis_queue" where
  "queue_step opts o1 (Enqueued now b) q = snd (queue_Enqueue opts now b q)"
| "queue_step opts o1 (Reserved now) q = snd (reserveOnce now q)"
| "queue_step opts o1 (Conflicted now b) q = after_lock_conflict o1 now b q"
| "queue_step opts o1 (Processed now b r) q = after_process o1 now b r q"
| "queue_step opts o1 (Beat now b) q = snd (queue_Heartbeat now b q)"
| "queue_step opts o1 (Moved now) q = snd (MoveDueDelayedToReady now (wo_DelayedMoveLimit o1) q)"
| "queue_step opts o1 (Recovered now) q = snd (RecoverStaleActive now (wo_StaleActiveAfter o1) (wo_RecoverLimit o1) q)"
| "queue_step opts o1 (Locked now b ttl token) q = snd (TryAcquireJobLock opts now b ttl token q)"
| "queue_step opts o1 (Unlocked now b token) q = ReleaseJobLock now b token q"
| "queue_step opts o1 (Refreshed now b token ttl) q = RefreshJobLock now b token ttl q"

definition somewhere :: "redis_queue \<Rightarrow> string \<Rightarrow> bool" where
  "somewhere q b = (b \<in> set (rq_ready q) \<union> fst ` set (rq_delayed q) \<union> fst ` set (rq_active q))"

definition queue_ok :: "redis_queue \<Rightarrow> bool" where
  "queue_ok q = (\<forall>b. b |\<in>| fmdom (rq_inflight q) \<longrightarrow> IsValidBatchImageID b \<and> somewhere q b)"

lemma move_due_keeps:
  "fst ` set (fst (move_due bound limit z ready)) \<union> set (snd (move_due bound limit z ready)) = fst ` set z \<union> set ready"
  by (auto simp: move_due_def Let_def zrange_to_def zmembers_def dest!: in_set_takeD)

lemma last_butlast: "xs \<noteq> [] \<Longrightarrow> b \<in> set xs \<longleftrightarrow> b \<in> set (butlast xs) \<or> b = last xs"
  by (metis append_butlast_last_id in_set_conv_decomp in_set_butlastD last_in_set rotate1.simps(2) set_ConsD set_rotate1)

lemma somewhere_requeue: "somewhere q b \<Longrightarrow> somewhere (snd (RequeueAfter now b' delay q)) b"
  by (auto simp: somewhere_def RequeueAfter_def Let_def)

lemma somewhere_reserve: "IsValidBatchImageID b \<Longrightarrow> somewhere q b \<Longrightarrow> somewhere (snd (reserveOnce now q)) b"
  by (auto simp: somewhere_def reserveOnce_def Let_def last_butlast)

lemma somewhere_moved: "somewhere q b \<Longrightarrow> somewhere (snd (MoveDueDelayedToReady now limit q)) b"
  using move_due_keeps [of "UnixMilli now" "queue_limit limit" "rq_delayed q" "rq_ready q"]
  by (auto simp: somewhere_def MoveDueDelayedToReady_def Let_def)

lemma somewhere_recovered: "somewhere q b \<Longrightarrow> somewhere (snd (RecoverStaleActive now staleAfter limit q)) b"
  using move_due_keeps [of "UnixMilli (now - staleAfter)" "queue_limit limit" "rq_active q" "rq_ready q"]
  by (auto simp: somewhere_def RecoverStaleActive_def Let_def)

lemma queue_okI:
  assumes "queue_ok q" "fmdom (rq_inflight q') |\<subseteq>| fmdom (rq_inflight q)"
    and "\<And>b. IsValidBatchImageID b \<Longrightarrow> b |\<in>| fmdom (rq_inflight q') \<Longrightarrow> somewhere q b \<Longrightarrow> somewhere q' b"
  shows "queue_ok q'"
  using assms by (auto simp: queue_ok_def)

lemma inflight_simps [simp]:
  "rq_inflight (snd (RequeueAfter now b delay q)) = rq_inflight q"
  "rq_inflight (snd (reserveOnce now q)) = rq_inflight q"
  "rq_inflight (snd (MoveDueDelayedToReady now limit q)) = rq_inflight q"
  "rq_inflight (snd (RecoverStaleActive now staleAfter limit q)) = rq_inflight q"
  "rq_inflight (snd (queue_Heartbeat now b q)) = rq_inflight q"
  by (simp_all add: RequeueAfter_def reserveOnce_def MoveDueDelayedToReady_def RecoverStaleActive_def queue_Heartbeat_def Let_def)

lemma locks_only:
  "queue_ok q \<Longrightarrow> queue_ok (q\<lparr>rq_locks := l\<rparr>)"
  by (simp add: queue_ok_def somewhere_def)

lemma enqueue_ok: "queue_ok q \<Longrightarrow> queue_ok (snd (queue_Enqueue opts now b q))"
  by (auto simp: queue_ok_def queue_Enqueue_def somewhere_def split: option.splits)

lemma ack_ok: "queue_ok q \<Longrightarrow> queue_ok (snd (Ack b q))"
  by (auto simp: queue_ok_def Ack_def somewhere_def)

lemma requeue_ok: "queue_ok q \<Longrightarrow> queue_ok (snd (RequeueAfter now b delay q))"
  by (erule queue_okI) (simp_all add: somewhere_requeue)

lemma processed_ok: "queue_ok q \<Longrightarrow> queue_ok (after_process o1 now b r q)"
  by (auto simp: after_process_def split: sum.split intro: requeue_ok ack_ok)

lemma beat_ok: "queue_ok q \<Longrightarrow> queue_ok (snd (queue_Heartbeat now b q))"
  by (erule queue_okI) (auto simp: queue_Heartbeat_def somewhere_def zmembers_def)

lemma queue_step_ok: "queue_ok q \<Longrightarrow> queue_ok (queue_step opts o1 e q)"
proof (cases e)
  case (Locked now b ttl token)
  then show "queue_ok q \<Longrightarrow> queue_ok (queue_step opts o1 e q)"
    by (auto simp: TryAcquireJobLock_def Let_def locks_only split: option.split)
next
  case (Reserved now)
  then show "queue_ok q \<Longrightarrow> queue_ok (queue_step opts o1 e q)"
    by (auto elim!: queue_okI simp: somewhere_reserve)
next
  case (Moved now)
  then show "queue_ok q \<Longrightarrow> queue_ok (queue_step opts o1 e q)"
    by (auto elim!: queue_okI simp: somewhere_moved)
next
  case (Recovered now)
  then show "queue_ok q \<Longrightarrow> queue_ok (queue_step opts o1 e q)"
    by (auto elim!: queue_okI simp: somewhere_recovered)
qed (auto simp: enqueue_ok requeue_ok processed_ok beat_ok after_lock_conflict_def ReleaseJobLock_def RefreshJobLock_def Let_def
    locks_only)

lemma queue_run_ok: "queue_ok q \<Longrightarrow> queue_ok (fold (queue_step opts o1) es q)"
  by (induction es arbitrary: q) (auto simp: queue_step_ok)

text \<open>What is left of the stale members after \<open>n\<close> scans of \<open>limit\<close> each.\<close>

lemma stale_after_scan:
  "length (filter (\<lambda>x. snd x \<le> bound) (fst (move_due bound limit z ready))) \<le> length (filter (\<lambda>x. snd x \<le> bound) z) - limit"
proof -
  let ?stale = "filter (\<lambda>x. snd x \<le> bound) z"
  let ?jobs = "zrange_to bound limit z"
  have zrem_all: "fold zrem bs z = filter (\<lambda>x. fst x \<notin> set bs) z" for bs and z :: zset
    by (induction bs arbitrary: z) (auto simp: zrem_def intro: filter_cong)
  have "filter (\<lambda>x. snd x \<le> bound) (fold zrem ?jobs z) = filter (\<lambda>x. fst x \<notin> set ?jobs) ?stale"
    by (simp add: zrem_all conj_commute)
  also have "\<dots> = filter (\<lambda>x. fst x \<notin> set ?jobs) (take limit ?stale) @ filter (\<lambda>x. fst x \<notin> set ?jobs) (drop limit ?stale)"
    by (metis append_take_drop_id filter_append)
  also have "filter (\<lambda>x. fst x \<notin> set ?jobs) (take limit ?stale) = []"
    by (auto simp: filter_empty_conv zrange_to_def zmembers_def)
  finally show ?thesis
    using length_filter_le [of "\<lambda>x. fst x \<notin> set ?jobs" "drop limit ?stale"] by (simp add: move_due_def Let_def)
qed

lemma scans_reach:
  assumes "(b, s) \<in> set z" "s \<le> bound" "length (filter (\<lambda>x. snd x \<le> bound) z) \<le> n * limit"
  shows "b \<in> set (snd (((\<lambda>(z, ready). move_due bound limit z ready) ^^ n) (z, ready)))"
  using assms
proof (induction n arbitrary: z ready)
  case 0
  then show ?case by (auto simp: filter_empty_conv)
next
  case (Suc n)
  let ?f = "\<lambda>(z, ready). move_due bound limit z ready"
  obtain z1 r1 where m: "move_due bound limit z ready = (z1, r1)" by fastforce
  have keeps: "b' \<in> set (snd ((?f ^^ k) (z', r')))" if "b' \<in> set r'" for b' k z' r'
    using that by (induction k) (simp_all add: case_prod_unfold move_due_def Let_def)
  have step: "(?f ^^ Suc n) (z, ready) = (?f ^^ n) (z1, r1)" by (simp add: funpow_swap1 m)
  show ?case
  proof (cases "(b, s) \<in> set z1")
    case True
    have "length (filter (\<lambda>x. snd x \<le> bound) z1) \<le> n * limit"
      using stale_after_scan [of bound limit z ready] Suc.prems(3) m by simp
    from Suc.IH [OF True Suc.prems(2) this] show ?thesis by (simp only: step)
  next
    case False
    then have "b \<in> set (zrange_to bound limit z)" using Suc.prems(1) m by (auto simp: move_due_def Let_def)
    then have "b \<in> set r1" using m by (auto simp: move_due_def Let_def)
    then show ?thesis by (simp only: step keeps)
  qed
qed

text \<open>Property C8. No job is lost in the queue: after any steps of any number of producers, workers, movers
  and recovery scans, some of which stopped between two steps, a job that may not be queued again
  because it is queued already is in fact ready, delayed or active.\<close>
theorem queued_never_lost:
  assumes "fst (queue_Enqueue opts now b (fold (queue_step opts o1) es empty_queue)) = Some ErrBatchImageAlreadyQueued"
  shows "somewhere (fold (queue_step opts o1) es empty_queue) b"
proof -
  have "queue_ok empty_queue" by (simp add: queue_ok_def empty_queue_def)
  then have "queue_ok (fold (queue_step opts o1) es empty_queue)" by (rule queue_run_ok)
  with assms show ?thesis
    by (auto simp: queue_ok_def queue_Enqueue_def ErrInvalidBatchImageQueuePayload_def ErrBatchImageAlreadyQueued_def NewError_def
        fmdomI split: if_splits option.splits)
qed

definition due :: "int \<Rightarrow> zset \<Rightarrow> nat" where
  "due bound z = length (filter (\<lambda>x. snd x \<le> bound) z)"

lemma move_rounds:
  "((\<lambda>q. snd (MoveDueDelayedToReady now limit q)) ^^ n) q =
   (case ((\<lambda>(z, ready). move_due (UnixMilli now) (queue_limit limit) z ready) ^^ n) (rq_delayed q, rq_ready q) of
      (z, ready) \<Rightarrow> q\<lparr>rq_delayed := z, rq_ready := ready\<rparr>)"
  by (induction n) (simp_all add: MoveDueDelayedToReady_def Let_def case_prod_unfold)

lemma recover_rounds:
  "0 < staleAfter \<Longrightarrow> ((\<lambda>q. snd (RecoverStaleActive now staleAfter limit q)) ^^ n) q =
   (case ((\<lambda>(z, ready). move_due (UnixMilli (now - staleAfter)) (queue_limit limit) z ready) ^^ n) (rq_active q, rq_ready q) of
      (z, ready) \<Rightarrow> q\<lparr>rq_active := z, rq_ready := ready\<rparr>)"
  by (induction n) (simp_all add: RecoverStaleActive_def Let_def case_prod_unfold)

text \<open>Property C39. What waits comes back: a delayed job that is due is ready after enough movements, and an
  active job whose worker stopped is ready after enough recovery scans, enough being that the
  scans together may move as many jobs as are due.\<close>
theorem waiting_job_becomes_ready:
  "((b, s) \<in> set (rq_delayed q) \<and> s \<le> UnixMilli now \<and> due (UnixMilli now) (rq_delayed q) \<le> n * queue_limit limit \<longrightarrow>
      b \<in> set (rq_ready (((\<lambda>q. snd (MoveDueDelayedToReady now limit q)) ^^ n) q))) \<and>
   (0 < staleAfter \<and> (b, s) \<in> set (rq_active q) \<and> s \<le> UnixMilli (now - staleAfter) \<and>
      due (UnixMilli (now - staleAfter)) (rq_active q) \<le> n * queue_limit limit \<longrightarrow>
      b \<in> set (rq_ready (((\<lambda>q. snd (RecoverStaleActive now staleAfter limit q)) ^^ n) q)))"
  using scans_reach [of b s "rq_delayed q" "UnixMilli now" n "queue_limit limit" "rq_ready q"]
    scans_reach [of b s "rq_active q" "UnixMilli (now - staleAfter)" n "queue_limit limit" "rq_ready q"]
  by (auto simp: move_rounds recover_rounds due_def case_prod_unfold)

text \<open>A job lock excludes: while its holder's time has not run out, whatever steps the others
  take, none of them gets the lock, and only its token releases or prolongs it.\<close>
theorem lock_excludes:
  assumes "holds_lock now b token q"
    and "list_all (\<lambda>e. case e of
           Locked t b' ttl token' \<Rightarrow> t \<le> now
         | Unlocked t b' token' \<Rightarrow> token' \<noteq> token
         | Refreshed t b' token' ttl \<Rightarrow> token' \<noteq> token
         | _ \<Rightarrow> True) es"
  shows "holds_lock now b token (fold (queue_step opts o1) es q) \<and>
    (t \<le> now \<longrightarrow> fst (TryAcquireJobLock opts t b ttl token' (fold (queue_step opts o1) es q)) \<noteq> Inr True)"
proof -
  have early: "not_expired (UnixMilli t) x" if "not_expired (UnixMilli now) x" "t \<le> now" for t x
    using that zdiv_mono1 [of "unix_nano t" "unix_nano now" millisecond]
    by (simp add: not_expired_def UnixMilli_def millisecond_def unix_nano_def)
  have keep: "rq_locks q' = rq_locks q \<Longrightarrow> holds_lock now b token q' = holds_lock now b token q" for q q'
    by (simp add: holds_lock_def)
  have "holds_lock now b token (fold (queue_step opts o1) es q)"
    using assms
  proof (induction es arbitrary: q)
    case (Cons e es)
    have "holds_lock now b token (queue_step opts o1 e q)"
    proof (cases e)
      case (Locked t b' ttl token')
      with Cons.prems early show ?thesis
        by (auto simp: TryAcquireJobLock_def Let_def holds_lock_def split: option.splits)
    next
      case (Unlocked t b' token')
      with Cons.prems show ?thesis
        by (auto simp: ReleaseJobLock_def holds_lock_def split: option.splits)
    next
      case (Refreshed t b' token' ttl)
      with Cons.prems show ?thesis
        by (auto simp: RefreshJobLock_def Let_def holds_lock_def split: option.splits)
    qed (use Cons.prems(1) in \<open>auto simp: queue_Enqueue_def reserveOnce_def after_lock_conflict_def after_process_def RequeueAfter_def
        Ack_def queue_Heartbeat_def MoveDueDelayedToReady_def RecoverStaleActive_def Let_def holds_lock_def
        split: option.splits sum.splits\<close>)
    with Cons show ?case by simp
  qed simp
  moreover have "fst (TryAcquireJobLock opts t b ttl token' q') \<noteq> Inr True" if "holds_lock now b token q'" "t \<le> now" for q'
    using that early by (auto simp: TryAcquireJobLock_def Let_def holds_lock_def split: option.splits)
  ultimately show ?thesis by blast
qed

subsection \<open>Samples\<close>

definition sample_queue_opts :: queue_opts where
  "sample_queue_opts = \<lparr>qo_InflightTTL = 7 * 24 * hour, qo_LockTTL = 5 * minute\<rparr>"

definition sample_worker :: worker_opts where
  "sample_worker = normalizeBatchImageWorkerOptions
     \<lparr>wo_ReserveBlockTimeout = 0, wo_JobLockTTL = 0, wo_LockConflictDelay = 0, wo_DefaultRequeueDelay = 0, wo_ErrorRetryDelay = 0,
      wo_ErrorBackoff = 0, wo_DelayedPollInterval = 0, wo_RecoveryInterval = 0, wo_StaleActiveAfter = 0, wo_DelayedMoveLimit = 0,
      wo_RecoverLimit = 0\<rparr>"

definition sample_events :: "queue_event list" where
  "sample_events =
     [Enqueued 0 ''imgbatch_a'', Enqueued 0 ''imgbatch_b'', Reserved second, Locked second ''imgbatch_a'' 0 ''t'',
      Processed (2 * second) ''imgbatch_a'' (Inl (Other ''x'')), Reserved (2 * second), Moved (3 * minute)]"

definition sample_queue :: redis_queue where
  "sample_queue = fold (queue_step sample_queue_opts sample_worker) sample_events empty_queue"

theorem queued_never_lost_witness:
  "somewhere sample_queue ''imgbatch_a''"
proof -
  have "fst (queue_Enqueue sample_queue_opts (3 * minute) ''imgbatch_a'' sample_queue) = Some ErrBatchImageAlreadyQueued" by code_simp
  from queued_never_lost [OF this [unfolded sample_queue_def]] show ?thesis by (simp add: sample_queue_def)
qed

theorem waiting_job_becomes_ready_witness:
  "''imgbatch_b'' \<in> set (rq_ready (((\<lambda>q. snd (RecoverStaleActive (20 * minute) (10 * minute) 100 q)) ^^ 1) sample_queue))"
proof -
  have "0 < 10 * minute \<and> (''imgbatch_b'', UnixMilli (2 * second)) \<in> set (rq_active sample_queue) \<and>
      UnixMilli (2 * second) \<le> UnixMilli (20 * minute - 10 * minute) \<and>
      due (UnixMilli (20 * minute - 10 * minute)) (rq_active sample_queue) \<le> 1 * queue_limit 100"
    by code_simp
  then show ?thesis by (rule waiting_job_becomes_ready [THEN conjunct2, THEN mp])
qed

theorem lock_excludes_witness:
  "fst (TryAcquireJobLock sample_queue_opts minute ''imgbatch_a'' 0 ''u'' sample_queue) \<noteq> Inr True"
proof -
  have "holds_lock (2 * minute) ''imgbatch_a'' ''t'' sample_queue" "minute \<le> 2 * minute" by code_simp+
  with lock_excludes [of "2 * minute" "''imgbatch_a''" "''t''" sample_queue "[]" sample_queue_opts sample_worker minute 0 "''u''"]
  show ?thesis by simp
qed

end
