(* ===== verification/Batch_Image_Request.thy ===== *)
theory Batch_Image_Request
  imports Batch_Image_Index Utf8_Truncation
begin

section \<open>Requests for a batch\<close>

text \<open>
  The validation of a submitted request, \<open>validateSubmitRequest\<close> of \<open>service/batch_image_public.go\<close>, with
  what it calls: trimming, the limits, the identifiers of the items and the expansion of an item
  with several outputs. The session identifier is only passed on and is left out; a Go map of
  metadata is a list of pairs with distinct keys.
\<close>

record BatchImageReferenceInput =
  ri_ID :: string
  ri_Type :: string
  ri_MimeType :: string
  ri_Data :: string
  ri_FileURI :: string

record BatchImageSubmitItem =
  si_CustomID :: string
  si_Prompt :: string
  si_OutputCount :: int
  si_ReferenceImages :: "BatchImageReferenceInput list"

record BatchImageSubmitRequest =
  sr_Model :: string
  sr_TaskName :: string
  sr_ParentBatchID :: string
  sr_Provider :: string
  sr_Items :: "BatchImageSubmitItem list"
  sr_ResponseMimeType :: string
  sr_AspectRatio :: string
  sr_ImageSize :: string
  sr_Metadata :: "(string \<times> string) list"

record batch_limits =
  bl_Enabled :: bool
  bl_MaxItemsPerJobDefault :: int
  bl_MaxOutputImagesPerJob :: int
  bl_MaxOutputImagesPerItem :: int
  bl_MaxPromptCharsPerItem :: int
  bl_MaxReferenceImagesPerJob :: int
  bl_MaxReferenceInlineBytesPerJob :: int
  bl_DefaultResponseMimeType :: string
  bl_DefaultImageSize :: string

subsection \<open>Limits and defaults\<close>

definition positive_or :: "int \<Rightarrow> int \<Rightarrow> int" where
  "positive_or x d = (if 0 < x then x else d)"

definition maxItems :: "batch_limits \<Rightarrow> int" where "maxItems L = positive_or (bl_MaxItemsPerJobDefault L) 200"
definition maxOutputImagesPerJob :: "batch_limits \<Rightarrow> int" where "maxOutputImagesPerJob L = positive_or (bl_MaxOutputImagesPerJob L) 200"
definition maxOutputImagesPerItem :: "batch_limits \<Rightarrow> int" where "maxOutputImagesPerItem L = positive_or (bl_MaxOutputImagesPerItem L) 4"
definition maxPromptChars :: "batch_limits \<Rightarrow> int" where "maxPromptChars L = positive_or (bl_MaxPromptCharsPerItem L) 8000"
definition maxReferenceImagesPerJob :: "batch_limits \<Rightarrow> int" where
  "maxReferenceImagesPerJob L = positive_or (bl_MaxReferenceImagesPerJob L) 1000"
definition maxReferenceInlineBytesPerJob :: "batch_limits \<Rightarrow> int" where
  "maxReferenceInlineBytesPerJob L = positive_or (bl_MaxReferenceInlineBytesPerJob L) (128 * 1024 * 1024)"
definition maxBatchImageReferenceImageBytes :: int where "maxBatchImageReferenceImageBytes = 10 * 1024 * 1024"
definition defaultBatchImageImageSize :: string where "defaultBatchImageImageSize = ''1K''"

definition trimmed_or :: "string \<Rightarrow> string \<Rightarrow> string" where
  "trimmed_or s d = (if trim_space s \<noteq> [] then trim_space s else d)"

definition defaultResponseMimeType :: "batch_limits \<Rightarrow> string" where
  "defaultResponseMimeType L = trimmed_or (bl_DefaultResponseMimeType L) ''image/png''"
definition defaultImageSize :: "batch_limits \<Rightarrow> string" where
  "defaultImageSize L = trimmed_or (bl_DefaultImageSize L) defaultBatchImageImageSize"

text \<open>\<open>strings.EqualFold\<close> with 1K: the Kelvin sign folds to k.\<close>

definition equal_fold_1K :: "string \<Rightarrow> bool" where
  "equal_fold_1K s = (s \<in> {''1K'', ''1k'', [CHR ''1'', CHR 0xE2, CHR 0x84, CHR 0xAA]})"

subsection \<open>Parts of a request\<close>

definition maxBatchImageReferenceImagesForModel :: "string \<Rightarrow> int" where
  "maxBatchImageReferenceImagesForModel model =
     (let m = to_lower (trim_space model)
      in if contains m ''pro-image'' then 14 else if contains m ''flash-image'' then 3 else 0)"

definition normalizeBatchImageReferenceMimeType :: "string \<Rightarrow> string" where
  "normalizeBatchImageReferenceMimeType v =
     (let m = to_lower (trim_space v)
      in if m = ''image/jpeg'' \<or> m = ''image/jpg'' then ''image/jpeg''
         else if m = ''image/png'' then ''image/png''
         else if m = ''image/webp'' then ''image/webp'' else [])"

definition normalize_reference :: "BatchImageReferenceInput \<Rightarrow> BatchImageReferenceInput option" where
  "normalize_reference ref0 =
     (let ref = ref0\<lparr>ri_ID := truncateBatchImageMessage (trim_space (ri_ID ref0)) 80,
                     ri_Type := truncateBatchImageMessage (trim_space (ri_Type ref0)) 40,
                     ri_MimeType := normalizeBatchImageReferenceMimeType (ri_MimeType ref0),
                     ri_FileURI := trim_space (ri_FileURI ref0)\<rparr>
      in if ri_MimeType ref = [] then None
         else if ri_Data ref = [] \<and> ri_FileURI ref = [] then None
         else if ri_Data ref \<noteq> [] \<and> ri_FileURI ref \<noteq> [] then None
         else if maxBatchImageReferenceImageBytes < int (length (ri_Data ref)) then None
         else if ri_FileURI ref \<noteq> [] \<and> \<not> has_prefix (ri_FileURI ref) ''gs://'' then None
         else Some ref)"

fun normalize_references :: "BatchImageReferenceInput list \<Rightarrow> BatchImageReferenceInput list option" where
  "normalize_references [] = Some []"
| "normalize_references (r # rs) =
     (case normalize_reference r of
        None \<Rightarrow> None
      | Some r' \<Rightarrow> map_option ((#) r') (normalize_references rs))"

text \<open>The item with its references, their number, and the bytes they carry.\<close>

definition normalizeBatchImageReferenceInputs ::
    "string \<Rightarrow> BatchImageSubmitItem \<Rightarrow> ApplicationError + BatchImageSubmitItem \<times> int \<times> int" where
  "normalizeBatchImageReferenceInputs model item =
     (if si_ReferenceImages item = [] then Inr (item, 0, 0)
      else if maxBatchImageReferenceImagesForModel model \<le> 0 \<or>
              maxBatchImageReferenceImagesForModel model < int (length (si_ReferenceImages item))
      then Inl ErrBatchImageTooManyReferenceImages
      else (case normalize_references (si_ReferenceImages item) of
              None \<Rightarrow> Inl ErrBatchImageInvalidReferenceImage
            | Some refs \<Rightarrow>
                Inr (item\<lparr>si_ReferenceImages := refs\<rparr>, int (length refs), sum_list (map (\<lambda>r. int (length (ri_Data r))) refs))))"

definition pad_zeros :: "nat \<Rightarrow> int \<Rightarrow> string" where
  "pad_zeros width n = replicate (width - length (Itoa n)) (CHR ''0'') @ Itoa n"

definition batchImageRepeatSuffixWidth :: "int \<Rightarrow> nat" where
  "batchImageRepeatSuffixWidth count = (if count < 10 then 2 else length (Itoa count))"

definition repeat_id :: "string \<Rightarrow> int \<Rightarrow> int \<Rightarrow> string" where
  "repeat_id cid outputs k =
     (if 1 < outputs then cid @ ''_'' @ pad_zeros (batchImageRepeatSuffixWidth outputs) k else cid)"

text \<open>The repetitions of an item behind the items so far, \<open>None\<close> when an identifier occurs twice.\<close>

fun expand_item :: "BatchImageSubmitItem \<Rightarrow> int \<Rightarrow> int list \<Rightarrow> BatchImageSubmitItem list \<Rightarrow> BatchImageSubmitItem list option" where
  "expand_item item outputs [] out = Some out"
| "expand_item item outputs (k # ks) out =
     (let e = item\<lparr>si_OutputCount := 0, si_CustomID := repeat_id (si_CustomID item) outputs k\<rparr>
      in if si_CustomID e \<in> si_CustomID ` set out then None else expand_item item outputs ks (out @ [e]))"

record validation =
  vd_images :: int
  vd_references :: int
  vd_bytes :: int
  vd_items :: "BatchImageSubmitItem list"

text \<open>One item, at position \<open>i\<close>: the checks in the order of the source.\<close>

definition validate_item ::
    "batch_limits \<Rightarrow> string \<Rightarrow> int \<Rightarrow> BatchImageSubmitItem \<Rightarrow> validation \<Rightarrow> ApplicationError + validation" where
  "validate_item L model i item0 v =
     (let cid = (if trim_space (si_CustomID item0) = [] then ''item_'' @ pad_zeros 6 (i + 1) else trim_space (si_CustomID item0));
          outputs = (if si_OutputCount item0 = 0 then 1 else si_OutputCount item0);
          prompt = trim_space (si_Prompt item0)
      in if outputs < 1 \<or> maxOutputImagesPerItem L < outputs then Inl ErrBatchImageInvalidItems
         else if maxOutputImagesPerJob L < vd_images v + outputs then Inl ErrBatchImageTooManyOutputImages
         else if prompt = [] then Inl ErrBatchImageInvalidItems
         else if maxPromptChars L < int (length prompt) then Inl ErrBatchImagePromptTooLong
         else (case normalizeBatchImageReferenceInputs model (item0\<lparr>si_CustomID := cid, si_Prompt := prompt\<rparr>) of
                 Inl e \<Rightarrow> Inl e
               | Inr (item, refs, bytes) \<Rightarrow>
                   if maxReferenceImagesPerJob L < vd_references v + refs * outputs then Inl ErrBatchImageTooManyReferenceImages
                   else if maxReferenceInlineBytesPerJob L < vd_bytes v + bytes * outputs then Inl ErrBatchImageReferenceImagesTooLarge
                   else (case expand_item item outputs [1..outputs] (vd_items v) of
                           None \<Rightarrow> Inl ErrBatchImageDuplicateCustomIDInRequest
                         | Some items \<Rightarrow>
                             Inr \<lparr>vd_images = vd_images v + outputs, vd_references = vd_references v + refs * outputs,
                                  vd_bytes = vd_bytes v + bytes * outputs, vd_items = items\<rparr>)))"

fun validate_items ::
    "batch_limits \<Rightarrow> string \<Rightarrow> int \<Rightarrow> BatchImageSubmitItem list \<Rightarrow> validation \<Rightarrow> ApplicationError + validation" where
  "validate_items L model i [] v = Inr v"
| "validate_items L model i (item # items) v =
     (case validate_item L model i item v of Inl e \<Rightarrow> Inl e | Inr v' \<Rightarrow> validate_items L model (i + 1) items v')"

text \<open>Keys in order; the pairs that are kept, up to twenty.\<close>

fun keep_metadata :: "(string \<times> string) list \<Rightarrow> (string \<times> string) list \<Rightarrow> (string \<times> string) list" where
  "keep_metadata [] out = out"
| "keep_metadata ((k, x) # kvs) out =
     (let key = trim_space k
      in if key = [] \<or> 64 < length key then keep_metadata kvs out
         else (let out' = filter (\<lambda>p. fst p \<noteq> key) out @ [(key, take 256 (trim_space x))]
               in if 20 \<le> length out' then out' else keep_metadata kvs out'))"

definition sanitizeBatchImageMetadata :: "(string \<times> string) list \<Rightarrow> (string \<times> string) list" where
  "sanitizeBatchImageMetadata m = keep_metadata (slice_stable (\<lambda>p q. string_less (fst p) (fst q)) m) []"

text \<open>The name of a task without one is the current time; it is an argument.\<close>

definition validateSubmitRequest ::
    "batch_limits \<Rightarrow> string \<Rightarrow> BatchImageSubmitRequest \<Rightarrow> ApplicationError + BatchImageSubmitRequest" where
  "validateSubmitRequest L now_name req0 =
     (let name = (if trim_space (sr_TaskName req0) = [] then now_name else trim_space (sr_TaskName req0));
          size = (if trim_space (sr_ImageSize req0) = [] then defaultImageSize L else trim_space (sr_ImageSize req0));
          mime = trim_space (sr_ResponseMimeType req0);
          req = req0\<lparr>sr_Model := trim_space (sr_Model req0),
                     sr_TaskName := (if 255 < length name then truncateBatchImageMessage name 255 else name),
                     sr_ParentBatchID := trim_space (sr_ParentBatchID req0), sr_Provider := trim_space (sr_Provider req0),
                     sr_ResponseMimeType := (if mime = [] then defaultResponseMimeType L else mime),
                     sr_AspectRatio := trim_space (sr_AspectRatio req0), sr_ImageSize := defaultBatchImageImageSize,
                     sr_Metadata := sanitizeBatchImageMetadata (sr_Metadata req0)\<rparr>
      in if sr_Model req = [] then Inl ErrBatchImageInvalidModel
         else if sr_Provider req \<noteq> [] \<and> \<not> IsSupportedBatchImageProvider (sr_Provider req) then Inl ErrBatchImageUnsupportedProvider
         else if sr_Items req = [] \<or> maxItems L < int (length (sr_Items req)) then Inl ErrBatchImageInvalidItems
         else if \<not> equal_fold_1K size then Inl ErrBatchImageInvalidItems
         else (case validate_items L (sr_Model req) 0 (sr_Items req) \<lparr>vd_images = 0, vd_references = 0, vd_bytes = 0, vd_items = []\<rparr> of
                 Inl e \<Rightarrow> Inl e
               | Inr v \<Rightarrow> Inr (req\<lparr>sr_Items := vd_items v\<rparr>)))"

text \<open>The digest of the request as JSON is a parameter.\<close>

definition HashBatchImageSubmitRequest :: "(BatchImageSubmitRequest \<Rightarrow> string) \<Rightarrow> BatchImageSubmitRequest \<Rightarrow> string" where
  "HashBatchImageSubmitRequest digest req = digest (req\<lparr>sr_Metadata := sanitizeBatchImageMetadata (sr_Metadata req)\<rparr>)"

subsection \<open>What an accepted request guarantees\<close>

definition ref_count :: "BatchImageSubmitItem \<Rightarrow> int" where
  "ref_count i = int (length (si_ReferenceImages i))"

definition ref_bytes :: "BatchImageSubmitItem \<Rightarrow> int" where
  "ref_bytes i = sum_list (map (\<lambda>r. int (length (ri_Data r))) (si_ReferenceImages i))"

definition reference_ok :: "BatchImageReferenceInput \<Rightarrow> bool" where
  "reference_ok r =
     (ri_MimeType r \<in> {''image/jpeg'', ''image/png'', ''image/webp''} \<and> (ri_Data r = []) \<noteq> (ri_FileURI r = []) \<and>
      int (length (ri_Data r)) \<le> maxBatchImageReferenceImageBytes \<and> (ri_FileURI r = [] \<or> prefix ''gs://'' (ri_FileURI r)))"

definition item_ok :: "batch_limits \<Rightarrow> string \<Rightarrow> BatchImageSubmitItem \<Rightarrow> bool" where
  "item_ok L model i =
     (si_CustomID i \<noteq> [] \<and> si_Prompt i \<noteq> [] \<and> int (length (si_Prompt i)) \<le> maxPromptChars L \<and> si_OutputCount i = 0 \<and>
      ref_count i \<le> maxBatchImageReferenceImagesForModel model \<and> list_all reference_ok (si_ReferenceImages i))"

definition validation_ok :: "batch_limits \<Rightarrow> string \<Rightarrow> validation \<Rightarrow> bool" where
  "validation_ok L model v =
     (distinct (map si_CustomID (vd_items v)) \<and> list_all (item_ok L model) (vd_items v) \<and>
      vd_images v = int (length (vd_items v)) \<and> vd_images v \<le> maxOutputImagesPerJob L \<and>
      vd_references v = sum_list (map ref_count (vd_items v)) \<and> vd_references v \<le> maxReferenceImagesPerJob L \<and>
      vd_bytes v = sum_list (map ref_bytes (vd_items v)) \<and> vd_bytes v \<le> maxReferenceInlineBytesPerJob L)"

lemma normalize_reference_ok: "normalize_reference r = Some r' \<Longrightarrow> reference_ok r'"
  by (auto simp: normalize_reference_def Let_def reference_ok_def normalizeBatchImageReferenceMimeType_def has_prefix_def split: if_splits)

lemma normalize_references_ok: "normalize_references rs = Some rs' \<Longrightarrow> list_all reference_ok rs' \<and> length rs' = length rs"
  by (induction rs arbitrary: rs') (auto split: option.splits dest: normalize_reference_ok)

lemma normalize_inputs_ok:
  assumes "normalizeBatchImageReferenceInputs model item = Inr (item', refs, bytes)"
  shows "refs = ref_count item' \<and> bytes = ref_bytes item' \<and> list_all reference_ok (si_ReferenceImages item') \<and>
    ref_count item' \<le> maxBatchImageReferenceImagesForModel model \<and> si_CustomID item' = si_CustomID item \<and> si_Prompt item' = si_Prompt item"
proof -
  have "0 \<le> maxBatchImageReferenceImagesForModel model" by (simp add: maxBatchImageReferenceImagesForModel_def Let_def)
  with assms show ?thesis
    by (auto simp: normalizeBatchImageReferenceInputs_def ref_count_def ref_bytes_def split: if_splits option.splits
        dest!: normalize_references_ok)
qed

definition copy_of :: "BatchImageSubmitItem \<Rightarrow> int \<Rightarrow> BatchImageSubmitItem \<Rightarrow> bool" where
  "copy_of item outputs e = (\<exists>k. e = item\<lparr>si_OutputCount := 0, si_CustomID := repeat_id (si_CustomID item) outputs k\<rparr>)"

lemma expand_item_copies:
  assumes "expand_item item outputs ks out = Some out'"
  shows "\<exists>es. out' = out @ es \<and> length es = length ks \<and>
    list_all (copy_of item outputs) es \<and>
    (distinct (map si_CustomID out) \<longrightarrow> distinct (map si_CustomID out'))"
  using assms
proof (induction item outputs ks out arbitrary: out' rule: expand_item.induct)
  case (2 item outputs k ks out)
  let ?e = "item\<lparr>si_OutputCount := 0, si_CustomID := repeat_id (si_CustomID item) outputs k\<rparr>"
  from "2.prems" have new: "si_CustomID ?e \<notin> si_CustomID ` set out" and rest: "expand_item item outputs ks (out @ [?e]) = Some out'"
    by (simp_all add: Let_def split: if_splits)
  from "2.IH" [OF refl new rest] obtain es where es: "out' = (out @ [?e]) @ es" "length es = length ks" "list_all (copy_of item outputs) es"
    "distinct (map si_CustomID (out @ [?e])) \<longrightarrow> distinct (map si_CustomID out')" by blast
  moreover have "copy_of item outputs ?e" by (auto simp: copy_of_def)
  ultimately show ?case using new by (intro exI [of _ "?e # es"]) auto
qed simp

lemma repeat_id_ne [simp]: "cid \<noteq> [] \<Longrightarrow> repeat_id cid outputs k \<noteq> []"
  by (simp add: repeat_id_def)

lemma expanded_ok:
  assumes "list_all (copy_of item outputs) es"
    and "si_CustomID item \<noteq> []"
  shows "sum_list (map ref_count es) = ref_count item * int (length es)" "sum_list (map ref_bytes es) = ref_bytes item * int (length es)"
    "item_ok L model (item\<lparr>si_OutputCount := 0\<rparr>) \<Longrightarrow> list_all (item_ok L model) es"
  using assms
  by (induction es) (auto simp: copy_of_def ref_count_def ref_bytes_def item_ok_def algebra_simps)

lemma validate_item_ok:
  assumes "validate_item L model i item0 v = Inr v'" and "validation_ok L model v"
  shows "validation_ok L model v' \<and> vd_items v' \<noteq> []"
proof -
  define cid where "cid = (if trim_space (si_CustomID item0) = [] then ''item_'' @ pad_zeros 6 (i + 1) else trim_space (si_CustomID item0))"
  define outputs where "outputs = (if si_OutputCount item0 = 0 then 1 else si_OutputCount item0)"
  let ?item = "item0\<lparr>si_CustomID := cid, si_Prompt := trim_space (si_Prompt item0)\<rparr>"
  obtain item refs bytes where n: "normalizeBatchImageReferenceInputs model ?item = Inr (item, refs, bytes)"
    using assms(1) by (auto simp: validate_item_def Let_def cid_def outputs_def split: if_splits sum.splits prod.splits)
  then obtain items where e: "expand_item item outputs [1..outputs] (vd_items v) = Some items"
    using assms(1) by (auto simp: validate_item_def Let_def cid_def outputs_def split: if_splits option.splits)
  have v': "v' = \<lparr>vd_images = vd_images v + outputs, vd_references = vd_references v + refs * outputs,
      vd_bytes = vd_bytes v + bytes * outputs, vd_items = items\<rparr>"
    and checks: "1 \<le> outputs" "vd_images v + outputs \<le> maxOutputImagesPerJob L" "trim_space (si_Prompt item0) \<noteq> []"
      "int (length (trim_space (si_Prompt item0))) \<le> maxPromptChars L"
      "vd_references v + refs * outputs \<le> maxReferenceImagesPerJob L" "vd_bytes v + bytes * outputs \<le> maxReferenceInlineBytesPerJob L"
    using assms(1) n e by (auto simp: validate_item_def Let_def cid_def outputs_def split: if_splits)
  note n = normalize_inputs_ok [OF n]
  have cid: "cid \<noteq> []" by (simp add: cid_def)
  from expand_item_copies [OF e] obtain es where es: "items = vd_items v @ es" "int (length es) = outputs"
    "list_all (copy_of item outputs) es"
    "distinct (map si_CustomID (vd_items v)) \<longrightarrow> distinct (map si_CustomID items)"
    using checks(1) by auto
  have "si_CustomID item \<noteq> []" using n cid by simp
  note x = expanded_ok [OF es(3) this]
  have "item_ok L model (item\<lparr>si_OutputCount := 0\<rparr>)"
    using n cid checks(3,4) by (auto simp: item_ok_def ref_count_def)
  then have "list_all (item_ok L model) es" by (rule x(3))
  with x(1,2) n es checks assms(2) show ?thesis by (auto simp: validation_ok_def v')
qed

lemma validate_items_ok:
  "validate_items L model i items v = Inr v' \<Longrightarrow> validation_ok L model v \<Longrightarrow>
   validation_ok L model v' \<and> (items \<noteq> [] \<or> vd_items v \<noteq> [] \<longrightarrow> vd_items v' \<noteq> [])"
proof (induction L model i items v rule: validate_items.induct)
  case (2 L model i item items v)
  then obtain v1 where v1: "validate_item L model i item v = Inr v1" "validate_items L model (i + 1) items v1 = Inr v'"
    by (auto split: sum.splits)
  from validate_item_ok [OF v1(1) "2.prems"(2)] "2.IH" [OF v1] show ?case by blast
qed simp

text \<open>Property C22. A request that is accepted is within its limits: it names a model, its items have distinct
  identifiers, a prompt and one output each, at least one and at most as many as a job may have
  outputs, and each item's references and all of them together are within the limits for the
  model and the job, counted with the repetitions.\<close>
theorem accepted_request_ok:
  assumes "validateSubmitRequest L now_name req0 = Inr req"
  shows "sr_Model req \<noteq> [] \<and> (sr_Provider req = [] \<or> IsSupportedBatchImageProvider (sr_Provider req)) \<and>
    distinct (map si_CustomID (sr_Items req)) \<and> sr_Items req \<noteq> [] \<and> int (length (sr_Items req)) \<le> maxOutputImagesPerJob L \<and>
    list_all (item_ok L (sr_Model req)) (sr_Items req) \<and>
    sum_list (map ref_count (sr_Items req)) \<le> maxReferenceImagesPerJob L \<and>
    sum_list (map ref_bytes (sr_Items req)) \<le> maxReferenceInlineBytesPerJob L \<and> length (sr_TaskName req) \<le> 255"
proof -
  let ?v0 = "\<lparr>vd_images = 0, vd_references = 0, vd_bytes = 0, vd_items = []\<rparr>"
  have v0: "validation_ok L m ?v0" for m
    by (simp add: validation_ok_def maxOutputImagesPerJob_def maxReferenceImagesPerJob_def maxReferenceInlineBytesPerJob_def positive_or_def)
  obtain v where v: "validate_items L (trim_space (sr_Model req0)) 0 (sr_Items req0) ?v0 = Inr v" "sr_Items req0 \<noteq> []"
    and req: "sr_Items req = vd_items v" "sr_Model req = trim_space (sr_Model req0)" "sr_Model req \<noteq> []"
      "sr_Provider req = [] \<or> IsSupportedBatchImageProvider (sr_Provider req)" "length (sr_TaskName req) \<le> 255"
    using assms by (auto simp: validateSubmitRequest_def Let_def truncateBatchImageMessage_def split: if_splits sum.splits)
  from validate_items_ok [OF v(1) v0] v(2) req show ?thesis by (auto simp: validation_ok_def)
qed

subsection \<open>Messages cut in the middle of a character\<close>

lemma valid_xs: "ValidString (replicate n (CHR ''x'') @ s) = ValidString s"
proof (induction n)
  case (Suc n)
  have "rune_len (CHR ''x'' # r) = 1" for r by (simp add: rune_len_def byte_in_def)
  with Suc show ?case by (simp add: ValidString.simps [of "CHR ''x'' # _"])
qed simp

definition two_byte_char :: string where "two_byte_char = [CHR 0xC3, CHR 0xA9]"

lemma trim_xs: "trim_space (replicate n (CHR ''x'') @ two_byte_char) = replicate n (CHR ''x'') @ two_byte_char"
proof -
  have "find (\<lambda>w. w \<noteq> [] \<and> prefix w (replicate n (CHR ''x'') @ two_byte_char)) space_runes = None"
    by (cases n) (simp_all add: space_runes_def two_byte_char_def)
  moreover have "find (\<lambda>w. w \<noteq> [] \<and> prefix w (CHR 0xA9 # CHR 0xC3 # replicate n (CHR ''x''))) (map rev space_runes) = None"
    by (simp add: space_runes_def)
  ultimately show ?thesis
    by (simp add: trim_space_def trim_left_def trim_right_def strip_runes.simps two_byte_char_def)
qed

text \<open>Cutting a message to a number of bytes can break it: for every limit there is a text in
  UTF-8 whose truncation is no longer UTF-8, as in the task names, provider messages and error messages
  that are cut before they are stored in text columns.\<close>
theorem truncated_message_invalid:
  assumes "0 < limit"
  shows "\<exists>message. ValidString message \<and> \<not> ValidString (truncateBatchImageMessage message limit)"
proof -
  define n where "n = nat limit - 1"
  have limit: "nat limit = Suc n" "limit = int (Suc n)" using assms by (simp_all add: n_def)
  let ?m = "replicate n (CHR ''x'') @ two_byte_char"
  have valid: "ValidString ?m" "\<not> ValidString (replicate n (CHR ''x'') @ [CHR 0xC3])"
    unfolding valid_xs by code_simp+
  have "truncateBatchImageMessage ?m limit = replicate n (CHR ''x'') @ [CHR 0xC3]"
    by (simp add: truncateBatchImageMessage_def trim_xs limit) (simp add: two_byte_char_def nat_add_distrib)
  with valid show ?thesis by metis
qed

theorem truncated_message_invalid_witness:
  "\<exists>message. ValidString message \<and> \<not> ValidString (truncateBatchImageMessage message batchImageMaxErrorMessageLength)"
  by (rule truncated_message_invalid) (simp add: batchImageMaxErrorMessageLength_def)

subsection \<open>A sample request\<close>

definition batch_sample_limits :: batch_limits where
  "batch_sample_limits =
     \<lparr>bl_Enabled = True, bl_MaxItemsPerJobDefault = 0, bl_MaxOutputImagesPerJob = 0, bl_MaxOutputImagesPerItem = 0,
      bl_MaxPromptCharsPerItem = 0, bl_MaxReferenceImagesPerJob = 0, bl_MaxReferenceInlineBytesPerJob = 0,
      bl_DefaultResponseMimeType = [], bl_DefaultImageSize = []\<rparr>"

definition sample_request :: "string \<Rightarrow> BatchImageSubmitRequest" where
  "sample_request name =
     \<lparr>sr_Model = ''flash-image'', sr_TaskName = name, sr_ParentBatchID = [], sr_Provider = [],
      sr_Items = [\<lparr>si_CustomID = ''p'', si_Prompt = ''cat'', si_OutputCount = 2, si_ReferenceImages = []\<rparr>,
                  \<lparr>si_CustomID = [], si_Prompt = ''dog'', si_OutputCount = 0, si_ReferenceImages = []\<rparr>],
      sr_ResponseMimeType = [], sr_AspectRatio = [], sr_ImageSize = [], sr_Metadata = []\<rparr>"

definition accepted_sample :: "string \<Rightarrow> BatchImageSubmitRequest" where
  "accepted_sample name =
     \<lparr>sr_Model = ''flash-image'', sr_TaskName = name, sr_ParentBatchID = [], sr_Provider = [],
      sr_Items = [\<lparr>si_CustomID = ''p_01'', si_Prompt = ''cat'', si_OutputCount = 0, si_ReferenceImages = []\<rparr>,
                  \<lparr>si_CustomID = ''p_02'', si_Prompt = ''cat'', si_OutputCount = 0, si_ReferenceImages = []\<rparr>,
                  \<lparr>si_CustomID = ''item_000002'', si_Prompt = ''dog'', si_OutputCount = 0, si_ReferenceImages = []\<rparr>],
      sr_ResponseMimeType = ''image/png'', sr_AspectRatio = [], sr_ImageSize = ''1K'', sr_Metadata = []\<rparr>"

lemma sample_accepted: "validateSubmitRequest batch_sample_limits ''now'' (sample_request ''t'') = Inr (accepted_sample ''t'')"
  by code_simp

theorem accepted_request_ok_witness: "distinct (map si_CustomID (sr_Items (accepted_sample ''t'')))"
  using accepted_request_ok [OF sample_accepted] by blast

end
