(* ===== verification/Batch_Image_Service.thy ===== *)
theory Batch_Image_Service
  imports Batch_Image_Ledger Batch_Image_Queue Batch_Image_Request
begin

section \<open>Submitting, cancelling, processing and settling batch image jobs\<close>

text \<open>
  The services over the two repositories, as programs of calls and continuations:
  \<open>service/batch_image_billing_hold.go\<close>, \<open>batch_image_settlement.go\<close>, \<open>batch_image_billing_recovery.go\<close>,
  the pipeline part of \<open>batch_image_processor.go\<close> and, of \<open>batch_image_public.go\<close>, Submit and Cancel. Between two calls other requests and workers may act, and every
  call may fail. Logging, audit events, usage logs and the invalidation of the authentication cache
  do not influence the outcome and are left out.
\<close>

subsection \<open>Calls and programs\<close>

datatype batch_call =
    GetJob string
  | GetOwned int int string
  | CreateJob BatchImageJob
  | Transition string string "string option" "string option"
  | SaveOutputRef string string
  | SaveSubmit string string string string string string
  | RecordFailure string string string bool
  | MarkSettled string money string gotime gotime
  | SettlementFailed string string string
  | HideJob int int string
  | FailStale string gotime string string
  | MoveHold hold_op BatchImageBalanceHoldCommand
  | ReadClock
  | ReplaceItems string "index_item list" int int
  | CreateItems string "string list"
  | ListItems string
  | OpenResult string
  | ResolveAccount int
  | UpstreamSubmit string
  | UpstreamStatus string
  | UpstreamCancel string
  | UpstreamCleanup string
  | EnqueueJob string
  | UnitPrice string
  | CheckGroup
  | GetByKey int int string
  | SelectAccount string string
  | Quote BatchImageSubmitRequest string int
  | NewID

datatype BatchProviderInternalState = StateQueued | StateRunning | StateSucceeded | StateFailed | StateCancelled
  | StateExpired | StateOther

datatype batch_reply =
    RepJob BatchImageJob
  | RepTime gotime
  | RepMoved BatchImageBalanceHoldResult
  | RepCount int
  | RepApplied bool
  | RepIds "string list"
  | RepLines "string list" "go_error option"
  | RepSubmitted string string string
  | RepStatus BatchProviderInternalState string string string duration
  | RepNil
  | RepSelected string int
  | RepQuote money money money
  | RepID string
  | RepPrice money
  | RepOk
  | RepErr go_error

datatype 'a batch_prog = Finish 'a | Perform batch_call "batch_reply \<Rightarrow> 'a batch_prog"

text \<open>A reply of the wrong shape; no repository gives one.\<close>

definition unexpected :: go_error where
  "unexpected = Other ''unexpected reply''"

text \<open>One form per kind of reply: the error continuation first.\<close>

definition get_job :: "batch_call \<Rightarrow> (go_error \<Rightarrow> 'a batch_prog) \<Rightarrow> (BatchImageJob \<Rightarrow> 'a batch_prog) \<Rightarrow> 'a batch_prog" where
  "get_job c e k = Perform c (\<lambda>r. case r of RepJob j \<Rightarrow> k j | RepErr x \<Rightarrow> e x | _ \<Rightarrow> e unexpected)"

definition command :: "batch_call \<Rightarrow> (go_error \<Rightarrow> 'a batch_prog) \<Rightarrow> 'a batch_prog \<Rightarrow> 'a batch_prog" where
  "command c e k = Perform c (\<lambda>r. case r of RepOk \<Rightarrow> k | RepErr x \<Rightarrow> e x | _ \<Rightarrow> e unexpected)"

text \<open>A call whose outcome is ignored.\<close>

definition attempt :: "batch_call \<Rightarrow> 'a batch_prog \<Rightarrow> 'a batch_prog" where
  "attempt c k = Perform c (\<lambda>r. k)"

definition move_hold :: "hold_op \<Rightarrow> BatchImageBalanceHoldCommand \<Rightarrow> (go_error \<Rightarrow> 'a batch_prog) \<Rightarrow> 'a batch_prog \<Rightarrow> 'a batch_prog" where
  "move_hold op c e k = Perform (MoveHold op c) (\<lambda>r. case r of RepMoved m \<Rightarrow> k | RepErr x \<Rightarrow> e x | _ \<Rightarrow> e unexpected)"

definition read_clock :: "(gotime \<Rightarrow> 'a batch_prog) \<Rightarrow> 'a batch_prog" where
  "read_clock k = Perform ReadClock (\<lambda>r. case r of RepTime t \<Rightarrow> k t | _ \<Rightarrow> k 0)"

subsection \<open>Holds of a job\<close>


definition batchImageDerefString :: "string option \<Rightarrow> string" where
  "batchImageDerefString v = (case v of None \<Rightarrow> [] | Some s \<Rightarrow> trim_space s)"

definition reserveBatchImageBalanceHold ::
    "BatchImageJob \<Rightarrow> string \<Rightarrow> (go_error \<Rightarrow> 'a batch_prog) \<Rightarrow> 'a batch_prog \<Rightarrow> 'a batch_prog" where
  "reserveBatchImageBalanceHold j payload e k =
     (case buildBatchImageHoldCommand j (BatchImageHoldRequestID (bj_BatchID j)) 0 payload of
        Inl x \<Rightarrow> e (App x)
      | Inr c \<Rightarrow>
          if hc_HoldAmount c \<le> 0 then k
          else move_hold Reserve c
            (\<lambda>x. e (App (if x = App ErrBatchImageInsufficientBalance then ErrBatchImageInsufficientBalance
                         else ErrBatchImageBillingHoldFailed))) k)"

definition captureBatchImageBalanceHold ::
    "BatchImageJob \<Rightarrow> money \<Rightarrow> string \<Rightarrow> (go_error \<Rightarrow> 'a batch_prog) \<Rightarrow> 'a batch_prog \<Rightarrow> 'a batch_prog" where
  "captureBatchImageBalanceHold j actual payload e k =
     (case buildBatchImageHoldCommand j (BatchImageCaptureRequestID (bj_BatchID j)) actual payload of
        Inl x \<Rightarrow> e (App x)
      | Inr c \<Rightarrow> move_hold Capture c (\<lambda>x. e (App ErrBatchImageSettlementBillingFailed)) k)"

definition releaseBatchImageBalanceHold ::
    "BatchImageJob \<Rightarrow> string \<Rightarrow> (go_error \<Rightarrow> 'a batch_prog) \<Rightarrow> 'a batch_prog \<Rightarrow> 'a batch_prog" where
  "releaseBatchImageBalanceHold j payload e k =
     (case buildBatchImageHoldCommand j (BatchImageReleaseRequestID (bj_BatchID j)) 0 payload of
        Inl x \<Rightarrow> e (App x)
      | Inr c \<Rightarrow>
          if hc_HoldAmount c \<le> 0 then k
          else move_hold Release c
            (\<lambda>x. if x = ErrUsageBillingRequestConflict then k else e (App ErrBatchImageBillingHoldFailed)) k)"

subsection \<open>Settlement\<close>

definition batchImageSettlementMaxRetries :: int where "batchImageSettlementMaxRetries = 5"
definition batchImageCostEpsilon :: money where "batchImageCostEpsilon = 100"

text \<open>What the services are built over and configured with: the digest, the JSON decoder, the text of an error,
  the registered providers, the retention in hours and the delays.\<close>

record batch_env =
  be_sha :: "string \<Rightarrow> string"
  be_decode :: "string \<Rightarrow> go_object option"
  be_providers :: "string list"
  be_error_text :: "go_error \<Rightarrow> string"
  be_OutputRetentionAfterTerminalHours :: int
  be_DefaultRequeue :: duration
  be_RetryDelay :: duration

record BatchImageSettlementResult =
  st_BatchID :: string
  st_SuccessCount :: int
  st_FailCount :: int
  st_ActualCost :: money
  st_ManifestHash :: string
  st_RequestID :: string
  st_AlreadySettled :: bool

definition BuildBatchImageSettlementManifestHash :: "(string \<Rightarrow> string) \<Rightarrow> BatchImageJob \<Rightarrow> string" where
  "BuildBatchImageSettlementManifestHash sha j =
     sha (concat (map (\<lambda>(i, p). if i = (0 :: nat) then p else CHR 0x00 # p) (enumerate 0
       [trim_space (bj_BatchID j), trim_space (bj_Provider j), trim_space (bj_Model j),
        batchImageDerefString (bj_ProviderJobName j), batchImageDerefString (bj_ProviderOutputRef j),
        Itoa (bj_SuccessCount j), Itoa (bj_FailCount j), Itoa (bj_ItemCount j)])))"

definition isBatchImageSettlementRetryExhausted :: "BatchImageJob \<Rightarrow> bool" where
  "isBatchImageSettlementRetryExhausted j =
     (bj_Status j = StatusSettling \<and> batchImageSettlementMaxRetries \<le> bj_RetryCount j \<and>
      has_prefix (batchImageDerefString (bj_LastErrorCode j)) ''SETTLEMENT_'')"

definition failExhaustedSettlement :: "batch_env \<Rightarrow> BatchImageJob \<Rightarrow> string \<Rightarrow> (go_error + 'r) batch_prog" where
  "failExhaustedSettlement E j message =
     releaseBatchImageBalanceHold j (batchImageDerefString (bj_RequestHash j))
       (\<lambda>x. attempt (SettlementFailed (bj_BatchID j) ''SETTLEMENT_RELEASE_FAILED''
                  (truncateBatchImageMessage (be_error_text E x) batchImageMaxErrorMessageLength))
              (Finish (Inl (App ErrBatchImageSettlementBillingFailed))))
       (let msg = (if trim_space message = [] then ''settlement billing retry limit reached'' else trim_space message)
        in command (Transition (bj_BatchID j) StatusFailed (Some ''SETTLEMENT_BILLING_RETRY_EXHAUSTED'') (Some msg))
             (\<lambda>x. Finish (Inl x)) (Finish (Inl (App ErrBatchImageSettlementBillingFailed))))"

text \<open>Record a failure; after the last retry give up, else end with the error.\<close>

definition recordSettlementFailure ::
    "batch_env \<Rightarrow> BatchImageJob \<Rightarrow> string \<Rightarrow> string \<Rightarrow> go_error \<Rightarrow> (go_error + 'r) batch_prog" where
  "recordSettlementFailure E j code message err =
     Perform (SettlementFailed (bj_BatchID j) code (truncateBatchImageMessage message batchImageMaxErrorMessageLength))
       (\<lambda>r. case r of
          RepCount n \<Rightarrow>
            if batchImageSettlementMaxRetries \<le> n
            then failExhaustedSettlement E (j\<lparr>bj_RetryCount := n, bj_LastErrorCode := Some code\<rparr>) message
            else Finish (Inl err)
        | _ \<Rightarrow> Finish (Inl err))"

definition settlementUnitPrice ::
    "BatchImageJob \<Rightarrow> (go_error \<Rightarrow> 'a batch_prog) \<Rightarrow> (money \<Rightarrow> 'a batch_prog) \<Rightarrow> 'a batch_prog" where
  "settlementUnitPrice j e k =
     (if 1 \<le> bj_PricingSnapshotVersion j then
        (if bj_BillableUnitPrice j < 0 then e (App ErrBatchImageSettlementPricingMissing) else k (bj_BillableUnitPrice j))
      else Perform (UnitPrice (bj_BatchID j)) (\<lambda>r. case r of RepPrice p \<Rightarrow> k p | RepErr x \<Rightarrow> e x | _ \<Rightarrow> e unexpected))"

definition outputRetentionAfterTerminal :: "batch_env \<Rightarrow> duration" where
  "outputRetentionAfterTerminal E =
     (if 0 < be_OutputRetentionAfterTerminalHours E then wrap64 (be_OutputRetentionAfterTerminalHours E * hour) else 72 * hour)"

text \<open>The part after the price is known: check the hold, capture, and mark the job settled.\<close>

definition settle_at ::
    "batch_env \<Rightarrow> BatchImageJob \<Rightarrow> BatchImageSettlementResult \<Rightarrow> money \<Rightarrow> (go_error + BatchImageSettlementResult) batch_prog" where
  "settle_at E j result unitPrice =
     (let cost = bj_SuccessCount j * unitPrice
      in if batchImageCostEpsilon < cost - hold_amount j then
           recordSettlementFailure E j ''SETTLEMENT_COST_EXCEEDS_HOLD''
             (''actual cost '' @ money_text cost @ '' exceeds held amount '' @ money_text (hold_amount j))
             (App ErrBatchImageSettlementCostExceedsHold)
         else captureBatchImageBalanceHold j cost (st_ManifestHash result)
           (\<lambda>x. recordSettlementFailure E j ''SETTLEMENT_BILLING_FAILED''
                 (truncateBatchImageMessage (be_error_text E x) batchImageMaxErrorMessageLength) x)
           (read_clock (\<lambda>now.
              command (MarkSettled (bj_BatchID j) cost (st_ManifestHash result) now (now + outputRetentionAfterTerminal E))
                (\<lambda>x. Finish (Inl x)) (Finish (Inr (result\<lparr>st_ActualCost := cost\<rparr>))))))"

definition settle_job :: "batch_env \<Rightarrow> BatchImageJob \<Rightarrow> (go_error + BatchImageSettlementResult) batch_prog" where
  "settle_job E j =
     (let manifest = BuildBatchImageSettlementManifestHash (be_sha E) j;
          result = \<lparr>st_BatchID = bj_BatchID j, st_SuccessCount = bj_SuccessCount j, st_FailCount = bj_FailCount j,
                    st_ActualCost = (case bj_ActualCost j of None \<Rightarrow> 0 | Some a \<Rightarrow> a), st_ManifestHash = manifest,
                    st_RequestID = BatchImageCaptureRequestID (bj_BatchID j), st_AlreadySettled = False\<rparr>
      in if bj_Status j = StatusCompleted then Finish (Inr (result\<lparr>st_AlreadySettled := True\<rparr>))
         else if bj_Status j \<noteq> StatusSettling then Finish (Inl (App ErrBatchImageSettlementInvalidStatus))
         else if bj_APIKeyID j = None \<or> the (bj_APIKeyID j) \<le> 0 then Finish (Inl (App ErrBatchImageSettlementMissingAPIKeyID))
         else if bj_AccountID j = None \<or> the (bj_AccountID j) \<le> 0 then Finish (Inl (App ErrBatchImageSettlementMissingAccountID))
         else if isBatchImageSettlementRetryExhausted j then
           failExhaustedSettlement E j (''settlement retry limit reached: '' @ batchImageDerefString (bj_LastErrorCode j))
         else if bj_SuccessCount j < 0 \<or> bj_FailCount j < 0 \<or> bj_ItemCount j < 0 \<or> bj_ItemCount j < bj_SuccessCount j + bj_FailCount j then
           recordSettlementFailure E j ''SETTLEMENT_INVALID_COUNTS''
             (''success='' @ Itoa (bj_SuccessCount j) @ '' fail='' @ Itoa (bj_FailCount j) @ '' item_count='' @ Itoa (bj_ItemCount j))
             (App ErrBatchImageSettlementInvalidCounts)
         else if batchImageDerefString (bj_ManifestHash j) \<noteq> [] \<and> batchImageDerefString (bj_ManifestHash j) \<noteq> manifest then
           recordSettlementFailure E j ''SETTLEMENT_MANIFEST_CONFLICT'' ''manifest hash conflict''
             (App ErrBatchImageSettlementManifestConflict)
         else settlementUnitPrice j
           (\<lambda>x. recordSettlementFailure E j ''SETTLEMENT_PRICING_MISSING'' (be_error_text E x) x)
           (\<lambda>price.
              if price < 0 then
                recordSettlementFailure E j ''SETTLEMENT_PRICING_MISSING''
                  (be_error_text E (App ErrBatchImageSettlementPricingMissing)) (App ErrBatchImageSettlementPricingMissing)
              else settle_at E j result price))"

definition Settle :: "batch_env \<Rightarrow> string \<Rightarrow> (go_error + BatchImageSettlementResult) batch_prog" where
  "Settle E b = get_job (GetJob b) (\<lambda>x. Finish (Inl x)) (settle_job E)"


subsection \<open>Processing\<close>

definition defaultBatchImageProcessorRequeue :: duration where "defaultBatchImageProcessorRequeue = 30 * second"
definition batchImageProviderErrorRequeue :: duration where "batchImageProviderErrorRequeue = minute"
definition batchImageSettlementRetryDelay :: duration where "batchImageSettlementRetryDelay = minute"

definition requeue :: "duration \<Rightarrow> (go_error + BatchImageProcessResult) batch_prog" where
  "requeue d = Finish (Inr \<lparr>rs_RequeueAfter = d, rs_Terminal = False\<rparr>)"

definition terminal :: "(go_error + BatchImageProcessResult) batch_prog" where
  "terminal = Finish (Inr \<lparr>rs_RequeueAfter = 0, rs_Terminal = True\<rparr>)"

definition give_up :: "go_error \<Rightarrow> (go_error + 'r) batch_prog" where
  "give_up e = Finish (Inl e)"

definition isBatchImageProcessorDoneStatus :: "string \<Rightarrow> bool" where
  "isBatchImageProcessorDoneStatus s = (s = StatusSettling \<or> IsTerminalBatchImageJobStatus s)"

definition requeueDelay :: "batch_env \<Rightarrow> duration \<Rightarrow> duration" where
  "requeueDelay E suggested =
     (if 0 < suggested then suggested
      else if 0 < be_DefaultRequeue E then be_DefaultRequeue E else defaultBatchImageProcessorRequeue)"

definition releaseTerminalHold :: "BatchImageJob \<Rightarrow> (go_error \<Rightarrow> 'a batch_prog) \<Rightarrow> 'a batch_prog \<Rightarrow> 'a batch_prog" where
  "releaseTerminalHold j e k =
     (if bj_Status j \<noteq> StatusFailed \<and> bj_Status j \<noteq> StatusCancelled then k
      else releaseBatchImageBalanceHold j (batchImageDerefString (bj_RequestHash j)) e k)"

definition persistProviderOutputRef ::
    "BatchImageJob \<Rightarrow> string \<Rightarrow> (go_error \<Rightarrow> 'a batch_prog) \<Rightarrow> (BatchImageJob \<Rightarrow> 'a batch_prog) \<Rightarrow> 'a batch_prog" where
  "persistProviderOutputRef j raw e k =
     (let ref = trim_space raw
      in if ref = [] \<or> batchImageDerefString (bj_ProviderOutputRef j) = ref then k j
         else command (SaveOutputRef (bj_BatchID j) ref) e (k (j\<lparr>bj_ProviderOutputRef := Some ref\<rparr>)))"

text \<open>The indexer: the submitted identifiers, the output, and the items that replace them.\<close>

definition Index ::
    "batch_env \<Rightarrow> BatchImageJob \<Rightarrow> (go_error \<Rightarrow> 'a batch_prog) \<Rightarrow> 'a batch_prog \<Rightarrow> 'a batch_prog" where
  "Index E j e k =
     Perform (ListItems (bj_BatchID j)) (\<lambda>r. case r of
        RepIds expected \<Rightarrow>
          Perform (OpenResult (bj_BatchID j)) (\<lambda>r. case r of
             RepLines raws scan_error \<Rightarrow>
               (case Index_results (be_decode E) expected raws scan_error of
                  Inl x \<Rightarrow> e x
                | Inr (items, s, f) \<Rightarrow> command (ReplaceItems (bj_BatchID j) items s f) e k)
           | _ \<Rightarrow> e (App ErrBatchImageIndexOutputMissing))
      | RepErr x \<Rightarrow> e x
      | _ \<Rightarrow> e unexpected)"

definition fail_and_release ::
    "BatchImageJob \<Rightarrow> string \<Rightarrow> string option \<Rightarrow> string option \<Rightarrow> (go_error + BatchImageProcessResult) batch_prog" where
  "fail_and_release j s code msg =
     command (Transition (bj_BatchID j) s code msg) give_up
       (releaseTerminalHold (j\<lparr>bj_Status := s\<rparr>) give_up terminal)"

definition indexAndSettle :: "batch_env \<Rightarrow> BatchImageJob \<Rightarrow> (go_error + BatchImageProcessResult) batch_prog" where
  "indexAndSettle E j =
     Index E j
       (\<lambda>x. if x = App ErrBatchImageIndexOutputMissing then give_up x
            else if x = App ErrBatchImageIndexStateConflict then requeue millisecond
            else fail_and_release j StatusFailed
              (Some (if x = App ErrBatchImageDuplicateCustomID then ''DUPLICATE_CUSTOM_ID_IN_OUTPUT'' else ''INDEX_PARSE_FAILED''))
              (batchImageOptionalStringPtr (truncateBatchImageMessage (be_error_text E x) batchImageMaxErrorMessageLength)))
       (command (Transition (bj_BatchID j) StatusSettling None None) give_up (requeue millisecond))"

definition failure_code :: "BatchProviderInternalState \<Rightarrow> string \<Rightarrow> string" where
  "failure_code st raw =
     (let code = trim_space raw
      in if code \<noteq> [] then code else if st = StateExpired then ''PROVIDER_BATCH_EXPIRED'' else ''PROVIDER_BATCH_FAILED'')"

definition provider_step ::
    "batch_env \<Rightarrow> BatchImageJob \<Rightarrow> BatchProviderInternalState \<Rightarrow> string \<Rightarrow> string \<Rightarrow> duration \<Rightarrow> (go_error + BatchImageProcessResult) batch_prog" where
  "provider_step E j st code message suggested =
     (case st of
        StateQueued \<Rightarrow> requeue (requeueDelay E suggested)
      | StateRunning \<Rightarrow>
          if bj_Status j \<noteq> StatusRunning
          then command (Transition (bj_BatchID j) StatusRunning None None) give_up (requeue (requeueDelay E suggested))
          else requeue (requeueDelay E suggested)
      | StateSucceeded \<Rightarrow>
          if bj_Status j \<noteq> StatusIndexing
          then command (Transition (bj_BatchID j) StatusIndexing None None) give_up (indexAndSettle E (j\<lparr>bj_Status := StatusIndexing\<rparr>))
          else indexAndSettle E j
      | StateFailed \<Rightarrow> fail_and_release j StatusFailed (Some (failure_code st code))
          (batchImageOptionalStringPtr (truncateBatchImageMessage message batchImageMaxErrorMessageLength))
      | StateExpired \<Rightarrow> fail_and_release j StatusFailed (Some (failure_code st code))
          (batchImageOptionalStringPtr (truncateBatchImageMessage message batchImageMaxErrorMessageLength))
      | StateCancelled \<Rightarrow> fail_and_release j StatusCancelled None None
      | StateOther \<Rightarrow> requeue (requeueDelay E suggested))"

definition process_job :: "batch_env \<Rightarrow> BatchImageJob \<Rightarrow> (go_error + BatchImageProcessResult) batch_prog" where
  "process_job E j =
     (if isBatchImageProcessorDoneStatus (bj_Status j) then releaseTerminalHold j give_up terminal
      else if bj_Provider j \<notin> set (be_providers E) then give_up (App ErrBatchImageUnsupportedProvider)
      else case bj_AccountID j of
             None \<Rightarrow> give_up (App ErrBatchImageMissingAccountID)
           | Some account \<Rightarrow>
               if account \<le> 0 then give_up (App ErrBatchImageMissingAccountID)
               else Perform (ResolveAccount account) (\<lambda>r. case r of
                 RepErr x \<Rightarrow> give_up x
               | RepApplied supported \<Rightarrow>
                   if \<not> supported then give_up (App ErrBatchImageProviderUnsupportedAccount)
                   else if batchImageDerefString (bj_ProviderJobName j) = [] then give_up (App ErrBatchImageMissingProviderJobName)
                   else if bj_Status j = StatusIndexing then indexAndSettle E j
                   else Perform (UpstreamStatus (bj_BatchID j)) (\<lambda>r. case r of
                     RepErr x \<Rightarrow> requeue batchImageProviderErrorRequeue
                   | RepStatus st code message ref suggested \<Rightarrow>
                       persistProviderOutputRef j ref give_up
                         (\<lambda>u. provider_step E u st code message suggested)
                   | _ \<Rightarrow> requeue (requeueDelay E 0))
               | _ \<Rightarrow> give_up unexpected))"

definition Process_provider :: "batch_env \<Rightarrow> string \<Rightarrow> (go_error + BatchImageProcessResult) batch_prog" where
  "Process_provider E b = get_job (GetJob b) give_up (process_job E)"

primrec bind_prog :: "'a batch_prog \<Rightarrow> ('a \<Rightarrow> 'b batch_prog) \<Rightarrow> 'b batch_prog" where
  "bind_prog (Finish x) k = k x"
| "bind_prog (Perform c f) k = Perform c (\<lambda>r. bind_prog (f r) k)"

definition retry_delay :: "batch_env \<Rightarrow> duration" where
  "retry_delay E = (if 0 < be_RetryDelay E then be_RetryDelay E else batchImageSettlementRetryDelay)"

definition Process_pipeline :: "batch_env \<Rightarrow> string \<Rightarrow> (go_error + BatchImageProcessResult) batch_prog" where
  "Process_pipeline E b =
     get_job (GetJob b) give_up
       (\<lambda>j. if bj_Status j = StatusSettling then
              bind_prog (Settle E b)
                (\<lambda>x. case x of
                   Inr r \<Rightarrow> terminal
                 | Inl e \<Rightarrow>
                     if e = App ErrBatchImageSettlementBillingFailed then
                       get_job (GetJob b) (\<lambda>y. requeue (retry_delay E))
                         (\<lambda>u. if IsTerminalBatchImageJobStatus (bj_Status u) then terminal else requeue (retry_delay E))
                     else give_up e)
            else Process_provider E b)"

subsection \<open>Submitting\<close>

definition maxBatchImagePublicErrorChars :: nat where "maxBatchImagePublicErrorChars = 500"

definition sanitizeBatchImagePublicMessage :: "string \<Rightarrow> string" where
  "sanitizeBatchImagePublicMessage message =
     take maxBatchImagePublicErrorChars
       (let m = trim_space message
        in if list_ex (contains m) [''gs://'', ''files/'', ''projects/''] then ''upstream provider operation failed'' else m)"

definition batchImageGCSRef :: "string \<Rightarrow> string \<Rightarrow> string" where
  "batchImageGCSRef provider ref =
     (if provider = BatchImageProviderVertex \<and> has_prefix (trim_space ref) ''gs://'' then trim_space ref else [])"

definition batchImageProviderSubmitPublicError :: "go_error \<Rightarrow> ApplicationError" where
  "batchImageProviderSubmitPublicError err =
     (let reason = trim_space (Reason err)
      in if reason = ''VERTEX_MANAGED_GCS_BUCKET_MISSING'' then ErrBatchImageVertexGCSBucketMissing
         else if reason = ''BATCH_IMAGE_PROVIDER_MISSING_API_KEY'' then ErrBatchImageProviderMissingAPIKey
         else if reason = ''BATCH_IMAGE_PROVIDER_MISSING_SERVICE_ACCOUNT'' then ErrBatchImageProviderMissingServiceAccount
         else if reason = ''BATCH_IMAGE_PROVIDER_UNSUPPORTED_ACCOUNT'' then ErrBatchImageProviderUnsupportedAccount
         else ErrBatchImageProviderSubmitFailed)"

definition batchImageProviderSubmitRecordCode :: "go_error \<Rightarrow> string" where
  "batchImageProviderSubmitRecordCode err =
     (let reason = trim_space (Reason err)
      in if reason = [] \<or> reason = ''BATCH_IMAGE_PROVIDER_SUBMIT_FAILED'' then ''PROVIDER_SUBMIT_FAILED'' else reason)"

definition note_submit_failure :: "batch_env \<Rightarrow> string \<Rightarrow> string \<Rightarrow> go_error \<Rightarrow> bool \<Rightarrow> 'a batch_prog \<Rightarrow> 'a batch_prog" where
  "note_submit_failure E b code x mark k =
     attempt (RecordFailure b code (sanitizeBatchImagePublicMessage (be_error_text E x)) mark) k"

definition hidePreUpstreamSubmitFailure :: "int \<Rightarrow> int \<Rightarrow> BatchImageJob \<Rightarrow> 'a batch_prog \<Rightarrow> 'a batch_prog" where
  "hidePreUpstreamSubmitFailure user key j k =
     (if bj_ProviderJobName j \<noteq> None then k else attempt (HideJob user key (bj_BatchID j)) k)"

definition releaseFailedSubmitHold ::
    "batch_env \<Rightarrow> BatchImageJob \<Rightarrow> string \<Rightarrow> (go_error + 'r) batch_prog \<Rightarrow> (go_error + 'r) batch_prog" where
  "releaseFailedSubmitHold E j requestHash k =
     releaseBatchImageBalanceHold j requestHash
       (\<lambda>x. note_submit_failure E (bj_BatchID j) ''BILLING_RELEASE_FAILED'' x True
              (attempt (EnqueueJob (bj_BatchID j)) (give_up (App ErrBatchImageBillingHoldFailed)))) k"

text \<open>Enqueue a job; that it is queued already is no error.\<close>

definition enqueue_job :: "string \<Rightarrow> (go_error \<Rightarrow> 'a batch_prog) \<Rightarrow> 'a batch_prog \<Rightarrow> 'a batch_prog" where
  "enqueue_job b e k =
     Perform (EnqueueJob b) (\<lambda>r. case r of RepErr x \<Rightarrow> if x = App ErrBatchImageAlreadyQueued then k else e x | _ \<Rightarrow> k)"

definition submitted ::
    "batch_env \<Rightarrow> BatchImageJob \<Rightarrow> string \<Rightarrow> string \<Rightarrow> string \<Rightarrow> (go_error + BatchImageJob) batch_prog" where
  "submitted E j name inputRef outputRef =
     command (SaveSubmit (bj_BatchID j) name inputRef outputRef
                (batchImageGCSRef (bj_Provider j) inputRef) (batchImageGCSRef (bj_Provider j) outputRef))
       (\<lambda>x. attempt (UpstreamCancel (bj_BatchID j)) (attempt (UpstreamCleanup (bj_BatchID j)) (give_up x)))
       (enqueue_job (bj_BatchID j)
          (\<lambda>x. note_submit_failure E (bj_BatchID j) ''QUEUE_FAILED'' x False (give_up (App ErrBatchImageQueueFailed)))
          (get_job (GetJob (bj_BatchID j)) give_up (\<lambda>created. Finish (Inr created))))"

definition submit_upstream ::
    "batch_env \<Rightarrow> int \<Rightarrow> int \<Rightarrow> BatchImageJob \<Rightarrow> string \<Rightarrow> (go_error + BatchImageJob) batch_prog" where
  "submit_upstream E user key j requestHash =
     Perform (UpstreamSubmit (bj_BatchID j)) (\<lambda>r.
       let nameless = releaseFailedSubmitHold E j requestHash
             (attempt (RecordFailure (bj_BatchID j) ''PROVIDER_SUBMIT_FAILED'' ''provider job name missing'' True)
                (hidePreUpstreamSubmitFailure user key j (give_up (App ErrBatchImageProviderSubmitFailed))))
       in case r of
            RepErr x \<Rightarrow> releaseFailedSubmitHold E j requestHash
              (note_submit_failure E (bj_BatchID j) (batchImageProviderSubmitRecordCode (App (batchImageProviderSubmitPublicError x))) x True
                 (hidePreUpstreamSubmitFailure user key j (give_up (App (batchImageProviderSubmitPublicError x)))))
          | RepSubmitted name inputRef outputRef \<Rightarrow>
              if trim_space name = [] then nameless else submitted E j name inputRef outputRef
          | _ \<Rightarrow> nameless)"

definition submit_created ::
    "batch_env \<Rightarrow> int \<Rightarrow> int \<Rightarrow> BatchImageJob \<Rightarrow> string \<Rightarrow> string list \<Rightarrow> (go_error + BatchImageJob) batch_prog" where
  "submit_created E user key j requestHash ids =
     reserveBatchImageBalanceHold j requestHash
       (\<lambda>x. note_submit_failure E (bj_BatchID j)
              (if x = App ErrBatchImageInsufficientBalance then ''INSUFFICIENT_BALANCE'' else ''BILLING_HOLD_FAILED'') x True
              (hidePreUpstreamSubmitFailure user key j (give_up x)))
       (command (CreateItems (bj_BatchID j) ids)
          (\<lambda>x. releaseFailedSubmitHold E j requestHash
             (note_submit_failure E (bj_BatchID j) ''ITEM_CREATE_FAILED'' x True
                (hidePreUpstreamSubmitFailure user key j (give_up (App ErrBatchImageQueueFailed)))))
          (command (Transition (bj_BatchID j) StatusUploading None None)
             (\<lambda>x. releaseFailedSubmitHold E j requestHash
                (if x = App ErrBatchImageInvalidTransition then give_up x
                 else note_submit_failure E (bj_BatchID j) ''UPLOAD_TRANSITION_FAILED'' x True
                        (hidePreUpstreamSubmitFailure user key j (give_up x))))
             (submit_upstream E user key (j\<lparr>bj_Status := StatusUploading\<rparr>) requestHash)))"

text \<open>From the insertion of the job on; the request was validated, routed and priced before.\<close>

definition Submit_tail ::
    "batch_env \<Rightarrow> BatchImageJob \<Rightarrow> string \<Rightarrow> string list \<Rightarrow> (go_error + BatchImageJob) batch_prog" where
  "Submit_tail E params requestHash ids =
     get_job (CreateJob params) give_up
       (\<lambda>j. submit_created E (bj_UserID params) (the (bj_APIKeyID params)) j requestHash ids)"

text \<open>
  Before that: the request is validated, the group asked, a repetition answered, an account chosen, the
  price quoted, the parent looked up and an identifier drawn. \<open>now_name\<close> is the current time as a name.
\<close>

definition new_job ::
    "int \<Rightarrow> int \<Rightarrow> string \<Rightarrow> int \<Rightarrow> string \<Rightarrow> BatchImageSubmitRequest \<Rightarrow> money \<Rightarrow> money \<Rightarrow> money \<Rightarrow> string \<Rightarrow> BatchImageJob" where
  "new_job user key provider account b req unit estimated hold requestHash =
     \<lparr>bj_BatchID = b, bj_UserID = user, bj_APIKeyID = Some key, bj_AccountID = Some account, bj_Provider = provider,
      bj_Model = sr_Model req, bj_Status = StatusCreated, bj_ProviderJobName = None, bj_ProviderInputRef = None,
      bj_ProviderOutputRef = None, bj_GCSInputURI = None, bj_GCSOutputURI = None, bj_ItemCount = int (length (sr_Items req)),
      bj_SuccessCount = 0, bj_FailCount = 0, bj_EstimatedCost = estimated, bj_HoldAmount = Some hold, bj_ActualCost = None,
      bj_BillableUnitPrice = unit, bj_PricingSnapshotVersion = 1, bj_RequestHash = Some requestHash, bj_ManifestHash = None,
      bj_RetryCount = 0, bj_Version = 0, bj_OutputExpiresAt = None, bj_InputDeletedAt = None, bj_OutputDeletedAt = None,
      bj_DownloadedAt = None, bj_UserDeletedAt = None, bj_LastErrorCode = None, bj_LastErrorMessage = None, bj_UpdatedAt = 0,
      bj_SubmittedAt = None, bj_StartedAt = None, bj_FinishedAt = None, bj_SettledAt = None\<rparr>"

definition submit_quoted ::
    "batch_env \<Rightarrow> int \<Rightarrow> int \<Rightarrow> BatchImageSubmitRequest \<Rightarrow> string \<Rightarrow> string \<Rightarrow> int \<Rightarrow> money \<Rightarrow> money \<Rightarrow> money \<Rightarrow>
     (go_error + BatchImageJob) batch_prog" where
  "submit_quoted E user key req requestHash provider account unit estimated hold =
     (let fresh = Perform NewID (\<lambda>r. case r of
             RepID b \<Rightarrow> Submit_tail E (new_job user key provider account b req unit estimated hold requestHash) requestHash
                          (map si_CustomID (sr_Items req))
           | RepErr x \<Rightarrow> give_up x
           | _ \<Rightarrow> give_up unexpected)
      in if trim_space (sr_ParentBatchID req) = [] then fresh
         else get_job (GetOwned user key (trim_space (sr_ParentBatchID req))) give_up (\<lambda>parent. fresh))"

definition submit_new ::
    "batch_env \<Rightarrow> int \<Rightarrow> int \<Rightarrow> BatchImageSubmitRequest \<Rightarrow> string \<Rightarrow> (go_error + BatchImageJob) batch_prog" where
  "submit_new E user key req requestHash =
     Perform (SelectAccount (sr_Provider req) (sr_Model req)) (\<lambda>r. case r of
        RepSelected provider account \<Rightarrow>
          Perform (Quote req provider account) (\<lambda>r. case r of
             RepQuote unit estimated hold \<Rightarrow> submit_quoted E user key req requestHash provider account unit estimated hold
           | RepErr x \<Rightarrow> give_up x
           | _ \<Rightarrow> give_up unexpected)
      | RepErr x \<Rightarrow> give_up x
      | _ \<Rightarrow> give_up unexpected)"

definition submit_replay :: "batch_env \<Rightarrow> BatchImageJob \<Rightarrow> string \<Rightarrow> (go_error + BatchImageJob) batch_prog" where
  "submit_replay E existing requestHash =
     (if batchImageDerefString (bj_RequestHash existing) \<noteq> requestHash then give_up (App ErrBatchImageIdempotencyConflict)
      else if bj_Status existing = StatusSubmitted then
        enqueue_job (bj_BatchID existing)
          (\<lambda>x. note_submit_failure E (bj_BatchID existing) ''QUEUE_FAILED'' x False (give_up (App ErrBatchImageQueueFailed)))
          (Finish (Inr existing))
      else Finish (Inr existing))"

definition Submit ::
    "batch_env \<Rightarrow> batch_limits \<Rightarrow> string \<Rightarrow> (BatchImageSubmitRequest \<Rightarrow> string) \<Rightarrow> int \<Rightarrow> int \<Rightarrow> BatchImageSubmitRequest \<Rightarrow> string \<Rightarrow>
     (go_error + BatchImageJob) batch_prog" where
  "Submit E L now_name digest user key req0 idempotencyKey =
     (if \<not> bl_Enabled L then give_up (App ErrBatchImageDisabled)
      else case validateSubmitRequest L now_name req0 of
             Inl e \<Rightarrow> give_up (App e)
           | Inr req \<Rightarrow>
               command CheckGroup give_up
                 (let requestHash = HashBatchImageSubmitRequest digest req
                  in if trim_space idempotencyKey = [] then submit_new E user key req requestHash
                     else Perform (GetByKey user key (trim_space idempotencyKey)) (\<lambda>r. case r of
                            RepJob existing \<Rightarrow> submit_replay E existing requestHash
                          | RepErr x \<Rightarrow> if x = App ErrBatchImageJobNotFound then submit_new E user key req requestHash else give_up x
                          | _ \<Rightarrow> give_up unexpected)))"

subsection \<open>Cancelling and recovering\<close>

definition release_or_retry :: "BatchImageJob \<Rightarrow> (go_error + 'r) batch_prog \<Rightarrow> (go_error + 'r) batch_prog" where
  "release_or_retry j k =
     releaseBatchImageBalanceHold j (batchImageDerefString (bj_RequestHash j))
       (\<lambda>x. attempt (EnqueueJob (bj_BatchID j)) (give_up (App ErrBatchImageCancelFailed))) k"

definition Cancel :: "batch_env \<Rightarrow> int \<Rightarrow> int \<Rightarrow> string \<Rightarrow> (go_error + BatchImageJob) batch_prog" where
  "Cancel E user key b =
     get_job (GetOwned user key b) give_up (\<lambda>j.
       let again = get_job (GetOwned user key b) give_up (\<lambda>u. Finish (Inr u));
           failed = (\<lambda>x. give_up (App ErrBatchImageCancelFailed))
       in if isBatchImageProcessorDoneStatus (bj_Status j) then
            (if bj_Status j = StatusFailed \<or> bj_Status j = StatusCancelled
             then release_or_retry j (Finish (Inr j)) else Finish (Inr j))
          else if batchImageDerefString (bj_ProviderJobName j) \<noteq> [] then
            (if bj_Provider j \<notin> set (be_providers E) then give_up (App ErrBatchImageUnsupportedProvider)
             else case bj_AccountID j of
                    None \<Rightarrow> give_up (App ErrBatchImageCancelFailed)
                  | Some account \<Rightarrow>
                      Perform (ResolveAccount account) (\<lambda>r. case r of
                        RepErr x \<Rightarrow> failed x
                      | _ \<Rightarrow> command (UpstreamCancel b) failed (enqueue_job b failed again)))
          else command (Transition (bj_BatchID j) StatusCancelled None None) give_up (release_or_retry j again))"

text \<open>One job of the recovery scan: \<open>True\<close> when its hold was released.\<close>

definition recover_stale :: "BatchImageJob \<Rightarrow> gotime \<Rightarrow> (go_error + bool) batch_prog" where
  "recover_stale j cutoff =
     Perform (FailStale (bj_BatchID j) cutoff ''SUBMIT_STALE_BEFORE_PROVIDER''
                ''batch image submission did not reach provider before recovery cutoff'')
       (\<lambda>r. case r of
          RepErr x \<Rightarrow> give_up x
        | RepApplied applied \<Rightarrow>
            if \<not> applied then Finish (Inr False)
            else releaseBatchImageBalanceHold (j\<lparr>bj_Status := StatusFailed\<rparr>) (batchImageDerefString (bj_RequestHash j))
                   (\<lambda>x. attempt (EnqueueJob (bj_BatchID j)) (give_up x)) (Finish (Inr True))
        | _ \<Rightarrow> give_up unexpected)"

end
