(* ===== verification/Batch_Image_System.thy ===== *)
theory Batch_Image_System
  imports Batch_Image_Service
begin

section \<open>Programs running over the tables\<close>

text \<open>
  The meaning of the calls that reach the two tables, one program running alone, a program that stops
  after some of its calls, and several programs whose calls interleave. The calls to a provider,
  the queue and the table of items have no meaning here: what they answer is an event.
\<close>

record batch_world =
  bw_jobs :: batch_jobs
  bw_billing :: billing_db

definition reply_job :: "ApplicationError + BatchImageJob \<Rightarrow> batch_reply" where
  "reply_job r = (case r of Inl e \<Rightarrow> RepErr (App e) | Inr j \<Rightarrow> RepJob j)"

definition done_jobs :: "batch_world \<Rightarrow> ApplicationError option \<times> batch_jobs \<Rightarrow> (batch_reply \<times> batch_world) option" where
  "done_jobs w r = Some ((case fst r of None \<Rightarrow> RepOk | Some e \<Rightarrow> RepErr (App e)), w\<lparr>bw_jobs := snd r\<rparr>)"

fun perform_call :: "(string \<Rightarrow> string) \<Rightarrow> gotime \<Rightarrow> batch_call \<Rightarrow> batch_world \<Rightarrow> (batch_reply \<times> batch_world) option" where
  "perform_call sha now (GetJob b) w = Some (reply_job (GetBatchImageJobByBatchID b (bw_jobs w)), w)"
| "perform_call sha now (GetOwned user key b) w = Some (reply_job (GetBatchImageJobByBatchIDForOwner user key b (bw_jobs w)), w)"
| "perform_call sha now (CreateJob p) w =
     (case CreateBatchImageJob now p (bw_jobs w) of (r, t) \<Rightarrow> Some (reply_job r, w\<lparr>bw_jobs := t\<rparr>))"
| "perform_call sha now (Transition b s code msg) w = done_jobs w (TransitionBatchImageJobStatus now b s code msg (bw_jobs w))"
| "perform_call sha now (SaveOutputRef b ref) w = done_jobs w (UpdateBatchImageJobProviderOutputRef now b ref (bw_jobs w))"
| "perform_call sha now (SaveSubmit b name i out gi go) w =
     done_jobs w (UpdateBatchImageJobProviderSubmit now b name i out gi go (bw_jobs w))"
| "perform_call sha now (RecordFailure b code msg mark) w =
     Some (RepOk, w\<lparr>bw_jobs := RecordBatchImageJobSubmitFailure now b code msg mark (bw_jobs w)\<rparr>)"
| "perform_call sha now (MarkSettled b cost manifest at expires) w =
     done_jobs w (MarkBatchImageJobSettled b cost manifest at expires (bw_jobs w))"
| "perform_call sha now (SettlementFailed b code msg) w =
     (case SetBatchImageJobSettlementFailed now b code msg (bw_jobs w) of
        (r, t) \<Rightarrow> Some ((case r of None \<Rightarrow> RepErr (App ErrBatchImageJobNotFound) | Some n \<Rightarrow> RepCount n), w\<lparr>bw_jobs := t\<rparr>))"
| "perform_call sha now (HideJob user key b) w = done_jobs w (MarkBatchImageJobUserDeleted now user key b (bw_jobs w))"
| "perform_call sha now (FailStale b cutoff code msg) w =
     (case FailStaleUnsubmittedBatchImageJob now b cutoff code msg (bw_jobs w) of
        (applied, t) \<Rightarrow> Some (RepApplied applied, w\<lparr>bw_jobs := t\<rparr>))"
| "perform_call sha now (MoveHold op c) w =
     (case movement op sha c (bw_billing w) of
        (r, d) \<Rightarrow> Some ((case r of Inl e \<Rightarrow> RepErr e | Inr m \<Rightarrow> RepMoved m), w\<lparr>bw_billing := d\<rparr>))"
| "perform_call sha now ReadClock w = Some (RepTime now, w)"
| "perform_call sha now (ReplaceItems b items s f) w = done_jobs w (ReplaceBatchImageItemsForJob now b s f (bw_jobs w))"
| "perform_call sha now c w = None"

text \<open>A program alone; \<open>None\<close> when it makes a call that has no meaning here. Every call reads its own time.\<close>

primrec run_prog :: "'a batch_prog \<Rightarrow> (string \<Rightarrow> string) \<Rightarrow> (nat \<Rightarrow> gotime) \<Rightarrow> batch_world \<Rightarrow> ('a \<times> batch_world) option" where
  "run_prog (Finish x) sha ts w = Some (x, w)"
| "run_prog (Perform c f) sha ts w =
     (case perform_call sha (ts 0) c w of
        None \<Rightarrow> None
      | Some (r, w') \<Rightarrow> run_prog (f r) sha (\<lambda>k. ts (Suc k)) w')"

text \<open>The process dies after the first \<open>n\<close> calls.\<close>

primrec run_for :: "'a batch_prog \<Rightarrow> nat \<Rightarrow> (string \<Rightarrow> string) \<Rightarrow> (nat \<Rightarrow> gotime) \<Rightarrow> batch_world \<Rightarrow> batch_world" where
  "run_for (Finish x) n sha ts w = w"
| "run_for (Perform c f) n sha ts w =
     (if n = 0 then w
      else case perform_call sha (ts 0) c w of
             None \<Rightarrow> w
           | Some (r, w') \<Rightarrow> run_for (f r) (n - 1) sha (\<lambda>k. ts (Suc k)) w')"

text \<open>
  Several programs. Each event names the program whose next call it is about: the call is made, or it
  fails without an effect, or it is made and its answer is lost, or the outside answers it.
\<close>

datatype batch_event =
    Made nat gotime
  | Fault nat go_error
  | Lost nat gotime go_error
  | Answered nat batch_reply

type_synonym 'a batch_system = "batch_world \<times> 'a batch_prog list"

definition advance :: "nat \<Rightarrow> (batch_call \<Rightarrow> (batch_reply \<times> batch_world) option) \<Rightarrow> 'a batch_system \<Rightarrow> 'a batch_system option" where
  "advance i answer s =
     (if i < length (snd s) then
        (case snd s ! i of
           Finish x \<Rightarrow> None
         | Perform c f \<Rightarrow> (case answer c of None \<Rightarrow> None | Some (r, w) \<Rightarrow> Some (w, (snd s)[i := f r])))
      else None)"

fun batch_step :: "(string \<Rightarrow> string) \<Rightarrow> batch_event \<Rightarrow> 'a batch_system \<Rightarrow> 'a batch_system option" where
  "batch_step sha (Made i now) s = advance i (\<lambda>c. perform_call sha now c (fst s)) s"
| "batch_step sha (Fault i e) s = advance i (\<lambda>c. Some (RepErr e, fst s)) s"
| "batch_step sha (Lost i now e) s = advance i (\<lambda>c. map_option (\<lambda>(r, w). (RepErr e, w)) (perform_call sha now c (fst s))) s"
| "batch_step sha (Answered i r) s = advance i (\<lambda>c. case perform_call sha 0 c (fst s) of None \<Rightarrow> Some (r, fst s) | Some x \<Rightarrow> None) s"

fun batch_run :: "(string \<Rightarrow> string) \<Rightarrow> batch_event list \<Rightarrow> 'a batch_system \<Rightarrow> 'a batch_system option" where
  "batch_run sha [] s = Some s"
| "batch_run sha (e # es) s = (case batch_step sha e s of None \<Rightarrow> None | Some s' \<Rightarrow> batch_run sha es s')"

subsection \<open>What a job keeps\<close>

text \<open>What a job was submitted with: its owner, and what the commands for its hold are made of.\<close>

definition job_terms :: "BatchImageJob \<Rightarrow> string \<times> int \<times> int option \<times> money \<times> string option \<times> money \<times> int" where
  "job_terms j = (bj_BatchID j, bj_UserID j, bj_APIKeyID j, hold_amount j, bj_RequestHash j, bj_BillableUnitPrice j, bj_ItemCount j)"

definition keyed_table :: "batch_jobs \<Rightarrow> bool" where
  "keyed_table t = (\<forall>b j. fmlookup t b = Some j \<longrightarrow> bj_BatchID j = b)"

text \<open>What a statement may do to a row: keep the terms, and a terminal status except for the deletion of
  the output or a failure that is recorded without looking at the status.\<close>

definition row_change :: "bool \<Rightarrow> BatchImageJob \<Rightarrow> BatchImageJob \<Rightarrow> bool" where
  "row_change overwritten j j' =
     (job_terms j' = job_terms j \<and>
      (IsTerminalBatchImageJobStatus (bj_Status j) \<longrightarrow>
         bj_Status j' = bj_Status j \<or> bj_Status j' = StatusOutputDeleted \<or> overwritten \<and> bj_Status j' = StatusFailed))"

definition overwrites :: "batch_call \<Rightarrow> string \<Rightarrow> bool" where
  "overwrites c b = (case c of RecordFailure b' code msg mark \<Rightarrow> b' = b \<and> mark | _ \<Rightarrow> False)"

lemma row_change_refl [simp]: "row_change x j j"
  by (simp add: row_change_def)

lemma row_changeI:
  assumes "bj_BatchID j' = bj_BatchID j" "bj_UserID j' = bj_UserID j" "bj_APIKeyID j' = bj_APIKeyID j"
    "bj_HoldAmount j' = bj_HoldAmount j" "bj_EstimatedCost j' = bj_EstimatedCost j" "bj_RequestHash j' = bj_RequestHash j"
    "bj_BillableUnitPrice j' = bj_BillableUnitPrice j" "bj_ItemCount j' = bj_ItemCount j"
    "IsTerminalBatchImageJobStatus (bj_Status j) \<Longrightarrow>
       bj_Status j' = bj_Status j \<or> bj_Status j' = StatusOutputDeleted \<or> x \<and> bj_Status j' = StatusFailed"
  shows "row_change x j j'"
  using assms by (simp add: row_change_def job_terms_def hold_amount_def split: option.split)

definition table_change :: "(string \<Rightarrow> bool) \<Rightarrow> batch_jobs \<Rightarrow> batch_jobs \<Rightarrow> bool" where
  "table_change x t t' = (\<forall>b j. fmlookup t b = Some j \<longrightarrow> (\<exists>j'. fmlookup t' b = Some j' \<and> row_change (x b) j j'))"

lemma table_change_refl [simp]: "table_change x t t"
  by (simp add: table_change_def)

lemma table_change_upd: "(\<And>j. fmlookup t b = Some j \<Longrightarrow> row_change (x b) j j') \<Longrightarrow> table_change x t (fmupd b j' t)"
  by (simp add: table_change_def)

lemma update_job_change:
  "(\<And>j. cond j \<Longrightarrow> row_change (x b) j (f j)) \<Longrightarrow> table_change x t (snd (update_job b cond f t))"
  by (auto simp: update_job_def split: option.split intro!: table_change_upd)

lemma terminal_stays:
  "IsTerminalBatchImageJobStatus s \<Longrightarrow> CanTransitionBatchImageJob s s' \<Longrightarrow> s' = StatusOutputDeleted"
  by (simp add: CanTransitionBatchImageJob_def split: if_splits)

lemma not_terminal [simp]:
  "\<not> IsTerminalBatchImageJobStatus StatusCreated" "\<not> IsTerminalBatchImageJobStatus StatusUploading"
  "\<not> IsTerminalBatchImageJobStatus StatusIndexing" "\<not> IsTerminalBatchImageJobStatus StatusSettling"
  by (simp_all add: IsTerminalBatchImageJobStatus_def status_defs)

lemma submit_not_terminal: "CanTransitionBatchImageJob s StatusSubmitted \<Longrightarrow> \<not> IsTerminalBatchImageJobStatus s"
  using terminal_stays [of s StatusSubmitted] by (auto simp: status_defs)

text \<open>Every statement changes rows in this way only.\<close>

lemma create_change: "table_change x t (snd (CreateBatchImageJob now p t))"
  by (auto simp: CreateBatchImageJob_def Let_def fmlookup_dom_iff intro!: table_change_upd)

lemma transition_row: "CanTransitionBatchImageJob (bj_Status j) s \<Longrightarrow> row_change x j (transition_update now s code msg j)"
  by (rule row_changeI) (simp_all add: transition_update_def terminal_stays)

lemma transition_change: "table_change x t (snd (TransitionBatchImageJobStatus now b s code msg t))"
  by (auto simp: TransitionBatchImageJobStatus_def split: option.split intro!: table_change_upd transition_row)

lemma submit_change: "table_change x t (snd (UpdateBatchImageJobProviderSubmit now b name i out gi go t))"
  by (auto simp: UpdateBatchImageJobProviderSubmit_def split: option.split dest: submit_not_terminal
      intro!: table_change_upd row_changeI)

lemma output_ref_change: "table_change x t (snd (UpdateBatchImageJobProviderOutputRef now b ref t))"
  unfolding UpdateBatchImageJobProviderOutputRef_def not_found_unless_def snd_conv
  by (rule update_job_change) (rule row_changeI; simp)

lemma submit_failure_change:
  "table_change (\<lambda>b'. b = b' \<and> mark) t (RecordBatchImageJobSubmitFailure now b code msg mark t)"
  unfolding RecordBatchImageJobSubmitFailure_def Let_def
  by (rule update_job_change) (rule row_changeI; cases mark; simp)

lemma settlement_failed_change: "table_change x t (snd (SetBatchImageJobSettlementFailed now b code msg t))"
  by (auto simp: SetBatchImageJobSettlementFailed_def split: option.split intro!: table_change_upd row_changeI)

lemma hidden_change: "table_change x t (snd (MarkBatchImageJobUserDeleted at user key b t))"
  unfolding MarkBatchImageJobUserDeleted_def case_prod_unfold snd_conv
  by (rule update_job_change) (rule row_changeI; simp)

lemma stale_change: "table_change x t (snd (FailStaleUnsubmittedBatchImageJob now b cutoff code msg t))"
  unfolding FailStaleUnsubmittedBatchImageJob_def
  by (rule update_job_change) (rule row_changeI; auto simp: unsubmitted_def)

lemma items_change: "table_change x t (snd (ReplaceBatchImageItemsForJob now b s f t))"
  by (auto simp: ReplaceBatchImageItemsForJob_def split: option.split intro!: table_change_upd row_changeI)

lemma settled_change: "table_change x t (snd (MarkBatchImageJobSettled b cost manifest at expires t))"
proof -
  let ?cond = "\<lambda>j. bj_Status j = StatusSettling \<and>
      (bj_ManifestHash j = None \<or> bj_ManifestHash j = Some [] \<or> bj_ManifestHash j = Some manifest)"
  let ?f = "\<lambda>j. j\<lparr>bj_Status := StatusCompleted, bj_ActualCost := Some cost, bj_ManifestHash := Some manifest,
      bj_SettledAt := first_time (bj_SettledAt j) at, bj_FinishedAt := first_time (bj_FinishedAt j) at,
      bj_OutputExpiresAt := first_time (bj_OutputExpiresAt j) expires, bj_UpdatedAt := at, bj_Version := bj_Version j + 1\<rparr>"
  have "table_change x t (snd (update_job b ?cond ?f t))"
    by (rule update_job_change) (auto intro!: row_changeI)
  moreover have "snd (MarkBatchImageJobSettled b cost manifest at expires t) \<in> {t, snd (update_job b ?cond ?f t)}"
    by (auto simp: MarkBatchImageJobSettled_def update_job_def split: option.split)
  ultimately show ?thesis by auto
qed

lemmas statement_changes = create_change transition_change submit_change output_ref_change submit_failure_change
  settlement_failed_change hidden_change stale_change items_change settled_change

lemma overwrites_failure [simp]: "overwrites (RecordFailure b code msg mark) = (\<lambda>b'. b = b' \<and> mark)"
  by (auto simp: overwrites_def fun_eq_iff)

lemma perform_change: "perform_call sha now c w = Some (r, w') \<Longrightarrow> table_change (overwrites c) (bw_jobs w) (bw_jobs w')"
proof -
  have "perform_call sha now c w \<noteq> None \<Longrightarrow> table_change (overwrites c) (bw_jobs w) (bw_jobs (snd (the (perform_call sha now c w))))"
    by (cases c) (simp_all add: done_jobs_def case_prod_unfold statement_changes del: movement.simps)
  then show "perform_call sha now c w = Some (r, w') \<Longrightarrow> table_change (overwrites c) (bw_jobs w) (bw_jobs w')" by simp
qed

lemma row_change_trans: "row_change x j j' \<Longrightarrow> row_change y j' k \<Longrightarrow> row_change (x \<or> y) j k"
  by (auto simp: row_change_def IsTerminalBatchImageJobStatus_def)

lemma table_change_trans:
  assumes "table_change x t t'" "table_change y t' u"
  shows "table_change (\<lambda>b. x b \<or> y b) t u"
  using assms unfolding table_change_def by (metis row_change_trans)

text \<open>The calls a run made with their effect.\<close>

definition call_at :: "'a batch_system \<Rightarrow> nat \<Rightarrow> batch_call list" where
  "call_at s i = (if i < length (snd s) then (case snd s ! i of Finish x \<Rightarrow> [] | Perform c f \<Rightarrow> [c]) else [])"

fun event_calls :: "'a batch_system \<Rightarrow> batch_event \<Rightarrow> batch_call list" where
  "event_calls s (Made i now) = call_at s i"
| "event_calls s (Lost i now e) = call_at s i"
| "event_calls s (Fault i e) = []"
| "event_calls s (Answered i r) = []"

fun run_calls :: "(string \<Rightarrow> string) \<Rightarrow> batch_event list \<Rightarrow> 'a batch_system \<Rightarrow> batch_call list" where
  "run_calls sha [] s = []"
| "run_calls sha (e # es) s =
     event_calls s e @ (case batch_step sha e s of None \<Rightarrow> [] | Some s' \<Rightarrow> run_calls sha es s')"

lemma advance_cases:
  assumes "advance i answer s = Some s'"
  obtains c f r w where "i < length (snd s)" "snd s ! i = Perform c f" "answer c = Some (r, w)" "s' = (w, (snd s)[i := f r])"
  using assms by (auto simp: advance_def split: if_splits batch_prog.splits option.splits)

lemma advance_change:
  assumes "advance i answer s = Some s'"
    and "\<And>c r w. call_at s i = [c] \<Longrightarrow> answer c = Some (r, w) \<Longrightarrow> table_change x (bw_jobs (fst s)) (bw_jobs w)"
  shows "table_change x (bw_jobs (fst s)) (bw_jobs (fst s'))"
proof -
  from assms(1) obtain c f r w where
    "i < length (snd s)" "snd s ! i = Perform c f" "answer c = Some (r, w)" "s' = (w, (snd s)[i := f r])"
    by (rule advance_cases)
  with assms(2) [of c r w] show ?thesis by (simp add: call_at_def)
qed

lemma step_change:
  assumes "batch_step sha e s = Some s'"
  shows "table_change (\<lambda>b. \<exists>c \<in> set (event_calls s e). overwrites c b) (bw_jobs (fst s)) (bw_jobs (fst s'))"
proof (cases e)
  case (Made i now)
  with assms have "advance i (\<lambda>c. perform_call sha now c (fst s)) s = Some s'" by simp
  then show ?thesis by (rule advance_change) (auto simp: Made dest: perform_change)
next
  case (Lost i now x)
  with assms have "advance i (\<lambda>c. map_option (\<lambda>(r, w). (RepErr x, w)) (perform_call sha now c (fst s))) s = Some s'" by simp
  then show ?thesis by (rule advance_change) (auto simp: Lost dest: perform_change)
next
  case (Fault i x)
  with assms have "advance i (\<lambda>c. Some (RepErr x, fst s)) s = Some s'" by simp
  then show ?thesis by (rule advance_change) auto
next
  case (Answered i r)
  with assms have "advance i (\<lambda>c. case perform_call sha 0 c (fst s) of None \<Rightarrow> Some (r, fst s) | Some x \<Rightarrow> None) s = Some s'" by simp
  then show ?thesis by (rule advance_change) (auto split: option.splits)
qed

text \<open>Property C13. What a batch was submitted with never changes, and a finished batch stays as it
  is: whatever programs run, in whatever interleaving and with whatever failed calls, the owner, hold and
  price of a job stay, and a terminal status is only left for the deletion of the output or
  because a failed submission was recorded for the job.\<close>
theorem finished_stays:
  assumes "batch_run sha es s = Some s'" and "fmlookup (bw_jobs (fst s)) b = Some j"
  shows "\<exists>j'. fmlookup (bw_jobs (fst s')) b = Some j' \<and> job_terms j' = job_terms j \<and>
    (IsTerminalBatchImageJobStatus (bj_Status j) \<longrightarrow>
       bj_Status j' = bj_Status j \<or> bj_Status j' = StatusOutputDeleted \<or>
       bj_Status j' = StatusFailed \<and> (\<exists>c \<in> set (run_calls sha es s). overwrites c b))"
proof -
  have "table_change (\<lambda>b. \<exists>c \<in> set (run_calls sha es s). overwrites c b) (bw_jobs (fst s)) (bw_jobs (fst s'))"
    using assms(1)
  proof (induction sha es s rule: batch_run.induct)
    case (2 sha e es s)
    then obtain s1 where s1: "batch_step sha e s = Some s1" "batch_run sha es s1 = Some s'"
      by (auto split: option.splits)
    from table_change_trans [OF step_change [OF s1(1)] "2.IH" [OF s1]] show ?case
      by (auto simp: s1(1) bex_Un elim!: back_subst [of "\<lambda>x. table_change x _ _"])
  qed simp
  with assms(2) show ?thesis unfolding table_change_def row_change_def by blast
qed

subsection \<open>Sample systems\<close>

definition batch_sample_env :: batch_env where
  "batch_sample_env = \<lparr>be_sha = (\<lambda>s. ''m''), be_decode = (\<lambda>s. None), be_providers = [BatchImageProviderVertex],
     be_error_text = (\<lambda>e. ''e''), be_OutputRetentionAfterTerminalHours = 72, be_DefaultRequeue = 0, be_RetryDelay = 0\<rparr>"

definition with_status :: "string \<Rightarrow> BatchImageJob \<Rightarrow> BatchImageJob" where
  "with_status s j = j\<lparr>bj_Status := s, bj_SuccessCount := 4\<rparr>"

definition batch_sample_world :: "BatchImageJob list \<Rightarrow> billing_db \<Rightarrow> batch_world" where
  "batch_sample_world js d = \<lparr>bw_jobs = fmap_of_list (map (\<lambda>j. (bj_BatchID j, j)) js), bw_billing = d\<rparr>"

definition finished :: "'a batch_prog \<Rightarrow> 'a option" where
  "finished p = (case p of Finish x \<Rightarrow> Some x | Perform c f \<Rightarrow> None)"

theorem finished_stays_witness:
  "\<exists>w ps j'. batch_run id [Made 0 1, Fault 0 (Other ''lost'')]
      (batch_sample_world [with_status StatusCancelled job_a] reserved_db, [Process_provider batch_sample_env ''a'']) = Some (w, ps) \<and>
     fmlookup (bw_jobs w) ''a'' = Some j' \<and> job_terms j' = job_terms job_a \<and> bj_Status j' \<in> {StatusCancelled, StatusOutputDeleted}"
proof -
  let ?s = "(batch_sample_world [with_status StatusCancelled job_a] reserved_db, [Process_provider batch_sample_env ''a''])"
  let ?es = "[Made 0 1, Fault 0 (Other ''lost'')]"
  have "batch_run id ?es ?s \<noteq> None" by code_simp
  then obtain s' where s': "batch_run id ?es ?s = Some s'" by auto
  have "fmlookup (bw_jobs (fst ?s)) ''a'' = Some (with_status StatusCancelled job_a)"
    by (simp add: batch_sample_world_def with_status_def job_a_def sample_job_def fmlookup_of_list)
  moreover have "job_terms (with_status StatusCancelled job_a) = job_terms job_a"
    by (simp add: job_terms_def with_status_def hold_amount_def split: option.split)
  moreover have "list_all (\<lambda>c. \<not> overwrites c ''a'') (run_calls id ?es ?s)" by code_simp
  ultimately show ?thesis
    using finished_stays [OF s', of "''a''" "with_status StatusCancelled job_a"] s'
    by (cases s') (auto simp: list_all_iff with_status_def IsTerminalBatchImageJobStatus_def status_defs)
qed

end
