(* ===== verification/Batch_Image_Settlement.thy ===== *)
theory Batch_Image_Settlement
  imports Batch_Image_System
begin

section \<open>Settling once\<close>

text \<open>
  A settlement that is interrupted anywhere and repeated charges the batch once and completes it;
  a batch that failed or was cancelled gets its hold back once, however often the release is tried.
\<close>

text \<open>The entry an applied movement leaves, which every later movement keeps and its repetition finds.\<close>

definition has_entry :: "(string \<Rightarrow> string) \<Rightarrow> BatchImageBalanceHoldCommand \<Rightarrow> billing_db \<Rightarrow> bool" where
  "has_entry sha c d =
     (fmlookup (bd_dedup d) (request_key c) = Some (hc_RequestFingerprint (Normalize sha c)) \<and> trim_space (hc_RequestID c) \<noteq> [])"

lemma applied_entry:
  assumes "movement op sha c d = (Inr r, d')" and "hr_Applied r"
  shows "has_entry sha c d'"
proof (rule movement_cases [of op sha c d])
  fix r1 d1
  let ?d = "d\<lparr>bd_dedup := fmupd (request_key c) (hc_RequestFingerprint (Normalize sha c)) (bd_dedup d)\<rparr>"
  assume m: "movement op sha c d = (Inr (r1\<lparr>hr_Applied := True\<rparr>), d1)" and e: "hold_effect op (Normalize sha c) ?d = Inr (r1, d1)"
  have "trim_space (hc_RequestID c) \<noteq> []"
    using assms by (auto simp: movement_effect applyBatchImageBalanceHold_def Let_def)
  then show ?thesis using effect_dedup [OF e] m assms(1) by (simp add: has_entry_def)
qed (use assms in \<open>auto simp: no_result_def\<close>)

lemma entry_stays: "has_entry sha c d \<Longrightarrow> has_entry sha c (snd (movement op sha c' d))"
  by (rule movement_cases [of op sha c' d])
    (auto simp: has_entry_def claimed_def fmlookup_dom_iff dest!: effect_dedup)

lemma entry_repeats: "has_entry sha c d \<Longrightarrow> movement op sha c d = (Inr no_result, d)"
  by (simp add: has_entry_def movement_effect applyBatchImageBalanceHold_def Let_def claimUsageBillingRequest_def request_key_def)

lemma movement_repeat: "movement op sha c d = (Inr r, d') \<Longrightarrow> hr_Applied r \<Longrightarrow> movement op sha c d' = (Inr no_result, d')"
  by (rule entry_repeats [OF applied_entry])

lemma job_command_eq:
  "job_keyed j \<Longrightarrow> buildBatchImageHoldCommand j (hold_request op (bj_BatchID j)) actual payload = Inr (job_command op j actual payload)"
  by (auto simp: job_keyed_def job_command_def buildBatchImageHoldCommand_def split: option.splits)

definition manifest :: "batch_env \<Rightarrow> BatchImageJob \<Rightarrow> string" where
  "manifest E j = BuildBatchImageSettlementManifestHash (be_sha E) j"

definition capture_command :: "batch_env \<Rightarrow> BatchImageJob \<Rightarrow> BatchImageBalanceHoldCommand" where
  "capture_command E j = job_command Capture j (bj_SuccessCount j * bj_BillableUnitPrice j) (manifest E j)"

text \<open>A job that waits for its settlement, with counts as the indexer leaves them and a price that fits the hold.\<close>

definition settle_ready :: "BatchImageJob \<Rightarrow> bool" where
  "settle_ready j =
     (bj_Status j = StatusSettling \<and> job_keyed j \<and> (case bj_AccountID j of None \<Rightarrow> False | Some a \<Rightarrow> 0 < a) \<and>
      bj_RetryCount j < batchImageSettlementMaxRetries \<and>
      0 \<le> bj_SuccessCount j \<and> 0 \<le> bj_FailCount j \<and> bj_SuccessCount j + bj_FailCount j \<le> bj_ItemCount j \<and>
      bj_ManifestHash j = None \<and> 1 \<le> bj_PricingSnapshotVersion j \<and> 0 \<le> bj_BillableUnitPrice j \<and>
      bj_SuccessCount j * bj_BillableUnitPrice j - hold_amount j \<le> batchImageCostEpsilon)"

definition settle_result :: "batch_env \<Rightarrow> BatchImageJob \<Rightarrow> BatchImageSettlementResult" where
  "settle_result E j =
     \<lparr>st_BatchID = bj_BatchID j, st_SuccessCount = bj_SuccessCount j, st_FailCount = bj_FailCount j,
      st_ActualCost = bj_SuccessCount j * bj_BillableUnitPrice j, st_ManifestHash = manifest E j,
      st_RequestID = BatchImageCaptureRequestID (bj_BatchID j), st_AlreadySettled = False\<rparr>"

definition mark_settled :: "batch_env \<Rightarrow> BatchImageJob \<Rightarrow> (go_error + BatchImageSettlementResult) batch_prog" where
  "mark_settled E j =
     read_clock (\<lambda>now.
       command (MarkSettled (bj_BatchID j) (bj_SuccessCount j * bj_BillableUnitPrice j) (manifest E j) now
                  (now + outputRetentionAfterTerminal E))
         (\<lambda>x. Finish (Inl x)) (Finish (Inr (settle_result E j))))"

definition settlement_refused :: "batch_env \<Rightarrow> BatchImageJob \<Rightarrow> (go_error + BatchImageSettlementResult) batch_prog" where
  "settlement_refused E j =
     recordSettlementFailure E j ''SETTLEMENT_BILLING_FAILED''
       (truncateBatchImageMessage (be_error_text E (App ErrBatchImageSettlementBillingFailed)) batchImageMaxErrorMessageLength)
       (App ErrBatchImageSettlementBillingFailed)"

lemma settle_job_ready:
  assumes "settle_ready j"
  shows "settle_job E j = move_hold Capture (capture_command E j) (\<lambda>x. settlement_refused E j) (mark_settled E j)"
proof -
  have build: "buildBatchImageHoldCommand j (BatchImageCaptureRequestID (bj_BatchID j)) a m = Inr (job_command Capture j a m)" for a m
    using assms job_command_eq [of j Capture a m] by (simp add: settle_ready_def hold_request_def)
  have "\<exists>k ak. bj_APIKeyID j = Some k \<and> 0 < k \<and> bj_AccountID j = Some ak \<and> 0 < ak"
    using assms by (auto simp: settle_ready_def job_keyed_def split: option.splits)
  then obtain k ak where "bj_APIKeyID j = Some k" "0 < k" "bj_AccountID j = Some ak" "0 < ak" by blast
  with assms build show ?thesis
    by (auto simp: settle_ready_def settle_job_def Let_def status_defs isBatchImageSettlementRetryExhausted_def
        batchImageDerefString_def settlementUnitPrice_def settle_at_def captureBatchImageBalanceHold_def
        capture_command_def manifest_def settle_result_def mark_settled_def settlement_refused_def)
qed

lemma run_move_hold:
  assumes "movement op sha c (bw_billing w) = (Inr m, d)"
  shows "run_prog (move_hold op c e k) sha ts w = run_prog k sha (\<lambda>i. ts (Suc i)) (w\<lparr>bw_billing := d\<rparr>)"
    and "run_for (move_hold op c e k) n sha ts w =
      (if n = 0 then w else run_for k (n - 1) sha (\<lambda>i. ts (Suc i)) (w\<lparr>bw_billing := d\<rparr>))"
  using assms by (simp_all add: move_hold_def del: movement.simps)

lemma run_get_job:
  assumes "fmlookup (bw_jobs w) b = Some j"
  shows "run_prog (get_job (GetJob b) e k) sha ts w = run_prog (k j) sha (\<lambda>i. ts (Suc i)) w"
    and "run_for (get_job (GetJob b) e k) n sha ts w = (if n = 0 then w else run_for (k j) (n - 1) sha (\<lambda>i. ts (Suc i)) w)"
  using assms by (simp_all add: get_job_def reply_job_def GetBatchImageJobByBatchID_def)

definition settled_as :: "batch_env \<Rightarrow> BatchImageJob \<Rightarrow> batch_world \<Rightarrow> bool" where
  "settled_as E j w =
     (case fmlookup (bw_jobs w) (bj_BatchID j) of
        None \<Rightarrow> False
      | Some u \<Rightarrow> bj_Status u = StatusCompleted \<and> bj_ActualCost u = Some (bj_SuccessCount j * bj_BillableUnitPrice j) \<and>
          bj_BatchID u = bj_BatchID j \<and> bj_SuccessCount u = bj_SuccessCount j)"

lemma MarkSettled_ready:
  assumes "fmlookup (bw_jobs w) (bj_BatchID j) = Some j" and "settle_ready j"
  obtains w' where
    "perform_call sha now (MarkSettled (bj_BatchID j) (bj_SuccessCount j * bj_BillableUnitPrice j) m at x) w = Some (RepOk, w')"
    "settled_as E j w'" "bw_billing w' = bw_billing w"
  using assms by (auto simp: settle_ready_def MarkBatchImageJobSettled_def update_job_def done_jobs_def settled_as_def)

lemma run_mark_settled:
  assumes "fmlookup (bw_jobs w) (bj_BatchID j) = Some j" and "settle_ready j"
  obtains w' where "run_prog (mark_settled E j) sha ts w = Some (Inr (settle_result E j), w')"
    "settled_as E j w'" "bw_billing w' = bw_billing w"
  by (rule MarkSettled_ready [OF assms, of sha "ts 1" "manifest E j" "ts 0" "ts 0 + outputRetentionAfterTerminal E" E])
    (auto simp: mark_settled_def read_clock_def command_def simp del: perform_call.simps(8) intro: that)

lemma run_for_mark_settled:
  assumes "fmlookup (bw_jobs w) (bj_BatchID j) = Some j" and "settle_ready j"
  shows "run_for (mark_settled E j) n sha ts w = w \<or>
    settled_as E j (run_for (mark_settled E j) n sha ts w) \<and> bw_billing (run_for (mark_settled E j) n sha ts w) = bw_billing w"
  by (rule MarkSettled_ready [OF assms, of sha "ts 1" "manifest E j" "ts 0" "ts 0 + outputRetentionAfterTerminal E" E])
    (auto simp: mark_settled_def read_clock_def command_def simp del: perform_call.simps(8))

text \<open>Property C1. A settlement charges a batch once and completes it, however often it is tried: for a
  job that is ready to be settled and whose hold can be captured, after an attempt that died
  at any point a whole attempt returns the cost of its successful images, leaves the job completed
  at that cost, and the balances are those after one capture.\<close>
theorem settles_exactly_once:
  assumes "fmlookup (bw_jobs w) (bj_BatchID j) = Some j" and "settle_ready j"
    and "movement Capture sha (capture_command E j) (bw_billing w) = (Inr m, d)" and "hr_Applied m"
  shows "\<exists>r w'. run_prog (Settle E (bj_BatchID j)) sha ts' (run_for (Settle E (bj_BatchID j)) n sha ts w) = Some (Inr r, w') \<and>
    st_ActualCost r = bj_SuccessCount j * bj_BillableUnitPrice j \<and> st_SuccessCount r = bj_SuccessCount j \<and>
    settled_as E j w' \<and> bw_billing w' = d"
proof -
  let ?b = "bj_BatchID j"
  note job = settle_job_ready [OF assms(2), of E]
  let ?w1 = "w\<lparr>bw_billing := d\<rparr>"
  let ?ts2 = "\<lambda>i. ts (Suc (Suc i))"
  note again = movement_repeat [OF assms(3,4)]
  have captured: "\<exists>r w'. run_prog (Settle E ?b) sha ts' v = Some (Inr r, w') \<and>
      st_ActualCost r = bj_SuccessCount j * bj_BillableUnitPrice j \<and> st_SuccessCount r = bj_SuccessCount j \<and>
      settled_as E j w' \<and> bw_billing w' = d"
    if "fmlookup (bw_jobs v) ?b = Some j" "movement Capture sha (capture_command E j) (bw_billing v) = (Inr m', d)" for v m'
  proof -
    have "fmlookup (bw_jobs (v\<lparr>bw_billing := d\<rparr>)) ?b = Some j" using that(1) by simp
    then obtain w' where w': "run_prog (mark_settled E j) sha (\<lambda>i. ts' (Suc (Suc i))) (v\<lparr>bw_billing := d\<rparr>) = Some (Inr (settle_result E j), w')"
      "settled_as E j w'" "bw_billing w' = d"
      by (rule run_mark_settled [OF _ assms(2), where E = E]) simp
    have "run_prog (Settle E ?b) sha ts' v = run_prog (mark_settled E j) sha (\<lambda>i. ts' (Suc (Suc i))) (v\<lparr>bw_billing := d\<rparr>)"
      by (simp add: Settle_def run_get_job(1) [OF that(1)] job run_move_hold(1) [OF that(2)])
    with w' show ?thesis by (auto simp: settle_result_def)
  qed
  have settled: "\<exists>r w'. run_prog (Settle E ?b) sha ts' v = Some (Inr r, w') \<and>
      st_ActualCost r = bj_SuccessCount j * bj_BillableUnitPrice j \<and> st_SuccessCount r = bj_SuccessCount j \<and>
      settled_as E j w' \<and> bw_billing w' = d" if v: "settled_as E j v" "bw_billing v = d" for v
  proof -
    from v(1) obtain u where u: "fmlookup (bw_jobs v) ?b = Some u" "bj_Status u = StatusCompleted"
      "bj_ActualCost u = Some (bj_SuccessCount j * bj_BillableUnitPrice j)" "bj_SuccessCount u = bj_SuccessCount j"
      by (auto simp: settled_as_def split: option.splits)
    then show ?thesis using v by (auto simp: Settle_def run_get_job(1) [OF u(1)] settle_job_def Let_def)
  qed
  let ?v = "run_for (Settle E ?b) n sha ts w"
  have "?v = w \<or> ?v = run_for (mark_settled E j) (n - 2) sha ?ts2 ?w1"
    by (simp add: Settle_def run_get_job(2) [OF assms(1)] job run_move_hold(2) [OF assms(3)] numeral_2_eq_2)
  moreover have "fmlookup (bw_jobs ?w1) ?b = Some j" using assms(1) by simp
  note run_for_mark_settled [OF this assms(2), of E "n - 2" sha ?ts2]
  ultimately consider "?v = w" | "?v = ?w1" | "settled_as E j ?v" "bw_billing ?v = d" by auto
  then show ?thesis
  proof cases
    case 1
    with captured [OF assms(1,3)] show ?thesis by simp
  next
    case 2
    with captured [of ?w1 no_result] again assms(1) show ?thesis by simp
  next
    case 3
    then show ?thesis by (rule settled)
  qed
qed

subsection \<open>Giving a hold back\<close>

definition release_command :: "BatchImageJob \<Rightarrow> BatchImageBalanceHoldCommand" where
  "release_command j = job_command Release j 0 (batchImageDerefString (bj_RequestHash j))"

lemma release_command_terms:
  assumes "job_terms u = job_terms j"
  shows "release_command u = release_command j"
  using assms by (simp add: job_terms_def release_command_def job_command_def buildBatchImageHoldCommand_def
      cong: option.case_cong if_cong)

lemma run_terminal [simp]:
  "run_prog terminal sha ts w = Some (Inr \<lparr>rs_RequeueAfter = 0, rs_Terminal = True\<rparr>, w)" "run_for terminal n sha ts w = w"
  by (simp_all add: terminal_def)

lemma release_keyed:
  "job_keyed j \<Longrightarrow> 0 < hold_amount j \<Longrightarrow>
   releaseBatchImageBalanceHold j p e k = move_hold Release (job_command Release j 0 p)
     (\<lambda>x. if x = ErrUsageBillingRequestConflict then k else e (App ErrBatchImageBillingHoldFailed)) k"
  using job_command_eq [of j Release 0 p] job_command_fields(2) [of j Release 0 p]
  by (simp add: releaseBatchImageBalanceHold_def hold_request_def held_amount_def)

lemma reserve_keyed:
  "job_keyed j \<Longrightarrow> 0 < hold_amount j \<Longrightarrow>
   reserveBatchImageBalanceHold j p e k = move_hold Reserve (job_command Reserve j 0 p)
     (\<lambda>x. e (App (if x = App ErrBatchImageInsufficientBalance then ErrBatchImageInsufficientBalance
                  else ErrBatchImageBillingHoldFailed))) k"
  using job_command_eq [of j Reserve 0 p] job_command_fields(2) [of j Reserve 0 p]
  by (simp add: reserveBatchImageBalanceHold_def hold_request_def held_amount_def)

lemma releaseTerminalHold_keyed:
  assumes "job_keyed j" "0 < hold_amount j" "bj_Status j = StatusFailed \<or> bj_Status j = StatusCancelled"
  obtains e' where "releaseTerminalHold j e k = move_hold Release (release_command j) e' k"
  using assms by (intro that) (auto simp: releaseTerminalHold_def release_keyed release_command_def)

lemma run_transition:
  assumes "fmlookup (bw_jobs w) b = Some j" "CanTransitionBatchImageJob (bj_Status j) s"
  shows "run_for (command (Transition b s code msg) e k) n sha ts w =
    (if n = 0 then w
     else run_for k (n - 1) sha (\<lambda>i. ts (Suc i)) (w\<lparr>bw_jobs := fmupd b (transition_update (ts 0) s code msg j) (bw_jobs w)\<rparr>))"
  using assms by (simp add: command_def done_jobs_def TransitionBatchImageJobStatus_def)

definition released_as :: "string \<Rightarrow> string \<Rightarrow> batch_world \<Rightarrow> bool" where
  "released_as b s w = (case fmlookup (bw_jobs w) b of None \<Rightarrow> False | Some u \<Rightarrow> bj_Status u = s)"

lemma process_done:
  assumes "fmlookup (bw_jobs w) b = Some u" "job_terms u = job_terms j" "job_keyed j" "0 < hold_amount j"
    "bj_Status u = s" "s = StatusFailed \<or> s = StatusCancelled"
    "movement Release sha (release_command j) (bw_billing w) = (Inr m, d)"
  shows "run_prog (Process_provider E b) sha ts w = Some (Inr \<lparr>rs_RequeueAfter = 0, rs_Terminal = True\<rparr>, w\<lparr>bw_billing := d\<rparr>)"
proof -
  have "job_keyed u" "0 < hold_amount u" using assms(2-4) by (simp_all add: job_terms_def job_keyed_def)
  moreover have "bj_Status u = StatusFailed \<or> bj_Status u = StatusCancelled" using assms(5,6) by simp
  ultimately obtain e' where "releaseTerminalHold u give_up terminal = move_hold Release (release_command u) e' terminal"
    by (rule releaseTerminalHold_keyed)
  moreover have "isBatchImageProcessorDoneStatus (bj_Status u)"
    using assms(5,6) by (auto simp: isBatchImageProcessorDoneStatus_def IsTerminalBatchImageJobStatus_def)
  ultimately show ?thesis
    by (simp add: Process_provider_def run_get_job(1) [OF assms(1)] process_job_def release_command_terms [OF assms(2)]
        run_move_hold(1) [OF assms(7)] del: movement.simps)
qed

text \<open>Property C19. A batch that fails or is cancelled at the provider gets its hold back exactly once:
  once the failure of a batch with an outstanding hold is recorded, then wherever the worker dies
  after that, the next run over the batch ends, leaves it failed, and the balances are those after
  one release, and so does any later run.\<close>
theorem releases_exactly_once:
  assumes "fmlookup (bw_jobs w) (bj_BatchID j) = Some j" and "CanTransitionBatchImageJob (bj_Status j) s"
    and "s = StatusFailed \<or> s = StatusCancelled" and "job_keyed j" and "0 < hold_amount j"
    and "movement Release sha (release_command j) (bw_billing w) = (Inr m, d)" and "hr_Applied m" and "0 < n"
  shows "\<exists>w'. run_prog (Process_provider E (bj_BatchID j)) sha ts' (run_for (fail_and_release j s code msg) n sha ts w) =
      Some (Inr \<lparr>rs_RequeueAfter = 0, rs_Terminal = True\<rparr>, w') \<and>
    bw_billing w' = d \<and> released_as (bj_BatchID j) s w' \<and>
    run_prog (Process_provider E (bj_BatchID j)) sha ts'' w' = Some (Inr \<lparr>rs_RequeueAfter = 0, rs_Terminal = True\<rparr>, w')"
proof -
  let ?b = "bj_BatchID j"
  let ?u = "transition_update (ts 0) s code msg j"
  let ?v = "w\<lparr>bw_jobs := fmupd ?b ?u (bw_jobs w)\<rparr>"
  have terms: "job_terms ?u = job_terms j" using transition_row [OF assms(2)] by (simp add: row_change_def)
  have st: "bj_Status ?u = s" by (simp add: transition_update_def)
  note again = movement_repeat [OF assms(6,7)]
  let ?j = "j\<lparr>bj_Status := s\<rparr>"
  have jt: "job_terms ?j = job_terms j" by (simp add: job_terms_def hold_amount_def cong: option.case_cong)
  then have "job_keyed ?j" "0 < hold_amount ?j" using assms(4,5) by (simp_all add: job_terms_def job_keyed_def)
  then obtain e' where rel: "releaseTerminalHold ?j give_up terminal = move_hold Release (release_command ?j) e' terminal"
    using assms(3) by (elim releaseTerminalHold_keyed) auto
  have moved: "movement Release sha (release_command j) (bw_billing ?v) = (Inr m, d)" using assms(6) by simp
  have v: "run_for (fail_and_release j s code msg) n sha ts w \<in> {?v, ?v\<lparr>bw_billing := d\<rparr>}"
    using assms(8) by (simp add: fail_and_release_def run_transition [OF assms(1,2)] rel release_command_terms [OF jt]
        run_move_hold(2) [OF moved] del: movement.simps)
  have look: "fmlookup (bw_jobs ?v) ?b = Some ?u" "fmlookup (bw_jobs (?v\<lparr>bw_billing := d\<rparr>)) ?b = Some ?u" by simp_all
  note p = process_done [where s = s and j = j and sha = sha and E = E, OF _ terms assms(4,5) st assms(3)]
  have "released_as ?b s (?v\<lparr>bw_billing := d\<rparr>)" by (simp add: released_as_def st)
  moreover have "run_prog (Process_provider E ?b) sha ts' (run_for (fail_and_release j s code msg) n sha ts w) =
      Some (Inr \<lparr>rs_RequeueAfter = 0, rs_Terminal = True\<rparr>, ?v\<lparr>bw_billing := d\<rparr>)"
    using v p [OF look(1), of m d] p [OF look(2), of no_result d] again assms(6) by (auto simp del: movement.simps)
  moreover have "run_prog (Process_provider E ?b) sha ts'' (?v\<lparr>bw_billing := d\<rparr>) =
      Some (Inr \<lparr>rs_RequeueAfter = 0, rs_Terminal = True\<rparr>, ?v\<lparr>bw_billing := d\<rparr>)"
    using p [OF look(2), of no_result d] again by (simp del: movement.simps)
  ultimately show ?thesis by auto
qed

subsection \<open>The hypotheses can hold\<close>

definition settling_a :: BatchImageJob where "settling_a = with_status StatusSettling job_a"

lemma sample_lookup: "fmlookup (bw_jobs (batch_sample_world [with_status s job_a] reserved_db)) (bj_BatchID (with_status s job_a)) =
    Some (with_status s job_a)"
  by (simp add: batch_sample_world_def fmlookup_of_list)

lemma applied_result:
  assumes "case fst (movement op sha c d) of Inl e \<Rightarrow> False | Inr r \<Rightarrow> hr_Applied r"
  obtains m where "movement op sha c d = (Inr m, snd (movement op sha c d))" "hr_Applied m"
  using assms by (cases "movement op sha c d") (auto split: sum.splits simp del: movement.simps)

theorem settles_exactly_once_witness:
  "\<exists>r w'. run_prog (Settle batch_sample_env ''a'') id (\<lambda>k. 9)
      (run_for (Settle batch_sample_env ''a'') 2 id (\<lambda>k. 5) (batch_sample_world [settling_a] reserved_db)) = Some (Inr r, w') \<and>
    st_ActualCost r = 400000000 \<and> bw_billing w' = snd (movement Capture id (capture_command batch_sample_env settling_a) reserved_db)"
proof -
  let ?w = "batch_sample_world [settling_a] reserved_db"
  have ready: "settle_ready settling_a" by code_simp
  have "case fst (movement Capture id (capture_command batch_sample_env settling_a) (bw_billing ?w)) of Inl e \<Rightarrow> False | Inr r \<Rightarrow> hr_Applied r"
    by code_simp
  then obtain m where m: "movement Capture id (capture_command batch_sample_env settling_a) (bw_billing ?w) =
      (Inr m, snd (movement Capture id (capture_command batch_sample_env settling_a) (bw_billing ?w)))" "hr_Applied m"
    by (rule applied_result)
  have fields: "bj_BatchID settling_a = ''a''" "bj_SuccessCount settling_a * bj_BillableUnitPrice settling_a = 400000000"
    "bw_billing ?w = reserved_db"
    by (simp_all add: settling_a_def with_status_def job_a_def sample_job_def batch_sample_world_def)
  from settles_exactly_once [OF sample_lookup [of StatusSettling, folded settling_a_def] ready m, of "\<lambda>k. 9" 2 "\<lambda>k. 5"]
  show ?thesis by (auto simp: fields simp del: movement.simps)
qed

theorem releases_exactly_once_witness:
  "\<exists>w'. run_prog (Process_provider batch_sample_env ''a'') id (\<lambda>k. 9)
      (run_for (fail_and_release (with_status StatusRunning job_a) StatusFailed (Some ''E'') None) 1 id (\<lambda>k. 5)
         (batch_sample_world [with_status StatusRunning job_a] reserved_db)) =
      Some (Inr \<lparr>rs_RequeueAfter = 0, rs_Terminal = True\<rparr>, w') \<and> released_as ''a'' StatusFailed w' \<and>
    bw_billing w' = snd (movement Release id (release_command job_a) reserved_db)"
proof -
  let ?j = "with_status StatusRunning job_a"
  let ?w = "batch_sample_world [?j] reserved_db"
  have hyps: "CanTransitionBatchImageJob (bj_Status ?j) StatusFailed" "job_keyed ?j" "0 < hold_amount ?j" by code_simp+
  have "case fst (movement Release id (release_command ?j) (bw_billing ?w)) of Inl e \<Rightarrow> False | Inr r \<Rightarrow> hr_Applied r"
    by code_simp
  then obtain m where m: "movement Release id (release_command ?j) (bw_billing ?w) =
      (Inr m, snd (movement Release id (release_command ?j) (bw_billing ?w)))" "hr_Applied m"
    by (rule applied_result)
  have fields: "bj_BatchID ?j = ''a''" "bw_billing ?w = reserved_db" "release_command ?j = release_command job_a"
    by (simp_all add: with_status_def job_a_def sample_job_def batch_sample_world_def release_command_def job_command_def
        buildBatchImageHoldCommand_def hold_amount_def)
  from releases_exactly_once [OF sample_lookup hyps(1) _ hyps(2,3) m, where n = 1 and E = batch_sample_env and ts' = "\<lambda>k. 9"
      and ts = "\<lambda>k. 5" and code = "Some ''E''" and msg = None and ts'' = "\<lambda>k. 9"]
  show ?thesis by (auto simp: fields simp del: movement.simps)
qed

end
