(* ===== verification/Batch_Image_Faults.thy ===== *)
theory Batch_Image_Faults
  imports Batch_Image_Settlement
begin

section \<open>Where holds get lost\<close>

text \<open>
  Three ways in which the books and the jobs part: a hold whose amount is not a multiple of 1e-8, a
  job that is cancelled before its hold is reserved, and a settlement that captured but could not
  say so. The first is why \<open>holds_accounted\<close> is exact only for multiples of 1e-8, the others are
  orders of movements that it excludes.
\<close>

lemma movement_refused:
  assumes "\<not> claimed d (request_key c)" "trim_space (hc_RequestID c) \<noteq> []"
    and "hold_effect op (Normalize sha c)
      (d\<lparr>bd_dedup := fmupd (request_key c) (hc_RequestFingerprint (Normalize sha c)) (bd_dedup d)\<rparr>) = Inl e"
  shows "movement op sha c d = (Inl e, d)"
  using assms by (simp add: movement_effect applyBatchImageBalanceHold_def Let_def claimUsageBillingRequest_def
      claimed_def request_key_def fmdom_notD)

lemma job_command_named: "job_keyed j \<Longrightarrow> trim_space (hc_RequestID (job_command op j actual payload)) \<noteq> []"
  using job_command_fields(6) [of j op actual payload] hold_request_ne [of op "bj_BatchID j"] by (simp add: request_key_def)

lemma keyed_claims:
  assumes "movement op sha (job_command op j actual payload) d = (Inr r, d')" "hr_Applied r" "job_keyed j"
  shows "request_claimed d' op' j \<longleftrightarrow> request_claimed d op' j \<or> op' = op"
  using movement_claimed [OF assms(2,1)] request_inj [of "bj_BatchID j" "bj_BatchID j" op' op] assms(3)
  by (auto simp: request_claimed_def job_command_fields job_keyed_def)

subsection \<open>Amounts of ten decimals over balances of eight\<close>

text \<open>Property C34. A hold that rounds down freezes less than the later steps ask for: when a user without
  other frozen money reserves an amount that is rounded down to the scale of the balance columns,
  the reservation succeeds, and after it neither the release nor any capture within the hold can
  be applied, so the money stays frozen.\<close>
theorem rounded_hold_is_stuck:
  assumes "job_keyed j" and "to_scale8 (hold_amount j) < hold_amount j" and "0 < hold_amount j"
    and "fmlookup (bd_users d) (bj_UserID j) = Some u" and "\<not> ub_deleted u" and "ub_frozen u = 0" and "hold_amount j \<le> ub_balance u"
    and "\<And>op. \<not> request_claimed d op j"
  shows "\<exists>r d'. movement Reserve sha (job_command Reserve j 0 payload) d = (Inr r, d') \<and> hr_Applied r \<and>
    frozen_of d' (bj_UserID j) = to_scale8 (hold_amount j) \<and>
    movement Release sha (job_command Release j 0 payload') d' = (Inl ErrFrozenInsufficient, d') \<and>
    (cost \<le> hold_amount j \<longrightarrow>
       movement Capture sha (job_command Capture j cost payload'') d' = (Inl ErrFrozenInsufficient, d'))"
proof -
  let ?c = "job_command Reserve j 0 payload"
  have unclaimed: "\<not> claimed d (request_key (job_command op j a p))" for op a p
    using assms(1,8) by (simp add: job_command_fields request_claimed_def)
  have held: "held_amount j = hold_amount j" using assms(3) by (simp add: held_amount_def)
  let ?u = "u\<lparr>ub_balance := to_scale8 (ub_balance u - hold_amount j), ub_frozen := to_scale8 (hold_amount j)\<rparr>"
  let ?d1 = "d\<lparr>bd_dedup := fmupd (request_key ?c) (hc_RequestFingerprint (Normalize sha ?c)) (bd_dedup d)\<rparr>"
  let ?d' = "?d1\<lparr>bd_users := fmupd (bj_UserID j) ?u (bd_users d)\<rparr>"
  have "\<exists>r. hold_effect Reserve (Normalize sha ?c) ?d1 = Inr (r, ?d')"
    using assms(1,3-7) by (simp add: hold_effect_defs move_balance_def Let_def job_command_fields held)
  then obtain r where "hold_effect Reserve (Normalize sha ?c) ?d1 = Inr (r, ?d')" by blast
  note reserved = movement_applies [OF unclaimed job_command_named [OF assms(1)] this]
  have user: "fmlookup (bd_users ?d') (bj_UserID j) = Some ?u" by simp
  have left: "\<not> claimed ?d' (request_key (job_command op j a p))" if "op \<noteq> Reserve" for op a p
    using keyed_claims [OF reserved _ assms(1), of op] assms(8) that
    by (simp add: request_claimed_def job_command_fields [OF assms(1)] del: movement.simps)
  have hold: "batchImageHoldClaimExists (BatchImageHoldRequestID (bj_BatchID j)) (the (bj_APIKeyID j)) (?d'\<lparr>bd_dedup := fmupd k v (bd_dedup ?d')\<rparr>)" for k v
    using job_command_fields(6) [OF assms(1), of Reserve 0 payload] by (simp add: batchImageHoldClaimExists_def hold_request_def)
  have "movement Release sha (job_command Release j 0 payload') ?d' = (Inl ErrFrozenInsufficient, ?d')"
    using hold assms(1-3,5) user
    by (intro movement_refused left job_command_named)
      (simp_all add: releaseUsageBillingBatchImageBalance_def job_command_fields held move_balance_def Let_def)
  moreover have "movement Capture sha (job_command Capture j cost payload'') ?d' = (Inl ErrFrozenInsufficient, ?d')"
    if "cost \<le> hold_amount j"
  proof -
    have "\<not> 100 < max 0 cost - hold_amount j" using that assms(3) by linarith
    with assms(1-3,5) user show ?thesis
      by (intro movement_refused left job_command_named)
        (simp_all add: captureUsageBillingBatchImageBalance_def job_command_fields held move_balance_def Let_def)
  qed
  moreover have "frozen_of ?d' (bj_UserID j) = to_scale8 (hold_amount j)" by (simp add: frozen_of_def)
  ultimately show ?thesis using reserved
    by (intro exI [of _ "r\<lparr>hr_Applied := True\<rparr>"] exI [of _ ?d']) (simp del: movement.simps)
qed

definition odd_job :: BatchImageJob where "odd_job = sample_job ''o'' 500000001"

theorem rounded_hold_is_stuck_witness:
  "\<exists>d'. frozen_of d' 7 = 500000000 \<and>
     movement Release id (job_command Release odd_job 0 ''h'') d' = (Inl ErrFrozenInsufficient, d') \<and>
     movement Capture id (job_command Capture odd_job 400000000 ''m'') d' = (Inl ErrFrozenInsufficient, d')"
proof -
  have hyps: "job_keyed odd_job" "to_scale8 (hold_amount odd_job) < hold_amount odd_job" "0 < hold_amount odd_job"
    and out: "to_scale8 (hold_amount odd_job) = 500000000" "400000000 \<le> hold_amount odd_job"
    by code_simp+
  have user: "fmlookup (bd_users sample_db) (bj_UserID odd_job) = Some \<lparr>ub_balance = 20000000000, ub_frozen = 0, ub_deleted = False\<rparr>"
    "bj_UserID odd_job = 7" "hold_amount odd_job = 500000001"
    by (simp_all add: sample_db_def odd_job_def sample_job_def fmlookup_of_list hold_amount_def)
  from rounded_hold_is_stuck [OF hyps user(1) _ _ _ sample_unclaimed, of id "''h''" "''h''" 400000000 "''m''"] out user(2,3)
  show ?thesis by (auto simp del: movement.simps)
qed

subsection \<open>Cancelled before the reservation\<close>

text \<open>
  A job is visible as soon as it is inserted, before its hold is reserved. The owner cancels it in
  between: the release finds no hold, does nothing, and is recorded as done. The submission then
  reserves the hold, finds the job cancelled, and its release is taken for a repetition.
\<close>

definition cancel_race :: "batch_event list" where
  "cancel_race =
     [Made 0 1,
      Made 1 2, Made 1 3, Made 1 4, Made 1 5,
      Made 0 6, Answered 0 RepOk, Made 0 7, Made 0 8]"

definition race_start :: "(go_error + BatchImageJob) batch_system" where
  "race_start = (batch_sample_world [] sample_db, [Submit_tail batch_sample_env job_a ''h'' [''p''], Cancel batch_sample_env 7 3 ''a''])"

definition race_job :: BatchImageJob where "race_job = job_a\<lparr>bj_UpdatedAt := 1\<rparr>"

definition race_cancelled :: batch_jobs where
  "race_cancelled = fmupd ''a'' (transition_update 3 StatusCancelled None None race_job) (fmupd ''a'' race_job fmempty)"

definition race_billing :: billing_db where
  "race_billing = snd (movement Reserve id (job_command Reserve race_job 0 ''h'')
     (snd (movement Release id (release_command race_job) sample_db)))"

definition race_end :: batch_world where
  "race_end = \<lparr>bw_jobs = race_cancelled, bw_billing = race_billing\<rparr>"

lemma race_movements:
  "case fst (movement Release id (release_command race_job) sample_db) of Inl e \<Rightarrow> False | Inr r \<Rightarrow> hr_Applied r"
  "case fst (movement Reserve id (job_command Reserve race_job 0 ''h'') (snd (movement Release id (release_command race_job) sample_db)))
     of Inl e \<Rightarrow> False | Inr r \<Rightarrow> hr_Applied r"
  by code_simp+

lemma race_released: "has_entry id (release_command race_job) race_billing"
  unfolding race_billing_def
  by (rule applied_result [OF race_movements(1)]) (blast intro: entry_stays applied_entry)

lemma race_job_fields:
  "bj_BatchID race_job = ''a''" "bj_UserID race_job = 7" "bj_APIKeyID race_job = Some 3" "bj_Status race_job = StatusCreated"
  "bj_ProviderJobName race_job = None" "bj_UserDeletedAt race_job = None" "bj_RequestHash race_job = Some ''h''"
  "job_keyed race_job" "0 < hold_amount race_job"
  by code_simp+

lemma race_statuses:
  "\<not> isBatchImageProcessorDoneStatus StatusCreated" "CanTransitionBatchImageJob StatusCreated StatusCancelled"
  "\<not> CanTransitionBatchImageJob StatusCancelled StatusUploading"
  "batchImageDerefString None = []" "batchImageDerefString (Some ''h'') = ''h''"
  by code_simp+

lemma race_run:
  "\<exists>x. batch_run id cancel_race race_start =
     Some (race_end, [Finish (Inl (App ErrBatchImageInvalidTransition)), Finish (Inr x)])"
proof -
  let ?E = batch_sample_env
  let ?w1 = "\<lparr>bw_jobs = fmupd ''a'' race_job fmempty, bw_billing = sample_db\<rparr>"
  let ?w2 = "?w1\<lparr>bw_jobs := race_cancelled\<rparr>"
  define d1 where "d1 = snd (movement Release id (release_command race_job) sample_db)"
  let ?w3 = "?w2\<lparr>bw_billing := d1\<rparr>"
  let ?u = "transition_update 3 StatusCancelled None None race_job"
  let ?p1 = "submit_created ?E 7 3 race_job ''h'' [''p'']"
  let ?again = "get_job (GetOwned 7 3 ''a'') give_up (\<lambda>u. Finish (Inr u)) :: (go_error + BatchImageJob) batch_prog"
  let ?q1 = "command (Transition ''a'' StatusCancelled None None) give_up (release_or_retry race_job ?again)"
  let ?p4 = "\<lambda>x. releaseFailedSubmitHold ?E race_job ''h''
      (if x = App ErrBatchImageInvalidTransition then give_up x
       else note_submit_failure ?E (bj_BatchID race_job) ''UPLOAD_TRANSITION_FAILED'' x True (hidePreUpstreamSubmitFailure 7 3 race_job (give_up x)))"
  let ?p3 = "command (Transition ''a'' StatusUploading None None) ?p4
      (submit_upstream ?E 7 3 (race_job\<lparr>bj_Status := StatusUploading\<rparr>) ''h'')"
  let ?p2 = "command (CreateItems ''a'' [''p''])
      (\<lambda>x. releaseFailedSubmitHold ?E race_job ''h''
         (note_submit_failure ?E ''a'' ''ITEM_CREATE_FAILED'' x True
            (hidePreUpstreamSubmitFailure 7 3 race_job (give_up (App ErrBatchImageQueueFailed))))) ?p3"
  obtain m1 where m1: "movement Release id (release_command race_job) sample_db = (Inr m1, d1)"
    unfolding d1_def by (rule applied_result [OF race_movements(1)])
  obtain m2 where m2: "movement Reserve id (job_command Reserve race_job 0 ''h'') d1 = (Inr m2, race_billing)"
    unfolding d1_def race_billing_def by (rule applied_result [OF race_movements(2)])
  note m3 = entry_repeats [OF race_released, of Release]
  have created: "CreateBatchImageJob 1 job_a fmempty = (Inr race_job, fmupd ''a'' race_job fmempty)"
    by code_simp
  have u: "bj_Status ?u = StatusCancelled" "bj_UserID ?u = 7" "bj_APIKeyID ?u = Some 3" "bj_UserDeletedAt ?u = None"
    by (simp_all add: transition_update_def race_job_fields StatusCancelled_def StatusOutputDeleted_def)
  have release: "releaseBatchImageBalanceHold race_job ''h'' e k = move_hold Release (release_command race_job)
      (\<lambda>x. if x = ErrUsageBillingRequestConflict then k else e (App ErrBatchImageBillingHoldFailed)) k"
    for e and k :: "(go_error + BatchImageJob) batch_prog"
    by (simp add: release_keyed race_job_fields release_command_def race_statuses)
  have "batch_step id (Made 0 1) race_start = Some (?w1, [?p1, Cancel ?E 7 3 ''a''])"
    using created
    by (simp add: race_start_def advance_def Submit_tail_def get_job_def batch_sample_world_def reply_job_def job_a_def sample_job_def)
  moreover have "batch_step id (Made 1 2) (?w1, [?p1, Cancel ?E 7 3 ''a'']) = Some (?w1, [?p1, ?q1])"
    by (simp add: advance_def Cancel_def get_job_def reply_job_def GetBatchImageJobByBatchIDForOwner_def race_job_fields race_statuses)
  moreover have "batch_step id (Made 1 3) (?w1, [?p1, ?q1]) = Some (?w2, [?p1, release_or_retry race_job ?again])"
    by (simp add: advance_def command_def done_jobs_def TransitionBatchImageJobStatus_def race_cancelled_def race_job_fields race_statuses)
  moreover have "batch_step id (Made 1 4) (?w2, [?p1, release_or_retry race_job ?again]) = Some (?w3, [?p1, ?again])"
    by (simp add: advance_def release_or_retry_def release race_job_fields race_statuses move_hold_def m1 del: movement.simps)
  moreover have "batch_step id (Made 1 5) (?w3, [?p1, ?again]) = Some (?w3, [?p1, Finish (Inr ?u)])"
    by (simp add: advance_def get_job_def reply_job_def GetBatchImageJobByBatchIDForOwner_def race_cancelled_def u del: movement.simps)
  moreover have "batch_step id (Made 0 6) (?w3, [?p1, Finish (Inr ?u)]) = Some (race_end, [?p2, Finish (Inr ?u)])"
    by (simp add: advance_def submit_created_def reserve_keyed race_job_fields move_hold_def m2 race_end_def del: movement.simps)
  moreover have "batch_step id (Answered 0 RepOk) (race_end, [?p2, Finish (Inr ?u)]) = Some (race_end, [?p3, Finish (Inr ?u)])"
    by (simp add: advance_def command_def)
  moreover have "batch_step id (Made 0 7) (race_end, [?p3, Finish (Inr ?u)]) =
      Some (race_end, [?p4 (App ErrBatchImageInvalidTransition), Finish (Inr ?u)])"
    by (simp add: advance_def command_def done_jobs_def TransitionBatchImageJobStatus_def race_end_def race_cancelled_def u race_statuses)
  moreover have "batch_step id (Made 0 8) (race_end, [?p4 (App ErrBatchImageInvalidTransition), Finish (Inr ?u)]) =
      Some (race_end, [Finish (Inl (App ErrBatchImageInvalidTransition)), Finish (Inr ?u)])"
    by (simp add: advance_def releaseFailedSubmitHold_def release move_hold_def race_end_def m3 give_up_def del: movement.simps)
  ultimately have "batch_run id cancel_race race_start =
      Some (race_end, [Finish (Inl (App ErrBatchImageInvalidTransition)), Finish (Inr ?u)])"
    unfolding cancel_race_def by (simp only: batch_run.simps option.case)
  then show ?thesis by blast
qed

text \<open>Property C31. A cancellation that comes before the reservation strands the hold: there is a run of a
  submission and its owner's cancellation without any fault, in which the owner is told the batch is
  cancelled and the submission fails because of it, and which ends with the hold frozen; from
  then on neither another cancellation nor a worker gives it back.\<close>
theorem early_cancel_strands_hold:
  "\<exists>es w x. batch_run id es (batch_sample_world [] sample_db, [Submit_tail batch_sample_env job_a ''h'' [''p''], Cancel batch_sample_env 7 3 ''a'']) =
       Some (w, [Finish (Inl (App ErrBatchImageInvalidTransition)), Finish (Inr x)]) \<and>
     released_as ''a'' StatusCancelled w \<and> frozen_of sample_db 7 = 0 \<and> frozen_of (bw_billing w) 7 = 500000000 \<and>
     (\<forall>E ts. run_prog (Process_provider E ''a'') id ts w = Some (Inr \<lparr>rs_RequeueAfter = 0, rs_Terminal = True\<rparr>, w)) \<and>
     (\<forall>E ts. \<exists>y. run_prog (Cancel E 7 3 ''a'') id ts w = Some (Inr y, w))"
proof -
  let ?u = "transition_update 3 StatusCancelled None None race_job"
  obtain x where run_prog: "batch_run id cancel_race race_start =
      Some (race_end, [Finish (Inl (App ErrBatchImageInvalidTransition)), Finish (Inr x)])"
    using race_run by blast
  have look: "fmlookup (bw_jobs race_end) ''a'' = Some ?u" by (simp add: race_end_def race_cancelled_def)
  have terms: "job_terms ?u = job_terms race_job"
    using transition_row [of race_job StatusCancelled False 3 None None] race_statuses(2) by (simp add: row_change_def race_job_fields)
  have u: "bj_Status ?u = StatusCancelled" "bj_UserID ?u = 7" "bj_APIKeyID ?u = Some 3" "bj_UserDeletedAt ?u = None"
    "bj_RequestHash ?u = Some ''h''"
    by (simp_all add: transition_update_def race_job_fields StatusCancelled_def StatusOutputDeleted_def)
  have keyed: "job_keyed ?u" "0 < hold_amount ?u"
    using terms race_job_fields(8,9) by (simp_all add: job_terms_def job_keyed_def)
  have m: "movement Release id (release_command race_job) (bw_billing race_end) = (Inr no_result, race_billing)"
    using entry_repeats [OF race_released, of Release] by (simp add: race_end_def del: movement.simps)
  have "run_prog (Process_provider E ''a'') id ts race_end = Some (Inr \<lparr>rs_RequeueAfter = 0, rs_Terminal = True\<rparr>, race_end)" for E ts
    using process_done [OF look terms race_job_fields(8,9) u(1) _ m] by (simp add: race_end_def)
  moreover have "\<exists>y. run_prog (Cancel E 7 3 ''a'') id ts race_end = Some (Inr y, race_end)" for E ts
  proof -
    have finished: "isBatchImageProcessorDoneStatus StatusCancelled" by code_simp
    have "movement Release id (job_command Release ?u 0 ''h'') race_billing = (Inr no_result, race_billing)"
      using m release_command_terms [OF terms] by (simp add: release_command_def u race_job_fields race_statuses race_end_def del: movement.simps)
    moreover have "fmlookup race_cancelled ''a'' = Some ?u" using look by (simp add: race_end_def)
    ultimately show ?thesis
      by (simp add: Cancel_def get_job_def reply_job_def GetBatchImageJobByBatchIDForOwner_def look u keyed finished release_or_retry_def
          race_statuses release_keyed move_hold_def race_end_def del: movement.simps)
  qed
  moreover have "released_as ''a'' StatusCancelled race_end" by (simp add: released_as_def look u)
  moreover have "frozen_of (bw_billing race_end) 7 = 500000000" "frozen_of sample_db 7 = 0" by code_simp+
  ultimately show ?thesis using run_prog unfolding race_start_def by blast
qed

subsection \<open>Captured but not settled\<close>

text \<open>
  A settlement that captured the hold but could not mark the job is repeated. When the repetition
  fails as well and it was the fifth failure, the hold is released, although it was captured: the
  release only asks whether the hold was reserved. The money it takes is that of another batch.
\<close>

definition tired_job :: BatchImageJob where "tired_job = settling_a\<lparr>bj_RetryCount := 4, bj_LastErrorCode := Some ''SETTLEMENT_BILLING_FAILED''\<rparr>"

definition lost_mark :: "batch_event list" where
  "lost_mark =
     [Made 0 1, Made 0 2, Made 0 3, Fault 0 (Other ''connection lost''),
      Made 1 4, Fault 1 (Other ''connection lost''), Made 1 5, Made 1 6, Made 1 7]"

lemma tired_fields:
  "bj_BatchID tired_job = ''a''" "settle_ready tired_job" "job_keyed tired_job" "0 < hold_amount tired_job"
  "bj_RetryCount tired_job = 4" "bj_Status tired_job = StatusSettling" "bj_RequestHash tired_job = Some ''h''"
  "CanTransitionBatchImageJob StatusSettling StatusFailed"
  by code_simp+

lemma frozen_refused:
  assumes "job_keyed j" "\<not> request_claimed d op j" "request_claimed d Reserve j" "op \<noteq> Reserve" "user_exists d (bj_UserID j)"
    and "frozen_of d (bj_UserID j) < held_amount j" and "max 0 actual \<le> held_amount j" and "0 \<le> frozen_of d (bj_UserID j)"
  shows "movement op sha (job_command op j actual payload) d = (Inl ErrFrozenInsufficient, d)"
proof -
  let ?c = "job_command op j actual payload"
  let ?d1 = "d\<lparr>bd_dedup := fmupd (request_key ?c) (hc_RequestFingerprint (Normalize sha ?c)) (bd_dedup d)\<rparr>"
  obtain u where u: "fmlookup (bd_users d) (bj_UserID j) = Some u" "\<not> ub_deleted u"
    using assms(5) by (auto simp: user_exists_def split: option.splits)
  have "batchImageHoldClaimExists (BatchImageHoldRequestID (bj_BatchID j)) (the (bj_APIKeyID j)) ?d1"
    using assms(3) by (auto simp: batchImageHoldClaimExists_def request_claimed_def claimed_def hold_request_def)
  with assms(1,4,6-8) u have "hold_effect op (Normalize sha ?c) ?d1 = Inl ErrFrozenInsufficient"
    by (cases op) (auto simp: hold_effect_defs job_command_fields move_balance_def frozen_of_def)
  then show ?thesis
    using assms(1,2) by (intro movement_refused job_command_named) (simp_all add: job_command_fields request_claimed_def)
qed

lemma released_twice_over:
  assumes "books_ok d" "job_keyed a" "job_keyed b" "bj_BatchID a \<noteq> bj_BatchID b" "bj_UserID b = bj_UserID a"
    and "held_amount a = held_amount b" "0 < held_amount b" "request_claimed d Reserve a" "\<not> request_claimed d Release a"
    and "outstanding d b" "frozen_of d (bj_UserID a) = held_amount b" "user_exists d (bj_UserID a)"
    and "100 dvd held_amount a"
  obtains m d' where "movement Release sha (job_command Release a 0 p) d = (Inr m, d')" "hr_Applied m"
    "frozen_of d' (bj_UserID a) = 0" "outstanding d' b" "user_exists d' (bj_UserID a)"
proof -
  let ?c = "job_command Release a 0 p"
  let ?d1 = "d\<lparr>bd_dedup := fmupd (request_key ?c) (hc_RequestFingerprint (Normalize sha ?c)) (bd_dedup d)\<rparr>"
  have held: "batchImageHoldClaimExists (BatchImageHoldRequestID (bj_BatchID a)) (the (bj_APIKeyID a)) ?d1"
    using assms(8) by (auto simp: batchImageHoldClaimExists_def request_claimed_def claimed_def hold_request_def)
  have "\<exists>r d'. move_balance (bj_UserID a) (\<lambda>u. held_amount a \<le> ub_frozen u) (\<lambda>u. ub_balance u + held_amount a)
      (\<lambda>u. ub_frozen u - held_amount a) ErrFrozenInsufficient ?d1 = Inr (r, d')"
    using assms(6,11,12) by (intro balance_move_ok) (auto simp: user_exists_def frozen_of_def)
  then obtain r d' where e: "hold_effect Release (Normalize sha ?c) ?d1 = Inr (r, d')"
    using assms(2,6,7) held by (auto simp: hold_effect_defs job_command_fields)
  have new: "\<not> claimed d (request_key ?c)" using assms(2,9) by (simp add: request_claimed_def job_command_fields)
  note m = movement_applies [OF new job_command_named [OF assms(2)] e]
  have "frozen_of d' (bj_UserID a) = frozen_of d (bj_UserID a) - held_amount a"
    using effect_frozen [OF e, of "bj_UserID a"] assms(1,2,13) held
    by (simp add: job_command_fields frozen_change_def frozen_of_def rounding_def)
  moreover have "outstanding d' b"
    using assms(4,10) applied_claims [OF m _ assms(2,3)] by (auto simp: outstanding_def simp del: movement.simps)
  moreover have "user_exists d' (bj_UserID a)"
    using effect_users [OF e, of "bj_UserID a"] assms(12) by (simp add: user_exists_def)
  ultimately show thesis using that [OF m] assms(6,11) by simp
qed

lemma lost_mark_books:
  obtains m1 d1 m2 d2 where
    "movement Capture id (capture_command batch_sample_env tired_job) reserved_db = (Inr m1, d1)"
    "movement Release id (release_command tired_job) d1 = (Inr m2, d2)"
    "request_claimed d2 Capture job_a" "outstanding d2 job_b" "frozen_of d2 7 = 0" "user_exists d2 7"
proof -
  have cap: "capture_command batch_sample_env tired_job = job_command Capture job_a 400000000 ''m''"
    and rel: "release_command tired_job = job_command Release job_a 0 ''h''"
    by code_simp+
  have jobs: "job_keyed job_a" "job_keyed job_b" using sample_jobs by (simp_all add: jobs_ok_def)
  have ids: "bj_BatchID job_a \<noteq> bj_BatchID job_b" "bj_UserID job_b = bj_UserID job_a" "bj_UserID job_a = 7"
    "held_amount job_a = held_amount job_b" "held_amount job_b = 500000000" "frozen_of sample_db 7 = 0" "user_exists sample_db 7"
    by code_simp+
  then have ne: "job_b \<noteq> job_a" by auto
  have "case fst (movement Capture id (job_command Capture job_a 400000000 ''m'') reserved_db) of Inl e \<Rightarrow> False | Inr r \<Rightarrow> hr_Applied r"
    by code_simp
  then obtain m1 d1 where m1: "movement Capture id (job_command Capture job_a 400000000 ''m'') reserved_db = (Inr m1, d1)" "hr_Applied m1"
    by (rule applied_result) blast
  have whole: "\<forall>j\<in>{job_a, job_b}. rounding (held_amount j) \<le> 0" "100 dvd held_amount job_a"
    using sample_holds held_amount_whole by (auto simp: rounding_def)
  have acc0: "accounted sample_db {job_a, job_b} 0 reserved_db"
    using run_accounted [OF reserved_run accounted_start [OF sample_books sample_unclaimed] sample_jobs _ whole(1)] by simp
  have out: "outstanding reserved_db job_a" "outstanding reserved_db job_b" by (fact reserved_facts) code_simp
  then have "hold_orderly reserved_db Capture job_a" by (simp add: hold_orderly_def outstanding_def)
  then have acc: "accounted sample_db {job_a, job_b} 0 d1"
    using accounted_step [OF acc0 sample_jobs, of job_a Capture 0 id 400000000 "''m''"] m1(1) whole(1) by simp
  note claims = applied_claims [OF m1 jobs(1)]
  have a: "request_claimed d1 Reserve job_a" "request_claimed d1 Capture job_a" "\<not> request_claimed d1 Release job_a"
    using out(1) claims [OF jobs(1)] by (auto simp: outstanding_def)
  then have "\<not> outstanding d1 job_a" by (simp add: outstanding_def)
  moreover have b: "outstanding d1 job_b" using out(2) claims [OF jobs(2)] ids(1) by (auto simp: outstanding_def)
  ultimately have "frozen_of d1 7 = 500000000"
    using acc ids ne by (simp add: accounted_def frozen_total_def)
  moreover have "user_exists d1 7" "books_ok d1" using acc ids by (simp_all add: accounted_def)
  ultimately obtain m2 d2 where m2: "movement Release id (job_command Release job_a 0 ''h'') d1 = (Inr m2, d2)" "hr_Applied m2"
    "frozen_of d2 7 = 0" "outstanding d2 job_b" "user_exists d2 7"
    using released_twice_over [of d1 job_a job_b id "''h''"] jobs ids a b whole(2) by auto
  have "request_claimed d2 Capture job_a" using applied_claims [OF m2(1,2) jobs(1) jobs(1)] a(2) by simp
  with that [of m1 d1 m2 d2] m1 m2 show thesis by (simp add: cap rel del: movement.simps)
qed

text \<open>Property C32. A batch can be charged and refunded out of another batch's hold: there are two attempts to
  settle a batch, each losing one call, the second being the fifth failure, after which the batch
  is failed although its hold was captured, its hold was released once more, no money is frozen
  although another batch of the user has an outstanding hold, and that hold can be neither captured
  nor released.\<close>
theorem captured_then_released:
  "\<exists>es w x. batch_run id es (batch_sample_world [tired_job, job_b] reserved_db, [Settle batch_sample_env ''a'', Settle batch_sample_env ''a'']) =
       Some (w, [Finish (Inl x), Finish (Inl (App ErrBatchImageSettlementBillingFailed))]) \<and>
     released_as ''a'' StatusFailed w \<and> request_claimed (bw_billing w) Capture job_a \<and>
     outstanding (bw_billing w) job_b \<and> frozen_of (bw_billing w) 7 = 0 \<and>
     movement Capture id (job_command Capture job_b 400000000 ''m'') (bw_billing w) = (Inl ErrFrozenInsufficient, bw_billing w) \<and>
     movement Release id (release_command job_b) (bw_billing w) = (Inl ErrFrozenInsufficient, bw_billing w)"
proof -
  obtain m1 d1 m2 d2 where
    m1: "movement Capture id (capture_command batch_sample_env tired_job) reserved_db = (Inr m1, d1)" and
    m2: "movement Release id (release_command tired_job) d1 = (Inr m2, d2)" and
    d2: "request_claimed d2 Capture job_a" "outstanding d2 job_b" "frozen_of d2 7 = 0" "user_exists d2 7"
    by (rule lost_mark_books)
  let ?E = batch_sample_env
  let ?x = "Other ''connection lost''"
  let ?w0 = "batch_sample_world [tired_job, job_b] reserved_db"
  let ?w1 = "?w0\<lparr>bw_billing := d1\<rparr>"
  let ?S = "Settle ?E ''a''"
  let ?msg = "truncateBatchImageMessage (be_error_text ?E (App ErrBatchImageSettlementBillingFailed)) batchImageMaxErrorMessageLength"
  let ?code = "''SETTLEMENT_BILLING_FAILED''"
  let ?j1 = "tired_job\<lparr>bj_LastErrorCode := Some ?code,
      bj_LastErrorMessage := Some (truncateBatchImageMessage ?msg batchImageMaxErrorMessageLength), bj_RetryCount := 5, bj_UpdatedAt := 5\<rparr>"
  let ?k = "tired_job\<lparr>bj_RetryCount := 5, bj_LastErrorCode := Some ?code\<rparr>"
  let ?w2 = "?w1\<lparr>bw_jobs := fmupd ''a'' ?j1 (bw_jobs ?w0)\<rparr>"
  let ?w3 = "?w2\<lparr>bw_billing := d2\<rparr>"
  let ?text = "if trim_space ?msg = [] then ''settlement billing retry limit reached'' else trim_space ?msg"
  let ?exit = "Finish (Inl (App ErrBatchImageSettlementBillingFailed)) :: (go_error + BatchImageSettlementResult) batch_prog"
  let ?fail = "command (Transition ''a'' StatusFailed (Some ''SETTLEMENT_BILLING_RETRY_EXHAUSTED'') (Some (?text)))
      (\<lambda>x. Finish (Inl x)) ?exit"
  let ?w4 = "?w3\<lparr>bw_jobs := fmupd ''a'' (transition_update 7 StatusFailed (Some ''SETTLEMENT_BILLING_RETRY_EXHAUSTED'') (Some (?text)) ?j1)
      (bw_jobs ?w2)\<rparr>"
  let ?mark = "\<lambda>now. command (MarkSettled (bj_BatchID tired_job) (bj_SuccessCount tired_job * bj_BillableUnitPrice tired_job)
      (manifest ?E tired_job) now (now + outputRetentionAfterTerminal ?E)) (\<lambda>x. Finish (Inl x)) (Finish (Inr (settle_result ?E tired_job)))"
  have look: "fmlookup (bw_jobs ?w0) ''a'' = Some tired_job" "bw_billing ?w0 = reserved_db"
    by (simp_all add: batch_sample_world_def fmlookup_of_list tired_fields)
  have terms: "job_terms ?k = job_terms tired_job" by (simp add: job_terms_def hold_amount_def cong: option.case_cong)
  then have k: "job_keyed ?k" "0 < hold_amount ?k" using tired_fields(3,4) by (simp_all add: job_terms_def job_keyed_def)
  have release: "releaseBatchImageBalanceHold ?k ''h'' e k' = move_hold Release (release_command tired_job)
      (\<lambda>x. if x = ErrUsageBillingRequestConflict then k' else e (App ErrBatchImageBillingHoldFailed)) k'"
    for e and k' :: "(go_error + BatchImageSettlementResult) batch_prog"
    using release_command_terms [OF terms] release_keyed [OF k, of "''h''"]
    by (simp add: release_command_def tired_fields race_statuses)
  note job = settle_job_ready [OF tired_fields(2), of ?E]
  have "batch_step id (Made 0 1) (?w0, [?S, ?S]) = Some (?w0, [settle_job ?E tired_job, ?S])"
    by (simp add: advance_def Settle_def get_job_def reply_job_def GetBatchImageJobByBatchID_def look)
  moreover have "batch_step id (Made 0 2) (?w0, [settle_job ?E tired_job, ?S]) = Some (?w1, [mark_settled ?E tired_job, ?S])"
    by (simp add: advance_def job move_hold_def look m1 del: movement.simps)
  moreover have "batch_step id (Made 0 3) (?w1, [mark_settled ?E tired_job, ?S]) = Some (?w1, [?mark 3, ?S])"
    by (simp add: advance_def mark_settled_def read_clock_def)
  moreover have "batch_step id (Fault 0 ?x) (?w1, [?mark 3, ?S]) = Some (?w1, [Finish (Inl ?x), ?S])"
    by (simp add: advance_def command_def)
  moreover have "batch_step id (Made 1 4) (?w1, [Finish (Inl ?x), ?S]) = Some (?w1, [Finish (Inl ?x), settle_job ?E tired_job])"
    by (simp add: advance_def Settle_def get_job_def reply_job_def GetBatchImageJobByBatchID_def look)
  moreover have "batch_step id (Fault 1 ?x) (?w1, [Finish (Inl ?x), settle_job ?E tired_job]) =
      Some (?w1, [Finish (Inl ?x), settlement_refused ?E tired_job])"
    by (simp add: advance_def job move_hold_def)
  moreover have "batch_step id (Made 1 5) (?w1, [Finish (Inl ?x), settlement_refused ?E tired_job]) =
      Some (?w2, [Finish (Inl ?x), failExhaustedSettlement ?E ?k ?msg])"
    by (simp add: advance_def settlement_refused_def recordSettlementFailure_def SetBatchImageJobSettlementFailed_def look tired_fields
        batchImageSettlementMaxRetries_def)
  moreover have "batch_step id (Made 1 6) (?w2, [Finish (Inl ?x), failExhaustedSettlement ?E ?k ?msg]) = Some (?w3, [Finish (Inl ?x), ?fail])"
    by (simp add: advance_def failExhaustedSettlement_def release tired_fields race_statuses move_hold_def m2 Let_def del: movement.simps)
  moreover have "batch_step id (Made 1 7) (?w3, [Finish (Inl ?x), ?fail]) = Some (?w4, [Finish (Inl ?x), ?exit])"
    by (simp add: advance_def command_def done_jobs_def TransitionBatchImageJobStatus_def tired_fields)
  ultimately have "batch_run id lost_mark (?w0, [?S, ?S]) = Some (?w4, [Finish (Inl ?x), ?exit])"
    unfolding lost_mark_def by (simp only: batch_run.simps option.case)
  moreover have "released_as ''a'' StatusFailed ?w4" by (simp add: released_as_def transition_update_def)
  moreover have "bw_billing ?w4 = d2" by simp
  moreover have b: "job_keyed job_b" "bj_UserID job_b = 7" "held_amount job_b = 500000000" "release_command job_b = job_command Release job_b 0 ''h''"
    by code_simp+
  have "movement Capture id (job_command Capture job_b 400000000 ''m'') d2 = (Inl ErrFrozenInsufficient, d2)"
    "movement Release id (release_command job_b) d2 = (Inl ErrFrozenInsufficient, d2)"
    using d2(2-4) b by (simp_all add: frozen_refused outstanding_def del: movement.simps)
  ultimately show ?thesis using d2 by metis
qed

end
