(* ===== verification/Batch_Image_Replay.thy ===== *)
theory Batch_Image_Replay
  imports Batch_Image_System
begin

section \<open>Submitting again\<close>

text \<open>
  A submission with the idempotency key of an earlier one is answered with the job of the earlier one
  when the digests of the two requests agree. The digest is that of the validated request, and a
  request without a task name is validated to one named after the time.
\<close>

definition cut_name :: "string \<Rightarrow> string" where
  "cut_name name = (if 255 < length name then truncateBatchImageMessage name 255 else name)"

lemma validate_again:
  assumes "validateSubmitRequest L name1 req0 = Inr req1"
  shows "validateSubmitRequest L name2 req0 =
    Inr (if trim_space (sr_TaskName req0) = [] then req1\<lparr>sr_TaskName := cut_name name2\<rparr> else req1)"
    and "trim_space (sr_TaskName req0) = [] \<Longrightarrow> sr_TaskName req1 = cut_name name1"
  using assms by (auto simp: validateSubmitRequest_def Let_def cut_name_def split: if_splits sum.splits)

text \<open>Submitting again with the same key returns the job of the first submission when the
  request names its task, and is refused as a different request when it does not and the clock has
  moved on: the time that stands in for the name is part of the digest.\<close>
theorem submit_again:
  assumes "validateSubmitRequest L name1 req0 = Inr req1" and "bl_Enabled L" and "trim_space idem \<noteq> []"
    and "bj_RequestHash existing = Some (HashBatchImageSubmitRequest digest req1)" and "\<And>r. trim_space (digest r) = digest r"
    and "bj_Status existing \<noteq> StatusSubmitted"
  shows "(trim_space (sr_TaskName req0) \<noteq> [] \<longrightarrow>
      batch_run sha [Answered 0 RepOk, Answered 0 (RepJob existing)] (w, [Submit E L name2 digest user key req0 idem]) =
        Some (w, [Finish (Inr existing)])) \<and>
    (trim_space (sr_TaskName req0) = [] \<and> length name1 \<le> 255 \<and> length name2 \<le> 255 \<and>
       (\<forall>a b. sr_TaskName a = name1 \<and> sr_TaskName b = name2 \<longrightarrow> digest a \<noteq> digest b) \<longrightarrow>
      batch_run sha [Answered 0 RepOk, Answered 0 (RepJob existing)] (w, [Submit E L name2 digest user key req0 idem]) =
        Some (w, [Finish (Inl (App ErrBatchImageIdempotencyConflict))]))"
proof -
  let ?req = "if trim_space (sr_TaskName req0) = [] then req1\<lparr>sr_TaskName := cut_name name2\<rparr> else req1"
  note again = validate_again [OF assms(1)]
  have run_prog: "batch_run sha [Answered 0 RepOk, Answered 0 (RepJob existing)] (w, [Submit E L name2 digest user key req0 idem]) =
      Some (w, [submit_replay E existing (HashBatchImageSubmitRequest digest ?req)])"
    using assms(2,3) by (simp add: Submit_def again(1) advance_def command_def Let_def)
  have same: "batchImageDerefString (bj_RequestHash existing) = HashBatchImageSubmitRequest digest req1"
    using assms(4,5) by (simp add: batchImageDerefString_def HashBatchImageSubmitRequest_def)
  have "HashBatchImageSubmitRequest digest req1 \<noteq> HashBatchImageSubmitRequest digest ?req"
    if "trim_space (sr_TaskName req0) = []" "length name1 \<le> 255" "length name2 \<le> 255"
      "\<forall>a b. sr_TaskName a = name1 \<and> sr_TaskName b = name2 \<longrightarrow> digest a \<noteq> digest b"
    using that again(2) by (simp add: HashBatchImageSubmitRequest_def cut_name_def)
  with assms(6) same show ?thesis unfolding run_prog by (auto simp: submit_replay_def give_up_def)
qed

definition sample_digest :: "BatchImageSubmitRequest \<Rightarrow> string" where
  "sample_digest r = (if sr_TaskName r = ''2026-01-01 00:00:00'' then ''A'' else ''B'')"

theorem submit_again_witness:
  "\<exists>existing. bj_RequestHash existing = Some ''A'' \<and>
     batch_run id [Answered 0 RepOk, Answered 0 (RepJob existing)]
       (batch_sample_world [] sample_db, [Submit batch_sample_env batch_sample_limits ''2026-01-01 00:00:01'' sample_digest 7 3 (sample_request []) ''k'']) =
     Some (batch_sample_world [] sample_db, [Finish (Inl (App ErrBatchImageIdempotencyConflict))])"
proof -
  let ?now = "''2026-01-01 00:00:00''" and ?later = "''2026-01-01 00:00:01''"
  let ?j = "job_a\<lparr>bj_RequestHash := Some ''A''\<rparr>"
  have valid: "validateSubmitRequest batch_sample_limits ?now (sample_request []) = Inr (accepted_sample ?now)" by code_simp
  have hash: "HashBatchImageSubmitRequest sample_digest (accepted_sample ?now) = ''A''" by code_simp
  have trims: "trim_space (sample_digest r) = sample_digest r" for r
  proof -
    have "trim_space ''A'' = ''A''" "trim_space ''B'' = ''B''" by code_simp+
    then show ?thesis by (simp add: sample_digest_def)
  qed
  have hyps: "bl_Enabled batch_sample_limits" "trim_space ''k'' \<noteq> []" "trim_space (sr_TaskName (sample_request [])) = []"
    "bj_Status ?j \<noteq> StatusSubmitted" "length ?now \<le> 255" "length ?later \<le> 255"
    by code_simp+
  have "bj_RequestHash ?j = Some (HashBatchImageSubmitRequest sample_digest (accepted_sample ?now))" by (simp add: hash)
  note again = submit_again [OF valid hyps(1,2) this trims hyps(4), THEN conjunct2, THEN mp, of ?later id
      "batch_sample_world [] sample_db" batch_sample_env 7 3]
  have "\<forall>a b. sr_TaskName a = ?now \<and> sr_TaskName b = ?later \<longrightarrow> sample_digest a \<noteq> sample_digest b"
    by (simp add: sample_digest_def)
  with again hyps(3,5,6) show ?thesis by (intro exI [of _ ?j]) auto
qed

end
