(* ===== verification/Account_Quota.thy ===== *)
theory Account_Quota
  imports Batch_Image_Billing
begin

section \<open>Account quotas\<close>

text \<open>
  The quota of an account in the JSON column \<open>extra\<close>: a total, a daily and a weekly amount used, each
  with a limit, and the statements of \<open>repository/usage_billing_repo.go\<close> and
  \<open>repository/account_repo.go\<close> that add to them. There are four variants of the statement, which leave
  out the daily or the weekly part when the caller saw no such limit; a variant that leaves out a
  part for an account that has it touches no row, and the full one is run instead. The time is that of
  the transaction. The time zones are a parameter; timestamps in the column are well-formed.
\<close>

subsection \<open>The column\<close>

text \<open>A number under a key: missing, the JSON null, a number, a text that is one, or anything else, on which the
  cast to numeric fails.\<close>

datatype quota_value = Missing | JsonNull | JsonNumber money | NumericText money | NotNumeric

record AccountExtra =
  ax_quota_used :: quota_value
  ax_quota_limit :: quota_value
  ax_daily_used :: quota_value
  ax_daily_limit :: quota_value
  ax_daily_start :: "gotime option"
  ax_daily_reset_mode :: "string option"
  ax_daily_reset_hour :: "int option"
  ax_daily_reset_at :: "gotime option"
  ax_weekly_used :: quota_value
  ax_weekly_limit :: quota_value
  ax_weekly_start :: "gotime option"
  ax_weekly_reset_mode :: "string option"
  ax_weekly_reset_day :: "int option"
  ax_weekly_reset_hour :: "int option"
  ax_weekly_reset_at :: "gotime option"
  ax_reset_timezone :: "string option"

definition no_extra :: AccountExtra where
  "no_extra = \<lparr>ax_quota_used = Missing, ax_quota_limit = Missing, ax_daily_used = Missing, ax_daily_limit = Missing,
     ax_daily_start = None, ax_daily_reset_mode = None, ax_daily_reset_hour = None, ax_daily_reset_at = None,
     ax_weekly_used = Missing, ax_weekly_limit = Missing, ax_weekly_start = None, ax_weekly_reset_mode = None,
     ax_weekly_reset_day = None, ax_weekly_reset_hour = None, ax_weekly_reset_at = None, ax_reset_timezone = None\<rparr>"

text \<open>A row: whether it is deleted, and the column, which may be NULL.\<close>

record AccountRow =
  ac_deleted :: bool
  ac_extra :: "AccountExtra option"

record AccountQuotaState =
  qs_TotalUsed :: money
  qs_TotalLimit :: money
  qs_DailyUsed :: money
  qs_DailyLimit :: money
  qs_WeeklyUsed :: money
  qs_WeeklyLimit :: money

definition coalesce :: "'a option \<Rightarrow> 'a \<Rightarrow> 'a" where
  "coalesce v d = (case v of None \<Rightarrow> d | Some x \<Rightarrow> x)"

definition ErrNotNumeric :: go_error where
  "ErrNotNumeric = Other ''invalid input syntax for type numeric''"

fun numeric :: "quota_value \<Rightarrow> go_error + money" where
  "numeric Missing = Inr 0"
| "numeric JsonNull = Inr 0"
| "numeric (JsonNumber x) = Inr x"
| "numeric (NumericText x) = Inr x"
| "numeric NotNumeric = Inl ErrNotNumeric"

subsection \<open>Periods\<close>

text \<open>The wall clock of a time zone at an instant, and the instant of a wall clock.\<close>

record zones =
  zn_local :: "string \<Rightarrow> gotime \<Rightarrow> gotime"
  zn_instant :: "string \<Rightarrow> gotime \<Rightarrow> gotime"

definition day :: duration where "day = 24 * hour"

definition unix_epoch :: gotime where "unix_epoch = 62135596800 * second"

definition date_trunc_day :: "gotime \<Rightarrow> gotime" where
  "date_trunc_day l = l - l mod day"

text \<open>The day of the week of a wall clock, Sunday being 0; 1 January of the year 1 was a Monday.\<close>

definition day_of_week :: "gotime \<Rightarrow> int" where
  "day_of_week l = (l div day + 1) mod 7"

text \<open>The remainder of SQL has the sign of the dividend.\<close>

definition sql_mod :: "int \<Rightarrow> int \<Rightarrow> int" where
  "sql_mod a b = (if a < 0 then - (- a mod b) else a mod b)"

definition daily_expired :: "gotime \<Rightarrow> AccountExtra \<Rightarrow> bool" where
  "daily_expired now x =
     (if coalesce (ax_daily_reset_mode x) ''rolling'' = ''fixed'' then coalesce (ax_daily_reset_at x) unix_epoch \<le> now
      else coalesce (ax_daily_start x) unix_epoch + 24 * hour \<le> now)"

definition weekly_expired :: "gotime \<Rightarrow> AccountExtra \<Rightarrow> bool" where
  "weekly_expired now x =
     (if coalesce (ax_weekly_reset_mode x) ''rolling'' = ''fixed'' then coalesce (ax_weekly_reset_at x) unix_epoch \<le> now
      else coalesce (ax_weekly_start x) unix_epoch + 168 * hour \<le> now)"

text \<open>The instant of an hour of the day that is now in a zone, some days on.\<close>

definition reset_point :: "zones \<Rightarrow> string \<Rightarrow> gotime \<Rightarrow> int \<Rightarrow> int \<Rightarrow> gotime" where
  "reset_point Z tz now hours days = zn_instant Z tz (date_trunc_day (zn_local Z tz now) + hours * hour + days * day)"

definition next_daily_reset_at :: "zones \<Rightarrow> gotime \<Rightarrow> AccountExtra \<Rightarrow> gotime option" where
  "next_daily_reset_at Z now x =
     (if coalesce (ax_daily_reset_mode x) ''rolling'' = ''fixed'' then
        (let tz = coalesce (ax_reset_timezone x) ''UTC''; h = coalesce (ax_daily_reset_hour x) 0
         in Some (if reset_point Z tz now h 0 \<le> now then reset_point Z tz now h 1 else reset_point Z tz now h 0))
      else None)"

definition next_weekly_reset_at :: "zones \<Rightarrow> gotime \<Rightarrow> AccountExtra \<Rightarrow> gotime option" where
  "next_weekly_reset_at Z now x =
     (if coalesce (ax_weekly_reset_mode x) ''rolling'' = ''fixed'' then
        (let tz = coalesce (ax_reset_timezone x) ''UTC''; h = coalesce (ax_weekly_reset_hour x) 0;
             forward = sql_mod (coalesce (ax_weekly_reset_day x) 1 - day_of_week (zn_local Z tz now) + 7) 7
         in Some (if forward = 0 \<and> reset_point Z tz now h 0 \<le> now then reset_point Z tz now h 7
                  else reset_point Z tz now h forward))
      else None)"

subsection \<open>The statements\<close>

definition total_increment :: "money \<Rightarrow> AccountExtra \<Rightarrow> go_error + AccountExtra" where
  "total_increment amount x =
     (case numeric (ax_quota_used x) of Inl e \<Rightarrow> Inl e | Inr u \<Rightarrow> Inr (x\<lparr>ax_quota_used := JsonNumber (u + amount)\<rparr>))"

definition daily_increment :: "zones \<Rightarrow> gotime \<Rightarrow> money \<Rightarrow> AccountExtra \<Rightarrow> go_error + AccountExtra" where
  "daily_increment Z now amount x =
     (case numeric (ax_daily_limit x) of
        Inl e \<Rightarrow> Inl e
      | Inr limit \<Rightarrow>
          if limit \<le> 0 then Inr x
          else if daily_expired now x then
            Inr (x\<lparr>ax_daily_used := JsonNumber amount, ax_daily_start := Some now,
                   ax_daily_reset_at := (case next_daily_reset_at Z now x of None \<Rightarrow> ax_daily_reset_at x | Some t \<Rightarrow> Some t)\<rparr>)
          else (case numeric (ax_daily_used x) of
                  Inl e \<Rightarrow> Inl e
                | Inr u \<Rightarrow> Inr (x\<lparr>ax_daily_used := JsonNumber (u + amount), ax_daily_start := Some (coalesce (ax_daily_start x) now)\<rparr>)))"

definition weekly_increment :: "zones \<Rightarrow> gotime \<Rightarrow> money \<Rightarrow> AccountExtra \<Rightarrow> go_error + AccountExtra" where
  "weekly_increment Z now amount x =
     (case numeric (ax_weekly_limit x) of
        Inl e \<Rightarrow> Inl e
      | Inr limit \<Rightarrow>
          if limit \<le> 0 then Inr x
          else if weekly_expired now x then
            Inr (x\<lparr>ax_weekly_used := JsonNumber amount, ax_weekly_start := Some now,
                   ax_weekly_reset_at := (case next_weekly_reset_at Z now x of None \<Rightarrow> ax_weekly_reset_at x | Some t \<Rightarrow> Some t)\<rparr>)
          else (case numeric (ax_weekly_used x) of
                  Inl e \<Rightarrow> Inl e
                | Inr u \<Rightarrow> Inr (x\<lparr>ax_weekly_used := JsonNumber (u + amount), ax_weekly_start := Some (coalesce (ax_weekly_start x) now)\<rparr>)))"

text \<open>That no limit is set: no key, the JSON null, or a number that is not positive. A text is left to the full statement.\<close>

fun limit_unset :: "quota_value \<Rightarrow> bool" where
  "limit_unset Missing = True"
| "limit_unset JsonNull = True"
| "limit_unset (JsonNumber x) = (x \<le> 0)"
| "limit_unset (NumericText x) = False"
| "limit_unset NotNumeric = False"

definition quota_returning :: "AccountExtra \<Rightarrow> go_error + AccountQuotaState" where
  "quota_returning x =
     (case (numeric (ax_quota_used x), numeric (ax_quota_limit x), numeric (ax_daily_used x),
            numeric (ax_daily_limit x), numeric (ax_weekly_used x), numeric (ax_weekly_limit x)) of
        (Inr a, Inr b, Inr c, Inr d, Inr e, Inr f) \<Rightarrow>
          Inr \<lparr>qs_TotalUsed = a, qs_TotalLimit = b, qs_DailyUsed = c, qs_DailyLimit = d, qs_WeeklyUsed = e, qs_WeeklyLimit = f\<rparr>
      | _ \<Rightarrow> Inl ErrNotNumeric)"

definition and_also :: "go_error + 'a \<Rightarrow> ('a \<Rightarrow> go_error + 'b) \<Rightarrow> go_error + 'b" where
  "and_also r f = (case r of Inl e \<Rightarrow> Inl e | Inr x \<Rightarrow> f x)"

text \<open>The condition of a variant on a row, and what it does to the column.\<close>

definition statement_hits :: "bool \<Rightarrow> bool \<Rightarrow> AccountRow \<Rightarrow> bool" where
  "statement_hits daily weekly row =
     (\<not> ac_deleted row \<and>
      (\<not> (daily \<and> weekly) \<longrightarrow> ac_extra row \<noteq> None) \<and>
      (\<not> daily \<longrightarrow> limit_unset (ax_daily_limit (coalesce (ac_extra row) no_extra))) \<and>
      (\<not> weekly \<longrightarrow> limit_unset (ax_weekly_limit (coalesce (ac_extra row) no_extra))))"

definition statement_sets :: "zones \<Rightarrow> bool \<Rightarrow> bool \<Rightarrow> gotime \<Rightarrow> money \<Rightarrow> AccountExtra \<Rightarrow> go_error + AccountExtra" where
  "statement_sets Z daily weekly now amount x =
     and_also (total_increment amount x) (\<lambda>x.
       and_also (if daily then daily_increment Z now amount x else Inr x) (\<lambda>x.
         if weekly then weekly_increment Z now amount x else Inr x))"

text \<open>No state when no row was hit.\<close>

type_synonym account_rows = "(int, AccountRow) fmap"

definition execAccountQuotaIncrement ::
    "zones \<Rightarrow> bool \<Rightarrow> bool \<Rightarrow> gotime \<Rightarrow> int \<Rightarrow> money \<Rightarrow> account_rows \<Rightarrow> go_error + AccountQuotaState option \<times> account_rows" where
  "execAccountQuotaIncrement Z daily weekly now i amount t =
     (case fmlookup t i of
        None \<Rightarrow> Inr (None, t)
      | Some row \<Rightarrow>
          if \<not> statement_hits daily weekly row then Inr (None, t)
          else and_also (statement_sets Z daily weekly now amount (coalesce (ac_extra row) no_extra)) (\<lambda>x.
            and_also (quota_returning x) (\<lambda>state. Inr (Some state, fmupd i (row\<lparr>ac_extra := Some x\<rparr>) t))))"

text \<open>The accounts with a pending event for the scheduler; an event that is pending is not added again.\<close>

definition enqueueSchedulerOutbox :: "int \<Rightarrow> int list \<Rightarrow> int list" where
  "enqueueSchedulerOutbox i pending = (if i \<in> set pending then pending else pending @ [i])"

definition crossed :: "money \<Rightarrow> money \<Rightarrow> money \<Rightarrow> bool" where
  "crossed amount used limit = (0 < limit \<and> limit \<le> used \<and> used - amount < limit)"

definition ErrAccountNotFound :: ApplicationError where
  "ErrAccountNotFound = NewError 404 ''ACCOUNT_NOT_FOUND'' ''account not found''"

type_synonym quota_db = "account_rows \<times> int list"

definition incrementUsageBillingAccountQuota ::
    "zones \<Rightarrow> gotime \<Rightarrow> int \<Rightarrow> money \<Rightarrow> bool \<Rightarrow> bool \<Rightarrow> quota_db \<Rightarrow> go_error + AccountQuotaState \<times> quota_db" where
  "incrementUsageBillingAccountQuota Z now i amount hasDaily hasWeekly db =
     and_also (execAccountQuotaIncrement Z hasDaily hasWeekly now i amount (fst db)) (\<lambda>first.
       and_also (if fst first = None \<and> \<not> (hasDaily \<and> hasWeekly)
                 then execAccountQuotaIncrement Z True True now i amount (snd first) else Inr first) (\<lambda>(state, t).
         case state of
           None \<Rightarrow> Inl (App ErrAccountNotFound)
         | Some s \<Rightarrow>
             Inr (s, t, if crossed amount (qs_TotalUsed s) (qs_TotalLimit s) \<or> crossed amount (qs_DailyUsed s) (qs_DailyLimit s) \<or>
                           crossed amount (qs_WeeklyUsed s) (qs_WeeklyLimit s)
                        then enqueueSchedulerOutbox i (snd db) else snd db)))"

text \<open>The older function of the account repository: always the full statement, and only the total is watched.\<close>

definition IncrementQuotaUsed :: "zones \<Rightarrow> gotime \<Rightarrow> int \<Rightarrow> money \<Rightarrow> quota_db \<Rightarrow> go_error option \<times> quota_db" where
  "IncrementQuotaUsed Z now i amount db =
     (case fmlookup (fst db) i of
        None \<Rightarrow> (None, db)
      | Some row \<Rightarrow>
          if ac_deleted row then (None, db)
          else (case statement_sets Z True True now amount (coalesce (ac_extra row) no_extra) of
                  Inl e \<Rightarrow> (Some e, db)
                | Inr x \<Rightarrow>
                    (case (numeric (ax_quota_used x), numeric (ax_quota_limit x)) of
                       (Inr used, Inr limit) \<Rightarrow>
                         (None, fmupd i (row\<lparr>ac_extra := Some x\<rparr>) (fst db),
                          if crossed amount used limit then enqueueSchedulerOutbox i (snd db) else snd db)
                     | _ \<Rightarrow> (Some ErrNotNumeric, db))))"

subsection \<open>The variants agree with the full statement\<close>

lemma limit_unset_numeric: "limit_unset v \<Longrightarrow> \<exists>n \<le> 0. numeric v = Inr n"
  by (cases v) auto

lemma daily_unset: "limit_unset (ax_daily_limit x) \<Longrightarrow> daily_increment Z now amount x = Inr x"
  using limit_unset_numeric [of "ax_daily_limit x"] by (auto simp: daily_increment_def)

lemma weekly_unset: "limit_unset (ax_weekly_limit x) \<Longrightarrow> weekly_increment Z now amount x = Inr x"
  using limit_unset_numeric [of "ax_weekly_limit x"] by (auto simp: weekly_increment_def)

lemma total_increment_limits:
  "total_increment amount x = Inr y \<Longrightarrow> ax_daily_limit y = ax_daily_limit x \<and> ax_weekly_limit y = ax_weekly_limit x"
  by (auto simp: total_increment_def split: sum.splits)

lemma daily_increment_limit: "daily_increment Z now amount x = Inr y \<Longrightarrow> ax_weekly_limit y = ax_weekly_limit x"
  by (auto simp: daily_increment_def split: sum.splits if_splits)

lemma variant_sets:
  assumes "daily \<or> limit_unset (ax_daily_limit x)" and "weekly \<or> limit_unset (ax_weekly_limit x)"
  shows "statement_sets Z daily weekly now amount x = statement_sets Z True True now amount x"
proof (cases "total_increment amount x")
  case (Inr y)
  note limits = total_increment_limits [OF Inr]
  show ?thesis
  proof (cases "daily_increment Z now amount y")
    case (Inl e)
    with assms limits daily_unset [of y Z now amount] have daily by auto
    with Inr Inl show ?thesis by (simp add: statement_sets_def and_also_def)
  next
    case y2: (Inr z)
    from assms limits daily_increment_limit [OF y2] weekly_unset [of z Z now amount]
    have "weekly \<or> weekly_increment Z now amount z = Inr z" by auto
    with assms limits daily_unset [of y Z now amount] Inr y2 show ?thesis
      by (cases daily) (auto simp: statement_sets_def and_also_def)
  qed
qed (simp add: statement_sets_def and_also_def)

lemma variant_agrees:
  assumes "fmlookup t i = Some row" and "statement_hits daily weekly row"
  shows "execAccountQuotaIncrement Z daily weekly now i amount t = execAccountQuotaIncrement Z True True now i amount t"
  using assms variant_sets [of daily "coalesce (ac_extra row) no_extra" weekly Z now amount]
  by (auto simp: execAccountQuotaIncrement_def statement_hits_def)

lemma exec_hit:
  assumes "execAccountQuotaIncrement Z daily weekly now i amount t = Inr (state, t')" and "statement_hits daily weekly row"
    and "fmlookup t i = Some row"
  shows "state \<noteq> None"
  using assms by (auto simp: execAccountQuotaIncrement_def and_also_def split: sum.splits)

lemma increment_full:
  "incrementUsageBillingAccountQuota Z now i amount hasDaily hasWeekly db =
   and_also (execAccountQuotaIncrement Z True True now i amount (fst db)) (\<lambda>(state, t).
     case state of
       None \<Rightarrow> Inl (App ErrAccountNotFound)
     | Some s \<Rightarrow>
         Inr (s, t, if crossed amount (qs_TotalUsed s) (qs_TotalLimit s) \<or> crossed amount (qs_DailyUsed s) (qs_DailyLimit s) \<or>
                       crossed amount (qs_WeeklyUsed s) (qs_WeeklyLimit s)
                    then enqueueSchedulerOutbox i (snd db) else snd db))"
    (is "?inc = and_also ?full ?rest")
proof (cases "fmlookup (fst db) i")
  case None
  then show ?thesis by (simp add: incrementUsageBillingAccountQuota_def execAccountQuotaIncrement_def and_also_def)
next
  case (Some row)
  show ?thesis
  proof (cases "statement_hits hasDaily hasWeekly row")
    case True
    have same: "execAccountQuotaIncrement Z hasDaily hasWeekly now i amount (fst db) = ?full"
      using Some True by (rule variant_agrees)
    have "statement_hits True True row" using True by (simp add: statement_hits_def)
    with Some have "state \<noteq> None" if "?full = Inr (state, t)" for state t using that by (blast dest: exec_hit)
    then show ?thesis
      by (cases ?full) (auto simp: incrementUsageBillingAccountQuota_def same and_also_def)
  next
    case False
    with Some show ?thesis
      by (cases "hasDaily \<and> hasWeekly") (auto simp: incrementUsageBillingAccountQuota_def execAccountQuotaIncrement_def and_also_def)
  qed
qed

text \<open>Property C14. What the caller believes about the limits of an account makes no difference: whichever of
  the four variants of the statement it picks, the result, the column and the events for the
  scheduler are those of the full statement, errors included.\<close>
theorem quota_flags_irrelevant:
  "incrementUsageBillingAccountQuota Z now i amount hasDaily hasWeekly db =
   incrementUsageBillingAccountQuota Z now i amount True True db"
  unfolding increment_full ..

subsection \<open>Periods are current\<close>

text \<open>A zone with a fixed offset, as UTC.\<close>

definition fixed_zone :: "zones \<Rightarrow> string \<Rightarrow> int \<Rightarrow> bool" where
  "fixed_zone Z tz off = ((\<forall>t. zn_local Z tz t = t + off) \<and> (\<forall>l. zn_instant Z tz l = l - off))"

lemma day_pos: "0 < day" and hour_pos: "0 < hour" and day_hours: "day = 24 * hour"
  by (simp_all add: day_def hour_def minute_def second_def)

lemma trunc_bounds: "date_trunc_day l \<le> l" "l < date_trunc_day l + day"
  using day_pos pos_mod_bound [of day l] by (simp_all add: date_trunc_day_def)

lemma trunc_mod: "(date_trunc_day l + n * day) mod day = 0"
  by (simp add: date_trunc_day_def minus_mod_eq_mult_div)

lemma trunc_day_of_week:
  assumes "0 \<le> a" and "a < day"
  shows "day_of_week (date_trunc_day l + a + n * day) = (day_of_week l + n) mod 7"
    and "(date_trunc_day l + a + n * day) mod day = a"
proof -
  have e: "date_trunc_day l + a + n * day = a + (l div day + n) * day"
    by (simp add: date_trunc_day_def minus_mod_eq_div_mult algebra_simps)
  have "(a + q * day) div day = q \<and> (a + q * day) mod day = a" for q using assms day_pos by simp
  then have d: "(date_trunc_day l + a + n * day) div day = l div day + n" and
    m: "(date_trunc_day l + a + n * day) mod day = a"
    unfolding e by simp_all
  show "(date_trunc_day l + a + n * day) mod day = a" by (rule m)
  show "day_of_week (date_trunc_day l + a + n * day) = (day_of_week l + n) mod 7"
    unfolding day_of_week_def d by presburger
qed

lemma hour_bounds: "0 \<le> h \<Longrightarrow> h < 24 \<Longrightarrow> 0 \<le> h * hour \<and> h * hour < day"
  using hour_pos by (simp add: day_hours)

lemma fixed_reset_point:
  "fixed_zone Z tz off \<Longrightarrow> reset_point Z tz now h n = date_trunc_day (now + off) + h * hour + n * day - off"
  by (simp add: fixed_zone_def reset_point_def)

lemma forward_days:
  assumes "0 \<le> target" and "target < 7"
  shows "sql_mod (target - day_of_week l + 7) 7 = (target - day_of_week l) mod 7"
    and "(day_of_week l + (target - day_of_week l) mod 7) mod 7 = target"
proof -
  have "0 \<le> day_of_week l" "day_of_week l < 7" by (simp_all add: day_of_week_def)
  with assms show "sql_mod (target - day_of_week l + 7) 7 = (target - day_of_week l) mod 7"
    by (simp add: sql_mod_def)
  from assms show "(day_of_week l + (target - day_of_week l) mod 7) mod 7 = target"
    by (simp add: mod_add_right_eq)
qed

lemma next_daily_later:
  assumes "fixed_zone Z (coalesce (ax_reset_timezone x) ''UTC'') off" and "next_daily_reset_at Z now x = Some r"
    and "0 \<le> coalesce (ax_daily_reset_hour x) 0" and "coalesce (ax_daily_reset_hour x) 0 < 24"
  shows "now < r" and "r \<le> now + day" and "(r + off) mod day = coalesce (ax_daily_reset_hour x) 0 * hour"
proof -
  let ?h = "coalesce (ax_daily_reset_hour x) 0 * hour" and ?l = "now + off"
  note b = hour_bounds [OF assms(3,4)] trunc_bounds [of ?l]
  note m = trunc_day_of_week(2) [of ?h ?l] b(1)
  from assms(1,2) have "r = date_trunc_day ?l + ?h - off \<and> \<not> r \<le> now \<or>
      r = date_trunc_day ?l + ?h + day - off \<and> date_trunc_day ?l + ?h - off \<le> now"
    by (auto simp: next_daily_reset_at_def Let_def fixed_reset_point split: if_splits)
  then show "now < r" "r \<le> now + day" "(r + off) mod day = ?h"
    using b m(1) [of 0] m(1) [of 1] by (auto simp del: mod_add_self2)
qed

lemma next_weekly_later:
  assumes "fixed_zone Z (coalesce (ax_reset_timezone x) ''UTC'') off" and "next_weekly_reset_at Z now x = Some r"
    and "0 \<le> coalesce (ax_weekly_reset_hour x) 0" and "coalesce (ax_weekly_reset_hour x) 0 < 24"
    and "0 \<le> coalesce (ax_weekly_reset_day x) 1" and "coalesce (ax_weekly_reset_day x) 1 < 7"
  shows "now < r" and "r \<le> now + 7 * day" and "(r + off) mod day = coalesce (ax_weekly_reset_hour x) 0 * hour"
    and "day_of_week (r + off) = coalesce (ax_weekly_reset_day x) 1"
proof -
  let ?h = "coalesce (ax_weekly_reset_hour x) 0 * hour" and ?l = "now + off" and ?d = "coalesce (ax_weekly_reset_day x) 1"
  let ?f = "(?d - day_of_week ?l) mod 7"
  note b = hour_bounds [OF assms(3,4)] trunc_bounds [of ?l]
  have f: "0 \<le> ?f" "?f < 7" by simp_all
  note forward = forward_days [OF assms(5,6), of ?l]
  have local: "zn_local Z (coalesce (ax_reset_timezone x) ''UTC'') now = ?l" using assms(1) by (simp add: fixed_zone_def)
  define n where "n = (if ?f = 0 \<and> date_trunc_day ?l + ?h - off \<le> now then 7 else ?f)"
  have r: "r = date_trunc_day ?l + ?h + n * day - off"
    using assms(1,2) by (auto simp: next_weekly_reset_at_def Let_def fixed_reset_point local forward(1) n_def split: if_splits)
  have week: "(day_of_week ?l + n) mod 7 = ?d"
    using forward(2) f by (auto simp: n_def)
  show "(r + off) mod day = ?h" "day_of_week (r + off) = ?d"
    using trunc_day_of_week [of ?h ?l n] b(1) week by (simp_all add: r)
  have "n = 7 \<or> n = ?f" by (simp add: n_def)
  with f(2) have n7: "n \<le> 7" by linarith
  let ?p = "date_trunc_day ?l + ?h - off"
  have rp: "r = ?p + n * day" by (simp add: r)
  have "n = 7 \<and> ?p \<le> now \<or> n = ?f \<and> (?f \<noteq> 0 \<or> now < ?p)" by (auto simp: n_def)
  with f have "n = 0 \<and> now < ?p \<or> 1 \<le> n \<and> n \<le> 6 \<or> n = 7 \<and> ?p \<le> now" by linarith
  then consider "n = 0" "now < ?p" | "1 \<le> n" "n \<le> 6" | "n = 7" "?p \<le> now" by blast
  then have "now < r \<and> r \<le> now + 7 * day"
  proof cases
    case 2
    then have "day \<le> n * day" "n * day \<le> 6 * day" using day_pos by simp_all
    with b show ?thesis unfolding rp by linarith
  qed (use b in \<open>auto simp: rp\<close>)
  then show "now < r" "r \<le> now + 7 * day" by simp_all
qed

text \<open>Fixed resets come at an hour of the day and a day of the week, in a zone with a fixed offset.\<close>

definition daily_steady :: "zones \<Rightarrow> int \<Rightarrow> AccountExtra \<Rightarrow> bool" where
  "daily_steady Z off x =
     (coalesce (ax_daily_reset_mode x) ''rolling'' = ''fixed'' \<longrightarrow>
        fixed_zone Z (coalesce (ax_reset_timezone x) ''UTC'') off \<and>
        0 \<le> coalesce (ax_daily_reset_hour x) 0 \<and> coalesce (ax_daily_reset_hour x) 0 < 24)"

definition weekly_steady :: "zones \<Rightarrow> int \<Rightarrow> AccountExtra \<Rightarrow> bool" where
  "weekly_steady Z off x =
     (coalesce (ax_weekly_reset_mode x) ''rolling'' = ''fixed'' \<longrightarrow>
        fixed_zone Z (coalesce (ax_reset_timezone x) ''UTC'') off \<and>
        0 \<le> coalesce (ax_weekly_reset_hour x) 0 \<and> coalesce (ax_weekly_reset_hour x) 0 < 24 \<and>
        0 \<le> coalesce (ax_weekly_reset_day x) 1 \<and> coalesce (ax_weekly_reset_day x) 1 < 7)"

definition amount_of :: "quota_value \<Rightarrow> money" where
  "amount_of v = (case numeric v of Inl e \<Rightarrow> 0 | Inr n \<Rightarrow> n)"

text \<open>What the parts of the statement leave alone.\<close>

definition same_settings :: "AccountExtra \<Rightarrow> AccountExtra \<Rightarrow> bool" where
  "same_settings x y =
     (ax_quota_limit y = ax_quota_limit x \<and> ax_daily_limit y = ax_daily_limit x \<and> ax_weekly_limit y = ax_weekly_limit x \<and>
      ax_daily_reset_mode y = ax_daily_reset_mode x \<and> ax_weekly_reset_mode y = ax_weekly_reset_mode x \<and>
      ax_daily_reset_hour y = ax_daily_reset_hour x \<and> ax_weekly_reset_hour y = ax_weekly_reset_hour x \<and>
      ax_weekly_reset_day y = ax_weekly_reset_day x \<and> ax_reset_timezone y = ax_reset_timezone x)"

definition daily_part :: "AccountExtra \<Rightarrow> quota_value \<times> gotime option \<times> gotime option" where
  "daily_part x = (ax_daily_used x, ax_daily_start x, ax_daily_reset_at x)"

definition weekly_part :: "AccountExtra \<Rightarrow> quota_value \<times> gotime option \<times> gotime option" where
  "weekly_part x = (ax_weekly_used x, ax_weekly_start x, ax_weekly_reset_at x)"

lemmas part_defs = same_settings_def daily_part_def weekly_part_def

lemma total_part:
  "total_increment amount x = Inr y \<Longrightarrow>
   same_settings x y \<and> daily_part y = daily_part x \<and> weekly_part y = weekly_part x \<and>
   ax_quota_used y = JsonNumber (amount_of (ax_quota_used x) + amount)"
  by (auto simp: total_increment_def part_defs amount_of_def split: sum.splits)

text \<open>What an increment makes of a period: used before, used after, and whether the period is over.\<close>

definition period_used :: "money \<Rightarrow> money \<Rightarrow> bool \<Rightarrow> quota_value \<Rightarrow> quota_value \<Rightarrow> bool" where
  "period_used limit amount expired before after =
     (if limit \<le> 0 then after = before
      else amount_of after = (if expired then amount else amount_of before + amount))"

lemma daily_increment_part:
  assumes "daily_increment Z now amount x = Inr y"
  shows "same_settings x y \<and> weekly_part y = weekly_part x \<and> ax_quota_used y = ax_quota_used x \<and>
    period_used (amount_of (ax_daily_limit x)) amount (daily_expired now x) (ax_daily_used x) (ax_daily_used y) \<and>
    (0 < amount_of (ax_daily_limit x) \<and> daily_steady Z off x \<longrightarrow> \<not> daily_expired now y)"
proof -
  have later: "now < r" if "next_daily_reset_at Z now x = Some r" "daily_steady Z off x" for r
    using next_daily_later(1) [where off = off, OF _ that(1)] that
    by (auto simp: daily_steady_def next_daily_reset_at_def Let_def split: if_splits)
  have mode: "(next_daily_reset_at Z now x = None) = (coalesce (ax_daily_reset_mode x) ''rolling'' \<noteq> ''fixed'')"
    by (simp add: next_daily_reset_at_def Let_def)
  obtain limit where limit: "numeric (ax_daily_limit x) = Inr limit"
    using assms(1) by (cases "numeric (ax_daily_limit x)") (simp_all add: daily_increment_def)
  consider (unset) "limit \<le> 0" | (over) "0 < limit" "daily_expired now x" | (runs) "0 < limit" "\<not> daily_expired now x"
    by linarith
  then show ?thesis
  proof cases
    case unset
    with assms(1) limit show ?thesis by (simp add: daily_increment_def part_defs period_used_def amount_of_def)
  next
    case over
    let ?at = "case next_daily_reset_at Z now x of None \<Rightarrow> ax_daily_reset_at x | Some t \<Rightarrow> Some t"
    have y: "y = x\<lparr>ax_daily_used := JsonNumber amount, ax_daily_start := Some now, ax_daily_reset_at := ?at\<rparr>"
      using assms(1) limit over by (simp add: daily_increment_def)
    have "\<not> daily_expired now y" if "daily_steady Z off x"
      using later [OF _ that] mode hour_pos
      by (cases "next_daily_reset_at Z now x") (simp_all add: daily_expired_def y coalesce_def not_le)
    with limit over show ?thesis by (simp add: y part_defs period_used_def amount_of_def)
  next
    case runs
    obtain u where u: "numeric (ax_daily_used x) = Inr u"
      using assms(1) limit runs by (cases "numeric (ax_daily_used x)") (simp_all add: daily_increment_def)
    have y: "y = x\<lparr>ax_daily_used := JsonNumber (u + amount), ax_daily_start := Some (coalesce (ax_daily_start x) now)\<rparr>"
      using assms(1) limit runs u by (simp add: daily_increment_def)
    have "\<not> daily_expired now y"
      using runs(2) hour_pos
      by (cases "ax_daily_start x") (auto simp: daily_expired_def y coalesce_def split: if_splits)
    with limit u runs show ?thesis by (simp add: y part_defs period_used_def amount_of_def)
  qed
qed

lemma weekly_increment_part:
  assumes "weekly_increment Z now amount x = Inr y"
  shows "same_settings x y \<and> daily_part y = daily_part x \<and> ax_quota_used y = ax_quota_used x \<and>
    period_used (amount_of (ax_weekly_limit x)) amount (weekly_expired now x) (ax_weekly_used x) (ax_weekly_used y) \<and>
    (0 < amount_of (ax_weekly_limit x) \<and> weekly_steady Z off x \<longrightarrow> \<not> weekly_expired now y)"
proof -
  have later: "now < r" if "next_weekly_reset_at Z now x = Some r" "weekly_steady Z off x" for r
    using next_weekly_later(1) [where off = off, OF _ that(1)] that
    by (auto simp: weekly_steady_def next_weekly_reset_at_def Let_def split: if_splits)
  have mode: "(next_weekly_reset_at Z now x = None) = (coalesce (ax_weekly_reset_mode x) ''rolling'' \<noteq> ''fixed'')"
    by (simp add: next_weekly_reset_at_def Let_def)
  obtain limit where limit: "numeric (ax_weekly_limit x) = Inr limit"
    using assms(1) by (cases "numeric (ax_weekly_limit x)") (simp_all add: weekly_increment_def)
  consider (unset) "limit \<le> 0" | (over) "0 < limit" "weekly_expired now x" | (runs) "0 < limit" "\<not> weekly_expired now x"
    by linarith
  then show ?thesis
  proof cases
    case unset
    with assms(1) limit show ?thesis by (simp add: weekly_increment_def part_defs period_used_def amount_of_def)
  next
    case over
    let ?at = "case next_weekly_reset_at Z now x of None \<Rightarrow> ax_weekly_reset_at x | Some t \<Rightarrow> Some t"
    have y: "y = x\<lparr>ax_weekly_used := JsonNumber amount, ax_weekly_start := Some now, ax_weekly_reset_at := ?at\<rparr>"
      using assms(1) limit over by (simp add: weekly_increment_def)
    have "\<not> weekly_expired now y" if "weekly_steady Z off x"
      using later [OF _ that] mode hour_pos
      by (cases "next_weekly_reset_at Z now x") (simp_all add: weekly_expired_def y coalesce_def not_le)
    with limit over show ?thesis by (simp add: y part_defs period_used_def amount_of_def)
  next
    case runs
    obtain u where u: "numeric (ax_weekly_used x) = Inr u"
      using assms(1) limit runs by (cases "numeric (ax_weekly_used x)") (simp_all add: weekly_increment_def)
    have y: "y = x\<lparr>ax_weekly_used := JsonNumber (u + amount), ax_weekly_start := Some (coalesce (ax_weekly_start x) now)\<rparr>"
      using assms(1) limit runs u by (simp add: weekly_increment_def)
    have "\<not> weekly_expired now y"
      using runs(2) hour_pos
      by (cases "ax_weekly_start x") (auto simp: weekly_expired_def y coalesce_def split: if_splits)
    with limit u runs show ?thesis by (simp add: y part_defs period_used_def amount_of_def)
  qed
qed

lemma increment_row:
  assumes "incrementUsageBillingAccountQuota Z now i amount hasDaily hasWeekly db = Inr (s, t', pending)"
  obtains row x' where "fmlookup (fst db) i = Some row" "\<not> ac_deleted row"
    "statement_sets Z True True now amount (coalesce (ac_extra row) no_extra) = Inr x'"
    "quota_returning x' = Inr s" "t' = fmupd i (row\<lparr>ac_extra := Some x'\<rparr>) (fst db)"
  using assms unfolding increment_full
  by (auto simp: execAccountQuotaIncrement_def and_also_def statement_hits_def split: option.splits sum.splits if_splits)

lemma same_settings_trans: "same_settings x y \<Longrightarrow> same_settings y z \<Longrightarrow> same_settings x z"
  by (simp add: same_settings_def)

lemma settings_expired:
  "same_settings x y \<Longrightarrow> daily_part y = daily_part x \<Longrightarrow> daily_expired now y = daily_expired now x \<and> ax_daily_used y = ax_daily_used x"
  "same_settings x y \<Longrightarrow> weekly_part y = weekly_part x \<Longrightarrow> weekly_expired now y = weekly_expired now x \<and> ax_weekly_used y = ax_weekly_used x"
  by (simp_all add: part_defs daily_expired_def weekly_expired_def)

lemma settings_limits:
  "same_settings x y \<Longrightarrow> ax_daily_limit y = ax_daily_limit x \<and> ax_weekly_limit y = ax_weekly_limit x"
  by (simp add: same_settings_def)

lemma settings_steady:
  "same_settings x y \<Longrightarrow> daily_steady Z off y = daily_steady Z off x \<and> weekly_steady Z off y = weekly_steady Z off x"
  by (simp add: same_settings_def daily_steady_def weekly_steady_def)

lemma returning_amounts:
  "quota_returning x = Inr s \<Longrightarrow>
   qs_TotalUsed s = amount_of (ax_quota_used x) \<and> qs_DailyUsed s = amount_of (ax_daily_used x) \<and> qs_WeeklyUsed s = amount_of (ax_weekly_used x)"
  by (auto simp: quota_returning_def amount_of_def split: sum.splits)

text \<open>Property C21. An increment adds the amount to the total and to every period that has a limit: a period that
  is over starts anew with the amount and one that runs goes on. A period without a limit and the
  settings are left alone, and so are other accounts. Afterwards a period with a limit is not over:
  a rolling one always, one with fixed resets when the reset hour is 0 to 23, the reset day 0 to 6,
  and the account's time zone keeps one offset from UTC.\<close>
theorem quota_increment_adds:
  assumes "incrementUsageBillingAccountQuota Z now i amount hasDaily hasWeekly db = Inr (s, t', pending)"
  shows "\<exists>row x'. fmlookup (fst db) i = Some row \<and> \<not> ac_deleted row \<and> t' = fmupd i (row\<lparr>ac_extra := Some x'\<rparr>) (fst db) \<and>
    (let x = coalesce (ac_extra row) no_extra
     in same_settings x x' \<and> qs_TotalUsed s = amount_of (ax_quota_used x) + amount \<and>
        qs_DailyUsed s = amount_of (ax_daily_used x') \<and> qs_WeeklyUsed s = amount_of (ax_weekly_used x') \<and>
        period_used (amount_of (ax_daily_limit x)) amount (daily_expired now x) (ax_daily_used x) (ax_daily_used x') \<and>
        period_used (amount_of (ax_weekly_limit x)) amount (weekly_expired now x) (ax_weekly_used x) (ax_weekly_used x') \<and>
        (0 < amount_of (ax_daily_limit x) \<and>
         (coalesce (ax_daily_reset_mode x) ''rolling'' = ''fixed'' \<longrightarrow>
            fixed_zone Z (coalesce (ax_reset_timezone x) ''UTC'') off \<and>
            0 \<le> coalesce (ax_daily_reset_hour x) 0 \<and> coalesce (ax_daily_reset_hour x) 0 < 24) \<longrightarrow>
         \<not> daily_expired now x') \<and>
        (0 < amount_of (ax_weekly_limit x) \<and>
         (coalesce (ax_weekly_reset_mode x) ''rolling'' = ''fixed'' \<longrightarrow>
            fixed_zone Z (coalesce (ax_reset_timezone x) ''UTC'') off \<and>
            0 \<le> coalesce (ax_weekly_reset_hour x) 0 \<and> coalesce (ax_weekly_reset_hour x) 0 < 24 \<and>
            0 \<le> coalesce (ax_weekly_reset_day x) 1 \<and> coalesce (ax_weekly_reset_day x) 1 < 7) \<longrightarrow>
         \<not> weekly_expired now x'))"
proof -
  obtain row x' where row: "fmlookup (fst db) i = Some row" "\<not> ac_deleted row"
    and sets: "statement_sets Z True True now amount (coalesce (ac_extra row) no_extra) = Inr x'"
    and s: "quota_returning x' = Inr s" and t: "t' = fmupd i (row\<lparr>ac_extra := Some x'\<rparr>) (fst db)"
    using assms(1) by (rule increment_row)
  let ?x = "coalesce (ac_extra row) no_extra"
  from sets obtain y z where y: "total_increment amount ?x = Inr y" and z: "daily_increment Z now amount y = Inr z"
    and x': "weekly_increment Z now amount z = Inr x'"
    by (auto simp: statement_sets_def and_also_def split: sum.splits)
  note total = total_part [OF y]
  have xy: "same_settings ?x y" using total ..
  note daily = daily_increment_part [OF z, of off]
  have yz: "same_settings y z" using daily ..
  note all = same_settings_trans [OF xy yz]
  note weekly = weekly_increment_part [OF x', of off]
  have zx: "same_settings z x'" using weekly ..
  have d: "daily_part y = daily_part ?x" "daily_part x' = daily_part z" and w: "weekly_part z = weekly_part ?x"
    using total daily weekly by simp_all
  have "same_settings ?x x'" using all zx by (rule same_settings_trans)
  moreover have "ax_quota_used x' = JsonNumber (amount_of (ax_quota_used ?x) + amount)"
    using total daily weekly by simp
  moreover have "period_used (amount_of (ax_daily_limit ?x)) amount (daily_expired now ?x) (ax_daily_used ?x) (ax_daily_used x') \<and>
      (0 < amount_of (ax_daily_limit ?x) \<and> daily_steady Z off ?x \<longrightarrow> \<not> daily_expired now x')"
    using daily settings_expired(1) [OF xy d(1), of now] settings_expired(1) [OF zx d(2), of now] settings_limits [OF xy]
      settings_steady [OF xy, of Z off]
    by simp
  moreover have "period_used (amount_of (ax_weekly_limit ?x)) amount (weekly_expired now ?x) (ax_weekly_used ?x) (ax_weekly_used x') \<and>
      (0 < amount_of (ax_weekly_limit ?x) \<and> weekly_steady Z off ?x \<longrightarrow> \<not> weekly_expired now x')"
    using weekly settings_expired(2) [OF all w, of now] settings_limits [OF all] settings_steady [OF all, of Z off] by simp
  ultimately show ?thesis
    using row t returning_amounts [OF s] unfolding daily_steady_def weekly_steady_def by (auto simp: Let_def amount_of_def)
qed

subsection \<open>A sample account\<close>

definition utc :: zones where "utc = \<lparr>zn_local = (\<lambda>tz t. t), zn_instant = (\<lambda>tz l. l)\<rparr>"

definition daily_account :: AccountRow where
  "daily_account = \<lparr>ac_deleted = False, ac_extra = Some (no_extra\<lparr>ax_quota_limit := JsonNumber 900, ax_daily_limit := JsonNumber 500,
     ax_daily_used := JsonNumber 400, ax_daily_reset_mode := Some ''fixed'', ax_daily_reset_hour := Some 8,
     ax_daily_reset_at := Some (unix_epoch + day + 8 * hour)\<rparr>)\<rparr>"

lemma fixed_utc: "fixed_zone utc tz 0"
  by (simp add: fixed_zone_def utc_def)

lemmas increment_defs = increment_full execAccountQuotaIncrement_def statement_hits_def statement_sets_def and_also_def
  total_increment_def daily_increment_def weekly_increment_def daily_expired_def next_daily_reset_at_def Let_def
  quota_returning_def coalesce_def crossed_def enqueueSchedulerOutbox_def

lemma sample_increment:
  "\<exists>s t' pending. incrementUsageBillingAccountQuota utc (unix_epoch + 9 * day) 5 200 True False (fmupd 5 daily_account fmempty, []) =
     Inr (s, t', pending)"
  by (simp add: increment_defs daily_account_def no_extra_def)

theorem quota_increment_adds_witness:
  "\<exists>s t' pending. incrementUsageBillingAccountQuota utc (unix_epoch + 9 * day) 5 200 True False (fmupd 5 daily_account fmempty, []) =
      Inr (s, t', pending) \<and> qs_TotalUsed s = 200 \<and> qs_DailyUsed s = 200"
proof -
  let ?db = "(fmupd 5 daily_account fmempty, []) :: quota_db"
  obtain s t' pending where inc: "incrementUsageBillingAccountQuota utc (unix_epoch + 9 * day) 5 200 True False ?db = Inr (s, t', pending)"
    using sample_increment by blast
  from quota_increment_adds [OF inc, of 0] have "qs_TotalUsed s = 200 \<and> qs_DailyUsed s = 200"
    using day_pos hour_pos
    by (auto simp: daily_account_def no_extra_def coalesce_def amount_of_def period_used_def daily_expired_def day_hours Let_def)
  with inc show ?thesis by blast
qed

text \<open>The older function leaves the scheduler uninformed when the daily quota is used up.\<close>

lemma older_increment_silent:
  defines "db \<equiv> (fmupd 5 daily_account fmempty, []) :: quota_db"
  shows "snd (snd (IncrementQuotaUsed utc unix_epoch 5 100 db)) = []"
    and "\<exists>s t'. incrementUsageBillingAccountQuota utc unix_epoch 5 100 True False db = Inr (s, t', [5])"
  using day_pos hour_pos
  by (simp_all add: db_def IncrementQuotaUsed_def increment_defs daily_account_def no_extra_def)

end
