(* ===== verification/Usage_Billing.thy ===== *)
theory Usage_Billing
  imports Account_Quota
begin

section \<open>Booking the usage of a request\<close>

text \<open>
  What a request costs is booked by \<open>Apply\<close> of \<open>repository/usage_billing_repo.go\<close> in one transaction,
  once per request identifier: the subscription, the balance, the quota and the rate limits of the
  key, and the quota of the account. Commands are those of \<open>service/usage_billing.go\<close>. The time is that of
  the transaction; the start of the current day of the session is a parameter. Amounts have the scale of
  \<open>Batch_Image_Billing\<close>.
\<close>

subsection \<open>Commands\<close>

record UsageBillingCommand =
  uc_RequestID :: string
  uc_APIKeyID :: int
  uc_RequestFingerprint :: string
  uc_RequestPayloadHash :: string
  uc_UserID :: int
  uc_AccountID :: int
  uc_SubscriptionID :: "int option"
  uc_AccountType :: string
  uc_Model :: string
  uc_ServiceTier :: string
  uc_ReasoningEffort :: string
  uc_BillingType :: int
  uc_InputTokens :: int
  uc_OutputTokens :: int
  uc_CacheCreationTokens :: int
  uc_CacheReadTokens :: int
  uc_ImageCount :: int
  uc_MediaType :: string
  uc_BalanceCost :: money
  uc_SubscriptionCost :: money
  uc_APIKeyQuotaCost :: money
  uc_APIKeyRateLimitCost :: money
  uc_AccountQuotaCost :: money
  uc_AccountQuotaHasDailyLimit :: bool
  uc_AccountQuotaHasWeeklyLimit :: bool

record UsageBillingApplyResult =
  ua_Applied :: bool
  ua_APIKeyQuotaExhausted :: bool
  ua_NewBalance :: "money option"
  ua_BalanceOverdrafted :: bool
  ua_QuotaState :: "AccountQuotaState option"

definition no_usage_result :: UsageBillingApplyResult where
  "no_usage_result = \<lparr>ua_Applied = False, ua_APIKeyQuotaExhausted = False, ua_NewBalance = None,
     ua_BalanceOverdrafted = False, ua_QuotaState = None\<rparr>"

definition QuantizeUsageBillingAmount :: "money \<Rightarrow> money" where
  "QuantizeUsageBillingAmount v = (if v = 0 then v else to_scale8 v)"

definition quantizeMonetaryFields :: "UsageBillingCommand \<Rightarrow> UsageBillingCommand" where
  "quantizeMonetaryFields c =
     c\<lparr>uc_BalanceCost := QuantizeUsageBillingAmount (uc_BalanceCost c),
       uc_SubscriptionCost := QuantizeUsageBillingAmount (uc_SubscriptionCost c),
       uc_APIKeyQuotaCost := QuantizeUsageBillingAmount (uc_APIKeyQuotaCost c),
       uc_APIKeyRateLimitCost := QuantizeUsageBillingAmount (uc_APIKeyRateLimitCost c),
       uc_AccountQuotaCost := QuantizeUsageBillingAmount (uc_AccountQuotaCost c)\<rparr>"

definition valueOrZero :: "int option \<Rightarrow> int" where
  "valueOrZero v = (case v of None \<Rightarrow> 0 | Some x \<Rightarrow> x)"

fun join_bars :: "string list \<Rightarrow> string" where
  "join_bars [] = []"
| "join_bars [s] = s"
| "join_bars (s # t # ts) = s @ ''|'' @ join_bars (t # ts)"

definition buildUsageBillingFingerprint :: "(string \<Rightarrow> string) \<Rightarrow> UsageBillingCommand \<Rightarrow> string" where
  "buildUsageBillingFingerprint sha c =
     (let raw = join_bars
            [Itoa (uc_UserID c), Itoa (uc_AccountID c), Itoa (uc_APIKeyID c), trim_space (uc_AccountType c), trim_space (uc_Model c),
             trim_space (uc_ServiceTier c), trim_space (uc_ReasoningEffort c), Itoa (uc_BillingType c), Itoa (uc_InputTokens c),
             Itoa (uc_OutputTokens c), Itoa (uc_CacheCreationTokens c), Itoa (uc_CacheReadTokens c), Itoa (uc_ImageCount c),
             trim_space (uc_MediaType c), Itoa (valueOrZero (uc_SubscriptionID c)), money_text (uc_BalanceCost c),
             money_text (uc_SubscriptionCost c), money_text (uc_APIKeyQuotaCost c), money_text (uc_APIKeyRateLimitCost c),
             money_text (uc_AccountQuotaCost c)];
          payload = trim_space (uc_RequestPayloadHash c)
      in sha (if payload = [] then raw else raw @ ''|'' @ payload))"

text \<open>The fingerprint is taken before the amounts are rounded.\<close>

definition Normalize_usage :: "(string \<Rightarrow> string) \<Rightarrow> UsageBillingCommand \<Rightarrow> UsageBillingCommand" where
  "Normalize_usage sha c =
     (let c1 = c\<lparr>uc_RequestID := trim_space (uc_RequestID c)\<rparr>
      in quantizeMonetaryFields
           (if trim_space (uc_RequestFingerprint c1) = []
            then c1\<lparr>uc_RequestFingerprint := buildUsageBillingFingerprint sha c1\<rparr> else c1))"

subsection \<open>The tables\<close>

record ApiKeyRow =
  kr_deleted :: bool
  kr_status :: string
  kr_quota :: money
  kr_quota_used :: money
  kr_usage_5h :: money
  kr_usage_1d :: money
  kr_usage_7d :: money
  kr_window_5h_start :: "gotime option"
  kr_window_1d_start :: "gotime option"
  kr_window_7d_start :: "gotime option"

record SubscriptionRow =
  su_deleted :: bool
  su_group :: int
  su_daily_usage :: money
  su_weekly_usage :: money
  su_monthly_usage :: money

text \<open>The groups that are not deleted are those of the set.\<close>

record usage_db =
  ud_billing :: billing_db
  ud_keys :: "(int, ApiKeyRow) fmap"
  ud_subscriptions :: "(int, SubscriptionRow) fmap"
  ud_groups :: "int set"
  ud_quotas :: quota_db

definition StatusAPIKeyActive :: string where "StatusAPIKeyActive = ''active''"
definition StatusAPIKeyQuotaExhausted :: string where "StatusAPIKeyQuotaExhausted = ''quota_exhausted''"
definition ErrSubscriptionNotFound :: ApplicationError where
  "ErrSubscriptionNotFound = NewError 404 ''SUBSCRIPTION_NOT_FOUND'' ''subscription not found''"
definition ErrAPIKeyNotFound :: ApplicationError where
  "ErrAPIKeyNotFound = NewError 404 ''API_KEY_NOT_FOUND'' ''api key not found''"

subsection \<open>The effects\<close>

definition incrementUsageBillingSubscription :: "int \<Rightarrow> money \<Rightarrow> usage_db \<Rightarrow> go_error + usage_db" where
  "incrementUsageBillingSubscription i cost d =
     (case fmlookup (ud_subscriptions d) i of
        None \<Rightarrow> Inl (App ErrSubscriptionNotFound)
      | Some s \<Rightarrow>
          if su_deleted s \<or> su_group s \<notin> ud_groups d then Inl (App ErrSubscriptionNotFound)
          else Inr (d\<lparr>ud_subscriptions := fmupd i
                 (s\<lparr>su_daily_usage := su_daily_usage s + cost, su_weekly_usage := su_weekly_usage s + cost,
                    su_monthly_usage := su_monthly_usage s + cost\<rparr>) (ud_subscriptions d)\<rparr>))"

text \<open>The new balance, and whether it was sufficient; the cost is booked in either case.\<close>

definition deductUsageBillingBalance :: "int \<Rightarrow> money \<Rightarrow> usage_db \<Rightarrow> go_error + (money \<times> bool) \<times> usage_db" where
  "deductUsageBillingBalance user amount d =
     (case fmlookup (bd_users (ud_billing d)) user of
        None \<Rightarrow> Inl (App ErrUserNotFound)
      | Some u \<Rightarrow>
          if ub_deleted u then Inl (App ErrUserNotFound)
          else (let b = to_scale8 (ub_balance u - amount)
                in Inr ((b, amount \<le> ub_balance u),
                        d\<lparr>ud_billing := (ud_billing d)\<lparr>bd_users := fmupd user (u\<lparr>ub_balance := b\<rparr>) (bd_users (ud_billing d))\<rparr>\<rparr>)))"

definition incrementUsageBillingAPIKeyQuota :: "int \<Rightarrow> money \<Rightarrow> usage_db \<Rightarrow> go_error + bool \<times> usage_db" where
  "incrementUsageBillingAPIKeyQuota i amount d =
     (case fmlookup (ud_keys d) i of
        None \<Rightarrow> Inl (App ErrAPIKeyNotFound)
      | Some k \<Rightarrow>
          if kr_deleted k then Inl (App ErrAPIKeyNotFound)
          else (let used = to_scale8 (kr_quota_used k + amount);
                    status = (if 0 < kr_quota k \<and> kr_status k = StatusAPIKeyActive \<and> kr_quota_used k < kr_quota k \<and>
                                 kr_quota k \<le> kr_quota_used k + amount
                              then StatusAPIKeyQuotaExhausted else kr_status k)
                in Inr (0 < kr_quota k \<and> kr_quota k \<le> used \<and> used - amount < kr_quota k,
                        d\<lparr>ud_keys := fmupd i (k\<lparr>kr_quota_used := used, kr_status := status\<rparr>) (ud_keys d)\<rparr>)))"

text \<open>A window: whether it is over, its usage and its start after a cost.\<close>

definition window_over :: "gotime \<Rightarrow> duration \<Rightarrow> gotime option \<Rightarrow> bool" where
  "window_over now span start = (case start of None \<Rightarrow> False | Some s \<Rightarrow> s + span \<le> now)"

definition window_usage :: "gotime \<Rightarrow> duration \<Rightarrow> money \<Rightarrow> gotime option \<Rightarrow> money \<Rightarrow> money" where
  "window_usage now span cost start usage = to_scale8 (if window_over now span start then cost else usage + cost)"

definition window_start :: "gotime \<Rightarrow> duration \<Rightarrow> gotime \<Rightarrow> gotime option \<Rightarrow> gotime option" where
  "window_start now span fresh start = (if start = None \<or> window_over now span start then Some fresh else start)"

definition incrementUsageBillingAPIKeyRateLimit :: "gotime \<Rightarrow> gotime \<Rightarrow> int \<Rightarrow> money \<Rightarrow> usage_db \<Rightarrow> go_error + usage_db" where
  "incrementUsageBillingAPIKeyRateLimit now today i cost d =
     (case fmlookup (ud_keys d) i of
        None \<Rightarrow> Inl (App ErrAPIKeyNotFound)
      | Some k \<Rightarrow>
          if kr_deleted k then Inl (App ErrAPIKeyNotFound)
          else Inr (d\<lparr>ud_keys := fmupd i
                 (k\<lparr>kr_usage_5h := window_usage now (5 * hour) cost (kr_window_5h_start k) (kr_usage_5h k),
                    kr_usage_1d := window_usage now (24 * hour) cost (kr_window_1d_start k) (kr_usage_1d k),
                    kr_usage_7d := window_usage now (7 * day) cost (kr_window_7d_start k) (kr_usage_7d k),
                    kr_window_5h_start := window_start now (5 * hour) now (kr_window_5h_start k),
                    kr_window_1d_start := window_start now (24 * hour) today (kr_window_1d_start k),
                    kr_window_7d_start := window_start now (7 * day) today (kr_window_7d_start k)\<rparr>) (ud_keys d)\<rparr>))"

definition AccountTypeSupportsQuota :: "string \<Rightarrow> bool" where
  "AccountTypeSupportsQuota t = (to_lower t = ''apikey'' \<or> to_lower t = ''bedrock'' \<or> to_lower t = ''service_account'')"

subsection \<open>The transaction\<close>

text \<open>Each effect in turn: a missing key or account is passed over, any other error ends the transaction.\<close>

definition book_subscription :: "UsageBillingCommand \<Rightarrow> usage_db \<Rightarrow> go_error + usage_db" where
  "book_subscription c d =
     (case uc_SubscriptionID c of
        Some s \<Rightarrow> if 0 < uc_SubscriptionCost c then incrementUsageBillingSubscription s (uc_SubscriptionCost c) d else Inr d
      | None \<Rightarrow> Inr d)"

definition book_balance :: "UsageBillingCommand \<Rightarrow> UsageBillingApplyResult \<times> usage_db \<Rightarrow> go_error + UsageBillingApplyResult \<times> usage_db" where
  "book_balance c = (\<lambda>(r, d).
     if 0 < uc_BalanceCost c then
       and_also (deductUsageBillingBalance (uc_UserID c) (uc_BalanceCost c) d)
         (\<lambda>((b, sufficient), d'). Inr (r\<lparr>ua_NewBalance := Some b, ua_BalanceOverdrafted := \<not> sufficient\<rparr>, d'))
     else Inr (r, d))"

definition book_key_quota :: "UsageBillingCommand \<Rightarrow> UsageBillingApplyResult \<times> usage_db \<Rightarrow> go_error + UsageBillingApplyResult \<times> usage_db" where
  "book_key_quota c = (\<lambda>(r, d).
     if 0 < uc_APIKeyQuotaCost c then
       (case incrementUsageBillingAPIKeyQuota (uc_APIKeyID c) (uc_APIKeyQuotaCost c) d of
          Inr (exhausted, d') \<Rightarrow> Inr (r\<lparr>ua_APIKeyQuotaExhausted := exhausted\<rparr>, d')
        | Inl e \<Rightarrow> if e = App ErrAPIKeyNotFound then Inr (r\<lparr>ua_APIKeyQuotaExhausted := False\<rparr>, d) else Inl e)
     else Inr (r, d))"

definition book_rate_limit ::
    "gotime \<Rightarrow> gotime \<Rightarrow> UsageBillingCommand \<Rightarrow> UsageBillingApplyResult \<times> usage_db \<Rightarrow> go_error + UsageBillingApplyResult \<times> usage_db" where
  "book_rate_limit now today c = (\<lambda>(r, d).
     if 0 < uc_APIKeyRateLimitCost c then
       (case incrementUsageBillingAPIKeyRateLimit now today (uc_APIKeyID c) (uc_APIKeyRateLimitCost c) d of
          Inr d' \<Rightarrow> Inr (r, d')
        | Inl e \<Rightarrow> if e = App ErrAPIKeyNotFound then Inr (r, d) else Inl e)
     else Inr (r, d))"

definition book_account_quota ::
    "zones \<Rightarrow> gotime \<Rightarrow> UsageBillingCommand \<Rightarrow> UsageBillingApplyResult \<times> usage_db \<Rightarrow> go_error + UsageBillingApplyResult \<times> usage_db" where
  "book_account_quota Z now c = (\<lambda>(r, d).
     if 0 < uc_AccountQuotaCost c \<and> AccountTypeSupportsQuota (uc_AccountType c) then
       (case incrementUsageBillingAccountQuota Z now (uc_AccountID c) (uc_AccountQuotaCost c)
               (uc_AccountQuotaHasDailyLimit c) (uc_AccountQuotaHasWeeklyLimit c) (ud_quotas d) of
          Inr (s, q) \<Rightarrow> Inr (r\<lparr>ua_QuotaState := Some s\<rparr>, d\<lparr>ud_quotas := q\<rparr>)
        | Inl e \<Rightarrow> if e = App ErrAccountNotFound then Inr (r\<lparr>ua_QuotaState := None\<rparr>, d) else Inl e)
     else Inr (r, d))"

definition applyUsageBillingEffects ::
    "zones \<Rightarrow> gotime \<Rightarrow> gotime \<Rightarrow> UsageBillingCommand \<Rightarrow> UsageBillingApplyResult \<Rightarrow> usage_db \<Rightarrow> go_error + UsageBillingApplyResult \<times> usage_db" where
  "applyUsageBillingEffects Z now today c r d =
     and_also (book_subscription c d) (\<lambda>d1.
       and_also (book_balance c (r, d1)) (\<lambda>s2.
         and_also (book_key_quota c s2) (\<lambda>s3.
           and_also (book_rate_limit now today c s3) (book_account_quota Z now c))))"

definition Apply ::
    "(string \<Rightarrow> string) \<Rightarrow> zones \<Rightarrow> gotime \<Rightarrow> gotime \<Rightarrow> UsageBillingCommand \<Rightarrow> usage_db \<Rightarrow>
     (go_error + UsageBillingApplyResult) \<times> usage_db" where
  "Apply sha Z now today c0 d =
     (let c = Normalize_usage sha c0
      in if uc_RequestID c = [] then (Inl ErrUsageBillingRequestIDRequired, d)
         else case claimUsageBillingRequest (uc_RequestID c) (uc_APIKeyID c) (uc_RequestFingerprint c) (ud_billing d) of
                Inl e \<Rightarrow> (Inl e, d)
              | Inr (applied, b) \<Rightarrow>
                  if \<not> applied then (Inr no_usage_result, d)
                  else (case applyUsageBillingEffects Z now today c (no_usage_result\<lparr>ua_Applied := True\<rparr>) (d\<lparr>ud_billing := b\<rparr>) of
                          Inl e \<Rightarrow> (Inl e, d)
                        | Inr (r, d') \<Rightarrow> (Inr r, d')))"

end
