(* ===== verification/Usage_Billing_Props.thy ===== *)
theory Usage_Billing_Props
  imports Usage_Billing Request_Once Batch_Image_Ledger
begin

section \<open>Usage is booked once and exactly\<close>

text \<open>
  Booking meets the contract of \<open>Request_Once\<close>. What it books is the rounded cost: the balance falls and the
  quota of the key rises by it, whatever was rounded before, and the end of a quota is signalled once.
\<close>

definition usage_key :: "UsageBillingCommand \<Rightarrow> string \<times> int" where
  "usage_key c = (trim_space (uc_RequestID c), uc_APIKeyID c)"

definition usage_claimed :: "usage_db \<Rightarrow> string \<times> int \<Rightarrow> bool" where
  "usage_claimed d k = claimed (ud_billing d) k"

text \<open>What is booked of an amount.\<close>

definition charge :: "money \<Rightarrow> money" where
  "charge x = max 0 (QuantizeUsageBillingAmount x)"

lemma charge_scaled: "100 dvd charge x" and charge_nonneg: "0 \<le> charge x"
  by (simp_all add: charge_def QuantizeUsageBillingAmount_def to_scale8_scaled max_def)

lemma Normalize_usage_fields [simp]:
  "uc_RequestID (Normalize_usage sha c) = trim_space (uc_RequestID c)" "uc_APIKeyID (Normalize_usage sha c) = uc_APIKeyID c"
  "uc_UserID (Normalize_usage sha c) = uc_UserID c" "uc_AccountID (Normalize_usage sha c) = uc_AccountID c"
  "uc_SubscriptionID (Normalize_usage sha c) = uc_SubscriptionID c"
  "uc_BalanceCost (Normalize_usage sha c) = QuantizeUsageBillingAmount (uc_BalanceCost c)"
  "uc_SubscriptionCost (Normalize_usage sha c) = QuantizeUsageBillingAmount (uc_SubscriptionCost c)"
  "uc_APIKeyQuotaCost (Normalize_usage sha c) = QuantizeUsageBillingAmount (uc_APIKeyQuotaCost c)"
  "uc_APIKeyRateLimitCost (Normalize_usage sha c) = QuantizeUsageBillingAmount (uc_APIKeyRateLimitCost c)"
  by (simp_all add: Normalize_usage_def Let_def quantizeMonetaryFields_def)

subsection \<open>The steps of the transaction\<close>

lemma and_also_Inr: "and_also x f = Inr y \<longleftrightarrow> (\<exists>z. x = Inr z \<and> f z = Inr y)"
  by (cases x) (simp_all add: and_also_def)

text \<open>What the steps leave alone; \<open>live_key\<close> is a key that is not deleted.\<close>

definition balance_of :: "usage_db \<Rightarrow> int \<Rightarrow> money" where
  "balance_of d i = (case fmlookup (bd_users (ud_billing d)) i of None \<Rightarrow> 0 | Some u \<Rightarrow> ub_balance u)"

definition live_key :: "usage_db \<Rightarrow> int \<Rightarrow> bool" where
  "live_key d i = (case fmlookup (ud_keys d) i of None \<Rightarrow> False | Some k \<Rightarrow> \<not> kr_deleted k)"

definition key_used :: "usage_db \<Rightarrow> int \<Rightarrow> money" where
  "key_used d i = (case fmlookup (ud_keys d) i of None \<Rightarrow> 0 | Some k \<Rightarrow> kr_quota_used k)"

definition subscription_used :: "(SubscriptionRow \<Rightarrow> money) \<Rightarrow> usage_db \<Rightarrow> int \<Rightarrow> money" where
  "subscription_used f d i = (case fmlookup (ud_subscriptions d) i of None \<Rightarrow> 0 | Some s \<Rightarrow> f s)"

definition usage_scaled :: "usage_db \<Rightarrow> bool" where
  "usage_scaled d =
     ((\<forall>i u. fmlookup (bd_users (ud_billing d)) i = Some u \<longrightarrow> 100 dvd ub_balance u) \<and>
      (\<forall>i k. fmlookup (ud_keys d) i = Some k \<longrightarrow> 100 dvd kr_quota_used k))"

definition claims_of :: "usage_db \<Rightarrow> (string \<times> int, string) fmap \<times> (string \<times> int, string) fmap" where
  "claims_of d = (bd_dedup (ud_billing d), bd_archive (ud_billing d))"

lemma subscription_step:
  assumes "book_subscription c d = Inr d'"
  shows "ud_billing d' = ud_billing d \<and> ud_keys d' = ud_keys d \<and> ud_quotas d' = ud_quotas d \<and>
    (\<forall>f \<in> {su_daily_usage, su_weekly_usage, su_monthly_usage}. \<forall>i. subscription_used f d' i = subscription_used f d i +
       (if uc_SubscriptionID c = Some i then max 0 (uc_SubscriptionCost c) else 0))"
  using assms
  by (auto simp: book_subscription_def incrementUsageBillingSubscription_def subscription_used_def
      split: option.splits if_splits)

lemma balance_step:
  assumes "book_balance c (r, d) = Inr (r', d')" and "usage_scaled d" and "100 dvd uc_BalanceCost c"
  shows "ud_keys d' = ud_keys d \<and> ud_subscriptions d' = ud_subscriptions d \<and> claims_of d' = claims_of d \<and> usage_scaled d' \<and>
    (\<forall>i. balance_of d' i = balance_of d i - (if i = uc_UserID c then max 0 (uc_BalanceCost c) else 0)) \<and>
    ua_Applied r' = ua_Applied r \<and> ua_APIKeyQuotaExhausted r' = ua_APIKeyQuotaExhausted r \<and>
    (0 < uc_BalanceCost c \<longrightarrow>
       ua_NewBalance r' = Some (balance_of d' (uc_UserID c)) \<and>
       ua_BalanceOverdrafted r' = (balance_of d (uc_UserID c) < uc_BalanceCost c)) \<and>
    (uc_BalanceCost c \<le> 0 \<longrightarrow> r' = r)"
proof (cases "0 < uc_BalanceCost c")
  case True
  let ?users = "bd_users (ud_billing d)" and ?i = "uc_UserID c"
  from True assms(1) obtain u where u: "fmlookup ?users ?i = Some u"
    and r': "r' = r\<lparr>ua_NewBalance := Some (to_scale8 (ub_balance u - uc_BalanceCost c)),
               ua_BalanceOverdrafted := \<not> uc_BalanceCost c \<le> ub_balance u\<rparr>"
    and d': "d' = d\<lparr>ud_billing := (ud_billing d)\<lparr>bd_users := fmupd ?i (u\<lparr>ub_balance := to_scale8 (ub_balance u - uc_BalanceCost c)\<rparr>) ?users\<rparr>\<rparr>"
    by (auto simp: book_balance_def deductUsageBillingBalance_def and_also_Inr Let_def split: option.splits if_splits)
  have "100 dvd ub_balance u - uc_BalanceCost c" using assms(2,3) u by (auto simp: usage_scaled_def)
  then have b: "to_scale8 (ub_balance u - uc_BalanceCost c) = ub_balance u - uc_BalanceCost c"
    "100 dvd ub_balance u - uc_BalanceCost c" by (simp_all add: to_scale8_exact)
  then show ?thesis
    using assms(2) True u by (auto simp: d' r' balance_of_def usage_scaled_def claims_of_def not_le)
qed (use assms in \<open>auto simp: book_balance_def\<close>)

text \<open>A key row after the two steps about keys.\<close>

definition quota_step :: "money \<Rightarrow> ApiKeyRow \<Rightarrow> ApiKeyRow \<Rightarrow> bool" where
  "quota_step amount k k' =
     (kr_deleted k' = kr_deleted k \<and> kr_quota k' = kr_quota k \<and> kr_quota_used k' = kr_quota_used k + amount \<and>
      kr_status k' = (if 0 < kr_quota k \<and> kr_status k = StatusAPIKeyActive \<and> kr_quota_used k < kr_quota k \<and>
                         kr_quota k \<le> kr_quota_used k + amount
                      then StatusAPIKeyQuotaExhausted else kr_status k))"

definition key_change :: "int \<Rightarrow> money \<Rightarrow> usage_db \<Rightarrow> usage_db \<Rightarrow> bool" where
  "key_change i amount d d' =
     (\<forall>j. case fmlookup (ud_keys d) j of
            None \<Rightarrow> fmlookup (ud_keys d') j = None
          | Some k \<Rightarrow> \<exists>k'. fmlookup (ud_keys d') j = Some k' \<and> quota_step (if j = i \<and> \<not> kr_deleted k then amount else 0) k k')"

lemma quota_step_refl: "quota_step 0 k k"
  by (auto simp: quota_step_def)

lemma key_change_same: "ud_keys d' = ud_keys d \<Longrightarrow> key_change i 0 d d'"
  by (auto simp: key_change_def quota_step_refl split: option.splits)

lemma key_quota_step:
  assumes "book_key_quota c (r, d) = Inr (r', d')" and "usage_scaled d" and "100 dvd uc_APIKeyQuotaCost c"
  shows "ud_billing d' = ud_billing d \<and> ud_subscriptions d' = ud_subscriptions d \<and> usage_scaled d' \<and>
    key_change (uc_APIKeyID c) (max 0 (uc_APIKeyQuotaCost c)) d d' \<and>
    ua_Applied r' = ua_Applied r \<and> ua_NewBalance r' = ua_NewBalance r \<and> ua_BalanceOverdrafted r' = ua_BalanceOverdrafted r \<and>
    (0 < uc_APIKeyQuotaCost c \<longrightarrow>
       ua_APIKeyQuotaExhausted r' = (case fmlookup (ud_keys d) (uc_APIKeyID c) of None \<Rightarrow> False
          | Some k \<Rightarrow> \<not> kr_deleted k \<and> 0 < kr_quota k \<and> kr_quota_used k < kr_quota k \<and> kr_quota k \<le> kr_quota_used k + uc_APIKeyQuotaCost c)) \<and>
    (uc_APIKeyQuotaCost c \<le> 0 \<longrightarrow> r' = r)"
proof (cases "0 < uc_APIKeyQuotaCost c")
  case True
  let ?i = "uc_APIKeyID c"
  show ?thesis
  proof (cases "live_key d ?i")
    case live: True
    then obtain k where k: "fmlookup (ud_keys d) ?i = Some k" "\<not> kr_deleted k"
      by (auto simp: live_key_def split: option.splits)
    have s: "100 dvd kr_quota_used k + uc_APIKeyQuotaCost c"
      using assms(2,3) k(1) by (auto simp: usage_scaled_def)
    with True assms(1) k show ?thesis
      using assms(2)
      by (auto simp: book_key_quota_def incrementUsageBillingAPIKeyQuota_def Let_def to_scale8_exact key_change_def
          quota_step_def usage_scaled_def split: option.splits if_split_asm)
  next
    case False
    with True assms show ?thesis
      by (auto simp: book_key_quota_def incrementUsageBillingAPIKeyQuota_def live_key_def key_change_def quota_step_refl
          split: option.splits if_splits)
  qed
qed (use assms in \<open>auto simp: book_key_quota_def key_change_same\<close>)

lemma rate_limit_step:
  assumes "book_rate_limit now today c (r, d) = Inr (r', d')"
  shows "r' = r \<and> ud_billing d' = ud_billing d \<and> ud_subscriptions d' = ud_subscriptions d \<and> key_change i 0 d d'"
  using assms
  by (auto simp: book_rate_limit_def incrementUsageBillingAPIKeyRateLimit_def key_change_def quota_step_def
      split: option.splits sum.splits if_splits)

lemma account_quota_step:
  assumes "book_account_quota Z now c (r, d) = Inr (r', d')"
  shows "ud_billing d' = ud_billing d \<and> ud_subscriptions d' = ud_subscriptions d \<and> ud_keys d' = ud_keys d \<and>
    ua_Applied r' = ua_Applied r \<and> ua_NewBalance r' = ua_NewBalance r \<and> ua_BalanceOverdrafted r' = ua_BalanceOverdrafted r \<and>
    ua_APIKeyQuotaExhausted r' = ua_APIKeyQuotaExhausted r"
  using assms by (auto simp: book_account_quota_def split: sum.splits if_splits)

lemma quota_step_zero: "quota_step a k k' \<Longrightarrow> quota_step 0 k' k'' \<Longrightarrow> quota_step a k k''"
  by (auto simp: quota_step_def)

lemma key_changeD:
  assumes "key_change i a d d'"
  shows "fmlookup (ud_keys d) j = None \<Longrightarrow> fmlookup (ud_keys d') j = None"
    and "fmlookup (ud_keys d) j = Some k \<Longrightarrow>
      \<exists>k'. fmlookup (ud_keys d') j = Some k' \<and> quota_step (if j = i \<and> \<not> kr_deleted k then a else 0) k k'"
  using assms [unfolded key_change_def, THEN spec, of j] by simp_all

lemma key_change_zero:
  assumes "key_change i a d d'" and "key_change i 0 d' d''"
  shows "key_change i a d d''"
  unfolding key_change_def
proof
  fix j
  show "case fmlookup (ud_keys d) j of None \<Rightarrow> fmlookup (ud_keys d'') j = None
    | Some k \<Rightarrow> \<exists>k'. fmlookup (ud_keys d'') j = Some k' \<and> quota_step (if j = i \<and> \<not> kr_deleted k then a else 0) k k'"
  proof (cases "fmlookup (ud_keys d) j")
    case None
    then show ?thesis using key_changeD(1) [OF assms(1)] key_changeD(1) [OF assms(2)] by simp
  next
    case (Some k)
    then obtain k1 where k1: "fmlookup (ud_keys d') j = Some k1" "quota_step (if j = i \<and> \<not> kr_deleted k then a else 0) k k1"
      using key_changeD(2) [OF assms(1)] by blast
    then obtain k2 where "fmlookup (ud_keys d'') j = Some k2" "quota_step 0 k1 k2"
      using key_changeD(2) [OF assms(2) k1(1)] by auto
    with k1 Some show ?thesis using quota_step_zero by auto
  qed
qed

lemma key_change_cong: "ud_keys d = ud_keys e \<Longrightarrow> key_change i a d d' = key_change i a e d'"
  by (simp add: key_change_def)

lemma key_change_scaled:
  assumes "key_change i a d d'" and "100 dvd a" and "usage_scaled d" and "ud_billing d' = ud_billing d"
  shows "usage_scaled d'"
proof -
  have "100 dvd kr_quota_used k'" if "fmlookup (ud_keys d') j = Some k'" for j k'
  proof (cases "fmlookup (ud_keys d) j")
    case (Some k)
    with key_changeD(2) [OF assms(1) Some] that have "quota_step (if j = i \<and> \<not> kr_deleted k then a else 0) k k'" by simp
    with assms(2,3) Some show ?thesis by (auto simp: quota_step_def usage_scaled_def split: if_splits)
  qed (use key_changeD(1) [OF assms(1)] that in simp)
  with assms(3,4) show ?thesis by (simp add: usage_scaled_def)
qed

subsection \<open>The whole transaction\<close>

lemma effects_booked:
  assumes "applyUsageBillingEffects Z now today (Normalize_usage sha c) r d = Inr (r', d')" and "usage_scaled d"
    and "r = no_usage_result\<lparr>ua_Applied := True\<rparr>"
  shows "claims_of d' = claims_of d \<and> usage_scaled d' \<and> ua_Applied r' \<and>
    (\<forall>i. balance_of d' i = balance_of d i - (if i = uc_UserID c then charge (uc_BalanceCost c) else 0)) \<and>
    key_change (uc_APIKeyID c) (charge (uc_APIKeyQuotaCost c)) d d' \<and>
    (\<forall>f \<in> {su_daily_usage, su_weekly_usage, su_monthly_usage}. \<forall>i. subscription_used f d' i = subscription_used f d i +
       (if uc_SubscriptionID c = Some i then charge (uc_SubscriptionCost c) else 0)) \<and>
    ua_NewBalance r' = (if 0 < charge (uc_BalanceCost c) then Some (balance_of d' (uc_UserID c)) else None) \<and>
    ua_BalanceOverdrafted r' = (0 < charge (uc_BalanceCost c) \<and> balance_of d (uc_UserID c) < charge (uc_BalanceCost c)) \<and>
    ua_APIKeyQuotaExhausted r' =
      (case fmlookup (ud_keys d) (uc_APIKeyID c) of None \<Rightarrow> False
       | Some k \<Rightarrow> \<not> kr_deleted k \<and> 0 < kr_quota k \<and> kr_quota_used k < kr_quota k \<and>
           kr_quota k \<le> kr_quota_used k + charge (uc_APIKeyQuotaCost c))"
proof -
  let ?c = "Normalize_usage sha c"
  from assms(1) obtain d1 r2 d2 r3 d3 r4 d4 where
    s1: "book_subscription ?c d = Inr d1" and s2: "book_balance ?c (r, d1) = Inr (r2, d2)" and
    s3: "book_key_quota ?c (r2, d2) = Inr (r3, d3)" and s4: "book_rate_limit now today ?c (r3, d3) = Inr (r4, d4)" and
    s5: "book_account_quota Z now ?c (r4, d4) = Inr (r', d')"
    by (auto simp: applyUsageBillingEffects_def and_also_Inr)
  note e1 = subscription_step [OF s1]
  have d1: "usage_scaled d1" "claims_of d1 = claims_of d" "\<And>i. balance_of d1 i = balance_of d i"
    using e1 assms(2) by (simp_all add: usage_scaled_def claims_of_def balance_of_def)
  have sc: "100 dvd QuantizeUsageBillingAmount x" for x by (simp add: QuantizeUsageBillingAmount_def to_scale8_scaled)
  note e2 = balance_step [OF s2 d1(1), simplified, OF sc]
  have d2: "usage_scaled d2" using e2 by blast
  note e3 = key_quota_step [OF s3 d2, simplified, OF sc]
  note e4 = rate_limit_step [OF s4] and e5 = account_quota_step [OF s5]
  have keys: "ud_keys d2 = ud_keys d" using e1 e2 by simp
  have billing: "ud_billing d' = ud_billing d2" using e3 e4 e5 by simp
  then have same: "claims_of d' = claims_of d2" "balance_of d' = balance_of d2"
    by (simp_all add: claims_of_def balance_of_def fun_eq_iff)
  have "key_change (uc_APIKeyID c) (charge (uc_APIKeyQuotaCost c)) d2 d3" using e3 by (simp add: charge_def)
  from key_change_zero [OF key_change_zero [OF this], of d4 d'] e4 e5
  have change: "key_change (uc_APIKeyID c) (charge (uc_APIKeyQuotaCost c)) d2 d'" by (simp add: key_change_same)
  have "usage_scaled d'" using change charge_scaled d2 billing by (rule key_change_scaled)
  moreover have "claims_of d' = claims_of d" using same e2 d1(2) by simp
  moreover have "ua_Applied r'" using e2 e3 e4 e5 assms(3) by simp
  moreover have "\<forall>i. balance_of d' i = balance_of d i - (if i = uc_UserID c then charge (uc_BalanceCost c) else 0)"
    using same e2 d1(3) by (simp add: charge_def)
  moreover have "key_change (uc_APIKeyID c) (charge (uc_APIKeyQuotaCost c)) d d'"
    using change key_change_cong [OF keys] by simp
  moreover have "subscription_used f d' = subscription_used f d1" for f
    using e2 e3 e4 e5 by (simp add: subscription_used_def fun_eq_iff)
  then have "\<forall>f \<in> {su_daily_usage, su_weekly_usage, su_monthly_usage}. \<forall>i. subscription_used f d' i = subscription_used f d i +
       (if uc_SubscriptionID c = Some i then charge (uc_SubscriptionCost c) else 0)"
    using e1 by (simp add: charge_def)
  moreover have "ua_NewBalance r' = (if 0 < charge (uc_BalanceCost c) then Some (balance_of d' (uc_UserID c)) else None) \<and>
      ua_BalanceOverdrafted r' = (0 < charge (uc_BalanceCost c) \<and> balance_of d (uc_UserID c) < charge (uc_BalanceCost c))"
  proof (cases "0 < QuantizeUsageBillingAmount (uc_BalanceCost c)")
    case True
    with e2 e3 e4 e5 same d1(3) show ?thesis by (simp add: charge_def)
  next
    case False
    then have "r2 = r" using e2 by simp
    with False e3 e4 e5 assms(3) show ?thesis by (simp add: charge_def no_usage_result_def)
  qed
  moreover have "ua_APIKeyQuotaExhausted r' =
      (case fmlookup (ud_keys d) (uc_APIKeyID c) of None \<Rightarrow> False
       | Some k \<Rightarrow> \<not> kr_deleted k \<and> 0 < kr_quota k \<and> kr_quota_used k < kr_quota k \<and>
           kr_quota k \<le> kr_quota_used k + charge (uc_APIKeyQuotaCost c))"
  proof (cases "0 < QuantizeUsageBillingAmount (uc_APIKeyQuotaCost c)")
    case True
    with e3 e4 e5 keys show ?thesis by (simp add: charge_def cong: option.case_cong)
  next
    case False
    then have "r3 = r2" using e3 by simp
    with False e2 e4 e5 assms(3) show ?thesis by (simp add: charge_def no_usage_result_def split: option.splits)
  qed
  ultimately show ?thesis by blast
qed

lemma apply_cases:
  obtains (refused) e where "Apply sha Z now today c d = (Inl e, d)"
  | (repeated) "Apply sha Z now today c d = (Inr no_usage_result, d)" "usage_claimed d (usage_key c)"
  | (booked) r d' b where "Apply sha Z now today c d = (Inr r, d')" "\<not> usage_claimed d (usage_key c)"
      "b = (ud_billing d)\<lparr>bd_dedup := fmupd (usage_key c) (uc_RequestFingerprint (Normalize_usage sha c)) (bd_dedup (ud_billing d))\<rparr>"
      "applyUsageBillingEffects Z now today (Normalize_usage sha c) (no_usage_result\<lparr>ua_Applied := True\<rparr>) (d\<lparr>ud_billing := b\<rparr>) = Inr (r, d')"
proof (cases "trim_space (uc_RequestID c) = []")
  case True
  then show thesis by (intro refused [of ErrUsageBillingRequestIDRequired]) (simp add: Apply_def Let_def)
next
  case False
  let ?n = "Normalize_usage sha c"
  let ?claim = "claimUsageBillingRequest (trim_space (uc_RequestID c)) (uc_APIKeyID c) (uc_RequestFingerprint ?n) (ud_billing d)"
  show thesis
  proof (cases ?claim)
    case (Inl e)
    with False show thesis by (intro refused [of e]) (simp add: Apply_def Let_def)
  next
    case (Inr res)
    obtain applied b where res: "res = (applied, b)" by (cases res)
    note claim = claim_cases [OF Inr [unfolded res]]
    show thesis
    proof (cases applied)
      case False2: False
      with False Inr res claim(1) show thesis
        by (intro repeated) (auto simp: Apply_def Let_def usage_claimed_def claimed_def usage_key_def)
    next
      case True
      show thesis
      proof (cases "applyUsageBillingEffects Z now today ?n (no_usage_result\<lparr>ua_Applied := True\<rparr>) (d\<lparr>ud_billing := b\<rparr>)")
        case (Inl e)
        with False Inr res True show thesis by (intro refused [of e]) (simp add: Apply_def Let_def)
      next
        case eff: (Inr out)
        obtain r d' where "out = (r, d')" by (cases out)
        with False Inr res True eff claim show thesis
          by (intro booked [of r d' b]) (simp_all add: Apply_def Let_def usage_claimed_def claimed_def usage_key_def)
      qed
    qed
  qed
qed

lemma booked_effects:
  assumes "Apply sha Z now today c d = (Inr r, d')" and "ua_Applied r" and "usage_scaled d"
  shows "\<not> usage_claimed d (usage_key c) \<and> (usage_claimed d' k \<longleftrightarrow> usage_claimed d k \<or> k = usage_key c)" (is ?claims)
    and "usage_scaled d' \<and>
      (\<forall>i. balance_of d' i = balance_of d i - (if i = uc_UserID c then charge (uc_BalanceCost c) else 0)) \<and>
      key_change (uc_APIKeyID c) (charge (uc_APIKeyQuotaCost c)) d d' \<and>
      (\<forall>f \<in> {su_daily_usage, su_weekly_usage, su_monthly_usage}. \<forall>i. subscription_used f d' i = subscription_used f d i +
         (if uc_SubscriptionID c = Some i then charge (uc_SubscriptionCost c) else 0)) \<and>
      ua_NewBalance r = (if 0 < charge (uc_BalanceCost c) then Some (balance_of d' (uc_UserID c)) else None) \<and>
      ua_BalanceOverdrafted r = (0 < charge (uc_BalanceCost c) \<and> balance_of d (uc_UserID c) < charge (uc_BalanceCost c)) \<and>
      ua_APIKeyQuotaExhausted r =
        (case fmlookup (ud_keys d) (uc_APIKeyID c) of None \<Rightarrow> False
         | Some k \<Rightarrow> \<not> kr_deleted k \<and> 0 < kr_quota k \<and> kr_quota_used k < kr_quota k \<and>
             kr_quota k \<le> kr_quota_used k + charge (uc_APIKeyQuotaCost c))" (is ?effects)
proof -
  have "?claims \<and> ?effects"
  proof (cases rule: apply_cases [of sha Z now today c d])
    case (booked r1 d1 b)
    then have r1: "r1 = r" "d1 = d'" using assms(1) by simp_all
    let ?d = "d\<lparr>ud_billing := b\<rparr>"
    have same: "usage_scaled ?d" "balance_of ?d = balance_of d" "key_change i a ?d = key_change i a d"
      "subscription_used f ?d = subscription_used f d" "ud_keys ?d = ud_keys d" for i a f
      using assms(3) booked(3) by (simp_all add: usage_scaled_def balance_of_def key_change_def subscription_used_def fun_eq_iff)
    note e = effects_booked [OF booked(4) same(1) refl, unfolded r1 same]
    have "claims_of d' = (bd_dedup b, bd_archive b)" using e by (simp add: claims_of_def)
    then have "usage_claimed d' k \<longleftrightarrow> usage_claimed d k \<or> k = usage_key c"
      by (auto simp: usage_claimed_def claimed_def claims_of_def booked(3))
    with e booked(2) show ?thesis by blast
  qed (use assms in \<open>simp_all add: no_usage_result_def\<close>)
  then show ?claims ?effects by blast+
qed

lemma effects_claims:
  assumes "applyUsageBillingEffects Z now today c r d = Inr (r', d')"
  shows "claims_of d' = claims_of d \<and> ua_Applied r' = ua_Applied r"
proof -
  have "claims_of d2 = claims_of d1 \<and> ua_Applied r2 = ua_Applied r1" if "book_balance c (r1, d1) = Inr (r2, d2)" for r1 r2 d1 d2
    using that by (auto simp: book_balance_def deductUsageBillingBalance_def and_also_Inr claims_of_def Let_def split: if_splits option.splits)
  moreover have "claims_of d2 = claims_of d1 \<and> ua_Applied r2 = ua_Applied r1" if "book_key_quota c (r1, d1) = Inr (r2, d2)" for r1 r2 d1 d2
    using that by (auto simp: book_key_quota_def incrementUsageBillingAPIKeyQuota_def claims_of_def Let_def split: if_splits option.splits)
  moreover have "claims_of d2 = claims_of d1 \<and> ua_Applied r2 = ua_Applied r1" if "book_rate_limit now today c (r1, d1) = Inr (r2, d2)" for r1 r2 d1 d2
    using rate_limit_step [OF that] by (simp add: claims_of_def)
  moreover have "claims_of d2 = claims_of d1 \<and> ua_Applied r2 = ua_Applied r1" if "book_account_quota Z now c (r1, d1) = Inr (r2, d2)" for r1 r2 d1 d2
    using account_quota_step [OF that] by (simp add: claims_of_def)
  moreover have "claims_of d1 = claims_of d" if "book_subscription c d = Inr d1" for d1
    using subscription_step [OF that] by (simp add: claims_of_def)
  ultimately show ?thesis
    using assms unfolding applyUsageBillingEffects_def and_also_Inr by (metis prod.exhaust)
qed

lemma apply_claims:
  shows "Apply sha Z now today c d = (Inl e, d') \<Longrightarrow> d' = d"
    and "Apply sha Z now today c d = (Inr r, d') \<Longrightarrow> \<not> ua_Applied r \<Longrightarrow>
      d' = d \<and> usage_claimed d (usage_key c) \<and> r = no_usage_result"
    and "Apply sha Z now today c d = (Inr r, d') \<Longrightarrow> ua_Applied r \<Longrightarrow> \<not> usage_claimed d (usage_key c)"
    and "Apply sha Z now today c d = (Inr r, d') \<Longrightarrow> ua_Applied r \<Longrightarrow> usage_claimed d' k \<longleftrightarrow> usage_claimed d k \<or> k = usage_key c"
  by (cases rule: apply_cases [of sha Z now today c d];
      auto simp: no_usage_result_def usage_claimed_def claimed_def claims_of_def dest: effects_claims)+

interpretation usage_once: once_per_request "\<lambda>(now, today, c). Apply sha Z now today c" "\<lambda>(now, today, c). usage_key c" usage_claimed ua_Applied
  for sha Z
  by unfold_locales (auto split: prod.splits dest: apply_claims)

text \<open>Property C7. Usage is charged once: after a command was applied, a command with the same request
  identifier and key changes nothing and is not reported as applied, whatever commands came between and
  whatever it costs.\<close>
theorem usage_charged_once:
  assumes "Apply sha Z now today c d = (Inr r, d1)" and "ua_Applied r" and "usage_key c' = usage_key c"
    and "d2 = fold (\<lambda>(t, day, c) d. snd (Apply sha Z t day c d)) cs d1"
  shows "snd (Apply sha Z now' today' c' d2) = d2 \<and> (\<forall>r'. fst (Apply sha Z now' today' c' d2) = Inr r' \<longrightarrow> \<not> ua_Applied r')"
proof -
  have d2: "d2 = fold (\<lambda>c d. snd ((case c of (now, today, c) \<Rightarrow> Apply sha Z now today c) d)) cs d1"
    unfolding assms(4) by (simp add: case_prod_unfold)
  show ?thesis
    using usage_once.at_most_once [where c = "(now, today, c)" and c' = "(now', today', c')" and cs = cs, simplified, OF assms(1-3)]
    by (simp add: d2 case_prod_unfold)
qed

text \<open>Property C4. What is booked is the cost rounded once: the balance of the user falls by it, into debt if
  need be, and the quota of the key, if the key is still there, and the three counters of the
  subscription rise by theirs, without any further rounding, and nobody else's do; equal costs are
  therefore booked as equal amounts.\<close>
theorem usage_booked:
  assumes "Apply sha Z now today c d = (Inr r, d')" and "ua_Applied r" and "usage_scaled d"
  shows "usage_scaled d' \<and>
    (\<forall>i. balance_of d' i = balance_of d i - (if i = uc_UserID c then charge (uc_BalanceCost c) else 0)) \<and>
    (\<forall>i. key_used d' i = key_used d i + (if i = uc_APIKeyID c \<and> live_key d i then charge (uc_APIKeyQuotaCost c) else 0)) \<and>
    (\<forall>f \<in> {su_daily_usage, su_weekly_usage, su_monthly_usage}. \<forall>i. subscription_used f d' i = subscription_used f d i +
       (if uc_SubscriptionID c = Some i then charge (uc_SubscriptionCost c) else 0)) \<and>
    ua_NewBalance r = (if 0 < charge (uc_BalanceCost c) then Some (balance_of d' (uc_UserID c)) else None) \<and>
    ua_BalanceOverdrafted r = (0 < charge (uc_BalanceCost c) \<and> balance_of d (uc_UserID c) < charge (uc_BalanceCost c)) \<and>
    (uc_APIKeyQuotaCost c = uc_BalanceCost c \<and> live_key d (uc_APIKeyID c) \<longrightarrow>
       key_used d' (uc_APIKeyID c) - key_used d (uc_APIKeyID c) = balance_of d (uc_UserID c) - balance_of d' (uc_UserID c))"
proof -
  note e = booked_effects(2) [OF assms]
  then have "key_change (uc_APIKeyID c) (charge (uc_APIKeyQuotaCost c)) d d'" by blast
  note key = key_changeD [OF this]
  have "key_used d' i = key_used d i + (if i = uc_APIKeyID c \<and> live_key d i then charge (uc_APIKeyQuotaCost c) else 0)" for i
    using key [of i] by (cases "fmlookup (ud_keys d) i") (auto simp: key_used_def live_key_def quota_step_def)
  with e show ?thesis by simp
qed

subsection \<open>The end of a quota is signalled once\<close>

fun usage_run ::
    "(string \<Rightarrow> string) \<Rightarrow> zones \<Rightarrow> (gotime \<times> gotime \<times> UsageBillingCommand) list \<Rightarrow> usage_db \<Rightarrow>
     (go_error + UsageBillingApplyResult) list \<times> usage_db" where
  "usage_run sha Z [] d = ([], d)"
| "usage_run sha Z ((now, today, c) # cs) d =
     (case Apply sha Z now today c d of (x, d1) \<Rightarrow> case usage_run sha Z cs d1 of (xs, d2) \<Rightarrow> (x # xs, d2))"

definition signal :: "int \<Rightarrow> UsageBillingCommand \<Rightarrow> go_error + UsageBillingApplyResult \<Rightarrow> nat" where
  "signal i c x = (case x of Inl e \<Rightarrow> 0 | Inr r \<Rightarrow> if uc_APIKeyID c = i \<and> ua_APIKeyQuotaExhausted r then 1 else 0)"

definition signals :: "int \<Rightarrow> (gotime \<times> gotime \<times> UsageBillingCommand) list \<Rightarrow> (go_error + UsageBillingApplyResult) list \<Rightarrow> nat" where
  "signals i cs xs = sum_list (map (\<lambda>((now, today, c), x). signal i c x) (zip cs xs))"

text \<open>A key with a quota whose status agrees with its usage.\<close>

definition metered :: "ApiKeyRow \<Rightarrow> bool" where
  "metered k = (\<not> kr_deleted k \<and> 0 < kr_quota k \<and>
     kr_status k = (if kr_quota_used k < kr_quota k then StatusAPIKeyActive else StatusAPIKeyQuotaExhausted))"

lemma status_ne: "StatusAPIKeyActive \<noteq> StatusAPIKeyQuotaExhausted"
  by (simp add: StatusAPIKeyActive_def StatusAPIKeyQuotaExhausted_def)

lemma metered_step:
  assumes "Apply sha Z now today c d = (x, d')" and "usage_scaled d" and "fmlookup (ud_keys d) i = Some k" and "metered k"
  obtains k' where "usage_scaled d'" "fmlookup (ud_keys d') i = Some k'" "metered k'" "kr_quota k' = kr_quota k" "kr_quota_used k \<le> kr_quota_used k'"
    "signal i c x = (if kr_quota_used k < kr_quota k \<and> kr_quota k \<le> kr_quota_used k' then 1 else 0)"
proof (cases x)
  case (Inl e)
  then have "d' = d" using assms(1) apply_claims(1) by blast
  with Inl assms show thesis by (intro that [of k]) (simp_all add: signal_def)
next
  case (Inr r)
  show thesis
  proof (cases "ua_Applied r")
    case False
    with Inr assms(1) have "d' = d" and "r = no_usage_result"
      using apply_claims(2) [of sha Z now today c d r d'] by blast+
    with Inr assms show thesis by (intro that [of k]) (simp_all add: signal_def no_usage_result_def)
  next
    case True
    note e = booked_effects(2) [OF assms(1) [unfolded Inr] True assms(2)]
    then have "key_change (uc_APIKeyID c) (charge (uc_APIKeyQuotaCost c)) d d'" by blast
    from key_changeD(2) [OF this assms(3)] assms(4) obtain k' where
      k': "fmlookup (ud_keys d') i = Some k'" "quota_step (if i = uc_APIKeyID c then charge (uc_APIKeyQuotaCost c) else 0) k k'"
      by (auto simp: metered_def)
    have "signal i c x = (if kr_quota_used k < kr_quota k \<and> kr_quota k \<le> kr_quota_used k' then 1 else 0)"
      using e k'(2) assms(3,4) by (auto simp: signal_def Inr quota_step_def metered_def)
    moreover have "metered k'" "kr_quota k' = kr_quota k" "kr_quota_used k \<le> kr_quota_used k'"
      using k'(2) assms(4) charge_nonneg [of "uc_APIKeyQuotaCost c"] by (auto simp: quota_step_def metered_def)
    ultimately show thesis using that e k'(1) by blast
  qed
qed

text \<open>Property C17. The end of a key's quota is noticed and signalled exactly once: over any sequence of bookings for
  any keys, a key that starts active below its quota ends marked as exhausted if and only if its usage
  has reached the quota, and in that case one result for the key says so, otherwise none.\<close>
theorem quota_signalled_once:
  assumes "usage_run sha Z cs d = (xs, d')" and "usage_scaled d"
    and "fmlookup (ud_keys d) i = Some k" and "\<not> kr_deleted k" and "0 < kr_quota k" and "kr_quota_used k < kr_quota k"
    and "kr_status k = StatusAPIKeyActive"
  shows "\<exists>k'. fmlookup (ud_keys d') i = Some k' \<and> kr_quota k' = kr_quota k \<and>
    (kr_status k' = StatusAPIKeyQuotaExhausted \<longleftrightarrow> kr_quota k \<le> kr_quota_used k') \<and>
    signals i cs xs = (if kr_quota k \<le> kr_quota_used k' then 1 else 0)"
proof -
  have "\<exists>k'. fmlookup (ud_keys d') i = Some k' \<and> metered k' \<and> kr_quota k' = kr_quota k \<and> kr_quota_used k \<le> kr_quota_used k' \<and>
      signals i cs xs = (if kr_quota_used k < kr_quota k \<and> kr_quota k \<le> kr_quota_used k' then 1 else 0)"
    if "metered k" using assms(1-3) that
  proof (induction cs arbitrary: d k xs)
    case Nil
    then show ?case by (auto simp: signals_def metered_def)
  next
    case (Cons m cs)
    obtain now today c where m: "m = (now, today, c)" by (cases m)
    from Cons.prems(1) obtain x d1 ys where x: "Apply sha Z now today c d = (x, d1)" and ys: "usage_run sha Z cs d1 = (ys, d')"
      and xs: "xs = x # ys" by (auto simp: m split: prod.splits)
    obtain k1 where k1: "usage_scaled d1" "fmlookup (ud_keys d1) i = Some k1" "metered k1" "kr_quota k1 = kr_quota k"
      "kr_quota_used k \<le> kr_quota_used k1" "signal i c x = (if kr_quota_used k < kr_quota k \<and> kr_quota k \<le> kr_quota_used k1 then 1 else 0)"
      using metered_step [OF x Cons.prems(2,3,4)] by blast
    obtain k2 where k2: "fmlookup (ud_keys d') i = Some k2" "metered k2" "kr_quota k2 = kr_quota k" "kr_quota_used k1 \<le> kr_quota_used k2"
      "signals i cs ys = (if kr_quota_used k1 < kr_quota k \<and> kr_quota k \<le> kr_quota_used k2 then 1 else 0)"
      using Cons.IH [OF ys k1(1-3)] k1(4) by auto
    have "signals i (m # cs) xs = signal i c x + signals i cs ys" by (simp add: signals_def xs m)
    with k1(5,6) k2(4,5) have "signals i (m # cs) xs = (if kr_quota_used k < kr_quota k \<and> kr_quota k \<le> kr_quota_used k2 then 1 else 0)"
      by simp
    with k1(5) k2 show ?case by (intro exI [of _ k2]) simp
  qed
  moreover have "metered k" using assms(4-7) by (simp add: metered_def)
  ultimately obtain k' where k': "fmlookup (ud_keys d') i = Some k'" "metered k'" "kr_quota k' = kr_quota k"
    "signals i cs xs = (if kr_quota_used k < kr_quota k \<and> kr_quota k \<le> kr_quota_used k' then 1 else 0)"
    by blast
  from k'(2,3) have "kr_status k' = (if kr_quota_used k' < kr_quota k then StatusAPIKeyActive else StatusAPIKeyQuotaExhausted)"
    by (simp add: metered_def)
  then have "kr_status k' = StatusAPIKeyQuotaExhausted \<longleftrightarrow> kr_quota k \<le> kr_quota_used k'"
    by (cases "kr_quota_used k' < kr_quota k") (simp_all add: status_ne)
  with k' assms(6) show ?thesis by simp
qed

subsection \<open>Samples\<close>

definition sample_usage :: "string \<Rightarrow> UsageBillingCommand" where
  "sample_usage rid = \<lparr>uc_RequestID = rid, uc_APIKeyID = 3, uc_RequestFingerprint = ''f'', uc_RequestPayloadHash = [], uc_UserID = 7,
     uc_AccountID = 5, uc_SubscriptionID = None, uc_AccountType = ''oauth'', uc_Model = ''m'', uc_ServiceTier = [], uc_ReasoningEffort = [],
     uc_BillingType = 0, uc_InputTokens = 1, uc_OutputTokens = 1, uc_CacheCreationTokens = 0, uc_CacheReadTokens = 0, uc_ImageCount = 0,
     uc_MediaType = [], uc_BalanceCost = 150, uc_SubscriptionCost = 0, uc_APIKeyQuotaCost = 150, uc_APIKeyRateLimitCost = 0,
     uc_AccountQuotaCost = 0, uc_AccountQuotaHasDailyLimit = False, uc_AccountQuotaHasWeeklyLimit = False\<rparr>"

definition metered_key :: ApiKeyRow where
  "metered_key = \<lparr>kr_deleted = False, kr_status = StatusAPIKeyActive, kr_quota = 300, kr_quota_used = 0, kr_usage_5h = 0, kr_usage_1d = 0,
     kr_usage_7d = 0, kr_window_5h_start = None, kr_window_1d_start = None, kr_window_7d_start = None\<rparr>"

definition sample_usage_db :: usage_db where
  "sample_usage_db = \<lparr>ud_billing = \<lparr>bd_users = fmupd 7 \<lparr>ub_balance = 1000, ub_frozen = 0, ub_deleted = False\<rparr> fmempty,
       bd_dedup = fmempty, bd_archive = fmempty\<rparr>,
     ud_keys = fmupd 3 metered_key fmempty, ud_subscriptions = fmempty, ud_groups = {}, ud_quotas = (fmempty, [])\<rparr>"

lemma sample_scaled: "usage_scaled sample_usage_db"
  by (simp add: usage_scaled_def sample_usage_db_def metered_key_def)

lemma sample_trims: "trim_space ''r'' = ''r''" "trim_space ''s'' = ''s''" "trim_space ''f'' = ''f''"
  by code_simp+

lemma sample_costs: "QuantizeUsageBillingAmount 150 = 200" "QuantizeUsageBillingAmount 0 = 0"
  by code_simp+

lemmas apply_simps = Apply_def Let_def Normalize_usage_def quantizeMonetaryFields_def sample_usage_def claimUsageBillingRequest_def
  applyUsageBillingEffects_def and_also_def book_subscription_def book_balance_def book_key_quota_def book_rate_limit_def
  book_account_quota_def sample_trims sample_costs deductUsageBillingBalance_def incrementUsageBillingAPIKeyQuota_def no_usage_result_def
  to_scale8_def

lemma sample_applied: "\<exists>r d'. Apply id utc 0 0 (sample_usage ''r'') sample_usage_db = (Inr r, d') \<and> ua_Applied r"
  by (simp add: apply_simps sample_usage_db_def metered_key_def)

lemma sample_run:
  "\<exists>x y d'. usage_run id utc [(0, 0, sample_usage ''r''), (1, 0, sample_usage ''s'')] sample_usage_db = ([Inr x, Inr y], d') \<and>
     key_used d' 3 = 400"
  by (simp add: apply_simps sample_usage_db_def metered_key_def key_used_def)

theorem usage_booked_witness:
  "\<exists>r d'. Apply id utc 0 0 (sample_usage ''r'') sample_usage_db = (Inr r, d') \<and> balance_of d' 7 = 800 \<and> key_used d' 3 = 200"
proof -
  obtain r d' where a: "Apply id utc 0 0 (sample_usage ''r'') sample_usage_db = (Inr r, d')" "ua_Applied r"
    using sample_applied by blast
  have "balance_of sample_usage_db 7 = 1000" "key_used sample_usage_db 3 = 0" "live_key sample_usage_db 3"
    by (simp_all add: balance_of_def key_used_def live_key_def sample_usage_db_def metered_key_def)
  moreover have "uc_UserID (sample_usage ''r'') = 7" "uc_APIKeyID (sample_usage ''r'') = 3"
    "charge (uc_BalanceCost (sample_usage ''r'')) = 200" "charge (uc_APIKeyQuotaCost (sample_usage ''r'')) = 200"
    by (simp_all add: sample_usage_def charge_def sample_costs)
  ultimately have "balance_of d' 7 = 800 \<and> key_used d' 3 = 200"
    using usage_booked [OF a sample_scaled] by simp
  with a(1) show ?thesis by blast
qed

theorem usage_charged_once_witness:
  "\<exists>r d1. Apply id utc 0 0 (sample_usage ''r'') sample_usage_db = (Inr r, d1) \<and>
     snd (Apply id utc 9 0 (sample_usage ''r'') (snd (Apply id utc 5 0 (sample_usage ''s'') d1))) = snd (Apply id utc 5 0 (sample_usage ''s'') d1)"
proof -
  obtain r d1 where a: "Apply id utc 0 0 (sample_usage ''r'') sample_usage_db = (Inr r, d1)" "ua_Applied r"
    using sample_applied by blast
  from usage_charged_once [OF a refl refl, of 9 0 "[(5, 0, sample_usage ''s'')]"] a(1) show ?thesis by auto
qed

theorem quota_signalled_once_witness:
  "\<exists>xs d'. usage_run id utc [(0, 0, sample_usage ''r''), (1, 0, sample_usage ''s'')] sample_usage_db = (xs, d') \<and>
     signals 3 [(0, 0, sample_usage ''r''), (1, 0, sample_usage ''s'')] xs = 1"
proof -
  obtain x y d' where run: "usage_run id utc [(0, 0, sample_usage ''r''), (1, 0, sample_usage ''s'')] sample_usage_db = ([Inr x, Inr y], d')"
    and used: "key_used d' 3 = 400"
    using sample_run by blast
  have key: "fmlookup (ud_keys sample_usage_db) 3 = Some metered_key" by (simp add: sample_usage_db_def)
  from quota_signalled_once [OF run sample_scaled key] used
  have "signals 3 [(0, 0, sample_usage ''r''), (1, 0, sample_usage ''s'')] [Inr x, Inr y] = 1"
    by (auto simp: metered_key_def key_used_def)
  with run show ?thesis by blast
qed

end
