(* ===== verification/Concurrency_Store.thy ===== *)
theory Concurrency_Store
  imports App_Errors Redis_Sets
begin

section \<open>The scripts of the concurrency slots\<close>

text \<open>
  The Redis keyspace that \<open>repository/concurrency_cache.go\<close> works on, and its Lua scripts. Every script is
  one atomic step at a time of the Redis clock, which is given in milliseconds; \<open>TIME\<close> reports whole
  seconds. A key whose deadline has come is gone, and so is a sorted set without members. Scores are
  whole seconds, which the floating-point scores of Redis hold exactly.
\<close>

subsection \<open>The keyspace\<close>

record redis_keys =
  rk_zsets :: "(string, zset \<times> int option) fmap"
  rk_counts :: "(string, int \<times> int option) fmap"
  rk_strings :: "(string, string) fmap"

definition no_keys :: redis_keys where
  "no_keys = \<lparr>rk_zsets = fmempty, rk_counts = fmempty, rk_strings = fmempty\<rparr>"

definition redis_secs :: "int \<Rightarrow> int" where
  "redis_secs t = t div 1000"

definition before_deadline :: "int \<Rightarrow> int option \<Rightarrow> bool" where
  "before_deadline t d = (case d of None \<Rightarrow> True | Some e \<Rightarrow> t < e)"

definition zget :: "int \<Rightarrow> string \<Rightarrow> redis_keys \<Rightarrow> zset" where
  "zget t k r = (case fmlookup (rk_zsets r) k of None \<Rightarrow> [] | Some (z, d) \<Rightarrow> if before_deadline t d then z else [])"

definition zdeadline :: "int \<Rightarrow> string \<Rightarrow> redis_keys \<Rightarrow> int option" where
  "zdeadline t k r =
     (case fmlookup (rk_zsets r) k of None \<Rightarrow> None | Some (z, d) \<Rightarrow> if before_deadline t d then d else None)"

definition zput :: "string \<Rightarrow> zset \<Rightarrow> int option \<Rightarrow> redis_keys \<Rightarrow> redis_keys" where
  "zput k z d r = r\<lparr>rk_zsets := (if z = [] then fmdrop k (rk_zsets r) else fmupd k (z, d) (rk_zsets r))\<rparr>"

definition ZADD :: "int \<Rightarrow> string \<Rightarrow> int \<Rightarrow> string \<Rightarrow> redis_keys \<Rightarrow> redis_keys" where
  "ZADD t k score m r = zput k (zadd m score (zget t k r)) (zdeadline t k r) r"

definition ZREM :: "int \<Rightarrow> string \<Rightarrow> string \<Rightarrow> redis_keys \<Rightarrow> redis_keys" where
  "ZREM t k m r = zput k (zrem m (zget t k r)) (zdeadline t k r) r"

definition ZREMRANGEBYSCORE :: "int \<Rightarrow> string \<Rightarrow> int \<Rightarrow> redis_keys \<Rightarrow> redis_keys" where
  "ZREMRANGEBYSCORE t k bound r = zput k (filter (\<lambda>x. bound < snd x) (zget t k r)) (zdeadline t k r) r"

definition EXPIRE :: "int \<Rightarrow> string \<Rightarrow> int \<Rightarrow> redis_keys \<Rightarrow> redis_keys" where
  "EXPIRE t k ttl r = zput k (zget t k r) (Some (t + ttl * 1000)) r"

definition ZCARD :: "int \<Rightarrow> string \<Rightarrow> redis_keys \<Rightarrow> int" where
  "ZCARD t k r = int (length (zget t k r))"

definition ZSCORE :: "int \<Rightarrow> string \<Rightarrow> string \<Rightarrow> redis_keys \<Rightarrow> int option" where
  "ZSCORE t k m r = map_of (zget t k r) m"

definition count_get :: "int \<Rightarrow> string \<Rightarrow> redis_keys \<Rightarrow> int option" where
  "count_get t k r =
     (case fmlookup (rk_counts r) k of None \<Rightarrow> None | Some (n, d) \<Rightarrow> if before_deadline t d then Some n else None)"

definition count_put :: "string \<Rightarrow> int \<Rightarrow> int option \<Rightarrow> redis_keys \<Rightarrow> redis_keys" where
  "count_put k n d r = r\<lparr>rk_counts := fmupd k (n, d) (rk_counts r)\<rparr>"

definition key_del :: "string \<Rightarrow> redis_keys \<Rightarrow> redis_keys" where
  "key_del k r =
     r\<lparr>rk_zsets := fmdrop k (rk_zsets r), rk_counts := fmdrop k (rk_counts r), rk_strings := fmdrop k (rk_strings r)\<rparr>"

text \<open>What each command leaves under each key.\<close>

named_theorems redis_simps \<open>reading a key after a command\<close>

lemma zdeadline_alive [simp]: "before_deadline t (zdeadline t k r)"
  by (simp add: zdeadline_def before_deadline_def split: option.split)

lemma zget_zput: "zget t k' (zput k z d r) = (if k' = k then if before_deadline t d then z else [] else zget t k' r)"
  by (simp add: zget_def zput_def)

lemma zdeadline_zput:
  "zdeadline t k' (zput k z d r) = (if k' = k then if z \<noteq> [] \<and> before_deadline t d then d else None else zdeadline t k' r)"
  by (simp add: zdeadline_def zput_def)

lemma zget_ZADD [redis_simps]: "zget t k' (ZADD t k s m r) = (if k' = k then zadd m s (zget t k r) else zget t k' r)"
  by (simp add: ZADD_def zget_zput)

lemma zget_ZREM [redis_simps]: "zget t k' (ZREM t k m r) = (if k' = k then zrem m (zget t k r) else zget t k' r)"
  by (simp add: ZREM_def zget_zput)

lemma zget_ZREMRANGEBYSCORE [redis_simps]:
  "zget t k' (ZREMRANGEBYSCORE t k bound r) = (if k' = k then filter (\<lambda>x. bound < snd x) (zget t k r) else zget t k' r)"
  by (simp add: ZREMRANGEBYSCORE_def zget_zput)

lemma zget_EXPIRE [redis_simps]: "zget t k' (EXPIRE t k ttl r) = (if k' = k \<and> ttl \<le> 0 then [] else zget t k' r)"
  by (simp add: EXPIRE_def zget_zput before_deadline_def)

lemma zget_key_del [redis_simps]: "zget t k' (key_del k r) = (if k' = k then [] else zget t k' r)"
  by (simp add: key_del_def zget_def)

lemma zget_count_put [redis_simps]: "zget t k' (count_put k n d r) = zget t k' r"
  by (simp add: count_put_def zget_def)

lemma zget_strings [redis_simps]: "zget t k' (r\<lparr>rk_strings := x\<rparr>) = zget t k' r"
  by (simp add: zget_def)

lemma zget_none [redis_simps]: "zget t k no_keys = []"
  by (simp add: zget_def no_keys_def)

lemma count_get_zput [redis_simps]: "count_get t k' (zput k z d r) = count_get t k' r"
  by (simp add: count_get_def zput_def)

lemma count_get_zset_commands [redis_simps]:
  "count_get t k' (ZADD t1 k s m r) = count_get t k' r"
  "count_get t k' (ZREM t1 k m r) = count_get t k' r"
  "count_get t k' (ZREMRANGEBYSCORE t1 k bound r) = count_get t k' r"
  "count_get t k' (EXPIRE t1 k ttl r) = count_get t k' r"
  by (simp_all add: ZADD_def ZREM_def ZREMRANGEBYSCORE_def EXPIRE_def redis_simps)

lemma count_get_count_put [redis_simps]:
  "count_get t k' (count_put k n d r) = (if k' = k then if before_deadline t d then Some n else None else count_get t k' r)"
  by (simp add: count_put_def count_get_def)

lemma count_get_key_del [redis_simps]: "count_get t k' (key_del k r) = (if k' = k then None else count_get t k' r)"
  by (simp add: key_del_def count_get_def)

lemma count_get_strings [redis_simps]: "count_get t k' (r\<lparr>rk_strings := x\<rparr>) = count_get t k' r"
  by (simp add: count_get_def)

lemma count_get_none [redis_simps]: "count_get t k no_keys = None"
  by (simp add: count_get_def no_keys_def)

lemma zget_fold_ZREM [redis_simps]:
  "zget t k' (fold (ZREM t k) ms r) = (if k' = k then fold zrem ms (zget t k r) else zget t k' r)"
  by (induction ms arbitrary: r) (simp_all add: redis_simps)

lemma count_get_fold_ZREM [redis_simps]: "count_get t k' (fold (ZREM t1 k) ms r) = count_get t k' r"
  by (induction ms arbitrary: r) (simp_all add: redis_simps)

text \<open>With time keys only disappear.\<close>

lemma zget_later: "t \<le> t' \<Longrightarrow> zget t' k r = zget t k r \<or> zget t' k r = []"
  by (auto simp: zget_def before_deadline_def split: option.splits prod.splits)

lemma count_get_later: "t \<le> t' \<Longrightarrow> count_get t' k r = count_get t k r \<or> count_get t' k r = None"
  by (auto simp: count_get_def before_deadline_def split: option.splits prod.splits)

subsection \<open>Slots\<close>

definition hold_member :: "int \<Rightarrow> string \<Rightarrow> int \<Rightarrow> string \<Rightarrow> redis_keys \<Rightarrow> redis_keys" where
  "hold_member t k ttl m r = EXPIRE t k ttl (ZADD t k (redis_secs t) m r)"

lemma zget_hold_member [redis_simps]:
  "zget t k' (hold_member t k ttl m r) =
     (if k' = k then if ttl \<le> 0 then [] else zadd m (redis_secs t) (zget t k r) else zget t k' r)"
  by (simp add: hold_member_def redis_simps)

lemma count_get_hold_member [redis_simps]: "count_get t k' (hold_member t1 k ttl m r) = count_get t k' r"
  by (simp add: hold_member_def redis_simps)

definition acquireScript ::
    "int \<Rightarrow> string \<Rightarrow> string \<Rightarrow> int \<Rightarrow> int \<Rightarrow> string \<Rightarrow> redis_keys \<Rightarrow> (int \<times> int) \<times> redis_keys" where
  "acquireScript t key liveKey maxConcurrency ttl requestID r =
     (let now = redis_secs t;
          r1 = ZREMRANGEBYSCORE t liveKey (now - 60) (ZREMRANGEBYSCORE t key (now - ttl) r)
      in if ZSCORE t key requestID r1 \<noteq> None then ((1, now), hold_member t key ttl requestID r1)
         else if ZCARD t key r1 + ZCARD t liveKey r1 < maxConcurrency
         then ((1, now), hold_member t key ttl requestID r1)
         else ((0, now), r1))"

definition getCountScript :: "int \<Rightarrow> string \<Rightarrow> string \<Rightarrow> int \<Rightarrow> redis_keys \<Rightarrow> int \<times> redis_keys" where
  "getCountScript t key liveKey ttl r =
     (let now = redis_secs t;
          r1 = ZREMRANGEBYSCORE t liveKey (now - 60) (ZREMRANGEBYSCORE t key (now - ttl) r)
      in (ZCARD t key r1 + ZCARD t liveKey r1, r1))"

definition trackSlotScript :: "int \<Rightarrow> string \<Rightarrow> int \<Rightarrow> string \<Rightarrow> redis_keys \<Rightarrow> int \<times> redis_keys" where
  "trackSlotScript t key ttl requestID r =
     (1, hold_member t key ttl requestID (ZREMRANGEBYSCORE t key (redis_secs t - ttl) r))"

subsection \<open>Leases of live sessions\<close>

definition acquireLiveLeaseScript ::
    "int \<Rightarrow> string \<Rightarrow> string \<Rightarrow> string \<Rightarrow> string \<Rightarrow> string \<Rightarrow> int \<Rightarrow> int \<Rightarrow> int \<Rightarrow> string \<Rightarrow> int \<Rightarrow> redis_keys \<Rightarrow>
     int \<times> redis_keys" where
  "acquireLiveLeaseScript t accountRegular accountLive userRegular userLive apiLive accountMax userMax ttl leaseID replacing r =
     (let bound = redis_secs t - ttl;
          r1 = ZREMRANGEBYSCORE t apiLive bound (ZREMRANGEBYSCORE t userLive bound (ZREMRANGEBYSCORE t accountLive bound r));
          accountCount = ZCARD t accountRegular r1 + ZCARD t accountLive r1;
          userCount = ZCARD t userRegular r1 + ZCARD t userLive r1;
          allowance = (if replacing = 1 then 1 else 0)
      in if ZSCORE t accountLive leaseID r1 \<noteq> None then (1, r1)
         else if 0 < accountMax \<and> accountMax + allowance \<le> accountCount then (0, r1)
         else if 0 < userMax \<and> userMax + allowance \<le> userCount then (0, r1)
         else (1, hold_member t apiLive ttl leaseID (hold_member t userLive ttl leaseID (hold_member t accountLive ttl leaseID r1))))"

fun all_hold :: "int \<Rightarrow> int \<Rightarrow> string \<Rightarrow> string list \<Rightarrow> redis_keys \<Rightarrow> bool \<times> redis_keys" where
  "all_hold t ttl leaseID [] r = (True, r)"
| "all_hold t ttl leaseID (k # ks) r =
     (let r1 = ZREMRANGEBYSCORE t k (redis_secs t - ttl) r
      in if ZSCORE t k leaseID r1 = None then (False, r1) else all_hold t ttl leaseID ks r1)"

definition refreshLiveLeaseScript :: "int \<Rightarrow> string list \<Rightarrow> int \<Rightarrow> string \<Rightarrow> redis_keys \<Rightarrow> int \<times> redis_keys" where
  "refreshLiveLeaseScript t ks ttl leaseID r =
     (case all_hold t ttl leaseID ks r of
        (False, r1) \<Rightarrow> (0, r1)
      | (True, r1) \<Rightarrow> (1, fold (\<lambda>k. hold_member t k ttl leaseID) ks r1))"

definition acquireOpenAIWSIngressLeaseScript :: "int \<Rightarrow> string \<Rightarrow> int \<Rightarrow> int \<Rightarrow> string \<Rightarrow> redis_keys \<Rightarrow> int \<times> redis_keys" where
  "acquireOpenAIWSIngressLeaseScript t key maxConnections ttl leaseID r =
     (let r1 = ZREMRANGEBYSCORE t key (redis_secs t - ttl) r
      in if ZSCORE t key leaseID r1 \<noteq> None then (1, hold_member t key ttl leaseID r1)
         else if ZCARD t key r1 < maxConnections then (1, hold_member t key ttl leaseID r1)
         else (0, r1))"

definition refreshOpenAIWSIngressLeaseScript :: "int \<Rightarrow> string \<Rightarrow> int \<Rightarrow> string \<Rightarrow> redis_keys \<Rightarrow> int \<times> redis_keys" where
  "refreshOpenAIWSIngressLeaseScript t key ttl leaseID r =
     (let r1 = ZREMRANGEBYSCORE t key (redis_secs t - ttl) r
      in if ZSCORE t key leaseID r1 = None then (0, r1) else (1, hold_member t key ttl leaseID r1))"

subsection \<open>Wait counters\<close>

definition incrementWaitScript :: "int \<Rightarrow> string \<Rightarrow> int \<Rightarrow> int \<Rightarrow> redis_keys \<Rightarrow> (int \<times> int) \<times> redis_keys" where
  "incrementWaitScript t key maxWait ttl r =
     (let current = (case count_get t key r of None \<Rightarrow> 0 | Some n \<Rightarrow> n)
      in if maxWait \<le> current then ((0, redis_secs t), r)
         else ((1, redis_secs t), count_put key (current + 1) (Some (t + ttl * 1000)) r))"

definition incrementAccountWaitScript :: "int \<Rightarrow> string \<Rightarrow> int \<Rightarrow> int \<Rightarrow> redis_keys \<Rightarrow> (int \<times> int) \<times> redis_keys" where
  "incrementAccountWaitScript t key maxWait ttl r =
     (let current = (case count_get t key r of None \<Rightarrow> 0 | Some n \<Rightarrow> n)
      in if maxWait \<le> current then ((0, redis_secs t), r)
         else ((1, redis_secs t), count_put key (current + 1) (Some (t + ttl * 1000)) r))"

definition decrementWaitScript :: "int \<Rightarrow> string \<Rightarrow> redis_keys \<Rightarrow> int \<times> redis_keys" where
  "decrementWaitScript t key r =
     (case count_get t key r of
        None \<Rightarrow> (1, r)
      | Some n \<Rightarrow> (1, if 0 < n then count_put key (n - 1) (snd (the (fmlookup (rk_counts r) key))) r else r))"

subsection \<open>Cleaning\<close>

definition cleanupExpiredSlotsScript :: "int \<Rightarrow> string \<Rightarrow> int \<Rightarrow> redis_keys \<Rightarrow> int \<times> redis_keys" where
  "cleanupExpiredSlotsScript t key ttl r =
     (let r1 = ZREMRANGEBYSCORE t key (redis_secs t - ttl) r
      in (1, if ZCARD t key r1 = 0 then key_del key r1 else EXPIRE t key ttl r1))"

definition startupCleanupSlotScript :: "int \<Rightarrow> string \<Rightarrow> string \<Rightarrow> int \<Rightarrow> redis_keys \<Rightarrow> (int \<times> int) \<times> redis_keys" where
  "startupCleanupSlotScript t key activePrefix slotTTL r =
     (let foreign = filter (\<lambda>m. take (length activePrefix) m \<noteq> activePrefix) (zmembers (zget t key r));
          r1 = fold (ZREM t key) foreign r;
          remaining = ZCARD t key r1
      in ((int (length foreign), remaining),
          if remaining = 0 then key_del key r1 else EXPIRE t key slotTTL r1))"

end
