(* ===== verification/Concurrency_Cache.thy ===== *)
theory Concurrency_Cache
  imports Concurrency_Store "HOL-Library.Signed_Division"
begin

section \<open>The operations of the concurrency cache\<close>

text \<open>
  The operations of \<open>repository/concurrency_cache.go\<close> as programs over the Redis commands they send.
  Between two commands other processes act on the same keys, and each command may fail, before or after
  it took effect; so a program is a tree of commands and continuations. A pipeline sends its commands
  one after the other and fails with the error of its first failed command, where a missing key counts
  as a failure that the source passes over. A script or a transaction is one command, and so is the
  loop of \<open>SCAN\<close> and \<open>DEL\<close> over the keys with a prefix.
\<close>

subsection \<open>Keys\<close>

definition accountSlotKeyPrefix :: string where "accountSlotKeyPrefix = ''concurrency:account:''"
definition userSlotKeyPrefix :: string where "userSlotKeyPrefix = ''concurrency:user:''"
definition apiKeySlotKeyPrefix :: string where "apiKeySlotKeyPrefix = ''concurrency:api_key:''"
definition liveAccountSlotKeyPrefix :: string where "liveAccountSlotKeyPrefix = ''concurrency:live:account:''"
definition liveUserSlotKeyPrefix :: string where "liveUserSlotKeyPrefix = ''concurrency:live:user:''"
definition liveAPIKeySlotKeyPrefix :: string where "liveAPIKeySlotKeyPrefix = ''concurrency:live:api_key:''"
definition openAIWSIngressLeaseKeyPrefix :: string where
  "openAIWSIngressLeaseKeyPrefix = ''concurrency:openai_ws_ingress:api_key:''"
definition waitQueueKeyPrefix :: string where "waitQueueKeyPrefix = ''concurrency:wait:''"
definition accountWaitKeyPrefix :: string where "accountWaitKeyPrefix = ''wait:account:''"
definition accountActiveIndexKey :: string where "accountActiveIndexKey = ''concurrency:account:active_index''"
definition userActiveIndexKey :: string where "userActiveIndexKey = ''concurrency:user:active_index''"
definition legacyWaitSweepMarkerKey :: string where
  "legacyWaitSweepMarkerKey = ''concurrency:startup:legacy_wait_sweep:v1''"

definition openAIWSIngressLeaseTTLSeconds :: int where "openAIWSIngressLeaseTTLSeconds = 60"
definition liveLeaseTTLSeconds :: int where "liveLeaseTTLSeconds = 60"
definition defaultSlotTTLMinutes :: int where "defaultSlotTTLMinutes = 15"
definition activeIndexCleanupBatchSize :: nat where "activeIndexCleanupBatchSize = 1000"
definition activeIndexPipelineChunkSize :: nat where "activeIndexPipelineChunkSize = 500"

definition accountSlotKey :: "int \<Rightarrow> string" where "accountSlotKey i = accountSlotKeyPrefix @ Itoa i"
definition userSlotKey :: "int \<Rightarrow> string" where "userSlotKey i = userSlotKeyPrefix @ Itoa i"
definition apiKeySlotKey :: "int \<Rightarrow> string" where "apiKeySlotKey i = apiKeySlotKeyPrefix @ Itoa i"
definition liveAccountSlotKey :: "int \<Rightarrow> string" where "liveAccountSlotKey i = liveAccountSlotKeyPrefix @ Itoa i"
definition liveUserSlotKey :: "int \<Rightarrow> string" where "liveUserSlotKey i = liveUserSlotKeyPrefix @ Itoa i"
definition liveAPIKeySlotKey :: "int \<Rightarrow> string" where "liveAPIKeySlotKey i = liveAPIKeySlotKeyPrefix @ Itoa i"
definition openAIWSIngressLeaseKey :: "int \<Rightarrow> string" where
  "openAIWSIngressLeaseKey i = openAIWSIngressLeaseKeyPrefix @ Itoa i"
definition waitQueueKey :: "int \<Rightarrow> string" where "waitQueueKey i = waitQueueKeyPrefix @ Itoa i"
definition accountWaitKey :: "int \<Rightarrow> string" where "accountWaitKey i = accountWaitKeyPrefix @ Itoa i"

record slotIndexSpec =
  si_indexKey :: string
  si_slotKey :: "int \<Rightarrow> string"
  si_waitKey :: "int \<Rightarrow> string"

definition accountSlotIndex :: slotIndexSpec where
  "accountSlotIndex = \<lparr>si_indexKey = accountActiveIndexKey, si_slotKey = accountSlotKey, si_waitKey = accountWaitKey\<rparr>"

definition userSlotIndex :: slotIndexSpec where
  "userSlotIndex = \<lparr>si_indexKey = userActiveIndexKey, si_slotKey = userSlotKey, si_waitKey = waitQueueKey\<rparr>"

record concurrencyCache =
  cc_slotTTLSeconds :: int
  cc_waitQueueTTLSeconds :: int

definition NewConcurrencyCache :: "int \<Rightarrow> int \<Rightarrow> concurrencyCache" where
  "NewConcurrencyCache slotTTLMinutes waitQueueTTLSeconds =
     (let minutes = (if slotTTLMinutes \<le> 0 then defaultSlotTTLMinutes else slotTTLMinutes)
      in \<lparr>cc_slotTTLSeconds = minutes * 60,
          cc_waitQueueTTLSeconds = (if waitQueueTTLSeconds \<le> 0 then minutes * 60 else waitQueueTTLSeconds)\<rparr>)"

subsection \<open>Commands and programs\<close>

datatype redis_command =
    RunAcquire string string int int string
  | RunCount string string int
  | RunAcquireLive string string string string string int int int string int
  | RunRefreshLive "string list" int string
  | RunTrack string int string
  | RunAcquireIngress string int int string
  | RunRefreshIngress string int string
  | RunIncrementWait string int int
  | RunIncrementAccountWait string int int
  | RunDecrementWait string
  | RunCleanupExpired string int
  | RunStartupCleanup string string int
  | CmdTime
  | CmdZAdd string "(string \<times> int) list"
  | CmdZRem string "string list"
  | CmdZRemTx "(string \<times> string) list"
  | CmdZRemRangeByScore string int
  | CmdZCard string
  | CmdGet string
  | CmdDel "string list"
  | CmdZRange string
  | CmdZRangeByScore string int nat
  | CmdExists string
  | CmdSet string string
  | CmdSweep string

datatype redis_reply = RepInt int | RepPair int int | RepStrings "string list" | RepNil | RepError

fun redis_exec :: "int \<Rightarrow> redis_command \<Rightarrow> redis_keys \<Rightarrow> redis_reply \<times> redis_keys" where
  "redis_exec t (RunAcquire k lk m ttl i) r = (case acquireScript t k lk m ttl i r of ((a, b), r') \<Rightarrow> (RepPair a b, r'))"
| "redis_exec t (RunCount k lk ttl) r = (case getCountScript t k lk ttl r of (n, r') \<Rightarrow> (RepInt n, r'))"
| "redis_exec t (RunAcquireLive ar al ur ul kl am um ttl l rp) r =
     (case acquireLiveLeaseScript t ar al ur ul kl am um ttl l rp r of (n, r') \<Rightarrow> (RepInt n, r'))"
| "redis_exec t (RunRefreshLive ks ttl l) r = (case refreshLiveLeaseScript t ks ttl l r of (n, r') \<Rightarrow> (RepInt n, r'))"
| "redis_exec t (RunTrack k ttl i) r = (case trackSlotScript t k ttl i r of (n, r') \<Rightarrow> (RepInt n, r'))"
| "redis_exec t (RunAcquireIngress k m ttl l) r =
     (case acquireOpenAIWSIngressLeaseScript t k m ttl l r of (n, r') \<Rightarrow> (RepInt n, r'))"
| "redis_exec t (RunRefreshIngress k ttl l) r =
     (case refreshOpenAIWSIngressLeaseScript t k ttl l r of (n, r') \<Rightarrow> (RepInt n, r'))"
| "redis_exec t (RunIncrementWait k m ttl) r =
     (case incrementWaitScript t k m ttl r of ((a, b), r') \<Rightarrow> (RepPair a b, r'))"
| "redis_exec t (RunIncrementAccountWait k m ttl) r =
     (case incrementAccountWaitScript t k m ttl r of ((a, b), r') \<Rightarrow> (RepPair a b, r'))"
| "redis_exec t (RunDecrementWait k) r = (case decrementWaitScript t k r of (n, r') \<Rightarrow> (RepInt n, r'))"
| "redis_exec t (RunCleanupExpired k ttl) r = (case cleanupExpiredSlotsScript t k ttl r of (n, r') \<Rightarrow> (RepInt n, r'))"
| "redis_exec t (RunStartupCleanup k p ttl) r =
     (case startupCleanupSlotScript t k p ttl r of ((a, b), r') \<Rightarrow> (RepPair a b, r'))"
| "redis_exec t CmdTime r = (RepInt (redis_secs t), r)"
| "redis_exec t (CmdZAdd k zs) r = (RepInt 0, fold (\<lambda>(m, s). ZADD t k s m) zs r)"
| "redis_exec t (CmdZRem k ms) r = (RepInt 0, fold (ZREM t k) ms r)"
| "redis_exec t (CmdZRemTx kms) r = (RepInt 0, fold (\<lambda>(k, m). ZREM t k m) kms r)"
| "redis_exec t (CmdZRemRangeByScore k bound) r = (RepInt 0, ZREMRANGEBYSCORE t k bound r)"
| "redis_exec t (CmdZCard k) r = (RepInt (ZCARD t k r), r)"
| "redis_exec t (CmdGet k) r = (case count_get t k r of None \<Rightarrow> (RepNil, r) | Some n \<Rightarrow> (RepInt n, r))"
| "redis_exec t (CmdDel ks) r = (RepInt 0, fold key_del ks r)"
| "redis_exec t (CmdZRange k) r = (RepStrings (zmembers (zget t k r)), r)"
| "redis_exec t (CmdZRangeByScore k bound limit) r = (RepStrings (zrange_to bound limit (zget t k r)), r)"
| "redis_exec t (CmdExists k) r = (RepInt (if fmlookup (rk_strings r) k = None then 0 else 1), r)"
| "redis_exec t (CmdSet k v) r = (RepInt 0, r\<lparr>rk_strings := fmupd k v (rk_strings r)\<rparr>)"
| "redis_exec t (CmdSweep p) r =
     (RepInt 0, r\<lparr>rk_zsets := fmfilter (\<lambda>k. \<not> has_prefix k p) (rk_zsets r),
                  rk_counts := fmfilter (\<lambda>k. \<not> has_prefix k p) (rk_counts r),
                  rk_strings := fmfilter (\<lambda>k. \<not> has_prefix k p) (rk_strings r)\<rparr>)"

datatype 'a redis_prog = Ret 'a | Send redis_command "redis_reply \<Rightarrow> 'a redis_prog"

type_synonym 'a cache_prog = "(string + 'a) redis_prog"

text \<open>A failed command ends the operation with an error, given by the context it is wrapped in.\<close>

definition script_int :: "string \<Rightarrow> redis_command \<Rightarrow> (int \<Rightarrow> 'a cache_prog) \<Rightarrow> 'a cache_prog" where
  "script_int err c k = Send c (\<lambda>rep. case rep of RepInt n \<Rightarrow> k n | _ \<Rightarrow> Ret (Inl err))"

definition runScriptInt64Pair :: "string \<Rightarrow> redis_command \<Rightarrow> (int \<Rightarrow> int \<Rightarrow> 'a cache_prog) \<Rightarrow> 'a cache_prog" where
  "runScriptInt64Pair err c k = Send c (\<lambda>rep. case rep of RepPair a b \<Rightarrow> k a b | _ \<Rightarrow> Ret (Inl err))"

definition read_members :: "string \<Rightarrow> redis_command \<Rightarrow> (string list \<Rightarrow> 'a cache_prog) \<Rightarrow> 'a cache_prog" where
  "read_members err c k = Send c (\<lambda>rep. case rep of RepStrings ms \<Rightarrow> k ms | _ \<Rightarrow> Ret (Inl err))"

definition must :: "string \<Rightarrow> redis_command \<Rightarrow> 'a cache_prog \<Rightarrow> 'a cache_prog" where
  "must err c p = Send c (\<lambda>rep. case rep of RepError \<Rightarrow> Ret (Inl err) | _ \<Rightarrow> p)"

definition best_effort :: "redis_command \<Rightarrow> 'a redis_prog \<Rightarrow> 'a redis_prog" where
  "best_effort c p = Send c (\<lambda>rep. p)"

primrec pipeline :: "redis_command list \<Rightarrow> redis_reply list \<Rightarrow> (redis_reply list \<Rightarrow> 'a redis_prog) \<Rightarrow> 'a redis_prog" where
  "pipeline [] reps k = k (rev reps)"
| "pipeline (c # cs) reps k = Send c (\<lambda>rep. pipeline cs (rep # reps) k)"

text \<open>\<open>Exec\<close> reports the first failed command only, and \<open>redis.Nil\<close> is not taken for an error.\<close>

definition pipe_failed :: "redis_reply list \<Rightarrow> bool" where
  "pipe_failed reps = (find (\<lambda>rep. rep = RepError \<or> rep = RepNil) reps = Some RepError)"

definition reply_val :: "redis_reply \<Rightarrow> int" where
  "reply_val rep = (case rep of RepInt n \<Rightarrow> n | _ \<Rightarrow> 0)"

lemmas prog_steps = script_int_def runScriptInt64Pair_def read_members_def must_def best_effort_def

subsection \<open>The active indexes\<close>

definition touchActiveIndexAt :: "string \<Rightarrow> int \<Rightarrow> int \<Rightarrow> 'a redis_prog \<Rightarrow> 'a redis_prog" where
  "touchActiveIndexAt indexKey i expireAt p =
     (if i \<le> 0 \<or> expireAt \<le> 0 then p else best_effort (CmdZAdd indexKey [(Itoa i, expireAt)]) p)"

definition activeIndexTTL :: "concurrencyCache \<Rightarrow> int \<Rightarrow> int \<Rightarrow> int" where
  "activeIndexTTL c slotCount waitCount =
     (let ttl = (if 0 < slotCount then cc_slotTTLSeconds c else 0)
      in if 0 < waitCount \<and> ttl < cc_waitQueueTTLSeconds c then cc_waitQueueTTLSeconds c else ttl)"

definition readActiveLoadForKey ::
    "concurrencyCache \<Rightarrow> string \<Rightarrow> string \<Rightarrow> int \<Rightarrow> ((int \<times> int) option \<Rightarrow> 'a redis_prog) \<Rightarrow> 'a redis_prog" where
  "readActiveLoadForKey c slotKey waitKey now k =
     pipeline [CmdZRemRangeByScore slotKey (now - cc_slotTTLSeconds c), CmdZCard slotKey, CmdGet waitKey] []
       (\<lambda>reps. if pipe_failed reps then k None
               else k (Some (reply_val (reps ! 1), max 0 (reply_val (reps ! 2)))))"

definition refreshActiveIndex ::
    "concurrencyCache \<Rightarrow> string \<Rightarrow> int \<Rightarrow> string \<Rightarrow> string \<Rightarrow> 'a redis_prog \<Rightarrow> 'a redis_prog" where
  "refreshActiveIndex c indexKey i slotKey waitKey p =
     (if i \<le> 0 then p
      else Send CmdTime (\<lambda>rep. case rep of
        RepInt now \<Rightarrow>
          readActiveLoadForKey c slotKey waitKey now (\<lambda>load. case load of
            None \<Rightarrow> p
          | Some (slotCount, waitCount) \<Rightarrow>
              if slotCount = 0 \<and> waitCount \<le> 0 then best_effort (CmdZRem indexKey [Itoa i]) p
              else if activeIndexTTL c slotCount waitCount \<le> 0 then p
              else touchActiveIndexAt indexKey i (now + activeIndexTTL c slotCount waitCount) p)
      | _ \<Rightarrow> p))"

definition refreshAccountActiveIndex :: "concurrencyCache \<Rightarrow> int \<Rightarrow> 'a redis_prog \<Rightarrow> 'a redis_prog" where
  "refreshAccountActiveIndex c i p = refreshActiveIndex c accountActiveIndexKey i (accountSlotKey i) (accountWaitKey i) p"

definition refreshUserActiveIndex :: "concurrencyCache \<Rightarrow> int \<Rightarrow> 'a redis_prog \<Rightarrow> 'a redis_prog" where
  "refreshUserActiveIndex c i p = refreshActiveIndex c userActiveIndexKey i (userSlotKey i) (waitQueueKey i) p"

text \<open>
  The loads of many index members: members that are no positive identifier are stale; the others are read
  in chunks, three commands each.
\<close>

record activeIndexLoad =
  ax_id :: int
  ax_member :: string
  ax_slotCount :: int
  ax_waitCount :: int

function chunks :: "nat \<Rightarrow> 'a list \<Rightarrow> 'a list list" where
  "chunks n xs = (if n = 0 \<or> xs = [] then [] else take n xs # chunks n (drop n xs))"
  by pat_completeness auto
termination
  by (relation "measure (\<lambda>(n, xs). length xs)") auto

declare chunks.simps [simp del]

definition index_id :: "string \<Rightarrow> int option" where
  "index_id m = (case Atoi m of None \<Rightarrow> None | Some i \<Rightarrow> if i \<le> 0 then None else Some i)"

definition index_candidates :: "string list \<Rightarrow> (int \<times> string) list" where
  "index_candidates ms = map (\<lambda>m. (the (index_id m), m)) (filter (\<lambda>m. index_id m \<noteq> None) ms)"

definition load_commands :: "concurrencyCache \<Rightarrow> slotIndexSpec \<Rightarrow> int \<Rightarrow> int \<Rightarrow> redis_command list" where
  "load_commands c spec now i =
     [CmdZRemRangeByScore (si_slotKey spec i) (now - cc_slotTTLSeconds c), CmdZCard (si_slotKey spec i), CmdGet (si_waitKey spec i)]"

fun loads_of :: "(int \<times> string) list \<Rightarrow> redis_reply list \<Rightarrow> activeIndexLoad list" where
  "loads_of ((i, m) # cs) (r1 # r2 # r3 # reps) =
     \<lparr>ax_id = i, ax_member = m, ax_slotCount = reply_val r2, ax_waitCount = max 0 (reply_val r3)\<rparr> # loads_of cs reps"
| "loads_of cs reps = []"

primrec read_chunks ::
    "concurrencyCache \<Rightarrow> slotIndexSpec \<Rightarrow> int \<Rightarrow> (int \<times> string) list list \<Rightarrow> activeIndexLoad list \<Rightarrow>
     (activeIndexLoad list \<Rightarrow> 'a cache_prog) \<Rightarrow> 'a cache_prog" where
  "read_chunks c spec now [] loads k = k loads"
| "read_chunks c spec now (ch # chs) loads k =
     pipeline (concat (map (\<lambda>x. load_commands c spec now (fst x)) ch)) []
       (\<lambda>reps. if pipe_failed reps then Ret (Inl ''pipeline exec'')
               else read_chunks c spec now chs (loads @ loads_of ch reps) k)"

definition readIndexLoads ::
    "concurrencyCache \<Rightarrow> slotIndexSpec \<Rightarrow> string list \<Rightarrow> int \<Rightarrow> (activeIndexLoad list \<Rightarrow> string list \<Rightarrow> 'a cache_prog) \<Rightarrow>
     'a cache_prog" where
  "readIndexLoads c spec members now k =
     read_chunks c spec now (chunks activeIndexPipelineChunkSize (index_candidates members)) []
       (\<lambda>loads. k loads (filter (\<lambda>m. index_id m = None) members))"

definition removeActiveIndexMembers :: "string \<Rightarrow> string list \<Rightarrow> 'a redis_prog \<Rightarrow> 'a redis_prog" where
  "removeActiveIndexMembers indexKey members p = (if members = [] then p else best_effort (CmdZRem indexKey members) p)"

definition addActiveIndexMembers :: "string \<Rightarrow> (string \<times> int) list \<Rightarrow> 'a redis_prog \<Rightarrow> 'a redis_prog" where
  "addActiveIndexMembers indexKey refreshed p = (if refreshed = [] then p else best_effort (CmdZAdd indexKey refreshed) p)"

subsection \<open>Slots of accounts, users and keys\<close>

definition AcquireAccountSlot :: "concurrencyCache \<Rightarrow> int \<Rightarrow> int \<Rightarrow> string \<Rightarrow> bool cache_prog" where
  "AcquireAccountSlot c accountID maxConcurrency requestID =
     runScriptInt64Pair [] (RunAcquire (accountSlotKey accountID) (liveAccountSlotKey accountID) maxConcurrency
         (cc_slotTTLSeconds c) requestID) (\<lambda>result now.
       if result = 1
       then touchActiveIndexAt accountActiveIndexKey accountID (now + cc_slotTTLSeconds c) (Ret (Inr True))
       else Ret (Inr False))"

definition ReleaseAccountSlot :: "concurrencyCache \<Rightarrow> int \<Rightarrow> string \<Rightarrow> unit cache_prog" where
  "ReleaseAccountSlot c accountID requestID =
     must [] (CmdZRem (accountSlotKey accountID) [requestID]) (refreshAccountActiveIndex c accountID (Ret (Inr ())))"

definition GetAccountConcurrency :: "concurrencyCache \<Rightarrow> int \<Rightarrow> int cache_prog" where
  "GetAccountConcurrency c accountID =
     script_int [] (RunCount (accountSlotKey accountID) (liveAccountSlotKey accountID) (cc_slotTTLSeconds c)) (\<lambda>n. Ret (Inr n))"

definition AcquireUserSlot :: "concurrencyCache \<Rightarrow> int \<Rightarrow> int \<Rightarrow> string \<Rightarrow> bool cache_prog" where
  "AcquireUserSlot c userID maxConcurrency requestID =
     runScriptInt64Pair [] (RunAcquire (userSlotKey userID) (liveUserSlotKey userID) maxConcurrency
         (cc_slotTTLSeconds c) requestID) (\<lambda>result now.
       if result = 1
       then touchActiveIndexAt userActiveIndexKey userID (now + cc_slotTTLSeconds c) (Ret (Inr True))
       else Ret (Inr False))"

definition ReleaseUserSlot :: "concurrencyCache \<Rightarrow> int \<Rightarrow> string \<Rightarrow> unit cache_prog" where
  "ReleaseUserSlot c userID requestID =
     must [] (CmdZRem (userSlotKey userID) [requestID]) (refreshUserActiveIndex c userID (Ret (Inr ())))"

definition GetUserConcurrency :: "concurrencyCache \<Rightarrow> int \<Rightarrow> int cache_prog" where
  "GetUserConcurrency c userID =
     script_int [] (RunCount (userSlotKey userID) (liveUserSlotKey userID) (cc_slotTTLSeconds c)) (\<lambda>n. Ret (Inr n))"

definition TrackAPIKeySlot :: "concurrencyCache \<Rightarrow> int \<Rightarrow> string \<Rightarrow> unit cache_prog" where
  "TrackAPIKeySlot c apiKeyID requestID =
     must [] (RunTrack (apiKeySlotKey apiKeyID) (cc_slotTTLSeconds c) requestID) (Ret (Inr ()))"

definition ReleaseAPIKeySlot :: "int \<Rightarrow> string \<Rightarrow> unit cache_prog" where
  "ReleaseAPIKeySlot apiKeyID requestID = must [] (CmdZRem (apiKeySlotKey apiKeyID) [requestID]) (Ret (Inr ()))"

subsection \<open>Ingress leases and live leases\<close>

definition AcquireOpenAIWSIngressLease :: "int \<Rightarrow> int \<Rightarrow> string \<Rightarrow> bool cache_prog" where
  "AcquireOpenAIWSIngressLease apiKeyID maxConnections leaseID =
     (if apiKeyID \<le> 0 \<or> maxConnections \<le> 0 \<or> leaseID = [] then Ret (Inr False)
      else script_int [] (RunAcquireIngress (openAIWSIngressLeaseKey apiKeyID) maxConnections openAIWSIngressLeaseTTLSeconds leaseID)
             (\<lambda>n. Ret (Inr (n = 1))))"

definition RefreshOpenAIWSIngressLease :: "int \<Rightarrow> string \<Rightarrow> bool cache_prog" where
  "RefreshOpenAIWSIngressLease apiKeyID leaseID =
     (if apiKeyID \<le> 0 \<or> leaseID = [] then Ret (Inr False)
      else script_int [] (RunRefreshIngress (openAIWSIngressLeaseKey apiKeyID) openAIWSIngressLeaseTTLSeconds leaseID)
             (\<lambda>n. Ret (Inr (n = 1))))"

definition ReleaseOpenAIWSIngressLease :: "int \<Rightarrow> string \<Rightarrow> unit cache_prog" where
  "ReleaseOpenAIWSIngressLease apiKeyID leaseID =
     (if apiKeyID \<le> 0 \<or> leaseID = [] then Ret (Inr ())
      else must [] (CmdZRem (openAIWSIngressLeaseKey apiKeyID) [leaseID]) (Ret (Inr ())))"

definition AcquireLiveLease :: "int \<Rightarrow> int \<Rightarrow> int \<Rightarrow> int \<Rightarrow> int \<Rightarrow> string \<Rightarrow> bool \<Rightarrow> bool cache_prog" where
  "AcquireLiveLease accountID accountMax userID userMax apiKeyID leaseID replacingRegularSlots =
     (if accountID \<le> 0 \<or> userID \<le> 0 \<or> apiKeyID \<le> 0 \<or> leaseID = [] then Ret (Inr False)
      else script_int [] (RunAcquireLive (accountSlotKey accountID) (liveAccountSlotKey accountID) (userSlotKey userID)
             (liveUserSlotKey userID) (liveAPIKeySlotKey apiKeyID) accountMax userMax liveLeaseTTLSeconds leaseID
             (if replacingRegularSlots then 1 else 0)) (\<lambda>n. Ret (Inr (n = 1))))"

definition RefreshLiveLease :: "int \<Rightarrow> int \<Rightarrow> int \<Rightarrow> string \<Rightarrow> bool cache_prog" where
  "RefreshLiveLease accountID userID apiKeyID leaseID =
     (if leaseID = [] then Ret (Inr False)
      else script_int [] (RunRefreshLive [liveAccountSlotKey accountID, liveUserSlotKey userID, liveAPIKeySlotKey apiKeyID]
             liveLeaseTTLSeconds leaseID) (\<lambda>n. Ret (Inr (n = 1))))"

definition ReleaseLiveLease :: "int \<Rightarrow> int \<Rightarrow> int \<Rightarrow> string \<Rightarrow> unit cache_prog" where
  "ReleaseLiveLease accountID userID apiKeyID leaseID =
     (if leaseID = [] then Ret (Inr ())
      else must [] (CmdZRemTx [(liveAccountSlotKey accountID, leaseID), (liveUserSlotKey userID, leaseID),
                               (liveAPIKeySlotKey apiKeyID, leaseID)]) (Ret (Inr ())))"

subsection \<open>Wait counters\<close>

definition IncrementWaitCount :: "concurrencyCache \<Rightarrow> int \<Rightarrow> int \<Rightarrow> bool cache_prog" where
  "IncrementWaitCount c userID maxWait =
     runScriptInt64Pair [] (RunIncrementWait (waitQueueKey userID) maxWait (cc_waitQueueTTLSeconds c)) (\<lambda>result now.
       if result = 1
       then touchActiveIndexAt userActiveIndexKey userID (now + cc_waitQueueTTLSeconds c) (Ret (Inr True))
       else Ret (Inr False))"

definition DecrementWaitCount :: "concurrencyCache \<Rightarrow> int \<Rightarrow> unit cache_prog" where
  "DecrementWaitCount c userID =
     must [] (RunDecrementWait (waitQueueKey userID)) (refreshUserActiveIndex c userID (Ret (Inr ())))"

definition IncrementAccountWaitCount :: "concurrencyCache \<Rightarrow> int \<Rightarrow> int \<Rightarrow> bool cache_prog" where
  "IncrementAccountWaitCount c accountID maxWait =
     runScriptInt64Pair [] (RunIncrementAccountWait (accountWaitKey accountID) maxWait (cc_waitQueueTTLSeconds c)) (\<lambda>result now.
       if result = 1
       then touchActiveIndexAt accountActiveIndexKey accountID (now + cc_waitQueueTTLSeconds c) (Ret (Inr True))
       else Ret (Inr False))"

definition DecrementAccountWaitCount :: "concurrencyCache \<Rightarrow> int \<Rightarrow> unit cache_prog" where
  "DecrementAccountWaitCount c accountID =
     must [] (RunDecrementWait (accountWaitKey accountID)) (refreshAccountActiveIndex c accountID (Ret (Inr ())))"

definition GetAccountWaitingCount :: "int \<Rightarrow> int cache_prog" where
  "GetAccountWaitingCount accountID =
     Send (CmdGet (accountWaitKey accountID)) (\<lambda>rep. case rep of
       RepInt n \<Rightarrow> Ret (Inr n) | RepNil \<Rightarrow> Ret (Inr 0) | _ \<Rightarrow> Ret (Inl []))"

subsection \<open>Reading many at once\<close>

text \<open>The counts of a list of identifiers: \<open>n\<close> commands each, of which the given ones are read.\<close>

definition count_commands :: "concurrencyCache \<Rightarrow> (int \<Rightarrow> string) \<Rightarrow> (int \<Rightarrow> string) \<Rightarrow> int \<Rightarrow> int \<Rightarrow> redis_command list" where
  "count_commands c slotKey liveKey now i =
     [CmdZRemRangeByScore (slotKey i) (now - cc_slotTTLSeconds c),
      CmdZRemRangeByScore (liveKey i) (now - liveLeaseTTLSeconds), CmdZCard (slotKey i), CmdZCard (liveKey i)]"

fun counts_of :: "int list \<Rightarrow> redis_reply list \<Rightarrow> (int, int) fmap \<Rightarrow> (int, int) fmap" where
  "counts_of (i # is) (r1 # r2 # r3 # r4 # reps) result =
     counts_of is reps (fmupd i (reply_val r3 + reply_val r4) result)"
| "counts_of is reps result = result"

definition GetAccountConcurrencyBatch :: "concurrencyCache \<Rightarrow> int list \<Rightarrow> (int, int) fmap cache_prog" where
  "GetAccountConcurrencyBatch c accountIDs =
     (if accountIDs = [] then Ret (Inr fmempty)
      else script_int ''redis TIME'' CmdTime (\<lambda>now.
        pipeline (concat (map (count_commands c accountSlotKey liveAccountSlotKey now) accountIDs)) [] (\<lambda>reps.
          if pipe_failed reps then Ret (Inl ''pipeline exec'') else Ret (Inr (counts_of accountIDs reps fmempty)))))"

definition GetAPIKeyConcurrencyBatch :: "concurrencyCache \<Rightarrow> int list \<Rightarrow> (int, int) fmap cache_prog" where
  "GetAPIKeyConcurrencyBatch c apiKeyIDs =
     (if apiKeyIDs = [] then Ret (Inr fmempty)
      else script_int ''redis TIME'' CmdTime (\<lambda>now.
        pipeline (concat (map (count_commands c apiKeySlotKey liveAPIKeySlotKey now) apiKeyIDs)) [] (\<lambda>reps.
          if pipe_failed reps then Ret (Inl ''pipeline exec'') else Ret (Inr (counts_of apiKeyIDs reps fmempty)))))"

record AccountWithConcurrency =
  aw_ID :: int
  aw_MaxConcurrency :: int

record UserWithConcurrency =
  uw_ID :: int
  uw_MaxConcurrency :: int

record AccountLoadInfo =
  al_AccountID :: int
  al_CurrentConcurrency :: int
  al_WaitingCount :: int
  al_LoadRate :: int

record UserLoadInfo =
  ul_UserID :: int
  ul_CurrentConcurrency :: int
  ul_WaitingCount :: int
  ul_LoadRate :: int

definition load_rate :: "int \<Rightarrow> int \<Rightarrow> int \<Rightarrow> int" where
  "load_rate current waiting maxConcurrency =
     (if 0 < maxConcurrency then (current + waiting) * 100 sdiv maxConcurrency else 0)"

fun account_loads :: "AccountWithConcurrency list \<Rightarrow> redis_reply list \<Rightarrow> (int, AccountLoadInfo) fmap \<Rightarrow> (int, AccountLoadInfo) fmap" where
  "account_loads (a # as) (r1 # r2 # r3 # r4 # r5 # reps) result =
     (let current = reply_val r3 + reply_val r4; waiting = reply_val r5
      in account_loads as reps (fmupd (aw_ID a)
           \<lparr>al_AccountID = aw_ID a, al_CurrentConcurrency = current, al_WaitingCount = waiting,
            al_LoadRate = load_rate current waiting (aw_MaxConcurrency a)\<rparr> result))"
| "account_loads as reps result = result"

definition GetAccountsLoadBatch :: "concurrencyCache \<Rightarrow> AccountWithConcurrency list \<Rightarrow> (int, AccountLoadInfo) fmap cache_prog" where
  "GetAccountsLoadBatch c accounts =
     (if accounts = [] then Ret (Inr fmempty)
      else script_int ''redis TIME'' CmdTime (\<lambda>now.
        pipeline (concat (map (\<lambda>a. count_commands c accountSlotKey liveAccountSlotKey now (aw_ID a) @ [CmdGet (accountWaitKey (aw_ID a))])
                    accounts)) [] (\<lambda>reps.
          if pipe_failed reps then Ret (Inl ''pipeline exec'') else Ret (Inr (account_loads accounts reps fmempty)))))"

fun user_loads :: "UserWithConcurrency list \<Rightarrow> redis_reply list \<Rightarrow> (int, UserLoadInfo) fmap \<Rightarrow> (int, UserLoadInfo) fmap" where
  "user_loads (u # us) (r1 # r2 # r3 # r4 # r5 # reps) result =
     (let current = reply_val r3 + reply_val r4; waiting = reply_val r5
      in user_loads us reps (fmupd (uw_ID u)
           \<lparr>ul_UserID = uw_ID u, ul_CurrentConcurrency = current, ul_WaitingCount = waiting,
            ul_LoadRate = load_rate current waiting (uw_MaxConcurrency u)\<rparr> result))"
| "user_loads us reps result = result"

definition GetUsersLoadBatch :: "concurrencyCache \<Rightarrow> UserWithConcurrency list \<Rightarrow> (int, UserLoadInfo) fmap cache_prog" where
  "GetUsersLoadBatch c users =
     (if users = [] then Ret (Inr fmempty)
      else script_int ''redis TIME'' CmdTime (\<lambda>now.
        pipeline (concat (map (\<lambda>u. count_commands c userSlotKey liveUserSlotKey now (uw_ID u) @ [CmdGet (waitQueueKey (uw_ID u))])
                    users)) [] (\<lambda>reps.
          if pipe_failed reps then Ret (Inl ''pipeline exec'') else Ret (Inr (user_loads users reps fmempty)))))"

subsection \<open>Cleaning\<close>

definition CleanupExpiredAccountSlots :: "concurrencyCache \<Rightarrow> int \<Rightarrow> unit cache_prog" where
  "CleanupExpiredAccountSlots c accountID =
     must [] (RunCleanupExpired (accountSlotKey accountID) (cc_slotTTLSeconds c))
       (refreshAccountActiveIndex c accountID (Ret (Inr ())))"

definition idle :: "activeIndexLoad \<Rightarrow> bool" where
  "idle l = (ax_slotCount l = 0 \<and> ax_waitCount l \<le> 0)"

definition reconcileExpiredIndexCandidates :: "concurrencyCache \<Rightarrow> slotIndexSpec \<Rightarrow> unit cache_prog \<Rightarrow> unit cache_prog" where
  "reconcileExpiredIndexCandidates c spec p =
     script_int ''redis TIME'' CmdTime (\<lambda>now.
       read_members ''read expired index'' (CmdZRangeByScore (si_indexKey spec) now activeIndexCleanupBatchSize) (\<lambda>members.
         readIndexLoads c spec members now (\<lambda>loads staleMembers.
           addActiveIndexMembers (si_indexKey spec)
             (map (\<lambda>l. (ax_member l, now + activeIndexTTL c (ax_slotCount l) (ax_waitCount l))) (filter (\<lambda>l. \<not> idle l) loads))
             (removeActiveIndexMembers (si_indexKey spec) (staleMembers @ map ax_member (filter idle loads)) p))))"

definition CleanupExpiredAccountSlotKeys :: "concurrencyCache \<Rightarrow> unit cache_prog" where
  "CleanupExpiredAccountSlotKeys c =
     reconcileExpiredIndexCandidates c accountSlotIndex
       (reconcileExpiredIndexCandidates c userSlotIndex (Ret (Inr ())))"

definition sweepLegacyWaitKeysOnce :: "unit cache_prog \<Rightarrow> unit cache_prog" where
  "sweepLegacyWaitKeysOnce p =
     script_int ''check legacy wait sweep marker'' (CmdExists legacyWaitSweepMarkerKey) (\<lambda>n.
       if 0 < n then p
       else must ''sweep legacy wait keys'' (CmdSweep accountWaitKeyPrefix)
              (must ''sweep legacy wait keys'' (CmdSweep waitQueueKeyPrefix)
                (must ''set legacy wait sweep marker'' (CmdSet legacyWaitSweepMarkerKey ''1'') p)))"

definition allIndexMembers :: "string \<Rightarrow> (string list \<Rightarrow> unit cache_prog) \<Rightarrow> unit cache_prog" where
  "allIndexMembers indexKey k = read_members ''read active index'' (CmdZRange indexKey) k"

fun clean_members ::
    "concurrencyCache \<Rightarrow> slotIndexSpec \<Rightarrow> string \<Rightarrow> int \<Rightarrow> string list \<Rightarrow> string list \<Rightarrow> (string \<times> int) list \<Rightarrow>
     unit cache_prog \<Rightarrow> unit cache_prog" where
  "clean_members c spec activeRequestPrefix now [] stale refreshed p =
     addActiveIndexMembers (si_indexKey spec) refreshed (removeActiveIndexMembers (si_indexKey spec) stale p)"
| "clean_members c spec activeRequestPrefix now (m # ms) stale refreshed p =
     (case index_id m of
        None \<Rightarrow> clean_members c spec activeRequestPrefix now ms (stale @ [m]) refreshed p
      | Some i \<Rightarrow>
          runScriptInt64Pair ''cleanup stale process slots''
            (RunStartupCleanup (si_slotKey spec i) activeRequestPrefix (cc_slotTTLSeconds c)) (\<lambda>removed remaining.
              must ''delete stale wait key'' (CmdDel [si_waitKey spec i])
                (if 0 < remaining
                 then clean_members c spec activeRequestPrefix now ms stale (refreshed @ [(m, now + cc_slotTTLSeconds c)]) p
                 else clean_members c spec activeRequestPrefix now ms (stale @ [m]) refreshed p)))"

definition cleanupStaleProcessSlotsForIndex ::
    "concurrencyCache \<Rightarrow> slotIndexSpec \<Rightarrow> string list \<Rightarrow> string \<Rightarrow> int \<Rightarrow> unit cache_prog \<Rightarrow> unit cache_prog" where
  "cleanupStaleProcessSlotsForIndex c spec members activeRequestPrefix now p =
     clean_members c spec activeRequestPrefix now members [] [] p"

definition CleanupStaleProcessSlots :: "concurrencyCache \<Rightarrow> string \<Rightarrow> unit cache_prog" where
  "CleanupStaleProcessSlots c activeRequestPrefix =
     (if activeRequestPrefix = [] then Ret (Inr ())
      else sweepLegacyWaitKeysOnce (script_int ''redis TIME'' CmdTime (\<lambda>now.
        allIndexMembers accountActiveIndexKey (\<lambda>accountMembers.
          cleanupStaleProcessSlotsForIndex c accountSlotIndex accountMembers activeRequestPrefix now
            (allIndexMembers userActiveIndexKey (\<lambda>userMembers.
               cleanupStaleProcessSlotsForIndex c userSlotIndex userMembers activeRequestPrefix now (Ret (Inr ()))))))))"

end
