(* ===== verification/Concurrency_System.thy ===== *)
theory Concurrency_System
  imports Concurrency_Cache
begin

section \<open>Processes that share the concurrency cache\<close>

text \<open>
  Any number of operations of the concurrency cache run at the same time, in any number of processes. An
  event lets time pass, starts an operation, or serves the next command of one operation; a command may
  fail before or after it took effect, and an operation that is never served again is one whose process
  died. The locale at the end carries an invariant of the keyspace from single commands to every
  reachable state.
\<close>

datatype cache_op =
    OpAcquireAccount int int string
  | OpReleaseAccount int string
  | OpCountAccount int
  | OpCountAccounts "int list"
  | OpAcquireUser int int string
  | OpReleaseUser int string
  | OpCountUser int
  | OpTrackKey int string
  | OpReleaseKey int string
  | OpCountKeys "int list"
  | OpAcquireIngress int int string
  | OpRefreshIngress int string
  | OpReleaseIngress int string
  | OpAcquireLive int int int int int string bool
  | OpRefreshLive int int int string
  | OpReleaseLive int int int string
  | OpIncrementWait int int
  | OpDecrementWait int
  | OpIncrementAccountWait int int
  | OpDecrementAccountWait int
  | OpAccountWaiting int
  | OpLoadAccounts "AccountWithConcurrency list"
  | OpLoadUsers "UserWithConcurrency list"
  | OpCleanAccount int
  | OpCleanKeys
  | OpCleanProcess string

definition quiet :: "'a redis_prog \<Rightarrow> unit redis_prog" where
  "quiet p = map_redis_prog (\<lambda>x. ()) p"

fun op_prog :: "concurrencyCache \<Rightarrow> cache_op \<Rightarrow> unit redis_prog" where
  "op_prog c (OpAcquireAccount i m l) = quiet (AcquireAccountSlot c i m l)"
| "op_prog c (OpReleaseAccount i l) = quiet (ReleaseAccountSlot c i l)"
| "op_prog c (OpCountAccount i) = quiet (GetAccountConcurrency c i)"
| "op_prog c (OpCountAccounts is) = quiet (GetAccountConcurrencyBatch c is)"
| "op_prog c (OpAcquireUser i m l) = quiet (AcquireUserSlot c i m l)"
| "op_prog c (OpReleaseUser i l) = quiet (ReleaseUserSlot c i l)"
| "op_prog c (OpCountUser i) = quiet (GetUserConcurrency c i)"
| "op_prog c (OpTrackKey i l) = quiet (TrackAPIKeySlot c i l)"
| "op_prog c (OpReleaseKey i l) = quiet (ReleaseAPIKeySlot i l)"
| "op_prog c (OpCountKeys is) = quiet (GetAPIKeyConcurrencyBatch c is)"
| "op_prog c (OpAcquireIngress i m l) = quiet (AcquireOpenAIWSIngressLease i m l)"
| "op_prog c (OpRefreshIngress i l) = quiet (RefreshOpenAIWSIngressLease i l)"
| "op_prog c (OpReleaseIngress i l) = quiet (ReleaseOpenAIWSIngressLease i l)"
| "op_prog c (OpAcquireLive a am u um k l rp) = quiet (AcquireLiveLease a am u um k l rp)"
| "op_prog c (OpRefreshLive a u k l) = quiet (RefreshLiveLease a u k l)"
| "op_prog c (OpReleaseLive a u k l) = quiet (ReleaseLiveLease a u k l)"
| "op_prog c (OpIncrementWait i m) = quiet (IncrementWaitCount c i m)"
| "op_prog c (OpDecrementWait i) = quiet (DecrementWaitCount c i)"
| "op_prog c (OpIncrementAccountWait i m) = quiet (IncrementAccountWaitCount c i m)"
| "op_prog c (OpDecrementAccountWait i) = quiet (DecrementAccountWaitCount c i)"
| "op_prog c (OpAccountWaiting i) = quiet (GetAccountWaitingCount i)"
| "op_prog c (OpLoadAccounts as) = quiet (GetAccountsLoadBatch c as)"
| "op_prog c (OpLoadUsers us) = quiet (GetUsersLoadBatch c us)"
| "op_prog c (OpCleanAccount i) = quiet (CleanupExpiredAccountSlots c i)"
| "op_prog c OpCleanKeys = quiet (CleanupExpiredAccountSlotKeys c)"
| "op_prog c (OpCleanProcess p) = quiet (CleanupStaleProcessSlots c p)"

record cache_system =
  cs_now :: int
  cs_keys :: redis_keys
  cs_progs :: "unit redis_prog list"

datatype cache_event =
    Pass int
  | Begin cache_op
  | Serve nat
  | LoseCommand nat
  | LoseReply nat

definition with_command ::
    "cache_system \<Rightarrow> nat \<Rightarrow> (redis_command \<Rightarrow> (redis_reply \<Rightarrow> unit redis_prog) \<Rightarrow> unit redis_prog \<times> redis_keys) \<Rightarrow>
     cache_system option" where
  "with_command s n f =
     (if n < length (cs_progs s)
      then (case cs_progs s ! n of
              Ret x \<Rightarrow> None
            | Send cmd k \<Rightarrow>
                (case f cmd k of (p, r) \<Rightarrow> Some (s\<lparr>cs_keys := r, cs_progs := (cs_progs s)[n := p]\<rparr>)))
      else None)"

fun cache_step :: "concurrencyCache \<Rightarrow> cache_event \<Rightarrow> cache_system \<Rightarrow> cache_system option" where
  "cache_step c (Pass d) s = (if 0 \<le> d then Some (s\<lparr>cs_now := cs_now s + d\<rparr>) else None)"
| "cache_step c (Begin op) s = Some (s\<lparr>cs_progs := cs_progs s @ [op_prog c op]\<rparr>)"
| "cache_step c (Serve n) s =
     with_command s n (\<lambda>cmd k. case redis_exec (cs_now s) cmd (cs_keys s) of (rep, r) \<Rightarrow> (k rep, r))"
| "cache_step c (LoseCommand n) s = with_command s n (\<lambda>cmd k. (k RepError, cs_keys s))"
| "cache_step c (LoseReply n) s =
     with_command s n (\<lambda>cmd k. (k RepError, snd (redis_exec (cs_now s) cmd (cs_keys s))))"

definition cache_start :: cache_system where
  "cache_start = \<lparr>cs_now = 0, cs_keys = no_keys, cs_progs = []\<rparr>"

definition begins_only :: "(cache_op \<Rightarrow> bool) \<Rightarrow> cache_event \<Rightarrow> bool" where
  "begins_only admits ev = (case ev of Begin op \<Rightarrow> admits op | _ \<Rightarrow> True)"

inductive cache_reachable :: "concurrencyCache \<Rightarrow> (cache_op \<Rightarrow> bool) \<Rightarrow> cache_system \<Rightarrow> bool" for c admits where
  start: "cache_reachable c admits cache_start"
| step: "cache_reachable c admits s \<Longrightarrow> begins_only admits ev \<Longrightarrow> cache_step c ev s = Some s' \<Longrightarrow> cache_reachable c admits s'"

text \<open>A given sequence of events leads to a reachable state.\<close>

primrec cache_run :: "concurrencyCache \<Rightarrow> cache_event list \<Rightarrow> cache_system \<Rightarrow> cache_system option" where
  "cache_run c [] s = Some s"
| "cache_run c (ev # evs) s = (case cache_step c ev s of None \<Rightarrow> None | Some s' \<Rightarrow> cache_run c evs s')"

lemma cache_run_reachable:
  assumes "list_all (begins_only admits) evs" and "cache_run c evs cache_start = Some s"
  shows "cache_reachable c admits s"
proof -
  have "cache_reachable c admits s0 \<Longrightarrow> list_all (begins_only admits) evs \<Longrightarrow> cache_run c evs s0 = Some s \<Longrightarrow>
      cache_reachable c admits s" for s0
    by (induction evs arbitrary: s0) (auto split: option.splits intro: cache_reachable.step)
  with assms cache_reachable.start show ?thesis by blast
qed

text \<open>A test of the state that the events lead to.\<close>

definition run_to :: "concurrencyCache \<Rightarrow> cache_event list \<Rightarrow> (cache_system \<Rightarrow> bool) \<Rightarrow> bool" where
  "run_to c evs Q = (case cache_run c evs cache_start of None \<Rightarrow> False | Some s \<Rightarrow> Q s)"

lemma run_to_reachable:
  assumes "run_to c evs Q" and "list_all (begins_only admits) evs"
  obtains s where "cache_run c evs cache_start = Some s" and "cache_reachable c admits s" and "Q s"
  using assms cache_run_reachable by (auto simp: run_to_def split: option.splits)

subsection \<open>The commands a program sends\<close>

text \<open>
  \<open>issues P p T\<close>: a program that runs from second \<open>T\<close> on sends only commands with \<open>P\<close>, whatever the replies;
  of the clock it is known that it reports no second that is still to come.
\<close>

primrec issues :: "(int \<Rightarrow> redis_command \<Rightarrow> bool) \<Rightarrow> 'a redis_prog \<Rightarrow> int \<Rightarrow> bool" where
  "issues P (Ret x) = (\<lambda>T. True)"
| "issues P (Send cmd k) = (\<lambda>T. P T cmd \<and>
     (if cmd = CmdTime then \<forall>T' \<ge> T. \<forall>rep. (\<forall>n. rep = RepInt n \<longrightarrow> n \<le> T') \<longrightarrow> issues P (k rep) T'
      else \<forall>rep. issues P (k rep) T))"

definition lasting :: "(int \<Rightarrow> redis_command \<Rightarrow> bool) \<Rightarrow> bool" where
  "lasting P \<longleftrightarrow> (\<forall>T T' cmd. T \<le> T' \<longrightarrow> P T cmd \<longrightarrow> P T' cmd)"

lemma issues_later: "lasting P \<Longrightarrow> issues P p T \<Longrightarrow> T \<le> T' \<Longrightarrow> issues P p T'"
proof (induction p arbitrary: T)
  case (Send cmd k)
  from Send.prems show ?case
    using Send.IH [OF rangeI] by (auto simp: lasting_def intro: order_trans) blast
qed simp

lemma issues_quiet [simp]: "issues P (quiet p) T = issues P p T"
  by (induction p arbitrary: T) (auto simp: quiet_def)

lemma issues_time [simp]:
  "issues P (script_int err CmdTime k) T \<longleftrightarrow> P T CmdTime \<and> (\<forall>T' n. T \<le> T' \<and> n \<le> T' \<longrightarrow> issues P (k n) T')"
  by (auto simp: script_int_def split: redis_reply.split)

lemma issues_script_int [simp]:
  "cmd \<noteq> CmdTime \<Longrightarrow> issues P (script_int err cmd k) T \<longleftrightarrow> P T cmd \<and> (\<forall>n. issues P (k n) T)"
  by (auto simp: script_int_def split: redis_reply.split)

lemma issues_pair [simp]:
  "cmd \<noteq> CmdTime \<Longrightarrow> issues P (runScriptInt64Pair err cmd k) T \<longleftrightarrow> P T cmd \<and> (\<forall>a b. issues P (k a b) T)"
  by (auto simp: runScriptInt64Pair_def split: redis_reply.split)

lemma issues_members [simp]:
  "cmd \<noteq> CmdTime \<Longrightarrow> issues P (read_members err cmd k) T \<longleftrightarrow> P T cmd \<and> (\<forall>ms. issues P (k ms) T)"
  by (auto simp: read_members_def split: redis_reply.split)

lemma issues_must [simp]: "cmd \<noteq> CmdTime \<Longrightarrow> issues P (must err cmd p) T \<longleftrightarrow> P T cmd \<and> issues P p T"
  by (auto simp: must_def split: redis_reply.split)

lemma issues_best_effort [simp]: "cmd \<noteq> CmdTime \<Longrightarrow> issues P (best_effort cmd p) T \<longleftrightarrow> P T cmd \<and> issues P p T"
  by (simp add: best_effort_def)

lemma issues_pipeline:
  "(\<And>cmd. cmd \<in> set cmds \<Longrightarrow> cmd \<noteq> CmdTime \<and> P T cmd) \<Longrightarrow> (\<And>reps. issues P (k reps) T) \<Longrightarrow> issues P (pipeline cmds reps k) T"
  by (induction cmds arbitrary: reps) auto

text \<open>
  Keys of live leases, and the commands that neither take a place anywhere nor end a live lease.
\<close>

definition index_key :: "string \<Rightarrow> bool" where
  "index_key k \<longleftrightarrow> k = accountActiveIndexKey \<or> k = userActiveIndexKey"

definition lease_key :: "string \<Rightarrow> bool" where
  "lease_key k \<longleftrightarrow> has_prefix k ''concurrency:live:''"

fun plain :: "int \<Rightarrow> redis_command \<Rightarrow> bool" where
  "plain T (RunCount k lk ttl) = (\<not> lease_key k)"
| "plain T (RunDecrementWait k) = True"
| "plain T (RunCleanupExpired k ttl) = (\<not> lease_key k)"
| "plain T (RunStartupCleanup k p ttl) = (\<not> lease_key k)"
| "plain T (CmdZAdd k zs) = index_key k"
| "plain T (CmdZRem k ms) = (\<not> lease_key k)"
| "plain T (CmdZRemRangeByScore k bound) = (lease_key k \<longrightarrow> bound \<le> T - liveLeaseTTLSeconds)"
| "plain T (CmdDel ks) = (\<forall>k \<in> set ks. \<not> lease_key k)"
| "plain T (CmdSweep p) = (p = accountWaitKeyPrefix \<or> p = waitQueueKeyPrefix)"
| "plain T CmdTime = True"
| "plain T (CmdZCard k) = True"
| "plain T (CmdGet k) = True"
| "plain T (CmdZRange k) = True"
| "plain T (CmdZRangeByScore k bound limit) = True"
| "plain T (CmdExists k) = True"
| "plain T (CmdSet k v) = True"
| "plain T cmd = False"

text \<open>The one command of an operation that is not plain.\<close>

fun op_scripts :: "concurrencyCache \<Rightarrow> cache_op \<Rightarrow> redis_command list" where
  "op_scripts c (OpAcquireAccount i m l) =
     [RunAcquire (accountSlotKey i) (liveAccountSlotKey i) m (cc_slotTTLSeconds c) l]"
| "op_scripts c (OpAcquireUser i m l) = [RunAcquire (userSlotKey i) (liveUserSlotKey i) m (cc_slotTTLSeconds c) l]"
| "op_scripts c (OpTrackKey i l) = [RunTrack (apiKeySlotKey i) (cc_slotTTLSeconds c) l]"
| "op_scripts c (OpAcquireIngress i m l) =
     [RunAcquireIngress (openAIWSIngressLeaseKey i) m openAIWSIngressLeaseTTLSeconds l]"
| "op_scripts c (OpRefreshIngress i l) = [RunRefreshIngress (openAIWSIngressLeaseKey i) openAIWSIngressLeaseTTLSeconds l]"
| "op_scripts c (OpAcquireLive a am u um k l rp) =
     [RunAcquireLive (accountSlotKey a) (liveAccountSlotKey a) (userSlotKey u) (liveUserSlotKey u) (liveAPIKeySlotKey k)
        am um liveLeaseTTLSeconds l (if rp then 1 else 0)]"
| "op_scripts c (OpRefreshLive a u k l) =
     [RunRefreshLive [liveAccountSlotKey a, liveUserSlotKey u, liveAPIKeySlotKey k] liveLeaseTTLSeconds l]"
| "op_scripts c (OpReleaseLive a u k l) =
     [CmdZRemTx [(liveAccountSlotKey a, l), (liveUserSlotKey u, l), (liveAPIKeySlotKey k, l)]]"
| "op_scripts c (OpIncrementWait i m) = [RunIncrementWait (waitQueueKey i) m (cc_waitQueueTTLSeconds c)]"
| "op_scripts c (OpIncrementAccountWait i m) = [RunIncrementAccountWait (accountWaitKey i) m (cc_waitQueueTTLSeconds c)]"
| "op_scripts c op = []"

lemmas key_prefixes = accountSlotKeyPrefix_def userSlotKeyPrefix_def apiKeySlotKeyPrefix_def liveAccountSlotKeyPrefix_def
  liveUserSlotKeyPrefix_def liveAPIKeySlotKeyPrefix_def openAIWSIngressLeaseKeyPrefix_def waitQueueKeyPrefix_def
  accountWaitKeyPrefix_def accountActiveIndexKey_def userActiveIndexKey_def

lemmas key_defs = accountSlotKey_def userSlotKey_def apiKeySlotKey_def liveAccountSlotKey_def liveUserSlotKey_def
  liveAPIKeySlotKey_def openAIWSIngressLeaseKey_def waitQueueKey_def accountWaitKey_def

lemma lease_keys [simp]:
  "\<not> lease_key (accountSlotKey i)" "\<not> lease_key (userSlotKey i)" "\<not> lease_key (apiKeySlotKey i)"
  "\<not> lease_key (openAIWSIngressLeaseKey i)" "\<not> lease_key (waitQueueKey i)" "\<not> lease_key (accountWaitKey i)"
  "\<not> lease_key accountActiveIndexKey" "\<not> lease_key userActiveIndexKey"
  "lease_key (liveAccountSlotKey i)" "lease_key (liveUserSlotKey i)" "lease_key (liveAPIKeySlotKey i)"
  by (simp_all add: lease_key_def has_prefix_def key_defs key_prefixes)

lemma index_keys [simp]: "index_key accountActiveIndexKey" "index_key userActiveIndexKey"
  by (simp_all add: index_key_def)

text \<open>Every operation sends its script and plain commands.\<close>

lemma issues_touch:
  assumes "\<And>T cmd. plain T cmd \<Longrightarrow> P T cmd" and "index_key indexKey" and "issues P p T"
  shows "issues P (touchActiveIndexAt indexKey i e p) T"
  using assms by (simp add: touchActiveIndexAt_def)

lemma issues_refresh:
  assumes plain: "\<And>T cmd. plain T cmd \<Longrightarrow> P T cmd" and lasting: "lasting P"
    and "index_key indexKey" "\<not> lease_key slotKey" "\<not> lease_key indexKey" and p: "issues P p T"
  shows "issues P (refreshActiveIndex c indexKey i slotKey waitKey p) T"
proof -
  have later: "issues P p T'" if "T \<le> T'" for T' using issues_later [OF lasting p that] .
  show ?thesis
    using assms(3-5) later
    by (auto simp: refreshActiveIndex_def readActiveLoadForKey_def p intro!: plain issues_pipeline issues_touch
        split: redis_reply.split option.split)
qed

lemma issues_index_update:
  assumes plain: "\<And>T cmd. plain T cmd \<Longrightarrow> P T cmd" and "index_key indexKey" "\<not> lease_key indexKey" and "issues P p T"
  shows "issues P (addActiveIndexMembers indexKey zs p) T" "issues P (removeActiveIndexMembers indexKey ms p) T"
  using assms by (simp_all add: addActiveIndexMembers_def removeActiveIndexMembers_def)

definition plain_spec :: "slotIndexSpec \<Rightarrow> bool" where
  "plain_spec spec \<longleftrightarrow> index_key (si_indexKey spec) \<and> \<not> lease_key (si_indexKey spec) \<and>
     (\<forall>i. \<not> lease_key (si_slotKey spec i) \<and> \<not> lease_key (si_waitKey spec i))"

lemma plain_specs [simp]: "plain_spec accountSlotIndex" "plain_spec userSlotIndex"
  by (simp_all add: plain_spec_def accountSlotIndex_def userSlotIndex_def)

lemma issues_read_chunks:
  assumes plain: "\<And>T cmd. plain T cmd \<Longrightarrow> P T cmd" and spec: "plain_spec spec" and k: "\<And>loads. issues P (k loads) T"
  shows "issues P (read_chunks c spec now chs loads k) T"
proof (induction chs arbitrary: loads)
  case (Cons ch chs)
  then show ?case
    using spec by (auto simp: plain_spec_def load_commands_def intro!: issues_pipeline plain)
qed (simp add: k)

lemma issues_reconcile:
  assumes plain: "\<And>T cmd. plain T cmd \<Longrightarrow> P T cmd" and "lasting P" and spec: "plain_spec spec" and p: "issues P p T"
  shows "issues P (reconcileExpiredIndexCandidates c spec p) T"
proof -
  have key: "index_key (si_indexKey spec)" "\<not> lease_key (si_indexKey spec)" using spec by (simp_all add: plain_spec_def)
  have later: "issues P p T'" if "T \<le> T'" for T' using issues_later [OF \<open>lasting P\<close> p that] .
  show ?thesis
    by (auto simp: reconcileExpiredIndexCandidates_def readIndexLoads_def Let_def
        intro!: plain issues_read_chunks [OF plain spec] issues_index_update [OF plain key] later)
qed

lemma issues_clean_members:
  assumes plain: "\<And>T cmd. plain T cmd \<Longrightarrow> P T cmd" and spec: "plain_spec spec" and p: "issues P p T"
  shows "issues P (clean_members c spec pre now ms stale refreshed p) T"
proof (induction ms arbitrary: stale refreshed)
  case Nil
  from spec show ?case by (auto simp: plain_spec_def intro!: issues_index_update [OF plain] p)
next
  case (Cons m ms)
  with spec show ?case by (auto simp: plain_spec_def split: option.split intro!: plain)
qed

lemma issues_clean_process:
  assumes plain: "\<And>T cmd. plain T cmd \<Longrightarrow> P T cmd" and "lasting P"
  shows "issues P (CleanupStaleProcessSlots c pre) T"
  by (auto simp: CleanupStaleProcessSlots_def sweepLegacyWaitKeysOnce_def allIndexMembers_def
      cleanupStaleProcessSlotsForIndex_def intro!: plain issues_clean_members [OF plain])

lemma issues_op:
  assumes plain: "\<And>T cmd. plain T cmd \<Longrightarrow> P T cmd" and lasting: "lasting P"
    and scripts: "\<And>T cmd. cmd \<in> set (op_scripts c op) \<Longrightarrow> P T cmd"
  shows "issues P (op_prog c op) T"
proof -
  note defs = AcquireAccountSlot_def ReleaseAccountSlot_def GetAccountConcurrency_def AcquireUserSlot_def ReleaseUserSlot_def
    GetUserConcurrency_def TrackAPIKeySlot_def ReleaseAPIKeySlot_def AcquireOpenAIWSIngressLease_def
    RefreshOpenAIWSIngressLease_def ReleaseOpenAIWSIngressLease_def AcquireLiveLease_def RefreshLiveLease_def
    ReleaseLiveLease_def IncrementWaitCount_def DecrementWaitCount_def IncrementAccountWaitCount_def
    DecrementAccountWaitCount_def GetAccountWaitingCount_def CleanupExpiredAccountSlots_def
    GetAccountConcurrencyBatch_def GetAPIKeyConcurrencyBatch_def GetAccountsLoadBatch_def GetUsersLoadBatch_def
    CleanupExpiredAccountSlotKeys_def count_commands_def refreshAccountActiveIndex_def refreshUserActiveIndex_def
  show ?thesis
    using scripts
    by (cases op)
      (auto simp: defs intro!: issues_clean_process [OF plain lasting] issues_touch [OF plain] issues_refresh [OF plain lasting]
        issues_reconcile [OF plain lasting] issues_pipeline plain split: redis_reply.split)
qed

subsection \<open>Invariants of the keyspace\<close>

text \<open>
  An invariant that plain commands keep and the scripts of the admitted operations: it holds in every
  reachable state.
\<close>

definition sent_by :: "concurrencyCache \<Rightarrow> (cache_op \<Rightarrow> bool) \<Rightarrow> int \<Rightarrow> redis_command \<Rightarrow> bool" where
  "sent_by c admits T cmd \<longleftrightarrow> plain T cmd \<or> (\<exists>op. admits op \<and> cmd \<in> set (op_scripts c op))"

lemma plain_later: "plain T cmd \<Longrightarrow> T \<le> T' \<Longrightarrow> plain T' cmd"
  by (cases cmd) auto

lemma sent_by_lasting: "lasting (sent_by c admits)"
  by (auto simp: lasting_def sent_by_def intro: plain_later)

lemma issues_admitted: "admits op \<Longrightarrow> issues (sent_by c admits) (op_prog c op) T"
  by (rule issues_op) (auto simp: sent_by_lasting sent_by_def)

locale kept_by_commands =
  fixes c :: concurrencyCache
    and admits :: "cache_op \<Rightarrow> bool"
    and I :: "int \<Rightarrow> redis_keys \<Rightarrow> bool"
  assumes fresh: "I 0 no_keys"
    and later: "I t r \<Longrightarrow> t \<le> t' \<Longrightarrow> I t' r"
    and plain: "plain (redis_secs t) cmd \<Longrightarrow> I t r \<Longrightarrow> I t (snd (redis_exec t cmd r))"
    and script: "admits op \<Longrightarrow> cmd \<in> set (op_scripts c op) \<Longrightarrow> I t r \<Longrightarrow> I t (snd (redis_exec t cmd r))"
begin

abbreviation P :: "int \<Rightarrow> redis_command \<Rightarrow> bool" where
  "P \<equiv> sent_by c admits"

definition system_ok :: "cache_system \<Rightarrow> bool" where
  "system_ok s \<longleftrightarrow> I (cs_now s) (cs_keys s) \<and> (\<forall>p \<in> set (cs_progs s). issues P p (redis_secs (cs_now s)))"

lemma exec: "P (redis_secs t) cmd \<Longrightarrow> I t r \<Longrightarrow> I t (snd (redis_exec t cmd r))"
  by (auto simp: sent_by_def intro: plain script)

lemma served:
  assumes "issues P (Send cmd k) T" and "rep = fst (redis_exec t cmd r) \<or> rep = RepError" and "T = redis_secs t"
  shows "issues P (k rep) T"
  using assms by (auto split: if_splits)

lemma step_keeps:
  assumes ok: "system_ok s" and "begins_only admits ev" and st: "cache_step c ev s = Some s'"
  shows "system_ok s'"
proof -
  have served: "system_ok s'"
    if st: "with_command s n f = Some s'"
      and f: "\<And>cmd k. fst (f cmd k) = k (fst (redis_exec (cs_now s) cmd (cs_keys s))) \<or> fst (f cmd k) = k RepError"
        "\<And>cmd k. snd (f cmd k) = snd (redis_exec (cs_now s) cmd (cs_keys s)) \<or> snd (f cmd k) = cs_keys s" for n f
  proof -
    from st obtain cmd k where n: "n < length (cs_progs s)" and prog: "cs_progs s ! n = Send cmd k"
      and s': "s' = s\<lparr>cs_keys := snd (f cmd k), cs_progs := (cs_progs s)[n := fst (f cmd k)]\<rparr>"
      by (auto simp: with_command_def case_prod_unfold split: if_splits redis_prog.splits)
    from ok n prog have sends: "issues P (Send cmd k) (redis_secs (cs_now s))"
      unfolding system_ok_def by (metis nth_mem)
    then have "issues P (fst (f cmd k)) (redis_secs (cs_now s))"
      using f(1) [of cmd k] served by metis
    moreover from sends ok have "I (cs_now s) (snd (f cmd k))"
      using f(2) [of cmd k] exec [of "cs_now s" cmd "cs_keys s"] by (auto simp: system_ok_def)
    ultimately show ?thesis using ok unfolding s' system_ok_def by (auto dest: set_update_subset_insert [THEN subsetD])
  qed
  show ?thesis
  proof (cases ev)
    case (Pass d)
    with st have d: "0 \<le> d" and s': "s' = s\<lparr>cs_now := cs_now s + d\<rparr>" by (simp_all split: if_splits)
    from d have "redis_secs (cs_now s) \<le> redis_secs (cs_now s + d)" by (simp add: redis_secs_def zdiv_mono1)
    with ok d show ?thesis unfolding s' system_ok_def by (auto intro: later issues_later [OF sent_by_lasting])
  next
    case (Begin op)
    with assms have "admits op" by (simp add: begins_only_def)
    then have "issues P (op_prog c op) T" for T by (rule issues_admitted)
    with ok Begin st show ?thesis by (auto simp: system_ok_def)
  qed (use st served in \<open>auto simp: case_prod_unfold\<close>)
qed

theorem invariant: "cache_reachable c admits s \<Longrightarrow> I (cs_now s) (cs_keys s)"
proof -
  assume "cache_reachable c admits s"
  then have "system_ok s"
  proof induction
    case start
    show ?case by (simp add: system_ok_def cache_start_def fresh)
  next
    case (step s ev s')
    then show ?case using step_keeps by blast
  qed
  then show ?thesis by (simp add: system_ok_def)
qed

end

end
