(* ===== verification/Concurrency_Limits.thy ===== *)
theory Concurrency_Limits
  imports Concurrency_System
begin

section \<open>The limits of the concurrency slots\<close>

text \<open>
  No limit is exceeded: the slots and live leases of an account or a user, the ingress leases of a key and
  the wait counters stay within the limits that the operations are called with, whatever the order in
  which commands of many processes reach Redis, and whichever of them fail or die. A lease that replaces
  a regular slot may find one place more than the limit.
\<close>

lemma Itoa_chars: "ch \<in> set (Itoa i) \<Longrightarrow> ch = CHR ''-'' \<or> 48 \<le> (of_char ch :: nat) \<and> (of_char ch :: nat) \<le> 57"
  by (auto simp: Itoa_def split: if_splits dest: itoa_nat_digits)

lemma Itoa_not_name [simp]: "Itoa i \<noteq> ''active_index''"
proof
  assume "Itoa i = ''active_index''"
  then have "CHR ''v'' \<in> set (Itoa i)" by simp
  then show False using Itoa_chars by fastforce
qed

lemma Itoa_eq [simp]: "Itoa i = Itoa j \<longleftrightarrow> i = j"
  using Itoa_inj by blast

lemma same_family [simp]:
  "accountSlotKey i = accountSlotKey j \<longleftrightarrow> i = j" "userSlotKey i = userSlotKey j \<longleftrightarrow> i = j"
  "apiKeySlotKey i = apiKeySlotKey j \<longleftrightarrow> i = j" "liveAccountSlotKey i = liveAccountSlotKey j \<longleftrightarrow> i = j"
  "liveUserSlotKey i = liveUserSlotKey j \<longleftrightarrow> i = j" "liveAPIKeySlotKey i = liveAPIKeySlotKey j \<longleftrightarrow> i = j"
  "openAIWSIngressLeaseKey i = openAIWSIngressLeaseKey j \<longleftrightarrow> i = j"
  "waitQueueKey i = waitQueueKey j \<longleftrightarrow> i = j" "accountWaitKey i = accountWaitKey j \<longleftrightarrow> i = j"
  by (simp_all add: key_defs)

lemma other_family [simp]:
  "accountSlotKey i \<noteq> userSlotKey j" "accountSlotKey i \<noteq> apiKeySlotKey j" "accountSlotKey i \<noteq> liveAccountSlotKey j"
  "accountSlotKey i \<noteq> liveUserSlotKey j" "accountSlotKey i \<noteq> liveAPIKeySlotKey j"
  "accountSlotKey i \<noteq> openAIWSIngressLeaseKey j" "accountSlotKey i \<noteq> accountActiveIndexKey" "accountSlotKey i \<noteq> userActiveIndexKey"
  "userSlotKey i \<noteq> apiKeySlotKey j" "userSlotKey i \<noteq> liveAccountSlotKey j" "userSlotKey i \<noteq> liveUserSlotKey j"
  "userSlotKey i \<noteq> liveAPIKeySlotKey j" "userSlotKey i \<noteq> openAIWSIngressLeaseKey j"
  "userSlotKey i \<noteq> accountActiveIndexKey" "userSlotKey i \<noteq> userActiveIndexKey"
  "liveAccountSlotKey i \<noteq> liveUserSlotKey j" "liveAccountSlotKey i \<noteq> liveAPIKeySlotKey j"
  "liveAccountSlotKey i \<noteq> openAIWSIngressLeaseKey j" "liveAccountSlotKey i \<noteq> apiKeySlotKey j"
  "liveAccountSlotKey i \<noteq> accountActiveIndexKey" "liveAccountSlotKey i \<noteq> userActiveIndexKey"
  "liveUserSlotKey i \<noteq> liveAPIKeySlotKey j" "liveUserSlotKey i \<noteq> openAIWSIngressLeaseKey j" "liveUserSlotKey i \<noteq> apiKeySlotKey j"
  "liveUserSlotKey i \<noteq> accountActiveIndexKey" "liveUserSlotKey i \<noteq> userActiveIndexKey"
  "openAIWSIngressLeaseKey i \<noteq> liveAPIKeySlotKey j" "openAIWSIngressLeaseKey i \<noteq> apiKeySlotKey j"
  "openAIWSIngressLeaseKey i \<noteq> accountActiveIndexKey" "openAIWSIngressLeaseKey i \<noteq> userActiveIndexKey"
  "liveAPIKeySlotKey i \<noteq> apiKeySlotKey j" "liveAPIKeySlotKey i \<noteq> accountActiveIndexKey" "liveAPIKeySlotKey i \<noteq> userActiveIndexKey"
  "waitQueueKey i \<noteq> accountWaitKey j" "accountActiveIndexKey \<noteq> userActiveIndexKey"
  by (simp_all add: key_defs key_prefixes)

lemmas other_family_sym [simp] = other_family [symmetric]

subsection \<open>Plain commands take no place\<close>

lemma length_insert_by [simp]: "length (insert_by lt x xs) = Suc (length xs)"
  by (induction xs) auto

lemma length_zrem: "length (zrem m z) \<le> length z" "m \<in> fst ` set z \<Longrightarrow> Suc (length (zrem m z)) \<le> length z"
  by (auto simp: zrem_def Suc_le_eq intro!: length_filter_less)

lemma length_zadd: "length (zadd m s z) \<le> Suc (length z)" "m \<in> fst ` set z \<Longrightarrow> length (zadd m s z) \<le> length z"
  using length_zrem [of m z] by (auto simp: zadd_def)

lemma ZSCORE_None: "ZSCORE t k m r = None \<longleftrightarrow> m \<notin> fst ` set (zget t k r)"
  by (simp add: ZSCORE_def map_of_eq_None_iff)

lemma length_hold:
  "length (zget t k' (hold_member t k ttl m r)) \<le> (if k' = k \<and> ZSCORE t k m r = None then 1 else 0) + length (zget t k' r)"
  using length_zadd(1) [of m "redis_secs t" "zget t k r"] length_zadd(2) [of m "zget t k r" "redis_secs t"]
  by (auto simp: redis_simps ZSCORE_None)

lemma length_fold_zrem: "length (fold zrem ms z) \<le> length z"
  by (induction ms arbitrary: z) (auto intro: order_trans length_zrem(1))

lemma length_after_purge [simp]:
  "length (zget t k' (ZREMRANGEBYSCORE t k bound r)) \<le> length (zget t k' r)"
  by (simp add: redis_simps)

lemma zget_fold_key_del [redis_simps]: "zget t k' (fold key_del ks r) = (if k' \<in> set ks then [] else zget t k' r)"
  by (induction ks arbitrary: r) (auto simp: redis_simps)

lemma count_get_fold_key_del [redis_simps]: "count_get t k' (fold key_del ks r) = (if k' \<in> set ks then None else count_get t k' r)"
  by (induction ks arbitrary: r) (auto simp: redis_simps)

lemma fold_ZADD_other: "k' \<noteq> k \<Longrightarrow> zget t k' (fold (\<lambda>(m, s). ZADD t k s m) zs r) = zget t k' r"
  by (induction zs arbitrary: r) (auto simp: redis_simps)

lemma count_get_fold_ZADD [redis_simps]: "count_get t k' (fold (\<lambda>(m, s). ZADD t1 k s m) zs r) = count_get t k' r"
  by (induction zs arbitrary: r) (auto simp: redis_simps)

lemma other_part_reads [redis_simps]:
  "zget t k (r\<lparr>rk_counts := x\<rparr>) = zget t k r" "count_get t k (r\<lparr>rk_zsets := y\<rparr>) = count_get t k r"
  by (simp_all add: zget_def count_get_def)

lemma sweep_reads [redis_simps]:
  "zget t k (r1\<lparr>rk_zsets := fmfilter f (rk_zsets r)\<rparr>) = (if f k then zget t k r else [])"
  "count_get t k (r1\<lparr>rk_counts := fmfilter f (rk_counts r)\<rparr>) = (if f k then count_get t k r else None)"
  by (simp_all add: zget_def count_get_def)

lemmas script_defs = getCountScript_def trackSlotScript_def decrementWaitScript_def cleanupExpiredSlotsScript_def
  startupCleanupSlotScript_def

lemma plain_zget:
  assumes "plain T cmd" and "\<not> index_key k"
  shows "length (zget t k (snd (redis_exec t cmd r))) \<le> length (zget t k r)"
proof (cases cmd)
  case (CmdZAdd k' zs)
  with assms show ?thesis by (auto simp: fold_ZADD_other index_key_def)
qed (use assms in \<open>auto simp: script_defs redis_simps Let_def length_fold_zrem split: option.split intro: order_trans [OF length_filter_le]\<close>)

lemma plain_count:
  assumes "plain T cmd"
  shows "count_get t k (snd (redis_exec t cmd r)) = None \<or> count_get t k (snd (redis_exec t cmd r)) = count_get t k r \<or>
    (\<exists>n. count_get t k r = Some n \<and> 0 < n \<and> count_get t k (snd (redis_exec t cmd r)) = Some (n - 1))"
  using assms by (cases cmd) (auto simp: script_defs redis_simps Let_def split: option.split)

subsection \<open>No limit is exceeded\<close>

record slot_limits =
  lm_account :: "int \<Rightarrow> nat"
  lm_user :: "int \<Rightarrow> nat"
  lm_ingress :: "int \<Rightarrow> nat"
  lm_userWait :: "int \<Rightarrow> nat"
  lm_accountWait :: "int \<Rightarrow> nat"
  lm_replacing :: bool

definition spare_place :: "slot_limits \<Rightarrow> int" where
  "spare_place L = (if lm_replacing L then 1 else 0)"

text \<open>The operations that respect the limits: those that take a place are called with at most the limit.\<close>

fun op_within :: "slot_limits \<Rightarrow> cache_op \<Rightarrow> bool" where
  "op_within L (OpAcquireAccount i m l) = (m \<le> int (lm_account L i))"
| "op_within L (OpAcquireUser i m l) = (m \<le> int (lm_user L i))"
| "op_within L (OpAcquireIngress i m l) = (m \<le> int (lm_ingress L i))"
| "op_within L (OpAcquireLive a am u um k l rp) =
     (0 < am \<and> am \<le> int (lm_account L a) \<and> 0 < um \<and> um \<le> int (lm_user L u) \<and> (rp \<longrightarrow> lm_replacing L))"
| "op_within L (OpIncrementWait i m) = (m \<le> int (lm_userWait L i))"
| "op_within L (OpIncrementAccountWait i m) = (m \<le> int (lm_accountWait L i))"
| "op_within L op = True"

definition places :: "int \<Rightarrow> redis_keys \<Rightarrow> string \<Rightarrow> string \<Rightarrow> nat" where
  "places t r key liveKey = length (zget t key r) + length (zget t liveKey r)"

definition counter_within :: "nat \<Rightarrow> int option \<Rightarrow> bool" where
  "counter_within m n = (case n of None \<Rightarrow> True | Some i \<Rightarrow> 0 \<le> i \<and> i \<le> int m)"

definition within_limits :: "slot_limits \<Rightarrow> int \<Rightarrow> redis_keys \<Rightarrow> bool" where
  "within_limits L t r \<longleftrightarrow>
     (\<forall>a. int (places t r (accountSlotKey a) (liveAccountSlotKey a)) \<le> int (lm_account L a) + spare_place L) \<and>
     (\<forall>u. int (places t r (userSlotKey u) (liveUserSlotKey u)) \<le> int (lm_user L u) + spare_place L) \<and>
     (\<forall>k. length (zget t (openAIWSIngressLeaseKey k) r) \<le> lm_ingress L k) \<and>
     (\<forall>u. counter_within (lm_userWait L u) (count_get t (waitQueueKey u) r)) \<and>
     (\<forall>a. counter_within (lm_accountWait L a) (count_get t (accountWaitKey a) r))"

text \<open>How much a script that may take places leaves under a key.\<close>

lemma places_later: "t \<le> t' \<Longrightarrow> places t' r k lk \<le> places t r k lk"
  using zget_later [of t t' k r] zget_later [of t t' lk r] by (auto simp: places_def)

lemma within_later: "within_limits L t r \<Longrightarrow> t \<le> t' \<Longrightarrow> within_limits L t' r"
proof -
  assume w: "within_limits L t r" and t: "t \<le> t'"
  have "length (zget t' k r) \<le> length (zget t k r)" for k using zget_later [OF t, of k r] by auto
  moreover have "counter_within m (count_get t k r) \<Longrightarrow> counter_within m (count_get t' k r)" for m k
    using count_get_later [OF t, of k r] by (auto simp: counter_within_def)
  moreover have "int (places t' r k lk) \<le> b" if "int (places t r k lk) \<le> b" for k lk b
    using places_later [OF t, of r k lk] that by linarith
  ultimately show ?thesis using w unfolding within_limits_def by (meson order_trans)
qed

lemma acquire_zget:
  assumes "k' \<noteq> k" and "k' \<noteq> lk"
  shows "zget t k' (snd (acquireScript t k lk m ttl l r)) = zget t k' r"
  using assms by (simp add: acquireScript_def Let_def redis_simps)

lemma acquire_count [redis_simps]: "count_get t k' (snd (acquireScript t k lk m ttl l r)) = count_get t k' r"
  by (simp add: acquireScript_def Let_def redis_simps)

lemma acquire_places:
  assumes "k \<noteq> lk"
  shows "int (places t (snd (acquireScript t k lk m ttl l r)) k lk) \<le> max m (int (places t r k lk))"
proof -
  define r1 where "r1 = ZREMRANGEBYSCORE t lk (redis_secs t - 60) (ZREMRANGEBYSCORE t k (redis_secs t - ttl) r)"
  have le: "places t r1 k lk \<le> places t r k lk"
    using assms unfolding r1_def places_def by (intro add_mono) (auto simp: redis_simps)
  have held: "places t (hold_member t k ttl l r1) k lk \<le> (if ZSCORE t k l r1 = None then 1 else 0) + places t r1 k lk"
    using assms length_hold [of t k k ttl l r1] length_hold [of t lk k ttl l r1] by (auto simp: places_def)
  show ?thesis
  proof (cases "ZSCORE t k l r1 = None \<and> \<not> ZCARD t k r1 + ZCARD t lk r1 < m")
    case True
    then show ?thesis using le by (auto simp: acquireScript_def Let_def r1_def [symmetric])
  next
    case False
    then have "snd (acquireScript t k lk m ttl l r) = hold_member t k ttl l r1"
      by (auto simp: acquireScript_def Let_def r1_def [symmetric])
    then show ?thesis
      using False le held by (cases "ZSCORE t k l r1 = None") (auto simp: ZCARD_def places_def)
  qed
qed

lemma acquire_live_zget:
  "k' \<notin> {al, ul, kl} \<Longrightarrow> zget t k' (snd (acquireLiveLeaseScript t ar al ur ul kl am um ttl l rp r)) = zget t k' r"
  by (simp add: acquireLiveLeaseScript_def Let_def redis_simps)

lemma acquire_live_count [redis_simps]:
  "count_get t k' (snd (acquireLiveLeaseScript t ar al ur ul kl am um ttl l rp r)) = count_get t k' r"
  by (simp add: acquireLiveLeaseScript_def Let_def redis_simps)

lemma acquire_live_places:
  assumes "distinct [ar, al, ur, ul, kl]" and "0 < am" "0 < um"
  shows "int (places t (snd (acquireLiveLeaseScript t ar al ur ul kl am um ttl l rp r)) ar al) \<le>
      max (am + (if rp = 1 then 1 else 0)) (int (places t r ar al))"
    and "int (places t (snd (acquireLiveLeaseScript t ar al ur ul kl am um ttl l rp r)) ur ul) \<le>
      max (um + (if rp = 1 then 1 else 0)) (int (places t r ur ul))"
proof -
  let ?b = "redis_secs t - ttl"
  define r1 where "r1 = ZREMRANGEBYSCORE t kl ?b (ZREMRANGEBYSCORE t ul ?b (ZREMRANGEBYSCORE t al ?b r))"
  define r2 where "r2 = hold_member t kl ttl l (hold_member t ul ttl l (hold_member t al ttl l r1))"
  have purged: "length (zget t k r1) \<le> length (zget t k r)" for k
    unfolding r1_def by (intro order_trans [OF length_after_purge]) simp
  have held: "places t r2 ar al \<le> 1 + places t r1 ar al" "places t r2 ur ul \<le> 1 + places t r1 ur ul"
    using assms(1) length_zadd(1) [of l "redis_secs t" "zget t al r1"] length_zadd(1) [of l "redis_secs t" "zget t ul r1"]
    unfolding r2_def by (auto simp: places_def redis_simps)
  have script: "snd (acquireLiveLeaseScript t ar al ur ul kl am um ttl l rp r) = r1 \<or>
      snd (acquireLiveLeaseScript t ar al ur ul kl am um ttl l rp r) = r2 \<and>
      int (places t r1 ar al) < am + (if rp = 1 then 1 else 0) \<and> int (places t r1 ur ul) < um + (if rp = 1 then 1 else 0)"
    using assms(2,3) by (auto simp: acquireLiveLeaseScript_def Let_def r1_def [symmetric] r2_def [symmetric] places_def ZCARD_def)
  have le: "places t r1 ar al \<le> places t r ar al" "places t r1 ur ul \<le> places t r ur ul"
    unfolding places_def by (intro add_mono purged)+
  show "int (places t (snd (acquireLiveLeaseScript t ar al ur ul kl am um ttl l rp r)) ar al) \<le>
      max (am + (if rp = 1 then 1 else 0)) (int (places t r ar al))"
    "int (places t (snd (acquireLiveLeaseScript t ar al ur ul kl am um ttl l rp r)) ur ul) \<le>
      max (um + (if rp = 1 then 1 else 0)) (int (places t r ur ul))"
    using script le held by auto
qed

lemma all_hold_zget:
  "zget t k (snd (all_hold t ttl l ks r)) = zget t k r \<or>
   zget t k (snd (all_hold t ttl l ks r)) = filter (\<lambda>x. redis_secs t - ttl < snd x) (zget t k r)"
proof (induction ks arbitrary: r)
  case (Cons k' ks)
  show ?case
    using Cons [of "ZREMRANGEBYSCORE t k' (redis_secs t - ttl) r"] by (auto simp: Let_def redis_simps split: if_splits)
qed simp

lemma all_hold_count [redis_simps]: "count_get t k (snd (all_hold t ttl l ks r)) = count_get t k r"
  by (induction ks arbitrary: r) (auto simp: Let_def redis_simps)

lemma all_hold_members:
  "fst (all_hold t ttl l ks r) \<Longrightarrow> k \<in> set ks \<Longrightarrow> ZSCORE t k l (snd (all_hold t ttl l ks r)) \<noteq> None"
proof (induction ks arbitrary: r)
  case (Cons k' ks)
  define r1 where "r1 = ZREMRANGEBYSCORE t k' (redis_secs t - ttl) r"
  have rest: "fst (all_hold t ttl l ks r1)" and here: "ZSCORE t k' l r1 \<noteq> None"
    using Cons.prems by (auto simp: Let_def r1_def [symmetric] split: if_splits)
  have "zget t k' (snd (all_hold t ttl l ks r1)) = zget t k' r1"
    using all_hold_zget [of t k' ttl l ks r1] by (auto simp: r1_def redis_simps)
  then have "ZSCORE t k' l (snd (all_hold t ttl l ks r1)) \<noteq> None" using here by (simp add: ZSCORE_def)
  with Cons rest here show ?case by (auto simp: Let_def r1_def [symmetric])
qed simp

lemma hold_fold_length:
  "0 < ttl \<Longrightarrow> \<forall>k \<in> set ks. ZSCORE t k l r \<noteq> None \<Longrightarrow>
   length (zget t k' (fold (\<lambda>k. hold_member t k ttl l) ks r)) \<le> length (zget t k' r)"
proof (induction ks arbitrary: r)
  case (Cons k ks)
  have "\<forall>k' \<in> set ks. ZSCORE t k' l (hold_member t k ttl l r) \<noteq> None"
    using Cons.prems by (auto simp: ZSCORE_None redis_simps)
  from Cons.IH [OF Cons.prems(1) this] Cons.prems length_hold [of t k' k ttl l r] show ?case by (auto split: if_splits)
qed simp

lemma refresh_live_zget: "0 < ttl \<Longrightarrow> length (zget t k (snd (refreshLiveLeaseScript t ks ttl l r))) \<le> length (zget t k r)"
proof -
  assume ttl: "0 < ttl"
  have shrunk: "length (zget t k (snd (all_hold t ttl l ks r))) \<le> length (zget t k r)"
    using all_hold_zget [of t k ttl l ks r] by auto
  show ?thesis
  proof (cases "fst (all_hold t ttl l ks r)")
    case True
    then have "\<forall>k \<in> set ks. ZSCORE t k l (snd (all_hold t ttl l ks r)) \<noteq> None" using all_hold_members by blast
    from hold_fold_length [OF ttl this, of k] shrunk True show ?thesis
      by (auto simp: refreshLiveLeaseScript_def case_prod_unfold split: bool.split)
  next
    case False
    with shrunk show ?thesis by (auto simp: refreshLiveLeaseScript_def case_prod_unfold split: bool.split)
  qed
qed

lemma hold_fold_count [redis_simps]: "count_get t k' (fold (\<lambda>k. hold_member t k ttl l) ks r) = count_get t k' r"
  by (induction ks arbitrary: r) (auto simp: redis_simps)

lemma refresh_live_count [redis_simps]: "count_get t k (snd (refreshLiveLeaseScript t ks ttl l r)) = count_get t k r"
  by (auto simp: refreshLiveLeaseScript_def case_prod_unfold redis_simps split: bool.split)

lemma track_zget: "k' \<noteq> k \<Longrightarrow> zget t k' (snd (trackSlotScript t k ttl l r)) = zget t k' r"
  by (simp add: trackSlotScript_def redis_simps)

lemma ingress_zget:
  "k' \<noteq> k \<Longrightarrow> zget t k' (snd (acquireOpenAIWSIngressLeaseScript t k m ttl l r)) = zget t k' r"
  "int (length (zget t k (snd (acquireOpenAIWSIngressLeaseScript t k m ttl l r)))) \<le> max m (int (length (zget t k r)))"
  "length (zget t k' (snd (refreshOpenAIWSIngressLeaseScript t k ttl l r))) \<le> length (zget t k' r)"
proof -
  define r1 where "r1 = ZREMRANGEBYSCORE t k (redis_secs t - ttl) r"
  have purged: "length (zget t k' r1) \<le> length (zget t k' r)" for k' unfolding r1_def by simp
  note held = length_hold [of t _ k ttl l r1]
  show "k' \<noteq> k \<Longrightarrow> zget t k' (snd (acquireOpenAIWSIngressLeaseScript t k m ttl l r)) = zget t k' r"
    by (simp add: acquireOpenAIWSIngressLeaseScript_def Let_def redis_simps)
  show "int (length (zget t k (snd (acquireOpenAIWSIngressLeaseScript t k m ttl l r)))) \<le> max m (int (length (zget t k r)))"
    using purged [of k] held [of k]
    by (auto simp: acquireOpenAIWSIngressLeaseScript_def Let_def r1_def [symmetric] ZCARD_def)
  show "length (zget t k' (snd (refreshOpenAIWSIngressLeaseScript t k ttl l r))) \<le> length (zget t k' r)"
    using purged [of k'] held [of k']
    by (auto simp: refreshOpenAIWSIngressLeaseScript_def Let_def r1_def [symmetric])
qed

lemma ingress_count [redis_simps]:
  "count_get t k' (snd (acquireOpenAIWSIngressLeaseScript t k m ttl l r)) = count_get t k' r"
  "count_get t k' (snd (refreshOpenAIWSIngressLeaseScript t k ttl l r)) = count_get t k' r"
  "count_get t k' (snd (trackSlotScript t k ttl l r)) = count_get t k' r"
  by (simp_all add: acquireOpenAIWSIngressLeaseScript_def refreshOpenAIWSIngressLeaseScript_def trackSlotScript_def Let_def redis_simps)

lemma increment_reads [redis_simps]:
  "zget t k' (snd (incrementWaitScript t k m ttl r)) = zget t k' r"
  "zget t k' (snd (incrementAccountWaitScript t k m ttl r)) = zget t k' r"
  "k' \<noteq> k \<Longrightarrow> count_get t k' (snd (incrementWaitScript t k m ttl r)) = count_get t k' r"
  "k' \<noteq> k \<Longrightarrow> count_get t k' (snd (incrementAccountWaitScript t k m ttl r)) = count_get t k' r"
  by (simp_all add: incrementWaitScript_def incrementAccountWaitScript_def Let_def redis_simps)

lemma increment_count:
  assumes "counter_within b (count_get t k r)" and "m \<le> int b"
  shows "counter_within b (count_get t k (snd (incrementWaitScript t k m ttl r)))"
    and "counter_within b (count_get t k (snd (incrementAccountWaitScript t k m ttl r)))"
  using assms
  by (auto simp: incrementWaitScript_def incrementAccountWaitScript_def Let_def redis_simps counter_within_def split: option.splits)

lemma plain_within:
  assumes "plain T cmd" and w: "within_limits L t r"
  shows "within_limits L t (snd (redis_exec t cmd r))"
proof -
  let ?r = "snd (redis_exec t cmd r)"
  have le: "length (zget t k ?r) \<le> length (zget t k r)" if "\<not> index_key k" for k using plain_zget [OF assms(1) that] .
  have counters: "counter_within m (count_get t k r) \<Longrightarrow> counter_within m (count_get t k ?r)" for m k
    using plain_count [OF assms(1), of t k r] by (auto simp: counter_within_def)
  have keys: "\<not> index_key (accountSlotKey i)" "\<not> index_key (liveAccountSlotKey i)" "\<not> index_key (userSlotKey i)"
    "\<not> index_key (liveUserSlotKey i)" "\<not> index_key (openAIWSIngressLeaseKey i)" for i
    by (simp_all add: index_key_def)
  have "places t ?r (accountSlotKey a) (liveAccountSlotKey a) \<le> places t r (accountSlotKey a) (liveAccountSlotKey a)" for a
    unfolding places_def by (intro add_mono le keys)
  moreover have "places t ?r (userSlotKey u) (liveUserSlotKey u) \<le> places t r (userSlotKey u) (liveUserSlotKey u)" for u
    unfolding places_def by (intro add_mono le keys)
  ultimately show ?thesis
    using w counters le [OF keys(5)] unfolding within_limits_def by (meson of_nat_mono order_trans)
qed

lemma within_grows:
  assumes w: "within_limits L t r"
    and "\<And>a. int (places t r' (accountSlotKey a) (liveAccountSlotKey a)) \<le>
      max (int (lm_account L a) + spare_place L) (int (places t r (accountSlotKey a) (liveAccountSlotKey a)))"
    and "\<And>u. int (places t r' (userSlotKey u) (liveUserSlotKey u)) \<le>
      max (int (lm_user L u) + spare_place L) (int (places t r (userSlotKey u) (liveUserSlotKey u)))"
    and "\<And>k. int (length (zget t (openAIWSIngressLeaseKey k) r')) \<le>
      max (int (lm_ingress L k)) (int (length (zget t (openAIWSIngressLeaseKey k) r)))"
    and "\<And>u. counter_within (lm_userWait L u) (count_get t (waitQueueKey u) r) \<Longrightarrow>
      counter_within (lm_userWait L u) (count_get t (waitQueueKey u) r')"
    and "\<And>a. counter_within (lm_accountWait L a) (count_get t (accountWaitKey a) r) \<Longrightarrow>
      counter_within (lm_accountWait L a) (count_get t (accountWaitKey a) r')"
  shows "within_limits L t r'"
  unfolding within_limits_def
proof (intro conjI allI)
  note w' = w [unfolded within_limits_def]
  show "int (places t r' (accountSlotKey a) (liveAccountSlotKey a)) \<le> int (lm_account L a) + spare_place L" for a
    using assms(2) [of a] w' by (auto intro: order_trans)
  show "int (places t r' (userSlotKey u) (liveUserSlotKey u)) \<le> int (lm_user L u) + spare_place L" for u
    using assms(3) [of u] w' by (auto intro: order_trans)
  show "length (zget t (openAIWSIngressLeaseKey k) r') \<le> lm_ingress L k" for k
    using assms(4) [of k] w' by (auto simp: max_def split: if_splits intro: order_trans)
  show "counter_within (lm_userWait L u) (count_get t (waitQueueKey u) r')" for u using assms(5) w' by blast
  show "counter_within (lm_accountWait L a) (count_get t (accountWaitKey a) r')" for a using assms(6) w' by blast
qed

lemma spare_nonneg [simp]: "0 \<le> spare_place L"
  by (simp add: spare_place_def)

lemma acquire_slot_within:
  assumes w: "within_limits L t r"
  shows "m \<le> int (lm_account L i) \<Longrightarrow>
      within_limits L t (snd (acquireScript t (accountSlotKey i) (liveAccountSlotKey i) m ttl l r))"
    and "m \<le> int (lm_user L i) \<Longrightarrow> within_limits L t (snd (acquireScript t (userSlotKey i) (liveUserSlotKey i) m ttl l r))"
proof -
  have bound: "max m p \<le> max (b + spare_place L) p" if "m \<le> b" for m b p :: int using that spare_nonneg [of L] by linarith
  assume m: "m \<le> int (lm_account L i)"
  let ?r = "snd (acquireScript t (accountSlotKey i) (liveAccountSlotKey i) m ttl l r)"
  show "within_limits L t ?r"
  proof (rule within_grows [OF w])
    show "int (places t ?r (accountSlotKey a) (liveAccountSlotKey a)) \<le>
        max (int (lm_account L a) + spare_place L) (int (places t r (accountSlotKey a) (liveAccountSlotKey a)))" for a
    proof (cases "a = i")
      case True
      then show ?thesis
        using acquire_places [of "accountSlotKey i" "liveAccountSlotKey i" t m ttl l r] bound [OF m] by (auto intro: order_trans)
    qed (simp add: places_def acquire_zget)
  qed (simp_all add: places_def acquire_zget acquire_count)
next
  have bound: "max m p \<le> max (b + spare_place L) p" if "m \<le> b" for m b p :: int using that spare_nonneg [of L] by linarith
  assume m: "m \<le> int (lm_user L i)"
  let ?r = "snd (acquireScript t (userSlotKey i) (liveUserSlotKey i) m ttl l r)"
  show "within_limits L t ?r"
  proof (rule within_grows [OF w])
    show "int (places t ?r (userSlotKey a) (liveUserSlotKey a)) \<le>
        max (int (lm_user L a) + spare_place L) (int (places t r (userSlotKey a) (liveUserSlotKey a)))" for a
    proof (cases "a = i")
      case True
      then show ?thesis
        using acquire_places [of "userSlotKey i" "liveUserSlotKey i" t m ttl l r] bound [OF m] by (auto intro: order_trans)
    qed (simp add: places_def acquire_zget)
  qed (simp_all add: places_def acquire_zget acquire_count)
qed

lemma acquire_live_within:
  assumes w: "within_limits L t r" and m: "0 < am" "am \<le> int (lm_account L i)" "0 < um" "um \<le> int (lm_user L j)"
    and rp: "rp = 1 \<longrightarrow> lm_replacing L"
  shows "within_limits L t (snd (acquireLiveLeaseScript t (accountSlotKey i) (liveAccountSlotKey i) (userSlotKey j)
    (liveUserSlotKey j) (liveAPIKeySlotKey k) am um ttl l rp r))" (is "within_limits L t ?r")
proof (rule within_grows [OF w])
  have bound: "max (m + (if rp = 1 then 1 else 0)) p \<le> max (b + spare_place L) p" if "m \<le> b" for m b p :: int
    using that rp by (auto simp: spare_place_def)
  have distinct: "distinct [accountSlotKey i, liveAccountSlotKey i, userSlotKey j, liveUserSlotKey j, liveAPIKeySlotKey k]" by simp
  note grown = acquire_live_places [OF distinct m(1,3), of t ttl l rp r]
  show "int (places t ?r (accountSlotKey a) (liveAccountSlotKey a)) \<le>
      max (int (lm_account L a) + spare_place L) (int (places t r (accountSlotKey a) (liveAccountSlotKey a)))" for a
    using grown(1) bound [OF m(2)] by (cases "a = i") (auto simp: places_def acquire_live_zget intro: order_trans)
  show "int (places t ?r (userSlotKey u) (liveUserSlotKey u)) \<le>
      max (int (lm_user L u) + spare_place L) (int (places t r (userSlotKey u) (liveUserSlotKey u)))" for u
    using grown(2) bound [OF m(4)] by (cases "u = j") (auto simp: places_def acquire_live_zget intro: order_trans)
qed (simp_all add: places_def acquire_live_zget acquire_live_count)

lemma tx_zrem_zget: "length (zget t k' (fold (\<lambda>(k, m). ZREM t k m) kms r)) \<le> length (zget t k' r)"
proof (induction kms arbitrary: r)
  case (Cons km kms)
  have "length (zget t k' (ZREM t (fst km) (snd km) r)) \<le> length (zget t k' r)" by (simp add: redis_simps length_zrem)
  with Cons [of "ZREM t (fst km) (snd km) r"] show ?case by (simp add: case_prod_unfold)
qed simp

lemma tx_zrem_count [redis_simps]: "count_get t k' (fold (\<lambda>(k, m). ZREM t k m) kms r) = count_get t k' r"
  by (induction kms arbitrary: r) (auto simp: redis_simps)

lemma shrunk_within:
  assumes "within_limits L t r" and "\<And>k. length (zget t k r') \<le> length (zget t k r)"
    and "\<And>k. count_get t k r' = count_get t k r"
  shows "within_limits L t r'"
proof (rule within_grows [OF assms(1)])
  show "int (places t r' (accountSlotKey a) (liveAccountSlotKey a)) \<le>
      max (int (lm_account L a) + spare_place L) (int (places t r (accountSlotKey a) (liveAccountSlotKey a)))" for a
    using assms(2) [of "accountSlotKey a"] assms(2) [of "liveAccountSlotKey a"] by (auto simp: places_def)
  show "int (places t r' (userSlotKey a) (liveUserSlotKey a)) \<le>
      max (int (lm_user L a) + spare_place L) (int (places t r (userSlotKey a) (liveUserSlotKey a)))" for a
    using assms(2) [of "userSlotKey a"] assms(2) [of "liveUserSlotKey a"] by (auto simp: places_def)
  show "int (length (zget t (openAIWSIngressLeaseKey k) r')) \<le>
      max (int (lm_ingress L k)) (int (length (zget t (openAIWSIngressLeaseKey k) r)))" for k
    using assms(2) [of "openAIWSIngressLeaseKey k"] by auto
qed (simp_all add: assms(3))

lemma script_within:
  assumes "op_within L op" and "cmd \<in> set (op_scripts c op)" and w: "within_limits L t r"
  shows "within_limits L t (snd (redis_exec t cmd r))"
proof (cases op)
  case (OpTrackKey i l)
  with assms have "within_limits L t (snd (trackSlotScript t (apiKeySlotKey i) (cc_slotTTLSeconds c) l r))"
    by (intro within_grows [OF w]) (simp_all add: places_def track_zget redis_simps)
  with OpTrackKey assms show ?thesis by (simp add: case_prod_unfold)
next
  case (OpAcquireIngress i m l)
  let ?r = "snd (acquireOpenAIWSIngressLeaseScript t (openAIWSIngressLeaseKey i) m openAIWSIngressLeaseTTLSeconds l r)"
  have "within_limits L t ?r"
  proof (rule within_grows [OF w])
    show "int (length (zget t (openAIWSIngressLeaseKey k) ?r)) \<le>
        max (int (lm_ingress L k)) (int (length (zget t (openAIWSIngressLeaseKey k) r)))" for k
      using ingress_zget(2) [of t "openAIWSIngressLeaseKey i" m openAIWSIngressLeaseTTLSeconds l r] OpAcquireIngress assms(1)
      by (cases "k = i") (auto simp: ingress_zget(1))
  qed (simp_all add: places_def ingress_zget(1) redis_simps)
  with OpAcquireIngress assms show ?thesis by (simp add: case_prod_unfold)
next
  case (OpIncrementWait i m)
  let ?r = "snd (incrementWaitScript t (waitQueueKey i) m (cc_waitQueueTTLSeconds c) r)"
  have "within_limits L t ?r"
  proof (rule within_grows [OF w])
    show "counter_within (lm_userWait L u) (count_get t (waitQueueKey u) r) \<Longrightarrow>
        counter_within (lm_userWait L u) (count_get t (waitQueueKey u) ?r)" for u
      using increment_count(1) [of "lm_userWait L u" t "waitQueueKey u" r m "cc_waitQueueTTLSeconds c"] OpIncrementWait assms(1)
      by (cases "u = i") (auto simp: redis_simps)
  qed (simp_all add: places_def redis_simps)
  with OpIncrementWait assms show ?thesis by (simp add: case_prod_unfold)
next
  case (OpIncrementAccountWait i m)
  let ?r = "snd (incrementAccountWaitScript t (accountWaitKey i) m (cc_waitQueueTTLSeconds c) r)"
  have "within_limits L t ?r"
  proof (rule within_grows [OF w])
    show "counter_within (lm_accountWait L a) (count_get t (accountWaitKey a) r) \<Longrightarrow>
        counter_within (lm_accountWait L a) (count_get t (accountWaitKey a) ?r)" for a
      using increment_count(2) [of "lm_accountWait L a" t "accountWaitKey a" r m "cc_waitQueueTTLSeconds c"]
        OpIncrementAccountWait assms(1)
      by (cases "a = i") (auto simp: redis_simps)
  qed (simp_all add: places_def redis_simps)
  with OpIncrementAccountWait assms show ?thesis by (simp add: case_prod_unfold)
qed (use assms in \<open>auto simp: case_prod_unfold acquire_slot_within acquire_live_within redis_simps liveLeaseTTLSeconds_def
      refresh_live_zget ingress_zget(3) intro!: shrunk_within [OF w] intro: order_trans [OF length_zrem(1)]\<close>)

interpretation limits: kept_by_commands c "op_within L" "within_limits L" for c L
proof
  show "within_limits L 0 no_keys"
    by (auto simp: within_limits_def places_def redis_simps counter_within_def)
qed (auto intro: within_later plain_within script_within)

text \<open>Property C2. In every reachable state the places taken for an account or a user are at most its limit, plus one
  where leases that replace a slot are admitted; the ingress leases of a key and the wait counters are within their limits,
  and no counter is negative.\<close>
theorem limits_never_exceeded:
  assumes "cache_reachable c (op_within L) s"
  shows "within_limits L (cs_now s) (cs_keys s)"
  using assms by (rule limits.invariant)

text \<open>Two requests for an account with one slot: the second is refused and waits.\<close>

definition two_requests :: "cache_event list" where
  "two_requests =
     [Begin (OpAcquireAccount 7 1 ''p1-1''), Serve 0, Serve 0, Pass 2500, Begin (OpAcquireAccount 7 1 ''p2-1''), Serve 1,
      Begin (OpIncrementAccountWait 7 5), Serve 2]"

definition two_limits :: slot_limits where
  "two_limits = \<lparr>lm_account = (\<lambda>_. 1), lm_user = (\<lambda>_. 1), lm_ingress = (\<lambda>_. 1), lm_userWait = (\<lambda>_. 5),
     lm_accountWait = (\<lambda>_. 5), lm_replacing = False\<rparr>"

lemma limits_never_exceeded_witness:
  "\<exists>s. cache_run (NewConcurrencyCache 15 0) two_requests cache_start = Some s \<and>
     zmembers (zget (cs_now s) (accountSlotKey 7) (cs_keys s)) = [''p1-1''] \<and>
     count_get (cs_now s) (accountWaitKey 7) (cs_keys s) = Some 1 \<and>
     within_limits two_limits (cs_now s) (cs_keys s)"
proof -
  have "run_to (NewConcurrencyCache 15 0) two_requests
      (\<lambda>s. zmembers (zget (cs_now s) (accountSlotKey 7) (cs_keys s)) = [''p1-1''] \<and>
           count_get (cs_now s) (accountWaitKey 7) (cs_keys s) = Some 1)"
    by code_simp
  moreover have "list_all (begins_only (op_within two_limits)) two_requests"
    by (simp add: two_requests_def two_limits_def begins_only_def)
  ultimately show ?thesis
    by (rule run_to_reachable) (use limits_never_exceeded in blast)
qed

end
