(* ===== verification/Concurrency_Leases.thy ===== *)
theory Concurrency_Leases
  imports Concurrency_Limits
begin

section \<open>The three places of a live lease\<close>

text \<open>
  A live lease is entered under its account, its user and its key. Whatever the interleaving and the
  failures, the three never disagree: a lease that has not expired is held in all of them or in none. The
  deadlines of the keys take no part in it, since a key outlives its youngest member by the lease time.
\<close>

definition stored :: "string \<Rightarrow> redis_keys \<Rightarrow> zset" where
  "stored k r = (case fmlookup (rk_zsets r) k of None \<Rightarrow> [] | Some (z, d) \<Rightarrow> z)"

definition outlived :: "int \<Rightarrow> redis_keys \<Rightarrow> string \<Rightarrow> bool" where
  "outlived t r k =
     (case fmlookup (rk_zsets r) k of
        None \<Rightarrow> True
      | Some (z, d) \<Rightarrow>
          (case d of None \<Rightarrow> False
           | Some e \<Rightarrow> \<forall>x \<in> set z. snd x \<le> redis_secs t \<and> (snd x + liveLeaseTTLSeconds) * 1000 \<le> e))"

definition fresh_score :: "int \<Rightarrow> int \<Rightarrow> bool" where
  "fresh_score t s \<longleftrightarrow> redis_secs t - liveLeaseTTLSeconds < s"

type_synonym lease_owner = "string \<Rightarrow> int \<times> int \<times> int"

definition lease_places :: "lease_owner \<Rightarrow> string \<Rightarrow> string list" where
  "lease_places own l =
     (case own l of (a, u, k) \<Rightarrow> [liveAccountSlotKey a, liveUserSlotKey u, liveAPIKeySlotKey k])"

definition in_step :: "lease_owner \<Rightarrow> int \<Rightarrow> redis_keys \<Rightarrow> bool" where
  "in_step own t r \<longleftrightarrow>
     (\<forall>k. lease_key k \<longrightarrow> outlived t r k) \<and>
     (\<forall>l s k k'. fresh_score t s \<longrightarrow> k \<in> set (lease_places own l) \<longrightarrow> k' \<in> set (lease_places own l) \<longrightarrow>
        (l, s) \<in> set (stored k r) \<longrightarrow> (l, s) \<in> set (stored k' r))"

lemma secs_bounds: "redis_secs t * 1000 \<le> t" "t < (redis_secs t + 1) * 1000"
  by (simp_all add: redis_secs_def)

lemma secs_mono: "t \<le> t' \<Longrightarrow> redis_secs t \<le> redis_secs t'"
  by (simp add: redis_secs_def zdiv_mono1)

text \<open>A member that has not expired is visible.\<close>

lemma fresh_visible:
  assumes "outlived t r k" and "fresh_score t s"
  shows "(l, s) \<in> set (zget t k r) \<longleftrightarrow> (l, s) \<in> set (stored k r)"
proof (cases "fmlookup (rk_zsets r) k")
  case (Some zd)
  then obtain z d where look: "fmlookup (rk_zsets r) k = Some (z, d)" by (cases zd) auto
  with assms(1) obtain e where e: "d = Some e" "\<And>x. x \<in> set z \<Longrightarrow> (snd x + liveLeaseTTLSeconds) * 1000 \<le> e"
    by (auto simp: outlived_def split: option.splits)
  have "t < e" if "(l, s) \<in> set z"
    using assms(2) e(2) [OF that] secs_bounds [of t] by (simp add: fresh_score_def liveLeaseTTLSeconds_def)
  with look e(1) show ?thesis by (auto simp: stored_def zget_def before_deadline_def)
qed (simp add: stored_def zget_def)

lemma visible_stored: "x \<in> set (zget t k r) \<Longrightarrow> x \<in> set (stored k r)"
  by (auto simp: zget_def stored_def split: option.splits if_splits)

lemma lookup_zput: "fmlookup (rk_zsets (zput k z d r)) k' = (if k' = k then if z = [] then None else Some (z, d) else fmlookup (rk_zsets r) k')"
  by (simp add: zput_def)

lemma stored_zput [simp]: "stored k' (zput k z d r) = (if k' = k then z else stored k' r)"
  by (simp add: stored_def lookup_zput)

lemma outlived_later: "outlived t r k \<Longrightarrow> t \<le> t' \<Longrightarrow> outlived t' r k"
  using secs_mono [of t t'] by (fastforce simp: outlived_def split: option.splits)

lemma in_step_later: "in_step own t r \<Longrightarrow> t \<le> t' \<Longrightarrow> in_step own t' r"
  using secs_mono [of t t'] outlived_later [of t r] unfolding in_step_def fresh_score_def by (meson diff_right_mono order_le_less_trans)

text \<open>Members that stay, with the deadline that stays, keep outliving.\<close>

lemma outlived_kept:
  assumes "outlived t r k" and "\<And>x. x \<in> set z \<Longrightarrow> x \<in> set (zget t k r)"
  shows "outlived t (zput k z (zdeadline t k r) r) k"
proof (cases "z = []")
  case False
  then obtain x where "x \<in> set (zget t k r)" using assms(2) by (cases z) auto
  then obtain zs d where look: "fmlookup (rk_zsets r) k = Some (zs, d)" "before_deadline t d"
    by (cases "fmlookup (rk_zsets r) k") (auto simp: zget_def split: if_splits)
  with assms have "\<And>x. x \<in> set z \<Longrightarrow> x \<in> set zs" by (simp add: zget_def)
  with look assms(1) show ?thesis by (auto simp: outlived_def lookup_zput zdeadline_def split: option.splits)
qed (simp add: outlived_def lookup_zput)

lemma outlived_other: "k' \<noteq> k \<Longrightarrow> outlived t (zput k z d r) k' = outlived t r k'"
  by (simp add: outlived_def lookup_zput)

subsection \<open>What keeps the three places in step\<close>

lemma lease_places_keys: "k \<in> set (lease_places own l) \<Longrightarrow> lease_key k"
  by (auto simp: lease_places_def split: prod.splits)

lemma in_stepD:
  "in_step own t r \<Longrightarrow> fresh_score t s \<Longrightarrow> k \<in> set (lease_places own l) \<Longrightarrow> k' \<in> set (lease_places own l) \<Longrightarrow>
   (l, s) \<in> set (stored k r) \<Longrightarrow> (l, s) \<in> set (stored k' r)"
  unfolding in_step_def by blast

lemma in_step_outlived: "in_step own t r \<Longrightarrow> lease_key k \<Longrightarrow> outlived t r k"
  unfolding in_step_def by blast

lemma in_stepI:
  assumes "in_step own t r" and "\<And>k. lease_key k \<Longrightarrow> outlived t r' k"
    and "\<And>k l s. lease_key k \<Longrightarrow> fresh_score t s \<Longrightarrow> (l, s) \<in> set (stored k r') \<longleftrightarrow> (l, s) \<in> set (stored k r)"
  shows "in_step own t r'"
  using assms unfolding in_step_def by (meson lease_places_keys)

lemma in_step_same:
  assumes "in_step own t r" and same: "\<And>k. lease_key k \<Longrightarrow> fmlookup (rk_zsets r') k = fmlookup (rk_zsets r) k"
  shows "in_step own t r'"
  using assms(1) by (rule in_stepI) (use assms in \<open>simp_all add: in_step_def outlived_def stored_def\<close>)

lemma in_step_purge:
  assumes ok: "in_step own t r" and b: "lease_key k \<Longrightarrow> b \<le> redis_secs t - liveLeaseTTLSeconds"
  shows "in_step own t (ZREMRANGEBYSCORE t k b r)"
proof (rule in_stepI [OF ok])
  have out: "outlived t r k'" if "lease_key k'" for k' using ok that by (simp add: in_step_def)
  show "outlived t (ZREMRANGEBYSCORE t k b r) k'" if "lease_key k'" for k'
    using out [OF that] by (cases "k' = k") (auto simp: ZREMRANGEBYSCORE_def outlived_other intro: outlived_kept)
  show "(l, s) \<in> set (stored k' (ZREMRANGEBYSCORE t k b r)) \<longleftrightarrow> (l, s) \<in> set (stored k' r)"
    if "lease_key k'" "fresh_score t s" for k' l s
    using fresh_visible [OF out that(2), of k' l] that b by (auto simp: ZREMRANGEBYSCORE_def fresh_score_def)
qed

lemma hold_stored:
  assumes "lease_key k" "outlived t r k" "fresh_score t s"
  shows "(l', s) \<in> set (stored k' (hold_member t k liveLeaseTTLSeconds l r)) \<longleftrightarrow>
    (if k' = k \<and> l' = l then s = redis_secs t else (l', s) \<in> set (stored k' r))"
  using fresh_visible [OF assms(2,3), of l']
  by (auto simp: hold_member_def EXPIRE_def redis_simps) (auto simp: ZADD_def)

lemma hold_outlived:
  assumes "outlived t r k" "outlived t r k'"
  shows "outlived t (hold_member t k liveLeaseTTLSeconds l r) k'"
proof (cases "k' = k")
  case True
  have "snd x \<le> redis_secs t" if "x \<in> set (zget t k r)" for x
    using assms(1) that by (cases "fmlookup (rk_zsets r) k") (auto simp: outlived_def zget_def split: if_splits option.splits)
  then show ?thesis
    using True secs_bounds(1) [of t]
    by (fastforce simp: hold_member_def EXPIRE_def redis_simps outlived_def lookup_zput algebra_simps)
qed (use assms in \<open>simp add: hold_member_def EXPIRE_def ZADD_def outlived_other\<close>)

text \<open>Entering or removing a lease in a list of keys, one after the other.\<close>

definition alike :: "int \<Rightarrow> redis_keys \<Rightarrow> string list \<Rightarrow> string \<Rightarrow> (int \<Rightarrow> bool) \<Rightarrow> redis_keys \<Rightarrow> bool" where
  "alike t r ks l Q r' \<longleftrightarrow>
     (\<forall>k. lease_key k \<longrightarrow> outlived t r' k) \<and>
     (\<forall>l' s k'. fresh_score t s \<longrightarrow>
        ((l', s) \<in> set (stored k' r') \<longleftrightarrow> (if k' \<in> set ks \<and> l' = l then Q s else (l', s) \<in> set (stored k' r))))"

lemma hold_all:
  "\<forall>k. lease_key k \<longrightarrow> outlived t r k \<Longrightarrow> \<forall>k \<in> set ks. lease_key k \<Longrightarrow>
   alike t r ks l (\<lambda>s. s = redis_secs t) (fold (\<lambda>k. hold_member t k liveLeaseTTLSeconds l) ks r)"
proof (induction ks arbitrary: r)
  case (Cons k ks)
  let ?r = "hold_member t k liveLeaseTTLSeconds l r"
  have out: "\<forall>k'. lease_key k' \<longrightarrow> outlived t ?r k'" using Cons.prems by (auto intro: hold_outlived)
  have one: "(l', s) \<in> set (stored k' ?r) \<longleftrightarrow> (if k' = k \<and> l' = l then s = redis_secs t else (l', s) \<in> set (stored k' r))"
    if "fresh_score t s" for l' s k'
    using Cons.prems that by (intro hold_stored) auto
  from Cons.IH [OF out] Cons.prems one show ?case by (auto simp: alike_def)
qed (simp add: alike_def)

lemma drop_all:
  "\<forall>k. lease_key k \<longrightarrow> outlived t r k \<Longrightarrow> \<forall>k \<in> set ks. lease_key k \<Longrightarrow>
   alike t r ks l (\<lambda>s. False) (fold (\<lambda>k. ZREM t k l) ks r)"
proof (induction ks arbitrary: r)
  case (Cons k ks)
  have out: "\<forall>k'. lease_key k' \<longrightarrow> outlived t (ZREM t k l r) k'"
  proof (intro allI impI)
    fix k' assume "lease_key k'"
    with Cons.prems have "outlived t r k'" by blast
    then show "outlived t (ZREM t k l r) k'" by (cases "k' = k") (auto simp: ZREM_def outlived_other intro: outlived_kept)
  qed
  have one: "(l', s) \<in> set (stored k' (ZREM t k l r)) \<longleftrightarrow> \<not> (k' = k \<and> l' = l) \<and> (l', s) \<in> set (stored k' r)"
    if "fresh_score t s" for l' s k'
    using fresh_visible [of t r k s l'] Cons.prems that by (auto simp: ZREM_def)
  from Cons.IH [OF out] Cons.prems one show ?case by (auto simp: alike_def)
qed (simp add: alike_def)

lemma in_step_alike:
  assumes ok: "in_step own t r" and alike: "alike t r ks l Q r'" and ks: "set ks = set (lease_places own l)"
  shows "in_step own t r'"
  unfolding in_step_def
proof (intro conjI allI impI)
  show "outlived t r' k" if "lease_key k" for k using alike that by (simp add: alike_def)
  fix l' s k k'
  assume s: "fresh_score t s" and k: "k \<in> set (lease_places own l')" "k' \<in> set (lease_places own l')" "(l', s) \<in> set (stored k r')"
  have mem: "(l', s) \<in> set (stored k r') \<longleftrightarrow> (if k \<in> set ks \<and> l' = l then Q s else (l', s) \<in> set (stored k r))" for k
    using alike s by (simp add: alike_def)
  show "(l', s) \<in> set (stored k' r')"
  proof (cases "l' = l")
    case True
    then show ?thesis using k mem [of k] mem [of k'] ks by simp
  next
    case False
    with k mem have "(l', s) \<in> set (stored k r)" by metis
    with in_stepD [OF ok s k(1,2)] mem [of k'] False show ?thesis by metis
  qed
qed

lemma in_step_hold:
  assumes "in_step own t r" and "set ks = set (lease_places own l)"
  shows "in_step own t (fold (\<lambda>k. hold_member t k liveLeaseTTLSeconds l) ks r)"
  using assms lease_places_keys by (intro in_step_alike [OF assms(1) hold_all assms(2)]) (auto simp: in_step_def)

lemma in_step_drop:
  assumes "in_step own t r" and "set ks = set (lease_places own l)"
  shows "in_step own t (fold (\<lambda>k. ZREM t k l) ks r)"
  using assms lease_places_keys by (intro in_step_alike [OF assms(1) drop_all assms(2)]) (auto simp: in_step_def)

subsection \<open>Every command keeps them in step\<close>

lemma not_lease_write:
  "in_step own t r \<Longrightarrow> \<not> lease_key k \<Longrightarrow> in_step own t (zput k z d r)"
  "in_step own t r \<Longrightarrow> in_step own t (count_put k n e r)"
  "in_step own t r \<Longrightarrow> in_step own t (r\<lparr>rk_strings := x\<rparr>)"
  "in_step own t r \<Longrightarrow> \<not> lease_key k \<Longrightarrow> in_step own t (key_del k r)"
  by (erule in_step_same; auto simp: lookup_zput count_put_def key_del_def)+

lemma not_lease_commands:
  assumes "in_step own t r" and "\<not> lease_key k"
  shows "in_step own t (ZADD t k s m r)" "in_step own t (ZREM t k m r)" "in_step own t (EXPIRE t k ttl r)"
    "in_step own t (hold_member t k ttl m r)" "in_step own t (ZREMRANGEBYSCORE t k b r)" "in_step own t (fold (ZREM t k) ms r)"
    "in_step own t (fold (\<lambda>(m, s). ZADD t k s m) zs r)"
proof -
  show "in_step own t (ZADD t k s m r)" "in_step own t (ZREM t k m r)" "in_step own t (EXPIRE t k ttl r)"
    "in_step own t (hold_member t k ttl m r)" "in_step own t (ZREMRANGEBYSCORE t k b r)"
    by (simp_all add: hold_member_def ZADD_def ZREM_def EXPIRE_def ZREMRANGEBYSCORE_def not_lease_write assms)
  show "in_step own t (fold (ZREM t k) ms r)"
    using assms by (induction ms arbitrary: r) (auto simp: ZREM_def not_lease_write)
  show "in_step own t (fold (\<lambda>(m, s). ZADD t k s m) zs r)"
    using assms by (induction zs arbitrary: r) (auto simp: ZADD_def not_lease_write)
qed

lemma in_step_lease_purge:
  "in_step own t r \<Longrightarrow> b \<le> redis_secs t - 60 \<Longrightarrow> in_step own t (ZREMRANGEBYSCORE t k b r)"
  by (rule in_step_purge) (simp_all add: liveLeaseTTLSeconds_def)

lemma index_not_lease: "index_key k \<Longrightarrow> \<not> lease_key k"
  by (auto simp: index_key_def)

lemma not_lease_del: "in_step own t r \<Longrightarrow> \<forall>k \<in> set ks. \<not> lease_key k \<Longrightarrow> in_step own t (fold key_del ks r)"
  by (induction ks arbitrary: r) (auto simp: not_lease_write)

lemma not_lease_sweep:
  assumes ok: "in_step own t r" and p: "p = accountWaitKeyPrefix \<or> p = waitQueueKeyPrefix"
  shows "in_step own t (snd (redis_exec t (CmdSweep p) r))"
proof (rule in_step_same [OF ok])
  show "fmlookup (rk_zsets (snd (redis_exec t (CmdSweep p) r))) k = fmlookup (rk_zsets r) k" if "lease_key k" for k
    using p that by (auto simp: lease_key_def has_prefix_def prefix_def key_prefixes)
qed

lemma in_step_plain:
  assumes "plain (redis_secs t) cmd" and ok: "in_step own t r"
  shows "in_step own t (snd (redis_exec t cmd r))"
proof (cases cmd)
  case (CmdSweep p)
  with assms show ?thesis using not_lease_sweep [OF ok] by simp
qed (use assms in \<open>auto simp: script_defs Let_def liveLeaseTTLSeconds_def not_lease_commands not_lease_del not_lease_write in_step_lease_purge
    index_not_lease split: option.split\<close>)

text \<open>The operations whose leases belong to the places they name.\<close>

fun op_owned :: "lease_owner \<Rightarrow> cache_op \<Rightarrow> bool" where
  "op_owned own (OpAcquireLive a am u um k l rp) = (own l = (a, u, k))"
| "op_owned own (OpRefreshLive a u k l) = (own l = (a, u, k))"
| "op_owned own (OpReleaseLive a u k l) = (own l = (a, u, k))"
| "op_owned own op = True"

lemma in_step_acquire_live:
  assumes ok: "in_step own t r" and own: "own l = (a, u, k)"
  shows "in_step own t (snd (acquireLiveLeaseScript t (accountSlotKey a) (liveAccountSlotKey a) (userSlotKey u)
    (liveUserSlotKey u) (liveAPIKeySlotKey k) am um liveLeaseTTLSeconds l rp r))"
proof -
  let ?b = "redis_secs t - liveLeaseTTLSeconds"
  define r1 where "r1 = ZREMRANGEBYSCORE t (liveAPIKeySlotKey k) ?b
    (ZREMRANGEBYSCORE t (liveUserSlotKey u) ?b (ZREMRANGEBYSCORE t (liveAccountSlotKey a) ?b r))"
  have r1: "in_step own t r1" unfolding r1_def by (intro in_step_purge ok) simp_all
  from in_step_hold [OF r1, of "[liveAccountSlotKey a, liveUserSlotKey u, liveAPIKeySlotKey k]" l] own r1
  show ?thesis by (auto simp: acquireLiveLeaseScript_def Let_def r1_def [symmetric] lease_places_def)
qed

lemma in_step_all_hold:
  "in_step own t r \<Longrightarrow> in_step own t (snd (all_hold t liveLeaseTTLSeconds l ks r))"
  by (induction ks arbitrary: r) (auto simp: Let_def in_step_purge)

lemma in_step_refresh_live:
  assumes ok: "in_step own t r" and ks: "set ks = set (lease_places own l)"
  shows "in_step own t (snd (refreshLiveLeaseScript t ks liveLeaseTTLSeconds l r))"
  using in_step_all_hold [OF ok, of l ks] in_step_hold [OF in_step_all_hold [OF ok] ks]
  by (simp add: refreshLiveLeaseScript_def case_prod_unfold split: bool.split)

lemma in_step_script:
  assumes "op_owned own op" and "cmd \<in> set (op_scripts c op)" and ok: "in_step own t r"
  shows "in_step own t (snd (redis_exec t cmd r))"
proof (cases op)
  case (OpReleaseLive a u k l)
  with assms in_step_drop [OF ok, of "[liveAccountSlotKey a, liveUserSlotKey u, liveAPIKeySlotKey k]" l]
  show ?thesis by (simp add: lease_places_def)
next
  case (OpAcquireAccount i m l)
  with assms(2) ok show ?thesis
    by (auto simp: case_prod_unfold acquireScript_def Let_def liveLeaseTTLSeconds_def not_lease_commands in_step_lease_purge)
next
  case (OpAcquireUser i m l)
  with assms(2) ok show ?thesis
    by (auto simp: case_prod_unfold acquireScript_def Let_def liveLeaseTTLSeconds_def not_lease_commands in_step_lease_purge)
qed (use assms in \<open>auto simp: case_prod_unfold in_step_acquire_live in_step_refresh_live lease_places_def incrementWaitScript_def Let_def
      incrementAccountWaitScript_def acquireOpenAIWSIngressLeaseScript_def refreshOpenAIWSIngressLeaseScript_def
      trackSlotScript_def not_lease_commands not_lease_write in_step_lease_purge\<close>)

interpretation leases: kept_by_commands c "op_owned own" "in_step own" for c own
proof
  show "in_step own 0 no_keys" by (simp add: in_step_def outlived_def stored_def no_keys_def)
qed (auto intro: in_step_later in_step_plain in_step_script)

definition lease_alive :: "int \<Rightarrow> string \<Rightarrow> string \<Rightarrow> redis_keys \<Rightarrow> bool" where
  "lease_alive t k l r = (\<exists>x \<in> set (zget t k r). fst x = l \<and> redis_secs t - liveLeaseTTLSeconds < snd x)"

text \<open>Property C6. In every reachable state, a lease that has not expired is held under its account, its user and its key,
  or under none of them.\<close>
theorem leases_in_step:
  assumes "cache_reachable c (op_owned own) s" and "own l = (a, u, k)"
  shows "(lease_alive (cs_now s) (liveAccountSlotKey a) l (cs_keys s) \<longleftrightarrow>
      lease_alive (cs_now s) (liveUserSlotKey u) l (cs_keys s)) \<and>
    (lease_alive (cs_now s) (liveUserSlotKey u) l (cs_keys s) \<longleftrightarrow>
      lease_alive (cs_now s) (liveAPIKeySlotKey k) l (cs_keys s))"
proof -
  let ?r = "cs_keys s" and ?t = "cs_now s"
  have ok: "in_step own ?t ?r" using assms(1) by (rule leases.invariant)
  have alive: "lease_alive ?t k' l ?r" if k: "k \<in> set (lease_places own l)" "k' \<in> set (lease_places own l)"
      and held: "lease_alive ?t k l ?r" for k k'
  proof -
    from held obtain s where s: "(l, s) \<in> set (zget ?t k ?r)" "fresh_score ?t s"
      unfolding lease_alive_def fresh_score_def by auto
    have out: "outlived ?t ?r k" "outlived ?t ?r k'" using k in_step_outlived [OF ok] lease_places_keys by blast+
    have "(l, s) \<in> set (stored k ?r)" using s(1) fresh_visible [OF out(1) s(2)] by blast
    then have "(l, s) \<in> set (zget ?t k' ?r)" using in_stepD [OF ok s(2) k] fresh_visible [OF out(2) s(2)] by blast
    with s(2) show ?thesis unfolding lease_alive_def fresh_score_def by (auto intro!: bexI [of _ "(l, s)"])
  qed
  note alive = alive [unfolded lease_places_def assms(2), simplified]
  show ?thesis using alive by blast
qed

text \<open>A lease that is acquired and still alive after a minute less a second.\<close>

definition one_lease :: "cache_event list" where
  "one_lease = [Begin (OpAcquireLive 7 2 3 2 5 ''l'' False), Serve 0, Pass 59000]"

lemma leases_in_step_witness:
  "\<exists>s. cache_run (NewConcurrencyCache 15 0) one_lease cache_start = Some s \<and>
     lease_alive (cs_now s) (liveAccountSlotKey 7) ''l'' (cs_keys s) \<and>
     lease_alive (cs_now s) (liveAPIKeySlotKey 5) ''l'' (cs_keys s)"
proof -
  have "run_to (NewConcurrencyCache 15 0) one_lease (\<lambda>s. lease_alive (cs_now s) (liveAccountSlotKey 7) ''l'' (cs_keys s))"
    by code_simp
  moreover have "list_all (begins_only (op_owned (\<lambda>l. (7, 3, 5)))) one_lease"
    by (simp add: one_lease_def begins_only_def)
  ultimately show ?thesis
    by (rule run_to_reachable) (use leases_in_step [where own = "\<lambda>l. (7, 3, 5)" and l = "''l''"] in blast)
qed

end
