(* ===== verification/Concurrency_Index.thy ===== *)
theory Concurrency_Index
  imports Concurrency_Leases
begin

section \<open>The active indexes\<close>

text \<open>
  The background jobs do not search Redis for slot keys; they look at two indexes of the accounts and users
  with a load. As long as operations run one after the other and none fails, an identifier with slots or a
  positive wait counter is in its index, so that the cleaning at the start of a process finds everything
  a dead process left behind. A single operation is run by an interpreter that takes the time of each
  command and whether it fails from its arguments.
\<close>

subsection \<open>Running one operation\<close>

datatype outage = Fine | CommandLost | ReplyLost

primrec run_prog ::
    "(nat \<Rightarrow> int) \<Rightarrow> (nat \<Rightarrow> outage) \<Rightarrow> 'a redis_prog \<Rightarrow> nat \<Rightarrow> redis_keys \<Rightarrow> 'a \<times> nat \<times> redis_keys" where
  "run_prog clk net (Ret x) = (\<lambda>n r. (x, n, r))"
| "run_prog clk net (Send cmd k) = (\<lambda>n r. case net n of
     Fine \<Rightarrow> (case redis_exec (clk n) cmd r of (rep, r') \<Rightarrow> run_prog clk net (k rep) (Suc n) r')
   | CommandLost \<Rightarrow> run_prog clk net (k RepError) (Suc n) r
   | ReplyLost \<Rightarrow> run_prog clk net (k RepError) (Suc n) (snd (redis_exec (clk n) cmd r)))"

text \<open>What holds at the end of every undisturbed run, whatever times its commands are served at.\<close>

primrec settles :: "'a redis_prog \<Rightarrow> ('a \<Rightarrow> int \<Rightarrow> redis_keys \<Rightarrow> bool) \<Rightarrow> int \<Rightarrow> redis_keys \<Rightarrow> bool" where
  "settles (Ret x) Q = (\<lambda>t r. Q x t r)"
| "settles (Send cmd k) Q = (\<lambda>t r. \<forall>t' \<ge> t. settles (k (fst (redis_exec t' cmd r))) Q t' (snd (redis_exec t' cmd r)))"

lemma settles_run:
  assumes "settles p Q t r" and "mono clk" and "t \<le> clk n" and "\<And>m. net m = Fine"
    and "run_prog clk net p n r = (x, n', r')" and later: "\<And>x t t' r. t \<le> t' \<Longrightarrow> Q x t r \<Longrightarrow> Q x t' r"
  shows "Q x (clk n') r' \<and> n \<le> n'"
  using assms(1,3,5)
proof (induction p arbitrary: t n r)
  case (Ret y)
  then show ?case using later by auto
next
  case (Send cmd k)
  let ?rep = "fst (redis_exec (clk n) cmd r)" and ?r = "snd (redis_exec (clk n) cmd r)"
  have "clk n \<le> clk (Suc n)" using assms(2) by (simp add: mono_def)
  with Send.IH [of "k ?rep" "clk n" ?r "Suc n"] Send.prems assms(4) show ?case by (auto simp: case_prod_unfold)
qed

lemma settles_quiet: "settles (quiet p) (\<lambda>x. Q) t r = settles p (\<lambda>x. Q) t r"
  by (induction p arbitrary: t r) (auto simp: quiet_def)

lemma settles_weaken: "settles p Q t r \<Longrightarrow> (\<And>x t r. Q x t r \<Longrightarrow> Q' x t r) \<Longrightarrow> settles p Q' t r"
  by (induction p arbitrary: t r) auto

subsection \<open>Coverage\<close>

definition int64_id :: "int \<Rightarrow> bool" where
  "int64_id i \<longleftrightarrow> 0 < i \<and> i < 2 ^ 63"

definition loaded :: "slotIndexSpec \<Rightarrow> int \<Rightarrow> int \<Rightarrow> redis_keys \<Rightarrow> bool" where
  "loaded spec i t r \<longleftrightarrow>
     zget t (si_slotKey spec i) r \<noteq> [] \<or> (case count_get t (si_waitKey spec i) r of None \<Rightarrow> False | Some n \<Rightarrow> 0 < n)"

definition indexed :: "slotIndexSpec \<Rightarrow> int \<Rightarrow> redis_keys \<Rightarrow> bool" where
  "indexed spec i r \<longleftrightarrow> Itoa i \<in> fst ` set (stored (si_indexKey spec) r)"

definition persistent :: "redis_keys \<Rightarrow> bool" where
  "persistent r \<longleftrightarrow> (\<forall>k z d. index_key k \<longrightarrow> fmlookup (rk_zsets r) k = Some (z, d) \<longrightarrow> d = None)"

text \<open>Every load is in its index, but for the identifiers in \<open>X\<close>, each with the index it belongs to.\<close>

definition slot_spec :: "slotIndexSpec \<Rightarrow> bool" where
  "slot_spec spec \<longleftrightarrow> spec = accountSlotIndex \<or> spec = userSlotIndex"

definition covered :: "(string \<times> int) set \<Rightarrow> int \<Rightarrow> redis_keys \<Rightarrow> bool" where
  "covered X t r \<longleftrightarrow> persistent r \<and>
     (\<forall>spec i. slot_spec spec \<longrightarrow> int64_id i \<longrightarrow> (si_indexKey spec, i) \<notin> X \<longrightarrow> loaded spec i t r \<longrightarrow> indexed spec i r)"

definition adds_no_load :: "int \<Rightarrow> redis_keys \<Rightarrow> redis_keys \<Rightarrow> bool" where
  "adds_no_load t r r' \<longleftrightarrow>
     (\<forall>k. index_key k \<longrightarrow> fmlookup (rk_zsets r') k = fmlookup (rk_zsets r) k) \<and>
     (\<forall>spec i. slot_spec spec \<longrightarrow> loaded spec i t r' \<longrightarrow> loaded spec i t r)"

lemma specs [simp]:
  "si_indexKey accountSlotIndex = accountActiveIndexKey" "si_slotKey accountSlotIndex = accountSlotKey"
  "si_waitKey accountSlotIndex = accountWaitKey" "si_indexKey userSlotIndex = userActiveIndexKey"
  "si_slotKey userSlotIndex = userSlotKey" "si_waitKey userSlotIndex = waitQueueKey"
  by (simp_all add: accountSlotIndex_def userSlotIndex_def)

lemma index_key_iff [simp]:
  "\<not> index_key (accountSlotKey i)" "\<not> index_key (userSlotKey i)" "\<not> index_key (apiKeySlotKey i)"
  "\<not> index_key (liveAccountSlotKey i)" "\<not> index_key (liveUserSlotKey i)" "\<not> index_key (liveAPIKeySlotKey i)"
  "\<not> index_key (openAIWSIngressLeaseKey i)" "\<not> index_key (waitQueueKey i)" "\<not> index_key (accountWaitKey i)"
  by (simp_all add: index_key_def) (simp_all add: key_defs key_prefixes)

lemma loaded_later: "loaded spec i t' r \<Longrightarrow> t \<le> t' \<Longrightarrow> loaded spec i t r"
  using zget_later [of t t' "si_slotKey spec i" r] count_get_later [of t t' "si_waitKey spec i" r] by (auto simp: loaded_def)

lemma slot_spec_index: "slot_spec spec \<Longrightarrow> index_key (si_indexKey spec)"
  by (auto simp: slot_spec_def)

lemma slot_specs [simp]: "slot_spec accountSlotIndex" "slot_spec userSlotIndex"
  by (simp_all add: slot_spec_def)

lemma covered_later: "covered X t r \<Longrightarrow> t \<le> t' \<Longrightarrow> covered X t' r"
  unfolding covered_def by (meson loaded_later)

lemma covered_quiet:
  assumes "covered X t r" and "adds_no_load t r r'"
  shows "covered X t r'"
proof -
  have "indexed spec i r' = indexed spec i r" if "slot_spec spec" for spec i
    using assms(2) slot_spec_index [OF that] by (simp add: adds_no_load_def indexed_def stored_def)
  with assms show ?thesis unfolding covered_def adds_no_load_def persistent_def by metis
qed

lemma covered_more: "covered X t r \<Longrightarrow> X \<subseteq> X' \<Longrightarrow> covered X' t r"
  unfolding covered_def by blast

lemma spec_of_key: "slot_spec spec \<Longrightarrow> slot_spec spec' \<Longrightarrow> si_indexKey spec = si_indexKey spec' \<Longrightarrow> spec = spec'"
  by (auto simp: slot_spec_def)

lemma covered_done:
  assumes "covered (insert (si_indexKey spec, i) X) t r" and "slot_spec spec"
    and "int64_id i \<Longrightarrow> loaded spec i t r \<Longrightarrow> indexed spec i r"
  shows "covered X t r"
  using assms spec_of_key unfolding covered_def by (metis insert_iff prod.inject)

subsection \<open>Commands that add no load\<close>

fun calm :: "redis_command \<Rightarrow> bool" where
  "calm (RunCount k lk ttl) = (\<not> index_key k \<and> \<not> index_key lk)"
| "calm (RunAcquireLive ar al ur ul kl am um ttl l rp) = (lease_key al \<and> lease_key ul \<and> lease_key kl)"
| "calm (RunRefreshLive ks ttl l) = (\<forall>k \<in> set ks. lease_key k)"
| "calm (RunTrack k ttl l) = (\<exists>i. k = apiKeySlotKey i)"
| "calm (RunAcquireIngress k m ttl l) = (\<exists>i. k = openAIWSIngressLeaseKey i)"
| "calm (RunRefreshIngress k ttl l) = (\<exists>i. k = openAIWSIngressLeaseKey i)"
| "calm (RunDecrementWait k) = True"
| "calm (RunCleanupExpired k ttl) = (\<not> index_key k)"
| "calm (RunStartupCleanup k p ttl) = (\<not> index_key k)"
| "calm (CmdZRem k ms) = (\<not> index_key k)"
| "calm (CmdZRemTx kms) = (\<forall>km \<in> set kms. \<not> index_key (fst km))"
| "calm (CmdZRemRangeByScore k bound) = (\<not> index_key k)"
| "calm (CmdDel ks) = (\<forall>k \<in> set ks. \<not> index_key k)"
| "calm (CmdSweep p) = (p = accountWaitKeyPrefix \<or> p = waitQueueKeyPrefix)"
| "calm (CmdZAdd k zs) = False"
| "calm (RunAcquire k lk m ttl l) = False"
| "calm (RunIncrementWait k m ttl) = False"
| "calm (RunIncrementAccountWait k m ttl) = False"
| "calm cmd = True"

text \<open>One relation for everything a command may do: index keys stay, other sets only shrink, but for given keys.\<close>

definition shrinks :: "string set \<Rightarrow> int \<Rightarrow> redis_keys \<Rightarrow> redis_keys \<Rightarrow> bool" where
  "shrinks K t r r' \<longleftrightarrow>
     (\<forall>k. index_key k \<longrightarrow> fmlookup (rk_zsets r') k = fmlookup (rk_zsets r) k) \<and>
     (\<forall>k. \<not> index_key k \<longrightarrow> k \<notin> K \<longrightarrow> set (zget t k r') \<subseteq> set (zget t k r)) \<and>
     (\<forall>k n'. count_get t k r' = Some n' \<longrightarrow> 0 < n' \<longrightarrow> (\<exists>n. count_get t k r = Some n \<and> 0 < n))"

lemma shrinks_refl [simp]: "shrinks K t r r"
  by (simp add: shrinks_def)

lemma shrinks_trans: "shrinks K t r r1 \<Longrightarrow> shrinks K t r1 r2 \<Longrightarrow> shrinks K t r r2"
  unfolding shrinks_def by (intro conjI allI impI) (simp, blast, blast)

lemma shrinks_more: "shrinks K t r r' \<Longrightarrow> K \<subseteq> K' \<Longrightarrow> shrinks K' t r r'"
  unfolding shrinks_def by blast

lemma shrinks_zput:
  assumes "\<not> index_key k" and "k \<in> K \<or> set z \<subseteq> set (zget t k r)"
  shows "shrinks K t r (zput k z d r)"
  using assms by (auto simp: shrinks_def lookup_zput zget_zput redis_simps)

lemma shrinks_key_del: "\<not> index_key k \<Longrightarrow> shrinks K t r (key_del k r)"
  by (auto simp: shrinks_def redis_simps) (auto simp: key_del_def)

lemma shrinks_hold: "\<not> index_key k \<Longrightarrow> k \<in> K \<Longrightarrow> shrinks K t r (hold_member t k ttl m r)"
  unfolding hold_member_def ZADD_def EXPIRE_def by (rule shrinks_trans; rule shrinks_zput; simp)

lemma shrinks_commands:
  assumes "\<not> index_key k"
  shows "shrinks K t r (ZREMRANGEBYSCORE t k b r)" "shrinks K t r (ZREM t k m r)" "shrinks K t r (EXPIRE t k ttl r)"
  using assms by (auto simp: ZREMRANGEBYSCORE_def ZREM_def EXPIRE_def intro!: shrinks_zput)

lemma shrinks_fold: "(\<And>x r. x \<in> set xs \<Longrightarrow> shrinks K t r (f x r)) \<Longrightarrow> shrinks K t r (fold f xs r)"
proof (induction xs arbitrary: r)
  case (Cons x xs)
  then show ?case using shrinks_trans [of K t r "f x r"] by auto
qed simp

lemma shrinks_adds_no_load:
  assumes "shrinks K t r r'" and "\<forall>i. accountSlotKey i \<notin> K \<and> userSlotKey i \<notin> K"
  shows "adds_no_load t r r'"
proof -
  have "loaded spec i t r" if "slot_spec spec" "loaded spec i t r'" for spec i
  proof -
    have "\<not> index_key (si_slotKey spec i)" "si_slotKey spec i \<notin> K" using that(1) assms(2) by (auto simp: slot_spec_def)
    then have "set (zget t (si_slotKey spec i) r') \<subseteq> set (zget t (si_slotKey spec i) r)"
      using assms(1) unfolding shrinks_def by blast
    with that(2) assms(1) show ?thesis unfolding loaded_def shrinks_def by (force split: option.splits)
  qed
  with assms(1) show ?thesis by (simp add: shrinks_def adds_no_load_def)
qed

lemma lease_not_index: "lease_key k \<Longrightarrow> \<not> index_key k"
  using index_not_lease by blast

lemma lease_not_slot: "lease_key k \<Longrightarrow> k \<noteq> accountSlotKey i \<and> k \<noteq> userSlotKey i"
  by auto

lemma shrinks_all_hold:
  "\<forall>k \<in> set ks. lease_key k \<Longrightarrow> shrinks K t r (snd (all_hold t ttl l ks r))"
proof (induction ks arbitrary: r)
  case (Cons k ks)
  let ?r = "ZREMRANGEBYSCORE t k (redis_secs t - ttl) r"
  have "shrinks K t r ?r" using Cons.prems by (intro shrinks_commands lease_not_index) simp
  moreover have "shrinks K t r (snd (all_hold t ttl l ks ?r))"
    using shrinks_trans [OF \<open>shrinks K t r ?r\<close> Cons.IH] Cons.prems by simp
  ultimately show ?case by (simp add: Let_def)
qed simp

lemma shrinks_sweep:
  assumes "p = accountWaitKeyPrefix \<or> p = waitQueueKeyPrefix"
  shows "shrinks K t r (snd (redis_exec t (CmdSweep p) r))"
proof -
  have "\<not> has_prefix k p" if "index_key k" for k
    using assms that by (auto simp: index_key_def has_prefix_def key_prefixes)
  then show ?thesis by (auto simp: shrinks_def redis_simps) 
qed

lemma shrinks_decrement: "shrinks K t r (snd (decrementWaitScript t k r))"
  by (auto simp: shrinks_def decrementWaitScript_def redis_simps split: option.split) (auto simp: count_put_def)

lemma shrinks_strings: "shrinks K t r (r\<lparr>rk_strings := x\<rparr>)"
  by (simp add: shrinks_def redis_simps)

lemma shrinks_hold3:
  assumes "lease_key a" "lease_key b" "lease_key d"
  shows "shrinks {a, b, d} t r (hold_member t d ttl l (hold_member t b ttl l (hold_member t a ttl l r)))"
  by (rule shrinks_trans [OF shrinks_trans]; rule shrinks_hold; simp add: lease_not_index assms)

lemma shrinks_purge3:
  assumes "lease_key a" "lease_key b" "lease_key d"
  shows "shrinks K t r (ZREMRANGEBYSCORE t d x (ZREMRANGEBYSCORE t b x (ZREMRANGEBYSCORE t a x r)))"
  by (rule shrinks_trans [OF shrinks_trans]; rule shrinks_commands; simp add: lease_not_index assms)

lemma shrinks_acquire_live:
  assumes "lease_key al" "lease_key ul" "lease_key kl"
  shows "shrinks {al, ul, kl} t r (snd (acquireLiveLeaseScript t ar al ur ul kl am um ttl l rp r))"
  using shrinks_purge3 [OF assms] shrinks_trans [OF shrinks_purge3 [OF assms] shrinks_hold3 [OF assms]]
  by (auto simp: acquireLiveLeaseScript_def Let_def)

lemma shrinks_refresh_live:
  assumes "\<forall>k \<in> set ks. lease_key k"
  shows "shrinks (set ks) t r (snd (refreshLiveLeaseScript t ks ttl l r))"
proof -
  have "shrinks (set ks) t r1 (fold (\<lambda>k. hold_member t k ttl l) ks r1)" for r1
    using assms by (intro shrinks_fold shrinks_hold) (auto simp: lease_not_index)
  with shrinks_all_hold [OF assms, of "set ks" t r ttl l] shrinks_trans
  show ?thesis by (auto simp: refreshLiveLeaseScript_def case_prod_unfold split: bool.split)
qed

lemma shrinks_one:
  assumes "\<not> index_key k"
  shows "shrinks {k} t r (snd (trackSlotScript t k ttl l r))"
    "shrinks {k} t r (snd (acquireOpenAIWSIngressLeaseScript t k m ttl l r))"
    "shrinks {k} t r (snd (refreshOpenAIWSIngressLeaseScript t k ttl l r))"
    "shrinks K t r (snd (cleanupExpiredSlotsScript t k ttl r))"
    "shrinks K t r (snd (startupCleanupSlotScript t k p ttl r))"
    "\<not> index_key lk \<Longrightarrow> shrinks K t r (snd (getCountScript t k lk ttl r))"
proof -
  note purge = shrinks_commands(1) [OF assms]
  note hold = shrinks_trans [OF purge shrinks_hold [OF assms, of "{k}"]]
  show "shrinks {k} t r (snd (trackSlotScript t k ttl l r))"
    "shrinks {k} t r (snd (acquireOpenAIWSIngressLeaseScript t k m ttl l r))"
    "shrinks {k} t r (snd (refreshOpenAIWSIngressLeaseScript t k ttl l r))"
    using purge hold
    by (auto simp: trackSlotScript_def acquireOpenAIWSIngressLeaseScript_def refreshOpenAIWSIngressLeaseScript_def Let_def)
  show "shrinks K t r (snd (cleanupExpiredSlotsScript t k ttl r))"
    using shrinks_trans [OF purge shrinks_key_del [OF assms]] shrinks_trans [OF purge shrinks_commands(3) [OF assms]]
    by (auto simp: cleanupExpiredSlotsScript_def Let_def)
  have dropped: "shrinks K t r (fold (ZREM t k) ms r)" for ms by (intro shrinks_fold shrinks_commands assms)
  show "shrinks K t r (snd (startupCleanupSlotScript t k p ttl r))"
    using shrinks_trans [OF dropped shrinks_key_del [OF assms]] shrinks_trans [OF dropped shrinks_commands(3) [OF assms]]
    by (auto simp: startupCleanupSlotScript_def Let_def)
  show "\<not> index_key lk \<Longrightarrow> shrinks K t r (snd (getCountScript t k lk ttl r))"
    using shrinks_trans [OF purge shrinks_commands(1)] by (simp add: getCountScript_def Let_def)
qed

lemma calm_adds_no_load:
  assumes "calm cmd"
  shows "adds_no_load t r (snd (redis_exec t cmd r))"
proof -
  have "\<exists>K. shrinks K t r (snd (redis_exec t cmd r)) \<and> (\<forall>i. accountSlotKey i \<notin> K \<and> userSlotKey i \<notin> K)"
  proof (cases cmd)
    case (RunAcquireLive ar al ur ul kl am um ttl l rp)
    with assms shrinks_acquire_live [of al ul kl t r] show ?thesis
      by (intro exI [of _ "{al, ul, kl}"]) (auto simp: case_prod_unfold dest: lease_not_slot)
  next
    case (RunRefreshLive ks ttl l)
    with assms shrinks_refresh_live [of ks t r] show ?thesis
      by (intro exI [of _ "set ks"]) (auto simp: case_prod_unfold dest: lease_not_slot)
  next
    case (RunTrack k ttl l)
    with assms shrinks_one(1) [of k t r] show ?thesis by (intro exI [of _ "{k}"]) (auto simp: case_prod_unfold)
  next
    case (RunAcquireIngress k m ttl l)
    with assms shrinks_one(2) [of k t r] show ?thesis by (intro exI [of _ "{k}"]) (auto simp: case_prod_unfold)
  next
    case (RunRefreshIngress k ttl l)
    with assms shrinks_one(3) [of k t r] show ?thesis by (intro exI [of _ "{k}"]) (auto simp: case_prod_unfold)
  next
    case (CmdSweep p)
    with assms shrinks_sweep [of p "{}" t r] show ?thesis by (intro exI [of _ "{}"]) simp
  next
    case (CmdZRemTx kms)
    with assms show ?thesis
      by (intro exI [of _ "{}"]) (auto simp: case_prod_unfold intro!: shrinks_fold shrinks_commands)
  qed (use assms in \<open>auto intro!: exI [of _ "{}"] shrinks_one shrinks_decrement shrinks_strings shrinks_fold shrinks_commands
      shrinks_key_del simp: case_prod_unfold split: option.split\<close>)
  then show ?thesis using shrinks_adds_no_load by blast
qed

subsection \<open>Coverage at the end of an operation\<close>

lemma settles_calm:
  assumes "calm cmd" and "covered X t r" and "\<And>rep t' r'. t \<le> t' \<Longrightarrow> covered X t' r' \<Longrightarrow> settles (k rep) Q t' r'"
  shows "settles (Send cmd k) Q t r"
  using assms by (auto intro!: covered_quiet [OF covered_later] calm_adds_no_load)

lemma settles_calm_prog: "issues (\<lambda>T. calm) p T \<Longrightarrow> covered X t r \<Longrightarrow> settles p (\<lambda>x. covered X) t r"
proof (induction p arbitrary: T t r)
  case (Send cmd k)
  have "\<exists>T. issues (\<lambda>T. calm) (k rep) T" for rep
  proof (cases "cmd = CmdTime")
    case True
    have "\<exists>T' \<ge> T. \<forall>n. rep = RepInt n \<longrightarrow> n \<le> T'" by (cases rep) (auto intro: max.cobounded1 max.cobounded2)
    with True Send.prems(1) show ?thesis by auto
  qed (use Send.prems(1) in auto)
  then have next_ok: "settles (k rep) (\<lambda>x. covered X) t' r'" if "covered X t' r'" for rep t' r'
    using Send.IH [OF rangeI] that by blast
  from Send.prems show ?case by (intro settles_calm [of cmd X] next_ok) simp_all
qed simp

lemma index_stored:
  assumes "persistent r" and "index_key k"
  shows "zget t k r = stored k r" and "zdeadline t k r = None"
  using assms by (auto simp: persistent_def zget_def stored_def zdeadline_def before_deadline_def split: option.splits)

lemma index_put:
  assumes "covered X t r" and spec: "slot_spec spec"
    and z: "\<And>i. int64_id i \<Longrightarrow> (si_indexKey spec, i) \<notin> X' \<Longrightarrow> loaded spec i t r \<Longrightarrow> Itoa i \<in> fst ` set z"
    and X': "\<And>k i. k \<noteq> si_indexKey spec \<Longrightarrow> (k, i) \<notin> X' \<Longrightarrow> (k, i) \<notin> X"
  shows "covered X' t (zput (si_indexKey spec) z None r)"
proof -
  let ?r = "zput (si_indexKey spec) z None r"
  have keys: "si_slotKey s i \<noteq> si_indexKey spec" if "slot_spec s" for s i using that spec by (auto simp: slot_spec_def)
  have loaded: "loaded s i t ?r = loaded s i t r" if "slot_spec s" for s i
    using keys [OF that] by (simp add: loaded_def zget_zput redis_simps)
  have "indexed s i ?r" if "slot_spec s" "int64_id i" "(si_indexKey s, i) \<notin> X'" "loaded s i t r" for s i
  proof (cases "s = spec")
    case True
    with z that show ?thesis by (simp add: indexed_def)
  next
    case False
    then have "si_indexKey s \<noteq> si_indexKey spec" using spec_of_key that(1) spec by blast
    with X' that assms(1) show ?thesis by (simp add: indexed_def covered_def)
  qed
  moreover have "persistent ?r" using assms(1) by (auto simp: persistent_def covered_def lookup_zput)
  ultimately show ?thesis using loaded by (simp add: covered_def)
qed

lemma index_zadd:
  assumes "covered (insert (si_indexKey spec, i) X) t r" and "slot_spec spec"
  shows "covered X t (ZADD t (si_indexKey spec) s (Itoa i) r)"
proof -
  have "persistent r" using assms(1) by (simp add: covered_def)
  note stored = index_stored [OF this slot_spec_index [OF assms(2)]]
  have "Itoa j \<in> fst ` set (stored (si_indexKey spec) r)"
    if "int64_id j" "(si_indexKey spec, j) \<notin> X" "loaded spec j t r" "j \<noteq> i" for j
    using assms that by (simp add: covered_def indexed_def)
  then have "covered X t (zput (si_indexKey spec) (zadd (Itoa i) s (stored (si_indexKey spec) r)) None r)"
    by (intro index_put [OF assms(1,2)]) (force simp: image_iff)+
  then show ?thesis by (simp add: ZADD_def stored)
qed

lemma index_zrem:
  assumes "covered X t r" and "slot_spec spec" and "\<And>i. int64_id i \<Longrightarrow> Itoa i = m \<Longrightarrow> \<not> loaded spec i t r"
  shows "covered X t (ZREM t (si_indexKey spec) m r)"
proof -
  have "persistent r" using assms(1) by (simp add: covered_def)
  note stored = index_stored [OF this slot_spec_index [OF assms(2)]]
  have "Itoa j \<in> fst ` set (stored (si_indexKey spec) r)"
    if "int64_id j" "(si_indexKey spec, j) \<notin> X" "loaded spec j t r" for j
    using assms(1,2) that by (simp add: covered_def indexed_def)
  then have "covered X t (zput (si_indexKey spec) (zrem m (stored (si_indexKey spec) r)) None r)"
    using assms(3) by (intro index_put [OF assms(1,2)]) (force simp: image_iff)+
  then show ?thesis by (simp add: ZREM_def stored)
qed

definition cache_ok :: "concurrencyCache \<Rightarrow> bool" where
  "cache_ok c \<longleftrightarrow> 0 < cc_slotTTLSeconds c \<and> 0 < cc_waitQueueTTLSeconds c"

lemma new_cache_ok: "cache_ok (NewConcurrencyCache m w)"
  by (auto simp: cache_ok_def NewConcurrencyCache_def Let_def defaultSlotTTLMinutes_def)

lemma secs_nonneg: "0 \<le> t \<Longrightarrow> 0 \<le> redis_secs t"
  by (simp add: redis_secs_def)

lemma settles_touch:
  assumes cov: "covered (insert (si_indexKey spec, i) X) t r" and spec: "slot_spec spec" and e: "0 < e"
    and p: "\<And>t' r'. t \<le> t' \<Longrightarrow> covered X t' r' \<Longrightarrow> settles p Q t' r'"
  shows "settles (touchActiveIndexAt (si_indexKey spec) i e p) Q t r"
proof (cases "i \<le> 0")
  case True
  then have "\<not> int64_id i" by (simp add: int64_id_def)
  then have "covered X t r" using covered_done [OF cov spec] by blast
  with True p show ?thesis by (simp add: touchActiveIndexAt_def)
next
  case False
  have "covered X t' (ZADD t' (si_indexKey spec) e (Itoa i) r)" if "t \<le> t'" for t'
    using index_zadd [OF covered_later [OF cov that] spec] .
  with False e p show ?thesis by (simp add: touchActiveIndexAt_def best_effort_def)
qed

lemma settles_Send:
  "(\<And>t'. t \<le> t' \<Longrightarrow> settles (k (fst (redis_exec t' cmd r))) Q t' (snd (redis_exec t' cmd r))) \<Longrightarrow> settles (Send cmd k) Q t r"
  by simp

text \<open>A load that is read as zero is none, from then on.\<close>

lemma settles_read:
  assumes spec: "slot_spec spec" and cov: "covered X t r"
    and k: "\<And>t' r' slots waits. t \<le> t' \<Longrightarrow> covered X t' r' \<Longrightarrow> 0 \<le> slots \<Longrightarrow> 0 \<le> waits \<Longrightarrow>
      (slots = 0 \<and> waits \<le> 0 \<longrightarrow> \<not> loaded spec i t' r') \<Longrightarrow> settles (k (Some (slots, waits))) Q t' r'"
  shows "settles (readActiveLoadForKey c (si_slotKey spec i) (si_waitKey spec i) now k) Q t r"
  unfolding readActiveLoadForKey_def pipeline.simps
proof (intro settles_Send)
  fix t1 t2 t3 assume le: "t \<le> t1" "t1 \<le> t2" "t2 \<le> t3"
  let ?slot = "si_slotKey spec i" and ?wait = "si_waitKey spec i"
  let ?purge = "CmdZRemRangeByScore ?slot (now - cc_slotTTLSeconds c)"
  let ?r = "snd (redis_exec t1 ?purge r)" and ?rep = "fst (redis_exec t3 (CmdGet ?wait) (snd (redis_exec t1 ?purge r)))"
  have "calm ?purge" using spec by (auto simp: slot_spec_def)
  then have "covered X t3 ?r"
    using covered_later [OF covered_quiet [OF covered_later [OF cov le(1)] calm_adds_no_load]] le by (meson order_trans)
  moreover have "\<not> loaded spec i t3 ?r" if "ZCARD t2 ?slot ?r = 0" "max 0 (reply_val ?rep) \<le> 0"
    using that zget_later [OF le(3), of ?slot ?r]
    by (auto simp: loaded_def ZCARD_def reply_val_def split: option.splits)
  ultimately have "settles (k (Some (ZCARD t2 ?slot ?r, max 0 (reply_val ?rep)))) Q t3 ?r"
    using le by (intro k) (auto simp: ZCARD_def)
  moreover have "?rep \<noteq> RepError" by (simp split: option.split)
  ultimately show "settles
      ((\<lambda>reps. if pipe_failed reps then k None else k (Some (reply_val (reps ! 1), max 0 (reply_val (reps ! 2)))))
        (rev [fst (redis_exec t3 (CmdGet ?wait) (snd (redis_exec t2 (CmdZCard ?slot) ?r))), fst (redis_exec t2 (CmdZCard ?slot) ?r),
              fst (redis_exec t1 ?purge r)]))
      Q t3 (snd (redis_exec t3 (CmdGet ?wait) (snd (redis_exec t2 (CmdZCard ?slot) ?r))))"
    by (simp add: pipe_failed_def reply_val_def split: option.splits)
qed

text \<open>After the refresh of an index entry the identifier counts again.\<close>

lemma settles_refresh:
  assumes c: "cache_ok c" and spec: "slot_spec spec" and t: "0 \<le> t" and cov: "covered (insert (si_indexKey spec, i) X) t r"
    and p: "\<And>t' r'. t \<le> t' \<Longrightarrow> covered X t' r' \<Longrightarrow> settles p Q t' r'"
  shows "settles (refreshActiveIndex c (si_indexKey spec) i (si_slotKey spec i) (si_waitKey spec i) p) Q t r"
proof (cases "i \<le> 0")
  case True
  then have "\<not> int64_id i" by (simp add: int64_id_def)
  then have "covered X t r" using covered_done [OF cov spec] by blast
  with True p show ?thesis by (simp add: refreshActiveIndex_def)
next
  case False
  let ?X = "insert (si_indexKey spec, i) X"
  have dropped: "covered X t' (ZREM t' (si_indexKey spec) (Itoa i) r')"
    if "covered ?X t' r'" "\<not> loaded spec i t' r'" for t' r'
  proof -
    have "covered ?X t' (ZREM t' (si_indexKey spec) (Itoa i) r')" using that spec by (intro index_zrem) auto
    moreover have "\<not> loaded spec i t' (ZREM t' (si_indexKey spec) (Itoa i) r')"
      using that(2) spec by (auto simp: loaded_def redis_simps slot_spec_def)
    ultimately show ?thesis using covered_done [OF _ spec] by blast
  qed
  let ?k = "\<lambda>now load. case load of None \<Rightarrow> p
    | Some (slots, waits) \<Rightarrow> if slots = 0 \<and> waits \<le> 0 then best_effort (CmdZRem (si_indexKey spec) [Itoa i]) p
        else if activeIndexTTL c slots waits \<le> 0 then p
        else touchActiveIndexAt (si_indexKey spec) i (now + activeIndexTTL c slots waits) p"
  have read: "settles (?k now (Some (slots, waits))) Q t' r'"
    if "t \<le> t'" "covered ?X t' r'" "0 \<le> now" "0 \<le> slots" "0 \<le> waits" "slots = 0 \<and> waits \<le> 0 \<longrightarrow> \<not> loaded spec i t' r'"
    for now slots waits t' r'
  proof (cases "slots = 0 \<and> waits \<le> 0")
    case True
    with that have "\<not> loaded spec i t'' r'" if "t' \<le> t''" for t'' using loaded_later that by blast
    with True that(1,2) show ?thesis
      by (auto simp: best_effort_def intro!: p dropped covered_later [OF that(2)])
  next
    case False
    then have "0 < activeIndexTTL c slots waits" using that c by (auto simp: activeIndexTTL_def cache_ok_def Let_def)
    with False that show ?thesis by (auto intro!: settles_touch [OF _ spec] p)
  qed
  have "settles (readActiveLoadForKey c (si_slotKey spec i) (si_waitKey spec i) (redis_secs t0) (?k (redis_secs t0))) Q t0 r"
    if "t \<le> t0" for t0
    using that t secs_nonneg [of t0] by (intro settles_read [OF spec covered_later [OF cov that]] read) auto
  with False show ?thesis unfolding refreshActiveIndex_def by (auto intro!: settles_Send)
qed

lemma covered_insert: "covered X t r \<Longrightarrow> covered (insert x X) t r"
  by (auto intro: covered_more)

text \<open>A script that takes a place for one identifier, and the entry in the index that follows.\<close>

lemma adds_one_load:
  assumes cov: "covered X t r" and spec: "slot_spec spec"
    and same: "\<And>k. index_key k \<Longrightarrow> fmlookup (rk_zsets r') k = fmlookup (rk_zsets r) k"
    and loads: "\<And>s j. slot_spec s \<Longrightarrow> s \<noteq> spec \<or> j \<noteq> i \<Longrightarrow> loaded s j t r' \<Longrightarrow> loaded s j t r"
  shows "covered (insert (si_indexKey spec, i) X) t r'"
proof -
  have "indexed s j r' = indexed s j r" if "slot_spec s" for s j
    using same slot_spec_index [OF that] by (simp add: indexed_def stored_def)
  with cov loads spec_of_key [OF _ spec] same show ?thesis
    unfolding covered_def persistent_def by (metis insertCI)
qed

lemma settles_taken:
  assumes spec: "slot_spec spec" and cov: "covered {} t r" and c: "0 < ttl" and t: "0 \<le> t"
    and script: "\<And>t'. t \<le> t' \<Longrightarrow> \<exists>a. fst (redis_exec t' cmd r) = RepPair a (redis_secs t') \<and>
      covered (if a = 1 then {(si_indexKey spec, i)} else {}) t' (snd (redis_exec t' cmd r))"
  shows "settles (runScriptInt64Pair [] cmd (\<lambda>result now.
      if result = 1 then touchActiveIndexAt (si_indexKey spec) i (now + ttl) (Ret (Inr True)) else Ret (Inr False)))
    (\<lambda>x. covered {}) t r"
  unfolding runScriptInt64Pair_def
proof (rule settles_Send)
  fix t' assume le: "t \<le> t'"
  from script [OF this] obtain a where a: "fst (redis_exec t' cmd r) = RepPair a (redis_secs t')"
    "covered (if a = 1 then {(si_indexKey spec, i)} else {}) t' (snd (redis_exec t' cmd r))" by blast
  have "0 < redis_secs t' + ttl" using c t le secs_nonneg [of t'] by simp
  with a spec show "settles
      (case fst (redis_exec t' cmd r) of RepPair result now \<Rightarrow>
          if result = 1 then touchActiveIndexAt (si_indexKey spec) i (now + ttl) (Ret (Inr True)) else Ret (Inr False)
        | _ \<Rightarrow> Ret (Inl []))
      (\<lambda>x. covered {}) t' (snd (redis_exec t' cmd r))"
    by (auto intro!: settles_touch)
qed

lemma acquire_covered:
  assumes spec: "slot_spec spec" and cov: "covered {} t r" and lk: "lease_key lk"
  shows "covered (if fst (fst (acquireScript t (si_slotKey spec i) lk m ttl l r)) = 1 then {(si_indexKey spec, i)} else {}) t
    (snd (acquireScript t (si_slotKey spec i) lk m ttl l r))"
proof -
  let ?k = "si_slotKey spec i"
  have k: "\<not> index_key ?k" and ne: "?k \<noteq> lk" using spec lk by (auto simp: slot_spec_def)
  define r1 where "r1 = ZREMRANGEBYSCORE t lk (redis_secs t - 60) (ZREMRANGEBYSCORE t ?k (redis_secs t - ttl) r)"
  have r1: "shrinks {} t r r1" unfolding r1_def
    by (rule shrinks_trans; rule shrinks_commands; simp add: k lease_not_index lk)
  have cov1: "covered {} t r1" using covered_quiet [OF cov shrinks_adds_no_load [OF r1]] by simp
  have held: "shrinks {?k} t r1 (hold_member t ?k ttl l r1)" using k by (intro shrinks_hold) auto
  have "covered (insert (si_indexKey spec, i) {}) t (hold_member t ?k ttl l r1)"
  proof (rule adds_one_load [OF cov1 spec])
    show "fmlookup (rk_zsets (hold_member t ?k ttl l r1)) k = fmlookup (rk_zsets r1) k" if "index_key k" for k
      using held that by (simp add: shrinks_def)
    show "loaded s j t r1" if "slot_spec s" "s \<noteq> spec \<or> j \<noteq> i" "loaded s j t (hold_member t ?k ttl l r1)" for s j
    proof -
      have "si_slotKey s j \<noteq> ?k" using that(1,2) spec by (auto simp: slot_spec_def)
      with that(3) show ?thesis by (simp add: loaded_def redis_simps)
    qed
  qed
  with cov1 show ?thesis by (auto simp: acquireScript_def Let_def r1_def [symmetric])
qed

lemma increment_covered:
  assumes spec: "slot_spec spec" and cov: "covered {} t r"
  shows "covered (if fst (fst (incrementWaitScript t (si_waitKey spec i) m ttl r)) = 1 then {(si_indexKey spec, i)} else {}) t
      (snd (incrementWaitScript t (si_waitKey spec i) m ttl r))"
    and "covered (if fst (fst (incrementAccountWaitScript t (si_waitKey spec i) m ttl r)) = 1 then {(si_indexKey spec, i)} else {}) t
      (snd (incrementAccountWaitScript t (si_waitKey spec i) m ttl r))"
proof -
  have "covered {(si_indexKey spec, i)} t (count_put (si_waitKey spec i) n d r)" for n d
  proof (rule adds_one_load [OF cov spec])
    show "loaded s j t r" if "slot_spec s" "s \<noteq> spec \<or> j \<noteq> i" "loaded s j t (count_put (si_waitKey spec i) n d r)" for s j
    proof -
      have "si_waitKey s j \<noteq> si_waitKey spec i" using that(1,2) spec by (auto simp: slot_spec_def)
      with that(3) show ?thesis by (simp add: loaded_def redis_simps)
    qed
  qed (simp add: count_put_def)
  with cov show "covered (if fst (fst (incrementWaitScript t (si_waitKey spec i) m ttl r)) = 1 then {(si_indexKey spec, i)} else {}) t
      (snd (incrementWaitScript t (si_waitKey spec i) m ttl r))"
    "covered (if fst (fst (incrementAccountWaitScript t (si_waitKey spec i) m ttl r)) = 1 then {(si_indexKey spec, i)} else {}) t
      (snd (incrementAccountWaitScript t (si_waitKey spec i) m ttl r))"
    by (auto simp: incrementWaitScript_def incrementAccountWaitScript_def Let_def)
qed

text \<open>Operations that start with one calm command and refresh the index entry.\<close>

lemma settles_then_refresh:
  assumes c: "cache_ok c" and spec: "slot_spec spec" and t: "0 \<le> t" and cov: "covered {} t r" and calm: "calm cmd"
  shows "settles (must [] cmd (refreshActiveIndex c (si_indexKey spec) i (si_slotKey spec i) (si_waitKey spec i) (Ret (Inr ()))))
    (\<lambda>x. covered {}) t r"
  unfolding must_def
proof (rule settles_calm [OF calm cov])
  fix rep t' r' assume le: "t \<le> t'" and cov': "covered {} t' r'"
  have "settles (refreshActiveIndex c (si_indexKey spec) i (si_slotKey spec i) (si_waitKey spec i) (Ret (Inr ())))
      (\<lambda>x. covered {}) t' r'"
    using le t covered_insert [OF cov'] by (intro settles_refresh [OF c spec]) auto
  with cov' show "settles (case rep of RepError \<Rightarrow> Ret (Inl [])
        | _ \<Rightarrow> refreshActiveIndex c (si_indexKey spec) i (si_slotKey spec i) (si_waitKey spec i) (Ret (Inr ())))
      (\<lambda>x. covered {}) t' r'"
    by (cases rep) simp_all
qed

text \<open>The other operations send calm commands only.\<close>

fun index_op :: "cache_op \<Rightarrow> bool" where
  "index_op (OpAcquireAccount i m l) = True"
| "index_op (OpReleaseAccount i l) = True"
| "index_op (OpAcquireUser i m l) = True"
| "index_op (OpReleaseUser i l) = True"
| "index_op (OpIncrementWait i m) = True"
| "index_op (OpDecrementWait i) = True"
| "index_op (OpIncrementAccountWait i m) = True"
| "index_op (OpDecrementAccountWait i) = True"
| "index_op (OpCleanAccount i) = True"
| "index_op OpCleanKeys = True"
| "index_op (OpCleanProcess p) = True"
| "index_op op = False"

lemma calm_ops:
  assumes "\<not> index_op op"
  shows "issues (\<lambda>T. calm) (op_prog c op) T"
  using assms
  by (cases op) (auto simp: GetAccountConcurrency_def GetUserConcurrency_def TrackAPIKeySlot_def ReleaseAPIKeySlot_def
      AcquireOpenAIWSIngressLease_def RefreshOpenAIWSIngressLease_def ReleaseOpenAIWSIngressLease_def AcquireLiveLease_def
      RefreshLiveLease_def ReleaseLiveLease_def GetAccountWaitingCount_def GetAccountConcurrencyBatch_def
      GetAPIKeyConcurrencyBatch_def GetAccountsLoadBatch_def GetUsersLoadBatch_def count_commands_def
      intro!: issues_pipeline split: redis_reply.split)

end
