(* ===== verification/Concurrency_Cleanup.thy ===== *)
theory Concurrency_Cleanup
  imports Concurrency_Index
begin

section \<open>Cleaning by the active indexes\<close>

text \<open>
  The jobs that clean by an index: the periodic one, which drops the entries that are due and carry no
  load, and the one at the start of a process, which removes the slots of other processes. Both keep the
  indexes complete, and the latter misses nothing because the indexes are.
\<close>

subsection \<open>What a job may rely on between two commands\<close>

text \<open>The identifiers of \<open>D\<close> carry no load.\<close>

definition unloaded :: "slotIndexSpec \<Rightarrow> int set \<Rightarrow> int \<Rightarrow> redis_keys \<Rightarrow> bool" where
  "unloaded spec D t r \<longleftrightarrow> (\<forall>i \<in> D. \<not> loaded spec i t r)"

lemma unloaded_calm:
  "unloaded spec D t r \<Longrightarrow> slot_spec spec \<Longrightarrow> t \<le> t' \<Longrightarrow> calm cmd \<Longrightarrow> unloaded spec D t' (snd (redis_exec t' cmd r))"
  using calm_adds_no_load [of cmd t' r] loaded_later unfolding unloaded_def adds_no_load_def by blast

lemma unloaded_later: "unloaded spec D t r \<Longrightarrow> t \<le> t' \<Longrightarrow> unloaded spec D t' r"
  unfolding unloaded_def using loaded_later by blast

lemma covered_calm: "covered X t r \<Longrightarrow> t \<le> t' \<Longrightarrow> calm cmd \<Longrightarrow> covered X t' (snd (redis_exec t' cmd r))"
  using covered_quiet [OF covered_later calm_adds_no_load] by blast

lemma settles_load:
  assumes spec: "slot_spec spec" and cov: "covered X t r" and D: "unloaded spec D t r"
    and k: "\<And>t' r' r2 r3. t \<le> t' \<Longrightarrow> covered X t' r' \<Longrightarrow> unloaded spec D t' r' \<Longrightarrow>
      (reply_val r2 = 0 \<and> max 0 (reply_val r3) \<le> 0 \<longrightarrow> \<not> loaded spec i t' r') \<Longrightarrow>
      settles (pipeline cmds (r3 # r2 # RepInt 0 # reps) k) Q t' r'"
  shows "settles (pipeline (load_commands c spec now i @ cmds) reps k) Q t r"
  unfolding load_commands_def append_Cons append_Nil pipeline.simps
proof (intro settles_Send)
  fix t1 t2 t3 assume le: "t \<le> t1" "t1 \<le> t2" "t2 \<le> t3"
  let ?slot = "si_slotKey spec i" and ?wait = "si_waitKey spec i"
  let ?purge = "CmdZRemRangeByScore ?slot (now - cc_slotTTLSeconds c)"
  let ?r = "snd (redis_exec t1 ?purge r)"
  have calm: "calm ?purge" using spec by (auto simp: slot_spec_def)
  have "covered X t3 ?r" using covered_later [OF covered_calm [OF cov le(1) calm]] le by (meson order_trans)
  moreover have "unloaded spec D t3 ?r" using unloaded_later [OF unloaded_calm [OF D spec le(1) calm]] le by (meson order_trans)
  moreover have "\<not> loaded spec i t3 ?r"
    if "ZCARD t2 ?slot ?r = 0" "max 0 (reply_val (fst (redis_exec t3 (CmdGet ?wait) ?r))) \<le> 0"
    using that zget_later [OF le(3), of ?slot ?r]
    by (auto simp: loaded_def ZCARD_def reply_val_def split: option.splits)
  ultimately have "settles (pipeline cmds (fst (redis_exec t3 (CmdGet ?wait) ?r) # RepInt (ZCARD t2 ?slot ?r) # RepInt 0 # reps) k) Q t3 ?r"
    using le by (intro k) (auto simp: reply_val_def)
  then show "settles (pipeline cmds (fst (redis_exec t3 (CmdGet ?wait) (snd (redis_exec t2 (CmdZCard ?slot) ?r))) #
      fst (redis_exec t2 (CmdZCard ?slot) ?r) # fst (redis_exec t1 ?purge r) # reps) k) Q t3
      (snd (redis_exec t3 (CmdGet ?wait) (snd (redis_exec t2 (CmdZCard ?slot) ?r))))"
    by (simp split: option.splits)
qed

text \<open>Reading the loads of a list of candidates: what is read as idle is unloaded from then on.\<close>

definition idle_ids :: "activeIndexLoad list \<Rightarrow> int set" where
  "idle_ids loads = ax_id ` set (filter idle loads)"

lemma settles_chunk:
  assumes spec: "slot_spec spec" and cov: "covered X t r" and D: "unloaded spec D t r"
    and k: "\<And>t' r' new. t \<le> t' \<Longrightarrow> covered X t' r' \<Longrightarrow> unloaded spec (D \<union> idle_ids (loads_of ch new)) t' r' \<Longrightarrow>
      settles (k (rev reps @ new)) Q t' r'"
  shows "settles (pipeline (concat (map (\<lambda>x. load_commands c spec now (fst x)) ch)) reps k) Q t r"
  using assms(2-)
proof (induction ch arbitrary: t r D reps)
  case Nil
  from Nil(3) [of t r "[]"] Nil(1,2) show ?case by (simp add: idle_ids_def)
next
  case (Cons x ch)
  obtain i m where x: "x = (i, m)" by (cases x)
  have rest: "settles (pipeline (concat (map (\<lambda>x. load_commands c spec now (fst x)) ch)) (r3 # r2 # RepInt 0 # reps) k) Q t' r'"
    if "t \<le> t'" "covered X t' r'" "unloaded spec D t' r'"
      "reply_val r2 = 0 \<and> max 0 (reply_val r3) \<le> 0 \<longrightarrow> \<not> loaded spec i t' r'" for t' r' r2 r3
  proof (rule Cons.IH)
    let ?D = "D \<union> (if reply_val r2 = 0 \<and> max 0 (reply_val r3) \<le> 0 then {i} else {})"
    show "covered X t' r'" "unloaded spec ?D t' r'" using that by (auto simp: unloaded_def)
    fix t'' r'' new
    assume "t' \<le> t''" "covered X t'' r''" "unloaded spec (?D \<union> idle_ids (loads_of ch new)) t'' r''"
    then show "settles (k (rev (r3 # r2 # RepInt 0 # reps) @ new)) Q t'' r''"
      using Cons.prems(3) [of t'' r'' "RepInt 0 # r2 # r3 # new"] that(1)
      by (auto simp: x idle_ids_def idle_def unloaded_def split: if_splits)
  qed
  show ?case
    unfolding x list.map concat.simps fst_conv by (rule settles_load [OF spec Cons.prems(1,2) rest])
qed

lemma settles_read_chunks:
  assumes spec: "slot_spec spec"
    and k: "\<And>t' r' loads. t \<le> t' \<Longrightarrow> covered X t' r' \<Longrightarrow> unloaded spec (idle_ids loads) t' r' \<Longrightarrow>
      (\<forall>l \<in> set loads. index_id (ax_member l) = Some (ax_id l)) \<Longrightarrow> settles (k loads) Q t' r'"
    and err: "\<And>t' r'. t \<le> t' \<Longrightarrow> covered X t' r' \<Longrightarrow> Q (Inl ''pipeline exec'') t' r'"
    and "covered X t r" and "unloaded spec (idle_ids loads) t r"
    and "\<forall>l \<in> set loads. index_id (ax_member l) = Some (ax_id l)"
    and "\<forall>ch \<in> set chs. \<forall>x \<in> set ch. index_id (snd x) = Some (fst x)"
  shows "settles (read_chunks c spec now chs loads k) Q t r"
  using assms(2-)
proof (induction chs arbitrary: t r loads)
  case Nil
  from Nil(1) [of t r loads] Nil(3-) show ?case by simp
next
  case (Cons ch chs)
  have loads: "\<forall>l \<in> set (loads_of ch new). index_id (ax_member l) = Some (ax_id l)" for new
    using Cons.prems(6) by (induction ch new rule: loads_of.induct) auto
  show ?case
    unfolding read_chunks.simps
  proof (rule settles_chunk [OF spec Cons.prems(3,4)])
    fix t' r' new
    assume le: "t \<le> t'" and cov: "covered X t' r'" and un: "unloaded spec (idle_ids loads \<union> idle_ids (loads_of ch new)) t' r'"
    have "settles (read_chunks c spec now chs (loads @ loads_of ch new) k) Q t' r'"
    proof (rule Cons.IH)
      show "unloaded spec (idle_ids (loads @ loads_of ch new)) t' r'" using un by (simp add: idle_ids_def image_Un)
    qed (use le cov loads Cons.prems in \<open>auto intro: order_trans\<close>)
    with Cons.prems(2) [OF le cov] show "settles (if pipe_failed (rev [] @ new) then Ret (Inl ''pipeline exec'')
        else read_chunks c spec now chs (loads @ loads_of ch (rev [] @ new)) k) Q t' r'"
      by simp
  qed
qed

subsection \<open>Writing an index back\<close>

lemma index_id_Itoa: "int64_id i \<Longrightarrow> index_id (Itoa i) = Some i"
  by (simp add: index_id_def int64_id_def Atoi_Itoa)

lemma zadd_members: "fst ` set (zadd m s z) = insert m (fst ` set z)"
  by (auto simp: image_iff)

lemma index_zadd_any:
  assumes "covered X t r" and "slot_spec spec"
  shows "covered X t (ZADD t (si_indexKey spec) s m r)"
proof -
  have "persistent r" using assms(1) by (simp add: covered_def)
  note stored = index_stored [OF this slot_spec_index [OF assms(2)]]
  have "Itoa j \<in> fst ` set (stored (si_indexKey spec) r)"
    if "int64_id j" "(si_indexKey spec, j) \<notin> X" "loaded spec j t r" for j
    using assms that by (simp add: covered_def indexed_def)
  then have "covered X t (zput (si_indexKey spec) (zadd m s (stored (si_indexKey spec) r)) None r)"
    by (intro index_put [OF assms(1,2)]) (simp_all add: zadd_members del: set_zadd)
  then show ?thesis by (simp add: ZADD_def stored)
qed

lemma unloaded_index_write:
  assumes "slot_spec spec" and "index_key k"
  shows "unloaded spec D t (zput k z d r) = unloaded spec D t r"
proof -
  have "si_slotKey spec i \<noteq> k" for i using assms by (auto simp: slot_spec_def)
  then show ?thesis by (simp add: unloaded_def loaded_def zget_zput redis_simps)
qed

lemma index_zadds:
  assumes "covered X t r" and "slot_spec spec" and "unloaded spec D t r"
  shows "covered X t (fold (\<lambda>(m, s). ZADD t (si_indexKey spec) s m) zs r) \<and>
    unloaded spec D t (fold (\<lambda>(m, s). ZADD t (si_indexKey spec) s m) zs r)"
  using assms
proof (induction zs arbitrary: r)
  case (Cons ms zs)
  obtain m s where ms: "ms = (m, s)" by (cases ms)
  have "covered X t (ZADD t (si_indexKey spec) s m r)" using Cons.prems by (intro index_zadd_any)
  moreover have "unloaded spec D t (ZADD t (si_indexKey spec) s m r)"
    using Cons.prems by (simp add: ZADD_def unloaded_index_write slot_spec_index)
  ultimately show ?case using Cons.IH Cons.prems(2) by (simp add: ms)
qed simp

lemma index_zrems:
  assumes "covered X t r" and "slot_spec spec" and "unloaded spec D t r"
    and "\<And>m i. m \<in> set ms \<Longrightarrow> index_id m = Some i \<Longrightarrow> i \<in> D"
  shows "covered X t (fold (ZREM t (si_indexKey spec)) ms r)"
  using assms
proof (induction ms arbitrary: r)
  case (Cons m ms)
  have "covered X t (ZREM t (si_indexKey spec) m r)"
    using Cons.prems index_id_Itoa by (intro index_zrem) (fastforce simp: unloaded_def)+
  moreover have "unloaded spec D t (ZREM t (si_indexKey spec) m r)"
    using Cons.prems(2,3) by (simp add: ZREM_def unloaded_index_write slot_spec_index)
  ultimately have "covered X t (fold (ZREM t (si_indexKey spec)) ms (ZREM t (si_indexKey spec) m r))"
    using Cons.prems(2,4) by (intro Cons.IH) auto
  then show ?case by simp
qed simp

lemma index_folds_keep:
  assumes "\<And>r z d. keep r \<Longrightarrow> keep (zput k z d r)" and "keep r"
  shows "keep (fold (\<lambda>(m, s). ZADD t k s m) zs r)" and "keep (fold (ZREM t k) ms r)"
proof -
  show "keep (fold (\<lambda>(m, s). ZADD t k s m) zs r)"
    using assms(2) by (induction zs arbitrary: r) (auto simp: ZADD_def assms(1))
  show "keep (fold (ZREM t k) ms r)"
    using assms(2) by (induction ms arbitrary: r) (auto simp: ZREM_def assms(1))
qed

lemma settles_index_update:
  assumes spec: "slot_spec spec" and cov: "covered X t r" and D: "unloaded spec D t r" and keep: "keep t r"
    and keep_later: "\<And>t t' r. keep t r \<Longrightarrow> t \<le> t' \<Longrightarrow> keep t' r"
    and keep_write: "\<And>t r z d. keep t r \<Longrightarrow> keep t (zput (si_indexKey spec) z d r)"
    and ms: "\<And>m i. m \<in> set ms \<Longrightarrow> index_id m = Some i \<Longrightarrow> i \<in> D"
    and p: "\<And>t' r'. t \<le> t' \<Longrightarrow> covered X t' r' \<Longrightarrow> keep t' r' \<Longrightarrow> settles p Q t' r'"
  shows "settles (addActiveIndexMembers (si_indexKey spec) zs (removeActiveIndexMembers (si_indexKey spec) ms p)) Q t r"
proof -
  have folds_keep: "keep t' (fold (\<lambda>(m, s). ZADD t' (si_indexKey spec) s m) zs r)"
    "keep t' (fold (ZREM t' (si_indexKey spec)) ms r)" if "keep t' r" for t' r zs ms
    using that by (auto intro: index_folds_keep keep_write)
  have remove: "settles (removeActiveIndexMembers (si_indexKey spec) ms p) Q t1 r1"
    if le: "t \<le> t1" and r1: "covered X t1 r1" "unloaded spec D t1 r1" "keep t1 r1" for t1 r1
  proof (cases "ms = []")
    case False
    have "covered X t' (fold (ZREM t' (si_indexKey spec)) ms r1) \<and> keep t' (fold (ZREM t' (si_indexKey spec)) ms r1)"
      if "t1 \<le> t'" for t'
      using covered_later [OF r1(1) that] unloaded_later [OF r1(2) that] keep_later [OF r1(3) that] ms spec
      by (blast intro: index_zrems folds_keep)
    with False le p show ?thesis by (simp add: removeActiveIndexMembers_def best_effort_def)
  qed (use le r1 p in \<open>simp add: removeActiveIndexMembers_def\<close>)
  show ?thesis
  proof (cases "zs = []")
    case False
    have "covered X t' (fold (\<lambda>(m, s). ZADD t' (si_indexKey spec) s m) zs r) \<and>
        unloaded spec D t' (fold (\<lambda>(m, s). ZADD t' (si_indexKey spec) s m) zs r)" if "t \<le> t'" for t'
      using covered_later [OF cov that] unloaded_later [OF D that] spec by (intro index_zadds)
    with False remove folds_keep(1) keep_later [OF keep]
    show ?thesis by (simp add: addActiveIndexMembers_def best_effort_def)
  qed (use remove cov D keep in \<open>simp add: addActiveIndexMembers_def\<close>)
qed

lemma set_chunks: "0 < n \<Longrightarrow> \<Union> (set ` set (chunks n xs)) = set xs"
proof (induction n xs rule: chunks.induct)
  case (1 n xs)
  show ?case
  proof (cases "xs = []")
    case False
    have "\<Union> (set ` set (chunks n xs)) = set (take n xs) \<union> set (drop n xs)"
      using 1 False by (subst chunks.simps) auto
    also have "\<dots> = set xs" by (metis append_take_drop_id set_append)
    finally show ?thesis .
  qed (simp add: chunks.simps)
qed

lemma candidates_known: "x \<in> set (index_candidates ms) \<Longrightarrow> index_id (snd x) = Some (fst x)"
  by (auto simp: index_candidates_def)

text \<open>The periodic job.\<close>

lemma settles_reconcile:
  assumes spec: "slot_spec spec" and cov: "covered X t r"
    and p: "\<And>t' r'. t \<le> t' \<Longrightarrow> covered X t' r' \<Longrightarrow> settles p Q t' r'"
    and err: "\<And>e t' r'. t \<le> t' \<Longrightarrow> covered X t' r' \<Longrightarrow> Q (Inl e) t' r'"
  shows "settles (reconcileExpiredIndexCandidates c spec p) Q t r"
proof -
  have update: "settles (readIndexLoads c spec members now (\<lambda>loads stale.
      addActiveIndexMembers (si_indexKey spec) (f loads)
        (removeActiveIndexMembers (si_indexKey spec) (stale @ map ax_member (filter idle loads)) p))) Q t1 r1"
    if "t \<le> t1" "covered X t1 r1" for members now f t1 r1
    unfolding readIndexLoads_def
  proof (rule settles_read_chunks [OF spec])
    fix t' r' loads
    assume "t1 \<le> t'" and cov': "covered X t' r'" and un: "unloaded spec (idle_ids loads) t' r'"
      and ids: "\<forall>l \<in> set loads. index_id (ax_member l) = Some (ax_id l)"
    have stale: "i \<in> idle_ids loads"
      if "m \<in> set (filter (\<lambda>m. index_id m = None) members @ map ax_member (filter idle loads))" "index_id m = Some i" for m i
      using that ids by (auto simp: idle_ids_def)
    show "settles (addActiveIndexMembers (si_indexKey spec) (f loads) (removeActiveIndexMembers (si_indexKey spec)
        (filter (\<lambda>m. index_id m = None) members @ map ax_member (filter idle loads)) p)) Q t' r'"
      using \<open>t \<le> t1\<close> \<open>t1 \<le> t'\<close> by (intro settles_index_update [OF spec cov' un, where keep = "\<lambda>t r. True"] stale p) auto
  next
    have "\<Union> (set ` set (chunks activeIndexPipelineChunkSize (index_candidates members))) = set (index_candidates members)"
      by (intro set_chunks) (simp add: activeIndexPipelineChunkSize_def)
    then show "\<forall>ch \<in> set (chunks activeIndexPipelineChunkSize (index_candidates members)). \<forall>x \<in> set ch. index_id (snd x) = Some (fst x)"
      using candidates_known by blast
  qed (use that err in \<open>auto simp: unloaded_def idle_ids_def\<close>)
  show ?thesis
    unfolding reconcileExpiredIndexCandidates_def script_int_def read_members_def
    by (auto intro!: settles_Send update covered_later [OF cov])
qed

subsection \<open>Cleaning at the start of a process\<close>

text \<open>Nothing of another process is left: only slots with the prefix, and no positive wait counter.\<close>

definition cleared :: "string \<Rightarrow> slotIndexSpec \<Rightarrow> int \<Rightarrow> int \<Rightarrow> redis_keys \<Rightarrow> bool" where
  "cleared pre spec i t r \<longleftrightarrow>
     (\<forall>x \<in> set (zget t (si_slotKey spec i) r). take (length pre) (fst x) = pre) \<and>
     (case count_get t (si_waitKey spec i) r of None \<Rightarrow> True | Some n \<Rightarrow> n \<le> 0)"

definition all_cleared :: "string \<Rightarrow> (slotIndexSpec \<times> int) set \<Rightarrow> int \<Rightarrow> redis_keys \<Rightarrow> bool" where
  "all_cleared pre C t r \<longleftrightarrow> (\<forall>(spec, i) \<in> C. slot_spec spec \<and> cleared pre spec i t r)"

lemma all_cleared_later:
  assumes "all_cleared pre C t r" and "t \<le> t'"
  shows "all_cleared pre C t' r"
proof -
  have "cleared pre spec i t' r" if "cleared pre spec i t r" for spec i
    using that zget_later [OF assms(2), of "si_slotKey spec i" r] count_get_later [OF assms(2), of "si_waitKey spec i" r]
    by (auto simp: cleared_def)
  with assms(1) show ?thesis by (auto simp: all_cleared_def)
qed

lemma all_cleared_shrinks:
  assumes "all_cleared pre C t r" and "shrinks {} t r r'"
  shows "all_cleared pre C t r'"
proof -
  have "cleared pre spec i t r'" if "slot_spec spec" "cleared pre spec i t r" for spec i
  proof -
    have "\<not> index_key (si_slotKey spec i)" using that(1) by (auto simp: slot_spec_def)
    then have "set (zget t (si_slotKey spec i) r') \<subseteq> set (zget t (si_slotKey spec i) r)"
      using assms(2) unfolding shrinks_def by blast
    with that(2) assms(2) show ?thesis
      unfolding cleared_def shrinks_def by (fastforce split: option.splits)
  qed
  with assms(1) show ?thesis by (auto simp: all_cleared_def)
qed

lemma all_cleared_index_write:
  assumes "all_cleared pre C t r" and "index_key k"
  shows "all_cleared pre C t (zput k z d r)"
proof -
  have "cleared pre spec i t (zput k z d r)" if "slot_spec spec" "cleared pre spec i t r" for spec i
  proof -
    have "si_slotKey spec i \<noteq> k" using that(1) assms(2) by (auto simp: slot_spec_def)
    with that(2) show ?thesis by (simp add: cleared_def zget_zput redis_simps)
  qed
  with assms(1) show ?thesis by (auto simp: all_cleared_def)
qed

lemma all_cleared_unloaded: "slot_spec spec \<Longrightarrow> \<not> loaded spec i t r \<Longrightarrow> all_cleared pre {(spec, i)} t r"
  by (auto simp: all_cleared_def cleared_def loaded_def split: option.splits)

lemma all_cleared_Un [simp]: "all_cleared pre (C \<union> C') t r \<longleftrightarrow> all_cleared pre C t r \<and> all_cleared pre C' t r"
  by (auto simp: all_cleared_def)

text \<open>One identifier: the script removes the foreign slots, then its wait counter goes.\<close>

lemma startup_one:
  assumes spec: "slot_spec spec" and le: "t1 \<le> t2"
    and r1: "r1 = snd (startupCleanupSlotScript t1 (si_slotKey spec i) pre ttl r)" and r2: "r2 = key_del (si_waitKey spec i) r1"
  shows "all_cleared pre {(spec, i)} t2 r2"
    and "snd (fst (startupCleanupSlotScript t1 (si_slotKey spec i) pre ttl r)) \<le> 0 \<Longrightarrow> \<not> loaded spec i t2 r2"
proof -
  let ?k = "si_slotKey spec i"
  let ?foreign = "filter (\<lambda>m. take (length pre) m \<noteq> pre) (zmembers (zget t1 ?k r))"
  have slots: "set (zget t1 ?k r1) \<subseteq> {x. take (length pre) (fst x) = pre}"
    by (auto simp: r1 startupCleanupSlotScript_def Let_def redis_simps zmembers_def)
  have ne: "?k \<noteq> si_waitKey spec i"
    using spec by (auto simp: slot_spec_def key_defs key_prefixes)
  have slots2: "zget t2 ?k r2 = zget t1 ?k r1 \<or> zget t2 ?k r2 = []"
    using zget_later [OF le, of ?k r1] ne by (simp add: r2 redis_simps)
  show "all_cleared pre {(spec, i)} t2 r2"
    using slots slots2 spec by (auto simp: all_cleared_def cleared_def r2 redis_simps)
  show "\<not> loaded spec i t2 r2" if "snd (fst (startupCleanupSlotScript t1 ?k pre ttl r)) \<le> 0"
  proof -
    have "zget t1 ?k r1 = []"
      using that by (auto simp: r1 startupCleanupSlotScript_def Let_def redis_simps ZCARD_def split: if_splits)
    with slots2 show ?thesis by (auto simp: loaded_def r2 redis_simps)
  qed
qed

lemma calm_startup: "slot_spec spec \<Longrightarrow> calm (RunStartupCleanup (si_slotKey spec i) pre ttl)"
  "slot_spec spec \<Longrightarrow> calm (CmdDel [si_waitKey spec i])"
  by (auto simp: slot_spec_def)

lemma settles_clean_members:
  assumes spec: "slot_spec spec"
    and p: "\<And>t' r'. t \<le> t' \<Longrightarrow> covered X t' r' \<Longrightarrow>
      all_cleared pre (C \<union> {(spec, i) |i. \<exists>m \<in> set ms. index_id m = Some i}) t' r' \<Longrightarrow> settles p Q t' r'"
    and "covered X t r" "all_cleared pre C t r" "unloaded spec D t r"
    and "\<And>m i. m \<in> set stale \<Longrightarrow> index_id m = Some i \<Longrightarrow> i \<in> D"
  shows "settles (clean_members c spec pre now ms stale refreshed p) Q t r"
  using assms(2-)
proof (induction ms arbitrary: t r C D stale refreshed)
  case Nil
  show ?case
    unfolding clean_members.simps
    using Nil.prems all_cleared_later all_cleared_index_write slot_spec_index [OF spec]
    by (intro settles_index_update [OF spec Nil.prems(2,4), where keep = "all_cleared pre C"]) auto
next
  case (Cons m ms)
  show ?case
  proof (cases "index_id m")
    case None
    then have ids: "(\<exists>m' \<in> set (m # ms). index_id m' = Some i) \<longleftrightarrow> (\<exists>m' \<in> set ms. index_id m' = Some i)" for i by simp
    have "settles (clean_members c spec pre now ms (stale @ [m]) refreshed p) Q t r"
    proof (rule Cons.IH [OF _ Cons.prems(2,3,4)])
      show "i \<in> D" if "m' \<in> set (stale @ [m])" "index_id m' = Some i" for m' i using that None Cons.prems(5) by auto
    qed (use Cons.prems(1) in \<open>simp only: ids\<close>)
    with None show ?thesis by simp
  next
    case (Some i)
    let ?k = "si_slotKey spec i" and ?D = "\<lambda>n. if 0 < n then D else insert i D"
    have rest: "settles (if 0 < n then clean_members c spec pre now ms stale (refreshed @ [(m, now + cc_slotTTLSeconds c)]) p
        else clean_members c spec pre now ms (stale @ [m]) refreshed p) Q t2 r2"
      if "t \<le> t2" "covered X t2 r2" "all_cleared pre (C \<union> {(spec, i)}) t2 r2" "unloaded spec (?D n) t2 r2" for n t2 r2
    proof -
      have ids: "C \<union> {(spec, j) |j. \<exists>m' \<in> set (m # ms). index_id m' = Some j} =
          (C \<union> {(spec, i)}) \<union> {(spec, j) |j. \<exists>m' \<in> set ms. index_id m' = Some j}"
        using Some by auto
      have go: "settles (clean_members c spec pre now ms stale' refreshed' p) Q t2 r2"
        if "\<And>m i. m \<in> set stale' \<Longrightarrow> index_id m = Some i \<Longrightarrow> i \<in> ?D n" for stale' refreshed'
      proof (rule Cons.IH [OF _ \<open>covered X t2 r2\<close> \<open>all_cleared pre (C \<union> {(spec, i)}) t2 r2\<close> \<open>unloaded spec (?D n) t2 r2\<close> that])
        show "settles p Q t' r'" if "t2 \<le> t'" "covered X t' r'"
            "all_cleared pre ((C \<union> {(spec, i)}) \<union> {(spec, j) |j. \<exists>m' \<in> set ms. index_id m' = Some j}) t' r'" for t' r'
          using that \<open>t \<le> t2\<close> by (intro Cons.prems(1)) (auto simp only: ids)
      qed
      show ?thesis using Cons.prems(5) Some by (auto intro!: go)
    qed
    have deleted: "settles (must ''delete stale wait key'' (CmdDel [si_waitKey spec i])
        (if 0 < n then clean_members c spec pre now ms stale (refreshed @ [(m, now + cc_slotTTLSeconds c)]) p
         else clean_members c spec pre now ms (stale @ [m]) refreshed p)) Q t1 r1"
      if le: "t \<le> t1" and r1: "r1 = snd (startupCleanupSlotScript t1 ?k pre (cc_slotTTLSeconds c) r)"
        and n: "n = snd (fst (startupCleanupSlotScript t1 ?k pre (cc_slotTTLSeconds c) r))" for t1 r1 n
      unfolding must_def
    proof (rule settles_Send)
      fix t2 assume le2: "t1 \<le> t2"
      let ?start = "RunStartupCleanup ?k pre (cc_slotTTLSeconds c)" and ?del = "CmdDel [si_waitKey spec i]"
      let ?r2 = "key_del (si_waitKey spec i) r1"
      have r1': "r1 = snd (redis_exec t1 ?start r)" by (simp add: r1 case_prod_unfold)
      have "covered X t1 r1" unfolding r1' by (rule covered_calm [OF Cons.prems(2) le calm_startup(1) [OF spec]])
      from covered_calm [OF this le2 calm_startup(2) [OF spec, of i]] have cov: "covered X t2 ?r2" by simp
      have "unloaded spec D t1 r1" unfolding r1' by (rule unloaded_calm [OF Cons.prems(4) spec le calm_startup(1) [OF spec]])
      from unloaded_calm [OF this spec le2 calm_startup(2) [OF spec, of i]] have un: "unloaded spec D t2 ?r2" by simp
      have plain: "\<not> index_key ?k" "\<not> index_key (si_waitKey spec i)" using spec by (auto simp: slot_spec_def)
      have "all_cleared pre C t1 r1"
        unfolding r1 by (rule all_cleared_shrinks [OF all_cleared_later [OF Cons.prems(3) le] shrinks_one(5) [OF plain(1)]])
      then have "all_cleared pre C t2 ?r2"
        by (rule all_cleared_shrinks [OF all_cleared_later [OF _ le2] shrinks_key_del [OF plain(2)]])
      moreover note one = startup_one [OF spec le2 r1 refl]
      ultimately have cleared: "all_cleared pre (C \<union> {(spec, i)}) t2 ?r2" by (simp only: all_cleared_Un)
      have unloaded: "unloaded spec (?D n) t2 ?r2" using un one(2) by (auto simp: unloaded_def n not_less)
      from rest [OF order_trans [OF le le2] cov cleared unloaded] show "settles (case fst (redis_exec t2 ?del r1) of
            RepError \<Rightarrow> Ret (Inl ''delete stale wait key'')
          | _ \<Rightarrow> if 0 < n then clean_members c spec pre now ms stale (refreshed @ [(m, now + cc_slotTTLSeconds c)]) p
              else clean_members c spec pre now ms (stale @ [m]) refreshed p) Q t2 (snd (redis_exec t2 ?del r1))"
        by simp
    qed
    show ?thesis
      unfolding clean_members.simps Some option.case runScriptInt64Pair_def
      by (rule settles_Send) (simp add: case_prod_unfold deleted)
  qed
qed

text \<open>The whole job: members that are listed are cleaned, and what is not listed carries no load.\<close>

definition all_ids :: "slotIndexSpec \<Rightarrow> (slotIndexSpec \<times> int) set" where
  "all_ids spec = {(spec, i) |i. int64_id i}"

lemma listed_or_unloaded:
  assumes spec: "slot_spec spec" and cov: "covered {} t r" and C: "all_cleared pre C t r"
  shows "all_cleared pre (C \<union> {(spec, i) |i. int64_id i \<and> (\<forall>m \<in> set (zmembers (zget t (si_indexKey spec) r)). index_id m \<noteq> Some i)}) t r"
proof -
  have zget: "zget t (si_indexKey spec) r = stored (si_indexKey spec) r"
    using cov index_stored(1) slot_spec_index [OF spec] by (simp add: covered_def)
  have "\<not> loaded spec i t r"
    if "int64_id i" "\<forall>m \<in> set (zmembers (zget t (si_indexKey spec) r)). index_id m \<noteq> Some i" for i
  proof
    assume "loaded spec i t r"
    with cov spec that(1) have "indexed spec i r" by (simp add: covered_def)
    then have "Itoa i \<in> set (zmembers (zget t (si_indexKey spec) r))" by (simp add: indexed_def zget zmembers_def)
    with that index_id_Itoa show False by blast
  qed
  then have "cleared pre spec i t r"
    if "int64_id i" "\<forall>m \<in> set (zmembers (zget t (si_indexKey spec) r)). index_id m \<noteq> Some i" for i
    using all_cleared_unloaded [OF spec] that unfolding all_cleared_def by fast
  with C spec show ?thesis unfolding all_cleared_def by auto
qed

lemma settles_clean_index:
  assumes spec: "slot_spec spec" and cov: "covered {} t r" and C: "all_cleared pre C t r"
    and p: "\<And>t' r'. t \<le> t' \<Longrightarrow> covered {} t' r' \<Longrightarrow> all_cleared pre (C \<union> all_ids spec) t' r' \<Longrightarrow> settles p Q t' r'"
  shows "settles (allIndexMembers (si_indexKey spec) (\<lambda>members. cleanupStaleProcessSlotsForIndex c spec members pre now p)) Q t r"
  unfolding allIndexMembers_def read_members_def cleanupStaleProcessSlotsForIndex_def
proof (rule settles_Send)
  fix t1 assume le: "t \<le> t1"
  let ?ms = "zmembers (zget t1 (si_indexKey spec) r)"
  let ?rest = "{(spec, i) |i. int64_id i \<and> (\<forall>m \<in> set ?ms. index_id m \<noteq> Some i)}"
  have "settles (clean_members c spec pre now ?ms [] [] p) Q t1 r"
  proof (rule settles_clean_members [OF spec])
    show "covered {} t1 r" using covered_later [OF cov le] .
    show "all_cleared pre (C \<union> ?rest) t1 r"
      using listed_or_unloaded [OF spec covered_later [OF cov le] all_cleared_later [OF C le]] .
    show "unloaded spec {} t1 r" by (simp add: unloaded_def)
    fix t' r'
    assume "t1 \<le> t'" "covered {} t' r'" "all_cleared pre (C \<union> ?rest \<union> {(spec, i) |i. \<exists>m \<in> set ?ms. index_id m = Some i}) t' r'"
    moreover from this(3) have "all_cleared pre (C \<union> all_ids spec) t' r'"
      unfolding all_cleared_def all_ids_def by blast
    ultimately show "settles p Q t' r'" using le by (intro p) auto
  qed simp
  then show "settles (case fst (redis_exec t1 (CmdZRange (si_indexKey spec)) r) of
        RepStrings ms \<Rightarrow> clean_members c spec pre now ms [] [] p | _ \<Rightarrow> Ret (Inl ''read active index'')) Q t1
      (snd (redis_exec t1 (CmdZRange (si_indexKey spec)) r))"
    by simp
qed

lemma settles_must:
  assumes "calm cmd" and "covered X t r" and "\<And>t'. fst (redis_exec t' cmd r) \<noteq> RepError"
    and "\<And>t' r'. t \<le> t' \<Longrightarrow> covered X t' r' \<Longrightarrow> settles p Q t' r'"
  shows "settles (must err cmd p) Q t r"
  unfolding must_def
proof (rule settles_Send)
  fix t' assume le: "t \<le> t'"
  have "settles p Q t' (snd (redis_exec t' cmd r))" using covered_calm [OF assms(2) le assms(1)] le assms(4) by blast
  then show "settles (case fst (redis_exec t' cmd r) of RepError \<Rightarrow> Ret (Inl err) | _ \<Rightarrow> p) Q t' (snd (redis_exec t' cmd r))"
    using assms(3) [of t'] by (cases "fst (redis_exec t' cmd r)") auto
qed

lemma settles_clean_process:
  assumes cov: "covered {} t r" and pre: "pre \<noteq> []"
  shows "settles (CleanupStaleProcessSlots c pre)
    (\<lambda>x t r. x = Inr () \<and> covered {} t r \<and> all_cleared pre (all_ids accountSlotIndex \<union> all_ids userSlotIndex) t r) t r"
    (is "settles _ ?Q t r")
proof -
  let ?clean = "script_int ''redis TIME'' CmdTime (\<lambda>now.
        allIndexMembers accountActiveIndexKey (\<lambda>accountMembers.
          cleanupStaleProcessSlotsForIndex c accountSlotIndex accountMembers pre now
            (allIndexMembers userActiveIndexKey (\<lambda>userMembers.
               cleanupStaleProcessSlotsForIndex c userSlotIndex userMembers pre now (Ret (Inr ()))))))"
  note account = settles_clean_index [OF slot_specs(1), unfolded specs] and user = settles_clean_index [OF slot_specs(2), unfolded specs]
  have clean: "settles ?clean ?Q t1 r1" if "covered {} t1 r1" for t1 r1
    unfolding script_int_def
  proof (rule settles_Send)
    fix t2 assume "t1 \<le> t2"
    have "settles (allIndexMembers accountActiveIndexKey (\<lambda>accountMembers.
          cleanupStaleProcessSlotsForIndex c accountSlotIndex accountMembers pre (redis_secs t2)
            (allIndexMembers userActiveIndexKey (\<lambda>userMembers.
               cleanupStaleProcessSlotsForIndex c userSlotIndex userMembers pre (redis_secs t2) (Ret (Inr ())))))) ?Q t2 r1"
    proof (rule account [of t2 r1 pre "{}"])
      show "covered {} t2 r1" using covered_later [OF that \<open>t1 \<le> t2\<close>] .
      show "all_cleared pre {} t2 r1" by (simp add: all_cleared_def)
      fix t3 r3 assume "covered {} t3 r3" "all_cleared pre ({} \<union> all_ids accountSlotIndex) t3 r3"
      then show "settles (allIndexMembers userActiveIndexKey (\<lambda>userMembers.
          cleanupStaleProcessSlotsForIndex c userSlotIndex userMembers pre (redis_secs t2) (Ret (Inr ())))) ?Q t3 r3"
        by (intro user [of t3 r3 pre "all_ids accountSlotIndex"]) auto
    qed
    then show "settles (case fst (redis_exec t2 CmdTime r1) of
          RepInt now \<Rightarrow> allIndexMembers accountActiveIndexKey (\<lambda>accountMembers.
            cleanupStaleProcessSlotsForIndex c accountSlotIndex accountMembers pre now
              (allIndexMembers userActiveIndexKey (\<lambda>userMembers.
                 cleanupStaleProcessSlotsForIndex c userSlotIndex userMembers pre now (Ret (Inr ())))))
        | _ \<Rightarrow> Ret (Inl ''redis TIME'')) ?Q t2 (snd (redis_exec t2 CmdTime r1))"
      by simp
  qed
  have sweep: "settles (sweepLegacyWaitKeysOnce p) Q t r"
    if p: "\<And>t' r'. t \<le> t' \<Longrightarrow> covered {} t' r' \<Longrightarrow> settles p Q t' r'" for p Q
    unfolding sweepLegacyWaitKeysOnce_def script_int_def
  proof (rule settles_Send)
    fix t1 assume le: "t \<le> t1"
    have "settles (must ''sweep legacy wait keys'' (CmdSweep accountWaitKeyPrefix)
        (must ''sweep legacy wait keys'' (CmdSweep waitQueueKeyPrefix)
          (must ''set legacy wait sweep marker'' (CmdSet legacyWaitSweepMarkerKey ''1'') p))) Q t1 r"
      using le covered_later [OF cov le] by (intro settles_must p) (auto intro: order_trans)
    with le covered_later [OF cov le] p show "settles (case fst (redis_exec t1 (CmdExists legacyWaitSweepMarkerKey) r) of
          RepInt n \<Rightarrow> if 0 < n then p else must ''sweep legacy wait keys'' (CmdSweep accountWaitKeyPrefix)
            (must ''sweep legacy wait keys'' (CmdSweep waitQueueKeyPrefix)
              (must ''set legacy wait sweep marker'' (CmdSet legacyWaitSweepMarkerKey ''1'') p))
        | _ \<Rightarrow> Ret (Inl ''check legacy wait sweep marker'')) Q t1
        (snd (redis_exec t1 (CmdExists legacyWaitSweepMarkerKey) r))"
      by simp
  qed
  have "settles (sweepLegacyWaitKeysOnce ?clean) ?Q t r" by (rule sweep) (rule clean)
  with pre show ?thesis by (simp add: CleanupStaleProcessSlots_def)
qed

subsection \<open>Every operation keeps the indexes complete\<close>

lemma settles_clean_keys: "covered {} t r \<Longrightarrow> settles (CleanupExpiredAccountSlotKeys c) (\<lambda>x. covered {}) t r"
  unfolding CleanupExpiredAccountSlotKeys_def
  by (intro settles_reconcile slot_specs) simp_all

lemma settles_op:
  assumes c: "cache_ok c" and t: "0 \<le> t" and cov: "covered {} t r"
  shows "settles (op_prog c op) (\<lambda>x. covered {}) t r"
proof (cases "index_op op")
  case False
  then show ?thesis using settles_calm_prog [OF calm_ops cov] by blast
next
  case True
  have ttl: "0 < cc_slotTTLSeconds c" "0 < cc_waitQueueTTLSeconds c" using c by (simp_all add: cache_ok_def)
  note taken = settles_taken [OF _ cov _ t]
  note refresh = settles_then_refresh [OF c _ t cov]
  have acquire: "\<exists>a. fst (redis_exec t' (RunAcquire (si_slotKey spec i) lk m ttl l) r) = RepPair a (redis_secs t') \<and>
      covered (if a = 1 then {(si_indexKey spec, i)} else {}) t' (snd (redis_exec t' (RunAcquire (si_slotKey spec i) lk m ttl l) r))"
    if "slot_spec spec" "lease_key lk" "t \<le> t'" for spec lk t' i m ttl l
    using acquire_covered [OF that(1) covered_later [OF cov that(3)] that(2), of i m ttl l]
    by (auto simp: case_prod_unfold acquireScript_def Let_def)
  have increment: "\<exists>a. fst (redis_exec t' (RunIncrementWait (si_waitKey spec i) m ttl) r) = RepPair a (redis_secs t') \<and>
      covered (if a = 1 then {(si_indexKey spec, i)} else {}) t' (snd (redis_exec t' (RunIncrementWait (si_waitKey spec i) m ttl) r))"
      "\<exists>a. fst (redis_exec t' (RunIncrementAccountWait (si_waitKey spec i) m ttl) r) = RepPair a (redis_secs t') \<and>
      covered (if a = 1 then {(si_indexKey spec, i)} else {}) t' (snd (redis_exec t' (RunIncrementAccountWait (si_waitKey spec i) m ttl) r))"
    if "slot_spec spec" "t \<le> t'" for spec t' i m ttl
    using increment_covered [OF that(1) covered_later [OF cov that(2)], of i m ttl]
    by (auto simp: case_prod_unfold incrementWaitScript_def incrementAccountWaitScript_def Let_def)
  have acquired: "settles (runScriptInt64Pair [] (RunAcquire (si_slotKey spec i) lk m (cc_slotTTLSeconds c) l)
      (\<lambda>result now. if result = 1 then touchActiveIndexAt (si_indexKey spec) i (now + cc_slotTTLSeconds c) (Ret (Inr True)) else Ret (Inr False)))
      (\<lambda>x. covered {}) t r"
    if "slot_spec spec" "lease_key lk" for spec lk i m l
    by (rule taken [OF that(1) ttl(1) acquire [OF that]])
  have incremented:
    "settles (runScriptInt64Pair [] (RunIncrementWait (si_waitKey spec i) m (cc_waitQueueTTLSeconds c))
      (\<lambda>result now. if result = 1 then touchActiveIndexAt (si_indexKey spec) i (now + cc_waitQueueTTLSeconds c) (Ret (Inr True)) else Ret (Inr False)))
      (\<lambda>x. covered {}) t r"
    "settles (runScriptInt64Pair [] (RunIncrementAccountWait (si_waitKey spec i) m (cc_waitQueueTTLSeconds c))
      (\<lambda>result now. if result = 1 then touchActiveIndexAt (si_indexKey spec) i (now + cc_waitQueueTTLSeconds c) (Ret (Inr True)) else Ret (Inr False)))
      (\<lambda>x. covered {}) t r"
    if "slot_spec spec" for spec i m
    by (intro taken [OF that ttl(2)] increment [OF that]; assumption)+
  note account = slot_specs(1) and user = slot_specs(2)
  from True show ?thesis
  proof (cases op)
    case (OpAcquireAccount i m l)
    then show ?thesis
      using acquired [OF account, of "liveAccountSlotKey i" i m l, unfolded specs]
      by (simp add: AcquireAccountSlot_def settles_quiet del: redis_exec.simps settles.simps)
  next
    case (OpAcquireUser i m l)
    then show ?thesis
      using acquired [OF user, of "liveUserSlotKey i" i m l, unfolded specs]
      by (simp add: AcquireUserSlot_def settles_quiet del: redis_exec.simps settles.simps)
  next
    case (OpIncrementWait i m)
    then show ?thesis
      using incremented(1) [OF user, of i m, unfolded specs]
      by (simp add: IncrementWaitCount_def settles_quiet del: redis_exec.simps settles.simps)
  next
    case (OpIncrementAccountWait i m)
    then show ?thesis
      using incremented(2) [OF account, of i m, unfolded specs]
      by (simp add: IncrementAccountWaitCount_def settles_quiet del: redis_exec.simps settles.simps)
  next
    case (OpReleaseAccount i l)
    then show ?thesis
      using refresh [OF account, of "CmdZRem (accountSlotKey i) [l]" i]
      by (simp add: ReleaseAccountSlot_def refreshAccountActiveIndex_def settles_quiet)
  next
    case (OpReleaseUser i l)
    then show ?thesis
      using refresh [OF user, of "CmdZRem (userSlotKey i) [l]" i]
      by (simp add: ReleaseUserSlot_def refreshUserActiveIndex_def settles_quiet)
  next
    case (OpDecrementWait i)
    then show ?thesis
      using refresh [OF user, of "RunDecrementWait (waitQueueKey i)" i]
      by (simp add: DecrementWaitCount_def refreshUserActiveIndex_def settles_quiet)
  next
    case (OpDecrementAccountWait i)
    then show ?thesis
      using refresh [OF account, of "RunDecrementWait (accountWaitKey i)" i]
      by (simp add: DecrementAccountWaitCount_def refreshAccountActiveIndex_def settles_quiet)
  next
    case (OpCleanAccount i)
    then show ?thesis
      using refresh [OF account, of "RunCleanupExpired (accountSlotKey i) (cc_slotTTLSeconds c)" i]
      by (simp add: CleanupExpiredAccountSlots_def refreshAccountActiveIndex_def settles_quiet)
  next
    case OpCleanKeys
    then show ?thesis using settles_clean_keys [OF cov] by (simp add: settles_quiet)
  next
    case (OpCleanProcess p)
    have "settles (CleanupStaleProcessSlots c p) (\<lambda>x. covered {}) t r"
      using settles_weaken [OF settles_clean_process [OF cov]] cov by (cases "p = []") (auto simp: CleanupStaleProcessSlots_def)
    with OpCleanProcess show ?thesis by (simp add: settles_quiet)
  qed auto
qed

text \<open>The states that operations reach one after the other, none of them disturbed: no two overlap, and no
  command fails or loses its reply. (The writes to the indexes are best effort: a lost one leaves a slot out.)\<close>

inductive undisturbed :: "concurrencyCache \<Rightarrow> int \<Rightarrow> redis_keys \<Rightarrow> bool" for c where
  start: "undisturbed c 0 no_keys"
| step: "undisturbed c t r \<Longrightarrow> mono clk \<Longrightarrow> t \<le> clk 0 \<Longrightarrow> run_prog clk (\<lambda>n. Fine) (op_prog c op) 0 r = (x, n, r') \<Longrightarrow>
    undisturbed c (clk n) r'"

lemma undisturbed_covered:
  assumes "undisturbed c t r" and "cache_ok c"
  shows "0 \<le> t \<and> covered {} t r"
  using assms(1)
proof induction
  case start
  show ?case by (simp add: covered_def persistent_def loaded_def redis_simps) (simp add: no_keys_def)
next
  case (step t r clk op x n r')
  then have "covered {} (clk n) r' \<and> 0 \<le> n"
    using settles_run [OF settles_op [OF assms(2)] step.hyps(2), where net = "\<lambda>n. Fine"] covered_later by blast
  moreover have "clk 0 \<le> clk n" using step.hyps(2) by (simp add: mono_def)
  ultimately show ?case using step by auto
qed

text \<open>Property C9. As long as operations run one after the other and no command to Redis fails or loses its reply, an
  account or user (with a positive 64-bit identifier) that has slots or a positive wait counter is in its
  active index.\<close>
theorem index_covers_load:
  assumes "undisturbed (NewConcurrencyCache m w) t r" and "0 < i" "i < 2 ^ 63"
  shows "(zget t (accountSlotKey i) r \<noteq> [] \<or> (\<exists>n > 0. count_get t (accountWaitKey i) r = Some n) \<longrightarrow>
      Itoa i \<in> set (zmembers (zget t accountActiveIndexKey r))) \<and>
    (zget t (userSlotKey i) r \<noteq> [] \<or> (\<exists>n > 0. count_get t (waitQueueKey i) r = Some n) \<longrightarrow>
      Itoa i \<in> set (zmembers (zget t userActiveIndexKey r)))"
proof -
  have cov: "covered {} t r" using undisturbed_covered [OF assms(1) new_cache_ok] by blast
  have "loaded spec i t r \<longrightarrow> Itoa i \<in> set (zmembers (zget t (si_indexKey spec) r))" if "slot_spec spec" for spec
    using cov that assms(2,3) index_stored(1) slot_spec_index [OF that]
    by (auto simp: covered_def int64_id_def indexed_def zmembers_def)
  from this [OF slot_specs(1)] this [OF slot_specs(2)] show ?thesis by (auto simp: loaded_def)
qed

definition one_slot :: "unit \<times> nat \<times> redis_keys" where
  "one_slot = run_prog (\<lambda>n. 0) (\<lambda>n. Fine) (op_prog (NewConcurrencyCache 15 0) (OpAcquireAccount 7 1 ''p2-1'')) 0 no_keys"

lemma one_slot_undisturbed: "undisturbed (NewConcurrencyCache 15 0) 0 (snd (snd one_slot))"
proof -
  obtain x n r where run: "one_slot = (x, n, r)" by (cases one_slot)
  from undisturbed.step [OF undisturbed.start _ _ run [unfolded one_slot_def]] show ?thesis unfolding run by (simp add: mono_def)
qed

lemma one_slot_held: "zmembers (zget 0 (accountSlotKey 7) (snd (snd one_slot))) = [''p2-1'']"
  by code_simp

lemma index_covers_load_witness:
  "zget 0 (accountSlotKey 7) (snd (snd one_slot)) \<noteq> [] \<and>
     ''7'' \<in> set (zmembers (zget 0 accountActiveIndexKey (snd (snd one_slot))))"
proof -
  have "zget 0 (accountSlotKey 7) (snd (snd one_slot)) \<noteq> []" using one_slot_held by (auto simp: zmembers_def)
  moreover have "Itoa 7 = ''7''" by code_simp
  ultimately show ?thesis using index_covers_load [OF one_slot_undisturbed, of 7] by simp
qed

text \<open>Property C10. If all operations so far ran one after the other without a failing command, and the cleaning at
  the start of a process runs undisturbed and without a failing command too, then it succeeds and leaves, of all
  accounts and users with positive 64-bit identifiers, only slots with the prefix of the process and no positive
  wait counter. (A slot that an overlap or a lost command left out of the index is not found.)\<close>
theorem startup_leaves_own_slots:
  assumes "undisturbed (NewConcurrencyCache m w) t r" and "pre \<noteq> []" and "mono clk" "t \<le> clk 0"
    and run: "run_prog clk (\<lambda>n. Fine) (CleanupStaleProcessSlots (NewConcurrencyCache m w) pre) 0 r = (x, n, r')"
  shows "x = Inr () \<and>
    (\<forall>i. 0 < i \<longrightarrow> i < 2 ^ 63 \<longrightarrow>
      (\<forall>s \<in> set (zmembers (zget (clk n) (accountSlotKey i) r')). has_prefix s pre) \<and>
      (\<forall>s \<in> set (zmembers (zget (clk n) (userSlotKey i) r')). has_prefix s pre) \<and>
      (\<forall>k. count_get (clk n) (accountWaitKey i) r' = Some k \<longrightarrow> k \<le> 0) \<and>
      (\<forall>k. count_get (clk n) (waitQueueKey i) r' = Some k \<longrightarrow> k \<le> 0))"
proof -
  have cov: "covered {} t r" using undisturbed_covered [OF assms(1) new_cache_ok] by blast
  let ?Q = "\<lambda>x t r. x = Inr () \<and> covered {} t r \<and> all_cleared pre (all_ids accountSlotIndex \<union> all_ids userSlotIndex) t r"
  have "?Q x (clk n) r' \<and> 0 \<le> n"
  proof (rule settles_run [OF settles_clean_process [OF cov assms(2)] assms(3,4) _ run])
    show "?Q x t' r" if "t \<le> t'" "?Q x t r" for x :: "char list + unit" and t t' r
      using that covered_later all_cleared_later by blast
  qed simp
  then have x: "x = Inr ()" and all: "all_cleared pre (all_ids accountSlotIndex \<union> all_ids userSlotIndex) (clk n) r'" by auto
  have one: "(\<forall>x \<in> set (zget (clk n) (si_slotKey spec i) r'). take (length pre) (fst x) = pre) \<and>
      (\<forall>k. count_get (clk n) (si_waitKey spec i) r' = Some k \<longrightarrow> k \<le> 0)"
    if "spec = accountSlotIndex \<or> spec = userSlotIndex" "0 < i" "i < 2 ^ 63" for spec i
  proof -
    have "cleared pre spec i (clk n) r'" using all that by (auto simp: all_cleared_def all_ids_def int64_id_def)
    then show ?thesis by (simp add: cleared_def split: option.splits)
  qed
  have "has_prefix s pre" if "take (length pre) s = pre" for s using that by (metis has_prefix_def take_is_prefix)
  with one [of accountSlotIndex] one [of userSlotIndex] x show ?thesis
    by (auto simp: zmembers_def)
qed

text \<open>Process \<open>p1\<close> starts after process \<open>p2\<close> died with a slot.\<close>

lemma startup_leaves_own_slots_witness:
  "case run_prog (\<lambda>n. 1000) (\<lambda>n. Fine) (CleanupStaleProcessSlots (NewConcurrencyCache 15 0) ''p1'') 0 (snd (snd one_slot)) of
     (x, n, r) \<Rightarrow> x = Inr () \<and> zmembers (zget 0 (accountSlotKey 7) (snd (snd one_slot))) = [''p2-1''] \<and>
       (\<forall>s \<in> set (zmembers (zget 1000 (accountSlotKey 7) r)). has_prefix s ''p1'')"
proof -
  obtain x n r where run: "run_prog (\<lambda>n. 1000) (\<lambda>n. Fine) (CleanupStaleProcessSlots (NewConcurrencyCache 15 0) ''p1'') 0
      (snd (snd one_slot)) = (x, n, r)"
    using prod_cases3 by blast
  have "x = Inr () \<and> (\<forall>s \<in> set (zmembers (zget 1000 (accountSlotKey 7) r)). has_prefix s ''p1'')"
    using startup_leaves_own_slots [OF one_slot_undisturbed _ _ _ run, simplified mono_def, simplified]
    by (elim conjE allE [of _ 7]) simp
  then show ?thesis using one_slot_held by (simp add: run)
qed

end
