(* ===== verification/Concurrency_Service.thy ===== *)
theory Concurrency_Service
  imports Concurrency_Cleanup "HOL-Library.Word"
begin

unbundle bit_operations_syntax

section \<open>The concurrency service\<close>

text \<open>
  \<open>service/concurrency_service.go\<close>: one process in front of the concurrency cache. It numbers the
  requests of the process, takes and releases their slots, counts waiting requests, keeps the loads of
  the accounts for a moment, and keeps the lease of a WebSocket connection alive. Go maps are finite maps;
  the cache, when there is one, also tracks API keys and grants ingress leases, as
  \<open>repository/concurrency_cache.go\<close> does. Times are in nanoseconds.
\<close>

subsection \<open>The identifiers of requests\<close>

definition digit36 :: "nat \<Rightarrow> char" where
  "digit36 d = ''0123456789abcdefghijklmnopqrstuvwxyz'' ! d"

fun base36 :: "nat \<Rightarrow> string" where
  "base36 n = (if n < 36 then [digit36 n] else base36 (n div 36) @ [digit36 (n mod 36)])"

declare base36.simps [simp del]

text \<open>The eight random bytes as a word, if they could be read; else the time and the number of the process.\<close>

definition initRequestIDPrefix :: "64 word option \<Rightarrow> 64 word \<Rightarrow> 64 word \<Rightarrow> string" where
  "initRequestIDPrefix b nanos pid =
     ''r'' @ base36 (unat (case b of Some n \<Rightarrow> n | None \<Rightarrow> nanos XOR push_bit 16 pid))"

record cachedAccountLoadBatch =
  cb_loadMap :: "(int, AccountLoadInfo) fmap"
  cb_expiresAt :: int

record ConcurrencyService =
  cy_cache :: "concurrencyCache option"
  cy_requestIDPrefix :: string
  cy_requestIDCounter :: "64 word"
  cy_accountLoadCacheTTL :: int
  cy_accountLoadCache :: "(string, cachedAccountLoadBatch) fmap"

definition generateRequestID :: "ConcurrencyService \<Rightarrow> string \<times> ConcurrencyService" where
  "generateRequestID s =
     (let n = cy_requestIDCounter s + 1
      in (cy_requestIDPrefix s @ ''-'' @ base36 (unat n), s\<lparr>cy_requestIDCounter := n\<rparr>))"

definition Service_CleanupStaleProcessSlots :: "ConcurrencyService \<Rightarrow> unit cache_prog" where
  "Service_CleanupStaleProcessSlots s =
     (case cy_cache s of None \<Rightarrow> Ret (Inr ()) | Some c \<Rightarrow> CleanupStaleProcessSlots c (cy_requestIDPrefix s))"

definition defaultAccountLoadBatchCacheTTL :: int where
  "defaultAccountLoadBatchCacheTTL = 200 * 10 ^ 6"

definition SetAccountLoadBatchCacheTTL :: "int \<Rightarrow> ConcurrencyService \<Rightarrow> ConcurrencyService" where
  "SetAccountLoadBatchCacheTTL ttl s =
     (let s' = s\<lparr>cy_accountLoadCacheTTL := ttl\<rparr>
      in if ttl \<le> 0 then s'\<lparr>cy_accountLoadCache := fmempty\<rparr> else s')"

definition NewConcurrencyService :: "concurrencyCache option \<Rightarrow> string \<Rightarrow> ConcurrencyService" where
  "NewConcurrencyService cache pre =
     SetAccountLoadBatchCacheTTL defaultAccountLoadBatchCacheTTL
       \<lparr>cy_cache = cache, cy_requestIDPrefix = pre, cy_requestIDCounter = 0, cy_accountLoadCacheTTL = 0,
        cy_accountLoadCache = fmempty\<rparr>"

subsection \<open>Slots\<close>

text \<open>The function that a caller has to call when its request is done.\<close>

datatype release_func = NoRelease | ReleaseAccount int string | ReleaseUser int string | ReleaseKey int string

record AcquireResult =
  ac_Acquired :: bool
  ac_ReleaseFunc :: "release_func option"

fun ReleaseFunc :: "concurrencyCache \<Rightarrow> release_func \<Rightarrow> unit redis_prog" where
  "ReleaseFunc c NoRelease = Ret ()"
| "ReleaseFunc c (ReleaseAccount i l) = quiet (ReleaseAccountSlot c i l)"
| "ReleaseFunc c (ReleaseUser i l) = quiet (ReleaseUserSlot c i l)"
| "ReleaseFunc c (ReleaseKey i l) = quiet (ReleaseAPIKeySlot i l)"

definition acquire_result :: "release_func \<Rightarrow> bool \<Rightarrow> AcquireResult" where
  "acquire_result f acquired =
     (if acquired then \<lparr>ac_Acquired = True, ac_ReleaseFunc = Some f\<rparr> else \<lparr>ac_Acquired = False, ac_ReleaseFunc = None\<rparr>)"

text \<open>A method of a cache that is \<open>nil\<close> panics.\<close>

definition nil_cache :: string where
  "nil_cache = ''nil pointer dereference''"

definition Service_AcquireAccountSlot ::
    "ConcurrencyService \<Rightarrow> int \<Rightarrow> int \<Rightarrow> AcquireResult cache_prog \<times> ConcurrencyService" where
  "Service_AcquireAccountSlot s accountID maxConcurrency =
     (if maxConcurrency \<le> 0 then (Ret (Inr (acquire_result NoRelease True)), s)
      else (case generateRequestID s of (requestID, s') \<Rightarrow>
        (case cy_cache s of
           None \<Rightarrow> Ret (Inl nil_cache)
         | Some c \<Rightarrow> map_redis_prog (map_sum id (acquire_result (ReleaseAccount accountID requestID)))
                       (AcquireAccountSlot c accountID maxConcurrency requestID), s')))"

definition Service_AcquireUserSlot ::
    "ConcurrencyService \<Rightarrow> int \<Rightarrow> int \<Rightarrow> AcquireResult cache_prog \<times> ConcurrencyService" where
  "Service_AcquireUserSlot s userID maxConcurrency =
     (if maxConcurrency \<le> 0 then (Ret (Inr (acquire_result NoRelease True)), s)
      else (case generateRequestID s of (requestID, s') \<Rightarrow>
        (case cy_cache s of
           None \<Rightarrow> Ret (Inl nil_cache)
         | Some c \<Rightarrow> map_redis_prog (map_sum id (acquire_result (ReleaseUser userID requestID)))
                       (AcquireUserSlot c userID maxConcurrency requestID), s')))"

definition Service_TrackAPIKeySlot :: "ConcurrencyService \<Rightarrow> int \<Rightarrow> release_func redis_prog \<times> ConcurrencyService" where
  "Service_TrackAPIKeySlot s apiKeyID =
     (case cy_cache s of
        None \<Rightarrow> (Ret NoRelease, s)
      | Some c \<Rightarrow>
          if apiKeyID \<le> 0 then (Ret NoRelease, s)
          else (case generateRequestID s of (requestID, s') \<Rightarrow>
            (map_redis_prog (\<lambda>x. case x of Inl e \<Rightarrow> NoRelease | Inr u \<Rightarrow> ReleaseKey apiKeyID requestID)
               (TrackAPIKeySlot c apiKeyID requestID), s')))"

definition zeroAPIKeyConcurrencyMap :: "int list \<Rightarrow> (int, int) fmap" where
  "zeroAPIKeyConcurrencyMap apiKeyIDs = fold (\<lambda>i. fmupd i 0) apiKeyIDs fmempty"

definition Service_GetAPIKeyConcurrencyBatch :: "ConcurrencyService \<Rightarrow> int list \<Rightarrow> (int, int) fmap redis_prog" where
  "Service_GetAPIKeyConcurrencyBatch s apiKeyIDs =
     (if apiKeyIDs = [] then Ret (zeroAPIKeyConcurrencyMap apiKeyIDs)
      else (case cy_cache s of
        None \<Rightarrow> Ret (zeroAPIKeyConcurrencyMap apiKeyIDs)
      | Some c \<Rightarrow>
          map_redis_prog (\<lambda>x. case x of
              Inl e \<Rightarrow> zeroAPIKeyConcurrencyMap apiKeyIDs
            | Inr counts \<Rightarrow> fold (\<lambda>i. fmupd i (case fmlookup counts i of None \<Rightarrow> 0 | Some n \<Rightarrow> n)) apiKeyIDs
                              (zeroAPIKeyConcurrencyMap apiKeyIDs))
            (GetAPIKeyConcurrencyBatch c apiKeyIDs)))"

definition Service_GetAccountConcurrencyBatch :: "ConcurrencyService \<Rightarrow> int list \<Rightarrow> (int, int) fmap cache_prog" where
  "Service_GetAccountConcurrencyBatch s accountIDs =
     (if accountIDs = [] then Ret (Inr fmempty)
      else (case cy_cache s of
        None \<Rightarrow> Ret (Inr (fold (\<lambda>i. fmupd i 0) accountIDs fmempty))
      | Some c \<Rightarrow> GetAccountConcurrencyBatch c accountIDs))"

definition Service_CleanupExpiredAccountSlots :: "ConcurrencyService \<Rightarrow> int \<Rightarrow> unit cache_prog" where
  "Service_CleanupExpiredAccountSlots s accountID =
     (case cy_cache s of None \<Rightarrow> Ret (Inr ()) | Some c \<Rightarrow> CleanupExpiredAccountSlots c accountID)"

subsection \<open>Waiting requests\<close>

text \<open>A counter that cannot be read or written lets the request wait.\<close>

definition fail_open :: "bool cache_prog \<Rightarrow> bool redis_prog" where
  "fail_open p = map_redis_prog (\<lambda>x. case x of Inl e \<Rightarrow> True | Inr b \<Rightarrow> b) p"

definition Service_IncrementWaitCount :: "ConcurrencyService \<Rightarrow> int \<Rightarrow> int \<Rightarrow> bool redis_prog" where
  "Service_IncrementWaitCount s userID maxWait =
     (case cy_cache s of None \<Rightarrow> Ret True | Some c \<Rightarrow> fail_open (IncrementWaitCount c userID maxWait))"

definition Service_DecrementWaitCount :: "ConcurrencyService \<Rightarrow> int \<Rightarrow> unit redis_prog" where
  "Service_DecrementWaitCount s userID =
     (case cy_cache s of None \<Rightarrow> Ret () | Some c \<Rightarrow> quiet (DecrementWaitCount c userID))"

definition Service_IncrementAccountWaitCount :: "ConcurrencyService \<Rightarrow> int \<Rightarrow> int \<Rightarrow> bool redis_prog" where
  "Service_IncrementAccountWaitCount s accountID maxWait =
     (case cy_cache s of None \<Rightarrow> Ret True | Some c \<Rightarrow> fail_open (IncrementAccountWaitCount c accountID maxWait))"

definition Service_DecrementAccountWaitCount :: "ConcurrencyService \<Rightarrow> int \<Rightarrow> unit redis_prog" where
  "Service_DecrementAccountWaitCount s accountID =
     (case cy_cache s of None \<Rightarrow> Ret () | Some c \<Rightarrow> quiet (DecrementAccountWaitCount c accountID))"

definition Service_GetAccountWaitingCount :: "ConcurrencyService \<Rightarrow> int \<Rightarrow> int cache_prog" where
  "Service_GetAccountWaitingCount s accountID =
     (case cy_cache s of None \<Rightarrow> Ret (Inr 0) | Some c \<Rightarrow> GetAccountWaitingCount accountID)"

definition CalculateMaxWait :: "int \<Rightarrow> int" where
  "CalculateMaxWait userConcurrency = (if userConcurrency \<le> 0 then 1 else userConcurrency) + 20"

subsection \<open>The loads of the accounts\<close>

text \<open>
  The loads that were read for a list of accounts answer the same question for a short time. The key is
  the number of accounts and a hash of their identifiers and limits, eight bytes each, little end first.
\<close>

definition le64 :: "int \<Rightarrow> string" where
  "le64 i = map (\<lambda>k. char_of (unat (drop_bit (8 * k) (word_of_int i :: 64 word)))) [0..<8]"

definition accountLoadBatchCacheKey :: "(string \<Rightarrow> string) \<Rightarrow> AccountWithConcurrency list \<Rightarrow> string" where
  "accountLoadBatchCacheKey sha256_hex accounts =
     Itoa (int (length accounts)) @ '':'' @
     sha256_hex (concat (map (\<lambda>a. le64 (aw_ID a) @ le64 (aw_MaxConcurrency a)) accounts))"

definition getCachedAccountLoadBatch ::
    "string \<Rightarrow> int \<Rightarrow> ConcurrencyService \<Rightarrow> (int, AccountLoadInfo) fmap option \<times> ConcurrencyService" where
  "getCachedAccountLoadBatch key now s =
     (case fmlookup (cy_accountLoadCache s) key of
        None \<Rightarrow> (None, s)
      | Some b \<Rightarrow>
          if \<not> now < cb_expiresAt b then (None, s\<lparr>cy_accountLoadCache := fmdrop key (cy_accountLoadCache s)\<rparr>)
          else (Some (cb_loadMap b), s))"

definition maxAccountLoadBatchCacheEntries :: nat where
  "maxAccountLoadBatchCacheEntries = 256"

type_synonym load_cache = "(string, cachedAccountLoadBatch) fmap"

text \<open>\<open>order\<close>: the keys in the order in which the loops over the map come upon them.\<close>

fun evict_batches :: "string list \<Rightarrow> load_cache \<Rightarrow> load_cache" where
  "evict_batches [] m = m"
| "evict_batches (k # ks) m =
     (if maxAccountLoadBatchCacheEntries \<le> map_length m then evict_batches ks (fmdrop k m) else m)"

definition storeCachedAccountLoadBatch ::
    "string list \<Rightarrow> int \<Rightarrow> string \<Rightarrow> (int, AccountLoadInfo) fmap \<Rightarrow> int \<Rightarrow> ConcurrencyService \<Rightarrow> ConcurrencyService" where
  "storeCachedAccountLoadBatch order now key loadMap expiresAt s =
     (let m = cy_accountLoadCache s;
          m' = (if maxAccountLoadBatchCacheEntries \<le> map_length m
                then evict_batches order (fmfilter (\<lambda>k. case fmlookup m k of None \<Rightarrow> False | Some b \<Rightarrow> now < cb_expiresAt b) m)
                else m)
      in s\<lparr>cy_accountLoadCache := fmupd key \<lparr>cb_loadMap = loadMap, cb_expiresAt = expiresAt\<rparr> m'\<rparr>)"

definition fetchAccountsLoadBatch ::
    "ConcurrencyService \<Rightarrow> AccountWithConcurrency list \<Rightarrow> (int, AccountLoadInfo) fmap cache_prog" where
  "fetchAccountsLoadBatch s accounts =
     (case cy_cache s of None \<Rightarrow> Ret (Inr fmempty) | Some c \<Rightarrow> GetAccountsLoadBatch c accounts)"

text \<open>
  One caller: \<open>t1\<close> and \<open>t2\<close> are the times of the two looks into the cache, \<open>t3\<close> the one of the store. The
  stored loads are a copy.
\<close>

definition getAccountsLoadBatch ::
    "(string \<Rightarrow> string) \<Rightarrow> string list \<Rightarrow> int \<Rightarrow> int \<Rightarrow> int \<Rightarrow> ConcurrencyService \<Rightarrow> AccountWithConcurrency list \<Rightarrow>
     bool \<Rightarrow> ((string + (int, AccountLoadInfo) fmap) \<times> ConcurrencyService) redis_prog" where
  "getAccountsLoadBatch sha256_hex order t1 t2 t3 s accounts allowCache =
     (if accounts = [] \<or> cy_cache s = None then Ret (Inr fmempty, s)
      else if \<not> allowCache \<or> cy_accountLoadCacheTTL s \<le> 0 then map_redis_prog (\<lambda>x. (x, s)) (fetchAccountsLoadBatch s accounts)
      else (let key = accountLoadBatchCacheKey sha256_hex accounts in
        case getCachedAccountLoadBatch key t1 s of
          (Some loads, s1) \<Rightarrow> Ret (Inr loads, s1)
        | (None, s1) \<Rightarrow>
            (case getCachedAccountLoadBatch key t2 s1 of
               (Some loads, s2) \<Rightarrow> Ret (Inr loads, s2)
             | (None, s2) \<Rightarrow>
                 map_redis_prog (\<lambda>x. case x of
                     Inl e \<Rightarrow> (Inl e, s2)
                   | Inr loads \<Rightarrow> (Inr loads, storeCachedAccountLoadBatch order t3 key loads (t2 + cy_accountLoadCacheTTL s) s2))
                   (fetchAccountsLoadBatch s2 accounts))))"

definition Service_GetUsersLoadBatch :: "ConcurrencyService \<Rightarrow> UserWithConcurrency list \<Rightarrow> (int, UserLoadInfo) fmap cache_prog" where
  "Service_GetUsersLoadBatch s users =
     (case cy_cache s of None \<Rightarrow> Ret (Inr fmempty) | Some c \<Rightarrow> GetUsersLoadBatch c users)"

subsection \<open>Leases of WebSocket connections\<close>

definition openAIWSIngressLeaseTTL :: int where
  "openAIWSIngressLeaseTTL = 60 * 10 ^ 9"

definition openAIWSIngressLeaseRefreshInterval :: int where
  "openAIWSIngressLeaseRefreshInterval = 20 * 10 ^ 9"

definition openAIWSIngressLeaseOperationTO :: int where
  "openAIWSIngressLeaseOperationTO = 2 * 10 ^ 9"

record OpenAIWSIngressLease =
  il_apiKeyID :: int
  il_leaseID :: string

text \<open>No lease is needed when there is no limit: the connection is admitted without one.\<close>

definition Service_AcquireOpenAIWSIngressLease ::
    "ConcurrencyService \<Rightarrow> int \<Rightarrow> int \<Rightarrow> (OpenAIWSIngressLease option \<times> bool) cache_prog \<times> ConcurrencyService" where
  "Service_AcquireOpenAIWSIngressLease s apiKeyID maxConnections =
     (if maxConnections \<le> 0 then (Ret (Inr (None, True)), s)
      else (case cy_cache s of
        None \<Rightarrow> (Ret (Inl ''openai websocket ingress lease cache is unavailable''), s)
      | Some c \<Rightarrow>
          if apiKeyID \<le> 0 then (Ret (Inl ''openai websocket ingress lease cache is unavailable''), s)
          else (case generateRequestID s of (leaseID, s') \<Rightarrow>
            (map_redis_prog (map_sum id (\<lambda>acquired.
                if acquired then (Some \<lparr>il_apiKeyID = apiKeyID, il_leaseID = leaseID\<rparr>, True) else (None, False)))
               (AcquireOpenAIWSIngressLease apiKeyID maxConnections leaseID), s'))))"

definition ingress_release :: "OpenAIWSIngressLease \<Rightarrow> unit redis_prog" where
  "ingress_release l =
     (if il_apiKeyID l \<le> 0 \<or> il_leaseID l = [] then Ret ()
      else quiet (ReleaseOpenAIWSIngressLease (il_apiKeyID l) (il_leaseID l)))"

text \<open>
  One refresh, by its answer and the time at which it came: the time of the last confirmation, and
  whether the lease is lost. The loop runs over the ticks until it is.
\<close>

definition ingress_refresh :: "string + bool \<Rightarrow> int \<Rightarrow> int \<Rightarrow> int \<times> bool" where
  "ingress_refresh owned now lastConfirmedAt =
     (case owned of
        Inr True \<Rightarrow> (now, False)
      | Inr False \<Rightarrow> (lastConfirmedAt, True)
      | Inl e \<Rightarrow> (lastConfirmedAt, openAIWSIngressLeaseTTL \<le> now - lastConfirmedAt))"

fun ingress_refresh_loop :: "int \<Rightarrow> ((string + bool) \<times> int) list \<Rightarrow> int option" where
  "ingress_refresh_loop lastConfirmedAt [] = Some lastConfirmedAt"
| "ingress_refresh_loop lastConfirmedAt ((owned, now) # ticks) =
     (case ingress_refresh owned now lastConfirmedAt of
        (t, True) \<Rightarrow> None
      | (t, False) \<Rightarrow> ingress_refresh_loop t ticks)"

end
