(* ===== verification/Concurrency_Requests.thy ===== *)
theory Concurrency_Requests
  imports Concurrency_Service
begin

section \<open>What the concurrency service guarantees\<close>

text \<open>
  The identifiers that the processes give their requests are all different; a slot is granted exactly below
  the limit, and a release gives back what the acquisition took; loads that were read once answer until
  they expire; and a WebSocket lease that nobody confirms is given up.
\<close>

subsection \<open>The identifiers of requests\<close>









subsection \<open>Slots\<close>

definition run_at :: "int \<Rightarrow> 'a redis_prog \<Rightarrow> redis_keys \<Rightarrow> 'a \<times> redis_keys" where
  "run_at t p r = (case run_prog (\<lambda>n. t) (\<lambda>n. Fine) p 0 r of (x, n, r') \<Rightarrow> (x, r'))"

lemma run_prog_from: "run_prog (\<lambda>n. t) (\<lambda>n. Fine) p m r = (x, n, r') \<Longrightarrow> run_at t p r = (x, r')"
proof -
  have "run_prog (\<lambda>n. t) (\<lambda>n. Fine) p m r = (x, n, r') \<Longrightarrow> \<exists>n'. run_prog (\<lambda>n. t) (\<lambda>n. Fine) p m' r = (x, n', r')" for m'
    by (induction p arbitrary: m m' r) (auto split: prod.splits)
  from this [of 0] show "run_prog (\<lambda>n. t) (\<lambda>n. Fine) p m r = (x, n, r') \<Longrightarrow> run_at t p r = (x, r')"
    by (auto simp: run_at_def)
qed

lemma run_at_Ret [simp]: "run_at t (Ret x) r = (x, r)"
  by (simp add: run_at_def)

lemma run_at_Send [simp]: "run_at t (Send cmd k) r = (case redis_exec t cmd r of (rep, r') \<Rightarrow> run_at t (k rep) r')"
proof -
  obtain x n r' where "run_prog (\<lambda>n. t) (\<lambda>n. Fine) (k (fst (redis_exec t cmd r))) 1 (snd (redis_exec t cmd r)) = (x, n, r')"
    using prod_cases3 by blast
  then show ?thesis using run_prog_from by (fastforce simp: run_at_def case_prod_unfold)
qed

lemma run_at_map: "run_at t (map_redis_prog f p) r = map_prod f id (run_at t p r)"
  by (induction p arbitrary: r) (auto split: prod.split)

definition held :: "int \<Rightarrow> string \<Rightarrow> int \<Rightarrow> redis_keys \<Rightarrow> zset" where
  "held t k ttl r = filter (\<lambda>x. redis_secs t - ttl < snd x) (zget t k r)"

definition slot_granted :: "int \<Rightarrow> string \<Rightarrow> string \<Rightarrow> int \<Rightarrow> int \<Rightarrow> string \<Rightarrow> redis_keys \<Rightarrow> bool" where
  "slot_granted t k lk m ttl l r \<longleftrightarrow>
     l \<in> set (zmembers (held t k ttl r)) \<or> int (length (held t k ttl r) + length (held t lk liveLeaseTTLSeconds r)) < m"

lemma acquire_decides:
  assumes "0 < ttl" and "k \<noteq> lk"
  shows "fst (acquireScript t k lk m ttl l r) = (if slot_granted t k lk m ttl l r then 1 else 0, redis_secs t)"
    and "zget t k (snd (acquireScript t k lk m ttl l r)) =
      (if slot_granted t k lk m ttl l r then zadd l (redis_secs t) (held t k ttl r) else held t k ttl r)"
  using assms
  by (auto simp: acquireScript_def Let_def slot_granted_def held_def redis_simps ZSCORE_def ZCARD_def zmembers_def map_of_eq_None_iff
      liveLeaseTTLSeconds_def)

lemma zget_touch: "k \<noteq> k' \<Longrightarrow> zget t k (snd (run_at t (touchActiveIndexAt k' i e (Ret x)) r)) = zget t k r"
  by (simp add: touchActiveIndexAt_def best_effort_def redis_simps)

text \<open>An account slot is granted if the request already holds one or the unexpired slots and live leases are
  fewer than the limit; the unexpired slots stay, and a granted one is added.\<close>
theorem account_slot_granted:
  fixes c i m l t r
  defines "granted \<equiv> slot_granted t (accountSlotKey i) (liveAccountSlotKey i) m (cc_slotTTLSeconds c) l r"
    and "before \<equiv> held t (accountSlotKey i) (cc_slotTTLSeconds c) r"
  assumes "cache_ok c"
  shows "fst (run_at t (AcquireAccountSlot c i m l) r) = Inr granted \<and>
    zget t (accountSlotKey i) (snd (run_at t (AcquireAccountSlot c i m l) r)) =
      (if granted then zadd l (redis_secs t) before else before)"
proof -
  let ?acquire = "acquireScript t (accountSlotKey i) (liveAccountSlotKey i) m (cc_slotTTLSeconds c) l r"
  have ttl: "0 < cc_slotTTLSeconds c" using assms(3) by (simp add: cache_ok_def)
  note decides = acquire_decides [OF ttl other_family(3), of t i i m l r, folded granted_def before_def]
  have run: "run_at t (AcquireAccountSlot c i m l) r =
      run_at t (if granted then touchActiveIndexAt accountActiveIndexKey i (redis_secs t + cc_slotTTLSeconds c) (Ret (Inr True))
                else Ret (Inr False)) (snd ?acquire)"
    using decides(1) by (simp add: AcquireAccountSlot_def runScriptInt64Pair_def case_prod_unfold)
  have "fst (run_at t (touchActiveIndexAt k i e (Ret x)) r') = x" for k e r' and x :: "char list + bool"
    by (simp add: touchActiveIndexAt_def best_effort_def)
  then show ?thesis using decides(2) by (simp add: run zget_touch)
qed

lemma account_slot_granted_witness:
  "slot_granted 1000 (accountSlotKey 7) (liveAccountSlotKey 7) 1 900 ''p1-1'' no_keys \<and>
   fst (run_at 1000 (AcquireAccountSlot (NewConcurrencyCache 15 0) 7 1 ''p1-1'') no_keys) = Inr True"
proof -
  have "slot_granted 1000 (accountSlotKey 7) (liveAccountSlotKey 7) 1 900 ''p1-1'' no_keys"
    by (simp add: slot_granted_def held_def redis_simps)
  moreover have "cc_slotTTLSeconds (NewConcurrencyCache 15 0) = 900" by (simp add: NewConcurrencyCache_def)
  ultimately show ?thesis using account_slot_granted [OF new_cache_ok] by simp
qed

lemma zrem_insert: "filter (\<lambda>x. fst x \<noteq> b) (insert_by lt (b, s) z) = filter (\<lambda>x. fst x \<noteq> b) z"
  by (induction z) auto

lemma zrem_zadd: "b \<notin> set (zmembers z) \<Longrightarrow> zrem b (zadd b s z) = z"
  by (auto simp: zrem_def zadd_def zrem_insert zmembers_def filter_id_conv image_iff intro!: filter_True)

lemma held_later:
  assumes "t \<le> t'"
  shows "filter (\<lambda>x. redis_secs t' - ttl < snd x) (held t k ttl r) = filter (\<lambda>x. redis_secs t' - ttl < snd x) (zget t k r)"
proof -
  have "redis_secs t \<le> redis_secs t'" using assms by (simp add: redis_secs_def zdiv_mono1)
  then show ?thesis by (auto simp: held_def filter_filter intro!: filter_cong)
qed

lemma zget_refresh:
  assumes "k \<noteq> indexKey"
  shows "zget t k (snd (run_at t (refreshActiveIndex c indexKey i k waitKey (Ret x)) r)) =
    (if 0 < i then filter (\<lambda>x. redis_secs t - cc_slotTTLSeconds c < snd x) (zget t k r) else zget t k r)"
proof -
  let ?r = "ZREMRANGEBYSCORE t k (redis_secs t - cc_slotTTLSeconds c) r"
  have index: "zget t k (fold (\<lambda>(m, s). ZADD t indexKey s m) zs r') = zget t k r'" for zs r'
    using assms by (induction zs arbitrary: r') (auto simp: redis_simps)
  show ?thesis
  proof (cases "count_get t waitKey ?r")
    case None
    with assms show ?thesis
      by (simp add: refreshActiveIndex_def readActiveLoadForKey_def pipe_failed_def touchActiveIndexAt_def best_effort_def redis_simps Let_def)
  next
    case (Some n)
    with assms show ?thesis
      by (simp add: refreshActiveIndex_def readActiveLoadForKey_def pipe_failed_def touchActiveIndexAt_def best_effort_def redis_simps Let_def)
  qed
qed

lemma release_account:
  "zget t (accountSlotKey i) (snd (run_at t (ReleaseAccountSlot c i l) r)) =
     (if 0 < i then filter (\<lambda>x. redis_secs t - cc_slotTTLSeconds c < snd x) (zrem l (zget t (accountSlotKey i) r))
      else zrem l (zget t (accountSlotKey i) r))"
  by (simp add: ReleaseAccountSlot_def must_def refreshAccountActiveIndex_def zget_refresh redis_simps)

lemma acquire_holds:
  assumes c: "cache_ok c" and granted: "slot_granted t (accountSlotKey i) (liveAccountSlotKey i) m (cc_slotTTLSeconds c) l r"
    and time: "t' < t + cc_slotTTLSeconds c * 1000"
  shows "zget t' (accountSlotKey i) (snd (run_at t (AcquireAccountSlot c i m l) r)) =
    zadd l (redis_secs t) (held t (accountSlotKey i) (cc_slotTTLSeconds c) r)"
proof -
  let ?k = "accountSlotKey i"
  let ?acquire = "acquireScript t ?k (liveAccountSlotKey i) m (cc_slotTTLSeconds c) l r"
  have ttl: "0 < cc_slotTTLSeconds c" using c by (simp add: cache_ok_def)
  have "zget t' ?k (hold_member t ?k ttl l r') = zadd l (redis_secs t) (zget t ?k r')" if "t' < t + ttl * 1000" for r' ttl
    using that by (simp add: hold_member_def EXPIRE_def zget_zput before_deadline_def redis_simps)
  from this [OF time] have "zget t' ?k (snd ?acquire) = zadd l (redis_secs t) (held t ?k (cc_slotTTLSeconds c) r)"
    using granted acquire_decides(1) [OF ttl other_family(3), of t i i m l r]
    by (auto simp: acquireScript_def Let_def held_def redis_simps split: if_splits)
  moreover have "zget t' ?k (snd (run_at t (touchActiveIndexAt accountActiveIndexKey i e (Ret x)) r')) = zget t' ?k r'" for e r' and x :: "char list + bool"
    by (simp add: touchActiveIndexAt_def best_effort_def ZADD_def zget_zput)
  ultimately show ?thesis
    using granted acquire_decides(1) [OF ttl other_family(3), of t i i m l r]
    by (simp add: AcquireAccountSlot_def runScriptInt64Pair_def case_prod_unfold)
qed

text \<open>Property C12. A slot that was granted to a new request and is released before it expires leaves no trace: the unexpired
  slots of the account are those from before the acquisition.\<close>
theorem release_undoes_acquire:
  assumes c: "cy_cache s = Some c" "cache_ok c" and m: "0 < m"
    and fresh: "fst (generateRequestID s) \<notin> set (zmembers (zget t (accountSlotKey i) r))"
    and acquired: "run_at t (fst (Service_AcquireAccountSlot s i m)) r = (Inr \<lparr>ac_Acquired = True, ac_ReleaseFunc = Some f\<rparr>, r1)"
    and time: "t \<le> t'" "t' < t + cc_slotTTLSeconds c * 1000"
    and released: "run_at t' (ReleaseFunc c f) r1 = (u, r2)"
  shows "held t' (accountSlotKey i) (cc_slotTTLSeconds c) r2 =
    filter (\<lambda>x. redis_secs t' - cc_slotTTLSeconds c < snd x) (zget t (accountSlotKey i) r)"
proof -
  let ?k = "accountSlotKey i" and ?l = "fst (generateRequestID s)"
  let ?unexpired = "filter (\<lambda>x. redis_secs t' - cc_slotTTLSeconds c < snd x)"
  obtain x r' where run: "run_at t (AcquireAccountSlot c i m ?l) r = (x, r')" by (cases "run_at t (AcquireAccountSlot c i m ?l) r")
  from acquired m have "f = ReleaseAccount i ?l \<and> x = Inr True \<and> r1 = r'"
    by (cases x) (auto simp: Service_AcquireAccountSlot_def run_at_map acquire_result_def case_prod_unfold c(1) run split: if_splits)
  then have f: "f = ReleaseAccount i ?l" and granted: "fst (run_at t (AcquireAccountSlot c i m ?l) r) = Inr True"
    and r1: "r1 = snd (run_at t (AcquireAccountSlot c i m ?l) r)"
    by (simp_all add: run)
  have "slot_granted t ?k (liveAccountSlotKey i) m (cc_slotTTLSeconds c) ?l r"
    using granted account_slot_granted [OF c(2), of t i m ?l r] by auto
  from acquire_holds [OF c(2) this time(2)] have z1: "zget t' ?k r1 = zadd ?l (redis_secs t) (held t ?k (cc_slotTTLSeconds c) r)"
    by (simp add: r1)
  have "?l \<notin> set (zmembers (held t ?k (cc_slotTTLSeconds c) r))" using fresh by (auto simp: held_def zmembers_def)
  then have "zrem ?l (zget t' ?k r1) = held t ?k (cc_slotTTLSeconds c) r" by (simp add: z1 zrem_zadd)
  moreover have "r2 = snd (run_at t' (ReleaseAccountSlot c i ?l) r1)"
    using released by (cases "run_at t' (ReleaseAccountSlot c i ?l) r1") (simp add: f quiet_def run_at_map)
  ultimately have "?unexpired (zget t' ?k r2) = ?unexpired (held t ?k (cc_slotTTLSeconds c) r)"
    by (simp add: release_account)
  then show ?thesis using held_later [OF time(1)] by (simp add: held_def)
qed

definition one_service :: ConcurrencyService where
  "one_service = NewConcurrencyService (Some (NewConcurrencyCache 15 0)) ''r7''"

lemma release_undoes_acquire_witness:
  "held 5000 (accountSlotKey 7) 900 (snd (run_at 5000 (ReleaseFunc (NewConcurrencyCache 15 0) (ReleaseAccount 7 ''r7-1''))
     (snd (run_at 1000 (fst (Service_AcquireAccountSlot one_service 7 1)) no_keys)))) = []"
proof -
  let ?p = "fst (Service_AcquireAccountSlot one_service 7 1)" and ?c = "NewConcurrencyCache 15 0"
  have new: "cy_cache one_service = Some ?c" by (simp add: one_service_def NewConcurrencyService_def SetAccountLoadBatchCacheTTL_def Let_def)
  have ttl: "cc_slotTTLSeconds ?c = 900" by (simp add: NewConcurrencyCache_def)
  have "fst (run_at 1000 ?p no_keys) = Inr \<lparr>ac_Acquired = True, ac_ReleaseFunc = Some (ReleaseAccount 7 ''r7-1'')\<rparr>"
    by code_simp
  then have acquired: "run_at 1000 ?p no_keys =
      (Inr \<lparr>ac_Acquired = True, ac_ReleaseFunc = Some (ReleaseAccount 7 ''r7-1'')\<rparr>, snd (run_at 1000 ?p no_keys))"
    by (metis prod.collapse)
  show ?thesis
    using release_undoes_acquire [OF new new_cache_ok _ _ acquired _ _ surjective_pairing, of 5000] ttl
    by (simp add: redis_simps zmembers_def)
qed

subsection \<open>Loads that were read\<close>

lemma evict_bound:
  "fmdom' m \<subseteq> set order \<Longrightarrow> map_length (evict_batches order m) < maxAccountLoadBatchCacheEntries"
proof (induction order arbitrary: m)
  case Nil
  then have "m = fmempty" by (metis empty_set fmdrop_set_fmdom fmdrop_set_null subset_empty)
  then show ?case by (simp add: maxAccountLoadBatchCacheEntries_def)
next
  case (Cons k order)
  then have "fmdom' (fmdrop k m) \<subseteq> set order" by (auto simp: fmdom'_drop)
  then show ?case using Cons.IH by simp
qed

lemma store_bound:
  assumes "fmdom' (cy_accountLoadCache s) \<subseteq> set order"
  shows "map_length (cy_accountLoadCache (storeCachedAccountLoadBatch order now key loads e s)) \<le> maxAccountLoadBatchCacheEntries"
proof -
  have "map_length (fmupd key b m) \<le> maxAccountLoadBatchCacheEntries" if "map_length m < maxAccountLoadBatchCacheEntries" for b and m :: load_cache
    using that by (simp add: map_len)
  moreover have "fmdom' (fmfilter P (cy_accountLoadCache s)) \<subseteq> set order" for P
    using assms by auto
  ultimately show ?thesis using evict_bound by (simp add: storeCachedAccountLoadBatch_def Let_def)
qed

text \<open>The loads that were read for a list of accounts answer for it until their time is over and no longer: before,
  no command is sent; after, they are read again.\<close>
theorem loads_answer_until_expiry:
  fixes sha256_hex accounts
  defines "key \<equiv> accountLoadBatchCacheKey sha256_hex accounts"
  assumes s: "accounts \<noteq> []" "cy_cache s = Some c" "0 < cy_accountLoadCacheTTL s"
    and miss: "fst (getCachedAccountLoadBatch key t1 s) = None" "t1 \<le> t2"
    and run: "run_at t (getAccountsLoadBatch sha256_hex order t1 t2 t3 s accounts True) r = ((Inr loads, s'), r')"
  shows "(t4 < t2 + cy_accountLoadCacheTTL s \<longrightarrow>
      getAccountsLoadBatch sha256_hex order' t4 t5 t6 s' accounts True = Ret (Inr loads, s')) \<and>
    (t2 + cy_accountLoadCacheTTL s \<le> t4 \<longrightarrow> t4 \<le> t5 \<longrightarrow>
      (\<exists>f. getAccountsLoadBatch sha256_hex order' t4 t5 t6 s' accounts True = map_redis_prog f (GetAccountsLoadBatch c accounts)))"
proof -
  have get: "getCachedAccountLoadBatch key t' s'' =
      (case fmlookup (cy_accountLoadCache s'') key of
         Some b \<Rightarrow> if t' < cb_expiresAt b then (Some (cb_loadMap b), s'') else (None, s''\<lparr>cy_accountLoadCache := fmdrop key (cy_accountLoadCache s'')\<rparr>)
       | None \<Rightarrow> (None, s''))" for t' s''
    by (auto simp: getCachedAccountLoadBatch_def split: option.split)
  obtain s1 where s1: "getCachedAccountLoadBatch key t1 s = (None, s1)" "cy_cache s1 = Some c"
      "cy_accountLoadCacheTTL s1 = cy_accountLoadCacheTTL s" "fmlookup (cy_accountLoadCache s1) key = None"
    using miss(1) s(2) by (auto simp: get split: option.splits if_splits)
  then have "getCachedAccountLoadBatch key t2 s1 = (None, s1)" by (simp add: get)
  with run s s1 obtain m where s': "s' = s1\<lparr>cy_accountLoadCache := fmupd key \<lparr>cb_loadMap = loads, cb_expiresAt = t2 + cy_accountLoadCacheTTL s\<rparr> m\<rparr>"
    by (cases "run_at t (GetAccountsLoadBatch c accounts) r"; cases "fst (run_at t (GetAccountsLoadBatch c accounts) r)")
      (auto simp: getAccountsLoadBatch_def key_def [symmetric] fetchAccountsLoadBatch_def run_at_map storeCachedAccountLoadBatch_def Let_def)
  show ?thesis
    using s s1 by (auto simp: s' getAccountsLoadBatch_def key_def [symmetric] get fetchAccountsLoadBatch_def)
qed

lemma loads_answer_until_expiry_witness:
  "\<exists>loads s' r'. run_at 0 (getAccountsLoadBatch (\<lambda>x. x) [] 0 0 0 one_service [\<lparr>aw_ID = 7, aw_MaxConcurrency = 1\<rparr>] True) no_keys =
       ((Inr loads, s'), r') \<and>
     getAccountsLoadBatch (\<lambda>x. x) [] 1000 1000 1000 s' [\<lparr>aw_ID = 7, aw_MaxConcurrency = 1\<rparr>] True = Ret (Inr loads, s')"
proof -
  let ?as = "[\<lparr>aw_ID = 7, aw_MaxConcurrency = 1\<rparr>]"
  let ?run = "run_at 0 (getAccountsLoadBatch (\<lambda>x. x) [] 0 0 0 one_service ?as True) no_keys"
  have "case fst (fst ?run) of Inl e \<Rightarrow> False | Inr loads \<Rightarrow> True" by code_simp
  then obtain loads s' r' where run: "?run = ((Inr loads, s'), r')"
    by (cases ?run) (auto split: sum.splits)
  have s: "cy_cache one_service = Some (NewConcurrencyCache 15 0)" "cy_accountLoadCacheTTL one_service = 200000000"
    "cy_accountLoadCache one_service = fmempty"
    by (simp_all add: one_service_def NewConcurrencyService_def SetAccountLoadBatchCacheTTL_def defaultAccountLoadBatchCacheTTL_def Let_def)
  then have "fst (getCachedAccountLoadBatch k 0 one_service) = None" for k
    by (simp add: getCachedAccountLoadBatch_def)
  from loads_answer_until_expiry [OF _ s(1) _ this _ run, of 1000] s(2) run show ?thesis by auto
qed

text \<open>However often loads are read, at most 256 lists of accounts are remembered.\<close>
theorem load_cache_bounded:
  assumes "map_length (cy_accountLoadCache s) \<le> maxAccountLoadBatchCacheEntries"
    and "fmdom' (cy_accountLoadCache s) \<subseteq> set order"
    and "run_at t (getAccountsLoadBatch sha256_hex order t1 t2 t3 s accounts allowCache) r = ((x, s'), r')"
  shows "map_length (cy_accountLoadCache s') \<le> maxAccountLoadBatchCacheEntries"
proof -
  have get: "fmdom' (cy_accountLoadCache s'') \<subseteq> fmdom' (cy_accountLoadCache s') \<and>
      map_length (cy_accountLoadCache s'') \<le> map_length (cy_accountLoadCache s')"
    if "getCachedAccountLoadBatch key now s' = (o', s'')" for key now o' and s' s'' :: ConcurrencyService
    using that map_length_drop_le by (auto simp: getCachedAccountLoadBatch_def split: option.splits if_splits)
  let ?key = "accountLoadBatchCacheKey sha256_hex accounts"
  obtain o1 s1 o2 s2 where g: "getCachedAccountLoadBatch ?key t1 s = (o1, s1)" "getCachedAccountLoadBatch ?key t2 s1 = (o2, s2)"
    by (metis prod.collapse)
  note cached = get [OF g(1)] get [OF g(2)]
  have "fmdom' (cy_accountLoadCache s2) \<subseteq> set order" using cached assms(2) by blast
  note stored = store_bound [OF this]
  obtain y r2 where y: "run_at t (fetchAccountsLoadBatch s2 accounts) r = (y, r2)" by (cases "run_at t (fetchAccountsLoadBatch s2 accounts) r")
  obtain z r3 where z: "run_at t (fetchAccountsLoadBatch s accounts) r = (z, r3)" by (cases "run_at t (fetchAccountsLoadBatch s accounts) r")
  show ?thesis
    using assms(1,3) cached stored
    by (cases y) (auto simp: getAccountsLoadBatch_def Let_def g run_at_map y z split: if_splits option.splits)
qed

lemma load_cache_bounded_witness:
  "map_length (cy_accountLoadCache (snd (fst (run_at 0
     (getAccountsLoadBatch (\<lambda>x. x) [] 0 0 0 one_service [\<lparr>aw_ID = 7, aw_MaxConcurrency = 1\<rparr>] True) no_keys)))) \<le>
   maxAccountLoadBatchCacheEntries"
proof -
  let ?run = "run_at 0 (getAccountsLoadBatch (\<lambda>x. x) [] 0 0 0 one_service [\<lparr>aw_ID = 7, aw_MaxConcurrency = 1\<rparr>] True) no_keys"
  obtain x s' r' where run: "?run = ((x, s'), r')" by (metis prod.collapse)
  have "cy_accountLoadCache one_service = fmempty"
    by (simp add: one_service_def NewConcurrencyService_def SetAccountLoadBatchCacheTTL_def defaultAccountLoadBatchCacheTTL_def Let_def)
  with load_cache_bounded [OF _ _ run] show ?thesis by (simp add: run)
qed

subsection \<open>Leases of WebSocket connections\<close>

text \<open>When Redis last said that the lease is held: at the last of the refreshes it answered with yes, or at the start.\<close>

definition last_confirmed :: "int \<Rightarrow> ((string + bool) \<times> int) list \<Rightarrow> int" where
  "last_confirmed start ticks = last (start # map snd (filter (\<lambda>x. fst x = Inr True) ticks))"

lemma last_confirmed_Cons: "last_confirmed start (x # ticks) = last_confirmed (if fst x = Inr True then snd x else start) ticks"
  by (simp add: last_confirmed_def)

definition lost_at :: "int \<Rightarrow> ((string + bool) \<times> int) list \<Rightarrow> string + bool \<Rightarrow> int \<Rightarrow> bool" where
  "lost_at start ticks answer now =
     (answer = Inr False \<or> (\<exists>e. answer = Inl e) \<and> openAIWSIngressLeaseTTL \<le> now - last_confirmed start ticks)"

lemma lost_at_Cons: "lost_at start (x # pre) a n = lost_at (if fst x = Inr True then snd x else start) pre a n"
  by (simp add: lost_at_def last_confirmed_Cons)

lemma loop_decides:
  "ingress_refresh_loop start ticks =
     (if \<exists>pre answer now post. ticks = pre @ (answer, now) # post \<and> lost_at start pre answer now
      then None else Some (last_confirmed start ticks))"
proof (induction ticks arbitrary: start)
  case Nil
  show ?case by (simp add: last_confirmed_def)
next
  case (Cons x ticks)
  obtain answer now where x: "x = (answer, now)" by (cases x)
  have split: "(\<exists>pre a n post. x # ticks = pre @ (a, n) # post \<and> lost_at start pre a n) \<longleftrightarrow>
      lost_at start [] answer now \<or>
      (\<exists>pre a n post. ticks = pre @ (a, n) # post \<and> lost_at (if answer = Inr True then now else start) pre a n)"
    (is "?l \<longleftrightarrow> ?here \<or> ?later")
  proof
    assume ?l
    then obtain pre a n post where "x # ticks = pre @ (a, n) # post" "lost_at start pre a n" by blast
    note l = this
    show "?here \<or> ?later"
    proof (cases pre)
      case Nil
      with l show ?thesis by (simp add: x)
    next
      case (Cons y list)
      with l have "ticks = list @ (a, n) # post \<and> lost_at (if answer = Inr True then now else start) list a n"
        by (auto simp: x lost_at_Cons)
      then show ?thesis by blast
    qed
  next
    assume "?here \<or> ?later"
    then show ?l
    proof
      assume ?here
      then show ?l by (intro exI [of _ "[]"]) (simp add: x)
    next
      assume ?later
      then obtain pre a n post where "ticks = pre @ (a, n) # post" "lost_at (if answer = Inr True then now else start) pre a n" by blast
      then show ?l by (intro exI [of _ "x # pre"]) (auto simp: x lost_at_Cons)
    qed
  qed
  show ?case
    unfolding split
    by (cases answer) (auto simp: x Cons.IH ingress_refresh_def last_confirmed_Cons lost_at_def last_confirmed_def [of _ "[]"] split: bool.split)
qed

text \<open>Property C23. The refresh loop of a WebSocket connection gives the lease up exactly when Redis answers that it is not held,
  or a refresh fails when Redis last said yes, or the connection started, a whole lease ago or longer; failed refreshes never
  count as confirmations. So at any time a connection that goes on was confirmed by Redis, or started, less than a lease and
  the time since its last refresh ago.\<close>
theorem unconfirmed_lease_given_up:
  "(ingress_refresh_loop start ticks = None \<longleftrightarrow>
      (\<exists>pre answer u post. ticks = pre @ (answer, u) # post \<and>
        (answer = Inr False \<or>
         (\<exists>e. answer = Inl e) \<and> openAIWSIngressLeaseTTL \<le> u - last (start # map snd (filter (\<lambda>x. fst x = Inr True) pre))))) \<and>
    (ingress_refresh_loop start ticks \<noteq> None \<and> now \<le> last (start # map snd ticks) + g \<longrightarrow>
      now - last (start # map snd (filter (\<lambda>x. fst x = Inr True) ticks)) < openAIWSIngressLeaseTTL + g)"
proof (intro conjI impI)
  show given_up: "ingress_refresh_loop start ticks = None \<longleftrightarrow>
      (\<exists>pre answer u post. ticks = pre @ (answer, u) # post \<and>
        (answer = Inr False \<or>
         (\<exists>e. answer = Inl e) \<and> openAIWSIngressLeaseTTL \<le> u - last (start # map snd (filter (\<lambda>x. fst x = Inr True) pre))))"
    by (simp add: loop_decides lost_at_def last_confirmed_def)
  assume alive: "ingress_refresh_loop start ticks \<noteq> None \<and> now \<le> last (start # map snd ticks) + g"
  show "now - last (start # map snd (filter (\<lambda>x. fst x = Inr True) ticks)) < openAIWSIngressLeaseTTL + g"
  proof (cases ticks rule: rev_cases)
    case Nil
    with alive show ?thesis by (simp add: openAIWSIngressLeaseTTL_def)
  next
    case (snoc pre x)
    obtain answer u where x: "x = (answer, u)" by (cases x)
    from alive given_up have "\<not> (answer = Inr False \<or>
        (\<exists>e. answer = Inl e) \<and> openAIWSIngressLeaseTTL \<le> u - last (start # map snd (filter (\<lambda>x. fst x = Inr True) pre)))"
      unfolding snoc x by (metis append.assoc append_Cons append_Nil)
    with alive show ?thesis by (cases answer) (auto simp: snoc x openAIWSIngressLeaseTTL_def)
  qed
qed

lemma unconfirmed_lease_given_up_witness:
  "ingress_refresh_loop 0 [(Inr True, 20 * 10 ^ 9), (Inl [], 42 * 10 ^ 9)] \<noteq> None \<and>
   62 * 10 ^ 9 - 20 * 10 ^ 9 < openAIWSIngressLeaseTTL + 22 * 10 ^ 9 \<and>
   ingress_refresh_loop 0 [(Inr True, 20 * 10 ^ 9), (Inl [], 42 * 10 ^ 9), (Inl [], 81 * 10 ^ 9)] = None"
proof -
  let ?ticks = "[(Inr True, 20 * 10 ^ 9), (Inl [], 42 * 10 ^ 9)] :: ((string + bool) \<times> int) list"
  have run: "ingress_refresh_loop 0 ?ticks \<noteq> None"
    by (simp add: ingress_refresh_def openAIWSIngressLeaseTTL_def)
  have "ingress_refresh_loop 0 (?ticks @ [(Inl [], 81 * 10 ^ 9)]) = None"
  proof (rule unconfirmed_lease_given_up [THEN conjunct1, THEN iffD2], intro exI conjI)
    show "?ticks @ [(Inl [], 81 * 10 ^ 9)] = ?ticks @ (Inl [], 81 * 10 ^ 9) # []" by simp
  qed (simp add: openAIWSIngressLeaseTTL_def)
  moreover have "62 * 10 ^ 9 - last (0 # map snd (filter (\<lambda>x. fst x = Inr True) ?ticks)) < openAIWSIngressLeaseTTL + 22 * 10 ^ 9"
    by (rule unconfirmed_lease_given_up [THEN conjunct2, THEN mp, OF conjI [OF run]]) simp
  ultimately show ?thesis using run by (simp del: ingress_refresh_loop.simps)
qed

end
