(* ===== verification/Concurrency_Faults.thy ===== *)
theory Concurrency_Faults
  imports Concurrency_Requests
begin

section \<open>Where slots are lost or refused\<close>

text \<open>
  Runs of the concurrency cache in which it does not do what its comments say: a lease that is refused
  below the limit, slots of a running process that another process drops when it starts, and an account
  with a slot that falls out of the active index.
\<close>

abbreviation cache15 :: concurrencyCache where
  "cache15 \<equiv> NewConcurrencyCache 15 0"

text \<open>
  Account 7 allows two requests. The slot of the first one expired after 15 minutes, the second one is
  still held: one place is taken.
\<close>

definition stale_slot :: redis_keys where
  "stale_slot = snd (run_at 600000 (AcquireAccountSlot cache15 7 2 ''p1-2'')
     (snd (run_at 0 (AcquireAccountSlot cache15 7 2 ''p1-1'') no_keys)))"

text \<open>The script that acquires a live lease counts slots that have expired: it refuses the lease although
  only one of the two places of the account is taken, and grants it once the number of slots has been read.\<close>
theorem stale_slot_refuses_lease:
  "fst (run_at 1000000 (AcquireLiveLease 7 2 3 9 5 ''l'' False) stale_slot) = Inr False \<and>
   fst (run_at 1000000 (GetAccountConcurrency cache15 7) stale_slot) = Inr 1 \<and>
   fst (run_at 1000000 (AcquireLiveLease 7 2 3 9 5 ''l'' False)
     (snd (run_at 1000000 (GetAccountConcurrency cache15 7) stale_slot))) = Inr True"
proof (intro conjI)
  show "fst (run_at 1000000 (AcquireLiveLease 7 2 3 9 5 ''l'' False) stale_slot) = Inr False"
    by code_simp
  show "fst (run_at 1000000 (GetAccountConcurrency cache15 7) stale_slot) = Inr 1"
    by code_simp
  show "fst (run_at 1000000 (AcquireLiveLease 7 2 3 9 5 ''l'' False)
      (snd (run_at 1000000 (GetAccountConcurrency cache15 7) stale_slot))) = Inr True"
    by code_simp
qed

text \<open>Process \<open>p1\<close> holds the only slot of account 7 and goes on; then process \<open>p2\<close> starts.\<close>

definition after_start :: "(string + unit) \<times> redis_keys" where
  "after_start = run_at 2000 (CleanupStaleProcessSlots cache15 ''p2'')
     (snd (run_at 1000 (AcquireAccountSlot cache15 7 1 ''p1-1'') no_keys))"

text \<open>When a process starts, the slots of the other running processes are dropped: a second request for an
  account that allows one gets a slot while the first one still runs.\<close>
theorem start_drops_running_slots:
  "fst (run_at 1000 (AcquireAccountSlot cache15 7 1 ''p1-1'') no_keys) = Inr True \<and>
   fst after_start = Inr () \<and>
   fst (run_at 3000 (AcquireAccountSlot cache15 7 1 ''p2-1'') (snd after_start)) = Inr True"
proof (intro conjI)
  show "fst (run_at 1000 (AcquireAccountSlot cache15 7 1 ''p1-1'') no_keys) = Inr True" by code_simp
  show "fst after_start = Inr ()" by code_simp
  show "fst (run_at 3000 (AcquireAccountSlot cache15 7 1 ''p2-1'') (snd after_start)) = Inr True" by code_simp
qed

text \<open>
  A release reads that account 7 is idle; before it removes the account from the index, another request
  takes a slot and puts the account into the index.
\<close>

definition late_removal :: "cache_event list" where
  "late_removal =
     [Begin (OpAcquireAccount 7 2 ''p1-1''), Serve 0, Serve 0,
      Begin (OpReleaseAccount 7 ''p1-1''), Serve 1, Serve 1, Serve 1, Serve 1, Serve 1,
      Begin (OpAcquireAccount 7 2 ''p1-2''), Serve 2, Serve 2, Serve 1]"

fun finished :: "'a redis_prog \<Rightarrow> bool" where
  "finished (Ret x) = True"
| "finished (Send cmd k) = False"

text \<open>A release and an acquisition that overlap can leave an account with a slot that is not in the active
  index, although no command failed: \<open>refreshActiveIndex\<close> reads the load and removes the member in two steps.\<close>
theorem overlap_loses_index:
  "run_to cache15 late_removal (\<lambda>s. list_all finished (cs_progs s) \<and>
     zmembers (zget (cs_now s) (accountSlotKey 7) (cs_keys s)) = [''p1-2''] \<and>
     zmembers (zget (cs_now s) accountActiveIndexKey (cs_keys s)) = [])"
  by code_simp

text \<open>
  The key allows one connection. The connection of process \<open>p1\<close> was confirmed half a millisecond after the
  start; from then on Redis does not answer it.
\<close>

definition unanswered :: "((string + bool) \<times> int) list" where
  "unanswered = [(Inl ''EOF'', 20000450000), (Inl ''EOF'', 40000450000), (Inl ''EOF'', 60000450000)]"

text \<open>A WebSocket connection that Redis no longer confirms goes on for longer than its lease: after a minute Redis
  admits a second connection of a key that allows one, and the first one waits for the next tick.\<close>
theorem connection_outlives_lease:
  "fst (run_at 0 (AcquireOpenAIWSIngressLease 5 1 ''p1-1'') no_keys) = Inr True \<and>
   ingress_refresh_loop 500000 unanswered = Some 500000 \<and>
   fst (run_at 60500 (AcquireOpenAIWSIngressLease 5 1 ''p2-1'')
     (snd (run_at 0 (AcquireOpenAIWSIngressLease 5 1 ''p1-1'') no_keys))) = Inr True"
proof (intro conjI)
  show "fst (run_at 0 (AcquireOpenAIWSIngressLease 5 1 ''p1-1'') no_keys) = Inr True" by code_simp
  show "ingress_refresh_loop 500000 unanswered = Some 500000" by code_simp
  show "fst (run_at 60500 (AcquireOpenAIWSIngressLease 5 1 ''p2-1'')
      (snd (run_at 0 (AcquireOpenAIWSIngressLease 5 1 ''p1-1'') no_keys))) = Inr True"
    by code_simp
qed

end
