(* ===== verification/Spec2Isabelle.thy ===== *)
theory Spec2Isabelle
  imports Composite_Route Keyword_Automaton Anthropic_Responses_Client Anthropic_Responses_SDK
    Responses_Anthropic_Strict Compat_Roundtrip Idempotency_Exclusive Auth_Limiter_Props
    Digest_Sessions_Props Session_Continuation_Props Stream_Circuit_Props
    Model_Allowlist_Props OpenAI_Models_Props Batch_Image_Faults Batch_Image_Replay
    Usage_Billing_Props Concurrency_Faults
begin

text \<open>
  sub2api is a gateway in front of model providers. A request comes in under one of several HTTP
  protocols, is checked and moderated, routed to a platform and an account, forwarded, and its answer
  is translated back into the protocol of the client and accounted for. The parts modelled here are
  those whose behaviour is decided by the program itself rather than by a provider or the database,
  all under \<open>src/backend/internal\<close>.

  Shared theories. \<open>Prelude\<close> holds Go strings as byte lists with the functions of package strings,
  times and durations as nanosecond counts, Go maps as finite maps, and stable sorting.
  \<open>App_Errors\<close> holds the errors of \<open>pkg/errors\<close> and decimal integers. \<open>Stream_Converter\<close>
  is the interface between a converter of event streams and a client that accepts or refuses the
  converted events, with the lemma that a step-wise relation between the two extends to streams.

  Platforms and routing. \<open>Platforms\<close> is the table of \<open>domain/platforms.go\<close> with its index and
  listings. \<open>Composite_Route\<close> is the choice of a platform for a composite group:
  \<open>service/composite_model_route.go\<close>, \<open>composite_route_resolver.go\<close>,
  \<open>composite_platform.go\<close> and the query of \<open>repository/composite_model_route_repo.go\<close>. The
  lemmas show that the best applicable row is chosen and that resolution fails closed.

  Content moderation. \<open>Keyword_Matcher\<close> is the Aho-Corasick matcher of
  \<open>service/content_moderation_keyword_matcher.go\<close>, array for array. \<open>Keyword_Trie\<close>,
  \<open>Keyword_Links\<close> and \<open>Keyword_Automaton\<close> show that insertion builds the trie of the
  keywords, that the breadth-first pass finds the longest proper suffixes, and that matching returns
  the first keyword of the list that occurs; \<open>Keyword_Words\<close> holds the facts about words. Fuel: the
  breadth-first queue gets one unit per node, a failure chain one per node, and both are shown to
  suffice.

  Protocol bridges. \<open>Claude_Models\<close> and \<open>Compat_Types\<close> hold the model names of
  \<open>pkg/claude\<close> and the message types of \<open>pkg/apicompat/types.go\<close> with the stream buffers.
  \<open>Anthropic_Responses\<close> is \<open>anthropic_to_responses_response.go\<close>, \<open>Responses_Anthropic\<close> is
  \<open>responses_to_anthropic.go\<close>, every field of the stream states included. The clients under
  \<open>Anthropic_Responses_Client\<close>, \<open>Anthropic_Responses_SDK\<close>,
  \<open>Responses_Anthropic_Client\<close> and \<open>Responses_Anthropic_Strict\<close> are specifications of what a
  receiver may demand: the weaker ones hold for every upstream stream, the stricter ones for streams
  that follow the upstream protocol, on the Anthropic side with blocks of text, thinking and tool use
  only, since a block of another type can break the conversion. \<open>Compat_Roundtrip\<close> goes there and
  back and says what of a response survives.

  Idempotency. \<open>Idempotency_Keys\<close> and \<open>Utf8_Truncation\<close> hold the pure parts of
  \<open>service/idempotency.go\<close>; \<open>Idempotency_Store\<close> the repository interface, its contract, and the
  statements of \<open>repository/idempotency_repo.go\<close> that meet it; \<open>Idempotency_Coordinator\<close> the
  function Execute as a program of calls and continuations. \<open>Idempotency_Replay\<close> shows what it does
  alone, by refinement of a verdict on the stored row; \<open>Idempotency_Exclusive\<close> interleaves any
  number of requests with time, lost calls and replies, lease renewal and cleanup: there is one live
  owner as long as no lock outlives its row and nobody acts after its lease, and two runs show that
  both conditions are needed.

  Authentication limiter. \<open>Auth_Limiter\<close> is \<open>service/invalid_auth_abuse_limiter.go\<close>: the table of
  clients, the expiry of windows and the eviction. \<open>Auth_Limiter_Props\<close> shows that clients do not
  influence each other while the table has room, that it stays bounded, and when a client is blocked.

  Sessions. \<open>Session_Cache\<close> is the bounded cache of \<open>service/session_memory_cache.go\<close> and
  \<open>Session_Store\<close> the interface its clients rely on; \<open>Session_Cache_Runs\<close> relates every sequence
  of calls to a map with deadlines. \<open>Digest_Sessions\<close> and \<open>Session_Continuation\<close> are the two
  clients, \<open>digest_session_store.go\<close> with its callers and \<open>openai_messages_continuation.go\<close>; their
  \<open>_Props\<close> theories show isolation, resumption, and where the two steps of a bind race.

  Proxy circuit. \<open>Stream_Circuit\<close> is \<open>service/openai_proxy_stream_circuit.go\<close>: incidents, scopes,
  quarantine and its bounds; \<open>Stream_Circuit_Props\<close> justifies every quarantine by its incidents.

  Models. \<open>OpenAI_Models\<close> holds the spellings of model names of \<open>pkg/openai\<close> and the services,
  \<open>Model_Allowlist\<close> the allowlists and listings of groups; the \<open>_Props\<close> theories compare the
  pattern matcher with the language of its patterns and the listing with what is admitted.

  Batch images. \<open>Batch_Image_Jobs\<close> holds the statuses of \<open>service/batch_image.go\<close> and each
  statement of \<open>repository/batch_image_repo.go\<close> that changes a job, with its condition;
  \<open>Batch_Image_Errors\<close> the errors; \<open>Batch_Image_Billing\<close> the transactions on holds of
  \<open>repository/usage_billing_repo.go\<close>; \<open>Batch_Image_Index\<close> the parsing and reconciliation of
  results in \<open>service/batch_image_processor.go\<close>; \<open>Batch_Image_Queue\<close> the Redis queue of
  \<open>repository/batch_image_queue.go\<close> and its worker; \<open>Batch_Image_Request\<close> the validation of
  \<open>service/batch_image_public.go\<close>. \<open>Batch_Image_Service\<close> writes Submit, Cancel, Process, Settle and
  the recovery as programs of calls with continuations, and \<open>Batch_Image_System\<close> gives the calls their
  meaning on the tables and lets any number of programs take steps in any order, a call
  succeeding, failing before or after its effect, or being answered from outside.
  \<open>Batch_Image_Ledger\<close> shows that movements conserve money, apply once and account for every frozen
  amount, exactly for multiples of 1e-8 and to within the rounding of the columns otherwise; \<open>Batch_Image_Settlement\<close> that settling and releasing can die anywhere and still happen
  exactly once; \<open>Batch_Image_Faults\<close> and \<open>Batch_Image_Replay\<close> where the services fall short
  of that: a hold finer than the columns, a release before the reservation, a refund after a capture
  and a retry whose digest holds the time. A program does finitely many calls, so runs need no
  fuel; \<open>run_for\<close> counts the calls after which one dies.

  Usage billing. \<open>Request_Once\<close> is the contract of a transaction that claims a request identifier, met
  by the movements of holds and by the booking of usage. \<open>Account_Quota\<close> is the quota in the JSON column
  of an account with the four variants of its statement, which are shown to agree, and its rolling
  and fixed periods; \<open>Usage_Billing\<close> is Apply of \<open>repository/usage_billing_repo.go\<close> with the commands of
  \<open>service/usage_billing.go\<close>; \<open>Usage_Billing_Props\<close> shows that a cost is booked once, at its rounded
  amount on every side, and that the end of a key's quota is signalled once.

  Concurrency slots. \<open>Redis_Sets\<close> holds the sorted sets of Redis. \<open>Concurrency_Store\<close> is the keyspace
  and the Lua scripts of \<open>repository/concurrency_cache.go\<close>, each one atomic step at a time of the
  Redis clock; \<open>Concurrency_Cache\<close> the operations of that file as programs of Redis commands with
  continuations; \<open>Concurrency_System\<close> any number of them in any number of processes, where time passes
  and each command may fail before or after its effect, with the locale that carries an invariant from
  single commands to every reachable state. \<open>Concurrency_Limits\<close> shows with it that no limit is exceeded
  and \<open>Concurrency_Leases\<close> that a lease is held in all its places or in none. \<open>Concurrency_Index\<close> and
  \<open>Concurrency_Cleanup\<close> run operations one after the other, none of whose commands fails, and show that
  then the active indexes miss no load
  and that the cleaning at the start of a process leaves no slot of another one.
  \<open>Concurrency_Service\<close> is \<open>service/concurrency_service.go\<close>, the process in front of the cache;
  \<open>Concurrency_Requests\<close> shows when a slot is granted, that a release undoes it, how long loads are
  remembered and exactly when a connection gives up its lease. \<open>Concurrency_Faults\<close> holds the runs in which slots
  are refused or lost: expired slots that are counted, the start of one process beside others, a release
  that overlaps with an acquisition, and a connection that outlives its lease. Programs send finitely
  many commands, so runs need no fuel.

  Conventions. Integers of Go's type int that only count or index are unbounded here; durations and
  times are unbounded too except where the code saturates or wraps. Amounts of money, which the code
  has as float64, are whole numbers of 1e-10 dollars, the scale it prints them with, and the
  columns of the balances round to 1e-8 as the database does; the rounding of float64 itself is
  left out. Cryptographic digests, JSON coding, log redaction, random identifiers and the clock are
  parameters of the definitions that use them. ASCII case mapping stands for strings.ToLower and
  strings.ToUpper.

  Not modelled. The handlers, which bind HTTP to these parts; the database layer generated under
  \<open>ent\<close>; the upstream clients, the WebSocket forwarder and the transport, whose effects are network
  operations; the account schedulers and price calculators, which compute with float64 and random
  draws, and the goroutines and timers around the concurrency service; logging, metrics and configuration loading; payments, users and keys; the bridges of
  requests and of chat completions; the providers, downloads and cleanup of batch images, which enter
  the model as calls whose answer is given.
\<close>

end
